(* ===== verification/Prelude.thy ===== *)
theory Prelude
  imports Main "HOL-Library.Word" "HOL-Library.Monad_Syntax" "HOL-Library.List_Lexorder"
begin

text \<open>
  Shared vocabulary of the development: the machine types the C sources use, return codes,
  the fault convention, and the generic list and option lemmas the components share.

  \<^item> Addresses are 64-bit words; \<open>NULL\<close> is \<open>0\<close>.
  \<^item> A computation of type \<open>'a option\<close> that yields \<open>None\<close> is a run of the C code that
    faults: it dereferences \<open>NULL\<close> or an address at which no live object is stored, or it
    reaches \<open>assert(0)\<close>. Ordinary error returns are values.
  \<^item> A linked list of the C sources (a head pointer and \<open>next\<close>/\<open>prev\<close> fields) is
    represented by the list of the addresses on it, head first.
\<close>

unbundle bit_operations_syntax

section \<open>Machine types\<close>

type_synonym u8 = "8 word"
type_synonym u16 = "16 word"
type_synonym u32 = "32 word"
type_synonym u64 = "64 word"
type_synonym ptr = u64
type_synonym bytes = "u8 list"

abbreviation (input) NULL :: ptr where
  "NULL \<equiv> 0"

type_synonym MDS_DEST = u64
type_synonym SaTimeT = int

datatype rc = NCSCC_RC_SUCCESS | NCSCC_RC_FAILURE

text \<open>The values of the two codes (\<open>base/ncsgl_defs.h\<close>); both are non-zero, so both are true in C.\<close>

definition rc_val :: "rc \<Rightarrow> u32" where
  "rc_val r = (case r of NCSCC_RC_SUCCESS \<Rightarrow> 1 | NCSCC_RC_FAILURE \<Rightarrow> 2)"

datatype SaAisErrorT =
    SA_AIS_OK | SA_AIS_ERR_LIBRARY | SA_AIS_ERR_TIMEOUT | SA_AIS_ERR_TRY_AGAIN
  | SA_AIS_ERR_NO_MEMORY | SA_AIS_ERR_NOT_EXIST | SA_AIS_ERR_EXIST
  | SA_AIS_ERR_NO_RESOURCES | SA_AIS_ERR_UNAVAILABLE | SA_AIS_ERR_BAD_HANDLE
  | SA_AIS_ERR_INVALID_PARAM | SA_AIS_ERR_FAILED_OPERATION | SA_AIS_ERR_ZERO

text \<open>
  \<open>SA_AIS_ERR_ZERO\<close> stands for the value 0 that a field of an event cleared with
  \<open>memset\<close> holds; it is not a member of the C enumeration.
\<close>

definition m_NCS_NODE_ID_FROM_MDS_DEST :: "MDS_DEST \<Rightarrow> u32" where
  "m_NCS_NODE_ID_FROM_MDS_DEST mdsdest = ucast (drop_bit 32 mdsdest)"

definition flag_set :: "'a::len word \<Rightarrow> 'a word \<Rightarrow> bool" where
  "flag_set flags f \<longleftrightarrow> flags AND f = f"

section \<open>Collections of facts\<close>

named_theorems fault_simps \<open>evaluation of partial operations on well-formed states\<close>
named_theorems frame \<open>parts of the state an operation leaves alone\<close>
named_theorems wf_intros \<open>preservation of well-formedness\<close>

section \<open>Options\<close>

lemma bind_Some_iff [simp]:
  "(x \<bind> f = Some y) \<longleftrightarrow> (\<exists>a. x = Some a \<and> f a = Some y)" for x :: "'a option"
  by (rule bind_eq_Some_conv)

lemma the_Some_in_dom: "p \<in> dom m \<Longrightarrow> m p = Some (the (m p))"
  by auto

section \<open>Lists of addresses\<close>

text \<open>A C \<open>for\<close> loop over a list, threading the control block.\<close>

fun for_each :: "('a \<Rightarrow> 's \<Rightarrow> 's option) \<Rightarrow> 'a list \<Rightarrow> 's \<Rightarrow> 's option" where
  "for_each f [] s = Some s"
| "for_each f (x # xs) s = do { s' \<leftarrow> f x s; for_each f xs s' }"

text \<open>The C idiom that walks a list to the first cell satisfying a test.\<close>

fun first_such :: "('a \<Rightarrow> bool option) \<Rightarrow> 'a list \<Rightarrow> 'a option option" where
  "first_such t [] = Some None"
| "first_such t (x # xs) = do {
     b \<leftarrow> t x;
     if b then Some (Some x) else first_such t xs }"

lemma first_such_total:
  "(\<And>x. x \<in> set xs \<Longrightarrow> t x = Some (P x)) \<Longrightarrow> first_such t xs = Some (List.find P xs)"
  by (induction xs) auto

lemma first_such_SomeD:
  "first_such t xs = Some (Some x) \<Longrightarrow> x \<in> set xs \<and> t x = Some True"
  by (induction xs) (auto split: if_splits)

lemma find_SomeD: "List.find P xs = Some x \<Longrightarrow> x \<in> set xs \<and> P x"
  by (induction xs) (auto split: if_splits)

lemma find_NoneD: "List.find P xs = None \<Longrightarrow> x \<in> set xs \<Longrightarrow> \<not> P x"
  by (induction xs) (auto split: if_splits)

lemma set_butlast_distinct:
  "distinct xs \<Longrightarrow> xs \<noteq> [] \<Longrightarrow> set (butlast xs) = set xs - {last xs}"
  by (induction xs rule: rev_induct) auto

lemma remove1_last_distinct:
  "distinct xs \<Longrightarrow> xs \<noteq> [] \<Longrightarrow> remove1 (last xs) xs = butlast xs"
  by (induction xs rule: rev_induct) (auto simp: remove1_append)

end
