(* ===== verification/Glsv_Data.thy ===== *)
theory Glsv_Data
  imports Prelude
begin

text \<open>
  Data shared by the parts of the Global Lock Service: the lock modes, flags and states of
  \<open>saLck.h\<close>, the lock request record of \<open>lck/common/glsv_lck.h\<close>, the events the lock node
  director (GLND), the lock director (GLD) and the agent (GLA) exchange, and resource names.

  A C enumeration whose value may also be the 0 left by \<open>memset\<close> has one constructor more
  than the source, named \<open>..._UNSET\<close>.
\<close>

section \<open>Enumerations of \<open>saLck.h\<close> and \<open>glsv_defs.h\<close>\<close>

datatype SaLckLockModeT = SA_LCK_MODE_UNSET | SA_LCK_PR_LOCK_MODE | SA_LCK_EX_LOCK_MODE

datatype SaLckLockStatusT =
    SA_LCK_STATUS_UNSET | SA_LCK_LOCK_GRANTED | SA_LCK_LOCK_DEADLOCK | SA_LCK_LOCK_NOT_QUEUED
  | SA_LCK_LOCK_ORPHANED | SA_LCK_LOCK_NO_MORE | SA_LCK_LOCK_DUPLICATE_EX
  | GLSV_LOCK_STATUS_RELEASED

datatype GLSV_CALL_TYPE = GLSV_CALL_UNSET | GLSV_SYNC_CALL | GLSV_ASYNC_CALL

datatype GLND_RESOURCE_STATUS =
    GLND_RESOURCE_NOT_INITIALISED | GLND_RESOURCE_ACTIVE_MASTER
  | GLND_RESOURCE_ACTIVE_NON_MASTER | GLND_RESOURCE_ELECTION_IN_PROGESS
  | GLND_RESOURCE_MASTER_RESTARTED | GLND_RESOURCE_MASTER_OPERATIONAL
  | GLND_RESOURCE_ELECTION_COMPLETED

datatype GLND_NODE_STATUS =
    GLND_NODE_STATUS_UNSET | GLND_CLIENT_INFO_GET_STATE | GLND_RESTART_STATE
  | GLND_OPERATIONAL_STATE | GLND_DOWN_STATE

definition SA_LCK_LOCK_NO_QUEUE :: u32 where "SA_LCK_LOCK_NO_QUEUE = 1"
definition SA_LCK_LOCK_ORPHAN :: u32 where "SA_LCK_LOCK_ORPHAN = 2"
definition SA_LCK_RESOURCE_CREATE :: u32 where "SA_LCK_RESOURCE_CREATE = 1"
definition GLSV_LOCK_WAITER_CBK_REG :: u16 where "GLSV_LOCK_WAITER_CBK_REG = 4"
definition GLND_RES_LOCK_INFO_CKPT_MAX_SECTIONS :: u32 where
  "GLND_RES_LOCK_INFO_CKPT_MAX_SECTIONS = 1000"

text \<open>\<open>SaTimeT\<close> nanoseconds to ticks of ten milliseconds; C division truncates towards zero.\<close>

definition m_GLSV_CONVERT_SATIME_TEN_MILLI_SEC :: "SaTimeT \<Rightarrow> SaTimeT" where
  "m_GLSV_CONVERT_SATIME_TEN_MILLI_SEC t = sgn t * (\<bar>t\<bar> div 10000000)"

section \<open>Resource names\<close>

text \<open>
  \<open>SaNameT\<close> is a 16-bit length followed by a fixed array of octets; comparing two names with
  \<open>memcmp\<close> over \<open>sizeof(SaNameT)\<close> compares both fields.
\<close>

record SaNameT =
  name_length :: u16
  name_value :: bytes

definition htons :: "u16 \<Rightarrow> u16" where
  "htons s = (push_bit 8 s) OR (drop_bit 8 s)"

section \<open>Lock requests\<close>

record GLSV_LOCK_REQ_INFO =
  lockid :: u64
  lcl_lockid :: u64
  handleId :: u64
  invocation :: u64
  lock_type :: SaLckLockModeT
  timeout :: SaTimeT
  lockFlags :: u32
  lockStatus :: SaLckLockStatusT
  call_type :: GLSV_CALL_TYPE
  agent_mds_dest :: MDS_DEST
  waiter_signal :: u64

definition lock_req_zero :: GLSV_LOCK_REQ_INFO where
  "lock_req_zero =
     \<lparr>lockid = 0, lcl_lockid = 0, handleId = 0, invocation = 0, lock_type = SA_LCK_MODE_UNSET,
      timeout = 0, lockFlags = 0, lockStatus = SA_LCK_STATUS_UNSET, call_type = GLSV_CALL_UNSET,
      agent_mds_dest = 0, waiter_signal = 0\<rparr>"

section \<open>Events\<close>

text \<open>Events a lock node director sends to the agent (macros of \<open>glnd_mds.h\<close>).\<close>

datatype gla_evt =
    GLA_SYNC_LOCK SaAisErrorT u64 SaLckLockStatusT u64
      \<comment> \<open>error, lock id, lock status, client handle\<close>
  | GLA_LOCK_GRANT_CBK SaAisErrorT u64 u64 SaLckLockModeT u32 u64 SaLckLockStatusT u64
      \<comment> \<open>error, lock id, local lock id, mode, resource id, invocation, status, client handle\<close>
  | GLA_LOCK_WAITER_CBK u64 u32 u64 SaLckLockModeT SaLckLockModeT u64 u64 u64
      \<comment> \<open>lock id, resource id, invocation, mode held, mode requested, handle, signal, local id\<close>
  | GLA_SYNC_UNLOCK SaAisErrorT u64
  | GLA_UNLOCK_CBK SaAisErrorT u64 u32 u64 SaLckLockStatusT
      \<comment> \<open>error, invocation, resource id, lock id, status\<close>

datatype node_lck_type =
    GLSV_GLND_EVT_LCK_REQ | GLSV_GLND_EVT_UNLCK_REQ | GLSV_GLND_EVT_LCK_RSP
  | GLSV_GLND_EVT_UNLCK_RSP | GLSV_GLND_EVT_LCK_REQ_CANCEL | GLSV_GLND_EVT_LCK_REQ_ORPHAN
  | GLSV_GLND_EVT_LCK_WAITER_CALLBACK

record GLSV_EVT_GLND_LCK_INFO =
  li_resource_id :: u32
  li_lcl_resource_id :: u32
  li_client_handle_id :: u64
  li_glnd_mds_dest :: MDS_DEST
  li_lockid :: u64
  li_lcl_lockid :: u64
  li_lock_type :: SaLckLockModeT
  li_lockFlags :: u32
  li_lockStatus :: SaLckLockStatusT
  li_waiter_signal :: u64
  li_mode_held :: SaLckLockModeT
  li_error :: SaAisErrorT
  li_invocation :: u64

record GLSV_GLND_DD_INFO =
  dd_rsc_id :: u32
  blck_dest_id :: MDS_DEST
  blck_hdl_id :: u64
  dd_lck_id :: u64

record GLSV_EVT_GLND_DD_PROBE_INFO =
  probe_rsc_id :: u32
  probe_lcl_rsc_id :: u32
  probe_hdl_id :: u64
  probe_dest_id :: MDS_DEST
  probe_lck_id :: u64
  dd_info_list :: "GLSV_GLND_DD_INFO list"

record GLSV_EVT_GLND_RSC_INFO =
  ri_resource_id :: u32
  ri_lcl_resource_id :: u32
  ri_unlock_req_sent :: bool
  ri_glnd_mds_dest :: MDS_DEST
  ri_num_requests :: u32
  ri_list_of_req :: "GLSV_LOCK_REQ_INFO list"

record GLSV_EVT_GLND_RSC_GLD_INFO =
  gi_rsc_name :: SaNameT
  gi_rsc_id :: u32
  gi_master_dest_id :: MDS_DEST
  gi_can_orphan :: bool
  gi_orphan_mode :: SaLckLockModeT
  gi_error :: SaAisErrorT

record GLSV_EVT_GLND_NEW_MAST_INFO =
  nm_rsc_id :: u32
  nm_master_dest_id :: MDS_DEST
  nm_orphan :: bool
  nm_orphan_lck_mode :: SaLckLockModeT
  nm_status :: GLND_RESOURCE_STATUS

record GLSV_GLND_RSC_MASTER_INFO =
  mi_rsc_id :: u32
  mi_master_dest_id :: MDS_DEST
  mi_master_status :: GLND_NODE_STATUS

text \<open>Events delivered to a lock node director: the tag and the union of \<open>GLSV_GLND_EVT\<close>.\<close>

datatype glnd_evt =
    NODE_LCK node_lck_type GLSV_EVT_GLND_LCK_INFO
  | FWD_DD_PROBE GLSV_EVT_GLND_DD_PROBE_INFO
  | DD_PROBE GLSV_EVT_GLND_DD_PROBE_INFO
  | SND_RSC_INFO GLSV_EVT_GLND_RSC_INFO
  | LCK_PURGE u32
  | RSC_GLD_DETAILS GLSV_EVT_GLND_RSC_GLD_INFO
  | RSC_NEW_MASTER GLSV_EVT_GLND_NEW_MAST_INFO
  | RSC_MASTER_INFO "GLSV_GLND_RSC_MASTER_INFO list"
  | NON_MASTER_INFO MDS_DEST GLND_NODE_STATUS

record GLSV_RSC_DETAILS =
  rd_rsc_id :: u32
  rd_orphan :: bool
  rd_lck_mode :: SaLckLockModeT
  rd_lcl_ref_cnt :: u32

text \<open>Events a lock node director sends to the lock director.\<close>

datatype glnd_to_gld =
    GLD_RSC_CLOSE GLSV_RSC_DETAILS
  | GLD_SET_ORPHAN GLSV_RSC_DETAILS

definition m_GLND_RESOURCE_LCK_FILL :: "u32 \<Rightarrow> bool \<Rightarrow> SaLckLockModeT \<Rightarrow> glnd_to_gld" where
  "m_GLND_RESOURCE_LCK_FILL rid is_orphan l_mode =
     GLD_SET_ORPHAN \<lparr>rd_rsc_id = rid, rd_orphan = is_orphan, rd_lck_mode = l_mode,
                     rd_lcl_ref_cnt = 0\<rparr>"

text \<open>The macro that fills a node-to-node lock event; \<open>glnd_mds_dest\<close> starts as 0.\<close>

definition m_GLND_RESOURCE_NODE_LCK_INFO_FILL ::
  "u32 \<Rightarrow> u32 \<Rightarrow> u64 \<Rightarrow> u64 \<Rightarrow> SaLckLockModeT \<Rightarrow> u32 \<Rightarrow> SaLckLockStatusT \<Rightarrow> u64
   \<Rightarrow> SaLckLockModeT \<Rightarrow> SaAisErrorT \<Rightarrow> u64 \<Rightarrow> u64 \<Rightarrow> GLSV_EVT_GLND_LCK_INFO" where
  "m_GLND_RESOURCE_NODE_LCK_INFO_FILL resid lcl_resid hdl_id lock_id l_type l_flag l_status
     waiter_sig l_held l_err l_lockid l_invocation =
     \<lparr>li_resource_id = resid, li_lcl_resource_id = lcl_resid, li_client_handle_id = hdl_id,
      li_glnd_mds_dest = 0, li_lockid = lock_id, li_lcl_lockid = l_lockid, li_lock_type = l_type,
      li_lockFlags = l_flag, li_lockStatus = l_status, li_waiter_signal = waiter_sig,
      li_mode_held = l_held, li_error = l_err, li_invocation = l_invocation\<rparr>"

lemma htons_htons [simp]: "htons (htons s) = s"
  by (rule bit_word_eqI) (auto simp: htons_def bit_simps)

lemma htons_inject [simp]: "htons a = htons b \<longleftrightarrow> a = b"
  by (metis htons_htons)

end
