(* ===== verification/Key_Table.thy ===== *)
theory Key_Table
  imports Prelude
begin

text \<open>
  The contract of the keyed trees of \<open>base/ncspatricia.h\<close>, which the lock director and the
  lock node director use for every index. A tree holds nodes under octet-string keys of one
  fixed size; \<open>add\<close> refuses a key that is present, and also the all-zero key, which the
  embedded root node occupies; \<open>getnext\<close> returns the entry with the next key in
  \<open>memcmp\<close> order.

  The first part is a reference table, an association list in key order. The locale
  \<open>keyed_tree\<close> states the contract for any representation, and proves what its clients use
  once; the reference table is interpreted here.
\<close>

section \<open>Key images\<close>

text \<open>
  The trees are keyed by the memory image of an integer (\<open>(uint8_t *)&id\<close>): the low octet
  first on the little-endian hosts the service runs on.
\<close>

definition key32 :: "u32 \<Rightarrow> bytes" where
  "key32 w = [ucast w, ucast (drop_bit 8 w), ucast (drop_bit 16 w), ucast (drop_bit 24 w)]"

definition key64 :: "u64 \<Rightarrow> bytes" where
  "key64 w = [ucast w, ucast (drop_bit 8 w), ucast (drop_bit 16 w), ucast (drop_bit 24 w),
              ucast (drop_bit 32 w), ucast (drop_bit 40 w), ucast (drop_bit 48 w),
              ucast (drop_bit 56 w)]"

definition zero_key :: "bytes \<Rightarrow> bool" where
  "zero_key k \<longleftrightarrow> (\<forall>b \<in> set k. b = 0)"

lemma octet_eq_bit:
  fixes v w :: "'a::len word"
  assumes "(ucast (drop_bit m v) :: u8) = ucast (drop_bit m w)"
    and "m \<le> n" and "n < m + 8"
  shows "bit v n = bit w n"
proof -
  have "bit (ucast (drop_bit m v) :: u8) (n - m) = bit (ucast (drop_bit m w) :: u8) (n - m)"
    using assms(1) by simp
  moreover have "n - m < 8" and "m + (n - m) = n" using assms(2,3) by auto
  ultimately show ?thesis by (auto simp: bit_simps)
qed

lemma key32_inject [simp]: "key32 v = key32 w \<longleftrightarrow> v = w"
proof
  assume "key32 v = key32 w"
  then have eq: "(ucast (drop_bit (8 * i) v) :: u8) = ucast (drop_bit (8 * i) w)" if "i < 4" for i
  proof -
    from that have "i \<in> {0, 1, 2, 3}" by auto
    with \<open>key32 v = key32 w\<close> show ?thesis by (auto simp: key32_def)
  qed
  show "v = w"
  proof (rule bit_word_eqI)
    fix n assume "n < LENGTH(32)"
    then have "n div 8 < 4" by auto
    from octet_eq_bit [OF eq [OF this], of n] show "bit v n = bit w n" by auto
  qed
qed auto

lemma key64_inject [simp]: "key64 v = key64 w \<longleftrightarrow> v = w"
proof
  assume "key64 v = key64 w"
  then have eq: "(ucast (drop_bit (8 * i) v) :: u8) = ucast (drop_bit (8 * i) w)" if "i < 8" for i
  proof -
    from that have "i \<in> {0, 1, 2, 3, 4, 5, 6, 7}" by auto
    with \<open>key64 v = key64 w\<close> show ?thesis by (auto simp: key64_def)
  qed
  show "v = w"
  proof (rule bit_word_eqI)
    fix n assume "n < LENGTH(64)"
    then have "n div 8 < 8" by auto
    from octet_eq_bit [OF eq [OF this], of n] show "bit v n = bit w n" by auto
  qed
qed auto

lemma zero_key32 [simp]: "zero_key (key32 v) \<longleftrightarrow> v = 0"
proof
  assume "zero_key (key32 v)"
  then have "key32 v = key32 0" by (simp add: zero_key_def key32_def)
  then show "v = 0" by simp
qed (simp add: zero_key_def key32_def)

lemma zero_key64 [simp]: "zero_key (key64 v) \<longleftrightarrow> v = 0"
proof
  assume "zero_key (key64 v)"
  then have "key64 v = key64 0" by (simp add: zero_key_def key64_def)
  then show "v = 0" by simp
qed (simp add: zero_key_def key64_def)

section \<open>The reference table\<close>

type_synonym 'v table = "(bytes \<times> 'v) list"

definition tbl_empty :: "'v table" where
  "tbl_empty = []"

definition tbl_get :: "'v table \<Rightarrow> bytes \<Rightarrow> 'v option" where
  "tbl_get t k = map_of t k"

fun tbl_insert :: "bytes \<Rightarrow> 'v \<Rightarrow> 'v table \<Rightarrow> 'v table" where
  "tbl_insert k v [] = [(k, v)]"
| "tbl_insert k v ((k', v') # t) =
     (if k < k' then (k, v) # (k', v') # t else (k', v') # tbl_insert k v t)"

definition tbl_add :: "bytes \<Rightarrow> 'v \<Rightarrow> 'v table \<Rightarrow> 'v table \<times> rc" where
  "tbl_add k v t =
     (if zero_key k \<or> tbl_get t k \<noteq> None then (t, NCSCC_RC_FAILURE)
      else (tbl_insert k v t, NCSCC_RC_SUCCESS))"

definition tbl_del :: "bytes \<Rightarrow> 'v table \<Rightarrow> 'v table \<times> rc" where
  "tbl_del k t =
     (if tbl_get t k = None then (t, NCSCC_RC_FAILURE)
      else (filter (\<lambda>e. fst e \<noteq> k) t, NCSCC_RC_SUCCESS))"

text \<open>\<open>getnext\<close>: \<open>None\<close> is the \<open>NULL\<close> key that asks for the first entry.\<close>

definition tbl_getnext :: "'v table \<Rightarrow> bytes option \<Rightarrow> (bytes \<times> 'v) option" where
  "tbl_getnext t ko =
     (case ko of
        None \<Rightarrow> List.find (\<lambda>e. \<not> zero_key (fst e)) t
      | Some k \<Rightarrow> List.find (\<lambda>e. k < fst e) t)"

definition tbl_wf :: "'v table \<Rightarrow> bool" where
  "tbl_wf t \<longleftrightarrow> sorted_wrt (<) (map fst t) \<and> (\<forall>k \<in> fst ` set t. \<not> zero_key k)"

lemma sorted_wrt_less_distinct: "sorted_wrt (<) (ks :: bytes list) \<Longrightarrow> distinct ks"
  by (induction ks) auto

lemma set_tbl_insert [simp]: "set (tbl_insert k v t) = insert (k, v) (set t)"
  by (induction k v t rule: tbl_insert.induct) auto

lemma sorted_tbl_insert:
  "sorted_wrt (<) (map fst t) \<Longrightarrow> k \<notin> fst ` set t \<Longrightarrow> sorted_wrt (<) (map fst (tbl_insert k v t))"
proof (induction k v t rule: tbl_insert.induct)
  case (2 k v k' v' t)
  show ?case
  proof (cases "k < k'")
    case True
    with "2.prems" show ?thesis by (auto intro: less_trans)
  next
    case False
    with "2.prems" have "k' < k" by auto
    with False "2.prems" "2.IH" show ?thesis by auto
  qed
qed auto

lemma map_of_tbl_insert:
  "k \<notin> fst ` set t \<Longrightarrow> map_of (tbl_insert k v t) = (map_of t)(k \<mapsto> v)"
  by (induction k v t rule: tbl_insert.induct) (auto simp: fun_eq_iff)

lemma tbl_get_None_iff: "tbl_get t k = None \<longleftrightarrow> k \<notin> fst ` set t"
  by (simp add: tbl_get_def map_of_eq_None_iff)

lemma tbl_get_SomeD: "tbl_get t k = Some v \<Longrightarrow> (k, v) \<in> set t"
  by (simp add: tbl_get_def map_of_SomeD)

lemma tbl_get_in: "tbl_wf t \<Longrightarrow> (k, v) \<in> set t \<Longrightarrow> tbl_get t k = Some v"
  by (simp add: tbl_get_def tbl_wf_def sorted_wrt_less_distinct)

lemma tbl_wf_empty [simp]: "tbl_wf tbl_empty"
  by (simp add: tbl_wf_def tbl_empty_def)

lemma tbl_wf_add: "tbl_wf t \<Longrightarrow> tbl_wf (fst (tbl_add k v t))"
  by (auto simp: tbl_add_def tbl_wf_def tbl_get_None_iff sorted_tbl_insert)

lemma tbl_wf_del: "tbl_wf t \<Longrightarrow> tbl_wf (fst (tbl_del k t))"
  by (auto simp: tbl_del_def tbl_wf_def sorted_wrt_map sorted_wrt_filter)

lemma tbl_get_add:
  "tbl_get (fst (tbl_add k v t)) =
     (if zero_key k \<or> tbl_get t k \<noteq> None then tbl_get t else (tbl_get t)(k \<mapsto> v))"
  by (auto simp: tbl_add_def tbl_get_def map_of_tbl_insert map_of_eq_None_iff fun_eq_iff)

lemma map_of_filter_key: "map_of (filter (\<lambda>e. fst e \<noteq> k) t) = (map_of t)(k := None)"
  by (induction t) (auto simp: fun_eq_iff)

lemma tbl_get_del: "tbl_get (fst (tbl_del k t)) = (tbl_get t)(k := None)"
  by (auto simp: tbl_del_def tbl_get_def map_of_filter_key fun_eq_iff)

lemma snd_tbl_add:
  "snd (tbl_add k v t) =
     (if zero_key k \<or> tbl_get t k \<noteq> None then NCSCC_RC_FAILURE else NCSCC_RC_SUCCESS)"
  by (simp add: tbl_add_def)

lemma snd_tbl_del:
  "snd (tbl_del k t) = (if tbl_get t k = None then NCSCC_RC_FAILURE else NCSCC_RC_SUCCESS)"
  by (simp add: tbl_del_def)

lemmas tbl_specs = tbl_wf_add tbl_wf_del tbl_get_add tbl_get_del snd_tbl_add snd_tbl_del

section \<open>The contract as a locale\<close>

locale keyed_tree =
  fixes inv :: "'t \<Rightarrow> bool"
    and lookup :: "'t \<Rightarrow> bytes \<Rightarrow> 'v option"
    and add :: "bytes \<Rightarrow> 'v \<Rightarrow> 't \<Rightarrow> 't \<times> rc"
    and del :: "bytes \<Rightarrow> 't \<Rightarrow> 't \<times> rc"
    and ok_key :: "'t \<Rightarrow> bytes \<Rightarrow> 'v \<Rightarrow> bool"
  assumes lookup_add: "inv t \<Longrightarrow> ok_key t k v \<Longrightarrow> lookup (fst (add k v t)) =
            (if zero_key k \<or> lookup t k \<noteq> None then lookup t else (lookup t)(k \<mapsto> v))"
    and rc_add: "inv t \<Longrightarrow> ok_key t k v \<Longrightarrow> snd (add k v t) =
            (if zero_key k \<or> lookup t k \<noteq> None then NCSCC_RC_FAILURE else NCSCC_RC_SUCCESS)"
    and lookup_del: "inv t \<Longrightarrow> lookup (fst (del k t)) = (lookup t)(k := None)"
    and rc_del: "inv t \<Longrightarrow> snd (del k t) =
            (if lookup t k = None then NCSCC_RC_FAILURE else NCSCC_RC_SUCCESS)"
    and inv_add: "inv t \<Longrightarrow> ok_key t k v \<Longrightarrow> inv (fst (add k v t))"
    and inv_del: "inv t \<Longrightarrow> inv (fst (del k t))"
begin

lemma add_then_get:
  assumes "inv t" and "ok_key t k v" and "snd (add k v t) = NCSCC_RC_SUCCESS"
  shows "lookup (fst (add k v t)) k = Some v"
  using assms by (auto simp: lookup_add rc_add split: if_splits)

lemma add_keeps_others:
  assumes "inv t" and "ok_key t k v" and "k' \<noteq> k"
  shows "lookup (fst (add k v t)) k' = lookup t k'"
  using assms by (simp add: lookup_add)

lemma del_then_get: "inv t \<Longrightarrow> lookup (fst (del k t)) k = None"
  by (simp add: lookup_del)

lemma add_del_roundtrip:
  assumes "inv t" and "ok_key t k v" and "snd (add k v t) = NCSCC_RC_SUCCESS"
  shows "lookup (fst (del k (fst (add k v t)))) = lookup t"
proof -
  from assms have fresh: "lookup t k = None" and nz: "\<not> zero_key k"
    by (auto simp: rc_add split: if_splits)
  from assms have "inv (fst (add k v t))" by (simp add: inv_add)
  then have "lookup (fst (del k (fst (add k v t)))) = (lookup (fst (add k v t)))(k := None)"
    by (rule lookup_del)
  with fresh nz assms show ?thesis by (auto simp: lookup_add fun_eq_iff)
qed

end

interpretation ref_tbl: keyed_tree tbl_wf tbl_get tbl_add tbl_del "\<lambda>_ _ _. True"
  by unfold_locales (simp_all add: tbl_specs)

section \<open>Walking a table with \<open>getnext\<close>\<close>

lemma tbl_getnext_first:
  "tbl_wf t \<Longrightarrow> tbl_getnext t None = (case t of [] \<Rightarrow> None | e # _ \<Rightarrow> Some e)"
  by (cases t) (auto simp: tbl_getnext_def tbl_wf_def)

lemma tbl_getnext_append:
  assumes "tbl_wf (xs @ (k, v) # ys)"
  shows "tbl_getnext (xs @ (k, v) # ys) (Some k) = (case ys of [] \<Rightarrow> None | e # _ \<Rightarrow> Some e)"
proof -
  from assms have 1: "\<And>e. e \<in> set xs \<Longrightarrow> \<not> k < fst e"
    by (force simp: tbl_wf_def sorted_wrt_append dest: less_asym)
  have "List.find (\<lambda>e. k < fst e) (xs @ zs) = List.find (\<lambda>e. k < fst e) zs" for zs
    using 1 by (induction xs) auto
  moreover from assms have "\<And>e. e \<in> set ys \<Longrightarrow> k < fst e"
    by (auto simp: tbl_wf_def sorted_wrt_append)
  ultimately show ?thesis by (auto simp: tbl_getnext_def split: list.split)
qed

text \<open>
  The loop every client writes to visit a whole tree: the first entry, then the successor of
  the key just visited, until \<open>getnext\<close> returns \<open>NULL\<close>. The number of entries is enough fuel.
\<close>

fun tbl_walk :: "nat \<Rightarrow> 'v table \<Rightarrow> bytes option \<Rightarrow> (bytes \<times> 'v) list" where
  "tbl_walk 0 t ko = []"
| "tbl_walk (Suc n) t ko =
     (case tbl_getnext t ko of None \<Rightarrow> [] | Some e \<Rightarrow> e # tbl_walk n t (Some (fst e)))"

definition tbl_entries :: "'v table \<Rightarrow> (bytes \<times> 'v) list" where
  "tbl_entries t = tbl_walk (length t) t None"

lemma tbl_walk_from:
  "tbl_wf (xs @ e # ys) \<Longrightarrow> length ys \<le> n \<Longrightarrow> tbl_walk n (xs @ e # ys) (Some (fst e)) = ys"
proof (induction ys arbitrary: xs e n)
  case Nil
  then show ?case
    by (cases n; cases e) (simp_all add: tbl_getnext_append)
next
  case (Cons y ys)
  then obtain n' where n: "n = Suc n'" by (cases n) auto
  from Cons.prems have "tbl_getnext (xs @ e # y # ys) (Some (fst e)) = Some y"
    by (cases e) (simp add: tbl_getnext_append)
  moreover have "tbl_walk n' ((xs @ [e]) @ y # ys) (Some (fst y)) = ys"
    by (rule Cons.IH) (use Cons.prems n in simp_all)
  ultimately show ?case by (simp add: n)
qed

lemma tbl_entries_id [simp]: "tbl_wf t \<Longrightarrow> tbl_entries t = t"
proof (cases t)
  case (Cons e es)
  assume wf: "tbl_wf t"
  with Cons have "tbl_getnext t None = Some e" by (simp add: tbl_getnext_first)
  moreover have "tbl_walk (length es) ([] @ e # es) (Some (fst e)) = es"
    by (rule tbl_walk_from) (use wf Cons in simp_all)
  ultimately show ?thesis using Cons by (simp add: tbl_entries_def)
qed (simp add: tbl_entries_def)

end
