(* ===== verification/Glnd_State.thy ===== *)
theory Glnd_State
  imports Glsv_Data Key_Table
begin

text \<open>
  The control block of the lock node director (\<open>lck/lcknd/glnd_cb.h\<close>, \<open>glnd_res.h\<close>,
  \<open>glnd_client.h\<close>) as an explicit store: lock nodes, resources and clients are objects at
  addresses, shared between the resource lists and the client lists as in the C code.

  What the node director calls but another part of the system decides is in the
  environment record: the address \<open>malloc\<close> returns, the handle and timer the base library
  hands out, and whether a message to another node director is accepted by the transport.
  What it sends, starts, stops or checkpoints is appended to the \<open>out\<close> trace, in order.
  The trace functions of \<open>logtrace.h\<close> are not modelled, except where an argument of a trace
  call dereferences a pointer the code has not checked yet.
\<close>

section \<open>Timers\<close>

datatype GLND_TMR_TYPE =
    GLND_TMR_UNSET | GLND_TMR_RES_LOCK_REQ_TIMEOUT | GLND_TMR_RES_NM_LOCK_REQ_TIMEOUT
  | GLND_TMR_RES_NM_UNLOCK_REQ_TIMEOUT | GLND_TMR_RES_REQ_TIMEOUT | GLND_TMR_AGENT_INFO_GET_WAIT
  | GLND_TMR_MAX

record GLND_TMR =
  tmr_id :: u64
  tmr_type :: GLND_TMR_TYPE
  tmr_cb_hdl :: u32
  tmr_opq_hdl :: u32
  tmr_is_active :: bool

definition tmr_zero :: GLND_TMR where
  "tmr_zero = \<lparr>tmr_id = 0, tmr_type = GLND_TMR_UNSET, tmr_cb_hdl = 0, tmr_opq_hdl = 0,
               tmr_is_active = False\<rparr>"

section \<open>Lock nodes, resources and clients\<close>

record GLND_RES_LOCK_LIST_INFO =
  lck_info_hdl_id :: u32
  lock_info :: GLSV_LOCK_REQ_INFO
  timeout_tmr :: GLND_TMR
  req_mdest_id :: MDS_DEST
  lcl_resource_id :: u32
  glnd_res_lock_mds_ctxt :: bytes
  lock_rsp_not_sent :: bool
  unlock_req_sent :: bool
  unlock_call_type :: GLSV_CALL_TYPE
  non_master_status :: GLND_NODE_STATUS
  res_info :: ptr

definition lck_zero :: GLND_RES_LOCK_LIST_INFO where
  "lck_zero = \<lparr>lck_info_hdl_id = 0, lock_info = lock_req_zero, timeout_tmr = tmr_zero,
     req_mdest_id = 0, lcl_resource_id = 0, glnd_res_lock_mds_ctxt = [],
     lock_rsp_not_sent = False, unlock_req_sent = False, unlock_call_type = GLSV_CALL_UNSET,
     non_master_status = GLND_NODE_STATUS_UNSET, res_info = NULL\<rparr>"

text \<open>
  The resource node; the embedded structure \<open>lck_master_info\<close> is flattened into it
  (\<open>grant_list\<close> to \<open>ex_orphaned\<close>).
\<close>

record GLND_RESOURCE_INFO =
  resource_id :: u32
  resource_name :: SaNameT
  lcl_ref_cnt :: u32
  master_mds_dest :: MDS_DEST
  master_status :: GLND_NODE_STATUS
  grant_list :: "ptr list"
  wait_exclusive_list :: "ptr list"
  wait_read_list :: "ptr list"
  pr_orphan_req_count :: u32
  ex_orphan_req_count :: u32
  pr_orphaned :: bool
  ex_orphaned :: bool
  lcl_lck_req_info :: "ptr list"
  status :: GLND_RESOURCE_STATUS

record GLND_CLIENT_LIST_RESOURCE =
  rsc_info :: ptr
  open_ref_cnt :: u32
  lck_list :: "ptr list"

record GLND_CLIENT_INFO =
  app_handle_id :: u64
  client_mds_dest :: MDS_DEST
  cbk_reg_info :: u16
  res_list :: "GLND_CLIENT_LIST_RESOURCE list"

section \<open>Outputs and environment\<close>

datatype glnd_out =
    OUT_GLND MDS_DEST glnd_evt
  | OUT_GLD glnd_to_gld
  | OUT_GLA MDS_DEST gla_evt
  | OUT_GLA_RSP MDS_DEST bytes gla_evt
  | OUT_LOCAL glnd_evt
  | TMR_START u64 SaTimeT
  | TMR_STOP u64
  | TMR_FREE u64
  | CKPT_RES GLND_RESOURCE_INFO
  | CKPT_LCK_WRITE GLND_RES_LOCK_LIST_INFO
  | CKPT_LCK_OVERWRITE GLND_RES_LOCK_LIST_INFO
  | CKPT_EVT glnd_evt
  | SHM_LCK_INVALIDATE GLND_RES_LOCK_LIST_INFO
  | SHM_RES_INVALIDATE GLND_RESOURCE_INFO
  | SHM_EVT_INVALIDATE glnd_evt

record glnd_env =
  e_ptr :: ptr
  e_hdl :: u32
  e_tmr :: u64
  e_glnd_up :: "MDS_DEST \<Rightarrow> bool"
  e_remaining :: "ptr \<Rightarrow> SaTimeT option"

record GLND_CB =
  glnd_mdest_id :: MDS_DEST
  cb_hdl_id :: u32
  node_state :: GLND_NODE_STATUS
  gld_card_up :: bool
  isClusterMember :: bool
  numLocks :: u32
  glnd_client_tree :: "ptr table"
  glnd_res_tree :: "ptr table"
  evt_bckup_q :: "glnd_evt list"
  lcks :: "ptr \<rightharpoonup> GLND_RES_LOCK_LIST_INFO"
  ress :: "ptr \<rightharpoonup> GLND_RESOURCE_INFO"
  clients :: "ptr \<rightharpoonup> GLND_CLIENT_INFO"
  out :: "glnd_out list"

definition emit :: "glnd_out \<Rightarrow> GLND_CB \<Rightarrow> GLND_CB" where
  "emit m cb = cb\<lparr>out := out cb @ [m]\<rparr>"

definition lck_upd ::
  "ptr \<Rightarrow> (GLND_RES_LOCK_LIST_INFO \<Rightarrow> GLND_RES_LOCK_LIST_INFO) \<Rightarrow> GLND_CB \<Rightarrow> GLND_CB option" where
  "lck_upd p f cb = do { l \<leftarrow> lcks cb p; Some (cb\<lparr>lcks := (lcks cb)(p \<mapsto> f l)\<rparr>) }"

definition res_upd ::
  "ptr \<Rightarrow> (GLND_RESOURCE_INFO \<Rightarrow> GLND_RESOURCE_INFO) \<Rightarrow> GLND_CB \<Rightarrow> GLND_CB option" where
  "res_upd r f cb = do { ri \<leftarrow> ress cb r; Some (cb\<lparr>ress := (ress cb)(r \<mapsto> f ri)\<rparr>) }"

definition client_upd ::
  "ptr \<Rightarrow> (GLND_CLIENT_INFO \<Rightarrow> GLND_CLIENT_INFO) \<Rightarrow> GLND_CB \<Rightarrow> GLND_CB option" where
  "client_upd c f cb = do { ci \<leftarrow> clients cb c; Some (cb\<lparr>clients := (clients cb)(c \<mapsto> f ci)\<rparr>) }"

section \<open>Timer operations (\<open>glnd_tmr.c\<close>)\<close>

definition glnd_start_tmr ::
  "glnd_env \<Rightarrow> GLND_CB \<Rightarrow> GLND_TMR \<Rightarrow> GLND_TMR_TYPE \<Rightarrow> SaTimeT \<Rightarrow> u32
   \<Rightarrow> (GLND_TMR \<times> glnd_out list) \<times> rc" where
  "glnd_start_tmr E cb tmr type period uarg =
     (let my_period = m_GLSV_CONVERT_SATIME_TEN_MILLI_SEC period in
      if type = GLND_TMR_MAX then ((tmr, []), NCSCC_RC_FAILURE)
      else
        let t1 = (if tmr_id tmr = 0 then tmr\<lparr>tmr_type := type, tmr_id := e_tmr E\<rparr> else tmr);
            o1 = (if tmr_is_active t1 then [TMR_STOP (tmr_id t1)] else []);
            t2 = t1\<lparr>tmr_is_active := True, tmr_opq_hdl := uarg, tmr_cb_hdl := cb_hdl_id cb\<rparr>;
            o2 = [TMR_START (tmr_id t2) my_period]
        in ((t2, o1 @ o2),
            if tmr_id t2 = 0 then NCSCC_RC_FAILURE else NCSCC_RC_SUCCESS))"

definition glnd_stop_tmr :: "GLND_TMR \<Rightarrow> GLND_TMR \<times> glnd_out list" where
  "glnd_stop_tmr tmr =
     (if tmr_type tmr = GLND_TMR_MAX then (tmr, [])
      else
        let o1 = (if tmr_is_active tmr then [TMR_STOP (tmr_id tmr)] else []);
            t1 = tmr\<lparr>tmr_is_active := False\<rparr>;
            o2 = (if tmr_id t1 \<noteq> 0 then [TMR_FREE (tmr_id t1)] else []);
            t2 = t1\<lparr>tmr_id := 0\<rparr>
        in (t2, o1 @ o2))"

definition lck_start_tmr ::
  "glnd_env \<Rightarrow> ptr \<Rightarrow> GLND_TMR_TYPE \<Rightarrow> SaTimeT \<Rightarrow> GLND_CB \<Rightarrow> GLND_CB option" where
  "lck_start_tmr E p type period cb = do {
     l \<leftarrow> lcks cb p;
     let ((t, os), _) = glnd_start_tmr E cb (timeout_tmr l) type period (lck_info_hdl_id l);
     Some (cb\<lparr>lcks := (lcks cb)(p \<mapsto> l\<lparr>timeout_tmr := t\<rparr>), out := out cb @ os\<rparr>) }"

definition lck_stop_tmr :: "ptr \<Rightarrow> GLND_CB \<Rightarrow> GLND_CB option" where
  "lck_stop_tmr p cb = do {
     l \<leftarrow> lcks cb p;
     let (t, os) = glnd_stop_tmr (timeout_tmr l);
     Some (cb\<lparr>lcks := (lcks cb)(p \<mapsto> l\<lparr>timeout_tmr := t\<rparr>), out := out cb @ os\<rparr>) }"

section \<open>Clients (\<open>glnd_client.c\<close>)\<close>

definition glnd_client_node_find :: "GLND_CB \<Rightarrow> u64 \<Rightarrow> ptr option" where
  "glnd_client_node_find cb handle_id = tbl_get (glnd_client_tree cb) (key64 handle_id)"

definition glnd_client_node_add ::
  "glnd_env \<Rightarrow> MDS_DEST \<Rightarrow> u64 \<Rightarrow> GLND_CB \<Rightarrow> GLND_CB \<times> ptr option" where
  "glnd_client_node_add E agent_dest hdl cb =
     (let p = e_ptr E;
          h = (if hdl \<noteq> 0 then hdl else p);
          ci = \<lparr>app_handle_id = h, client_mds_dest = agent_dest, cbk_reg_info = 0, res_list = []\<rparr>
      in case tbl_add (key64 h) p (glnd_client_tree cb) of
           (t, NCSCC_RC_SUCCESS) \<Rightarrow>
             (cb\<lparr>glnd_client_tree := t, clients := (clients cb)(p \<mapsto> ci)\<rparr>, Some p)
         | (_, NCSCC_RC_FAILURE) \<Rightarrow> (cb, None))"

fun push_lock_req ::
  "ptr \<Rightarrow> ptr \<Rightarrow> GLND_CLIENT_LIST_RESOURCE list \<Rightarrow> GLND_CLIENT_LIST_RESOURCE list" where
  "push_lock_req r p [] = []"
| "push_lock_req r p (e # es) =
     (if rsc_info e = r then e\<lparr>lck_list := p # lck_list e\<rparr> # es
      else e # push_lock_req r p es)"

text \<open>
  \<open>glnd_client_node_resource_lock_req_add\<close> evaluates \<open>client_info->agent_mds_dest\<close> for its
  trace call before it tests \<open>client_info\<close>: a \<open>NULL\<close> client faults.
\<close>

definition glnd_client_node_resource_lock_req_add ::
  "ptr option \<Rightarrow> ptr \<Rightarrow> ptr \<Rightarrow> GLND_CB \<Rightarrow> (GLND_CB \<times> rc) option" where
  "glnd_client_node_resource_lock_req_add client r p cb = do {
     c \<leftarrow> client;
     ci \<leftarrow> clients cb c;
     if \<exists>e \<in> set (res_list ci). rsc_info e = r
     then Some (cb\<lparr>clients := (clients cb)(c \<mapsto> ci\<lparr>res_list := push_lock_req r p (res_list ci)\<rparr>)\<rparr>,
                NCSCC_RC_SUCCESS)
     else Some (cb, NCSCC_RC_FAILURE) }"

fun bump_or_push :: "ptr \<Rightarrow> GLND_CLIENT_LIST_RESOURCE list \<Rightarrow> GLND_CLIENT_LIST_RESOURCE list option"
where
  "bump_or_push r [] = None"
| "bump_or_push r (e # es) =
     (if rsc_info e = r then Some (e\<lparr>open_ref_cnt := open_ref_cnt e + 1\<rparr> # es)
      else map_option (Cons e) (bump_or_push r es))"

definition glnd_client_node_resource_add ::
  "ptr option \<Rightarrow> ptr \<Rightarrow> GLND_CB \<Rightarrow> (GLND_CB \<times> rc) option" where
  "glnd_client_node_resource_add client r cb = do {
     c \<leftarrow> client;
     ci \<leftarrow> clients cb c;
     let es = (case bump_or_push r (res_list ci) of
                 Some es \<Rightarrow> es
               | None \<Rightarrow> \<lparr>rsc_info = r, open_ref_cnt = 1, lck_list = []\<rparr> # res_list ci);
     Some (cb\<lparr>clients := (clients cb)(c \<mapsto> ci\<lparr>res_list := es\<rparr>)\<rparr>, NCSCC_RC_SUCCESS) }"

text \<open>
  \<open>glnd_client_node_resource_lock_req_del\<close> unlinks one lock request from the entry of the
  client's resource list that holds it; the entry is the \<open>i\<close>-th of the list.
\<close>

definition glnd_client_node_resource_lock_req_del ::
  "ptr option \<Rightarrow> nat \<Rightarrow> ptr option \<Rightarrow> GLND_CB \<Rightarrow> (GLND_CB \<times> rc) option" where
  "glnd_client_node_resource_lock_req_del client i lock_req cb =
     (case (client, lock_req) of
        (Some c, Some p) \<Rightarrow> do {
          ci \<leftarrow> clients cb c;
          if i < length (res_list ci)
          then Some (cb\<lparr>clients := (clients cb)(c \<mapsto>
                 ci\<lparr>res_list := (res_list ci)[i := (res_list ci ! i)
                       \<lparr>lck_list := remove1 p (lck_list (res_list ci ! i))\<rparr>]\<rparr>)\<rparr>,
               NCSCC_RC_SUCCESS)
          else None }
      | _ \<Rightarrow> Some (cb, NCSCC_RC_FAILURE))"

text \<open>
  The index of the first entry of a client's list whose resource has the id sought; every
  entry passed on the way is dereferenced.
\<close>

fun find_res_entry :: "GLND_CB \<Rightarrow> u32 \<Rightarrow> GLND_CLIENT_LIST_RESOURCE list \<Rightarrow> nat option option" where
  "find_res_entry cb rid [] = Some None"
| "find_res_entry cb rid (e # es) = do {
     ri \<leftarrow> ress cb (rsc_info e);
     if resource_id ri = rid then Some (Some 0)
     else do { r \<leftarrow> find_res_entry cb rid es; Some (map_option Suc r) } }"

definition glnd_client_node_resource_lock_req_find ::
  "GLND_CB \<Rightarrow> ptr option \<Rightarrow> u32 \<Rightarrow> u64 \<Rightarrow> ptr option option" where
  "glnd_client_node_resource_lock_req_find cb client rid lid =
     (case client of None \<Rightarrow> Some None
      | Some c \<Rightarrow> do {
          ci \<leftarrow> clients cb c;
          i \<leftarrow> find_res_entry cb rid (res_list ci);
          case i of None \<Rightarrow> Some None
          | Some i \<Rightarrow> first_such (\<lambda>p. do { l \<leftarrow> lcks cb p; Some (lockid (lock_info l) = lid) })
                       (lck_list (res_list ci ! i)) })"

text \<open>
  The search of \<open>..._find_and_del\<close> goes on only while a request has the local resource id
  sought and another lock id: it also stops at the first request of another local resource.
\<close>

definition glnd_client_node_resource_lock_req_find_and_del ::
  "ptr option \<Rightarrow> u32 \<Rightarrow> u64 \<Rightarrow> u32 \<Rightarrow> GLND_CB \<Rightarrow> (GLND_CB \<times> rc) option" where
  "glnd_client_node_resource_lock_req_find_and_del client rid lid lcl_rid cb =
     (case client of None \<Rightarrow> Some (cb, NCSCC_RC_FAILURE)
      | Some c \<Rightarrow> do {
          ci \<leftarrow> clients cb c;
          io \<leftarrow> find_res_entry cb rid (res_list ci);
          case io of None \<Rightarrow> Some (cb, NCSCC_RC_FAILURE)
          | Some i \<Rightarrow> do {
              po \<leftarrow> first_such (\<lambda>p. do { l \<leftarrow> lcks cb p;
                       Some (\<not> (lcl_resource_id l = lcl_rid \<and> lockid (lock_info l) \<noteq> lid)) })
                     (lck_list (res_list ci ! i));
              case po of None \<Rightarrow> Some (cb, NCSCC_RC_FAILURE)
              | Some p \<Rightarrow> glnd_client_node_resource_lock_req_del client i (Some p) cb } })"

definition glnd_client_node_resource_lock_find_duplicate_ex ::
  "GLND_CB \<Rightarrow> ptr option \<Rightarrow> u32 \<Rightarrow> u32 \<Rightarrow> rc option" where
  "glnd_client_node_resource_lock_find_duplicate_ex cb client rid lcl_rid =
     (case client of None \<Rightarrow> Some NCSCC_RC_FAILURE
      | Some c \<Rightarrow> do {
          ci \<leftarrow> clients cb c;
          io \<leftarrow> find_res_entry cb rid (res_list ci);
          case io of None \<Rightarrow> Some NCSCC_RC_SUCCESS
          | Some i \<Rightarrow> do {
              po \<leftarrow> first_such (\<lambda>p. do { l \<leftarrow> lcks cb p;
                       Some (lock_type (lock_info l) = SA_LCK_EX_LOCK_MODE
                             \<and> lcl_resource_id l = lcl_rid
                             \<and> lockStatus (lock_info l) = SA_LCK_LOCK_GRANTED) })
                     (lck_list (res_list ci ! i));
              Some (if po = None then NCSCC_RC_SUCCESS else NCSCC_RC_FAILURE) } })"

end
