(* ===== verification/Glnd_Res.thy ===== *)
theory Glnd_Res
  imports Glnd_State
begin

text \<open>
  The resource component of the lock node director, \<open>lck/lcknd/glnd_res.c\<close>: the master of a
  resource keeps a grant list and two wait lists and decides which requests are granted;
  a node that is not the master keeps its own requests and forwards them. One definition per
  function of the file, in the order of the calls.
\<close>

section \<open>Finding\<close>

definition glnd_resource_node_find :: "GLND_CB \<Rightarrow> u32 \<Rightarrow> ptr option" where
  "glnd_resource_node_find cb res_id = tbl_get (glnd_res_tree cb) (key32 res_id)"

definition glnd_resource_node_find_by_name :: "GLND_CB \<Rightarrow> SaNameT \<Rightarrow> ptr option option" where
  "glnd_resource_node_find_by_name cb res_name =
     first_such (\<lambda>r. do { ri \<leftarrow> ress cb r; Some (res_name = resource_name ri) })
       (map snd (glnd_res_tree cb))"

text \<open>
  The tests of the search functions. The first three work on the lists of the master, with
  the address of the requesting node director; the last one on the requests of this node.
\<close>

definition same_lcl_lock ::
  "GLSV_LOCK_REQ_INFO \<Rightarrow> u64 \<Rightarrow> MDS_DEST \<Rightarrow> u32 \<Rightarrow> GLND_RES_LOCK_LIST_INFO \<Rightarrow> bool" where
  "same_lcl_lock req lid req_mds_dest lcl_rid l \<longleftrightarrow>
     handleId (lock_info l) = handleId req \<and> lcl_lockid (lock_info l) = lid
     \<and> lcl_resource_id l = lcl_rid \<and> req_mdest_id l = req_mds_dest"

definition find_lck ::
  "(GLND_RES_LOCK_LIST_INFO \<Rightarrow> bool) \<Rightarrow> GLND_CB \<Rightarrow> ptr list \<Rightarrow> ptr option option" where
  "find_lck P cb ps = first_such (\<lambda>p. do { l \<leftarrow> lcks cb p; Some (P l) }) ps"

definition glnd_resource_grant_lock_req_find ::
  "GLND_CB \<Rightarrow> ptr \<Rightarrow> GLSV_LOCK_REQ_INFO \<Rightarrow> MDS_DEST \<Rightarrow> u32 \<Rightarrow> ptr option option" where
  "glnd_resource_grant_lock_req_find cb r req req_mds_dest lcl_rid = do {
     ri \<leftarrow> ress cb r;
     find_lck (same_lcl_lock req (lcl_lockid req) req_mds_dest lcl_rid) cb (grant_list ri) }"

text \<open>In the read wait list the request's \<open>lockid\<close>, not its \<open>lcl_lockid\<close>, is compared.\<close>

definition glnd_resource_pending_lock_req_find ::
  "GLND_CB \<Rightarrow> ptr \<Rightarrow> GLSV_LOCK_REQ_INFO \<Rightarrow> MDS_DEST \<Rightarrow> u32 \<Rightarrow> ptr option option" where
  "glnd_resource_pending_lock_req_find cb r req req_mds_dest lcl_rid = do {
     ri \<leftarrow> ress cb r;
     po \<leftarrow> find_lck (same_lcl_lock req (lcl_lockid req) req_mds_dest lcl_rid) cb
             (wait_exclusive_list ri);
     case po of
       Some p \<Rightarrow> Some (Some p)
     | None \<Rightarrow> find_lck (same_lcl_lock req (lockid req) req_mds_dest lcl_rid) cb
                 (wait_read_list ri) }"

definition remote_lock ::
  "(GLSV_LOCK_REQ_INFO \<Rightarrow> u64) \<Rightarrow> u64 \<Rightarrow> u64 \<Rightarrow> MDS_DEST \<Rightarrow> u32 \<Rightarrow> GLND_RES_LOCK_LIST_INFO \<Rightarrow> bool"
where
  "remote_lock idf lid hdl req_mds_dest lcl_rid l \<longleftrightarrow>
     handleId (lock_info l) = hdl \<and> idf (lock_info l) = lid
     \<and> lcl_resource_id l = lcl_rid \<and> req_mdest_id l = req_mds_dest"

definition glnd_resource_remote_lock_req_find ::
  "GLND_CB \<Rightarrow> ptr \<Rightarrow> u64 \<Rightarrow> u64 \<Rightarrow> MDS_DEST \<Rightarrow> u32 \<Rightarrow> ptr option option" where
  "glnd_resource_remote_lock_req_find cb r lid hdl req_mds_dest lcl_rid = do {
     ri \<leftarrow> ress cb r;
     po \<leftarrow> find_lck (remote_lock lockid lid hdl req_mds_dest lcl_rid) cb (grant_list ri);
     case po of
       Some p \<Rightarrow> Some (Some p)
     | None \<Rightarrow> do {
         po \<leftarrow> find_lck (remote_lock lcl_lockid lid hdl req_mds_dest lcl_rid) cb
                 (wait_exclusive_list ri);
         case po of
           Some p \<Rightarrow> Some (Some p)
         | None \<Rightarrow> find_lck (remote_lock lcl_lockid lid hdl req_mds_dest lcl_rid) cb
                     (wait_read_list ri) } }"

definition glnd_resource_local_lock_req_find ::
  "GLND_CB \<Rightarrow> ptr \<Rightarrow> u64 \<Rightarrow> u64 \<Rightarrow> u32 \<Rightarrow> ptr option option" where
  "glnd_resource_local_lock_req_find cb r lid hdl lcl_rid = do {
     ri \<leftarrow> ress cb r;
     find_lck (\<lambda>l. handleId (lock_info l) = hdl \<and> lcl_lockid (lock_info l) = lid
                   \<and> lcl_resource_id l = lcl_rid) cb (lcl_lck_req_info ri) }"

section \<open>Orphan bookkeeping\<close>

definition glnd_resource_grant_list_orphan_locks ::
  "GLND_RESOURCE_INFO \<Rightarrow> SaLckLockModeT option" where
  "glnd_resource_grant_list_orphan_locks ri =
     (if ex_orphaned ri then Some SA_LCK_EX_LOCK_MODE
      else if pr_orphaned ri then Some SA_LCK_PR_LOCK_MODE
      else None)"

fun exclusive_in :: "GLND_CB \<Rightarrow> ptr list \<Rightarrow> bool option" where
  "exclusive_in cb [] = Some False"
| "exclusive_in cb (p # ps) = do {
     l \<leftarrow> lcks cb p;
     if lock_type (lock_info l) = SA_LCK_EX_LOCK_MODE then Some True else exclusive_in cb ps }"

definition glnd_resource_grant_list_exclusive_locks :: "GLND_CB \<Rightarrow> ptr \<Rightarrow> bool option" where
  "glnd_resource_grant_list_exclusive_locks cb r = do {
     ri \<leftarrow> ress cb r; exclusive_in cb (grant_list ri) }"

definition glnd_resource_lock_req_set_orphan ::
  "ptr \<Rightarrow> SaLckLockModeT \<Rightarrow> GLND_CB \<Rightarrow> GLND_CB option" where
  "glnd_resource_lock_req_set_orphan r type =
     res_upd r (\<lambda>ri. if type = SA_LCK_PR_LOCK_MODE
                     then ri\<lparr>pr_orphan_req_count := pr_orphan_req_count ri + 1\<rparr>
                     else ri\<lparr>ex_orphan_req_count := ex_orphan_req_count ri + 1\<rparr>)"

definition glnd_resource_lock_req_unset_orphan ::
  "ptr \<Rightarrow> SaLckLockModeT \<Rightarrow> GLND_CB \<Rightarrow> GLND_CB option" where
  "glnd_resource_lock_req_unset_orphan r type =
     res_upd r (\<lambda>ri. if type = SA_LCK_PR_LOCK_MODE
                     then (if pr_orphan_req_count ri \<noteq> 0
                           then ri\<lparr>pr_orphan_req_count := pr_orphan_req_count ri - 1\<rparr> else ri)
                     else (if ex_orphan_req_count ri \<noteq> 0
                           then ri\<lparr>ex_orphan_req_count := ex_orphan_req_count ri - 1\<rparr> else ri))"

definition ckpt_res :: "ptr \<Rightarrow> GLND_CB \<Rightarrow> GLND_CB option" where
  "ckpt_res r cb = do { ri \<leftarrow> ress cb r; Some (emit (CKPT_RES ri) cb) }"

definition ckpt_lck_overwrite :: "ptr \<Rightarrow> GLND_CB \<Rightarrow> GLND_CB option" where
  "ckpt_lck_overwrite p cb = do { l \<leftarrow> lcks cb p; Some (emit (CKPT_LCK_OVERWRITE l) cb) }"

definition ckpt_lck_write :: "ptr \<Rightarrow> GLND_CB \<Rightarrow> GLND_CB option" where
  "ckpt_lck_write p cb = do { l \<leftarrow> lcks cb p; Some (emit (CKPT_LCK_WRITE l) cb) }"

definition set_orphan_one :: "ptr \<Rightarrow> ptr \<Rightarrow> GLND_CB \<Rightarrow> GLND_CB option" where
  "set_orphan_one r g cb = do {
     l \<leftarrow> lcks cb g;
     let mode = lock_type (lock_info l);
     if flag_set (lockFlags (lock_info l)) SA_LCK_LOCK_ORPHAN
     then do {
       cb \<leftarrow> res_upd r (\<lambda>ri. ri\<lparr>ex_orphaned := (ex_orphaned ri \<or> mode = SA_LCK_EX_LOCK_MODE),
                              pr_orphaned := (pr_orphaned ri \<or> mode = SA_LCK_PR_LOCK_MODE)\<rparr>) cb;
       cb \<leftarrow> ckpt_res r cb;
       ri \<leftarrow> ress cb r;
       Some (emit (OUT_GLD (m_GLND_RESOURCE_LCK_FILL (resource_id ri)
                              (ex_orphaned ri \<or> pr_orphaned ri) mode)) cb) }
     else do {
       ri \<leftarrow> ress cb r;
       Some (emit (OUT_GLD (m_GLND_RESOURCE_LCK_FILL (resource_id ri) False mode)) cb) } }"

definition glnd_set_orphan_state :: "ptr \<Rightarrow> GLND_CB \<Rightarrow> (GLND_CB \<times> rc) option" where
  "glnd_set_orphan_state r cb = do {
     ri \<leftarrow> ress cb r;
     if grant_list ri = [] then Some (cb, NCSCC_RC_FAILURE)
     else do {
       cb \<leftarrow> for_each (set_orphan_one r) (grant_list ri) cb;
       Some (cb, NCSCC_RC_SUCCESS) } }"

section \<open>Adding and deleting\<close>

definition glnd_resource_node_add ::
  "glnd_env \<Rightarrow> u32 \<Rightarrow> SaNameT \<Rightarrow> bool \<Rightarrow> MDS_DEST \<Rightarrow> GLND_CB \<Rightarrow> GLND_CB \<times> ptr option" where
  "glnd_resource_node_add E res_id name is_master master_dest cb =
     (case glnd_resource_node_find cb res_id of
        Some r \<Rightarrow> (cb, Some r)
      | None \<Rightarrow>
          let r = e_ptr E;
              ri = \<lparr>resource_id = res_id, resource_name = name, lcl_ref_cnt = 0,
                    master_mds_dest = master_dest, master_status = GLND_OPERATIONAL_STATE,
                    grant_list = [], wait_exclusive_list = [], wait_read_list = [],
                    pr_orphan_req_count = 0, ex_orphan_req_count = 0,
                    pr_orphaned = False, ex_orphaned = False, lcl_lck_req_info = [],
                    status = (if is_master then GLND_RESOURCE_ACTIVE_MASTER
                              else GLND_RESOURCE_ACTIVE_NON_MASTER)\<rparr>
          in case tbl_add (key32 res_id) r (glnd_res_tree cb) of
               (t, NCSCC_RC_SUCCESS) \<Rightarrow>
                 (cb\<lparr>glnd_res_tree := t, ress := (ress cb)(r \<mapsto> ri)\<rparr>, Some r)
             | (_, NCSCC_RC_FAILURE) \<Rightarrow> (cb, None))"

text \<open>
  Unlinking a lock node. The code tests the four list heads of the resource and then joins the
  node's neighbours; on the lists of addresses this removes the node from the list it is on.
\<close>

definition unlink :: "ptr \<Rightarrow> GLND_RESOURCE_INFO \<Rightarrow> GLND_RESOURCE_INFO" where
  "unlink p ri = ri\<lparr>lcl_lck_req_info := remove1 p (lcl_lck_req_info ri),
                    grant_list := remove1 p (grant_list ri),
                    wait_read_list := remove1 p (wait_read_list ri),
                    wait_exclusive_list := remove1 p (wait_exclusive_list ri)\<rparr>"

definition glnd_resource_lock_req_destroy :: "ptr \<Rightarrow> ptr \<Rightarrow> GLND_CB \<Rightarrow> GLND_CB option" where
  "glnd_resource_lock_req_destroy r p cb = do {
     l \<leftarrow> lcks cb p;
     cb \<leftarrow> res_upd r (unlink p) cb;
     cb \<leftarrow> (if tmr_id (timeout_tmr l) \<noteq> 0 then lck_stop_tmr p cb else Some cb);
     Some (cb\<lparr>lcks := (lcks cb)(p := None), numLocks := numLocks cb - 1\<rparr>) }"

definition glnd_resource_lock_req_delete :: "ptr \<Rightarrow> ptr \<Rightarrow> GLND_CB \<Rightarrow> GLND_CB option" where
  "glnd_resource_lock_req_delete r p cb = do {
     l \<leftarrow> lcks cb p;
     let st = lockStatus (lock_info l);
     let cb = (if st \<noteq> SA_LCK_LOCK_NOT_QUEUED \<and> st \<noteq> SA_LCK_LOCK_ORPHANED
               then emit (SHM_LCK_INVALIDATE l) cb else cb);
     glnd_resource_lock_req_destroy r p cb }"

definition forget_res :: "ptr \<Rightarrow> ptr \<Rightarrow> GLND_CB \<Rightarrow> GLND_CB option" where
  "forget_res r c = client_upd c (\<lambda>ci. ci\<lparr>res_list :=
     map (\<lambda>e. if rsc_info e = r then e\<lparr>rsc_info := NULL\<rparr> else e) (res_list ci)\<rparr>)"

definition glnd_resource_node_destroy :: "ptr \<Rightarrow> bool \<Rightarrow> GLND_CB \<Rightarrow> (GLND_CB \<times> rc) option" where
  "glnd_resource_node_destroy r orphan cb = do {
     ri \<leftarrow> ress cb r;
     let cb = emit (OUT_GLD (GLD_RSC_CLOSE
                \<lparr>rd_rsc_id = resource_id ri, rd_orphan = orphan, rd_lck_mode = SA_LCK_MODE_UNSET,
                 rd_lcl_ref_cnt = lcl_ref_cnt ri\<rparr>)) cb;
     case tbl_del (key32 (resource_id ri)) (glnd_res_tree cb) of
       (_, NCSCC_RC_FAILURE) \<Rightarrow> Some (cb, NCSCC_RC_FAILURE)
     | (t, NCSCC_RC_SUCCESS) \<Rightarrow> do {
         let cb = cb\<lparr>glnd_res_tree := t\<rparr>;
         cb \<leftarrow> for_each (glnd_resource_lock_req_delete r) (grant_list ri) cb;
         cb \<leftarrow> for_each (glnd_resource_lock_req_delete r) (wait_exclusive_list ri) cb;
         cb \<leftarrow> for_each (forget_res r) (map snd (glnd_client_tree cb)) cb;
         ri' \<leftarrow> ress cb r;
         Some ((emit (SHM_RES_INVALIDATE ri') cb)\<lparr>ress := (ress cb)(r := None)\<rparr>,
               NCSCC_RC_SUCCESS) } }"

section \<open>Messages a request gives rise to\<close>

definition glnd_initiate_deadlock_algorithm ::
  "glnd_env \<Rightarrow> ptr \<Rightarrow> ptr \<Rightarrow> GLND_CB \<Rightarrow> (GLND_CB \<times> rc) option" where
  "glnd_initiate_deadlock_algorithm E r p cb = do {
     ri \<leftarrow> ress cb r;
     l \<leftarrow> lcks cb p;
     let probe = \<lparr>probe_rsc_id = resource_id ri, probe_lcl_rsc_id = lcl_resource_id l,
                  probe_hdl_id = handleId (lock_info l), probe_dest_id = req_mdest_id l,
                  probe_lck_id = lockid (lock_info l),
                  dd_info_list = [\<lparr>dd_rsc_id = resource_id ri, blck_dest_id = req_mdest_id l,
                                   blck_hdl_id = handleId (lock_info l),
                                   dd_lck_id = lockid (lock_info l)\<rparr>]\<rparr>;
     if glnd_mdest_id cb = master_mds_dest ri
     then Some (emit (OUT_LOCAL (FWD_DD_PROBE probe)) cb, NCSCC_RC_SUCCESS)
     else Some (emit (OUT_GLND (master_mds_dest ri) (FWD_DD_PROBE probe)) cb,
                if e_glnd_up E (master_mds_dest ri) then NCSCC_RC_SUCCESS else NCSCC_RC_FAILURE) }"

fun waitercallbk_loop ::
  "GLSV_LOCK_REQ_INFO \<Rightarrow> u32 \<Rightarrow> ptr list \<Rightarrow> GLND_CB \<Rightarrow> GLND_CB option" where
  "waitercallbk_loop req rid [] cb = Some cb"
| "waitercallbk_loop req rid (g # gs) cb = do {
     l \<leftarrow> lcks cb g;
     if req_mdest_id l \<noteq> glnd_mdest_id cb
     then
       let ev = m_GLND_RESOURCE_NODE_LCK_INFO_FILL rid (lcl_resource_id l)
                  (handleId (lock_info l)) (lockid (lock_info l)) (lock_type req)
                  (lockFlags (lock_info l)) (lockStatus (lock_info l)) (waiter_signal req)
                  SA_LCK_MODE_UNSET SA_AIS_ERR_ZERO (lcl_lockid (lock_info l)) 0
       in waitercallbk_loop req rid gs
            (emit (OUT_GLND (req_mdest_id l) (NODE_LCK GLSV_GLND_EVT_LCK_WAITER_CALLBACK ev)) cb)
     else if \<not> isClusterMember cb then Some cb
     else
       case glnd_client_node_find cb (handleId (lock_info l)) of
         None \<Rightarrow> waitercallbk_loop req rid gs cb
       | Some c \<Rightarrow> do {
           ci \<leftarrow> clients cb c;
           if flag_set (cbk_reg_info ci) GLSV_LOCK_WAITER_CBK_REG
           then waitercallbk_loop req rid gs
                  (emit (OUT_GLA (client_mds_dest ci)
                     (GLA_LOCK_WAITER_CBK (lockid (lock_info l)) (lcl_resource_id l)
                        (invocation (lock_info l)) (lock_type (lock_info l)) (lock_type req)
                        (app_handle_id ci) (waiter_signal req) (lcl_lockid (lock_info l)))) cb)
           else waitercallbk_loop req rid gs cb } }"

definition glnd_master_process_lock_initiate_waitercallbk ::
  "ptr \<Rightarrow> GLSV_LOCK_REQ_INFO \<Rightarrow> GLND_CB \<Rightarrow> GLND_CB option" where
  "glnd_master_process_lock_initiate_waitercallbk r req cb = do {
     ri \<leftarrow> ress cb r; waitercallbk_loop req (resource_id ri) (grant_list ri) cb }"

text \<open>
  The answer to the requester of a lock that has just been granted. The code tests the return
  value of the send for being non-zero, and both return codes are.
\<close>

definition glnd_mds_msg_send_glnd :: "glnd_env \<Rightarrow> MDS_DEST \<Rightarrow> rc" where
  "glnd_mds_msg_send_glnd E d = (if e_glnd_up E d then NCSCC_RC_SUCCESS else NCSCC_RC_FAILURE)"

definition grant_gla_evt :: "SaAisErrorT \<Rightarrow> GLND_RES_LOCK_LIST_INFO \<Rightarrow> glnd_out" where
  "grant_gla_evt err l =
     (let i = lock_info l in
      if call_type i = GLSV_SYNC_CALL
      then OUT_GLA_RSP (agent_mds_dest i) (glnd_res_lock_mds_ctxt l)
             (GLA_SYNC_LOCK err (lockid i) (lockStatus i) (handleId i))
      else OUT_GLA (agent_mds_dest i)
             (GLA_LOCK_GRANT_CBK err (lockid i) (lcl_lockid i) (lock_type i) (lcl_resource_id l)
                (invocation i) (lockStatus i) (handleId i)))"

definition glnd_resource_master_grant_lock_send_notification ::
  "glnd_env \<Rightarrow> ptr \<Rightarrow> ptr \<Rightarrow> GLND_CB \<Rightarrow> GLND_CB option" where
  "glnd_resource_master_grant_lock_send_notification E r p cb = do {
     ri \<leftarrow> ress cb r;
     l \<leftarrow> lcks cb p;
     if req_mdest_id l = glnd_mdest_id cb
     then do {
       cb \<leftarrow> (if flag_set (lockFlags (lock_info l)) SA_LCK_LOCK_ORPHAN
             then glnd_resource_lock_req_set_orphan r (lock_type (lock_info l)) cb
             else Some cb);
       Some (emit (grant_gla_evt SA_AIS_OK l) cb) }
     else do {
       let i = lock_info l;
       let ev = (m_GLND_RESOURCE_NODE_LCK_INFO_FILL (resource_id ri) (lcl_resource_id l)
                   (handleId i) (lockid i) (lock_type i) (lockFlags i) (lockStatus i) 0
                   SA_LCK_MODE_UNSET SA_AIS_OK (lcl_lockid i) 0)
                \<lparr>li_glnd_mds_dest := glnd_mdest_id cb\<rparr>;
       let cb = emit (OUT_GLND (req_mdest_id l) (NODE_LCK GLSV_GLND_EVT_LCK_RSP ev)) cb;
       cb \<leftarrow> lck_upd p (\<lambda>l. l\<lparr>lock_rsp_not_sent :=
                              (rc_val (glnd_mds_msg_send_glnd E (req_mdest_id l)) \<noteq> 0)\<rparr>) cb;
       ckpt_lck_overwrite p cb } }"

section \<open>Moving waiters to the grant list\<close>

definition grant_one_pr :: "glnd_env \<Rightarrow> ptr \<Rightarrow> ptr \<Rightarrow> GLND_CB \<Rightarrow> GLND_CB option" where
  "grant_one_pr E r m cb = do {
     cb \<leftarrow> lck_upd m (\<lambda>l. l\<lparr>lock_info := (lock_info l)\<lparr>lockStatus := SA_LCK_LOCK_GRANTED\<rparr>\<rparr>) cb;
     cb \<leftarrow> res_upd r (\<lambda>ri. ri\<lparr>grant_list := m # grant_list ri\<rparr>) cb;
     cb \<leftarrow> lck_stop_tmr m cb;
     glnd_resource_master_grant_lock_send_notification E r m cb }"

definition glnd_resource_master_move_pr_locks_to_grant_list ::
  "glnd_env \<Rightarrow> ptr \<Rightarrow> GLND_CB \<Rightarrow> GLND_CB option" where
  "glnd_resource_master_move_pr_locks_to_grant_list E r cb = do {
     ri \<leftarrow> ress cb r;
     cb \<leftarrow> for_each (grant_one_pr E r) (wait_read_list ri) cb;
     res_upd r (\<lambda>ri. ri\<lparr>wait_read_list := []\<rparr>) cb }"

definition glnd_resource_master_move_ex_locks_to_grant_list ::
  "glnd_env \<Rightarrow> ptr \<Rightarrow> GLND_CB \<Rightarrow> GLND_CB option" where
  "glnd_resource_master_move_ex_locks_to_grant_list E r cb = do {
     ri \<leftarrow> ress cb r;
     if wait_exclusive_list ri = [] then Some cb
     else do {
       let ex = last (wait_exclusive_list ri);
       cb \<leftarrow> res_upd r (\<lambda>ri. ri\<lparr>wait_exclusive_list := butlast (wait_exclusive_list ri)\<rparr>) cb;
       cb \<leftarrow> lck_stop_tmr ex cb;
       cb \<leftarrow> res_upd r (\<lambda>ri. ri\<lparr>grant_list := ex # grant_list ri\<rparr>) cb;
       cb \<leftarrow> lck_upd ex (\<lambda>l. l\<lparr>lock_info := (lock_info l)\<lparr>lockStatus := SA_LCK_LOCK_GRANTED\<rparr>\<rparr>) cb;
       glnd_resource_master_grant_lock_send_notification E r ex cb } }"

definition head_belongs :: "GLND_CB \<Rightarrow> ptr \<Rightarrow> ptr list \<Rightarrow> bool option" where
  "head_belongs cb r ps =
     (case ps of [] \<Rightarrow> Some False | p # _ \<Rightarrow> do { l \<leftarrow> lcks cb p; Some (res_info l = r) })"

definition glnd_resource_master_lock_resync_grant_list ::
  "glnd_env \<Rightarrow> ptr \<Rightarrow> GLND_CB \<Rightarrow> GLND_CB option" where
  "glnd_resource_master_lock_resync_grant_list E r cb = do {
     ri \<leftarrow> ress cb r;
     if ex_orphaned ri then Some cb
     else do {
       cb \<leftarrow> (if grant_list ri = [] \<and> \<not> pr_orphaned ri
             then do {
               b \<leftarrow> head_belongs cb r (wait_exclusive_list ri);
               if b then glnd_resource_master_move_ex_locks_to_grant_list E r cb else Some cb }
             else Some cb);
       ex \<leftarrow> glnd_resource_grant_list_exclusive_locks cb r;
       if \<not> ex
       then do {
         ri \<leftarrow> ress cb r;
         b \<leftarrow> head_belongs cb r (wait_read_list ri);
         if b then glnd_resource_master_move_pr_locks_to_grant_list E r cb else Some cb }
       else Some cb } }"

definition purge_notify :: "bool \<Rightarrow> GLND_RESOURCE_INFO \<Rightarrow> glnd_out list" where
  "purge_notify is_local ri =
     (if ex_orphaned ri \<and> is_local \<and> ex_orphan_req_count ri = 0
      then [OUT_GLD (m_GLND_RESOURCE_LCK_FILL (resource_id ri) False SA_LCK_EX_LOCK_MODE)] else [])
     @ (if pr_orphaned ri \<and> is_local \<and> pr_orphan_req_count ri = 0
      then [OUT_GLD (m_GLND_RESOURCE_LCK_FILL (resource_id ri) False SA_LCK_PR_LOCK_MODE)] else [])"

definition glnd_resource_master_lock_purge_req ::
  "glnd_env \<Rightarrow> ptr \<Rightarrow> bool \<Rightarrow> GLND_CB \<Rightarrow> GLND_CB option" where
  "glnd_resource_master_lock_purge_req E r is_local cb = do {
     ri \<leftarrow> ress cb r;
     let cb = cb\<lparr>ress := (ress cb)(r \<mapsto> ri\<lparr>ex_orphaned := False, pr_orphaned := False\<rparr>),
                 out := out cb @ purge_notify is_local ri\<rparr>;
     cb \<leftarrow> ckpt_res r cb;
     if lcl_ref_cnt ri = 0
     then do { (cb, _) \<leftarrow> glnd_resource_node_destroy r True cb; Some cb }
     else if status ri = GLND_RESOURCE_ACTIVE_MASTER
     then glnd_resource_master_lock_resync_grant_list E r cb
     else Some cb }"

end
