(* ===== verification/Glnd_Lock.thy ===== *)
theory Glnd_Lock
  imports Glnd_Res
begin

text \<open>
  The lock and unlock operations of \<open>lck/lcknd/glnd_res.c\<close>: a request at the master, a request
  at a node that is not the master, the change of mastership and the deadlock probe.
\<close>

section \<open>A lock request at the master\<close>

definition set_lck_status :: "SaLckLockStatusT \<Rightarrow> ptr \<Rightarrow> GLND_CB \<Rightarrow> GLND_CB option" where
  "set_lck_status st p = lck_upd p (\<lambda>l. l\<lparr>lock_info := (lock_info l)\<lparr>lockStatus := st\<rparr>\<rparr>)"

text \<open>
  Whether the request comes from the application that holds the lock at the head of the grant
  list, in the given mode, on this node.
\<close>

definition head_holder_is ::
  "GLND_CB \<Rightarrow> ptr \<Rightarrow> SaLckLockModeT \<Rightarrow> GLSV_LOCK_REQ_INFO \<Rightarrow> MDS_DEST \<Rightarrow> bool option" where
  "head_holder_is cb r mode req req_dest = do {
     ri \<leftarrow> ress cb r;
     case grant_list ri of [] \<Rightarrow> Some False
     | g # _ \<Rightarrow> do {
         l \<leftarrow> lcks cb g;
         Some (lock_type (lock_info l) = mode \<and> glnd_mdest_id cb = req_dest
               \<and> handleId req = handleId (lock_info l)) } }"

text \<open>
  The scan of the client's resources that decides whether to start a deadlock probe: another
  resource mastered on this node with waiters (\<open>wl\<close> selects the wait list). Every resource
  of the client's list is dereferenced. The list holds one flag per resource scanned.
\<close>

fun probe_flags ::
  "(GLND_RESOURCE_INFO \<Rightarrow> ptr list) \<Rightarrow> GLND_CB \<Rightarrow> u32 \<Rightarrow> GLND_CLIENT_LIST_RESOURCE list
   \<Rightarrow> bool list option" where
  "probe_flags wl cb rid [] = Some []"
| "probe_flags wl cb rid (e # es) = do {
     ri \<leftarrow> ress cb (rsc_info e);
     bs \<leftarrow> probe_flags wl cb rid es;
     Some ((resource_id ri \<noteq> rid \<and> glnd_mdest_id cb = master_mds_dest ri \<and> wl ri \<noteq> []) # bs) }"

text \<open>The same scan where the loop is left at the first hit (\<open>break\<close>).\<close>

fun probe_first ::
  "(GLND_RESOURCE_INFO \<Rightarrow> ptr list) \<Rightarrow> GLND_CB \<Rightarrow> u32 \<Rightarrow> GLND_CLIENT_LIST_RESOURCE list
   \<Rightarrow> bool option" where
  "probe_first wl cb rid [] = Some False"
| "probe_first wl cb rid (e # es) = do {
     ri \<leftarrow> ress cb (rsc_info e);
     if resource_id ri \<noteq> rid \<and> glnd_mdest_id cb = master_mds_dest ri \<and> wl ri \<noteq> []
     then Some True else probe_first wl cb rid es }"

definition client_res_list :: "GLND_CB \<Rightarrow> ptr option \<Rightarrow> GLND_CLIENT_LIST_RESOURCE list option" where
  "client_res_list cb client =
     (case client of None \<Rightarrow> Some [] | Some c \<Rightarrow> do { ci \<leftarrow> clients cb c; Some (res_list ci) })"

definition initiate_if :: "glnd_env \<Rightarrow> bool \<Rightarrow> ptr \<Rightarrow> ptr \<Rightarrow> GLND_CB \<Rightarrow> GLND_CB option" where
  "initiate_if E b r p cb =
     (if b then do { (cb, _) \<leftarrow> glnd_initiate_deadlock_algorithm E r p cb; Some cb } else Some cb)"

definition ex_probe ::
  "glnd_env \<Rightarrow> ptr \<Rightarrow> ptr \<Rightarrow> GLSV_LOCK_REQ_INFO \<Rightarrow> MDS_DEST \<Rightarrow> ptr option \<Rightarrow> GLND_CB \<Rightarrow> GLND_CB option"
where
  "ex_probe E r p req req_dest client cb =
     (if req_dest = glnd_mdest_id cb
      then do {
        own_ex \<leftarrow> head_holder_is cb r SA_LCK_EX_LOCK_MODE req req_dest;
        if own_ex then initiate_if E True r p cb
        else do {
          ri \<leftarrow> ress cb r;
          es \<leftarrow> client_res_list cb client;
          hit \<leftarrow> probe_first wait_exclusive_list cb (resource_id ri) es;
          cb \<leftarrow> initiate_if E hit r p cb;
          own_pr \<leftarrow> head_holder_is cb r SA_LCK_PR_LOCK_MODE req req_dest;
          initiate_if E own_pr r p cb } }
      else initiate_if E True r p cb)"

definition process_ex ::
  "glnd_env \<Rightarrow> ptr \<Rightarrow> ptr \<Rightarrow> GLSV_LOCK_REQ_INFO \<Rightarrow> MDS_DEST \<Rightarrow> ptr option \<Rightarrow> GLND_CB \<Rightarrow> GLND_CB option"
where
  "process_ex E r p req req_dest client cb = do {
     ri \<leftarrow> ress cb r;
     let orphan_locks = (glnd_resource_grant_list_orphan_locks ri \<noteq> None);
     if grant_list ri = [] \<and> \<not> orphan_locks
     then do {
       cb \<leftarrow> set_lck_status SA_LCK_LOCK_GRANTED p cb;
       res_upd r (\<lambda>ri. ri\<lparr>grant_list := [p]\<rparr>) cb }
     else if flag_set (lockFlags req) SA_LCK_LOCK_NO_QUEUE
     then set_lck_status SA_LCK_LOCK_NOT_QUEUED p cb
     else if flag_set (lockFlags req) SA_LCK_LOCK_ORPHAN \<and> orphan_locks
     then set_lck_status SA_LCK_LOCK_ORPHANED p cb
     else do {
       cb \<leftarrow> res_upd r (\<lambda>ri. ri\<lparr>wait_exclusive_list := p # wait_exclusive_list ri\<rparr>) cb;
       cb \<leftarrow> (if req_dest = glnd_mdest_id cb
             then lck_start_tmr E p GLND_TMR_RES_LOCK_REQ_TIMEOUT (timeout req) cb
             else Some cb);
       cb \<leftarrow> glnd_master_process_lock_initiate_waitercallbk r req cb;
       ex_probe E r p req req_dest client cb } }"

definition pr_probe ::
  "glnd_env \<Rightarrow> ptr \<Rightarrow> ptr \<Rightarrow> GLSV_LOCK_REQ_INFO \<Rightarrow> MDS_DEST \<Rightarrow> ptr option \<Rightarrow> GLND_CB \<Rightarrow> GLND_CB option"
where
  "pr_probe E r p req req_dest client cb =
     (if req_dest = glnd_mdest_id cb
      then do {
        cb \<leftarrow> lck_start_tmr E p GLND_TMR_RES_LOCK_REQ_TIMEOUT (timeout req) cb;
        ri \<leftarrow> ress cb r;
        es \<leftarrow> client_res_list cb client;
        hits \<leftarrow> probe_flags wait_read_list cb (resource_id ri) es;
        cb \<leftarrow> for_each (\<lambda>b. initiate_if E b r p) hits cb;
        own_ex \<leftarrow> head_holder_is cb r SA_LCK_EX_LOCK_MODE req req_dest;
        initiate_if E own_ex r p cb }
      else initiate_if E True r p cb)"

definition process_pr ::
  "glnd_env \<Rightarrow> ptr \<Rightarrow> ptr \<Rightarrow> GLSV_LOCK_REQ_INFO \<Rightarrow> MDS_DEST \<Rightarrow> ptr option \<Rightarrow> GLND_CB \<Rightarrow> GLND_CB option"
where
  "process_pr E r p req req_dest client cb = do {
     ex \<leftarrow> glnd_resource_grant_list_exclusive_locks cb r;
     ri \<leftarrow> ress cb r;
     if \<not> ex \<and> \<not> ex_orphaned ri
     then do {
       cb \<leftarrow> set_lck_status SA_LCK_LOCK_GRANTED p cb;
       res_upd r (\<lambda>ri. ri\<lparr>grant_list := p # grant_list ri\<rparr>) cb }
     else if flag_set (lockFlags req) SA_LCK_LOCK_NO_QUEUE
     then set_lck_status SA_LCK_LOCK_NOT_QUEUED p cb
     else if flag_set (lockFlags req) SA_LCK_LOCK_ORPHAN
             \<and> glnd_resource_grant_list_orphan_locks ri \<noteq> None
     then set_lck_status SA_LCK_LOCK_ORPHANED p cb
     else do {
       cb \<leftarrow> res_upd r (\<lambda>ri. ri\<lparr>wait_read_list := p # wait_read_list ri\<rparr>) cb;
       cb \<leftarrow> glnd_master_process_lock_initiate_waitercallbk r req cb;
       pr_probe E r p req req_dest client cb } }"

definition new_lck ::
  "glnd_env \<Rightarrow> ptr \<Rightarrow> GLSV_LOCK_REQ_INFO \<Rightarrow> MDS_DEST \<Rightarrow> u32 \<Rightarrow> u64 \<Rightarrow> GLND_RES_LOCK_LIST_INFO" where
  "new_lck E r req req_dest lcl_rid lid =
     lck_zero\<lparr>lck_info_hdl_id := e_hdl E, lock_info := req\<lparr>lockid := lid\<rparr>,
              req_mdest_id := req_dest, lcl_resource_id := lcl_rid, res_info := r\<rparr>"

definition glnd_resource_master_process_lock_req ::
  "glnd_env \<Rightarrow> ptr \<Rightarrow> GLSV_LOCK_REQ_INFO \<Rightarrow> MDS_DEST \<Rightarrow> u32 \<Rightarrow> u64 \<Rightarrow> GLND_CB
   \<Rightarrow> (GLND_CB \<times> ptr) option" where
  "glnd_resource_master_process_lock_req E r req req_dest lcl_rid lcl_lock_id cb = do {
     let client = glnd_client_node_find cb (handleId req);
     let p = e_ptr E;
     let local = (req_dest = glnd_mdest_id cb);
     let cb = cb\<lparr>numLocks := numLocks cb + 1,
                 lcks := (lcks cb)(p \<mapsto> new_lck E r req req_dest lcl_rid
                                         (if local then p else lockid req))\<rparr>;
     cb \<leftarrow> (if local
           then do { (cb, _) \<leftarrow> glnd_client_node_resource_lock_req_add client r p cb; Some cb }
           else Some cb);
     cb \<leftarrow> (case lock_type req of
             SA_LCK_EX_LOCK_MODE \<Rightarrow> process_ex E r p req req_dest client cb
           | SA_LCK_PR_LOCK_MODE \<Rightarrow> process_pr E r p req req_dest client cb
           | SA_LCK_MODE_UNSET \<Rightarrow> Some cb);
     Some (cb, p) }"

section \<open>An unlock request at the master\<close>

definition glnd_resource_master_unlock_req ::
  "ptr \<Rightarrow> GLSV_LOCK_REQ_INFO \<Rightarrow> MDS_DEST \<Rightarrow> u32 \<Rightarrow> GLND_CB \<Rightarrow> (GLND_CB \<times> ptr option) option" where
  "glnd_resource_master_unlock_req r req req_dest lcl_rid cb =
     (if r = NULL then Some (cb, None)
      else do {
        ri \<leftarrow> ress cb r;
        if status ri = GLND_RESOURCE_ACTIVE_MASTER
        then do {
          po \<leftarrow> glnd_resource_grant_lock_req_find cb r req req_dest lcl_rid;
          case po of
            None \<Rightarrow> Some (cb, None)
          | Some p \<Rightarrow> do {
              cb \<leftarrow> set_lck_status GLSV_LOCK_STATUS_RELEASED p cb;
              cb \<leftarrow> ckpt_lck_overwrite p cb;
              Some (cb, Some p) } }
        else Some (cb, None) })"

section \<open>Requests at a node that is not the master\<close>

text \<open>The backup queue (\<open>glnd_queue.c\<close>) takes a new event at its head.\<close>

definition glnd_evt_backup_queue_add :: "glnd_evt \<Rightarrow> GLND_CB \<Rightarrow> GLND_CB" where
  "glnd_evt_backup_queue_add ev cb = cb\<lparr>evt_bckup_q := ev # evt_bckup_q cb\<rparr>"

definition lck_evt_zero :: GLSV_EVT_GLND_LCK_INFO where
  "lck_evt_zero = m_GLND_RESOURCE_NODE_LCK_INFO_FILL 0 0 0 0 SA_LCK_MODE_UNSET 0
     SA_LCK_STATUS_UNSET 0 SA_LCK_MODE_UNSET SA_AIS_ERR_ZERO 0 0"

definition glnd_resource_non_master_lock_req ::
  "glnd_env \<Rightarrow> ptr \<Rightarrow> GLSV_LOCK_REQ_INFO \<Rightarrow> u32 \<Rightarrow> u64 \<Rightarrow> bytes \<Rightarrow> GLND_CB
   \<Rightarrow> (GLND_CB \<times> ptr) option" where
  "glnd_resource_non_master_lock_req E r req lcl_rid lcl_lock_id ctxt cb = do {
     let p = e_ptr E;
     let l = (new_lck E r req (glnd_mdest_id cb) lcl_rid p)\<lparr>glnd_res_lock_mds_ctxt := ctxt\<rparr>;
     let cb = cb\<lparr>numLocks := numLocks cb + 1, lcks := (lcks cb)(p \<mapsto> l)\<rparr>;
     cb \<leftarrow> res_upd r (\<lambda>ri. ri\<lparr>lcl_lck_req_info := p # lcl_lck_req_info ri\<rparr>) cb;
     cb \<leftarrow> lck_start_tmr E p GLND_TMR_RES_NM_LOCK_REQ_TIMEOUT (timeout req) cb;
     ri \<leftarrow> ress cb r;
     let ev = NODE_LCK GLSV_GLND_EVT_LCK_REQ
                (lck_evt_zero\<lparr>li_glnd_mds_dest := glnd_mdest_id cb,
                   li_client_handle_id := handleId req, li_waiter_signal := waiter_signal req,
                   li_lock_type := lock_type req, li_lockFlags := lockFlags req,
                   li_resource_id := resource_id ri, li_lcl_resource_id := lcl_rid,
                   li_lockid := p, li_lcl_lockid := lcl_lock_id\<rparr>);
     if status ri \<noteq> GLND_RESOURCE_ELECTION_IN_PROGESS
     then do {
       cb \<leftarrow> ckpt_lck_write p (emit (OUT_GLND (master_mds_dest ri) ev) cb);
       Some (cb, p) }
     else Some (emit (CKPT_EVT ev) (glnd_evt_backup_queue_add ev cb), p) }"

definition glnd_resource_non_master_unlock_req ::
  "glnd_env \<Rightarrow> ptr \<Rightarrow> GLSV_LOCK_REQ_INFO \<Rightarrow> u32 \<Rightarrow> u64 \<Rightarrow> GLND_CB
   \<Rightarrow> (GLND_CB \<times> ptr option) option" where
  "glnd_resource_non_master_unlock_req E r req lcl_rid lcl_lock_id cb = do {
     po \<leftarrow> glnd_resource_local_lock_req_find cb r (lcl_lockid req) (handleId req) lcl_rid;
     case po of
       None \<Rightarrow> Some (cb, None)
     | Some p \<Rightarrow> do {
         cb \<leftarrow> lck_start_tmr E p GLND_TMR_RES_NM_UNLOCK_REQ_TIMEOUT (timeout req) cb;
         ri \<leftarrow> ress cb r;
         let ev = NODE_LCK GLSV_GLND_EVT_UNLCK_REQ
                    (lck_evt_zero\<lparr>li_glnd_mds_dest := glnd_mdest_id cb,
                       li_client_handle_id := handleId req, li_lockid := lockid req,
                       li_lcl_lockid := lcl_lock_id, li_resource_id := resource_id ri,
                       li_lcl_resource_id := lcl_rid, li_invocation := invocation req\<rparr>);
         if status ri \<noteq> GLND_RESOURCE_ELECTION_IN_PROGESS
         then Some (emit (OUT_GLND (master_mds_dest ri) ev) cb, Some p)
         else Some (emit (CKPT_EVT ev) (glnd_evt_backup_queue_add ev cb), Some p) } }"

section \<open>Change of mastership\<close>

text \<open>
  The new master converts its own requests. The remaining time is asked for with the address
  of the timer field, not with the timer; \<open>e_remaining\<close> gives what that call reports.
\<close>

definition convert_tmr ::
  "glnd_env \<Rightarrow> ptr \<Rightarrow> SaTimeT \<Rightarrow> GLND_CB \<Rightarrow> (GLND_CB \<times> SaTimeT) option" where
  "convert_tmr E m rem cb = do {
     l \<leftarrow> lcks cb m;
     if tmr_id (timeout_tmr l) \<noteq> 0
     then do {
       let rem = (case e_remaining E m of Some t \<Rightarrow> t | None \<Rightarrow> rem);
       if rem > 0
       then do {
         cb \<leftarrow> lck_stop_tmr m cb;
         cb \<leftarrow> (if tmr_type (timeout_tmr l) = GLND_TMR_RES_NM_LOCK_REQ_TIMEOUT
               then lck_start_tmr E m GLND_TMR_RES_LOCK_REQ_TIMEOUT (rem * 100000) cb
               else Some cb);
         Some (cb, rem) }
       else Some (cb, rem) }
     else Some (cb, rem) }"

definition convert_one ::
  "glnd_env \<Rightarrow> ptr \<Rightarrow> ptr \<Rightarrow> GLND_CB \<times> SaTimeT \<Rightarrow> (GLND_CB \<times> SaTimeT) option" where
  "convert_one E r m s = do {
     let (cb, rem) = s;
     cb \<leftarrow> lck_upd m (\<lambda>l. l\<lparr>req_mdest_id := glnd_mdest_id cb\<rparr>) cb;
     (cb, rem) \<leftarrow> convert_tmr E m rem cb;
     l \<leftarrow> lcks cb m;
     cb \<leftarrow> (if lockStatus (lock_info l) = SA_LCK_LOCK_GRANTED
           then do {
             cb \<leftarrow> res_upd r (\<lambda>ri. ri\<lparr>grant_list := m # grant_list ri\<rparr>) cb;
             if flag_set (lockFlags (lock_info l)) SA_LCK_LOCK_ORPHAN
             then glnd_resource_lock_req_set_orphan r (lock_type (lock_info l)) cb
             else Some cb }
           else if lock_type (lock_info l) = SA_LCK_EX_LOCK_MODE
           then res_upd r (\<lambda>ri. ri\<lparr>wait_exclusive_list := m # wait_exclusive_list ri\<rparr>) cb
           else res_upd r (\<lambda>ri. ri\<lparr>wait_read_list := m # wait_read_list ri\<rparr>) cb);
     Some (cb, rem) }"

definition glnd_resource_convert_nonmaster_to_master ::
  "glnd_env \<Rightarrow> ptr \<Rightarrow> GLND_CB \<Rightarrow> GLND_CB option" where
  "glnd_resource_convert_nonmaster_to_master E r cb = do {
     ri \<leftarrow> ress cb r;
     (cb, _) \<leftarrow> for_each (convert_one E r) (lcl_lck_req_info ri) (cb, 0);
     res_upd r (\<lambda>ri. ri\<lparr>lcl_lck_req_info := []\<rparr>) cb }"

text \<open>
  A node that stays non-master sends its requests to the new master; the event carries the
  local resource id and the unlock flag of the last request of the list for all of them.
\<close>

fun collect_lcks :: "GLND_CB \<Rightarrow> ptr list \<Rightarrow> GLND_RES_LOCK_LIST_INFO list option" where
  "collect_lcks cb [] = Some []"
| "collect_lcks cb (p # ps) = do {
     l \<leftarrow> lcks cb p; ls \<leftarrow> collect_lcks cb ps; Some (l # ls) }"

definition glnd_resource_resend_nonmaster_info_to_newmaster ::
  "ptr \<Rightarrow> GLND_CB \<Rightarrow> GLND_CB option" where
  "glnd_resource_resend_nonmaster_info_to_newmaster r cb = do {
     ri \<leftarrow> ress cb r;
     ls \<leftarrow> collect_lcks cb (lcl_lck_req_info ri);
     let ev = \<lparr>ri_resource_id = resource_id ri,
               ri_lcl_resource_id = (if ls = [] then 0 else lcl_resource_id (last ls)),
               ri_unlock_req_sent = (ls \<noteq> [] \<and> unlock_req_sent (last ls)),
               ri_glnd_mds_dest = glnd_mdest_id cb,
               ri_num_requests = of_nat (length ls),
               ri_list_of_req = rev (map lock_info ls)\<rparr>;
     Some (emit (OUT_GLND (master_mds_dest ri) (SND_RSC_INFO ev)) cb) }"

text \<open>The new master takes over a request another node has resent.\<close>

definition glnd_resource_master_process_resend_lock_req ::
  "glnd_env \<Rightarrow> ptr \<Rightarrow> GLSV_LOCK_REQ_INFO \<Rightarrow> u32 \<Rightarrow> bool \<Rightarrow> MDS_DEST \<Rightarrow> GLND_CB \<Rightarrow> GLND_CB option"
where
  "glnd_resource_master_process_resend_lock_req E r req lcl_rid unlock_sent req_dest cb = do {
     let p = e_ptr E;
     let l = (new_lck E r req req_dest lcl_rid (lockid req))\<lparr>unlock_req_sent := unlock_sent\<rparr>;
     let cb = cb\<lparr>numLocks := numLocks cb + 1, lcks := (lcks cb)(p \<mapsto> l)\<rparr>;
     if lockStatus req = SA_LCK_LOCK_GRANTED
     then res_upd r (\<lambda>ri. ri\<lparr>grant_list := p # grant_list ri\<rparr>) cb
     else if lock_type req = SA_LCK_EX_LOCK_MODE
     then res_upd r (\<lambda>ri. ri\<lparr>wait_exclusive_list := p # wait_exclusive_list ri\<rparr>) cb
     else res_upd r (\<lambda>ri. ri\<lparr>wait_read_list := p # wait_read_list ri\<rparr>) cb }"

definition lost_unlock_evt :: "u32 \<Rightarrow> GLND_RES_LOCK_LIST_INFO \<Rightarrow> glnd_evt" where
  "lost_unlock_evt rid l = NODE_LCK GLSV_GLND_EVT_UNLCK_REQ
     (lck_evt_zero\<lparr>li_glnd_mds_dest := req_mdest_id l, li_client_handle_id := handleId (lock_info l),
        li_lockid := lockid (lock_info l), li_lcl_lockid := lcl_lockid (lock_info l),
        li_resource_id := rid, li_lcl_resource_id := lcl_resource_id l,
        li_invocation := invocation (lock_info l)\<rparr>)"

definition glnd_resource_check_lost_unlock_requests :: "ptr \<Rightarrow> GLND_CB \<Rightarrow> GLND_CB option" where
  "glnd_resource_check_lost_unlock_requests r cb = do {
     ri \<leftarrow> ress cb r;
     ls \<leftarrow> collect_lcks cb (grant_list ri);
     Some (cb\<lparr>out := out cb @ map (OUT_LOCAL \<circ> lost_unlock_evt (resource_id ri))
                              (filter unlock_req_sent ls)\<rparr>) }"

section \<open>Deadlock detection\<close>

text \<open>
  The scan of \<open>glnd_deadlock_detect\<close>: the first probe element that names this client on this
  node, and the first of the client's requests with its resource and lock id. The result is
  the entry of the client's resource list and the request, or nothing.
\<close>

fun dd_find_req ::
  "GLND_CB \<Rightarrow> GLSV_GLND_DD_INFO \<Rightarrow> nat \<Rightarrow> GLND_CLIENT_LIST_RESOURCE list
   \<Rightarrow> (nat \<times> ptr) option option" where
  "dd_find_req cb dd i [] = Some None"
| "dd_find_req cb dd i (e # es) = do {
     ri \<leftarrow> ress cb (rsc_info e);
     if resource_id ri = dd_rsc_id dd
     then do {
       po \<leftarrow> find_lck (\<lambda>l. lockid (lock_info l) = dd_lck_id dd) cb (lck_list e);
       case po of Some p \<Rightarrow> Some (Some (i, p)) | None \<Rightarrow> dd_find_req cb dd (Suc i) es }
     else dd_find_req cb dd (Suc i) es }"

fun dd_scan ::
  "GLND_CB \<Rightarrow> GLND_CLIENT_INFO \<Rightarrow> GLSV_GLND_DD_INFO list \<Rightarrow> (nat \<times> ptr) option option" where
  "dd_scan cb ci [] = Some None"
| "dd_scan cb ci (dd # dds) =
     (if app_handle_id ci = blck_hdl_id dd
         \<and> m_NCS_NODE_ID_FROM_MDS_DEST (glnd_mdest_id cb)
             = m_NCS_NODE_ID_FROM_MDS_DEST (blck_dest_id dd)
      then do {
        r \<leftarrow> dd_find_req cb dd 0 (res_list ci);
        case r of Some ip \<Rightarrow> Some (Some ip) | None \<Rightarrow> dd_scan cb ci dds }
      else dd_scan cb ci dds)"

text \<open>
  The reply to a synchronous call passes the local lock id, unlike a grant; a cancel event is
  sent unless this node is the master.
\<close>

definition deadlock_gla_evt :: "GLND_CLIENT_INFO \<Rightarrow> GLND_RES_LOCK_LIST_INFO \<Rightarrow> glnd_out" where
  "deadlock_gla_evt ci l =
     (let i = lock_info l in
      if call_type i = GLSV_SYNC_CALL
      then OUT_GLA_RSP (client_mds_dest ci) (glnd_res_lock_mds_ctxt l)
             (GLA_SYNC_LOCK SA_AIS_OK (lcl_lockid i) (lockStatus i) (handleId i))
      else OUT_GLA (agent_mds_dest i)
             (GLA_LOCK_GRANT_CBK SA_AIS_OK (lockid i) (lcl_lockid i) (lock_type i)
                (lcl_resource_id l) (invocation i) (lockStatus i) (handleId i)))"

definition glnd_deadlock_detect ::
  "ptr \<Rightarrow> GLSV_GLND_DD_INFO list \<Rightarrow> GLND_CB \<Rightarrow> (GLND_CB \<times> bool) option" where
  "glnd_deadlock_detect c dds cb = do {
     ci \<leftarrow> clients cb c;
     hit \<leftarrow> dd_scan cb ci dds;
     case hit of
       None \<Rightarrow> Some (cb, False)
     | Some (i, p) \<Rightarrow> do {
         l \<leftarrow> lcks cb p;
         if lockStatus (lock_info l) = SA_LCK_LOCK_GRANTED then Some (cb, True)
         else do {
           cb \<leftarrow> set_lck_status SA_LCK_LOCK_DEADLOCK p cb;
           cb \<leftarrow> lck_stop_tmr p cb;
           l \<leftarrow> lcks cb p;
           let cb = emit (deadlock_gla_evt ci l) cb;
           ri \<leftarrow> ress cb (res_info l);
           let ev = (m_GLND_RESOURCE_NODE_LCK_INFO_FILL (resource_id ri) (lcl_resource_id l)
                       (handleId (lock_info l)) (lockid (lock_info l)) SA_LCK_MODE_UNSET 0
                       SA_LCK_STATUS_UNSET 0 SA_LCK_MODE_UNSET SA_AIS_ERR_ZERO
                       (lcl_lockid (lock_info l)) 0)\<lparr>li_glnd_mds_dest := req_mdest_id l\<rparr>;
           let cb = (if glnd_mdest_id cb \<noteq> master_mds_dest ri
                     then emit (OUT_GLND (master_mds_dest ri)
                                 (NODE_LCK GLSV_GLND_EVT_LCK_REQ_CANCEL ev)) cb
                     else cb);
           cb \<leftarrow> glnd_resource_lock_req_delete (res_info l) p cb;
           (cb, _) \<leftarrow> glnd_client_node_resource_lock_req_del (Some c) i (Some p) cb;
           Some (cb, True) } } }"

end
