(* ===== verification/Rw_Lock.thy ===== *)
theory Rw_Lock
  imports Glsv_Data
begin

text \<open>
  What the master of a lock resource promises, without store, timers and messages: a
  reader/writer lock with a list of holders, a queue of exclusive waiters (newest first), a
  list of protected-read waiters and two flags for locks orphaned by their owner. A lock is
  named by the address of its node, paired with its mode.

  The lemmas show that every operation keeps the lock exclusive, and that a release or a
  cancellation followed by a resynchronisation leaves no waiter behind that could be granted.
\<close>

type_synonym holder = "ptr \<times> SaLckLockModeT"

record rw =
  holders :: "holder list"
  exq :: "holder list"
  rdq :: "holder list"
  exo :: bool
  pro :: bool

definition no_ex :: "holder list \<Rightarrow> bool" where
  "no_ex hs \<longleftrightarrow> (\<forall>h \<in> set hs. snd h \<noteq> SA_LCK_EX_LOCK_MODE)"

definition rw_request :: "u32 \<Rightarrow> holder \<Rightarrow> rw \<Rightarrow> rw \<times> SaLckLockStatusT option" where
  "rw_request flags h s =
     (let free = (case snd h of
                    SA_LCK_EX_LOCK_MODE \<Rightarrow> holders s = [] \<and> \<not> exo s \<and> \<not> pro s
                  | _ \<Rightarrow> no_ex (holders s) \<and> \<not> exo s)
      in if free then (s\<lparr>holders := h # holders s\<rparr>, Some SA_LCK_LOCK_GRANTED)
         else if flag_set flags SA_LCK_LOCK_NO_QUEUE then (s, Some SA_LCK_LOCK_NOT_QUEUED)
         else if flag_set flags SA_LCK_LOCK_ORPHAN \<and> (exo s \<or> pro s)
         then (s, Some SA_LCK_LOCK_ORPHANED)
         else if snd h = SA_LCK_EX_LOCK_MODE then (s\<lparr>exq := h # exq s\<rparr>, None)
         else (s\<lparr>rdq := h # rdq s\<rparr>, None))"

definition rw_remove :: "ptr \<Rightarrow> rw \<Rightarrow> rw" where
  "rw_remove p s = s\<lparr>holders := filter (\<lambda>h. fst h \<noteq> p) (holders s),
                     exq := filter (\<lambda>h. fst h \<noteq> p) (exq s),
                     rdq := filter (\<lambda>h. fst h \<noteq> p) (rdq s)\<rparr>"

definition rw_grant_ex :: "rw \<Rightarrow> rw" where
  "rw_grant_ex s =
     (if holders s = [] \<and> \<not> pro s \<and> exq s \<noteq> []
      then s\<lparr>holders := [last (exq s)], exq := butlast (exq s)\<rparr> else s)"

definition rw_grant_pr :: "rw \<Rightarrow> rw" where
  "rw_grant_pr s =
     (if no_ex (holders s) then s\<lparr>holders := rev (rdq s) @ holders s, rdq := []\<rparr> else s)"

definition rw_resync :: "rw \<Rightarrow> rw" where
  "rw_resync s = (if exo s then s else rw_grant_pr (rw_grant_ex s))"

definition rw_purge :: "rw \<Rightarrow> rw" where
  "rw_purge s = rw_resync (s\<lparr>exo := False, pro := False\<rparr>)"

definition rw_orphan :: "holder \<Rightarrow> rw \<Rightarrow> rw" where
  "rw_orphan h s = s\<lparr>exo := (exo s \<or> snd h = SA_LCK_EX_LOCK_MODE),
                     pro := (pro s \<or> snd h = SA_LCK_PR_LOCK_MODE)\<rparr>"

section \<open>Exclusiveness\<close>

definition rw_excl :: "rw \<Rightarrow> bool" where
  "rw_excl s \<longleftrightarrow> (\<forall>h \<in> set (holders s). snd h = SA_LCK_EX_LOCK_MODE \<longrightarrow> holders s = [h])"

definition rw_inv :: "rw \<Rightarrow> bool" where
  "rw_inv s \<longleftrightarrow>
     distinct (map fst (holders s @ exq s @ rdq s)) \<and> rw_excl s
     \<and> (\<forall>h \<in> set (exq s). snd h = SA_LCK_EX_LOCK_MODE) \<and> no_ex (rdq s)"

definition rw_free :: "ptr \<Rightarrow> rw \<Rightarrow> bool" where
  "rw_free p s \<longleftrightarrow> p \<notin> fst ` set (holders s @ exq s @ rdq s)"

lemma rw_inv_request:
  "rw_inv s \<Longrightarrow> rw_free (fst h) s \<Longrightarrow> rw_inv (fst (rw_request flags h s))"
  by (cases "snd h") (auto simp: rw_inv_def rw_excl_def rw_free_def rw_request_def no_ex_def)

lemma distinct_map_filter_fst: "distinct (map fst xs) \<Longrightarrow> distinct (map fst (filter P xs))"
  by (simp add: distinct_map_filter)

lemma filter_singleton: "filter P [h] = (if P h then [h] else [])"
  by simp

lemma rw_excl_remove: "rw_excl s \<Longrightarrow> rw_excl (rw_remove p s)"
proof -
  assume "rw_excl s"
  then have "\<And>h. h \<in> set (holders s) \<Longrightarrow> snd h = SA_LCK_EX_LOCK_MODE \<Longrightarrow> holders s = [h]"
    by (auto simp: rw_excl_def)
  then show ?thesis by (fastforce simp: rw_excl_def rw_remove_def)
qed

lemma rw_inv_remove: "rw_inv s \<Longrightarrow> rw_inv (rw_remove p s)"
proof -
  assume inv: "rw_inv s"
  then have "distinct (map fst (filter (\<lambda>h. fst h \<noteq> p) (holders s @ exq s @ rdq s)))"
    by (intro distinct_map_filter_fst) (simp add: rw_inv_def)
  with inv rw_excl_remove [of s p] show ?thesis
    by (simp add: rw_inv_def rw_remove_def no_ex_def)
qed

lemma rw_inv_grant_ex: "rw_inv s \<Longrightarrow> rw_inv (rw_grant_ex s)"
proof (cases "holders s = [] \<and> \<not> pro s \<and> exq s \<noteq> []")
  case True
  then obtain qs q where q: "exq s = qs @ [q]" by (metis rev_exhaust)
  assume "rw_inv s"
  with True q show ?thesis
    by (auto simp: rw_grant_ex_def rw_inv_def rw_excl_def)
next
  case False
  assume "rw_inv s"
  moreover from False have "rw_grant_ex s = s" by (auto simp: rw_grant_ex_def)
  ultimately show ?thesis by simp
qed

lemma rw_inv_grant_pr: "rw_inv s \<Longrightarrow> rw_inv (rw_grant_pr s)"
  by (auto simp: rw_grant_pr_def rw_inv_def rw_excl_def no_ex_def simp flip: rev_map)

lemma rw_inv_resync: "rw_inv s \<Longrightarrow> rw_inv (rw_resync s)"
  by (simp add: rw_resync_def rw_inv_grant_ex rw_inv_grant_pr)

lemma rw_inv_flags [simp]: "rw_inv (s\<lparr>exo := a, pro := b\<rparr>) = rw_inv s"
  by (simp add: rw_inv_def rw_excl_def)

lemma rw_inv_orphan [simp]: "rw_inv (rw_orphan h s) = rw_inv s"
  by (simp add: rw_orphan_def)

lemma rw_inv_purge: "rw_inv s \<Longrightarrow> rw_inv (rw_purge s)"
  unfolding rw_purge_def by (rule rw_inv_resync) simp

lemmas rw_invs = rw_inv_request rw_inv_remove rw_inv_resync rw_inv_purge

section \<open>No waiter is forgotten\<close>

text \<open>
  A state is settled when every waiter has a reason to wait: an exclusive waiter a holder or
  an orphaned lock, a reader an exclusive holder or an orphaned exclusive lock.
\<close>

definition rw_settled :: "rw \<Rightarrow> bool" where
  "rw_settled s \<longleftrightarrow>
     exo s \<or> ((holders s = [] \<and> \<not> pro s \<longrightarrow> exq s = []) \<and> (no_ex (holders s) \<longrightarrow> rdq s = []))"

lemma rw_settled_grant_pr:
  "holders s = [] \<and> \<not> pro s \<longrightarrow> exq s = [] \<Longrightarrow> rw_settled (rw_grant_pr s)"
  by (auto simp: rw_grant_pr_def rw_settled_def no_ex_def)

lemma rw_settled_resync: "rw_settled (rw_resync s)"
proof (cases "exo s")
  case True
  then show ?thesis by (simp add: rw_resync_def rw_settled_def)
next
  case False
  have "holders (rw_grant_ex s) = [] \<and> \<not> pro (rw_grant_ex s) \<longrightarrow> exq (rw_grant_ex s) = []"
    by (auto simp: rw_grant_ex_def)
  then show ?thesis using False by (simp add: rw_resync_def rw_settled_grant_pr)
qed

lemma rw_settled_request: "rw_settled s \<Longrightarrow> rw_settled (fst (rw_request flags h s))"
  by (cases "snd h") (auto simp: rw_settled_def rw_request_def no_ex_def)

lemma rw_settled_remove_waiter:
  "rw_settled s \<Longrightarrow> p \<notin> fst ` set (holders s) \<Longrightarrow> rw_settled (rw_remove p s)"
proof -
  assume "rw_settled s" "p \<notin> fst ` set (holders s)"
  moreover from this(2) have "filter (\<lambda>h. fst h \<noteq> p) (holders s) = holders s"
    by (auto simp: filter_id_conv)
  ultimately show ?thesis by (auto simp: rw_settled_def rw_remove_def)
qed

lemma rw_settled_purge: "rw_settled (rw_purge s)"
  by (simp add: rw_purge_def rw_settled_resync)

section \<open>Exclusive waiters are served first come, first served\<close>

lemma rw_request_exq:
  "exq (fst (rw_request flags h s)) = exq s \<or> exq (fst (rw_request flags h s)) = h # exq s"
  by (auto simp: rw_request_def Let_def)

lemma rw_resync_exq:
  assumes "rw_inv s"
  shows "exq (rw_resync s) = exq s
    \<or> (exq s = exq (rw_resync s) @ [last (exq s)] \<and> holders (rw_resync s) = [last (exq s)])"
proof (cases "\<not> exo s \<and> holders s = [] \<and> \<not> pro s \<and> exq s \<noteq> []")
  case True
  with assms have "snd (last (exq s)) = SA_LCK_EX_LOCK_MODE" by (simp add: rw_inv_def)
  with True show ?thesis by (simp add: rw_resync_def rw_grant_ex_def rw_grant_pr_def no_ex_def)
next
  case False
  then have "exo s \<or> rw_grant_ex s = s" by (auto simp: rw_grant_ex_def)
  then show ?thesis by (auto simp: rw_resync_def rw_grant_pr_def)
qed

section \<open>Runs\<close>

text \<open>
  The steps a lock can take. A release, a cancellation of a granted lock and an orphaning are
  followed by a resynchronisation; a waiter may be withdrawn without one.
\<close>

inductive rw_step :: "rw \<Rightarrow> rw \<Rightarrow> bool" where
  request: "rw_free (fst h) s \<Longrightarrow> rw_step s (fst (rw_request flags h s))"
| release: "rw_step s (rw_resync (rw_remove p s))"
| withdraw: "p \<notin> fst ` set (holders s) \<Longrightarrow> rw_step s (rw_remove p s)"
| orphan: "rw_step s (rw_resync (rw_remove p (rw_orphan h s)))"
| purge: "rw_step s (rw_purge s)"

lemma rw_step_inv: "rw_step s s' \<Longrightarrow> rw_inv s \<Longrightarrow> rw_inv s'"
  by (induction rule: rw_step.induct)
    (auto intro!: rw_inv_resync rw_inv_remove intro: rw_inv_request rw_inv_purge)

lemma rw_step_settled: "rw_step s s' \<Longrightarrow> rw_settled s \<Longrightarrow> rw_settled s'"
  by (induction rule: rw_step.induct)
    (auto intro: rw_settled_request rw_settled_resync rw_settled_remove_waiter rw_settled_purge)

lemma rw_steps_inv: "rw_step\<^sup>*\<^sup>* s s' \<Longrightarrow> rw_inv s \<Longrightarrow> rw_inv s'"
  by (induction rule: rtranclp_induct) (auto intro: rw_step_inv)

lemma rw_steps_settled: "rw_step\<^sup>*\<^sup>* s s' \<Longrightarrow> rw_settled s \<Longrightarrow> rw_settled s'"
  by (induction rule: rtranclp_induct) (auto intro: rw_step_settled)

text \<open>An exclusive holder has the lock for itself; a reader never holds it with a writer.\<close>

lemma rw_excl_holder:
  assumes "rw_inv s" "h \<in> set (holders s)" "snd h = SA_LCK_EX_LOCK_MODE"
  shows "holders s = [h]"
  using assms by (simp add: rw_inv_def rw_excl_def)

lemma rw_inv_empty: "rw_inv \<lparr>holders = [], exq = [], rdq = [], exo = a, pro = b\<rparr>"
  by (simp add: rw_inv_def rw_excl_def no_ex_def)

lemma rw_remove_free: "rw_free p s \<Longrightarrow> rw_remove p s = s"
  by (cases s) (auto simp: rw_free_def rw_remove_def intro!: filter_True)

section \<open>A contract for implementations\<close>

text \<open>
  A component that keeps a family of reader/writer locks: \<open>inv\<close> is its invariant, \<open>lock\<close>
  the lock it implements at an address, \<open>step\<close> its transitions. Whatever the component does to
  one of its locks must be a run of the specification. Then no run ever lets two writers, or a
  reader and a writer, hold the same lock, and no waiter is left that could be granted.
\<close>

locale rw_impl =
  fixes inv :: "'s \<Rightarrow> bool"
    and lock :: "'s \<Rightarrow> ptr \<Rightarrow> rw"
    and step :: "'s \<Rightarrow> 's \<Rightarrow> bool"
  assumes step_inv: "step s s' \<Longrightarrow> inv s \<Longrightarrow> inv s'"
    and step_sim: "step s s' \<Longrightarrow> inv s \<Longrightarrow> rw_step\<^sup>*\<^sup>* (lock s r) (lock s' r)"
begin

lemma run_inv: "step\<^sup>*\<^sup>* s s' \<Longrightarrow> inv s \<Longrightarrow> inv s'"
  by (induction rule: rtranclp_induct) (auto intro: step_inv)

lemma run_sim: "step\<^sup>*\<^sup>* s s' \<Longrightarrow> inv s \<Longrightarrow> rw_step\<^sup>*\<^sup>* (lock s r) (lock s' r)"
  by (induction rule: rtranclp_induct) (auto intro: step_sim run_inv rtranclp_trans)

lemma run_rw_inv: "step\<^sup>*\<^sup>* s s' \<Longrightarrow> inv s \<Longrightarrow> rw_inv (lock s r) \<Longrightarrow> rw_inv (lock s' r)"
  using run_sim rw_steps_inv by blast

lemma run_settled: "step\<^sup>*\<^sup>* s s' \<Longrightarrow> inv s \<Longrightarrow> rw_settled (lock s r) \<Longrightarrow> rw_settled (lock s' r)"
  using run_sim rw_steps_settled by blast

lemma run_exclusive:
  assumes "step\<^sup>*\<^sup>* s s'" "inv s" "rw_inv (lock s r)"
    and "h \<in> set (holders (lock s' r))" "snd h = SA_LCK_EX_LOCK_MODE"
  shows "holders (lock s' r) = [h]"
  using assms run_rw_inv rw_excl_holder by blast

end

end
