(* ===== verification/Glnd_Core.thy ===== *)
theory Glnd_Core
  imports Glnd_Lock Rw_Lock
begin

text \<open>
  The core of a control block: what is left when the output trace, the timers, the message
  context, the requester's address and status and the response flag of the lock nodes, and the
  orphan request counters are erased. Messages,
  timers and checkpoints do not touch the core; the lock operations act on it by the pure
  functions below. The well-formedness of the control block and the reader/writer lock each
  resource implements are functions of the core.
\<close>

definition core_lck :: "GLND_RES_LOCK_LIST_INFO \<Rightarrow> GLND_RES_LOCK_LIST_INFO" where
  "core_lck l = l\<lparr>timeout_tmr := tmr_zero, lock_rsp_not_sent := False, req_mdest_id := 0,
                  glnd_res_lock_mds_ctxt := [], non_master_status := GLND_NODE_STATUS_UNSET\<rparr>"

definition core_res :: "GLND_RESOURCE_INFO \<Rightarrow> GLND_RESOURCE_INFO" where
  "core_res ri = ri\<lparr>pr_orphan_req_count := 0, ex_orphan_req_count := 0\<rparr>"

definition core :: "GLND_CB \<Rightarrow> GLND_CB" where
  "core cb = cb\<lparr>lcks := (\<lambda>p. map_option core_lck (lcks cb p)),
                ress := (\<lambda>r. map_option core_res (ress cb r)), out := []\<rparr>"

section \<open>Selectors of the core\<close>

lemma core_lck_sel [simp]:
  "lck_info_hdl_id (core_lck l) = lck_info_hdl_id l" "lock_info (core_lck l) = lock_info l"
  "lcl_resource_id (core_lck l) = lcl_resource_id l"
  "unlock_req_sent (core_lck l) = unlock_req_sent l" "res_info (core_lck l) = res_info l"
  by (simp_all add: core_lck_def)

lemma core_lck_upd [simp]:
  "core_lck (l\<lparr>timeout_tmr := t\<rparr>) = core_lck l"
  "core_lck (l\<lparr>lock_rsp_not_sent := b\<rparr>) = core_lck l"
  "core_lck (l\<lparr>lock_info := i\<rparr>) = (core_lck l)\<lparr>lock_info := i\<rparr>"
  "core_lck (l\<lparr>req_mdest_id := d\<rparr>) = core_lck l"
  "core_lck (l\<lparr>glnd_res_lock_mds_ctxt := x\<rparr>) = core_lck l"
  "core_lck (l\<lparr>non_master_status := st\<rparr>) = core_lck l"
  "core_lck (core_lck l) = core_lck l"
  by (simp_all add: core_lck_def)

lemma core_res_sel [simp]:
  "resource_id (core_res ri) = resource_id ri" "grant_list (core_res ri) = grant_list ri"
  "wait_exclusive_list (core_res ri) = wait_exclusive_list ri"
  "wait_read_list (core_res ri) = wait_read_list ri"
  "lcl_lck_req_info (core_res ri) = lcl_lck_req_info ri"
  "pr_orphaned (core_res ri) = pr_orphaned ri" "ex_orphaned (core_res ri) = ex_orphaned ri"
  "status (core_res ri) = status ri" "master_mds_dest (core_res ri) = master_mds_dest ri"
  "master_status (core_res ri) = master_status ri" "lcl_ref_cnt (core_res ri) = lcl_ref_cnt ri"
  "resource_name (core_res ri) = resource_name ri"
  by (simp_all add: core_res_def)

lemma core_res_upd [simp]:
  "core_res (ri\<lparr>pr_orphan_req_count := n\<rparr>) = core_res ri"
  "core_res (ri\<lparr>ex_orphan_req_count := n\<rparr>) = core_res ri"
  "core_res (ri\<lparr>grant_list := ps\<rparr>) = (core_res ri)\<lparr>grant_list := ps\<rparr>"
  "core_res (ri\<lparr>wait_exclusive_list := ps\<rparr>) = (core_res ri)\<lparr>wait_exclusive_list := ps\<rparr>"
  "core_res (ri\<lparr>wait_read_list := ps\<rparr>) = (core_res ri)\<lparr>wait_read_list := ps\<rparr>"
  "core_res (ri\<lparr>lcl_lck_req_info := ps\<rparr>) = (core_res ri)\<lparr>lcl_lck_req_info := ps\<rparr>"
  "core_res (ri\<lparr>pr_orphaned := b\<rparr>) = (core_res ri)\<lparr>pr_orphaned := b\<rparr>"
  "core_res (ri\<lparr>ex_orphaned := b\<rparr>) = (core_res ri)\<lparr>ex_orphaned := b\<rparr>"
  "core_res (core_res ri) = core_res ri"
  by (simp_all add: core_res_def)

lemma core_res_unlink [simp]: "core_res (unlink p ri) = unlink p (core_res ri)"
  by (simp add: core_res_def unlink_def)

lemma core_sel [simp]:
  "lcks (core cb) p = map_option core_lck (lcks cb p)"
  "ress (core cb) r = map_option core_res (ress cb r)"
  "clients (core cb) = clients cb" "numLocks (core cb) = numLocks cb"
  "glnd_mdest_id (core cb) = glnd_mdest_id cb" "isClusterMember (core cb) = isClusterMember cb"
  "glnd_res_tree (core cb) = glnd_res_tree cb" "glnd_client_tree (core cb) = glnd_client_tree cb"
  "node_state (core cb) = node_state cb" "gld_card_up (core cb) = gld_card_up cb"
  "evt_bckup_q (core cb) = evt_bckup_q cb" "cb_hdl_id (core cb) = cb_hdl_id cb"
  by (simp_all add: core_def)

lemma core_core [simp]: "core (core cb) = core cb"
  by (simp add: core_def option.map_comp comp_def)

lemma core_out [simp]: "core (cb\<lparr>out := os\<rparr>) = core cb"
  by (simp add: core_def)

lemma core_emit [simp]: "core (emit m cb) = core cb"
  by (simp add: emit_def)

lemma emit_sel [simp]:
  "lcks (emit m cb) = lcks cb" "ress (emit m cb) = ress cb" "clients (emit m cb) = clients cb"
  "numLocks (emit m cb) = numLocks cb" "glnd_mdest_id (emit m cb) = glnd_mdest_id cb"
  "isClusterMember (emit m cb) = isClusterMember cb" "glnd_res_tree (emit m cb) = glnd_res_tree cb"
  "glnd_client_tree (emit m cb) = glnd_client_tree cb" "out (emit m cb) = out cb @ [m]"
  by (simp_all add: emit_def)

lemma core_upd_lck_same [simp]:
  "map_option core_lck (lcks cb p) = Some (core_lck l') \<Longrightarrow> m = lcks cb \<Longrightarrow>
   core (cb\<lparr>lcks := m(p \<mapsto> l')\<rparr>) = core cb"
  by (auto simp: core_def fun_eq_iff)

lemma core_upd_lcks:
  "core (cb\<lparr>lcks := (lcks cb)(p \<mapsto> l)\<rparr>) = (core cb)\<lparr>lcks := (lcks (core cb))(p \<mapsto> core_lck l)\<rparr>"
  by (auto simp: core_def fun_eq_iff)

lemma core_del_lcks:
  "core (cb\<lparr>lcks := (lcks cb)(p := None)\<rparr>) = (core cb)\<lparr>lcks := (lcks (core cb))(p := None)\<rparr>"
  by (auto simp: core_def fun_eq_iff)

lemma core_upd_ress:
  "core (cb\<lparr>ress := (ress cb)(r \<mapsto> ri)\<rparr>) = (core cb)\<lparr>ress := (ress (core cb))(r \<mapsto> core_res ri)\<rparr>"
  by (auto simp: core_def fun_eq_iff)

lemma core_upd_rest [simp]:
  "core (cb\<lparr>numLocks := n\<rparr>) = (core cb)\<lparr>numLocks := n\<rparr>"
  "core (cb\<lparr>clients := cs\<rparr>) = (core cb)\<lparr>clients := cs\<rparr>"
  "core (cb\<lparr>evt_bckup_q := q\<rparr>) = (core cb)\<lparr>evt_bckup_q := q\<rparr>"
  "core (cb\<lparr>glnd_res_tree := t\<rparr>) = (core cb)\<lparr>glnd_res_tree := t\<rparr>"
  by (simp_all add: core_def)

text \<open>Facts about the core carry over to blocks with the same core.\<close>

lemma core_eq_lcks: "core cb' = core cb \<Longrightarrow> lcks cb' p = Some l' \<Longrightarrow>
  \<exists>l. lcks cb p = Some l \<and> core_lck l = core_lck l'"
  by (metis core_sel(1) map_option_eq_Some)

lemma core_eq_ress: "core cb' = core cb \<Longrightarrow> ress cb' r = Some ri' \<Longrightarrow>
  \<exists>ri. ress cb r = Some ri \<and> core_res ri = core_res ri'"
  by (metis core_sel(2) map_option_eq_Some)

lemma core_eq_dom_lcks: "core cb' = core cb \<Longrightarrow> dom (lcks cb') = dom (lcks cb)"
  by (auto dest: core_eq_lcks core_eq_lcks [OF sym])

lemma core_eq_dom_ress: "core cb' = core cb \<Longrightarrow> dom (ress cb') = dom (ress cb)"
  by (auto dest: core_eq_ress core_eq_ress [OF sym])

section \<open>Operations that do not touch the core\<close>

lemma lck_start_tmr_core [frame]: "lck_start_tmr E p ty t cb = Some cb' \<Longrightarrow> core cb' = core cb"
  by (auto simp: lck_start_tmr_def Let_def case_prod_beta)

lemma lck_stop_tmr_core [frame]: "lck_stop_tmr p cb = Some cb' \<Longrightarrow> core cb' = core cb"
  by (auto simp: lck_stop_tmr_def Let_def case_prod_beta)

lemma ckpt_core [frame]:
  "ckpt_res r cb = Some cb' \<Longrightarrow> core cb' = core cb"
  "ckpt_lck_overwrite p cb = Some cb' \<Longrightarrow> core cb' = core cb"
  "ckpt_lck_write p cb = Some cb' \<Longrightarrow> core cb' = core cb"
  by (auto simp: ckpt_res_def ckpt_lck_overwrite_def ckpt_lck_write_def)

lemma core_upd_res_same:
  "ress cb r = Some ri \<Longrightarrow> core_res ri' = core_res ri \<Longrightarrow> core (cb\<lparr>ress := (ress cb)(r \<mapsto> ri')\<rparr>) = core cb"
  by (auto simp: core_def fun_eq_iff)

lemma set_orphan_count_core [frame]:
  "glnd_resource_lock_req_set_orphan r ty cb = Some cb' \<Longrightarrow> core cb' = core cb"
  "glnd_resource_lock_req_unset_orphan r ty cb = Some cb' \<Longrightarrow> core cb' = core cb"
  by (auto simp: glnd_resource_lock_req_set_orphan_def glnd_resource_lock_req_unset_orphan_def
      res_upd_def intro!: core_upd_res_same)

lemma initiate_core [frame]:
  "glnd_initiate_deadlock_algorithm E r p cb = Some (cb', c) \<Longrightarrow> core cb' = core cb"
  by (auto simp: glnd_initiate_deadlock_algorithm_def Let_def split: if_splits)

lemma initiate_if_core [frame]: "initiate_if E b r p cb = Some cb' \<Longrightarrow> core cb' = core cb"
  by (auto simp: initiate_if_def dest: initiate_core split: if_splits)

lemma waitercallbk_loop_core [frame]: "waitercallbk_loop q rid gs cb = Some cb' \<Longrightarrow> core cb' = core cb"
  by (induction gs arbitrary: cb) (fastforce simp: Let_def split: if_splits option.splits)+

lemma waitercallbk_core [frame]:
  "glnd_master_process_lock_initiate_waitercallbk r q cb = Some cb' \<Longrightarrow> core cb' = core cb"
  by (auto simp: glnd_master_process_lock_initiate_waitercallbk_def dest: waitercallbk_loop_core)

lemma for_each_core:
  assumes "\<And>x s s'. f x s = Some s' \<Longrightarrow> core s' = g x (core s)"
  shows "for_each f xs s = Some s' \<Longrightarrow> core s' = fold g xs (core s)"
  by (induction xs arbitrary: s) (auto dest!: assms)

lemma for_each_frame:
  assumes "\<And>x s s'. f x s = Some s' \<Longrightarrow> core s' = core s"
  shows "for_each f xs s = Some s' \<Longrightarrow> core s' = core s"
  by (induction xs arbitrary: s) (auto dest!: assms)

lemma ex_probe_core [frame]: "ex_probe E r p q d c cb = Some cb' \<Longrightarrow> core cb' = core cb"
  by (auto simp: ex_probe_def dest!: initiate_if_core split: if_splits)

lemma initiate_ifs_core [frame]:
  "for_each (\<lambda>b. initiate_if E b r p) bs cb = Some cb' \<Longrightarrow> core cb' = core cb"
  by (rule for_each_frame [where f = "\<lambda>b. initiate_if E b r p"]) (rule initiate_if_core)

lemma pr_probe_core [frame]: "pr_probe E r p q d c cb = Some cb' \<Longrightarrow> core cb' = core cb"
  by (auto simp: pr_probe_def dest!: initiate_if_core lck_start_tmr_core initiate_ifs_core
      split: if_splits)

lemma notification_core [frame]:
  "glnd_resource_master_grant_lock_send_notification E r p cb = Some cb' \<Longrightarrow> core cb' = core cb"
  unfolding glnd_resource_master_grant_lock_send_notification_def
  by (auto simp: Let_def lck_upd_def dest!: set_orphan_count_core ckpt_core split: if_splits)

section \<open>Operations on the core\<close>

definition status_core :: "SaLckLockStatusT \<Rightarrow> ptr \<Rightarrow> GLND_CB \<Rightarrow> GLND_CB" where
  "status_core st p cb = cb\<lparr>lcks := (lcks cb)(p := map_option
     (\<lambda>l. l\<lparr>lock_info := (lock_info l)\<lparr>lockStatus := st\<rparr>\<rparr>) (lcks cb p))\<rparr>"

definition lists_core :: "ptr \<Rightarrow> (GLND_RESOURCE_INFO \<Rightarrow> GLND_RESOURCE_INFO) \<Rightarrow> GLND_CB \<Rightarrow> GLND_CB" where
  "lists_core r f cb = cb\<lparr>ress := (ress cb)(r := map_option f (ress cb r))\<rparr>"

lemma res_upd_core:
  assumes "res_upd r f cb = Some cb'" and "\<And>ri. core_res (f ri) = f (core_res ri)"
  shows "core cb' = lists_core r f (core cb)"
  using assms by (auto simp: res_upd_def lists_core_def core_upd_ress)

lemma set_lck_status_core: "set_lck_status st p cb = Some cb' \<Longrightarrow> core cb' = status_core st p (core cb)"
  by (auto simp: set_lck_status_def lck_upd_def status_core_def core_upd_lcks)

definition grant_core :: "ptr \<Rightarrow> ptr \<Rightarrow> GLND_CB \<Rightarrow> GLND_CB" where
  "grant_core r m cb =
     lists_core r (\<lambda>ri. ri\<lparr>grant_list := m # grant_list ri\<rparr>) (status_core SA_LCK_LOCK_GRANTED m cb)"

lemma grant_one_pr_core: "grant_one_pr E r m cb = Some cb' \<Longrightarrow> core cb' = grant_core r m (core cb)"
  by (auto simp: grant_one_pr_def grant_core_def simp flip: set_lck_status_def
      dest!: notification_core lck_stop_tmr_core res_upd_core set_lck_status_core)

lemma move_pr_core:
  assumes "glnd_resource_master_move_pr_locks_to_grant_list E r cb = Some cb'"
    and "ress cb r = Some ri"
  shows "core cb' = lists_core r (\<lambda>ri. ri\<lparr>wait_read_list := []\<rparr>)
           (fold (grant_core r) (wait_read_list ri) (core cb))"
proof -
  from assms obtain c1 where 1: "for_each (grant_one_pr E r) (wait_read_list ri) cb = Some c1"
    and 2: "res_upd r (\<lambda>ri. ri\<lparr>wait_read_list := []\<rparr>) c1 = Some cb'"
    by (auto simp: glnd_resource_master_move_pr_locks_to_grant_list_def)
  have "core c1 = fold (grant_core r) (wait_read_list ri) (core cb)"
    using grant_one_pr_core 1 by (rule for_each_core)
  with 2 show ?thesis by (auto dest!: res_upd_core)
qed

lemma move_ex_core:
  assumes "glnd_resource_master_move_ex_locks_to_grant_list E r cb = Some cb'"
    and "ress cb r = Some ri" and "wait_exclusive_list ri \<noteq> []"
  shows "core cb' = status_core SA_LCK_LOCK_GRANTED (last (wait_exclusive_list ri))
           (lists_core r (\<lambda>ri'. ri'\<lparr>wait_exclusive_list := butlast (wait_exclusive_list ri'),
                                  grant_list := last (wait_exclusive_list ri) # grant_list ri'\<rparr>)
             (core cb))"
proof -
  let ?ex = "last (wait_exclusive_list ri)"
  from assms obtain c1 c2 c3 c4 where
      1: "res_upd r (\<lambda>ri. ri\<lparr>wait_exclusive_list := butlast (wait_exclusive_list ri)\<rparr>) cb = Some c1"
    and 2: "lck_stop_tmr ?ex c1 = Some c2"
    and 3: "res_upd r (\<lambda>ri. ri\<lparr>grant_list := ?ex # grant_list ri\<rparr>) c2 = Some c3"
    and 4: "set_lck_status SA_LCK_LOCK_GRANTED ?ex c3 = Some c4"
    and 5: "glnd_resource_master_grant_lock_send_notification E r ?ex c4 = Some cb'"
    by (auto simp: glnd_resource_master_move_ex_locks_to_grant_list_def set_lck_status_def Let_def)
  from 1 3 show ?thesis
    using notification_core [OF 5] set_lck_status_core [OF 4] lck_stop_tmr_core [OF 2]
    by (auto dest!: res_upd_core simp: lists_core_def option.map_comp comp_def)
qed

lemma destroy_core:
  assumes "glnd_resource_lock_req_destroy r p cb = Some cb'"
  shows "core cb' = (lists_core r (unlink p) (core cb))
           \<lparr>lcks := (lcks (core cb))(p := None), numLocks := numLocks cb - 1\<rparr>"
proof -
  from assms obtain l c1 c2 where l: "lcks cb p = Some l"
    and 1: "res_upd r (unlink p) cb = Some c1"
    and 2: "(if tmr_id (timeout_tmr l) \<noteq> 0 then lck_stop_tmr p c1 else Some c1) = Some c2"
    and 3: "cb' = c2\<lparr>lcks := (lcks c2)(p := None), numLocks := numLocks c2 - 1\<rparr>"
    by (auto simp: glnd_resource_lock_req_destroy_def)
  have c2: "core c2 = core c1" using 2 by (auto split: if_splits dest: lck_stop_tmr_core)
  have "core c1 = lists_core r (unlink p) (core cb)" using 1 by (rule res_upd_core) simp
  with c2 have c2': "core c2 = lists_core r (unlink p) (core cb)" by simp
  then have n: "numLocks c2 = numLocks cb"
    by (metis core_sel(4) lists_core_def GLND_CB.select_convs(6) GLND_CB.surjective
        GLND_CB.update_convs(11))
  have "core cb' = (core (c2\<lparr>lcks := (lcks c2)(p := None)\<rparr>))\<lparr>numLocks := numLocks cb - 1\<rparr>"
    using 3 n by simp
  also have "\<dots> = (core c2)\<lparr>lcks := (lcks (core c2))(p := None), numLocks := numLocks cb - 1\<rparr>"
    by (simp add: core_del_lcks del: core_sel(1))
  finally show ?thesis using c2' by (simp add: lists_core_def)
qed

lemma delete_core:
  assumes "glnd_resource_lock_req_delete r p cb = Some cb'"
  shows "core cb' = (lists_core r (unlink p) (core cb))
           \<lparr>lcks := (lcks (core cb))(p := None), numLocks := numLocks cb - 1\<rparr>"
  using assms
  by (auto simp: glnd_resource_lock_req_delete_def Let_def dest!: destroy_core split: if_splits)

end
