(* ===== verification/Glnd_Refine.thy ===== *)
theory Glnd_Refine
  imports Glnd_Core
begin

text \<open>
  The lock operations of the master implement the reader/writer lock of \<open>Rw_Lock\<close>: the
  abstraction \<open>abs_rw\<close> of a resource, the well-formedness of the store the operations rely
  on, that they do not fault on well-formed stores, and one refinement lemma per operation.
\<close>

section \<open>Operations that do not fault\<close>

text \<open>
  A step is steady for a lock node and a resource when it runs on every control block in
  which both are live, and leaves the set of live objects as it is.
\<close>

definition same_live :: "GLND_CB \<Rightarrow> GLND_CB \<Rightarrow> bool" where
  "same_live cb cb' \<longleftrightarrow> (\<forall>p. (lcks cb' p = None) = (lcks cb p = None))
                     \<and> (\<forall>r. (ress cb' r = None) = (ress cb r = None))"

definition steady :: "ptr \<Rightarrow> ptr \<Rightarrow> (GLND_CB \<Rightarrow> GLND_CB option) \<Rightarrow> bool" where
  "steady p r f \<longleftrightarrow> (\<forall>cb. lcks cb p \<noteq> None \<longrightarrow> ress cb r \<noteq> None \<longrightarrow>
                       (\<exists>cb'. f cb = Some cb' \<and> same_live cb cb'))"

lemma core_live:
  assumes "core cb' = core cb"
  shows "(lcks cb' p = None) = (lcks cb p = None)" "(ress cb' r = None) = (ress cb r = None)"
proof -
  have "(lcks (core cb') p = None) = (lcks (core cb) p = None)"
    "(ress (core cb') r = None) = (ress (core cb) r = None)" by (simp_all only: assms)
  then show "(lcks cb' p = None) = (lcks cb p = None)" "(ress cb' r = None) = (ress cb r = None)"
    by simp_all
qed

lemma same_live_core: "core cb' = core cb \<Longrightarrow> same_live cb cb'"
  unfolding same_live_def using core_live by blast

lemma same_live_refl [simp]: "same_live a a"
  by (simp add: same_live_def)

lemma same_live_trans: "same_live a b \<Longrightarrow> same_live b c \<Longrightarrow> same_live a c"
  by (simp add: same_live_def)

lemma steadyD:
  "steady p r f \<Longrightarrow> lcks cb p \<noteq> None \<Longrightarrow> ress cb r \<noteq> None \<Longrightarrow> \<exists>cb'. f cb = Some cb' \<and> same_live cb cb'"
  by (simp add: steady_def)

lemma steady_total: "steady p r f \<Longrightarrow> lcks cb p \<noteq> None \<Longrightarrow> ress cb r \<noteq> None \<Longrightarrow> f cb \<noteq> None"
  by (fastforce simp: steady_def)

lemma steady_bind:
  assumes f: "steady p r f" and g: "steady p r g"
  shows "steady p r (\<lambda>cb. f cb \<bind> g)"
  unfolding steady_def
proof (intro allI impI)
  fix cb :: GLND_CB
  assume l: "lcks cb p \<noteq> None" "ress cb r \<noteq> None"
  from steadyD [OF f l] obtain c1 where 1: "f cb = Some c1" "same_live cb c1" by blast
  from 1(2) l have "lcks c1 p \<noteq> None" "ress c1 r \<noteq> None" by (auto simp only: same_live_def)
  from steadyD [OF g this] 1 show "\<exists>cb'. f cb \<bind> g = Some cb' \<and> same_live cb cb'"
    by (auto intro: same_live_trans)
qed

lemma steady_base:
  "steady p r (lck_upd p f)" "steady p r (res_upd r g)" "steady p r (lck_stop_tmr p)"
  "steady p r (lck_start_tmr E p ty t)" "steady p r (ckpt_lck_overwrite p)"
  "steady p r (ckpt_lck_write p)" "steady p r (ckpt_res r)" "steady p r Some"
  by (auto simp: steady_def same_live_def lck_upd_def res_upd_def lck_stop_tmr_def emit_def
      lck_start_tmr_def ckpt_lck_overwrite_def ckpt_lck_write_def ckpt_res_def Let_def
      case_prod_beta split: if_splits simp del: bind_Some_iff)

lemma steady_status: "steady p r (set_lck_status st p)"
  by (simp add: set_lck_status_def steady_base)

lemma notification_total:
  "lcks cb p \<noteq> None \<Longrightarrow> ress cb r \<noteq> None \<Longrightarrow>
   glnd_resource_master_grant_lock_send_notification E r p cb \<noteq> None"
  by (auto simp: glnd_resource_master_grant_lock_send_notification_def Let_def lck_upd_def
      ckpt_lck_overwrite_def glnd_resource_lock_req_set_orphan_def res_upd_def
      simp del: bind_Some_iff)

lemma steady_notification:
  "steady p r (glnd_resource_master_grant_lock_send_notification E r p)"
  using notification_total same_live_core [OF notification_core] unfolding steady_def by blast

lemma steady_grant_one_pr: "steady p r (grant_one_pr E r p)"
  unfolding grant_one_pr_def by (intro steady_bind steady_base steady_notification)

lemma for_each_total:
  "(\<And>p. p \<in> set ps \<Longrightarrow> steady p r (f p)) \<Longrightarrow> \<forall>p \<in> set ps. lcks cb p \<noteq> None \<Longrightarrow> ress cb r \<noteq> None \<Longrightarrow>
   \<exists>cb'. for_each f ps cb = Some cb' \<and> same_live cb cb'"
proof (induction ps arbitrary: cb)
  case (Cons p ps)
  obtain c1 where 1: "f p cb = Some c1" "same_live cb c1"
    using steadyD [OF Cons.prems(1) [of p], of cb] Cons.prems by auto
  then have "\<forall>q \<in> set ps. lcks c1 q \<noteq> None" "ress c1 r \<noteq> None"
    using Cons.prems by (auto simp only: same_live_def list.set insert_iff)
  from Cons.IH [OF _ this] 1 Cons.prems(1) show ?case by (auto intro: same_live_trans)
qed simp

lemma move_pr_total:
  assumes "ress cb r = Some ri" "\<forall>p \<in> set (wait_read_list ri). lcks cb p \<noteq> None"
  shows "glnd_resource_master_move_pr_locks_to_grant_list E r cb \<noteq> None"
proof -
  obtain c1 where 1: "for_each (grant_one_pr E r) (wait_read_list ri) cb = Some c1" "same_live cb c1"
    using for_each_total [of _ r "grant_one_pr E r", OF steady_grant_one_pr assms(2)] assms(1) by auto
  with assms(1) have "ress c1 r \<noteq> None" by (simp add: same_live_def del: not_None_eq)
  with 1 assms(1) show ?thesis
    by (auto simp: glnd_resource_master_move_pr_locks_to_grant_list_def res_upd_def
        simp del: bind_Some_iff)
qed

lemma steady_move_ex:
  "steady ex r (\<lambda>cb. do {
       cb \<leftarrow> res_upd r (\<lambda>ri. ri\<lparr>wait_exclusive_list := butlast (wait_exclusive_list ri)\<rparr>) cb;
       cb \<leftarrow> lck_stop_tmr ex cb;
       cb \<leftarrow> res_upd r (\<lambda>ri. ri\<lparr>grant_list := ex # grant_list ri\<rparr>) cb;
       cb \<leftarrow> lck_upd ex (\<lambda>l. l\<lparr>lock_info := (lock_info l)\<lparr>lockStatus := SA_LCK_LOCK_GRANTED\<rparr>\<rparr>) cb;
       glnd_resource_master_grant_lock_send_notification E r ex cb })"
  by (intro steady_bind steady_base steady_notification)

lemma move_ex_total:
  assumes "ress cb r = Some ri" "\<forall>p \<in> set (wait_exclusive_list ri). lcks cb p \<noteq> None"
  shows "glnd_resource_master_move_ex_locks_to_grant_list E r cb \<noteq> None"
proof (cases "wait_exclusive_list ri = []")
  case True
  with assms(1) show ?thesis by (simp add: glnd_resource_master_move_ex_locks_to_grant_list_def)
next
  case False
  with assms have l: "lcks cb (last (wait_exclusive_list ri)) \<noteq> None" "ress cb r \<noteq> None" by simp_all
  from steady_total [OF steady_move_ex this] False assms(1) show ?thesis
    by (simp add: glnd_resource_master_move_ex_locks_to_grant_list_def Let_def
        del: bind_Some_iff not_None_eq)
qed

section \<open>The lock a resource implements\<close>

definition mode_of :: "GLND_CB \<Rightarrow> ptr \<Rightarrow> SaLckLockModeT" where
  "mode_of cb p = (case lcks cb p of Some l \<Rightarrow> lock_type (lock_info l) | None \<Rightarrow> SA_LCK_MODE_UNSET)"

definition abs_rw :: "GLND_CB \<Rightarrow> ptr \<Rightarrow> rw" where
  "abs_rw cb r =
     (case ress cb r of
        None \<Rightarrow> \<lparr>holders = [], exq = [], rdq = [], exo = False, pro = False\<rparr>
      | Some ri \<Rightarrow>
          \<lparr>holders = map (\<lambda>p. (p, mode_of cb p)) (grant_list ri),
           exq = map (\<lambda>p. (p, mode_of cb p)) (wait_exclusive_list ri),
           rdq = map (\<lambda>p. (p, mode_of cb p)) (wait_read_list ri),
           exo = ex_orphaned ri, pro = pr_orphaned ri\<rparr>)"

definition res_lcks :: "GLND_RESOURCE_INFO \<Rightarrow> ptr list" where
  "res_lcks ri = grant_list ri @ wait_exclusive_list ri @ wait_read_list ri @ lcl_lck_req_info ri"

definition owns :: "GLND_CB \<Rightarrow> ptr \<Rightarrow> ptr \<Rightarrow> bool" where
  "owns cb r p \<longleftrightarrow> (case lcks cb p of Some l \<Rightarrow> res_info l = r | None \<Rightarrow> False)"

definition lists_wf :: "GLND_CB \<Rightarrow> bool" where
  "lists_wf cb \<longleftrightarrow> (\<forall>r ri. ress cb r = Some ri \<longrightarrow>
     distinct (res_lcks ri) \<and> (\<forall>p \<in> set (res_lcks ri). owns cb r p))"

definition clients_wf :: "GLND_CB \<Rightarrow> bool" where
  "clients_wf cb \<longleftrightarrow> (\<forall>c \<in> snd ` set (glnd_client_tree cb).
     case clients cb c of None \<Rightarrow> False
     | Some ci \<Rightarrow> (\<forall>e \<in> set (res_list ci). ress cb (rsc_info e) \<noteq> None))"

definition tree_wf :: "GLND_CB \<Rightarrow> bool" where
  "tree_wf cb \<longleftrightarrow> tbl_wf (glnd_res_tree cb) \<and> ress cb NULL = None
     \<and> (\<forall>(k, r) \<in> set (glnd_res_tree cb).
          case ress cb r of None \<Rightarrow> False | Some ri \<Rightarrow> key32 (resource_id ri) = k)"

definition glnd_wf :: "GLND_CB \<Rightarrow> bool" where
  "glnd_wf cb \<longleftrightarrow> lists_wf cb \<and> clients_wf cb \<and> tree_wf cb"

text \<open>All of these are functions of the core.\<close>

lemma mode_of_core [simp]: "mode_of (core cb) = mode_of cb"
  by (auto simp: mode_of_def fun_eq_iff split: option.splits)

lemma owns_core [simp]: "owns (core cb) = owns cb"
  by (auto simp: owns_def fun_eq_iff split: option.splits)

lemma res_lcks_core [simp]: "res_lcks (core_res ri) = res_lcks ri"
  by (simp add: res_lcks_def)

lemma abs_rw_core [simp]: "abs_rw (core cb) r = abs_rw cb r"
  by (simp add: abs_rw_def split: option.splits)

lemma lists_wf_core [simp]: "lists_wf (core cb) = lists_wf cb"
proof
  assume wf: "lists_wf (core cb)"
  show "lists_wf cb" unfolding lists_wf_def
  proof (intro allI impI)
    fix r ri assume "ress cb r = Some ri"
    then have "ress (core cb) r = Some (core_res ri)" by simp
    with wf show "distinct (res_lcks ri) \<and> (\<forall>p \<in> set (res_lcks ri). owns cb r p)"
      by (fastforce simp: lists_wf_def simp del: core_sel)
  qed
qed (auto simp: lists_wf_def)

lemma clients_wf_core [simp]: "clients_wf (core cb) = clients_wf cb"
  by (simp add: clients_wf_def cong: option.case_cong del: not_None_eq)

lemma tree_wf_core [simp]: "tree_wf (core cb) = tree_wf cb"
  by (auto simp: tree_wf_def split: option.splits; fastforce)

lemma glnd_wf_core [simp]: "glnd_wf (core cb) = glnd_wf cb"
  by (simp add: glnd_wf_def)

lemma core_eq_wf: "core cb' = core cb \<Longrightarrow> glnd_wf cb' = glnd_wf cb"
  by (metis glnd_wf_core)

lemma core_eq_abs: "core cb' = core cb \<Longrightarrow> abs_rw cb' = abs_rw cb"
  by (rule ext) (metis abs_rw_core)

text \<open>The status of a node is not part of the abstraction.\<close>

lemma status_core_simps [simp]:
  "mode_of (status_core st p cb) = mode_of cb" "owns (status_core st p cb) = owns cb"
  "ress (status_core st p cb) = ress cb" "clients (status_core st p cb) = clients cb"
  "glnd_client_tree (status_core st p cb) = glnd_client_tree cb"
  "glnd_res_tree (status_core st p cb) = glnd_res_tree cb"
  by (auto simp: status_core_def mode_of_def owns_def fun_eq_iff split: option.splits)

lemma status_core_abs [simp]: "abs_rw (status_core st p cb) r = abs_rw cb r"
  by (simp add: abs_rw_def cong: option.case_cong)

lemma status_core_wf [simp]: "glnd_wf (status_core st p cb) = glnd_wf cb"
  by (simp add: glnd_wf_def lists_wf_def clients_wf_def tree_wf_def cong: option.case_cong)

lemma lists_core_simps [simp]:
  "mode_of (lists_core r f cb) = mode_of cb" "owns (lists_core r f cb) = owns cb"
  "ress (lists_core r f cb) r' = (if r' = r then map_option f (ress cb r) else ress cb r')"
  "clients (lists_core r f cb) = clients cb" "lcks (lists_core r f cb) = lcks cb"
  "glnd_client_tree (lists_core r f cb) = glnd_client_tree cb"
  "glnd_res_tree (lists_core r f cb) = glnd_res_tree cb"
  by (auto simp: lists_core_def mode_of_def owns_def fun_eq_iff)

lemma lists_core_other [simp]: "r' \<noteq> r \<Longrightarrow> abs_rw (lists_core r f cb) r' = abs_rw cb r'"
  by (simp add: abs_rw_def cong: option.case_cong)

lemma lists_core_wf:
  assumes wf: "glnd_wf cb" and ri: "ress cb r = Some ri"
    and f: "distinct (res_lcks (f ri))" "\<forall>p \<in> set (res_lcks (f ri)). owns cb r p"
      "resource_id (f ri) = resource_id ri"
  shows "glnd_wf (lists_core r f cb)"
proof -
  have "lists_wf (lists_core r f cb)" using wf ri f by (auto simp: glnd_wf_def lists_wf_def)
  moreover have "clients_wf (lists_core r f cb)"
    using wf ri by (fastforce simp: glnd_wf_def clients_wf_def split: option.splits)
  moreover have "tree_wf (lists_core r f cb)"
    using wf ri f(3) by (fastforce simp: glnd_wf_def tree_wf_def split: option.splits)
  ultimately show ?thesis by (simp add: glnd_wf_def)
qed

lemma glnd_wfD:
  assumes "glnd_wf cb" "ress cb r = Some ri"
  shows "distinct (res_lcks ri)" "p \<in> set (res_lcks ri) \<Longrightarrow> owns cb r p"
    "p \<in> set (res_lcks ri) \<Longrightarrow> lcks cb p \<noteq> None"
  using assms by (auto simp: glnd_wf_def lists_wf_def owns_def split: option.splits)

end
