(* ===== verification/Glnd_Master.thy ===== *)
theory Glnd_Master
  imports Glnd_Refine
begin

text \<open>
  The operations of the master of a resource refine the operations of \<open>Rw_Lock\<close>: each runs
  without a fault, keeps the invariant of the control block, leaves every other resource as
  it was and acts on the abstraction of its own resource as the abstract operation does.
\<close>

section \<open>The invariant\<close>

definition stat_of :: "GLND_CB \<Rightarrow> ptr \<Rightarrow> SaLckLockStatusT option" where
  "stat_of cb p = map_option (\<lambda>l. lockStatus (lock_info l)) (lcks cb p)"

text \<open>The locks on a grant list, and \<open>numLocks\<close>, which bounds the checkpoint sections.\<close>

definition granted_wf :: "GLND_CB \<Rightarrow> bool" where
  "granted_wf cb \<longleftrightarrow> (\<forall>r ri. ress cb r = Some ri \<longrightarrow>
     (\<forall>p \<in> set (grant_list ri). stat_of cb p = Some SA_LCK_LOCK_GRANTED))"

definition count_wf :: "GLND_CB \<Rightarrow> bool" where
  "count_wf cb \<longleftrightarrow> finite (dom (lcks cb)) \<and> numLocks cb = of_nat (card (dom (lcks cb)))"

definition glnd_inv :: "GLND_CB \<Rightarrow> bool" where
  "glnd_inv cb \<longleftrightarrow> glnd_wf cb \<and> granted_wf cb \<and> count_wf cb"

text \<open>What no lock operation changes.\<close>

definition rsc_static ::
  "GLND_RESOURCE_INFO \<Rightarrow> u32 \<times> SaNameT \<times> u32 \<times> MDS_DEST \<times> GLND_NODE_STATUS \<times> GLND_RESOURCE_STATUS"
where
  "rsc_static ri = (resource_id ri, resource_name ri, lcl_ref_cnt ri, master_mds_dest ri,
                    master_status ri, status ri)"

definition same_static :: "GLND_CB \<Rightarrow> GLND_CB \<Rightarrow> bool" where
  "same_static cb cb' \<longleftrightarrow>
     glnd_mdest_id cb' = glnd_mdest_id cb \<and> node_state cb' = node_state cb
     \<and> gld_card_up cb' = gld_card_up cb \<and> isClusterMember cb' = isClusterMember cb
     \<and> glnd_res_tree cb' = glnd_res_tree cb \<and> glnd_client_tree cb' = glnd_client_tree cb
     \<and> (\<forall>r. map_option rsc_static (ress cb' r) = map_option rsc_static (ress cb r))"

definition keeps :: "ptr \<Rightarrow> GLND_CB \<Rightarrow> GLND_CB \<Rightarrow> bool" where
  "keeps r cb cb' \<longleftrightarrow> glnd_inv cb' \<and> same_static cb cb'
     \<and> (\<forall>r'. r' \<noteq> r \<longrightarrow> abs_rw cb' r' = abs_rw cb r')"

lemma same_static_trans: "same_static a b \<Longrightarrow> same_static b c \<Longrightarrow> same_static a c"
  by (simp add: same_static_def)

lemma keeps_trans: "keeps r a b \<Longrightarrow> keeps r b c \<Longrightarrow> keeps r a c"
  by (simp add: keeps_def same_static_def)

lemma keeps_inv: "keeps r a b \<Longrightarrow> glnd_inv b"
  by (simp add: keeps_def)

lemma keeps_refl: "glnd_inv a \<Longrightarrow> keeps r a a"
  by (simp add: keeps_def same_static_def)

lemma same_static_ress:
  "same_static cb cb' \<Longrightarrow> ress cb r = Some ri \<Longrightarrow> \<exists>ri'. ress cb' r = Some ri' \<and> rsc_static ri' = rsc_static ri"
  by (auto simp: same_static_def dest!: spec [of _ r])

section \<open>Reduction to the core\<close>

lemma stat_of_core [simp]: "stat_of (core cb) = stat_of cb"
  by (auto simp: stat_of_def fun_eq_iff option.map_comp comp_def)

lemma granted_wf_core [simp]: "granted_wf (core cb) = granted_wf cb"
  by (fastforce simp: granted_wf_def)

lemma dom_lcks_core [simp]: "dom (lcks (core cb)) = dom (lcks cb)"
  by (auto simp: dom_def)

lemma count_wf_core [simp]: "count_wf (core cb) = count_wf cb"
  by (simp only: count_wf_def dom_lcks_core core_sel)

lemma glnd_inv_core [simp]: "glnd_inv (core cb) = glnd_inv cb"
  by (simp add: glnd_inv_def)

lemma rsc_static_core [simp]: "rsc_static (core_res ri) = rsc_static ri"
  by (simp add: rsc_static_def)

lemma same_static_core [simp]:
  "same_static (core cb) cb' = same_static cb cb'" "same_static cb (core cb') = same_static cb cb'"
  by (simp_all add: same_static_def option.map_comp comp_def)

lemma keeps_core [simp]: "keeps r (core cb) cb' = keeps r cb cb'" "keeps r cb (core cb') = keeps r cb cb'"
  by (simp_all add: keeps_def)

lemma keeps_core_eq: "core cb' = c \<Longrightarrow> keeps r (core cb) c \<Longrightarrow> keeps r cb cb'"
  by auto

lemma keeps_frame: "core cb' = core cb \<Longrightarrow> glnd_inv cb \<Longrightarrow> keeps r cb cb'"
  using keeps_core_eq [of cb' "core cb" r cb] by (simp add: keeps_refl)

lemma lists_core_keeps:
  assumes inv: "glnd_inv cb" and ri: "ress cb r = Some ri"
    and f: "distinct (res_lcks (f ri))" "\<forall>p \<in> set (res_lcks (f ri)). owns cb r p"
    and g: "\<forall>p \<in> set (grant_list (f ri)). stat_of cb p = Some SA_LCK_LOCK_GRANTED"
    and s: "rsc_static (f ri) = rsc_static ri"
  shows "keeps r cb (lists_core r f cb)"
proof -
  have "glnd_wf (lists_core r f cb)"
    using inv ri f s by (intro lists_core_wf) (auto simp: glnd_inv_def rsc_static_def)
  moreover have "granted_wf (lists_core r f cb)"
    using inv ri g by (auto simp: glnd_inv_def granted_wf_def stat_of_def)
  moreover have "count_wf (lists_core r f cb)"
    using inv by (simp add: glnd_inv_def count_wf_def) (simp add: lists_core_def)
  moreover have "same_static cb (lists_core r f cb)"
    using ri s by (simp add: same_static_def) (simp add: lists_core_def)
  ultimately show ?thesis by (simp add: keeps_def glnd_inv_def)
qed

lemma status_core_keeps:
  assumes "glnd_inv cb" "st = SA_LCK_LOCK_GRANTED \<or> (\<forall>r ri. ress cb r = Some ri \<longrightarrow> p \<notin> set (grant_list ri))"
  shows "keeps r cb (status_core st p cb)"
proof -
  have "granted_wf (status_core st p cb)"
    using assms by (fastforce simp: glnd_inv_def granted_wf_def stat_of_def status_core_def)
  moreover have "dom (lcks (status_core st p cb)) = dom (lcks cb)"
    by (auto simp: status_core_def)
  ultimately show ?thesis
    using assms(1) by (simp add: keeps_def glnd_inv_def same_static_def count_wf_def)
      (simp add: status_core_def)
qed

section \<open>Moving waiters to the grant list\<close>

lemma abs_lists_core:
  "ress cb r = Some ri \<Longrightarrow> abs_rw (lists_core r f cb) r =
     \<lparr>holders = map (\<lambda>p. (p, mode_of cb p)) (grant_list (f ri)),
      exq = map (\<lambda>p. (p, mode_of cb p)) (wait_exclusive_list (f ri)),
      rdq = map (\<lambda>p. (p, mode_of cb p)) (wait_read_list (f ri)),
      exo = ex_orphaned (f ri), pro = pr_orphaned (f ri)\<rparr>"
  by (simp add: abs_rw_def)

lemma abs_rw_Some:
  "ress cb r = Some ri \<Longrightarrow> abs_rw cb r =
     \<lparr>holders = map (\<lambda>p. (p, mode_of cb p)) (grant_list ri),
      exq = map (\<lambda>p. (p, mode_of cb p)) (wait_exclusive_list ri),
      rdq = map (\<lambda>p. (p, mode_of cb p)) (wait_read_list ri),
      exo = ex_orphaned ri, pro = pr_orphaned ri\<rparr>"
  by (simp add: abs_rw_def)

lemma abs_rw_cong:
  assumes "ress cb' r = ress cb r"
    and "\<And>ri p. ress cb r = Some ri \<Longrightarrow> p \<in> set (res_lcks ri) \<Longrightarrow> mode_of cb' p = mode_of cb p"
  shows "abs_rw cb' r = abs_rw cb r"
  using assms by (auto simp: abs_rw_def res_lcks_def split: option.splits)

lemma lists_status_commute: "lists_core r f (status_core st p cb) = status_core st p (lists_core r f cb)"
  by (simp add: lists_core_def status_core_def)

lemma lists_lists: "lists_core r f (lists_core r g cb) = lists_core r (\<lambda>ri. f (g ri)) cb"
  by (simp add: lists_core_def option.map_comp comp_def)

lemma fold_grant_core:
  "fold (grant_core r) ps cb =
     lists_core r (\<lambda>ri. ri\<lparr>grant_list := rev ps @ grant_list ri\<rparr>)
       (fold (status_core SA_LCK_LOCK_GRANTED) ps cb)"
proof (induction ps arbitrary: cb)
  case Nil
  then show ?case by (simp add: lists_core_def option.map_ident)
next
  case (Cons p ps)
  have "fold (status_core SA_LCK_LOCK_GRANTED) ps
          (lists_core r f (status_core SA_LCK_LOCK_GRANTED p cb))
        = lists_core r f (fold (status_core SA_LCK_LOCK_GRANTED) ps
            (status_core SA_LCK_LOCK_GRANTED p cb))" for f
    by (induction ps arbitrary: p cb rule: rev_induct) (simp_all add: lists_status_commute)
  then show ?case by (simp add: Cons.IH grant_core_def [of r p] lists_lists)
qed

lemma fold_status_simps:
  "ress (fold (status_core st) ps cb) = ress cb" "mode_of (fold (status_core st) ps cb) = mode_of cb"
  "owns (fold (status_core st) ps cb) = owns cb" "abs_rw (fold (status_core st) ps cb) r = abs_rw cb r"
  by (induction ps arbitrary: cb) simp_all

lemma stat_of_status_core:
  "stat_of (status_core st p cb) q = (if q = p then map_option (\<lambda>_. st) (stat_of cb p) else stat_of cb q)"
  by (simp add: stat_of_def status_core_def option.map_comp comp_def)

lemma fold_status_stat_of:
  "stat_of (fold (status_core st) ps cb) q =
     (if q \<in> set ps then map_option (\<lambda>_. st) (stat_of cb q) else stat_of cb q)"
  by (induction ps arbitrary: cb) (auto simp: stat_of_status_core option.map_comp comp_def)

lemma fold_status_keeps:
  "glnd_inv cb \<Longrightarrow> keeps r cb (fold (status_core SA_LCK_LOCK_GRANTED) ps cb)"
  by (induction ps arbitrary: cb)
    (auto simp: keeps_refl intro: keeps_trans [OF status_core_keeps] keeps_inv [OF status_core_keeps])

lemma owns_stat_of: "owns cb r p \<Longrightarrow> stat_of cb p \<noteq> None"
  by (auto simp: owns_def stat_of_def split: option.splits)

lemma move_pr_refine:
  assumes inv: "glnd_inv cb" and ri: "ress cb r = Some ri"
    and run: "glnd_resource_master_move_pr_locks_to_grant_list E r cb = Some cb'"
  shows "keeps r cb cb'"
    and "abs_rw cb' r = (abs_rw cb r)\<lparr>holders := rev (rdq (abs_rw cb r)) @ holders (abs_rw cb r), rdq := []\<rparr>"
proof -
  define c where "c = fold (status_core SA_LCK_LOCK_GRANTED) (wait_read_list ri) (core cb)"
  let ?f = "\<lambda>x. x\<lparr>grant_list := rev (wait_read_list ri) @ grant_list x, wait_read_list := []\<rparr>"
  have core: "core cb' = lists_core r ?f c"
    using move_pr_core [OF run ri] by (simp add: fold_grant_core lists_lists c_def)
  have c: "ress c r = Some (core_res ri)" "mode_of c = mode_of cb" "owns c = owns cb"
    using ri by (simp_all add: c_def fold_status_simps)
  have kc: "keeps r cb c" using fold_status_keeps [of "core cb"] inv by (simp add: c_def)
  have wf: "distinct (res_lcks ri)" "\<And>p. p \<in> set (res_lcks ri) \<Longrightarrow> owns cb r p"
    using inv ri glnd_wfD unfolding glnd_inv_def by blast+
  have "keeps r c (lists_core r ?f c)"
  proof (rule lists_core_keeps [OF keeps_inv [OF kc] c(1)])
    show "distinct (res_lcks (?f (core_res ri)))" using wf(1) by (auto simp: res_lcks_def)
    show "\<forall>p \<in> set (res_lcks (?f (core_res ri))). owns c r p"
      using wf(2) c(3) by (auto simp: res_lcks_def)
    show "\<forall>p \<in> set (grant_list (?f (core_res ri))). stat_of c p = Some SA_LCK_LOCK_GRANTED"
      using inv ri wf(2) owns_stat_of
      by (fastforce simp: c_def fold_status_stat_of glnd_inv_def granted_wf_def res_lcks_def)
  qed (simp add: rsc_static_def)
  then show "keeps r cb cb'" using keeps_trans [OF kc] core by (metis keeps_core(2))
  have "abs_rw cb' r = abs_rw (lists_core r ?f c) r" by (metis core abs_rw_core)
  then show "abs_rw cb' r = (abs_rw cb r)\<lparr>holders := rev (rdq (abs_rw cb r)) @ holders (abs_rw cb r), rdq := []\<rparr>"
    using ri c by (simp add: abs_lists_core abs_rw_Some rev_map)
qed

lemma move_ex_refine:
  assumes inv: "glnd_inv cb" and ri: "ress cb r = Some ri" and ne: "wait_exclusive_list ri \<noteq> []"
    and run: "glnd_resource_master_move_ex_locks_to_grant_list E r cb = Some cb'"
  shows "keeps r cb cb'"
    and "abs_rw cb' r = (abs_rw cb r)\<lparr>holders := last (exq (abs_rw cb r)) # holders (abs_rw cb r),
                                       exq := butlast (exq (abs_rw cb r))\<rparr>"
proof -
  obtain ws w where w: "wait_exclusive_list ri = ws @ [w]" using ne by (metis rev_exhaust)
  define c where "c = status_core SA_LCK_LOCK_GRANTED w (core cb)"
  let ?f = "\<lambda>x. x\<lparr>wait_exclusive_list := butlast (wait_exclusive_list x), grant_list := w # grant_list x\<rparr>"
  have core: "core cb' = lists_core r ?f c"
    using move_ex_core [OF run ri ne] w by (simp add: lists_status_commute c_def)
  have c: "ress c r = Some (core_res ri)" "mode_of c = mode_of cb" "owns c = owns cb"
    using ri by (simp_all add: c_def)
  have kc: "keeps r cb c"
    using status_core_keeps [of "core cb" SA_LCK_LOCK_GRANTED] inv by (simp add: c_def)
  have wf: "distinct (res_lcks ri)" "\<And>p. p \<in> set (res_lcks ri) \<Longrightarrow> owns cb r p"
    using inv ri glnd_wfD unfolding glnd_inv_def by blast+
  have "keeps r c (lists_core r ?f c)"
  proof (rule lists_core_keeps [OF keeps_inv [OF kc] c(1)])
    show "distinct (res_lcks (?f (core_res ri)))" using wf(1) w by (auto simp: res_lcks_def)
    show "\<forall>p \<in> set (res_lcks (?f (core_res ri))). owns c r p"
      using wf(2) w c(3) by (auto simp: res_lcks_def)
    show "\<forall>p \<in> set (grant_list (?f (core_res ri))). stat_of c p = Some SA_LCK_LOCK_GRANTED"
      using inv ri w owns_stat_of [OF wf(2), of w]
      by (auto simp: c_def stat_of_status_core glnd_inv_def granted_wf_def res_lcks_def)
  qed (simp add: rsc_static_def)
  then show "keeps r cb cb'" using keeps_trans [OF kc] core by (metis keeps_core(2))
  have "abs_rw cb' r = abs_rw (lists_core r ?f c) r" by (metis core abs_rw_core)
  then show "abs_rw cb' r = (abs_rw cb r)\<lparr>holders := last (exq (abs_rw cb r)) # holders (abs_rw cb r),
                                       exq := butlast (exq (abs_rw cb r))\<rparr>"
    using ri c w by (simp add: abs_lists_core abs_rw_Some)
qed

section \<open>Resynchronisation of the grant list\<close>

lemma exclusive_in_eval:
  "\<forall>p \<in> set ps. lcks cb p \<noteq> None \<Longrightarrow> exclusive_in cb ps = Some (\<not> no_ex (map (\<lambda>p. (p, mode_of cb p)) ps))"
  by (induction ps) (auto simp: no_ex_def mode_of_def simp del: bind_Some_iff)

lemma exclusive_locks_eval:
  assumes "glnd_inv cb" "ress cb r = Some ri"
  shows "glnd_resource_grant_list_exclusive_locks cb r = Some (\<not> no_ex (holders (abs_rw cb r)))"
proof -
  have "\<forall>p \<in> set (grant_list ri). lcks cb p \<noteq> None"
    using assms glnd_wfD(3) unfolding glnd_inv_def res_lcks_def by fastforce
  then show ?thesis
    using assms(2) by (simp add: glnd_resource_grant_list_exclusive_locks_def exclusive_in_eval
        abs_rw_Some del: bind_Some_iff)
qed

lemma head_belongs_eval:
  assumes "\<And>p. p \<in> set ps \<Longrightarrow> owns cb r p"
  shows "head_belongs cb r ps = Some (ps \<noteq> [])"
  using assms [of "hd ps"] by (cases ps) (auto simp: head_belongs_def owns_def split: option.splits)

text \<open>The first phase: the oldest exclusive waiter, if nobody holds the lock.\<close>

lemma resync_ex_refine:
  assumes inv: "glnd_inv cb" and ri: "ress cb r = Some ri"
  shows "\<exists>cb'. (if grant_list ri = [] \<and> \<not> pr_orphaned ri
      then do {
        b \<leftarrow> head_belongs cb r (wait_exclusive_list ri);
        if b then glnd_resource_master_move_ex_locks_to_grant_list E r cb else Some cb }
      else Some cb) = Some cb' \<and> keeps r cb cb' \<and> abs_rw cb' r = rw_grant_ex (abs_rw cb r)"
proof (cases "grant_list ri = [] \<and> \<not> pr_orphaned ri \<and> wait_exclusive_list ri \<noteq> []")
  case True
  have live: "\<forall>p \<in> set (wait_exclusive_list ri). lcks cb p \<noteq> None"
    using inv ri glnd_wfD(3) unfolding glnd_inv_def res_lcks_def by fastforce
  obtain cb' where run: "glnd_resource_master_move_ex_locks_to_grant_list E r cb = Some cb'"
    using move_ex_total [OF ri live, of E] by blast
  moreover have "head_belongs cb r (wait_exclusive_list ri) = Some True"
    using True inv ri glnd_wfD(2)
    by (subst head_belongs_eval) (auto simp: glnd_inv_def res_lcks_def)
  moreover have "abs_rw cb' r = rw_grant_ex (abs_rw cb r)"
    using move_ex_refine(2) [OF inv ri _ run] True ri by (simp add: rw_grant_ex_def abs_rw_Some)
  ultimately show ?thesis using True move_ex_refine(1) [OF inv ri _ run] by simp
next
  case False
  then have g: "rw_grant_ex (abs_rw cb r) = abs_rw cb r"
    using ri by (auto simp: rw_grant_ex_def abs_rw_Some)
  have k: "keeps r cb cb" using inv by (rule keeps_refl)
  show ?thesis
  proof (cases "grant_list ri = [] \<and> \<not> pr_orphaned ri")
    case True
    with False have "head_belongs cb r (wait_exclusive_list ri) = Some False"
      by (simp add: head_belongs_def)
    with True g k show ?thesis by (simp del: bind_Some_iff)
  next
    case False
    then show ?thesis using g k by (simp only: if_False) simp
  qed
qed

lemma resync_pr_refine:
  assumes inv: "glnd_inv cb" and ri: "ress cb r = Some ri"
  shows "\<exists>cb'. (do {
      ex \<leftarrow> glnd_resource_grant_list_exclusive_locks cb r;
      if \<not> ex
      then do {
        ri \<leftarrow> ress cb r;
        b \<leftarrow> head_belongs cb r (wait_read_list ri);
        if b then glnd_resource_master_move_pr_locks_to_grant_list E r cb else Some cb }
      else Some cb }) = Some cb' \<and> keeps r cb cb' \<and> abs_rw cb' r = rw_grant_pr (abs_rw cb r)"
proof (cases "no_ex (holders (abs_rw cb r)) \<and> wait_read_list ri \<noteq> []")
  case True
  have live: "\<forall>p \<in> set (wait_read_list ri). lcks cb p \<noteq> None"
    using inv ri glnd_wfD(3) unfolding glnd_inv_def res_lcks_def by fastforce
  obtain cb' where run: "glnd_resource_master_move_pr_locks_to_grant_list E r cb = Some cb'"
    using move_pr_total [OF ri live, of E] by blast
  moreover have "head_belongs cb r (wait_read_list ri) = Some True"
    using True inv ri glnd_wfD(2)
    by (subst head_belongs_eval) (auto simp: glnd_inv_def res_lcks_def)
  moreover have "abs_rw cb' r = rw_grant_pr (abs_rw cb r)"
    using move_pr_refine(2) [OF inv ri run] True by (simp add: rw_grant_pr_def)
  ultimately show ?thesis
    using True ri move_pr_refine(1) [OF inv ri run] by (simp add: exclusive_locks_eval [OF inv ri])
next
  case False
  then have "rw_grant_pr (abs_rw cb r) = abs_rw cb r"
    using ri by (auto simp: rw_grant_pr_def abs_rw_Some)
  with False ri show ?thesis using keeps_refl [OF inv, of r]
    by (auto simp: head_belongs_def exclusive_locks_eval [OF inv ri] simp del: bind_Some_iff)
qed

lemma resync_refine:
  assumes inv: "glnd_inv cb" and ri: "ress cb r = Some ri"
  shows "\<exists>cb'. glnd_resource_master_lock_resync_grant_list E r cb = Some cb' \<and> keeps r cb cb'
              \<and> abs_rw cb' r = rw_resync (abs_rw cb r)"
proof (cases "ex_orphaned ri")
  case True
  with ri keeps_refl [OF inv, of r] show ?thesis
    by (simp add: glnd_resource_master_lock_resync_grant_list_def rw_resync_def abs_rw_Some)
next
  case False
  obtain c1 where 1: "(if grant_list ri = [] \<and> \<not> pr_orphaned ri
      then do {
        b \<leftarrow> head_belongs cb r (wait_exclusive_list ri);
        if b then glnd_resource_master_move_ex_locks_to_grant_list E r cb else Some cb }
      else Some cb) = Some c1" and k1: "keeps r cb c1" and a1: "abs_rw c1 r = rw_grant_ex (abs_rw cb r)"
    using resync_ex_refine [OF inv ri] by blast
  obtain r1 where "ress c1 r = Some r1"
    using k1 ri same_static_ress unfolding keeps_def by blast
  from resync_pr_refine [OF keeps_inv [OF k1] this, of E] obtain c2 where
    2: "(do {
      ex \<leftarrow> glnd_resource_grant_list_exclusive_locks c1 r;
      if \<not> ex
      then do {
        ri \<leftarrow> ress c1 r;
        b \<leftarrow> head_belongs c1 r (wait_read_list ri);
        if b then glnd_resource_master_move_pr_locks_to_grant_list E r c1 else Some c1 }
      else Some c1 }) = Some c2" and k2: "keeps r c1 c2" and a2: "abs_rw c2 r = rw_grant_pr (abs_rw c1 r)"
    by blast
  have "glnd_resource_master_lock_resync_grant_list E r cb = Some c2"
    using ri False 1 2 unfolding glnd_resource_master_lock_resync_grant_list_def by simp
  moreover have "rw_resync (abs_rw cb r) = abs_rw c2 r"
    using a1 a2 False ri by (simp add: rw_resync_def abs_rw_Some)
  ultimately show ?thesis using keeps_trans [OF k1 k2] by auto
qed

section \<open>Deleting a lock node\<close>

definition del_core :: "ptr \<Rightarrow> ptr \<Rightarrow> GLND_CB \<Rightarrow> GLND_CB" where
  "del_core r p cb = (lists_core r (unlink p) cb)\<lparr>lcks := (lcks cb)(p := None), numLocks := numLocks cb - 1\<rparr>"

lemma del_core_simps [simp]:
  "ress (del_core r p cb) = ress (lists_core r (unlink p) cb)"
  "lcks (del_core r p cb) = (lcks cb)(p := None)" "clients (del_core r p cb) = clients cb"
  "glnd_client_tree (del_core r p cb) = glnd_client_tree cb"
  "glnd_res_tree (del_core r p cb) = glnd_res_tree cb" "numLocks (del_core r p cb) = numLocks cb - 1"
  "q \<noteq> p \<Longrightarrow> mode_of (del_core r p cb) q = mode_of cb q"
  "q \<noteq> p \<Longrightarrow> owns (del_core r p cb) r' q = owns cb r' q"
  "q \<noteq> p \<Longrightarrow> stat_of (del_core r p cb) q = stat_of cb q"
  by (simp_all add: del_core_def lists_core_def mode_of_def owns_def stat_of_def)

lemma res_lcks_unlink:
  "distinct (res_lcks ri) \<Longrightarrow> distinct (res_lcks (unlink p ri)) \<and> set (res_lcks (unlink p ri)) = set (res_lcks ri) - {p}"
proof -
  assume d: "distinct (res_lcks ri)"
  then have "res_lcks (unlink p ri) = removeAll p (res_lcks ri)"
    by (simp add: res_lcks_def unlink_def distinct_remove1_removeAll)
  with d show ?thesis by (simp add: distinct_removeAll)
qed

lemma count_wf_del:
  assumes "count_wf cb" "lcks cb p \<noteq> None"
  shows "count_wf (del_core r p cb)"
proof -
  have "p \<in> dom (lcks cb)" "finite (dom (lcks cb))" using assms by (auto simp: count_wf_def)
  then have "card (dom (lcks cb)) = Suc (card (dom (lcks cb) - {p}))" by (rule card.remove [rotated])
  then have "(of_nat (card (dom (lcks cb))) :: u32) = of_nat (card (dom (lcks cb) - {p})) + 1"
    by simp
  then show ?thesis using assms(1) by (simp add: count_wf_def)
qed

lemma map_mode_remove:
  assumes "distinct ps"
  shows "map (\<lambda>q. (q, mode_of (del_core r p cb) q)) (remove1 p ps)
         = filter (\<lambda>h. fst h \<noteq> p) (map (\<lambda>q. (q, mode_of cb q)) ps)"
  using assms by (auto simp: distinct_remove1_removeAll removeAll_filter_not_eq filter_map comp_def
      intro!: map_cong filter_cong)

lemma del_core_keeps:
  assumes inv: "glnd_inv cb" and ri: "ress cb r = Some ri" and p: "owns cb r p"
  shows "keeps r cb (del_core r p cb)" and "abs_rw (del_core r p cb) r = rw_remove p (abs_rw cb r)"
proof -
  let ?c = "del_core r p cb"
  have wf: "lists_wf cb" and d: "distinct (res_lcks ri)"
    using inv ri by (auto simp: glnd_inv_def glnd_wf_def lists_wf_def)
  have foreign: "p \<notin> set (res_lcks ri')" if "ress cb r' = Some ri'" "r' \<noteq> r" for r' ri'
    using wf that p by (fastforce simp: lists_wf_def owns_def split: option.splits)
  note un = res_lcks_unlink [OF d, of p]
  have "lists_wf ?c" unfolding lists_wf_def
  proof (intro allI impI)
    fix r' ri' assume r': "ress ?c r' = Some ri'"
    show "distinct (res_lcks ri') \<and> (\<forall>q \<in> set (res_lcks ri'). owns ?c r' q)"
    proof (cases "r' = r")
      case True
      with r' ri have "ri' = unlink p ri" by simp
      with un True wf ri show ?thesis by (auto simp: lists_wf_def)
    next
      case False
      with r' have r'': "ress cb r' = Some ri'" by simp
      have "owns ?c r' q" if "q \<in> set (res_lcks ri')" for q
      proof -
        have "q \<noteq> p" using that foreign [OF r'' False] by blast
        then show ?thesis using that wf r'' by (simp add: lists_wf_def)
      qed
      with wf r'' show ?thesis by (auto simp: lists_wf_def)
    qed
  qed
  moreover have "clients_wf ?c"
    using inv ri by (fastforce simp: glnd_inv_def glnd_wf_def clients_wf_def split: option.splits)
  moreover have "tree_wf ?c"
    using inv ri
    by (fastforce simp: glnd_inv_def glnd_wf_def tree_wf_def unlink_def split: option.splits)
  moreover have "granted_wf ?c" unfolding granted_wf_def
  proof (intro allI impI ballI)
    fix r' ri' q assume a: "ress ?c r' = Some ri'" "q \<in> set (grant_list ri')"
    have "q \<noteq> p"
      using a un ri foreign [of r' ri'] by (cases "r' = r") (auto simp: res_lcks_def)
    moreover have "\<exists>x. ress cb r' = Some x \<and> q \<in> set (grant_list x)"
      using a ri by (cases "r' = r") (auto simp: unlink_def dest: set_remove1_subset [THEN subsetD])
    ultimately show "stat_of ?c q = Some SA_LCK_LOCK_GRANTED"
      using inv by (auto simp: glnd_inv_def granted_wf_def)
  qed
  moreover have "count_wf ?c"
    using inv p by (intro count_wf_del) (auto simp: glnd_inv_def owns_def split: option.splits)
  moreover have "same_static cb ?c"
    using ri by (simp add: same_static_def)
      (simp add: del_core_def lists_core_def rsc_static_def unlink_def)
  moreover have "abs_rw ?c r' = abs_rw cb r'" if "r' \<noteq> r" for r'
    using that by (intro abs_rw_cong) (simp, metis foreign del_core_simps(7))
  ultimately show "keeps r cb ?c" by (simp add: keeps_def glnd_inv_def glnd_wf_def)
  show "abs_rw ?c r = rw_remove p (abs_rw cb r)"
    using ri d by (simp add: abs_rw_Some unlink_def rw_remove_def map_mode_remove res_lcks_def)
qed

lemma delete_total:
  assumes "lcks cb p = Some l" "ress cb r = Some ri"
  shows "\<exists>cb'. glnd_resource_lock_req_delete r p cb = Some cb'"
  using assms
  by (simp add: glnd_resource_lock_req_delete_def glnd_resource_lock_req_destroy_def Let_def
      res_upd_def lck_stop_tmr_def case_prod_beta del: bind_Some_iff)

lemma delete_refine:
  assumes inv: "glnd_inv cb" and ri: "ress cb r = Some ri" and p: "owns cb r p"
  shows "\<exists>cb'. glnd_resource_lock_req_delete r p cb = Some cb' \<and> keeps r cb cb'
              \<and> abs_rw cb' r = rw_remove p (abs_rw cb r)"
proof -
  obtain cb' where run: "glnd_resource_lock_req_delete r p cb = Some cb'"
    using delete_total p ri by (fastforce simp: owns_def split: option.splits)
  have "core cb' = del_core r p (core cb)" using delete_core [OF run] by (simp add: del_core_def)
  moreover have "glnd_inv (core cb)" "ress (core cb) r = Some (core_res ri)" "owns (core cb) r p"
    using inv ri p by simp_all
  note del_core_keeps [OF this]
  ultimately show ?thesis using run by (metis keeps_core abs_rw_core)
qed

end
