(* ===== verification/Glnd_Request.thy ===== *)
theory Glnd_Request
  imports Glnd_Master
begin

text \<open>
  A lock request at the master refines \<open>rw_request\<close>: the probes and callbacks it sends do
  not fault, and the new node ends where the abstract operation puts it, with the status the
  abstract operation reports.
\<close>

section \<open>Probes and callbacks do not fault\<close>

lemma client_found:
  assumes "glnd_wf cb" "glnd_client_node_find cb h = Some c"
  shows "\<exists>ci. clients cb c = Some ci \<and> (\<forall>e \<in> set (res_list ci). ress cb (rsc_info e) \<noteq> None)"
proof -
  have "c \<in> snd ` set (glnd_client_tree cb)"
    using assms(2) tbl_get_SomeD by (force simp: glnd_client_node_find_def)
  with assms(1) show ?thesis by (auto simp: glnd_wf_def clients_wf_def split: option.splits)
qed

lemma grants_live:
  "glnd_wf cb \<Longrightarrow> ress cb r = Some ri \<Longrightarrow> g \<in> set (grant_list ri) \<Longrightarrow> lcks cb g \<noteq> None"
  using glnd_wfD(3) [of cb r ri g] by (simp add: res_lcks_def)

lemma waitercallbk_loop_total:
  "glnd_wf cb \<Longrightarrow> \<forall>g \<in> set gs. lcks cb g \<noteq> None \<Longrightarrow> \<exists>cb'. waitercallbk_loop q rid gs cb = Some cb'"
proof (induction gs arbitrary: cb)
  case (Cons g gs)
  then obtain l where l: "lcks cb g = Some l" by auto
  have IH: "\<exists>cb'. waitercallbk_loop q rid gs (emit m cb) = Some cb'" for m
    using Cons.prems core_eq_wf [of "emit m cb" cb] by (intro Cons.IH) auto
  have IH': "\<exists>cb'. waitercallbk_loop q rid gs cb = Some cb'" using Cons.prems by (intro Cons.IH) auto
  show ?case
  proof (cases "glnd_client_node_find cb (handleId (lock_info l))")
    case None
    with l IH IH' show ?thesis by (simp add: Let_def del: bind_Some_iff)
  next
    case (Some c)
    with client_found [OF Cons.prems(1) Some] l IH IH' show ?thesis
      by (auto simp: Let_def simp del: bind_Some_iff)
  qed
qed simp

lemma waitercallbk_total:
  "glnd_wf cb \<Longrightarrow> ress cb r = Some ri \<Longrightarrow>
   \<exists>cb'. glnd_master_process_lock_initiate_waitercallbk r q cb = Some cb'"
  using waitercallbk_loop_total [of cb "grant_list ri" q "resource_id ri"] grants_live
  by (auto simp: glnd_master_process_lock_initiate_waitercallbk_def simp del: bind_Some_iff)

lemma head_holder_total:
  assumes "glnd_wf cb" "ress cb r = Some ri"
  shows "\<exists>b. head_holder_is cb r m q d = Some b"
proof (cases "grant_list ri")
  case (Cons g gs)
  with grants_live [OF assms, of g] assms(2) show ?thesis
    by (auto simp: head_holder_is_def simp del: bind_Some_iff)
qed (auto simp: head_holder_is_def assms)

lemma probe_total:
  "\<forall>e \<in> set es. ress cb (rsc_info e) \<noteq> None \<Longrightarrow> \<exists>b. probe_first wl cb rid es = Some b"
  "\<forall>e \<in> set es. ress cb (rsc_info e) \<noteq> None \<Longrightarrow> \<exists>bs. probe_flags wl cb rid es = Some bs"
  by (induction es) (auto simp del: bind_Some_iff)

lemma client_res_list_total:
  assumes "glnd_wf cb"
  shows "\<exists>es. client_res_list cb (glnd_client_node_find cb h) = Some es
              \<and> (\<forall>e \<in> set es. ress cb (rsc_info e) \<noteq> None)"
proof (cases "glnd_client_node_find cb h")
  case (Some c)
  from client_found [OF assms this] Some show ?thesis
    by (auto simp: client_res_list_def simp del: bind_Some_iff)
qed (simp add: client_res_list_def)

lemma steady_initiate_if: "steady p r (initiate_if E b r p)"
proof -
  have "initiate_if E b r p cb \<noteq> None" if "lcks cb p \<noteq> None" "ress cb r \<noteq> None" for cb
    using that
    by (auto simp: initiate_if_def glnd_initiate_deadlock_algorithm_def Let_def simp del: bind_Some_iff)
  then show ?thesis
    unfolding steady_def using same_live_core [OF initiate_if_core] by blast
qed

lemma initiate_if_run:
  assumes "glnd_wf cb" "ress cb r = Some ri" "lcks cb p \<noteq> None"
  shows "\<exists>cb'. initiate_if E b r p cb = Some cb' \<and> core cb' = core cb"
  using steady_total [OF steady_initiate_if assms(3), of r E b] assms(2) initiate_if_core by fastforce

lemma initiate_ifs_run:
  assumes "glnd_wf cb" "ress cb r = Some ri" "lcks cb p \<noteq> None"
  shows "\<exists>cb'. for_each (\<lambda>b. initiate_if E b r p) bs cb = Some cb' \<and> core cb' = core cb"
  using assms
proof (induction bs arbitrary: cb ri)
  case (Cons b bs)
  obtain c1 where 1: "initiate_if E b r p cb = Some c1" "core c1 = core cb"
    using initiate_if_run [OF Cons.prems] by blast
  have "glnd_wf c1" "ress c1 r \<noteq> None" "lcks c1 p \<noteq> None"
    using Cons.prems core_eq_wf [OF 1(2)] core_live [OF 1(2)] by simp_all
  with Cons.IH [of c1] 1 show ?case by auto
qed simp

lemma ex_probe_total:
  assumes wf: "glnd_wf cb" and ri: "ress cb r = Some ri" and p: "lcks cb p \<noteq> None"
  shows "\<exists>cb'. ex_probe E r p q d (glnd_client_node_find cb h) cb = Some cb'"
proof -
  obtain b where b: "head_holder_is cb r SA_LCK_EX_LOCK_MODE q d = Some b"
    using head_holder_total [OF wf ri] by blast
  obtain es where es: "client_res_list cb (glnd_client_node_find cb h) = Some es"
      "\<forall>e \<in> set es. ress cb (rsc_info e) \<noteq> None" using client_res_list_total [OF wf] by blast
  obtain hit where hit: "probe_first wait_exclusive_list cb (resource_id ri) es = Some hit"
    using probe_total(1) [OF es(2)] by blast
  obtain c1 where c1: "initiate_if E hit r p cb = Some c1" "core c1 = core cb"
    using initiate_if_run [OF wf ri p] by blast
  obtain c2 where c2: "initiate_if E True r p cb = Some c2" using initiate_if_run [OF wf ri p] by blast
  have wf1: "glnd_wf c1" using core_eq_wf [OF c1(2)] wf by simp
  have p1: "lcks c1 p \<noteq> None" using core_live(1) [OF c1(2)] p by simp
  obtain ri1 where ri1: "ress c1 r = Some ri1" using core_live(2) [OF c1(2), of r] ri by auto
  obtain b1 where b1: "head_holder_is c1 r SA_LCK_PR_LOCK_MODE q d = Some b1"
    using head_holder_total [OF wf1 ri1] by blast
  obtain c3 where "initiate_if E b1 r p c1 = Some c3" using initiate_if_run [OF wf1 ri1 p1] by blast
  with b es hit c1 c2 b1 ri show ?thesis
    by (cases "d = glnd_mdest_id cb") (auto simp: ex_probe_def simp del: bind_Some_iff)
qed

lemma pr_probe_total:
  assumes wf: "glnd_wf cb" and ri: "ress cb r = Some ri" and p: "lcks cb p \<noteq> None"
  shows "\<exists>cb'. pr_probe E r p q d (glnd_client_node_find cb h) cb = Some cb'"
proof -
  obtain c0 where c0: "lck_start_tmr E p GLND_TMR_RES_LOCK_REQ_TIMEOUT (timeout q) cb = Some c0"
    using steady_total [OF steady_base(4) p, of r E] ri by fastforce
  note k0 = lck_start_tmr_core [OF c0]
  have wf0: "glnd_wf c0" using core_eq_wf [OF k0] wf by simp
  have p0: "lcks c0 p \<noteq> None" using core_live(1) [OF k0] p by simp
  obtain r0 where r0: "ress c0 r = Some r0" using core_live(2) [OF k0, of r] ri by auto
  have tree: "glnd_client_node_find c0 h = glnd_client_node_find cb h"
    unfolding glnd_client_node_find_def by (metis k0 core_sel(8))
  obtain es where es: "client_res_list c0 (glnd_client_node_find cb h) = Some es"
      "\<forall>e \<in> set es. ress c0 (rsc_info e) \<noteq> None"
    using client_res_list_total [OF wf0, of h] tree by auto
  obtain hits where hits: "probe_flags wait_read_list c0 (resource_id r0) es = Some hits"
    using probe_total(2) [OF es(2)] by blast
  obtain c1 where c1: "for_each (\<lambda>b. initiate_if E b r p) hits c0 = Some c1" "core c1 = core c0"
    using initiate_ifs_run [OF wf0 r0 p0] by blast
  have wf1: "glnd_wf c1" using core_eq_wf [OF c1(2)] wf0 by simp
  have p1: "lcks c1 p \<noteq> None" using core_live(1) [OF c1(2)] p0 by simp
  obtain r1 where r1: "ress c1 r = Some r1" using core_live(2) [OF c1(2), of r] r0 by auto
  obtain b1 where b1: "head_holder_is c1 r SA_LCK_EX_LOCK_MODE q d = Some b1"
    using head_holder_total [OF wf1 r1] by blast
  obtain c3 where "initiate_if E b1 r p c1 = Some c3" using initiate_if_run [OF wf1 r1 p1] by blast
  moreover obtain c4 where "initiate_if E True r p cb = Some c4"
    using initiate_if_run [OF wf ri p] by blast
  ultimately show ?thesis
    using c0 r0 es hits c1 b1
    by (cases "d = glnd_mdest_id cb") (auto simp: pr_probe_def simp del: bind_Some_iff)
qed

section \<open>A lock request\<close>

definition off_lists :: "GLND_CB \<Rightarrow> ptr \<Rightarrow> bool" where
  "off_lists cb p \<longleftrightarrow> (\<forall>r ri. ress cb r = Some ri \<longrightarrow> p \<notin> set (res_lcks ri))"

definition new_node :: "GLND_CB \<Rightarrow> ptr \<Rightarrow> ptr \<Rightarrow> SaLckLockModeT \<Rightarrow> bool" where
  "new_node cb r p m \<longleftrightarrow> owns cb r p \<and> mode_of cb p = m \<and> off_lists cb p"

lemma new_node_live: "new_node cb r p m \<Longrightarrow> lcks cb p \<noteq> None"
  by (auto simp: new_node_def owns_def split: option.splits)

lemma new_node_core [simp]: "new_node (core cb) = new_node cb"
  by (fastforce simp: new_node_def off_lists_def fun_eq_iff)

text \<open>Granting a new node, refusing it, and putting it on a wait list.\<close>

lemma grant_new_keeps:
  assumes inv: "glnd_inv cb" and ri: "ress cb r = Some ri" and new: "new_node cb r p m"
    and 1: "set_lck_status SA_LCK_LOCK_GRANTED p cb = Some c1"
    and 2: "res_upd r (\<lambda>ri. ri\<lparr>grant_list := p # grant_list ri\<rparr>) c1 = Some c2"
  shows "keeps r cb c2"
    and "abs_rw c2 r = (abs_rw cb r)\<lparr>holders := (p, m) # holders (abs_rw cb r)\<rparr>"
    and "stat_of c2 p = Some SA_LCK_LOCK_GRANTED"
proof -
  define c where "c = status_core SA_LCK_LOCK_GRANTED p (core cb)"
  let ?f = "\<lambda>ri. ri\<lparr>grant_list := p # grant_list ri\<rparr>"
  have core: "core c2 = lists_core r ?f c"
    using set_lck_status_core [OF 1] res_upd_core [OF 2] by (simp add: c_def)
  have c: "ress c r = Some (core_res ri)" "mode_of c = mode_of cb" "owns c = owns cb"
    using ri by (simp_all add: c_def)
  have kc: "keeps r cb c"
    using status_core_keeps [of "core cb" SA_LCK_LOCK_GRANTED] inv by (simp add: c_def)
  have wf: "distinct (res_lcks ri)" "\<And>q. q \<in> set (res_lcks ri) \<Longrightarrow> owns cb r q"
    using inv ri glnd_wfD unfolding glnd_inv_def by blast+
  have off: "p \<notin> set (res_lcks ri)" "owns cb r p" "mode_of cb p = m"
    using new ri by (auto simp: new_node_def off_lists_def)
  have st: "stat_of c p = Some SA_LCK_LOCK_GRANTED"
    using owns_stat_of [OF off(2)] by (auto simp: c_def stat_of_status_core)
  have "keeps r c (lists_core r ?f c)"
  proof (rule lists_core_keeps [OF keeps_inv [OF kc] c(1)])
    show "distinct (res_lcks (?f (core_res ri)))" using wf(1) off(1) by (simp add: res_lcks_def)
    show "\<forall>q \<in> set (res_lcks (?f (core_res ri))). owns c r q"
      using wf(2) off(2) c(3) by (auto simp: res_lcks_def)
    show "\<forall>q \<in> set (grant_list (?f (core_res ri))). stat_of c q = Some SA_LCK_LOCK_GRANTED"
      using st kc c(1) by (auto simp: keeps_def glnd_inv_def granted_wf_def)
  qed (simp add: rsc_static_def)
  then show "keeps r cb c2" using keeps_trans [OF kc] core by (metis keeps_core(2))
  have "abs_rw c2 r = abs_rw (lists_core r ?f c) r" by (metis core abs_rw_core)
  then show "abs_rw c2 r = (abs_rw cb r)\<lparr>holders := (p, m) # holders (abs_rw cb r)\<rparr>"
    using ri c off(3) by (simp add: abs_lists_core abs_rw_Some)
  have "stat_of c2 p = stat_of (lists_core r ?f c) p" by (metis core stat_of_core)
  with st show "stat_of c2 p = Some SA_LCK_LOCK_GRANTED" by (simp add: stat_of_def)
qed

lemma refuse_new_keeps:
  assumes inv: "glnd_inv cb" and new: "new_node cb r p m" and 1: "set_lck_status st p cb = Some c1"
  shows "keeps r cb c1" and "abs_rw c1 r = abs_rw cb r" and "stat_of c1 p = Some st"
proof -
  have core: "core c1 = status_core st p (core cb)" using set_lck_status_core [OF 1] .
  have "keeps r (core cb) (status_core st p (core cb))"
    using inv new
    by (intro status_core_keeps) (auto simp: new_node_def off_lists_def res_lcks_def)
  then show "keeps r cb c1" using core by (metis keeps_core)
  show "abs_rw c1 r = abs_rw cb r" by (metis core abs_rw_core status_core_abs)
  have "stat_of c1 p = stat_of (status_core st p (core cb)) p" by (metis core stat_of_core)
  moreover have "owns cb r p" using new by (simp add: new_node_def)
  ultimately show "stat_of c1 p = Some st" using owns_stat_of by (fastforce simp: stat_of_status_core)
qed

lemma queue_new_keeps:
  assumes inv: "glnd_inv cb" and ri: "ress cb r = Some ri" and new: "new_node cb r p m"
    and f: "f = (\<lambda>ri. ri\<lparr>wait_exclusive_list := p # wait_exclusive_list ri\<rparr>)
            \<or> f = (\<lambda>ri. ri\<lparr>wait_read_list := p # wait_read_list ri\<rparr>)"
    and 1: "res_upd r f cb = Some c1"
  shows "keeps r cb c1" and "abs_rw c1 r = abs_rw (lists_core r f cb) r"
    and "stat_of c1 p = stat_of cb p"
proof -
  have core: "core c1 = lists_core r f (core cb)" using f by (intro res_upd_core [OF 1]) auto
  have wf: "distinct (res_lcks ri)" "\<And>q. q \<in> set (res_lcks ri) \<Longrightarrow> owns cb r q"
    using inv ri glnd_wfD unfolding glnd_inv_def by blast+
  have off: "p \<notin> set (res_lcks ri)" "owns cb r p"
    using new ri by (auto simp: new_node_def off_lists_def)
  have "keeps r (core cb) (lists_core r f (core cb))"
  proof (rule lists_core_keeps)
    show "glnd_inv (core cb)" "ress (core cb) r = Some (core_res ri)" using inv ri by simp_all
    show "distinct (res_lcks (f (core_res ri)))"
      using f wf(1) off(1) by (auto simp: res_lcks_def)
    show "\<forall>q \<in> set (res_lcks (f (core_res ri))). owns (core cb) r q"
      using f wf(2) off(2) by (auto simp: res_lcks_def)
    show "\<forall>q \<in> set (grant_list (f (core_res ri))). stat_of (core cb) q = Some SA_LCK_LOCK_GRANTED"
      using f inv ri by (auto simp: glnd_inv_def granted_wf_def)
    show "rsc_static (f (core_res ri)) = rsc_static (core_res ri)" using f by (auto simp: rsc_static_def)
  qed
  then show "keeps r cb c1" using core by (metis keeps_core)
  have "abs_rw c1 r = abs_rw (lists_core r f (core cb)) r" by (metis core abs_rw_core)
  then show "abs_rw c1 r = abs_rw (lists_core r f cb) r" using f ri by (auto simp: abs_rw_Some)
  have "stat_of c1 p = stat_of (lists_core r f (core cb)) p" by (metis core stat_of_core)
  then show "stat_of c1 p = stat_of cb p"
    by (simp add: stat_of_def option.map_comp comp_def)
qed

text \<open>The status the abstract operation reports, or the one the node has.\<close>

definition reported :: "SaLckLockStatusT option \<Rightarrow> SaLckLockStatusT option \<Rightarrow> SaLckLockStatusT option" where
  "reported rs st = (case rs of Some s \<Rightarrow> Some s | None \<Rightarrow> st)"

lemma status_run: "lcks cb p \<noteq> None \<Longrightarrow> \<exists>c. set_lck_status st p cb = Some c"
  by (auto simp: set_lck_status_def lck_upd_def)

lemma res_upd_run: "ress cb r = Some ri \<Longrightarrow> res_upd r f cb = Some (cb\<lparr>ress := (ress cb)(r \<mapsto> f ri)\<rparr>)"
  by (simp add: res_upd_def)

lemma tmr_run:
  assumes "ress cb r = Some ri" "lcks cb p \<noteq> None"
  shows "\<exists>c. (if b then lck_start_tmr E p ty t cb else Some cb) = Some c \<and> core c = core cb"
proof (cases b)
  case True
  then show ?thesis
    using steady_total [OF steady_base(4) assms(2), of r E ty t] assms(1) lck_start_tmr_core by fastforce
qed simp

lemma queue_ex_run:
  assumes inv: "glnd_inv cb" and ri: "ress cb r = Some ri" and new: "new_node cb r p m"
    and t0: "glnd_client_tree cb0 = glnd_client_tree cb"
  shows "\<exists>cb'. (do {
       cb \<leftarrow> res_upd r (\<lambda>ri. ri\<lparr>wait_exclusive_list := p # wait_exclusive_list ri\<rparr>) cb;
       cb \<leftarrow> (if d = glnd_mdest_id cb
             then lck_start_tmr E p GLND_TMR_RES_LOCK_REQ_TIMEOUT (timeout q) cb else Some cb);
       cb \<leftarrow> glnd_master_process_lock_initiate_waitercallbk r q cb;
       ex_probe E r p q d (glnd_client_node_find cb0 h) cb }) = Some cb'"
proof -
  let ?f = "\<lambda>ri. ri\<lparr>wait_exclusive_list := p # wait_exclusive_list ri\<rparr>"
  obtain c1 where c1: "res_upd r ?f cb = Some c1" using res_upd_run [OF ri] by blast
  have k1: "keeps r cb c1" using queue_new_keeps(1) [OF inv ri new _ c1] by blast
  have p1: "lcks c1 p \<noteq> None" and r1: "ress c1 r = Some (?f ri)" and t1: "glnd_client_tree c1 = glnd_client_tree cb"
    using c1 ri new_node_live [OF new] by (auto simp: res_upd_def)
  obtain c2 where c2: "(if d = glnd_mdest_id c1
      then lck_start_tmr E p GLND_TMR_RES_LOCK_REQ_TIMEOUT (timeout q) c1 else Some c1) = Some c2"
    and e2: "core c2 = core c1" using tmr_run [OF r1 p1] by blast
  have wf2: "glnd_wf c2" using core_eq_wf [OF e2] keeps_inv [OF k1] by (simp add: glnd_inv_def)
  obtain r2 where r2: "ress c2 r = Some r2" using core_live(2) [OF e2, of r] r1 by auto
  obtain c3 where c3: "glnd_master_process_lock_initiate_waitercallbk r q c2 = Some c3"
    using waitercallbk_total [OF wf2 r2] by blast
  note e3 = waitercallbk_core [OF c3]
  have wf3: "glnd_wf c3" using core_eq_wf [OF e3] wf2 by simp
  obtain r3 where r3: "ress c3 r = Some r3" using core_live(2) [OF e3, of r] r2 by auto
  have p3: "lcks c3 p \<noteq> None" using core_live(1) [OF e3] core_live(1) [OF e2] p1 by simp
  have "glnd_client_tree c3 = glnd_client_tree cb" using e2 e3 t1 by (metis core_sel(8))
  then have "glnd_client_node_find cb0 h = glnd_client_node_find c3 h"
    using t0 by (simp add: glnd_client_node_find_def)
  with ex_probe_total [OF wf3 r3 p3, of E q d h] c1 c2 c3 show ?thesis by (auto simp del: bind_Some_iff)
qed

lemma keeps_then_frame: "keeps r cb c1 \<Longrightarrow> core c2 = core c1 \<Longrightarrow> keeps r cb c2"
  by (metis keeps_core(2))

lemma core_eq_stat: "core c2 = core c1 \<Longrightarrow> stat_of c2 = stat_of c1"
  by (metis stat_of_core)

lemma orphan_locks_abs:
  "ress cb r = Some ri \<Longrightarrow>
   (glnd_resource_grant_list_orphan_locks ri \<noteq> None) = (exo (abs_rw cb r) \<or> pro (abs_rw cb r))"
  by (simp add: glnd_resource_grant_list_orphan_locks_def abs_rw_Some)

definition request_ok ::
  "u32 \<Rightarrow> ptr \<Rightarrow> ptr \<Rightarrow> SaLckLockModeT \<Rightarrow> GLND_CB \<Rightarrow> GLND_CB \<Rightarrow> bool" where
  "request_ok flags r p m cb cb' \<longleftrightarrow>
     keeps r cb cb' \<and> abs_rw cb' r = fst (rw_request flags (p, m) (abs_rw cb r))
     \<and> stat_of cb' p = reported (snd (rw_request flags (p, m) (abs_rw cb r))) (stat_of cb p)
     \<and> owns cb' r p"

lemma owns_frames:
  "core cb' = core cb \<Longrightarrow> owns cb' = owns cb"
  "set_lck_status st p cb = Some cb' \<Longrightarrow> owns cb' = owns cb"
  "res_upd r f cb = Some cb' \<Longrightarrow> owns cb' = owns cb"
proof -
  show "core cb' = core cb \<Longrightarrow> owns cb' = owns cb" by (metis owns_core)
  show "set_lck_status st p cb = Some cb' \<Longrightarrow> owns cb' = owns cb"
    by (drule set_lck_status_core) (metis owns_core status_core_simps(2))
  show "res_upd r f cb = Some cb' \<Longrightarrow> owns cb' = owns cb"
    by (auto simp: res_upd_def owns_def fun_eq_iff)
qed

lemma request_granted:
  assumes inv: "glnd_inv cb" and ri: "ress cb r = Some ri" and new: "new_node cb r p m"
    and spec: "rw_request flags (p, m) (abs_rw cb r)
               = ((abs_rw cb r)\<lparr>holders := (p, m) # holders (abs_rw cb r)\<rparr>, Some SA_LCK_LOCK_GRANTED)"
  shows "\<exists>c1 c2. set_lck_status SA_LCK_LOCK_GRANTED p cb = Some c1 \<and> ress c1 r = Some ri
           \<and> res_upd r (\<lambda>ri. ri\<lparr>grant_list := p # grant_list ri\<rparr>) c1 = Some c2
           \<and> request_ok flags r p m cb c2"
proof -
  obtain c1 where 1: "set_lck_status SA_LCK_LOCK_GRANTED p cb = Some c1"
    using status_run [OF new_node_live [OF new]] by blast
  then have r1: "ress c1 r = Some ri" using ri by (auto simp: set_lck_status_def lck_upd_def)
  obtain c2 where 2: "res_upd r (\<lambda>ri. ri\<lparr>grant_list := p # grant_list ri\<rparr>) c1 = Some c2"
    using res_upd_run [OF r1] by blast
  show ?thesis
    using 1 2 r1 grant_new_keeps [OF inv ri new 1 2] spec owns_frames(2) [OF 1] owns_frames(3) [OF 2] new
    by (simp add: request_ok_def reported_def new_node_def)
qed

lemma request_refused:
  assumes inv: "glnd_inv cb" and new: "new_node cb r p m"
    and spec: "rw_request flags (p, m) (abs_rw cb r) = (abs_rw cb r, Some st)"
  shows "\<exists>c1. set_lck_status st p cb = Some c1 \<and> request_ok flags r p m cb c1"
proof -
  obtain c1 where 1: "set_lck_status st p cb = Some c1"
    using status_run [OF new_node_live [OF new]] by blast
  then show ?thesis
    using refuse_new_keeps [OF inv new 1] spec owns_frames(2) [OF 1] new
    by (simp add: request_ok_def reported_def new_node_def)
qed

lemma process_ex_refine:
  assumes inv: "glnd_inv cb" and ri: "ress cb r = Some ri"
    and new: "new_node cb r p SA_LCK_EX_LOCK_MODE"
    and t0: "glnd_client_tree cb0 = glnd_client_tree cb"
  shows "\<exists>cb'. process_ex E r p req d (glnd_client_node_find cb0 h) cb = Some cb'
              \<and> request_ok (lockFlags req) r p SA_LCK_EX_LOCK_MODE cb cb'"
proof -
  let ?m = SA_LCK_EX_LOCK_MODE and ?s = "abs_rw cb r"
  let ?orph = "exo ?s \<or> pro ?s"
  have g: "(grant_list ri = []) = (holders ?s = [])" using ri by (simp add: abs_rw_Some)
  note o = orphan_locks_abs [OF ri]
  consider (free) "holders ?s = []" "\<not> ?orph"
    | (noq) "\<not> (holders ?s = [] \<and> \<not> ?orph)" "flag_set (lockFlags req) SA_LCK_LOCK_NO_QUEUE"
    | (orph) "\<not> (holders ?s = [] \<and> \<not> ?orph)" "\<not> flag_set (lockFlags req) SA_LCK_LOCK_NO_QUEUE"
        "flag_set (lockFlags req) SA_LCK_LOCK_ORPHAN" ?orph
    | (queue) "\<not> (holders ?s = [] \<and> \<not> ?orph)" "\<not> flag_set (lockFlags req) SA_LCK_LOCK_NO_QUEUE"
        "\<not> (flag_set (lockFlags req) SA_LCK_LOCK_ORPHAN \<and> ?orph)" by blast
  then show ?thesis
  proof cases
    case free
    then have "rw_request (lockFlags req) (p, ?m) ?s
        = (?s\<lparr>holders := (p, ?m) # holders ?s\<rparr>, Some SA_LCK_LOCK_GRANTED)" by (simp add: rw_request_def)
    from request_granted [OF inv ri new this] g free o ri show ?thesis
      by (auto simp: process_ex_def res_upd_def)
  next
    case noq
    then have "rw_request (lockFlags req) (p, ?m) ?s = (?s, Some SA_LCK_LOCK_NOT_QUEUED)"
      by (auto simp: rw_request_def)
    from request_refused [OF inv new this] g noq o ri show ?thesis by (auto simp: process_ex_def Let_def)
  next
    case orph
    then have "rw_request (lockFlags req) (p, ?m) ?s = (?s, Some SA_LCK_LOCK_ORPHANED)"
      by (auto simp: rw_request_def)
    from request_refused [OF inv new this] g orph o ri show ?thesis by (auto simp: process_ex_def Let_def)
  next
    case queue
    then have spec: "rw_request (lockFlags req) (p, ?m) ?s = (?s\<lparr>exq := (p, ?m) # exq ?s\<rparr>, None)"
      by (auto simp: rw_request_def)
    let ?f = "\<lambda>ri. ri\<lparr>wait_exclusive_list := p # wait_exclusive_list ri\<rparr>"
    obtain cb' where run: "process_ex E r p req d (glnd_client_node_find cb0 h) cb = Some cb'"
      using queue_ex_run [OF inv ri new t0, of d E req h] queue g o ri
      by (auto simp: process_ex_def Let_def)
    then obtain c1 where c1: "res_upd r ?f cb = Some c1" and e: "core cb' = core c1"
      using queue g o ri
      by (auto simp: process_ex_def Let_def dest!: lck_start_tmr_core waitercallbk_core ex_probe_core split: if_splits)
    note q = queue_new_keeps [OF inv ri new disjI1 [OF refl] c1]
    have "abs_rw cb' r = ?s\<lparr>exq := (p, ?m) # exq ?s\<rparr>"
      using core_eq_abs [OF e] q(2) ri new by (simp add: abs_lists_core abs_rw_Some new_node_def)
    with run spec keeps_then_frame [OF q(1) e] core_eq_stat [OF e] q(3) new
      owns_frames(1) [OF e] owns_frames(3) [OF c1] show ?thesis
      by (simp add: request_ok_def reported_def new_node_def)
  qed
qed

lemma queue_pr_run:
  assumes inv: "glnd_inv cb" and ri: "ress cb r = Some ri" and new: "new_node cb r p m"
    and t0: "glnd_client_tree cb0 = glnd_client_tree cb"
  shows "\<exists>cb'. (do {
       cb \<leftarrow> res_upd r (\<lambda>ri. ri\<lparr>wait_read_list := p # wait_read_list ri\<rparr>) cb;
       cb \<leftarrow> glnd_master_process_lock_initiate_waitercallbk r q cb;
       pr_probe E r p q d (glnd_client_node_find cb0 h) cb }) = Some cb'"
proof -
  let ?f = "\<lambda>ri. ri\<lparr>wait_read_list := p # wait_read_list ri\<rparr>"
  obtain c1 where c1: "res_upd r ?f cb = Some c1" using res_upd_run [OF ri] by blast
  have k1: "keeps r cb c1" using queue_new_keeps(1) [OF inv ri new _ c1] by blast
  have p1: "lcks c1 p \<noteq> None" and r1: "ress c1 r = Some (?f ri)" and t1: "glnd_client_tree c1 = glnd_client_tree cb"
    using c1 ri new_node_live [OF new] by (auto simp: res_upd_def)
  have wf1: "glnd_wf c1" using keeps_inv [OF k1] by (simp add: glnd_inv_def)
  obtain c3 where c3: "glnd_master_process_lock_initiate_waitercallbk r q c1 = Some c3"
    using waitercallbk_total [OF wf1 r1] by blast
  note e3 = waitercallbk_core [OF c3]
  have wf3: "glnd_wf c3" using core_eq_wf [OF e3] wf1 by simp
  obtain r3 where r3: "ress c3 r = Some r3" using core_live(2) [OF e3, of r] r1 by auto
  have p3: "lcks c3 p \<noteq> None" using core_live(1) [OF e3] p1 by simp
  have "glnd_client_tree c3 = glnd_client_tree cb" using e3 t1 by (metis core_sel(8))
  then have "glnd_client_node_find cb0 h = glnd_client_node_find c3 h"
    using t0 by (simp add: glnd_client_node_find_def)
  with pr_probe_total [OF wf3 r3 p3, of E q d h] c1 c3 show ?thesis by (auto simp del: bind_Some_iff)
qed

lemma process_pr_refine:
  assumes inv: "glnd_inv cb" and ri: "ress cb r = Some ri"
    and new: "new_node cb r p SA_LCK_PR_LOCK_MODE"
    and t0: "glnd_client_tree cb0 = glnd_client_tree cb"
  shows "\<exists>cb'. process_pr E r p req d (glnd_client_node_find cb0 h) cb = Some cb'
              \<and> request_ok (lockFlags req) r p SA_LCK_PR_LOCK_MODE cb cb'"
proof -
  let ?m = SA_LCK_PR_LOCK_MODE and ?s = "abs_rw cb r"
  let ?orph = "exo ?s \<or> pro ?s" and ?free = "no_ex (holders ?s) \<and> \<not> exo ?s"
  have x: "ex_orphaned ri = exo ?s" using ri by (simp add: abs_rw_Some)
  note o = orphan_locks_abs [OF ri] and e = exclusive_locks_eval [OF inv ri]
  consider (free) "?free"
    | (noq) "\<not> ?free" "flag_set (lockFlags req) SA_LCK_LOCK_NO_QUEUE"
    | (orph) "\<not> ?free" "\<not> flag_set (lockFlags req) SA_LCK_LOCK_NO_QUEUE"
        "flag_set (lockFlags req) SA_LCK_LOCK_ORPHAN" ?orph
    | (queue) "\<not> ?free" "\<not> flag_set (lockFlags req) SA_LCK_LOCK_NO_QUEUE"
        "\<not> (flag_set (lockFlags req) SA_LCK_LOCK_ORPHAN \<and> ?orph)" by blast
  then show ?thesis
  proof cases
    case free
    then have "rw_request (lockFlags req) (p, ?m) ?s
        = (?s\<lparr>holders := (p, ?m) # holders ?s\<rparr>, Some SA_LCK_LOCK_GRANTED)" by (simp add: rw_request_def)
    from request_granted [OF inv ri new this] e x free ri show ?thesis by (auto simp: process_pr_def)
  next
    case noq
    then have "rw_request (lockFlags req) (p, ?m) ?s = (?s, Some SA_LCK_LOCK_NOT_QUEUED)"
      by (auto simp: rw_request_def)
    from request_refused [OF inv new this] e x noq ri show ?thesis by (auto simp: process_pr_def)
  next
    case orph
    then have "rw_request (lockFlags req) (p, ?m) ?s = (?s, Some SA_LCK_LOCK_ORPHANED)"
      by (auto simp: rw_request_def)
    from request_refused [OF inv new this] e x o orph ri show ?thesis by (auto simp: process_pr_def)
  next
    case queue
    then have spec: "rw_request (lockFlags req) (p, ?m) ?s = (?s\<lparr>rdq := (p, ?m) # rdq ?s\<rparr>, None)"
      by (auto simp: rw_request_def)
    let ?f = "\<lambda>ri. ri\<lparr>wait_read_list := p # wait_read_list ri\<rparr>"
    obtain cb' where run: "process_pr E r p req d (glnd_client_node_find cb0 h) cb = Some cb'"
      using queue_pr_run [OF inv ri new t0, of req E d h] queue e x o ri
      by (auto simp: process_pr_def)
    then obtain c1 where c1: "res_upd r ?f cb = Some c1" and k: "core cb' = core c1"
      using queue e x o ri
      by (auto simp: process_pr_def dest!: waitercallbk_core pr_probe_core split: if_splits)
    note q = queue_new_keeps [OF inv ri new disjI2 [OF refl] c1]
    have "abs_rw cb' r = ?s\<lparr>rdq := (p, ?m) # rdq ?s\<rparr>"
      using core_eq_abs [OF k] q(2) ri new by (simp add: abs_lists_core abs_rw_Some new_node_def)
    with run spec keeps_then_frame [OF q(1) k] core_eq_stat [OF k] q(3) new
      owns_frames(1) [OF k] owns_frames(3) [OF c1] show ?thesis
      by (simp add: request_ok_def reported_def new_node_def)
  qed
qed

text \<open>Allocating the node and linking it to the client.\<close>

lemma new_lck_keeps:
  assumes inv: "glnd_inv cb" and fresh: "lcks cb p = None" and l: "res_info l = r"
  defines "c \<equiv> cb\<lparr>numLocks := numLocks cb + 1, lcks := (lcks cb)(p \<mapsto> l)\<rparr>"
  shows "keeps r cb c" and "\<And>r'. abs_rw c r' = abs_rw cb r'"
    and "new_node c r p (lock_type (lock_info l))"
proof -
  have off: "q \<noteq> p" if "ress cb r' = Some ri" "q \<in> set (res_lcks ri)" for r' ri q
    using inv that fresh glnd_wfD(3) unfolding glnd_inv_def by fastforce
  have same: "q \<noteq> p \<Longrightarrow> mode_of c q = mode_of cb q" "q \<noteq> p \<Longrightarrow> owns c r' q = owns cb r' q"
    "q \<noteq> p \<Longrightarrow> stat_of c q = stat_of cb q" for q r'
    by (simp_all add: c_def mode_of_def owns_def stat_of_def)
  have eqs: "ress c = ress cb" "clients c = clients cb" "glnd_client_tree c = glnd_client_tree cb"
      "glnd_res_tree c = glnd_res_tree cb" by (simp_all add: c_def)
  show abs: "abs_rw c r' = abs_rw cb r'" for r'
    by (rule abs_rw_cong) (use off same(1) in \<open>auto simp: eqs\<close>)
  have "lists_wf c" unfolding lists_wf_def eqs
    using inv off same(2) by (fastforce simp: glnd_inv_def glnd_wf_def lists_wf_def)
  moreover have "clients_wf c" "tree_wf c"
    using inv by (simp_all add: glnd_inv_def glnd_wf_def clients_wf_def tree_wf_def eqs cong: option.case_cong)
  moreover have "granted_wf c" unfolding granted_wf_def eqs
  proof (intro allI impI ballI)
    fix r' ri q assume a: "ress cb r' = Some ri" "q \<in> set (grant_list ri)"
    then have "q \<noteq> p" using off by (simp add: res_lcks_def)
    with a inv show "stat_of c q = Some SA_LCK_LOCK_GRANTED"
      by (simp add: same glnd_inv_def granted_wf_def)
  qed
  moreover have "count_wf c"
    using inv fresh by (simp add: glnd_inv_def count_wf_def c_def domIff)
  ultimately show "keeps r cb c"
    using abs by (simp add: keeps_def glnd_inv_def glnd_wf_def same_static_def) (simp add: c_def)
  show "new_node c r p (lock_type (lock_info l))"
    using off l by (auto simp: new_node_def off_lists_def eqs) (auto simp: c_def owns_def mode_of_def)
qed

lemma push_lock_req_rsc [simp]: "map rsc_info (push_lock_req r p es) = map rsc_info es"
  by (induction es) auto

lemma clients_upd_keeps:
  assumes inv: "glnd_inv cb" and c: "clients cb c = Some ci" and es: "map rsc_info es = map rsc_info (res_list ci)"
  defines "cb' \<equiv> cb\<lparr>clients := (clients cb)(c \<mapsto> ci\<lparr>res_list := es\<rparr>)\<rparr>"
  shows "keeps r cb cb'" and "\<And>r'. abs_rw cb' r' = abs_rw cb r'"
    and "new_node cb' = new_node cb" and "stat_of cb' = stat_of cb"
proof -
  have eqs: "ress cb' = ress cb" "lcks cb' = lcks cb" "glnd_client_tree cb' = glnd_client_tree cb"
      "glnd_res_tree cb' = glnd_res_tree cb" "numLocks cb' = numLocks cb" by (simp_all add: cb'_def)
  have ms: "mode_of cb' = mode_of cb" "owns cb' = owns cb" "stat_of cb' = stat_of cb"
    by (auto simp: mode_of_def owns_def stat_of_def eqs fun_eq_iff)
  show abs: "abs_rw cb' r' = abs_rw cb r'" for r' by (simp add: abs_rw_def ms eqs cong: option.case_cong)
  show "new_node cb' = new_node cb" by (simp add: new_node_def off_lists_def ms eqs fun_eq_iff)
  show "stat_of cb' = stat_of cb" by (rule ms)
  have img: "rsc_info ` set es = rsc_info ` set (res_list ci)" by (metis es list.set_map)
  have live: "(\<forall>e \<in> set es. ress cb (rsc_info e) \<noteq> None) = (\<forall>e \<in> set (res_list ci). ress cb (rsc_info e) \<noteq> None)"
  proof -
    have "(\<forall>e \<in> set es. ress cb (rsc_info e) \<noteq> None) = (\<forall>x \<in> rsc_info ` set es. ress cb x \<noteq> None)" by blast
    also have "\<dots> = (\<forall>x \<in> rsc_info ` set (res_list ci). ress cb x \<noteq> None)" by (simp only: img)
    also have "\<dots> = (\<forall>e \<in> set (res_list ci). ress cb (rsc_info e) \<noteq> None)" by blast
    finally show ?thesis .
  qed
  have "clients_wf cb'"
    unfolding clients_wf_def eqs
  proof
    fix x assume x: "x \<in> snd ` set (glnd_client_tree cb)"
    with inv have w: "case clients cb x of None \<Rightarrow> False
        | Some ci \<Rightarrow> (\<forall>e \<in> set (res_list ci). ress cb (rsc_info e) \<noteq> None)"
      unfolding glnd_inv_def glnd_wf_def clients_wf_def by blast
    show "case clients cb' x of None \<Rightarrow> False
        | Some ci \<Rightarrow> (\<forall>e \<in> set (res_list ci). ress cb (rsc_info e) \<noteq> None)"
    proof (cases "x = c")
      case True
      with w c live show ?thesis by (simp add: cb'_def)
    next
      case False
      with w show ?thesis by (simp add: cb'_def)
    qed
  qed
  moreover have "lists_wf cb'" "tree_wf cb'" "granted_wf cb'" "count_wf cb'"
    using inv by (simp_all add: glnd_inv_def glnd_wf_def lists_wf_def tree_wf_def granted_wf_def
        count_wf_def ms eqs)
  ultimately show "keeps r cb cb'"
    using abs by (simp add: keeps_def glnd_inv_def glnd_wf_def same_static_def) (simp add: cb'_def)
qed

lemma client_add_run:
  assumes inv: "glnd_inv cb" and c: "glnd_client_node_find cb h = Some c"
  shows "\<exists>cb' rc. glnd_client_node_resource_lock_req_add (glnd_client_node_find cb h) r p cb = Some (cb', rc)
     \<and> keeps r cb cb' \<and> (\<forall>r'. abs_rw cb' r' = abs_rw cb r') \<and> new_node cb' = new_node cb
     \<and> stat_of cb' = stat_of cb \<and> glnd_client_tree cb' = glnd_client_tree cb \<and> ress cb' = ress cb"
proof -
  obtain ci where ci: "clients cb c = Some ci"
    using client_found [OF _ c] inv unfolding glnd_inv_def by blast
  show ?thesis
  proof (cases "\<exists>e \<in> set (res_list ci). rsc_info e = r")
    case True
    with ci c clients_upd_keeps [OF inv ci push_lock_req_rsc [of r p "res_list ci"]] show ?thesis
      by (simp add: glnd_client_node_resource_lock_req_add_def del: bind_Some_iff)
  next
    case False
    with ci c keeps_refl [OF inv, of r] show ?thesis
      by (simp add: glnd_client_node_resource_lock_req_add_def del: bind_Some_iff)
  qed
qed

theorem process_lock_req_refine:
  assumes inv: "glnd_inv cb" and ri: "ress cb r = Some ri" and fresh: "lcks cb (e_ptr E) = None"
    and mode: "lock_type req = SA_LCK_EX_LOCK_MODE \<or> lock_type req = SA_LCK_PR_LOCK_MODE"
    and client: "d = glnd_mdest_id cb \<Longrightarrow> glnd_client_node_find cb (handleId req) \<noteq> None"
  defines "h \<equiv> (e_ptr E, lock_type req)"
  shows "\<exists>cb'. glnd_resource_master_process_lock_req E r req d lcl lid cb = Some (cb', e_ptr E)
     \<and> keeps r cb cb' \<and> abs_rw cb' r = fst (rw_request (lockFlags req) h (abs_rw cb r))
     \<and> stat_of cb' (e_ptr E)
        = reported (snd (rw_request (lockFlags req) h (abs_rw cb r))) (Some (lockStatus req))
     \<and> owns cb' r (e_ptr E)"
proof -
  let ?p = "e_ptr E" and ?cl = "glnd_client_node_find cb (handleId req)"
  define l where "l = new_lck E r req d lcl (if d = glnd_mdest_id cb then ?p else lockid req)"
  define c0 where "c0 = cb\<lparr>numLocks := numLocks cb + 1, lcks := (lcks cb)(?p \<mapsto> l)\<rparr>"
  have l: "res_info l = r" "lock_type (lock_info l) = lock_type req" "lockStatus (lock_info l) = lockStatus req"
    by (simp_all add: l_def new_lck_def)
  note n = new_lck_keeps [OF inv fresh l(1), folded c0_def]
  have c0: "glnd_client_tree c0 = glnd_client_tree cb" "ress c0 r = Some ri"
      "stat_of c0 ?p = Some (lockStatus req)" "glnd_client_node_find c0 (handleId req) = ?cl"
    using ri l(3) by (simp_all add: c0_def stat_of_def glnd_client_node_find_def)
  obtain c1 where c1: "(if d = glnd_mdest_id cb
      then do { (cb, _) \<leftarrow> glnd_client_node_resource_lock_req_add ?cl r ?p c0; Some cb } else Some c0) = Some c1"
    and k1: "keeps r cb c1" "abs_rw c1 r = abs_rw cb r" "new_node c1 r ?p (lock_type req)"
      "stat_of c1 ?p = Some (lockStatus req)" "glnd_client_tree c1 = glnd_client_tree cb" "ress c1 r = Some ri"
  proof (cases "d = glnd_mdest_id cb")
    case True
    then obtain c where "glnd_client_node_find c0 (handleId req) = Some c" using client c0(4) by auto
    from client_add_run [OF keeps_inv [OF n(1)] this, of r ?p] obtain c1 rc where
      "glnd_client_node_resource_lock_req_add ?cl r ?p c0 = Some (c1, rc)" "keeps r c0 c1"
      "\<forall>r'. abs_rw c1 r' = abs_rw c0 r'" "new_node c1 = new_node c0" "stat_of c1 = stat_of c0"
      "glnd_client_tree c1 = glnd_client_tree c0" "ress c1 = ress c0" using c0(4) by auto
    then show ?thesis using that [of c1] True n c0 l(2) keeps_trans [OF n(1)] by auto
  next
    case False
    then show ?thesis using that [of c0] n c0 l(2) by auto
  qed
  have "\<exists>cb'. (case lock_type req of
             SA_LCK_EX_LOCK_MODE \<Rightarrow> process_ex E r ?p req d ?cl c1
           | SA_LCK_PR_LOCK_MODE \<Rightarrow> process_pr E r ?p req d ?cl c1
           | SA_LCK_MODE_UNSET \<Rightarrow> Some c1) = Some cb'
         \<and> request_ok (lockFlags req) r ?p (lock_type req) c1 cb'"
    using mode process_ex_refine [OF keeps_inv [OF k1(1)] k1(6) _ k1(5) [symmetric], of ?p E req d "handleId req"]
      process_pr_refine [OF keeps_inv [OF k1(1)] k1(6) _ k1(5) [symmetric], of ?p E req d "handleId req"] k1(3)
    by auto
  then obtain cb' where run: "(case lock_type req of
             SA_LCK_EX_LOCK_MODE \<Rightarrow> process_ex E r ?p req d ?cl c1
           | SA_LCK_PR_LOCK_MODE \<Rightarrow> process_pr E r ?p req d ?cl c1
           | SA_LCK_MODE_UNSET \<Rightarrow> Some c1) = Some cb'"
    and ok: "request_ok (lockFlags req) r ?p (lock_type req) c1 cb'" by blast
  have "glnd_resource_master_process_lock_req E r req d lcl lid cb = Some (cb', ?p)"
    unfolding glnd_resource_master_process_lock_req_def Let_def l_def [symmetric] c0_def [symmetric]
    by (simp only: c1 run Option.bind.simps)
  then show ?thesis
    using ok k1 keeps_trans [OF k1(1)] unfolding request_ok_def h_def by auto
qed

end
