(* ===== verification/Glnd_Queue.thy ===== *)
theory Glnd_Queue
  imports Glnd_Lock
begin

text \<open>
  The queue of events a node director keeps back while a new master is being elected
  (\<open>lck/lcknd/glnd_queue.c\<close>). The queue is the list of its events, head first; the function
  that adds an event is in \<open>Glnd_Lock\<close>, where the requests are forwarded.
\<close>

section \<open>Deleting an event\<close>

fun is_lock_req :: "u64 \<Rightarrow> u32 \<Rightarrow> SaLckLockModeT \<Rightarrow> glnd_evt \<Rightarrow> bool" where
  "is_lock_req hdl rid type (NODE_LCK GLSV_GLND_EVT_LCK_REQ li) \<longleftrightarrow>
     li_lock_type li = type \<and> li_client_handle_id li = hdl \<and> li_resource_id li = rid"
| "is_lock_req hdl rid type _ \<longleftrightarrow> False"

fun is_unlock_req :: "u64 \<Rightarrow> u64 \<Rightarrow> u32 \<Rightarrow> glnd_evt \<Rightarrow> bool" where
  "is_unlock_req lid hdl rid (NODE_LCK GLSV_GLND_EVT_UNLCK_REQ li) \<longleftrightarrow>
     li_lockid li = lid \<and> li_client_handle_id li = hdl \<and> li_resource_id li = rid"
| "is_unlock_req lid hdl rid _ \<longleftrightarrow> False"

text \<open>The walk with \<open>prev\<close> and \<open>evt\<close>: the first event that satisfies the test is unlinked.\<close>

fun unlink_first :: "('a \<Rightarrow> bool) \<Rightarrow> 'a list \<Rightarrow> 'a list \<times> 'a option" where
  "unlink_first P [] = ([], None)"
| "unlink_first P (e # es) =
     (if P e then (es, Some e)
      else (let (es', r) = unlink_first P es in (e # es', r)))"

definition glnd_evt_backup_queue_delete_lock_req ::
  "u64 \<Rightarrow> u32 \<Rightarrow> SaLckLockModeT \<Rightarrow> GLND_CB \<Rightarrow> GLND_CB \<times> rc" where
  "glnd_evt_backup_queue_delete_lock_req hdl rid type cb =
     (case unlink_first (is_lock_req hdl rid type) (evt_bckup_q cb) of
        (q, Some e) \<Rightarrow> ((emit (SHM_EVT_INVALIDATE e) cb)\<lparr>evt_bckup_q := q\<rparr>, NCSCC_RC_SUCCESS)
      | (q, None) \<Rightarrow> (cb, NCSCC_RC_FAILURE))"

definition glnd_evt_backup_queue_delete_unlock_req ::
  "u64 \<Rightarrow> u64 \<Rightarrow> u32 \<Rightarrow> GLND_CB \<Rightarrow> GLND_CB" where
  "glnd_evt_backup_queue_delete_unlock_req lid hdl rid cb =
     cb\<lparr>evt_bckup_q := fst (unlink_first (is_unlock_req lid hdl rid) (evt_bckup_q cb))\<rparr>"

definition glnd_evt_backup_queue_destroy :: "GLND_CB \<Rightarrow> GLND_CB" where
  "glnd_evt_backup_queue_destroy cb = cb\<lparr>evt_bckup_q := []\<rparr>"

section \<open>Sending the queue to the new masters\<close>

text \<open>The resource an event of the queue is about; other types are left in the queue.\<close>

fun backup_rsc :: "glnd_evt \<Rightarrow> u32 option" where
  "backup_rsc (NODE_LCK ty li) =
     (if ty \<in> {GLSV_GLND_EVT_LCK_REQ, GLSV_GLND_EVT_UNLCK_REQ, GLSV_GLND_EVT_LCK_REQ_CANCEL}
      then Some (li_resource_id li) else None)"
| "backup_rsc (LCK_PURGE rid) = Some rid"
| "backup_rsc _ = None"

text \<open>
  What the loop does with one event: \<open>None\<close> leaves it in the queue, \<open>Some os\<close> removes it after
  sending \<open>os\<close>; the outer option is the fault of a dangling resource node.
\<close>

definition resend_action :: "GLND_CB \<Rightarrow> glnd_evt \<Rightarrow> glnd_out list option option" where
  "resend_action cb e =
     (case backup_rsc e of
        None \<Rightarrow> Some None
      | Some rid \<Rightarrow>
          (case tbl_get (glnd_res_tree cb) (key32 rid) of
             None \<Rightarrow> Some (Some [])
           | Some r \<Rightarrow> do {
               ri \<leftarrow> ress cb r;
               Some (if status ri \<noteq> GLND_RESOURCE_ELECTION_IN_PROGESS
                     then Some [OUT_GLND (master_mds_dest ri) e] else None) }))"

text \<open>
  At the end of each iteration \<open>prev\<close> is set to the event visited next. From the second event
  on, \<open>prev\<close> is therefore the event being removed itself, and \<open>prev->next = next\<close> writes to it
  after \<open>glnd_evt_destroy\<close> has freed it.
\<close>

fun resend_rest :: "glnd_evt list \<Rightarrow> GLND_CB \<Rightarrow> GLND_CB option" where
  "resend_rest [] cb = Some cb"
| "resend_rest (e # es) cb = do {
     a \<leftarrow> resend_action cb e;
     case a of None \<Rightarrow> resend_rest es cb | Some _ \<Rightarrow> None }"

definition glnd_re_send_evt_backup_queue :: "GLND_CB \<Rightarrow> GLND_CB option" where
  "glnd_re_send_evt_backup_queue cb =
     (case evt_bckup_q cb of
        [] \<Rightarrow> Some cb
      | e # es \<Rightarrow> do {
          a \<leftarrow> resend_action cb e;
          resend_rest es (case a of None \<Rightarrow> cb
                          | Some os \<Rightarrow> cb\<lparr>evt_bckup_q := es, out := out cb @ os\<rparr>) })"

section \<open>Properties of the queue\<close>

lemma unlink_first_spec:
  "unlink_first P es = (case List.find P es of None \<Rightarrow> (es, None) | Some e \<Rightarrow> (remove1 e es, Some e))"
  by (induction es) (auto split: option.splits dest: find_SomeD)

lemma delete_lock_req_added:
  assumes "li_lock_type li = type" "li_client_handle_id li = hdl" "li_resource_id li = rid"
  shows "evt_bckup_q (fst (glnd_evt_backup_queue_delete_lock_req hdl rid type
           (glnd_evt_backup_queue_add (NODE_LCK GLSV_GLND_EVT_LCK_REQ li) cb))) = evt_bckup_q cb"
  using assms by (simp add: glnd_evt_backup_queue_delete_lock_req_def glnd_evt_backup_queue_add_def)

end
