(* ===== verification/Glnd_Evt.thy ===== *)
theory Glnd_Evt
  imports Glnd_Queue
begin

text \<open>
  Handlers of \<open>lck/lcknd/glnd_evt.c\<close> for the events the master of a resource receives from
  other node directors, from the director and from its timers. A handler takes the event's
  payload and the control block and returns the control block and the value it returns.

  A timer event carries a handle; \<open>ncshm_take_hdl\<close> turns it into the address of the lock node
  registered under it, or \<open>NULL\<close> when the node has gone. The handlers take that result as an
  argument. The delay before an event is sent again is not modelled.
\<close>

abbreviation (input) SUCCESS :: u32 where "SUCCESS \<equiv> rc_val NCSCC_RC_SUCCESS"
abbreviation (input) FAILURE :: u32 where "FAILURE \<equiv> rc_val NCSCC_RC_FAILURE"

definition ais_val :: "SaAisErrorT \<Rightarrow> u32" where
  "ais_val e = (case e of SA_AIS_OK \<Rightarrow> 1 | SA_AIS_ERR_LIBRARY \<Rightarrow> 2 | SA_AIS_ERR_TIMEOUT \<Rightarrow> 5
     | SA_AIS_ERR_TRY_AGAIN \<Rightarrow> 6 | SA_AIS_ERR_NO_MEMORY \<Rightarrow> 8 | SA_AIS_ERR_BAD_HANDLE \<Rightarrow> 9
     | SA_AIS_ERR_NOT_EXIST \<Rightarrow> 12 | SA_AIS_ERR_EXIST \<Rightarrow> 14 | SA_AIS_ERR_NO_RESOURCES \<Rightarrow> 18
     | SA_AIS_ERR_UNAVAILABLE \<Rightarrow> 31 | SA_AIS_ERR_ZERO \<Rightarrow> 0)"

section \<open>A lock request from another node\<close>

definition glnd_process_check_master_and_non_master_status ::
  "GLND_CB \<Rightarrow> ptr \<Rightarrow> SaAisErrorT option" where
  "glnd_process_check_master_and_non_master_status cb r = do {
     ri \<leftarrow> ress cb r;
     if node_state cb \<noteq> GLND_OPERATIONAL_STATE \<or> \<not> gld_card_up cb
        \<or> master_status ri \<noteq> GLND_OPERATIONAL_STATE
     then Some SA_AIS_ERR_TRY_AGAIN
     else do {
       po \<leftarrow> find_lck (\<lambda>l. lock_type (lock_info l) = SA_LCK_EX_LOCK_MODE
                          \<and> non_master_status l = GLND_RESTART_STATE) cb (grant_list ri);
       Some (if po = None then SA_AIS_OK else SA_AIS_ERR_TRY_AGAIN) } }"

definition lck_rsp ::
  "GLND_CB \<Rightarrow> u32 \<Rightarrow> GLSV_EVT_GLND_LCK_INFO \<Rightarrow> SaLckLockStatusT \<Rightarrow> SaAisErrorT \<Rightarrow> glnd_out" where
  "lck_rsp cb rid q st err =
     OUT_GLND (li_glnd_mds_dest q) (NODE_LCK GLSV_GLND_EVT_LCK_RSP
       ((m_GLND_RESOURCE_NODE_LCK_INFO_FILL rid (li_lcl_resource_id q) (li_client_handle_id q)
           (li_lockid q) (li_lock_type q) (li_lockFlags q) st 0 SA_LCK_MODE_UNSET err
           (li_lcl_lockid q) 0)\<lparr>li_glnd_mds_dest := glnd_mdest_id cb\<rparr>))"

definition lck_req_of :: "GLSV_EVT_GLND_LCK_INFO \<Rightarrow> GLSV_LOCK_REQ_INFO" where
  "lck_req_of q = lock_req_zero\<lparr>call_type := GLSV_ASYNC_CALL, handleId := li_client_handle_id q,
     lock_type := li_lock_type q, lockFlags := li_lockFlags q, lockid := li_lockid q,
     lcl_lockid := li_lcl_lockid q, waiter_signal := li_waiter_signal q\<rparr>"

text \<open>What follows a request the master has taken: checkpoint, answer, and the refused node.\<close>

definition lck_req_done ::
  "ptr \<Rightarrow> ptr \<Rightarrow> GLSV_EVT_GLND_LCK_INFO \<Rightarrow> bytes \<Rightarrow> GLND_CB \<Rightarrow> GLND_CB option" where
  "lck_req_done r p q ctxt cb = do {
     ri \<leftarrow> ress cb r;
     l \<leftarrow> lcks cb p;
     let st = lockStatus (lock_info l);
     cb \<leftarrow> (if st \<noteq> SA_LCK_LOCK_NOT_QUEUED \<and> st \<noteq> SA_LCK_LOCK_ORPHANED
           then do {
             cb \<leftarrow> lck_upd p (\<lambda>l. l\<lparr>glnd_res_lock_mds_ctxt := ctxt\<rparr>) cb;
             _ \<leftarrow> ress cb (res_info l);
             ckpt_lck_write p cb }
           else Some cb);
     if st = SA_LCK_LOCK_GRANTED \<or> st = SA_LCK_LOCK_NOT_QUEUED \<or> st = SA_LCK_LOCK_ORPHANED
     then do {
       let cb = emit (lck_rsp cb (resource_id ri) (q\<lparr>li_lockid := lockid (lock_info l)\<rparr>) st
                        SA_AIS_OK) cb;
       if st = SA_LCK_LOCK_NOT_QUEUED \<or> st = SA_LCK_LOCK_ORPHANED
       then glnd_resource_lock_req_delete r p cb else Some cb }
     else Some cb }"

definition glnd_process_glnd_lck_req ::
  "glnd_env \<Rightarrow> GLSV_EVT_GLND_LCK_INFO \<Rightarrow> bytes \<Rightarrow> GLND_CB \<Rightarrow> (GLND_CB \<times> u32) option" where
  "glnd_process_glnd_lck_req E q ctxt cb =
     (case glnd_resource_node_find cb (li_resource_id q) of
        None \<Rightarrow> Some (emit (lck_rsp cb (li_resource_id q) q SA_LCK_STATUS_UNSET SA_AIS_ERR_TRY_AGAIN) cb,
                      SUCCESS)
      | Some r \<Rightarrow> do {
          rc \<leftarrow> glnd_process_check_master_and_non_master_status cb r;
          ri \<leftarrow> ress cb r;
          if rc = SA_AIS_ERR_TRY_AGAIN
          then Some (emit (lck_rsp cb (resource_id ri) q SA_LCK_STATUS_UNSET SA_AIS_ERR_TRY_AGAIN) cb,
                     ais_val rc)
          else if numLocks cb = GLND_RES_LOCK_INFO_CKPT_MAX_SECTIONS
          then Some (emit (lck_rsp cb (resource_id ri) q SA_LCK_LOCK_NO_MORE SA_AIS_ERR_NO_RESOURCES) cb,
                     ais_val rc)
          else if status ri = GLND_RESOURCE_NOT_INITIALISED
          then Some (emit (OUT_LOCAL (NODE_LCK GLSV_GLND_EVT_LCK_REQ q)) cb, ais_val rc)
          else if status ri = GLND_RESOURCE_ACTIVE_MASTER
          then do {
            (cb, p) \<leftarrow> glnd_resource_master_process_lock_req E r (lck_req_of q) (li_glnd_mds_dest q)
                        (li_lcl_resource_id q) (li_lcl_lockid q) cb;
            cb \<leftarrow> lck_req_done r p q ctxt cb;
            Some (cb, ais_val rc) }
          else Some (emit (lck_rsp cb (li_resource_id q) q SA_LCK_STATUS_UNSET SA_AIS_ERR_TRY_AGAIN) cb,
                     ais_val rc) })"

section \<open>An unlock request from another node\<close>

definition unlck_rsp ::
  "GLND_CB \<Rightarrow> MDS_DEST \<Rightarrow> u32 \<Rightarrow> GLSV_EVT_GLND_LCK_INFO \<Rightarrow> GLSV_LOCK_REQ_INFO \<Rightarrow> SaLckLockStatusT
   \<Rightarrow> SaAisErrorT \<Rightarrow> u64 \<Rightarrow> glnd_out" where
  "unlck_rsp cb dest rid q i st err invoc =
     OUT_GLND dest (NODE_LCK GLSV_GLND_EVT_UNLCK_RSP
       ((m_GLND_RESOURCE_NODE_LCK_INFO_FILL rid (li_lcl_resource_id q) (handleId i) (lockid i)
           (lock_type i) (lockFlags i) st 0 SA_LCK_MODE_UNSET err (li_lcl_lockid q) invoc)
        \<lparr>li_glnd_mds_dest := glnd_mdest_id cb\<rparr>))"

definition unlck_req_of :: "GLSV_EVT_GLND_LCK_INFO \<Rightarrow> GLSV_LOCK_REQ_INFO" where
  "unlck_req_of q = lock_req_zero\<lparr>call_type := GLSV_ASYNC_CALL, handleId := li_client_handle_id q,
     lockid := li_lockid q, lcl_lockid := li_lcl_lockid q\<rparr>"

text \<open>
  After a pending request has been answered and deleted, control falls through to the failure
  answer.
\<close>

definition unlck_pending ::
  "ptr \<Rightarrow> GLSV_EVT_GLND_LCK_INFO \<Rightarrow> GLND_CB \<Rightarrow> GLND_CB option" where
  "unlck_pending r q cb = do {
     ri \<leftarrow> ress cb r;
     po \<leftarrow> glnd_resource_pending_lock_req_find cb r (unlck_req_of q) (li_glnd_mds_dest q)
             (li_lcl_resource_id q);
     cb \<leftarrow> (case po of
             None \<Rightarrow> Some cb
           | Some p \<Rightarrow> do {
               l \<leftarrow> lcks cb p;
               let cb = emit (unlck_rsp cb (req_mdest_id l) (resource_id ri) q (lock_info l)
                                SA_LCK_STATUS_UNSET SA_AIS_OK (li_invocation q)) cb;
               glnd_resource_lock_req_delete r p cb });
     Some (emit (unlck_rsp cb (li_glnd_mds_dest q) (li_resource_id q) q (unlck_req_of q)
                   SA_LCK_LOCK_NO_MORE SA_AIS_ERR_LIBRARY 0) cb) }"

definition glnd_process_glnd_unlck_req ::
  "glnd_env \<Rightarrow> GLSV_EVT_GLND_LCK_INFO \<Rightarrow> GLND_CB \<Rightarrow> (GLND_CB \<times> u32) option" where
  "glnd_process_glnd_unlck_req E q cb =
     (case glnd_resource_node_find cb (li_resource_id q) of
        None \<Rightarrow> Some (cb, SUCCESS)
      | Some r \<Rightarrow> do {
          ri \<leftarrow> ress cb r;
          if status ri = GLND_RESOURCE_NOT_INITIALISED
          then Some (emit (OUT_LOCAL (NODE_LCK GLSV_GLND_EVT_UNLCK_REQ q)) cb, SUCCESS)
          else do {
            (cb, po) \<leftarrow> glnd_resource_master_unlock_req r (unlck_req_of q) (li_glnd_mds_dest q)
                         (li_lcl_resource_id q) cb;
            case po of
              Some p \<Rightarrow> do {
                l \<leftarrow> lcks cb p;
                let cb = emit (unlck_rsp cb (req_mdest_id l) (resource_id ri) q (lock_info l)
                                 (lockStatus (lock_info l)) SA_AIS_OK (li_invocation q)) cb;
                cb \<leftarrow> glnd_resource_lock_req_delete r p cb;
                cb \<leftarrow> glnd_resource_master_lock_resync_grant_list E r cb;
                Some (cb, SUCCESS) }
            | None \<Rightarrow> do { cb \<leftarrow> unlck_pending r q cb; Some (cb, FAILURE) } } })"

section \<open>Cancellation and orphaning\<close>

definition glnd_process_glnd_lck_req_cancel ::
  "glnd_env \<Rightarrow> GLSV_EVT_GLND_LCK_INFO \<Rightarrow> GLND_CB \<Rightarrow> (GLND_CB \<times> u32) option" where
  "glnd_process_glnd_lck_req_cancel E q cb =
     (case glnd_resource_node_find cb (li_resource_id q) of
        None \<Rightarrow> Some (cb, FAILURE)
      | Some r \<Rightarrow> do {
          po \<leftarrow> glnd_resource_remote_lock_req_find cb r (li_lcl_lockid q) (li_client_handle_id q)
                  (li_glnd_mds_dest q) (li_lcl_resource_id q);
          case po of
            None \<Rightarrow> Some (cb, SUCCESS)
          | Some p \<Rightarrow> do {
              cb \<leftarrow> glnd_resource_lock_req_delete r p cb;
              cb \<leftarrow> glnd_resource_master_lock_resync_grant_list E r cb;
              Some (cb, SUCCESS) } })"

text \<open>The test of the orphan flag is \<open>flags & SA_LCK_LOCK_ORPHAN\<close>, one bit.\<close>

definition orphan_lock :: "ptr \<Rightarrow> ptr \<Rightarrow> GLND_CB \<Rightarrow> GLND_CB option" where
  "orphan_lock r p cb = do {
     l \<leftarrow> lcks cb p;
     let m = lock_type (lock_info l);
     if lockFlags (lock_info l) AND SA_LCK_LOCK_ORPHAN \<noteq> 0
     then do {
       ri \<leftarrow> ress cb r;
       cb \<leftarrow> res_upd r (\<lambda>ri. ri\<lparr>ex_orphaned := (ex_orphaned ri \<or> m = SA_LCK_EX_LOCK_MODE),
                              pr_orphaned := (pr_orphaned ri \<or> m = SA_LCK_PR_LOCK_MODE)\<rparr>) cb;
       Some (emit (OUT_GLD (m_GLND_RESOURCE_LCK_FILL (resource_id ri) True m)) cb) }
     else Some cb }"

definition glnd_process_glnd_lck_req_orphan ::
  "glnd_env \<Rightarrow> GLSV_EVT_GLND_LCK_INFO \<Rightarrow> GLND_CB \<Rightarrow> (GLND_CB \<times> u32) option" where
  "glnd_process_glnd_lck_req_orphan E q cb =
     (case glnd_resource_node_find cb (li_resource_id q) of
        None \<Rightarrow> Some (cb, FAILURE)
      | Some r \<Rightarrow> do {
          po \<leftarrow> glnd_resource_remote_lock_req_find cb r (li_lockid q) (li_client_handle_id q)
                  (li_glnd_mds_dest q) (li_lcl_resource_id q);
          case po of
            None \<Rightarrow> Some (cb, SUCCESS)
          | Some p \<Rightarrow> do {
              l \<leftarrow> lcks cb p;
              if lockStatus (lock_info l) = SA_LCK_LOCK_GRANTED
              then do {
                cb \<leftarrow> orphan_lock r p cb;
                cb \<leftarrow> glnd_resource_lock_req_delete r p cb;
                cb \<leftarrow> glnd_resource_master_lock_resync_grant_list E r cb;
                Some (cb, SUCCESS) }
              else Some (cb, SUCCESS) } })"

definition glnd_process_glnd_lck_purge :: "glnd_env \<Rightarrow> u32 \<Rightarrow> GLND_CB \<Rightarrow> (GLND_CB \<times> u32) option" where
  "glnd_process_glnd_lck_purge E rid cb =
     (case glnd_resource_node_find cb rid of
        None \<Rightarrow> Some (cb, FAILURE)
      | Some r \<Rightarrow> do {
          cb \<leftarrow> glnd_resource_master_lock_purge_req E r True cb;
          Some (cb, SUCCESS) })"

section \<open>Events of a node that is not the master\<close>

definition glnd_process_glnd_lck_waiter_clbk ::
  "GLSV_EVT_GLND_LCK_INFO \<Rightarrow> GLND_CB \<Rightarrow> (GLND_CB \<times> u32) option" where
  "glnd_process_glnd_lck_waiter_clbk q cb =
     (if \<not> isClusterMember cb then Some (cb, FAILURE)
      else case glnd_resource_node_find cb (li_resource_id q) of
        None \<Rightarrow> Some (cb, FAILURE)
      | Some r \<Rightarrow> do {
          po \<leftarrow> glnd_resource_local_lock_req_find cb r (li_lcl_lockid q) (li_client_handle_id q)
                  (li_lcl_resource_id q);
          case po of
            None \<Rightarrow> Some (cb, FAILURE)
          | Some p \<Rightarrow> do {
              l \<leftarrow> lcks cb p;
              case glnd_client_node_find cb (handleId (lock_info l)) of
                None \<Rightarrow> Some (cb, SUCCESS)
              | Some c \<Rightarrow> do {
                  ci \<leftarrow> clients cb c;
                  if flag_set (cbk_reg_info ci) GLSV_LOCK_WAITER_CBK_REG
                  then Some (emit (OUT_GLA (agent_mds_dest (lock_info l))
                         (GLA_LOCK_WAITER_CBK (lockid (lock_info l)) (lcl_resource_id l)
                            (invocation (lock_info l)) (lock_type (lock_info l)) (li_lock_type q)
                            (handleId (lock_info l)) (li_waiter_signal q)
                            (lcl_lockid (lock_info l)))) cb, SUCCESS)
                  else Some (cb, SUCCESS) } } })"

section \<open>The requests another node resends to a new master\<close>

text \<open>Each request takes a node of its own from \<open>malloc\<close>: \<open>E i\<close> is the environment of the \<open>i\<close>-th.\<close>

definition resend_one ::
  "(nat \<Rightarrow> glnd_env) \<Rightarrow> ptr \<Rightarrow> GLSV_EVT_GLND_RSC_INFO \<Rightarrow> nat \<times> GLSV_LOCK_REQ_INFO \<Rightarrow> GLND_CB
   \<Rightarrow> GLND_CB option" where
  "resend_one E r info x cb =
     glnd_resource_master_process_resend_lock_req (E (fst x)) r (snd x) (ri_lcl_resource_id info)
       (ri_unlock_req_sent info) (ri_glnd_mds_dest info) cb"

definition glnd_process_glnd_send_rsc_info ::
  "(nat \<Rightarrow> glnd_env) \<Rightarrow> GLSV_EVT_GLND_RSC_INFO \<Rightarrow> GLND_CB \<Rightarrow> (GLND_CB \<times> u32) option" where
  "glnd_process_glnd_send_rsc_info E info cb =
     (case glnd_resource_node_find cb (ri_resource_id info) of
        None \<Rightarrow> Some (cb, FAILURE)
      | Some r \<Rightarrow> do {
          cb \<leftarrow> for_each (resend_one E r info) (enumerate 0 (ri_list_of_req info)) cb;
          cb \<leftarrow> glnd_resource_check_lost_unlock_requests r cb;
          Some (cb, SUCCESS) })"

section \<open>Timers\<close>

definition glnd_process_tmr_resource_lock_req_timeout ::
  "ptr option \<Rightarrow> GLND_CB \<Rightarrow> (GLND_CB \<times> u32) option" where
  "glnd_process_tmr_resource_lock_req_timeout m_info cb =
     (case m_info of
        None \<Rightarrow> Some (cb, SUCCESS)
      | Some p \<Rightarrow> do {
          cb \<leftarrow> set_lck_status SA_LCK_STATUS_UNSET p cb;
          l \<leftarrow> lcks cb p;
          let cb = emit (grant_gla_evt SA_AIS_ERR_TIMEOUT l) cb;
          ri \<leftarrow> ress cb (res_info l);
          (cb, _) \<leftarrow> glnd_client_node_resource_lock_req_find_and_del
                     (glnd_client_node_find cb (handleId (lock_info l))) (resource_id ri)
                     (lockid (lock_info l)) (lcl_resource_id l) cb;
          cb \<leftarrow> glnd_resource_lock_req_delete (res_info l) p cb;
          Some (cb, SUCCESS) })"

text \<open>The synchronous answer carries status 0, the callback the status of the node.\<close>

definition nm_timeout_gla_evt :: "GLND_RES_LOCK_LIST_INFO \<Rightarrow> glnd_out" where
  "nm_timeout_gla_evt l =
     (let i = lock_info l in
      if call_type i = GLSV_SYNC_CALL
      then OUT_GLA_RSP (agent_mds_dest i) (glnd_res_lock_mds_ctxt l)
             (GLA_SYNC_LOCK SA_AIS_ERR_TIMEOUT (lockid i) SA_LCK_STATUS_UNSET (handleId i))
      else grant_gla_evt SA_AIS_ERR_TIMEOUT l)"

definition cancel_evt :: "GLND_CB \<Rightarrow> u32 \<Rightarrow> GLND_RES_LOCK_LIST_INFO \<Rightarrow> glnd_evt" where
  "cancel_evt cb rid l = NODE_LCK GLSV_GLND_EVT_LCK_REQ_CANCEL
     ((m_GLND_RESOURCE_NODE_LCK_INFO_FILL rid (lcl_resource_id l) (handleId (lock_info l))
         (lockid (lock_info l)) (lock_type (lock_info l)) (lockFlags (lock_info l))
         SA_LCK_STATUS_UNSET 0 SA_LCK_MODE_UNSET SA_AIS_ERR_ZERO (lcl_lockid (lock_info l)) 0)
      \<lparr>li_glnd_mds_dest := glnd_mdest_id cb\<rparr>)"

definition glnd_process_tmr_nm_resource_lock_req_timeout ::
  "ptr option \<Rightarrow> GLND_CB \<Rightarrow> (GLND_CB \<times> u32) option" where
  "glnd_process_tmr_nm_resource_lock_req_timeout lck_list_info cb =
     (case lck_list_info of
        None \<Rightarrow> Some (cb, SUCCESS)
      | Some p \<Rightarrow> do {
          l \<leftarrow> lcks cb p;
          let cb = emit (nm_timeout_gla_evt l) cb;
          ri \<leftarrow> ress cb (res_info l);
          let (cb, rc) = glnd_evt_backup_queue_delete_lock_req (handleId (lock_info l))
                           (resource_id ri) (lock_type (lock_info l)) cb;
          let cb = (if rc \<noteq> NCSCC_RC_SUCCESS
                    then if status ri \<noteq> GLND_RESOURCE_ELECTION_IN_PROGESS
                         then emit (OUT_GLND (master_mds_dest ri) (cancel_evt cb (resource_id ri) l)) cb
                         else glnd_evt_backup_queue_add (cancel_evt cb (resource_id ri) l) cb
                    else cb);
          (cb, _) \<leftarrow> glnd_client_node_resource_lock_req_find_and_del
                     (glnd_client_node_find cb (handleId (lock_info l))) (resource_id ri)
                     (lockid (lock_info l)) (lcl_resource_id l) cb;
          cb \<leftarrow> glnd_resource_lock_req_delete (res_info l) p cb;
          Some (cb, SUCCESS) })"

definition glnd_process_tmr_nm_resource_unlock_req_timeout ::
  "ptr option \<Rightarrow> GLND_CB \<Rightarrow> (GLND_CB \<times> u32) option" where
  "glnd_process_tmr_nm_resource_unlock_req_timeout lck_list_info cb =
     (case lck_list_info of
        None \<Rightarrow> Some (cb, SUCCESS)
      | Some p \<Rightarrow> do {
          l \<leftarrow> lcks cb p;
          let i = lock_info l;
          Some (emit (if call_type i = GLSV_SYNC_CALL
                      then OUT_GLA_RSP (agent_mds_dest i) (glnd_res_lock_mds_ctxt l)
                             (GLA_SYNC_UNLOCK SA_AIS_ERR_TIMEOUT 0)
                      else OUT_GLA (agent_mds_dest i)
                             (GLA_UNLOCK_CBK SA_AIS_ERR_TIMEOUT (invocation i) (lcl_resource_id l)
                                (lockid i) (lockStatus i))) cb, SUCCESS) })"

section \<open>The status of the other node directors\<close>

definition glnd_process_non_master_lck_req_status ::
  "glnd_env \<Rightarrow> ptr \<Rightarrow> MDS_DEST \<Rightarrow> GLND_NODE_STATUS \<Rightarrow> ptr \<Rightarrow> GLND_CB \<Rightarrow> GLND_CB option" where
  "glnd_process_non_master_lck_req_status E r dest st p cb =
     (if st = GLND_DOWN_STATE
      then do {
        l \<leftarrow> lcks cb p;
        if lockStatus (lock_info l) = SA_LCK_LOCK_GRANTED
        then do {
          cb \<leftarrow> glnd_resource_lock_req_delete r p cb;
          glnd_resource_master_lock_resync_grant_list E r cb }
        else glnd_resource_lock_req_delete r p cb }
      else do {
        cb \<leftarrow> lck_upd p (\<lambda>l. l\<lparr>req_mdest_id := dest,
                non_master_status := (if st = GLND_OPERATIONAL_STATE then GLND_NODE_STATUS_UNSET
                                      else st)\<rparr>) cb;
        l \<leftarrow> lcks cb p;
        if lock_rsp_not_sent l
        then glnd_resource_master_grant_lock_send_notification E r p cb
        else do { _ \<leftarrow> ress cb (res_info l); ckpt_lck_overwrite p cb } })"

text \<open>
  One lock of one of the three lists, if it belongs to the node whose status has changed; for
  the grant list (\<open>grant\<close>) the response is sent again to a node that has restarted. The C loops
  read the next pointer before the lock is processed: they visit the list as it was when the
  loop was entered.
\<close>

definition non_master_visit ::
  "glnd_env \<Rightarrow> ptr \<Rightarrow> MDS_DEST \<Rightarrow> GLND_NODE_STATUS \<Rightarrow> bool \<Rightarrow> ptr \<Rightarrow> GLND_CB \<Rightarrow> GLND_CB option" where
  "non_master_visit E r dest st grant p cb = do {
     l \<leftarrow> lcks cb p;
     if m_NCS_NODE_ID_FROM_MDS_DEST dest \<noteq> m_NCS_NODE_ID_FROM_MDS_DEST (req_mdest_id l)
     then Some cb
     else do {
       ri \<leftarrow> ress cb r;
       let i = lock_info l;
       let cb = (if grant \<and> st = GLND_OPERATIONAL_STATE \<and> non_master_status l = GLND_RESTART_STATE
                 then emit (OUT_GLND dest (NODE_LCK GLSV_GLND_EVT_LCK_RSP
                        ((m_GLND_RESOURCE_NODE_LCK_INFO_FILL (resource_id ri) (lcl_resource_id l)
                            (handleId i) (lockid i) (lock_type i) (lockFlags i) (lockStatus i) 0
                            SA_LCK_MODE_UNSET SA_AIS_OK (lcl_lockid i) 0)
                         \<lparr>li_glnd_mds_dest := glnd_mdest_id cb\<rparr>))) cb
                 else cb);
       glnd_process_non_master_lck_req_status E r dest st p cb } }"

definition non_master_rsc ::
  "glnd_env \<Rightarrow> MDS_DEST \<Rightarrow> GLND_NODE_STATUS \<Rightarrow> ptr \<Rightarrow> GLND_CB \<Rightarrow> GLND_CB option" where
  "non_master_rsc E dest st r cb = do {
     ri \<leftarrow> ress cb r;
     if status ri = GLND_RESOURCE_ACTIVE_MASTER
     then do {
       cb \<leftarrow> for_each (non_master_visit E r dest st True) (grant_list ri) cb;
       ri \<leftarrow> ress cb r;
       cb \<leftarrow> for_each (non_master_visit E r dest st False) (wait_exclusive_list ri) cb;
       ri \<leftarrow> ress cb r;
       for_each (non_master_visit E r dest st False) (wait_read_list ri) cb }
     else Some cb }"

definition glnd_process_gld_non_master_status ::
  "glnd_env \<Rightarrow> MDS_DEST \<Rightarrow> GLND_NODE_STATUS \<Rightarrow> GLND_CB \<Rightarrow> (GLND_CB \<times> u32) option" where
  "glnd_process_gld_non_master_status E dest st cb = do {
     cb \<leftarrow> for_each (non_master_rsc E dest st) (map snd (glnd_res_tree cb)) cb;
     Some (cb, SUCCESS) }"

end
