(* ===== verification/Glnd_Evt_Refine.thy ===== *)
theory Glnd_Evt_Refine
  imports Glnd_Request Glnd_Evt
begin

text \<open>
  The handlers of \<open>Glnd_Evt\<close> keep the invariant, and what they do to the lock of a resource is
  a run of the reader/writer lock of \<open>Rw_Lock\<close>. The step relation \<open>glnd_step\<close> collects the
  events a master receives; it is interpreted as an implementation of \<open>rw_impl\<close>.
\<close>

definition sim :: "GLND_CB \<Rightarrow> GLND_CB \<Rightarrow> bool" where
  "sim cb cb' \<longleftrightarrow> glnd_inv cb' \<and> same_static cb cb'
     \<and> (\<forall>r. rw_step\<^sup>*\<^sup>* (abs_rw cb r) (abs_rw cb' r))"

lemma sim_refl [simp]: "glnd_inv cb \<Longrightarrow> sim cb cb"
  by (simp add: sim_def same_static_def)

lemma sim_trans: "sim a b \<Longrightarrow> sim b c \<Longrightarrow> sim a c"
  unfolding sim_def by (meson rtranclp_trans same_static_trans)

lemma sim_inv: "sim a b \<Longrightarrow> glnd_inv b"
  by (simp add: sim_def)

lemma keeps_sim: "keeps r cb cb' \<Longrightarrow> rw_step\<^sup>*\<^sup>* (abs_rw cb r) (abs_rw cb' r) \<Longrightarrow> sim cb cb'"
  unfolding keeps_def sim_def by (metis rtranclp.rtrancl_refl)

lemma sim_frame: "core cb' = core cb \<Longrightarrow> glnd_inv cb \<Longrightarrow> sim cb cb'"
  using keeps_frame [of cb' cb] core_eq_abs [of cb' cb] by (auto intro: keeps_sim)

lemma sim_emit [simp]: "glnd_inv cb \<Longrightarrow> sim cb (emit m cb)"
  by (rule sim_frame) simp_all

lemma sim_core: "sim cb (core cb') = sim cb cb'"
  by (simp add: sim_def)

lemma sim_emit_r [simp]: "sim cb (emit m cb') = sim cb cb'"
  by (metis sim_core core_emit)

lemma node_find_live:
  assumes "glnd_inv cb" "glnd_resource_node_find cb rid = Some r"
  shows "\<exists>ri. ress cb r = Some ri \<and> resource_id ri = rid \<and> r \<noteq> NULL"
proof -
  have "(key32 rid, r) \<in> set (glnd_res_tree cb)"
    using assms(2) tbl_get_SomeD by (simp add: glnd_resource_node_find_def)
  with assms(1) show ?thesis
    by (fastforce simp: glnd_inv_def glnd_wf_def tree_wf_def split: option.splits)
qed

section \<open>Searches\<close>

lemma find_lck_run:
  assumes "\<forall>p \<in> set ps. lcks cb p \<noteq> None"
  shows "find_lck P cb ps = Some (List.find (\<lambda>p. P (the (lcks cb p))) ps)"
  unfolding find_lck_def by (rule first_such_total) (use assms in auto)

lemma lists_live:
  assumes "glnd_inv cb" "ress cb r = Some ri"
  shows "\<forall>p \<in> set (grant_list ri). lcks cb p \<noteq> None"
    "\<forall>p \<in> set (wait_exclusive_list ri). lcks cb p \<noteq> None"
    "\<forall>p \<in> set (wait_read_list ri). lcks cb p \<noteq> None"
    "\<forall>p \<in> set (lcl_lck_req_info ri). lcks cb p \<noteq> None"
  using assms glnd_wfD(3) [of cb r ri] by (auto simp: glnd_inv_def res_lcks_def)

lemma grant_find_run:
  assumes "glnd_inv cb" "ress cb r = Some ri"
  shows "\<exists>po. glnd_resource_grant_lock_req_find cb r q d lcl = Some po
              \<and> (\<forall>p. po = Some p \<longrightarrow> p \<in> set (grant_list ri) \<and> owns cb r p)"
  using assms lists_live [OF assms] glnd_wfD(2) [of cb r ri]
  by (auto simp: glnd_resource_grant_lock_req_find_def find_lck_run glnd_inv_def res_lcks_def
      dest!: find_SomeD simp del: bind_Some_iff)

lemma pending_find_run:
  assumes "glnd_inv cb" "ress cb r = Some ri"
  shows "\<exists>po. glnd_resource_pending_lock_req_find cb r q d lcl = Some po
              \<and> (\<forall>p. po = Some p \<longrightarrow> p \<in> set (wait_exclusive_list ri @ wait_read_list ri) \<and> owns cb r p)"
  using assms lists_live [OF assms] glnd_wfD(2) [of cb r ri]
  by (auto simp: glnd_resource_pending_lock_req_find_def find_lck_run glnd_inv_def res_lcks_def
      dest!: find_SomeD simp del: bind_Some_iff split: option.splits)

lemma remote_find_run:
  assumes "glnd_inv cb" "ress cb r = Some ri"
  shows "\<exists>po. glnd_resource_remote_lock_req_find cb r lid h d lcl = Some po
              \<and> (\<forall>p. po = Some p \<longrightarrow> p \<in> set (res_lcks ri) \<and> owns cb r p)"
  using assms lists_live [OF assms] glnd_wfD(2) [of cb r ri]
  by (auto simp: glnd_resource_remote_lock_req_find_def find_lck_run glnd_inv_def res_lcks_def
      dest!: find_SomeD simp del: bind_Some_iff split: option.splits)

section \<open>Deleting and resynchronising\<close>

lemma delete_resync_run:
  assumes inv: "glnd_inv cb" and ri: "ress cb r = Some ri" and p: "owns cb r p"
  shows "\<exists>c1 c2. glnd_resource_lock_req_delete r p cb = Some c1
     \<and> glnd_resource_master_lock_resync_grant_list E r c1 = Some c2
     \<and> keeps r cb c2 \<and> abs_rw c2 r = rw_resync (rw_remove p (abs_rw cb r))"
proof -
  obtain c1 where 1: "glnd_resource_lock_req_delete r p cb = Some c1" "keeps r cb c1"
      "abs_rw c1 r = rw_remove p (abs_rw cb r)" using delete_refine [OF inv ri p] by blast
  obtain r1 where "ress c1 r = Some r1" using 1(2) ri same_static_ress unfolding keeps_def by blast
  with resync_refine [OF keeps_inv [OF 1(2)], of r r1 E] 1 show ?thesis
    using keeps_trans [OF 1(2)] by auto
qed

text \<open>The node of a waiter is not a holder, so it may be withdrawn.\<close>

lemma holders_abs: "ress cb r = Some ri \<Longrightarrow> fst ` set (holders (abs_rw cb r)) = set (grant_list ri)"
  by (force simp: abs_rw_Some)

lemma delete_waiter_run:
  assumes inv: "glnd_inv cb" and ri: "ress cb r = Some ri" and p: "owns cb r p"
    and w: "p \<notin> set (grant_list ri)"
  shows "\<exists>c1. glnd_resource_lock_req_delete r p cb = Some c1 \<and> sim cb c1"
proof -
  obtain c1 where 1: "glnd_resource_lock_req_delete r p cb = Some c1" "keeps r cb c1"
      "abs_rw c1 r = rw_remove p (abs_rw cb r)" using delete_refine [OF inv ri p] by blast
  have "rw_step (abs_rw cb r) (abs_rw c1 r)"
    unfolding 1(3) by (rule rw_step.withdraw) (simp add: holders_abs [OF ri] w)
  with 1 show ?thesis using keeps_sim by blast
qed

section \<open>Unlock\<close>

lemma del_status: "del_core r p (status_core st p cb) = del_core r p cb"
  by (simp add: del_core_def status_core_def lists_core_def)

lemma released_delete_run:
  assumes inv: "glnd_inv cb" and ri: "ress cb r = Some ri" and p: "owns cb r p"
    and c1: "core c1 = status_core st p (core cb)"
  shows "\<exists>c2. glnd_resource_lock_req_delete r p c1 = Some c2 \<and> keeps r cb c2
              \<and> abs_rw c2 r = rw_remove p (abs_rw cb r)"
proof -
  have "owns c1 r p" using p c1 by (metis owns_core status_core_simps(2))
  then obtain l where l: "lcks c1 p = Some l" by (auto simp: owns_def split: option.splits)
  have "ress (core c1) r \<noteq> None" using c1 ri by simp
  then obtain r1 where r1: "ress c1 r = Some r1" by auto
  obtain c2 where run: "glnd_resource_lock_req_delete r p c1 = Some c2" using delete_total [OF l r1] by blast
  have "core c2 = del_core r p (core c1)" using delete_core [OF run] by (simp add: del_core_def)
  then have "core c2 = del_core r p (core cb)" by (simp add: c1 del_status)
  moreover have "glnd_inv (core cb)" "ress (core cb) r = Some (core_res ri)" "owns (core cb) r p"
    using inv ri p by simp_all
  note del_core_keeps [OF this]
  ultimately show ?thesis using run by (metis keeps_core abs_rw_core)
qed

lemma unlock_req_eval:
  assumes inv: "glnd_inv cb" and ri: "ress cb r = Some ri" and nn: "r \<noteq> NULL"
  shows "\<exists>cb' po. glnd_resource_master_unlock_req r q d lcl cb = Some (cb', po)
     \<and> (case po of None \<Rightarrow> cb' = cb
        | Some p \<Rightarrow> p \<in> set (grant_list ri) \<and> owns cb r p
                    \<and> core cb' = status_core GLSV_LOCK_STATUS_RELEASED p (core cb))
     \<and> (status ri = GLND_RESOURCE_ACTIVE_MASTER \<longrightarrow>
          glnd_resource_grant_lock_req_find cb r q d lcl = Some po)"
proof (cases "status ri = GLND_RESOURCE_ACTIVE_MASTER")
  case False
  with ri nn show ?thesis by (simp add: glnd_resource_master_unlock_req_def del: bind_Some_iff)
next
  case True
  obtain po where po: "glnd_resource_grant_lock_req_find cb r q d lcl = Some po"
      "\<forall>p. po = Some p \<longrightarrow> p \<in> set (grant_list ri) \<and> owns cb r p"
    using grant_find_run [OF inv ri] by blast
  show ?thesis
  proof (cases po)
    case None
    with True po ri nn show ?thesis by (simp add: glnd_resource_master_unlock_req_def del: bind_Some_iff)
  next
    case (Some p)
    with po have p: "lcks cb p \<noteq> None" by (auto simp: owns_def split: option.splits)
    obtain c1 where c1: "set_lck_status GLSV_LOCK_STATUS_RELEASED p cb = Some c1"
      using status_run [OF p] by blast
    have "lcks c1 p \<noteq> None" using c1 by (auto simp: set_lck_status_def lck_upd_def)
    then obtain c2 where c2: "ckpt_lck_overwrite p c1 = Some c2" by (auto simp: ckpt_lck_overwrite_def)
    show ?thesis
      using True Some po ri nn c1 c2 set_lck_status_core [OF c1] ckpt_core(2) [OF c2]
      by (simp add: glnd_resource_master_unlock_req_def del: bind_Some_iff)
  qed
qed

lemma core_emit_eq: "core (emit m cb) = c \<longleftrightarrow> core cb = c"
  by simp

lemma release_run:
  assumes inv: "glnd_inv cb" and ri: "ress cb r = Some ri" and p: "owns cb r p"
    and c1: "core c1 = status_core st p (core cb)"
  shows "\<exists>c2 c3. glnd_resource_lock_req_delete r p c1 = Some c2
     \<and> glnd_resource_master_lock_resync_grant_list E r c2 = Some c3
     \<and> keeps r cb c3 \<and> abs_rw c3 r = rw_resync (rw_remove p (abs_rw cb r))"
proof -
  obtain c2 where 2: "glnd_resource_lock_req_delete r p c1 = Some c2" "keeps r cb c2"
      "abs_rw c2 r = rw_remove p (abs_rw cb r)" using released_delete_run [OF assms] by blast
  obtain r2 where "ress c2 r = Some r2" using 2(2) ri same_static_ress unfolding keeps_def by blast
  with resync_refine [OF keeps_inv [OF 2(2)], of r r2 E] 2 show ?thesis
    using keeps_trans [OF 2(2)] by auto
qed

lemma unlck_pending_run:
  assumes inv: "glnd_inv cb" and ri: "ress cb r = Some ri"
  shows "\<exists>cb'. unlck_pending r q cb = Some cb' \<and> sim cb cb'"
proof -
  obtain po where po: "glnd_resource_pending_lock_req_find cb r (unlck_req_of q) (li_glnd_mds_dest q)
      (li_lcl_resource_id q) = Some po"
    "\<forall>p. po = Some p \<longrightarrow> p \<in> set (wait_exclusive_list ri @ wait_read_list ri) \<and> owns cb r p"
    using pending_find_run [OF inv ri] by blast
  show ?thesis
  proof (cases po)
    case None
    with po ri inv show ?thesis by (simp add: unlck_pending_def del: bind_Some_iff)
  next
    case (Some p)
    with po have w: "p \<in> set (wait_exclusive_list ri @ wait_read_list ri)" and p: "owns cb r p" by auto
    have d: "p \<notin> set (grant_list ri)"
      using w glnd_wfD(1) [of cb r ri] inv ri by (auto simp: glnd_inv_def res_lcks_def)
    obtain l where l: "lcks cb p = Some l" using p by (auto simp: owns_def split: option.splits)
    let ?m = "unlck_rsp cb (req_mdest_id l) (resource_id ri) q (lock_info l) SA_LCK_STATUS_UNSET SA_AIS_OK (li_invocation q)"
    have i: "glnd_inv (emit ?m cb)" "owns (emit ?m cb) r p" "ress (emit ?m cb) r = Some ri"
      using inv p ri sim_inv [OF sim_emit [OF inv]] by (simp_all add: owns_def)
    obtain c1 where "glnd_resource_lock_req_delete r p (emit ?m cb) = Some c1" "sim (emit ?m cb) c1"
      using delete_waiter_run [OF i(1,3,2) d] by blast
    with Some po ri l inv show ?thesis
      using sim_trans [OF sim_emit [OF inv]] by (simp add: unlck_pending_def Let_def del: bind_Some_iff)
  qed
qed

lemma unlck_req_run:
  assumes inv: "glnd_inv cb"
  shows "\<exists>cb' rc. glnd_process_glnd_unlck_req E q cb = Some (cb', rc) \<and> sim cb cb'"
proof (cases "glnd_resource_node_find cb (li_resource_id q)")
  case None
  with inv show ?thesis by (simp add: glnd_process_glnd_unlck_req_def)
next
  case (Some r)
  then obtain ri where ri: "ress cb r = Some ri" "r \<noteq> NULL" using node_find_live [OF inv] by blast
  show ?thesis
  proof (cases "status ri = GLND_RESOURCE_NOT_INITIALISED")
    case True
    with Some ri inv show ?thesis by (simp add: glnd_process_glnd_unlck_req_def del: bind_Some_iff)
  next
    case False
    obtain c1 po where u: "glnd_resource_master_unlock_req r (unlck_req_of q) (li_glnd_mds_dest q)
        (li_lcl_resource_id q) cb = Some (c1, po)"
      and po: "case po of None \<Rightarrow> c1 = cb | Some p \<Rightarrow> p \<in> set (grant_list ri) \<and> owns cb r p
          \<and> core c1 = status_core GLSV_LOCK_STATUS_RELEASED p (core cb)"
      using unlock_req_eval [OF inv ri] by blast
    show ?thesis
    proof (cases po)
      case None
      with po have "c1 = cb" by simp
      with None Some False ri u unlck_pending_run [OF inv ri(1), of q] show ?thesis
        by (auto simp: glnd_process_glnd_unlck_req_def simp del: bind_Some_iff)
    next
      case p: (Some p)
      with po have o: "owns cb r p" and c1: "core c1 = status_core GLSV_LOCK_STATUS_RELEASED p (core cb)" by auto
      have "owns c1 r p" using o c1 by (metis owns_core status_core_simps(2))
      then obtain l where l: "lcks c1 p = Some l" by (auto simp: owns_def split: option.splits)
      let ?m = "unlck_rsp c1 (req_mdest_id l) (resource_id ri) q (lock_info l) (lockStatus (lock_info l))
          SA_AIS_OK (li_invocation q)"
      obtain c2 c3 where "glnd_resource_lock_req_delete r p (emit ?m c1) = Some c2"
          "glnd_resource_master_lock_resync_grant_list E r c2 = Some c3" "keeps r cb c3"
          "abs_rw c3 r = rw_resync (rw_remove p (abs_rw cb r))"
        using release_run [OF inv ri(1) o, of "emit ?m c1" GLSV_LOCK_STATUS_RELEASED E] c1 by auto
      moreover from this(4) have "sim cb c3"
        by (intro keeps_sim [OF calculation(3)]) (simp add: rw_step.release r_into_rtranclp)
      ultimately show ?thesis using p Some False ri u l
        by (simp add: glnd_process_glnd_unlck_req_def Let_def del: bind_Some_iff)
    qed
  qed
qed

text \<open>The functional behaviour on the branch that releases a lock.\<close>

lemma unlck_req_releases:
  assumes inv: "glnd_inv cb" and find: "glnd_resource_node_find cb (li_resource_id q) = Some r"
    and ri: "ress cb r = Some ri" and st: "status ri = GLND_RESOURCE_ACTIVE_MASTER"
    and p: "glnd_resource_grant_lock_req_find cb r (unlck_req_of q) (li_glnd_mds_dest q)
              (li_lcl_resource_id q) = Some (Some p)"
  shows "\<exists>cb'. glnd_process_glnd_unlck_req E q cb = Some (cb', SUCCESS) \<and> keeps r cb cb'
     \<and> abs_rw cb' r = rw_resync (rw_remove p (abs_rw cb r))"
proof -
  have nn: "r \<noteq> NULL" using node_find_live [OF inv find] by blast
  obtain c1 where u: "glnd_resource_master_unlock_req r (unlck_req_of q) (li_glnd_mds_dest q)
        (li_lcl_resource_id q) cb = Some (c1, Some p)"
    and o: "owns cb r p" and c1: "core c1 = status_core GLSV_LOCK_STATUS_RELEASED p (core cb)"
    using unlock_req_eval [OF inv ri nn, of "unlck_req_of q" "li_glnd_mds_dest q" "li_lcl_resource_id q"]
      st p by auto
  have "owns c1 r p" using o c1 by (metis owns_core status_core_simps(2))
  then obtain l where l: "lcks c1 p = Some l" by (auto simp: owns_def split: option.splits)
  let ?m = "unlck_rsp c1 (req_mdest_id l) (resource_id ri) q (lock_info l) (lockStatus (lock_info l))
      SA_AIS_OK (li_invocation q)"
  obtain c2 c3 where "glnd_resource_lock_req_delete r p (emit ?m c1) = Some c2"
      "glnd_resource_master_lock_resync_grant_list E r c2 = Some c3" "keeps r cb c3"
      "abs_rw c3 r = rw_resync (rw_remove p (abs_rw cb r))"
    using release_run [OF inv ri o, of "emit ?m c1" GLSV_LOCK_STATUS_RELEASED E] c1 by auto
  then show ?thesis using find st ri u l
    by (simp add: glnd_process_glnd_unlck_req_def Let_def del: bind_Some_iff)
qed

section \<open>Cancellation, orphaning and purge\<close>

lemma cancel_run:
  assumes inv: "glnd_inv cb"
  shows "\<exists>cb' rc. glnd_process_glnd_lck_req_cancel E q cb = Some (cb', rc) \<and> sim cb cb'"
proof (cases "glnd_resource_node_find cb (li_resource_id q)")
  case None
  with inv show ?thesis by (simp add: glnd_process_glnd_lck_req_cancel_def)
next
  case (Some r)
  then obtain ri where ri: "ress cb r = Some ri" using node_find_live [OF inv] by blast
  obtain po where po: "glnd_resource_remote_lock_req_find cb r (li_lcl_lockid q) (li_client_handle_id q)
      (li_glnd_mds_dest q) (li_lcl_resource_id q) = Some po"
    "\<forall>p. po = Some p \<longrightarrow> p \<in> set (res_lcks ri) \<and> owns cb r p"
    using remote_find_run [OF inv ri] by blast
  show ?thesis
  proof (cases po)
    case None
    with Some po inv show ?thesis by (simp add: glnd_process_glnd_lck_req_cancel_def del: bind_Some_iff)
  next
    case p: (Some p)
    with po delete_resync_run [OF inv ri, of p E] obtain c1 c2 where
      "glnd_resource_lock_req_delete r p cb = Some c1"
      "glnd_resource_master_lock_resync_grant_list E r c1 = Some c2" "keeps r cb c2"
      "abs_rw c2 r = rw_resync (rw_remove p (abs_rw cb r))" by blast
    moreover from this(4) have "sim cb c2"
      by (intro keeps_sim [OF calculation(3)]) (simp add: rw_step.release r_into_rtranclp)
    ultimately show ?thesis using p po Some
      by (simp add: glnd_process_glnd_lck_req_cancel_def del: bind_Some_iff)
  qed
qed

lemma orphan_lock_run:
  assumes inv: "glnd_inv cb" and ri: "ress cb r = Some ri" and p: "owns cb r p"
  shows "\<exists>c1. orphan_lock r p cb = Some c1 \<and> keeps r cb c1 \<and> owns c1 r p
     \<and> abs_rw c1 r = (case lcks cb p of Some l \<Rightarrow>
          if lockFlags (lock_info l) AND SA_LCK_LOCK_ORPHAN \<noteq> 0
          then rw_orphan (p, lock_type (lock_info l)) (abs_rw cb r) else abs_rw cb r
        | None \<Rightarrow> abs_rw cb r)"
proof -
  obtain l where l: "lcks cb p = Some l" using p by (auto simp: owns_def split: option.splits)
  let ?m = "lock_type (lock_info l)"
  let ?f = "\<lambda>ri. ri\<lparr>ex_orphaned := (ex_orphaned ri \<or> ?m = SA_LCK_EX_LOCK_MODE),
                   pr_orphaned := (pr_orphaned ri \<or> ?m = SA_LCK_PR_LOCK_MODE)\<rparr>"
  show ?thesis
  proof (cases "lockFlags (lock_info l) AND SA_LCK_LOCK_ORPHAN \<noteq> 0")
    case False
    with l inv p show ?thesis by (simp add: orphan_lock_def Let_def keeps_refl del: bind_Some_iff)
  next
    case True
    obtain c0 where c0: "res_upd r ?f cb = Some c0" using res_upd_run [OF ri] by blast
    define c1 where "c1 = emit (OUT_GLD (m_GLND_RESOURCE_LCK_FILL (resource_id ri) True ?m)) c0"
    have run: "orphan_lock r p cb = Some c1"
      using True l ri c0 by (simp add: orphan_lock_def Let_def c1_def del: bind_Some_iff)
    have core: "core c1 = lists_core r ?f (core cb)" using res_upd_core [OF c0] by (simp add: c1_def)
    have "keeps r (core cb) (lists_core r ?f (core cb))"
    proof (rule lists_core_keeps)
      show "glnd_inv (core cb)" "ress (core cb) r = Some (core_res ri)" using inv ri by simp_all
      show "distinct (res_lcks (?f (core_res ri)))"
        using glnd_wfD(1) [of cb r ri] inv ri by (simp add: glnd_inv_def res_lcks_def)
      show "\<forall>q \<in> set (res_lcks (?f (core_res ri))). owns (core cb) r q"
        using glnd_wfD(2) [of cb r ri] inv ri by (auto simp: glnd_inv_def res_lcks_def)
      show "\<forall>q \<in> set (grant_list (?f (core_res ri))). stat_of (core cb) q = Some SA_LCK_LOCK_GRANTED"
        using inv ri by (auto simp: glnd_inv_def granted_wf_def)
    qed (simp add: rsc_static_def)
    then have k: "keeps r cb c1" using core by (metis keeps_core)
    have "abs_rw c1 r = abs_rw (lists_core r ?f (core cb)) r" by (metis core abs_rw_core)
    then have "abs_rw c1 r = rw_orphan (p, ?m) (abs_rw cb r)"
      using ri by (simp add: abs_rw_Some rw_orphan_def)
    moreover have "owns (core c1) = owns (core cb)" unfolding core by (rule lists_core_simps(2))
    then have "owns c1 r p" using p by simp
    ultimately show ?thesis using run k l True by simp
  qed
qed

lemma orphan_run:
  assumes inv: "glnd_inv cb"
  shows "\<exists>cb' rc. glnd_process_glnd_lck_req_orphan E q cb = Some (cb', rc) \<and> sim cb cb'"
proof (cases "glnd_resource_node_find cb (li_resource_id q)")
  case None
  with inv show ?thesis by (simp add: glnd_process_glnd_lck_req_orphan_def)
next
  case (Some r)
  then obtain ri where ri: "ress cb r = Some ri" using node_find_live [OF inv] by blast
  obtain po where po: "glnd_resource_remote_lock_req_find cb r (li_lockid q) (li_client_handle_id q)
      (li_glnd_mds_dest q) (li_lcl_resource_id q) = Some po"
    "\<forall>p. po = Some p \<longrightarrow> p \<in> set (res_lcks ri) \<and> owns cb r p"
    using remote_find_run [OF inv ri] by blast
  show ?thesis
  proof (cases po)
    case None
    with Some po inv show ?thesis by (simp add: glnd_process_glnd_lck_req_orphan_def del: bind_Some_iff)
  next
    case p: (Some p)
    with po have o: "owns cb r p" by blast
    then obtain l where l: "lcks cb p = Some l" by (auto simp: owns_def split: option.splits)
    obtain c1 where c1: "orphan_lock r p cb = Some c1" "keeps r cb c1" "owns c1 r p"
      and a1: "abs_rw c1 r = (if lockFlags (lock_info l) AND SA_LCK_LOCK_ORPHAN \<noteq> 0
          then rw_orphan (p, lock_type (lock_info l)) (abs_rw cb r) else abs_rw cb r)"
      using orphan_lock_run [OF inv ri o] l by auto
    obtain r1 where r1: "ress c1 r = Some r1"
      using c1(2) ri same_static_ress unfolding keeps_def by blast
    obtain c2 c3 where c3: "glnd_resource_lock_req_delete r p c1 = Some c2"
      "glnd_resource_master_lock_resync_grant_list E r c2 = Some c3" "keeps r c1 c3"
      "abs_rw c3 r = rw_resync (rw_remove p (abs_rw c1 r))"
      using delete_resync_run [OF keeps_inv [OF c1(2)] r1 c1(3), of E] by blast
    have "rw_step (abs_rw cb r) (abs_rw c3 r)"
      unfolding c3(4) a1 using rw_step.orphan rw_step.release by auto
    then have "sim cb c3" using keeps_trans [OF c1(2) c3(3)] keeps_sim by blast
    with c1 c3 p po Some l inv show ?thesis
      by (cases "lockStatus (lock_info l) = SA_LCK_LOCK_GRANTED")
        (simp_all add: glnd_process_glnd_lck_req_orphan_def del: bind_Some_iff)
  qed
qed

lemma purge_run:
  assumes inv: "glnd_inv cb" and ri: "ress cb r = Some ri" and ref: "lcl_ref_cnt ri \<noteq> 0"
  shows "\<exists>cb'. glnd_resource_master_lock_purge_req E r loc cb = Some cb' \<and> keeps r cb cb'
     \<and> abs_rw cb' r = (if status ri = GLND_RESOURCE_ACTIVE_MASTER then rw_purge (abs_rw cb r)
                       else (abs_rw cb r)\<lparr>exo := False, pro := False\<rparr>)"
proof -
  let ?f = "\<lambda>ri. ri\<lparr>ex_orphaned := False, pr_orphaned := False\<rparr>"
  define c0 where "c0 = cb\<lparr>ress := (ress cb)(r \<mapsto> ?f ri)\<rparr>"
  define c1 where "c1 = emit (CKPT_RES (?f ri)) (c0\<lparr>out := out cb @ purge_notify loc ri\<rparr>)"
  have core: "core c1 = lists_core r ?f (core cb)"
    using ri by (simp add: c1_def c0_def core_upd_ress lists_core_def)
  have "keeps r (core cb) (lists_core r ?f (core cb))"
  proof (rule lists_core_keeps)
    show "glnd_inv (core cb)" "ress (core cb) r = Some (core_res ri)" using inv ri by simp_all
    show "distinct (res_lcks (?f (core_res ri)))"
      using glnd_wfD(1) [of cb r ri] inv ri by (simp add: glnd_inv_def res_lcks_def)
    show "\<forall>q \<in> set (res_lcks (?f (core_res ri))). owns (core cb) r q"
      using glnd_wfD(2) [of cb r ri] inv ri by (auto simp: glnd_inv_def res_lcks_def)
    show "\<forall>q \<in> set (grant_list (?f (core_res ri))). stat_of (core cb) q = Some SA_LCK_LOCK_GRANTED"
      using inv ri by (auto simp: glnd_inv_def granted_wf_def)
  qed (simp add: rsc_static_def)
  then have k: "keeps r cb c1" using core by (metis keeps_core)
  have "abs_rw c1 r = abs_rw (lists_core r ?f (core cb)) r" by (metis core abs_rw_core)
  then have a: "abs_rw c1 r = (abs_rw cb r)\<lparr>exo := False, pro := False\<rparr>" using ri by (simp add: abs_rw_Some)
  have r1: "ress c1 r = Some (?f ri)" by (simp add: c1_def c0_def)
  have "glnd_resource_master_lock_purge_req E r loc cb =
      (if status ri = GLND_RESOURCE_ACTIVE_MASTER
       then glnd_resource_master_lock_resync_grant_list E r c1 else Some c1)"
    using ri ref unfolding glnd_resource_master_lock_purge_req_def
    by (simp add: Let_def ckpt_res_def c1_def c0_def del: bind_Some_iff)
  then show ?thesis
    using resync_refine [OF keeps_inv [OF k] r1, of E] k a keeps_trans [OF k]
    by (auto simp: rw_purge_def)
qed

section \<open>A lock request from another node\<close>

lemma rw_free_fresh: "glnd_inv cb \<Longrightarrow> lcks cb p = None \<Longrightarrow> rw_free p (abs_rw cb r)"
  using glnd_wfD(3) [of cb r]
  by (fastforce simp: rw_free_def abs_rw_def glnd_inv_def res_lcks_def split: option.splits)

lemma check_status_run:
  assumes "glnd_inv cb" "ress cb r = Some ri"
  shows "\<exists>rc. glnd_process_check_master_and_non_master_status cb r = Some rc"
  using assms lists_live(1) [OF assms]
  by (simp add: glnd_process_check_master_and_non_master_status_def find_lck_run del: bind_Some_iff)

definition refused :: "SaLckLockStatusT option \<Rightarrow> bool" where
  "refused st \<longleftrightarrow> st = Some SA_LCK_LOCK_NOT_QUEUED \<or> st = Some SA_LCK_LOCK_ORPHANED"

lemma lck_req_done_run:
  assumes inv: "glnd_inv cb" and ri: "ress cb r = Some ri" and p: "owns cb r p"
  shows "\<exists>cb'. lck_req_done r p q ctxt cb = Some cb' \<and> keeps r cb cb'
     \<and> abs_rw cb' r = (if refused (stat_of cb p) then rw_remove p (abs_rw cb r) else abs_rw cb r)"
proof -
  obtain l where l: "lcks cb p = Some l" "res_info l = r" using p by (auto simp: owns_def split: option.splits)
  let ?st = "lockStatus (lock_info l)"
  let ?m = "\<lambda>cb. lck_rsp cb (resource_id ri) (q\<lparr>li_lockid := lockid (lock_info l)\<rparr>) ?st SA_AIS_OK"
  have st: "stat_of cb p = Some ?st" using l by (simp add: stat_of_def)
  show ?thesis
  proof (cases "refused (stat_of cb p)")
    case True
    then have r: "?st = SA_LCK_LOCK_NOT_QUEUED \<or> ?st = SA_LCK_LOCK_ORPHANED"
      by (simp add: refused_def st)
    have i: "glnd_inv (emit (?m cb) cb)" "ress (emit (?m cb) cb) r = Some ri" "owns (emit (?m cb) cb) r p"
      using sim_inv [OF sim_emit [OF inv]] ri p by (simp_all add: owns_def)
    obtain c2 where "glnd_resource_lock_req_delete r p (emit (?m cb) cb) = Some c2"
        "keeps r (emit (?m cb) cb) c2" "abs_rw c2 r = rw_remove p (abs_rw (emit (?m cb) cb) r)"
      using delete_refine [OF i] by blast
    then show ?thesis
      using True r l ri core_eq_abs [of "emit (?m cb) cb" cb]
        keeps_trans [OF keeps_frame [OF core_emit inv]]
      by (auto simp: lck_req_done_def Let_def simp del: bind_Some_iff)
  next
    case False
    then have r: "?st \<noteq> SA_LCK_LOCK_NOT_QUEUED" "?st \<noteq> SA_LCK_LOCK_ORPHANED"
      by (auto simp: refused_def st)
    define l1 where "l1 = l\<lparr>glnd_res_lock_mds_ctxt := ctxt\<rparr>"
    define c1 where "c1 = cb\<lparr>lcks := (lcks cb)(p \<mapsto> l1)\<rparr>"
    define c2 where "c2 = emit (CKPT_LCK_WRITE l1) c1"
    have core: "core c2 = core cb" using l by (simp add: c2_def c1_def l1_def)
    have run: "lck_req_done r p q ctxt cb
        = Some (if ?st = SA_LCK_LOCK_GRANTED then emit (?m c2) c2 else c2)"
      using r l ri by (simp add: lck_req_done_def Let_def lck_upd_def ckpt_lck_write_def c1_def c2_def
          l1_def del: bind_Some_iff)
    have "core (if ?st = SA_LCK_LOCK_GRANTED then emit (?m c2) c2 else c2) = core cb" using core by simp
    from run keeps_frame [OF this inv] core_eq_abs [OF this] False show ?thesis by auto
  qed
qed

lemma rw_request_refused:
  "refused (reported (snd (rw_request flags h s)) (Some SA_LCK_STATUS_UNSET))
   \<Longrightarrow> fst (rw_request flags h s) = s"
  by (auto simp: refused_def reported_def rw_request_def Let_def split: if_splits)

lemma master_request_run:
  assumes inv: "glnd_inv cb" and ri: "ress cb r = Some ri" and fresh: "lcks cb (e_ptr E) = None"
    and mode: "lock_type req = SA_LCK_EX_LOCK_MODE \<or> lock_type req = SA_LCK_PR_LOCK_MODE"
    and remote: "d \<noteq> glnd_mdest_id cb" and st: "lockStatus req = SA_LCK_STATUS_UNSET"
  shows "\<exists>c1 c2. glnd_resource_master_process_lock_req E r req d lcl lid cb = Some (c1, e_ptr E)
     \<and> lck_req_done r (e_ptr E) q ctxt c1 = Some c2 \<and> keeps r cb c2
     \<and> abs_rw c2 r = fst (rw_request (lockFlags req) (e_ptr E, lock_type req) (abs_rw cb r))"
proof -
  let ?p = "e_ptr E"
  let ?q = "rw_request (lockFlags req) (?p, lock_type req) (abs_rw cb r)"
  obtain c1 where c1: "glnd_resource_master_process_lock_req E r req d lcl lid cb = Some (c1, ?p)"
    "keeps r cb c1" "abs_rw c1 r = fst ?q" "stat_of c1 ?p = reported (snd ?q) (Some (lockStatus req))"
    "owns c1 r ?p"
    using process_lock_req_refine [OF inv ri fresh mode] remote by blast
  obtain r1 where r1: "ress c1 r = Some r1" using c1(2) ri same_static_ress unfolding keeps_def by blast
  obtain c2 where c2: "lck_req_done r ?p q ctxt c1 = Some c2" "keeps r c1 c2"
    "abs_rw c2 r = (if refused (stat_of c1 ?p) then rw_remove ?p (abs_rw c1 r) else abs_rw c1 r)"
    using lck_req_done_run [OF keeps_inv [OF c1(2)] r1 c1(5)] by blast
  have "abs_rw c2 r = fst ?q"
  proof (cases "refused (stat_of c1 ?p)")
    case True
    then have "fst ?q = abs_rw cb r" using rw_request_refused st by (simp add: c1(4))
    with c2(3) True c1(3) show ?thesis using rw_remove_free [OF rw_free_fresh [OF inv fresh]] by simp
  next
    case False
    with c2(3) c1(3) show ?thesis by simp
  qed
  with c1 c2 show ?thesis using keeps_trans by blast
qed

lemma lck_req_run:
  assumes inv: "glnd_inv cb" and fresh: "lcks cb (e_ptr E) = None"
    and mode: "li_lock_type q = SA_LCK_EX_LOCK_MODE \<or> li_lock_type q = SA_LCK_PR_LOCK_MODE"
    and remote: "li_glnd_mds_dest q \<noteq> glnd_mdest_id cb"
  shows "\<exists>cb' rc. glnd_process_glnd_lck_req E q ctxt cb = Some (cb', rc) \<and> sim cb cb'"
proof (cases "glnd_resource_node_find cb (li_resource_id q)")
  case None
  with inv show ?thesis by (simp add: glnd_process_glnd_lck_req_def)
next
  case (Some r)
  then obtain ri where ri: "ress cb r = Some ri" using node_find_live [OF inv] by blast
  obtain rc where rc: "glnd_process_check_master_and_non_master_status cb r = Some rc"
    using check_status_run [OF inv ri] by blast
  have req: "lock_type (lck_req_of q) = li_lock_type q" "lockStatus (lck_req_of q) = SA_LCK_STATUS_UNSET"
    by (simp_all add: lck_req_of_def lock_req_zero_def)
  obtain c1 c2 where c: "glnd_resource_master_process_lock_req E r (lck_req_of q) (li_glnd_mds_dest q)
      (li_lcl_resource_id q) (li_lcl_lockid q) cb = Some (c1, e_ptr E)"
    "lck_req_done r (e_ptr E) q ctxt c1 = Some c2" "keeps r cb c2"
    "abs_rw c2 r = fst (rw_request (lockFlags (lck_req_of q)) (e_ptr E, li_lock_type q) (abs_rw cb r))"
    using master_request_run [OF inv ri fresh, where req = "lck_req_of q" and d = "li_glnd_mds_dest q"
        and lcl = "li_lcl_resource_id q" and lid = "li_lcl_lockid q" and q = q and ctxt = ctxt] mode remote req
    by auto
  have "rw_step (abs_rw cb r) (abs_rw c2 r)"
    unfolding c(4) by (rule rw_step.request) (simp add: rw_free_fresh [OF inv fresh])
  then have "sim cb c2" using keeps_sim [OF c(3)] by blast
  with Some ri rc c(1,2) inv show ?thesis
    by (simp add: glnd_process_glnd_lck_req_def del: bind_Some_iff)
qed

section \<open>Another node goes down, restarts or comes back\<close>

lemma fold_grant_owns: "owns (fold (grant_core r) ps cb) = owns cb"
  by (simp add: fold_grant_core fold_status_simps)

lemma move_owns:
  "glnd_resource_master_move_pr_locks_to_grant_list E r cb = Some cb' \<Longrightarrow> owns cb' = owns cb"
  "glnd_resource_master_move_ex_locks_to_grant_list E r cb = Some cb' \<Longrightarrow> owns cb' = owns cb"
proof -
  assume run: "glnd_resource_master_move_pr_locks_to_grant_list E r cb = Some cb'"
  then obtain ri where ri: "ress cb r = Some ri"
    by (auto simp: glnd_resource_master_move_pr_locks_to_grant_list_def)
  have "owns (core cb') = owns (core cb)"
    unfolding move_pr_core [OF run ri] by (simp only: lists_core_simps fold_grant_owns)
  then show "owns cb' = owns cb" by simp
next
  assume run: "glnd_resource_master_move_ex_locks_to_grant_list E r cb = Some cb'"
  then obtain ri where ri: "ress cb r = Some ri"
    by (auto simp: glnd_resource_master_move_ex_locks_to_grant_list_def)
  show "owns cb' = owns cb"
  proof (cases "wait_exclusive_list ri = []")
    case True
    with run ri show ?thesis by (simp add: glnd_resource_master_move_ex_locks_to_grant_list_def)
  next
    case False
    have "owns (core cb') = owns (core cb)"
      unfolding move_ex_core [OF run ri False] by (simp only: status_core_simps lists_core_simps)
    then show ?thesis by simp
  qed
qed

lemma resync_owns:
  "glnd_resource_master_lock_resync_grant_list E r cb = Some cb' \<Longrightarrow> owns cb' = owns cb"
  unfolding glnd_resource_master_lock_resync_grant_list_def
  by (auto dest!: move_owns split: if_splits)

lemma delete_owns:
  assumes "glnd_resource_lock_req_delete r p cb = Some cb'" "q \<noteq> p"
  shows "owns cb' r' q = owns cb r' q"
proof -
  have "core cb' = del_core r p (core cb)" using delete_core [OF assms(1)] by (simp add: del_core_def)
  then have "owns (core cb') r' q = owns (core cb) r' q" using assms(2) by simp
  then show ?thesis by simp
qed

text \<open>One visit keeps the simulation and the other nodes of the resource.\<close>

definition visited :: "ptr \<Rightarrow> ptr \<Rightarrow> GLND_CB \<Rightarrow> GLND_CB \<Rightarrow> bool" where
  "visited r p cb cb' \<longleftrightarrow> sim cb cb' \<and> (\<forall>q. q \<noteq> p \<longrightarrow> owns cb' r q = owns cb r q)"

lemma visited_frame: "core cb' = core cb \<Longrightarrow> glnd_inv cb \<Longrightarrow> visited r p cb cb'"
  unfolding visited_def using sim_frame [of cb' cb] owns_frames(1) [of cb' cb] by simp

lemma lck_req_status_down:
  assumes inv: "glnd_inv cb" and ri: "ress cb r = Some ri" and p: "owns cb r p"
  shows "\<exists>cb'. glnd_process_non_master_lck_req_status E r dest GLND_DOWN_STATE p cb = Some cb'
              \<and> visited r p cb cb'"
proof -
  obtain l where l: "lcks cb p = Some l" using p by (auto simp: owns_def split: option.splits)
  show ?thesis
  proof (cases "lockStatus (lock_info l) = SA_LCK_LOCK_GRANTED")
    case True
    obtain c1 c2 where c: "glnd_resource_lock_req_delete r p cb = Some c1"
        "glnd_resource_master_lock_resync_grant_list E r c1 = Some c2" "keeps r cb c2"
        "abs_rw c2 r = rw_resync (rw_remove p (abs_rw cb r))"
      using delete_resync_run [OF inv ri p] by blast
    have "sim cb c2" by (intro keeps_sim [OF c(3)]) (simp add: c(4) rw_step.release r_into_rtranclp)
    moreover have "owns c2 r q = owns cb r q" if "q \<noteq> p" for q
      using resync_owns [OF c(2)] delete_owns [OF c(1) that] by simp
    ultimately show ?thesis using True l c
      by (simp add: glnd_process_non_master_lck_req_status_def visited_def del: bind_Some_iff)
  next
    case False
    then have "p \<notin> set (grant_list ri)"
      using inv ri l by (fastforce simp: glnd_inv_def granted_wf_def stat_of_def)
    then obtain c1 where c: "glnd_resource_lock_req_delete r p cb = Some c1" "sim cb c1"
      using delete_waiter_run [OF inv ri p] by blast
    moreover have "owns c1 r q = owns cb r q" if "q \<noteq> p" for q using delete_owns [OF c(1) that] .
    ultimately show ?thesis using False l
      by (simp add: glnd_process_non_master_lck_req_status_def visited_def del: bind_Some_iff)
  qed
qed

lemma lck_req_status_up:
  assumes inv: "glnd_inv cb" and ri: "ress cb r = Some ri" and p: "owns cb r p" and st: "st \<noteq> GLND_DOWN_STATE"
  shows "\<exists>cb'. glnd_process_non_master_lck_req_status E r dest st p cb = Some cb' \<and> visited r p cb cb'"
proof -
  obtain l where l: "lcks cb p = Some l" "res_info l = r" using p by (auto simp: owns_def split: option.splits)
  define l1 where "l1 = l\<lparr>req_mdest_id := dest, non_master_status :=
      (if st = GLND_OPERATIONAL_STATE then GLND_NODE_STATUS_UNSET else st)\<rparr>"
  define c1 where "c1 = cb\<lparr>lcks := (lcks cb)(p \<mapsto> l1)\<rparr>"
  have core: "core c1 = core cb" using l by (simp add: c1_def l1_def)
  have c1: "lck_upd p (\<lambda>l. l\<lparr>req_mdest_id := dest, non_master_status :=
      (if st = GLND_OPERATIONAL_STATE then GLND_NODE_STATUS_UNSET else st)\<rparr>) cb = Some c1"
      "lcks c1 p = Some l1" "ress c1 = ress cb" "res_info l1 = r"
    using l by (simp_all add: lck_upd_def c1_def l1_def)
  obtain c2 where c2: "glnd_resource_master_grant_lock_send_notification E r p c1 = Some c2"
    using notification_total [of c1 p r E] c1 ri by auto
  have "core c2 = core cb" using notification_core [OF c2] core by simp
  moreover have "core (emit (CKPT_LCK_OVERWRITE l1) c1) = core cb" using core by simp
  ultimately show ?thesis
    using c1 c2 st ri visited_frame [OF _ inv] unfolding glnd_process_non_master_lck_req_status_def
    by (auto simp: ckpt_lck_overwrite_def simp del: bind_Some_iff)
qed

lemma visit_run:
  assumes inv: "glnd_inv cb" and ri: "ress cb r = Some ri" and p: "owns cb r p"
  shows "\<exists>cb'. non_master_visit E r dest st g p cb = Some cb' \<and> visited r p cb cb'"
proof -
  obtain l where l: "lcks cb p = Some l" using p by (auto simp: owns_def split: option.splits)
  have status: "\<exists>cb'. glnd_process_non_master_lck_req_status E r dest st p c = Some cb' \<and> visited r p cb cb'"
    if c: "core c = core cb" for c
  proof -
    have i: "glnd_inv c" using keeps_inv [OF keeps_frame [OF c inv]] .
    obtain r1 where r1: "ress c r = Some r1" using core_live(2) [OF c, of r] ri by auto
    have o: "owns c r p" using owns_frames(1) [OF c] p by simp
    obtain cb' where "glnd_process_non_master_lck_req_status E r dest st p c = Some cb'" "visited r p c cb'"
      using lck_req_status_down [OF i r1 o, of E dest] lck_req_status_up [OF i r1 o, of st E dest] by blast
    then show ?thesis
      using sim_trans [OF sim_frame [OF c inv]] owns_frames(1) [OF c] by (auto simp: visited_def)
  qed
  show ?thesis
    using l ri status visited_frame [OF refl inv]
    by (auto simp: non_master_visit_def Let_def simp del: bind_Some_iff)
qed

lemma visits_run:
  assumes "glnd_inv cb" "ress cb r = Some ri" "distinct ps" "\<forall>p \<in> set ps. owns cb r p"
  shows "\<exists>cb'. for_each (non_master_visit E r dest st g) ps cb = Some cb' \<and> sim cb cb'"
  using assms
proof (induction ps arbitrary: cb ri)
  case (Cons p ps)
  obtain c1 where c1: "non_master_visit E r dest st g p cb = Some c1" "visited r p cb c1"
    using visit_run [OF Cons.prems(1,2), of p E dest st g] Cons.prems(4) by auto
  then have s1: "sim cb c1" by (simp add: visited_def)
  obtain r1 where r1: "ress c1 r = Some r1"
    using s1 Cons.prems(2) same_static_ress unfolding sim_def by blast
  have "\<forall>q \<in> set ps. owns c1 r q" using c1(2) Cons.prems(3,4) by (auto simp: visited_def)
  from Cons.IH [OF sim_inv [OF s1] r1 _ this] Cons.prems(3) c1(1) show ?case
    using sim_trans [OF s1] by auto
qed simp

lemma visit_list_run:
  assumes inv: "glnd_inv cb" and ri: "ress cb r = Some ri" and ps: "set ps \<subseteq> set (res_lcks ri)" "distinct ps"
  shows "\<exists>cb'. for_each (non_master_visit E r dest st g) ps cb = Some cb' \<and> sim cb cb'"
proof -
  have "\<forall>p \<in> set ps. owns cb r p"
    using glnd_wfD(2) [of cb r ri] inv ri ps(1) by (auto simp: glnd_inv_def)
  from visits_run [OF inv ri ps(2) this] show ?thesis by blast
qed

lemma res_lcks_parts:
  assumes "glnd_inv cb" "ress cb r = Some ri"
  shows "distinct (grant_list ri)" "distinct (wait_exclusive_list ri)" "distinct (wait_read_list ri)"
  using glnd_wfD(1) [of cb r ri] assms by (auto simp: glnd_inv_def res_lcks_def)

lemma non_master_rsc_run:
  assumes inv: "glnd_inv cb" and ri: "ress cb r = Some ri"
  shows "\<exists>cb'. non_master_rsc E dest st r cb = Some cb' \<and> sim cb cb'"
proof (cases "status ri = GLND_RESOURCE_ACTIVE_MASTER")
  case False
  with inv ri show ?thesis by (simp add: non_master_rsc_def del: bind_Some_iff)
next
  case True
  obtain c1 where 1: "for_each (non_master_visit E r dest st True) (grant_list ri) cb = Some c1" "sim cb c1"
    using visit_list_run [OF inv ri _ res_lcks_parts(1) [OF inv ri], of E dest st True] by (auto simp: res_lcks_def)
  obtain r1 where r1: "ress c1 r = Some r1" using 1(2) ri same_static_ress unfolding sim_def by blast
  obtain c2 where 2: "for_each (non_master_visit E r dest st False) (wait_exclusive_list r1) c1 = Some c2" "sim c1 c2"
    using visit_list_run [OF sim_inv [OF 1(2)] r1 _ res_lcks_parts(2) [OF sim_inv [OF 1(2)] r1], of E dest st False]
    by (auto simp: res_lcks_def)
  obtain r2 where r2: "ress c2 r = Some r2" using 2(2) r1 same_static_ress unfolding sim_def by blast
  obtain c3 where 3: "for_each (non_master_visit E r dest st False) (wait_read_list r2) c2 = Some c3" "sim c2 c3"
    using visit_list_run [OF sim_inv [OF 2(2)] r2 _ res_lcks_parts(3) [OF sim_inv [OF 2(2)] r2], of E dest st False]
    by (auto simp: res_lcks_def)
  from True ri 1 r1 2 r2 3 show ?thesis
    using sim_trans [OF sim_trans [OF 1(2) 2(2)] 3(2)]
    by (simp add: non_master_rsc_def del: bind_Some_iff)
qed

lemma non_master_rscs_run:
  assumes "glnd_inv cb" "\<forall>r \<in> set rs. ress cb r \<noteq> None"
  shows "\<exists>cb'. for_each (non_master_rsc E dest st) rs cb = Some cb' \<and> sim cb cb'"
  using assms
proof (induction rs arbitrary: cb)
  case (Cons r rs)
  then obtain ri where ri: "ress cb r = Some ri" by auto
  obtain c1 where c1: "non_master_rsc E dest st r cb = Some c1" "sim cb c1"
    using non_master_rsc_run [OF Cons.prems(1) ri] by blast
  have "ress c1 x \<noteq> None" if x: "x \<in> set rs" for x
  proof -
    obtain xi where "ress cb x = Some xi" using Cons.prems(2) x by fastforce
    then show ?thesis using c1(2) same_static_ress unfolding sim_def by blast
  qed
  with Cons.IH [OF sim_inv [OF c1(2)]] c1 show ?case using sim_trans [OF c1(2)] by auto
qed simp

lemma non_master_status_run:
  assumes inv: "glnd_inv cb"
  shows "\<exists>cb'. glnd_process_gld_non_master_status E dest st cb = Some (cb', SUCCESS) \<and> sim cb cb'"
proof -
  have "\<forall>r \<in> set (map snd (glnd_res_tree cb)). ress cb r \<noteq> None"
    using inv by (fastforce simp: glnd_inv_def glnd_wf_def tree_wf_def split: option.splits)
  then show ?thesis
    using non_master_rscs_run [OF inv] by (fastforce simp: glnd_process_gld_non_master_status_def)
qed

section \<open>Expiry of the timer of a waiting request\<close>

lemma find_and_del_clients:
  assumes inv: "glnd_inv cb"
    and run: "glnd_client_node_resource_lock_req_find_and_del cl rid lid lcl cb = Some (cb', rc)"
  shows "keeps r cb cb'" and "\<And>r'. abs_rw cb' r' = abs_rw cb r'" and "ress cb' = ress cb" "lcks cb' = lcks cb"
proof -
  have upd: "map rsc_info (es[i := (es ! i)\<lparr>lck_list := ps\<rparr>]) = map rsc_info es" for es i ps
    by (cases "i < length es") (simp_all add: map_update list_update_same_conv list_update_beyond)
  have "cb' = cb \<or> (\<exists>c ci es. clients cb c = Some ci \<and> map rsc_info es = map rsc_info (res_list ci)
          \<and> cb' = cb\<lparr>clients := (clients cb)(c \<mapsto> ci\<lparr>res_list := es\<rparr>)\<rparr>)"
  proof (cases cl)
    case None
    with run show ?thesis by (simp add: glnd_client_node_resource_lock_req_find_and_del_def)
  next
    case (Some c)
    with run obtain ci io where ci: "clients cb c = Some ci" and io: "find_res_entry cb rid (res_list ci) = Some io"
      by (auto simp: glnd_client_node_resource_lock_req_find_and_del_def)
    show ?thesis
    proof (cases io)
      case None
      with run Some ci io show ?thesis by (simp add: glnd_client_node_resource_lock_req_find_and_del_def)
    next
      case i: (Some i)
      with run Some ci io obtain po where po: "po = None \<longrightarrow> cb' = cb"
        "\<And>p. po = Some p \<Longrightarrow> glnd_client_node_resource_lock_req_del cl i (Some p) cb = Some (cb', rc)"
        by (auto simp: glnd_client_node_resource_lock_req_find_and_del_def split: option.splits)
      show ?thesis
      proof (cases po)
        case None
        with po show ?thesis by simp
      next
        case p: (Some p)
        have "cb' = cb\<lparr>clients := (clients cb)(c \<mapsto> ci\<lparr>res_list := (res_list ci)[i := (res_list ci ! i)
            \<lparr>lck_list := remove1 p (lck_list (res_list ci ! i))\<rparr>]\<rparr>)\<rparr>"
          using po(2) [OF p] Some ci
          by (auto simp: glnd_client_node_resource_lock_req_del_def split: if_splits)
        with ci upd show ?thesis by blast
      qed
    qed
  qed
  then show "keeps r cb cb'" "\<And>r'. abs_rw cb' r' = abs_rw cb r'" "ress cb' = ress cb" "lcks cb' = lcks cb"
    using keeps_refl [OF inv] clients_upd_keeps [OF inv] by auto
qed

lemma timeout_sim:
  assumes inv: "glnd_inv cb" and wait: "stat_of cb p \<noteq> Some SA_LCK_LOCK_GRANTED"
    and run: "glnd_process_tmr_resource_lock_req_timeout (Some p) cb = Some (cb', rc)"
  shows "sim cb cb'"
proof -
  obtain c1 l ri c2 rc2 where 1: "set_lck_status SA_LCK_STATUS_UNSET p cb = Some c1"
    and l: "lcks c1 p = Some l" and ri: "ress c1 (res_info l) = Some ri"
    and 2: "glnd_client_node_resource_lock_req_find_and_del
        (glnd_client_node_find (emit (grant_gla_evt SA_AIS_ERR_TIMEOUT l) c1) (handleId (lock_info l)))
        (resource_id ri) (lockid (lock_info l)) (lcl_resource_id l)
        (emit (grant_gla_evt SA_AIS_ERR_TIMEOUT l) c1) = Some (c2, rc2)"
    and 3: "glnd_resource_lock_req_delete (res_info l) p c2 = Some cb'"
    using run by (auto simp: glnd_process_tmr_resource_lock_req_timeout_def Let_def)
  let ?r = "res_info l" and ?c = "emit (grant_gla_evt SA_AIS_ERR_TIMEOUT l) c1"
  have off: "p \<notin> set (grant_list x)" if "ress cb r = Some x" for r x
    using inv wait that by (auto simp: glnd_inv_def granted_wf_def)
  have core1: "core c1 = status_core SA_LCK_STATUS_UNSET p (core cb)" by (rule set_lck_status_core [OF 1])
  have "keeps ?r (core cb) (status_core SA_LCK_STATUS_UNSET p (core cb))"
    using inv off by (intro status_core_keeps) auto
  then have k1: "keeps ?r cb c1" using core1 by (metis keeps_core)
  have a1: "abs_rw c1 r = abs_rw cb r" for r by (metis core1 abs_rw_core status_core_abs)
  have kc: "keeps ?r cb ?c" using keeps_then_frame [OF k1 core_emit] .
  note f = find_and_del_clients [OF keeps_inv [OF kc] 2]
  have k2: "keeps ?r cb c2" using keeps_trans [OF kc f(1)] .
  have r1: "ress c1 = ress cb" using 1 by (auto simp: set_lck_status_def lck_upd_def)
  have r2: "ress c2 ?r = Some ri" and o2: "owns c2 ?r p" and off2: "p \<notin> set (grant_list ri)"
    using f(3,4) ri l r1 off [of ?r ri] by (auto simp: owns_def)
  obtain c3 where "glnd_resource_lock_req_delete ?r p c2 = Some c3" "sim c2 c3"
    using delete_waiter_run [OF keeps_inv [OF k2] r2 o2 off2] by blast
  moreover have "sim cb c2"
    using keeps_sim [OF k2] f(2) [of ?r] a1 core_eq_abs [of ?c c1] by simp
  ultimately show ?thesis using 3 sim_trans by auto
qed

section \<open>The master of a resource as a state machine\<close>

text \<open>
  One step is one event handled to its end. A lock request comes from another node, with a
  fresh node from \<open>malloc\<close> and one of the two lock modes; a purge is for a resource this node
  masters and has open; a timer belongs to a request that has not been granted.
\<close>

inductive glnd_step :: "GLND_CB \<Rightarrow> GLND_CB \<Rightarrow> bool" where
  lck_req: "\<lbrakk> glnd_process_glnd_lck_req E q ctxt cb = Some (cb', rc); lcks cb (e_ptr E) = None;
    li_lock_type q \<in> {SA_LCK_EX_LOCK_MODE, SA_LCK_PR_LOCK_MODE};
    li_glnd_mds_dest q \<noteq> glnd_mdest_id cb \<rbrakk> \<Longrightarrow> glnd_step cb cb'"
| unlck_req: "glnd_process_glnd_unlck_req E q cb = Some (cb', rc) \<Longrightarrow> glnd_step cb cb'"
| cancel: "glnd_process_glnd_lck_req_cancel E q cb = Some (cb', rc) \<Longrightarrow> glnd_step cb cb'"
| orphan: "glnd_process_glnd_lck_req_orphan E q cb = Some (cb', rc) \<Longrightarrow> glnd_step cb cb'"
| purge: "\<lbrakk> glnd_process_glnd_lck_purge E rid cb = Some (cb', rc);
    glnd_resource_node_find cb rid = Some r; ress cb r = Some ri; lcl_ref_cnt ri \<noteq> 0;
    status ri = GLND_RESOURCE_ACTIVE_MASTER \<rbrakk> \<Longrightarrow> glnd_step cb cb'"
| node_status: "glnd_process_gld_non_master_status E dest st cb = Some (cb', rc) \<Longrightarrow> glnd_step cb cb'"
| timeout: "\<lbrakk> glnd_process_tmr_resource_lock_req_timeout (Some p) cb = Some (cb', rc);
    stat_of cb p \<noteq> Some SA_LCK_LOCK_GRANTED \<rbrakk> \<Longrightarrow> glnd_step cb cb'"

inductive_cases glnd_stepE: "glnd_step cb cb'"

lemma glnd_step_sim: "glnd_step cb cb' \<Longrightarrow> glnd_inv cb \<Longrightarrow> sim cb cb'"
proof (induction rule: glnd_step.induct)
  case (lck_req E q ctxt cb cb' rc)
  then show ?case using lck_req_run [of cb E q ctxt] by auto
next
  case (unlck_req E q cb cb' rc)
  then show ?case using unlck_req_run [of cb E q] by auto
next
  case (cancel E q cb cb' rc)
  then show ?case using cancel_run [of cb E q] by auto
next
  case (orphan E q cb cb' rc)
  then show ?case using orphan_run [of cb E q] by auto
next
  case (purge E rid cb cb' rc r ri)
  then obtain c where c: "glnd_resource_master_lock_purge_req E r True cb = Some c" "keeps r cb c"
      "abs_rw c r = rw_purge (abs_rw cb r)"
    using purge_run [of cb r ri E True] by auto
  then have "sim cb c" using keeps_sim rw_step.purge by (metis r_into_rtranclp)
  with purge c show ?case by (simp add: glnd_process_glnd_lck_purge_def)
next
  case (node_status E dest st cb cb' rc)
  then show ?case using non_master_status_run [of cb E dest st] by auto
next
  case (timeout p cb cb' rc)
  then show ?case by (blast intro: timeout_sim)
qed

interpretation glnd_rw: rw_impl glnd_inv abs_rw glnd_step
  using glnd_step_sim by unfold_locales (auto simp: sim_def)

end
