(* ===== verification/Glnd_Election.thy ===== *)
theory Glnd_Election
  imports Glnd_Evt_Refine "HOL-Library.Multiset"
begin

text \<open>
  Change of mastership: a node that becomes the master of a resource moves its own requests to
  the lists of the master, and takes over the requests other nodes resend. The lemmas show that
  no request is lost or duplicated and where each one ends.
\<close>

section \<open>The requests of the new master\<close>

definition place :: "GLND_CB \<Rightarrow> ptr \<Rightarrow> GLND_RESOURCE_INFO \<Rightarrow> GLND_RESOURCE_INFO" where
  "place cb m ri =
     (if stat_of cb m = Some SA_LCK_LOCK_GRANTED then ri\<lparr>grant_list := m # grant_list ri\<rparr>
      else if mode_of cb m = SA_LCK_EX_LOCK_MODE
      then ri\<lparr>wait_exclusive_list := m # wait_exclusive_list ri\<rparr>
      else ri\<lparr>wait_read_list := m # wait_read_list ri\<rparr>)"

lemma place_core [simp]: "core_res (place cb m ri) = place cb m (core_res ri)"
  by (simp add: place_def)

lemma convert_tmr_run:
  assumes "lcks cb m \<noteq> None" "ress cb r \<noteq> None"
  shows "\<exists>cb' rem'. convert_tmr E m rem cb = Some (cb', rem') \<and> core cb' = core cb"
proof -
  obtain l where l: "lcks cb m = Some l" using assms by blast
  obtain c1 where c1: "lck_stop_tmr m cb = Some c1"
    using steady_total [OF steady_base(3) assms] by blast
  note k1 = lck_stop_tmr_core [OF c1]
  have p1: "lcks c1 m \<noteq> None" using core_live(1) [OF k1] assms(1) by simp
  obtain r1 where r1: "ress c1 r = Some r1" using core_live(2) [OF k1, of r] assms(2) by auto
  define t where "t = (case e_remaining E m of Some t \<Rightarrow> t | None \<Rightarrow> rem)"
  obtain c2 where c2: "lck_start_tmr E m GLND_TMR_RES_LOCK_REQ_TIMEOUT (t * 100000) c1 = Some c2"
      "core c2 = core c1"
    using tmr_run [OF r1 p1, of True E GLND_TMR_RES_LOCK_REQ_TIMEOUT "t * 100000"] by auto
  show ?thesis unfolding convert_tmr_def Let_def t_def [symmetric]
    using l c1 k1 c2 by (simp del: bind_Some_iff)
qed

lemma convert_one_run:
  assumes l: "lcks cb m = Some l" and ri: "ress cb r = Some ri"
  shows "\<exists>cb' rem'. convert_one E r m (cb, rem) = Some (cb', rem')
     \<and> core cb' = lists_core r (place cb m) (core cb)"
proof -
  define c1 where "c1 = cb\<lparr>lcks := (lcks cb)(m \<mapsto> l\<lparr>req_mdest_id := glnd_mdest_id cb\<rparr>)\<rparr>"
  have u: "lck_upd m (\<lambda>l. l\<lparr>req_mdest_id := glnd_mdest_id cb\<rparr>) cb = Some c1"
    using l by (simp add: lck_upd_def c1_def)
  have k1: "core c1 = core cb" using l by (simp add: c1_def)
  obtain c2 rem' where c2: "convert_tmr E m rem c1 = Some (c2, rem')" "core c2 = core c1"
    using convert_tmr_run [of c1 m r E rem] l ri by (auto simp: c1_def)
  have k2: "core c2 = core cb" using c2(2) k1 by simp
  obtain l2 where l2: "lcks c2 m = Some l2" using core_live(1) [OF k2, of m] l by auto
  obtain r2 where r2: "ress c2 r = Some r2" using core_live(2) [OF k2, of r] ri by auto
  have st: "stat_of cb m = Some (lockStatus (lock_info l2))" "mode_of cb m = lock_type (lock_info l2)"
  proof -
    have "stat_of c2 m = Some (lockStatus (lock_info l2))" "mode_of c2 m = lock_type (lock_info l2)"
      using l2 by (simp_all add: stat_of_def mode_of_def)
    moreover have "mode_of c2 = mode_of cb" by (metis k2 mode_of_core)
    ultimately show "stat_of cb m = Some (lockStatus (lock_info l2))" "mode_of cb m = lock_type (lock_info l2)"
      using core_eq_stat [OF k2] by simp_all
  qed
  let ?c3 = "(if lockStatus (lock_info l2) = SA_LCK_LOCK_GRANTED
           then do {
             cb \<leftarrow> res_upd r (\<lambda>ri. ri\<lparr>grant_list := m # grant_list ri\<rparr>) c2;
             if flag_set (lockFlags (lock_info l2)) SA_LCK_LOCK_ORPHAN
             then glnd_resource_lock_req_set_orphan r (lock_type (lock_info l2)) cb
             else Some cb }
           else if lock_type (lock_info l2) = SA_LCK_EX_LOCK_MODE
           then res_upd r (\<lambda>ri. ri\<lparr>wait_exclusive_list := m # wait_exclusive_list ri\<rparr>) c2
           else res_upd r (\<lambda>ri. ri\<lparr>wait_read_list := m # wait_read_list ri\<rparr>) c2)"
  have "\<exists>c3. ?c3 = Some c3 \<and> core c3 = lists_core r (place cb m) (core cb)"
    using r2 st k2 [symmetric]
    by (auto simp: res_upd_def place_def glnd_resource_lock_req_set_orphan_def lists_core_def core_upd_ress
        simp del: bind_Some_iff)
  then obtain c3 where c3: "?c3 = Some c3" "core c3 = lists_core r (place cb m) (core cb)" by blast
  have "convert_one E r m (cb, rem) = Some (c3, rem')"
    unfolding convert_one_def Let_def prod.case u Option.bind.simps c2(1) l2 c3(1) by simp
  with c3(2) show ?thesis by blast
qed

lemma lists_core_id: "lists_core r (\<lambda>ri. ri) cb = cb"
  by (simp add: lists_core_def option.map_ident)

lemma place_cong: "stat_of c m = stat_of cb m \<Longrightarrow> mode_of c m = mode_of cb m \<Longrightarrow> place c m = place cb m"
  by (simp add: place_def fun_eq_iff)

lemma convert_all_run:
  assumes "\<forall>m \<in> set ms. lcks cb m \<noteq> None" "ress cb r \<noteq> None"
  shows "\<exists>cb' rem'. for_each (convert_one E r) ms (cb, rem) = Some (cb', rem')
     \<and> core cb' = lists_core r (fold (place cb) ms) (core cb)"
  using assms
proof (induction ms arbitrary: cb rem)
  case Nil
  then show ?case by (simp add: lists_core_id)
next
  case (Cons m ms)
  obtain l ri where l: "lcks cb m = Some l" and ri: "ress cb r = Some ri" using Cons.prems by auto
  obtain c1 rem1 where 1: "convert_one E r m (cb, rem) = Some (c1, rem1)"
    "core c1 = lists_core r (place cb m) (core cb)" using convert_one_run [OF l ri] by blast
  have so: "stat_of (core c1) = stat_of (core cb)" "mode_of (core c1) = mode_of (core cb)"
    unfolding 1(2) by (simp_all add: stat_of_def fun_eq_iff option.map_comp comp_def)
  have pl: "place c1 = place cb" using so by (intro ext) (simp add: place_def)
  have "lcks (core c1) q = lcks (core cb) q" for q unfolding 1(2) by simp
  then have "\<forall>q \<in> set ms. lcks c1 q \<noteq> None"
    using Cons.prems(1) by (metis core_sel(1) list.set_intros(2) map_option_is_None)
  moreover have "ress (core c1) r \<noteq> None" unfolding 1(2) using ri by simp
  then have "ress c1 r \<noteq> None" by simp
  ultimately obtain c2 rem2 where 2: "for_each (convert_one E r) ms (c1, rem1) = Some (c2, rem2)"
    "core c2 = lists_core r (fold (place c1) ms) (core c1)" using Cons.IH [of c1 rem1] by blast
  have "core c2 = lists_core r (fold (place cb) (m # ms)) (core cb)"
    using 2(2) 1(2) pl by (simp add: lists_lists comp_def)
  with 1(1) 2(1) show ?case by (auto simp: comp_def)
qed

lemma fold_place_lists:
  "mset (grant_list (fold (place cb) ms ri) @ wait_exclusive_list (fold (place cb) ms ri)
         @ wait_read_list (fold (place cb) ms ri))
   = mset (grant_list ri @ wait_exclusive_list ri @ wait_read_list ri) + mset ms"
  "set (grant_list (fold (place cb) ms ri))
   = set (grant_list ri) \<union> {m \<in> set ms. stat_of cb m = Some SA_LCK_LOCK_GRANTED}"
  by (induction ms arbitrary: ri) (auto simp: place_def)

lemma convert_run:
  assumes inv: "glnd_inv cb" and ri: "ress cb r = Some ri"
  shows "\<exists>cb' ri'. glnd_resource_convert_nonmaster_to_master E r cb = Some cb' \<and> ress cb' r = Some ri'
     \<and> lcl_lck_req_info ri' = [] \<and> mset (res_lcks ri') = mset (res_lcks ri)
     \<and> set (grant_list ri') = set (grant_list ri)
         \<union> {p \<in> set (lcl_lck_req_info ri). stat_of cb p = Some SA_LCK_LOCK_GRANTED}"
proof -
  let ?ms = "lcl_lck_req_info ri"
  have live: "\<forall>m \<in> set ?ms. lcks cb m \<noteq> None" by (rule lists_live(4) [OF inv ri])
  obtain c1 rem where 1: "for_each (convert_one E r) ?ms (cb, 0) = Some (c1, rem)"
    and k1: "core c1 = lists_core r (fold (place cb) ?ms) (core cb)"
    using convert_all_run [OF live, of r E 0] ri by auto
  have "ress (core c1) r = Some (fold (place cb) ?ms (core_res ri))" unfolding k1 using ri by simp
  then obtain r1 where r1: "ress c1 r = Some r1" "core_res r1 = fold (place cb) ?ms (core_res ri)" by auto
  define r2 where "r2 = r1\<lparr>lcl_lck_req_info := []\<rparr>"
  have run: "glnd_resource_convert_nonmaster_to_master E r cb = Some (c1\<lparr>ress := (ress c1)(r \<mapsto> r2)\<rparr>)"
    unfolding glnd_resource_convert_nonmaster_to_master_def
    using ri 1 r1 by (simp add: res_upd_def r2_def del: bind_Some_iff)
  have lists: "grant_list r2 = grant_list (fold (place cb) ?ms (core_res ri))"
      "wait_exclusive_list r2 = wait_exclusive_list (fold (place cb) ?ms (core_res ri))"
      "wait_read_list r2 = wait_read_list (fold (place cb) ?ms (core_res ri))"
    using r1(2) [symmetric] by (simp_all add: r2_def)
  have lcl: "lcl_lck_req_info r2 = []" by (simp add: r2_def)
  have "mset (res_lcks r2) = mset (res_lcks ri)"
    using fold_place_lists(1) [of cb ?ms "core_res ri"] by (simp add: res_lcks_def lists lcl ac_simps)
  moreover have "set (grant_list r2) = set (grant_list ri) \<union> {p \<in> set ?ms. stat_of cb p = Some SA_LCK_LOCK_GRANTED}"
    using fold_place_lists(2) [of cb ?ms "core_res ri"] by (simp add: lists)
  ultimately show ?thesis using run by (intro exI [of _ "c1\<lparr>ress := (ress c1)(r \<mapsto> r2)\<rparr>"] exI [of _ r2])
      (simp add: r2_def)
qed

end
