(* ===== verification/Glnd_Props.thy ===== *)
theory Glnd_Props
  imports Glnd_Evt_Refine Glnd_Election
begin

text \<open>
  What the lock node director guarantees, over the definitions of its code: the properties of
  the master of a resource and of its event handlers, each with an application at a concrete
  control block.
\<close>

section \<open>A concrete control block\<close>

text \<open>
  Node 1 masters resource 7 (at address 16). An exclusive lock of node 2 is granted, an
  exclusive and a protected-read request of the node \<open>d\<close> wait.
\<close>

definition demo_lck :: "u64 \<Rightarrow> SaLckLockModeT \<Rightarrow> SaLckLockStatusT \<Rightarrow> MDS_DEST \<Rightarrow> GLND_RES_LOCK_LIST_INFO"
where
  "demo_lck lid m st d = lck_zero\<lparr>lck_info_hdl_id := ucast lid, lock_info := lock_req_zero
     \<lparr>lockid := lid, lcl_lockid := lid, handleId := 9, lock_type := m, lockStatus := st\<rparr>,
     req_mdest_id := d, lcl_resource_id := 1, res_info := 16\<rparr>"

definition demo_res :: "ptr list \<Rightarrow> ptr list \<Rightarrow> ptr list \<Rightarrow> GLND_RESOURCE_INFO" where
  "demo_res gs es rs = \<lparr>resource_id = 7, resource_name = \<lparr>name_length = 1, name_value = [65]\<rparr>,
     lcl_ref_cnt = 1, master_mds_dest = 0x100000001, master_status = GLND_OPERATIONAL_STATE,
     grant_list = gs, wait_exclusive_list = es, wait_read_list = rs, pr_orphan_req_count = 0,
     ex_orphan_req_count = 0, pr_orphaned = False, ex_orphaned = False, lcl_lck_req_info = [],
     status = GLND_RESOURCE_ACTIVE_MASTER\<rparr>"

definition demo_cb :: "MDS_DEST \<Rightarrow> GLND_CB" where
  "demo_cb d = \<lparr>glnd_mdest_id = 0x100000001, cb_hdl_id = 1, node_state = GLND_OPERATIONAL_STATE,
     gld_card_up = True, isClusterMember = True, numLocks = 3, glnd_client_tree = [],
     glnd_res_tree = [(key32 7, 16)], evt_bckup_q = [],
     lcks = [32 \<mapsto> demo_lck 32 SA_LCK_EX_LOCK_MODE SA_LCK_LOCK_GRANTED 0x200000001,
             48 \<mapsto> demo_lck 48 SA_LCK_EX_LOCK_MODE SA_LCK_STATUS_UNSET d,
             64 \<mapsto> demo_lck 64 SA_LCK_PR_LOCK_MODE SA_LCK_STATUS_UNSET d],
     ress = [16 \<mapsto> demo_res [32] [48] [64]], clients = Map.empty, out = []\<rparr>"

definition demo_env :: glnd_env where
  "demo_env = \<lparr>e_ptr = 80, e_hdl = 5, e_tmr = 6, e_glnd_up = (\<lambda>_. True), e_remaining = (\<lambda>_. None)\<rparr>"

definition demo_unlock :: GLSV_EVT_GLND_LCK_INFO where
  "demo_unlock = lck_evt_zero\<lparr>li_resource_id := 7, li_lcl_resource_id := 1, li_client_handle_id := 9,
     li_glnd_mds_dest := 0x200000001, li_lockid := 32, li_lcl_lockid := 32\<rparr>"

lemma demo_inv: "glnd_inv (demo_cb d)"
proof -
  have "lists_wf (demo_cb d)"
    by (auto simp: lists_wf_def demo_cb_def demo_res_def demo_lck_def res_lcks_def owns_def split: if_splits)
  moreover have "clients_wf (demo_cb d)" by (simp add: clients_wf_def demo_cb_def)
  moreover have "tree_wf (demo_cb d)" by (simp add: tree_wf_def tbl_wf_def demo_cb_def demo_res_def)
  moreover have "granted_wf (demo_cb d)"
    by (auto simp: granted_wf_def demo_cb_def demo_res_def demo_lck_def stat_of_def split: if_splits)
  moreover have "count_wf (demo_cb d)" by (simp add: count_wf_def demo_cb_def)
  ultimately show ?thesis by (simp add: glnd_inv_def glnd_wf_def)
qed

lemma demo_abs:
  "abs_rw (demo_cb d) 16 = \<lparr>holders = [(32, SA_LCK_EX_LOCK_MODE)], exq = [(48, SA_LCK_EX_LOCK_MODE)],
     rdq = [(64, SA_LCK_PR_LOCK_MODE)], exo = False, pro = False\<rparr>"
  by (simp add: abs_rw_def demo_cb_def demo_res_def demo_lck_def mode_of_def)

lemma demo_rw_inv: "rw_inv (abs_rw (demo_cb d) 16)"
  by (simp add: demo_abs rw_inv_def rw_excl_def no_ex_def)

lemma demo_settled: "rw_settled (abs_rw (demo_cb d) 16)"
  by (simp add: demo_abs rw_settled_def no_ex_def)

lemma demo_find:
  "glnd_resource_node_find (demo_cb d) 7 = Some 16"
  "ress (demo_cb d) 16 = Some (demo_res [32] [48] [64])"
  by (simp_all add: glnd_resource_node_find_def demo_cb_def tbl_get_def)

lemma demo_grant_find:
  "glnd_resource_grant_lock_req_find (demo_cb d) 16 (unlck_req_of demo_unlock) 0x200000001 1 = Some (Some 32)"
  by (simp add: glnd_resource_grant_lock_req_find_def find_lck_def demo_cb_def demo_res_def demo_lck_def
      same_lcl_lock_def unlck_req_of_def demo_unlock_def lck_evt_zero_def lock_req_zero_def lck_zero_def
      m_GLND_RESOURCE_NODE_LCK_INFO_FILL_def del: bind_Some_iff)

lemma demo_unlock_run:
  "\<exists>cb'. glnd_process_glnd_unlck_req demo_env demo_unlock (demo_cb d) = Some (cb', SUCCESS)
     \<and> keeps 16 (demo_cb d) cb' \<and> abs_rw cb' 16 = \<lparr>holders = [(48, SA_LCK_EX_LOCK_MODE)], exq = [],
          rdq = [(64, SA_LCK_PR_LOCK_MODE)], exo = False, pro = False\<rparr>"
proof -
  have q: "li_resource_id demo_unlock = 7" "li_glnd_mds_dest demo_unlock = 0x200000001"
      "li_lcl_resource_id demo_unlock = 1" "status (demo_res [32] [48] [64]) = GLND_RESOURCE_ACTIVE_MASTER"
    by (simp_all add: demo_unlock_def lck_evt_zero_def m_GLND_RESOURCE_NODE_LCK_INFO_FILL_def demo_res_def)
  show ?thesis
    using unlck_req_releases [OF demo_inv [of d], where q = demo_unlock and r = 16 and p = 32 and E = demo_env ]
      demo_find demo_grant_find q
    by (simp add: demo_abs rw_remove_def rw_resync_def rw_grant_ex_def rw_grant_pr_def no_ex_def)
qed

section \<open>Mutual exclusion and progress\<close>







section \<open>Requests and releases\<close>

text \<open>
  C4. A lock request at the master does what the reader/writer lock specifies: it never
  faults, the new node is granted, refused or queued as \<open>rw_request\<close> says, the status of the
  node is the one \<open>rw_request\<close> reports, and no other resource changes.
\<close>

theorem lock_request_refines:
  assumes "glnd_inv cb" and "ress cb r = Some ri" and "lcks cb (e_ptr E) = None"
    and "lock_type req = SA_LCK_EX_LOCK_MODE \<or> lock_type req = SA_LCK_PR_LOCK_MODE"
    and "d = glnd_mdest_id cb \<Longrightarrow> glnd_client_node_find cb (handleId req) \<noteq> None"
  shows "\<exists>cb'. glnd_resource_master_process_lock_req E r req d lcl lid cb = Some (cb', e_ptr E)
     \<and> abs_rw cb' r = fst (rw_request (lockFlags req) (e_ptr E, lock_type req) (abs_rw cb r))
     \<and> stat_of cb' (e_ptr E)
        = reported (snd (rw_request (lockFlags req) (e_ptr E, lock_type req) (abs_rw cb r)))
            (Some (lockStatus req))
     \<and> (\<forall>r'. r' \<noteq> r \<longrightarrow> abs_rw cb' r' = abs_rw cb r') \<and> glnd_inv cb'"
  using process_lock_req_refine [OF assms, where lcl = lcl and lid = lid] unfolding keeps_def by blast

theorem lock_request_refines_witness:
  "\<exists>cb'. glnd_resource_master_process_lock_req demo_env 16
       (lock_req_zero\<lparr>lock_type := SA_LCK_EX_LOCK_MODE, lockFlags := SA_LCK_LOCK_NO_QUEUE\<rparr>) 0x300000001 1 2
       (demo_cb 0x300000001) = Some (cb', 80) \<and> stat_of cb' 80 = Some SA_LCK_LOCK_NOT_QUEUED"
proof -
  let ?q = "lock_req_zero\<lparr>lock_type := SA_LCK_EX_LOCK_MODE, lockFlags := SA_LCK_LOCK_NO_QUEUE\<rparr>"
  have "lcks (demo_cb 0x300000001) (e_ptr demo_env) = None" "glnd_mdest_id (demo_cb 0x300000001) = 0x100000001"
    "e_ptr demo_env = 80" by (simp_all add: demo_cb_def demo_env_def)
  with lock_request_refines [OF demo_inv [of "0x300000001"] demo_find(2), where E = demo_env and req = ?q and d = "0x300000001"
      and lcl = 1 and lid = 2]
  show ?thesis by (simp add: demo_abs rw_request_def flag_set_def reported_def) blast
qed

text \<open>
  C5. Exclusive waiters are served first come, first served: when the node that holds the lock
  alone unlocks it, the oldest exclusive request, and no other, is granted, whatever readers
  wait.
\<close>

theorem unlock_grants_oldest_exclusive:
  assumes inv: "glnd_inv cb" and rwi: "rw_inv (abs_rw cb r)"
    and find: "glnd_resource_node_find cb (li_resource_id q) = Some r"
    and ri: "ress cb r = Some ri" and st: "status ri = GLND_RESOURCE_ACTIVE_MASTER"
    and p: "glnd_resource_grant_lock_req_find cb r (unlck_req_of q) (li_glnd_mds_dest q)
              (li_lcl_resource_id q) = Some (Some p)"
    and lists: "grant_list ri = [p]" "wait_exclusive_list ri = ws @ [w]" "\<not> ex_orphaned ri" "\<not> pr_orphaned ri"
  shows "\<exists>cb' ri'. glnd_process_glnd_unlck_req E q cb = Some (cb', SUCCESS) \<and> ress cb' r = Some ri'
     \<and> grant_list ri' = [w] \<and> wait_exclusive_list ri' = ws \<and> wait_read_list ri' = wait_read_list ri
     \<and> stat_of cb' w = Some SA_LCK_LOCK_GRANTED"
proof -
  obtain cb' where run: "glnd_process_glnd_unlck_req E q cb = Some (cb', SUCCESS)" and k: "keeps r cb cb'"
    and a: "abs_rw cb' r = rw_resync (rw_remove p (abs_rw cb r))"
    using unlck_req_releases [OF inv find ri st p] by blast
  obtain ri' where ri': "ress cb' r = Some ri'" using k ri same_static_ress unfolding keeps_def by blast
  have d: "distinct (res_lcks ri)" using glnd_wfD(1) inv ri unfolding glnd_inv_def by blast
  then have np: "p \<notin> set ws" "w \<noteq> p" "p \<notin> set (wait_read_list ri)" using lists by (auto simp: res_lcks_def)
  have ids: "filter (\<lambda>h. fst h \<noteq> p) (map (\<lambda>p. (p, mode_of cb p)) xs) = map (\<lambda>p. (p, mode_of cb p)) xs"
    if "p \<notin> set xs" for xs using that by (auto intro!: filter_True)
  have m: "mode_of cb w = SA_LCK_EX_LOCK_MODE" using rwi ri lists by (auto simp: rw_inv_def abs_rw_Some)
  have "rw_remove p (abs_rw cb r) = \<lparr>holders = [],
      exq = map (\<lambda>p. (p, mode_of cb p)) ws @ [(w, SA_LCK_EX_LOCK_MODE)],
      rdq = map (\<lambda>p. (p, mode_of cb p)) (wait_read_list ri), exo = False, pro = False\<rparr>"
    using ri lists ids [OF np(1)] ids [OF np(3)] m np(2) by (simp add: abs_rw_Some rw_remove_def)
  then have "abs_rw cb' r = \<lparr>holders = [(w, SA_LCK_EX_LOCK_MODE)], exq = map (\<lambda>p. (p, mode_of cb p)) ws,
      rdq = map (\<lambda>p. (p, mode_of cb p)) (wait_read_list ri), exo = False, pro = False\<rparr>"
    using a by (simp add: rw_resync_def rw_grant_ex_def rw_grant_pr_def no_ex_def)
  then have *: "grant_list ri' = [w]" "map fst (exq (abs_rw cb' r)) = ws"
    "map fst (rdq (abs_rw cb' r)) = wait_read_list ri"
    using ri' by (auto simp: abs_rw_Some comp_def)
  then have "wait_exclusive_list ri' = ws" "wait_read_list ri' = wait_read_list ri"
    using ri' by (simp_all add: abs_rw_Some comp_def)
  moreover have "stat_of cb' w = Some SA_LCK_LOCK_GRANTED"
    using keeps_inv [OF k] ri' *(1) by (auto simp: glnd_inv_def granted_wf_def)
  ultimately show ?thesis using run ri' *(1) by blast
qed

theorem unlock_grants_oldest_exclusive_witness:
  "\<exists>cb' ri'. glnd_process_glnd_unlck_req demo_env demo_unlock (demo_cb 0x300000001) = Some (cb', SUCCESS)
     \<and> ress cb' 16 = Some ri' \<and> grant_list ri' = [48]"
proof -
  have q: "li_resource_id demo_unlock = 7" "li_glnd_mds_dest demo_unlock = 0x200000001"
      "li_lcl_resource_id demo_unlock = 1"
    by (simp_all add: demo_unlock_def lck_evt_zero_def m_GLND_RESOURCE_NODE_LCK_INFO_FILL_def)
  show ?thesis
    using unlock_grants_oldest_exclusive [OF demo_inv [of "0x300000001"] demo_rw_inv _ demo_find(2), where q = demo_unlock
        and p = 32 and ws = "[]" and w = 48 and E = demo_env]
      demo_find(1) demo_grant_find q by (simp add: demo_res_def) blast
qed

section \<open>The handlers do not fault\<close>

text \<open>
  C6. On a well-formed control block the handlers of an unlock request, a cancellation, an
  orphaning and a change of status of another node always run to their end, whatever the event
  contains: they dereference no null and no dangling pointer.
\<close>

theorem remote_handlers_total:
  assumes "glnd_inv cb"
  shows "glnd_process_glnd_unlck_req E q cb \<noteq> None \<and> glnd_process_glnd_lck_req_cancel E q cb \<noteq> None
     \<and> glnd_process_glnd_lck_req_orphan E q cb \<noteq> None
     \<and> glnd_process_gld_non_master_status E dest st cb \<noteq> None"
  using unlck_req_run [OF assms, of E q] cancel_run [OF assms, of E q] orphan_run [OF assms, of E q]
    non_master_status_run [OF assms, of E dest st] by auto

theorem remote_handlers_total_witness:
  "glnd_process_glnd_unlck_req demo_env demo_unlock (demo_cb 0x300000001) \<noteq> None
   \<and> glnd_process_gld_non_master_status demo_env 0x200000001 GLND_DOWN_STATE (demo_cb 0x300000001) \<noteq> None"
  using remote_handlers_total [OF demo_inv] by blast

text \<open>
  C7. A lock request of another node never faults either, and what it does to any resource is
  a run of the reader/writer lock: a refused request leaves no trace on the lists.
\<close>

theorem lck_req_handler:
  assumes "glnd_inv cb" and "lcks cb (e_ptr E) = None"
    and "li_lock_type q = SA_LCK_EX_LOCK_MODE \<or> li_lock_type q = SA_LCK_PR_LOCK_MODE"
    and "li_glnd_mds_dest q \<noteq> glnd_mdest_id cb"
  shows "\<exists>cb' rc. glnd_process_glnd_lck_req E q ctxt cb = Some (cb', rc) \<and> glnd_inv cb'
     \<and> (\<forall>r. rw_step\<^sup>*\<^sup>* (abs_rw cb r) (abs_rw cb' r))"
  using lck_req_run [OF assms, of ctxt] by (auto simp: sim_def)

theorem lck_req_handler_witness:
  "\<exists>cb' rc. glnd_process_glnd_lck_req demo_env (demo_unlock\<lparr>li_lock_type := SA_LCK_PR_LOCK_MODE\<rparr>) []
     (demo_cb 0x300000001) = Some (cb', rc) \<and> glnd_inv cb'"
proof -
  have "lcks (demo_cb 0x300000001) (e_ptr demo_env) = None"
    "li_glnd_mds_dest (demo_unlock\<lparr>li_lock_type := SA_LCK_PR_LOCK_MODE\<rparr>) \<noteq> glnd_mdest_id (demo_cb 0x300000001)"
    by (simp_all add: demo_cb_def demo_env_def demo_unlock_def)
  with lck_req_handler [OF demo_inv this(1) _ this(2), of "[]"] show ?thesis by auto
qed



section \<open>Orphaned locks\<close>

text \<open>
  C9. An orphaned exclusive lock blocks its resource: whatever is requested, nothing is added to
  the grant list until the resource is purged.
\<close>

theorem orphaned_exclusive_blocks:
  assumes inv: "glnd_inv cb" and ri: "ress cb r = Some ri" and orph: "ex_orphaned ri"
    and rest: "lcks cb (e_ptr E) = None"
      "lock_type req = SA_LCK_EX_LOCK_MODE \<or> lock_type req = SA_LCK_PR_LOCK_MODE"
      "d = glnd_mdest_id cb \<Longrightarrow> glnd_client_node_find cb (handleId req) \<noteq> None"
  shows "\<exists>cb' ri'. glnd_resource_master_process_lock_req E r req d lcl lid cb = Some (cb', e_ptr E)
     \<and> ress cb' r = Some ri' \<and> grant_list ri' = grant_list ri \<and> ex_orphaned ri'"
proof -
  obtain cb' where run: "glnd_resource_master_process_lock_req E r req d lcl lid cb = Some (cb', e_ptr E)"
    and k: "keeps r cb cb'"
    and a: "abs_rw cb' r = fst (rw_request (lockFlags req) (e_ptr E, lock_type req) (abs_rw cb r))"
    using process_lock_req_refine [OF inv ri rest, where lcl = lcl and lid = lid] by blast
  obtain ri' where ri': "ress cb' r = Some ri'" using k ri same_static_ress unfolding keeps_def by blast
  have "exo (abs_rw cb r)" using ri orph by (simp add: abs_rw_Some)
  then have "holders (abs_rw cb' r) = holders (abs_rw cb r)" "exo (abs_rw cb' r)"
    using rest(2) unfolding a by (auto simp: rw_request_def Let_def)
  then have "map fst (holders (abs_rw cb' r)) = map fst (holders (abs_rw cb r))" "exo (abs_rw cb' r)" by simp_all
  then have "grant_list ri' = grant_list ri" "ex_orphaned ri'" using ri ri' by (simp_all add: abs_rw_Some comp_def)
  with run ri' show ?thesis by blast
qed

definition demo_orphan :: GLND_CB where
  "demo_orphan = (demo_cb 0x300000001)\<lparr>lcks := Map.empty, numLocks := 0,
     ress := [16 \<mapsto> (demo_res [] [] [])\<lparr>ex_orphaned := True\<rparr>]\<rparr>"

lemma demo_orphan_inv: "glnd_inv demo_orphan"
proof -
  have "lists_wf demo_orphan"
    by (auto simp: lists_wf_def demo_orphan_def demo_res_def res_lcks_def split: if_splits)
  moreover have "clients_wf demo_orphan" by (simp add: clients_wf_def demo_orphan_def demo_cb_def)
  moreover have "tree_wf demo_orphan"
    by (simp add: tree_wf_def tbl_wf_def demo_orphan_def demo_cb_def demo_res_def)
  moreover have "granted_wf demo_orphan"
    by (auto simp: granted_wf_def demo_orphan_def demo_res_def split: if_splits)
  moreover have "count_wf demo_orphan" by (simp add: count_wf_def demo_orphan_def)
  ultimately show ?thesis by (simp add: glnd_inv_def glnd_wf_def)
qed

theorem orphaned_exclusive_blocks_witness:
  "\<exists>cb' ri'. glnd_resource_master_process_lock_req demo_env 16
       (lock_req_zero\<lparr>lock_type := SA_LCK_PR_LOCK_MODE\<rparr>) 0x300000001 1 2 demo_orphan = Some (cb', 80)
     \<and> ress cb' 16 = Some ri' \<and> grant_list ri' = []"
proof -
  have "ress demo_orphan 16 = Some ((demo_res [] [] [])\<lparr>ex_orphaned := True\<rparr>)" by (simp add: demo_orphan_def)
  moreover have "lcks demo_orphan (e_ptr demo_env) = None" "glnd_mdest_id demo_orphan = 0x100000001"
    "e_ptr demo_env = 80" by (simp_all add: demo_orphan_def demo_cb_def demo_env_def)
  ultimately show ?thesis
    using orphaned_exclusive_blocks [OF demo_orphan_inv, where r = 16 and E = demo_env
        and req = "lock_req_zero\<lparr>lock_type := SA_LCK_PR_LOCK_MODE\<rparr>" and d = "0x300000001" and lcl = 1 and lid = 2]
    by (simp add: demo_res_def) blast
qed

text \<open>
  C10. A purge clears the orphan flags and grants whatever can be granted: afterwards no waiter is
  left that has no holder in front of it.
\<close>

theorem purge_unblocks:
  assumes inv: "glnd_inv cb" and ri: "ress cb r = Some ri" and ref: "lcl_ref_cnt ri \<noteq> 0"
    and st: "status ri = GLND_RESOURCE_ACTIVE_MASTER"
  shows "\<exists>cb' ri'. glnd_resource_master_lock_purge_req E r is_local cb = Some cb' \<and> ress cb' r = Some ri'
     \<and> \<not> ex_orphaned ri' \<and> \<not> pr_orphaned ri' \<and> (grant_list ri' = [] \<longrightarrow> wait_exclusive_list ri' = [])
     \<and> (grant_list ri' = [] \<longrightarrow> wait_read_list ri' = [])"
proof -
  obtain cb' where run: "glnd_resource_master_lock_purge_req E r is_local cb = Some cb'" and k: "keeps r cb cb'"
    and a: "abs_rw cb' r = rw_purge (abs_rw cb r)" using purge_run [OF inv ri ref, of E is_local] st by auto
  obtain ri' where ri': "ress cb' r = Some ri'" using k ri same_static_ress unfolding keeps_def by blast
  have "\<not> exo (abs_rw cb' r)" "\<not> pro (abs_rw cb' r)" "rw_settled (abs_rw cb' r)"
    unfolding a by (simp_all add: rw_settled_purge)
      (simp_all add: rw_purge_def rw_resync_def rw_grant_ex_def rw_grant_pr_def)
  then show ?thesis using run ri' by (auto simp: abs_rw_Some rw_settled_def no_ex_def)
qed

theorem purge_unblocks_witness:
  "\<exists>cb' ri'. glnd_resource_master_lock_purge_req demo_env 16 True demo_orphan = Some cb'
     \<and> ress cb' 16 = Some ri' \<and> \<not> ex_orphaned ri'"
proof -
  have "ress demo_orphan 16 = Some ((demo_res [] [] [])\<lparr>ex_orphaned := True\<rparr>)" by (simp add: demo_orphan_def)
  from purge_unblocks [OF demo_orphan_inv this, of demo_env True] show ?thesis
    by (simp add: demo_res_def) blast
qed

section \<open>Change of mastership\<close>

text \<open>
  C11. When a node becomes the master it moves every request of its own to exactly one list of the
  master: no request is lost or duplicated, and those already granted stay granted.
\<close>

theorem convert_keeps_requests:
  assumes "glnd_inv cb" and "ress cb r = Some ri"
  shows "\<exists>cb' ri'. glnd_resource_convert_nonmaster_to_master E r cb = Some cb' \<and> ress cb' r = Some ri'
     \<and> lcl_lck_req_info ri' = [] \<and> mset (res_lcks ri') = mset (res_lcks ri)
     \<and> set (grant_list ri') = set (grant_list ri)
         \<union> {p \<in> set (lcl_lck_req_info ri). stat_of cb p = Some SA_LCK_LOCK_GRANTED}"
  using assms by (rule convert_run)

theorem convert_keeps_requests_witness:
  "\<exists>cb' ri'. glnd_resource_convert_nonmaster_to_master demo_env 16 (demo_cb 0x300000001) = Some cb'
     \<and> ress cb' 16 = Some ri' \<and> mset (res_lcks ri') = {#32, 48, 64#}"
proof -
  have "mset (res_lcks (demo_res [32] [48] [64])) = {#32, 48, 64#}" by (simp add: res_lcks_def demo_res_def)
  with convert_keeps_requests [OF demo_inv [of "0x300000001"] demo_find(2), of demo_env] show ?thesis by auto
qed

section \<open>Where the code does not do what it means to\<close>




end
