(* ===== verification/Gld_State.thy ===== *)
theory Gld_State
  imports Glsv_Data Key_Table
begin

text \<open>
  The control block of the lock director (\<open>lck/lckd/gld_cb.h\<close>), the one process of the
  cluster that names resources, hands out their ids and appoints their masters. Resources
  and node records are objects at addresses; a resource is reached from the list
  \<open>rsc_info\<close>, from the tree \<open>rsc_info_id\<close> and from the reference trees of the nodes that
  opened it, so the store is explicit.

  What other parts decide is in the environment record: the addresses \<open>malloc\<close> returns, the
  timer id, the time stamp, the answer of the IMM service to the creation of a run-time
  object, and whether the transport accepts a message for a destination. What the director
  sends, checkpoints or asks of other services is appended to the \<open>gld_out\<close> trace.
\<close>

section \<open>Timers (\<open>gld_tmr.h\<close>, \<open>gld_tmr.c\<close>)\<close>

datatype GLD_TMR_TYPE =
    GLD_TMR_UNSET | GLD_TMR_NODE_RESTART_TIMEOUT | GLD_TMR_RES_REELECTION_WAIT | GLD_TMR_MAX

record GLD_TMR =
  gt_tmr_id :: u64
  gt_type :: GLD_TMR_TYPE
  gt_cb_hdl :: u32
  gt_opq_hdl :: u32
  gt_is_active :: bool
  gt_mdest_id :: MDS_DEST
  gt_resource_id :: u32

definition gld_tmr_zero :: GLD_TMR where
  "gld_tmr_zero = \<lparr>gt_tmr_id = 0, gt_type = GLD_TMR_UNSET, gt_cb_hdl = 0, gt_opq_hdl = 0,
                   gt_is_active = False, gt_mdest_id = 0, gt_resource_id = 0\<rparr>"

definition GLSV_GLND_MASTER_REELECTION_WAIT_TIME :: SaTimeT where
  "GLSV_GLND_MASTER_REELECTION_WAIT_TIME = 300000000"

definition GLD_NODE_RESTART_TIMEOUT :: SaTimeT where
  "GLD_NODE_RESTART_TIMEOUT = 10000000000"

section \<open>Resources, references and nodes\<close>

record GLSV_NODE_LIST =
  nl_dest_id :: MDS_DEST
  nl_node_id :: u32

record GLSV_GLD_RSC_INFO =
  gr_rsc_id :: u32
  gr_lck_name :: SaNameT
  gr_node_list :: "GLSV_NODE_LIST list"
  gr_can_orphan :: bool
  gr_orphan_lck_mode :: SaLckLockModeT
  gr_reelection_timer :: GLD_TMR
  saf_rsc_creation_time :: SaTimeT
  saf_rsc_no_of_users :: u32
  saf_rsc_stripped_cnt :: u32

record GLSV_GLD_GLND_RSC_REF =
  ref_rsc_id :: u32
  ref_rsc_info :: ptr

record GLSV_GLD_GLND_DETAILS =
  gn_dest_id :: MDS_DEST
  gn_node_id :: u32
  gn_status :: GLND_NODE_STATUS
  gn_restart_timer :: GLD_TMR
  gn_rsc_info_tree :: "GLSV_GLD_GLND_RSC_REF table"

record GLSV_GLD_RSC_MAP_INFO =
  map_rsc_id :: u32
  map_rsc_name :: SaNameT

datatype SaAmfHAStateT =
    SA_AMF_HA_ACTIVE | SA_AMF_HA_STANDBY | SA_AMF_HA_QUIESCED | SA_AMF_HA_QUIESCING

text \<open>The checkpoint messages the active director sends to the standby one (\<open>gld_red.c\<close>).\<close>

datatype gld_a2s_evt =
    A2S_RSC_OPEN SaNameT u32 MDS_DEST SaTimeT
  | A2S_RSC_CLOSE GLSV_RSC_DETAILS MDS_DEST
  | A2S_SET_ORPHAN GLSV_RSC_DETAILS MDS_DEST
  | A2S_GLND_DOWN MDS_DEST
  | A2S_GLND_OPERATIONAL MDS_DEST

datatype gld_out =
    GLD_SND MDS_DEST glnd_evt
  | GLD_BCAST glnd_evt
  | GLD_CKPT gld_a2s_evt
  | GLD_TMR_START u64 SaTimeT
  | GLD_TMR_STOP u64
  | GLD_TMR_DESTROY u64
  | GLD_IMM_CREATE SaNameT SaTimeT
  | GLD_IMM_DELETE SaNameT
  | GLD_IMM_CLEAR
  | GLD_MBCSV_CHGROLE
  | GLD_MDS_ROLE SaAmfHAStateT
  | GLD_IMM_IMPLEMENTER
  | GLD_MBCSV_DATA_REQ
  | GLD_AMF_RESPONSE u64 SaAisErrorT

record gld_env =
  ge_rsc_ptr :: ptr
  ge_node_ptr :: ptr
  ge_tmr :: u64
  ge_time :: SaTimeT
  ge_imm_create :: "SaNameT \<Rightarrow> SaAisErrorT"
  ge_chgrole :: rc
  ge_up :: "MDS_DEST \<Rightarrow> bool"

record GLSV_GLD_CB =
  gld_my_hdl :: u32
  glnd_details :: "ptr table"
  rsc_info_id :: "ptr table"
  rsc_map_info :: "GLSV_GLD_RSC_MAP_INFO table"
  rsc_list :: "ptr list"
  nxt_rsc_id :: u32
  ha_state :: SaAmfHAStateT
  gld_invocation :: u64
  is_quiasced :: bool
  is_impl_set :: bool
  rscs :: "ptr \<rightharpoonup> GLSV_GLD_RSC_INFO"
  nodes :: "ptr \<rightharpoonup> GLSV_GLD_GLND_DETAILS"
  gld_outs :: "gld_out list"
  prev_rsc_id :: u32
  gld_async_cnt :: u32

definition gld_emit :: "gld_out \<Rightarrow> GLSV_GLD_CB \<Rightarrow> GLSV_GLD_CB" where
  "gld_emit m cb = cb\<lparr>gld_outs := gld_outs cb @ [m]\<rparr>"

definition gld_emits :: "gld_out list \<Rightarrow> GLSV_GLD_CB \<Rightarrow> GLSV_GLD_CB" where
  "gld_emits ms cb = cb\<lparr>gld_outs := gld_outs cb @ ms\<rparr>"

definition rsc_upd ::
  "ptr \<Rightarrow> (GLSV_GLD_RSC_INFO \<Rightarrow> GLSV_GLD_RSC_INFO) \<Rightarrow> GLSV_GLD_CB \<Rightarrow> GLSV_GLD_CB option" where
  "rsc_upd r f cb = do { ri \<leftarrow> rscs cb r; Some (cb\<lparr>rscs := (rscs cb)(r \<mapsto> f ri)\<rparr>) }"

definition node_upd ::
  "ptr \<Rightarrow> (GLSV_GLD_GLND_DETAILS \<Rightarrow> GLSV_GLD_GLND_DETAILS) \<Rightarrow> GLSV_GLD_CB \<Rightarrow> GLSV_GLD_CB option"
where
  "node_upd q f cb = do { nd \<leftarrow> nodes cb q; Some (cb\<lparr>nodes := (nodes cb)(q \<mapsto> f nd)\<rparr>) }"

text \<open>The control block \<open>gld_cb_init\<close> leaves behind (\<open>gld_api.c\<close>), in a given HA state.\<close>

definition gld_cb_init :: "u32 \<Rightarrow> SaAmfHAStateT \<Rightarrow> GLSV_GLD_CB" where
  "gld_cb_init hdl ha =
     \<lparr>gld_my_hdl = hdl, glnd_details = tbl_empty, rsc_info_id = tbl_empty,
      rsc_map_info = tbl_empty, rsc_list = [], nxt_rsc_id = 1, ha_state = ha,
      gld_invocation = 0, is_quiasced = False, is_impl_set = False,
      rscs = Map.empty, nodes = Map.empty, gld_outs = [], prev_rsc_id = 0, gld_async_cnt = 0\<rparr>"

section \<open>Timer operations\<close>

definition gld_start_tmr ::
  "gld_env \<Rightarrow> GLSV_GLD_CB \<Rightarrow> GLD_TMR \<Rightarrow> GLD_TMR_TYPE \<Rightarrow> SaTimeT \<Rightarrow> u32
   \<Rightarrow> (GLD_TMR \<times> gld_out list) \<times> rc" where
  "gld_start_tmr E cb tmr type period uarg =
     (let my_period = m_GLSV_CONVERT_SATIME_TEN_MILLI_SEC period in
      if type = GLD_TMR_MAX then ((tmr, []), NCSCC_RC_FAILURE)
      else
        let t1 = (if gt_tmr_id tmr = 0
                  then tmr\<lparr>gt_type := type, gt_cb_hdl := gld_my_hdl cb, gt_tmr_id := ge_tmr E\<rparr>
                  else tmr);
            o1 = (if gt_is_active t1 then [GLD_TMR_STOP (gt_tmr_id t1)] else []);
            t2 = t1\<lparr>gt_is_active := True, gt_opq_hdl := uarg, gt_cb_hdl := gld_my_hdl cb\<rparr>;
            o2 = [GLD_TMR_START (gt_tmr_id t2) my_period]
        in ((t2, o1 @ o2),
            if gt_tmr_id t2 = 0 then NCSCC_RC_FAILURE else NCSCC_RC_SUCCESS))"

definition gld_stop_tmr :: "GLD_TMR \<Rightarrow> GLD_TMR \<times> gld_out list" where
  "gld_stop_tmr tmr =
     (if gt_type tmr = GLD_TMR_MAX then (tmr, [])
      else
        let o1 = (if gt_is_active tmr then [GLD_TMR_STOP (gt_tmr_id tmr)] else []);
            t1 = tmr\<lparr>gt_is_active := False\<rparr>;
            o2 = (if gt_tmr_id t1 \<noteq> 0 then [GLD_TMR_DESTROY (gt_tmr_id t1)] else []);
            t2 = t1\<lparr>gt_tmr_id := 0\<rparr>
        in (t2, o1 @ o2))"

text \<open>The two timers of the director: a resource's re-election timer, a node's restart timer.\<close>

definition rsc_start_reelection :: "gld_env \<Rightarrow> ptr \<Rightarrow> GLSV_GLD_CB \<Rightarrow> GLSV_GLD_CB option" where
  "rsc_start_reelection E r cb = do {
     ri \<leftarrow> rscs cb r;
     let tm = (gr_reelection_timer ri)\<lparr>gt_resource_id := gr_rsc_id ri\<rparr>;
     let ((t, os), _) = gld_start_tmr E cb tm GLD_TMR_RES_REELECTION_WAIT
                          GLSV_GLND_MASTER_REELECTION_WAIT_TIME 0;
     Some (gld_emits os (cb\<lparr>rscs := (rscs cb)(r \<mapsto> ri\<lparr>gr_reelection_timer := t\<rparr>)\<rparr>)) }"

definition node_start_restart :: "gld_env \<Rightarrow> ptr \<Rightarrow> GLSV_GLD_CB \<Rightarrow> GLSV_GLD_CB option" where
  "node_start_restart E q cb = do {
     nd \<leftarrow> nodes cb q;
     let tm = (gn_restart_timer nd)\<lparr>gt_mdest_id := gn_dest_id nd\<rparr>;
     let ((t, os), _) = gld_start_tmr E cb tm GLD_TMR_NODE_RESTART_TIMEOUT
                          GLD_NODE_RESTART_TIMEOUT 0;
     Some (gld_emits os (cb\<lparr>nodes := (nodes cb)(q \<mapsto> nd\<lparr>gn_restart_timer := t\<rparr>)\<rparr>)) }"

section \<open>Keys\<close>

text \<open>
  The name tree is keyed by the memory image of a \<open>SaNameT\<close> whose length field is in
  network order: the two octets of the length, then the octets of the name.
\<close>

definition name_key :: "SaNameT \<Rightarrow> bytes" where
  "name_key n = [ucast (name_length n), ucast (drop_bit 8 (name_length n))] @ name_value n"

definition net_name :: "SaNameT \<Rightarrow> SaNameT" where
  "net_name n = n\<lparr>name_length := htons (name_length n)\<rparr>"

lemma name_key_inject [simp]: "name_key m = name_key n \<longleftrightarrow> m = n"
proof
  assume eq: "name_key m = name_key n"
  have "name_length m = name_length n"
  proof (rule bit_word_eqI)
    fix i assume "i < LENGTH(16)"
    moreover from eq have "(ucast (drop_bit 0 (name_length m)) :: u8) = ucast (drop_bit 0 (name_length n))"
      and "(ucast (drop_bit 8 (name_length m)) :: u8) = ucast (drop_bit 8 (name_length n))"
      by (simp_all add: name_key_def)
    ultimately show "bit (name_length m) i = bit (name_length n) i"
      using octet_eq_bit [of 0 "name_length m" "name_length n" i]
        octet_eq_bit [of 8 "name_length m" "name_length n" i]
      by (cases "i < 8") auto
  qed
  with eq show "m = n" by (simp add: name_key_def SaNameT.equality)
qed simp

lemma net_name_inject [simp]: "net_name m = net_name n \<longleftrightarrow> m = n"
proof
  assume "net_name m = net_name n"
  then have "name_length (net_name m) = name_length (net_name n)"
    and "name_value (net_name m) = name_value (net_name n)" by simp_all
  then show "m = n" by (simp add: net_name_def SaNameT.equality)
qed simp

end
