(* ===== verification/Gld_Rsc.thy ===== *)
theory Gld_Rsc
  imports Gld_State
begin

text \<open>
  Resource management of the lock director (\<open>lck/lckd/gld_rsc.c\<close>): the generation of
  resource ids, creation, lookup and release of resources, the references of nodes to
  resources, and the announcement of a resource's master. A result \<open>None\<close> is a run that
  faults or never returns.
\<close>

section \<open>Resource ids\<close>

definition next_id :: "u32 \<Rightarrow> u32" where
  "next_id i = (if i = 0xffffffff then 210 else i + 1)"

text \<open>
  The \<open>while\<close> loop of \<open>gld_gen_rsc_id\<close>: \<open>Some (Some i)\<close> leaves it at the free id \<open>i\<close>,
  \<open>Some None\<close> is the \<open>return 0\<close> when it comes back to its start.
\<close>

partial_function (option) gen_loop :: "'v table \<Rightarrow> u32 \<Rightarrow> u32 \<Rightarrow> u32 option option" where
  "gen_loop t nxt i =
     (if tbl_get t (key32 i) \<noteq> None
      then if next_id i = nxt then Some None else gen_loop t nxt (next_id i)
      else Some (Some i))"

declare gen_loop.simps [code]

definition gld_gen_rsc_id :: "GLSV_GLD_CB \<Rightarrow> (GLSV_GLD_CB \<times> u32) option" where
  "gld_gen_rsc_id cb = do {
     r \<leftarrow> gen_loop (rsc_info_id cb) (nxt_rsc_id cb) (nxt_rsc_id cb);
     case r of
       None \<Rightarrow> Some (cb, 0)
     | Some i \<Rightarrow> Some (cb\<lparr>nxt_rsc_id := next_id i\<rparr>, i) }"

section \<open>Creating a resource\<close>

text \<open>\<open>ncs_patricia_tree_del\<close> unlinks a given node, and fails when it is not in the tree.\<close>

definition tbl_del_node :: "bytes \<Rightarrow> 'v \<Rightarrow> 'v table \<Rightarrow> 'v table \<times> rc" where
  "tbl_del_node k v t = (if tbl_get t k = Some v then tbl_del k t else (t, NCSCC_RC_FAILURE))"

definition new_rsc :: "u32 \<Rightarrow> SaNameT \<Rightarrow> SaTimeT \<Rightarrow> GLSV_GLD_RSC_INFO" where
  "new_rsc rid name time =
     \<lparr>gr_rsc_id = rid, gr_lck_name = name, gr_node_list = [], gr_can_orphan = False,
      gr_orphan_lck_mode = SA_LCK_MODE_UNSET, gr_reelection_timer = gld_tmr_zero,
      saf_rsc_creation_time = time, saf_rsc_no_of_users = 1, saf_rsc_stripped_cnt = 0\<rparr>"

text \<open>The call of \<open>create_runtime_object\<close>, with the answer the director goes on with.\<close>

definition imm_create :: "gld_env \<Rightarrow> SaNameT \<Rightarrow> GLSV_GLD_CB \<Rightarrow> GLSV_GLD_CB \<times> SaAisErrorT" where
  "imm_create E name cb =
     (if ha_state cb = SA_AMF_HA_ACTIVE
      then (gld_emit (GLD_IMM_CREATE name (ge_time E)) cb,
            if ge_imm_create E name = SA_AIS_ERR_EXIST then SA_AIS_OK else ge_imm_create E name)
      else (cb, SA_AIS_OK))"

definition gld_add_rsc_info ::
  "gld_env \<Rightarrow> SaNameT \<Rightarrow> u32 \<Rightarrow> GLSV_GLD_CB
   \<Rightarrow> (GLSV_GLD_CB \<times> ptr option \<times> SaAisErrorT) option" where
  "gld_add_rsc_info E name rsc_id cb = do {
     (cb, rid) \<leftarrow> (if rsc_id \<noteq> 0 then Some (cb, rsc_id) else gld_gen_rsc_id cb);
     let p = ge_rsc_ptr E;
     if rid = 0 then Some (cb, None, SA_AIS_ERR_NO_MEMORY)
     else case tbl_add (key32 rid) p (rsc_info_id cb) of
       (_, NCSCC_RC_FAILURE) \<Rightarrow> Some (cb, None, SA_AIS_ERR_NO_MEMORY)
     | (ids, NCSCC_RC_SUCCESS) \<Rightarrow>
         let key = name_key (net_name name);
             mi = \<lparr>map_rsc_id = rid, map_rsc_name = net_name name\<rparr>
         in case tbl_add key mi (rsc_map_info cb) of
           (_, NCSCC_RC_FAILURE) \<Rightarrow>
             Some (cb\<lparr>rsc_info_id := fst (tbl_del_node (key32 rid) p ids)\<rparr>, None,
                   SA_AIS_ERR_LIBRARY)
         | (names, NCSCC_RC_SUCCESS) \<Rightarrow>
             let (cb, error) = imm_create E name cb
             in if error \<noteq> SA_AIS_OK
                then Some (cb\<lparr>rsc_map_info := fst (tbl_del_node key mi names),
                              rsc_info_id := fst (tbl_del_node (key32 rid) p ids)\<rparr>,
                           None, SA_AIS_ERR_NO_RESOURCES)
                else Some (cb\<lparr>rsc_info_id := ids, rsc_map_info := names,
                              rscs := (rscs cb)(p \<mapsto> new_rsc rid name (ge_time E)),
                              rsc_list := p # rsc_list cb\<rparr>,
                           Some p, SA_AIS_OK) }"

section \<open>Looking a resource up\<close>

definition gld_find_rsc_by_id :: "GLSV_GLD_CB \<Rightarrow> u32 \<Rightarrow> ptr option option" where
  "gld_find_rsc_by_id cb rsc_id =
     first_such (\<lambda>p. do { ri \<leftarrow> rscs cb p; Some (gr_rsc_id ri = rsc_id) }) (rsc_list cb)"

definition find_rsc_by_name :: "GLSV_GLD_CB \<Rightarrow> SaNameT \<Rightarrow> ptr option option" where
  "find_rsc_by_name cb name =
     first_such (\<lambda>p. do { ri \<leftarrow> rscs cb p; Some (name = gr_lck_name ri) }) (rsc_list cb)"

definition gld_find_add_rsc_name ::
  "gld_env \<Rightarrow> SaNameT \<Rightarrow> u32 \<Rightarrow> u32 \<Rightarrow> GLSV_GLD_CB
   \<Rightarrow> (GLSV_GLD_CB \<times> ptr option \<times> SaAisErrorT) option" where
  "gld_find_add_rsc_name E name rsc_id flag cb = do {
     r \<leftarrow> find_rsc_by_name cb name;
     if ha_state cb = SA_AMF_HA_ACTIVE \<and> r = None \<and> \<not> flag_set flag SA_LCK_RESOURCE_CREATE
     then Some (cb, None, SA_AIS_ERR_NOT_EXIST)
     else case r of
       Some p \<Rightarrow> do {
         cb \<leftarrow> rsc_upd p (\<lambda>ri. ri\<lparr>saf_rsc_no_of_users := saf_rsc_no_of_users ri + 1\<rparr>) cb;
         Some (cb, Some p, SA_AIS_OK) }
     | None \<Rightarrow> gld_add_rsc_info E name rsc_id cb }"

section \<open>Releasing a resource\<close>

text \<open>
  The prologue of the release: the list is unlinked, the run-time object deleted when this
  director is active, the name tree entry and the re-election timer dropped.
\<close>

definition gld_free_rsc_info :: "ptr \<Rightarrow> GLSV_GLD_CB \<Rightarrow> GLSV_GLD_CB option" where
  "gld_free_rsc_info r cb = do {
     ri \<leftarrow> rscs cb r;
     if gr_node_list ri \<noteq> [] then Some cb
     else do {
       let key = name_key (net_name (gr_lck_name ri));
       let cb = cb\<lparr>rsc_list := remove1 r (rsc_list cb)\<rparr>;
       let cb = (if ha_state cb = SA_AMF_HA_ACTIVE
                 then gld_emit (GLD_IMM_DELETE (gr_lck_name ri)) cb else cb);
       let cb = cb\<lparr>rsc_map_info := fst (tbl_del key (rsc_map_info cb))\<rparr>;
       let cb = (if gt_tmr_id (gr_reelection_timer ri) \<noteq> 0
                 then gld_emits (snd (gld_stop_tmr (gr_reelection_timer ri))) cb else cb);
       let cb = cb\<lparr>rsc_info_id := fst (tbl_del_node (key32 (gr_rsc_id ri)) r (rsc_info_id cb))\<rparr>;
       Some (cb\<lparr>rscs := (rscs cb)(r := None)\<rparr>) } }"

section \<open>Announcing the master\<close>

definition gld_snd_master_status ::
  "ptr \<Rightarrow> GLND_RESOURCE_STATUS \<Rightarrow> GLSV_GLD_CB \<Rightarrow> GLSV_GLD_CB option" where
  "gld_snd_master_status r st cb = do {
     ri \<leftarrow> rscs cb r;
     case gr_node_list ri of
       [] \<Rightarrow> Some cb
     | n # _ \<Rightarrow> Some (gld_emit (GLD_BCAST (RSC_NEW_MASTER
           \<lparr>nm_rsc_id = gr_rsc_id ri, nm_master_dest_id = nl_dest_id n,
            nm_orphan = gr_can_orphan ri, nm_orphan_lck_mode = gr_orphan_lck_mode ri,
            nm_status = st\<rparr>)) cb) }"

section \<open>References of nodes to resources\<close>

fun rmv_node :: "u32 \<Rightarrow> GLSV_NODE_LIST list \<Rightarrow> GLSV_NODE_LIST list" where
  "rmv_node nid [] = []"
| "rmv_node nid (n # ns) = (if nl_node_id n = nid then ns else n # rmv_node nid ns)"

text \<open>
  \<open>rsc_info->node_list->node_id\<close> is read before the list is tested: an empty list faults.
\<close>

definition gld_rsc_rmv_node_ref ::
  "gld_env \<Rightarrow> ptr \<Rightarrow> GLSV_GLD_GLND_RSC_REF option \<Rightarrow> ptr \<Rightarrow> bool \<Rightarrow> GLSV_GLD_CB
   \<Rightarrow> GLSV_GLD_CB option" where
  "gld_rsc_rmv_node_ref E r glnd_rsc q orphan_flag cb =
     (case glnd_rsc of
        None \<Rightarrow> Some cb
      | Some ref \<Rightarrow>
          if r = NULL then Some cb
          else do {
            ri \<leftarrow> rscs cb r;
            nd \<leftarrow> nodes cb q;
            master \<leftarrow> (case gr_node_list ri of [] \<Rightarrow> None | n # _ \<Rightarrow> Some n);
            let chg_master = (nl_node_id master = gn_node_id nd);
            let nl = rmv_node (gn_node_id nd) (gr_node_list ri);
            let tree = fst (tbl_del (key32 (ref_rsc_id ref)) (gn_rsc_info_tree nd));
            let cb = cb\<lparr>rscs := (rscs cb)(r \<mapsto> ri\<lparr>gr_node_list := nl, gr_can_orphan := orphan_flag\<rparr>),
                        nodes := (nodes cb)(q \<mapsto> nd\<lparr>gn_rsc_info_tree := tree\<rparr>)\<rparr>;
            if nl = [] \<and> \<not> orphan_flag then gld_free_rsc_info r cb
            else if chg_master \<and> ha_state cb = SA_AMF_HA_ACTIVE then do {
              cb \<leftarrow> rsc_start_reelection E r cb;
              gld_snd_master_status r GLND_RESOURCE_ELECTION_IN_PROGESS cb }
            else Some cb })"

text \<open>
  When the reference cannot be added the code releases the node record, although the node
  tree still points to it.
\<close>

definition gld_rsc_add_node_ref :: "ptr \<Rightarrow> ptr \<Rightarrow> GLSV_GLD_CB \<Rightarrow> GLSV_GLD_CB option" where
  "gld_rsc_add_node_ref q r cb = do {
     nd \<leftarrow> nodes cb q;
     ri \<leftarrow> rscs cb r;
     if tbl_get (gn_rsc_info_tree nd) (key32 (gr_rsc_id ri)) \<noteq> None then Some cb
     else case tbl_add (key32 (gr_rsc_id ri)) \<lparr>ref_rsc_id = gr_rsc_id ri, ref_rsc_info = r\<rparr>
                 (gn_rsc_info_tree nd) of
       (_, NCSCC_RC_FAILURE) \<Rightarrow> Some (cb\<lparr>nodes := (nodes cb)(q := None)\<rparr>)
     | (t, NCSCC_RC_SUCCESS) \<Rightarrow>
         Some (cb\<lparr>nodes := (nodes cb)(q \<mapsto> nd\<lparr>gn_rsc_info_tree := t\<rparr>)\<rparr>) }"

section \<open>Correctness of the id generator\<close>

text \<open>The number of steps of the loop from one id to another at or above 210.\<close>

definition id_dist :: "u32 \<Rightarrow> u32 \<Rightarrow> nat" where
  "id_dist f i = (if unat i \<le> unat f then unat f - unat i
                  else 2 ^ 32 - unat i + (unat f - 210))"

lemma unat_u32: "unat (w :: u32) < 4294967296"
proof -
  have "unat w < 2 ^ LENGTH(32)" by (rule unsigned_less)
  then show ?thesis by simp
qed

lemma unat_next_id:
  "unat (next_id i) = (if unat i = 2 ^ 32 - 1 then 210 else unat i + 1)"
proof (cases "unat i = 2 ^ 32 - 1")
  case True
  then have "i = 0xffffffff" by (simp add: word_unat_eq_iff)
  then show ?thesis by (simp add: next_id_def)
next
  case False
  then have "i \<noteq> 0xffffffff" by auto
  moreover from False have "unat i + 1 < 2 ^ LENGTH(32)" using unat_u32 [of i] by simp
  then have "unat (i + 1) = unat i + 1" by (simp add: unat_word_ariths)
  ultimately show ?thesis using False by (simp add: next_id_def)
qed

lemma id_dist_next:
  assumes "i \<noteq> f" and "210 \<le> unat f"
  shows "Suc (id_dist f (next_id i)) = id_dist f i"
proof -
  have "unat i < 2 ^ 32" and "unat f < 2 ^ 32" using unat_u32 [of i] unat_u32 [of f] by simp_all
  moreover have "unat i \<noteq> unat f" using assms(1) by (simp add: word_unat_eq_iff)
  ultimately show ?thesis using assms(2) by (auto simp: id_dist_def unat_next_id)
qed

lemma next_id_nonzero [simp]: "next_id i \<noteq> 0"
proof -
  have "0 < unat (next_id i)" by (simp add: unat_next_id)
  then show ?thesis by auto
qed

lemma gen_loop_free:
  assumes "tbl_get t (key32 f) = None" and "210 \<le> unat f"
    and "i = nxt \<or> id_dist f i < id_dist f nxt" and "i \<noteq> 0"
  shows "\<exists>x. gen_loop t nxt i = Some (Some x) \<and> tbl_get t (key32 x) = None \<and> x \<noteq> 0"
  using assms(3,4)
proof (induction "id_dist f i" arbitrary: i rule: less_induct)
  case less
  show ?case
  proof (cases "tbl_get t (key32 i) = None")
    case True
    then show ?thesis using less.prems by (simp add: gen_loop.simps)
  next
    case False
    with assms(1) have "i \<noteq> f" by auto
    then have d: "Suc (id_dist f (next_id i)) = id_dist f i" using assms(2) by (rule id_dist_next)
    with less.prems have "next_id i \<noteq> nxt" and "id_dist f (next_id i) < id_dist f nxt" by auto
    with less.hyps [of "next_id i"] d False show ?thesis by (simp add: gen_loop.simps [of t nxt i])
  qed
qed

lemma gen_loop_full:
  assumes "\<And>f. 210 \<le> unat f \<Longrightarrow> tbl_get t (key32 f) \<noteq> None" and "210 \<le> unat nxt"
    and "210 \<le> unat i"
  shows "gen_loop t nxt i = Some None"
  using assms(3)
proof (induction "id_dist nxt (next_id i)" arbitrary: i rule: less_induct)
  case less
  have taken: "tbl_get t (key32 i) \<noteq> None" using assms(1) less.prems by blast
  show ?case
  proof (cases "next_id i = nxt")
    case True
    with taken show ?thesis by (simp add: gen_loop.simps)
  next
    case False
    then have "id_dist nxt (next_id (next_id i)) < id_dist nxt (next_id i)"
      using id_dist_next [OF False assms(2)] by simp
    moreover have "210 \<le> unat (next_id i)" using less.prems by (simp add: unat_next_id)
    ultimately have "gen_loop t nxt (next_id i) = Some None" by (rule less.hyps)
    with taken False show ?thesis by (simp add: gen_loop.simps [of t nxt i])
  qed
qed

text \<open>A result of the loop is a free id, whatever the state of the tree.\<close>

lemma gen_loop_SomeD:
  assumes "gen_loop t nxt i = Some r"
  shows "\<forall>x. r = Some x \<longrightarrow> tbl_get t (key32 x) = None \<and> (i \<noteq> 0 \<longrightarrow> x \<noteq> 0)"
  using _ assms
proof (rule gen_loop.raw_induct [where
      P = "\<lambda>t nxt i r. \<forall>x. r = Some x \<longrightarrow> tbl_get t (key32 x) = None \<and> (i \<noteq> 0 \<longrightarrow> x \<noteq> 0)"])
  fix loop :: "'a table \<Rightarrow> u32 \<Rightarrow> u32 \<Rightarrow> u32 option option" and t :: "'a table" and nxt i r
  assume IH: "\<And>t nxt i r. loop t nxt i = Some r \<Longrightarrow>
      \<forall>x. r = Some x \<longrightarrow> tbl_get t (key32 x) = None \<and> (i \<noteq> 0 \<longrightarrow> x \<noteq> 0)"
    and step: "(if tbl_get t (key32 i) \<noteq> None
       then if next_id i = nxt then Some None else loop t nxt (next_id i) else Some (Some i)) = Some r"
  show "\<forall>x. r = Some x \<longrightarrow> tbl_get t (key32 x) = None \<and> (i \<noteq> 0 \<longrightarrow> x \<noteq> 0)"
    using step IH [of t nxt "next_id i" r] by (auto split: if_splits)
qed

end
