(* ===== verification/Gld_Evt.thy ===== *)
theory Gld_Evt
  imports Gld_Rsc
begin

text \<open>
  The event handlers of the lock director (\<open>lck/lckd/gld_evt.c\<close>) and their dispatch by HA
  state. A message in the trace has been handed to the transport; whether the transport
  accepts it is the environment's answer. Log and trace calls are left out, except the one of
  \<open>gld_add_glnd_node\<close>, whose argument dereferences the node pointer after it was set to
  \<open>NULL\<close>.
\<close>

record GLSV_RSC_OPEN_INFO =
  ro_rsc_name :: SaNameT
  ro_rsc_id :: u32
  ro_flag :: u32

record GLD_EVT_TMR =
  et_mdest_id :: MDS_DEST
  et_resource_id :: u32
  et_opq_hdl :: u32

text \<open>An event: its type with the member of the union it uses, and the sender.\<close>

datatype gld_evt_info =
    GLSV_GLD_EVT_RSC_OPEN GLSV_RSC_OPEN_INFO
  | GLSV_GLD_EVT_RSC_CLOSE GLSV_RSC_DETAILS
  | GLSV_GLD_EVT_SET_ORPHAN GLSV_RSC_DETAILS
  | GLSV_GLD_EVT_GLND_DOWN MDS_DEST
  | GLSV_GLD_EVT_GLND_OPERATIONAL
  | GLSV_GLD_EVT_CB_DUMP
  | GLSV_GLD_EVT_REELECTION_TIMEOUT GLD_EVT_TMR
  | GLSV_GLD_EVT_RESTART_TIMEOUT GLD_EVT_TMR
  | GLSV_GLD_EVT_QUISCED_STATE
  | GLSV_GLD_EVT_GLND_DOWN_CLM u32

section \<open>Node records\<close>

definition new_node :: "MDS_DEST \<Rightarrow> GLSV_GLD_GLND_DETAILS" where
  "new_node dest =
     \<lparr>gn_dest_id = dest, gn_node_id = m_NCS_NODE_ID_FROM_MDS_DEST dest,
      gn_status = GLND_OPERATIONAL_STATE, gn_restart_timer = gld_tmr_zero,
      gn_rsc_info_tree = tbl_empty\<rparr>"

definition gld_add_glnd_node ::
  "gld_env \<Rightarrow> MDS_DEST \<Rightarrow> GLSV_GLD_CB \<Rightarrow> (GLSV_GLD_CB \<times> ptr) option" where
  "gld_add_glnd_node E dest cb =
     (let q = ge_node_ptr E
      in case tbl_add (key32 (m_NCS_NODE_ID_FROM_MDS_DEST dest)) q (glnd_details cb) of
           (_, NCSCC_RC_FAILURE) \<Rightarrow> None
         | (t, NCSCC_RC_SUCCESS) \<Rightarrow>
             Some (cb\<lparr>glnd_details := t, nodes := (nodes cb)(q \<mapsto> new_node dest)\<rparr>, q))"

definition find_node :: "GLSV_GLD_CB \<Rightarrow> u32 \<Rightarrow> ptr option" where
  "find_node cb nid = tbl_get (glnd_details cb) (key32 nid)"

definition del_node :: "ptr \<Rightarrow> GLSV_GLD_CB \<Rightarrow> GLSV_GLD_CB option" where
  "del_node q cb = do {
     nd \<leftarrow> nodes cb q;
     case tbl_del_node (key32 (gn_node_id nd)) q (glnd_details cb) of
       (_, NCSCC_RC_FAILURE) \<Rightarrow> Some cb
     | (t, NCSCC_RC_SUCCESS) \<Rightarrow> Some (cb\<lparr>glnd_details := t, nodes := (nodes cb)(q := None)\<rparr>) }"

section \<open>Open\<close>

text \<open>
  The tail of the handler once the resource exists: the reference, the node's place at the
  end of the node list, and the answer. The flag says whether the answer was accepted.
\<close>

definition join_node ::
  "gld_env \<Rightarrow> ptr \<Rightarrow> ptr \<Rightarrow> u32 \<Rightarrow> GLSV_GLD_CB \<Rightarrow> (GLSV_GLD_CB \<times> bool) option" where
  "join_node E q r nid cb = do {
     cb \<leftarrow> gld_rsc_add_node_ref q r cb;
     ri \<leftarrow> rscs cb r;
     if nid \<in> nl_node_id ` set (gr_node_list ri) then Some (cb, True)
     else do {
       nd \<leftarrow> nodes cb q;
       let nl = gr_node_list ri @ [\<lparr>nl_dest_id = gn_dest_id nd, nl_node_id = nid\<rparr>];
       let cb = cb\<lparr>rscs := (rscs cb)(r \<mapsto> ri\<lparr>gr_node_list := nl\<rparr>)\<rparr>;
       let cb = gld_emit (GLD_SND (gn_dest_id nd) (RSC_GLD_DETAILS
                  \<lparr>gi_rsc_name = gr_lck_name ri, gi_rsc_id = gr_rsc_id ri,
                   gi_master_dest_id = nl_dest_id (hd nl), gi_can_orphan = gr_can_orphan ri,
                   gi_orphan_mode = gr_orphan_lck_mode ri, gi_error = SA_AIS_OK\<rparr>)) cb;
       Some (cb, ge_up E (gn_dest_id nd)) } }"

text \<open>One user less, unless the count is already 0.\<close>

definition user_left :: "GLSV_GLD_RSC_INFO \<Rightarrow> GLSV_GLD_RSC_INFO" where
  "user_left ri = (if 0 < saf_rsc_no_of_users ri
                   then ri\<lparr>saf_rsc_no_of_users := saf_rsc_no_of_users ri - 1\<rparr> else ri)"

text \<open>The label \<open>err2\<close>: the open is undone.\<close>

definition undo_open :: "gld_env \<Rightarrow> ptr \<Rightarrow> ptr \<Rightarrow> GLSV_GLD_CB \<Rightarrow> (GLSV_GLD_CB \<times> bool) option" where
  "undo_open E q r cb = do {
     nd \<leftarrow> nodes cb q;
     ri \<leftarrow> rscs cb r;
     case tbl_get (gn_rsc_info_tree nd) (key32 (gr_rsc_id ri)) of
       None \<Rightarrow> Some (cb, False)
     | Some ref \<Rightarrow>
         if ref_rsc_info ref = NULL then Some (cb, False)
         else do {
           cb \<leftarrow> rsc_upd (ref_rsc_info ref) user_left cb;
           cb \<leftarrow> gld_rsc_rmv_node_ref E (ref_rsc_info ref) (Some ref) q False cb;
           Some (cb, True) } }"

definition gld_rsc_open ::
  "gld_env \<Rightarrow> MDS_DEST \<Rightarrow> GLSV_RSC_OPEN_INFO \<Rightarrow> GLSV_GLD_CB \<Rightarrow> (GLSV_GLD_CB \<times> rc) option" where
  "gld_rsc_open E fr info cb = do {
     let nid = m_NCS_NODE_ID_FROM_MDS_DEST fr;
     let first = (find_node cb nid = None);
     (cb, q) \<leftarrow> (case find_node cb nid of
                   Some q \<Rightarrow> Some (cb, q)
                 | None \<Rightarrow> gld_add_glnd_node E fr cb);
     (cb, rsc, error) \<leftarrow> gld_find_add_rsc_name E (ro_rsc_name info) (ro_rsc_id info)
                          (ro_flag info) cb;
     case rsc of
       None \<Rightarrow> do {
         nd \<leftarrow> nodes cb q;
         let cb = gld_emit (GLD_SND (gn_dest_id nd) (RSC_GLD_DETAILS
                    \<lparr>gi_rsc_name = ro_rsc_name info, gi_rsc_id = 0, gi_master_dest_id = 0,
                     gi_can_orphan = False, gi_orphan_mode = SA_LCK_MODE_UNSET,
                     gi_error = error\<rparr>)) cb;
         cb \<leftarrow> (if first then del_node q cb else Some cb);
         Some (cb, NCSCC_RC_FAILURE) }
     | Some r \<Rightarrow> do {
         (cb, sent) \<leftarrow> join_node E q r nid cb;
         if sent then do {
           ri \<leftarrow> rscs cb r;
           Some (gld_emit (GLD_CKPT (A2S_RSC_OPEN (gr_lck_name ri) (gr_rsc_id ri) fr
                   (saf_rsc_creation_time ri))) cb, NCSCC_RC_SUCCESS) }
         else do {
           (cb, undone) \<leftarrow> undo_open E q r cb;
           cb \<leftarrow> (if undone \<and> first then del_node q cb else Some cb);
           Some (cb, NCSCC_RC_FAILURE) } } }"

section \<open>Close and orphan\<close>

definition gld_rsc_close ::
  "gld_env \<Rightarrow> MDS_DEST \<Rightarrow> GLSV_RSC_DETAILS \<Rightarrow> GLSV_GLD_CB \<Rightarrow> (GLSV_GLD_CB \<times> rc) option" where
  "gld_rsc_close E fr d cb =
     (case find_node cb (m_NCS_NODE_ID_FROM_MDS_DEST fr) of
        None \<Rightarrow> Some (cb, NCSCC_RC_FAILURE)
      | Some q \<Rightarrow> do {
          nd \<leftarrow> nodes cb q;
          case tbl_get (gn_rsc_info_tree nd) (key32 (rd_rsc_id d)) of
            None \<Rightarrow> Some (cb, NCSCC_RC_SUCCESS)
          | Some ref \<Rightarrow>
              if ref_rsc_info ref = NULL then Some (cb, NCSCC_RC_SUCCESS)
              else do {
                cb \<leftarrow> rsc_upd (ref_rsc_info ref) user_left cb;
                cb \<leftarrow> (if rd_lcl_ref_cnt d = 0
                       then gld_rsc_rmv_node_ref E (ref_rsc_info ref) (Some ref) q (rd_orphan d) cb
                       else Some cb);
                nd \<leftarrow> nodes cb q;
                Some (gld_emit (GLD_CKPT (A2S_RSC_CLOSE d (gn_dest_id nd))) cb,
                      NCSCC_RC_SUCCESS) } })"

definition gld_rsc_ref_set_orphan ::
  "ptr \<Rightarrow> u32 \<Rightarrow> bool \<Rightarrow> SaLckLockModeT \<Rightarrow> GLSV_GLD_CB \<Rightarrow> (GLSV_GLD_CB \<times> rc) option" where
  "gld_rsc_ref_set_orphan q rsc_id orphan lck_mode cb = do {
     nd \<leftarrow> nodes cb q;
     case tbl_get (gn_rsc_info_tree nd) (key32 rsc_id) of
       None \<Rightarrow> Some (cb, NCSCC_RC_FAILURE)
     | Some ref \<Rightarrow>
         if ref_rsc_info ref = NULL then Some (cb, NCSCC_RC_FAILURE)
         else do {
           cb \<leftarrow> rsc_upd (ref_rsc_info ref)
                  (\<lambda>ri. ri\<lparr>gr_can_orphan := orphan, gr_orphan_lck_mode := lck_mode,
                          saf_rsc_stripped_cnt := saf_rsc_stripped_cnt ri
                                                  + (if orphan then 0 else 1)\<rparr>) cb;
           Some (cb, NCSCC_RC_SUCCESS) } }"

definition gld_rsc_set_orphan ::
  "MDS_DEST \<Rightarrow> GLSV_RSC_DETAILS \<Rightarrow> GLSV_GLD_CB \<Rightarrow> (GLSV_GLD_CB \<times> rc) option" where
  "gld_rsc_set_orphan fr d cb =
     (case find_node cb (m_NCS_NODE_ID_FROM_MDS_DEST fr) of
        None \<Rightarrow> Some (cb, NCSCC_RC_FAILURE)
      | Some q \<Rightarrow> do {
          (cb, rc) \<leftarrow> gld_rsc_ref_set_orphan q (rd_rsc_id d) (rd_orphan d) (rd_lck_mode d) cb;
          if rc = NCSCC_RC_SUCCESS then do {
            nd \<leftarrow> nodes cb q;
            Some (gld_emit (GLD_CKPT (A2S_SET_ORPHAN d (gn_dest_id nd))) cb, NCSCC_RC_SUCCESS) }
          else Some (cb, NCSCC_RC_FAILURE) })"

section \<open>Status of non-master nodes\<close>

text \<open>The head of a resource's node list, its master; an unchecked read of an empty list faults.\<close>

definition rsc_master :: "GLSV_GLD_CB \<Rightarrow> ptr \<Rightarrow> GLSV_NODE_LIST option" where
  "rsc_master cb r = do {
     ri \<leftarrow> rscs cb r;
     (case gr_node_list ri of [] \<Rightarrow> None | n # _ \<Rightarrow> Some n) }"

fun non_master_loop ::
  "gld_env \<Rightarrow> GLSV_GLD_GLND_DETAILS \<Rightarrow> GLND_NODE_STATUS \<Rightarrow> (bytes \<times> GLSV_GLD_GLND_RSC_REF) list
   \<Rightarrow> rc \<Rightarrow> GLSV_GLD_CB \<Rightarrow> (GLSV_GLD_CB \<times> rc) option" where
  "non_master_loop E nd st [] res cb = Some (cb, res)"
| "non_master_loop E nd st ((k, ref) # refs) res cb = do {
     m \<leftarrow> rsc_master cb (ref_rsc_info ref);
     if nl_node_id m \<noteq> gn_node_id nd
     then let cb = gld_emit (GLD_SND (nl_dest_id m) (NON_MASTER_INFO (gn_dest_id nd) st)) cb
          in if ge_up E (nl_dest_id m) then non_master_loop E nd st refs NCSCC_RC_SUCCESS cb
             else Some (cb, NCSCC_RC_FAILURE)
     else non_master_loop E nd st refs res cb }"

definition gld_process_send_non_master_status ::
  "gld_env \<Rightarrow> ptr \<Rightarrow> GLND_NODE_STATUS \<Rightarrow> GLSV_GLD_CB \<Rightarrow> (GLSV_GLD_CB \<times> rc) option" where
  "gld_process_send_non_master_status E q st cb = do {
     nd \<leftarrow> nodes cb q;
     non_master_loop E nd st (tbl_entries (gn_rsc_info_tree nd)) NCSCC_RC_FAILURE cb }"

text \<open>
  \<open>gld_process_send_non_master_info\<close>; its result, which is not even set when the node is the
  master, is ignored by its caller.
\<close>

definition gld_process_send_non_master_info ::
  "ptr \<Rightarrow> GLSV_GLD_GLND_DETAILS \<Rightarrow> GLND_NODE_STATUS \<Rightarrow> GLSV_GLD_CB \<Rightarrow> GLSV_GLD_CB option" where
  "gld_process_send_non_master_info r nd st cb = do {
     m \<leftarrow> rsc_master cb r;
     if nl_node_id m \<noteq> gn_node_id nd
     then Some (gld_emit (GLD_SND (nl_dest_id m) (NON_MASTER_INFO (gn_dest_id nd) st)) cb)
     else Some cb }"

section \<open>A node director reports itself operational\<close>

definition set_dest :: "u32 \<Rightarrow> MDS_DEST \<Rightarrow> GLSV_NODE_LIST \<Rightarrow> GLSV_NODE_LIST" where
  "set_dest nid dest n = (if nl_node_id n = nid then n\<lparr>nl_dest_id := dest\<rparr> else n)"

definition set_dest_all :: "u32 \<Rightarrow> MDS_DEST \<Rightarrow> GLSV_GLD_CB \<Rightarrow> GLSV_GLD_CB option" where
  "set_dest_all nid dest cb =
     for_each (\<lambda>r. rsc_upd r (\<lambda>ri. ri\<lparr>gr_node_list := map (set_dest nid dest) (gr_node_list ri)\<rparr>))
       (rsc_list cb) cb"

text \<open>The loop that broadcasts the status of every resource the node is master of.\<close>

definition announce_masters ::
  "u32 \<Rightarrow> GLND_RESOURCE_STATUS \<Rightarrow> GLSV_GLD_CB \<Rightarrow> GLSV_GLD_CB option" where
  "announce_masters nid st cb =
     for_each (\<lambda>r cb. do {
         m \<leftarrow> rsc_master cb r;
         if nl_node_id m = nid then gld_snd_master_status r st cb else Some cb })
       (rsc_list cb) cb"

definition mi_zero :: GLSV_GLND_RSC_MASTER_INFO where
  "mi_zero = \<lparr>mi_rsc_id = 0, mi_master_dest_id = 0, mi_master_status = GLND_NODE_STATUS_UNSET\<rparr>"

fun non_masters_to :: "ptr \<Rightarrow> GLSV_NODE_LIST list \<Rightarrow> GLSV_GLD_CB \<Rightarrow> GLSV_GLD_CB option" where
  "non_masters_to r [] cb = Some cb"
| "non_masters_to r (n # ns) cb =
     (case find_node cb (nl_node_id n) of
        None \<Rightarrow> non_masters_to r ns cb
      | Some q \<Rightarrow> do {
          nd \<leftarrow> nodes cb q;
          cb \<leftarrow> gld_process_send_non_master_info r nd (gn_status nd) cb;
          non_masters_to r ns cb })"

fun master_info_loop ::
  "u32 \<Rightarrow> (bytes \<times> GLSV_GLD_GLND_RSC_REF) list \<Rightarrow> GLSV_GLD_CB
   \<Rightarrow> (GLSV_GLD_CB \<times> GLSV_GLND_RSC_MASTER_INFO list) option" where
  "master_info_loop nid [] cb = Some (cb, [])"
| "master_info_loop nid ((k, ref) # refs) cb = do {
     ri \<leftarrow> rscs cb (ref_rsc_info ref);
     m \<leftarrow> rsc_master cb (ref_rsc_info ref);
     case find_node cb (nl_node_id m) of
       None \<Rightarrow> master_info_loop nid refs cb
     | Some mq \<Rightarrow> do {
         mnd \<leftarrow> nodes cb mq;
         cb \<leftarrow> (if gn_node_id mnd = nid
                then non_masters_to (ref_rsc_info ref) (tl (gr_node_list ri)) cb else Some cb);
         (cb, infos) \<leftarrow> master_info_loop nid refs cb;
         Some (cb, \<lparr>mi_rsc_id = ref_rsc_id ref, mi_master_dest_id = nl_dest_id m,
                    mi_master_status = gn_status mnd\<rparr> # infos) } }"

text \<open>
  The message holds one entry per reference; those of resources whose master has no node
  record stay zero, at the end.
\<close>

definition gld_send_res_master_info ::
  "gld_env \<Rightarrow> ptr option \<Rightarrow> MDS_DEST \<Rightarrow> GLSV_GLD_CB \<Rightarrow> (GLSV_GLD_CB \<times> rc) option" where
  "gld_send_res_master_info E q dest cb = do {
     (cb, infos) \<leftarrow> (case q of
         None \<Rightarrow> Some (cb, [])
       | Some q \<Rightarrow> do {
           nd \<leftarrow> nodes cb q;
           let refs = tbl_entries (gn_rsc_info_tree nd);
           (cb, infos) \<leftarrow> master_info_loop (gn_node_id nd) refs cb;
           Some (cb, infos @ replicate (length refs - length infos) mi_zero) });
     Some (gld_emit (GLD_SND dest (RSC_MASTER_INFO infos)) cb,
           if ge_up E dest then NCSCC_RC_SUCCESS else NCSCC_RC_FAILURE) }"

definition gld_glnd_operational ::
  "gld_env \<Rightarrow> MDS_DEST \<Rightarrow> GLSV_GLD_CB \<Rightarrow> (GLSV_GLD_CB \<times> rc) option" where
  "gld_glnd_operational E fr cb = do {
     let nid = m_NCS_NODE_ID_FROM_MDS_DEST fr;
     let node = find_node cb nid;
     cb \<leftarrow> (case node of
         None \<Rightarrow> Some cb
       | Some q \<Rightarrow> do {
           nd \<leftarrow> nodes cb q;
           let (t, os) = gld_stop_tmr (gn_restart_timer nd);
           let cb = gld_emits os (cb\<lparr>nodes := (nodes cb)(q \<mapsto> nd\<lparr>gn_dest_id := fr,
                       gn_restart_timer := t, gn_status := GLND_OPERATIONAL_STATE\<rparr>)\<rparr>);
           cb \<leftarrow> set_dest_all nid fr cb;
           let cb = gld_emit (GLD_CKPT (A2S_GLND_OPERATIONAL fr)) cb;
           cb \<leftarrow> announce_masters (gn_node_id nd) GLND_RESOURCE_MASTER_OPERATIONAL cb;
           (cb, _) \<leftarrow> gld_process_send_non_master_status E q GLND_OPERATIONAL_STATE cb;
           Some cb });
     (cb, _) \<leftarrow> gld_send_res_master_info E node fr cb;
     Some (cb, NCSCC_RC_SUCCESS) }"

section \<open>A node director goes down\<close>

text \<open>Here the empty node list is tested before the master is read.\<close>

definition announce_masters_checked ::
  "u32 \<Rightarrow> GLND_RESOURCE_STATUS \<Rightarrow> GLSV_GLD_CB \<Rightarrow> GLSV_GLD_CB option" where
  "announce_masters_checked nid st cb =
     for_each (\<lambda>r cb. do {
         ri \<leftarrow> rscs cb r;
         case gr_node_list ri of
           [] \<Rightarrow> Some cb
         | m # _ \<Rightarrow> if nl_node_id m = nid then gld_snd_master_status r st cb else Some cb })
       (rsc_list cb) cb"

definition gld_clm_glnd_down ::
  "gld_env \<Rightarrow> u32 \<Rightarrow> GLSV_GLD_CB \<Rightarrow> (GLSV_GLD_CB \<times> rc) option" where
  "gld_clm_glnd_down E nid cb =
     (case find_node cb nid of
        None \<Rightarrow> Some (cb, NCSCC_RC_SUCCESS)
      | Some q \<Rightarrow> do {
          cb \<leftarrow> node_upd q (\<lambda>nd. nd\<lparr>gn_status := GLND_RESTART_STATE\<rparr>) cb;
          cb \<leftarrow> node_start_restart E q cb;
          cb \<leftarrow> (if ha_state cb = SA_AMF_HA_ACTIVE then do {
              nd \<leftarrow> nodes cb q;
              cb \<leftarrow> announce_masters_checked (gn_node_id nd) GLND_RESOURCE_MASTER_RESTARTED cb;
              (cb, _) \<leftarrow> gld_process_send_non_master_status E q GLND_RESTART_STATE cb;
              Some cb }
            else Some cb);
          Some (cb, NCSCC_RC_FAILURE) })"

definition gld_mds_glnd_down ::
  "gld_env \<Rightarrow> MDS_DEST \<Rightarrow> GLSV_GLD_CB \<Rightarrow> (GLSV_GLD_CB \<times> rc) option" where
  "gld_mds_glnd_down E dest cb = do {
     (cb, _) \<leftarrow> gld_clm_glnd_down E (m_NCS_NODE_ID_FROM_MDS_DEST dest) cb;
     Some (cb, NCSCC_RC_FAILURE) }"

section \<open>Timeouts\<close>

definition gld_process_tmr_resource_reelection_wait_timeout ::
  "u32 \<Rightarrow> GLSV_GLD_CB \<Rightarrow> (GLSV_GLD_CB \<times> rc) option" where
  "gld_process_tmr_resource_reelection_wait_timeout res_id cb = do {
     r \<leftarrow> gld_find_rsc_by_id cb res_id;
     cb \<leftarrow> (case r of
         None \<Rightarrow> Some cb
       | Some p \<Rightarrow> gld_snd_master_status p GLND_RESOURCE_ELECTION_COMPLETED cb);
     Some (cb, NCSCC_RC_SUCCESS) }"

text \<open>
  The loop that drops every reference of a node: each step asks \<open>getnext\<close> for the successor
  of the id it has just removed. \<open>None\<close> also stands for a loop that is still running when
  the fuel is used up; one unit more than the number of references is enough.
\<close>

fun rmv_all_refs ::
  "nat \<Rightarrow> gld_env \<Rightarrow> ptr \<Rightarrow> bytes option \<Rightarrow> GLSV_GLD_CB \<Rightarrow> GLSV_GLD_CB option" where
  "rmv_all_refs 0 E q ko cb = None"
| "rmv_all_refs (Suc n) E q ko cb = do {
     nd \<leftarrow> nodes cb q;
     case tbl_getnext (gn_rsc_info_tree nd) ko of
       None \<Rightarrow> Some cb
     | Some (k, ref) \<Rightarrow> do {
         ri \<leftarrow> rscs cb (ref_rsc_info ref);
         cb \<leftarrow> gld_rsc_rmv_node_ref E (ref_rsc_info ref) (Some ref) q (gr_can_orphan ri) cb;
         rmv_all_refs n E q (Some (key32 (ref_rsc_id ref))) cb } }"

definition gld_process_tmr_node_restart_wait_timeout ::
  "gld_env \<Rightarrow> MDS_DEST \<Rightarrow> GLSV_GLD_CB \<Rightarrow> (GLSV_GLD_CB \<times> rc) option" where
  "gld_process_tmr_node_restart_wait_timeout E dest cb =
     (case find_node cb (m_NCS_NODE_ID_FROM_MDS_DEST dest) of
        None \<Rightarrow> Some (cb, NCSCC_RC_FAILURE)
      | Some q \<Rightarrow>
          if ha_state cb = SA_AMF_HA_ACTIVE then do {
            nd \<leftarrow> nodes cb q;
            let cb = gld_emit (GLD_CKPT (A2S_GLND_DOWN (gn_dest_id nd))) cb;
            (cb, _) \<leftarrow> gld_process_send_non_master_status E q GLND_DOWN_STATE cb;
            cb \<leftarrow> rmv_all_refs (Suc (length (gn_rsc_info_tree nd))) E q None cb;
            cb \<leftarrow> del_node q cb;
            Some (cb, NCSCC_RC_SUCCESS) }
          else do {
            cb \<leftarrow> node_upd q (\<lambda>nd. nd\<lparr>gn_status := GLND_DOWN_STATE\<rparr>) cb;
            Some (cb, NCSCC_RC_SUCCESS) })"

section \<open>Leaving the active role\<close>

definition gld_quisced_process :: "gld_env \<Rightarrow> GLSV_GLD_CB \<Rightarrow> GLSV_GLD_CB \<times> rc" where
  "gld_quisced_process E cb =
     (if is_quiasced cb then
        let cb = gld_emits [GLD_IMM_CLEAR, GLD_MBCSV_CHGROLE]
                   (cb\<lparr>ha_state := SA_AMF_HA_QUIESCED, is_impl_set := False\<rparr>)
        in if ge_chgrole E \<noteq> NCSCC_RC_SUCCESS then (cb, ge_chgrole E)
           else (gld_emit (GLD_AMF_RESPONSE (gld_invocation cb) SA_AIS_OK)
                   (cb\<lparr>is_quiasced := False\<rparr>), NCSCC_RC_SUCCESS)
      else (cb, NCSCC_RC_SUCCESS))"

section \<open>Dispatch\<close>

definition gld_dispatch ::
  "gld_env \<Rightarrow> MDS_DEST \<Rightarrow> gld_evt_info \<Rightarrow> GLSV_GLD_CB \<Rightarrow> (GLSV_GLD_CB \<times> rc) option" where
  "gld_dispatch E fr evt cb =
     (case evt of
        GLSV_GLD_EVT_RSC_OPEN info \<Rightarrow> gld_rsc_open E fr info cb
      | GLSV_GLD_EVT_RSC_CLOSE d \<Rightarrow> gld_rsc_close E fr d cb
      | GLSV_GLD_EVT_SET_ORPHAN d \<Rightarrow> gld_rsc_set_orphan fr d cb
      | GLSV_GLD_EVT_GLND_DOWN dest \<Rightarrow> gld_mds_glnd_down E dest cb
      | GLSV_GLD_EVT_GLND_OPERATIONAL \<Rightarrow> gld_glnd_operational E fr cb
      | GLSV_GLD_EVT_CB_DUMP \<Rightarrow> Some (cb, NCSCC_RC_SUCCESS)
      | GLSV_GLD_EVT_REELECTION_TIMEOUT t \<Rightarrow>
          gld_process_tmr_resource_reelection_wait_timeout (et_resource_id t) cb
      | GLSV_GLD_EVT_RESTART_TIMEOUT t \<Rightarrow>
          gld_process_tmr_node_restart_wait_timeout E (et_mdest_id t) cb
      | GLSV_GLD_EVT_QUISCED_STATE \<Rightarrow> Some (gld_quisced_process E cb)
      | GLSV_GLD_EVT_GLND_DOWN_CLM nid \<Rightarrow> gld_clm_glnd_down E nid cb)"

definition standby_evt :: "gld_evt_info \<Rightarrow> bool" where
  "standby_evt evt = (case evt of GLSV_GLD_EVT_GLND_DOWN _ \<Rightarrow> True
                      | GLSV_GLD_EVT_RESTART_TIMEOUT _ \<Rightarrow> True | _ \<Rightarrow> False)"

text \<open>The second test reads the HA state the active handler may have left.\<close>

definition gld_process_evt ::
  "gld_env \<Rightarrow> MDS_DEST \<Rightarrow> gld_evt_info \<Rightarrow> GLSV_GLD_CB \<Rightarrow> GLSV_GLD_CB option" where
  "gld_process_evt E fr evt cb = do {
     cb \<leftarrow> (if ha_state cb = SA_AMF_HA_ACTIVE then map_option fst (gld_dispatch E fr evt cb)
            else Some cb);
     if ha_state cb = SA_AMF_HA_STANDBY \<and> standby_evt evt
     then map_option fst (gld_dispatch E fr evt cb)
     else Some cb }"

end
