(* ===== verification/Gld_Standby.thy ===== *)
theory Gld_Standby
  imports Gld_Evt
begin

text \<open>
  The standby lock director (\<open>lck/lckd/gld_standby.c\<close>, \<open>gld_mbcsv.c\<close>): the handlers of the
  checkpoint messages the active director sends after each change, the records of a cold sync
  in both directions, and the steps of a failover (\<open>gld_amf.c\<close>, \<open>gld_process_node_down_evts\<close>
  of \<open>gld_mds.c\<close>).

  The encoding of the messages is the one of the EDU library, which gives the standby the
  values the active director put in; \<open>None\<close> is a fault, as in the other theories.
\<close>

section \<open>Checkpoint messages\<close>

definition glsv_gld_standby_rsc_open ::
  "gld_env \<Rightarrow> SaNameT \<Rightarrow> u32 \<Rightarrow> MDS_DEST \<Rightarrow> SaTimeT \<Rightarrow> GLSV_GLD_CB \<Rightarrow> (GLSV_GLD_CB \<times> rc) option" where
  "glsv_gld_standby_rsc_open E name rsc_id dest time cb = do {
     let nid = m_NCS_NODE_ID_FROM_MDS_DEST dest;
     (cb, q) \<leftarrow> (case find_node cb nid of
                   Some q \<Rightarrow> Some (cb, q)
                 | None \<Rightarrow> gld_add_glnd_node E dest cb);
     (cb, rsc, error) \<leftarrow> gld_find_add_rsc_name E name rsc_id 0 cb;
     case rsc of
       None \<Rightarrow> Some (cb, NCSCC_RC_FAILURE)
     | Some r \<Rightarrow> do {
         cb \<leftarrow> rsc_upd r (\<lambda>ri. ri\<lparr>saf_rsc_creation_time := time\<rparr>) cb;
         cb \<leftarrow> gld_rsc_add_node_ref q r cb;
         ri \<leftarrow> rscs cb r;
         if nid \<in> nl_node_id ` set (gr_node_list ri) then Some (cb, NCSCC_RC_SUCCESS)
         else do {
           nd \<leftarrow> nodes cb q;
           let nl = gr_node_list ri @ [\<lparr>nl_dest_id = gn_dest_id nd, nl_node_id = nid\<rparr>];
           Some (cb\<lparr>rscs := (rscs cb)(r \<mapsto> ri\<lparr>gr_node_list := nl\<rparr>)\<rparr>, NCSCC_RC_SUCCESS) } } }"

text \<open>Unlike the active director, the standby one counts a user down without looking at the count.\<close>

definition glsv_gld_standby_rsc_close ::
  "gld_env \<Rightarrow> GLSV_RSC_DETAILS \<Rightarrow> MDS_DEST \<Rightarrow> GLSV_GLD_CB \<Rightarrow> (GLSV_GLD_CB \<times> rc) option" where
  "glsv_gld_standby_rsc_close E d dest cb =
     (case find_node cb (m_NCS_NODE_ID_FROM_MDS_DEST dest) of
        None \<Rightarrow> Some (cb, NCSCC_RC_FAILURE)
      | Some q \<Rightarrow> do {
          nd \<leftarrow> nodes cb q;
          case tbl_get (gn_rsc_info_tree nd) (key32 (rd_rsc_id d)) of
            None \<Rightarrow> Some (cb, NCSCC_RC_FAILURE)
          | Some ref \<Rightarrow> do {
              cb \<leftarrow> rsc_upd (ref_rsc_info ref)
                     (\<lambda>ri. ri\<lparr>saf_rsc_no_of_users := saf_rsc_no_of_users ri - 1\<rparr>) cb;
              cb \<leftarrow> (if rd_lcl_ref_cnt d = 0
                     then gld_rsc_rmv_node_ref E (ref_rsc_info ref) (Some ref) q (rd_orphan d) cb
                     else Some cb);
              Some (cb, NCSCC_RC_SUCCESS) } })"

definition glsv_gld_standby_rsc_set_orphan ::
  "GLSV_RSC_DETAILS \<Rightarrow> MDS_DEST \<Rightarrow> GLSV_GLD_CB \<Rightarrow> (GLSV_GLD_CB \<times> rc) option" where
  "glsv_gld_standby_rsc_set_orphan d dest cb =
     (case find_node cb (m_NCS_NODE_ID_FROM_MDS_DEST dest) of
        None \<Rightarrow> Some (cb, NCSCC_RC_FAILURE)
      | Some q \<Rightarrow> gld_rsc_ref_set_orphan q (rd_rsc_id d) (rd_orphan d) (rd_lck_mode d) cb)"

text \<open>
  The node-down handler reads \<open>info.rsc_details.orphan\<close> of a message whose union holds
  \<open>glnd_mds_info.mdest_id\<close>: on the little-endian hosts the octet at offset 4 of the
  destination, which is the low octet of the node id. One flag serves all resources.
\<close>

definition a2s_down_orphan :: "MDS_DEST \<Rightarrow> bool" where
  "a2s_down_orphan dest = ((ucast (drop_bit 32 dest) :: u8) \<noteq> 0)"

text \<open>The loop is the one of the active director, with that flag; see \<open>rmv_all_refs\<close> for the fuel.\<close>

fun sb_rmv_all_refs ::
  "nat \<Rightarrow> gld_env \<Rightarrow> ptr \<Rightarrow> bool \<Rightarrow> bytes option \<Rightarrow> GLSV_GLD_CB \<Rightarrow> GLSV_GLD_CB option" where
  "sb_rmv_all_refs 0 E q flag ko cb = None"
| "sb_rmv_all_refs (Suc n) E q flag ko cb = do {
     nd \<leftarrow> nodes cb q;
     case tbl_getnext (gn_rsc_info_tree nd) ko of
       None \<Rightarrow> Some cb
     | Some (k, ref) \<Rightarrow> do {
         cb \<leftarrow> gld_rsc_rmv_node_ref E (ref_rsc_info ref) (Some ref) q flag cb;
         sb_rmv_all_refs n E q flag (Some (key32 (ref_rsc_id ref))) cb } }"

text \<open>The node record is freed even when it could not be taken out of the tree.\<close>

definition glsv_gld_standby_mds_glnd_down ::
  "gld_env \<Rightarrow> MDS_DEST \<Rightarrow> GLSV_GLD_CB \<Rightarrow> (GLSV_GLD_CB \<times> rc) option" where
  "glsv_gld_standby_mds_glnd_down E dest cb =
     (case find_node cb (m_NCS_NODE_ID_FROM_MDS_DEST dest) of
        None \<Rightarrow> Some (cb, NCSCC_RC_FAILURE)
      | Some q \<Rightarrow> do {
          nd \<leftarrow> nodes cb q;
          cb \<leftarrow> sb_rmv_all_refs (Suc (length (gn_rsc_info_tree nd))) E q (a2s_down_orphan dest) None cb;
          nd \<leftarrow> nodes cb q;
          let cb = (if gt_tmr_id (gn_restart_timer nd) \<noteq> 0
                    then gld_emits (snd (gld_stop_tmr (gn_restart_timer nd))) cb else cb);
          let t = fst (tbl_del_node (key32 (gn_node_id nd)) q (glnd_details cb));
          Some (cb\<lparr>glnd_details := t, nodes := (nodes cb)(q := None)\<rparr>, NCSCC_RC_SUCCESS) })"

definition glsv_gld_standby_glnd_operational ::
  "MDS_DEST \<Rightarrow> GLSV_GLD_CB \<Rightarrow> (GLSV_GLD_CB \<times> rc) option" where
  "glsv_gld_standby_glnd_operational dest cb = do {
     let nid = m_NCS_NODE_ID_FROM_MDS_DEST dest;
     cb \<leftarrow> (case find_node cb nid of
         None \<Rightarrow> Some cb
       | Some q \<Rightarrow> do {
           nd \<leftarrow> nodes cb q;
           let (t, os) = gld_stop_tmr (gn_restart_timer nd);
           let cb = gld_emits os (cb\<lparr>nodes := (nodes cb)(q \<mapsto> nd\<lparr>gn_dest_id := dest,
                       gn_restart_timer := t, gn_status := GLND_OPERATIONAL_STATE\<rparr>)\<rparr>);
           set_dest_all nid dest cb });
     Some (cb, NCSCC_RC_SUCCESS) }"

definition gld_process_standby_evt ::
  "gld_env \<Rightarrow> gld_a2s_evt \<Rightarrow> GLSV_GLD_CB \<Rightarrow> (GLSV_GLD_CB \<times> rc) option" where
  "gld_process_standby_evt E evt cb =
     (case evt of
        A2S_RSC_OPEN name rsc_id dest time \<Rightarrow> glsv_gld_standby_rsc_open E name rsc_id dest time cb
      | A2S_RSC_CLOSE d dest \<Rightarrow> glsv_gld_standby_rsc_close E d dest cb
      | A2S_SET_ORPHAN d dest \<Rightarrow> glsv_gld_standby_rsc_set_orphan d dest cb
      | A2S_GLND_DOWN dest \<Rightarrow> glsv_gld_standby_mds_glnd_down E dest cb
      | A2S_GLND_OPERATIONAL dest \<Rightarrow> glsv_gld_standby_glnd_operational dest cb)"

definition glsv_gld_mbcsv_dec_async_update ::
  "gld_env \<Rightarrow> gld_a2s_evt \<Rightarrow> GLSV_GLD_CB \<Rightarrow> (GLSV_GLD_CB \<times> rc) option" where
  "glsv_gld_mbcsv_dec_async_update E evt cb =
     gld_process_standby_evt E evt (cb\<lparr>gld_async_cnt := gld_async_cnt cb + 1\<rparr>)"

section \<open>Cold sync\<close>

record GLSV_A2S_NODE_LIST =
  an_dest_id :: MDS_DEST
  an_node_id :: u32
  an_status :: GLND_NODE_STATUS

record GLSV_GLD_A2S_RSC_DETAILS =
  ad_resource_name :: SaNameT
  ad_rsc_id :: u32
  ad_can_orphan :: bool
  ad_orphan_lck_mode :: SaLckLockModeT
  ad_node_list :: "GLSV_A2S_NODE_LIST list"

definition MAX_NO_OF_RSC_INFO_RECORDS :: nat where "MAX_NO_OF_RSC_INFO_RECORDS = 10"

text \<open>
  The active side. The node id of an entry is never filled in. A resource without nodes is
  sent with one entry of zeros. \<open>None\<close> within the option is the error return for a node
  without a record; the first entry of a list is let through without one.
\<close>

definition a2s_entry :: "GLSV_NODE_LIST \<Rightarrow> GLND_NODE_STATUS \<Rightarrow> GLSV_A2S_NODE_LIST" where
  "a2s_entry n st = \<lparr>an_dest_id = nl_dest_id n, an_node_id = 0, an_status = st\<rparr>"

definition node_status :: "GLSV_GLD_CB \<Rightarrow> u32 \<Rightarrow> GLND_NODE_STATUS option option" where
  "node_status cb nid =
     (case find_node cb nid of
        None \<Rightarrow> Some None
      | Some q \<Rightarrow> do { nd \<leftarrow> nodes cb q; Some (Some (gn_status nd)) })"

fun a2s_tail :: "GLSV_GLD_CB \<Rightarrow> GLSV_NODE_LIST list \<Rightarrow> GLSV_A2S_NODE_LIST list option option" where
  "a2s_tail cb [] = Some (Some [])"
| "a2s_tail cb (n # ns) = do {
     st \<leftarrow> node_status cb (nl_node_id n);
     case st of
       None \<Rightarrow> Some None
     | Some s \<Rightarrow> do { r \<leftarrow> a2s_tail cb ns; Some (map_option (\<lambda>es. a2s_entry n s # es) r) } }"

definition a2s_node_list :: "GLSV_GLD_CB \<Rightarrow> GLSV_NODE_LIST list \<Rightarrow> GLSV_A2S_NODE_LIST list option option" where
  "a2s_node_list cb ns =
     (case ns of
        [] \<Rightarrow> Some (Some [\<lparr>an_dest_id = 0, an_node_id = 0, an_status = GLND_NODE_STATUS_UNSET\<rparr>])
      | n # ns \<Rightarrow> do {
          st \<leftarrow> node_status cb (nl_node_id n);
          let s = (case st of None \<Rightarrow> GLND_NODE_STATUS_UNSET | Some s \<Rightarrow> s);
          r \<leftarrow> a2s_tail cb ns;
          Some (map_option (\<lambda>es. a2s_entry n s # es) r) })"

definition a2s_details :: "GLSV_GLD_RSC_INFO \<Rightarrow> GLSV_A2S_NODE_LIST list \<Rightarrow> GLSV_GLD_A2S_RSC_DETAILS" where
  "a2s_details ri es = \<lparr>ad_resource_name = gr_lck_name ri, ad_rsc_id = gr_rsc_id ri,
     ad_can_orphan = gr_can_orphan ri, ad_orphan_lck_mode = gr_orphan_lck_mode ri, ad_node_list = es\<rparr>"

text \<open>The records of the resources from a place in the list on, and the resource it stopped at.\<close>

fun enc_loop ::
  "GLSV_GLD_CB \<Rightarrow> nat \<Rightarrow> ptr list \<Rightarrow> (GLSV_GLD_A2S_RSC_DETAILS list \<times> ptr option) option option" where
  "enc_loop cb n [] = Some (Some ([], None))"
| "enc_loop cb n (p # ps) = do {
     ri \<leftarrow> rscs cb p;
     es \<leftarrow> a2s_node_list cb (gr_node_list ri);
     case es of
       None \<Rightarrow> Some None
     | Some es \<Rightarrow>
         if Suc n = MAX_NO_OF_RSC_INFO_RECORDS then Some (Some ([a2s_details ri es], Some p))
         else do {
           r \<leftarrow> enc_loop cb (Suc n) ps;
           Some (map_option (\<lambda>(ds, l). (a2s_details ri es # ds, l)) r) } }"

text \<open>Where the next message starts: after the resource the last one stopped at.\<close>

fun after_id :: "GLSV_GLD_CB \<Rightarrow> u32 \<Rightarrow> ptr list \<Rightarrow> ptr list option" where
  "after_id cb rid [] = Some []"
| "after_id cb rid (p # ps) = do {
     ri \<leftarrow> rscs cb p;
     if gr_rsc_id ri = rid then Some ps else after_id cb rid ps }"

text \<open>
  A message: whether the buffer holds anything, the records, the count of updates sent so far,
  and whether it is the last.
\<close>

record sync_msg =
  sm_data :: bool
  sm_records :: "GLSV_GLD_A2S_RSC_DETAILS list"
  sm_async_cnt :: u32
  sm_complete :: bool

definition glsv_gld_mbcsv_enc_msg_rsp :: "GLSV_GLD_CB \<Rightarrow> (GLSV_GLD_CB \<times> sync_msg option) option" where
  "glsv_gld_mbcsv_enc_msg_rsp cb =
     (if ha_state cb = SA_AMF_HA_STANDBY then Some (cb, None)
      else do {
        ps \<leftarrow> (if prev_rsc_id cb = 0 then Some (rsc_list cb) else after_id cb (prev_rsc_id cb) (rsc_list cb));
        if ps = [] then Some (cb, None)
        else do {
          r \<leftarrow> enc_loop cb 0 ps;
          case r of
            None \<Rightarrow> Some (cb, None)
          | Some (ds, stop) \<Rightarrow> do {
              cb \<leftarrow> (case stop of
                      None \<Rightarrow> Some cb
                    | Some p \<Rightarrow> do { ri \<leftarrow> rscs cb p; Some (cb\<lparr>prev_rsc_id := gr_rsc_id ri\<rparr>) });
              let last = (length ds < MAX_NO_OF_RSC_INFO_RECORDS);
              let cb = (if last then cb\<lparr>prev_rsc_id := 0\<rparr> else cb);
              Some (cb, Some \<lparr>sm_data = True, sm_records = ds, sm_async_cnt = gld_async_cnt cb, sm_complete = last\<rparr>) } } })"

text \<open>
  The answer to a cold sync request: an empty list of resources is complete at once, with
  nothing encoded; a message of \<open>None\<close> is the error return.
\<close>

definition enc_cold_sync_resp :: "GLSV_GLD_CB \<Rightarrow> (GLSV_GLD_CB \<times> sync_msg option) option" where
  "enc_cold_sync_resp cb =
     (if rsc_list cb \<noteq> [] then glsv_gld_mbcsv_enc_msg_rsp cb
      else Some (cb, Some \<lparr>sm_data = False, sm_records = [], sm_async_cnt = 0, sm_complete = True\<rparr>))"

text \<open>The standby side; \<open>np\<close> gives the address \<open>malloc\<close> returns for the record of a node.\<close>

definition sb_node ::
  "gld_env \<Rightarrow> (u32 \<Rightarrow> ptr) \<Rightarrow> GLSV_A2S_NODE_LIST \<Rightarrow> GLSV_GLD_CB \<Rightarrow> (GLSV_GLD_CB \<times> ptr) option" where
  "sb_node E np n cb =
     (let nid = m_NCS_NODE_ID_FROM_MDS_DEST (an_dest_id n)
      in case find_node cb nid of
        Some q \<Rightarrow> Some (cb, q)
      | None \<Rightarrow> do {
          (cb, q) \<leftarrow> gld_add_glnd_node (E\<lparr>ge_node_ptr := np nid\<rparr>) (an_dest_id n) cb;
          cb \<leftarrow> node_upd q (\<lambda>nd. nd\<lparr>gn_status := an_status n\<rparr>) cb;
          cb \<leftarrow> (if an_status n = GLND_RESTART_STATE then node_start_restart E q cb else Some cb);
          Some (cb, q) })"

text \<open>The list is searched for the node id of the message, and the one of the record appended.\<close>

fun sb_nodes ::
  "gld_env \<Rightarrow> (u32 \<Rightarrow> ptr) \<Rightarrow> ptr \<Rightarrow> GLSV_A2S_NODE_LIST list \<Rightarrow> GLSV_GLD_CB \<Rightarrow> GLSV_GLD_CB option" where
  "sb_nodes E np r [] cb = Some cb"
| "sb_nodes E np r (n # ns) cb = do {
     (cb, q) \<leftarrow> sb_node E np n cb;
     cb \<leftarrow> gld_rsc_add_node_ref q r cb;
     ri \<leftarrow> rscs cb r;
     nd \<leftarrow> nodes cb q;
     let nl = (if an_node_id n \<in> nl_node_id ` set (gr_node_list ri) then gr_node_list ri
               else gr_node_list ri @ [\<lparr>nl_dest_id = gn_dest_id nd, nl_node_id = gn_node_id nd\<rparr>]);
     sb_nodes E np r ns (cb\<lparr>rscs := (rscs cb)(r \<mapsto> ri\<lparr>gr_node_list := nl\<rparr>)\<rparr>) }"

definition gld_sb_proc_data_rsp ::
  "gld_env \<Rightarrow> (u32 \<Rightarrow> ptr) \<Rightarrow> GLSV_GLD_A2S_RSC_DETAILS \<Rightarrow> GLSV_GLD_CB \<Rightarrow> (GLSV_GLD_CB \<times> rc) option" where
  "gld_sb_proc_data_rsp E np d cb = do {
     (cb, rsc) \<leftarrow> (case tbl_get (rsc_info_id cb) (key32 (ad_rsc_id d)) of
         Some r \<Rightarrow> Some (cb, Some r)
       | None \<Rightarrow> do {
           (cb, rsc, _) \<leftarrow> gld_add_rsc_info E (ad_resource_name d) (ad_rsc_id d) cb;
           Some (cb, rsc) });
     case rsc of
       None \<Rightarrow> Some (cb, NCSCC_RC_FAILURE)
     | Some r \<Rightarrow> do {
         cb \<leftarrow> rsc_upd r (\<lambda>ri. ri\<lparr>gr_can_orphan := ad_can_orphan d\<rparr>) cb;
         if ad_node_list d = [] then Some (cb, NCSCC_RC_FAILURE)
         else do {
           cb \<leftarrow> sb_nodes E np r (ad_node_list d) cb;
           Some (cb, NCSCC_RC_SUCCESS) } } }"

text \<open>The address of a new resource comes from \<open>rp\<close>, which maps its id to it.\<close>

fun dec_records ::
  "gld_env \<Rightarrow> (u32 \<Rightarrow> ptr) \<Rightarrow> (u32 \<Rightarrow> ptr) \<Rightarrow> GLSV_GLD_A2S_RSC_DETAILS list \<Rightarrow> GLSV_GLD_CB
   \<Rightarrow> GLSV_GLD_CB option" where
  "dec_records E rp np [] cb = Some cb"
| "dec_records E rp np (d # ds) cb = do {
     (cb, _) \<leftarrow> gld_sb_proc_data_rsp (E\<lparr>ge_rsc_ptr := rp (ad_rsc_id d)\<rparr>) np d cb;
     dec_records E rp np ds cb }"

definition glsv_gld_mbcsv_dec_sync_resp ::
  "gld_env \<Rightarrow> (u32 \<Rightarrow> ptr) \<Rightarrow> (u32 \<Rightarrow> ptr) \<Rightarrow> sync_msg \<Rightarrow> GLSV_GLD_CB \<Rightarrow> GLSV_GLD_CB option" where
  "glsv_gld_mbcsv_dec_sync_resp E rp np m cb =
     (if \<not> sm_data m then Some cb
      else do {
        cb \<leftarrow> dec_records E rp np (sm_records m) cb;
        Some (cb\<lparr>gld_async_cnt := sm_async_cnt m\<rparr>) })"

section \<open>Warm sync\<close>

text \<open>
  \<open>gld_cb_destroy\<close> (\<open>gld_api.c\<close>) empties the database: every node with its references, then
  every resource. Each loop asks for the first entry until there is none; one unit of fuel
  more than the number of entries is enough. The restart timers of the nodes are not stopped.
\<close>

fun destroy_refs :: "nat \<Rightarrow> GLSV_GLD_GLND_RSC_REF table \<Rightarrow> (GLSV_GLD_GLND_RSC_REF table \<times> rc) option" where
  "destroy_refs 0 t = None"
| "destroy_refs (Suc n) t =
     (case tbl_getnext t None of
        None \<Rightarrow> Some (t, NCSCC_RC_SUCCESS)
      | Some (k, ref) \<Rightarrow>
          (case tbl_del k t of
             (_, NCSCC_RC_FAILURE) \<Rightarrow> Some (t, NCSCC_RC_FAILURE)
           | (t', NCSCC_RC_SUCCESS) \<Rightarrow> destroy_refs n t'))"

fun destroy_nodes :: "nat \<Rightarrow> GLSV_GLD_CB \<Rightarrow> (GLSV_GLD_CB \<times> rc) option" where
  "destroy_nodes 0 cb = None"
| "destroy_nodes (Suc n) cb =
     (case tbl_getnext (glnd_details cb) None of
        None \<Rightarrow> Some (cb, NCSCC_RC_SUCCESS)
      | Some (k, q) \<Rightarrow> do {
          nd \<leftarrow> nodes cb q;
          (t, rc) \<leftarrow> destroy_refs (Suc (length (gn_rsc_info_tree nd))) (gn_rsc_info_tree nd);
          let cb = cb\<lparr>nodes := (nodes cb)(q \<mapsto> nd\<lparr>gn_rsc_info_tree := t\<rparr>)\<rparr>;
          if rc = NCSCC_RC_FAILURE then Some (cb, NCSCC_RC_FAILURE)
          else (case tbl_del_node (key32 (gn_node_id nd)) q (glnd_details cb) of
              (_, NCSCC_RC_FAILURE) \<Rightarrow> Some (cb, NCSCC_RC_FAILURE)
            | (u, NCSCC_RC_SUCCESS) \<Rightarrow>
                destroy_nodes n (cb\<lparr>glnd_details := u, nodes := (nodes cb)(q := None)\<rparr>)) })"

fun destroy_rscs :: "nat \<Rightarrow> GLSV_GLD_CB \<Rightarrow> GLSV_GLD_CB option" where
  "destroy_rscs 0 cb = None"
| "destroy_rscs (Suc n) cb =
     (case tbl_getnext (rsc_info_id cb) None of
        None \<Rightarrow> Some cb
      | Some (k, r) \<Rightarrow> do {
          cb \<leftarrow> rsc_upd r (\<lambda>ri. ri\<lparr>gr_node_list := []\<rparr>) cb;
          cb \<leftarrow> gld_free_rsc_info r cb;
          destroy_rscs n cb })"

definition gld_cb_destroy :: "GLSV_GLD_CB \<Rightarrow> (GLSV_GLD_CB \<times> rc) option" where
  "gld_cb_destroy cb = do {
     (cb, rc) \<leftarrow> destroy_nodes (Suc (length (glnd_details cb))) cb;
     if rc = NCSCC_RC_FAILURE then Some (cb, NCSCC_RC_FAILURE)
     else do {
       cb \<leftarrow> destroy_rscs (Suc (length (rsc_info_id cb))) cb;
       Some (cb, NCSCC_RC_SUCCESS) } }"

text \<open>The active side sends its count of updates; \<open>svc\<close> is the result of the data request.\<close>

definition glsv_gld_mbcsv_enc_warm_sync_rsp :: "GLSV_GLD_CB \<Rightarrow> u32" where
  "glsv_gld_mbcsv_enc_warm_sync_rsp cb = gld_async_cnt cb"

definition glsv_gld_mbcsv_dec_warm_sync_resp :: "rc \<Rightarrow> u32 \<Rightarrow> GLSV_GLD_CB \<Rightarrow> (GLSV_GLD_CB \<times> rc) option" where
  "glsv_gld_mbcsv_dec_warm_sync_resp svc num_of_async_upd cb =
     (if gld_async_cnt cb = num_of_async_upd then Some (cb, NCSCC_RC_SUCCESS)
      else do {
        (cb, _) \<leftarrow> gld_cb_destroy cb;
        Some (gld_emit GLD_MBCSV_DATA_REQ cb, svc) })"

section \<open>Failover\<close>

text \<open>
  The loop over the nodes: every node in the state \<open>GLND_DOWN_STATE\<close> loses its references
  and its record. One unit of fuel per node and one more is enough.
\<close>

fun node_down_loop ::
  "nat \<Rightarrow> gld_env \<Rightarrow> bytes option \<Rightarrow> GLSV_GLD_CB \<Rightarrow> GLSV_GLD_CB option" where
  "node_down_loop 0 E ko cb = None"
| "node_down_loop (Suc n) E ko cb =
     (case tbl_getnext (glnd_details cb) ko of
        None \<Rightarrow> Some cb
      | Some (k, q) \<Rightarrow> do {
          nd \<leftarrow> nodes cb q;
          cb \<leftarrow> (if gn_status nd = GLND_DOWN_STATE then do {
                  cb \<leftarrow> rmv_all_refs (Suc (length (gn_rsc_info_tree nd))) E q None cb;
                  del_node q cb }
                else Some cb);
          node_down_loop n E (Some (key32 (gn_node_id nd))) cb })"

definition gld_process_node_down_evts :: "gld_env \<Rightarrow> GLSV_GLD_CB \<Rightarrow> GLSV_GLD_CB option" where
  "gld_process_node_down_evts E cb = node_down_loop (Suc (length (glnd_details cb))) E None cb"

text \<open>
  The assignment of an HA state by the availability framework; \<open>init\<close> is the result of
  \<open>initialize_for_assignment\<close>, the binding to the other services.
\<close>

definition gld_amf_CSI_set_callback ::
  "gld_env \<Rightarrow> rc \<Rightarrow> u64 \<Rightarrow> SaAmfHAStateT \<Rightarrow> GLSV_GLD_CB \<Rightarrow> GLSV_GLD_CB option" where
  "gld_amf_CSI_set_callback E init invoc haState cb =
     (if init \<noteq> NCSCC_RC_SUCCESS
      then Some (gld_emit (GLD_AMF_RESPONSE invoc SA_AIS_ERR_FAILED_OPERATION) cb)
      else if ha_state cb = SA_AMF_HA_ACTIVE \<and> haState = SA_AMF_HA_QUIESCED
      then Some (gld_emit (GLD_MDS_ROLE SA_AMF_HA_QUIESCED)
                   (cb\<lparr>gld_invocation := invoc, is_quiasced := True\<rparr>))
      else
        let cb = cb\<lparr>ha_state := haState\<rparr>;
            active = (haState = SA_AMF_HA_ACTIVE);
            cb = (if active then gld_emit GLD_IMM_IMPLEMENTER (cb\<lparr>is_impl_set := True\<rparr>) else cb);
            cb = gld_emits [GLD_MDS_ROLE (if active then SA_AMF_HA_ACTIVE else SA_AMF_HA_STANDBY),
                            GLD_MBCSV_CHGROLE, GLD_AMF_RESPONSE invoc SA_AIS_OK] cb
        in if active then gld_process_node_down_evts E cb else Some cb)"

end
