(* ===== verification/Gld_Inv.thy ===== *)
theory Gld_Inv
  imports Gld_Evt
begin

text \<open>
  The invariant of the lock director: the list of resources, the id tree, the name tree, the
  node tree, the reference trees of the nodes and the node lists of the resources describe
  one relation between nodes and resources, and a resource no node refers to is kept only
  when it is orphaned. The lemmas of this theory say what the operations of \<open>Gld_Rsc\<close> do
  to it.
\<close>

section \<open>The parts of the invariant\<close>

definition list_wf :: "GLSV_GLD_CB \<Rightarrow> bool" where
  "list_wf cb \<longleftrightarrow> distinct (rsc_list cb) \<and> set (rsc_list cb) = dom (rscs cb)
                 \<and> NULL \<notin> dom (rscs cb)"

definition ids_wf :: "GLSV_GLD_CB \<Rightarrow> bool" where
  "ids_wf cb \<longleftrightarrow> tbl_wf (rsc_info_id cb)
     \<and> (\<forall>k p. tbl_get (rsc_info_id cb) k = Some p \<longleftrightarrow>
              (\<exists>ri. rscs cb p = Some ri \<and> k = key32 (gr_rsc_id ri)))"

definition names_wf :: "GLSV_GLD_CB \<Rightarrow> bool" where
  "names_wf cb \<longleftrightarrow> tbl_wf (rsc_map_info cb)
     \<and> (\<forall>k m. tbl_get (rsc_map_info cb) k = Some m \<longleftrightarrow>
              (\<exists>p ri. rscs cb p = Some ri \<and> k = name_key (net_name (gr_lck_name ri))
                    \<and> m = \<lparr>map_rsc_id = gr_rsc_id ri, map_rsc_name = net_name (gr_lck_name ri)\<rparr>))"

definition nodes_wf :: "GLSV_GLD_CB \<Rightarrow> bool" where
  "nodes_wf cb \<longleftrightarrow> tbl_wf (glnd_details cb)
     \<and> (\<forall>k q. tbl_get (glnd_details cb) k = Some q \<longleftrightarrow>
              (\<exists>nd. nodes cb q = Some nd \<and> k = key32 (gn_node_id nd)))
     \<and> (\<forall>q nd. nodes cb q = Some nd \<longrightarrow>
              tbl_wf (gn_rsc_info_tree nd)
              \<and> gn_node_id nd = m_NCS_NODE_ID_FROM_MDS_DEST (gn_dest_id nd))"

definition refs_wf :: "GLSV_GLD_CB \<Rightarrow> bool" where
  "refs_wf cb \<longleftrightarrow> (\<forall>q nd. nodes cb q = Some nd \<longrightarrow>
     (\<forall>k ref. tbl_get (gn_rsc_info_tree nd) k = Some ref \<longleftrightarrow>
        (\<exists>ri. rscs cb (ref_rsc_info ref) = Some ri \<and> k = key32 (gr_rsc_id ri)
             \<and> ref_rsc_id ref = gr_rsc_id ri
             \<and> gn_node_id nd \<in> nl_node_id ` set (gr_node_list ri))))"

definition members_wf :: "GLSV_GLD_CB \<Rightarrow> bool" where
  "members_wf cb \<longleftrightarrow> (\<forall>p ri. rscs cb p = Some ri \<longrightarrow>
     distinct (map nl_node_id (gr_node_list ri))
     \<and> (\<forall>n \<in> set (gr_node_list ri). \<exists>q nd. nodes cb q = Some nd
            \<and> gn_node_id nd = nl_node_id n \<and> gn_dest_id nd = nl_dest_id n))"

definition live_wf :: "GLSV_GLD_CB \<Rightarrow> bool" where
  "live_wf cb \<longleftrightarrow> (\<forall>p ri. rscs cb p = Some ri \<longrightarrow> gr_node_list ri = [] \<longrightarrow> gr_can_orphan ri)"

definition gld_wf :: "GLSV_GLD_CB \<Rightarrow> bool" where
  "gld_wf cb \<longleftrightarrow> list_wf cb \<and> ids_wf cb \<and> names_wf cb \<and> nodes_wf cb \<and> refs_wf cb
                \<and> members_wf cb \<and> nxt_rsc_id cb \<noteq> 0"

definition gld_inv :: "GLSV_GLD_CB \<Rightarrow> bool" where
  "gld_inv cb \<longleftrightarrow> gld_wf cb \<and> live_wf cb"

lemmas gld_wf_defs = list_wf_def ids_wf_def names_wf_def nodes_wf_def refs_wf_def members_wf_def

lemma gld_inv_init: "gld_inv (gld_cb_init hdl ha)"
  by (simp add: gld_inv_def gld_wf_def gld_wf_defs live_wf_def gld_cb_init_def tbl_get_def)
     (simp add: tbl_empty_def)

section \<open>What the invariant gives\<close>

lemma wf_rsc_in: "gld_wf cb \<Longrightarrow> rscs cb p = Some ri \<Longrightarrow> p \<in> set (rsc_list cb) \<and> p \<noteq> 0"
  by (auto simp: gld_wf_def list_wf_def dom_def)

lemma wf_list_rsc: "gld_wf cb \<Longrightarrow> p \<in> set (rsc_list cb) \<Longrightarrow> \<exists>ri. rscs cb p = Some ri"
  by (auto simp: gld_wf_def list_wf_def dom_def)

lemma wf_id_get:
  "gld_wf cb \<Longrightarrow> rscs cb p = Some ri \<Longrightarrow> tbl_get (rsc_info_id cb) (key32 (gr_rsc_id ri)) = Some p"
  by (auto simp: gld_wf_def ids_wf_def)

lemma wf_name_get:
  "gld_wf cb \<Longrightarrow> rscs cb p = Some ri \<Longrightarrow>
   tbl_get (rsc_map_info cb) (name_key (net_name (gr_lck_name ri)))
   = Some \<lparr>map_rsc_id = gr_rsc_id ri, map_rsc_name = net_name (gr_lck_name ri)\<rparr>"
  unfolding gld_wf_def names_wf_def by metis

lemma wf_node_get:
  "gld_wf cb \<Longrightarrow> nodes cb q = Some nd \<Longrightarrow> tbl_get (glnd_details cb) (key32 (gn_node_id nd)) = Some q"
  by (auto simp: gld_wf_def nodes_wf_def)

lemma wf_id_unique:
  assumes "gld_wf cb" and "rscs cb p = Some ri" and "rscs cb p' = Some ri'"
    and "gr_rsc_id ri = gr_rsc_id ri'"
  shows "p = p'"
  using wf_id_get [OF assms(1,2)] wf_id_get [OF assms(1,3)] assms(4) by simp

lemma wf_name_unique:
  assumes "gld_wf cb" and "rscs cb p = Some ri" and "rscs cb p' = Some ri'"
    and "gr_lck_name ri = gr_lck_name ri'"
  shows "p = p'"
  using wf_name_get [OF assms(1,2)] wf_name_get [OF assms(1,3)] assms(4)
  by (intro wf_id_unique [OF assms(1-3)]) simp

lemma wf_id_nonzero: "gld_wf cb \<Longrightarrow> rscs cb p = Some ri \<Longrightarrow> gr_rsc_id ri \<noteq> 0"
proof
  assume wf: "gld_wf cb" and p: "rscs cb p = Some ri" and z: "gr_rsc_id ri = 0"
  then have "tbl_get (rsc_info_id cb) (key32 0) = Some p" by (auto simp: gld_wf_def ids_wf_def)
  then have "(key32 0, p) \<in> set (rsc_info_id cb)" by (rule tbl_get_SomeD)
  moreover have "tbl_wf (rsc_info_id cb)" using wf by (simp add: gld_wf_def ids_wf_def)
  ultimately show False by (force simp: tbl_wf_def)
qed

lemma wf_find_node:
  "gld_wf cb \<Longrightarrow> find_node cb nid = Some q \<longleftrightarrow> (\<exists>nd. nodes cb q = Some nd \<and> gn_node_id nd = nid)"
  by (auto simp: gld_wf_def nodes_wf_def find_node_def)

lemma wf_node_unique:
  assumes "gld_wf cb" and "nodes cb q = Some nd" and "nodes cb q' = Some nd'"
    and "gn_node_id nd = gn_node_id nd'"
  shows "q = q'"
proof -
  have "find_node cb (gn_node_id nd) = Some q" and "find_node cb (gn_node_id nd) = Some q'"
    using assms by (auto simp: wf_find_node)
  then show ?thesis by simp
qed

lemma wf_ref:
  assumes "gld_wf cb" and "nodes cb q = Some nd" and "tbl_get (gn_rsc_info_tree nd) k = Some ref"
  obtains ri where "rscs cb (ref_rsc_info ref) = Some ri" and "k = key32 (gr_rsc_id ri)"
    and "ref_rsc_id ref = gr_rsc_id ri" and "gn_node_id nd \<in> nl_node_id ` set (gr_node_list ri)"
  using assms by (auto simp: gld_wf_def refs_wf_def)

section \<open>Changes the invariant does not see\<close>

text \<open>
  \<open>same_shape\<close>: timers, statuses, counters, orphan marks and the trace may differ;
  \<open>same_view\<close>: the orphan marks may not.
\<close>

definition rsc_shape :: "GLSV_GLD_RSC_INFO \<Rightarrow> u32 \<times> SaNameT \<times> GLSV_NODE_LIST list" where
  "rsc_shape ri = (gr_rsc_id ri, gr_lck_name ri, gr_node_list ri)"

definition node_shape :: "GLSV_GLD_GLND_DETAILS \<Rightarrow> MDS_DEST \<times> u32 \<times> GLSV_GLD_GLND_RSC_REF table" where
  "node_shape nd = (gn_dest_id nd, gn_node_id nd, gn_rsc_info_tree nd)"

definition orphan_mark :: "GLSV_GLD_RSC_INFO \<Rightarrow> bool \<times> SaLckLockModeT" where
  "orphan_mark ri = (gr_can_orphan ri, gr_orphan_lck_mode ri)"

definition same_shape :: "GLSV_GLD_CB \<Rightarrow> GLSV_GLD_CB \<Rightarrow> bool" where
  "same_shape cb cb' \<longleftrightarrow>
     rsc_list cb' = rsc_list cb \<and> rsc_info_id cb' = rsc_info_id cb
     \<and> rsc_map_info cb' = rsc_map_info cb \<and> glnd_details cb' = glnd_details cb
     \<and> nxt_rsc_id cb' = nxt_rsc_id cb
     \<and> (\<forall>p. map_option rsc_shape (rscs cb' p) = map_option rsc_shape (rscs cb p))
     \<and> (\<forall>q. map_option node_shape (nodes cb' q) = map_option node_shape (nodes cb q))"

definition same_view :: "GLSV_GLD_CB \<Rightarrow> GLSV_GLD_CB \<Rightarrow> bool" where
  "same_view cb cb' \<longleftrightarrow> same_shape cb cb' \<and> ha_state cb' = ha_state cb
     \<and> (\<forall>p. map_option orphan_mark (rscs cb' p) = map_option orphan_mark (rscs cb p))"

lemma same_shape_sym: "same_shape a b \<Longrightarrow> same_shape b a"
  by (simp add: same_shape_def)

lemma same_view_refl [simp]: "same_view cb cb"
  by (simp add: same_view_def same_shape_def)

lemma same_view_trans [trans]: "same_view a b \<Longrightarrow> same_view b c \<Longrightarrow> same_view a c"
  by (simp add: same_view_def same_shape_def)

lemma same_view_sym: "same_view a b \<Longrightarrow> same_view b a"
  by (simp add: same_view_def same_shape_def)

lemma same_view_shape: "same_view a b \<Longrightarrow> same_shape a b"
  by (simp add: same_view_def)

lemma same_shape_rscD:
  assumes "same_shape cb cb'" and "rscs cb p = Some ri"
  obtains ri' where "rscs cb' p = Some ri'" and "gr_rsc_id ri' = gr_rsc_id ri"
    and "gr_lck_name ri' = gr_lck_name ri" and "gr_node_list ri' = gr_node_list ri"
proof -
  have "map_option rsc_shape (rscs cb' p) = Some (rsc_shape ri)"
    using assms by (simp add: same_shape_def)
  then show thesis using that by (auto simp: map_option_eq_Some rsc_shape_def)
qed

lemma same_shape_nodeD:
  assumes "same_shape cb cb'" and "nodes cb q = Some nd"
  obtains nd' where "nodes cb' q = Some nd'" and "gn_dest_id nd' = gn_dest_id nd"
    and "gn_node_id nd' = gn_node_id nd" and "gn_rsc_info_tree nd' = gn_rsc_info_tree nd"
proof -
  have "map_option node_shape (nodes cb' q) = Some (node_shape nd)"
    using assms by (simp add: same_shape_def)
  then show thesis using that by (auto simp: map_option_eq_Some node_shape_def)
qed

lemma same_view_rscD:
  assumes "same_view cb cb'" and "rscs cb p = Some ri"
  obtains ri' where "rscs cb' p = Some ri'" and "gr_rsc_id ri' = gr_rsc_id ri"
    and "gr_lck_name ri' = gr_lck_name ri" and "gr_node_list ri' = gr_node_list ri"
    and "gr_can_orphan ri' = gr_can_orphan ri"
    and "gr_orphan_lck_mode ri' = gr_orphan_lck_mode ri"
proof -
  have "map_option rsc_shape (rscs cb' p) = Some (rsc_shape ri)"
    and "map_option orphan_mark (rscs cb' p) = Some (orphan_mark ri)"
    using assms by (simp_all add: same_view_def same_shape_def)
  then show thesis using that by (auto simp: map_option_eq_Some rsc_shape_def orphan_mark_def)
qed

lemma same_shape_rsc_ex:
  assumes "same_shape cb cb'"
  shows "(\<exists>ri. rscs cb' p = Some ri \<and> P (gr_rsc_id ri) (gr_lck_name ri) (gr_node_list ri))
     \<longleftrightarrow> (\<exists>ri. rscs cb p = Some ri \<and> P (gr_rsc_id ri) (gr_lck_name ri) (gr_node_list ri))"
proof
  assume "\<exists>ri. rscs cb' p = Some ri \<and> P (gr_rsc_id ri) (gr_lck_name ri) (gr_node_list ri)"
  then obtain ri where ri: "rscs cb' p = Some ri"
    and P: "P (gr_rsc_id ri) (gr_lck_name ri) (gr_node_list ri)" by blast
  obtain ri' where "rscs cb p = Some ri'" "gr_rsc_id ri' = gr_rsc_id ri"
    "gr_lck_name ri' = gr_lck_name ri" "gr_node_list ri' = gr_node_list ri"
    by (rule same_shape_rscD [OF same_shape_sym [OF assms] ri])
  with P show "\<exists>ri. rscs cb p = Some ri \<and> P (gr_rsc_id ri) (gr_lck_name ri) (gr_node_list ri)"
    by auto
next
  assume "\<exists>ri. rscs cb p = Some ri \<and> P (gr_rsc_id ri) (gr_lck_name ri) (gr_node_list ri)"
  then obtain ri where ri: "rscs cb p = Some ri"
    and P: "P (gr_rsc_id ri) (gr_lck_name ri) (gr_node_list ri)" by blast
  obtain ri' where "rscs cb' p = Some ri'" "gr_rsc_id ri' = gr_rsc_id ri"
    "gr_lck_name ri' = gr_lck_name ri" "gr_node_list ri' = gr_node_list ri"
    by (rule same_shape_rscD [OF assms ri])
  with P show "\<exists>ri. rscs cb' p = Some ri \<and> P (gr_rsc_id ri) (gr_lck_name ri) (gr_node_list ri)"
    by auto
qed

lemma same_shape_dom: "same_shape cb cb' \<Longrightarrow> dom (rscs cb') = dom (rscs cb)"
  using same_shape_rsc_ex [where P = "\<lambda>_ _ _. True"] by (auto simp: dom_def)

lemma same_shape_node_ex:
  assumes "same_shape cb cb'"
  shows "(\<exists>nd. nodes cb' q = Some nd \<and> P (gn_dest_id nd) (gn_node_id nd) (gn_rsc_info_tree nd))
     \<longleftrightarrow> (\<exists>nd. nodes cb q = Some nd \<and> P (gn_dest_id nd) (gn_node_id nd) (gn_rsc_info_tree nd))"
proof
  assume "\<exists>nd. nodes cb' q = Some nd \<and> P (gn_dest_id nd) (gn_node_id nd) (gn_rsc_info_tree nd)"
  then obtain nd where nd: "nodes cb' q = Some nd"
    and P: "P (gn_dest_id nd) (gn_node_id nd) (gn_rsc_info_tree nd)" by blast
  obtain nd' where "nodes cb q = Some nd'" "gn_dest_id nd' = gn_dest_id nd"
    "gn_node_id nd' = gn_node_id nd" "gn_rsc_info_tree nd' = gn_rsc_info_tree nd"
    by (rule same_shape_nodeD [OF same_shape_sym [OF assms] nd])
  with P show "\<exists>nd. nodes cb q = Some nd \<and> P (gn_dest_id nd) (gn_node_id nd) (gn_rsc_info_tree nd)"
    by auto
next
  assume "\<exists>nd. nodes cb q = Some nd \<and> P (gn_dest_id nd) (gn_node_id nd) (gn_rsc_info_tree nd)"
  then obtain nd where nd: "nodes cb q = Some nd"
    and P: "P (gn_dest_id nd) (gn_node_id nd) (gn_rsc_info_tree nd)" by blast
  obtain nd' where "nodes cb' q = Some nd'" "gn_dest_id nd' = gn_dest_id nd"
    "gn_node_id nd' = gn_node_id nd" "gn_rsc_info_tree nd' = gn_rsc_info_tree nd"
    by (rule same_shape_nodeD [OF assms nd])
  with P show "\<exists>nd. nodes cb' q = Some nd \<and> P (gn_dest_id nd) (gn_node_id nd) (gn_rsc_info_tree nd)"
    by auto
qed

lemma same_shape_nodes:
  assumes sv: "same_shape cb cb'" and wf: "gld_wf cb"
  shows "nodes_wf cb'"
proof -
  note eqs = sv [unfolded same_shape_def]
  have "tbl_wf (gn_rsc_info_tree nd) \<and> gn_node_id nd = m_NCS_NODE_ID_FROM_MDS_DEST (gn_dest_id nd)"
    if nd: "nodes cb' q = Some nd" for q nd
  proof -
    obtain nd0 where "nodes cb q = Some nd0" "gn_dest_id nd0 = gn_dest_id nd"
      "gn_node_id nd0 = gn_node_id nd" "gn_rsc_info_tree nd0 = gn_rsc_info_tree nd"
      by (rule same_shape_nodeD [OF same_shape_sym [OF sv] nd])
    then show ?thesis using wf by (metis gld_wf_def nodes_wf_def)
  qed
  then show ?thesis
    using wf eqs same_shape_node_ex [OF sv, where P = "\<lambda>_ i _. k = key32 i" for k]
    by (simp add: gld_wf_def nodes_wf_def)
qed

lemma same_shape_refs:
  assumes sv: "same_shape cb cb'" and wf: "gld_wf cb"
  shows "refs_wf cb'"
  unfolding refs_wf_def
proof (intro allI impI)
  fix q nd k ref
  assume nd: "nodes cb' q = Some nd"
  obtain nd0 where nd0: "nodes cb q = Some nd0" "gn_dest_id nd0 = gn_dest_id nd"
      "gn_node_id nd0 = gn_node_id nd" "gn_rsc_info_tree nd0 = gn_rsc_info_tree nd"
    by (rule same_shape_nodeD [OF same_shape_sym [OF sv] nd])
  have "tbl_get (gn_rsc_info_tree nd0) k = Some ref \<longleftrightarrow>
      (\<exists>ri. rscs cb (ref_rsc_info ref) = Some ri \<and> k = key32 (gr_rsc_id ri)
           \<and> ref_rsc_id ref = gr_rsc_id ri \<and> gn_node_id nd0 \<in> nl_node_id ` set (gr_node_list ri))"
    using wf nd0(1) by (simp add: gld_wf_def refs_wf_def)
  also have "\<dots> \<longleftrightarrow> (\<exists>ri. rscs cb' (ref_rsc_info ref) = Some ri \<and> k = key32 (gr_rsc_id ri)
           \<and> ref_rsc_id ref = gr_rsc_id ri \<and> gn_node_id nd0 \<in> nl_node_id ` set (gr_node_list ri))"
    using same_shape_rsc_ex [OF sv, where P = "\<lambda>i _ nl. k = key32 i \<and> ref_rsc_id ref = i
        \<and> gn_node_id nd0 \<in> nl_node_id ` set nl" and p = "ref_rsc_info ref"] by simp
  finally show "tbl_get (gn_rsc_info_tree nd) k = Some ref \<longleftrightarrow>
      (\<exists>ri. rscs cb' (ref_rsc_info ref) = Some ri \<and> k = key32 (gr_rsc_id ri)
           \<and> ref_rsc_id ref = gr_rsc_id ri \<and> gn_node_id nd \<in> nl_node_id ` set (gr_node_list ri))"
    using nd0 by simp
qed

lemma same_shape_members:
  assumes sv: "same_shape cb cb'" and wf: "gld_wf cb"
  shows "members_wf cb'"
  unfolding members_wf_def
proof (intro allI impI)
  fix p ri
  assume ri: "rscs cb' p = Some ri"
  obtain ri0 where ri0: "rscs cb p = Some ri0" "gr_node_list ri0 = gr_node_list ri"
    by (rule same_shape_rscD [OF same_shape_sym [OF sv] ri])
  then have "distinct (map nl_node_id (gr_node_list ri))"
    and "\<forall>n \<in> set (gr_node_list ri). \<exists>q nd. nodes cb q = Some nd
          \<and> gn_node_id nd = nl_node_id n \<and> gn_dest_id nd = nl_dest_id n"
    using wf unfolding gld_wf_def members_wf_def by metis+
  then show "distinct (map nl_node_id (gr_node_list ri))
      \<and> (\<forall>n \<in> set (gr_node_list ri). \<exists>q nd. nodes cb' q = Some nd
          \<and> gn_node_id nd = nl_node_id n \<and> gn_dest_id nd = nl_dest_id n)"
    by (metis same_shape_nodeD [OF sv])
qed

lemma same_shape_wf:
  assumes sv: "same_shape cb cb'" and wf: "gld_wf cb"
  shows "gld_wf cb'"
proof -
  note eqs = sv [unfolded same_shape_def]
  have "list_wf cb'" using wf eqs same_shape_dom [OF sv] by (simp add: gld_wf_def list_wf_def)
  moreover have "ids_wf cb'"
    using wf eqs same_shape_rsc_ex [OF sv, where P = "\<lambda>i _ _. k = key32 i" for k]
    by (simp add: gld_wf_def ids_wf_def)
  moreover have "names_wf cb'"
    using wf eqs same_shape_rsc_ex [OF sv, where P = "\<lambda>i n _. k = name_key (net_name n)
        \<and> m = \<lparr>map_rsc_id = i, map_rsc_name = net_name n\<rparr>" for k m]
    by (simp add: gld_wf_def names_wf_def)
  ultimately show ?thesis
    using same_shape_nodes [OF sv wf] same_shape_refs [OF sv wf] same_shape_members [OF sv wf] wf eqs
    by (simp add: gld_wf_def)
qed

lemma same_view_live: "same_view cb cb' \<Longrightarrow> live_wf cb \<Longrightarrow> live_wf cb'"
  unfolding live_wf_def by (metis same_view_rscD same_view_sym)

lemma same_view_wf: "same_view cb cb' \<Longrightarrow> gld_wf cb \<Longrightarrow> gld_wf cb'"
  by (rule same_shape_wf [OF same_view_shape])

lemma same_view_inv: "same_view cb cb' \<Longrightarrow> gld_inv cb \<Longrightarrow> gld_inv cb'"
  by (simp add: gld_inv_def same_view_wf same_view_live)

lemma same_view_ha: "same_view cb cb' \<Longrightarrow> ha_state cb' = ha_state cb"
  by (simp add: same_view_def)

text \<open>The elementary changes of this kind.\<close>

lemma same_view_emit [simp]: "same_view cb (gld_emit m cb)"
  by (simp add: same_view_def same_shape_def gld_emit_def)

lemma same_view_emits [simp]: "same_view cb (gld_emits ms cb)"
  by (simp add: same_view_def same_shape_def gld_emits_def)

lemma same_view_rsc:
  "rscs cb p = Some ri \<Longrightarrow> rsc_shape ri' = rsc_shape ri \<Longrightarrow> orphan_mark ri' = orphan_mark ri
   \<Longrightarrow> same_view cb (cb\<lparr>rscs := (rscs cb)(p \<mapsto> ri')\<rparr>)"
  by (simp add: same_view_def same_shape_def)

lemma same_view_node:
  "nodes cb q = Some nd \<Longrightarrow> node_shape nd' = node_shape nd
   \<Longrightarrow> same_view cb (cb\<lparr>nodes := (nodes cb)(q \<mapsto> nd')\<rparr>)"
  by (simp add: same_view_def same_shape_def)

lemma reelection_run:
  assumes "rscs cb r = Some ri"
  shows "\<exists>cb'. rsc_start_reelection E r cb = Some cb' \<and> same_view cb cb' \<and> nodes cb' = nodes cb"
proof -
  obtain t os rc where "gld_start_tmr E cb ((gr_reelection_timer ri)\<lparr>gt_resource_id := gr_rsc_id ri\<rparr>)
      GLD_TMR_RES_REELECTION_WAIT GLSV_GLND_MASTER_REELECTION_WAIT_TIME 0 = ((t, os), rc)"
    by (metis surj_pair)
  moreover have "same_view cb (gld_emits os (cb\<lparr>rscs := (rscs cb)(r \<mapsto> ri\<lparr>gr_reelection_timer := t\<rparr>)\<rparr>))"
    by (rule same_view_trans [OF same_view_rsc [OF assms] same_view_emits])
       (simp_all add: rsc_shape_def orphan_mark_def)
  ultimately show ?thesis using assms by (simp add: rsc_start_reelection_def gld_emits_def)
qed

lemma restart_run:
  assumes "nodes cb q = Some nd"
  shows "\<exists>cb'. node_start_restart E q cb = Some cb' \<and> same_view cb cb'"
proof -
  obtain t os rc where "gld_start_tmr E cb ((gn_restart_timer nd)\<lparr>gt_mdest_id := gn_dest_id nd\<rparr>)
      GLD_TMR_NODE_RESTART_TIMEOUT GLD_NODE_RESTART_TIMEOUT 0 = ((t, os), rc)"
    by (metis surj_pair)
  moreover have "same_view cb (gld_emits os (cb\<lparr>nodes := (nodes cb)(q \<mapsto> nd\<lparr>gn_restart_timer := t\<rparr>)\<rparr>))"
    by (rule same_view_trans [OF same_view_node [OF assms] same_view_emits])
       (simp add: node_shape_def)
  ultimately show ?thesis using assms by (simp add: node_start_restart_def)
qed

lemma master_status_run:
  "rscs cb r = Some ri \<Longrightarrow>
   \<exists>cb'. gld_snd_master_status r st cb = Some cb' \<and> same_view cb cb' \<and> nodes cb' = nodes cb
       \<and> rscs cb' = rscs cb"
  by (cases "gr_node_list ri") (simp_all add: gld_snd_master_status_def gld_emit_def same_view_def same_shape_def)

end
