(* ===== verification/Gld_Ops.thy ===== *)
theory Gld_Ops
  imports Gld_Inv
begin

text \<open>
  The six changes the lock director makes to the relation between nodes and resources, each
  with the proof that it keeps the director's structure: a resource is created or released,
  a node record is created or released, a node joins a resource or leaves it.
\<close>

section \<open>Creating and releasing a resource\<close>

lemma wf_add_rsc:
  assumes wf: "gld_wf cb"
    and rs: "rscs cb' = (rscs cb)(p \<mapsto> ri)" "rsc_list cb' = p # rsc_list cb"
    and ns: "nodes cb' = nodes cb" "glnd_details cb' = glnd_details cb"
    and ids: "tbl_wf (rsc_info_id cb')"
      "tbl_get (rsc_info_id cb') = (tbl_get (rsc_info_id cb))(key32 (gr_rsc_id ri) \<mapsto> p)"
    and names: "tbl_wf (rsc_map_info cb')"
      "tbl_get (rsc_map_info cb') = (tbl_get (rsc_map_info cb))(name_key (net_name (gr_lck_name ri)) \<mapsto>
          \<lparr>map_rsc_id = gr_rsc_id ri, map_rsc_name = net_name (gr_lck_name ri)\<rparr>)"
    and new: "rscs cb p = None" "p \<noteq> 0" "gr_node_list ri = []"
      "tbl_get (rsc_info_id cb) (key32 (gr_rsc_id ri)) = None"
      "tbl_get (rsc_map_info cb) (name_key (net_name (gr_lck_name ri))) = None"
    and nxt: "nxt_rsc_id cb' \<noteq> 0"
  shows "gld_wf cb'"
proof -
  have id_new: "\<forall>x r. rscs cb x = Some r \<longrightarrow> gr_rsc_id r \<noteq> gr_rsc_id ri"
    using wf_id_get [OF wf] new(4) by force
  have name_new: "\<forall>x r. rscs cb x = Some r \<longrightarrow> gr_lck_name r \<noteq> gr_lck_name ri"
    using wf_name_get [OF wf] new(5) by force
  have "list_wf cb'" using wf rs new by (auto simp: gld_wf_def list_wf_def)
  moreover have "ids_wf cb'"
    using wf rs ids new id_new unfolding gld_wf_def ids_wf_def by (auto split: if_splits) blast
  moreover have "names_wf cb'"
    unfolding names_wf_def
  proof (intro conjI allI)
    fix k m
    show "tbl_get (rsc_map_info cb') k = Some m \<longleftrightarrow>
        (\<exists>p ri. rscs cb' p = Some ri \<and> k = name_key (net_name (gr_lck_name ri))
              \<and> m = \<lparr>map_rsc_id = gr_rsc_id ri, map_rsc_name = net_name (gr_lck_name ri)\<rparr>)"
    proof (cases "k = name_key (net_name (gr_lck_name ri))")
      case True
      then show ?thesis using rs names name_new new(1) by (auto split: if_splits) blast
    next
      case False
      then have "tbl_get (rsc_map_info cb') k = tbl_get (rsc_map_info cb) k" using names by simp
      moreover have "tbl_get (rsc_map_info cb) k = Some m \<longleftrightarrow>
          (\<exists>p ri. rscs cb p = Some ri \<and> k = name_key (net_name (gr_lck_name ri))
              \<and> m = \<lparr>map_rsc_id = gr_rsc_id ri, map_rsc_name = net_name (gr_lck_name ri)\<rparr>)"
        using wf by (simp add: gld_wf_def names_wf_def)
      ultimately show ?thesis using False rs(1) new(1)
        by (metis fun_upd_apply option.distinct(1) option.inject)
    qed
  qed (use names in simp)
  moreover have "nodes_wf cb'" using wf ns by (simp add: gld_wf_def nodes_wf_def)
  moreover have "refs_wf cb'"
    unfolding refs_wf_def
  proof (intro allI impI)
    fix q nd k ref
    assume "nodes cb' q = Some nd"
    then have "tbl_get (gn_rsc_info_tree nd) k = Some ref \<longleftrightarrow>
        (\<exists>ri. rscs cb (ref_rsc_info ref) = Some ri \<and> k = key32 (gr_rsc_id ri)
             \<and> ref_rsc_id ref = gr_rsc_id ri \<and> gn_node_id nd \<in> nl_node_id ` set (gr_node_list ri))"
      using wf ns by (simp add: gld_wf_def refs_wf_def)
    then show "tbl_get (gn_rsc_info_tree nd) k = Some ref \<longleftrightarrow>
        (\<exists>ri. rscs cb' (ref_rsc_info ref) = Some ri \<and> k = key32 (gr_rsc_id ri)
             \<and> ref_rsc_id ref = gr_rsc_id ri \<and> gn_node_id nd \<in> nl_node_id ` set (gr_node_list ri))"
      using rs new by auto
  qed
  moreover have "members_wf cb'" using wf rs ns new by (auto simp: gld_wf_def members_wf_def)
  ultimately show ?thesis using nxt by (simp add: gld_wf_def)
qed

lemma wf_free_rsc:
  assumes wf: "gld_wf cb"
    and old: "rscs cb p = Some ri" "gr_node_list ri = []"
    and rs: "rscs cb' = (rscs cb)(p := None)" "rsc_list cb' = remove1 p (rsc_list cb)"
    and ns: "nodes cb' = nodes cb" "glnd_details cb' = glnd_details cb"
    and ids: "tbl_wf (rsc_info_id cb')"
      "tbl_get (rsc_info_id cb') = (tbl_get (rsc_info_id cb))(key32 (gr_rsc_id ri) := None)"
    and names: "tbl_wf (rsc_map_info cb')"
      "tbl_get (rsc_map_info cb') = (tbl_get (rsc_map_info cb))(name_key (net_name (gr_lck_name ri)) := None)"
    and nxt: "nxt_rsc_id cb' = nxt_rsc_id cb"
  shows "gld_wf cb'"
proof -
  have id_other: "\<forall>x r. rscs cb x = Some r \<longrightarrow> x \<noteq> p \<longrightarrow> gr_rsc_id r \<noteq> gr_rsc_id ri"
    using wf_id_unique [OF wf _ old(1)] by blast
  have name_other: "\<forall>x r. rscs cb x = Some r \<longrightarrow> x \<noteq> p \<longrightarrow> gr_lck_name r \<noteq> gr_lck_name ri"
    using wf_name_unique [OF wf _ old(1)] by blast
  have "list_wf cb'" using wf rs by (auto simp: gld_wf_def list_wf_def)
  moreover have "ids_wf cb'"
    unfolding ids_wf_def
  proof (intro conjI allI)
    fix k x
    have "tbl_get (rsc_info_id cb) k = Some x \<longleftrightarrow> (\<exists>r. rscs cb x = Some r \<and> k = key32 (gr_rsc_id r))"
      using wf by (simp add: gld_wf_def ids_wf_def)
    then show "tbl_get (rsc_info_id cb') k = Some x \<longleftrightarrow>
        (\<exists>r. rscs cb' x = Some r \<and> k = key32 (gr_rsc_id r))"
      using rs(1) ids(2) old(1) id_other by (auto split: if_splits) blast
  qed (use ids in simp)
  moreover have "names_wf cb'"
    unfolding names_wf_def
  proof (intro conjI allI)
    fix k m
    show "tbl_get (rsc_map_info cb') k = Some m \<longleftrightarrow>
        (\<exists>p ri. rscs cb' p = Some ri \<and> k = name_key (net_name (gr_lck_name ri))
              \<and> m = \<lparr>map_rsc_id = gr_rsc_id ri, map_rsc_name = net_name (gr_lck_name ri)\<rparr>)"
    proof (cases "k = name_key (net_name (gr_lck_name ri))")
      case True
      then show ?thesis using rs(1) names(2) name_other by (auto split: if_splits) blast
    next
      case False
      then have "tbl_get (rsc_map_info cb') k = tbl_get (rsc_map_info cb) k" using names by simp
      also have "\<dots> = Some m \<longleftrightarrow>
          (\<exists>p ri. rscs cb p = Some ri \<and> k = name_key (net_name (gr_lck_name ri))
              \<and> m = \<lparr>map_rsc_id = gr_rsc_id ri, map_rsc_name = net_name (gr_lck_name ri)\<rparr>)"
        using wf by (simp add: gld_wf_def names_wf_def)
      finally show ?thesis using False rs(1) old(1)
        by (metis fun_upd_apply option.distinct(1) option.inject)
    qed
  qed (use names in simp)
  moreover have "nodes_wf cb'" using wf ns by (simp add: gld_wf_def nodes_wf_def)
  moreover have "refs_wf cb'"
    unfolding refs_wf_def
  proof (intro allI impI)
    fix q nd k ref
    assume "nodes cb' q = Some nd"
    then have "tbl_get (gn_rsc_info_tree nd) k = Some ref \<longleftrightarrow>
        (\<exists>ri. rscs cb (ref_rsc_info ref) = Some ri \<and> k = key32 (gr_rsc_id ri)
             \<and> ref_rsc_id ref = gr_rsc_id ri \<and> gn_node_id nd \<in> nl_node_id ` set (gr_node_list ri))"
      using wf ns by (simp add: gld_wf_def refs_wf_def)
    then show "tbl_get (gn_rsc_info_tree nd) k = Some ref \<longleftrightarrow>
        (\<exists>ri. rscs cb' (ref_rsc_info ref) = Some ri \<and> k = key32 (gr_rsc_id ri)
             \<and> ref_rsc_id ref = gr_rsc_id ri \<and> gn_node_id nd \<in> nl_node_id ` set (gr_node_list ri))"
      using rs old by auto
  qed
  moreover have "members_wf cb'" using wf rs ns by (auto simp: gld_wf_def members_wf_def)
  ultimately show ?thesis using nxt wf by (simp add: gld_wf_def)
qed

section \<open>Creating and releasing a node record\<close>

lemma wf_add_node:
  assumes wf: "gld_wf cb"
    and rs: "rscs cb' = rscs cb" "rsc_list cb' = rsc_list cb" "rsc_info_id cb' = rsc_info_id cb"
      "rsc_map_info cb' = rsc_map_info cb" "nxt_rsc_id cb' = nxt_rsc_id cb"
    and ns: "nodes cb' = (nodes cb)(q \<mapsto> nd)" "tbl_wf (glnd_details cb')"
      "tbl_get (glnd_details cb') = (tbl_get (glnd_details cb))(key32 (gn_node_id nd) \<mapsto> q)"
    and new: "nodes cb q = None" "tbl_get (glnd_details cb) (key32 (gn_node_id nd)) = None"
      "gn_rsc_info_tree nd = tbl_empty"
      "gn_node_id nd = m_NCS_NODE_ID_FROM_MDS_DEST (gn_dest_id nd)"
  shows "gld_wf cb'"
proof -
  have nid_new: "\<forall>x n. nodes cb x = Some n \<longrightarrow> gn_node_id n \<noteq> gn_node_id nd"
    using wf_node_get [OF wf] new(2) by force
  have empty: "tbl_get (tbl_empty :: GLSV_GLD_GLND_RSC_REF table) k = None" for k by (simp add: tbl_get_def tbl_empty_def)
  have "list_wf cb'" "ids_wf cb'" "names_wf cb'"
    using wf rs by (simp_all add: gld_wf_def list_wf_def ids_wf_def names_wf_def)
  moreover have "nodes_wf cb'"
    using wf ns new nid_new unfolding gld_wf_def nodes_wf_def by (auto split: if_splits) blast
  moreover have "refs_wf cb'"
    unfolding refs_wf_def
  proof (intro allI impI)
    fix x n k ref
    assume n: "nodes cb' x = Some n"
    show "tbl_get (gn_rsc_info_tree n) k = Some ref \<longleftrightarrow>
        (\<exists>ri. rscs cb' (ref_rsc_info ref) = Some ri \<and> k = key32 (gr_rsc_id ri)
             \<and> ref_rsc_id ref = gr_rsc_id ri \<and> gn_node_id n \<in> nl_node_id ` set (gr_node_list ri))"
    proof (cases "x = q")
      case True
      with n ns have "n = nd" by simp
      moreover have "gn_node_id nd \<notin> nl_node_id ` set (gr_node_list ri)" if "rscs cb p = Some ri" for p ri
      proof
        assume "gn_node_id nd \<in> nl_node_id ` set (gr_node_list ri)"
        then obtain y where "y \<in> set (gr_node_list ri)" "nl_node_id y = gn_node_id nd" by auto
        then show False using wf that nid_new by (fastforce simp: gld_wf_def members_wf_def)
      qed
      ultimately show ?thesis using rs new(3) empty [of k] by auto
    next
      case False
      then show ?thesis using n ns wf rs by (simp add: gld_wf_def refs_wf_def)
    qed
  qed
  moreover have "members_wf cb'"
    unfolding members_wf_def
  proof (intro allI impI conjI ballI)
    fix p ri n
    assume ri: "rscs cb' p = Some ri" and n: "n \<in> set (gr_node_list ri)"
    then obtain x m where x: "nodes cb x = Some m" "gn_node_id m = nl_node_id n" "gn_dest_id m = nl_dest_id n"
      using wf rs unfolding gld_wf_def members_wf_def by fastforce
    with new(1) have "x \<noteq> q" by auto
    with x ns show "\<exists>q nd. nodes cb' q = Some nd \<and> gn_node_id nd = nl_node_id n \<and> gn_dest_id nd = nl_dest_id n"
      by auto
  qed (use wf rs in \<open>simp add: gld_wf_def members_wf_def\<close>)
  ultimately show ?thesis using wf rs by (simp add: gld_wf_def)
qed

lemma wf_del_node:
  assumes wf: "gld_wf cb"
    and old: "nodes cb q = Some nd"
      "\<forall>p ri. rscs cb p = Some ri \<longrightarrow> gn_node_id nd \<notin> nl_node_id ` set (gr_node_list ri)"
    and rs: "rscs cb' = rscs cb" "rsc_list cb' = rsc_list cb" "rsc_info_id cb' = rsc_info_id cb"
      "rsc_map_info cb' = rsc_map_info cb" "nxt_rsc_id cb' = nxt_rsc_id cb"
    and ns: "nodes cb' = (nodes cb)(q := None)" "tbl_wf (glnd_details cb')"
      "tbl_get (glnd_details cb') = (tbl_get (glnd_details cb))(key32 (gn_node_id nd) := None)"
  shows "gld_wf cb'"
proof -
  have other: "\<forall>x n. nodes cb x = Some n \<longrightarrow> x \<noteq> q \<longrightarrow> gn_node_id n \<noteq> gn_node_id nd"
    using wf_node_unique [OF wf _ old(1)] by blast
  have "list_wf cb'" "ids_wf cb'" "names_wf cb'"
    using wf rs by (simp_all add: gld_wf_def list_wf_def ids_wf_def names_wf_def)
  moreover have "nodes_wf cb'"
    unfolding nodes_wf_def
  proof (intro conjI allI)
    fix k x
    have "tbl_get (glnd_details cb) k = Some x \<longleftrightarrow> (\<exists>n. nodes cb x = Some n \<and> k = key32 (gn_node_id n))"
      using wf by (simp add: gld_wf_def nodes_wf_def)
    then show "tbl_get (glnd_details cb') k = Some x \<longleftrightarrow>
        (\<exists>n. nodes cb' x = Some n \<and> k = key32 (gn_node_id n))"
      using ns old(1) other by (auto split: if_splits) blast
  qed (use wf ns in \<open>auto simp: gld_wf_def nodes_wf_def split: if_splits\<close>)
  moreover have "refs_wf cb'" using wf ns rs unfolding gld_wf_def refs_wf_def by (auto split: if_splits)
  moreover have "members_wf cb'"
    unfolding members_wf_def
  proof (intro allI impI conjI ballI)
    fix p ri n
    assume ri: "rscs cb' p = Some ri" and n: "n \<in> set (gr_node_list ri)"
    then obtain x m where x: "nodes cb x = Some m" "gn_node_id m = nl_node_id n" "gn_dest_id m = nl_dest_id n"
      using wf rs unfolding gld_wf_def members_wf_def by fastforce
    moreover have "nl_node_id n \<noteq> gn_node_id nd" by (metis image_eqI n old(2) ri rs(1))
    ultimately have "x \<noteq> q" using old(1) by auto
    with x ns show "\<exists>q nd. nodes cb' q = Some nd \<and> gn_node_id nd = nl_node_id n \<and> gn_dest_id nd = nl_dest_id n"
      by auto
  qed (use wf rs in \<open>simp add: gld_wf_def members_wf_def\<close>)
  ultimately show ?thesis using wf rs by (simp add: gld_wf_def)
qed

section \<open>A node joins or leaves a resource\<close>

text \<open>
  Both changes touch one resource \<open>p\<close> and one node \<open>q\<close>: the membership of the node in the
  node list and the reference in the node's tree change together.
\<close>

lemma relink_refs_at:
  assumes wf: "gld_wf cb"
    and old: "rscs cb p = Some ri" "nodes cb q = Some nd"
    and upd: "rscs cb' = (rscs cb)(p \<mapsto> ri')" "nodes cb' = (nodes cb)(q \<mapsto> nd')"
    and rest: "rsc_list cb' = rsc_list cb" "rsc_info_id cb' = rsc_info_id cb"
      "rsc_map_info cb' = rsc_map_info cb" "nxt_rsc_id cb' = nxt_rsc_id cb"
      "glnd_details cb' = glnd_details cb"
    and same: "gr_rsc_id ri' = gr_rsc_id ri" "gr_lck_name ri' = gr_lck_name ri"
      "gn_node_id nd' = gn_node_id nd" "gn_dest_id nd' = gn_dest_id nd"
    and nl: "distinct (map nl_node_id (gr_node_list ri'))"
      "\<forall>n \<in> set (gr_node_list ri'). n \<in> set (gr_node_list ri)
          \<or> n = \<lparr>nl_dest_id = gn_dest_id nd, nl_node_id = gn_node_id nd\<rparr>"
      "\<forall>i. i \<noteq> gn_node_id nd \<longrightarrow> i \<in> nl_node_id ` set (gr_node_list ri') \<longleftrightarrow>
            i \<in> nl_node_id ` set (gr_node_list ri)"
    and tree: "tbl_wf (gn_rsc_info_tree nd')"
      "tbl_get (gn_rsc_info_tree nd') = (tbl_get (gn_rsc_info_tree nd))(key32 (gr_rsc_id ri) :=
         (if gn_node_id nd \<in> nl_node_id ` set (gr_node_list ri')
          then Some \<lparr>ref_rsc_id = gr_rsc_id ri, ref_rsc_info = p\<rparr> else None))"
  shows "tbl_get (gn_rsc_info_tree nd') k = Some ref \<longleftrightarrow>
     (\<exists>r. rscs cb' (ref_rsc_info ref) = Some r \<and> k = key32 (gr_rsc_id r)
          \<and> ref_rsc_id ref = gr_rsc_id r \<and> gn_node_id nd' \<in> nl_node_id ` set (gr_node_list r))"
proof (cases "k = key32 (gr_rsc_id ri)")
  case True
  have p: "ref_rsc_info ref = p" if "rscs cb' (ref_rsc_info ref) = Some r" "gr_rsc_id ri = gr_rsc_id r" for r
    using wf_id_unique [OF wf old(1), of "ref_rsc_info ref" r] that upd(1) by (auto split: if_splits)
  have eq: "ref = \<lparr>ref_rsc_id = gr_rsc_id ri, ref_rsc_info = p\<rparr> \<longleftrightarrow>
      ref_rsc_id ref = gr_rsc_id ri \<and> ref_rsc_info ref = p" by (cases ref) auto
  have "tbl_get (gn_rsc_info_tree nd') k = Some ref \<longleftrightarrow>
      gn_node_id nd \<in> nl_node_id ` set (gr_node_list ri') \<and> ref_rsc_id ref = gr_rsc_id ri \<and> ref_rsc_info ref = p"
    unfolding eq [symmetric] using True tree(2) by auto
  also have "\<dots> \<longleftrightarrow> (\<exists>r. rscs cb' (ref_rsc_info ref) = Some r \<and> k = key32 (gr_rsc_id r)
          \<and> ref_rsc_id ref = gr_rsc_id r \<and> gn_node_id nd' \<in> nl_node_id ` set (gr_node_list r))"
    (is "_ \<longleftrightarrow> ?R")
  proof
    assume ?R
    then obtain r where r: "rscs cb' (ref_rsc_info ref) = Some r" "gr_rsc_id ri = gr_rsc_id r"
        "ref_rsc_id ref = gr_rsc_id r" "gn_node_id nd' \<in> nl_node_id ` set (gr_node_list r)"
      using True by auto
    with p [OF r(1,2)] show "gn_node_id nd \<in> nl_node_id ` set (gr_node_list ri')
        \<and> ref_rsc_id ref = gr_rsc_id ri \<and> ref_rsc_info ref = p"
      using upd(1) same by simp
  qed (use True upd(1) same in simp)
  finally show ?thesis .
next
  case False
  then have "tbl_get (gn_rsc_info_tree nd') k = tbl_get (gn_rsc_info_tree nd) k"
    using tree(2) by simp
  moreover have "tbl_get (gn_rsc_info_tree nd) k = Some ref \<longleftrightarrow>
     (\<exists>r. rscs cb (ref_rsc_info ref) = Some r \<and> k = key32 (gr_rsc_id r)
          \<and> ref_rsc_id ref = gr_rsc_id r \<and> gn_node_id nd \<in> nl_node_id ` set (gr_node_list r))"
    using wf old(2) by (simp add: gld_wf_def refs_wf_def)
  ultimately show ?thesis using False upd(1) old(1) same by (auto split: if_splits)
qed

lemma relink_refs_other:
  assumes wf: "gld_wf cb"
    and old: "rscs cb p = Some ri" "nodes cb q = Some nd"
    and upd: "rscs cb' = (rscs cb)(p \<mapsto> ri')" "nodes cb' = (nodes cb)(q \<mapsto> nd')"
    and rest: "rsc_list cb' = rsc_list cb" "rsc_info_id cb' = rsc_info_id cb"
      "rsc_map_info cb' = rsc_map_info cb" "nxt_rsc_id cb' = nxt_rsc_id cb"
      "glnd_details cb' = glnd_details cb"
    and same: "gr_rsc_id ri' = gr_rsc_id ri" "gr_lck_name ri' = gr_lck_name ri"
      "gn_node_id nd' = gn_node_id nd" "gn_dest_id nd' = gn_dest_id nd"
    and nl: "distinct (map nl_node_id (gr_node_list ri'))"
      "\<forall>n \<in> set (gr_node_list ri'). n \<in> set (gr_node_list ri)
          \<or> n = \<lparr>nl_dest_id = gn_dest_id nd, nl_node_id = gn_node_id nd\<rparr>"
      "\<forall>i. i \<noteq> gn_node_id nd \<longrightarrow> i \<in> nl_node_id ` set (gr_node_list ri') \<longleftrightarrow>
            i \<in> nl_node_id ` set (gr_node_list ri)"
    and tree: "tbl_wf (gn_rsc_info_tree nd')"
      "tbl_get (gn_rsc_info_tree nd') = (tbl_get (gn_rsc_info_tree nd))(key32 (gr_rsc_id ri) :=
         (if gn_node_id nd \<in> nl_node_id ` set (gr_node_list ri')
          then Some \<lparr>ref_rsc_id = gr_rsc_id ri, ref_rsc_info = p\<rparr> else None))"
    and n: "nodes cb x = Some n" "x \<noteq> q"
  shows "tbl_get (gn_rsc_info_tree n) k = Some ref \<longleftrightarrow>
     (\<exists>r. rscs cb' (ref_rsc_info ref) = Some r \<and> k = key32 (gr_rsc_id r)
          \<and> ref_rsc_id ref = gr_rsc_id r \<and> gn_node_id n \<in> nl_node_id ` set (gr_node_list r))"
proof -
  have "gn_node_id n \<noteq> gn_node_id nd" using wf_node_unique [OF wf n(1) old(2)] n(2) by blast
  with nl(3) have mem: "gn_node_id n \<in> nl_node_id ` set (gr_node_list ri') \<longleftrightarrow>
      gn_node_id n \<in> nl_node_id ` set (gr_node_list ri)" by blast
  have "tbl_get (gn_rsc_info_tree n) k = Some ref \<longleftrightarrow>
     (\<exists>r. rscs cb (ref_rsc_info ref) = Some r \<and> k = key32 (gr_rsc_id r)
          \<and> ref_rsc_id ref = gr_rsc_id r \<and> gn_node_id n \<in> nl_node_id ` set (gr_node_list r))"
    using wf n(1) by (simp add: gld_wf_def refs_wf_def)
  then show ?thesis using mem upd(1) old(1) same by (cases "ref_rsc_info ref = p") auto
qed

lemma wf_relink:
  assumes wf: "gld_wf cb"
    and old: "rscs cb p = Some ri" "nodes cb q = Some nd"
    and upd: "rscs cb' = (rscs cb)(p \<mapsto> ri')" "nodes cb' = (nodes cb)(q \<mapsto> nd')"
    and rest: "rsc_list cb' = rsc_list cb" "rsc_info_id cb' = rsc_info_id cb"
      "rsc_map_info cb' = rsc_map_info cb" "nxt_rsc_id cb' = nxt_rsc_id cb"
      "glnd_details cb' = glnd_details cb"
    and same: "gr_rsc_id ri' = gr_rsc_id ri" "gr_lck_name ri' = gr_lck_name ri"
      "gn_node_id nd' = gn_node_id nd" "gn_dest_id nd' = gn_dest_id nd"
    and nl: "distinct (map nl_node_id (gr_node_list ri'))"
      "\<forall>n \<in> set (gr_node_list ri'). n \<in> set (gr_node_list ri)
          \<or> n = \<lparr>nl_dest_id = gn_dest_id nd, nl_node_id = gn_node_id nd\<rparr>"
      "\<forall>i. i \<noteq> gn_node_id nd \<longrightarrow> i \<in> nl_node_id ` set (gr_node_list ri') \<longleftrightarrow>
            i \<in> nl_node_id ` set (gr_node_list ri)"
    and tree: "tbl_wf (gn_rsc_info_tree nd')"
      "tbl_get (gn_rsc_info_tree nd') = (tbl_get (gn_rsc_info_tree nd))(key32 (gr_rsc_id ri) :=
         (if gn_node_id nd \<in> nl_node_id ` set (gr_node_list ri')
          then Some \<lparr>ref_rsc_id = gr_rsc_id ri, ref_rsc_info = p\<rparr> else None))"
  shows "gld_wf cb'"
proof -
  have ex: "(\<exists>r. rscs cb' x = Some r \<and> Q (gr_rsc_id r) (gr_lck_name r))
      = (\<exists>r. rscs cb x = Some r \<and> Q (gr_rsc_id r) (gr_lck_name r))" for x Q
    using upd(1) old(1) same by (cases "x = p") auto
  have exn: "(\<exists>n. nodes cb' x = Some n \<and> Q (gn_node_id n)  (gn_dest_id n))
      = (\<exists>n. nodes cb x = Some n \<and> Q (gn_node_id n) (gn_dest_id n))" for x Q
    using upd(2) old(2) same by (cases "x = q") auto
  have "list_wf cb'" using wf upd rest old by (auto simp: gld_wf_def list_wf_def)
  moreover have "ids_wf cb'"
    using wf rest ex [where Q = "\<lambda>i _. k = key32 i" for k] by (simp add: gld_wf_def ids_wf_def)
  moreover have "names_wf cb'"
    using wf rest ex [where Q = "\<lambda>i n. k = name_key (net_name n)
        \<and> m = \<lparr>map_rsc_id = i, map_rsc_name = net_name n\<rparr>" for k m]
    by (simp add: gld_wf_def names_wf_def)
  moreover have "nodes_wf cb'"
    using wf rest exn [where Q = "\<lambda>i _. k = key32 i" for k] upd(2) old(2) same tree(1)
    by (auto simp: gld_wf_def nodes_wf_def)
  moreover have "refs_wf cb'"
    unfolding refs_wf_def
  proof (intro allI impI)
    fix x n k ref
    assume "nodes cb' x = Some n"
    then have "n = nd' \<or> nodes cb x = Some n \<and> x \<noteq> q" using upd(2) by (cases "x = q") simp_all
    then show "tbl_get (gn_rsc_info_tree n) k = Some ref \<longleftrightarrow>
       (\<exists>r. rscs cb' (ref_rsc_info ref) = Some r \<and> k = key32 (gr_rsc_id r)
          \<and> ref_rsc_id ref = gr_rsc_id r \<and> gn_node_id n \<in> nl_node_id ` set (gr_node_list r))"
    proof
      assume "n = nd'"
      then show ?thesis using relink_refs_at [OF assms] by simp
    next
      assume "nodes cb x = Some n \<and> x \<noteq> q"
      then show ?thesis using relink_refs_other [OF assms] by blast
    qed
  qed
  moreover have "members_wf cb'"
    unfolding members_wf_def
  proof (intro allI impI conjI ballI)
    fix x r
    assume r: "rscs cb' x = Some r"
    then show "distinct (map nl_node_id (gr_node_list r))"
      using wf upd(1) nl(1) by (auto simp: gld_wf_def members_wf_def split: if_splits)
    fix n
    assume n: "n \<in> set (gr_node_list r)"
    then have "(\<exists>y m. nodes cb y = Some m \<and> gn_node_id m = nl_node_id n \<and> gn_dest_id m = nl_dest_id n)"
    proof (cases "n = \<lparr>nl_dest_id = gn_dest_id nd, nl_node_id = gn_node_id nd\<rparr>")
      case False
      have "\<exists>y s. rscs cb y = Some s \<and> n \<in> set (gr_node_list s)"
      proof (cases "x = p")
        case True
        with r upd(1) n False nl(2) show ?thesis using old(1) by auto
      next
        case False
        with r upd(1) n show ?thesis by auto
      qed
      then obtain y s where "rscs cb y = Some s" and "n \<in> set (gr_node_list s)" by blast
      moreover have "members_wf cb" using wf by (simp add: gld_wf_def)
      ultimately show ?thesis unfolding members_wf_def by blast
    qed (use old(2) in auto)
    then show "\<exists>q nd. nodes cb' q = Some nd \<and> gn_node_id nd = nl_node_id n \<and> gn_dest_id nd = nl_dest_id n"
      by (simp only: exn [where Q = "\<lambda>i d. i = nl_node_id n \<and> d = nl_dest_id n"])
  qed
  ultimately show ?thesis using wf rest by (simp add: gld_wf_def)
qed

end
