(* ===== verification/Gld_Dir.thy ===== *)
theory Gld_Dir
  imports Gld_Ops
begin

text \<open>
  What the lock director promises: a directory that maps the name of every open or orphaned
  resource to its id, the nodes that have it open in the order in which they opened it (the
  first is the master), and its orphan mark. The operations of the directory are given as
  functions on the map; \<open>abs_dir\<close> reads the directory off a control block.
\<close>

section \<open>The abstract directory\<close>

record dir_entry =
  de_id :: u32
  de_nodes :: "GLSV_NODE_LIST list"
  de_orphan :: bool
  de_mode :: SaLckLockModeT

type_synonym directory = "SaNameT \<rightharpoonup> dir_entry"

definition has_node :: "u32 \<Rightarrow> GLSV_NODE_LIST list \<Rightarrow> bool" where
  "has_node nid ns \<longleftrightarrow> nid \<in> nl_node_id ` set ns"

definition dir_join :: "SaNameT \<Rightarrow> u32 \<Rightarrow> GLSV_NODE_LIST \<Rightarrow> directory \<Rightarrow> directory" where
  "dir_join name rid n d =
     d(name \<mapsto> (case d name of
        None \<Rightarrow> \<lparr>de_id = rid, de_nodes = [n], de_orphan = False, de_mode = SA_LCK_MODE_UNSET\<rparr>
      | Some e \<Rightarrow> if has_node (nl_node_id n) (de_nodes e) then e
                  else e\<lparr>de_nodes := de_nodes e @ [n]\<rparr>))"

definition dir_leave :: "SaNameT \<Rightarrow> u32 \<Rightarrow> bool \<Rightarrow> directory \<Rightarrow> directory" where
  "dir_leave name nid flag d =
     (case d name of
        None \<Rightarrow> d
      | Some e \<Rightarrow> let ns = rmv_node nid (de_nodes e)
                  in d(name := if ns = [] \<and> \<not> flag then None
                               else Some (e\<lparr>de_nodes := ns, de_orphan := flag\<rparr>)))"

definition dir_set_orphan :: "SaNameT \<Rightarrow> bool \<Rightarrow> SaLckLockModeT \<Rightarrow> directory \<Rightarrow> directory" where
  "dir_set_orphan name flag mode d =
     d(name := map_option (\<lambda>e. e\<lparr>de_orphan := flag, de_mode := mode\<rparr>) (d name))"

definition dir_down :: "u32 \<Rightarrow> directory \<Rightarrow> directory" where
  "dir_down nid d name =
     (case d name of
        None \<Rightarrow> None
      | Some e \<Rightarrow>
          if has_node nid (de_nodes e)
          then let ns = rmv_node nid (de_nodes e)
               in if ns = [] \<and> \<not> de_orphan e then None else Some (e\<lparr>de_nodes := ns\<rparr>)
          else Some e)"

definition dir_dest :: "u32 \<Rightarrow> MDS_DEST \<Rightarrow> directory \<Rightarrow> directory" where
  "dir_dest nid dest d name =
     map_option (\<lambda>e. e\<lparr>de_nodes := map (set_dest nid dest) (de_nodes e)\<rparr>) (d name)"

section \<open>Removing a node from a node list\<close>

lemma rmv_node_notin: "\<not> has_node nid ns \<Longrightarrow> rmv_node nid ns = ns"
  by (induction ns) (auto simp: has_node_def)

lemma set_rmv_node_subset: "set (rmv_node nid ns) \<subseteq> set ns"
  by (induction ns) auto

lemma has_node_rmv:
  "distinct (map nl_node_id ns) \<Longrightarrow> has_node i (rmv_node nid ns) \<longleftrightarrow> i \<noteq> nid \<and> has_node i ns"
  by (induction ns) (auto simp: has_node_def)

lemma distinct_rmv_node:
  "distinct (map nl_node_id ns) \<Longrightarrow> distinct (map nl_node_id (rmv_node nid ns))"
proof (induction ns)
  case (Cons n ns)
  then show ?case using set_rmv_node_subset [of nid ns] by auto
qed simp

lemma rmv_node_Nil_iff:
  "has_node nid ns \<Longrightarrow> rmv_node nid ns = [] \<longleftrightarrow> length ns = 1"
  by (cases ns) (auto simp: has_node_def)

section \<open>Reading the directory off a control block\<close>

definition dir_of :: "GLSV_GLD_RSC_INFO \<Rightarrow> dir_entry" where
  "dir_of ri = \<lparr>de_id = gr_rsc_id ri, de_nodes = gr_node_list ri, de_orphan = gr_can_orphan ri,
                de_mode = gr_orphan_lck_mode ri\<rparr>"

definition abs_dir :: "GLSV_GLD_CB \<Rightarrow> directory" where
  "abs_dir cb name =
     (case List.find (\<lambda>p. map_option gr_lck_name (rscs cb p) = Some name) (rsc_list cb) of
        None \<Rightarrow> None
      | Some p \<Rightarrow> map_option dir_of (rscs cb p))"

lemma abs_dir_Some:
  assumes "gld_wf cb" and "rscs cb p = Some ri"
  shows "abs_dir cb (gr_lck_name ri) = Some (dir_of ri)"
proof -
  let ?P = "\<lambda>x. map_option gr_lck_name (rscs cb x) = Some (gr_lck_name ri)"
  have "p \<in> set (rsc_list cb)" using wf_rsc_in [OF assms] by simp
  moreover have "?P p" using assms(2) by simp
  ultimately have "List.find ?P (rsc_list cb) \<noteq> None"
    using find_NoneD [of ?P "rsc_list cb" p] by blast
  then obtain x where x: "List.find ?P (rsc_list cb) = Some x" by blast
  then have "?P x" by (rule find_SomeD [THEN conjunct2])
  then obtain rx where "rscs cb x = Some rx" and "gr_lck_name rx = gr_lck_name ri" by auto
  then have "x = p" using wf_name_unique [OF assms(1) _ assms(2)] by blast
  with x show ?thesis by (simp add: abs_dir_def assms(2))
qed

lemma abs_dir_SomeD:
  assumes "abs_dir cb name = Some e"
  obtains p ri where "rscs cb p = Some ri" and "gr_lck_name ri = name" and "e = dir_of ri"
proof -
  obtain p where p: "List.find (\<lambda>p. map_option gr_lck_name (rscs cb p) = Some name) (rsc_list cb) = Some p"
    and e: "map_option dir_of (rscs cb p) = Some e"
    using assms by (auto simp: abs_dir_def split: option.splits)
  from p have "map_option gr_lck_name (rscs cb p) = Some name" by (rule find_SomeD [THEN conjunct2])
  with e show thesis using that by auto
qed

lemma abs_dir_iff:
  "gld_wf cb \<Longrightarrow> abs_dir cb name = Some e \<longleftrightarrow>
     (\<exists>p ri. rscs cb p = Some ri \<and> gr_lck_name ri = name \<and> e = dir_of ri)"
  using abs_dir_Some abs_dir_SomeD by metis

lemma abs_dir_eqI:
  assumes "gld_wf cb"
    and "\<And>e. (\<exists>p ri. rscs cb p = Some ri \<and> gr_lck_name ri = name \<and> e = dir_of ri) \<longleftrightarrow> x = Some e"
  shows "abs_dir cb name = x"
proof -
  have "abs_dir cb name = Some e \<longleftrightarrow> x = Some e" for e
    using abs_dir_iff [OF assms(1)] assms(2) by simp
  then show ?thesis by (cases x; cases "abs_dir cb name") auto
qed

lemma abs_dir_None_iff:
  "gld_wf cb \<Longrightarrow> abs_dir cb name = None \<longleftrightarrow> (\<forall>p ri. rscs cb p = Some ri \<longrightarrow> gr_lck_name ri \<noteq> name)"
  using abs_dir_iff [of cb name] by (metis not_Some_eq)

lemma abs_dir_update:
  assumes wf: "gld_wf cb" and wf': "gld_wf cb'" and p: "rscs cb p = Some ri \<or> rscs cb p = None"
    and upd: "rscs cb' = (rscs cb)(p \<mapsto> ri')"
    and name: "rscs cb p = Some ri \<Longrightarrow> gr_lck_name ri' = gr_lck_name ri"
  shows "abs_dir cb' = (abs_dir cb)(gr_lck_name ri' \<mapsto> dir_of ri')"
proof
  fix n
  show "abs_dir cb' n = ((abs_dir cb)(gr_lck_name ri' \<mapsto> dir_of ri')) n"
  proof (cases "n = gr_lck_name ri'")
    case True
    then show ?thesis using abs_dir_Some [OF wf', of p ri'] upd by simp
  next
    case False
    have "abs_dir cb' n = abs_dir cb n"
    proof (rule abs_dir_eqI [OF wf'])
      fix e
      have "(\<exists>x r. rscs cb' x = Some r \<and> gr_lck_name r = n \<and> e = dir_of r) \<longleftrightarrow>
            (\<exists>x r. rscs cb x = Some r \<and> gr_lck_name r = n \<and> e = dir_of r)"
        using False upd p name by (metis fun_upd_apply option.distinct(1) option.inject)
      then show "(\<exists>x r. rscs cb' x = Some r \<and> gr_lck_name r = n \<and> e = dir_of r) \<longleftrightarrow>
            abs_dir cb n = Some e"
        using abs_dir_iff [OF wf] by simp
    qed
    with False show ?thesis by simp
  qed
qed

lemma abs_dir_remove:
  assumes wf: "gld_wf cb" and wf': "gld_wf cb'" and p: "rscs cb p = Some ri"
    and upd: "rscs cb' = (rscs cb)(p := None)"
  shows "abs_dir cb' = (abs_dir cb)(gr_lck_name ri := None)"
proof
  fix n
  show "abs_dir cb' n = ((abs_dir cb)(gr_lck_name ri := None)) n"
  proof (rule abs_dir_eqI [OF wf'])
    fix e
    have "(\<exists>x r. rscs cb' x = Some r \<and> gr_lck_name r = n \<and> e = dir_of r) \<longleftrightarrow>
          n \<noteq> gr_lck_name ri \<and> (\<exists>x r. rscs cb x = Some r \<and> gr_lck_name r = n \<and> e = dir_of r)"
      using upd p wf_name_unique [OF wf] by (metis fun_upd_apply option.distinct(1) option.inject)
    then show "(\<exists>x r. rscs cb' x = Some r \<and> gr_lck_name r = n \<and> e = dir_of r) \<longleftrightarrow>
          ((abs_dir cb)(gr_lck_name ri := None)) n = Some e"
      using abs_dir_iff [OF wf] by simp
  qed
qed

lemma same_view_dir_of:
  assumes "same_view cb cb'" and "rscs cb p = Some ri"
  shows "\<exists>ri'. rscs cb' p = Some ri' \<and> gr_lck_name ri' = gr_lck_name ri \<and> dir_of ri' = dir_of ri"
  by (rule same_view_rscD [OF assms]) (simp add: dir_of_def)

lemma same_view_dir:
  assumes sv: "same_view cb cb'" and wf: "gld_wf cb"
  shows "abs_dir cb' = abs_dir cb"
proof
  fix n
  show "abs_dir cb' n = abs_dir cb n"
  proof (rule abs_dir_eqI [OF same_view_wf [OF sv wf]])
    fix e
    have "(\<exists>x r. rscs cb' x = Some r \<and> gr_lck_name r = n \<and> e = dir_of r) \<longleftrightarrow>
          (\<exists>x r. rscs cb x = Some r \<and> gr_lck_name r = n \<and> e = dir_of r)"
      using same_view_dir_of [OF sv] same_view_dir_of [OF same_view_sym [OF sv]] by metis
    then show "(\<exists>x r. rscs cb' x = Some r \<and> gr_lck_name r = n \<and> e = dir_of r) \<longleftrightarrow> abs_dir cb n = Some e"
      using abs_dir_iff [OF wf] by simp
  qed
qed

section \<open>The contract of a directory\<close>

text \<open>
  What the node directors rely on: an id belongs to one name, a node appears once in a node
  list, and an entry without nodes is an orphaned one. The lemmas are about any service that
  keeps this contract.
\<close>

locale lock_directory =
  fixes inv :: "'s \<Rightarrow> bool"
    and dir :: "'s \<Rightarrow> directory"
  assumes id_unique: "inv s \<Longrightarrow> dir s m = Some e \<Longrightarrow> dir s n = Some e' \<Longrightarrow> de_id e = de_id e' \<Longrightarrow> m = n"
    and nodes_once: "inv s \<Longrightarrow> dir s n = Some e \<Longrightarrow> distinct (map nl_node_id (de_nodes e))"
    and orphan_only: "inv s \<Longrightarrow> dir s n = Some e \<Longrightarrow> de_nodes e = [] \<Longrightarrow> de_orphan e"
begin

lemma same_id_same_master:
  assumes "inv s" and "dir s m = Some e" and "dir s n = Some e'" and "de_id e = de_id e'"
  shows "m = n \<and> hd (de_nodes e) = hd (de_nodes e')"
  using id_unique [OF assms] assms(2,3) by auto

lemma down_forgets:
  assumes "inv s" and "dir_down nid (dir s) n = Some e"
  shows "\<not> has_node nid (de_nodes e) \<and> (de_nodes e = [] \<longrightarrow> de_orphan e)"
proof -
  from assms(2) obtain e0 where e0: "dir s n = Some e0" by (auto simp: dir_down_def split: option.splits)
  note d = nodes_once [OF assms(1) e0]
  show ?thesis
  proof (cases "has_node nid (de_nodes e0)")
    case True
    with assms(2) e0 have "e = e0\<lparr>de_nodes := rmv_node nid (de_nodes e0)\<rparr>"
      and "rmv_node nid (de_nodes e0) = [] \<longrightarrow> de_orphan e0"
      by (auto simp: dir_down_def Let_def split: if_splits)
    then show ?thesis using has_node_rmv [OF d, of nid nid] by auto
  next
    case False
    with assms(2) e0 have "e = e0" by (simp add: dir_down_def)
    then show ?thesis using False orphan_only [OF assms(1) e0] by blast
  qed
qed

text \<open>The master changes only when it is the one that goes down, and then to the next in line.\<close>

lemma down_successor:
  assumes "inv s" and "dir s n = Some e" and "de_nodes e = m # k # ns"
  shows "\<exists>e'. dir_down nid (dir s) n = Some e' \<and>
     hd (de_nodes e') = (if nl_node_id m = nid then k else m)"
proof -
  have "nl_node_id m \<noteq> nl_node_id k" using nodes_once [OF assms(1,2)] assms(3) by auto
  then show ?thesis using assms by (auto simp: dir_down_def has_node_def Let_def)
qed

lemma join_keeps_master:
  assumes "dir s name = Some e" and "de_nodes e \<noteq> []"
  shows "\<exists>e'. dir_join name rid n (dir s) name = Some e' \<and> hd (de_nodes e') = hd (de_nodes e)
     \<and> de_id e' = de_id e"
  using assms by (auto simp: dir_join_def)

end

end
