(* ===== verification/Gld_Run.thy ===== *)
theory Gld_Run
  imports Gld_Dir
begin

text \<open>
  The operations of \<open>gld_rsc.c\<close> run on a well-formed control block: they do not fault, they
  keep the structure, and their effect on the directory is the one of the abstract operation.
\<close>

section \<open>Tables\<close>

lemma tbl_del_insert:
  "k \<notin> fst ` set t \<Longrightarrow> filter (\<lambda>e. fst e \<noteq> k) (tbl_insert k v t) = t"
proof (induction k v t rule: tbl_insert.induct)
  case (2 k v k' v' t)
  have "filter (\<lambda>e. fst e \<noteq> k) t = t"
    by (rule filter_True) (use "2.prems" in force)
  with 2 show ?case by auto
qed simp

lemma tbl_del_node_add:
  assumes "tbl_add k v t = (t', NCSCC_RC_SUCCESS)"
  shows "fst (tbl_del_node k v t') = t"
proof -
  from assms have "t' = tbl_insert k v t" and "k \<notin> fst ` set t"
    by (auto simp: tbl_add_def tbl_get_None_iff split: if_splits)
  then show ?thesis
    by (simp add: tbl_del_node_def tbl_del_def tbl_get_def map_of_tbl_insert tbl_del_insert)
qed

lemma tbl_add_SuccessD:
  assumes "tbl_add k v t = (t', NCSCC_RC_SUCCESS)" and "tbl_wf t"
  shows "tbl_wf t'" and "tbl_get t k = None" and "tbl_get t' = (tbl_get t)(k \<mapsto> v)" and "\<not> zero_key k"
proof -
  from assms(1) have ok: "tbl_get t k = None" "\<not> zero_key k" by (auto simp: tbl_add_def split: if_splits)
  then show "tbl_get t k = None" "\<not> zero_key k" by simp_all
  from assms(2) have "tbl_wf (fst (tbl_add k v t))" by (rule tbl_wf_add)
  with assms(1) show "tbl_wf t'" by simp
  have "tbl_get (fst (tbl_add k v t)) = (tbl_get t)(k \<mapsto> v)" using ok by (simp add: tbl_get_add)
  with assms(1) show "tbl_get t' = (tbl_get t)(k \<mapsto> v)" by simp
qed

lemma tbl_del_node_in:
  "tbl_get t k = Some v \<Longrightarrow> tbl_del_node k v t = (filter (\<lambda>e. fst e \<noteq> k) t, NCSCC_RC_SUCCESS)"
  by (simp add: tbl_del_node_def tbl_del_def)

section \<open>Looking up and creating\<close>

lemma find_by_name_run:
  assumes "gld_wf cb"
  shows "\<exists>r. find_rsc_by_name cb name = Some r
      \<and> (case r of None \<Rightarrow> abs_dir cb name = None
         | Some p \<Rightarrow> (\<exists>ri. rscs cb p = Some ri \<and> gr_lck_name ri = name))"
proof -
  let ?P = "\<lambda>p. name = gr_lck_name (the (rscs cb p))"
  have "find_rsc_by_name cb name = Some (List.find ?P (rsc_list cb))"
    unfolding find_rsc_by_name_def
    by (rule first_such_total) (use wf_list_rsc [OF assms] in force)
  moreover have "abs_dir cb name = None" if "List.find ?P (rsc_list cb) = None"
    unfolding abs_dir_None_iff [OF assms]
    using find_NoneD [OF that] wf_rsc_in [OF assms] by force
  moreover have "\<exists>ri. rscs cb p = Some ri \<and> gr_lck_name ri = name"
    if "List.find ?P (rsc_list cb) = Some p" for p
    using find_SomeD [OF that] wf_list_rsc [OF assms, of p] by auto
  ultimately show ?thesis by (cases "List.find ?P (rsc_list cb)") auto
qed

lemma find_by_id_run:
  assumes "gld_wf cb"
  shows "\<exists>r. gld_find_rsc_by_id cb rid = Some r
      \<and> (case r of None \<Rightarrow> (\<forall>p ri. rscs cb p = Some ri \<longrightarrow> gr_rsc_id ri \<noteq> rid)
         | Some p \<Rightarrow> (\<exists>ri. rscs cb p = Some ri \<and> gr_rsc_id ri = rid))"
proof -
  let ?P = "\<lambda>p. gr_rsc_id (the (rscs cb p)) = rid"
  have "gld_find_rsc_by_id cb rid = Some (List.find ?P (rsc_list cb))"
    unfolding gld_find_rsc_by_id_def
    by (rule first_such_total) (use wf_list_rsc [OF assms] in force)
  moreover have "\<forall>p ri. rscs cb p = Some ri \<longrightarrow> gr_rsc_id ri \<noteq> rid"
    if "List.find ?P (rsc_list cb) = None"
    using find_NoneD [OF that] wf_rsc_in [OF assms] by force
  moreover have "\<exists>ri. rscs cb p = Some ri \<and> gr_rsc_id ri = rid"
    if "List.find ?P (rsc_list cb) = Some p" for p
    using find_SomeD [OF that] wf_list_rsc [OF assms, of p] by auto
  ultimately show ?thesis by (cases "List.find ?P (rsc_list cb)") auto
qed

text \<open>The addresses \<open>malloc\<close> returns are new, and some id the generator can reach is free.\<close>

definition rsc_env_ok :: "gld_env \<Rightarrow> GLSV_GLD_CB \<Rightarrow> bool" where
  "rsc_env_ok E cb \<longleftrightarrow> ge_rsc_ptr E \<noteq> NULL \<and> rscs cb (ge_rsc_ptr E) = None
     \<and> (\<exists>f. 210 \<le> unat f \<and> tbl_get (rsc_info_id cb) (key32 f) = None)"

definition gld_env_ok :: "gld_env \<Rightarrow> GLSV_GLD_CB \<Rightarrow> bool" where
  "gld_env_ok E cb \<longleftrightarrow> rsc_env_ok E cb \<and> nodes cb (ge_node_ptr E) = None"

lemma gen_rsc_id_run:
  assumes "gld_wf cb" and "rsc_env_ok E cb"
  shows "\<exists>i. gld_gen_rsc_id cb = Some (cb\<lparr>nxt_rsc_id := next_id i\<rparr>, i)
      \<and> i \<noteq> 0 \<and> tbl_get (rsc_info_id cb) (key32 i) = None"
proof -
  obtain f where "210 \<le> unat f" and "tbl_get (rsc_info_id cb) (key32 f) = None"
    using assms(2) by (auto simp: rsc_env_ok_def)
  moreover have "nxt_rsc_id cb \<noteq> 0" using assms(1) by (simp add: gld_wf_def)
  ultimately obtain x where "gen_loop (rsc_info_id cb) (nxt_rsc_id cb) (nxt_rsc_id cb) = Some (Some x)"
    "tbl_get (rsc_info_id cb) (key32 x) = None" "x \<noteq> 0"
    using gen_loop_free [of "rsc_info_id cb" f "nxt_rsc_id cb" "nxt_rsc_id cb"] by blast
  then show ?thesis by (simp add: gld_gen_rsc_id_def)
qed

text \<open>A failed creation changes nothing but the id counter and the trace.\<close>

definition only_counter :: "GLSV_GLD_CB \<Rightarrow> GLSV_GLD_CB \<Rightarrow> bool" where
  "only_counter cb cb' \<longleftrightarrow> (\<exists>x os. x \<noteq> 0 \<and> cb' = cb\<lparr>nxt_rsc_id := x, gld_outs := os\<rparr>)"

text \<open>A successful one adds one resource under a fresh id.\<close>

definition created :: "gld_env \<Rightarrow> SaNameT \<Rightarrow> GLSV_GLD_CB \<Rightarrow> GLSV_GLD_CB \<Rightarrow> bool" where
  "created E name cb cb' \<longleftrightarrow> (\<exists>rid.
     tbl_get (rsc_info_id cb) (key32 rid) = None
     \<and> rscs cb' = (rscs cb)(ge_rsc_ptr E \<mapsto> new_rsc rid name (ge_time E))
     \<and> nodes cb' = nodes cb \<and> glnd_details cb' = glnd_details cb \<and> ha_state cb' = ha_state cb
     \<and> gld_wf cb')"

lemma only_counter_wf:
  assumes "gld_wf cb" and "only_counter cb cb'"
  shows "gld_wf cb'" and "abs_dir cb' = abs_dir cb" and "live_wf cb' = live_wf cb"
    and "nodes cb' = nodes cb" and "rscs cb' = rscs cb" and "glnd_details cb' = glnd_details cb"
    and "ha_state cb' = ha_state cb"
proof -
  obtain x os where x: "x \<noteq> 0" and cb': "cb' = cb\<lparr>nxt_rsc_id := x, gld_outs := os\<rparr>"
    using assms(2) by (auto simp: only_counter_def)
  show "gld_wf cb'" using assms(1) x unfolding cb' by (simp add: gld_wf_def gld_wf_defs)
  show "live_wf cb' = live_wf cb" "nodes cb' = nodes cb" "rscs cb' = rscs cb"
      "glnd_details cb' = glnd_details cb" "ha_state cb' = ha_state cb"
    unfolding cb' by (simp_all add: live_wf_def)
  show "abs_dir cb' = abs_dir cb" unfolding cb' by (simp add: abs_dir_def fun_eq_iff cong: option.case_cong)
qed

lemma only_counterI [simp]:
  "x \<noteq> 0 \<Longrightarrow> only_counter cb (cb\<lparr>nxt_rsc_id := x, gld_outs := os\<rparr>)"
  "x \<noteq> 0 \<Longrightarrow> only_counter cb (cb\<lparr>nxt_rsc_id := x\<rparr>)"
proof -
  assume x: "x \<noteq> 0"
  then show "only_counter cb (cb\<lparr>nxt_rsc_id := x, gld_outs := os\<rparr>)" by (auto simp: only_counter_def)
  have "cb\<lparr>nxt_rsc_id := x\<rparr> = cb\<lparr>nxt_rsc_id := x, gld_outs := gld_outs cb\<rparr>" by simp
  with x show "only_counter cb (cb\<lparr>nxt_rsc_id := x\<rparr>)" unfolding only_counter_def by blast
qed

lemma add_rsc_with_id:
  assumes wf: "gld_wf cb" and env: "rsc_env_ok E cb" and x: "x \<noteq> 0" and rid: "rid \<noteq> 0"
    and ids: "tbl_add (key32 rid) (ge_rsc_ptr E) (rsc_info_id cb) = (t, NCSCC_RC_SUCCESS)"
    and names: "tbl_add (name_key (net_name name))
        \<lparr>map_rsc_id = rid, map_rsc_name = net_name name\<rparr> (rsc_map_info cb) = (u, NCSCC_RC_SUCCESS)"
  shows "created E name cb (cb\<lparr>nxt_rsc_id := x, gld_outs := os, rsc_info_id := t, rsc_map_info := u,
      rscs := (rscs cb)(ge_rsc_ptr E \<mapsto> new_rsc rid name (ge_time E)),
      rsc_list := ge_rsc_ptr E # rsc_list cb\<rparr>)" (is "created E name cb ?cb'")
proof -
  have wfs: "tbl_wf (rsc_info_id cb)" "tbl_wf (rsc_map_info cb)"
    using wf by (simp_all add: gld_wf_def ids_wf_def names_wf_def)
  note i = tbl_add_SuccessD [OF ids wfs(1)] and n = tbl_add_SuccessD [OF names wfs(2)]
  have "gld_wf ?cb'"
    by (rule wf_add_rsc [OF wf, where p = "ge_rsc_ptr E" and ri = "new_rsc rid name (ge_time E)"])
       (use i n env x in \<open>simp_all add: new_rsc_def rsc_env_ok_def\<close>)
  with i(2) show ?thesis by (auto simp: created_def)
qed

lemma add_rsc_run:
  assumes wf: "gld_wf cb" and env: "rsc_env_ok E cb"
  shows "\<exists>cb' r err. gld_add_rsc_info E name rsc_id cb = Some (cb', r, err)
      \<and> (case r of None \<Rightarrow> err \<noteq> SA_AIS_OK \<and> only_counter cb cb'
         | Some p \<Rightarrow> err = SA_AIS_OK \<and> p = ge_rsc_ptr E \<and> created E name cb cb')"
proof -
  obtain x rid where gen: "(if rsc_id \<noteq> 0 then Some (cb, rsc_id) else gld_gen_rsc_id cb)
      = Some (cb\<lparr>nxt_rsc_id := x\<rparr>, rid)" and x: "x \<noteq> 0" and rid: "rid \<noteq> 0"
  proof (cases "rsc_id = 0")
    case True
    then show thesis using that gen_rsc_id_run [OF wf env] by auto
  next
    case False
    have "cb = cb\<lparr>nxt_rsc_id := nxt_rsc_id cb\<rparr>" by simp
    with False show thesis using that [of "nxt_rsc_id cb" rsc_id] wf by (simp add: gld_wf_def)
  qed
  obtain t c where ids: "tbl_add (key32 rid) (ge_rsc_ptr E) (rsc_info_id cb) = (t, c)"
    by (metis surj_pair)
  obtain u d where names: "tbl_add (name_key (net_name name))
      \<lparr>map_rsc_id = rid, map_rsc_name = net_name name\<rparr> (rsc_map_info cb) = (u, d)"
    by (metis surj_pair)
  define cb1 where "cb1 = cb\<lparr>nxt_rsc_id := x\<rparr>"
  obtain os err where imm: "imm_create E name cb1 = (cb1\<lparr>gld_outs := os\<rparr>, err)"
  proof -
    have "\<exists>os err. imm_create E name cb1 = (cb1\<lparr>gld_outs := os\<rparr>, err)"
      by (auto simp: imm_create_def gld_emit_def intro: exI [of _ "gld_outs cb1"])
    then show thesis using that by blast
  qed
  consider "c = NCSCC_RC_FAILURE" | "c = NCSCC_RC_SUCCESS" "d = NCSCC_RC_FAILURE"
    | "c = NCSCC_RC_SUCCESS" "d = NCSCC_RC_SUCCESS" "err \<noteq> SA_AIS_OK"
    | "c = NCSCC_RC_SUCCESS" "d = NCSCC_RC_SUCCESS" "err = SA_AIS_OK"
    by (metis (full_types) rc.exhaust)
  then show ?thesis
  proof cases
    case 1
    then show ?thesis using gen rid ids x by (simp add: gld_add_rsc_info_def del: bind_Some_iff)
  next
    case 2
    then have del: "fst (tbl_del_node (key32 rid) (ge_rsc_ptr E) t) = rsc_info_id cb"
      using tbl_del_node_add [of "key32 rid" "ge_rsc_ptr E" "rsc_info_id cb" t] ids by simp
    have "cb\<lparr>nxt_rsc_id := x, rsc_info_id := rsc_info_id cb\<rparr> = cb\<lparr>nxt_rsc_id := x\<rparr>" by simp
    with del 2 show ?thesis using gen rid ids names x
      by (simp add: gld_add_rsc_info_def Let_def del: bind_Some_iff)
  next
    case 3
    then have del: "fst (tbl_del_node (key32 rid) (ge_rsc_ptr E) t) = rsc_info_id cb"
        "fst (tbl_del_node (name_key (net_name name))
           \<lparr>map_rsc_id = rid, map_rsc_name = net_name name\<rparr> u) = rsc_map_info cb"
      using tbl_del_node_add [of "key32 rid" "ge_rsc_ptr E" "rsc_info_id cb" t] ids
        tbl_del_node_add [of "name_key (net_name name)" _ "rsc_map_info cb" u] names by simp_all
    have "cb\<lparr>nxt_rsc_id := x, gld_outs := os, rsc_map_info := rsc_map_info cb, rsc_info_id := rsc_info_id cb\<rparr>
        = cb\<lparr>nxt_rsc_id := x, gld_outs := os\<rparr>" by simp
    with del 3 show ?thesis using gen rid ids names x imm
      by (simp add: gld_add_rsc_info_def cb1_def Let_def del: bind_Some_iff)
  next
    case 4
    then show ?thesis using gen rid ids names x imm add_rsc_with_id [OF wf env x rid]
      by (simp add: gld_add_rsc_info_def cb1_def Let_def del: bind_Some_iff)
  qed
qed

section \<open>Releasing a resource\<close>

lemma free_rsc_run:
  assumes wf: "gld_wf cb" and p: "rscs cb p = Some ri" and nl: "gr_node_list ri = []"
  shows "\<exists>cb'. gld_free_rsc_info p cb = Some cb' \<and> gld_wf cb' \<and> rscs cb' = (rscs cb)(p := None)
      \<and> nodes cb' = nodes cb \<and> glnd_details cb' = glnd_details cb \<and> ha_state cb' = ha_state cb"
proof -
  let ?k = "name_key (net_name (gr_lck_name ri))"
  have del: "tbl_del_node (key32 (gr_rsc_id ri)) p (rsc_info_id cb)
      = tbl_del (key32 (gr_rsc_id ri)) (rsc_info_id cb)"
    using wf_id_get [OF wf p] by (simp add: tbl_del_node_def)
  have wfs: "tbl_wf (rsc_info_id cb)" "tbl_wf (rsc_map_info cb)"
    using wf by (simp_all add: gld_wf_def ids_wf_def names_wf_def)
  obtain cb' where run: "gld_free_rsc_info p cb = Some cb'"
    and cb': "rscs cb' = (rscs cb)(p := None)" "rsc_list cb' = remove1 p (rsc_list cb)"
      "nodes cb' = nodes cb" "glnd_details cb' = glnd_details cb"
      "rsc_info_id cb' = fst (tbl_del (key32 (gr_rsc_id ri)) (rsc_info_id cb))"
      "rsc_map_info cb' = fst (tbl_del ?k (rsc_map_info cb))"
      "nxt_rsc_id cb' = nxt_rsc_id cb" "ha_state cb' = ha_state cb"
    using p nl del by (auto simp: gld_free_rsc_info_def gld_emit_def gld_emits_def Let_def)
  have "gld_wf cb'"
    by (rule wf_free_rsc [OF wf p nl cb'(1-4)])
       (use cb' wfs in \<open>simp_all add: tbl_wf_del tbl_get_del\<close>)
  with run cb' show ?thesis by blast
qed

section \<open>A node leaves a resource\<close>

text \<open>The state between the update of the two lists and the release or the election.\<close>

definition unlinked ::
  "ptr \<Rightarrow> ptr \<Rightarrow> bool \<Rightarrow> GLSV_GLD_RSC_INFO \<Rightarrow> GLSV_GLD_GLND_DETAILS \<Rightarrow> GLSV_GLD_CB \<Rightarrow> GLSV_GLD_CB" where
  "unlinked p q flag ri nd cb =
     cb\<lparr>rscs := (rscs cb)(p \<mapsto> ri\<lparr>gr_node_list := rmv_node (gn_node_id nd) (gr_node_list ri),
                                   gr_can_orphan := flag\<rparr>),
        nodes := (nodes cb)(q \<mapsto> nd\<lparr>gn_rsc_info_tree :=
                     fst (tbl_del (key32 (gr_rsc_id ri)) (gn_rsc_info_tree nd))\<rparr>)\<rparr>"

lemma unlinked_wf:
  assumes wf: "gld_wf cb" and p: "rscs cb p = Some ri" and q: "nodes cb q = Some nd"
  shows "gld_wf (unlinked p q flag ri nd cb)"
proof -
  let ?nl = "rmv_node (gn_node_id nd) (gr_node_list ri)"
  have d: "distinct (map nl_node_id (gr_node_list ri))"
    using wf p by (simp add: gld_wf_def members_wf_def)
  have t: "tbl_wf (gn_rsc_info_tree nd)" using wf q by (simp add: gld_wf_def nodes_wf_def)
  have gone: "gn_node_id nd \<notin> nl_node_id ` set ?nl"
    using has_node_rmv [OF d] by (simp add: has_node_def)
  have keep: "\<forall>i. i \<noteq> gn_node_id nd \<longrightarrow>
      i \<in> nl_node_id ` set ?nl \<longleftrightarrow> i \<in> nl_node_id ` set (gr_node_list ri)"
    using has_node_rmv [OF d, of _ "gn_node_id nd"] by (simp add: has_node_def)
  show ?thesis
    by (rule wf_relink [OF wf p q, where ri' = "ri\<lparr>gr_node_list := ?nl, gr_can_orphan := flag\<rparr>"
          and nd' = "nd\<lparr>gn_rsc_info_tree := fst (tbl_del (key32 (gr_rsc_id ri)) (gn_rsc_info_tree nd))\<rparr>"])
       (use d t gone keep set_rmv_node_subset [of "gn_node_id nd" "gr_node_list ri"] in
          \<open>auto simp: unlinked_def distinct_rmv_node tbl_wf_del tbl_get_del\<close>)
qed

lemma unlinked_dir:
  assumes wf: "gld_wf cb" and p: "rscs cb p = Some ri" and q: "nodes cb q = Some nd"
  shows "abs_dir (unlinked p q flag ri nd cb)
     = (abs_dir cb)(gr_lck_name ri \<mapsto> (dir_of ri)\<lparr>de_nodes := rmv_node (gn_node_id nd) (gr_node_list ri),
                                                 de_orphan := flag\<rparr>)"
proof -
  let ?ri = "ri\<lparr>gr_node_list := rmv_node (gn_node_id nd) (gr_node_list ri), gr_can_orphan := flag\<rparr>"
  have "abs_dir (unlinked p q flag ri nd cb) = (abs_dir cb)(gr_lck_name ?ri \<mapsto> dir_of ?ri)"
    by (rule abs_dir_update [OF wf unlinked_wf [OF assms], where p = p and ri = ri])
       (use p in \<open>simp_all add: unlinked_def\<close>)
  then show ?thesis by (simp add: dir_of_def)
qed

lemma rmv_ref_run:
  assumes wf: "gld_wf cb" and p: "rscs cb p = Some ri" and q: "nodes cb q = Some nd"
    and mem: "has_node (gn_node_id nd) (gr_node_list ri)"
    and ref: "ref_rsc_id ref = gr_rsc_id ri"
    and live: "\<forall>x r. rscs cb x = Some r \<longrightarrow> x \<noteq> p \<longrightarrow> gr_node_list r = [] \<longrightarrow> gr_can_orphan r"
  shows "\<exists>cb'. gld_rsc_rmv_node_ref E p (Some ref) q flag cb = Some cb' \<and> gld_inv cb'
      \<and> abs_dir cb' = dir_leave (gr_lck_name ri) (gn_node_id nd) flag (abs_dir cb)
      \<and> nodes cb' = nodes (unlinked p q flag ri nd cb)
      \<and> glnd_details cb' = glnd_details cb \<and> ha_state cb' = ha_state cb"
proof -
  let ?cb1 = "unlinked p q flag ri nd cb" and ?nl = "rmv_node (gn_node_id nd) (gr_node_list ri)"
  let ?ri = "ri\<lparr>gr_node_list := ?nl, gr_can_orphan := flag\<rparr>"
  have wf1: "gld_wf ?cb1" by (rule unlinked_wf [OF wf p q])
  have p1: "rscs ?cb1 p = Some ?ri" by (simp add: unlinked_def)
  have dir: "abs_dir cb (gr_lck_name ri) = Some (dir_of ri)" by (rule abs_dir_Some [OF wf p])
  have fr: "glnd_details ?cb1 = glnd_details cb" "ha_state ?cb1 = ha_state cb" by (simp_all add: unlinked_def)
  obtain m ns where m: "gr_node_list ri = m # ns" using mem by (cases "gr_node_list ri") (auto simp: has_node_def)
  have "p \<noteq> 0" using wf_rsc_in [OF wf p] by simp
  then have run: "gld_rsc_rmv_node_ref E p (Some ref) q flag cb =
      (if ?nl = [] \<and> \<not> flag then gld_free_rsc_info p ?cb1
       else if nl_node_id m = gn_node_id nd \<and> ha_state ?cb1 = SA_AMF_HA_ACTIVE
       then rsc_start_reelection E p ?cb1 \<bind> gld_snd_master_status p GLND_RESOURCE_ELECTION_IN_PROGESS
       else Some ?cb1)"
    using p q m ref by (simp add: gld_rsc_rmv_node_ref_def unlinked_def Let_def)
  show ?thesis
  proof (cases "?nl = [] \<and> \<not> flag")
    case True
    obtain cb' where cb': "gld_free_rsc_info p ?cb1 = Some cb'" "gld_wf cb'"
        "rscs cb' = (rscs ?cb1)(p := None)" "nodes cb' = nodes ?cb1"
        "glnd_details cb' = glnd_details ?cb1" "ha_state cb' = ha_state ?cb1"
      using free_rsc_run [OF wf1 p1] True by auto
    have "abs_dir cb' = (abs_dir ?cb1)(gr_lck_name ?ri := None)"
      by (rule abs_dir_remove [OF wf1 cb'(2) p1 cb'(3)])
    then have "abs_dir cb' = dir_leave (gr_lck_name ri) (gn_node_id nd) flag (abs_dir cb)"
      using True dir by (simp add: unlinked_dir [OF wf p q] dir_leave_def dir_of_def Let_def)
    moreover have "live_wf cb'" using live cb'(3) by (simp add: live_wf_def unlinked_def)
    ultimately show ?thesis using cb' run True fr by (simp add: gld_inv_def)
  next
    case False
    have live1: "live_wf ?cb1" using live False by (auto simp: live_wf_def unlinked_def)
    have dir1: "abs_dir ?cb1 = dir_leave (gr_lck_name ri) (gn_node_id nd) flag (abs_dir cb)"
      using False dir by (auto simp: unlinked_dir [OF wf p q] dir_leave_def dir_of_def Let_def)
    obtain cb2 where cb2: "rsc_start_reelection E p ?cb1 = Some cb2" "same_view ?cb1 cb2"
        "nodes cb2 = nodes ?cb1" using reelection_run [OF p1] by blast
    obtain r2 where "rscs cb2 p = Some r2" by (rule same_view_rscD [OF cb2(2) p1])
    then obtain cb3 where cb3: "gld_snd_master_status p GLND_RESOURCE_ELECTION_IN_PROGESS cb2 = Some cb3"
        "same_view cb2 cb3" "nodes cb3 = nodes cb2" using master_status_run by blast
    have sv: "same_view ?cb1 cb3" using cb2(2) cb3(2) by (rule same_view_trans)
    have "gld_inv cb3" by (rule same_view_inv [OF sv]) (simp add: gld_inv_def wf1 live1)
    moreover have "glnd_details cb3 = glnd_details cb" "ha_state cb3 = ha_state cb"
      using sv fr by (simp_all add: same_view_def same_shape_def)
    moreover have "abs_dir cb3 = abs_dir ?cb1" by (rule same_view_dir [OF sv wf1])
    ultimately show ?thesis using run False cb2(1,3) cb3(1,3) fr dir1 wf1 live1
      by (auto simp: gld_inv_def)
  qed
qed

section \<open>A node joins a resource\<close>

definition linked ::
  "ptr \<Rightarrow> ptr \<Rightarrow> GLSV_GLD_RSC_INFO \<Rightarrow> GLSV_GLD_GLND_DETAILS \<Rightarrow> GLSV_GLD_CB \<Rightarrow> GLSV_GLD_CB" where
  "linked p q ri nd cb =
     cb\<lparr>rscs := (rscs cb)(p \<mapsto> ri\<lparr>gr_node_list := gr_node_list ri
                            @ [\<lparr>nl_dest_id = gn_dest_id nd, nl_node_id = gn_node_id nd\<rparr>]\<rparr>),
        nodes := (nodes cb)(q \<mapsto> nd\<lparr>gn_rsc_info_tree := tbl_insert (key32 (gr_rsc_id ri))
                     \<lparr>ref_rsc_id = gr_rsc_id ri, ref_rsc_info = p\<rparr> (gn_rsc_info_tree nd)\<rparr>)\<rparr>"

lemma ref_iff_member:
  assumes wf: "gld_wf cb" and p: "rscs cb p = Some ri" and q: "nodes cb q = Some nd"
  shows "tbl_get (gn_rsc_info_tree nd) (key32 (gr_rsc_id ri)) =
     (if has_node (gn_node_id nd) (gr_node_list ri)
      then Some \<lparr>ref_rsc_id = gr_rsc_id ri, ref_rsc_info = p\<rparr> else None)"
proof -
  have iff: "tbl_get (gn_rsc_info_tree nd) (key32 (gr_rsc_id ri)) = Some ref \<longleftrightarrow>
      ref = \<lparr>ref_rsc_id = gr_rsc_id ri, ref_rsc_info = p\<rparr> \<and> has_node (gn_node_id nd) (gr_node_list ri)" for ref
  proof -
    have "tbl_get (gn_rsc_info_tree nd) (key32 (gr_rsc_id ri)) = Some ref \<longleftrightarrow>
        (\<exists>r. rscs cb (ref_rsc_info ref) = Some r \<and> gr_rsc_id ri = gr_rsc_id r
           \<and> ref_rsc_id ref = gr_rsc_id r \<and> has_node (gn_node_id nd) (gr_node_list r))"
      using wf q by (simp add: gld_wf_def refs_wf_def has_node_def)
    also have "\<dots> \<longleftrightarrow> ref_rsc_info ref = p \<and> ref_rsc_id ref = gr_rsc_id ri
           \<and> has_node (gn_node_id nd) (gr_node_list ri)"
      using wf_id_unique [OF wf _ p] p by (metis option.inject)
    also have "\<dots> \<longleftrightarrow> ref = \<lparr>ref_rsc_id = gr_rsc_id ri, ref_rsc_info = p\<rparr>
        \<and> has_node (gn_node_id nd) (gr_node_list ri)" by (cases ref) auto
    finally show ?thesis .
  qed
  then show ?thesis by (cases "tbl_get (gn_rsc_info_tree nd) (key32 (gr_rsc_id ri))") (auto split: if_splits)
qed

lemma linked_wf:
  assumes wf: "gld_wf cb" and p: "rscs cb p = Some ri" and q: "nodes cb q = Some nd"
    and new: "\<not> has_node (gn_node_id nd) (gr_node_list ri)"
  shows "gld_wf (linked p q ri nd cb)"
proof -
  let ?n = "\<lparr>nl_dest_id = gn_dest_id nd, nl_node_id = gn_node_id nd\<rparr>"
  let ?t = "tbl_insert (key32 (gr_rsc_id ri)) \<lparr>ref_rsc_id = gr_rsc_id ri, ref_rsc_info = p\<rparr> (gn_rsc_info_tree nd)"
  have d: "distinct (map nl_node_id (gr_node_list ri))"
    using wf p by (simp add: gld_wf_def members_wf_def)
  have t: "tbl_wf (gn_rsc_info_tree nd)" using wf q by (simp add: gld_wf_def nodes_wf_def)
  have none: "tbl_get (gn_rsc_info_tree nd) (key32 (gr_rsc_id ri)) = None"
    using ref_iff_member [OF wf p q] new by simp
  have "tbl_add (key32 (gr_rsc_id ri)) \<lparr>ref_rsc_id = gr_rsc_id ri, ref_rsc_info = p\<rparr> (gn_rsc_info_tree nd)
      = (?t, NCSCC_RC_SUCCESS)"
    using none wf_id_nonzero [OF wf p] by (simp add: tbl_add_def)
  note ok = tbl_add_SuccessD [OF this t]
  show ?thesis
    by (rule wf_relink [OF wf p q, where ri' = "ri\<lparr>gr_node_list := gr_node_list ri @ [?n]\<rparr>"
          and nd' = "nd\<lparr>gn_rsc_info_tree := ?t\<rparr>"])
       (use d ok new in \<open>auto simp: linked_def has_node_def\<close>)
qed

lemma add_ref_new:
  assumes wf: "gld_wf cb" and p: "rscs cb p = Some ri" and q: "nodes cb q = Some nd"
    and new: "\<not> has_node (gn_node_id nd) (gr_node_list ri)"
  shows "gld_rsc_add_node_ref q p cb = Some (cb\<lparr>nodes := nodes (linked p q ri nd cb)\<rparr>)"
  using ref_iff_member [OF wf p q] p q new wf_id_nonzero [OF wf p]
  by (simp add: gld_rsc_add_node_ref_def tbl_add_def linked_def)

lemma add_ref_old:
  assumes wf: "gld_wf cb" and p: "rscs cb p = Some ri" and q: "nodes cb q = Some nd"
    and old: "has_node (gn_node_id nd) (gr_node_list ri)"
  shows "gld_rsc_add_node_ref q p cb = Some cb"
  using ref_iff_member [OF wf p q] p q old by (simp add: gld_rsc_add_node_ref_def)

text \<open>The answer a node director gets to its open request.\<close>

definition open_details :: "GLSV_GLD_RSC_INFO \<Rightarrow> GLSV_NODE_LIST list \<Rightarrow> GLSV_EVT_GLND_RSC_GLD_INFO" where
  "open_details ri nl =
     \<lparr>gi_rsc_name = gr_lck_name ri, gi_rsc_id = gr_rsc_id ri, gi_master_dest_id = nl_dest_id (hd nl),
      gi_can_orphan = gr_can_orphan ri, gi_orphan_mode = gr_orphan_lck_mode ri, gi_error = SA_AIS_OK\<rparr>"

lemma join_new_run:
  assumes wf: "gld_wf cb" and p: "rscs cb p = Some ri" and q: "nodes cb q = Some nd"
    and new: "\<not> has_node (gn_node_id nd) (gr_node_list ri)"
  shows "join_node E q p (gn_node_id nd) cb =
      Some (gld_emit (GLD_SND (gn_dest_id nd) (RSC_GLD_DETAILS (open_details ri
              (gr_node_list ri @ [\<lparr>nl_dest_id = gn_dest_id nd, nl_node_id = gn_node_id nd\<rparr>]))))
              (linked p q ri nd cb),
            ge_up E (gn_dest_id nd))"
  using add_ref_new [OF assms] p q new
  by (simp add: join_node_def linked_def open_details_def has_node_def gld_emit_def Let_def)

lemma join_old_run:
  assumes wf: "gld_wf cb" and p: "rscs cb p = Some ri" and q: "nodes cb q = Some nd"
    and old: "has_node (gn_node_id nd) (gr_node_list ri)"
  shows "join_node E q p (gn_node_id nd) cb = Some (cb, True)"
  using add_ref_old [OF assms] p old by (simp add: join_node_def has_node_def)

lemma linked_dir:
  assumes wf: "gld_wf cb" and p: "rscs cb p = Some ri" and q: "nodes cb q = Some nd"
    and new: "\<not> has_node (gn_node_id nd) (gr_node_list ri)"
  shows "abs_dir (linked p q ri nd cb) =
     dir_join (gr_lck_name ri) rid \<lparr>nl_dest_id = gn_dest_id nd, nl_node_id = gn_node_id nd\<rparr> (abs_dir cb)"
proof -
  let ?ri = "ri\<lparr>gr_node_list := gr_node_list ri @ [\<lparr>nl_dest_id = gn_dest_id nd, nl_node_id = gn_node_id nd\<rparr>]\<rparr>"
  have "abs_dir (linked p q ri nd cb) = (abs_dir cb)(gr_lck_name ?ri \<mapsto> dir_of ?ri)"
    by (rule abs_dir_update [OF wf linked_wf [OF assms], where p = p and ri = ri])
       (use p in \<open>simp_all add: linked_def\<close>)
  then show ?thesis using abs_dir_Some [OF wf p] new by (simp add: dir_join_def dir_of_def)
qed

end
