(* ===== verification/Gld_Handlers.thy ===== *)
theory Gld_Handlers
  imports Gld_Run
begin

text \<open>
  The handlers of \<open>gld_evt.c\<close> on a control block that satisfies the invariant: each one
  returns (no fault, no endless loop), keeps the invariant, and acts on the directory as the
  abstract operation says.
\<close>

section \<open>Loops that only send\<close>

definition only_outs :: "GLSV_GLD_CB \<Rightarrow> GLSV_GLD_CB \<Rightarrow> bool" where
  "only_outs cb cb' \<longleftrightarrow> (\<exists>os. cb' = cb\<lparr>gld_outs := os\<rparr>)"

lemma only_outs_refl [simp]: "only_outs cb cb"
proof -
  have "cb = cb\<lparr>gld_outs := gld_outs cb\<rparr>" by simp
  then show ?thesis unfolding only_outs_def by blast
qed

lemma only_outs_emit [simp]: "only_outs cb cb' \<Longrightarrow> only_outs cb (gld_emit m cb')"
  by (auto simp: only_outs_def gld_emit_def)

lemma only_outs_trans: "only_outs a b \<Longrightarrow> only_outs b c \<Longrightarrow> only_outs a c"
  by (auto simp: only_outs_def)

lemma only_outs_same:
  assumes "only_outs cb cb'"
  shows "same_view cb cb'" and "rscs cb' = rscs cb" and "nodes cb' = nodes cb"
    and "glnd_details cb' = glnd_details cb" and "rsc_list cb' = rsc_list cb"
    and "ha_state cb' = ha_state cb"
  using assms by (auto simp: only_outs_def same_view_def same_shape_def)

lemma for_each_only_outs:
  assumes "\<And>x cb'. x \<in> set xs \<Longrightarrow> only_outs cb cb' \<Longrightarrow> \<exists>cb''. f x cb' = Some cb'' \<and> only_outs cb' cb''"
    and "only_outs cb cb0"
  shows "\<exists>cb'. for_each f xs cb0 = Some cb' \<and> only_outs cb cb'"
  using assms
proof (induction xs arbitrary: cb0)
  case (Cons x xs)
  then obtain cb1 where "f x cb0 = Some cb1" "only_outs cb0 cb1" by (meson list.set_intros(1))
  moreover from this Cons.prems(2) have "only_outs cb cb1" by (blast intro: only_outs_trans)
  ultimately show ?case using Cons by simp
qed auto

lemma only_outs_master:
  "only_outs cb cb' \<Longrightarrow> rsc_master cb' r = rsc_master cb r"
  by (simp add: rsc_master_def only_outs_same)

lemma only_outs_find_node:
  "only_outs cb cb' \<Longrightarrow> find_node cb' nid = find_node cb nid"
  by (simp add: find_node_def only_outs_same)

lemma send_master_only_outs:
  "rscs cb r = Some ri \<Longrightarrow> \<exists>cb'. gld_snd_master_status r st cb = Some cb' \<and> only_outs cb cb'"
  by (cases "gr_node_list ri") (simp_all add: gld_snd_master_status_def)

lemma ref_master:
  assumes "gld_wf cb" and "nodes cb q = Some nd" and "(k, ref) \<in> set (gn_rsc_info_tree nd)"
  obtains ri m where "rscs cb (ref_rsc_info ref) = Some ri" and "k = key32 (gr_rsc_id ri)"
    and "ref_rsc_id ref = gr_rsc_id ri" and "has_node (gn_node_id nd) (gr_node_list ri)"
    and "rsc_master cb (ref_rsc_info ref) = Some m" and "gr_node_list ri = m # tl (gr_node_list ri)"
proof -
  have "tbl_wf (gn_rsc_info_tree nd)" using assms by (simp add: gld_wf_def nodes_wf_def)
  then have "tbl_get (gn_rsc_info_tree nd) k = Some ref" using assms(3) by (simp add: tbl_get_in)
  then obtain ri where ri: "rscs cb (ref_rsc_info ref) = Some ri" "k = key32 (gr_rsc_id ri)"
      "ref_rsc_id ref = gr_rsc_id ri" "gn_node_id nd \<in> nl_node_id ` set (gr_node_list ri)"
    by (rule wf_ref [OF assms(1,2)])
  then obtain m ns where "gr_node_list ri = m # ns" by (cases "gr_node_list ri") auto
  with ri show thesis using that by (simp add: has_node_def rsc_master_def)
qed

lemma non_master_loop_run:
  assumes "\<And>k ref. (k, ref) \<in> set refs \<Longrightarrow> \<exists>m. rsc_master cb (ref_rsc_info ref) = Some m"
    and "only_outs cb cb0"
  shows "\<exists>cb' rc. non_master_loop E nd st refs res cb0 = Some (cb', rc) \<and> only_outs cb cb'"
  using assms
proof (induction refs arbitrary: res cb0)
  case (Cons e refs)
  obtain k ref where e: "e = (k, ref)" by (cases e)
  obtain m where m: "rsc_master cb (ref_rsc_info ref) = Some m" using Cons.prems(1) e by auto
  then have m0: "rsc_master cb0 (ref_rsc_info ref) = Some m"
    using Cons.prems(2) by (simp add: only_outs_master)
  have next_ok: "\<exists>cb' rc. non_master_loop E nd st refs r c = Some (cb', rc) \<and> only_outs cb cb'"
    if "only_outs cb c" for r c
    by (rule Cons.IH [OF _ that]) (use Cons.prems(1) in auto)
  show ?case using m0 e next_ok Cons.prems(2) by (simp add: Let_def del: bind_Some_iff)
qed auto

lemma gld_non_master_status_run:
  assumes wf: "gld_wf cb" and q: "nodes cb q = Some nd"
  shows "\<exists>cb' rc. gld_process_send_non_master_status E q st cb = Some (cb', rc) \<and> only_outs cb cb'"
proof -
  have t: "tbl_wf (gn_rsc_info_tree nd)" using assms by (simp add: gld_wf_def nodes_wf_def)
  have "\<exists>cb' rc. non_master_loop E nd st (gn_rsc_info_tree nd) NCSCC_RC_FAILURE cb = Some (cb', rc)
      \<and> only_outs cb cb'"
    by (rule non_master_loop_run) (auto elim: ref_master [OF wf q])
  with q t show ?thesis by (simp add: gld_process_send_non_master_status_def)
qed

lemma announce_checked_run:
  assumes wf: "gld_wf cb"
  shows "\<exists>cb'. announce_masters_checked nid st cb = Some cb' \<and> only_outs cb cb'"
  unfolding announce_masters_checked_def
proof (rule for_each_only_outs)
  fix r cb'
  assume "r \<in> set (rsc_list cb)" and oo: "only_outs cb cb'"
  then obtain ri where ri: "rscs cb' r = Some ri" using wf_list_rsc [OF wf] by (auto simp: only_outs_same)
  then obtain c where c: "gld_snd_master_status r st cb' = Some c" "only_outs cb' c"
    using send_master_only_outs by blast
  show "\<exists>cb''. (do { ri \<leftarrow> rscs cb' r;
         case gr_node_list ri of [] \<Rightarrow> Some cb'
         | m # _ \<Rightarrow> if nl_node_id m = nid then gld_snd_master_status r st cb' else Some cb' }) = Some cb''
      \<and> only_outs cb' cb''"
    using ri c by (cases "gr_node_list ri") simp_all
qed simp

text \<open>Every resource has a master: the precondition under which the unchecked loop is safe.\<close>

definition all_mastered :: "GLSV_GLD_CB \<Rightarrow> bool" where
  "all_mastered cb \<longleftrightarrow> (\<forall>r \<in> set (rsc_list cb). rsc_master cb r \<noteq> None)"

lemma announce_run:
  assumes wf: "gld_wf cb" and am: "all_mastered cb"
  shows "\<exists>cb'. announce_masters nid st cb = Some cb' \<and> only_outs cb cb'"
  unfolding announce_masters_def
proof (rule for_each_only_outs)
  fix r cb'
  assume r: "r \<in> set (rsc_list cb)" and oo: "only_outs cb cb'"
  then obtain ri where ri: "rscs cb' r = Some ri" using wf_list_rsc [OF wf] by (auto simp: only_outs_same)
  then obtain c where c: "gld_snd_master_status r st cb' = Some c" "only_outs cb' c"
    using send_master_only_outs by blast
  obtain m where m: "rsc_master cb' r = Some m"
    using am r oo by (auto simp: all_mastered_def only_outs_master)
  show "\<exists>cb''. (do { m \<leftarrow> rsc_master cb' r;
         if nl_node_id m = nid then gld_snd_master_status r st cb' else Some cb' }) = Some cb''
      \<and> only_outs cb' cb''"
    using m c by simp
qed simp

lemma non_masters_to_run:
  assumes wf: "gld_wf cb" and m: "rsc_master cb r = Some m" and oo: "only_outs cb cb0"
  shows "\<exists>cb'. non_masters_to r ns cb0 = Some cb' \<and> only_outs cb cb'"
  using oo
proof (induction ns arbitrary: cb0)
  case (Cons n ns)
  show ?case
  proof (cases "find_node cb0 (nl_node_id n)")
    case None
    with Cons show ?thesis by simp
  next
    case (Some q)
    then obtain nd where "nodes cb0 q = Some nd"
      using wf_find_node [OF wf] Cons.prems by (auto simp: only_outs_find_node only_outs_same)
    moreover have "rsc_master cb0 r = Some m" using m Cons.prems by (simp add: only_outs_master)
    moreover have "only_outs cb c \<Longrightarrow> \<exists>cb'. non_masters_to r ns c = Some cb' \<and> only_outs cb cb'" for c
      by (rule Cons.IH)
    ultimately show ?thesis using Some Cons.prems
      by (simp add: gld_process_send_non_master_info_def del: bind_Some_iff)
  qed
qed simp

lemma master_info_loop_run:
  assumes wf: "gld_wf cb"
    and "\<And>k ref. (k, ref) \<in> set refs \<Longrightarrow>
        \<exists>ri m. rscs cb (ref_rsc_info ref) = Some ri \<and> rsc_master cb (ref_rsc_info ref) = Some m"
    and "only_outs cb cb0"
  shows "\<exists>cb' infos. master_info_loop nid refs cb0 = Some (cb', infos) \<and> only_outs cb cb'"
  using assms(2,3)
proof (induction refs arbitrary: cb0)
  case (Cons e refs)
  obtain k ref where e: "e = (k, ref)" by (cases e)
  let ?r = "ref_rsc_info ref"
  obtain ri m where ri: "rscs cb ?r = Some ri" and m: "rsc_master cb ?r = Some m"
    using Cons.prems(1) [of k ref] e by auto
  have r0: "rscs cb0 ?r = Some ri" "rsc_master cb0 ?r = Some m"
    using ri m Cons.prems(2) by (simp_all add: only_outs_same only_outs_master)
  have next_ok: "\<exists>cb' infos. master_info_loop nid refs c = Some (cb', infos) \<and> only_outs cb cb'"
    if "only_outs cb c" for c
    by (rule Cons.IH [OF _ that]) (use Cons.prems(1) in auto)
  show ?case
  proof (cases "find_node cb0 (nl_node_id m)")
    case None
    then show ?thesis using e r0 next_ok [OF Cons.prems(2)] by (simp del: bind_Some_iff)
  next
    case (Some mq)
    then obtain mnd where mnd: "nodes cb0 mq = Some mnd"
      using wf_find_node [OF wf] Cons.prems by (auto simp: only_outs_find_node only_outs_same)
    obtain c where c: "(if gn_node_id mnd = nid then non_masters_to ?r (tl (gr_node_list ri)) cb0
        else Some cb0) = Some c" "only_outs cb c"
      using non_masters_to_run [OF wf m Cons.prems(2), of "tl (gr_node_list ri)"] Cons.prems(2)
      by (cases "gn_node_id mnd = nid") auto
    then obtain cb' infos where "master_info_loop nid refs c = Some (cb', infos)" "only_outs cb cb'"
      using next_ok by blast
    then show ?thesis using e r0 Some mnd c by (simp del: bind_Some_iff)
  qed
qed auto

lemma res_master_info_run:
  assumes wf: "gld_wf cb" and q: "\<forall>x. q = Some x \<longrightarrow> nodes cb x \<noteq> None"
  shows "\<exists>cb' rc. gld_send_res_master_info E q dest cb = Some (cb', rc) \<and> only_outs cb cb'"
proof (cases q)
  case None
  then show ?thesis by (simp add: gld_send_res_master_info_def)
next
  case (Some x)
  with q obtain nd where nd: "nodes cb x = Some nd" by auto
  have t: "tbl_wf (gn_rsc_info_tree nd)" using wf nd by (simp add: gld_wf_def nodes_wf_def)
  have "\<exists>cb' infos. master_info_loop (gn_node_id nd) (gn_rsc_info_tree nd) cb = Some (cb', infos)
      \<and> only_outs cb cb'"
    by (rule master_info_loop_run [OF wf]) (auto elim: ref_master [OF wf nd])
  then show ?thesis using Some nd t by (auto simp: gld_send_res_master_info_def)
qed

section \<open>Closing and marking\<close>

lemma inv_only_outs: "only_outs cb cb' \<Longrightarrow> gld_inv cb \<Longrightarrow> gld_inv cb' \<and> abs_dir cb' = abs_dir cb"
  using same_view_inv [OF only_outs_same(1)] same_view_dir [OF only_outs_same(1)]
  by (auto simp: gld_inv_def)

lemma inv_emit: "gld_inv (gld_emit m cb) = gld_inv cb" "abs_dir (gld_emit m cb) = abs_dir cb"
    "nodes (gld_emit m cb) = nodes cb" "rscs (gld_emit m cb) = rscs cb"
    "glnd_details (gld_emit m cb) = glnd_details cb" "ha_state (gld_emit m cb) = ha_state cb"
    "gld_wf (gld_emit m cb) = gld_wf cb"
proof -
  show "gld_inv (gld_emit m cb) = gld_inv cb"
    using same_view_inv [OF same_view_emit] same_view_inv [OF same_view_sym [OF same_view_emit]] by blast
  show "gld_wf (gld_emit m cb) = gld_wf cb"
    using same_view_wf [OF same_view_emit] same_view_wf [OF same_view_sym [OF same_view_emit]] by blast
  show "abs_dir (gld_emit m cb) = abs_dir cb"
    by (simp add: abs_dir_def gld_emit_def fun_eq_iff cong: option.case_cong)
qed (simp_all add: gld_emit_def)

lemma user_left_simps [simp]:
  "gr_rsc_id (user_left ri) = gr_rsc_id ri" "gr_lck_name (user_left ri) = gr_lck_name ri"
  "gr_node_list (user_left ri) = gr_node_list ri" "gr_can_orphan (user_left ri) = gr_can_orphan ri"
  "gr_orphan_lck_mode (user_left ri) = gr_orphan_lck_mode ri"
  by (simp_all add: user_left_def)

text \<open>The user count goes down and the node leaves: what a close and a failed open share.\<close>

lemma leave_run:
  assumes inv: "gld_inv cb" and p: "rscs cb p = Some ri" and nd: "nodes cb q = Some nd"
    and mem: "has_node (gn_node_id nd) (gr_node_list ri)"
  obtains cb1 cb2 where "rsc_upd p user_left cb = Some cb1" and "gld_inv cb1"
    and "abs_dir cb1 = abs_dir cb" and "nodes cb1 = nodes cb"
    and "gld_rsc_rmv_node_ref E p (Some \<lparr>ref_rsc_id = gr_rsc_id ri, ref_rsc_info = p\<rparr>) q flag cb1 = Some cb2"
    and "gld_inv cb2" and "abs_dir cb2 = dir_leave (gr_lck_name ri) (gn_node_id nd) flag (abs_dir cb)"
    and "nodes cb2 = (nodes cb)(q \<mapsto> nd\<lparr>gn_rsc_info_tree :=
            fst (tbl_del (key32 (gr_rsc_id ri)) (gn_rsc_info_tree nd))\<rparr>)"
    and "glnd_details cb2 = glnd_details cb" and "ha_state cb2 = ha_state cb"
    and "ha_state cb1 = ha_state cb"
proof -
  let ?cb1 = "cb\<lparr>rscs := (rscs cb)(p \<mapsto> user_left ri)\<rparr>"
  let ?ref = "\<lparr>ref_rsc_id = gr_rsc_id ri, ref_rsc_info = p\<rparr>"
  have sv: "same_view cb ?cb1"
    by (rule same_view_rsc [OF p]) (simp_all add: rsc_shape_def orphan_mark_def)
  have inv1: "gld_inv ?cb1" by (rule same_view_inv [OF sv inv])
  have dir1: "abs_dir ?cb1 = abs_dir cb" by (rule same_view_dir [OF sv]) (use inv in \<open>simp add: gld_inv_def\<close>)
  have wf1: "gld_wf ?cb1" and live1: "live_wf ?cb1" using inv1 by (simp_all add: gld_inv_def)
  have p1: "rscs ?cb1 p = Some (user_left ri)" and nd1: "nodes ?cb1 q = Some nd" using nd by simp_all
  obtain cb2 where "gld_rsc_rmv_node_ref E p (Some ?ref) q flag ?cb1 = Some cb2" "gld_inv cb2"
      "abs_dir cb2 = dir_leave (gr_lck_name (user_left ri)) (gn_node_id nd) flag (abs_dir ?cb1)"
      "nodes cb2 = nodes (unlinked p q flag (user_left ri) nd ?cb1)"
      "glnd_details cb2 = glnd_details ?cb1" "ha_state cb2 = ha_state ?cb1"
    using rmv_ref_run [OF wf1 p1 nd1, of ?ref E flag] mem live1 by (auto simp: live_wf_def)
  moreover have "rsc_upd p user_left cb = Some ?cb1" using p by (simp add: rsc_upd_def)
  ultimately show thesis using that [of ?cb1 cb2] inv1 dir1 by (simp add: unlinked_def)
qed

lemma close_run:
  assumes inv: "gld_inv cb" and p: "rscs cb p = Some ri" "gr_rsc_id ri = rd_rsc_id d"
    and mem: "has_node (m_NCS_NODE_ID_FROM_MDS_DEST fr) (gr_node_list ri)"
  shows "\<exists>cb'. gld_rsc_close E fr d cb = Some (cb', NCSCC_RC_SUCCESS) \<and> gld_inv cb'
      \<and> abs_dir cb' = (if rd_lcl_ref_cnt d = 0
           then dir_leave (gr_lck_name ri) (m_NCS_NODE_ID_FROM_MDS_DEST fr) (rd_orphan d) (abs_dir cb)
           else abs_dir cb)
      \<and> ha_state cb' = ha_state cb"
proof -
  have wf: "gld_wf cb" using inv by (simp add: gld_inv_def)
  obtain q nd where nd: "nodes cb q = Some nd" "gn_node_id nd = m_NCS_NODE_ID_FROM_MDS_DEST fr"
    using wf p(1) mem unfolding gld_wf_def members_wf_def has_node_def by (metis (no_types, lifting) image_iff)
  then have q: "find_node cb (m_NCS_NODE_ID_FROM_MDS_DEST fr) = Some q" by (simp add: wf_find_node [OF wf])
  have mem': "has_node (gn_node_id nd) (gr_node_list ri)" using mem nd by simp
  have ref: "tbl_get (gn_rsc_info_tree nd) (key32 (rd_rsc_id d))
      = Some \<lparr>ref_rsc_id = gr_rsc_id ri, ref_rsc_info = p\<rparr>"
    using ref_iff_member [OF wf p(1) nd(1)] mem' p(2) by simp
  have p0: "p \<noteq> 0" using wf_rsc_in [OF wf p(1)] by simp
  obtain cb1 cb2 where s: "rsc_upd p user_left cb = Some cb1" "gld_inv cb1" "abs_dir cb1 = abs_dir cb"
      "nodes cb1 = nodes cb" "ha_state cb1 = ha_state cb"
      "gld_rsc_rmv_node_ref E p (Some \<lparr>ref_rsc_id = gr_rsc_id ri, ref_rsc_info = p\<rparr>) q (rd_orphan d) cb1 = Some cb2"
      "gld_inv cb2" "abs_dir cb2 = dir_leave (gr_lck_name ri) (gn_node_id nd) (rd_orphan d) (abs_dir cb)"
      "nodes cb2 = (nodes cb)(q \<mapsto> nd\<lparr>gn_rsc_info_tree :=
            fst (tbl_del (key32 (gr_rsc_id ri)) (gn_rsc_info_tree nd))\<rparr>)" "ha_state cb2 = ha_state cb"
    by (rule leave_run [OF inv p(1) nd(1) mem', of E "rd_orphan d"])
  show ?thesis using q nd ref p0 s by (cases "rd_lcl_ref_cnt d = 0") (simp_all add: gld_rsc_close_def inv_emit)
qed

lemma no_ref:
  assumes wf: "gld_wf cb" and nd: "nodes cb q = Some nd"
    and none: "\<forall>p ri. rscs cb p = Some ri \<longrightarrow> gr_rsc_id ri = rid \<longrightarrow>
        \<not> has_node (gn_node_id nd) (gr_node_list ri)"
  shows "tbl_get (gn_rsc_info_tree nd) (key32 rid) = None"
proof (rule ccontr)
  assume "tbl_get (gn_rsc_info_tree nd) (key32 rid) \<noteq> None"
  then obtain ref where "tbl_get (gn_rsc_info_tree nd) (key32 rid) = Some ref" by auto
  then show False
    by (rule wf_ref [OF wf nd]) (use none in \<open>auto simp: has_node_def\<close>)
qed

lemma close_unknown_run:
  assumes inv: "gld_inv cb"
    and none: "\<forall>p ri. rscs cb p = Some ri \<longrightarrow> gr_rsc_id ri = rd_rsc_id d \<longrightarrow>
        \<not> has_node (m_NCS_NODE_ID_FROM_MDS_DEST fr) (gr_node_list ri)"
  shows "\<exists>rc. gld_rsc_close E fr d cb = Some (cb, rc)"
proof (cases "find_node cb (m_NCS_NODE_ID_FROM_MDS_DEST fr)")
  case None
  then show ?thesis by (simp add: gld_rsc_close_def)
next
  case (Some q)
  have wf: "gld_wf cb" using inv by (simp add: gld_inv_def)
  obtain nd where nd: "nodes cb q = Some nd" "gn_node_id nd = m_NCS_NODE_ID_FROM_MDS_DEST fr"
    using Some wf_find_node [OF wf] by auto
  have "tbl_get (gn_rsc_info_tree nd) (key32 (rd_rsc_id d)) = None"
    using no_ref [OF wf nd(1)] none nd(2) by simp
  with Some nd show ?thesis by (simp add: gld_rsc_close_def)
qed

lemma set_orphan_run:
  assumes inv: "gld_inv cb" and p: "rscs cb p = Some ri" "gr_rsc_id ri = rd_rsc_id d"
    and mem: "has_node (m_NCS_NODE_ID_FROM_MDS_DEST fr) (gr_node_list ri)"
  shows "\<exists>cb'. gld_rsc_set_orphan fr d cb = Some (cb', NCSCC_RC_SUCCESS) \<and> gld_inv cb'
      \<and> abs_dir cb' = dir_set_orphan (gr_lck_name ri) (rd_orphan d) (rd_lck_mode d) (abs_dir cb)
      \<and> ha_state cb' = ha_state cb"
proof -
  let ?f = "\<lambda>ri. ri\<lparr>gr_can_orphan := rd_orphan d, gr_orphan_lck_mode := rd_lck_mode d,
        saf_rsc_stripped_cnt := saf_rsc_stripped_cnt ri + (if rd_orphan d then 0 else 1)\<rparr>"
  let ?cb = "cb\<lparr>rscs := (rscs cb)(p \<mapsto> ?f ri)\<rparr>"
  have wf: "gld_wf cb" and live: "live_wf cb" using inv by (simp_all add: gld_inv_def)
  obtain q nd where nd: "nodes cb q = Some nd" "gn_node_id nd = m_NCS_NODE_ID_FROM_MDS_DEST fr"
    using wf p(1) mem unfolding gld_wf_def members_wf_def has_node_def by (metis (no_types, lifting) image_iff)
  then have q: "find_node cb (m_NCS_NODE_ID_FROM_MDS_DEST fr) = Some q" by (simp add: wf_find_node [OF wf])
  have ref: "tbl_get (gn_rsc_info_tree nd) (key32 (rd_rsc_id d))
      = Some \<lparr>ref_rsc_id = gr_rsc_id ri, ref_rsc_info = p\<rparr>"
    using ref_iff_member [OF wf p(1) nd(1)] mem nd p(2) by simp
  have p0: "p \<noteq> 0" using wf_rsc_in [OF wf p(1)] by simp
  have wf': "gld_wf ?cb"
    by (rule same_shape_wf [OF _ wf]) (use p in \<open>simp add: same_shape_def rsc_shape_def\<close>)
  have "live_wf ?cb" using live mem by (auto simp: live_wf_def has_node_def)
  with wf' have inv': "gld_inv ?cb" by (simp add: gld_inv_def)
  have "abs_dir ?cb = (abs_dir cb)(gr_lck_name (?f ri) \<mapsto> dir_of (?f ri))"
    by (rule abs_dir_update [OF wf wf', where p = p and ri = ri]) (use p in simp_all)
  then have "abs_dir ?cb = dir_set_orphan (gr_lck_name ri) (rd_orphan d) (rd_lck_mode d) (abs_dir cb)"
    using abs_dir_Some [OF wf p(1)] by (simp add: dir_set_orphan_def dir_of_def)
  then show ?thesis using q nd ref p0 p inv'
    by (simp add: gld_rsc_set_orphan_def gld_rsc_ref_set_orphan_def rsc_upd_def inv_emit
             split del: if_split)
qed

lemma set_orphan_unknown_run:
  assumes inv: "gld_inv cb"
    and none: "\<forall>p ri. rscs cb p = Some ri \<longrightarrow> gr_rsc_id ri = rd_rsc_id d \<longrightarrow>
        \<not> has_node (m_NCS_NODE_ID_FROM_MDS_DEST fr) (gr_node_list ri)"
  shows "gld_rsc_set_orphan fr d cb = Some (cb, NCSCC_RC_FAILURE)"
proof (cases "find_node cb (m_NCS_NODE_ID_FROM_MDS_DEST fr)")
  case None
  then show ?thesis by (simp add: gld_rsc_set_orphan_def)
next
  case (Some q)
  have wf: "gld_wf cb" using inv by (simp add: gld_inv_def)
  obtain nd where nd: "nodes cb q = Some nd" "gn_node_id nd = m_NCS_NODE_ID_FROM_MDS_DEST fr"
    using Some wf_find_node [OF wf] by auto
  have "tbl_get (gn_rsc_info_tree nd) (key32 (rd_rsc_id d)) = None"
    using no_ref [OF wf nd(1)] none nd(2) by simp
  with Some nd show ?thesis by (simp add: gld_rsc_set_orphan_def gld_rsc_ref_set_orphan_def)
qed

section \<open>Node records\<close>

lemma del_node_run:
  assumes inv: "gld_inv cb" and q: "nodes cb q = Some nd"
    and none: "\<And>k. tbl_get (gn_rsc_info_tree nd) k = None"
  shows "\<exists>cb'. del_node q cb = Some cb' \<and> gld_inv cb' \<and> abs_dir cb' = abs_dir cb
      \<and> nodes cb' = (nodes cb)(q := None) \<and> ha_state cb' = ha_state cb"
proof -
  let ?t = "fst (tbl_del (key32 (gn_node_id nd)) (glnd_details cb))"
  let ?cb = "cb\<lparr>glnd_details := ?t, nodes := (nodes cb)(q := None)\<rparr>"
  have wf: "gld_wf cb" and live: "live_wf cb" using inv by (simp_all add: gld_inv_def)
  have get: "tbl_get (glnd_details cb) (key32 (gn_node_id nd)) = Some q" by (rule wf_node_get [OF wf q])
  have "tbl_del_node (key32 (gn_node_id nd)) q (glnd_details cb) = (?t, NCSCC_RC_SUCCESS)"
    using get by (simp add: tbl_del_node_def tbl_del_def)
  then have run: "del_node q cb = Some ?cb" using q by (simp add: del_node_def)
  have "\<forall>p ri. rscs cb p = Some ri \<longrightarrow> gn_node_id nd \<notin> nl_node_id ` set (gr_node_list ri)"
    using ref_iff_member [OF wf _ q] none by (metis has_node_def option.distinct(1))
  then have "gld_wf ?cb"
    by (rule wf_del_node [OF wf q])
       (use wf in \<open>simp_all add: tbl_wf_del tbl_get_del gld_wf_def nodes_wf_def\<close>)
  moreover have "live_wf ?cb" using live by (simp add: live_wf_def)
  moreover have "abs_dir ?cb = abs_dir cb"
    by (simp add: abs_dir_def fun_eq_iff cong: option.case_cong)
  ultimately show ?thesis using run by (simp add: gld_inv_def)
qed

lemma add_node_wf:
  assumes wf: "gld_wf cb" and new: "find_node cb (m_NCS_NODE_ID_FROM_MDS_DEST fr) = None"
    and nz: "m_NCS_NODE_ID_FROM_MDS_DEST fr \<noteq> 0" and env: "nodes cb (ge_node_ptr E) = None"
  shows "\<exists>t. gld_add_glnd_node E fr cb
      = Some (cb\<lparr>glnd_details := t, nodes := (nodes cb)(ge_node_ptr E \<mapsto> new_node fr)\<rparr>, ge_node_ptr E)
      \<and> gld_wf (cb\<lparr>glnd_details := t, nodes := (nodes cb)(ge_node_ptr E \<mapsto> new_node fr)\<rparr>)
      \<and> tbl_get t = (tbl_get (glnd_details cb))(key32 (m_NCS_NODE_ID_FROM_MDS_DEST fr) \<mapsto> ge_node_ptr E)"
proof -
  let ?nid = "m_NCS_NODE_ID_FROM_MDS_DEST fr" and ?q = "ge_node_ptr E"
  let ?t = "tbl_insert (key32 ?nid) ?q (glnd_details cb)"
  let ?cb = "cb\<lparr>glnd_details := ?t, nodes := (nodes cb)(?q \<mapsto> new_node fr)\<rparr>"
  have add: "tbl_add (key32 ?nid) ?q (glnd_details cb) = (?t, NCSCC_RC_SUCCESS)"
    using new nz by (simp add: tbl_add_def find_node_def)
  have "tbl_wf (glnd_details cb)" using wf by (simp add: gld_wf_def nodes_wf_def)
  note t = tbl_add_SuccessD [OF add this]
  have "gld_wf ?cb"
    by (rule wf_add_node [OF wf, where q = ?q and nd = "new_node fr"])
       (use t env in \<open>simp_all add: new_node_def\<close>)
  moreover have "gld_add_glnd_node E fr cb = Some (?cb, ?q)" using add by (simp add: gld_add_glnd_node_def Let_def)
  ultimately show ?thesis using t(3) by blast
qed

lemma add_node_run:
  assumes inv: "gld_inv cb" and new: "find_node cb (m_NCS_NODE_ID_FROM_MDS_DEST fr) = None"
    and nz: "m_NCS_NODE_ID_FROM_MDS_DEST fr \<noteq> 0" and env: "nodes cb (ge_node_ptr E) = None"
  shows "\<exists>cb'. gld_add_glnd_node E fr cb = Some (cb', ge_node_ptr E) \<and> gld_inv cb'
      \<and> abs_dir cb' = abs_dir cb \<and> rscs cb' = rscs cb \<and> rsc_info_id cb' = rsc_info_id cb
      \<and> nodes cb' = (nodes cb)(ge_node_ptr E \<mapsto> new_node fr) \<and> ha_state cb' = ha_state cb"
proof -
  have wf: "gld_wf cb" and live: "live_wf cb" using inv by (simp_all add: gld_inv_def)
  obtain t where t: "gld_add_glnd_node E fr cb
      = Some (cb\<lparr>glnd_details := t, nodes := (nodes cb)(ge_node_ptr E \<mapsto> new_node fr)\<rparr>, ge_node_ptr E)"
      "gld_wf (cb\<lparr>glnd_details := t, nodes := (nodes cb)(ge_node_ptr E \<mapsto> new_node fr)\<rparr>)"
    using add_node_wf [OF wf new nz env] by blast
  moreover have "live_wf (cb\<lparr>glnd_details := t, nodes := (nodes cb)(ge_node_ptr E \<mapsto> new_node fr)\<rparr>)"
    using live by (simp add: live_wf_def)
  moreover have "abs_dir (cb\<lparr>glnd_details := t, nodes := (nodes cb)(ge_node_ptr E \<mapsto> new_node fr)\<rparr>) = abs_dir cb"
    by (simp add: abs_dir_def fun_eq_iff cong: option.case_cong)
  ultimately show ?thesis by (simp add: gld_inv_def)
qed

section \<open>Opening\<close>

text \<open>The outcome of the lookup or creation, before the node joins.\<close>

definition found :: "directory \<Rightarrow> SaNameT \<Rightarrow> GLSV_GLD_RSC_INFO \<Rightarrow> bool" where
  "found d name ri \<longleftrightarrow> gr_lck_name ri = name \<and>
     (case d name of
        Some e \<Rightarrow> e = dir_of ri
      | None \<Rightarrow> dir_of ri = \<lparr>de_id = gr_rsc_id ri, de_nodes = [], de_orphan = False,
                             de_mode = SA_LCK_MODE_UNSET\<rparr>
                \<and> (\<forall>n e. d n = Some e \<longrightarrow> de_id e \<noteq> gr_rsc_id ri))"

lemma created_run:
  assumes inv: "gld_inv cb" and none: "abs_dir cb name = None" and cr: "created E name cb cb'"
    and new: "rscs cb (ge_rsc_ptr E) = None"
  obtains ri where "rscs cb' (ge_rsc_ptr E) = Some ri" and "found (abs_dir cb) name ri"
    and "abs_dir cb' = (abs_dir cb)(name \<mapsto> dir_of ri)"
proof -
  let ?p = "ge_rsc_ptr E"
  have wf: "gld_wf cb" using inv by (simp add: gld_inv_def)
  obtain rid where rid: "tbl_get (rsc_info_id cb) (key32 rid) = None"
    and rs: "rscs cb' = (rscs cb)(?p \<mapsto> new_rsc rid name (ge_time E))" and wf': "gld_wf cb'"
    using cr by (auto simp: created_def)
  let ?ri = "new_rsc rid name (ge_time E)"
  have "abs_dir cb' = (abs_dir cb)(gr_lck_name ?ri \<mapsto> dir_of ?ri)"
    by (rule abs_dir_update [OF wf wf' _ rs]) (use new in simp_all)
  moreover have "\<forall>n e. abs_dir cb n = Some e \<longrightarrow> de_id e \<noteq> rid"
    using rid wf_id_get [OF wf] by (force simp: abs_dir_iff [OF wf] dir_of_def)
  ultimately show thesis using that [of ?ri] none rs
    by (simp add: found_def new_rsc_def dir_of_def)
qed

lemma find_add_run:
  assumes inv: "gld_inv cb" and env: "rsc_env_ok E cb"
  shows "\<exists>cb' r err. gld_find_add_rsc_name E name rsc_id flag cb = Some (cb', r, err)
      \<and> gld_wf cb' \<and> nodes cb' = nodes cb \<and> glnd_details cb' = glnd_details cb
      \<and> ha_state cb' = ha_state cb
      \<and> (case r of
           None \<Rightarrow> err \<noteq> SA_AIS_OK \<and> abs_dir cb' = abs_dir cb \<and> live_wf cb' \<and> abs_dir cb name = None
         | Some p \<Rightarrow> err = SA_AIS_OK \<and> (\<exists>ri. rscs cb' p = Some ri \<and> found (abs_dir cb) name ri
              \<and> abs_dir cb' = (abs_dir cb)(name \<mapsto> dir_of ri)
              \<and> (\<forall>x r. rscs cb' x = Some r \<longrightarrow> x \<noteq> p \<longrightarrow> gr_node_list r = [] \<longrightarrow> gr_can_orphan r)))"
proof -
  have wf: "gld_wf cb" and live: "live_wf cb" using inv by (simp_all add: gld_inv_def)
  obtain r where r: "find_rsc_by_name cb name = Some r"
    and ok: "case r of None \<Rightarrow> abs_dir cb name = None
         | Some p \<Rightarrow> (\<exists>ri. rscs cb p = Some ri \<and> gr_lck_name ri = name)"
    using find_by_name_run [OF wf] by blast
  show ?thesis
  proof (cases r)
    case (Some p)
    with ok obtain ri where p: "rscs cb p = Some ri" and name: "gr_lck_name ri = name" by auto
    let ?ri = "ri\<lparr>saf_rsc_no_of_users := saf_rsc_no_of_users ri + 1\<rparr>"
    let ?cb = "cb\<lparr>rscs := (rscs cb)(p \<mapsto> ?ri)\<rparr>"
    have sv: "same_view cb ?cb"
      by (rule same_view_rsc [OF p]) (simp_all add: rsc_shape_def orphan_mark_def)
    have e: "abs_dir cb name = Some (dir_of ri)" using abs_dir_Some [OF wf p] name by simp
    moreover have "dir_of ?ri = dir_of ri" by (simp add: dir_of_def)
    ultimately have "found (abs_dir cb) name ?ri" "abs_dir cb = (abs_dir cb)(name \<mapsto> dir_of ?ri)"
      using name by (simp_all add: found_def fun_upd_idem)
    moreover have "live_wf ?cb" by (rule same_view_live [OF sv live])
    ultimately show ?thesis
      using r Some p same_view_wf [OF sv wf] same_view_dir [OF sv wf]
      by (simp add: gld_find_add_rsc_name_def rsc_upd_def live_wf_def)
  next
    case None
    with ok have none: "abs_dir cb name = None" by simp
    obtain cb' x err where add: "gld_add_rsc_info E name rsc_id cb = Some (cb', x, err)"
      and res: "case x of None \<Rightarrow> err \<noteq> SA_AIS_OK \<and> only_counter cb cb'
         | Some p \<Rightarrow> err = SA_AIS_OK \<and> p = ge_rsc_ptr E \<and> created E name cb cb'"
      using add_rsc_run [OF wf env] by blast
    show ?thesis
    proof (cases "ha_state cb = SA_AMF_HA_ACTIVE \<and> \<not> flag_set flag SA_LCK_RESOURCE_CREATE")
      case True
      then show ?thesis using r None none wf live by (simp add: gld_find_add_rsc_name_def)
    next
      case False
      then have run: "gld_find_add_rsc_name E name rsc_id flag cb = Some (cb', x, err)"
        using r None add by (auto simp: gld_find_add_rsc_name_def)
      show ?thesis
      proof (cases x)
        case None
        then show ?thesis using run res none only_counter_wf [OF wf, of cb'] live by simp
      next
        case (Some p)
        with res have cr: "created E name cb cb'" and p: "p = ge_rsc_ptr E" "err = SA_AIS_OK" by simp_all
        have new: "rscs cb (ge_rsc_ptr E) = None" using env by (simp add: rsc_env_ok_def)
        obtain ri where "rscs cb' (ge_rsc_ptr E) = Some ri" "found (abs_dir cb) name ri"
            "abs_dir cb' = (abs_dir cb)(name \<mapsto> dir_of ri)"
          by (rule created_run [OF inv none cr new])
        then show ?thesis using run Some p cr live by (auto simp: created_def live_wf_def)
      qed
    qed
  qed
qed

lemma found_join:
  "found (abs_dir cb) name ri \<Longrightarrow>
   dir_join name x n ((abs_dir cb)(name \<mapsto> dir_of ri)) = dir_join name (gr_rsc_id ri) n (abs_dir cb)"
  by (cases "abs_dir cb name") (auto simp: found_def dir_join_def has_node_def)

lemma join_run:
  assumes wf: "gld_wf cb" and p: "rscs cb p = Some ri" and q: "nodes cb q = Some nd"
    and live: "\<forall>x r. rscs cb x = Some r \<longrightarrow> x \<noteq> p \<longrightarrow> gr_node_list r = [] \<longrightarrow> gr_can_orphan r"
  obtains cb' sent ri' nd' where "join_node E q p (gn_node_id nd) cb = Some (cb', sent)"
    and "gld_inv cb'" and "ha_state cb' = ha_state cb"
    and "abs_dir cb' = dir_join (gr_lck_name ri) (gr_rsc_id ri)
           \<lparr>nl_dest_id = gn_dest_id nd, nl_node_id = gn_node_id nd\<rparr> (abs_dir cb)"
    and "rscs cb' p = Some ri'" and "gr_lck_name ri' = gr_lck_name ri"
    and "has_node (gn_node_id nd) (gr_node_list ri')"
    and "nodes cb' q = Some nd'" and "gn_node_id nd' = gn_node_id nd"
    and "\<And>k. k \<noteq> key32 (gr_rsc_id ri') \<Longrightarrow>
           tbl_get (gn_rsc_info_tree nd') k = tbl_get (gn_rsc_info_tree nd) k"
    and "\<not> sent \<Longrightarrow> \<not> ge_up E (gn_dest_id nd)"
proof (cases "has_node (gn_node_id nd) (gr_node_list ri)")
  case True
  have "gr_node_list ri \<noteq> []" using True by (auto simp: has_node_def)
  then have "live_wf cb" unfolding live_wf_def using live p by (metis option.inject)
  moreover have "abs_dir cb = dir_join (gr_lck_name ri) (gr_rsc_id ri)
      \<lparr>nl_dest_id = gn_dest_id nd, nl_node_id = gn_node_id nd\<rparr> (abs_dir cb)"
    using abs_dir_Some [OF wf p] True by (simp add: dir_join_def dir_of_def fun_upd_idem)
  ultimately show thesis
    using that [of cb True ri nd] join_old_run [OF wf p q True] p q True wf by (simp add: gld_inv_def)
next
  case False
  let ?n = "\<lparr>nl_dest_id = gn_dest_id nd, nl_node_id = gn_node_id nd\<rparr>"
  let ?ri = "ri\<lparr>gr_node_list := gr_node_list ri @ [?n]\<rparr>"
  let ?nd = "nd\<lparr>gn_rsc_info_tree := tbl_insert (key32 (gr_rsc_id ri))
       \<lparr>ref_rsc_id = gr_rsc_id ri, ref_rsc_info = p\<rparr> (gn_rsc_info_tree nd)\<rparr>"
  have "live_wf (linked p q ri nd cb)" using live by (simp add: live_wf_def linked_def)
  then have inv: "gld_inv (linked p q ri nd cb)" using linked_wf [OF wf p q False] by (simp add: gld_inv_def)
  have "key32 (gr_rsc_id ri) \<notin> fst ` set (gn_rsc_info_tree nd)"
    using ref_iff_member [OF wf p q] False by (simp add: tbl_get_None_iff)
  then have tree: "k \<noteq> key32 (gr_rsc_id ri) \<Longrightarrow>
      tbl_get (gn_rsc_info_tree ?nd) k = tbl_get (gn_rsc_info_tree nd) k" for k
    by (simp add: tbl_get_def map_of_tbl_insert)
  have lk: "rscs (linked p q ri nd cb) p = Some ?ri" "nodes (linked p q ri nd cb) q = Some ?nd"
    "ha_state (linked p q ri nd cb) = ha_state cb" by (simp_all add: linked_def)
  show thesis
    by (rule that [OF join_new_run [OF wf p q False], where ri' = ?ri and nd' = ?nd])
       (use inv lk tree linked_dir [OF wf p q False] in \<open>simp_all add: inv_emit has_node_def\<close>)
qed

lemma undo_run:
  assumes inv: "gld_inv cb" and p: "rscs cb p = Some ri" and nd: "nodes cb q = Some nd"
    and mem: "has_node (gn_node_id nd) (gr_node_list ri)"
  obtains cb' where "undo_open E q p cb = Some (cb', True)" and "gld_inv cb'"
    and "abs_dir cb' = dir_leave (gr_lck_name ri) (gn_node_id nd) False (abs_dir cb)"
    and "nodes cb' q = Some (nd\<lparr>gn_rsc_info_tree :=
            fst (tbl_del (key32 (gr_rsc_id ri)) (gn_rsc_info_tree nd))\<rparr>)"
    and "ha_state cb' = ha_state cb"
proof -
  have wf: "gld_wf cb" using inv by (simp add: gld_inv_def)
  have ref: "tbl_get (gn_rsc_info_tree nd) (key32 (gr_rsc_id ri))
      = Some \<lparr>ref_rsc_id = gr_rsc_id ri, ref_rsc_info = p\<rparr>"
    using ref_iff_member [OF wf p nd] mem by simp
  have p0: "p \<noteq> 0" using wf_rsc_in [OF wf p] by simp
  obtain cb1 cb2 where s: "rsc_upd p user_left cb = Some cb1" 
      "gld_rsc_rmv_node_ref E p (Some \<lparr>ref_rsc_id = gr_rsc_id ri, ref_rsc_info = p\<rparr>) q False cb1 = Some cb2"
      "gld_inv cb2" "abs_dir cb2 = dir_leave (gr_lck_name ri) (gn_node_id nd) False (abs_dir cb)"
      "nodes cb2 = (nodes cb)(q \<mapsto> nd\<lparr>gn_rsc_info_tree :=
            fst (tbl_del (key32 (gr_rsc_id ri)) (gn_rsc_info_tree nd))\<rparr>)" "ha_state cb2 = ha_state cb"
    by (rule leave_run [OF inv p nd mem, of E False])
  then show thesis using that [of cb2] nd p ref p0 by (simp add: undo_open_def)
qed

definition node_dest :: "GLSV_GLD_CB \<Rightarrow> MDS_DEST \<Rightarrow> MDS_DEST" where
  "node_dest cb fr =
     (case find_node cb (m_NCS_NODE_ID_FROM_MDS_DEST fr) of
        None \<Rightarrow> fr
      | Some q \<Rightarrow> (case nodes cb q of None \<Rightarrow> fr | Some nd \<Rightarrow> gn_dest_id nd))"

definition opener :: "GLSV_GLD_CB \<Rightarrow> MDS_DEST \<Rightarrow> GLSV_NODE_LIST" where
  "opener cb fr = \<lparr>nl_dest_id = node_dest cb fr, nl_node_id = m_NCS_NODE_ID_FROM_MDS_DEST fr\<rparr>"

lemma node_for_open:
  assumes inv: "gld_inv cb" and env: "gld_env_ok E cb"
    and nz: "m_NCS_NODE_ID_FROM_MDS_DEST fr \<noteq> 0"
  obtains cb0 q nd where "(case find_node cb (m_NCS_NODE_ID_FROM_MDS_DEST fr) of
         Some q \<Rightarrow> Some (cb, q) | None \<Rightarrow> gld_add_glnd_node E fr cb) = Some (cb0, q)"
    and "gld_inv cb0" and "abs_dir cb0 = abs_dir cb" and "rsc_env_ok E cb0"
    and "nodes cb0 q = Some nd" and "gn_node_id nd = m_NCS_NODE_ID_FROM_MDS_DEST fr"
    and "gn_dest_id nd = node_dest cb fr" and "ha_state cb0 = ha_state cb"
    and "find_node cb (m_NCS_NODE_ID_FROM_MDS_DEST fr) = None \<longrightarrow> gn_rsc_info_tree nd = tbl_empty"
proof (cases "find_node cb (m_NCS_NODE_ID_FROM_MDS_DEST fr)")
  case None
  obtain cb0 where cb0: "gld_add_glnd_node E fr cb = Some (cb0, ge_node_ptr E)" "gld_inv cb0"
      "abs_dir cb0 = abs_dir cb" "rscs cb0 = rscs cb" "rsc_info_id cb0 = rsc_info_id cb"
      "nodes cb0 = (nodes cb)(ge_node_ptr E \<mapsto> new_node fr)" "ha_state cb0 = ha_state cb"
    using add_node_run [OF inv None nz] env by (auto simp: gld_env_ok_def)
  show thesis
    by (rule that [of cb0 "ge_node_ptr E" "new_node fr"])
       (use None cb0 env in \<open>simp_all add: gld_env_ok_def rsc_env_ok_def new_node_def node_dest_def\<close>)
next
  case (Some q)
  have wf: "gld_wf cb" using inv by (simp add: gld_inv_def)
  obtain nd where "nodes cb q = Some nd" "gn_node_id nd = m_NCS_NODE_ID_FROM_MDS_DEST fr"
    using Some wf_find_node [OF wf] by auto
  then show thesis using that [of cb q nd] Some inv env by (simp add: gld_env_ok_def node_dest_def)
qed

text \<open>The two ways an open request can fail: no resource, or the answer is not accepted.\<close>

definition open_outcome :: "gld_env \<Rightarrow> MDS_DEST \<Rightarrow> SaNameT \<Rightarrow> GLSV_GLD_CB \<Rightarrow> rc \<Rightarrow> directory \<Rightarrow> bool" where
  "open_outcome E fr name cb rc d' \<longleftrightarrow>
     (if rc = NCSCC_RC_SUCCESS
      then \<exists>rid. d' = dir_join name rid (opener cb fr) (abs_dir cb)
             \<and> (abs_dir cb name = None \<longrightarrow> (\<forall>n e. abs_dir cb n = Some e \<longrightarrow> de_id e \<noteq> rid))
      else d' = abs_dir cb
           \<or> \<not> ge_up E (node_dest cb fr) \<and> (\<exists>rid. d' = dir_leave name (m_NCS_NODE_ID_FROM_MDS_DEST fr)
                False (dir_join name rid (opener cb fr) (abs_dir cb))))"

lemma tbl_get_empty [simp]: "tbl_get tbl_empty k = None"
  by (simp add: tbl_get_def tbl_empty_def)

lemma open_joined_run:
  assumes wf: "gld_wf cb1" and p: "rscs cb1 p = Some ri" and q: "nodes cb1 q = Some nd"
    and nid: "gn_node_id nd = m_NCS_NODE_ID_FROM_MDS_DEST fr" and dest: "gn_dest_id nd = node_dest cb fr"
    and live: "\<forall>x r. rscs cb1 x = Some r \<longrightarrow> x \<noteq> p \<longrightarrow> gr_node_list r = [] \<longrightarrow> gr_can_orphan r"
    and fd: "found (abs_dir cb) name ri" and dir: "abs_dir cb1 = (abs_dir cb)(name \<mapsto> dir_of ri)"
    and fst: "first \<Longrightarrow> gn_rsc_info_tree nd = tbl_empty"
  shows "\<exists>cb' rc. do {
       (cb, sent) \<leftarrow> join_node E q p (m_NCS_NODE_ID_FROM_MDS_DEST fr) cb1;
       if sent then do {
         ri \<leftarrow> rscs cb p;
         Some (gld_emit (GLD_CKPT (A2S_RSC_OPEN (gr_lck_name ri) (gr_rsc_id ri) fr
                 (saf_rsc_creation_time ri))) cb, NCSCC_RC_SUCCESS) }
       else do {
         (cb, undone) \<leftarrow> undo_open E q p cb;
         cb \<leftarrow> (if undone \<and> first then del_node q cb else Some cb);
         Some (cb, NCSCC_RC_FAILURE) } } = Some (cb', rc)
     \<and> gld_inv cb' \<and> ha_state cb' = ha_state cb1 \<and> open_outcome E fr name cb rc (abs_dir cb')"
proof -
  obtain cb2 sent ri2 nd2 where j: "join_node E q p (gn_node_id nd) cb1 = Some (cb2, sent)"
    and inv2: "gld_inv cb2" and ha2: "ha_state cb2 = ha_state cb1"
    and dir2: "abs_dir cb2 = dir_join (gr_lck_name ri) (gr_rsc_id ri)
           \<lparr>nl_dest_id = gn_dest_id nd, nl_node_id = gn_node_id nd\<rparr> (abs_dir cb1)"
    and p2: "rscs cb2 p = Some ri2" and name2: "gr_lck_name ri2 = gr_lck_name ri"
    and mem2: "has_node (gn_node_id nd) (gr_node_list ri2)"
    and q2: "nodes cb2 q = Some nd2" and nid2: "gn_node_id nd2 = gn_node_id nd"
    and tree2: "\<And>k. k \<noteq> key32 (gr_rsc_id ri2) \<Longrightarrow>
           tbl_get (gn_rsc_info_tree nd2) k = tbl_get (gn_rsc_info_tree nd) k"
    and up: "\<not> sent \<Longrightarrow> \<not> ge_up E (gn_dest_id nd)"
    by (rule join_run [OF wf p q live, of E]) blast
  have nm: "gr_lck_name ri = name" using fd by (simp add: found_def)
  have jd: "abs_dir cb2 = dir_join name (gr_rsc_id ri) (opener cb fr) (abs_dir cb)"
    using dir2 dir found_join [OF fd] nm nid dest by (simp add: opener_def)
  have fresh: "abs_dir cb name = None \<longrightarrow> (\<forall>n e. abs_dir cb n = Some e \<longrightarrow> de_id e \<noteq> gr_rsc_id ri)"
    using fd by (auto simp: found_def)
  show ?thesis
  proof (cases sent)
    case True
    then show ?thesis using j nid p2 inv2 ha2 jd fresh
      by (auto simp: inv_emit open_outcome_def simp del: bind_Some_iff)
  next
    case False
    obtain cb3 where u: "undo_open E q p cb2 = Some (cb3, True)" "gld_inv cb3"
        "abs_dir cb3 = dir_leave (gr_lck_name ri2) (gn_node_id nd2) False (abs_dir cb2)"
        "nodes cb3 q = Some (nd2\<lparr>gn_rsc_info_tree :=
            fst (tbl_del (key32 (gr_rsc_id ri2)) (gn_rsc_info_tree nd2))\<rparr>)" "ha_state cb3 = ha_state cb2"
      by (rule undo_run [OF inv2 p2 q2, of E]) (use mem2 nid2 in simp_all)
    obtain cb4 where d: "(if first then del_node q cb3 else Some cb3) = Some cb4" "gld_inv cb4"
        "abs_dir cb4 = abs_dir cb3" "ha_state cb4 = ha_state cb3"
    proof (cases first)
      case True
      have "tbl_get (fst (tbl_del (key32 (gr_rsc_id ri2)) (gn_rsc_info_tree nd2))) k = None" for k
        using tree2 [of k] fst [OF True] by (simp add: tbl_get_del)
      then show thesis using that del_node_run [OF u(2,4)] True by auto
    qed (use that u in auto)
    have "open_outcome E fr name cb NCSCC_RC_FAILURE (abs_dir cb4)"
      using d(3) u(3) jd name2 nm nid nid2 up False dest by (auto simp: open_outcome_def)
    then show ?thesis using j nid False u d ha2 by (simp del: bind_Some_iff)
  qed
qed

lemma open_run:
  assumes inv: "gld_inv cb" and env: "gld_env_ok E cb"
    and nz: "m_NCS_NODE_ID_FROM_MDS_DEST fr \<noteq> 0"
  shows "\<exists>cb' rc. gld_rsc_open E fr info cb = Some (cb', rc) \<and> gld_inv cb'
      \<and> ha_state cb' = ha_state cb \<and> open_outcome E fr (ro_rsc_name info) cb rc (abs_dir cb')"
proof -
  let ?nid = "m_NCS_NODE_ID_FROM_MDS_DEST fr" and ?name = "ro_rsc_name info"
  obtain cb0 q nd where A: "(case find_node cb ?nid of
         Some q \<Rightarrow> Some (cb, q) | None \<Rightarrow> gld_add_glnd_node E fr cb) = Some (cb0, q)"
    and inv0: "gld_inv cb0" and dir0: "abs_dir cb0 = abs_dir cb" and env0: "rsc_env_ok E cb0"
    and nd: "nodes cb0 q = Some nd" "gn_node_id nd = ?nid" "gn_dest_id nd = node_dest cb fr"
    and ha0: "ha_state cb0 = ha_state cb"
    and first: "find_node cb ?nid = None \<longrightarrow> gn_rsc_info_tree nd = tbl_empty"
    by (rule node_for_open [OF assms])
  obtain cb1 r err where B: "gld_find_add_rsc_name E ?name (ro_rsc_id info) (ro_flag info) cb0 = Some (cb1, r, err)"
    and wf1: "gld_wf cb1" and ns1: "nodes cb1 = nodes cb0" and ha1: "ha_state cb1 = ha_state cb0"
    and res: "case r of
           None \<Rightarrow> err \<noteq> SA_AIS_OK \<and> abs_dir cb1 = abs_dir cb0 \<and> live_wf cb1 \<and> abs_dir cb0 ?name = None
         | Some p \<Rightarrow> err = SA_AIS_OK \<and> (\<exists>ri. rscs cb1 p = Some ri \<and> found (abs_dir cb0) ?name ri
              \<and> abs_dir cb1 = (abs_dir cb0)(?name \<mapsto> dir_of ri)
              \<and> (\<forall>x r. rscs cb1 x = Some r \<longrightarrow> x \<noteq> p \<longrightarrow> gr_node_list r = [] \<longrightarrow> gr_can_orphan r))"
    using find_add_run [OF inv0 env0, of ?name "ro_rsc_id info" "ro_flag info"] by blast
  show ?thesis
  proof (cases r)
    case None
    let ?cb2 = "gld_emit (GLD_SND (gn_dest_id nd) (RSC_GLD_DETAILS
          \<lparr>gi_rsc_name = ?name, gi_rsc_id = 0, gi_master_dest_id = 0, gi_can_orphan = False,
           gi_orphan_mode = SA_LCK_MODE_UNSET, gi_error = err\<rparr>)) cb1"
    have "gld_inv cb1" using None res wf1 by (simp add: gld_inv_def)
    then have inv2: "gld_inv ?cb2" "abs_dir ?cb2 = abs_dir cb" "ha_state ?cb2 = ha_state cb"
      "nodes ?cb2 q = Some nd"
      using None res dir0 ha0 ha1 nd ns1 by (simp_all add: inv_emit)
    obtain cb3 where "(if find_node cb ?nid = None then del_node q ?cb2 else Some ?cb2) = Some cb3"
        "gld_inv cb3" "abs_dir cb3 = abs_dir ?cb2" "ha_state cb3 = ha_state ?cb2"
    proof (cases "find_node cb ?nid = None")
      case True
      then show thesis using that del_node_run [OF inv2(1,4)] first by auto
    qed (use that inv2 in auto)
    then show ?thesis using A B None nd(1) ns1 inv2
      by (simp add: gld_rsc_open_def open_outcome_def Let_def del: bind_Some_iff)
  next
    case (Some p)
    with res obtain ri where ri: "rscs cb1 p = Some ri" "found (abs_dir cb) ?name ri"
        "abs_dir cb1 = (abs_dir cb)(?name \<mapsto> dir_of ri)"
        "\<forall>x r. rscs cb1 x = Some r \<longrightarrow> x \<noteq> p \<longrightarrow> gr_node_list r = [] \<longrightarrow> gr_can_orphan r"
      unfolding dir0 by auto
    have nd1: "nodes cb1 q = Some nd" using nd ns1 by simp
    from open_joined_run [OF wf1 ri(1) nd1 nd(2,3) ri(4,2,3),
        of "find_node cb ?nid = None" E] first
    show ?thesis using A B Some ha0 ha1 by (simp add: gld_rsc_open_def Let_def del: bind_Some_iff)
  qed
qed

end
