(* ===== verification/Gld_Down.thy ===== *)
theory Gld_Down
  imports Gld_Handlers
begin

text \<open>
  The handlers for the life cycle of a node director: it reports itself operational at a new
  address, it goes down, and after the restart timeout every reference it held is dropped.
\<close>

section \<open>A new address\<close>

lemma nl_node_id_set_dest [simp]: "nl_node_id (set_dest nid dest n) = nl_node_id n"
  by (simp add: set_dest_def)

lemma has_node_set_dest [simp]: "has_node i (map (set_dest nid dest) ns) = has_node i ns"
  by (simp add: has_node_def image_image)

definition readdress :: "u32 \<Rightarrow> MDS_DEST \<Rightarrow> GLSV_GLD_RSC_INFO \<Rightarrow> GLSV_GLD_RSC_INFO" where
  "readdress nid dest ri = ri\<lparr>gr_node_list := map (set_dest nid dest) (gr_node_list ri)\<rparr>"

lemma readdress_simps [simp]:
  "gr_rsc_id (readdress nid dest ri) = gr_rsc_id ri"
  "gr_lck_name (readdress nid dest ri) = gr_lck_name ri"
  "gr_can_orphan (readdress nid dest ri) = gr_can_orphan ri"
  "gr_orphan_lck_mode (readdress nid dest ri) = gr_orphan_lck_mode ri"
  "gr_node_list (readdress nid dest ri) = map (set_dest nid dest) (gr_node_list ri)"
  by (simp_all add: readdress_def)

lemma for_each_rsc_upd:
  assumes "distinct ps" and "\<forall>p \<in> set ps. rscs cb p \<noteq> None"
  shows "for_each (\<lambda>p. rsc_upd p f) ps cb
    = Some (cb\<lparr>rscs := (\<lambda>p. if p \<in> set ps then map_option f (rscs cb p) else rscs cb p)\<rparr>)"
  using assms
proof (induction ps arbitrary: cb)
  case (Cons p ps)
  then obtain ri where ri: "rscs cb p = Some ri" by auto
  let ?cb = "cb\<lparr>rscs := (rscs cb)(p \<mapsto> f ri)\<rparr>"
  have "for_each (\<lambda>p. rsc_upd p f) ps ?cb
      = Some (?cb\<lparr>rscs := (\<lambda>x. if x \<in> set ps then map_option f (rscs ?cb x) else rscs ?cb x)\<rparr>)"
    by (rule Cons.IH) (use Cons.prems in auto)
  moreover have "(\<lambda>x. if x \<in> set ps then map_option f (rscs ?cb x) else rscs ?cb x)
      = (\<lambda>x. if x \<in> set (p # ps) then map_option f (rscs cb x) else rscs cb x)"
    using Cons.prems ri by (auto simp: fun_eq_iff)
  moreover have "rsc_upd p f cb = Some ?cb" using ri by (simp add: rsc_upd_def)
  ultimately show ?case by simp
qed simp

lemma set_dest_all_run:
  assumes "list_wf cb"
  shows "set_dest_all nid dest cb = Some (cb\<lparr>rscs := (\<lambda>p. map_option (readdress nid dest) (rscs cb p))\<rparr>)"
proof -
  have "(\<lambda>p. if p \<in> set (rsc_list cb) then map_option (readdress nid dest) (rscs cb p) else rscs cb p)
      = (\<lambda>p. map_option (readdress nid dest) (rscs cb p))"
    using assms by (auto simp: list_wf_def fun_eq_iff dom_def)
  moreover have "for_each (\<lambda>p. rsc_upd p (readdress nid dest)) (rsc_list cb) cb
      = Some (cb\<lparr>rscs := (\<lambda>p. if p \<in> set (rsc_list cb) then map_option (readdress nid dest) (rscs cb p)
                             else rscs cb p)\<rparr>)"
    by (rule for_each_rsc_upd) (use assms in \<open>auto simp: list_wf_def\<close>)
  ultimately show ?thesis by (simp add: set_dest_all_def readdress_def [abs_def])
qed

text \<open>The node record and every node list change address together.\<close>

definition moved :: "ptr \<Rightarrow> GLSV_GLD_GLND_DETAILS \<Rightarrow> MDS_DEST \<Rightarrow> GLSV_GLD_CB \<Rightarrow> GLSV_GLD_CB" where
  "moved q nd dest cb = cb\<lparr>nodes := (nodes cb)(q \<mapsto> nd),
     rscs := (\<lambda>p. map_option (readdress (gn_node_id nd) dest) (rscs cb p))\<rparr>"

lemma moved_members:
  assumes wf: "gld_wf cb" and q: "nodes cb q = Some nd"
    and same: "gn_node_id nd' = gn_node_id nd" "gn_rsc_info_tree nd' = gn_rsc_info_tree nd"
    and new: "gn_dest_id nd' = dest" "gn_node_id nd = m_NCS_NODE_ID_FROM_MDS_DEST dest"
  shows "members_wf (moved q nd' dest cb)" (is "members_wf ?cb")
  unfolding members_wf_def
proof (intro allI impI conjI ballI)
  fix p r
  assume "rscs ?cb p = Some r"
  then obtain ri where ri: "rscs cb p = Some ri" and r: "r = readdress (gn_node_id nd) dest ri"
    using same by (auto simp: moved_def)
  have "distinct (map nl_node_id (gr_node_list ri))" using wf ri by (simp add: gld_wf_def members_wf_def)
  then show "distinct (map nl_node_id (gr_node_list r))" using r by (simp add: comp_def)
  fix n
  assume "n \<in> set (gr_node_list r)"
  then obtain m where m: "m \<in> set (gr_node_list ri)" and n: "n = set_dest (gn_node_id nd) dest m"
    using r by auto
  then obtain x nx where x: "nodes cb x = Some nx" "gn_node_id nx = nl_node_id m" "gn_dest_id nx = nl_dest_id m"
    using wf ri unfolding gld_wf_def members_wf_def by blast
  show "\<exists>q nd. nodes ?cb q = Some nd \<and> gn_node_id nd = nl_node_id n \<and> gn_dest_id nd = nl_dest_id n"
  proof (cases "nl_node_id m = gn_node_id nd")
    case True
    then show ?thesis using n same new by (auto simp: moved_def set_dest_def intro!: exI [of _ q])
  next
    case False
    then have "x \<noteq> q" using x q by auto
    then show ?thesis using x n False by (auto simp: moved_def set_dest_def intro!: exI [of _ x])
  qed
qed

lemma moved_wf:
  assumes wf: "gld_wf cb" and q: "nodes cb q = Some nd"
    and same: "gn_node_id nd' = gn_node_id nd" "gn_rsc_info_tree nd' = gn_rsc_info_tree nd"
    and new: "gn_dest_id nd' = dest" "gn_node_id nd = m_NCS_NODE_ID_FROM_MDS_DEST dest"
  shows "gld_wf (moved q nd' dest cb)" (is "gld_wf ?cb")
proof -
  have ex: "(\<exists>r. rscs ?cb x = Some r \<and> Q (gr_rsc_id r) (gr_lck_name r) (nl_node_id ` set (gr_node_list r)))
      = (\<exists>r. rscs cb x = Some r \<and> Q (gr_rsc_id r) (gr_lck_name r) (nl_node_id ` set (gr_node_list r)))" for x Q
    by (cases "rscs cb x") (simp_all add: moved_def image_image)
  have exn: "(\<exists>n. nodes ?cb x = Some n \<and> Q (gn_node_id n))
      = (\<exists>n. nodes cb x = Some n \<and> Q (gn_node_id n))" for x Q
    using q same by (cases "x = q") (simp_all add: moved_def)
  have fields: "rsc_list ?cb = rsc_list cb" "rsc_info_id ?cb = rsc_info_id cb"
    "rsc_map_info ?cb = rsc_map_info cb" "glnd_details ?cb = glnd_details cb"
    "nxt_rsc_id ?cb = nxt_rsc_id cb" by (simp_all add: moved_def)
  have "list_wf ?cb" using wf by (auto simp: gld_wf_def list_wf_def moved_def dom_def)
  moreover have "ids_wf ?cb"
    using wf fields ex [where Q = "\<lambda>i _ _. k = key32 i" for k] by (simp add: gld_wf_def ids_wf_def)
  moreover have "names_wf ?cb"
    using wf fields ex [where Q = "\<lambda>i n _. k = name_key (net_name n)
        \<and> m = \<lparr>map_rsc_id = i, map_rsc_name = net_name n\<rparr>" for k m]
    by (simp add: gld_wf_def names_wf_def)
  moreover have "nodes_wf ?cb"
  proof -
    have "tbl_wf (gn_rsc_info_tree n) \<and> gn_node_id n = m_NCS_NODE_ID_FROM_MDS_DEST (gn_dest_id n)"
      if "nodes ?cb x = Some n" for x n
    proof (cases "x = q")
      case True
      with that have "n = nd'" by (simp add: moved_def)
      then show ?thesis using wf q same new by (simp add: gld_wf_def nodes_wf_def)
    next
      case False
      then show ?thesis using that wf by (simp add: moved_def gld_wf_def nodes_wf_def)
    qed
    then show ?thesis using wf fields exn [where Q = "\<lambda>i. k = key32 i" for k]
      by (simp add: gld_wf_def nodes_wf_def)
  qed
  moreover have "refs_wf ?cb"
    unfolding refs_wf_def
  proof (intro allI impI)
    fix x n k ref
    assume n: "nodes ?cb x = Some n"
    obtain n0 where n0: "nodes cb x = Some n0" "gn_node_id n = gn_node_id n0"
        "gn_rsc_info_tree n = gn_rsc_info_tree n0"
      using n q same by (cases "x = q") (simp_all add: moved_def)
    have "tbl_get (gn_rsc_info_tree n0) k = Some ref \<longleftrightarrow>
        (\<exists>r. rscs cb (ref_rsc_info ref) = Some r \<and> k = key32 (gr_rsc_id r)
           \<and> ref_rsc_id ref = gr_rsc_id r \<and> gn_node_id n0 \<in> nl_node_id ` set (gr_node_list r))"
      using wf n0(1) by (simp add: gld_wf_def refs_wf_def)
    then show "tbl_get (gn_rsc_info_tree n) k = Some ref \<longleftrightarrow>
        (\<exists>r. rscs ?cb (ref_rsc_info ref) = Some r \<and> k = key32 (gr_rsc_id r)
           \<and> ref_rsc_id ref = gr_rsc_id r \<and> gn_node_id n \<in> nl_node_id ` set (gr_node_list r))"
      using n0 ex [where Q = "\<lambda>i _ S. k = key32 i \<and> ref_rsc_id ref = i \<and> gn_node_id n0 \<in> S"] by simp
  qed
  moreover have "members_wf ?cb" using moved_members [OF assms] .
  ultimately show ?thesis using wf fields by (simp add: gld_wf_def)
qed

lemma moved_dir:
  assumes wf: "gld_wf cb" and wf': "gld_wf (moved q nd' dest cb)"
  shows "abs_dir (moved q nd' dest cb) = dir_dest (gn_node_id nd') dest (abs_dir cb)"
proof
  fix n
  have eq: "dir_of (readdress i d r) = (dir_of r)\<lparr>de_nodes := map (set_dest i d) (de_nodes (dir_of r))\<rparr>" for i d r
    by (simp add: dir_of_def)
  show "abs_dir (moved q nd' dest cb) n = dir_dest (gn_node_id nd') dest (abs_dir cb) n"
  proof (cases "abs_dir cb n")
    case None
    then have "abs_dir (moved q nd' dest cb) n = None"
      unfolding abs_dir_None_iff [OF wf] abs_dir_None_iff [OF wf'] by (fastforce simp: moved_def)
    with None show ?thesis by (simp add: dir_dest_def)
  next
    case (Some e)
    then obtain p ri where p: "rscs cb p = Some ri" "gr_lck_name ri = n" "e = dir_of ri"
      by (rule abs_dir_SomeD)
    have "abs_dir (moved q nd' dest cb) (gr_lck_name (readdress (gn_node_id nd') dest ri))
        = Some (dir_of (readdress (gn_node_id nd') dest ri))"
      by (rule abs_dir_Some [OF wf', of p]) (simp add: moved_def p)
    then show ?thesis using Some p eq by (simp add: dir_dest_def)
  qed
qed

lemma moved_live: "live_wf cb \<Longrightarrow> live_wf (moved q nd dest cb)"
  by (auto simp: live_wf_def moved_def)

lemma moved_mastered: "all_mastered (moved q nd dest cb) = all_mastered cb"
proof -
  have "rsc_master (moved q nd dest cb) r = None \<longleftrightarrow> rsc_master cb r = None" for r
    by (cases "rscs cb r") (auto simp: rsc_master_def moved_def split: list.splits)
  then show ?thesis by (simp add: all_mastered_def moved_def)
qed

section \<open>A node director is operational\<close>

definition operational_state :: "ptr \<Rightarrow> MDS_DEST \<Rightarrow> GLSV_GLD_GLND_DETAILS \<Rightarrow> GLSV_GLD_CB \<Rightarrow> GLSV_GLD_CB" where
  "operational_state q fr nd cb =
     gld_emit (GLD_CKPT (A2S_GLND_OPERATIONAL fr))
       (moved q (nd\<lparr>gn_dest_id := fr, gn_restart_timer := fst (gld_stop_tmr (gn_restart_timer nd)),
                    gn_status := GLND_OPERATIONAL_STATE\<rparr>) fr
          (gld_emits (snd (gld_stop_tmr (gn_restart_timer nd))) cb))"

lemma operational_state_props:
  assumes inv: "gld_inv cb" and q: "nodes cb q = Some nd"
    and nid: "gn_node_id nd = m_NCS_NODE_ID_FROM_MDS_DEST fr"
  shows "gld_inv (operational_state q fr nd cb)"
    and "abs_dir (operational_state q fr nd cb) = dir_dest (gn_node_id nd) fr (abs_dir cb)"
    and "all_mastered (operational_state q fr nd cb) = all_mastered cb"
    and "ha_state (operational_state q fr nd cb) = ha_state cb"
    and "nodes (operational_state q fr nd cb) q \<noteq> None"
proof -
  let ?cb1 = "gld_emits (snd (gld_stop_tmr (gn_restart_timer nd))) cb"
  let ?nd = "nd\<lparr>gn_dest_id := fr, gn_restart_timer := fst (gld_stop_tmr (gn_restart_timer nd)),
                 gn_status := GLND_OPERATIONAL_STATE\<rparr>"
  have inv1: "gld_inv ?cb1" by (rule same_view_inv [OF same_view_emits inv])
  have dir1: "abs_dir ?cb1 = abs_dir cb"
    by (rule same_view_dir [OF same_view_emits]) (use inv in \<open>simp add: gld_inv_def\<close>)
  have wf1: "gld_wf ?cb1" and live1: "live_wf ?cb1" using inv1 by (simp_all add: gld_inv_def)
  have q1: "nodes ?cb1 q = Some nd" using q by (simp add: gld_emits_def)
  have wf2: "gld_wf (moved q ?nd fr ?cb1)"
    by (rule moved_wf [OF wf1 q1]) (simp_all add: nid)
  have inv2: "gld_inv (moved q ?nd fr ?cb1)" using wf2 moved_live [OF live1] by (simp add: gld_inv_def)
  then show "gld_inv (operational_state q fr nd cb)" by (simp add: operational_state_def inv_emit)
  show "abs_dir (operational_state q fr nd cb) = dir_dest (gn_node_id nd) fr (abs_dir cb)"
    using moved_dir [OF wf1 wf2] dir1 by (simp add: operational_state_def inv_emit)
  have "all_mastered (operational_state q fr nd cb) = all_mastered (moved q ?nd fr ?cb1)"
    by (simp add: operational_state_def all_mastered_def rsc_master_def gld_emit_def)
  also have "\<dots> = all_mastered ?cb1" by (rule moved_mastered)
  also have "\<dots> = all_mastered cb" by (simp add: all_mastered_def rsc_master_def gld_emits_def)
  finally show "all_mastered (operational_state q fr nd cb) = all_mastered cb" .
  show "ha_state (operational_state q fr nd cb) = ha_state cb"
    and "nodes (operational_state q fr nd cb) q \<noteq> None"
    by (simp_all add: operational_state_def moved_def gld_emit_def gld_emits_def)
qed

lemma operational_unfold:
  assumes inv: "gld_inv cb" and f: "find_node cb (m_NCS_NODE_ID_FROM_MDS_DEST fr) = Some q"
    and q: "nodes cb q = Some nd"
  shows "gld_glnd_operational E fr cb = do {
      cb \<leftarrow> announce_masters (gn_node_id nd) GLND_RESOURCE_MASTER_OPERATIONAL (operational_state q fr nd cb);
      (cb, _) \<leftarrow> gld_process_send_non_master_status E q GLND_OPERATIONAL_STATE cb;
      (cb, _) \<leftarrow> gld_send_res_master_info E (Some q) fr cb;
      Some (cb, NCSCC_RC_SUCCESS) }"
proof -
  obtain t os where t: "gld_stop_tmr (gn_restart_timer nd) = (t, os)" by (metis surj_pair)
  have wf: "gld_wf cb" using inv by (simp add: gld_inv_def)
  have nid: "gn_node_id nd = m_NCS_NODE_ID_FROM_MDS_DEST fr" using f q wf_find_node [OF wf] by auto
  let ?cb1 = "gld_emits os (cb\<lparr>nodes := (nodes cb)(q \<mapsto> nd\<lparr>gn_dest_id := fr, gn_restart_timer := t,
                 gn_status := GLND_OPERATIONAL_STATE\<rparr>)\<rparr>)"
  have "list_wf ?cb1" using wf by (simp add: gld_wf_def list_wf_def gld_emits_def)
  from set_dest_all_run [OF this, of "gn_node_id nd" fr]
  have "set_dest_all (m_NCS_NODE_ID_FROM_MDS_DEST fr) fr ?cb1 = Some (moved q (nd\<lparr>gn_dest_id := fr, gn_restart_timer := t,
                 gn_status := GLND_OPERATIONAL_STATE\<rparr>) fr (gld_emits os cb))"
    by (simp add: moved_def gld_emits_def nid)
  then show ?thesis using f q t nid
    by (simp add: gld_glnd_operational_def operational_state_def split_def)
qed

lemma operational_run:
  assumes inv: "gld_inv cb"
    and safe: "find_node cb (m_NCS_NODE_ID_FROM_MDS_DEST fr) \<noteq> None \<Longrightarrow> all_mastered cb"
  shows "\<exists>cb'. gld_glnd_operational E fr cb = Some (cb', NCSCC_RC_SUCCESS) \<and> gld_inv cb'
      \<and> abs_dir cb' = (if find_node cb (m_NCS_NODE_ID_FROM_MDS_DEST fr) = None then abs_dir cb
                      else dir_dest (m_NCS_NODE_ID_FROM_MDS_DEST fr) fr (abs_dir cb))
      \<and> ha_state cb' = ha_state cb"
proof (cases "find_node cb (m_NCS_NODE_ID_FROM_MDS_DEST fr)")
  case None
  have wf: "gld_wf cb" using inv by (simp add: gld_inv_def)
  obtain cb' rc where "gld_send_res_master_info E None fr cb = Some (cb', rc)" "only_outs cb cb'"
    using res_master_info_run [OF wf, of None E fr] by auto
  then show ?thesis using None inv_only_outs [OF _ inv, of cb']
    by (simp add: gld_glnd_operational_def only_outs_same)
next
  case (Some q)
  have wf: "gld_wf cb" using inv by (simp add: gld_inv_def)
  obtain nd where nd: "nodes cb q = Some nd" "gn_node_id nd = m_NCS_NODE_ID_FROM_MDS_DEST fr"
    using Some wf_find_node [OF wf] by auto
  let ?cb1 = "operational_state q fr nd cb"
  note s = operational_state_props [OF inv nd]
  have wf1: "gld_wf ?cb1" using s(1) by (simp add: gld_inv_def)
  have am: "all_mastered ?cb1" using s(3) safe Some by simp
  obtain cb2 where a: "announce_masters (gn_node_id nd) GLND_RESOURCE_MASTER_OPERATIONAL ?cb1 = Some cb2"
      "only_outs ?cb1 cb2" using announce_run [OF wf1 am] by blast
  have inv2: "gld_inv cb2" "abs_dir cb2 = abs_dir ?cb1" using inv_only_outs [OF a(2) s(1)] by simp_all
  then have wf2: "gld_wf cb2" by (simp add: gld_inv_def)
  obtain nd2 where nd2: "nodes cb2 q = Some nd2" using s(5) a(2) by (auto simp: only_outs_same)
  obtain cb3 rc where b: "gld_process_send_non_master_status E q GLND_OPERATIONAL_STATE cb2 = Some (cb3, rc)"
      "only_outs cb2 cb3" using gld_non_master_status_run [OF wf2 nd2] by blast
  have inv3: "gld_inv cb3" "abs_dir cb3 = abs_dir cb2" using inv_only_outs [OF b(2) inv2(1)] by simp_all
  then have wf3: "gld_wf cb3" by (simp add: gld_inv_def)
  obtain cb4 rc' where c: "gld_send_res_master_info E (Some q) fr cb3 = Some (cb4, rc')" "only_outs cb3 cb4"
    using res_master_info_run [OF wf3, of "Some q" E fr] nd2 b(2) by (auto simp: only_outs_same)
  have "gld_inv cb4" "abs_dir cb4 = abs_dir cb3" using inv_only_outs [OF c(2) inv3(1)] by simp_all
  then show ?thesis
    using operational_unfold [OF inv Some nd(1), of E] a b c inv2 inv3 s Some nd(2)
    by (simp add: only_outs_same del: bind_Some_iff)
qed

end
