(* ===== verification/Gld_Dispatch.thy ===== *)
theory Gld_Dispatch
  imports Gld_Down
begin

text \<open>
  The remaining handlers of the lock director, the loop that drops the references of a dead
  node, and the dispatch: every event is handled without a fault and keeps the invariant,
  except the report of a known node director while some orphaned resource has no node.
\<close>

section \<open>The unchecked read of the master\<close>

lemma for_each_fault:
  assumes "x \<in> set xs" and "only_outs cb cb0"
    and "\<And>cb'. only_outs cb cb' \<Longrightarrow> f x cb' = None"
    and "\<And>y cb' cb''. y \<in> set xs \<Longrightarrow> only_outs cb cb' \<Longrightarrow> f y cb' = Some cb'' \<Longrightarrow> only_outs cb' cb''"
  shows "for_each f xs cb0 = None"
  using assms
proof (induction xs arbitrary: cb0)
  case (Cons y ys)
  show ?case
  proof (cases "f y cb0")
    case (Some cb1)
    with Cons.prems(3) [OF Cons.prems(2)] have "y \<noteq> x" by auto
    moreover have "only_outs cb cb1"
      using Cons.prems(2) Cons.prems(4) [OF _ Cons.prems(2) Some] only_outs_trans by auto
    ultimately have "for_each f ys cb1 = None"
      using Cons.prems by (intro Cons.IH) auto
    with Some show ?thesis by simp
  qed simp
qed simp

lemma announce_fault:
  assumes wf: "gld_wf cb" and am: "\<not> all_mastered cb"
  shows "announce_masters nid st cb = None"
proof -
  obtain r where r: "r \<in> set (rsc_list cb)" "rsc_master cb r = None"
    using am by (auto simp: all_mastered_def)
  show ?thesis
    unfolding announce_masters_def
  proof (rule for_each_fault [OF r(1) only_outs_refl])
    fix cb'
    assume "only_outs cb cb'"
    then show "do { m \<leftarrow> rsc_master cb' r;
        if nl_node_id m = nid then gld_snd_master_status r st cb' else Some cb' } = None"
      using r(2) by (simp add: only_outs_master)
  next
    fix y cb' cb''
    assume y: "y \<in> set (rsc_list cb)" and oo: "only_outs cb cb'"
      and run: "do { m \<leftarrow> rsc_master cb' y;
        if nl_node_id m = nid then gld_snd_master_status y st cb' else Some cb' } = Some cb''"
    obtain ri where "rscs cb' y = Some ri" using wf_list_rsc [OF wf y] oo by (auto simp: only_outs_same)
    then obtain c where c: "gld_snd_master_status y st cb' = Some c" "only_outs cb' c"
      using send_master_only_outs by blast
    from run c show "only_outs cb' cb''" by (auto split: if_splits)
  qed
qed

lemma operational_fault:
  assumes inv: "gld_inv cb" and f: "find_node cb (m_NCS_NODE_ID_FROM_MDS_DEST fr) = Some q"
    and am: "\<not> all_mastered cb"
  shows "gld_glnd_operational E fr cb = None"
proof -
  have wf: "gld_wf cb" using inv by (simp add: gld_inv_def)
  obtain nd where nd: "nodes cb q = Some nd" "gn_node_id nd = m_NCS_NODE_ID_FROM_MDS_DEST fr"
    using f wf_find_node [OF wf] by auto
  note s = operational_state_props [OF inv nd]
  have "announce_masters (gn_node_id nd) GLND_RESOURCE_MASTER_OPERATIONAL (operational_state q fr nd cb) = None"
    by (rule announce_fault) (use s am in \<open>simp_all add: gld_inv_def\<close>)
  then show ?thesis using operational_unfold [OF inv f nd(1), of E] by simp
qed

section \<open>A node director is down\<close>

lemma clm_down_run:
  assumes inv: "gld_inv cb"
  shows "\<exists>cb' rc. gld_clm_glnd_down E nid cb = Some (cb', rc) \<and> gld_inv cb' \<and> abs_dir cb' = abs_dir cb
      \<and> ha_state cb' = ha_state cb"
proof (cases "find_node cb nid")
  case None
  then show ?thesis using inv by (simp add: gld_clm_glnd_down_def)
next
  case (Some q)
  have wf: "gld_wf cb" using inv by (simp add: gld_inv_def)
  obtain nd where nd: "nodes cb q = Some nd" using Some wf_find_node [OF wf] by auto
  let ?cb1 = "cb\<lparr>nodes := (nodes cb)(q \<mapsto> nd\<lparr>gn_status := GLND_RESTART_STATE\<rparr>)\<rparr>"
  have up: "node_upd q (\<lambda>nd. nd\<lparr>gn_status := GLND_RESTART_STATE\<rparr>) cb = Some ?cb1"
    using nd by (simp add: node_upd_def)
  have sv1: "same_view cb ?cb1" by (rule same_view_node [OF nd]) (simp add: node_shape_def)
  obtain cb2 where r: "node_start_restart E q ?cb1 = Some cb2" and sv2: "same_view ?cb1 cb2"
    using restart_run [of ?cb1 q] by auto
  have sv: "same_view cb cb2" using sv1 sv2 by (rule same_view_trans)
  have inv2: "gld_inv cb2" by (rule same_view_inv [OF sv inv])
  have dir2: "abs_dir cb2 = abs_dir cb" by (rule same_view_dir [OF sv wf])
  have wf2: "gld_wf cb2" using inv2 by (simp add: gld_inv_def)
  obtain nd2 where nd2: "nodes cb2 q = Some nd2"
    by (rule same_shape_nodeD [OF same_view_shape [OF sv] nd])
  obtain cb3 where a: "announce_masters_checked (gn_node_id nd2) GLND_RESOURCE_MASTER_RESTARTED cb2 = Some cb3"
      "only_outs cb2 cb3" using announce_checked_run [OF wf2] by blast
  have inv3: "gld_inv cb3" "abs_dir cb3 = abs_dir cb2" using inv_only_outs [OF a(2) inv2] by simp_all
  have wf3: "gld_wf cb3" using inv3 by (simp add: gld_inv_def)
  obtain cb4 rc where b: "gld_process_send_non_master_status E q GLND_RESTART_STATE cb3 = Some (cb4, rc)"
      "only_outs cb3 cb4"
    using gld_non_master_status_run [OF wf3, of q nd2 E GLND_RESTART_STATE] nd2 a(2) by (auto simp: only_outs_same)
  have inv4: "gld_inv cb4" "abs_dir cb4 = abs_dir cb3" using inv_only_outs [OF b(2) inv3(1)] by simp_all
  show ?thesis using Some up r nd2 a b inv2 inv4 dir2 inv3 same_view_ha [OF sv]
    by (cases "ha_state cb2 = SA_AMF_HA_ACTIVE")
       (simp_all add: gld_clm_glnd_down_def only_outs_same del: bind_Some_iff)
qed

section \<open>Dropping every reference of a node\<close>

lemma dir_down_step:
  assumes "d name = Some e" and "has_node nid (de_nodes e)" and "distinct (map nl_node_id (de_nodes e))"
  shows "dir_down nid (dir_leave name nid (de_orphan e) d) = dir_down nid d"
proof
  fix n
  have "\<not> has_node nid (rmv_node nid (de_nodes e))" using has_node_rmv [OF assms(3)] by simp
  then show "dir_down nid (dir_leave name nid (de_orphan e) d) n = dir_down nid d n"
    using assms by (auto simp: dir_down_def dir_leave_def Let_def)
qed

lemma dir_down_none:
  assumes "\<And>n e. d n = Some e \<Longrightarrow> \<not> has_node nid (de_nodes e)"
  shows "dir_down nid d = d"
  using assms by (auto simp: dir_down_def fun_eq_iff split: option.splits)

lemma getnext_first:
  assumes "tbl_wf (e # t)" and "case ko of None \<Rightarrow> True | Some k \<Rightarrow> k < fst e"
  shows "tbl_getnext (e # t) ko = Some e"
  using assms by (auto simp: tbl_getnext_def tbl_wf_def split: option.splits)

lemma tbl_del_head: "tbl_wf ((k, v) # t) \<Longrightarrow> fst (tbl_del k ((k, v) # t)) = t"
proof -
  assume "tbl_wf ((k, v) # t)"
  then have "\<forall>e \<in> set t. fst e \<noteq> k" by (auto simp: tbl_wf_def)
  then have "filter (\<lambda>e. fst e \<noteq> k) t = t" by simp
  then show ?thesis by (simp add: tbl_del_def tbl_get_def)
qed

lemma tbl_wf_tl: "tbl_wf (e # t) \<Longrightarrow> tbl_wf t"
  by (auto simp: tbl_wf_def)

text \<open>
  One step of the loops that drop the references of a node: the first reference of its tree is
  removed, whatever the orphan mark, and the rest of the tree stays.
\<close>

lemma drop_first_ref:
  assumes inv: "gld_inv cb" and q: "nodes cb q = Some nd" and tree: "gn_rsc_info_tree nd = (k, ref) # rest"
  obtains ri where "rscs cb (ref_rsc_info ref) = Some ri" and "k = key32 (ref_rsc_id ref)"
    and "abs_dir cb (gr_lck_name ri) = Some (dir_of ri)"
    and "has_node (gn_node_id nd) (gr_node_list ri)" and "distinct (map nl_node_id (gr_node_list ri))"
    and "\<forall>x \<in> set rest. k < fst x"
    and "\<And>flag. \<exists>cb'. gld_rsc_rmv_node_ref E (ref_rsc_info ref) (Some ref) q flag cb = Some cb'
      \<and> gld_inv cb' \<and> abs_dir cb' = dir_leave (gr_lck_name ri) (gn_node_id nd) flag (abs_dir cb)
      \<and> nodes cb' q = Some (nd\<lparr>gn_rsc_info_tree := rest\<rparr>) \<and> ha_state cb' = ha_state cb"
proof -
  have wf: "gld_wf cb" and live: "live_wf cb" using inv by (simp_all add: gld_inv_def)
  have t: "tbl_wf ((k, ref) # rest)" using wf q tree by (metis gld_wf_def nodes_wf_def)
  have "(k, ref) \<in> set (gn_rsc_info_tree nd)" using tree by simp
  then obtain ri where ri: "rscs cb (ref_rsc_info ref) = Some ri" "k = key32 (gr_rsc_id ri)"
      "ref_rsc_id ref = gr_rsc_id ri" "has_node (gn_node_id nd) (gr_node_list ri)"
    by (rule ref_master [OF wf q])
  have "\<exists>cb'. gld_rsc_rmv_node_ref E (ref_rsc_info ref) (Some ref) q flag cb = Some cb' \<and> gld_inv cb'
      \<and> abs_dir cb' = dir_leave (gr_lck_name ri) (gn_node_id nd) flag (abs_dir cb)
      \<and> nodes cb' q = Some (nd\<lparr>gn_rsc_info_tree := rest\<rparr>) \<and> ha_state cb' = ha_state cb" for flag
    using rmv_ref_run [OF wf ri(1) q ri(4,3), of E flag] live tbl_del_head [OF t] ri(2) tree
    by (auto simp: live_wf_def unlinked_def)
  moreover have "\<forall>x \<in> set rest. k < fst x" using t by (auto simp: tbl_wf_def)
  moreover have "distinct (map nl_node_id (gr_node_list ri))"
    using wf ri(1) by (simp add: gld_wf_def members_wf_def)
  ultimately show thesis using that ri abs_dir_Some [OF wf ri(1)] by simp
qed

lemma no_refs_no_member:
  assumes wf: "gld_wf cb" and q: "nodes cb q = Some nd" and "gn_rsc_info_tree nd = []"
    and "abs_dir cb m = Some e"
  shows "\<not> has_node (gn_node_id nd) (de_nodes e)"
proof -
  obtain p ri where "rscs cb p = Some ri" "e = dir_of ri" by (rule abs_dir_SomeD [OF assms(4)])
  then show ?thesis using ref_iff_member [OF wf _ q] assms(3)
    by (force simp: dir_of_def tbl_get_def split: if_splits)
qed

lemma getnext_head:
  assumes "gld_wf cb" and "nodes cb q = Some nd" and "gn_rsc_info_tree nd = e # rest"
    and "\<forall>k. ko = Some k \<longrightarrow> (\<forall>e \<in> set (gn_rsc_info_tree nd). k < fst e)"
  shows "tbl_getnext (gn_rsc_info_tree nd) ko = Some e"
proof -
  have "tbl_wf (gn_rsc_info_tree nd)" using assms(1,2) by (simp add: gld_wf_def nodes_wf_def)
  then show ?thesis using getnext_first [of e rest ko] assms(3,4) by (auto split: option.splits)
qed

lemma rmv_all_refs_run:
  assumes "gld_inv cb" and "nodes cb q = Some nd" and "length (gn_rsc_info_tree nd) < n"
    and "\<forall>k. ko = Some k \<longrightarrow> (\<forall>e \<in> set (gn_rsc_info_tree nd). k < fst e)"
  shows "\<exists>cb' nd'. rmv_all_refs n E q ko cb = Some cb' \<and> gld_inv cb' \<and> nodes cb' q = Some nd'
      \<and> gn_rsc_info_tree nd' = [] \<and> gn_node_id nd' = gn_node_id nd
      \<and> abs_dir cb' = dir_down (gn_node_id nd) (abs_dir cb) \<and> ha_state cb' = ha_state cb"
  using assms
proof (induction n arbitrary: cb nd ko)
  case (Suc n)
  have wf: "gld_wf cb" using Suc.prems(1) by (simp add: gld_inv_def)
  show ?case
  proof (cases "gn_rsc_info_tree nd")
    case Nil
    have "dir_down (gn_node_id nd) (abs_dir cb) = abs_dir cb"
      by (rule dir_down_none) (rule no_refs_no_member [OF wf Suc.prems(2) Nil])
    then show ?thesis using Nil Suc.prems by (simp add: tbl_getnext_def split: option.splits)
  next
    case (Cons e rest)
    obtain k ref where e: "e = (k, ref)" by (cases e)
    obtain ri cb1 where ri: "rscs cb (ref_rsc_info ref) = Some ri" "k = key32 (ref_rsc_id ref)"
        "abs_dir cb (gr_lck_name ri) = Some (dir_of ri)" "has_node (gn_node_id nd) (gr_node_list ri)"
        "distinct (map nl_node_id (gr_node_list ri))" "\<forall>x \<in> set rest. k < fst x"
      and rm: "gld_rsc_rmv_node_ref E (ref_rsc_info ref) (Some ref) q (gr_can_orphan ri) cb = Some cb1"
        "gld_inv cb1" "abs_dir cb1 = dir_leave (gr_lck_name ri) (gn_node_id nd) (gr_can_orphan ri) (abs_dir cb)"
        "nodes cb1 q = Some (nd\<lparr>gn_rsc_info_tree := rest\<rparr>)" "ha_state cb1 = ha_state cb"
      by (rule drop_first_ref [OF Suc.prems(1,2) Cons [unfolded e], of E]) blast
    have dd: "dir_down (gn_node_id nd) (abs_dir cb1) = dir_down (gn_node_id nd) (abs_dir cb)"
      using dir_down_step [of "abs_dir cb" "gr_lck_name ri" "dir_of ri"] ri(3-5) rm(3) by (simp add: dir_of_def)
    obtain cb' nd' where "rmv_all_refs n E q (Some k) cb1 = Some cb'" "gld_inv cb'" "nodes cb' q = Some nd'"
        "gn_rsc_info_tree nd' = []" "gn_node_id nd' = gn_node_id nd"
        "abs_dir cb' = dir_down (gn_node_id nd) (abs_dir cb1)" "ha_state cb' = ha_state cb1"
      using Suc.IH [OF rm(2,4), of "Some k"] ri(6) Suc.prems(3) Cons by auto
    then show ?thesis using Suc.prems(2) getnext_head [OF wf Suc.prems(2) Cons Suc.prems(4)] e ri rm(1,5) dd
      by (simp del: bind_Some_iff)
  qed
qed simp

lemma restart_timeout_active_run:
  assumes inv: "gld_inv cb" and act: "ha_state cb = SA_AMF_HA_ACTIVE"
    and f: "find_node cb (m_NCS_NODE_ID_FROM_MDS_DEST dest) = Some q"
  shows "\<exists>cb'. gld_process_tmr_node_restart_wait_timeout E dest cb = Some (cb', NCSCC_RC_SUCCESS)
      \<and> gld_inv cb' \<and> abs_dir cb' = dir_down (m_NCS_NODE_ID_FROM_MDS_DEST dest) (abs_dir cb)
      \<and> nodes cb' q = None \<and> ha_state cb' = ha_state cb"
proof -
  have wf: "gld_wf cb" using inv by (simp add: gld_inv_def)
  obtain nd where nd: "nodes cb q = Some nd" "gn_node_id nd = m_NCS_NODE_ID_FROM_MDS_DEST dest"
    using f wf_find_node [OF wf] by auto
  let ?cb1 = "gld_emit (GLD_CKPT (A2S_GLND_DOWN (gn_dest_id nd))) cb"
  have wf1: "gld_wf ?cb1" and nd1: "nodes ?cb1 q = Some nd" using wf nd by (simp_all add: inv_emit)
  obtain cb2 rc where s: "gld_process_send_non_master_status E q GLND_DOWN_STATE ?cb1 = Some (cb2, rc)"
      "only_outs ?cb1 cb2" using gld_non_master_status_run [OF wf1 nd1] by blast
  have "gld_inv ?cb1" using inv by (simp add: inv_emit)
  then have inv2: "gld_inv cb2" "abs_dir cb2 = abs_dir cb"
    using inv_only_outs [OF s(2)] by (simp_all add: inv_emit)
  have nd2: "nodes cb2 q = Some nd" and ha2: "ha_state cb2 = ha_state cb"
    using s(2) nd1 by (simp_all add: only_outs_same inv_emit)
  obtain cb3 nd3 where r: "rmv_all_refs (Suc (length (gn_rsc_info_tree nd))) E q None cb2 = Some cb3"
      "gld_inv cb3" "nodes cb3 q = Some nd3" "gn_rsc_info_tree nd3 = []" "gn_node_id nd3 = gn_node_id nd"
      "abs_dir cb3 = dir_down (gn_node_id nd) (abs_dir cb2)" "ha_state cb3 = ha_state cb2"
    using rmv_all_refs_run [OF inv2(1) nd2, of "Suc (length (gn_rsc_info_tree nd))" None E] by auto
  obtain cb4 where "del_node q cb3 = Some cb4" "gld_inv cb4" "abs_dir cb4 = abs_dir cb3"
      "nodes cb4 = (nodes cb3)(q := None)" "ha_state cb4 = ha_state cb3"
    using del_node_run [OF r(2,3)] r(4) by (auto simp: tbl_get_def)
  then show ?thesis using f act nd s r inv2 ha2
    by (simp add: gld_process_tmr_node_restart_wait_timeout_def del: bind_Some_iff rmv_all_refs.simps)
qed

lemma restart_timeout_other_run:
  assumes inv: "gld_inv cb" and other: "ha_state cb \<noteq> SA_AMF_HA_ACTIVE \<or>
      find_node cb (m_NCS_NODE_ID_FROM_MDS_DEST dest) = None"
  shows "\<exists>cb' rc. gld_process_tmr_node_restart_wait_timeout E dest cb = Some (cb', rc) \<and> gld_inv cb'
      \<and> abs_dir cb' = abs_dir cb \<and> ha_state cb' = ha_state cb"
proof (cases "find_node cb (m_NCS_NODE_ID_FROM_MDS_DEST dest)")
  case None
  then show ?thesis using inv by (simp add: gld_process_tmr_node_restart_wait_timeout_def)
next
  case (Some q)
  have wf: "gld_wf cb" using inv by (simp add: gld_inv_def)
  obtain nd where nd: "nodes cb q = Some nd" using Some wf_find_node [OF wf] by auto
  let ?cb = "cb\<lparr>nodes := (nodes cb)(q \<mapsto> nd\<lparr>gn_status := GLND_DOWN_STATE\<rparr>)\<rparr>"
  have sv: "same_view cb ?cb" by (rule same_view_node [OF nd]) (simp add: node_shape_def)
  show ?thesis
    using Some nd other same_view_inv [OF sv inv] same_view_dir [OF sv wf]
    by (simp add: gld_process_tmr_node_restart_wait_timeout_def node_upd_def)
qed

lemma reelection_timeout_run:
  assumes inv: "gld_inv cb"
  shows "\<exists>cb'. gld_process_tmr_resource_reelection_wait_timeout rid cb = Some (cb', NCSCC_RC_SUCCESS)
      \<and> only_outs cb cb'"
proof -
  have wf: "gld_wf cb" using inv by (simp add: gld_inv_def)
  obtain r where r: "gld_find_rsc_by_id cb rid = Some r"
    and ok: "case r of None \<Rightarrow> (\<forall>p ri. rscs cb p = Some ri \<longrightarrow> gr_rsc_id ri \<noteq> rid)
         | Some p \<Rightarrow> (\<exists>ri. rscs cb p = Some ri \<and> gr_rsc_id ri = rid)"
    using find_by_id_run [OF wf] by blast
  show ?thesis
  proof (cases r)
    case None
    then show ?thesis using r by (simp add: gld_process_tmr_resource_reelection_wait_timeout_def)
  next
    case (Some p)
    then obtain ri where "rscs cb p = Some ri" using ok by auto
    then show ?thesis
      using r Some send_master_only_outs [of cb p ri GLND_RESOURCE_ELECTION_COMPLETED]
      by (auto simp: gld_process_tmr_resource_reelection_wait_timeout_def)
  qed
qed

section \<open>Every event\<close>

text \<open>
  What a handler relies on: for an open request, that \<open>malloc\<close> returns new addresses, that an
  id is free and that the sender's node id is not 0; for the report of a known node director,
  that every resource has a node.
\<close>

definition gld_evt_ok :: "gld_env \<Rightarrow> MDS_DEST \<Rightarrow> gld_evt_info \<Rightarrow> GLSV_GLD_CB \<Rightarrow> bool" where
  "gld_evt_ok E fr evt cb \<longleftrightarrow>
     (case evt of
        GLSV_GLD_EVT_RSC_OPEN info \<Rightarrow> gld_env_ok E cb \<and> m_NCS_NODE_ID_FROM_MDS_DEST fr \<noteq> 0
      | GLSV_GLD_EVT_GLND_OPERATIONAL \<Rightarrow>
          find_node cb (m_NCS_NODE_ID_FROM_MDS_DEST fr) \<noteq> None \<longrightarrow> all_mastered cb
      | _ \<Rightarrow> True)"

lemma quisced_inv: "gld_inv cb \<Longrightarrow> gld_inv (fst (gld_quisced_process E cb))"
proof -
  assume inv: "gld_inv cb"
  have shape: "gld_inv (cb\<lparr>ha_state := h, is_impl_set := i, is_quiasced := b, gld_outs := os\<rparr>)" for h i b os
    using inv by (simp add: gld_inv_def live_wf_def gld_wf_def gld_wf_defs)
  have "fst (gld_quisced_process E cb) = cb \<or>
      (\<exists>h i b os. fst (gld_quisced_process E cb)
          = cb\<lparr>ha_state := h, is_impl_set := i, is_quiasced := b, gld_outs := os\<rparr>)"
  proof (cases "is_quiasced cb \<and> ge_chgrole E \<noteq> NCSCC_RC_SUCCESS")
    case True
    then have "fst (gld_quisced_process E cb) = cb\<lparr>ha_state := SA_AMF_HA_QUIESCED, is_impl_set := False,
        is_quiasced := is_quiasced cb, gld_outs := gld_outs cb @ [GLD_IMM_CLEAR, GLD_MBCSV_CHGROLE]\<rparr>"
      by (simp add: gld_quisced_process_def gld_emits_def Let_def)
    then show ?thesis by blast
  next
    case False
    then show ?thesis
      by (auto simp: gld_quisced_process_def gld_emits_def gld_emit_def Let_def)
  qed
  with inv shape show ?thesis by auto
qed

lemma close_any_run:
  assumes inv: "gld_inv cb"
  shows "\<exists>cb' rc. gld_rsc_close E fr d cb = Some (cb', rc) \<and> gld_inv cb'"
proof (cases "\<exists>p ri. rscs cb p = Some ri \<and> gr_rsc_id ri = rd_rsc_id d
      \<and> has_node (m_NCS_NODE_ID_FROM_MDS_DEST fr) (gr_node_list ri)")
  case True
  then show ?thesis using close_run [OF inv] by blast
next
  case False
  then have "\<forall>p ri. rscs cb p = Some ri \<longrightarrow> gr_rsc_id ri = rd_rsc_id d \<longrightarrow>
      \<not> has_node (m_NCS_NODE_ID_FROM_MDS_DEST fr) (gr_node_list ri)" by blast
  from close_unknown_run [OF inv this, of E] inv show ?thesis by blast
qed

lemma set_orphan_any_run:
  assumes inv: "gld_inv cb"
  shows "\<exists>cb' rc. gld_rsc_set_orphan fr d cb = Some (cb', rc) \<and> gld_inv cb'"
proof (cases "\<exists>p ri. rscs cb p = Some ri \<and> gr_rsc_id ri = rd_rsc_id d
      \<and> has_node (m_NCS_NODE_ID_FROM_MDS_DEST fr) (gr_node_list ri)")
  case True
  then show ?thesis using set_orphan_run [OF inv] by blast
next
  case False
  then have "\<forall>p ri. rscs cb p = Some ri \<longrightarrow> gr_rsc_id ri = rd_rsc_id d \<longrightarrow>
      \<not> has_node (m_NCS_NODE_ID_FROM_MDS_DEST fr) (gr_node_list ri)" by blast
  from set_orphan_unknown_run [OF inv this] inv show ?thesis by blast
qed

lemma restart_any_run:
  "gld_inv cb \<Longrightarrow>
   \<exists>cb' rc. gld_process_tmr_node_restart_wait_timeout E dest cb = Some (cb', rc) \<and> gld_inv cb'"
  using restart_timeout_active_run [of cb dest _ E] restart_timeout_other_run [of cb dest E]
  by (cases "ha_state cb = SA_AMF_HA_ACTIVE"; cases "find_node cb (m_NCS_NODE_ID_FROM_MDS_DEST dest)") blast+

lemma dispatch_run:
  assumes inv: "gld_inv cb" and ok: "gld_evt_ok E fr evt cb"
  shows "\<exists>cb' rc. gld_dispatch E fr evt cb = Some (cb', rc) \<and> gld_inv cb'"
proof (cases evt)
  case (GLSV_GLD_EVT_RSC_OPEN info)
  then show ?thesis using ok open_run [OF inv, of E fr info] by (auto simp: gld_dispatch_def gld_evt_ok_def)
next
  case (GLSV_GLD_EVT_RSC_CLOSE d)
  then show ?thesis using close_any_run [OF inv] by (simp add: gld_dispatch_def)
next
  case (GLSV_GLD_EVT_SET_ORPHAN d)
  then show ?thesis using set_orphan_any_run [OF inv] by (simp add: gld_dispatch_def)
next
  case (GLSV_GLD_EVT_GLND_DOWN dest)
  then show ?thesis using clm_down_run [OF inv, of E "m_NCS_NODE_ID_FROM_MDS_DEST dest"]
    by (auto simp: gld_dispatch_def gld_mds_glnd_down_def)
next
  case GLSV_GLD_EVT_GLND_OPERATIONAL
  then show ?thesis using ok operational_run [OF inv, of fr E]
    by (auto simp: gld_dispatch_def gld_evt_ok_def)
next
  case (GLSV_GLD_EVT_REELECTION_TIMEOUT t)
  then show ?thesis using reelection_timeout_run [OF inv, of "et_resource_id t"] inv_only_outs [OF _ inv]
    by (auto simp: gld_dispatch_def)
next
  case (GLSV_GLD_EVT_RESTART_TIMEOUT t)
  then show ?thesis using restart_any_run [OF inv] by (simp add: gld_dispatch_def)
next
  case GLSV_GLD_EVT_QUISCED_STATE
  then show ?thesis using quisced_inv [OF inv, of E]
    by (cases "gld_quisced_process E cb") (simp add: gld_dispatch_def)
next
  case (GLSV_GLD_EVT_GLND_DOWN_CLM nid)
  then show ?thesis using clm_down_run [OF inv, of E nid] by (auto simp: gld_dispatch_def)
qed (use inv in \<open>simp add: gld_dispatch_def\<close>)

lemma standby_evt_ok: "standby_evt evt \<Longrightarrow> gld_evt_ok E fr evt cb"
  by (cases evt) (simp_all add: standby_evt_def gld_evt_ok_def)

lemma process_evt_run:
  assumes inv: "gld_inv cb" and ok: "ha_state cb = SA_AMF_HA_ACTIVE \<Longrightarrow> gld_evt_ok E fr evt cb"
  shows "\<exists>cb'. gld_process_evt E fr evt cb = Some cb' \<and> gld_inv cb'"
proof -
  obtain cb1 where 1: "(if ha_state cb = SA_AMF_HA_ACTIVE then map_option fst (gld_dispatch E fr evt cb)
      else Some cb) = Some cb1" "gld_inv cb1"
    using dispatch_run [OF inv, of E fr evt] ok inv by (cases "ha_state cb = SA_AMF_HA_ACTIVE") auto
  then show ?thesis
    using dispatch_run [OF 1(2), of E fr evt] standby_evt_ok [of evt E fr cb1]
    by (auto simp: gld_process_evt_def)
qed

end
