(* ===== verification/Gld_Replica.thy ===== *)
theory Gld_Replica
  imports Gld_Standby Gld_Dispatch
begin

text \<open>
  The standby director as a replica of the active one. \<open>mirror\<close> says that both have the same
  directory and know the same nodes under the same addresses. The first part follows the
  checkpoint messages and the node addresses through the code of the active director, the
  second shows what each handler of the standby director does to its directory, the third puts
  the two together.
\<close>

section \<open>Node addresses and checkpoint messages\<close>

definition node_map :: "GLSV_GLD_CB \<Rightarrow> u32 \<rightharpoonup> MDS_DEST" where
  "node_map cb nid = (case find_node cb nid of None \<Rightarrow> None | Some q \<Rightarrow> map_option gn_dest_id (nodes cb q))"

definition ckpt_of :: "gld_out \<Rightarrow> gld_a2s_evt option" where
  "ckpt_of m = (case m of GLD_CKPT c \<Rightarrow> Some c | _ \<Rightarrow> None)"

definition ckpts :: "GLSV_GLD_CB \<Rightarrow> gld_a2s_evt list" where
  "ckpts cb = List.map_filter ckpt_of (gld_outs cb)"

definition mirror :: "GLSV_GLD_CB \<Rightarrow> GLSV_GLD_CB \<Rightarrow> bool" where
  "mirror cb sb \<longleftrightarrow> abs_dir sb = abs_dir cb \<and> node_map sb = node_map cb"

text \<open>A step that checkpoints nothing and leaves the node addresses alone.\<close>

definition node_dests :: "GLSV_GLD_CB \<Rightarrow> ptr \<rightharpoonup> MDS_DEST" where
  "node_dests cb q = map_option gn_dest_id (nodes cb q)"

definition quiet :: "GLSV_GLD_CB \<Rightarrow> GLSV_GLD_CB \<Rightarrow> bool" where
  "quiet cb cb' \<longleftrightarrow> glnd_details cb' = glnd_details cb \<and> node_dests cb' = node_dests cb \<and> ckpts cb' = ckpts cb"

lemma quiet_refl [simp]: "quiet cb cb"
  by (simp add: quiet_def)

lemma quiet_trans [trans]: "quiet a b \<Longrightarrow> quiet b c \<Longrightarrow> quiet a c"
  by (simp add: quiet_def)

lemma node_map_dests: "node_map cb nid = (case find_node cb nid of None \<Rightarrow> None | Some q \<Rightarrow> node_dests cb q)"
  by (simp add: node_map_def node_dests_def split: option.split)

lemma quiet_node_map: "quiet cb cb' \<Longrightarrow> node_map cb' = node_map cb"
  by (simp add: quiet_def node_map_dests find_node_def fun_eq_iff split: option.split)

lemma quiet_ckpts: "quiet cb cb' \<Longrightarrow> ckpts cb' = ckpts cb"
  by (simp add: quiet_def)

lemma quietI:
  "glnd_details cb' = glnd_details cb \<Longrightarrow> nodes cb' = nodes cb \<Longrightarrow> ckpts cb' = ckpts cb \<Longrightarrow> quiet cb cb'"
  by (simp add: quiet_def node_dests_def fun_eq_iff)

lemma quiet_node:
  "nodes cb q = Some nd \<Longrightarrow> gn_dest_id nd' = gn_dest_id nd
   \<Longrightarrow> quiet cb (cb\<lparr>rscs := x, nodes := (nodes cb)(q \<mapsto> nd')\<rparr>)"
  by (auto simp: quiet_def node_dests_def fun_eq_iff ckpts_def)

lemma node_map_cong: "glnd_details a = glnd_details b \<Longrightarrow> nodes a = nodes b \<Longrightarrow> node_map a = node_map b"
  by (simp add: node_map_def find_node_def fun_eq_iff cong: option.case_cong)

lemma ckpts_cong: "gld_outs a = gld_outs b \<Longrightarrow> ckpts a = ckpts b"
  by (simp add: ckpts_def)

lemma node_map_simps [simp]:
  "node_map (cb\<lparr>rscs := x1\<rparr>) = node_map cb" "node_map (cb\<lparr>rsc_list := x2\<rparr>) = node_map cb"
  "node_map (cb\<lparr>rsc_info_id := x3\<rparr>) = node_map cb" "node_map (cb\<lparr>rsc_map_info := x4\<rparr>) = node_map cb"
  "node_map (cb\<lparr>gld_outs := x5\<rparr>) = node_map cb" "node_map (cb\<lparr>nxt_rsc_id := x6\<rparr>) = node_map cb"
  "node_map (cb\<lparr>gld_async_cnt := x7\<rparr>) = node_map cb" "node_map (cb\<lparr>ha_state := x8\<rparr>) = node_map cb"
  "node_map (gld_emit m cb) = node_map cb" "node_map (gld_emits ms cb) = node_map cb"
  by (rule node_map_cong; simp add: gld_emit_def gld_emits_def)+

lemma ckpts_simps [simp]:
  "ckpts (cb\<lparr>rscs := x1\<rparr>) = ckpts cb" "ckpts (cb\<lparr>rsc_list := x2\<rparr>) = ckpts cb"
  "ckpts (cb\<lparr>rsc_info_id := x3\<rparr>) = ckpts cb" "ckpts (cb\<lparr>rsc_map_info := x4\<rparr>) = ckpts cb"
  "ckpts (cb\<lparr>nodes := x5\<rparr>) = ckpts cb" "ckpts (cb\<lparr>nxt_rsc_id := x6\<rparr>) = ckpts cb"
  "ckpts (cb\<lparr>glnd_details := x7\<rparr>) = ckpts cb" "ckpts (cb\<lparr>gld_async_cnt := x8\<rparr>) = ckpts cb"
  by (rule ckpts_cong; simp)+

lemma ckpts_emit: "ckpts (gld_emit m cb) = ckpts cb @ (case ckpt_of m of None \<Rightarrow> [] | Some c \<Rightarrow> [c])"
  by (cases "ckpt_of m") (simp_all add: ckpts_def gld_emit_def List.map_filter_def)

lemma ckpts_emits: "ckpts (gld_emits ms cb) = ckpts cb @ List.map_filter ckpt_of ms"
  by (simp add: ckpts_def gld_emits_def List.map_filter_def)

lemma tmr_no_ckpt:
  "List.map_filter ckpt_of (snd (fst (gld_start_tmr E cb t ty per u))) = []"
  "List.map_filter ckpt_of (snd (gld_stop_tmr t)) = []"
  by (simp_all add: gld_start_tmr_def gld_stop_tmr_def Let_def List.map_filter_def ckpt_of_def)

lemma quiet_emits: "List.map_filter ckpt_of ms = [] \<Longrightarrow> quiet cb (gld_emits ms cb)"
  by (rule quietI) (simp_all add: ckpts_emits, simp_all add: gld_emits_def)

lemma quiet_emit: "ckpt_of m = None \<Longrightarrow> quiet cb (gld_emit m cb)"
  by (rule quietI) (simp_all add: ckpts_emit, simp_all add: gld_emit_def)

lemma quiet_rscs [simp]: "quiet cb (cb\<lparr>rscs := x\<rparr>)"
  by (rule quietI) simp_all

lemma quiet_rsc_upd: "rsc_upd r f cb = Some cb' \<Longrightarrow> quiet cb cb'"
  by (auto simp: rsc_upd_def)

lemma quiet_reelection:
  assumes "rsc_start_reelection E r cb = Some cb'"
  shows "quiet cb cb'"
proof -
  obtain os x where "cb' = gld_emits os (cb\<lparr>rscs := x\<rparr>)" and "List.map_filter ckpt_of os = []"
    using assms tmr_no_ckpt(1) [of E cb] by (auto simp: rsc_start_reelection_def split_def Let_def)
  then show ?thesis using quiet_trans [OF quiet_rscs quiet_emits] by blast
qed

lemma quiet_master_status: "gld_snd_master_status r st cb = Some cb' \<Longrightarrow> quiet cb cb'"
  by (cases "rscs cb r") (auto simp: gld_snd_master_status_def ckpt_of_def intro!: quiet_emit split: list.split_asm)

lemma quiet_free: "gld_free_rsc_info r cb = Some cb' \<Longrightarrow> quiet cb cb'"
  using tmr_no_ckpt(2)
  by (auto simp: gld_free_rsc_info_def Let_def ckpts_emits ckpts_emit ckpt_of_def gld_emits_def [abs_def]
      gld_emit_def [abs_def] ckpts_def List.map_filter_def intro!: quietI split: if_splits)

lemma quiet_rmv_ref:
  assumes "gld_rsc_rmv_node_ref E r ref q flag cb = Some cb'"
  shows "quiet cb cb'"
proof (cases "ref = None \<or> r = NULL")
  case True
  then show ?thesis using assms by (cases ref) (auto simp: gld_rsc_rmv_node_ref_def)
next
  case False
  then obtain x ri nd m where x: "ref = Some x" and p: "rscs cb r = Some ri" and q: "nodes cb q = Some nd"
    using assms by (auto simp: gld_rsc_rmv_node_ref_def)
  define cb1 where "cb1 = cb\<lparr>rscs := (rscs cb)(r \<mapsto> ri\<lparr>gr_node_list := rmv_node (gn_node_id nd) (gr_node_list ri),
        gr_can_orphan := flag\<rparr>), nodes := (nodes cb)(q \<mapsto> nd\<lparr>gn_rsc_info_tree :=
        fst (tbl_del (key32 (ref_rsc_id x)) (gn_rsc_info_tree nd))\<rparr>)\<rparr>"
  have base: "quiet cb cb1" unfolding cb1_def by (rule quiet_node [OF q]) simp
  consider "gld_free_rsc_info r cb1 = Some cb'" | "cb' = cb1"
    | cb2 where "rsc_start_reelection E r cb1 = Some cb2"
        "gld_snd_master_status r GLND_RESOURCE_ELECTION_IN_PROGESS cb2 = Some cb'"
    using assms x p q False by (auto simp: gld_rsc_rmv_node_ref_def Let_def cb1_def split: if_splits list.splits)
  then show ?thesis
    by cases (use base quiet_free quiet_reelection quiet_master_status in \<open>blast intro: quiet_trans\<close>)+
qed

lemma quiet_for_each:
  assumes "\<And>x a b. f x a = Some b \<Longrightarrow> quiet a b"
  shows "for_each f xs cb = Some cb' \<Longrightarrow> quiet cb cb'"
proof (induction xs arbitrary: cb)
  case (Cons x xs)
  then obtain c where "f x cb = Some c" and "for_each f xs c = Some cb'" by auto
  then show ?case using quiet_trans [OF assms Cons.IH] by blast
qed simp

lemma quiet_announce: "announce_masters nid st cb = Some cb' \<Longrightarrow> quiet cb cb'"
  unfolding announce_masters_def
  by (erule quiet_for_each [rotated]) (auto split: if_splits intro: quiet_master_status)

lemma quiet_announce_checked: "announce_masters_checked nid st cb = Some cb' \<Longrightarrow> quiet cb cb'"
  unfolding announce_masters_checked_def
proof (erule quiet_for_each [rotated])
  fix x a b
  assume *: "(do { ri \<leftarrow> rscs a x;
      case gr_node_list ri of [] \<Rightarrow> Some a
      | m # _ \<Rightarrow> if nl_node_id m = nid then gld_snd_master_status x st a else Some a }) = Some b"
  then obtain ri where "rscs a x = Some ri" by auto
  with * show "quiet a b" by (cases "gr_node_list ri") (auto split: if_splits intro: quiet_master_status)
qed

lemma quiet_set_dest_all: "set_dest_all nid dest cb = Some cb' \<Longrightarrow> quiet cb cb'"
  unfolding set_dest_all_def by (erule quiet_for_each [rotated]) (rule quiet_rsc_upd)

lemma quiet_snd: "quiet cb (gld_emit (GLD_SND d m) cb)"
  by (rule quiet_emit) (simp add: ckpt_of_def)

lemma quiet_non_master_loop:
  "non_master_loop E nd st refs res cb = Some (cb', rc) \<Longrightarrow> quiet cb cb'"
proof (induction E nd st refs res cb rule: non_master_loop.induct)
  case (2 E nd st k ref refs res cb)
  then show ?case by (auto simp: Let_def split: if_splits intro: quiet_trans [OF quiet_snd] quiet_snd)
qed simp

lemma quiet_non_master_status:
  "gld_process_send_non_master_status E q st cb = Some (cb', rc) \<Longrightarrow> quiet cb cb'"
  by (auto simp: gld_process_send_non_master_status_def intro: quiet_non_master_loop)

lemma quiet_non_master_info: "gld_process_send_non_master_info r nd st cb = Some cb' \<Longrightarrow> quiet cb cb'"
  by (auto simp: gld_process_send_non_master_info_def quiet_snd split: if_splits)

lemma quiet_non_masters_to: "non_masters_to r ns cb = Some cb' \<Longrightarrow> quiet cb cb'"
  by (induction r ns cb rule: non_masters_to.induct)
     (auto split: option.split_asm intro: quiet_trans [OF quiet_non_master_info])

lemma quiet_master_info_loop: "master_info_loop nid refs cb = Some (cb', is) \<Longrightarrow> quiet cb cb'"
proof (induction nid refs cb arbitrary: cb' "is" rule: master_info_loop.induct)
  case (2 nid k ref refs cb)
  show ?case
  proof (cases "rsc_master cb (ref_rsc_info ref)")
    case (Some m)
    show ?thesis
    proof (cases "find_node cb (nl_node_id m)")
      case None
      with 2 Some show ?thesis by auto
    next
      case (Some mq)
      with \<open>rsc_master cb (ref_rsc_info ref) = Some m\<close> "2.prems"
      obtain ri mnd c is' where r: "rscs cb (ref_rsc_info ref) = Some ri" "nodes cb mq = Some mnd"
        and c: "(if gn_node_id mnd = nid then non_masters_to (ref_rsc_info ref) (tl (gr_node_list ri)) cb
              else Some cb) = Some c"
        and l: "master_info_loop nid refs c = Some (cb', is')" by auto
      have "quiet cb c" using c by (auto split: if_splits intro: quiet_non_masters_to)
      moreover have "quiet c cb'"
        by (rule "2.IH"(2) [OF r(1) \<open>rsc_master cb (ref_rsc_info ref) = Some m\<close> Some r(2) c l])
      ultimately show ?thesis by (rule quiet_trans)
    qed
  qed (use "2.prems" in auto)
qed simp

lemma quiet_res_master_info: "gld_send_res_master_info E q dest cb = Some (cb', rc) \<Longrightarrow> quiet cb cb'"
  by (cases q) (auto simp: gld_send_res_master_info_def Let_def intro: quiet_snd quiet_trans [OF quiet_master_info_loop quiet_snd])

section \<open>The active director\<close>

lemma close_ckpt:
  assumes "gld_rsc_close E fr d cb = Some (cb', rc)"
  shows "cb' = cb \<or> (\<exists>dest. node_map cb (m_NCS_NODE_ID_FROM_MDS_DEST fr) = Some dest
      \<and> node_map cb' = node_map cb \<and> ckpts cb' = ckpts cb @ [A2S_RSC_CLOSE d dest])"
proof (rule disjCI)
  assume ne: "\<not> (\<exists>dest. node_map cb (m_NCS_NODE_ID_FROM_MDS_DEST fr) = Some dest
      \<and> node_map cb' = node_map cb \<and> ckpts cb' = ckpts cb @ [A2S_RSC_CLOSE d dest])"
  show "cb' = cb"
  proof (cases "find_node cb (m_NCS_NODE_ID_FROM_MDS_DEST fr)")
    case (Some q)
    then obtain nd where nd: "nodes cb q = Some nd" using assms by (auto simp: gld_rsc_close_def)
    show ?thesis
    proof (cases "tbl_get (gn_rsc_info_tree nd) (key32 (rd_rsc_id d))")
      case (Some ref)
      show ?thesis
      proof (cases "ref_rsc_info ref = NULL")
        case False
        obtain c1 c2 nd2 where c: "rsc_upd (ref_rsc_info ref) user_left cb = Some c1"
            "(if rd_lcl_ref_cnt d = 0 then gld_rsc_rmv_node_ref E (ref_rsc_info ref) (Some ref) q (rd_orphan d) c1
              else Some c1) = Some c2" "nodes c2 q = Some nd2"
            "cb' = gld_emit (GLD_CKPT (A2S_RSC_CLOSE d (gn_dest_id nd2))) c2"
          using assms Some False nd \<open>find_node cb _ = Some q\<close> by (auto simp: gld_rsc_close_def)
        have "quiet c1 c2" using c(2) by (auto split: if_splits intro: quiet_rmv_ref)
        with quiet_rsc_upd [OF c(1)] have qt: "quiet cb c2" by (rule quiet_trans)
        then have "node_dests c2 q = node_dests cb q" by (simp add: quiet_def)
        then have "gn_dest_id nd2 = gn_dest_id nd" using nd c(3) by (simp add: node_dests_def)
        with c(4) have "ckpts cb' = ckpts cb @ [A2S_RSC_CLOSE d (gn_dest_id nd)]"
          using quiet_ckpts [OF qt] by (simp add: ckpts_emit ckpt_of_def)
        moreover have "node_map cb' = node_map cb" using c(4) quiet_node_map [OF qt] by simp
        moreover have "node_map cb (m_NCS_NODE_ID_FROM_MDS_DEST fr) = Some (gn_dest_id nd)"
          using nd \<open>find_node cb _ = Some q\<close> by (simp add: node_map_def)
        ultimately show ?thesis using ne by blast
      qed (use assms Some nd \<open>find_node cb _ = Some q\<close> in \<open>simp add: gld_rsc_close_def\<close>)
    qed (use assms Some nd in \<open>simp add: gld_rsc_close_def\<close>)
  qed (use assms in \<open>simp add: gld_rsc_close_def\<close>)
qed

lemma quiet_ref_set_orphan: "gld_rsc_ref_set_orphan q rid f m cb = Some (cb', rc) \<Longrightarrow> quiet cb cb'"
  by (cases "nodes cb q") (auto simp: gld_rsc_ref_set_orphan_def split: option.split_asm if_splits intro: quiet_rsc_upd)

lemma set_orphan_ckpt:
  assumes "gld_rsc_set_orphan fr d cb = Some (cb', NCSCC_RC_SUCCESS)"
  shows "\<exists>dest. node_map cb (m_NCS_NODE_ID_FROM_MDS_DEST fr) = Some dest
      \<and> node_map cb' = node_map cb \<and> ckpts cb' = ckpts cb @ [A2S_SET_ORPHAN d dest]"
proof -
  obtain q c nd2 where q: "find_node cb (m_NCS_NODE_ID_FROM_MDS_DEST fr) = Some q"
    and c: "gld_rsc_ref_set_orphan q (rd_rsc_id d) (rd_orphan d) (rd_lck_mode d) cb = Some (c, NCSCC_RC_SUCCESS)"
      "nodes c q = Some nd2" "cb' = gld_emit (GLD_CKPT (A2S_SET_ORPHAN d (gn_dest_id nd2))) c"
    using assms by (auto simp: gld_rsc_set_orphan_def split: option.split_asm if_splits)
  have qt: "quiet cb c" using c(1) by (rule quiet_ref_set_orphan)
  then have "node_dests c q = node_dests cb q" by (simp add: quiet_def)
  then have "node_dests cb q = Some (gn_dest_id nd2)" using c(2) by (simp add: node_dests_def)
  then have "node_map cb (m_NCS_NODE_ID_FROM_MDS_DEST fr) = Some (gn_dest_id nd2)"
    using q by (simp add: node_map_dests)
  then show ?thesis using c(3) quiet_ckpts [OF qt] quiet_node_map [OF qt] by (simp add: ckpts_emit ckpt_of_def)
qed

lemma node_map_upd:
  assumes "gld_wf cb" and "nodes cb q = Some nd" and "nodes cb' = (nodes cb)(q \<mapsto> nd')"
    and "glnd_details cb' = glnd_details cb"
  shows "node_map cb' = (node_map cb)(gn_node_id nd \<mapsto> gn_dest_id nd')"
proof
  fix n
  have "find_node cb' n = find_node cb n" using assms(4) by (simp add: find_node_def)
  moreover have "find_node cb n = Some q \<longleftrightarrow> n = gn_node_id nd"
    using wf_find_node [OF assms(1), of n q] assms(2) by auto
  ultimately show "node_map cb' n = ((node_map cb)(gn_node_id nd \<mapsto> gn_dest_id nd')) n"
    using assms(3) by (auto simp: node_map_def split: option.split)
qed

lemma node_map_add:
  assumes "gld_wf cb" and "nodes cb q = None" and "nodes cb' = (nodes cb)(q \<mapsto> nd)"
    and "tbl_get (glnd_details cb') = (tbl_get (glnd_details cb))(key32 (gn_node_id nd) \<mapsto> q)"
  shows "node_map cb' = (node_map cb)(gn_node_id nd \<mapsto> gn_dest_id nd)"
proof
  fix n
  have "find_node cb n \<noteq> Some q" using wf_find_node [OF assms(1), of n q] assms(2) by auto
  moreover have "find_node cb' n = (if n = gn_node_id nd then Some q else find_node cb n)"
    using assms(4) by (simp add: find_node_def)
  ultimately show "node_map cb' n = ((node_map cb)(gn_node_id nd \<mapsto> gn_dest_id nd)) n"
    using assms(3) by (auto simp: node_map_def split: option.split)
qed

lemma node_map_del:
  assumes wf: "gld_wf cb" and q: "nodes cb q = Some nd" and "nodes cb' = (nodes cb)(q := None)"
    and "glnd_details cb' = fst (tbl_del (key32 (gn_node_id nd)) (glnd_details cb))"
  shows "node_map cb' = (node_map cb)(gn_node_id nd := None)"
proof
  fix n
  have "find_node cb n = Some q \<longleftrightarrow> n = gn_node_id nd"
    using wf_find_node [OF wf, of n q] q by auto
  moreover have "find_node cb' n = (if n = gn_node_id nd then None else find_node cb n)"
    using assms(4) wf by (simp add: find_node_def tbl_get_del gld_wf_def nodes_wf_def)
  ultimately show "node_map cb' n = ((node_map cb)(gn_node_id nd := None)) n"
    using assms(3) by (auto simp: node_map_def split: option.split)
qed

lemma del_node_ckpt:
  assumes wf: "gld_wf cb" and q: "nodes cb q = Some nd" and "del_node q cb = Some cb'"
  shows "node_map cb' = (node_map cb)(gn_node_id nd := None) \<and> ckpts cb' = ckpts cb"
proof -
  have "tbl_del_node (key32 (gn_node_id nd)) q (glnd_details cb) = tbl_del (key32 (gn_node_id nd)) (glnd_details cb)"
    using wf_node_get [OF wf q] by (simp add: tbl_del_node_def)
  moreover have "snd (tbl_del (key32 (gn_node_id nd)) (glnd_details cb)) = NCSCC_RC_SUCCESS"
    using wf_node_get [OF wf q] by (simp add: tbl_del_def)
  ultimately have cb': "cb' = cb\<lparr>glnd_details := fst (tbl_del (key32 (gn_node_id nd)) (glnd_details cb)),
      nodes := (nodes cb)(q := None)\<rparr>"
    using assms(3) q by (cases "tbl_del (key32 (gn_node_id nd)) (glnd_details cb)") (simp add: del_node_def)
  then show ?thesis using node_map_del [OF wf q, of cb'] by simp
qed

lemma operational_ckpt:
  assumes wf: "gld_wf cb" and f: "find_node cb (m_NCS_NODE_ID_FROM_MDS_DEST fr) = Some q"
    and run: "gld_glnd_operational E fr cb = Some (cb', rc)"
  shows "ckpts cb' = ckpts cb @ [A2S_GLND_OPERATIONAL fr]
      \<and> node_map cb' = (node_map cb)(m_NCS_NODE_ID_FROM_MDS_DEST fr \<mapsto> fr)"
proof -
  let ?nid = "m_NCS_NODE_ID_FROM_MDS_DEST fr"
  obtain nd where nd: "nodes cb q = Some nd" "gn_node_id nd = ?nid" using f wf_find_node [OF wf] by auto
  let ?nd = "nd\<lparr>gn_dest_id := fr, gn_restart_timer := fst (gld_stop_tmr (gn_restart_timer nd)),
      gn_status := GLND_OPERATIONAL_STATE\<rparr>"
  let ?c0 = "cb\<lparr>nodes := (nodes cb)(q \<mapsto> ?nd)\<rparr>"
  let ?c1 = "gld_emits (snd (gld_stop_tmr (gn_restart_timer nd))) ?c0"
  obtain c2 c3 c4 x y where c: "set_dest_all ?nid fr ?c1 = Some c2"
      "announce_masters (gn_node_id nd) GLND_RESOURCE_MASTER_OPERATIONAL
         (gld_emit (GLD_CKPT (A2S_GLND_OPERATIONAL fr)) c2) = Some c3"
      "gld_process_send_non_master_status E q GLND_OPERATIONAL_STATE c3 = Some (c4, x)"
      "gld_send_res_master_info E (Some q) fr c4 = Some (cb', y)"
    using run f nd(1) by (auto simp: gld_glnd_operational_def Let_def split_def)
  have "quiet ?c0 c2" using quiet_emits [OF tmr_no_ckpt(2)] quiet_set_dest_all [OF c(1)] by (rule quiet_trans)
  then have "ckpts c2 = ckpts cb" "node_map c2 = node_map ?c0"
    using quiet_ckpts quiet_node_map by fastforce+
  moreover have "node_map ?c0 = (node_map cb)(?nid \<mapsto> fr)"
    using node_map_upd [OF wf nd(1), of ?c0 ?nd] nd(2) by simp
  moreover have "quiet (gld_emit (GLD_CKPT (A2S_GLND_OPERATIONAL fr)) c2) cb'"
    using quiet_announce [OF c(2)] quiet_non_master_status [OF c(3)] quiet_res_master_info [OF c(4)]
    by (blast intro: quiet_trans)
  ultimately show ?thesis using quiet_ckpts quiet_node_map by (fastforce simp: ckpts_emit ckpt_of_def)
qed

lemma quiet_rmv_all_refs: "rmv_all_refs n E q ko cb = Some cb' \<Longrightarrow> quiet cb cb'"
proof (induction n arbitrary: ko cb)
  case (Suc n)
  obtain nd where nd: "nodes cb q = Some nd" using Suc.prems by auto
  show ?case
  proof (cases "tbl_getnext (gn_rsc_info_tree nd) ko")
    case None
    with nd Suc.prems show ?thesis by simp
  next
    case (Some e)
    obtain k ref where e: "e = (k, ref)" by (cases e)
    obtain fl c where "gld_rsc_rmv_node_ref E (ref_rsc_info ref) (Some ref) q fl cb = Some c"
        "rmv_all_refs n E q (Some (key32 (ref_rsc_id ref))) c = Some cb'"
      using Suc.prems nd Some e by auto
    then show ?thesis using quiet_trans [OF quiet_rmv_ref Suc.IH] by blast
  qed
qed simp

lemma restart_ckpt:
  assumes inv: "gld_inv cb" and act: "ha_state cb = SA_AMF_HA_ACTIVE"
    and f: "find_node cb (m_NCS_NODE_ID_FROM_MDS_DEST dest) = Some q" and nd: "nodes cb q = Some nd"
    and run: "gld_process_tmr_node_restart_wait_timeout E dest cb = Some (cb', rc)"
  shows "ckpts cb' = ckpts cb @ [A2S_GLND_DOWN (gn_dest_id nd)]
      \<and> node_map cb' = (node_map cb)(m_NCS_NODE_ID_FROM_MDS_DEST dest := None)"
proof -
  let ?c1 = "gld_emit (GLD_CKPT (A2S_GLND_DOWN (gn_dest_id nd))) cb"
  have wf: "gld_wf cb" using inv by (simp add: gld_inv_def)
  have nid: "gn_node_id nd = m_NCS_NODE_ID_FROM_MDS_DEST dest" using f nd wf_find_node [OF wf] by auto
  have inv1: "gld_inv ?c1" "gld_wf ?c1" "nodes ?c1 q = Some nd" using inv wf nd by (simp_all add: inv_emit)
  obtain c2 x where c2: "gld_process_send_non_master_status E q GLND_DOWN_STATE ?c1 = Some (c2, x)"
      "only_outs ?c1 c2" using gld_non_master_status_run [OF inv1(2,3)] by blast
  have inv2: "gld_inv c2" "nodes c2 q = Some nd"
    using inv_only_outs [OF c2(2) inv1(1)] c2(2) inv1(3) by (simp_all add: only_outs_same)
  obtain c3 nd3 where c3: "rmv_all_refs (Suc (length (gn_rsc_info_tree nd))) E q None c2 = Some c3"
      "gld_inv c3" "nodes c3 q = Some nd3" "gn_node_id nd3 = gn_node_id nd"
    using rmv_all_refs_run [OF inv2, of "Suc (length (gn_rsc_info_tree nd))" None E] by auto
  have "del_node q c3 = Some cb'"
    using run f act nd c2(1) c3(1)
    by (auto simp: gld_process_tmr_node_restart_wait_timeout_def simp del: rmv_all_refs.simps)
  from del_node_ckpt [OF _ c3(3) this] c3(2,4) nid
  have "node_map cb' = (node_map c3)(m_NCS_NODE_ID_FROM_MDS_DEST dest := None)" "ckpts cb' = ckpts c3"
    by (simp_all add: gld_inv_def)
  moreover have "quiet ?c1 c3" using quiet_non_master_status [OF c2(1)] quiet_rmv_all_refs [OF c3(1)]
    by (rule quiet_trans)
  ultimately show ?thesis using quiet_ckpts quiet_node_map by (fastforce simp: ckpts_emit ckpt_of_def)
qed

lemma quiet_nxt [simp]: "quiet cb (cb\<lparr>nxt_rsc_id := x\<rparr>)"
  by (rule quietI) simp_all

lemma quiet_add_rsc:
  assumes "gld_add_rsc_info E name rid cb = Some (cb', r, err)"
  shows "quiet cb cb'"
proof -
  obtain c i where gen: "(if rid \<noteq> 0 then Some (cb, rid) else gld_gen_rsc_id cb) = Some (c, i)"
    using assms by (cases "if rid \<noteq> 0 then Some (cb, rid) else gld_gen_rsc_id cb") (auto simp: gld_add_rsc_info_def)
  have g: "quiet cb c"
  proof (cases "rid = 0")
    case True
    then obtain x where "gen_loop (rsc_info_id cb) (nxt_rsc_id cb) (nxt_rsc_id cb) = Some x"
      using gen by (auto simp: gld_gen_rsc_id_def)
    then show ?thesis using gen True by (cases x) (auto simp: gld_gen_rsc_id_def)
  qed (use gen in simp)
  have imm: "quiet c (fst (imm_create E name c))"
    by (auto simp: imm_create_def ckpt_of_def intro: quiet_emit)
  obtain t a where ids: "tbl_add (key32 i) (ge_rsc_ptr E) (rsc_info_id c) = (t, a)" by (rule prod.exhaust)
  obtain u b where nms: "tbl_add (name_key (net_name name))
      \<lparr>map_rsc_id = i, map_rsc_name = net_name name\<rparr> (rsc_map_info c) = (u, b)" by (rule prod.exhaust)
  obtain d e where im: "imm_create E name c = (d, e)" by (rule prod.exhaust)
  have d: "quiet c d" using imm im by simp
  have "quiet c cb'"
  proof -
    have base: "quiet x (x\<lparr>rsc_map_info := m, rsc_info_id := n\<rparr>)" "quiet x (x\<lparr>rsc_info_id := n\<rparr>)"
      "quiet x (x\<lparr>rsc_info_id := n, rsc_map_info := m, rscs := r, rsc_list := l\<rparr>)" for x m n r l
      by (rule quietI; simp)+
    show ?thesis
      using assms gen ids nms im quiet_trans [OF d base(1)] quiet_trans [OF d base(3)] base(2)
      by (cases a; cases b) (auto simp: gld_add_rsc_info_def Let_def split: if_splits)
  qed
  with g show ?thesis by (rule quiet_trans)
qed

lemma quiet_find_add:
  assumes "gld_find_add_rsc_name E name rid flag cb = Some (cb', r, err)"
  shows "quiet cb cb'"
proof -
  obtain x where x: "find_rsc_by_name cb name = Some x" using assms by (auto simp: gld_find_add_rsc_name_def)
  show ?thesis
    using assms x quiet_rsc_upd quiet_add_rsc
    by (cases x) (auto simp: gld_find_add_rsc_name_def split: if_splits)
qed

lemma quiet_linked: "nodes cb q = Some nd \<Longrightarrow> quiet cb (linked p q ri nd cb)"
  unfolding linked_def by (erule quiet_node) simp

lemma quiet_join:
  assumes "gld_wf cb" and "rscs cb p = Some ri" and "nodes cb q = Some nd"
    and "join_node E q p (gn_node_id nd) cb = Some (cb', sent)"
  shows "quiet cb cb'"
proof (cases "has_node (gn_node_id nd) (gr_node_list ri)")
  case True
  then show ?thesis using join_old_run [OF assms(1-3)] assms(4) by simp
next
  case False
  then show ?thesis using join_new_run [OF assms(1-3)] assms(4) quiet_trans [OF quiet_linked [OF assms(3)] quiet_snd]
    by auto
qed

lemma node_for_open_ckpt:
  assumes inv: "gld_inv cb" and env: "gld_env_ok E cb"
    and run: "(case find_node cb (m_NCS_NODE_ID_FROM_MDS_DEST fr) of
         Some q \<Rightarrow> Some (cb, q) | None \<Rightarrow> gld_add_glnd_node E fr cb) = Some (cb0, q)"
  shows "node_map cb0 = (node_map cb)(m_NCS_NODE_ID_FROM_MDS_DEST fr \<mapsto> node_dest cb fr)
      \<and> ckpts cb0 = ckpts cb"
proof (cases "find_node cb (m_NCS_NODE_ID_FROM_MDS_DEST fr)")
  case (Some x)
  have wf: "gld_wf cb" using inv by (simp add: gld_inv_def)
  obtain nd where "nodes cb x = Some nd" using Some wf_find_node [OF wf] by auto
  then show ?thesis using Some run by (auto simp: node_map_def node_dest_def fun_eq_iff)
next
  case None
  let ?nid = "m_NCS_NODE_ID_FROM_MDS_DEST fr"
  have wf: "gld_wf cb" using inv by (simp add: gld_inv_def)
  obtain t where t: "tbl_add (key32 ?nid) (ge_node_ptr E) (glnd_details cb) = (t, NCSCC_RC_SUCCESS)"
      "cb0 = cb\<lparr>glnd_details := t, nodes := (nodes cb)(ge_node_ptr E \<mapsto> new_node fr)\<rparr>"
    using None run by (auto simp: gld_add_glnd_node_def Let_def split: prod.split_asm rc.split_asm)
  have "node_map cb0 = (node_map cb)(gn_node_id (new_node fr) \<mapsto> gn_dest_id (new_node fr))"
    by (rule node_map_add [OF wf, where q = "ge_node_ptr E"])
       (use t env tbl_add_SuccessD(3) [OF t(1)] wf in
         \<open>simp_all add: gld_env_ok_def new_node_def gld_wf_def nodes_wf_def\<close>)
  then show ?thesis using t None by (simp add: new_node_def node_dest_def)
qed

lemma open_ckpt:
  assumes inv: "gld_inv cb" and env: "gld_env_ok E cb" and nz: "m_NCS_NODE_ID_FROM_MDS_DEST fr \<noteq> 0"
    and up: "ge_up E (node_dest cb fr)"
    and run: "gld_rsc_open E fr info cb = Some (cb', rc)"
  shows "if rc = NCSCC_RC_SUCCESS
     then (\<exists>p ri. rscs cb' p = Some ri \<and> gr_lck_name ri = ro_rsc_name info
          \<and> ckpts cb' = ckpts cb @ [A2S_RSC_OPEN (ro_rsc_name info) (gr_rsc_id ri) fr (saf_rsc_creation_time ri)]
          \<and> node_map cb' = (node_map cb)(m_NCS_NODE_ID_FROM_MDS_DEST fr \<mapsto> node_dest cb fr))
     else ckpts cb' = ckpts cb \<and> node_map cb' = node_map cb"
proof -
  let ?nid = "m_NCS_NODE_ID_FROM_MDS_DEST fr" and ?name = "ro_rsc_name info"
  obtain cb0 q nd where A: "(case find_node cb ?nid of
         Some q \<Rightarrow> Some (cb, q) | None \<Rightarrow> gld_add_glnd_node E fr cb) = Some (cb0, q)"
    and inv0: "gld_inv cb0" and env0: "rsc_env_ok E cb0"
    and nd: "nodes cb0 q = Some nd" "gn_node_id nd = ?nid" "gn_dest_id nd = node_dest cb fr"
    by (rule node_for_open [OF inv env nz])
  note map0 = node_for_open_ckpt [OF inv env A]
  obtain cb1 r err where B: "gld_find_add_rsc_name E ?name (ro_rsc_id info) (ro_flag info) cb0 = Some (cb1, r, err)"
    and wf1: "gld_wf cb1" and ns1: "nodes cb1 = nodes cb0"
    and res: "case r of
           None \<Rightarrow> err \<noteq> SA_AIS_OK \<and> abs_dir cb1 = abs_dir cb0 \<and> live_wf cb1 \<and> abs_dir cb0 ?name = None
         | Some p \<Rightarrow> err = SA_AIS_OK \<and> (\<exists>ri. rscs cb1 p = Some ri \<and> found (abs_dir cb0) ?name ri
              \<and> abs_dir cb1 = (abs_dir cb0)(?name \<mapsto> dir_of ri)
              \<and> (\<forall>x r. rscs cb1 x = Some r \<longrightarrow> x \<noteq> p \<longrightarrow> gr_node_list r = [] \<longrightarrow> gr_can_orphan r))"
    using find_add_run [OF inv0 env0, of ?name "ro_rsc_id info" "ro_flag info"] by blast
  have nd1: "nodes cb1 q = Some nd" using nd ns1 by simp
  have q1: "quiet cb0 cb1" by (rule quiet_find_add [OF B])
  show ?thesis
  proof (cases r)
    case None
    obtain m where m: "(if find_node cb ?nid = None then del_node q (gld_emit (GLD_SND (gn_dest_id nd) m) cb1)
          else Some (gld_emit (GLD_SND (gn_dest_id nd) m) cb1)) = Some cb'" and rc: "rc = NCSCC_RC_FAILURE"
      using run A B None nd1 by (auto simp: gld_rsc_open_def Let_def)
    let ?c2 = "gld_emit (GLD_SND (gn_dest_id nd) m) cb1"
    have q2: "quiet cb0 ?c2" using q1 quiet_snd by (rule quiet_trans)
    show ?thesis
    proof (cases "find_node cb ?nid = None")
      case True
      have "gld_wf ?c2" "nodes ?c2 q = Some nd" using wf1 nd1 by (simp_all add: inv_emit)
      from del_node_ckpt [OF this] m True nd(2)
      have "node_map cb' = (node_map ?c2)(?nid := None)" "ckpts cb' = ckpts ?c2" by auto
      moreover have "node_map cb ?nid = None" using True by (simp add: node_map_def)
      ultimately show ?thesis using rc map0 quiet_ckpts [OF q2] quiet_node_map [OF q2] by auto
    next
      case False
      then have "node_map cb ?nid = Some (node_dest cb fr)"
        using A nd by (auto simp: node_map_def)
      then show ?thesis using False m rc map0 quiet_ckpts [OF q2] quiet_node_map [OF q2]
        by (auto simp: fun_upd_idem)
    qed
  next
    case (Some p)
    with res obtain ri where ri: "rscs cb1 p = Some ri" "gr_lck_name ri = ?name"
      "\<forall>x r. rscs cb1 x = Some r \<longrightarrow> x \<noteq> p \<longrightarrow> gr_node_list r = [] \<longrightarrow> gr_can_orphan r"
      by (auto simp: found_def)
    obtain cb2 sent ri2 where j: "join_node E q p (gn_node_id nd) cb1 = Some (cb2, sent)"
        "rscs cb2 p = Some ri2" "gr_lck_name ri2 = gr_lck_name ri" "\<not> sent \<Longrightarrow> \<not> ge_up E (gn_dest_id nd)"
      by (rule join_run [OF wf1 ri(1) nd1 ri(3), of E]) blast
    then have sent: sent using up nd(3) by auto
    have "quiet cb0 cb2" using q1 quiet_join [OF wf1 ri(1) nd1 j(1)] by (rule quiet_trans)
    then have m2: "ckpts cb2 = ckpts cb0" "node_map cb2 = node_map cb0"
      by (simp_all add: quiet_ckpts quiet_node_map)
    have "cb' = gld_emit (GLD_CKPT (A2S_RSC_OPEN (gr_lck_name ri2) (gr_rsc_id ri2) fr
                   (saf_rsc_creation_time ri2))) cb2" "rc = NCSCC_RC_SUCCESS"
      using run A B Some j(1,2) sent nd(2) by (auto simp: gld_rsc_open_def Let_def)
    then show ?thesis using j(2,3) ri(2) m2 map0
      by (auto simp: ckpts_emit ckpt_of_def inv_emit)
  qed
qed

end
