(* ===== verification/Gld_Sb_Run.thy ===== *)
theory Gld_Sb_Run
  imports Gld_Replica
begin

text \<open>
  The handlers of the standby director run on a consistent control block: they do not fault,
  they keep it consistent, and their effect on the directory and on the node addresses is the
  one of the abstract operation.
\<close>

section \<open>Open\<close>

lemma sb_add_rsc_run:
  assumes inv: "gld_inv cb" and env: "rsc_env_ok E cb" and ha: "ha_state cb \<noteq> SA_AMF_HA_ACTIVE"
    and rid: "rid \<noteq> 0" and nzn: "\<not> zero_key (name_key (net_name name))" and none: "abs_dir cb name = None"
    and new: "\<forall>n e. abs_dir cb n = Some e \<longrightarrow> de_id e \<noteq> rid"
  shows "\<exists>cb'. gld_add_rsc_info E name rid cb = Some (cb', Some (ge_rsc_ptr E), SA_AIS_OK)
      \<and> rscs cb' (ge_rsc_ptr E) = Some (new_rsc rid name (ge_time E))"
proof -
  have wf: "gld_wf cb" using inv by (simp add: gld_inv_def)
  have "tbl_get (rsc_info_id cb) (key32 rid) = None"
  proof (rule ccontr)
    assume "tbl_get (rsc_info_id cb) (key32 rid) \<noteq> None"
    then obtain p ri where "rscs cb p = Some ri" and "gr_rsc_id ri = rid"
      using wf by (auto simp: gld_wf_def ids_wf_def)
    then show False using new abs_dir_Some [OF wf] by (force simp: dir_of_def)
  qed
  then obtain t where t: "tbl_add (key32 rid) (ge_rsc_ptr E) (rsc_info_id cb) = (t, NCSCC_RC_SUCCESS)"
    using rid by (simp add: tbl_add_def)
  have "tbl_get (rsc_map_info cb) (name_key (net_name name)) = None"
  proof (rule ccontr)
    assume "tbl_get (rsc_map_info cb) (name_key (net_name name)) \<noteq> None"
    then obtain p ri where "rscs cb p = Some ri" and "gr_lck_name ri = name"
      using wf by (auto simp: gld_wf_def names_wf_def)
    then show False using none abs_dir_Some [OF wf] by force
  qed
  with nzn obtain u where u: "tbl_add (name_key (net_name name))
      \<lparr>map_rsc_id = rid, map_rsc_name = net_name name\<rparr> (rsc_map_info cb) = (u, NCSCC_RC_SUCCESS)"
    by (simp add: tbl_add_def)
  show ?thesis using rid t u ha
    by (simp add: gld_add_rsc_info_def imm_create_def Let_def del: bind_Some_iff)
qed

text \<open>A name the director has a resource for is not the all-zero one.\<close>

lemma wf_name_nonzero:
  "gld_wf cb \<Longrightarrow> rscs cb p = Some ri \<Longrightarrow> \<not> zero_key (name_key (net_name (gr_lck_name ri)))"
proof
  assume wf: "gld_wf cb" and p: "rscs cb p = Some ri" and z: "zero_key (name_key (net_name (gr_lck_name ri)))"
  have "tbl_wf (rsc_map_info cb)" using wf by (simp add: gld_wf_def names_wf_def)
  with tbl_get_SomeD [OF wf_name_get [OF wf p]] z show False by (force simp: tbl_wf_def)
qed

lemma sb_find_add_run:
  assumes inv: "gld_inv cb" and env: "rsc_env_ok E cb" and ha: "ha_state cb \<noteq> SA_AMF_HA_ACTIVE"
    and rid: "rid \<noteq> 0" and nzn: "\<not> zero_key (name_key (net_name name))"
    and new: "abs_dir cb name = None \<longrightarrow> (\<forall>n e. abs_dir cb n = Some e \<longrightarrow> de_id e \<noteq> rid)"
  shows "\<exists>cb' p ri. gld_find_add_rsc_name E name rid 0 cb = Some (cb', Some p, SA_AIS_OK)
      \<and> gld_wf cb' \<and> nodes cb' = nodes cb \<and> glnd_details cb' = glnd_details cb
      \<and> ha_state cb' = ha_state cb
      \<and> rscs cb' p = Some ri \<and> found (abs_dir cb) name ri
      \<and> (abs_dir cb name = None \<longrightarrow> gr_rsc_id ri = rid)
      \<and> abs_dir cb' = (abs_dir cb)(name \<mapsto> dir_of ri)
      \<and> (\<forall>x r. rscs cb' x = Some r \<longrightarrow> x \<noteq> p \<longrightarrow> gr_node_list r = [] \<longrightarrow> gr_can_orphan r)"
proof -
  have wf: "gld_wf cb" using inv by (simp add: gld_inv_def)
  obtain cb' r err where run: "gld_find_add_rsc_name E name rid 0 cb = Some (cb', r, err)"
    and fr: "gld_wf cb'" "nodes cb' = nodes cb" "glnd_details cb' = glnd_details cb" "ha_state cb' = ha_state cb"
    and res: "case r of
           None \<Rightarrow> err \<noteq> SA_AIS_OK \<and> abs_dir cb' = abs_dir cb \<and> live_wf cb' \<and> abs_dir cb name = None
         | Some p \<Rightarrow> err = SA_AIS_OK \<and> (\<exists>ri. rscs cb' p = Some ri \<and> found (abs_dir cb) name ri
              \<and> abs_dir cb' = (abs_dir cb)(name \<mapsto> dir_of ri)
              \<and> (\<forall>x r. rscs cb' x = Some r \<longrightarrow> x \<noteq> p \<longrightarrow> gr_node_list r = [] \<longrightarrow> gr_can_orphan r))"
    using find_add_run [OF inv env, of name rid 0] by blast
  have new_rsc: "r = Some (ge_rsc_ptr E) \<and> rscs cb' (ge_rsc_ptr E) = Some (new_rsc rid name (ge_time E))"
    if none: "abs_dir cb name = None"
  proof -
    obtain c where c: "gld_add_rsc_info E name rid cb = Some (c, Some (ge_rsc_ptr E), SA_AIS_OK)"
        "rscs c (ge_rsc_ptr E) = Some (new_rsc rid name (ge_time E))"
      using sb_add_rsc_run [OF inv env ha rid nzn none] new none by blast
    have "find_rsc_by_name cb name = Some None"
      using find_by_name_run [OF wf, of name] none abs_dir_Some [OF wf] by (force split: option.split_asm)
    then have "gld_find_add_rsc_name E name rid 0 cb = Some (c, Some (ge_rsc_ptr E), SA_AIS_OK)"
      using ha c(1) by (simp add: gld_find_add_rsc_name_def)
    with run c(2) show ?thesis by simp
  qed
  then obtain p where p: "r = Some p" using res by (cases r) auto
  then obtain ri where ri: "rscs cb' p = Some ri" "found (abs_dir cb) name ri"
      "abs_dir cb' = (abs_dir cb)(name \<mapsto> dir_of ri)"
      "\<forall>x r. rscs cb' x = Some r \<longrightarrow> x \<noteq> p \<longrightarrow> gr_node_list r = [] \<longrightarrow> gr_can_orphan r"
      "err = SA_AIS_OK" using res by auto
  moreover have "abs_dir cb name = None \<longrightarrow> gr_rsc_id ri = rid"
    using new_rsc p ri(1) by (auto simp: new_rsc_def)
  ultimately show ?thesis
    using run fr p by (intro exI [of _ cb'] exI [of _ p] exI [of _ ri]) simp
qed

text \<open>The tail of the handler: the node joins the resource, as on the active side.\<close>

lemma sb_join_run:
  assumes wf: "gld_wf cb" and p: "rscs cb p = Some ri" and q: "nodes cb q = Some nd"
    and live: "\<forall>x r. rscs cb x = Some r \<longrightarrow> x \<noteq> p \<longrightarrow> gr_node_list r = [] \<longrightarrow> gr_can_orphan r"
  shows "\<exists>cb'. (do { cb \<leftarrow> gld_rsc_add_node_ref q p cb;
         ri \<leftarrow> rscs cb p;
         if gn_node_id nd \<in> nl_node_id ` set (gr_node_list ri) then Some (cb, NCSCC_RC_SUCCESS)
         else do {
           nd' \<leftarrow> nodes cb q;
           let nl = gr_node_list ri @ [\<lparr>nl_dest_id = gn_dest_id nd', nl_node_id = gn_node_id nd\<rparr>];
           Some (cb\<lparr>rscs := (rscs cb)(p \<mapsto> ri\<lparr>gr_node_list := nl\<rparr>)\<rparr>, NCSCC_RC_SUCCESS) } })
       = Some (cb', NCSCC_RC_SUCCESS)
     \<and> gld_inv cb' \<and> ha_state cb' = ha_state cb \<and> quiet cb cb'
     \<and> abs_dir cb' = dir_join (gr_lck_name ri) (gr_rsc_id ri)
           \<lparr>nl_dest_id = gn_dest_id nd, nl_node_id = gn_node_id nd\<rparr> (abs_dir cb)"
proof (cases "has_node (gn_node_id nd) (gr_node_list ri)")
  case True
  then have "gr_node_list ri \<noteq> []" by (auto simp: has_node_def)
  then have "live_wf cb" unfolding live_wf_def using live p by (metis option.inject)
  moreover have "abs_dir cb = dir_join (gr_lck_name ri) (gr_rsc_id ri)
      \<lparr>nl_dest_id = gn_dest_id nd, nl_node_id = gn_node_id nd\<rparr> (abs_dir cb)"
    using abs_dir_Some [OF wf p] True by (simp add: dir_join_def dir_of_def fun_upd_idem)
  ultimately show ?thesis using add_ref_old [OF wf p q True] p True wf by (simp add: has_node_def gld_inv_def)
next
  case False
  have "live_wf (linked p q ri nd cb)" using live by (simp add: live_wf_def linked_def)
  then have "gld_inv (linked p q ri nd cb)" using linked_wf [OF wf p q False] by (simp add: gld_inv_def)
  moreover have "cb\<lparr>nodes := nodes (linked p q ri nd cb), rscs := (rscs cb)(p \<mapsto> ri\<lparr>gr_node_list :=
      gr_node_list ri @ [\<lparr>nl_dest_id = gn_dest_id nd, nl_node_id = gn_node_id nd\<rparr>]\<rparr>)\<rparr> = linked p q ri nd cb"
    by (simp add: linked_def)
  moreover have "nodes (linked p q ri nd cb) q = Some (nd\<lparr>gn_rsc_info_tree := tbl_insert (key32 (gr_rsc_id ri))
      \<lparr>ref_rsc_id = gr_rsc_id ri, ref_rsc_info = p\<rparr> (gn_rsc_info_tree nd)\<rparr>)"
    "ha_state (linked p q ri nd cb) = ha_state cb" by (simp_all add: linked_def)
  ultimately show ?thesis
    using add_ref_new [OF wf p q False] p q False linked_dir [OF wf p q False] quiet_linked [OF q]
    by (simp add: has_node_def del: bind_Some_iff)
qed

lemma sb_open_run:
  assumes inv: "gld_inv cb" and env: "gld_env_ok E cb" and nz: "m_NCS_NODE_ID_FROM_MDS_DEST dest \<noteq> 0"
    and ha: "ha_state cb \<noteq> SA_AMF_HA_ACTIVE"
    and rid: "rid \<noteq> 0" and nzn: "\<not> zero_key (name_key (net_name name))"
    and new: "abs_dir cb name = None \<longrightarrow> (\<forall>n e. abs_dir cb n = Some e \<longrightarrow> de_id e \<noteq> rid)"
  shows "\<exists>cb'. glsv_gld_standby_rsc_open E name rid dest time cb = Some (cb', NCSCC_RC_SUCCESS)
      \<and> gld_inv cb' \<and> ha_state cb' = ha_state cb
      \<and> abs_dir cb' = dir_join name rid (opener cb dest) (abs_dir cb)
      \<and> node_map cb' = (node_map cb)(m_NCS_NODE_ID_FROM_MDS_DEST dest \<mapsto> node_dest cb dest)"
proof -
  let ?nid = "m_NCS_NODE_ID_FROM_MDS_DEST dest"
  obtain cb0 q nd where A: "(case find_node cb ?nid of
         Some q \<Rightarrow> Some (cb, q) | None \<Rightarrow> gld_add_glnd_node E dest cb) = Some (cb0, q)"
    and inv0: "gld_inv cb0" and dir0: "abs_dir cb0 = abs_dir cb" and env0: "rsc_env_ok E cb0"
    and nd: "nodes cb0 q = Some nd" "gn_node_id nd = ?nid" "gn_dest_id nd = node_dest cb dest"
    and ha0: "ha_state cb0 = ha_state cb"
    by (rule node_for_open [OF inv env nz])
  have map0: "node_map cb0 = (node_map cb)(?nid \<mapsto> node_dest cb dest)"
    using node_for_open_ckpt [OF inv env A] by simp
  obtain cb1 p ri where B: "gld_find_add_rsc_name E name rid 0 cb0 = Some (cb1, Some p, SA_AIS_OK)"
    and wf1: "gld_wf cb1" and ns1: "nodes cb1 = nodes cb0" and ha1: "ha_state cb1 = ha_state cb0"
    and ri: "rscs cb1 p = Some ri" "found (abs_dir cb) name ri"
      "abs_dir cb name = None \<longrightarrow> gr_rsc_id ri = rid"
      "abs_dir cb1 = (abs_dir cb)(name \<mapsto> dir_of ri)"
      "\<forall>x r. rscs cb1 x = Some r \<longrightarrow> x \<noteq> p \<longrightarrow> gr_node_list r = [] \<longrightarrow> gr_can_orphan r"
    using sb_find_add_run [OF inv0 env0 _ rid nzn] ha ha0 new unfolding dir0 by auto
  let ?ri = "ri\<lparr>saf_rsc_creation_time := time\<rparr>" and ?cb2 = "cb1\<lparr>rscs := (rscs cb1)(p \<mapsto> ri\<lparr>saf_rsc_creation_time := time\<rparr>)\<rparr>"
  have sv: "same_view cb1 ?cb2"
    by (rule same_view_rsc [OF ri(1)]) (simp_all add: rsc_shape_def orphan_mark_def)
  have wf2: "gld_wf ?cb2" and dir2: "abs_dir ?cb2 = abs_dir cb1"
    by (rule same_view_wf [OF sv wf1], rule same_view_dir [OF sv wf1])
  have nd2: "nodes ?cb2 q = Some nd" "rscs ?cb2 p = Some ?ri" using nd ns1 by simp_all
  have live2: "\<forall>x r. rscs ?cb2 x = Some r \<longrightarrow> x \<noteq> p \<longrightarrow> gr_node_list r = [] \<longrightarrow> gr_can_orphan r"
    using ri(5) by auto
  obtain cb3 where C: "(do { cb \<leftarrow> gld_rsc_add_node_ref q p ?cb2;
         ri \<leftarrow> rscs cb p;
         if gn_node_id nd \<in> nl_node_id ` set (gr_node_list ri) then Some (cb, NCSCC_RC_SUCCESS)
         else do {
           nd' \<leftarrow> nodes cb q;
           let nl = gr_node_list ri @ [\<lparr>nl_dest_id = gn_dest_id nd', nl_node_id = gn_node_id nd\<rparr>];
           Some (cb\<lparr>rscs := (rscs cb)(p \<mapsto> ri\<lparr>gr_node_list := nl\<rparr>)\<rparr>, NCSCC_RC_SUCCESS) } })
       = Some (cb3, NCSCC_RC_SUCCESS)"
    and D: "gld_inv cb3" "ha_state cb3 = ha_state ?cb2" "quiet ?cb2 cb3"
      "abs_dir cb3 = dir_join (gr_lck_name ?ri) (gr_rsc_id ?ri)
           \<lparr>nl_dest_id = gn_dest_id nd, nl_node_id = gn_node_id nd\<rparr> (abs_dir ?cb2)"
    using sb_join_run [OF wf2 nd2(2) nd2(1) live2] by blast
  have nm: "gr_lck_name ri = name" using ri(2) by (simp add: found_def)
  have "abs_dir cb3 = dir_join name (gr_rsc_id ri) (opener cb dest) (abs_dir cb)"
    using D(4) dir2 ri(4) found_join [OF ri(2)] nm nd by (simp add: opener_def)
  also have "\<dots> = dir_join name rid (opener cb dest) (abs_dir cb)"
    using ri(3) by (auto simp: dir_join_def split: option.split)
  finally have dir3: "abs_dir cb3 = dir_join name rid (opener cb dest) (abs_dir cb)" .
  have "quiet cb0 cb3"
    by (rule quiet_trans [OF quiet_trans [OF quiet_find_add [OF B] quiet_rscs] D(3)])
  then have "node_map cb3 = (node_map cb)(?nid \<mapsto> node_dest cb dest)"
    using map0 by (simp add: quiet_node_map)
  moreover have "glsv_gld_standby_rsc_open E name rid dest time cb = Some (cb3, NCSCC_RC_SUCCESS)"
    using A B C [unfolded nd(2)] ri(1) by (simp add: glsv_gld_standby_rsc_open_def rsc_upd_def Let_def del: bind_Some_iff)
  ultimately show ?thesis using D(1,2) dir3 ha1 ha0 by simp
qed

section \<open>Close and orphan\<close>

lemma sb_close_run:
  assumes inv: "gld_inv cb" and p: "rscs cb p = Some ri" "gr_rsc_id ri = rd_rsc_id d"
    and mem: "has_node (m_NCS_NODE_ID_FROM_MDS_DEST dest) (gr_node_list ri)"
  shows "\<exists>cb'. glsv_gld_standby_rsc_close E d dest cb = Some (cb', NCSCC_RC_SUCCESS) \<and> gld_inv cb'
      \<and> abs_dir cb' = (if rd_lcl_ref_cnt d = 0
           then dir_leave (gr_lck_name ri) (m_NCS_NODE_ID_FROM_MDS_DEST dest) (rd_orphan d) (abs_dir cb)
           else abs_dir cb)
      \<and> ha_state cb' = ha_state cb \<and> node_map cb' = node_map cb"
proof -
  let ?nid = "m_NCS_NODE_ID_FROM_MDS_DEST dest"
  let ?ri = "ri\<lparr>saf_rsc_no_of_users := saf_rsc_no_of_users ri - 1\<rparr>"
  let ?cb = "cb\<lparr>rscs := (rscs cb)(p \<mapsto> ?ri)\<rparr>" and ?ref = "\<lparr>ref_rsc_id = gr_rsc_id ri, ref_rsc_info = p\<rparr>"
  have wf: "gld_wf cb" using inv by (simp add: gld_inv_def)
  obtain q nd where nd: "nodes cb q = Some nd" "gn_node_id nd = ?nid"
    using wf p(1) mem unfolding gld_wf_def members_wf_def has_node_def by (metis (no_types, lifting) image_iff)
  then have q: "find_node cb ?nid = Some q" by (simp add: wf_find_node [OF wf])
  have ref: "tbl_get (gn_rsc_info_tree nd) (key32 (rd_rsc_id d)) = Some ?ref"
    using ref_iff_member [OF wf p(1) nd(1)] mem nd p(2) by simp
  have sv: "same_view cb ?cb"
    by (rule same_view_rsc [OF p(1)]) (simp_all add: rsc_shape_def orphan_mark_def)
  have inv1: "gld_inv ?cb" and dir1: "abs_dir ?cb = abs_dir cb"
    by (rule same_view_inv [OF sv inv], rule same_view_dir [OF sv wf])
  then have wf1: "gld_wf ?cb" and live1: "live_wf ?cb" by (simp_all add: gld_inv_def)
  have p1: "rscs ?cb p = Some ?ri" and nd1: "nodes ?cb q = Some nd" using nd by simp_all
  obtain cb2 where r: "gld_rsc_rmv_node_ref E p (Some ?ref) q (rd_orphan d) ?cb = Some cb2" "gld_inv cb2"
      "abs_dir cb2 = dir_leave (gr_lck_name ?ri) (gn_node_id nd) (rd_orphan d) (abs_dir ?cb)"
      "ha_state cb2 = ha_state ?cb"
    using rmv_ref_run [OF wf1 p1 nd1, of ?ref E "rd_orphan d"] mem nd live1 by (auto simp: live_wf_def)
  have "node_map cb2 = node_map cb"
    using quiet_node_map [OF quiet_rmv_ref [OF r(1)]] by simp
  then show ?thesis using q nd ref p r inv1 dir1
    by (cases "rd_lcl_ref_cnt d = 0") (simp_all add: glsv_gld_standby_rsc_close_def rsc_upd_def)
qed

lemma sb_set_orphan_run:
  assumes inv: "gld_inv cb" and p: "rscs cb p = Some ri" "gr_rsc_id ri = rd_rsc_id d"
    and mem: "has_node (m_NCS_NODE_ID_FROM_MDS_DEST dest) (gr_node_list ri)"
  shows "\<exists>cb'. glsv_gld_standby_rsc_set_orphan d dest cb = Some (cb', NCSCC_RC_SUCCESS) \<and> gld_inv cb'
      \<and> abs_dir cb' = dir_set_orphan (gr_lck_name ri) (rd_orphan d) (rd_lck_mode d) (abs_dir cb)
      \<and> ha_state cb' = ha_state cb \<and> node_map cb' = node_map cb"
proof -
  obtain cb' where run: "gld_rsc_set_orphan dest d cb = Some (cb', NCSCC_RC_SUCCESS)"
    and cb': "gld_inv cb'" "ha_state cb' = ha_state cb"
      "abs_dir cb' = dir_set_orphan (gr_lck_name ri) (rd_orphan d) (rd_lck_mode d) (abs_dir cb)"
    using set_orphan_run [OF inv p mem] by blast
  obtain q c x where "find_node cb (m_NCS_NODE_ID_FROM_MDS_DEST dest) = Some q"
    and c: "gld_rsc_ref_set_orphan q (rd_rsc_id d) (rd_orphan d) (rd_lck_mode d) cb = Some (c, NCSCC_RC_SUCCESS)"
      "cb' = gld_emit (GLD_CKPT (A2S_SET_ORPHAN d x)) c"
    using run by (auto simp: gld_rsc_set_orphan_def split: option.split_asm if_splits)
  then show ?thesis using cb' quiet_node_map [OF quiet_ref_set_orphan [OF c(1)]]
    by (simp add: glsv_gld_standby_rsc_set_orphan_def inv_emit)
qed

section \<open>A node director reports itself operational\<close>

lemma sb_operational_run:
  assumes inv: "gld_inv cb"
  shows "\<exists>cb'. glsv_gld_standby_glnd_operational dest cb = Some (cb', NCSCC_RC_SUCCESS) \<and> gld_inv cb'
      \<and> ha_state cb' = ha_state cb
      \<and> (if find_node cb (m_NCS_NODE_ID_FROM_MDS_DEST dest) = None then cb' = cb
         else abs_dir cb' = dir_dest (m_NCS_NODE_ID_FROM_MDS_DEST dest) dest (abs_dir cb)
           \<and> node_map cb' = (node_map cb)(m_NCS_NODE_ID_FROM_MDS_DEST dest \<mapsto> dest))"
proof (cases "find_node cb (m_NCS_NODE_ID_FROM_MDS_DEST dest)")
  case None
  then show ?thesis using inv by (simp add: glsv_gld_standby_glnd_operational_def)
next
  case (Some q)
  let ?nid = "m_NCS_NODE_ID_FROM_MDS_DEST dest"
  have wf: "gld_wf cb" using inv by (simp add: gld_inv_def)
  obtain nd where nd: "nodes cb q = Some nd" "gn_node_id nd = ?nid"
    using Some wf_find_node [OF wf] by auto
  let ?nd = "nd\<lparr>gn_dest_id := dest, gn_restart_timer := fst (gld_stop_tmr (gn_restart_timer nd)),
      gn_status := GLND_OPERATIONAL_STATE\<rparr>"
  let ?os = "snd (gld_stop_tmr (gn_restart_timer nd))"
  let ?c1 = "gld_emits ?os (cb\<lparr>nodes := (nodes cb)(q \<mapsto> ?nd)\<rparr>)"
  define c2 where "c2 = moved q ?nd dest (gld_emits ?os cb)"
  have c2': "operational_state q dest nd cb = gld_emit (GLD_CKPT (A2S_GLND_OPERATIONAL dest)) c2"
    by (simp add: operational_state_def c2_def)
  have "list_wf ?c1" using wf by (simp add: gld_wf_def list_wf_def gld_emits_def)
  then have set: "set_dest_all ?nid dest ?c1 = Some c2"
    using nd(2) by (simp add: set_dest_all_run c2_def moved_def gld_emits_def)
  have props: "gld_inv c2" "abs_dir c2 = dir_dest ?nid dest (abs_dir cb)" "ha_state c2 = ha_state cb"
    using operational_state_props(1,2,4) [OF inv nd] nd(2) unfolding c2' by (simp_all add: inv_emit)
  have "node_map c2 = node_map (cb\<lparr>nodes := (nodes cb)(q \<mapsto> ?nd)\<rparr>)"
    using quiet_node_map [OF quiet_set_dest_all [OF set]] by simp
  also have "\<dots> = (node_map cb)(?nid \<mapsto> dest)"
    using node_map_upd [OF wf nd(1), of "cb\<lparr>nodes := (nodes cb)(q \<mapsto> ?nd)\<rparr>" ?nd] nd(2) by simp
  finally show ?thesis using Some nd set props
    by (simp add: glsv_gld_standby_glnd_operational_def split_def Let_def)
qed

section \<open>A node goes down\<close>

text \<open>What the handler does to the directory: one orphan mark for all resources of the node.\<close>

definition dir_drop :: "u32 \<Rightarrow> bool \<Rightarrow> directory \<Rightarrow> directory" where
  "dir_drop nid flag d name =
     (case d name of
        None \<Rightarrow> None
      | Some e \<Rightarrow>
          if has_node nid (de_nodes e)
          then let ns = rmv_node nid (de_nodes e)
               in if ns = [] \<and> \<not> flag then None else Some (e\<lparr>de_nodes := ns, de_orphan := flag\<rparr>)
          else Some e)"

lemma dir_drop_step:
  assumes "d name = Some e" and "has_node nid (de_nodes e)" and "distinct (map nl_node_id (de_nodes e))"
  shows "dir_drop nid flag (dir_leave name nid flag d) = dir_drop nid flag d"
proof
  fix n
  show "dir_drop nid flag (dir_leave name nid flag d) n = dir_drop nid flag d n"
    using assms has_node_rmv [OF assms(3), of nid nid]
    by (cases "n = name") (auto simp: dir_drop_def dir_leave_def Let_def)
qed

lemma dir_drop_none:
  assumes "\<And>n e. d n = Some e \<Longrightarrow> \<not> has_node nid (de_nodes e)"
  shows "dir_drop nid flag d = d"
  using assms by (auto simp: dir_drop_def fun_eq_iff split: option.split)

text \<open>
  The copy is exact after a node goes down precisely when every resource of the node has the
  orphan mark the handler reads.
\<close>

lemma dir_drop_eq_down:
  "dir_drop nid flag d = dir_down nid d \<longleftrightarrow>
     (\<forall>n e. d n = Some e \<longrightarrow> has_node nid (de_nodes e) \<longrightarrow> de_orphan e = flag)"
proof
  assume eq: "dir_drop nid flag d = dir_down nid d"
  show "\<forall>n e. d n = Some e \<longrightarrow> has_node nid (de_nodes e) \<longrightarrow> de_orphan e = flag"
  proof (intro allI impI)
    fix n e
    assume "d n = Some e" and "has_node nid (de_nodes e)"
    with fun_cong [OF eq, of n] show "de_orphan e = flag"
      by (cases e) (auto simp: dir_drop_def dir_down_def Let_def split: if_splits)
  qed
next
  assume "\<forall>n e. d n = Some e \<longrightarrow> has_node nid (de_nodes e) \<longrightarrow> de_orphan e = flag"
  then show "dir_drop nid flag d = dir_down nid d"
    by (fastforce simp: dir_drop_def dir_down_def Let_def fun_eq_iff split: option.split)
qed

lemma sb_rmv_all_refs_run:
  assumes "gld_inv cb" and "nodes cb q = Some nd" and "length (gn_rsc_info_tree nd) < n"
    and "\<forall>k. ko = Some k \<longrightarrow> (\<forall>e \<in> set (gn_rsc_info_tree nd). k < fst e)"
  shows "\<exists>cb' nd'. sb_rmv_all_refs n E q flag ko cb = Some cb' \<and> gld_inv cb' \<and> nodes cb' q = Some nd'
      \<and> gn_rsc_info_tree nd' = [] \<and> gn_node_id nd' = gn_node_id nd
      \<and> abs_dir cb' = dir_drop (gn_node_id nd) flag (abs_dir cb) \<and> ha_state cb' = ha_state cb
      \<and> quiet cb cb'"
  using assms
proof (induction n arbitrary: cb nd ko)
  case (Suc n)
  have wf: "gld_wf cb" using Suc.prems(1) by (simp add: gld_inv_def)
  show ?case
  proof (cases "gn_rsc_info_tree nd")
    case Nil
    have "dir_drop (gn_node_id nd) flag (abs_dir cb) = abs_dir cb"
      by (rule dir_drop_none) (rule no_refs_no_member [OF wf Suc.prems(2) Nil])
    then show ?thesis using Nil Suc.prems by (simp add: tbl_getnext_def split: option.splits)
  next
    case (Cons e rest)
    obtain k ref where e: "e = (k, ref)" by (cases e)
    obtain ri cb1 where ri: "rscs cb (ref_rsc_info ref) = Some ri" "k = key32 (ref_rsc_id ref)"
        "abs_dir cb (gr_lck_name ri) = Some (dir_of ri)" "has_node (gn_node_id nd) (gr_node_list ri)"
        "distinct (map nl_node_id (gr_node_list ri))" "\<forall>x \<in> set rest. k < fst x"
      and rm: "gld_rsc_rmv_node_ref E (ref_rsc_info ref) (Some ref) q flag cb = Some cb1"
        "gld_inv cb1" "abs_dir cb1 = dir_leave (gr_lck_name ri) (gn_node_id nd) flag (abs_dir cb)"
        "nodes cb1 q = Some (nd\<lparr>gn_rsc_info_tree := rest\<rparr>)" "ha_state cb1 = ha_state cb"
      by (rule drop_first_ref [OF Suc.prems(1,2) Cons [unfolded e], of E]) blast
    have dd: "dir_drop (gn_node_id nd) flag (abs_dir cb1) = dir_drop (gn_node_id nd) flag (abs_dir cb)"
      using dir_drop_step [of "abs_dir cb" "gr_lck_name ri" "dir_of ri"] ri(3-5) rm(3) by (simp add: dir_of_def)
    obtain cb' nd' where IH: "sb_rmv_all_refs n E q flag (Some k) cb1 = Some cb'" "gld_inv cb'"
        "nodes cb' q = Some nd'" "gn_rsc_info_tree nd' = []" "gn_node_id nd' = gn_node_id nd"
        "abs_dir cb' = dir_drop (gn_node_id nd) flag (abs_dir cb1)" "ha_state cb' = ha_state cb1" "quiet cb1 cb'"
      using Suc.IH [OF rm(2,4), of "Some k"] ri(6) Suc.prems(3) Cons by auto
    have "quiet cb cb'" by (rule quiet_trans [OF quiet_rmv_ref [OF rm(1)] IH(8)])
    then show ?thesis
      using Suc.prems(2) getnext_head [OF wf Suc.prems(2) Cons Suc.prems(4)] e ri(2) rm(1,5) dd IH(1-7)
      by (simp del: bind_Some_iff)
  qed
qed simp

lemma sb_down_run:
  assumes inv: "gld_inv cb" and f: "find_node cb (m_NCS_NODE_ID_FROM_MDS_DEST dest) = Some q"
  shows "\<exists>cb'. glsv_gld_standby_mds_glnd_down E dest cb = Some (cb', NCSCC_RC_SUCCESS) \<and> gld_inv cb'
      \<and> abs_dir cb' = dir_drop (m_NCS_NODE_ID_FROM_MDS_DEST dest) (a2s_down_orphan dest) (abs_dir cb)
      \<and> ha_state cb' = ha_state cb
      \<and> node_map cb' = (node_map cb)(m_NCS_NODE_ID_FROM_MDS_DEST dest := None)"
proof -
  let ?nid = "m_NCS_NODE_ID_FROM_MDS_DEST dest" and ?fl = "a2s_down_orphan dest"
  have wf: "gld_wf cb" using inv by (simp add: gld_inv_def)
  obtain nd where nd: "nodes cb q = Some nd" "gn_node_id nd = ?nid" using f wf_find_node [OF wf] by auto
  obtain c nd1 where r: "sb_rmv_all_refs (Suc (length (gn_rsc_info_tree nd))) E q ?fl None cb = Some c"
      "gld_inv c" "nodes c q = Some nd1" "gn_rsc_info_tree nd1 = []" "gn_node_id nd1 = ?nid"
      "abs_dir c = dir_drop ?nid ?fl (abs_dir cb)" "ha_state c = ha_state cb" "quiet cb c"
    using sb_rmv_all_refs_run [OF inv nd(1), of "Suc (length (gn_rsc_info_tree nd))" None E ?fl] nd(2) by auto
  define d where "d = (if gt_tmr_id (gn_restart_timer nd1) \<noteq> 0
      then gld_emits (snd (gld_stop_tmr (gn_restart_timer nd1))) c else c)"
  have d: "same_view c d" "nodes d = nodes c" "glnd_details d = glnd_details c" "node_map d = node_map c"
    by (simp_all add: d_def) (simp_all add: gld_emits_def)
  have inv_d: "gld_inv d" "abs_dir d = abs_dir c" "ha_state d = ha_state c"
    using same_view_inv [OF d(1) r(2)] same_view_dir [OF d(1)] r(2) same_view_ha [OF d(1)]
    by (simp_all add: gld_inv_def)
  have wfd: "gld_wf d" and nd1: "nodes d q = Some nd1" using inv_d r(3) d(2) by (simp_all add: gld_inv_def)
  let ?e = "d\<lparr>glnd_details := fst (tbl_del (key32 (gn_node_id nd1)) (glnd_details d)), nodes := (nodes d)(q := None)\<rparr>"
  have get: "tbl_get (glnd_details d) (key32 (gn_node_id nd1)) = Some q" by (rule wf_node_get [OF wfd nd1])
  have del: "tbl_del_node (key32 (gn_node_id nd1)) q (glnd_details d) = tbl_del (key32 (gn_node_id nd1)) (glnd_details d)"
    using get by (simp add: tbl_del_node_def)
  obtain x where x: "del_node q d = Some x" "gld_inv x" "abs_dir x = abs_dir d" "ha_state x = ha_state d"
    using del_node_run [OF inv_d(1) nd1] r(4) by (auto simp: tbl_get_def)
  have "x = ?e" using x(1) nd1 get by (simp add: del_node_def tbl_del_node_def tbl_del_def)
  moreover have "node_map ?e = (node_map d)(?nid := None)"
    using node_map_del [OF wfd nd1, of ?e] r(5) by simp
  ultimately show ?thesis
    using f nd(1) r(1,3,5,6,7) inv_d x d(4) quiet_node_map [OF r(8)] del
    by (simp add: glsv_gld_standby_mds_glnd_down_def d_def [symmetric] Let_def
             del: bind_Some_iff sb_rmv_all_refs.simps)
qed

end
