(* ===== verification/Gld_Mirror.thy ===== *)
theory Gld_Mirror
  imports Gld_Sb_Run
begin

text \<open>
  The two directors together: the active one handles an event, the standby one replays the
  checkpoint messages that this added to the trace. For each event, the standby director ends
  up with the same directory and node addresses as the active one.
\<close>

section \<open>What the copy shares\<close>

lemma mirror_member:
  assumes "gld_wf cb" and "mirror cb sb" and "rscs cb p = Some ri"
  obtains p' ri' where "rscs sb p' = Some ri'" and "dir_of ri' = dir_of ri" and "gr_lck_name ri' = gr_lck_name ri"
proof -
  have "abs_dir sb (gr_lck_name ri) = Some (dir_of ri)"
    using abs_dir_Some [OF assms(1,3)] assms(2) by (simp add: mirror_def)
  then show thesis using that by (metis abs_dir_SomeD)
qed

lemma node_map_None: "gld_wf cb \<Longrightarrow> node_map cb n = None \<longleftrightarrow> find_node cb n = None"
  using wf_find_node [of cb n] by (cases "find_node cb n") (simp_all add: node_map_def, metis)

lemma node_map_SomeD:
  assumes "gld_wf cb" and "node_map cb n = Some d"
  obtains q nd where "find_node cb n = Some q" and "nodes cb q = Some nd" and "gn_dest_id nd = d"
    and "gn_node_id nd = n" and "m_NCS_NODE_ID_FROM_MDS_DEST d = n"
proof -
  obtain q nd where q: "find_node cb n = Some q" "nodes cb q = Some nd" "gn_dest_id nd = d"
    using assms(2) by (auto simp: node_map_def split: option.split_asm)
  moreover have "gn_node_id nd = n" using q wf_find_node [OF assms(1)] by auto
  moreover have "m_NCS_NODE_ID_FROM_MDS_DEST d = n"
    using assms(1) q calculation by (auto simp: gld_wf_def nodes_wf_def)
  ultimately show thesis by (rule that)
qed

lemma node_dest_map:
  "gld_wf cb \<Longrightarrow> node_dest cb fr = (case node_map cb (m_NCS_NODE_ID_FROM_MDS_DEST fr) of None \<Rightarrow> fr | Some d \<Rightarrow> d)"
  by (cases "find_node cb (m_NCS_NODE_ID_FROM_MDS_DEST fr)")
     (auto simp: node_dest_def node_map_def split: option.split)

lemma mirror_find: "gld_wf cb \<Longrightarrow> gld_wf sb \<Longrightarrow> mirror cb sb \<Longrightarrow> find_node sb n = None \<longleftrightarrow> find_node cb n = None"
  using node_map_None [of cb n] node_map_None [of sb n] by (simp add: mirror_def)

lemma mirror_opener: "gld_wf cb \<Longrightarrow> gld_wf sb \<Longrightarrow> mirror cb sb \<Longrightarrow> opener sb fr = opener cb fr \<and> node_dest sb fr = node_dest cb fr"
  by (simp add: opener_def node_dest_map mirror_def)

section \<open>Replaying the checkpoint messages\<close>

definition sb_apply :: "gld_env \<Rightarrow> gld_a2s_evt \<Rightarrow> GLSV_GLD_CB \<Rightarrow> GLSV_GLD_CB option" where
  "sb_apply E m sb = map_option fst (glsv_gld_mbcsv_dec_async_update E m sb)"

definition replay :: "gld_env \<Rightarrow> GLSV_GLD_CB \<Rightarrow> GLSV_GLD_CB \<Rightarrow> GLSV_GLD_CB \<Rightarrow> GLSV_GLD_CB option" where
  "replay E cb cb' sb = for_each (sb_apply E) (drop (length (ckpts cb)) (ckpts cb')) sb"

lemma replay_none: "ckpts cb' = ckpts cb \<Longrightarrow> replay E cb cb' sb = Some sb"
  by (simp add: replay_def)

lemma replay_one:
  "ckpts cb' = ckpts cb @ [m] \<Longrightarrow>
   replay E cb cb' sb = map_option fst (gld_process_standby_evt E m (sb\<lparr>gld_async_cnt := gld_async_cnt sb + 1\<rparr>))"
  by (cases "gld_process_standby_evt E m (sb\<lparr>gld_async_cnt := gld_async_cnt sb + 1\<rparr>)")
     (simp_all add: replay_def sb_apply_def glsv_gld_mbcsv_dec_async_update_def)

text \<open>The count of updates is not part of what the handlers look at.\<close>

lemma same_view_cnt [simp]: "same_view sb (sb\<lparr>gld_async_cnt := n\<rparr>)"
  by (simp add: same_view_def same_shape_def)

lemma cnt_frame:
  "gld_inv sb \<Longrightarrow> gld_inv (sb\<lparr>gld_async_cnt := n\<rparr>)"
  "gld_inv sb \<Longrightarrow> mirror cb (sb\<lparr>gld_async_cnt := n\<rparr>) = mirror cb sb"
  "gld_env_ok E (sb\<lparr>gld_async_cnt := n\<rparr>) = gld_env_ok E sb"
  using same_view_inv [OF same_view_cnt] same_view_dir [OF same_view_cnt, of sb n]
  by (auto simp: mirror_def gld_inv_def gld_env_ok_def rsc_env_ok_def)

text \<open>What an event of the active director leaves behind on the two sides.\<close>

definition copied :: "gld_env \<Rightarrow> GLSV_GLD_CB \<Rightarrow> GLSV_GLD_CB \<Rightarrow> GLSV_GLD_CB \<Rightarrow> bool" where
  "copied E cb cb' sb \<longleftrightarrow>
     (\<exists>sb'. replay E cb cb' sb = Some sb' \<and> gld_inv sb' \<and> ha_state sb' = ha_state sb \<and> mirror cb' sb')"

lemma copied_quiet:
  assumes "gld_inv sb" and "mirror cb sb" and "abs_dir cb' = abs_dir cb" and "node_map cb' = node_map cb"
    and "ckpts cb' = ckpts cb"
  shows "copied E cb cb' sb"
  using assms by (auto simp: copied_def replay_none mirror_def)

lemma copied_one:
  assumes inv: "gld_inv sb" and ck: "ckpts cb' = ckpts cb @ [m]"
    and step: "\<And>s. gld_inv s \<Longrightarrow> abs_dir s = abs_dir sb \<Longrightarrow> node_map s = node_map sb \<Longrightarrow> ha_state s = ha_state sb
        \<Longrightarrow> gld_env_ok E s = gld_env_ok E sb \<Longrightarrow>
        \<exists>s' rc. gld_process_standby_evt E m s = Some (s', rc) \<and> gld_inv s' \<and> ha_state s' = ha_state s
          \<and> abs_dir s' = abs_dir cb' \<and> node_map s' = node_map cb'"
  shows "copied E cb cb' sb"
proof -
  let ?s = "sb\<lparr>gld_async_cnt := gld_async_cnt sb + 1\<rparr>"
  have "gld_inv ?s" "abs_dir ?s = abs_dir sb" "gld_env_ok E ?s = gld_env_ok E sb"
    using cnt_frame(1) [OF inv] same_view_dir [OF same_view_cnt, of sb] inv
    by (simp_all add: gld_inv_def cnt_frame(3))
  with step [of ?s] replay_one [OF ck, of E sb] show ?thesis by (auto simp: copied_def mirror_def)
qed

section \<open>Open\<close>

lemma mirror_open:
  assumes inv: "gld_inv cb" "gld_inv sb" and m: "mirror cb sb" and ha: "ha_state sb \<noteq> SA_AMF_HA_ACTIVE"
    and env: "gld_env_ok E cb" "gld_env_ok E' sb" and nz: "m_NCS_NODE_ID_FROM_MDS_DEST fr \<noteq> 0"
    and up: "ge_up E (node_dest cb fr)" and run: "gld_rsc_open E fr info cb = Some (cb', rc)"
  shows "copied E' cb cb' sb"
proof -
  let ?name = "ro_rsc_name info"
  note ck = open_ckpt [OF inv(1) env(1) nz up run]
  have out: "gld_inv cb'" "open_outcome E fr ?name cb rc (abs_dir cb')"
    using open_run [OF inv(1) env(1) nz, of info] run by auto
  show ?thesis
  proof (cases "rc = NCSCC_RC_SUCCESS")
    case False
    then show ?thesis using ck out(2) up m inv(2) by (intro copied_quiet) (simp_all add: open_outcome_def)
  next
    case True
    then obtain rid p ri where dir: "abs_dir cb' = dir_join ?name rid (opener cb fr) (abs_dir cb)"
      and fresh: "abs_dir cb ?name = None \<longrightarrow> (\<forall>n e. abs_dir cb n = Some e \<longrightarrow> de_id e \<noteq> rid)"
      and p: "rscs cb' p = Some ri" "gr_lck_name ri = ?name"
        "ckpts cb' = ckpts cb @ [A2S_RSC_OPEN ?name (gr_rsc_id ri) fr (saf_rsc_creation_time ri)]"
      and nm: "node_map cb' = (node_map cb)(m_NCS_NODE_ID_FROM_MDS_DEST fr \<mapsto> node_dest cb fr)"
      using out(2) ck by (auto simp: open_outcome_def)
    have wf': "gld_wf cb'" using out(1) by (simp add: gld_inv_def)
    have e: "abs_dir cb' ?name = Some (dir_of ri)" using abs_dir_Some [OF wf' p(1)] p(2) by simp
    have rid: "abs_dir cb ?name = None \<longrightarrow> gr_rsc_id ri = rid"
      using e dir by (auto simp: dir_join_def dir_of_def)
    have nz': "gr_rsc_id ri \<noteq> 0" "\<not> zero_key (name_key (net_name ?name))"
      using wf_id_nonzero [OF wf' p(1)] wf_name_nonzero [OF wf' p(1)] p(2) by simp_all
    have same: "dir_join ?name (gr_rsc_id ri) (opener cb fr) (abs_dir cb) = abs_dir cb'"
      using dir rid by (auto simp: dir_join_def split: option.split)
    show ?thesis
    proof (rule copied_one [OF inv(2) p(3)])
      fix s
      assume s: "gld_inv s" "abs_dir s = abs_dir sb" "node_map s = node_map sb" "ha_state s = ha_state sb"
        "gld_env_ok E' s = gld_env_ok E' sb"
      then have ms: "mirror cb s" using m by (simp add: mirror_def)
      have op: "opener s fr = opener cb fr" "node_dest s fr = node_dest cb fr"
        using mirror_opener [OF _ _ ms, of fr] inv(1) s(1) by (simp_all add: gld_inv_def)
      have "abs_dir s ?name = None \<longrightarrow> (\<forall>n e. abs_dir s n = Some e \<longrightarrow> de_id e \<noteq> gr_rsc_id ri)"
        using ms fresh rid by (auto simp: mirror_def)
      from sb_open_run [OF s(1) _ nz _ nz' this, of E'] s(4,5) env(2) ha
      show "\<exists>s' rc. gld_process_standby_evt E' (A2S_RSC_OPEN ?name (gr_rsc_id ri) fr (saf_rsc_creation_time ri)) s
            = Some (s', rc) \<and> gld_inv s' \<and> ha_state s' = ha_state s
            \<and> abs_dir s' = abs_dir cb' \<and> node_map s' = node_map cb'"
        using op same nm ms by (fastforce simp: gld_process_standby_evt_def mirror_def)
    qed
  qed
qed

section \<open>Close and orphan\<close>

lemma known_dest:
  assumes "gld_wf cb" and "node_map cb (m_NCS_NODE_ID_FROM_MDS_DEST fr) = Some dest"
  shows "m_NCS_NODE_ID_FROM_MDS_DEST dest = m_NCS_NODE_ID_FROM_MDS_DEST fr"
  using assms(2) by (rule node_map_SomeD [OF assms(1)])

lemma mirror_close:
  assumes inv: "gld_inv cb" "gld_inv sb" and m: "mirror cb sb"
    and run: "gld_rsc_close E fr d cb = Some (cb', rc)"
  shows "copied E' cb cb' sb"
proof (cases "\<exists>p ri. rscs cb p = Some ri \<and> gr_rsc_id ri = rd_rsc_id d
      \<and> has_node (m_NCS_NODE_ID_FROM_MDS_DEST fr) (gr_node_list ri)")
  case False
  then have "cb' = cb" using close_unknown_run [OF inv(1), of d fr E] run by auto
  then show ?thesis using m inv(2) by (intro copied_quiet) simp_all
next
  case True
  then obtain p ri where p: "rscs cb p = Some ri" "gr_rsc_id ri = rd_rsc_id d"
    and mem: "has_node (m_NCS_NODE_ID_FROM_MDS_DEST fr) (gr_node_list ri)" by blast
  have wf: "gld_wf cb" using inv(1) by (simp add: gld_inv_def)
  have dir: "abs_dir cb' = (if rd_lcl_ref_cnt d = 0
           then dir_leave (gr_lck_name ri) (m_NCS_NODE_ID_FROM_MDS_DEST fr) (rd_orphan d) (abs_dir cb)
           else abs_dir cb)"
    using close_run [OF inv(1) p mem, of E] run by auto
  show ?thesis
  proof (cases "cb' = cb")
    case True
    then show ?thesis using m inv(2) by (intro copied_quiet) simp_all
  next
    case False
    then obtain dest where dest: "node_map cb (m_NCS_NODE_ID_FROM_MDS_DEST fr) = Some dest"
      and nm: "node_map cb' = node_map cb" and ck: "ckpts cb' = ckpts cb @ [A2S_RSC_CLOSE d dest]"
      using close_ckpt [OF run] by blast
    note nid = known_dest [OF wf dest]
    show ?thesis
    proof (rule copied_one [OF inv(2) ck])
      fix s
      assume s: "gld_inv s" "abs_dir s = abs_dir sb" "node_map s = node_map sb"
      then have ms: "mirror cb s" using m by (simp add: mirror_def)
      obtain p' ri' where p': "rscs s p' = Some ri'" "dir_of ri' = dir_of ri" "gr_lck_name ri' = gr_lck_name ri"
        by (rule mirror_member [OF wf ms p(1)])
      then have "gr_rsc_id ri' = rd_rsc_id d" "has_node (m_NCS_NODE_ID_FROM_MDS_DEST dest) (gr_node_list ri')"
        using p(2) mem nid by (simp_all add: dir_of_def)
      from sb_close_run [OF s(1) p'(1) this, of E']
      show "\<exists>s' rc. gld_process_standby_evt E' (A2S_RSC_CLOSE d dest) s = Some (s', rc) \<and> gld_inv s'
          \<and> ha_state s' = ha_state s \<and> abs_dir s' = abs_dir cb' \<and> node_map s' = node_map cb'"
        using dir nm ms p'(3) nid by (auto simp: gld_process_standby_evt_def mirror_def)
    qed
  qed
qed

lemma mirror_set_orphan:
  assumes inv: "gld_inv cb" "gld_inv sb" and m: "mirror cb sb"
    and run: "gld_rsc_set_orphan fr d cb = Some (cb', rc)"
  shows "copied E' cb cb' sb"
proof (cases "\<exists>p ri. rscs cb p = Some ri \<and> gr_rsc_id ri = rd_rsc_id d
      \<and> has_node (m_NCS_NODE_ID_FROM_MDS_DEST fr) (gr_node_list ri)")
  case False
  then have "cb' = cb" using set_orphan_unknown_run [OF inv(1), of d fr] run by auto
  then show ?thesis using m inv(2) by (intro copied_quiet) simp_all
next
  case True
  then obtain p ri where p: "rscs cb p = Some ri" "gr_rsc_id ri = rd_rsc_id d"
    and mem: "has_node (m_NCS_NODE_ID_FROM_MDS_DEST fr) (gr_node_list ri)" by blast
  have wf: "gld_wf cb" using inv(1) by (simp add: gld_inv_def)
  have dir: "abs_dir cb' = dir_set_orphan (gr_lck_name ri) (rd_orphan d) (rd_lck_mode d) (abs_dir cb)"
    and rc: "rc = NCSCC_RC_SUCCESS"
    using set_orphan_run [OF inv(1) p mem] run by auto
  obtain dest where dest: "node_map cb (m_NCS_NODE_ID_FROM_MDS_DEST fr) = Some dest"
    and nm: "node_map cb' = node_map cb" and ck: "ckpts cb' = ckpts cb @ [A2S_SET_ORPHAN d dest]"
    using set_orphan_ckpt run rc by blast
  note nid = known_dest [OF wf dest]
  show ?thesis
  proof (rule copied_one [OF inv(2) ck])
    fix s
    assume s: "gld_inv s" "abs_dir s = abs_dir sb" "node_map s = node_map sb"
    then have ms: "mirror cb s" using m by (simp add: mirror_def)
    obtain p' ri' where p': "rscs s p' = Some ri'" "dir_of ri' = dir_of ri" "gr_lck_name ri' = gr_lck_name ri"
      by (rule mirror_member [OF wf ms p(1)])
    then have "gr_rsc_id ri' = rd_rsc_id d" "has_node (m_NCS_NODE_ID_FROM_MDS_DEST dest) (gr_node_list ri')"
      using p(2) mem nid by (simp_all add: dir_of_def)
    from sb_set_orphan_run [OF s(1) p'(1) this]
    show "\<exists>s' rc. gld_process_standby_evt E' (A2S_SET_ORPHAN d dest) s = Some (s', rc) \<and> gld_inv s'
        \<and> ha_state s' = ha_state s \<and> abs_dir s' = abs_dir cb' \<and> node_map s' = node_map cb'"
      using dir nm ms p'(3) by (auto simp: gld_process_standby_evt_def mirror_def)
  qed
qed

section \<open>Operational reports\<close>

lemma mirror_operational:
  assumes inv: "gld_inv cb" "gld_inv sb" and m: "mirror cb sb"
    and safe: "find_node cb (m_NCS_NODE_ID_FROM_MDS_DEST fr) \<noteq> None \<longrightarrow> all_mastered cb"
    and run: "gld_glnd_operational E fr cb = Some (cb', rc)"
  shows "copied E' cb cb' sb"
proof (cases "find_node cb (m_NCS_NODE_ID_FROM_MDS_DEST fr)")
  case None
  then have "quiet cb cb'" using run by (auto simp: gld_glnd_operational_def Let_def intro: quiet_res_master_info)
  moreover have "abs_dir cb' = abs_dir cb" using operational_run [OF inv(1), of fr E] None run by auto
  ultimately show ?thesis using m inv(2) by (intro copied_quiet) (simp_all add: quiet_ckpts quiet_node_map)
next
  case (Some q)
  let ?nid = "m_NCS_NODE_ID_FROM_MDS_DEST fr"
  have wf: "gld_wf cb" using inv(1) by (simp add: gld_inv_def)
  have ck: "ckpts cb' = ckpts cb @ [A2S_GLND_OPERATIONAL fr]"
    and nm: "node_map cb' = (node_map cb)(?nid \<mapsto> fr)"
    using operational_ckpt [OF wf Some run] by simp_all
  have dir: "abs_dir cb' = dir_dest ?nid fr (abs_dir cb)"
    using operational_run [OF inv(1), of fr E] safe Some run by auto
  show ?thesis
  proof (rule copied_one [OF inv(2) ck])
    fix s
    assume s: "gld_inv s" "abs_dir s = abs_dir sb" "node_map s = node_map sb"
    then have ms: "mirror cb s" using m by (simp add: mirror_def)
    have "find_node s ?nid \<noteq> None" using mirror_find [OF wf _ ms] s(1) Some by (simp add: gld_inv_def)
    with sb_operational_run [OF s(1), of fr]
    show "\<exists>s' rc. gld_process_standby_evt E' (A2S_GLND_OPERATIONAL fr) s = Some (s', rc) \<and> gld_inv s'
        \<and> ha_state s' = ha_state s \<and> abs_dir s' = abs_dir cb' \<and> node_map s' = node_map cb'"
      using dir nm ms by (auto simp: gld_process_standby_evt_def mirror_def)
  qed
qed

section \<open>A node goes down\<close>

text \<open>
  After a node went down the standby director has lost it too; its directory is the one of the
  active director precisely when every resource the node had open carried the orphan mark the
  standby handler reads from the address.
\<close>

definition down_faithful :: "GLSV_GLD_CB \<Rightarrow> u32 \<Rightarrow> bool" where
  "down_faithful cb nid \<longleftrightarrow> (\<forall>dest n e. node_map cb nid = Some dest \<longrightarrow> abs_dir cb n = Some e
     \<longrightarrow> has_node nid (de_nodes e) \<longrightarrow> de_orphan e = a2s_down_orphan dest)"

lemma restart_replay:
  assumes inv: "gld_inv cb" "gld_inv sb" and m: "mirror cb sb" and act: "ha_state cb = SA_AMF_HA_ACTIVE"
    and known: "node_map cb (m_NCS_NODE_ID_FROM_MDS_DEST dest) = Some a"
    and run: "gld_process_tmr_node_restart_wait_timeout E dest cb = Some (cb', rc)"
  shows "\<exists>sb'. replay E' cb cb' sb = Some sb' \<and> gld_inv sb' \<and> ha_state sb' = ha_state sb
      \<and> node_map sb' = node_map cb'
      \<and> abs_dir sb' = dir_drop (m_NCS_NODE_ID_FROM_MDS_DEST dest) (a2s_down_orphan a) (abs_dir cb)"
proof -
  let ?nid = "m_NCS_NODE_ID_FROM_MDS_DEST dest" and ?s = "sb\<lparr>gld_async_cnt := gld_async_cnt sb + 1\<rparr>"
  have wf: "gld_wf cb" using inv(1) by (simp add: gld_inv_def)
  obtain q nd where q: "find_node cb ?nid = Some q" "nodes cb q = Some nd" "gn_dest_id nd = a"
      "m_NCS_NODE_ID_FROM_MDS_DEST a = ?nid"
    by (rule node_map_SomeD [OF wf known])
  have ck: "ckpts cb' = ckpts cb @ [A2S_GLND_DOWN a]" and nm: "node_map cb' = (node_map cb)(?nid := None)"
    using restart_ckpt [OF inv(1) act q(1,2) run] q(3) by simp_all
  have s: "gld_inv ?s" "mirror cb ?s" using cnt_frame(1,2) [OF inv(2)] m by simp_all
  obtain q' where q': "find_node ?s (m_NCS_NODE_ID_FROM_MDS_DEST a) = Some q'"
    using mirror_find [OF wf _ s(2), of ?nid] s(1) q(1,4) by (auto simp: gld_inv_def)
  obtain sb' where "glsv_gld_standby_mds_glnd_down E' a ?s = Some (sb', NCSCC_RC_SUCCESS)" "gld_inv sb'"
      "abs_dir sb' = dir_drop ?nid (a2s_down_orphan a) (abs_dir ?s)" "ha_state sb' = ha_state ?s"
      "node_map sb' = (node_map ?s)(?nid := None)"
    using sb_down_run [OF s(1) q', of E'] q(4) by auto
  then show ?thesis using replay_one [OF ck, of E' sb] nm s(2)
    by (simp add: gld_process_standby_evt_def mirror_def)
qed

lemma mirror_restart:
  assumes inv: "gld_inv cb" "gld_inv sb" and m: "mirror cb sb" and act: "ha_state cb = SA_AMF_HA_ACTIVE"
    and ok: "down_faithful cb (m_NCS_NODE_ID_FROM_MDS_DEST dest)"
    and run: "gld_process_tmr_node_restart_wait_timeout E dest cb = Some (cb', rc)"
  shows "copied E' cb cb' sb"
proof (cases "node_map cb (m_NCS_NODE_ID_FROM_MDS_DEST dest)")
  case None
  then have "cb' = cb" using run node_map_None [of cb "m_NCS_NODE_ID_FROM_MDS_DEST dest"] inv(1)
    by (simp add: gld_process_tmr_node_restart_wait_timeout_def gld_inv_def)
  then show ?thesis using m inv(2) by (intro copied_quiet) simp_all
next
  case (Some a)
  then obtain q where q: "find_node cb (m_NCS_NODE_ID_FROM_MDS_DEST dest) = Some q"
    by (auto simp: node_map_def split: option.split_asm)
  have "abs_dir cb' = dir_down (m_NCS_NODE_ID_FROM_MDS_DEST dest) (abs_dir cb)"
    using restart_timeout_active_run [OF inv(1) act q, of E] run by auto
  moreover have "dir_drop (m_NCS_NODE_ID_FROM_MDS_DEST dest) (a2s_down_orphan a) (abs_dir cb)
      = dir_down (m_NCS_NODE_ID_FROM_MDS_DEST dest) (abs_dir cb)"
    using ok Some by (simp add: dir_drop_eq_down down_faithful_def)
  ultimately show ?thesis using restart_replay [OF inv m act Some run, of E'] by (auto simp: copied_def mirror_def)
qed

section \<open>Events that are not checkpointed\<close>

lemma quiet_node_upd:
  "(\<And>nd. gn_dest_id (f nd) = gn_dest_id nd) \<Longrightarrow> node_upd q f cb = Some cb' \<Longrightarrow> quiet cb cb'"
  by (cases "nodes cb q") (auto simp: node_upd_def quiet_def node_dests_def fun_eq_iff)

lemma quiet_start_restart:
  assumes "node_start_restart E q cb = Some cb'"
  shows "quiet cb cb'"
proof -
  obtain nd where nd: "nodes cb q = Some nd" using assms by (auto simp: node_start_restart_def)
  let ?t = "gld_start_tmr E cb ((gn_restart_timer nd)\<lparr>gt_mdest_id := gn_dest_id nd\<rparr>) GLD_TMR_NODE_RESTART_TIMEOUT
      GLD_NODE_RESTART_TIMEOUT 0"
  let ?c = "cb\<lparr>nodes := (nodes cb)(q \<mapsto> nd\<lparr>gn_restart_timer := fst (fst ?t)\<rparr>)\<rparr>"
  have "cb' = gld_emits (snd (fst ?t)) ?c"
    using assms nd by (simp add: node_start_restart_def split_def Let_def)
  moreover have "quiet cb ?c" using nd by (auto simp: quiet_def node_dests_def fun_eq_iff)
  ultimately show ?thesis using quiet_trans quiet_emits [OF tmr_no_ckpt(1)] by blast
qed

lemma quiet_clm_down: "gld_clm_glnd_down E nid cb = Some (cb', rc) \<Longrightarrow> quiet cb cb'"
proof (cases "find_node cb nid")
  case (Some q)
  assume "gld_clm_glnd_down E nid cb = Some (cb', rc)"
  with Some obtain c1 c2 where c: "node_upd q (\<lambda>nd. nd\<lparr>gn_status := GLND_RESTART_STATE\<rparr>) cb = Some c1"
      "node_start_restart E q c1 = Some c2"
    and last: "(if ha_state c2 = SA_AMF_HA_ACTIVE then do {
              nd \<leftarrow> nodes c2 q;
              cb \<leftarrow> announce_masters_checked (gn_node_id nd) GLND_RESOURCE_MASTER_RESTARTED c2;
              (cb, _) \<leftarrow> gld_process_send_non_master_status E q GLND_RESTART_STATE cb;
              Some cb }
            else Some c2) = Some cb'"
    unfolding gld_clm_glnd_down_def by (auto split del: if_split)
  have "quiet cb c2" using quiet_node_upd [OF _ c(1)] quiet_start_restart [OF c(2)] by (auto intro: quiet_trans)
  moreover have "quiet c2 cb'" using last
    by (auto split: if_splits intro: quiet_trans [OF quiet_announce_checked quiet_non_master_status])
  ultimately show ?thesis by (rule quiet_trans)
qed (simp add: gld_clm_glnd_down_def)

lemma quiet_reelection_timeout:
  "gld_process_tmr_resource_reelection_wait_timeout rid cb = Some (cb', rc) \<Longrightarrow> quiet cb cb'"
  by (auto simp: gld_process_tmr_resource_reelection_wait_timeout_def intro: quiet_master_status split: option.split_asm)

lemma quiet_quisced: "quiet cb (fst (gld_quisced_process E cb))"
  by (rule quietI) (auto simp: gld_quisced_process_def Let_def gld_emits_def gld_emit_def ckpts_def
      List.map_filter_def ckpt_of_def)

lemma quisced_dir: "abs_dir (fst (gld_quisced_process E cb)) = abs_dir cb"
  by (auto simp: gld_quisced_process_def Let_def gld_emits_def gld_emit_def abs_dir_def fun_eq_iff
      cong: option.case_cong)

end
