(* ===== verification/Gld_Pair.thy ===== *)
theory Gld_Pair
  imports Gld_Mirror
begin

text \<open>
  Runs of the two directors: any sequence of events of the active one, each followed by the
  replay of its checkpoint messages, interleaved with the events the standby one sees itself.
\<close>

section \<open>Systems that run while their guards hold\<close>

fun guarded :: "('e \<Rightarrow> 's \<Rightarrow> bool) \<Rightarrow> ('e \<Rightarrow> 's \<Rightarrow> 's option) \<Rightarrow> 'e list \<Rightarrow> 's \<Rightarrow> bool" where
  "guarded ok step [] s = True"
| "guarded ok step (e # es) s =
     (ok e s \<and> (case step e s of None \<Rightarrow> False | Some s' \<Rightarrow> guarded ok step es s'))"

locale guarded_system =
  fixes good :: "'s \<Rightarrow> bool" and ok :: "'e \<Rightarrow> 's \<Rightarrow> bool" and step :: "'e \<Rightarrow> 's \<Rightarrow> 's option"
  assumes progress: "good s \<Longrightarrow> ok e s \<Longrightarrow> \<exists>s'. step e s = Some s' \<and> good s'"
begin

lemma run_good: "good s \<Longrightarrow> guarded ok step es s \<Longrightarrow> \<exists>s'. for_each step es s = Some s' \<and> good s'"
proof (induction es arbitrary: s)
  case (Cons e es)
  then obtain s1 where 1: "step e s = Some s1" "good s1" using progress [of s e] by auto
  with Cons.prems have "guarded ok step es s1" by simp
  with 1 Cons.IH show ?case by (simp del: bind_Some_iff)
qed simp

end

section \<open>The pair of directors\<close>

datatype pair_evt = On_Active gld_env MDS_DEST gld_evt_info gld_env | On_Standby gld_env MDS_DEST gld_evt_info

fun pair_step :: "pair_evt \<Rightarrow> GLSV_GLD_CB \<times> GLSV_GLD_CB \<Rightarrow> (GLSV_GLD_CB \<times> GLSV_GLD_CB) option" where
  "pair_step (On_Active E fr evt E') (cb, sb) = do {
     cb' \<leftarrow> gld_process_evt E fr evt cb;
     sb' \<leftarrow> replay E' cb cb' sb;
     Some (cb', sb') }"
| "pair_step (On_Standby E fr evt) (cb, sb) = do {
     sb' \<leftarrow> gld_process_evt E fr evt sb;
     Some (cb, sb') }"

definition pair_good :: "GLSV_GLD_CB \<times> GLSV_GLD_CB \<Rightarrow> bool" where
  "pair_good s \<longleftrightarrow> gld_inv (fst s) \<and> gld_inv (snd s) \<and> ha_state (snd s) = SA_AMF_HA_STANDBY \<and> mirror (fst s) (snd s)"

text \<open>
  The guard of an event of the active director: what the event needs there; for an open, that
  the answer is accepted and that the standby director has memory and a free id; for the end
  of a node's restart timer, that the handler of the standby director reads the right mark.
\<close>

fun pair_ok :: "pair_evt \<Rightarrow> GLSV_GLD_CB \<times> GLSV_GLD_CB \<Rightarrow> bool" where
  "pair_ok (On_Active E fr evt E') (cb, sb) \<longleftrightarrow> ha_state cb = SA_AMF_HA_ACTIVE \<and> gld_evt_ok E fr evt cb
     \<and> (case evt of
          GLSV_GLD_EVT_RSC_OPEN _ \<Rightarrow> ge_up E (node_dest cb fr) \<and> gld_env_ok E' sb
        | GLSV_GLD_EVT_RESTART_TIMEOUT t \<Rightarrow> down_faithful cb (m_NCS_NODE_ID_FROM_MDS_DEST (et_mdest_id t))
        | _ \<Rightarrow> True)"
| "pair_ok (On_Standby E fr evt) s \<longleftrightarrow> True"

lemma dispatch_copied:
  assumes inv: "gld_inv cb" "gld_inv sb" and m: "mirror cb sb" and ha: "ha_state sb \<noteq> SA_AMF_HA_ACTIVE"
    and ok: "pair_ok (On_Active E fr evt E') (cb, sb)" and run: "gld_dispatch E fr evt cb = Some (cb', rc)"
  shows "copied E' cb cb' sb"
proof -
  have q: "copied E' cb cb' sb" if "quiet cb cb'" "abs_dir cb' = abs_dir cb"
    using that m inv(2) by (intro copied_quiet) (simp_all add: quiet_ckpts quiet_node_map)
  show ?thesis
  proof (cases evt)
    case (GLSV_GLD_EVT_RSC_OPEN info)
    with ok run show ?thesis
      using mirror_open [OF inv m ha, of E E' fr info] by (simp add: gld_evt_ok_def gld_dispatch_def)
  next
    case (GLSV_GLD_EVT_RSC_CLOSE d)
    with run show ?thesis using mirror_close [OF inv m] by (simp add: gld_dispatch_def)
  next
    case (GLSV_GLD_EVT_SET_ORPHAN d)
    with run show ?thesis using mirror_set_orphan [OF inv m] by (simp add: gld_dispatch_def)
  next
    case (GLSV_GLD_EVT_GLND_DOWN dest)
    then obtain x where "gld_clm_glnd_down E (m_NCS_NODE_ID_FROM_MDS_DEST dest) cb = Some (cb', x)"
      using run by (auto simp: gld_dispatch_def gld_mds_glnd_down_def)
    then show ?thesis using q quiet_clm_down clm_down_run [OF inv(1)] by (metis option.inject prod.inject)
  next
    case (GLSV_GLD_EVT_GLND_DOWN_CLM nid)
    then show ?thesis using run q quiet_clm_down [of E nid cb] clm_down_run [OF inv(1), of E nid]
      by (auto simp: gld_dispatch_def)
  next
    case GLSV_GLD_EVT_GLND_OPERATIONAL
    with ok run show ?thesis
      using mirror_operational [OF inv m, of fr E] by (simp add: gld_evt_ok_def gld_dispatch_def)
  next
    case (GLSV_GLD_EVT_REELECTION_TIMEOUT t)
    then have r: "gld_process_tmr_resource_reelection_wait_timeout (et_resource_id t) cb = Some (cb', rc)"
      using run by (simp add: gld_dispatch_def)
    then have "only_outs cb cb'" using reelection_timeout_run [OF inv(1), of "et_resource_id t"] by auto
    then show ?thesis using q quiet_reelection_timeout [OF r] inv_only_outs [OF _ inv(1)] by blast
  next
    case (GLSV_GLD_EVT_RESTART_TIMEOUT t)
    with ok run show ?thesis using mirror_restart [OF inv m, of "et_mdest_id t" E] by (simp add: gld_dispatch_def)
  next
    case GLSV_GLD_EVT_QUISCED_STATE
    then have "cb' = fst (gld_quisced_process E cb)"
      using run by (cases "gld_quisced_process E cb") (simp add: gld_dispatch_def)
    then show ?thesis using q quiet_quisced quisced_dir by simp
  qed (use q run in \<open>simp add: gld_dispatch_def\<close>)
qed

text \<open>Only one of the two tests of the HA state lets an event through.\<close>

lemma standby_evt_ha:
  assumes inv: "gld_inv cb" and evt: "standby_evt evt" and run: "gld_dispatch E fr evt cb = Some (cb', rc)"
  shows "ha_state cb' = ha_state cb"
proof (cases evt)
  case (GLSV_GLD_EVT_GLND_DOWN dest)
  then show ?thesis using run clm_down_run [OF inv, of E "m_NCS_NODE_ID_FROM_MDS_DEST dest"]
    by (auto simp: gld_dispatch_def gld_mds_glnd_down_def)
next
  case (GLSV_GLD_EVT_RESTART_TIMEOUT t)
  let ?d = "et_mdest_id t"
  show ?thesis
    using run GLSV_GLD_EVT_RESTART_TIMEOUT restart_timeout_active_run [OF inv, of ?d _ E]
      restart_timeout_other_run [OF inv, of ?d E]
    by (cases "ha_state cb = SA_AMF_HA_ACTIVE"; cases "find_node cb (m_NCS_NODE_ID_FROM_MDS_DEST ?d)")
       (fastforce simp: gld_dispatch_def)+
qed (use evt in \<open>simp_all add: standby_evt_def\<close>)

lemma active_evt_once:
  assumes "gld_inv cb" and "ha_state cb = SA_AMF_HA_ACTIVE" and "gld_dispatch E fr evt cb = Some (cb', rc)"
  shows "gld_process_evt E fr evt cb = Some cb'"
  using assms standby_evt_ha [OF assms(1) _ assms(3)] by (cases "standby_evt evt") (simp_all add: gld_process_evt_def)

lemma standby_evt_keeps:
  assumes inv: "gld_inv sb" and ha: "ha_state sb = SA_AMF_HA_STANDBY"
  shows "\<exists>sb'. gld_process_evt E fr evt sb = Some sb' \<and> gld_inv sb' \<and> ha_state sb' = ha_state sb
      \<and> abs_dir sb' = abs_dir sb \<and> node_map sb' = node_map sb"
proof (cases evt)
  case (GLSV_GLD_EVT_GLND_DOWN dest)
  obtain sb' rc where "gld_clm_glnd_down E (m_NCS_NODE_ID_FROM_MDS_DEST dest) sb = Some (sb', rc)"
      "gld_inv sb'" "abs_dir sb' = abs_dir sb" "ha_state sb' = ha_state sb"
    using clm_down_run [OF inv] by blast
  moreover from this(1) have "node_map sb' = node_map sb" by (intro quiet_node_map quiet_clm_down)
  ultimately show ?thesis using ha GLSV_GLD_EVT_GLND_DOWN
    by (simp add: gld_process_evt_def gld_dispatch_def gld_mds_glnd_down_def standby_evt_def)
next
  case (GLSV_GLD_EVT_RESTART_TIMEOUT t)
  obtain sb' rc where run: "gld_process_tmr_node_restart_wait_timeout E (et_mdest_id t) sb = Some (sb', rc)"
    and sb': "gld_inv sb'" "abs_dir sb' = abs_dir sb" "ha_state sb' = ha_state sb"
    using restart_timeout_other_run [OF inv, of "et_mdest_id t" E] ha by auto
  have "quiet sb sb'"
    using run ha quiet_node_upd [of "\<lambda>nd. nd\<lparr>gn_status := GLND_DOWN_STATE\<rparr>" _ sb sb']
    by (auto simp: gld_process_tmr_node_restart_wait_timeout_def split: option.split_asm)
  then show ?thesis using run sb' ha GLSV_GLD_EVT_RESTART_TIMEOUT
    by (simp add: gld_process_evt_def gld_dispatch_def standby_evt_def quiet_node_map)
qed (use inv ha in \<open>simp_all add: gld_process_evt_def standby_evt_def\<close>)

interpretation gld_pair: guarded_system pair_good pair_ok pair_step
proof unfold_locales
  fix s e
  assume g: "pair_good s" and ok: "pair_ok e s"
  obtain cb sb where s: "s = (cb, sb)" by (cases s)
  have inv: "gld_inv cb" "gld_inv sb" and m: "mirror cb sb" and ha: "ha_state sb = SA_AMF_HA_STANDBY"
    using g s by (simp_all add: pair_good_def)
  show "\<exists>s'. pair_step e s = Some s' \<and> pair_good s'"
  proof (cases e)
    case (On_Active E fr evt E')
    obtain cb' rc where d: "gld_dispatch E fr evt cb = Some (cb', rc)" "gld_inv cb'"
      using dispatch_run [OF inv(1), of E fr evt] ok s On_Active by auto
    moreover have "gld_process_evt E fr evt cb = Some cb'"
      using active_evt_once [OF inv(1) _ d(1)] ok s On_Active by simp
    moreover obtain sb' where "replay E' cb cb' sb = Some sb'" "gld_inv sb'" "ha_state sb' = ha_state sb" "mirror cb' sb'"
      using dispatch_copied [OF inv m _ _ d(1)] ok s On_Active ha by (auto simp: copied_def)
    ultimately show ?thesis using s On_Active ha by (simp add: pair_good_def)
  next
    case (On_Standby E fr evt)
    then show ?thesis using s standby_evt_keeps [OF inv(2) ha, of E fr evt] inv m ha
      by (auto simp: pair_good_def mirror_def)
  qed
qed

lemma pair_init: "pair_good (gld_cb_init h SA_AMF_HA_ACTIVE, gld_cb_init h' SA_AMF_HA_STANDBY)"
  by (simp add: pair_good_def gld_inv_init mirror_def)
     (simp add: gld_cb_init_def abs_dir_def node_map_def find_node_def fun_eq_iff)

end
