(* ===== verification/Gld_Sync.thy ===== *)
theory Gld_Sync
  imports Gld_Pair
begin

text \<open>
  Cold sync: the active director sends its resources in messages of at most ten records, the
  standby director rebuilds its database from them.
\<close>

section \<open>The records of the active director\<close>

definition status_of :: "GLSV_GLD_CB \<Rightarrow> u32 \<Rightarrow> GLND_NODE_STATUS" where
  "status_of cb nid = (case find_node cb nid of None \<Rightarrow> GLND_NODE_STATUS_UNSET
     | Some q \<Rightarrow> (case nodes cb q of None \<Rightarrow> GLND_NODE_STATUS_UNSET | Some nd \<Rightarrow> gn_status nd))"

definition sync_nodes :: "GLSV_GLD_CB \<Rightarrow> GLSV_NODE_LIST list \<Rightarrow> GLSV_A2S_NODE_LIST list" where
  "sync_nodes cb ns = map (\<lambda>n. a2s_entry n (status_of cb (nl_node_id n))) ns"

definition zero_entry :: GLSV_A2S_NODE_LIST where
  "zero_entry = \<lparr>an_dest_id = 0, an_node_id = 0, an_status = GLND_NODE_STATUS_UNSET\<rparr>"

definition sync_rec :: "GLSV_GLD_CB \<Rightarrow> ptr \<Rightarrow> GLSV_GLD_A2S_RSC_DETAILS" where
  "sync_rec cb p = (let ri = the (rscs cb p)
     in a2s_details ri (if gr_node_list ri = [] then [zero_entry] else sync_nodes cb (gr_node_list ri)))"

lemma member_status:
  assumes "gld_wf cb" and "rscs cb p = Some ri" and "n \<in> set (gr_node_list ri)"
  shows "node_status cb (nl_node_id n) = Some (Some (status_of cb (nl_node_id n)))"
proof -
  obtain q nd where "nodes cb q = Some nd" "gn_node_id nd = nl_node_id n"
    using assms unfolding gld_wf_def members_wf_def by blast
  moreover from this have "find_node cb (nl_node_id n) = Some q" using wf_find_node [OF assms(1)] by blast
  ultimately show ?thesis by (simp add: node_status_def status_of_def)
qed

lemma a2s_tail_run:
  "(\<And>n. n \<in> set ns \<Longrightarrow> node_status cb (nl_node_id n) = Some (Some (status_of cb (nl_node_id n))))
   \<Longrightarrow> a2s_tail cb ns = Some (Some (sync_nodes cb ns))"
  by (induction ns) (simp_all add: sync_nodes_def del: bind_Some_iff)

lemma a2s_node_list_run:
  assumes "gld_wf cb" and "rscs cb p = Some ri"
  shows "a2s_node_list cb (gr_node_list ri)
      = Some (Some (if gr_node_list ri = [] then [zero_entry] else sync_nodes cb (gr_node_list ri)))"
proof -
  have st: "node_status cb (nl_node_id n) = Some (Some (status_of cb (nl_node_id n)))"
    if "n \<in> set (gr_node_list ri)" for n by (rule member_status [OF assms that])
  show ?thesis
  proof (cases "gr_node_list ri")
    case (Cons n ns)
    have "a2s_tail cb ns = Some (Some (sync_nodes cb ns))" by (rule a2s_tail_run) (use st Cons in simp)
    then show ?thesis using st [of n] Cons
      by (simp add: a2s_node_list_def sync_nodes_def Let_def del: bind_Some_iff)
  qed (simp add: a2s_node_list_def zero_entry_def)
qed

lemma enc_loop_run:
  assumes wf: "gld_wf cb"
  shows "set ps \<subseteq> dom (rscs cb) \<Longrightarrow> n < 10 \<Longrightarrow>
    enc_loop cb n ps = Some (Some (map (sync_rec cb) (take (10 - n) ps),
       if 10 - n \<le> length ps then Some (ps ! (9 - n)) else None))"
proof (induction ps arbitrary: n)
  case (Cons p ps)
  then obtain ri where ri: "rscs cb p = Some ri" by auto
  note e = a2s_node_list_run [OF wf ri]
  have d: "a2s_details ri (if gr_node_list ri = [] then [zero_entry] else sync_nodes cb (gr_node_list ri)) = sync_rec cb p"
    using ri by (simp add: sync_rec_def)
  show ?case
  proof (cases "Suc n = 10")
    case True
    then show ?thesis using ri e d by (simp add: MAX_NO_OF_RSC_INFO_RECORDS_def)
  next
    case False
    with Cons.prems have n: "10 - n = Suc (10 - Suc n)" "9 - n = Suc (9 - Suc n)" "Suc n < 10" by auto
    with Cons False show ?thesis using ri e d
      by (simp add: MAX_NO_OF_RSC_INFO_RECORDS_def del: bind_Some_iff)
  qed
qed simp

lemma after_id_run:
  assumes wf: "gld_wf cb" and "set ps \<subseteq> dom (rscs cb)" and "distinct ps" and "i < length ps"
    and "rscs cb (ps ! i) = Some ri"
  shows "after_id cb (gr_rsc_id ri) ps = Some (drop (Suc i) ps)"
  using assms(2-5)
proof (induction ps arbitrary: i)
  case (Cons p ps)
  then obtain rp where rp: "rscs cb p = Some rp" by auto
  show ?case
  proof (cases i)
    case 0
    then show ?thesis using Cons.prems by simp
  next
    case (Suc j)
    then have "rscs cb (ps ! j) = Some ri" "j < length ps" using Cons.prems by simp_all
    moreover have "gr_rsc_id rp \<noteq> gr_rsc_id ri"
      using wf_id_unique [OF wf rp calculation(1)] Cons.prems(2) calculation(2) nth_mem by fastforce
    ultimately show ?thesis using Cons rp Suc by simp
  qed
qed simp

section \<open>The messages of a cold sync\<close>

text \<open>
  The checkpoint service calls the encoder again until a message is marked as the last one or
  the call fails. The flag says which of the two it was.
\<close>

fun sync_msgs :: "nat \<Rightarrow> GLSV_GLD_CB \<Rightarrow> (sync_msg list \<times> bool) option" where
  "sync_msgs 0 cb = None"
| "sync_msgs (Suc n) cb = do {
     (cb, m) \<leftarrow> enc_cold_sync_resp cb;
     case m of
       None \<Rightarrow> Some ([], False)
     | Some m \<Rightarrow>
         if sm_complete m then Some ([m], True)
         else do { (ms, c) \<leftarrow> sync_msgs n cb; Some (m # ms, c) } }"

text \<open>The place the next message starts at.\<close>

definition sync_at :: "GLSV_GLD_CB \<Rightarrow> nat \<Rightarrow> bool" where
  "sync_at cb i \<longleftrightarrow> (if i = 0 then prev_rsc_id cb = 0
     else i \<le> length (rsc_list cb) \<and> (\<exists>ri. rscs cb (rsc_list cb ! (i - 1)) = Some ri \<and> prev_rsc_id cb = gr_rsc_id ri))"

lemma wf_prev: "gld_wf (cb\<lparr>prev_rsc_id := x\<rparr>) = gld_wf cb"
  by (simp add: gld_wf_def gld_wf_defs)

lemma status_of_prev [simp]: "status_of (cb\<lparr>prev_rsc_id := x\<rparr>) nid = status_of cb nid"
  by (simp add: status_of_def find_node_def cong: option.case_cong)

lemma sync_rec_prev [simp]: "sync_rec (cb\<lparr>prev_rsc_id := x\<rparr>) p = sync_rec cb p"
  by (simp add: sync_rec_def sync_nodes_def Let_def)

lemma enc_msg_at:
  assumes wf: "gld_wf cb" and ha: "ha_state cb \<noteq> SA_AMF_HA_STANDBY" and at: "sync_at cb i"
    and left: "i < length (rsc_list cb)"
  shows "\<exists>x. glsv_gld_mbcsv_enc_msg_rsp cb = Some (cb\<lparr>prev_rsc_id := x\<rparr>,
       Some \<lparr>sm_data = True, sm_records = map (sync_rec cb) (take 10 (drop i (rsc_list cb))),
         sm_async_cnt = gld_async_cnt cb, sm_complete = length (rsc_list cb) < i + 10\<rparr>)
     \<and> (i + 10 \<le> length (rsc_list cb) \<longrightarrow> sync_at (cb\<lparr>prev_rsc_id := x\<rparr>) (i + 10))"
proof -
  let ?ps = "rsc_list cb"
  have dom: "set ?ps \<subseteq> dom (rscs cb)" and dist: "distinct ?ps" using wf by (auto simp: gld_wf_def list_wf_def)
  have start: "(if prev_rsc_id cb = 0 then Some ?ps else after_id cb (prev_rsc_id cb) ?ps) = Some (drop i ?ps)"
  proof (cases "i = 0")
    case False
    then obtain ri where ri: "rscs cb (?ps ! (i - 1)) = Some ri" "prev_rsc_id cb = gr_rsc_id ri"
      using at by (auto simp: sync_at_def)
    have "after_id cb (gr_rsc_id ri) ?ps = Some (drop (Suc (i - 1)) ?ps)"
      by (rule after_id_run [OF wf dom dist _ ri(1)]) (use left in simp)
    then show ?thesis using ri(2) wf_id_nonzero [OF wf ri(1)] False by simp
  qed (use at in \<open>simp add: sync_at_def\<close>)
  have ne: "drop i ?ps \<noteq> []" using left by simp
  have loop: "enc_loop cb 0 (drop i ?ps) = Some (Some (map (sync_rec cb) (take 10 (drop i ?ps)),
       if 10 \<le> length (drop i ?ps) then Some (drop i ?ps ! 9) else None))"
    using enc_loop_run [OF wf, of "drop i ?ps" 0] dom set_drop_subset [of i ?ps] by auto
  show ?thesis
  proof (cases "i + 10 \<le> length ?ps")
    case True
    then have j: "drop i ?ps ! 9 = ?ps ! (i + 9)" "i + 9 < length ?ps" by simp_all
    then obtain ri where ri: "rscs cb (?ps ! (i + 9)) = Some ri" using dom nth_mem by blast
    have "sync_at (cb\<lparr>prev_rsc_id := gr_rsc_id ri\<rparr>) (i + 10)" using True ri by (simp add: sync_at_def add.commute)
    moreover have "enc_loop cb 0 (drop i ?ps)
        = Some (Some (map (sync_rec cb) (take 10 (drop i ?ps)), Some (?ps ! (i + 9))))"
      using loop True j by simp
    ultimately show ?thesis using True ha start ne ri
      by (intro exI [of _ "gr_rsc_id ri"]) (simp add: glsv_gld_mbcsv_enc_msg_rsp_def MAX_NO_OF_RSC_INFO_RECORDS_def Let_def del: bind_Some_iff)
  next
    case False
    then show ?thesis using ha start ne loop
      by (auto simp: glsv_gld_mbcsv_enc_msg_rsp_def MAX_NO_OF_RSC_INFO_RECORDS_def Let_def simp del: bind_Some_iff)
  qed
qed

lemma enc_msg_end:
  assumes wf: "gld_wf cb" and ha: "ha_state cb \<noteq> SA_AMF_HA_STANDBY" and at: "sync_at cb (length (rsc_list cb))"
    and ne: "rsc_list cb \<noteq> []"
  shows "glsv_gld_mbcsv_enc_msg_rsp cb = Some (cb, None)"
proof -
  let ?ps = "rsc_list cb"
  have dom: "set ?ps \<subseteq> dom (rscs cb)" and dist: "distinct ?ps" using wf by (auto simp: gld_wf_def list_wf_def)
  obtain ri where ri: "rscs cb (?ps ! (length ?ps - 1)) = Some ri" "prev_rsc_id cb = gr_rsc_id ri"
    using at ne by (auto simp: sync_at_def)
  have "after_id cb (gr_rsc_id ri) ?ps = Some (drop (Suc (length ?ps - 1)) ?ps)"
    by (rule after_id_run [OF wf dom dist _ ri(1)]) (use ne in simp)
  then show ?thesis using ri(2) wf_id_nonzero [OF wf ri(1)] ha by (simp add: glsv_gld_mbcsv_enc_msg_rsp_def)
qed

lemma sync_msgs_run:
  "gld_wf cb \<Longrightarrow> ha_state cb \<noteq> SA_AMF_HA_STANDBY \<Longrightarrow> rsc_list cb \<noteq> [] \<Longrightarrow> sync_at cb i
   \<Longrightarrow> i \<le> length (rsc_list cb) \<Longrightarrow> (length (rsc_list cb) - i) div 10 < n
   \<Longrightarrow> \<exists>ms. sync_msgs n cb = Some (ms, (length (rsc_list cb) - i) mod 10 \<noteq> 0)
        \<and> concat (map sm_records ms) = map (sync_rec cb) (drop i (rsc_list cb))
        \<and> (\<forall>m \<in> set ms. sm_data m \<and> sm_async_cnt m = gld_async_cnt cb)"
proof (induction n arbitrary: cb i)
  case (Suc n)
  let ?k = "length (rsc_list cb)"
  have enc: "enc_cold_sync_resp cb = glsv_gld_mbcsv_enc_msg_rsp cb"
    using Suc.prems(3) by (simp add: enc_cold_sync_resp_def)
  show ?case
  proof (cases "i = ?k")
    case True
    then show ?thesis using enc_msg_end [of cb] Suc.prems enc by simp
  next
    case False
    then have i: "i < ?k" using Suc.prems by simp
    obtain x where x: "glsv_gld_mbcsv_enc_msg_rsp cb = Some (cb\<lparr>prev_rsc_id := x\<rparr>,
       Some \<lparr>sm_data = True, sm_records = map (sync_rec cb) (take 10 (drop i (rsc_list cb))),
         sm_async_cnt = gld_async_cnt cb, sm_complete = ?k < i + 10\<rparr>)"
      and nxt: "i + 10 \<le> ?k \<longrightarrow> sync_at (cb\<lparr>prev_rsc_id := x\<rparr>) (i + 10)"
      using enc_msg_at [OF Suc.prems(1,2,4) i] by blast
    show ?thesis
    proof (cases "?k < i + 10")
      case True
      then have "(?k - i) mod 10 = ?k - i" "?k - i \<noteq> 0" using i by auto
      then show ?thesis using True x enc by (simp del: bind_Some_iff)
    next
      case False
      let ?c = "cb\<lparr>prev_rsc_id := x\<rparr>"
      let ?m = "\<lparr>sm_data = True, sm_records = map (sync_rec cb) (take 10 (drop i (rsc_list cb))),
         sm_async_cnt = gld_async_cnt cb, sm_complete = False\<rparr>"
      have k: "?k - i = (?k - (i + 10)) + 10" using False by simp
      have md: "(?k - i) mod 10 = (?k - (i + 10)) mod 10" unfolding k by (rule mod_add_self2)
      have "(?k - (i + 10)) div 10 < n" using Suc.prems(6) unfolding k by simp
      then obtain ms where ms: "sync_msgs n ?c = Some (ms, (?k - (i + 10)) mod 10 \<noteq> 0)"
          "concat (map sm_records ms) = map (sync_rec cb) (drop (i + 10) (rsc_list cb))"
          "\<forall>m \<in> set ms. sm_data m \<and> sm_async_cnt m = gld_async_cnt cb"
        using Suc.IH [of ?c "i + 10"] Suc.prems nxt False by (auto simp: wf_prev)
      have "sync_msgs (Suc n) cb = Some (?m # ms, (?k - (i + 10)) mod 10 \<noteq> 0)"
        using x enc ms(1) False by simp
      moreover have "concat (map sm_records (?m # ms)) = map (sync_rec cb) (drop i (rsc_list cb))"
        using ms(2) append_take_drop_id [of 10 "drop i (rsc_list cb)"] by (simp add: add.commute flip: map_append)
      ultimately show ?thesis using ms(3) unfolding md by (intro exI [of _ "?m # ms"]) simp
    qed
  qed
qed simp

end
