(* ===== verification/Gld_Sync_Dec.thy ===== *)
theory Gld_Sync_Dec
  imports Gld_Sync
begin

text \<open>
  The standby director rebuilds its database from the records of a cold sync. \<open>rp\<close> and \<open>np\<close>
  are the addresses \<open>malloc\<close> returns for a resource and for a node; \<open>placed\<close> says that the
  objects of the standby director are at these addresses.
\<close>

definition sync_ptrs :: "(u32 \<Rightarrow> ptr) \<Rightarrow> (u32 \<Rightarrow> ptr) \<Rightarrow> bool" where
  "sync_ptrs rp np \<longleftrightarrow> inj rp \<and> (\<forall>i. rp i \<noteq> NULL) \<and> inj np"

definition placed :: "(u32 \<Rightarrow> ptr) \<Rightarrow> (u32 \<Rightarrow> ptr) \<Rightarrow> GLSV_GLD_CB \<Rightarrow> bool" where
  "placed rp np sb \<longleftrightarrow> (\<forall>p ri. rscs sb p = Some ri \<longrightarrow> p = rp (gr_rsc_id ri))
     \<and> (\<forall>q nd. nodes sb q = Some nd \<longrightarrow> q = np (gn_node_id nd))"

lemma placed_same_view: "same_view a b \<Longrightarrow> placed rp np a \<Longrightarrow> placed rp np b"
proof -
  assume sv: "same_view a b" and pl: "placed rp np a"
  have rev: "same_shape b a" by (rule same_view_shape [OF same_view_sym [OF sv]])
  show "placed rp np b"
    unfolding placed_def
  proof (intro conjI allI impI)
    fix p ri
    assume "rscs b p = Some ri"
    then obtain ri' where "rscs a p = Some ri'" "rsc_shape ri' = rsc_shape ri"
      using rev unfolding same_shape_def by (metis map_option_eq_Some option.simps(9))
    then show "p = rp (gr_rsc_id ri)" using pl unfolding placed_def rsc_shape_def by (metis prod.inject)
  next
    fix q nd
    assume "nodes b q = Some nd"
    then obtain nd' where "nodes a q = Some nd'" "node_shape nd' = node_shape nd"
      using rev unfolding same_shape_def by (metis map_option_eq_Some option.simps(9))
    then show "q = np (gn_node_id nd)" using pl unfolding placed_def node_shape_def by (metis prod.inject)
  qed
qed

lemma wf_node_nonzero: "gld_wf cb \<Longrightarrow> nodes cb q = Some nd \<Longrightarrow> gn_node_id nd \<noteq> 0"
proof
  assume wf: "gld_wf cb" and q: "nodes cb q = Some nd" and z: "gn_node_id nd = 0"
  have "tbl_wf (glnd_details cb)" using wf by (simp add: gld_wf_def nodes_wf_def)
  with tbl_get_SomeD [OF wf_node_get [OF wf q]] z show False by (force simp: tbl_wf_def)
qed

lemma wf_member:
  assumes "gld_wf cb" and "rscs cb p = Some ri" and "n \<in> set (gr_node_list ri)"
  shows "node_map cb (nl_node_id n) = Some (nl_dest_id n)" and "nl_node_id n \<noteq> 0"
    and "m_NCS_NODE_ID_FROM_MDS_DEST (nl_dest_id n) = nl_node_id n"
proof -
  obtain q nd where q: "nodes cb q = Some nd" "gn_node_id nd = nl_node_id n" "gn_dest_id nd = nl_dest_id n"
    using assms unfolding gld_wf_def members_wf_def by blast
  then have "find_node cb (nl_node_id n) = Some q" using wf_find_node [OF assms(1)] by blast
  with q show m: "node_map cb (nl_node_id n) = Some (nl_dest_id n)" by (simp add: node_map_def)
  show "nl_node_id n \<noteq> 0" using wf_node_nonzero [OF assms(1) q(1)] q(2) by simp
  show "m_NCS_NODE_ID_FROM_MDS_DEST (nl_dest_id n) = nl_node_id n" by (rule node_map_SomeD [OF assms(1) m])
qed

lemma start_restart_rscs: "node_start_restart E q cb = Some cb' \<Longrightarrow> rscs cb' = rscs cb"
  by (auto simp: node_start_restart_def split_def Let_def gld_emits_def)

section \<open>One node of a record\<close>

lemma sb_node_run:
  assumes wf: "gld_wf sb" and pl: "placed rp np sb" and sp: "sync_ptrs rp np"
    and nid: "m_NCS_NODE_ID_FROM_MDS_DEST (an_dest_id n) = nid" "nid \<noteq> 0"
    and agree: "node_map sb nid = None \<or> node_map sb nid = Some (an_dest_id n)"
  shows "\<exists>sb' q nd. sb_node E np n sb = Some (sb', q) \<and> gld_wf sb' \<and> placed rp np sb' \<and> rscs sb' = rscs sb
      \<and> ha_state sb' = ha_state sb \<and> nodes sb' q = Some nd \<and> gn_node_id nd = nid \<and> gn_dest_id nd = an_dest_id n
      \<and> node_map sb' = (node_map sb)(nid \<mapsto> an_dest_id n)"
proof (cases "find_node sb nid")
  case (Some q)
  obtain nd where nd: "nodes sb q = Some nd" "gn_node_id nd = nid" using Some wf_find_node [OF wf] by auto
  then have "gn_dest_id nd = an_dest_id n" using agree Some by (simp add: node_map_def)
  then show ?thesis using Some nd wf pl nid agree
    by (intro exI [of _ sb] exI [of _ q] exI [of _ nd]) (auto simp: sb_node_def Let_def node_map_def fun_upd_idem)
next
  case None
  let ?E = "E\<lparr>ge_node_ptr := np nid\<rparr>" and ?q = "np nid" and ?d = "an_dest_id n"
  have free: "nodes sb (np nid) = None"
  proof (rule ccontr)
    assume "nodes sb (np nid) \<noteq> None"
    then obtain nd where nd: "nodes sb (np nid) = Some nd" by auto
    then have "np nid = np (gn_node_id nd)" using pl by (simp add: placed_def)
    then have "gn_node_id nd = nid" using sp by (simp add: sync_ptrs_def inj_eq)
    then show False using None nd wf_find_node [OF wf, of nid "np nid"] by simp
  qed
  obtain t where t: "gld_add_glnd_node ?E ?d sb = Some (sb\<lparr>glnd_details := t, nodes := (nodes sb)(?q \<mapsto> new_node ?d)\<rparr>, ?q)"
      "gld_wf (sb\<lparr>glnd_details := t, nodes := (nodes sb)(?q \<mapsto> new_node ?d)\<rparr>)"
      "tbl_get t = (tbl_get (glnd_details sb))(key32 nid \<mapsto> ?q)"
    using add_node_wf [OF wf, of ?d ?E] None nid free by auto
  define c1 where "c1 = sb\<lparr>glnd_details := t, nodes := (nodes sb)(?q \<mapsto> new_node ?d)\<rparr>"
  define nd2 where "nd2 = (new_node ?d)\<lparr>gn_status := an_status n\<rparr>"
  define c2 where "c2 = c1\<lparr>nodes := (nodes c1)(?q \<mapsto> nd2)\<rparr>"
  have q1: "nodes c1 ?q = Some (new_node ?d)" by (simp add: c1_def)
  have up: "node_upd ?q (\<lambda>nd. nd\<lparr>gn_status := an_status n\<rparr>) c1 = Some c2"
    using q1 by (simp add: node_upd_def c2_def nd2_def)
  have sv12: "same_view c1 c2" unfolding c2_def by (rule same_view_node [OF q1]) (simp add: nd2_def node_shape_def)
  have q2: "nodes c2 ?q = Some nd2" by (simp add: c2_def)
  obtain c3 where c3: "(if an_status n = GLND_RESTART_STATE then node_start_restart E ?q c2 else Some c2) = Some c3"
    and sv23: "same_view c2 c3" and rs3: "rscs c3 = rscs c2" and qt: "quiet c2 c3"
    using restart_run [OF q2, of E] start_restart_rscs quiet_start_restart
    by (cases "an_status n = GLND_RESTART_STATE") fastforce+
  have sv: "same_view c1 c3" using sv12 sv23 by (rule same_view_trans)
  have wf3: "gld_wf c3" using same_view_wf [OF sv] t(2) by (simp add: c1_def)
  have "placed rp np c1" using pl nid(1) by (simp add: placed_def c1_def new_node_def)
  then have pl3: "placed rp np c3" by (rule placed_same_view [OF sv])
  obtain nd where nd: "nodes c3 ?q = Some nd" "node_shape nd = node_shape (new_node ?d)"
    using sv q1 unfolding same_view_def same_shape_def by (metis map_option_eq_Some option.simps(9))
  have "node_map c1 = (node_map sb)(nid \<mapsto> ?d)"
    using node_map_add [OF wf free, of c1 "new_node ?d"] t(3) nid(1) by (simp add: c1_def new_node_def)
  moreover have "node_map c3 = node_map c1"
    using quiet_node_map [OF qt] quiet_node_map [OF quiet_node_upd [OF _ up]] by simp
  moreover have "sb_node E np n sb = Some (c3, ?q)"
    using None t(1) up c3 nid(1) by (simp add: sb_node_def Let_def c1_def del: bind_Some_iff)
  ultimately show ?thesis using wf3 pl3 nd rs3 same_view_ha [OF sv] nid(1)
    by (intro exI [of _ c3] exI [of _ ?q] exI [of _ nd]) (simp add: node_shape_def new_node_def c2_def c1_def)
qed

section \<open>The nodes of a record\<close>

lemma sb_nodes_run:
  assumes "gld_wf sb" and "placed rp np sb" and "sync_ptrs rp np" and "rscs sb r = Some rj"
    and "distinct (map nl_node_id (gr_node_list rj @ ns))"
    and "\<And>n. n \<in> set ns \<Longrightarrow> m_NCS_NODE_ID_FROM_MDS_DEST (nl_dest_id n) = nl_node_id n \<and> nl_node_id n \<noteq> 0
          \<and> (node_map sb (nl_node_id n) = None \<or> node_map sb (nl_node_id n) = Some (nl_dest_id n))"
  shows "\<exists>sb'. sb_nodes E np r (map (\<lambda>n. a2s_entry n (st n)) ns) sb = Some sb' \<and> gld_wf sb' \<and> placed rp np sb'
      \<and> ha_state sb' = ha_state sb \<and> rscs sb' = (rscs sb)(r \<mapsto> rj\<lparr>gr_node_list := gr_node_list rj @ ns\<rparr>)
      \<and> (\<forall>n \<in> set ns. node_map sb' (nl_node_id n) = Some (nl_dest_id n))
      \<and> (\<forall>i. i \<notin> nl_node_id ` set ns \<longrightarrow> node_map sb' i = node_map sb i)"
  using assms
proof (induction ns arbitrary: sb rj)
  case Nil
  then show ?case by (intro exI [of _ sb]) (simp add: fun_upd_idem)
next
  case (Cons n ns)
  let ?e = "a2s_entry n (st n)" and ?nid = "nl_node_id n"
  have "an_dest_id ?e = nl_dest_id n" "an_node_id ?e = 0" by (simp_all add: a2s_entry_def)
  note e = this
  obtain s1 q nd where s1: "sb_node E np ?e sb = Some (s1, q)" "gld_wf s1" "placed rp np s1" "rscs s1 = rscs sb"
      "ha_state s1 = ha_state sb" "nodes s1 q = Some nd" "gn_node_id nd = ?nid" "gn_dest_id nd = nl_dest_id n"
      "node_map s1 = (node_map sb)(?nid \<mapsto> nl_dest_id n)"
    using sb_node_run [OF Cons.prems(1-3), of ?e ?nid E] Cons.prems(6) [of n] e by auto
  have r1: "rscs s1 r = Some rj" using s1(4) Cons.prems(4) by simp
  have new: "\<not> has_node (gn_node_id nd) (gr_node_list rj)"
    using Cons.prems(5) s1(7) by (auto simp: has_node_def)
  have nz: "0 \<notin> nl_node_id ` set (gr_node_list rj)" using wf_member(2) [OF s1(2) r1] by force
  define s2 where "s2 = linked r q rj nd s1"
  let ?rj = "rj\<lparr>gr_node_list := gr_node_list rj @ [n]\<rparr>"
  have n: "n = \<lparr>nl_dest_id = gn_dest_id nd, nl_node_id = gn_node_id nd\<rparr>" using s1(7,8) by simp
  have wf2: "gld_wf s2" unfolding s2_def by (rule linked_wf [OF s1(2) r1 s1(6) new])
  have r2: "rscs s2 = (rscs sb)(r \<mapsto> ?rj)" using s1(4) n by (simp add: s2_def linked_def)
  have r2r: "rscs s2 r = Some ?rj" by (simp add: r2)
  have pl2: "placed rp np s2" using s1(3,6) r1 by (auto simp: placed_def s2_def linked_def)
  have m2: "node_map s2 = (node_map sb)(?nid \<mapsto> nl_dest_id n)"
    using quiet_node_map [OF quiet_linked [OF s1(6)]] s1(9) by (simp add: s2_def)
  have step: "sb_nodes E np r (?e # es) sb = sb_nodes E np r es s2" for es
  proof -
    have "nodes (linked r q rj nd s1) q = Some (nd\<lparr>gn_rsc_info_tree := tbl_insert (key32 (gr_rsc_id rj))
        \<lparr>ref_rsc_id = gr_rsc_id rj, ref_rsc_info = r\<rparr> (gn_rsc_info_tree nd)\<rparr>)" by (simp add: linked_def)
    moreover have "s1\<lparr>nodes := nodes (linked r q rj nd s1), rscs := (rscs s1)(r \<mapsto> rj\<lparr>gr_node_list :=
        gr_node_list rj @ [\<lparr>nl_dest_id = gn_dest_id nd, nl_node_id = gn_node_id nd\<rparr>]\<rparr>)\<rparr> = s2"
      by (simp add: s2_def linked_def)
    ultimately show ?thesis using s1(1) add_ref_new [OF s1(2) r1 s1(6) new] r1 nz e(2)
      by (simp add: Let_def del: bind_Some_iff)
  qed
  have dist: "distinct (map nl_node_id (gr_node_list ?rj @ ns))" using Cons.prems(5) by simp
  have cond: "m_NCS_NODE_ID_FROM_MDS_DEST (nl_dest_id x) = nl_node_id x \<and> nl_node_id x \<noteq> 0
      \<and> (node_map s2 (nl_node_id x) = None \<or> node_map s2 (nl_node_id x) = Some (nl_dest_id x))" if "x \<in> set ns" for x
  proof -
    have "?nid \<notin> nl_node_id ` set ns" using Cons.prems(5) by simp
    then have "nl_node_id x \<noteq> ?nid" using that by (metis imageI)
    moreover have "x \<in> set (n # ns)" using that by simp
    ultimately show ?thesis using Cons.prems(6) [of x] m2 by auto
  qed
  obtain sb' where sb': "sb_nodes E np r (map (\<lambda>n. a2s_entry n (st n)) ns) s2 = Some sb'" "gld_wf sb'"
      "placed rp np sb'" "ha_state sb' = ha_state s2"
      "rscs sb' = (rscs s2)(r \<mapsto> ?rj\<lparr>gr_node_list := gr_node_list ?rj @ ns\<rparr>)"
      "\<forall>n \<in> set ns. node_map sb' (nl_node_id n) = Some (nl_dest_id n)"
      "\<forall>i. i \<notin> nl_node_id ` set ns \<longrightarrow> node_map sb' i = node_map s2 i"
    using Cons.IH [OF wf2 pl2 Cons.prems(3) r2r dist cond] by blast
  moreover have "ha_state s2 = ha_state sb" using s1(5) by (simp add: s2_def linked_def)
  moreover have "?nid \<notin> nl_node_id ` set ns" using Cons.prems(5) by auto
  ultimately show ?case using step r2 m2 by (intro exI [of _ sb']) (simp del: sb_nodes.simps)
qed

section \<open>A record\<close>

lemma id_unused:
  assumes "gld_wf sb" and "\<forall>n e. abs_dir sb n = Some e \<longrightarrow> de_id e \<noteq> rid"
  shows "tbl_get (rsc_info_id sb) (key32 rid) = None"
proof (rule ccontr)
  assume "tbl_get (rsc_info_id sb) (key32 rid) \<noteq> None"
  then obtain p ri where "rscs sb p = Some ri" "gr_rsc_id ri = rid"
    using assms(1) by (auto simp: gld_wf_def ids_wf_def)
  then show False using assms(2) abs_dir_Some [OF assms(1)] by (force simp: dir_of_def)
qed

definition strip :: "dir_entry \<Rightarrow> dir_entry" where
  "strip e = e\<lparr>de_mode := SA_LCK_MODE_UNSET\<rparr>"

text \<open>A resource the standby director does not know is created first, without nodes.\<close>

definition sync_rsc :: "gld_env \<Rightarrow> GLSV_GLD_RSC_INFO \<Rightarrow> GLSV_GLD_RSC_INFO" where
  "sync_rsc E ri = (new_rsc (gr_rsc_id ri) (gr_lck_name ri) (ge_time E))\<lparr>gr_can_orphan := gr_can_orphan ri\<rparr>"

lemma proc_create:
  assumes inv: "gld_inv sb" and pl: "placed rp np sb" and sp: "sync_ptrs rp np" and ha: "ha_state sb \<noteq> SA_AMF_HA_ACTIVE"
    and src: "gld_wf cb" "rscs cb p = Some ri"
    and none: "abs_dir sb (gr_lck_name ri) = None" and new: "\<forall>n e. abs_dir sb n = Some e \<longrightarrow> de_id e \<noteq> gr_rsc_id ri"
    and free: "210 \<le> unat f" "\<forall>n e. abs_dir sb n = Some e \<longrightarrow> de_id e \<noteq> f"
  obtains c where "gld_wf c" and "placed rp np c" and "ha_state c = ha_state sb" and "node_map c = node_map sb"
    and "rscs sb (rp (gr_rsc_id ri)) = None" and "rscs c = (rscs sb)(rp (gr_rsc_id ri) \<mapsto> sync_rsc E ri)"
    and "\<forall>es. es \<noteq> [] \<longrightarrow> gld_sb_proc_data_rsp (E\<lparr>ge_rsc_ptr := rp (gr_rsc_id ri)\<rparr>) np (a2s_details ri es) sb
       = do { cb \<leftarrow> sb_nodes (E\<lparr>ge_rsc_ptr := rp (gr_rsc_id ri)\<rparr>) np (rp (gr_rsc_id ri)) es c;
              Some (cb, NCSCC_RC_SUCCESS) }"
proof -
  let ?rid = "gr_rsc_id ri" and ?name = "gr_lck_name ri"
  let ?r = "rp (gr_rsc_id ri)" and ?E = "E\<lparr>ge_rsc_ptr := rp (gr_rsc_id ri)\<rparr>"
  have wf: "gld_wf sb" using inv by (simp add: gld_inv_def)
  note unused = id_unused [OF wf new]
  have rnone: "rscs sb ?r = None"
  proof (rule ccontr)
    assume "rscs sb ?r \<noteq> None"
    then obtain x where x: "rscs sb ?r = Some x" by auto
    then have "?r = rp (gr_rsc_id x)" using pl by (simp add: placed_def)
    then have "gr_rsc_id x = ?rid" using sp by (simp add: sync_ptrs_def inj_eq)
    then show False using new abs_dir_Some [OF wf x] by (force simp: dir_of_def)
  qed
  have env: "rsc_env_ok ?E sb"
    using rnone sp free(1) id_unused [OF wf free(2)] by (auto simp: rsc_env_ok_def sync_ptrs_def)
  obtain c where c: "gld_add_rsc_info ?E ?name ?rid sb = Some (c, Some ?r, SA_AIS_OK)"
      "rscs c ?r = Some (new_rsc ?rid ?name (ge_time E))"
    using sb_add_rsc_run [OF inv env ha wf_id_nonzero [OF src] wf_name_nonzero [OF src] none new] by auto
  have cr: "created ?E ?name sb c" using add_rsc_run [OF wf env, of ?name ?rid] c(1) by auto
  then have wfc: "gld_wf c" and nc: "nodes c = nodes sb" "glnd_details c = glnd_details sb" "ha_state c = ha_state sb"
    and rc: "rscs c = (rscs sb)(?r \<mapsto> new_rsc ?rid ?name (ge_time E))"
    using c(2) by (auto simp: created_def)
  define c2 where "c2 = c\<lparr>rscs := (rscs c)(?r \<mapsto> sync_rsc E ri)\<rparr>"
  have up: "rsc_upd ?r (\<lambda>x. x\<lparr>gr_can_orphan := gr_can_orphan ri\<rparr>) c = Some c2"
    using c(2) by (simp add: rsc_upd_def c2_def sync_rsc_def)
  show thesis
  proof (rule that [of c2])
    show "gld_wf c2"
      by (rule same_shape_wf [OF _ wfc]) (use c(2) in \<open>simp add: same_shape_def c2_def sync_rsc_def rsc_shape_def\<close>)
    show "node_map c2 = node_map sb" using nc by (simp add: c2_def) (rule node_map_cong; simp)
    show "placed rp np c2" using pl nc rc by (auto simp: placed_def c2_def sync_rsc_def new_rsc_def)
    show "\<forall>es. es \<noteq> [] \<longrightarrow> gld_sb_proc_data_rsp ?E np (a2s_details ri es) sb
       = do { cb \<leftarrow> sb_nodes ?E np ?r es c2; Some (cb, NCSCC_RC_SUCCESS) }"
      using unused c(1) up by (simp add: gld_sb_proc_data_rsp_def a2s_details_def del: bind_Some_iff)
  qed (use nc rc rnone in \<open>simp_all add: c2_def\<close>)
qed

lemma proc_data_run:
  assumes inv: "gld_inv sb" and pl: "placed rp np sb" and sp: "sync_ptrs rp np" and ha: "ha_state sb \<noteq> SA_AMF_HA_ACTIVE"
    and src: "gld_wf cb" "rscs cb p = Some ri" and ns: "gr_node_list ri \<noteq> []"
    and none: "abs_dir sb (gr_lck_name ri) = None" and new: "\<forall>n e. abs_dir sb n = Some e \<longrightarrow> de_id e \<noteq> gr_rsc_id ri"
    and free: "210 \<le> unat f" "\<forall>n e. abs_dir sb n = Some e \<longrightarrow> de_id e \<noteq> f"
    and sub: "\<forall>i d. node_map sb i = Some d \<longrightarrow> node_map cb i = Some d"
  shows "\<exists>sb'. gld_sb_proc_data_rsp (E\<lparr>ge_rsc_ptr := rp (gr_rsc_id ri)\<rparr>) np (sync_rec cb p) sb
        = Some (sb', NCSCC_RC_SUCCESS)
      \<and> gld_inv sb' \<and> placed rp np sb' \<and> ha_state sb' = ha_state sb
      \<and> abs_dir sb' = (abs_dir sb)(gr_lck_name ri \<mapsto> strip (dir_of ri))
      \<and> (\<forall>i d. node_map sb' i = Some d \<longrightarrow> node_map cb i = Some d)"
proof -
  let ?ns = "gr_node_list ri" and ?r = "rp (gr_rsc_id ri)" and ?E = "E\<lparr>ge_rsc_ptr := rp (gr_rsc_id ri)\<rparr>"
  have wf: "gld_wf sb" and live: "live_wf sb" using inv by (simp_all add: gld_inv_def)
  obtain c where c: "gld_wf c" "placed rp np c" "ha_state c = ha_state sb" "node_map c = node_map sb"
      "rscs sb ?r = None" "rscs c = (rscs sb)(?r \<mapsto> sync_rsc E ri)"
      "\<forall>es. es \<noteq> [] \<longrightarrow> gld_sb_proc_data_rsp ?E np (a2s_details ri es) sb
       = do { cb \<leftarrow> sb_nodes ?E np ?r es c; Some (cb, NCSCC_RC_SUCCESS) }"
    by (rule proc_create [OF inv pl sp ha src none new free, of E])
  have mem: "m_NCS_NODE_ID_FROM_MDS_DEST (nl_dest_id n) = nl_node_id n \<and> nl_node_id n \<noteq> 0
      \<and> (node_map c (nl_node_id n) = None \<or> node_map c (nl_node_id n) = Some (nl_dest_id n))"
    if "n \<in> set ?ns" for n
    using wf_member [OF src that] sub c(4) by (metis not_Some_eq option.inject)
  have dist: "distinct (map nl_node_id (gr_node_list (sync_rsc E ri) @ ?ns))"
    using src by (simp add: sync_rsc_def new_rsc_def gld_wf_def members_wf_def)
  have rc: "rscs c ?r = Some (sync_rsc E ri)" using c(6) by simp
  obtain sb' where sb': "sb_nodes ?E np ?r (sync_nodes cb ?ns) c = Some sb'" "gld_wf sb'" "placed rp np sb'"
      "ha_state sb' = ha_state c"
      "rscs sb' = (rscs c)(?r \<mapsto> (sync_rsc E ri)\<lparr>gr_node_list := gr_node_list (sync_rsc E ri) @ ?ns\<rparr>)"
      "\<forall>n \<in> set ?ns. node_map sb' (nl_node_id n) = Some (nl_dest_id n)"
      "\<forall>i. i \<notin> nl_node_id ` set ?ns \<longrightarrow> node_map sb' i = node_map c i"
    using sb_nodes_run [OF c(1,2) sp rc dist mem, where E = ?E and st = "\<lambda>n. status_of cb (nl_node_id n)"]
    unfolding sync_nodes_def by auto
  define rf where "rf = (sync_rsc E ri)\<lparr>gr_node_list := ?ns\<rparr>"
  have rs: "rscs sb' = (rscs sb)(?r \<mapsto> rf)"
    using sb'(5) c(6) by (simp add: rf_def sync_rsc_def new_rsc_def)
  have "live_wf sb'" using live ns by (auto simp: live_wf_def rs rf_def)
  moreover have "abs_dir sb' = (abs_dir sb)(gr_lck_name rf \<mapsto> dir_of rf)"
    by (rule abs_dir_update [OF wf sb'(2) _ rs]) (use c(5) in simp_all)
  moreover have "dir_of rf = strip (dir_of ri)" "gr_lck_name rf = gr_lck_name ri"
    by (simp_all add: rf_def sync_rsc_def new_rsc_def dir_of_def strip_def)
  moreover have "node_map cb i = Some d" if "node_map sb' i = Some d" for i d
  proof (cases "i \<in> nl_node_id ` set ?ns")
    case True
    then obtain n where "n \<in> set ?ns" "i = nl_node_id n" by auto
    then show ?thesis using sb'(6) that wf_member(1) [OF src] by auto
  qed (use sb'(7) c(4) sub that in auto)
  moreover have "gld_sb_proc_data_rsp ?E np (sync_rec cb p) sb = Some (sb', NCSCC_RC_SUCCESS)"
    using src(2) ns c(7) [rule_format, of "sync_nodes cb ?ns"] sb'(1) by (simp add: sync_rec_def sync_nodes_def)
  ultimately show ?thesis using sb' c(3) by (simp add: gld_inv_def)
qed

section \<open>A whole cold sync\<close>

text \<open>The standby director has the resources named in \<open>S\<close>, without the orphan lock modes.\<close>

definition synced :: "(u32 \<Rightarrow> ptr) \<Rightarrow> (u32 \<Rightarrow> ptr) \<Rightarrow> GLSV_GLD_CB \<Rightarrow> SaNameT set \<Rightarrow> GLSV_GLD_CB \<Rightarrow> bool" where
  "synced rp np cb S sb \<longleftrightarrow> gld_inv sb \<and> placed rp np sb \<and> ha_state sb \<noteq> SA_AMF_HA_ACTIVE
     \<and> abs_dir sb = (\<lambda>n. if n \<in> S then map_option strip (abs_dir cb n) else None)
     \<and> (\<forall>i d. node_map sb i = Some d \<longrightarrow> node_map cb i = Some d)"

lemma synced_cnt: "synced rp np cb S sb \<Longrightarrow> synced rp np cb S (sb\<lparr>gld_async_cnt := x\<rparr>)"
  using cnt_frame(1) [of sb x] same_view_dir [OF same_view_cnt, of sb x] placed_same_view [OF same_view_cnt]
  by (auto simp: synced_def gld_inv_def)

definition names_of :: "GLSV_GLD_CB \<Rightarrow> ptr list \<Rightarrow> SaNameT set" where
  "names_of cb ps = (\<lambda>p. gr_lck_name (the (rscs cb p))) ` set ps"

lemma synced_new:
  assumes wf: "gld_wf cb" and sb: "synced rp np cb S sb" and p: "rscs cb p = Some ri" and new: "gr_lck_name ri \<notin> S"
    and free: "\<forall>n e. abs_dir cb n = Some e \<longrightarrow> de_id e \<noteq> f"
  shows "gld_inv sb" and "placed rp np sb" and "ha_state sb \<noteq> SA_AMF_HA_ACTIVE" and "abs_dir sb (gr_lck_name ri) = None"
    and "\<forall>n x. abs_dir sb n = Some x \<longrightarrow> de_id x \<noteq> gr_rsc_id ri"
    and "\<forall>n x. abs_dir sb n = Some x \<longrightarrow> de_id x \<noteq> f"
    and "\<forall>i d. node_map sb i = Some d \<longrightarrow> node_map cb i = Some d"
proof -
  note s = sb [unfolded synced_def]
  have copy: "\<exists>e'. abs_dir cb n = Some e' \<and> de_id e' = de_id x \<and> n \<in> S" if "abs_dir sb n = Some x" for n x
    using s that by (auto simp: strip_def split: if_splits)
  show "\<forall>n x. abs_dir sb n = Some x \<longrightarrow> de_id x \<noteq> gr_rsc_id ri"
  proof (intro allI impI notI)
    fix n x
    assume "abs_dir sb n = Some x" and i: "de_id x = gr_rsc_id ri"
    then obtain e' where e': "abs_dir cb n = Some e'" "de_id e' = gr_rsc_id ri" "n \<in> S" using copy by force
    then obtain p' ri' where p': "rscs cb p' = Some ri'" "gr_lck_name ri' = n" "e' = dir_of ri'" by (metis abs_dir_SomeD)
    then have "p' = p" by (intro wf_id_unique [OF wf p'(1) p]) (use e'(2) in \<open>simp add: dir_of_def\<close>)
    then show False using p p' e'(3) new by simp
  qed
  show "\<forall>n x. abs_dir sb n = Some x \<longrightarrow> de_id x \<noteq> f" using copy free by metis
qed (use sb new in \<open>simp_all add: synced_def\<close>)

lemma record_synced:
  assumes wf: "gld_wf cb" and sp: "sync_ptrs rp np" and p: "rscs cb p = Some ri" and ns: "gr_node_list ri \<noteq> []"
    and free: "210 \<le> unat f" "\<forall>n e. abs_dir cb n = Some e \<longrightarrow> de_id e \<noteq> f"
    and sb: "synced rp np cb S sb" and new: "gr_lck_name ri \<notin> S"
  shows "\<exists>sb'. gld_sb_proc_data_rsp (E\<lparr>ge_rsc_ptr := rp (gr_rsc_id ri)\<rparr>) np (sync_rec cb p) sb
        = Some (sb', NCSCC_RC_SUCCESS) \<and> synced rp np cb (insert (gr_lck_name ri) S) sb'"
proof -
  note s = synced_new [OF wf sb p new free(2)]
  have e: "abs_dir cb (gr_lck_name ri) = Some (dir_of ri)" by (rule abs_dir_Some [OF wf p])
  obtain sb' where sb': "gld_sb_proc_data_rsp (E\<lparr>ge_rsc_ptr := rp (gr_rsc_id ri)\<rparr>) np (sync_rec cb p) sb
        = Some (sb', NCSCC_RC_SUCCESS)"
      "gld_inv sb'" "placed rp np sb'" "ha_state sb' = ha_state sb"
      "abs_dir sb' = (abs_dir sb)(gr_lck_name ri \<mapsto> strip (dir_of ri))"
      "\<forall>i d. node_map sb' i = Some d \<longrightarrow> node_map cb i = Some d"
    using proc_data_run [OF s(1,2) sp s(3) wf p ns s(4,5) free(1) s(6,7), of E] by blast
  moreover have "abs_dir sb' = (\<lambda>n. if n \<in> insert (gr_lck_name ri) S then map_option strip (abs_dir cb n) else None)"
    using sb'(5) sb e by (auto simp: fun_eq_iff synced_def)
  ultimately show ?thesis using s(3) by (auto simp: synced_def)
qed

lemma dec_records_run:
  assumes wf: "gld_wf cb" and sp: "sync_ptrs rp np"
    and free: "210 \<le> unat f" "\<forall>n e. abs_dir cb n = Some e \<longrightarrow> de_id e \<noteq> f"
  shows "synced rp np cb S sb \<Longrightarrow> distinct ps \<Longrightarrow> S \<inter> names_of cb ps = {}
     \<Longrightarrow> (\<And>p. p \<in> set ps \<Longrightarrow> \<exists>ri. rscs cb p = Some ri \<and> gr_node_list ri \<noteq> [])
     \<Longrightarrow> \<exists>sb'. dec_records E rp np (map (sync_rec cb) ps) sb = Some sb' \<and> synced rp np cb (S \<union> names_of cb ps) sb'"
proof (induction ps arbitrary: S sb)
  case (Cons p ps)
  obtain ri where ri: "rscs cb p = Some ri" "gr_node_list ri \<noteq> []" using Cons.prems(4) by fastforce
  have new: "gr_lck_name ri \<notin> S" using Cons.prems(3) ri(1) by (simp add: names_of_def)
  obtain s1 where s1: "gld_sb_proc_data_rsp (E\<lparr>ge_rsc_ptr := rp (gr_rsc_id ri)\<rparr>) np (sync_rec cb p) sb
        = Some (s1, NCSCC_RC_SUCCESS)" "synced rp np cb (insert (gr_lck_name ri) S) s1"
    using record_synced [OF wf sp ri free Cons.prems(1) new] by blast
  have "gr_lck_name ri \<notin> names_of cb ps"
  proof
    assume "gr_lck_name ri \<in> names_of cb ps"
    then obtain p' where p': "p' \<in> set ps" "gr_lck_name (the (rscs cb p')) = gr_lck_name ri" by (auto simp: names_of_def)
    then obtain ri' where "rscs cb p' = Some ri'" using Cons.prems(4) by fastforce
    then have "p' = p" using wf_name_unique [OF wf _ ri(1)] p'(2) by simp
    then show False using p'(1) Cons.prems(2) by simp
  qed
  then have dis: "insert (gr_lck_name ri) S \<inter> names_of cb ps = {}" using Cons.prems(3) by (auto simp: names_of_def)
  obtain sb' where sb': "dec_records E rp np (map (sync_rec cb) ps) s1 = Some sb'"
      "synced rp np cb (insert (gr_lck_name ri) S \<union> names_of cb ps) sb'"
    using Cons.IH [OF s1(2) _ dis] Cons.prems(2,4) by auto
  have "ad_rsc_id (sync_rec cb p) = gr_rsc_id ri" using ri(1) by (simp add: sync_rec_def a2s_details_def Let_def)
  moreover have "insert (gr_lck_name ri) S \<union> names_of cb ps = S \<union> names_of cb (p # ps)"
    using ri(1) by (auto simp: names_of_def)
  ultimately show ?case using s1(1) sb' by (simp del: bind_Some_iff)
qed (simp add: names_of_def)

text \<open>The messages are decoded one after the other; their boundaries do not matter.\<close>

lemma dec_records_append:
  "dec_records E rp np (xs @ ys) sb = (dec_records E rp np xs sb \<bind> dec_records E rp np ys)"
  by (induction xs arbitrary: sb) (simp_all add: split_def)

lemma dec_messages_run:
  assumes wf: "gld_wf cb" and sp: "sync_ptrs rp np"
    and free: "210 \<le> unat f" "\<forall>n e. abs_dir cb n = Some e \<longrightarrow> de_id e \<noteq> f"
  shows "synced rp np cb S sb \<Longrightarrow> concat (map sm_records ms) = map (sync_rec cb) ps
     \<Longrightarrow> \<forall>m \<in> set ms. sm_data m \<Longrightarrow> distinct ps \<Longrightarrow> S \<inter> names_of cb ps = {}
     \<Longrightarrow> (\<And>p. p \<in> set ps \<Longrightarrow> \<exists>ri. rscs cb p = Some ri \<and> gr_node_list ri \<noteq> [])
     \<Longrightarrow> \<exists>sb'. for_each (glsv_gld_mbcsv_dec_sync_resp E rp np) ms sb = Some sb'
          \<and> synced rp np cb (S \<union> names_of cb ps) sb'"
proof (induction ms arbitrary: S sb ps)
  case Nil
  then show ?case by (simp add: names_of_def)
next
  case (Cons m ms)
  let ?k = "length (sm_records m)"
  let ?a = "take ?k ps" and ?b = "drop ?k ps"
  have parts: "sm_records m = map (sync_rec cb) ?a" "concat (map sm_records ms) = map (sync_rec cb) ?b"
    using Cons.prems(2) by (auto simp: append_eq_conv_conj take_map drop_map)
  have sets: "set ?a \<subseteq> set ps" "set ?b \<subseteq> set ps" "set ?a \<inter> set ?b = {}" "set ?a \<union> set ?b = set ps"
    using Cons.prems(4) by (auto simp: set_take_disj_set_drop_if_distinct dest: in_set_takeD in_set_dropD)
      (metis Un_iff append_take_drop_id set_append)+
  have names: "names_of cb ?a \<union> names_of cb ?b = names_of cb ps" using sets(4) by (auto simp: names_of_def)
  have disj: "names_of cb ?a \<inter> names_of cb ?b = {}"
  proof (rule ccontr)
    assume "names_of cb ?a \<inter> names_of cb ?b \<noteq> {}"
    then obtain x y where xy: "x \<in> set ?a" "y \<in> set ?b"
        "gr_lck_name (the (rscs cb x)) = gr_lck_name (the (rscs cb y))" by (auto simp: names_of_def)
    obtain rx ry where r: "rscs cb x = Some rx" "rscs cb y = Some ry"
      using Cons.prems(6) sets(1,2) xy(1,2) by (meson subsetD)
    have "gr_lck_name rx = gr_lck_name ry" using xy(3) by (simp only: r option.sel)
    then have "x = y" by (rule wf_name_unique [OF wf r])
    then show False using xy sets(3) by blast
  qed
  have dA: "distinct ?a" "distinct ?b" using Cons.prems(4) by (simp_all add: distinct_take distinct_drop)
  have iA: "S \<inter> names_of cb ?a = {}" "(S \<union> names_of cb ?a) \<inter> names_of cb ?b = {}"
    using Cons.prems(5) names disj by blast+
  have mA: "\<And>p. p \<in> set ?a \<Longrightarrow> \<exists>ri. rscs cb p = Some ri \<and> gr_node_list ri \<noteq> []"
    "\<And>p. p \<in> set ?b \<Longrightarrow> \<exists>ri. rscs cb p = Some ri \<and> gr_node_list ri \<noteq> []"
    using Cons.prems(6) sets(1,2) by blast+
  obtain s1 where s1: "dec_records E rp np (sm_records m) sb = Some s1" "synced rp np cb (S \<union> names_of cb ?a) s1"
    using dec_records_run [OF wf sp free Cons.prems(1) dA(1) iA(1) mA(1), of E] parts(1) by auto
  let ?s = "s1\<lparr>gld_async_cnt := sm_async_cnt m\<rparr>"
  have "\<exists>sb'. for_each (glsv_gld_mbcsv_dec_sync_resp E rp np) ms ?s = Some sb'
      \<and> synced rp np cb ((S \<union> names_of cb ?a) \<union> names_of cb ?b) sb'"
    by (rule Cons.IH [OF synced_cnt [OF s1(2)] parts(2) _ dA(2) iA(2) mA(2)]) (use Cons.prems(3) in simp_all)
  moreover have "glsv_gld_mbcsv_dec_sync_resp E rp np m sb = Some ?s"
    using s1(1) Cons.prems(3) by (simp add: glsv_gld_mbcsv_dec_sync_resp_def)
  ultimately show ?case using names by (simp add: Un_assoc del: bind_Some_iff)
qed

lemma synced_init: "ha \<noteq> SA_AMF_HA_ACTIVE \<Longrightarrow> synced rp np cb {} (gld_cb_init h ha)"
  by (simp add: synced_def gld_inv_init)
     (simp add: gld_cb_init_def placed_def abs_dir_def node_map_def find_node_def fun_eq_iff)

lemma all_names: "gld_wf cb \<Longrightarrow> (\<lambda>n. if n \<in> names_of cb (rsc_list cb) then map_option strip (abs_dir cb n) else None)
    = (\<lambda>n. map_option strip (abs_dir cb n))"
proof
  fix n
  assume wf: "gld_wf cb"
  have "n \<in> names_of cb (rsc_list cb)" if e: "abs_dir cb n = Some e" for e
  proof -
    obtain p ri where "rscs cb p = Some ri" "gr_lck_name ri = n" by (rule abs_dir_SomeD [OF e])
    then show ?thesis using wf_rsc_in [OF wf, of p ri]
      unfolding names_of_def by (intro image_eqI [of _ _ p]) simp_all
  qed
  then show "(if n \<in> names_of cb (rsc_list cb) then map_option strip (abs_dir cb n) else None)
      = map_option strip (abs_dir cb n)" by (cases "abs_dir cb n") auto
qed

section \<open>An orphaned resource without nodes\<close>

lemma sb_node_zero: "gld_wf sb \<Longrightarrow> sb_node E np zero_entry sb = None"
proof -
  assume wf: "gld_wf sb"
  have "m_NCS_NODE_ID_FROM_MDS_DEST 0 = 0" by (simp add: m_NCS_NODE_ID_FROM_MDS_DEST_def)
  moreover have "find_node sb 0 = None"
    using wf_find_node [OF wf, of 0] wf_node_nonzero [OF wf] by (metis not_Some_eq)
  ultimately show ?thesis
    by (simp add: sb_node_def zero_entry_def gld_add_glnd_node_def tbl_add_def)
qed

end
