(* ===== verification/Gld_Destroy.thy ===== *)
theory Gld_Destroy
  imports Gld_Sync_Dec
begin

text \<open>
  Emptying the database of a director (\<open>gld_cb_destroy\<close>): the loops end, and nothing is left.
\<close>

section \<open>Nodes\<close>

lemma getnext_None_empty: "tbl_wf t \<Longrightarrow> tbl_getnext t None = None \<longleftrightarrow> t = []"
  by (simp add: tbl_getnext_first split: list.split)

lemma destroy_refs_run: "tbl_wf t \<Longrightarrow> length t < n \<Longrightarrow> destroy_refs n t = Some ([], NCSCC_RC_SUCCESS)"
proof (induction n arbitrary: t)
  case (Suc n)
  show ?case
  proof (cases t)
    case Nil
    then show ?thesis using Suc.prems by (simp add: tbl_getnext_first)
  next
    case (Cons e es)
    obtain k v where e: "e = (k, v)" by (cases e)
    have "tbl_del k t = (es, NCSCC_RC_SUCCESS)"
      using tbl_del_head [of k v es] Suc.prems(1) Cons e snd_tbl_del [of k t]
      by (cases "tbl_del k t") (simp add: tbl_get_def)
    moreover have "destroy_refs n es = Some ([], NCSCC_RC_SUCCESS)"
      using Suc Cons by (intro Suc.IH) (auto intro: tbl_wf_tl)
    ultimately show ?thesis using Suc.prems(1) Cons e by (simp add: tbl_getnext_first)
  qed
qed simp

text \<open>What is left of the invariant while the nodes are removed.\<close>

lemma nodes_wf_entries:
  assumes "nodes_wf cb" and "glnd_details cb = (k, q) # es"
  obtains nd where "nodes cb q = Some nd" and "k = key32 (gn_node_id nd)" and "tbl_wf (gn_rsc_info_tree nd)"
proof -
  have "tbl_get (glnd_details cb) k = Some q" using assms(2) by (simp add: tbl_get_def)
  then show thesis using that assms(1) by (auto simp: nodes_wf_def)
qed

lemma nodes_wf_drop:
  assumes wf: "nodes_wf cb" and g: "glnd_details cb = (k, q) # es"
  shows "nodes_wf (cb\<lparr>glnd_details := es, nodes := (nodes cb)(q := None)\<rparr>)"
proof -
  obtain nd where nd: "nodes cb q = Some nd" "k = key32 (gn_node_id nd)" by (rule nodes_wf_entries [OF wf g])
  have t: "tbl_wf ((k, q) # es)" using wf g by (simp add: nodes_wf_def)
  have get: "tbl_get es k' = (if k' = k then None else tbl_get (glnd_details cb) k')" for k'
    using t g by (force simp: tbl_get_def tbl_wf_def map_of_eq_None_iff)
  have "tbl_get es k' = Some q' \<longleftrightarrow> (\<exists>nd'. ((nodes cb)(q := None)) q' = Some nd' \<and> k' = key32 (gn_node_id nd'))" for k' q'
  proof (cases "q' = q")
    case True
    have "tbl_get (glnd_details cb) k' = Some q \<Longrightarrow> k' = k" using wf nd by (auto simp: nodes_wf_def)
    then show ?thesis using True get [of k'] by auto
  next
    case False
    have "tbl_get (glnd_details cb) k' = Some q' \<longleftrightarrow> (\<exists>nd'. nodes cb q' = Some nd' \<and> k' = key32 (gn_node_id nd'))"
      using wf by (simp add: nodes_wf_def)
    moreover have "k' \<noteq> k" if "tbl_get (glnd_details cb) k' = Some q'" using that False g by (auto simp: tbl_get_def)
    ultimately show ?thesis using False get [of k'] by auto
  qed
  then show ?thesis using wf t tbl_wf_tl [OF t] by (auto simp: nodes_wf_def)
qed

text \<open>A state that differs in its nodes only.\<close>

definition sans_nodes :: "GLSV_GLD_CB \<Rightarrow> GLSV_GLD_CB" where
  "sans_nodes cb = cb\<lparr>glnd_details := [], nodes := Map.empty\<rparr>"

lemma destroy_nodes_run:
  "nodes_wf cb \<Longrightarrow> length (glnd_details cb) < n \<Longrightarrow>
   destroy_nodes n cb = Some (sans_nodes cb, NCSCC_RC_SUCCESS)"
proof (induction n arbitrary: cb)
  case (Suc n)
  have t: "tbl_wf (glnd_details cb)" using Suc.prems(1) by (simp add: nodes_wf_def)
  show ?case
  proof (cases "glnd_details cb")
    case Nil
    then have "nodes cb = Map.empty"
      using Suc.prems(1) by (auto simp: nodes_wf_def tbl_get_def fun_eq_iff) (metis not_Some_eq)
    then have "sans_nodes cb = cb" using Nil by (simp add: sans_nodes_def)
    then show ?thesis using Nil by (simp add: tbl_getnext_def)
  next
    case (Cons e es)
    obtain k q where e: "e = (k, q)" by (cases e)
    note g = Cons [unfolded e]
    obtain nd where nd: "nodes cb q = Some nd" "k = key32 (gn_node_id nd)" "tbl_wf (gn_rsc_info_tree nd)"
      by (rule nodes_wf_entries [OF Suc.prems(1) g])
    let ?c = "cb\<lparr>glnd_details := es, nodes := (nodes cb)(q := None)\<rparr>"
    have refs: "destroy_refs (Suc (length (gn_rsc_info_tree nd))) (gn_rsc_info_tree nd) = Some ([], NCSCC_RC_SUCCESS)"
      by (rule destroy_refs_run [OF nd(3)]) simp
    have del: "tbl_del_node k q (glnd_details cb) = (es, NCSCC_RC_SUCCESS)"
      using tbl_del_head [of k q es] t g snd_tbl_del [of k "glnd_details cb"]
      by (cases "tbl_del k (glnd_details cb)") (simp add: tbl_del_node_def tbl_get_def)
    have "destroy_nodes n ?c = Some (sans_nodes ?c, NCSCC_RC_SUCCESS)"
      by (rule Suc.IH [OF nodes_wf_drop [OF Suc.prems(1) g]]) (use Suc.prems(2) g in simp)
    moreover have "sans_nodes ?c = sans_nodes cb" by (simp add: sans_nodes_def)
    ultimately show ?thesis using tbl_getnext_first [OF t] g nd refs del
      by (simp del: bind_Some_iff destroy_refs.simps)
  qed
qed simp

section \<open>Resources\<close>

text \<open>The resources with their node lists cleared, as the loop leaves each before it frees it.\<close>

definition cleared :: "GLSV_GLD_CB \<Rightarrow> GLSV_GLD_CB" where
  "cleared cb = cb\<lparr>rscs := (\<lambda>p. map_option (\<lambda>ri. ri\<lparr>gr_node_list := []\<rparr>) (rscs cb p))\<rparr>"

lemma cleared_ex:
  "(\<exists>ri. rscs (cleared cb) p = Some ri \<and> P (gr_rsc_id ri) (gr_lck_name ri))
     \<longleftrightarrow> (\<exists>ri. rscs cb p = Some ri \<and> P (gr_rsc_id ri) (gr_lck_name ri))"
  by (cases "rscs cb p") (simp_all add: cleared_def)

lemma cleared_wf:
  assumes "gld_wf cb"
  shows "gld_wf (cleared (sans_nodes cb))"
proof -
  have dom: "dom (\<lambda>p. map_option (\<lambda>ri. ri\<lparr>gr_node_list := []\<rparr>) (rscs cb p)) = dom (rscs cb)" by auto
  have ids: "ids_wf (cleared (sans_nodes cb))"
    using assms cleared_ex [of "sans_nodes cb" _ "\<lambda>i _. _ = key32 i"]
    by (simp add: gld_wf_def ids_wf_def) (simp add: cleared_def sans_nodes_def)
  have names: "names_wf (cleared (sans_nodes cb))"
    using assms cleared_ex [of "sans_nodes cb" _ "\<lambda>i n. _ = name_key (net_name n)
        \<and> _ = \<lparr>map_rsc_id = i, map_rsc_name = net_name n\<rparr>"]
    by (simp add: gld_wf_def names_wf_def) (simp add: cleared_def sans_nodes_def)
  show ?thesis using assms ids names dom
    by (simp add: gld_wf_def) (auto simp: cleared_def sans_nodes_def list_wf_def nodes_wf_def refs_wf_def members_wf_def
        tbl_get_def tbl_wf_def)
qed

lemma cleared_empty:
  assumes wf: "gld_wf (cleared cb)" and "rsc_info_id cb = []" and "nodes cb = Map.empty"
  shows "rscs cb = Map.empty" and "rsc_list cb = []" and "rsc_map_info cb = []" and "gld_inv cb"
    and "abs_dir cb = Map.empty"
proof -
  have "rscs (cleared cb) p = None" for p
    using wf assms(2) by (cases "rscs (cleared cb) p") (auto simp: gld_wf_def ids_wf_def cleared_def tbl_get_def)
  then show rs: "rscs cb = Map.empty" by (auto simp: cleared_def fun_eq_iff)
  then have c: "cleared cb = cb" by (simp add: cleared_def)
  have "set (rsc_list cb) = {}" using wf rs by (simp add: c gld_wf_def list_wf_def)
  then show rl: "rsc_list cb = []" by simp
  have "tbl_get (rsc_map_info cb) k = None" for k using wf rs by (auto simp: c gld_wf_def names_wf_def)
  then show "rsc_map_info cb = []" by (cases "rsc_map_info cb") (auto simp: tbl_get_None_iff)
  show "gld_inv cb" using wf rs by (simp add: c gld_inv_def live_wf_def)
  show "abs_dir cb = Map.empty" by (simp add: abs_dir_def rl fun_eq_iff)
qed

lemma destroy_rsc_step:
  assumes wf: "gld_wf (cleared cb)" and nn: "nodes cb = Map.empty" and g: "rsc_info_id cb = (k, r) # es"
  shows "\<exists>c1 cb'. rsc_upd r (\<lambda>ri. ri\<lparr>gr_node_list := []\<rparr>) cb = Some c1 \<and> gld_free_rsc_info r c1 = Some cb'
      \<and> gld_wf (cleared cb') \<and> nodes cb' = Map.empty \<and> glnd_details cb' = glnd_details cb
      \<and> rsc_info_id cb' = es \<and> ha_state cb' = ha_state cb \<and> gld_async_cnt cb' = gld_async_cnt cb"
proof -
  have ids: "ids_wf (cleared cb)" and names: "names_wf (cleared cb)" using wf by (simp_all add: gld_wf_def)
  have get: "tbl_get (rsc_info_id cb) k = Some r" using g by (simp add: tbl_get_def)
  then obtain ri where ri: "rscs (cleared cb) r = Some ri" "k = key32 (gr_rsc_id ri)" "gr_node_list ri = []"
    using ids by (auto simp: ids_wf_def cleared_def)
  then obtain ri0 where ri0: "rscs cb r = Some ri0" "ri = ri0\<lparr>gr_node_list := []\<rparr>" by (auto simp: cleared_def)
  define c1 where "c1 = cb\<lparr>rscs := (rscs cb)(r \<mapsto> ri)\<rparr>"
  have up: "rsc_upd r (\<lambda>ri. ri\<lparr>gr_node_list := []\<rparr>) cb = Some c1" using ri0 by (simp add: rsc_upd_def c1_def)
  have t: "tbl_wf (rsc_info_id cb)" "tbl_wf (rsc_map_info cb)" using ids names by (simp_all add: ids_wf_def names_wf_def cleared_def)
  have del: "tbl_del_node (key32 (gr_rsc_id ri)) r (rsc_info_id cb) = tbl_del k (rsc_info_id cb)"
    using get ri(2) by (simp add: tbl_del_node_def)
  have es: "fst (tbl_del k (rsc_info_id cb)) = es" using tbl_del_head [of k r es] t(1) g by simp
  let ?k = "name_key (net_name (gr_lck_name ri))"
  obtain cb' where run: "gld_free_rsc_info r c1 = Some cb'"
    and cb': "rscs cb' = (rscs cb)(r := None)" "rsc_list cb' = remove1 r (rsc_list cb)"
      "nodes cb' = nodes cb" "glnd_details cb' = glnd_details cb"
      "rsc_info_id cb' = fst (tbl_del k (rsc_info_id cb))"
      "rsc_map_info cb' = fst (tbl_del ?k (rsc_map_info cb))"
      "nxt_rsc_id cb' = nxt_rsc_id cb" "ha_state cb' = ha_state cb" "gld_async_cnt cb' = gld_async_cnt cb"
    using ri(3) del by (auto simp: gld_free_rsc_info_def gld_emit_def gld_emits_def Let_def c1_def)
  have "gld_wf (cleared cb')"
    by (rule wf_free_rsc [OF wf ri(1,3)])
       (use cb' t ri(2) in \<open>auto simp: cleared_def fun_eq_iff tbl_wf_del tbl_get_del\<close>)
  then show ?thesis using up run cb' es nn by auto
qed

lemma destroy_rscs_run:
  "gld_wf (cleared cb) \<Longrightarrow> nodes cb = Map.empty \<Longrightarrow> length (rsc_info_id cb) < n \<Longrightarrow>
   \<exists>cb'. destroy_rscs n cb = Some cb' \<and> gld_wf (cleared cb') \<and> nodes cb' = Map.empty \<and> glnd_details cb' = glnd_details cb
      \<and> rsc_info_id cb' = [] \<and> ha_state cb' = ha_state cb \<and> gld_async_cnt cb' = gld_async_cnt cb"
proof (induction n arbitrary: cb)
  case (Suc n)
  have t: "tbl_wf (rsc_info_id cb)" using Suc.prems(1) by (simp add: gld_wf_def ids_wf_def cleared_def)
  show ?case
  proof (cases "rsc_info_id cb")
    case Nil
    then show ?thesis using Suc.prems by (simp add: tbl_getnext_def)
  next
    case (Cons e es)
    obtain k r where e: "e = (k, r)" by (cases e)
    obtain c1 c2 where c: "rsc_upd r (\<lambda>ri. ri\<lparr>gr_node_list := []\<rparr>) cb = Some c1" "gld_free_rsc_info r c1 = Some c2"
        "gld_wf (cleared c2)" "nodes c2 = Map.empty" "glnd_details c2 = glnd_details cb"
        "rsc_info_id c2 = es" "ha_state c2 = ha_state cb" "gld_async_cnt c2 = gld_async_cnt cb"
      using destroy_rsc_step [OF Suc.prems(1,2) Cons [unfolded e]] by blast
    obtain cb' where "destroy_rscs n c2 = Some cb'" "gld_wf (cleared cb')" "nodes cb' = Map.empty"
        "glnd_details cb' = glnd_details c2" "rsc_info_id cb' = []" "ha_state cb' = ha_state c2"
        "gld_async_cnt cb' = gld_async_cnt c2"
      using Suc.IH [OF c(3,4)] Suc.prems(3) Cons c(6) by auto
    then show ?thesis using tbl_getnext_first [OF t] Cons e c by (simp del: bind_Some_iff)
  qed
qed simp

lemma cb_destroy_run:
  assumes "gld_wf cb"
  shows "\<exists>cb'. gld_cb_destroy cb = Some (cb', NCSCC_RC_SUCCESS) \<and> gld_inv cb' \<and> rscs cb' = Map.empty
      \<and> nodes cb' = Map.empty \<and> glnd_details cb' = [] \<and> rsc_info_id cb' = [] \<and> rsc_map_info cb' = [] \<and> rsc_list cb' = []
      \<and> ha_state cb' = ha_state cb \<and> gld_async_cnt cb' = gld_async_cnt cb"
proof -
  have "nodes_wf cb" using assms by (simp add: gld_wf_def)
  then have n: "destroy_nodes (Suc (length (glnd_details cb))) cb = Some (sans_nodes cb, NCSCC_RC_SUCCESS)"
    by (rule destroy_nodes_run) simp
  obtain cb' where r: "destroy_rscs (Suc (length (rsc_info_id (sans_nodes cb)))) (sans_nodes cb) = Some cb'"
      "gld_wf (cleared cb')" "nodes cb' = Map.empty" "glnd_details cb' = []" "rsc_info_id cb' = []"
      "ha_state cb' = ha_state cb" "gld_async_cnt cb' = gld_async_cnt cb"
    using destroy_rscs_run [OF cleared_wf [OF assms], of "Suc (length (rsc_info_id (sans_nodes cb)))"]
    by (auto simp: sans_nodes_def simp del: destroy_rscs.simps)
  show ?thesis using n r cleared_empty [OF r(2,5,3)]
    by (simp add: gld_cb_destroy_def del: bind_Some_iff destroy_nodes.simps destroy_rscs.simps)
qed

lemma synced_destroyed:
  assumes "gld_inv cb'" "rscs cb' = Map.empty" "nodes cb' = Map.empty" "glnd_details cb' = []" "rsc_list cb' = []"
    and "ha_state cb' \<noteq> SA_AMF_HA_ACTIVE"
  shows "synced rp np cb {} cb'"
  using assms by (simp add: synced_def placed_def node_map_def find_node_def tbl_get_def)
    (simp add: abs_dir_def fun_eq_iff)

end
