(* ===== verification/Gld_Props.thy ===== *)
theory Gld_Props
  imports Gld_Dispatch
begin

text \<open>
  What the lock director guarantees, over the definitions of its code, with an application of
  each property at a control block reached by concrete events.
\<close>

interpretation gld_dir: lock_directory gld_inv abs_dir
proof unfold_locales
  fix s m n e e'
  assume inv: "gld_inv s" and e: "abs_dir s m = Some e" and e': "abs_dir s n = Some e'"
    and eq: "de_id e = de_id e'"
  have wf: "gld_wf s" using inv by (simp add: gld_inv_def)
  obtain p ri where p: "rscs s p = Some ri" "gr_lck_name ri = m" "e = dir_of ri"
    by (rule abs_dir_SomeD [OF e])
  obtain p' ri' where p': "rscs s p' = Some ri'" "gr_lck_name ri' = n" "e' = dir_of ri'"
    by (rule abs_dir_SomeD [OF e'])
  have "p = p'" by (rule wf_id_unique [OF wf p(1) p'(1)]) (use eq p p' in \<open>simp add: dir_of_def\<close>)
  with p p' show "m = n" by simp
next
  fix s n e
  assume inv: "gld_inv s" and e: "abs_dir s n = Some e"
  obtain p ri where p: "rscs s p = Some ri" "e = dir_of ri" by (rule abs_dir_SomeD [OF e])
  show "distinct (map nl_node_id (de_nodes e))"
    using inv p by (simp add: gld_inv_def gld_wf_def members_wf_def dir_of_def)
  assume "de_nodes e = []"
  then show "de_orphan e" using inv p by (auto simp: gld_inv_def live_wf_def dir_of_def)
qed

section \<open>Runs\<close>

text \<open>One event, and a sequence of events, each with its own environment.\<close>

inductive gld_step :: "GLSV_GLD_CB \<Rightarrow> GLSV_GLD_CB \<Rightarrow> bool" where
  step: "(ha_state cb = SA_AMF_HA_ACTIVE \<longrightarrow> gld_evt_ok E fr evt cb)
         \<Longrightarrow> gld_process_evt E fr evt cb = Some cb' \<Longrightarrow> gld_step cb cb'"

inductive_cases gld_stepE: "gld_step cb cb'"

fun gld_run :: "(gld_env \<times> MDS_DEST \<times> gld_evt_info) list \<Rightarrow> GLSV_GLD_CB \<Rightarrow> GLSV_GLD_CB option" where
  "gld_run [] cb = Some cb"
| "gld_run ((E, fr, evt) # evs) cb = do { cb \<leftarrow> gld_process_evt E fr evt cb; gld_run evs cb }"

lemma gld_step_inv: "gld_step cb cb' \<Longrightarrow> gld_inv cb \<Longrightarrow> gld_inv cb'"
proof (erule gld_stepE)
  fix E fr evt
  assume "ha_state cb = SA_AMF_HA_ACTIVE \<longrightarrow> gld_evt_ok E fr evt cb"
    and "gld_process_evt E fr evt cb = Some cb'" and "gld_inv cb"
  then show "gld_inv cb'" using process_evt_run [of cb E fr evt] by auto
qed

lemma gld_reach_inv: "gld_step\<^sup>*\<^sup>* (gld_cb_init hdl ha) cb \<Longrightarrow> gld_inv cb"
  by (induction rule: rtranclp_induct) (auto intro: gld_inv_init gld_step_inv)

section \<open>A concrete run\<close>

text \<open>
  Node 1 opens the resource \<open>A\<close>, node 2 opens \<open>A\<close> and \<open>B\<close>: \<open>A\<close> has id 1 and master 1.
\<close>

definition gld_demo_env :: "ptr \<Rightarrow> ptr \<Rightarrow> gld_env" where
  "gld_demo_env p q = \<lparr>ge_rsc_ptr = p, ge_node_ptr = q, ge_tmr = 9, ge_time = 0,
     ge_imm_create = (\<lambda>_. SA_AIS_OK), ge_chgrole = NCSCC_RC_SUCCESS, ge_up = (\<lambda>_. True)\<rparr>"

definition nmA :: SaNameT where "nmA = \<lparr>name_length = 1, name_value = [65]\<rparr>"
definition nmB :: SaNameT where "nmB = \<lparr>name_length = 1, name_value = [66]\<rparr>"

definition gld_demo_open :: "ptr \<Rightarrow> ptr \<Rightarrow> MDS_DEST \<Rightarrow> SaNameT \<Rightarrow> gld_env \<times> MDS_DEST \<times> gld_evt_info" where
  "gld_demo_open p q fr n = (gld_demo_env p q, fr,
     GLSV_GLD_EVT_RSC_OPEN \<lparr>ro_rsc_name = n, ro_rsc_id = 0, ro_flag = 1\<rparr>)"

text \<open>A check of the conditions along a run that evaluates.\<close>

definition evt_ok_x :: "gld_env \<Rightarrow> MDS_DEST \<Rightarrow> gld_evt_info \<Rightarrow> GLSV_GLD_CB \<Rightarrow> bool" where
  "evt_ok_x E fr evt cb =
     (case evt of
        GLSV_GLD_EVT_RSC_OPEN info \<Rightarrow>
          ge_rsc_ptr E \<noteq> 0 \<and> rscs cb (ge_rsc_ptr E) = None \<and> nodes cb (ge_node_ptr E) = None
          \<and> tbl_get (rsc_info_id cb) (key32 0xffffffff) = None \<and> m_NCS_NODE_ID_FROM_MDS_DEST fr \<noteq> 0
      | GLSV_GLD_EVT_GLND_OPERATIONAL \<Rightarrow> (\<forall>r \<in> set (rsc_list cb). rsc_master cb r \<noteq> None)
      | _ \<Rightarrow> True)"

fun run_ok :: "(gld_env \<times> MDS_DEST \<times> gld_evt_info) list \<Rightarrow> GLSV_GLD_CB \<Rightarrow> bool" where
  "run_ok [] cb = True"
| "run_ok ((E, fr, evt) # evs) cb =
     (evt_ok_x E fr evt cb \<and> (case gld_process_evt E fr evt cb of None \<Rightarrow> False | Some cb' \<Rightarrow> run_ok evs cb'))"

lemma evt_ok_x: "evt_ok_x E fr evt cb \<Longrightarrow> gld_evt_ok E fr evt cb"
proof (cases evt)
  case (GLSV_GLD_EVT_RSC_OPEN info)
  assume "evt_ok_x E fr evt cb"
  with GLSV_GLD_EVT_RSC_OPEN show ?thesis
    by (auto simp: evt_ok_x_def gld_evt_ok_def gld_env_ok_def rsc_env_ok_def
             intro!: exI [of _ "0xffffffff"])
qed (auto simp: evt_ok_x_def gld_evt_ok_def all_mastered_def)

lemma run_ok_inv:
  "run_ok evs cb \<Longrightarrow> gld_inv cb \<Longrightarrow> \<exists>cb'. gld_run evs cb = Some cb' \<and> gld_inv cb' \<and> gld_step\<^sup>*\<^sup>* cb cb'"
proof (induction evs cb rule: run_ok.induct)
  case (2 E fr evt evs cb)
  then obtain cb1 where 1: "gld_process_evt E fr evt cb = Some cb1" "run_ok evs cb1"
    and ok: "gld_evt_ok E fr evt cb" by (auto simp: evt_ok_x split: option.splits)
  have st: "gld_step cb cb1" using 1 ok by (auto intro: gld_step.intros)
  then have "gld_inv cb1" using "2.prems"(2) by (rule gld_step_inv)
  then obtain cb' where "gld_run evs cb1 = Some cb'" "gld_inv cb'" "gld_step\<^sup>*\<^sup>* cb1 cb'"
    using "2.IH" [OF 1] 1(2) "2.prems" by auto
  with 1 st show ?case by (auto intro: converse_rtranclp_into_rtranclp)
qed simp

definition gld_demo_evs :: "(gld_env \<times> MDS_DEST \<times> gld_evt_info) list" where
  "gld_demo_evs = [gld_demo_open 16 32 0x100000001 nmA, gld_demo_open 48 64 0x200000001 nmA,
                   gld_demo_open 48 80 0x200000001 nmB]"

definition gld_demo :: GLSV_GLD_CB where
  "gld_demo = the (gld_run gld_demo_evs (gld_cb_init 1 SA_AMF_HA_ACTIVE))"

lemma gld_demo_ok: "run_ok gld_demo_evs (gld_cb_init 1 SA_AMF_HA_ACTIVE)"
  by code_simp

lemma gld_demo_inv: "gld_inv gld_demo" "gld_step\<^sup>*\<^sup>* (gld_cb_init 1 SA_AMF_HA_ACTIVE) gld_demo"
  using run_ok_inv [OF gld_demo_ok gld_inv_init] by (auto simp: gld_demo_def)

lemma gld_demo_dir:
  "abs_dir gld_demo nmA = Some \<lparr>de_id = 1, de_nodes = [\<lparr>nl_dest_id = 0x100000001, nl_node_id = 1\<rparr>,
     \<lparr>nl_dest_id = 0x200000001, nl_node_id = 2\<rparr>], de_orphan = False, de_mode = SA_LCK_MODE_UNSET\<rparr>"
  "ha_state gld_demo = SA_AMF_HA_ACTIVE" "find_node gld_demo 1 = Some 32" "find_node gld_demo 2 = Some 64"
  by code_simp+

section \<open>Properties\<close>

text \<open>
  C14: whatever events the director handles from its initial state, with fresh memory and a
  free id at each open and no report of a known node while an orphaned resource is without
  nodes, its list of resources, its id, name and node trees, the reference trees of the nodes
  and the node lists of the resources stay consistent.
\<close>

theorem gld_reachable_invariant:
  assumes "gld_step\<^sup>*\<^sup>* (gld_cb_init hdl ha) cb"
  shows "gld_inv cb"
  using assms by (rule gld_reach_inv)

theorem gld_reachable_invariant_witness:
  "gld_step\<^sup>*\<^sup>* (gld_cb_init 1 SA_AMF_HA_ACTIVE) gld_demo \<and> gld_inv gld_demo"
  using gld_reachable_invariant [OF gld_demo_inv(2)] gld_demo_inv(2) by blast

text \<open>
  C15: in every reachable state a resource id belongs to one name, so that all nodes that know
  a resource by an id agree on its name and its master; and a resource that no node has open
  is kept only because it is orphaned.
\<close>

theorem gld_id_agreement:
  assumes "gld_step\<^sup>*\<^sup>* (gld_cb_init hdl ha) cb"
    and "abs_dir cb m = Some e" and "abs_dir cb n = Some e'" and "de_id e = de_id e'"
  shows "m = n \<and> hd (de_nodes e) = hd (de_nodes e') \<and> (de_nodes e = [] \<longrightarrow> de_orphan e)"
  using gld_dir.same_id_same_master [OF gld_reach_inv [OF assms(1)] assms(2-4)]
    gld_dir.orphan_only [OF gld_reach_inv [OF assms(1)] assms(2)] by blast

theorem gld_id_agreement_witness:
  "\<exists>e. abs_dir gld_demo nmA = Some e \<and> (de_nodes e = [] \<longrightarrow> de_orphan e)"
  using gld_id_agreement [OF gld_demo_inv(2) gld_demo_dir(1) gld_demo_dir(1) refl] gld_demo_dir(1) by blast

text \<open>
  C16: no event makes the director fault or loop: from a consistent state every event is
  processed, in any HA state, under the conditions on memory, ids and orphans of an active
  director.
\<close>

theorem gld_event_total:
  assumes "gld_inv cb" and "ha_state cb = SA_AMF_HA_ACTIVE \<longrightarrow> gld_evt_ok E fr evt cb"
  shows "\<exists>cb'. gld_process_evt E fr evt cb = Some cb' \<and> gld_inv cb'"
  using process_evt_run [of cb E fr evt] assms by blast

theorem gld_event_total_witness:
  "\<exists>cb'. gld_process_evt (gld_demo_env 0 0) 0 GLSV_GLD_EVT_QUISCED_STATE gld_demo = Some cb' \<and> gld_inv cb'"
  using gld_event_total [OF gld_demo_inv(1), of "gld_demo_env 0 0" 0 GLSV_GLD_EVT_QUISCED_STATE]
  by (simp add: gld_evt_ok_def)

text \<open>
  C17: an open request answers with success exactly by entering the sender at the end of the
  node list of the resource, which is created under an id no other resource has when the name
  is new. An open that fails leaves the directory as it was, or, when the answer could not be
  sent, removes the sender again and clears the orphan mark.
\<close>

theorem gld_open_refines:
  assumes "gld_inv cb" and "gld_env_ok E cb" and "m_NCS_NODE_ID_FROM_MDS_DEST fr \<noteq> 0"
  shows "\<exists>cb' rc. gld_rsc_open E fr info cb = Some (cb', rc) \<and> gld_inv cb'
      \<and> open_outcome E fr (ro_rsc_name info) cb rc (abs_dir cb')"
  using open_run [OF assms] by blast

theorem gld_open_refines_witness:
  "\<exists>cb' rc. gld_rsc_open (gld_demo_env 96 112) 0x300000001 \<lparr>ro_rsc_name = nmA, ro_rsc_id = 0, ro_flag = 0\<rparr>
       gld_demo = Some (cb', rc) \<and> gld_inv cb'
       \<and> open_outcome (gld_demo_env 96 112) 0x300000001 nmA gld_demo rc (abs_dir cb')"
proof -
  have "evt_ok_x (gld_demo_env 96 112) 0x300000001
      (GLSV_GLD_EVT_RSC_OPEN \<lparr>ro_rsc_name = nmA, ro_rsc_id = 0, ro_flag = 0\<rparr>) gld_demo" by code_simp
  then have "gld_env_ok (gld_demo_env 96 112) gld_demo \<and> m_NCS_NODE_ID_FROM_MDS_DEST 0x300000001 \<noteq> 0"
    using evt_ok_x by (force simp: gld_evt_ok_def)
  then show ?thesis
    using gld_open_refines [OF gld_demo_inv(1), of "gld_demo_env 96 112" "0x300000001"
        "\<lparr>ro_rsc_name = nmA, ro_rsc_id = 0, ro_flag = 0\<rparr>"] by simp
qed

text \<open>
  C18: a close by a node that has the resource open is acknowledged; when it is the node's last
  reference the node leaves the node list, the orphan mark becomes the one the close carries,
  and the resource is released when no node is left and the mark is not set.
\<close>

theorem gld_close_refines:
  assumes "gld_inv cb" and "rscs cb p = Some ri" and "gr_rsc_id ri = rd_rsc_id d"
    and "has_node (m_NCS_NODE_ID_FROM_MDS_DEST fr) (gr_node_list ri)"
  shows "\<exists>cb'. gld_rsc_close E fr d cb = Some (cb', NCSCC_RC_SUCCESS) \<and> gld_inv cb'
      \<and> abs_dir cb' = (if rd_lcl_ref_cnt d = 0
           then dir_leave (gr_lck_name ri) (m_NCS_NODE_ID_FROM_MDS_DEST fr) (rd_orphan d) (abs_dir cb)
           else abs_dir cb)"
  using close_run [OF assms] by blast

definition gld_demo_close :: GLSV_RSC_DETAILS where
  "gld_demo_close = \<lparr>rd_rsc_id = 1, rd_orphan = False, rd_lck_mode = SA_LCK_MODE_UNSET, rd_lcl_ref_cnt = 0\<rparr>"

theorem gld_close_refines_witness:
  "\<exists>ri cb'. rscs gld_demo 16 = Some ri \<and> gr_rsc_id ri = 1
     \<and> gld_rsc_close (gld_demo_env 0 0) 0x100000001 gld_demo_close gld_demo = Some (cb', NCSCC_RC_SUCCESS)
     \<and> gld_inv cb' \<and> abs_dir cb' = dir_leave (gr_lck_name ri) 1 False (abs_dir gld_demo)"
proof -
  have "\<exists>ri. rscs gld_demo 16 = Some ri \<and> gr_rsc_id ri = 1 \<and> has_node 1 (gr_node_list ri)"
  proof -
    have "map_option (\<lambda>ri. gr_rsc_id ri = 1 \<and> has_node 1 (gr_node_list ri)) (rscs gld_demo 16) = Some True"
      by code_simp
    then show ?thesis by auto
  qed
  then obtain ri where ri: "rscs gld_demo 16 = Some ri" "gr_rsc_id ri = 1" "has_node 1 (gr_node_list ri)"
    by blast
  have nid: "m_NCS_NODE_ID_FROM_MDS_DEST 0x100000001 = 1" by code_simp
  show ?thesis
    using gld_close_refines [OF gld_demo_inv(1) ri(1), of gld_demo_close "0x100000001" "gld_demo_env 0 0"]
      ri nid by (simp add: gld_demo_close_def)
qed

text \<open>
  C19: when the restart timer of a node expires, the active director forgets the node: it is in
  no node list any more, a resource only it had open is released unless it is orphaned, and
  in every resource others have open too the first of them in the order of opening is the
  master.
\<close>

theorem gld_restart_timeout_refines:
  assumes "gld_inv cb" and "ha_state cb = SA_AMF_HA_ACTIVE"
    and "find_node cb (m_NCS_NODE_ID_FROM_MDS_DEST dest) = Some q"
  shows "\<exists>cb'. gld_process_tmr_node_restart_wait_timeout E dest cb = Some (cb', NCSCC_RC_SUCCESS)
      \<and> gld_inv cb' \<and> nodes cb' q = None
      \<and> abs_dir cb' = dir_down (m_NCS_NODE_ID_FROM_MDS_DEST dest) (abs_dir cb)
      \<and> (\<forall>n e m k ns. abs_dir cb n = Some e \<longrightarrow> de_nodes e = m # k # ns \<longrightarrow>
           (\<exists>e'. abs_dir cb' n = Some e' \<and> hd (de_nodes e') =
              (if nl_node_id m = m_NCS_NODE_ID_FROM_MDS_DEST dest then k else m)))"
proof -
  obtain cb' where cb': "gld_process_tmr_node_restart_wait_timeout E dest cb = Some (cb', NCSCC_RC_SUCCESS)"
      "gld_inv cb'" "abs_dir cb' = dir_down (m_NCS_NODE_ID_FROM_MDS_DEST dest) (abs_dir cb)"
      "nodes cb' q = None"
    using restart_timeout_active_run [OF assms] by blast
  show ?thesis
  proof (intro exI [of _ cb'] conjI allI impI)
    fix n e m k ns
    assume "abs_dir cb n = Some e" and "de_nodes e = m # k # ns"
    with cb'(3) show "\<exists>e'. abs_dir cb' n = Some e' \<and> hd (de_nodes e') =
        (if nl_node_id m = m_NCS_NODE_ID_FROM_MDS_DEST dest then k else m)"
      using gld_dir.down_successor [OF assms(1)] by simp
  qed (use cb' in simp_all)
qed

theorem gld_restart_timeout_refines_witness:
  "\<exists>cb'. gld_process_tmr_node_restart_wait_timeout (gld_demo_env 0 0) 0x100000001 gld_demo
       = Some (cb', NCSCC_RC_SUCCESS) \<and> (\<exists>e. abs_dir cb' nmA = Some e \<and> nl_node_id (hd (de_nodes e)) = 2)"
proof -
  have nid: "m_NCS_NODE_ID_FROM_MDS_DEST 0x100000001 = 1" by code_simp
  have fnd: "find_node gld_demo (m_NCS_NODE_ID_FROM_MDS_DEST 0x100000001) = Some 32"
    using gld_demo_dir(3) by (simp only: nid)
  obtain cb' where run: "gld_process_tmr_node_restart_wait_timeout (gld_demo_env 0 0) 0x100000001 gld_demo
        = Some (cb', NCSCC_RC_SUCCESS)"
    and heir: "\<forall>n e m k ns. abs_dir gld_demo n = Some e \<longrightarrow> de_nodes e = m # k # ns \<longrightarrow>
        (\<exists>e'. abs_dir cb' n = Some e' \<and> hd (de_nodes e') =
              (if nl_node_id m = m_NCS_NODE_ID_FROM_MDS_DEST 0x100000001 then k else m))"
    using gld_restart_timeout_refines [OF gld_demo_inv(1) gld_demo_dir(2) fnd, of "gld_demo_env 0 0"] by blast
  from heir [rule_format, OF gld_demo_dir(1)] run nid show ?thesis by auto
qed

text \<open>
  C20: the report of a known node director faults the active director exactly when some
  resource has an empty node list: the handler reads \<open>node_list->node_id\<close> without a test.
\<close>

theorem gld_operational_fault_iff:
  assumes "gld_inv cb" and "find_node cb (m_NCS_NODE_ID_FROM_MDS_DEST fr) = Some q"
  shows "gld_glnd_operational E fr cb = None \<longleftrightarrow>
     (\<exists>r \<in> set (rsc_list cb). rsc_master cb r = None)"
  using operational_fault [OF assms, of E] operational_run [OF assms(1), of fr E]
  by (force simp: all_mastered_def)

theorem gld_operational_fault_iff_witness:
  "gld_glnd_operational (gld_demo_env 0 0) 0x200000001 gld_demo = None \<longleftrightarrow>
     (\<exists>r \<in> set (rsc_list gld_demo). rsc_master gld_demo r = None)"
proof -
  have nid: "m_NCS_NODE_ID_FROM_MDS_DEST 0x200000001 = 2" by code_simp
  show ?thesis
    using gld_operational_fault_iff [OF gld_demo_inv(1), of "0x200000001" 64 "gld_demo_env 0 0"]
      gld_demo_dir(4) nid by simp
qed

text \<open>
  C21: the fault is reached from the initial state by five events: node 1 opens \<open>A\<close>, node 2
  opens \<open>B\<close>, node 1 marks \<open>A\<close> as orphaned and goes down for good, node 2 reports itself
  operational (after a restart of its node director). Every event before the last is handled.
\<close>

definition orphan_evs :: "(gld_env \<times> MDS_DEST \<times> gld_evt_info) list" where
  "orphan_evs =
     [gld_demo_open 16 32 0x100000001 nmA, gld_demo_open 48 64 0x200000001 nmB,
      (gld_demo_env 0 0, 0x100000001, GLSV_GLD_EVT_SET_ORPHAN
         \<lparr>rd_rsc_id = 1, rd_orphan = True, rd_lck_mode = SA_LCK_EX_LOCK_MODE, rd_lcl_ref_cnt = 1\<rparr>),
      (gld_demo_env 0 0, 0, GLSV_GLD_EVT_RESTART_TIMEOUT
         \<lparr>et_mdest_id = 0x100000001, et_resource_id = 0, et_opq_hdl = 0\<rparr>)]"


text \<open>
  C22: the id generator ends and returns an id that is not 0 and not in use whenever some id
  from 210 up is free; started at or above 210 it always ends, and gives up (0) when all ids
  from 210 up are in use, without changing anything.
\<close>

theorem gld_gen_rsc_id_fresh:
  fixes cb :: GLSV_GLD_CB
  assumes "nxt_rsc_id cb \<noteq> 0"
  shows "((\<exists>f. 210 \<le> unat f \<and> tbl_get (rsc_info_id cb) (key32 f) = None) \<longrightarrow>
           (\<exists>i. gld_gen_rsc_id cb = Some (cb\<lparr>nxt_rsc_id := next_id i\<rparr>, i) \<and> i \<noteq> 0
                \<and> tbl_get (rsc_info_id cb) (key32 i) = None))
      \<and> ((\<forall>f. 210 \<le> unat f \<longrightarrow> tbl_get (rsc_info_id cb) (key32 f) \<noteq> None) \<and> 210 \<le> unat (nxt_rsc_id cb)
           \<longrightarrow> gld_gen_rsc_id cb = Some (cb, 0))"
proof (intro conjI impI)
  assume "\<exists>f. 210 \<le> unat f \<and> tbl_get (rsc_info_id cb) (key32 f) = None"
  then obtain f where f: "210 \<le> unat f" "tbl_get (rsc_info_id cb) (key32 f) = None" by blast
  obtain i where "gen_loop (rsc_info_id cb) (nxt_rsc_id cb) (nxt_rsc_id cb) = Some (Some i)"
      "tbl_get (rsc_info_id cb) (key32 i) = None" "i \<noteq> 0"
    using gen_loop_free [OF f(2,1) disjI1 [OF refl] assms] by blast
  then show "\<exists>i. gld_gen_rsc_id cb = Some (cb\<lparr>nxt_rsc_id := next_id i\<rparr>, i) \<and> i \<noteq> 0
      \<and> tbl_get (rsc_info_id cb) (key32 i) = None" by (simp add: gld_gen_rsc_id_def)
next
  assume "(\<forall>f. 210 \<le> unat f \<longrightarrow> tbl_get (rsc_info_id cb) (key32 f) \<noteq> None) \<and> 210 \<le> unat (nxt_rsc_id cb)"
  then show "gld_gen_rsc_id cb = Some (cb, 0)"
    using gen_loop_full [of "rsc_info_id cb" "nxt_rsc_id cb" "nxt_rsc_id cb"]
    by (auto simp: gld_gen_rsc_id_def)
qed

theorem gld_gen_rsc_id_fresh_witness:
  "\<exists>i. gld_gen_rsc_id gld_demo = Some (gld_demo\<lparr>nxt_rsc_id := next_id i\<rparr>, i) \<and> i \<noteq> 0
      \<and> tbl_get (rsc_info_id gld_demo) (key32 i) = None"
proof -
  have nz: "nxt_rsc_id gld_demo \<noteq> 0" and free: "tbl_get (rsc_info_id gld_demo) (key32 0xffffffff) = None"
    by code_simp+
  have "210 \<le> unat (0xffffffff :: u32)" by simp
  with free have "\<exists>f :: u32. 210 \<le> unat f \<and> tbl_get (rsc_info_id gld_demo) (key32 f) = None" by blast
  with gld_gen_rsc_id_fresh [OF nz] show ?thesis by blast
qed

text \<open>
  C23: when the master of a resource leaves and others have it open, the active director starts
  the re-election timer (30 ticks) and broadcasts the next node in line as the new master with
  the status of an election in progress.
\<close>

theorem gld_election_broadcast:
  assumes "rscs cb r = Some ri" and "nodes cb q = Some nd" and "r \<noteq> NULL"
    and "gr_node_list ri = m # n # ns" and "nl_node_id m = gn_node_id nd"
    and "ha_state cb = SA_AMF_HA_ACTIVE"
  shows "\<exists>cb' stop. gld_rsc_rmv_node_ref E r (Some ref) q orphan_flag cb = Some cb'
      \<and> gld_outs cb' = gld_outs cb @ stop @
          [GLD_TMR_START (if gt_tmr_id (gr_reelection_timer ri) = 0 then ge_tmr E
                          else gt_tmr_id (gr_reelection_timer ri)) 30,
           GLD_BCAST (RSC_NEW_MASTER \<lparr>nm_rsc_id = gr_rsc_id ri, nm_master_dest_id = nl_dest_id n,
             nm_orphan = orphan_flag, nm_orphan_lck_mode = gr_orphan_lck_mode ri,
             nm_status = GLND_RESOURCE_ELECTION_IN_PROGESS\<rparr>)]
      \<and> (stop = [] \<or> (\<exists>i. stop = [GLD_TMR_STOP i]))"
proof -
  have p: "m_GLSV_CONVERT_SATIME_TEN_MILLI_SEC GLSV_GLND_MASTER_REELECTION_WAIT_TIME = 30"
    by (simp add: m_GLSV_CONVERT_SATIME_TEN_MILLI_SEC_def GLSV_GLND_MASTER_REELECTION_WAIT_TIME_def)
  show ?thesis
    using assms by (simp add: gld_rsc_rmv_node_ref_def rsc_start_reelection_def gld_start_tmr_def
        gld_snd_master_status_def gld_emit_def gld_emits_def Let_def p)
qed

theorem gld_election_broadcast_witness:
  "\<exists>cb'. gld_rsc_rmv_node_ref (gld_demo_env 0 0) 16 (Some \<lparr>ref_rsc_id = 1, ref_rsc_info = 16\<rparr>) 32 False gld_demo
      = Some cb' \<and> last (gld_outs cb') = GLD_BCAST (RSC_NEW_MASTER \<lparr>nm_rsc_id = 1,
          nm_master_dest_id = 0x200000001, nm_orphan = False, nm_orphan_lck_mode = SA_LCK_MODE_UNSET,
          nm_status = GLND_RESOURCE_ELECTION_IN_PROGESS\<rparr>)"
proof -
  let ?m = "\<lparr>nl_dest_id = 0x100000001, nl_node_id = 1\<rparr>" and ?n = "\<lparr>nl_dest_id = 0x200000001, nl_node_id = 2\<rparr>"
  have "map_option (\<lambda>ri. (gr_rsc_id ri, gr_node_list ri, gr_orphan_lck_mode ri)) (rscs gld_demo 16)
        = Some (1, [?m, ?n], SA_LCK_MODE_UNSET)"
    and "map_option gn_node_id (nodes gld_demo 32) = Some 1" by code_simp+
  then obtain ri nd where "rscs gld_demo 16 = Some ri" "gr_rsc_id ri = 1" "gr_node_list ri = [?m, ?n]"
      "gr_orphan_lck_mode ri = SA_LCK_MODE_UNSET" "nodes gld_demo 32 = Some nd" "gn_node_id nd = 1" by auto
  then show ?thesis
    using gld_election_broadcast [of gld_demo 16 ri 32 nd ?m ?n "[]" "gld_demo_env 0 0"
        "\<lparr>ref_rsc_id = 1, ref_rsc_info = 16\<rparr>" False] gld_demo_dir(2) by auto
qed

text \<open>
  C24: the answer to an open request of a node that does not have the resource open yet carries
  the id and the master the directory has for it afterwards.
\<close>

theorem gld_open_answer:
  assumes "gld_wf cb" and "rscs cb p = Some ri" and "nodes cb q = Some nd"
    and "\<not> has_node (gn_node_id nd) (gr_node_list ri)"
  shows "\<exists>cb' d e. join_node E q p (gn_node_id nd) cb = Some (cb', ge_up E (gn_dest_id nd))
      \<and> gld_outs cb' = gld_outs cb @ [GLD_SND (gn_dest_id nd) (RSC_GLD_DETAILS d)]
      \<and> abs_dir cb' (gr_lck_name ri) = Some e \<and> has_node (gn_node_id nd) (de_nodes e)
      \<and> gi_rsc_name d = gr_lck_name ri \<and> gi_rsc_id d = de_id e
      \<and> gi_master_dest_id d = nl_dest_id (hd (de_nodes e)) \<and> gi_can_orphan d = de_orphan e
      \<and> gi_error d = SA_AIS_OK"
proof -
  let ?n = "\<lparr>nl_dest_id = gn_dest_id nd, nl_node_id = gn_node_id nd\<rparr>"
  have "abs_dir (linked p q ri nd cb) (gr_lck_name ri) = Some ((dir_of ri)\<lparr>de_nodes := gr_node_list ri @ [?n]\<rparr>)"
    using linked_dir [OF assms, of 0] abs_dir_Some [OF assms(1,2)] assms(4)
    by (simp add: dir_join_def dir_of_def)
  then show ?thesis
    using join_new_run [OF assms, of E]
    by (simp add: inv_emit open_details_def dir_of_def has_node_def) (simp add: gld_emit_def linked_def)
qed

theorem gld_open_answer_witness:
  "\<exists>cb' d. join_node (gld_demo_env 0 0) 32 48 1 gld_demo = Some (cb', True)
      \<and> gld_outs cb' = gld_outs gld_demo @ [GLD_SND 0x100000001 (RSC_GLD_DETAILS d)] \<and> gi_rsc_name d = nmB"
proof -
  have "map_option (\<lambda>nd. (gn_node_id nd, gn_dest_id nd)) (nodes gld_demo 32) = Some (1, 0x100000001)"
    and "map_option (\<lambda>ri. (gr_lck_name ri, has_node 1 (gr_node_list ri))) (rscs gld_demo 48) = Some (nmB, False)"
    by code_simp+
  then obtain nd ri where "nodes gld_demo 32 = Some nd" "gn_node_id nd = 1" "gn_dest_id nd = 0x100000001"
      "rscs gld_demo 48 = Some ri" "gr_lck_name ri = nmB" "\<not> has_node 1 (gr_node_list ri)" by auto
  moreover have "gld_wf gld_demo" using gld_demo_inv(1) by (simp add: gld_inv_def)
  moreover have "ge_up (gld_demo_env 0 0) d" for d by (simp add: gld_demo_env_def)
  ultimately show ?thesis using gld_open_answer [of gld_demo 48 ri 32 nd "gld_demo_env 0 0"] by auto
qed

end
