(* ===== verification/Gld_Sb_Props.thy ===== *)
theory Gld_Sb_Props
  imports Gld_Pair Gld_Props
begin

text \<open>
  What the pair of lock directors guarantees: the standby director is an exact copy along every
  run in which no node goes down with resources whose orphan mark differs from the one its
  handler reads; where the copy breaks, and what follows from that after a failover.
\<close>

section \<open>Guards that evaluate\<close>

definition down_faithful_x :: "GLSV_GLD_CB \<Rightarrow> u32 \<Rightarrow> bool" where
  "down_faithful_x cb nid \<longleftrightarrow> (case node_map cb nid of
      None \<Rightarrow> True
    | Some dest \<Rightarrow> (\<forall>p \<in> set (rsc_list cb). case rscs cb p of
        None \<Rightarrow> True
      | Some ri \<Rightarrow> has_node nid (gr_node_list ri) \<longrightarrow> gr_can_orphan ri = a2s_down_orphan dest))"

fun pair_ok_x :: "pair_evt \<Rightarrow> GLSV_GLD_CB \<times> GLSV_GLD_CB \<Rightarrow> bool" where
  "pair_ok_x (On_Active E fr evt E') (cb, sb) \<longleftrightarrow> ha_state cb = SA_AMF_HA_ACTIVE \<and> evt_ok_x E fr evt cb
     \<and> (case evt of
          GLSV_GLD_EVT_RSC_OPEN _ \<Rightarrow> ge_up E (node_dest cb fr) \<and> evt_ok_x E' fr evt sb
        | GLSV_GLD_EVT_RESTART_TIMEOUT t \<Rightarrow> down_faithful_x cb (m_NCS_NODE_ID_FROM_MDS_DEST (et_mdest_id t))
        | _ \<Rightarrow> True)"
| "pair_ok_x (On_Standby E fr evt) s \<longleftrightarrow> True"

lemma down_faithful_x: "gld_inv cb \<Longrightarrow> down_faithful_x cb nid \<Longrightarrow> down_faithful cb nid"
proof -
  assume inv: "gld_inv cb" and x: "down_faithful_x cb nid"
  have wf: "gld_wf cb" using inv by (simp add: gld_inv_def)
  show "down_faithful cb nid"
    unfolding down_faithful_def
  proof (intro allI impI)
    fix dest n e
    assume "node_map cb nid = Some dest" and e: "abs_dir cb n = Some e" and "has_node nid (de_nodes e)"
    moreover obtain p ri where p: "rscs cb p = Some ri" "e = dir_of ri" by (rule abs_dir_SomeD [OF e])
    moreover have "p \<in> set (rsc_list cb)" using wf_rsc_in [OF wf p(1)] by simp
    ultimately show "de_orphan e = a2s_down_orphan dest" using x
      by (auto simp: down_faithful_x_def dir_of_def split: option.split_asm)
  qed
qed

lemma pair_ok_x: "pair_good s \<Longrightarrow> pair_ok_x e s \<Longrightarrow> pair_ok e s"
proof (cases e)
  case (On_Active E fr evt E')
  assume g: "pair_good s" and ok: "pair_ok_x e s"
  obtain cb sb where s: "s = (cb, sb)" by (cases s)
  have evt: "gld_evt_ok E fr evt cb" using ok On_Active s by (simp add: evt_ok_x)
  show ?thesis
  proof (cases evt)
    case (GLSV_GLD_EVT_RSC_OPEN info)
    then have "gld_evt_ok E' fr evt sb" using ok On_Active s by (simp add: evt_ok_x)
    with evt ok On_Active s GLSV_GLD_EVT_RSC_OPEN show ?thesis by (simp add: gld_evt_ok_def)
  next
    case (GLSV_GLD_EVT_RESTART_TIMEOUT t)
    with evt ok On_Active s g show ?thesis using down_faithful_x by (simp add: pair_good_def)
  qed (use evt ok On_Active s in simp_all)
qed simp

lemma guarded_x: "pair_good s \<Longrightarrow> guarded pair_ok_x pair_step es s \<Longrightarrow> guarded pair_ok pair_step es s"
proof (induction es arbitrary: s)
  case (Cons e es)
  then have "pair_ok e s" by (simp add: pair_ok_x)
  then obtain s1 where "pair_step e s = Some s1" "pair_good s1" using gld_pair.progress Cons.prems(1) by blast
  with Cons \<open>pair_ok e s\<close> show ?case by simp
qed simp

section \<open>A concrete run\<close>

text \<open>
  Node 1 opens \<open>A\<close>, node 2 opens \<open>A\<close> and marks it as orphaned, node 1 closes it, the standby
  director notices that node 2 is gone, and it is back.
\<close>

definition pair_open :: "ptr \<Rightarrow> ptr \<Rightarrow> MDS_DEST \<Rightarrow> SaNameT \<Rightarrow> pair_evt" where
  "pair_open p q fr n = On_Active (gld_demo_env p q) fr
     (GLSV_GLD_EVT_RSC_OPEN \<lparr>ro_rsc_name = n, ro_rsc_id = 0, ro_flag = 1\<rparr>) (gld_demo_env (p + 1) (q + 1))"

definition pair_details :: "bool \<Rightarrow> u32 \<Rightarrow> GLSV_RSC_DETAILS" where
  "pair_details orphan n = \<lparr>rd_rsc_id = 1, rd_orphan = orphan, rd_lck_mode = SA_LCK_EX_LOCK_MODE, rd_lcl_ref_cnt = n\<rparr>"

definition pair_evt0 :: "MDS_DEST \<Rightarrow> gld_evt_info \<Rightarrow> pair_evt" where
  "pair_evt0 fr evt = On_Active (gld_demo_env 0 0) fr evt (gld_demo_env 0 0)"

definition pair_start :: "GLSV_GLD_CB \<times> GLSV_GLD_CB" where
  "pair_start = (gld_cb_init 1 SA_AMF_HA_ACTIVE, gld_cb_init 2 SA_AMF_HA_STANDBY)"

definition pair_evs :: "pair_evt list" where
  "pair_evs = [pair_open 16 32 0x100000001 nmA, pair_open 48 64 0x200000001 nmA,
     pair_evt0 0x200000001 (GLSV_GLD_EVT_SET_ORPHAN (pair_details True 1)),
     pair_evt0 0x100000001 (GLSV_GLD_EVT_RSC_CLOSE (pair_details True 0)),
     On_Standby (gld_demo_env 0 0) 0 (GLSV_GLD_EVT_GLND_DOWN 0x200000001),
     pair_evt0 0x200000002 GLSV_GLD_EVT_GLND_OPERATIONAL]"

lemma pair_start_good: "pair_good pair_start"
  by (simp add: pair_start_def pair_init)

lemma pair_evs_ok: "guarded pair_ok pair_step pair_evs pair_start"
proof (rule guarded_x [OF pair_start_good])
  show "guarded pair_ok_x pair_step pair_evs pair_start" by code_simp
qed

section \<open>Replication\<close>

text \<open>
  C25: from two fresh directors, along every sequence of events of the active director (each
  followed by the handling of its checkpoint messages by the standby one) and of events the
  standby director sees itself, neither faults and the standby director has exactly the
  directory and the node addresses of the active one; provided that answers to open requests
  are accepted, memory and ids do not run out, and no node goes down with a resource whose
  orphan mark is not the one the standby handler reads.
\<close>

theorem gld_replication:
  assumes "guarded pair_ok pair_step es (gld_cb_init h SA_AMF_HA_ACTIVE, gld_cb_init h' SA_AMF_HA_STANDBY)"
  shows "\<exists>cb sb. for_each pair_step es (gld_cb_init h SA_AMF_HA_ACTIVE, gld_cb_init h' SA_AMF_HA_STANDBY)
        = Some (cb, sb) \<and> gld_inv cb \<and> gld_inv sb \<and> abs_dir sb = abs_dir cb \<and> node_map sb = node_map cb"
  using gld_pair.run_good [OF pair_init assms] by (auto simp: pair_good_def mirror_def)

theorem gld_replication_witness:
  "\<exists>cb sb. for_each pair_step pair_evs (gld_cb_init 1 SA_AMF_HA_ACTIVE, gld_cb_init 2 SA_AMF_HA_STANDBY)
      = Some (cb, sb) \<and> abs_dir sb = abs_dir cb"
  using gld_replication [of pair_evs 1 2] pair_evs_ok by (auto simp: pair_start_def)

text \<open>
  C26: when the restart timer of a node expires the active director forgets the node and the
  standby one does the same; the two directories are equal afterwards if and only if each
  resource the node had open carried the orphan mark that the standby handler takes from the
  low octet of the node id.
\<close>

theorem gld_node_down_copy_iff:
  assumes "pair_good (cb, sb)" and "ha_state cb = SA_AMF_HA_ACTIVE"
    and "node_map cb (m_NCS_NODE_ID_FROM_MDS_DEST dest) = Some a"
  shows "\<exists>cb' sb'. gld_process_tmr_node_restart_wait_timeout E dest cb = Some (cb', NCSCC_RC_SUCCESS)
      \<and> replay E' cb cb' sb = Some sb' \<and> node_map sb' = node_map cb'
      \<and> (abs_dir sb' = abs_dir cb' \<longleftrightarrow> (\<forall>n e. abs_dir cb n = Some e \<longrightarrow>
            has_node (m_NCS_NODE_ID_FROM_MDS_DEST dest) (de_nodes e) \<longrightarrow> de_orphan e = a2s_down_orphan a))"
proof -
  have inv: "gld_inv cb" "gld_inv sb" "mirror cb sb" using assms(1) by (simp_all add: pair_good_def)
  obtain q where q: "find_node cb (m_NCS_NODE_ID_FROM_MDS_DEST dest) = Some q"
    using assms(3) by (auto simp: node_map_def split: option.split_asm)
  obtain cb' where run: "gld_process_tmr_node_restart_wait_timeout E dest cb = Some (cb', NCSCC_RC_SUCCESS)"
    and dir: "abs_dir cb' = dir_down (m_NCS_NODE_ID_FROM_MDS_DEST dest) (abs_dir cb)"
    using restart_timeout_active_run [OF inv(1) assms(2) q, of E] by blast
  show ?thesis
    using restart_replay [OF inv assms(2,3) run, of E'] run dir dir_drop_eq_down by fastforce
qed

theorem gld_node_down_copy_iff_witness:
  "\<exists>cb sb cb' sb'. for_each pair_step pair_evs pair_start = Some (cb, sb)
      \<and> gld_process_tmr_node_restart_wait_timeout (gld_demo_env 0 0) 0x200000002 cb = Some (cb', NCSCC_RC_SUCCESS)
      \<and> replay (gld_demo_env 0 0) cb cb' sb = Some sb' \<and> node_map sb' = node_map cb'"
proof -
  have "map_option (\<lambda>(cb, sb). (ha_state cb, node_map cb (m_NCS_NODE_ID_FROM_MDS_DEST 0x200000002)))
      (for_each pair_step pair_evs pair_start) = Some (SA_AMF_HA_ACTIVE, Some 0x200000002)" by code_simp
  then obtain cb sb where run: "for_each pair_step pair_evs pair_start = Some (cb, sb)"
      "ha_state cb = SA_AMF_HA_ACTIVE" "node_map cb (m_NCS_NODE_ID_FROM_MDS_DEST 0x200000002) = Some 0x200000002"
    by auto
  moreover have "pair_good (cb, sb)" using gld_pair.run_good [OF pair_start_good pair_evs_ok] run(1) by simp
  ultimately show ?thesis using gld_node_down_copy_iff [of cb sb "0x200000002"] by blast
qed

text \<open>
  C27: node 1 opens \<open>A\<close>, node 2 opens \<open>B\<close>, node 1 goes down for good. The active director has
  released \<open>A\<close> and would handle the next report of node 2; the standby director has kept \<open>A\<close>
  as an orphan without nodes, and when it takes over after a failover the same report faults it.
\<close>

definition failover_evs :: "pair_evt list" where
  "failover_evs = [pair_open 16 32 0x100000001 nmA, pair_open 48 64 0x200000001 nmB,
     pair_evt0 0 (GLSV_GLD_EVT_RESTART_TIMEOUT \<lparr>et_mdest_id = 0x100000001, et_resource_id = 0, et_opq_hdl = 0\<rparr>)]"


end
