(* ===== verification/Gld_Sync_Props.thy ===== *)
theory Gld_Sync_Props
  imports Gld_Destroy Gld_Sb_Props
begin

text \<open>
  What a cold sync and a warm sync of the two lock directors guarantee, and where they fail.
\<close>

section \<open>Concrete addresses\<close>

definition demo_rp :: "u32 \<Rightarrow> ptr" where "demo_rp i = ucast i + 1"

lemma demo_ptrs: "sync_ptrs demo_rp demo_rp"
proof -
  have u: "unat (demo_rp i) = unat i + 1" for i
  proof -
    have "unat i < 4294967296" by (rule unat_u32)
    then have "unat (ucast i :: u64) = unat i" by (simp add: unsigned_ucast_eq take_bit_nat_eq_self)
    with \<open>unat i < 4294967296\<close> show ?thesis by (simp add: demo_rp_def unat_word_ariths)
  qed
  have "demo_rp i \<noteq> 0" for i using u [of i] by auto
  moreover have "inj demo_rp" using u by (intro injI) (metis add_right_imp_eq word_unat_eq_iff)
  ultimately show ?thesis by (simp add: sync_ptrs_def)
qed

lemma demo_sync:
  "ha_state gld_demo = SA_AMF_HA_ACTIVE" "rsc_list gld_demo \<noteq> []" "prev_rsc_id gld_demo = 0"
  "length (rsc_list gld_demo) = 2" "gld_async_cnt gld_demo = 0"
  by code_simp+

lemma demo_mastered: "all_mastered gld_demo"
proof -
  have "\<forall>r \<in> set (rsc_list gld_demo). rsc_master gld_demo r \<noteq> None" by code_simp
  then show ?thesis by (simp add: all_mastered_def)
qed

lemma demo_free: "\<forall>n e. abs_dir gld_demo n = Some e \<longrightarrow> de_id e \<noteq> 0xffffffff"
proof (intro allI impI notI)
  fix n e
  assume e: "abs_dir gld_demo n = Some e" and i: "de_id e = 0xffffffff"
  obtain p ri where p: "rscs gld_demo p = Some ri" "e = dir_of ri" by (rule abs_dir_SomeD [OF e])
  have wf: "gld_wf gld_demo" using gld_demo_inv(1) by (simp add: gld_inv_def)
  have "tbl_get (rsc_info_id gld_demo) (key32 0xffffffff) = Some p"
    using wf_id_get [OF wf p(1)] p(2) i by (simp add: dir_of_def)
  moreover have "tbl_get (rsc_info_id gld_demo) (key32 0xffffffff) = None" by code_simp
  ultimately show False by simp
qed

section \<open>Cold sync\<close>

lemma mastered_nodes:
  assumes "gld_wf cb" and "all_mastered cb" and "p \<in> set (rsc_list cb)"
  shows "\<exists>ri. rscs cb p = Some ri \<and> gr_node_list ri \<noteq> []"
proof -
  obtain ri where "rscs cb p = Some ri" using wf_list_rsc [OF assms(1,3)] by blast
  moreover have "rsc_master cb p \<noteq> None" using assms(2,3) by (auto simp: all_mastered_def)
  ultimately show ?thesis by (cases "gr_node_list ri") (simp_all add: rsc_master_def)
qed

lemma all_msgs:
  assumes "gld_inv cb" and "ha_state cb = SA_AMF_HA_ACTIVE" and "prev_rsc_id cb = 0" and "rsc_list cb \<noteq> []"
  shows "\<exists>ms. sync_msgs (Suc (length (rsc_list cb) div 10)) cb = Some (ms, length (rsc_list cb) mod 10 \<noteq> 0)
      \<and> concat (map sm_records ms) = map (sync_rec cb) (rsc_list cb)
      \<and> (\<forall>m \<in> set ms. sm_data m \<and> sm_async_cnt m = gld_async_cnt cb)"
  using sync_msgs_run [of cb 0 "Suc (length (rsc_list cb) div 10)"] assms
  by (simp add: sync_at_def gld_inv_def del: sync_msgs.simps)

lemma rebuild:
  assumes "gld_inv cb" and "all_mastered cb" and "sync_ptrs rp np"
    and "210 \<le> unat f" and "\<forall>n e. abs_dir cb n = Some e \<longrightarrow> de_id e \<noteq> f"
    and "concat (map sm_records ms) = map (sync_rec cb) (rsc_list cb)" and "\<forall>m \<in> set ms. sm_data m"
    and "synced rp np cb {} sb"
  shows "\<exists>sb'. for_each (glsv_gld_mbcsv_dec_sync_resp E rp np) ms sb = Some sb' \<and> gld_inv sb'
      \<and> abs_dir sb' = (\<lambda>n. map_option (\<lambda>e. e\<lparr>de_mode := SA_LCK_MODE_UNSET\<rparr>) (abs_dir cb n))
      \<and> node_map sb' \<subseteq>\<^sub>m node_map cb"
proof -
  have wf: "gld_wf cb" and d: "distinct (rsc_list cb)" using assms(1) by (simp_all add: gld_inv_def gld_wf_def list_wf_def)
  obtain sb' where sb': "for_each (glsv_gld_mbcsv_dec_sync_resp E rp np) ms sb = Some sb'"
      "synced rp np cb ({} \<union> names_of cb (rsc_list cb)) sb'"
    using dec_messages_run [OF wf assms(3-5,8,6,7) d _ mastered_nodes [OF wf assms(2)]] by blast
  moreover have "strip = (\<lambda>e. e\<lparr>de_mode := SA_LCK_MODE_UNSET\<rparr>)" by (simp add: strip_def fun_eq_iff)
  ultimately show ?thesis using all_names [OF wf] by (auto simp: synced_def map_le_def)
qed



text \<open>
  C29: round trip of a cold sync. When every resource has a node, a fresh standby director
  that decodes the messages of the active one ends up with the same directory, except that
  the lock modes of orphaned resources are not restored, and with node addresses of the active
  director.
\<close>

theorem cold_sync_roundtrip:
  assumes "gld_inv cb" and "ha_state cb = SA_AMF_HA_ACTIVE" and "prev_rsc_id cb = 0" and "rsc_list cb \<noteq> []"
    and "all_mastered cb" and "sync_ptrs rp np"
    and "210 \<le> unat f" and "\<forall>n e. abs_dir cb n = Some e \<longrightarrow> de_id e \<noteq> f"
  shows "\<exists>ms c sb. sync_msgs (Suc (length (rsc_list cb) div 10)) cb = Some (ms, c)
      \<and> for_each (glsv_gld_mbcsv_dec_sync_resp E rp np) ms (gld_cb_init h SA_AMF_HA_STANDBY) = Some sb
      \<and> gld_inv sb
      \<and> abs_dir sb = (\<lambda>n. map_option (\<lambda>e. e\<lparr>de_mode := SA_LCK_MODE_UNSET\<rparr>) (abs_dir cb n))
      \<and> node_map sb \<subseteq>\<^sub>m node_map cb"
proof -
  obtain ms where ms: "sync_msgs (Suc (length (rsc_list cb) div 10)) cb = Some (ms, length (rsc_list cb) mod 10 \<noteq> 0)"
      "concat (map sm_records ms) = map (sync_rec cb) (rsc_list cb)" "\<forall>m \<in> set ms. sm_data m"
    using all_msgs [OF assms(1-4)] by blast
  have "synced rp np cb {} (gld_cb_init h SA_AMF_HA_STANDBY)" by (rule synced_init) simp
  from rebuild [OF assms(1,5-8) ms(2,3) this, of E] ms(1) show ?thesis by blast
qed

theorem cold_sync_roundtrip_witness:
  "\<exists>ms c sb. sync_msgs (Suc (length (rsc_list gld_demo) div 10)) gld_demo = Some (ms, c)
      \<and> for_each (glsv_gld_mbcsv_dec_sync_resp (gld_demo_env 0 0) demo_rp demo_rp) ms (gld_cb_init 2 SA_AMF_HA_STANDBY) = Some sb
      \<and> abs_dir sb = (\<lambda>n. map_option (\<lambda>e. e\<lparr>de_mode := SA_LCK_MODE_UNSET\<rparr>) (abs_dir gld_demo n))"
  using cold_sync_roundtrip [OF gld_demo_inv(1) demo_sync(1,3,2) demo_mastered demo_ptrs _ demo_free,
      of "gld_demo_env 0 0" 2] by fastforce

text \<open>
  C30: the record of an orphaned resource without nodes carries one node entry of zeros, and
  the standby director faults on it: the node with id 0 cannot be entered into its tree.
\<close>

theorem cold_sync_orphan_fault:
  assumes "gld_inv cb" and "rscs cb p = Some ri" and "gr_node_list ri = []"
    and "synced rp np cb S sb" and "sync_ptrs rp np" and "gr_lck_name ri \<notin> S"
    and "210 \<le> unat f" and "\<forall>n e. abs_dir cb n = Some e \<longrightarrow> de_id e \<noteq> f"
  shows "gld_sb_proc_data_rsp (E\<lparr>ge_rsc_ptr := rp (gr_rsc_id ri)\<rparr>) np (sync_rec cb p) sb = None"
proof -
  have wf: "gld_wf cb" using assms(1) by (simp add: gld_inv_def)
  note s = synced_new [OF wf assms(4,2,6,8)]
  obtain c where c: "gld_wf c"
      "\<And>es. es \<noteq> [] \<Longrightarrow> gld_sb_proc_data_rsp (E\<lparr>ge_rsc_ptr := rp (gr_rsc_id ri)\<rparr>) np (a2s_details ri es) sb
       = do { cb \<leftarrow> sb_nodes (E\<lparr>ge_rsc_ptr := rp (gr_rsc_id ri)\<rparr>) np (rp (gr_rsc_id ri)) es c;
              Some (cb, NCSCC_RC_SUCCESS) }"
    by (rule proc_create [OF s(1,2) assms(5) s(3) wf assms(2) s(4,5) assms(7) s(6), of E]) blast
  show ?thesis using assms(2,3) c(2) [of "[zero_entry]"] sb_node_zero [OF c(1)]
    by (simp add: sync_rec_def)
qed

definition orphan_demo :: GLSV_GLD_CB where
  "orphan_demo = the (gld_run orphan_evs (gld_cb_init 1 SA_AMF_HA_ACTIVE))"

lemma orphan_demo_inv: "gld_inv orphan_demo"
proof -
  have "run_ok orphan_evs (gld_cb_init 1 SA_AMF_HA_ACTIVE)" by code_simp
  from run_ok_inv [OF this gld_inv_init] show ?thesis by (auto simp: orphan_demo_def)
qed

lemma orphan_demo_free: "\<forall>n e. abs_dir orphan_demo n = Some e \<longrightarrow> de_id e \<noteq> 0xffffffff"
proof (intro allI impI notI)
  fix n e
  assume e: "abs_dir orphan_demo n = Some e" and i: "de_id e = 0xffffffff"
  obtain p ri where p: "rscs orphan_demo p = Some ri" "e = dir_of ri" by (rule abs_dir_SomeD [OF e])
  have wf: "gld_wf orphan_demo" using orphan_demo_inv by (simp add: gld_inv_def)
  have "tbl_get (rsc_info_id orphan_demo) (key32 0xffffffff) = Some p"
    using wf_id_get [OF wf p(1)] p(2) i by (simp add: dir_of_def)
  moreover have "tbl_get (rsc_info_id orphan_demo) (key32 0xffffffff) = None" by code_simp
  ultimately show False by simp
qed

theorem cold_sync_orphan_fault_witness:
  "\<exists>ri. rscs orphan_demo 16 = Some ri \<and>
     gld_sb_proc_data_rsp ((gld_demo_env 0 0)\<lparr>ge_rsc_ptr := demo_rp (gr_rsc_id ri)\<rparr>) demo_rp (sync_rec orphan_demo 16)
       (gld_cb_init 2 SA_AMF_HA_STANDBY) = None"
proof -
  have "map_option gr_node_list (rscs orphan_demo 16) = Some []" by code_simp
  then obtain ri where ri: "rscs orphan_demo 16 = Some ri" "gr_node_list ri = []" by auto
  have s: "synced demo_rp demo_rp orphan_demo {} (gld_cb_init 2 SA_AMF_HA_STANDBY)" by (rule synced_init) simp
  show ?thesis
    using cold_sync_orphan_fault [OF orphan_demo_inv ri s demo_ptrs _ _ orphan_demo_free, of "gld_demo_env 0 0"] ri
    by auto
qed

section \<open>Warm sync\<close>



end
