(* ===== verification/Patricia.thy ===== *)
theory Patricia
  imports Key_Table
begin

text \<open>
  The keyed tree of \<open>base/patricia.c\<close> as the C code has it: nodes in memory with a bit
  number, two links that point down or up, and the octets of the key. The root node is part
  of the tree structure; it has bit \<open>-1\<close> and the all-zero key. The loops are partial
  functions: \<open>None\<close> is a loop that never ends or a read outside an object.
\<close>

section \<open>Nodes and trees\<close>

text \<open>\<open>pn_key_info\<close> holds the octets \<open>key_info\<close> points to; none can be read when it is \<open>NULL\<close>.\<close>

record NCS_PATRICIA_NODE =
  pn_bit :: int
  pn_left :: ptr
  pn_right :: ptr
  pn_key_info :: bytes

type_synonym pmem = "ptr \<rightharpoonup> NCS_PATRICIA_NODE"

text \<open>\<open>pt_root\<close> is the address of the embedded \<open>root_node\<close>, \<open>pt_mem\<close> the memory of the nodes.\<close>

record NCS_PATRICIA_TREE =
  pt_root :: ptr
  pt_key_size :: int
  pt_n_nodes :: u32
  pt_mem :: pmem

definition NCS_PATRICIA_MAX_KEY_SIZE :: int where
  "NCS_PATRICIA_MAX_KEY_SIZE = 600"

definition m_GET_BIT :: "bytes \<Rightarrow> int \<Rightarrow> bool option" where
  "m_GET_BIT key b =
     (if b < 0 then Some False
      else if nat b div 8 < length key then Some (bit (key ! (nat b div 8)) (7 - nat b mod 8))
      else None)"

definition memcmp :: "bytes \<Rightarrow> bytes \<Rightarrow> int \<Rightarrow> int option" where
  "memcmp k1 k2 n =
     (if length k1 < nat n \<or> length k2 < nat n then None
      else Some (if take (nat n) k1 = take (nat n) k2 then 0
                 else if take (nat n) k1 < take (nat n) k2 then - 1 else 1))"

definition m_KEY_CMP :: "NCS_PATRICIA_TREE \<Rightarrow> bytes \<Rightarrow> bytes \<Rightarrow> int option" where
  "m_KEY_CMP t k1 k2 = memcmp k1 k2 (pt_key_size t)"

text \<open>A leg of a node: its right link if the direction is set, else its left link.\<close>

definition leg :: "NCS_PATRICIA_NODE \<Rightarrow> bool \<Rightarrow> ptr" where
  "leg n d = (if d then pn_right n else pn_left n)"

definition put_leg :: "NCS_PATRICIA_NODE \<Rightarrow> bool \<Rightarrow> ptr \<Rightarrow> NCS_PATRICIA_NODE" where
  "put_leg n d q = (if d then n\<lparr>pn_right := q\<rparr> else n\<lparr>pn_left := q\<rparr>)"

definition set_leg :: "ptr \<times> bool \<Rightarrow> ptr \<Rightarrow> pmem \<Rightarrow> pmem option" where
  "set_leg l q h = do {
     n \<leftarrow> h (fst l);
     Some (h(fst l \<mapsto> put_leg n (snd l) q)) }"

definition get_leg :: "ptr \<times> bool \<Rightarrow> pmem \<Rightarrow> ptr option" where
  "get_leg l h = do { n \<leftarrow> h (fst l); Some (leg n (snd l)) }"

section \<open>Searching\<close>

text \<open>The body of the loop of \<open>search\<close> from the node \<open>p\<close> on.\<close>

partial_function (option) search_from :: "pmem \<Rightarrow> bytes \<Rightarrow> ptr \<Rightarrow> ptr option" where
  "search_from h key p = do {
     n \<leftarrow> h p;
     d \<leftarrow> m_GET_BIT key (pn_bit n);
     m \<leftarrow> h (leg n d);
     if pn_bit m > pn_bit n then search_from h key (leg n d) else Some (leg n d) }"

definition search :: "NCS_PATRICIA_TREE \<Rightarrow> bytes \<Rightarrow> ptr option" where
  "search t key = search_from (pt_mem t) key (pt_root t)"

definition ncs_patricia_tree_get :: "NCS_PATRICIA_TREE \<Rightarrow> bytes \<Rightarrow> ptr option" where
  "ncs_patricia_tree_get t key = do {
     p \<leftarrow> search t key;
     if p = pt_root t then Some NULL
     else do {
       n \<leftarrow> pt_mem t p;
       c \<leftarrow> m_KEY_CMP t (pn_key_info n) key;
       Some (if c \<noteq> 0 then NULL else p) } }"

definition ncs_patricia_tree_size :: "NCS_PATRICIA_TREE \<Rightarrow> u32" where
  "ncs_patricia_tree_size t = pt_n_nodes t"

section \<open>Start and end\<close>

text \<open>
  \<open>params\<close> is the key size, \<open>None\<close> for a \<open>NULL\<close> parameter block; \<open>malloc_ok\<close> tells whether
  the octets of the root key could be allocated.
\<close>

definition ncs_patricia_tree_init ::
  "bool \<Rightarrow> int option \<Rightarrow> NCS_PATRICIA_TREE \<Rightarrow> NCS_PATRICIA_TREE \<times> rc" where
  "ncs_patricia_tree_init malloc_ok params t =
     (case params of
        None \<Rightarrow> (t, NCSCC_RC_FAILURE)
      | Some ks \<Rightarrow>
          if ks < 1 \<or> ks > NCS_PATRICIA_MAX_KEY_SIZE then (t, NCSCC_RC_FAILURE)
          else let t = t\<lparr>pt_key_size := ks\<rparr>;
                   root = \<lparr>pn_bit = - 1, pn_left = pt_root t, pn_right = pt_root t, pn_key_info = []\<rparr> in
            if \<not> malloc_ok then (t\<lparr>pt_mem := (pt_mem t)(pt_root t \<mapsto> root)\<rparr>, NCSCC_RC_FAILURE)
            else (t\<lparr>pt_mem := (pt_mem t)(pt_root t \<mapsto> root\<lparr>pn_key_info := replicate (nat ks) 0\<rparr>),
                    pt_n_nodes := 0\<rparr>, NCSCC_RC_SUCCESS))"

definition ncs_patricia_tree_clear :: "NCS_PATRICIA_TREE \<Rightarrow> NCS_PATRICIA_TREE option" where
  "ncs_patricia_tree_clear t = do {
     n \<leftarrow> pt_mem t (pt_root t);
     Some (t\<lparr>pt_mem := (pt_mem t)(pt_root t \<mapsto> n\<lparr>pn_left := pt_root t, pn_right := pt_root t\<rparr>),
             pt_n_nodes := 0\<rparr>) }"

definition ncs_patricia_tree_destroy :: "NCS_PATRICIA_TREE \<Rightarrow> (NCS_PATRICIA_TREE \<times> rc) option" where
  "ncs_patricia_tree_destroy t = do {
     t \<leftarrow> ncs_patricia_tree_clear t;
     n \<leftarrow> pt_mem t (pt_root t);
     Some (t\<lparr>pt_mem := (pt_mem t)(pt_root t \<mapsto> n\<lparr>pn_key_info := []\<rparr>)\<rparr>, NCSCC_RC_SUCCESS) }"

section \<open>Adding a node\<close>

text \<open>The first bit, from \<open>b\<close> on, in which the new key differs from the key of the node found.\<close>

partial_function (option) diff_bit :: "bytes \<Rightarrow> NCS_PATRICIA_NODE \<Rightarrow> int \<Rightarrow> int option" where
  "diff_bit key tmp b = do {
     x \<leftarrow> m_GET_BIT key b;
     y \<leftarrow> (if pn_bit tmp < 0 then Some False else m_GET_BIT (pn_key_info tmp) b);
     if x = y then diff_bit key tmp (b + 1) else Some b }"

text \<open>The place of the new node: \<open>pSrch\<close>, the link to it, and \<open>pPrevNode\<close>, the node it leaves.\<close>

partial_function (option) add_place :: "pmem \<Rightarrow> bytes \<Rightarrow> int \<Rightarrow> ptr \<Rightarrow> (ptr \<times> ptr) option" where
  "add_place h key b p = do {
     n \<leftarrow> h p;
     d \<leftarrow> m_GET_BIT key (pn_bit n);
     m \<leftarrow> h (leg n d);
     if pn_bit m < b \<and> pn_bit m > pn_bit n then add_place h key b (leg n d)
     else Some (leg n d, p) }"

definition ncs_patricia_tree_add :: "NCS_PATRICIA_TREE \<Rightarrow> ptr \<Rightarrow> (NCS_PATRICIA_TREE \<times> rc) option" where
  "ncs_patricia_tree_add t pNode = do {
     n \<leftarrow> pt_mem t pNode;
     pTmpNode \<leftarrow> search t (pn_key_info n);
     tmp \<leftarrow> pt_mem t pTmpNode;
     c \<leftarrow> m_KEY_CMP t (pn_key_info n) (pn_key_info tmp);
     if c = 0 then Some (t, NCSCC_RC_FAILURE)
     else do {
       b \<leftarrow> diff_bit (pn_key_info n) tmp 0;
       (pSrch, pPrevNode) \<leftarrow> add_place (pt_mem t) (pn_key_info n) b (pt_root t);
       d \<leftarrow> m_GET_BIT (pn_key_info n) b;
       let n = n\<lparr>pn_bit := b, pn_left := (if d then pSrch else pNode), pn_right := (if d then pNode else pSrch)\<rparr>;
       let h = (pt_mem t)(pNode \<mapsto> n);
       prev \<leftarrow> h pPrevNode;
       e \<leftarrow> m_GET_BIT (pn_key_info n) (pn_bit prev);
       h \<leftarrow> set_leg (pPrevNode, e) pNode h;
       Some (t\<lparr>pt_mem := h, pt_n_nodes := pt_n_nodes t + 1\<rparr>, NCSCC_RC_SUCCESS) } }"

section \<open>Deleting a node\<close>

text \<open>The leg down to the node, followed with its key; \<open>Some None\<close> is the error return.\<close>

partial_function (option) del_find ::
  "pmem \<Rightarrow> ptr \<Rightarrow> ptr \<times> bool \<Rightarrow> (ptr \<times> bool) option option" where
  "del_find h pNode l = do {
     p \<leftarrow> get_leg l h;
     if p = pNode then Some (Some l)
     else do {
       n \<leftarrow> h p;
       next \<leftarrow> h (fst l);
       if pn_bit n \<le> pn_bit next then Some None
       else do {
         node \<leftarrow> h pNode;
         d \<leftarrow> m_GET_BIT (pn_key_info node) (pn_bit n);
         del_find h pNode (p, d) } } }"

text \<open>
  From the node \<open>p\<close>, reached by the leg \<open>prev\<close>, down to the link that points up to the node:
  the node that has it, its direction and the leg down to that node.
\<close>

partial_function (option) del_up ::
  "pmem \<Rightarrow> ptr \<Rightarrow> ptr \<Rightarrow> ptr \<times> bool \<Rightarrow> (ptr \<times> bool \<times> ptr \<times> bool) option option" where
  "del_up h pNode p prev = do {
     node \<leftarrow> h pNode;
     n \<leftarrow> h p;
     d \<leftarrow> m_GET_BIT (pn_key_info node) (pn_bit n);
     if leg n d = pNode then Some (Some (p, d, prev))
     else do {
       m \<leftarrow> h (leg n d);
       if pn_bit m \<le> pn_bit n then Some None
       else del_up h pNode (leg n d) (p, d) } }"

text \<open>The stores that take the node out, in the order of the code.\<close>

definition del_stores :: "ptr \<Rightarrow> ptr \<times> bool \<Rightarrow> ptr \<times> bool \<Rightarrow> ptr \<Rightarrow> bool \<Rightarrow> pmem \<Rightarrow> pmem option" where
  "del_stores pNode down prev next up h = do {
     n \<leftarrow> h pNode;
     x \<leftarrow> h next;
     let h = h(next \<mapsto> x\<lparr>pn_bit := pn_bit n\<rparr>);
     h \<leftarrow> set_leg down next h;
     x \<leftarrow> h next;
     h \<leftarrow> set_leg prev (leg x (\<not> up)) h;
     n \<leftarrow> h pNode;
     h \<leftarrow> set_leg (next, True) (pn_right n) h;
     n \<leftarrow> h pNode;
     set_leg (next, False) (pn_left n) h }"

definition ncs_patricia_tree_del :: "NCS_PATRICIA_TREE \<Rightarrow> ptr \<Rightarrow> (NCS_PATRICIA_TREE \<times> rc) option" where
  "ncs_patricia_tree_del t pNode = do {
     r \<leftarrow> del_find (pt_mem t) pNode (pt_root t, False);
     case r of
       None \<Rightarrow> Some (t, NCSCC_RC_FAILURE)
     | Some down \<Rightarrow> do {
         u \<leftarrow> del_up (pt_mem t) pNode pNode down;
         case u of
           None \<Rightarrow> Some (t, NCSCC_RC_FAILURE)
         | Some (next, up, prev) \<Rightarrow> do {
             h \<leftarrow> del_stores pNode down prev next up (pt_mem t);
             Some (t\<lparr>pt_mem := h, pt_n_nodes := pt_n_nodes t - 1\<rparr>, NCSCC_RC_SUCCESS) } } }"

end
