(* ===== verification/Crit_Bit.thy ===== *)
theory Crit_Bit
  imports Prelude
begin

text \<open>
  The shape of a Patricia tree, without its memory: an upward link to a node, or a node with
  the number of the bit it tests and two subtrees. \<open>crit\<close> is the invariant the algorithms of
  \<open>base/patricia.c\<close> rely on. Insertion and deletion on shapes are the reference the memory
  operations are compared with.
\<close>

datatype shape = Up ptr | Nd ptr nat shape shape

primrec ups :: "shape \<Rightarrow> ptr set" where
  "ups (Up p) = {p}"
| "ups (Nd p b l r) = ups l \<union> ups r"

primrec nds :: "shape \<Rightarrow> ptr set" where
  "nds (Up p) = {}"
| "nds (Nd p b l r) = insert p (nds l \<union> nds r)"

primrec over :: "nat \<Rightarrow> shape \<Rightarrow> bool" where
  "over b (Up p) \<longleftrightarrow> True"
| "over b (Nd p c l r) \<longleftrightarrow> b < c"

text \<open>
  \<open>kb p i\<close> is bit \<open>i\<close> of the key of node \<open>p\<close>. Below a node that tests bit \<open>b\<close> all keys agree
  with its own key before \<open>b\<close>, those to the left have a 0 and those to the right a 1 at
  \<open>b\<close>; the upward link to a node is below the node.
\<close>

definition agree :: "nat \<Rightarrow> (nat \<Rightarrow> bool) \<Rightarrow> (nat \<Rightarrow> bool) \<Rightarrow> bool" where
  "agree b k k' \<longleftrightarrow> (\<forall>i < b. k i = k' i)"

primrec crit :: "(ptr \<Rightarrow> nat \<Rightarrow> bool) \<Rightarrow> shape \<Rightarrow> bool" where
  "crit kb (Up p) \<longleftrightarrow> True"
| "crit kb (Nd p b l r) \<longleftrightarrow> crit kb l \<and> crit kb r \<and> over b l \<and> over b r
     \<and> (\<forall>q \<in> ups l. \<not> kb q b) \<and> (\<forall>q \<in> ups r. kb q b)
     \<and> (\<forall>q \<in> ups l \<union> ups r. agree b (kb q) (kb p))
     \<and> p \<in> ups l \<union> ups r \<and> p \<notin> nds l \<union> nds r"

primrec walk :: "(nat \<Rightarrow> bool) \<Rightarrow> shape \<Rightarrow> ptr" where
  "walk k (Up p) = p"
| "walk k (Nd p b l r) = (if k b then walk k r else walk k l)"

lemma agree_refl [simp]: "agree b k k"
  by (simp add: agree_def)

lemma agree_sym: "agree b k k' \<Longrightarrow> agree b k' k"
  by (simp add: agree_def)

lemma agree_trans: "agree b k k' \<Longrightarrow> agree b k' k'' \<Longrightarrow> agree b k k''"
  by (simp add: agree_def)

lemma agree_less: "agree b k k' \<Longrightarrow> i < b \<Longrightarrow> k i = k' i"
  by (simp add: agree_def)

lemma agree_mono: "agree b k k' \<Longrightarrow> c \<le> b \<Longrightarrow> agree c k k'"
  by (simp add: agree_def)

lemma agree_Suc: "agree (Suc b) k k' \<longleftrightarrow> agree b k k' \<and> k b = k' b"
  by (auto simp: agree_def less_Suc_eq)

lemma finite_ups [simp]: "finite (ups t)" by (induction t) auto

lemma finite_nds [simp]: "finite (nds t)" by (induction t) auto

lemma walk_ups: "walk k t \<in> ups t" by (induction t) auto

lemma nds_ups: "crit kb t \<Longrightarrow> nds t \<subseteq> ups t" by (induction t) auto

lemma walk_own: "crit kb t \<Longrightarrow> q \<in> ups t \<Longrightarrow> walk (kb q) t = q"
  by (induction t) auto

lemma crit_distinct: "crit kb t \<Longrightarrow> p \<in> ups t \<Longrightarrow> q \<in> ups t \<Longrightarrow> kb p = kb q \<Longrightarrow> p = q"
  using walk_own by metis

lemma crit_disjoint:
  assumes "crit kb (Nd p b l r)"
  shows "ups l \<inter> ups r = {}" "nds l \<inter> nds r = {}" "nds l \<inter> ups r = {}" "nds r \<inter> ups l = {}"
  using assms nds_ups [of kb l] nds_ups [of kb r] by auto

lemma crit_cong: "(\<And>q. q \<in> ups t \<Longrightarrow> kb' q = kb q) \<Longrightarrow> crit kb t \<Longrightarrow> crit kb' t"
proof (induction t)
  case (Nd p b l r)
  have "crit kb' l" "crit kb' r" using Nd by simp_all
  moreover have "kb' p = kb p" using Nd.prems by (auto simp del: Un_iff)
  moreover have "kb' q = kb q" if "q \<in> ups l \<union> ups r" for q using Nd.prems(1) that by simp
  ultimately show ?case using Nd.prems(2) by simp
qed simp

section \<open>Insertion\<close>

definition fork :: "ptr \<Rightarrow> (nat \<Rightarrow> bool) \<Rightarrow> nat \<Rightarrow> shape \<Rightarrow> shape" where
  "fork p k b t = (if k b then Nd p b t (Up p) else Nd p b (Up p) t)"

primrec ins :: "ptr \<Rightarrow> (nat \<Rightarrow> bool) \<Rightarrow> nat \<Rightarrow> shape \<Rightarrow> shape" where
  "ins p k b (Up q) = fork p k b (Up q)"
| "ins p k b (Nd q c l r) =
     (if c < b then (if k c then Nd q c l (ins p k b r) else Nd q c (ins p k b l) r)
      else fork p k b (Nd q c l r))"

lemma ups_ins [simp]: "ups (ins p k b t) = insert p (ups t)"
  by (induction t) (auto simp: fork_def)

lemma nds_ins [simp]: "nds (ins p k b t) = insert p (nds t)"
  by (induction t) (auto simp: fork_def)

lemma over_ins: "over c t \<Longrightarrow> c < b \<Longrightarrow> over c (ins p k b t)"
  by (cases t) (auto simp: fork_def)

lemma crit_fork:
  assumes "crit kb t" and "over b t" and "p \<notin> nds t"
    and "\<forall>q \<in> ups t. agree b (kb q) (kb p)" and "\<forall>q \<in> ups t. kb q b \<noteq> kb p b"
  shows "crit kb (fork p (kb p) b t)"
  using assms by (cases "kb p b") (simp_all add: fork_def)

lemma crit_agree:
  assumes "crit kb (Nd n c l r)" and "p \<in> ups (Nd n c l r)" and "q \<in> ups (Nd n c l r)"
  shows "agree c (kb p) (kb q)"
proof -
  have "agree c (kb p) (kb n)" "agree c (kb q) (kb n)" using assms by simp_all
  then show ?thesis by (blast intro: agree_trans agree_sym)
qed

lemma crit_ins:
  assumes "crit kb t" and "p \<notin> ups t" and "agree b (kb (walk (kb p) t)) (kb p)"
    and "kb (walk (kb p) t) b \<noteq> kb p b"
  shows "crit kb (ins p (kb p) b t)"
  using assms
proof (induction t)
  case (Nd q c l r)
  let ?t = "Nd q c l r"
  let ?w = "walk (kb p) ?t"
  have w: "?w \<in> ups ?t" by (rule walk_ups)
  have wc: "kb ?w c = kb p c" using Nd.prems(1) walk_ups [of "kb p" l] walk_ups [of "kb p" r] by (cases "kb p c") simp_all
  have pn: "p \<notin> nds ?t" using nds_ups [OF Nd.prems(1)] Nd.prems(2) by blast
  have wq: "agree c (kb ?w) (kb q)" using Nd.prems(1) w by simp
  show ?case
  proof (cases "c < b")
    case True
    then have "agree c (kb p) (kb q)" using Nd.prems(3) wq by (meson agree_mono agree_sym agree_trans less_imp_le)
    with Nd True pn show ?thesis by (cases "kb p c") (auto simp: over_ins)
  next
    case False
    with wc Nd.prems(4) have b: "b < c" by (cases "b = c") auto
    have a: "agree c (kb x) (kb ?w)" if "x \<in> ups ?t" for x
      by (rule crit_agree [OF Nd.prems(1) that w])
    have "crit kb (fork p (kb p) b ?t)"
    proof (rule crit_fork [OF Nd.prems(1) _ pn])
      show "\<forall>q \<in> ups ?t. agree b (kb q) (kb p)" using a Nd.prems(3) b by (meson agree_mono agree_trans less_imp_le)
      show "\<forall>q \<in> ups ?t. kb q b \<noteq> kb p b" using a Nd.prems(4) b by (metis agree_less)
    qed (use b in simp)
    with False show ?thesis by simp
  qed
qed (simp add: fork_def)

section \<open>Deletion\<close>

text \<open>
  \<open>rem k p t\<close> takes the upward link to \<open>p\<close> out of \<open>t\<close>, together with the node over it,
  which is returned. \<open>del\<close> then puts that node in the place of \<open>p\<close>.
\<close>

primrec rem :: "(nat \<Rightarrow> bool) \<Rightarrow> ptr \<Rightarrow> shape \<Rightarrow> ptr \<times> shape" where
  "rem k p (Up q) = (q, Up q)"
| "rem k p (Nd q b l r) =
     (if k b then if r = Up p then (q, l) else (fst (rem k p r), Nd q b l (snd (rem k p r)))
      else if l = Up p then (q, r) else (fst (rem k p l), Nd q b (snd (rem k p l)) r))"

primrec del :: "(nat \<Rightarrow> bool) \<Rightarrow> ptr \<Rightarrow> shape \<Rightarrow> shape" where
  "del k p (Up q) = Up q"
| "del k p (Nd q b l r) =
     (if q = p then
        if k b then if r = Up p then l else Nd (fst (rem k p r)) b l (snd (rem k p r))
        else if l = Up p then r else Nd (fst (rem k p l)) b (snd (rem k p l)) r
      else if k b then Nd q b l (del k p r) else Nd q b (del k p l) r)"

lemma rem_sets:
  assumes "crit kb t" and "p \<in> ups t" and "p \<notin> nds t" and "t \<noteq> Up p"
  shows "fst (rem (kb p) p t) \<in> nds t \<and> ups (snd (rem (kb p) p t)) = ups t - {p}
    \<and> nds (snd (rem (kb p) p t)) = nds t - {fst (rem (kb p) p t)}"
  using assms
proof (induction t)
  case (Nd q b l r)
  note d = crit_disjoint [OF Nd.prems(1)]
  show ?case
  proof (cases "kb p b")
    case True
    with Nd.prems have "p \<in> ups r" "p \<notin> ups l" by auto
    with Nd True d show ?thesis by (cases "r = Up p") auto
  next
    case False
    with Nd.prems have "p \<in> ups l" "p \<notin> ups r" by auto
    with Nd False d show ?thesis by (cases "l = Up p") auto
  qed
qed simp

lemma rem_over:
  assumes "crit kb t" and "t \<noteq> Up p" and "over c t"
  shows "over c (snd (rem k p t))"
proof (cases t)
  case (Nd q b l r)
  with assms have "over b l" "over b r" "c < b" by auto
  then have "over c l" "over c r" by (cases l; cases r; simp)+
  with Nd \<open>c < b\<close> show ?thesis by simp
qed (use assms in simp)

text \<open>The node that takes the place of \<open>p\<close> comes from the subtree the key of \<open>p\<close> leads to.\<close>

lemma crit_relabel:
  assumes c: "crit kb (Nd p b l r)" and x: "x \<in> ups l' \<union> ups r'" "x \<notin> nds l' \<union> nds r'"
    and l: "crit kb l'" "over b l'" "ups l' \<subseteq> ups l" and r: "crit kb r'" "over b r'" "ups r' \<subseteq> ups r"
  shows "crit kb (Nd x b l' r')"
proof -
  have "agree b (kb q) (kb x)" if "q \<in> ups l' \<union> ups r'" for q
    by (rule crit_agree [OF c]) (use that x l r in auto)
  then show ?thesis using assms by auto
qed

lemma rem_crit:
  assumes "crit kb t" and "p \<in> ups t" and "p \<notin> nds t" and "t \<noteq> Up p"
  shows "crit kb (snd (rem (kb p) p t))"
  using assms
proof (induction t)
  case (Nd q b l r)
  have lr: "crit kb l" "crit kb r" "over b l" "over b r" and q: "q \<in> ups l \<union> ups r" "q \<notin> nds l \<union> nds r" "q \<noteq> p"
    using Nd.prems by auto
  show ?case
  proof (cases "kb p b")
    case True
    then have p: "p \<in> ups r" "p \<notin> nds r" using Nd.prems by auto
    show ?thesis
    proof (cases "r = Up p")
      case r: False
      note s = rem_sets [OF lr(2) p r] and rc = Nd.IH(2) [OF lr(2) p r] rem_over [OF lr(2) r lr(4), of "kb p"]
      have "crit kb (Nd q b l (snd (rem (kb p) p r)))"
        by (rule crit_relabel [OF Nd.prems(1) _ _ lr(1,3) _ rc]) (use s q in auto)
      then show ?thesis using True r by simp
    qed (use lr True in simp)
  next
    case False
    then have p: "p \<in> ups l" "p \<notin> nds l" using Nd.prems by auto
    show ?thesis
    proof (cases "l = Up p")
      case l: False
      note s = rem_sets [OF lr(1) p l] and lc = Nd.IH(1) [OF lr(1) p l] rem_over [OF lr(1) l lr(3), of "kb p"]
      have "crit kb (Nd q b (snd (rem (kb p) p l)) r)"
        by (rule crit_relabel [OF Nd.prems(1) _ _ lc _ lr(2,4)]) (use s q in auto)
      then show ?thesis using False l by simp
    qed (use lr False in simp)
  qed
qed simp

lemma del_sets:
  assumes "crit kb t" and "p \<in> nds t"
  shows "ups (del (kb p) p t) = ups t - {p} \<and> nds (del (kb p) p t) = nds t - {p}"
  using assms
proof (induction t)
  case (Nd q b l r)
  note d = crit_disjoint [OF Nd.prems(1)] and c = Nd.prems(1)
  have u: "nds l \<subseteq> ups l" "nds r \<subseteq> ups r" using c nds_ups by auto
  show ?case
  proof (cases "q = p")
    case True
    show ?thesis
    proof (cases "kb p b")
      case kb: True
      then have p: "p \<in> ups r" "p \<notin> nds r" "p \<notin> nds l" "p \<notin> ups l" using c True by auto
      show ?thesis using rem_sets [of kb r p] c d u p True kb by (cases "r = Up p") auto
    next
      case kb: False
      then have p: "p \<in> ups l" "p \<notin> nds l" "p \<notin> nds r" "p \<notin> ups r" using c True by auto
      show ?thesis using rem_sets [of kb l p] c d u p True kb by (cases "l = Up p") auto
    qed
  next
    case False
    show ?thesis
    proof (cases "kb p b")
      case kb: True
      then have "p \<in> nds r" "p \<notin> ups l" "p \<notin> nds l" using Nd.prems False u by auto
      with Nd False kb d show ?thesis by auto
    next
      case kb: False
      then have "p \<in> nds l" "p \<notin> ups r" "p \<notin> nds r" using Nd.prems False u by auto
      with Nd False kb d show ?thesis by auto
    qed
  qed
qed simp

lemma over_trans: "over b t \<Longrightarrow> c < b \<Longrightarrow> over c t"
  by (cases t) auto

lemma del_over: "crit kb t \<Longrightarrow> over c t \<Longrightarrow> over c (del k p t)"
  by (cases t) (auto intro: over_trans)

lemma crit_del:
  assumes "crit kb t" and "p \<in> nds t"
  shows "crit kb (del (kb p) p t)"
  using assms
proof (induction t)
  case (Nd q b l r)
  note d = crit_disjoint [OF Nd.prems(1)] and c = Nd.prems(1)
  have u: "nds l \<subseteq> ups l" "nds r \<subseteq> ups r" and lr: "crit kb l" "crit kb r" "over b l" "over b r" using c nds_ups by auto
  show ?case
  proof (cases "q = p")
    case True
    show ?thesis
    proof (cases "kb p b")
      case kb: True
      then have p: "p \<in> ups r" "p \<notin> nds r" using c True by auto
      show ?thesis
      proof (cases "r = Up p")
        case r: False
        note s = rem_sets [OF lr(2) p r] and rc = rem_crit [OF lr(2) p r] rem_over [OF lr(2) r lr(4), of "kb p"]
        have "crit kb (Nd (fst (rem (kb p) p r)) b l (snd (rem (kb p) p r)))"
          by (rule crit_relabel [OF c _ _ lr(1,3) _ rc]) (use s d u p in auto)
        then show ?thesis using True kb r by simp
      qed (use True kb lr in simp)
    next
      case kb: False
      then have p: "p \<in> ups l" "p \<notin> nds l" using c True by auto
      show ?thesis
      proof (cases "l = Up p")
        case l: False
        note s = rem_sets [OF lr(1) p l] and lc = rem_crit [OF lr(1) p l] rem_over [OF lr(1) l lr(3), of "kb p"]
        have "crit kb (Nd (fst (rem (kb p) p l)) b (snd (rem (kb p) p l)) r)"
          by (rule crit_relabel [OF c _ _ lc _ lr(2,4)]) (use s d u p in auto)
        then show ?thesis using True kb l by simp
      qed (use True kb lr in simp)
    qed
  next
    case False
    show ?thesis
    proof (cases "kb p b")
      case kb: True
      then have "p \<in> nds r" using Nd.prems False u by auto
      with del_sets [OF lr(2) this] have "crit kb (Nd q b l (del (kb p) p r))"
        by (intro crit_relabel [OF c]) (use c Nd False lr in \<open>auto simp: del_over\<close>)
      then show ?thesis using False kb by simp
    next
      case kb: False
      then have "p \<in> nds l" using Nd.prems False u by auto
      with del_sets [OF lr(1) this] have "crit kb (Nd q b (del (kb p) p l) r)"
        by (intro crit_relabel [OF c]) (use c Nd False lr in \<open>auto simp: del_over\<close>)
      then show ?thesis using False kb by simp
    qed
  qed
qed simp

end
