(* ===== verification/Patricia_Inv.thy ===== *)
theory Patricia_Inv
  imports Patricia Crit_Bit
begin

text \<open>
  How the memory of a Patricia tree represents a shape, the invariant of a tree, and what a
  search finds.
\<close>

section \<open>Bits of keys\<close>

definition kbit :: "bytes \<Rightarrow> nat \<Rightarrow> bool" where
  "kbit k i \<longleftrightarrow> i div 8 < length k \<and> bit (k ! (i div 8)) (7 - i mod 8)"

lemma get_bit: "i < 8 * length k \<Longrightarrow> m_GET_BIT k (int i) = Some (kbit k i)"
  by (simp add: m_GET_BIT_def kbit_def less_mult_imp_div_less mult.commute)

lemma get_bit_root [simp]: "m_GET_BIT k (- 1) = Some False"
  by (simp add: m_GET_BIT_def)

lemma kbit_zero [simp]: "kbit (replicate n 0) i \<longleftrightarrow> False"
  by (simp add: kbit_def)

lemma kbit_inject:
  assumes len: "length k = length k'" and eq: "\<And>i. i < 8 * length k \<Longrightarrow> kbit k i = kbit k' i"
  shows "k = k'"
proof (rule nth_equalityI [OF len])
  fix j
  assume j: "j < length k"
  show "k ! j = k' ! j"
  proof (rule bit_word_eqI)
    fix n assume "n < LENGTH(8)"
    then obtain m where m: "m < 8" "7 - m = n" using that [of "7 - n"] by simp
    then have "(8 * j + m) div 8 = j" "(8 * j + m) mod 8 = m" "8 * j + m < 8 * length k" using j by auto
    then show "bit (k ! j) n = bit (k' ! j) n" using eq [of "8 * j + m"] m j len by (simp add: kbit_def)
  qed
qed

lemma kbit_eq_iff: "length k = length k' \<Longrightarrow> kbit k = kbit k' \<longleftrightarrow> k = k'"
  using kbit_inject by metis

lemma memcmp_total:
  "length k = nat n \<Longrightarrow> length k' = nat n \<Longrightarrow>
   memcmp k k' n = Some (if k = k' then 0 else if k < k' then - 1 else 1)"
  by (simp add: memcmp_def)

section \<open>Memory and shape\<close>

definition key_of :: "pmem \<Rightarrow> ptr \<Rightarrow> bytes" where
  "key_of h p = (case h p of None \<Rightarrow> [] | Some n \<Rightarrow> pn_key_info n)"

lemma key_of_Some [simp]: "h p = Some n \<Longrightarrow> key_of h p = pn_key_info n"
  by (simp add: key_of_def)

definition kbits :: "pmem \<Rightarrow> ptr \<Rightarrow> nat \<Rightarrow> bool" where
  "kbits h p = kbit (key_of h p)"

text \<open>\<open>link h b p t\<close>: the link \<open>p\<close> of a node with bit \<open>b\<close> leads to the shape \<open>t\<close>.\<close>

fun link :: "pmem \<Rightarrow> int \<Rightarrow> ptr \<Rightarrow> shape \<Rightarrow> bool" where
  "link h b p (Up q) \<longleftrightarrow> p = q \<and> (\<exists>n. h q = Some n \<and> pn_bit n \<le> b)"
| "link h b p (Nd q c l r) \<longleftrightarrow> p = q \<and> b < int c \<and>
     (\<exists>n. h q = Some n \<and> pn_bit n = int c \<and> link h (int c) (leg n False) l \<and> link h (int c) (leg n True) r)"

primrec within :: "nat \<Rightarrow> shape \<Rightarrow> bool" where
  "within m (Up p) \<longleftrightarrow> True"
| "within m (Nd p b l r) \<longleftrightarrow> b < m \<and> within m l \<and> within m r"

lemma link_live: "link h b p t \<Longrightarrow> \<exists>n. h p = Some n"
  by (cases t) auto

lemma link_bit: "link h b p t \<Longrightarrow> h p = Some n \<Longrightarrow> b < pn_bit n \<longleftrightarrow> (\<exists>c l r. t = Nd p c l r)"
  by (cases t) auto

lemma link_ups_live: "link h b p t \<Longrightarrow> q \<in> ups t \<Longrightarrow> \<exists>n. h q = Some n"
  by (induction t arbitrary: b p) auto

text \<open>
  A link survives a change that leaves the nodes below it alone; the nodes its upward links
  lead to may get other links and smaller bits.
\<close>

lemma link_frame:
  assumes "link h b p t" and "\<And>q. q \<in> nds t \<Longrightarrow> h' q = h q"
    and "\<And>q n. q \<in> ups t \<Longrightarrow> h q = Some n \<Longrightarrow> \<exists>n'. h' q = Some n' \<and> pn_bit n' \<le> pn_bit n"
  shows "link h' b p t"
  using assms
proof (induction t arbitrary: b p)
  case (Up q)
  then show ?case by (metis dual_order.trans insertI1 link.simps(1) ups.simps(1))
next
  case (Nd q c l r)
  then obtain n where "h q = Some n" "link h (int c) (leg n False) l" "link h (int c) (leg n True) r"
      "pn_bit n = int c" "p = q" "b < int c" by auto
  with Nd show ?case by simp
qed

section \<open>The invariant\<close>

definition ptree_ok :: "NCS_PATRICIA_TREE \<Rightarrow> shape \<Rightarrow> bool" where
  "ptree_ok T t \<longleftrightarrow>
     (\<exists>n. pt_mem T (pt_root T) = Some n \<and> pn_bit n = - 1 \<and> pn_key_info n = replicate (nat (pt_key_size T)) 0
        \<and> link (pt_mem T) (- 1) (pn_left n) t)
     \<and> 1 \<le> pt_key_size T \<and> pt_key_size T \<le> NCS_PATRICIA_MAX_KEY_SIZE
     \<and> crit (kbits (pt_mem T)) t \<and> within (8 * nat (pt_key_size T)) t
     \<and> ups t = insert (pt_root T) (nds t) \<and> pt_root T \<notin> nds t \<and> NULL \<notin> nds t
     \<and> (\<forall>p \<in> nds t. length (key_of (pt_mem T) p) = nat (pt_key_size T))
     \<and> pt_n_nodes T = of_nat (card (nds t))"

text \<open>The tree as a table of nodes by key.\<close>

definition ptree_map :: "NCS_PATRICIA_TREE \<Rightarrow> shape \<Rightarrow> bytes \<rightharpoonup> ptr" where
  "ptree_map T t k = (let p = walk (kbit k) t in
     if p \<in> nds t \<and> key_of (pt_mem T) p = k then Some p else None)"

lemma ok_len: "ptree_ok T t \<Longrightarrow> p \<in> ups t \<Longrightarrow> length (key_of (pt_mem T) p) = nat (pt_key_size T)"
  by (auto simp: ptree_ok_def)

lemma ok_root: "ptree_ok T t \<Longrightarrow> key_of (pt_mem T) (pt_root T) = replicate (nat (pt_key_size T)) 0"
  by (auto simp: ptree_ok_def)

lemma ok_rootE:
  assumes "ptree_ok T t"
  obtains n where "pt_mem T (pt_root T) = Some n" and "pn_bit n = - 1"
    and "link (pt_mem T) (- 1) (pn_left n) t" and "pn_key_info n = replicate (nat (pt_key_size T)) 0"
  using assms by (auto simp: ptree_ok_def)

lemma ok_live: "ptree_ok T t \<Longrightarrow> p \<in> ups t \<Longrightarrow> \<exists>n. pt_mem T p = Some n"
  by (metis ok_rootE link_ups_live)

lemma ok_key_inj:
  assumes "ptree_ok T t" and "p \<in> ups t" and "q \<in> ups t" and "key_of (pt_mem T) p = key_of (pt_mem T) q"
  shows "p = q"
  using assms crit_distinct [of "kbits (pt_mem T)" t p q] by (simp add: ptree_ok_def kbits_def)

lemma ok_map:
  assumes "ptree_ok T t"
  shows "ptree_map T t k = Some p \<longleftrightarrow> p \<in> nds t \<and> key_of (pt_mem T) p = k"
proof
  assume p: "p \<in> nds t \<and> key_of (pt_mem T) p = k"
  then have "walk (kbits (pt_mem T) p) t = p" using walk_own assms by (auto simp: ptree_ok_def)
  with p show "ptree_map T t k = Some p" by (simp add: ptree_map_def kbits_def)
qed (simp add: ptree_map_def Let_def split: if_splits)

lemma ok_map_None:
  assumes "ptree_ok T t"
  shows "ptree_map T t k = None \<longleftrightarrow> (\<forall>p \<in> nds t. key_of (pt_mem T) p \<noteq> k)"
  using ok_map [OF assms, of k] by (metis not_None_eq)

lemma ok_nonzero:
  assumes "ptree_ok T t" and "p \<in> nds t"
  shows "key_of (pt_mem T) p \<noteq> replicate (nat (pt_key_size T)) 0"
proof
  assume "key_of (pt_mem T) p = replicate (nat (pt_key_size T)) 0"
  then have "p = pt_root T" using ok_key_inj [OF assms(1)] assms ok_root [OF assms(1)] by (auto simp: ptree_ok_def)
  with assms show False by (simp add: ptree_ok_def)
qed

section \<open>Searching\<close>

lemma search_link:
  assumes "h p = Some n" and "pn_bit n = b" and "m_GET_BIT key b = Some d" and "link h b (leg n d) t"
    and "within (8 * length key) t"
  shows "search_from h key p = Some (walk (kbit key) t)"
  using assms
proof (induction t arbitrary: p n b d)
  case (Up q)
  then show ?case by (subst search_from.simps) auto
next
  case (Nd q c l r)
  then obtain m where m: "h q = Some m" "pn_bit m = int c" "leg n d = q" "b < int c"
      "link h (int c) (leg m False) l" "link h (int c) (leg m True) r" by auto
  have g: "m_GET_BIT key (int c) = Some (kbit key c)" using Nd.prems(5) by (simp add: get_bit)
  have "search_from h key p = search_from h key q"
    using Nd.prems(1-3) m by (subst search_from.simps) simp
  also have "\<dots> = Some (walk (kbit key) (Nd q c l r))"
    using Nd.IH(1) [OF m(1,2)] Nd.IH(2) [OF m(1,2)] g m(5,6) Nd.prems(5)
    by (cases "kbit key c") simp_all
  finally show ?case .
qed

lemma search_run:
  assumes "ptree_ok T t" and "length key = nat (pt_key_size T)"
  shows "search T key = Some (walk (kbit key) t)"
proof -
  obtain n where n: "pt_mem T (pt_root T) = Some n" "pn_bit n = - 1" "link (pt_mem T) (- 1) (pn_left n) t"
    by (rule ok_rootE [OF assms(1)])
  have "link (pt_mem T) (- 1) (leg n False) t" using n(3) by (simp add: leg_def)
  from search_link [OF n(1) n(2) get_bit_root this, of key] assms show ?thesis
    by (simp add: search_def ptree_ok_def)
qed

lemma get_run:
  assumes ok: "ptree_ok T t" and len: "length key = nat (pt_key_size T)"
  shows "ncs_patricia_tree_get T key = Some (case ptree_map T t key of None \<Rightarrow> NULL | Some p \<Rightarrow> p)"
proof -
  let ?p = "walk (kbit key) t"
  have p: "?p \<in> ups t" by (rule walk_ups)
  then obtain n where n: "pt_mem T ?p = Some n" using ok_live [OF ok] by blast
  then have "length (pn_key_info n) = nat (pt_key_size T)" using ok_len [OF ok p] by simp
  then have c: "m_KEY_CMP T (pn_key_info n) key
      = Some (if pn_key_info n = key then 0 else if pn_key_info n < key then - 1 else 1)"
    using len by (simp add: m_KEY_CMP_def memcmp_total)
  have "ups t = insert (pt_root T) (nds t)" "pt_root T \<notin> nds t" using ok by (simp_all add: ptree_ok_def)
  then have "?p = pt_root T \<longleftrightarrow> ?p \<notin> nds t" using p by auto
  then show ?thesis
    using n c by (simp add: ncs_patricia_tree_get_def search_run [OF ok len] ptree_map_def Let_def)
qed

end
