(* ===== verification/Patricia_Add.thy ===== *)
theory Patricia_Add
  imports Patricia_Inv
begin

text \<open>Adding a node: the new bit, the place of the node, and the shape the stores leave behind.\<close>

lemma leg_put_leg [simp]: "leg (put_leg n d q) e = (if d = e then q else leg n e)"
  by (simp add: leg_def put_leg_def)

lemma put_leg_keeps [simp]: "pn_bit (put_leg n d q) = pn_bit n" "pn_key_info (put_leg n d q) = pn_key_info n"
  by (simp_all add: put_leg_def)

lemma link_weaken: "link h b p t \<Longrightarrow> b < int c \<Longrightarrow> over c t \<Longrightarrow> link h (int c) p t"
  by (cases t) auto

section \<open>The new bit\<close>

lemma diff_bit_run:
  assumes "\<And>i. i \<le> B \<Longrightarrow> m_GET_BIT key (int i) = Some (f i)"
    and "\<And>i. i \<le> B \<Longrightarrow> (if pn_bit tmp < 0 then Some False else m_GET_BIT (pn_key_info tmp) (int i)) = Some (g i)"
    and "agree B f g" and "f B \<noteq> g B" and "i \<le> B"
  shows "diff_bit key tmp (int i) = Some (int B)"
  using assms(5)
proof (induction "B - i" arbitrary: i)
  case 0
  then show ?case using assms by (subst diff_bit.simps) simp
next
  case (Suc m)
  then have "f i = g i" using assms(3) by (simp add: agree_less)
  moreover have "diff_bit key tmp (int i + 1) = Some (int B)" using Suc.hyps(1) [of "Suc i"] Suc by (simp add: add.commute)
  ultimately show ?case using assms(1,2) [OF Suc.prems] by (subst diff_bit.simps) simp
qed

lemma first_diff:
  assumes "length k = length k'" and "k \<noteq> k'"
  obtains B where "B < 8 * length k" and "agree B (kbit k) (kbit k')" and "kbit k B \<noteq> kbit k' B"
proof -
  let ?P = "\<lambda>i. i < 8 * length k \<and> kbit k i \<noteq> kbit k' i"
  obtain i where "?P i" using kbit_inject [OF assms(1)] assms(2) by blast
  then have "?P (LEAST i. ?P i)" by (rule LeastI)
  moreover from this have "agree (LEAST i. ?P i) (kbit k) (kbit k')"
    unfolding agree_def using not_less_Least [of _ ?P] by (meson less_trans)
  ultimately show thesis using that by blast
qed

section \<open>The place\<close>

primrec spot :: "(nat \<Rightarrow> bool) \<Rightarrow> nat \<Rightarrow> ptr \<Rightarrow> shape \<Rightarrow> ptr \<times> ptr" where
  "spot k b x (Up q) = (q, x)"
| "spot k b x (Nd q c l r) = (if c < b then if k c then spot k b q r else spot k b q l else (q, x))"

lemma spot_in: "snd (spot k b x t) \<in> insert x (nds t)"
proof (induction t arbitrary: x)
  case (Nd q c l r)
  from Nd.IH(1) [of q] Nd.IH(2) [of q] show ?case by auto
qed simp

lemma add_place_run:
  assumes "h p = Some n" and "m_GET_BIT key (pn_bit n) = Some d" and "link h (pn_bit n) (leg n d) t"
    and "within (8 * length key) t"
  shows "add_place h key (int b) p = Some (spot (kbit key) b p t)"
  using assms
proof (induction t arbitrary: p n d)
  case (Up q)
  then show ?case by (subst add_place.simps) auto
next
  case (Nd q c l r)
  then obtain m where m: "h q = Some m" "pn_bit m = int c" "leg n d = q" "pn_bit n < int c"
      "link h (int c) (leg m False) l" "link h (int c) (leg m True) r" by auto
  have g: "m_GET_BIT key (pn_bit m) = Some (kbit key c)" using Nd.prems(4) m(2) by (simp add: get_bit)
  show ?case
  proof (cases "c < b")
    case True
    then have "add_place h key (int b) p = add_place h key (int b) q"
      using Nd.prems(1,2) m by (subst add_place.simps) simp
    also have "\<dots> = Some (spot (kbit key) b p (Nd q c l r))"
      using Nd.IH(1) [OF m(1) g] Nd.IH(2) [OF m(1) g] m Nd.prems(4) True by (cases "kbit key c") simp_all
    finally show ?thesis .
  next
    case False
    then show ?thesis using Nd.prems(1,2) m by (subst add_place.simps) simp
  qed
qed

section \<open>The stores\<close>

text \<open>
  \<open>added h h' p k b s x\<close>: the memory \<open>h'\<close> has the new node \<open>p\<close> above the link \<open>s\<close>, and the
  node \<open>x\<close> linked to it; the rest is as in \<open>h\<close>.
\<close>

definition added :: "pmem \<Rightarrow> pmem \<Rightarrow> ptr \<Rightarrow> (nat \<Rightarrow> bool) \<Rightarrow> nat \<Rightarrow> ptr \<Rightarrow> ptr \<Rightarrow> bool" where
  "added h h' p k b s x \<longleftrightarrow>
     (\<exists>n. h' p = Some n \<and> pn_bit n = int b \<and> leg n (k b) = p \<and> leg n (\<not> k b) = s)
     \<and> (\<forall>q. q \<noteq> p \<longrightarrow> q \<noteq> x \<longrightarrow> h' q = h q)
     \<and> (\<forall>n. h x = Some n \<longrightarrow> h' x = Some (put_leg n (0 \<le> pn_bit n \<and> k (nat (pn_bit n))) p))"

lemma added_same: "added h h' p k b s x \<Longrightarrow> q \<noteq> p \<Longrightarrow> q \<noteq> x \<Longrightarrow> h' q = h q"
  by (simp add: added_def)

lemma added_prev:
  "added h h' p k b s x \<Longrightarrow> h x = Some n \<Longrightarrow> h' x = Some (put_leg n (0 \<le> pn_bit n \<and> k (nat (pn_bit n))) p)"
  by (simp add: added_def)

lemma added_frame:
  assumes "added h h' p k b s x" and "link h c q t" and "p \<notin> ups t" and "p \<notin> nds t" and "x \<notin> nds t"
  shows "link h' c q t"
proof (rule link_frame [OF assms(2)])
  show "h' y = h y" if "y \<in> nds t" for y
    by (rule added_same [OF assms(1)]) (use assms that in auto)
  show "\<exists>n'. h' y = Some n' \<and> pn_bit n' \<le> pn_bit n" if "y \<in> ups t" "h y = Some n" for y n
    using added_same [OF assms(1), of y] added_prev [OF assms(1), of n] assms(3) that by (cases "y = x") auto
qed

lemma added_fork:
  assumes "added h h' p k b s x" and "link h' (int b) s t" and "c < int b"
  shows "link h' c p (fork p k b t)"
  using assms by (cases "k b") (auto simp: fork_def added_def)

lemma ins_link:
  assumes "link h c q t" and "added h h' p k b s x" and "spot k b y t = (s, x)" and "c < int b"
    and "y \<notin> nds t" and "p \<notin> ups t" and "p \<noteq> y" and "crit kb t" and "crit kb (ins p k b t)"
  shows "link h' c (if x = y then p else q) (ins p k b t)"
  using assms
proof (induction t arbitrary: c q y)
  case (Up z)
  have "link h' (int b) s (Up z)"
    by (rule added_frame [OF Up.prems(2)]) (use Up.prems in auto)
  then show ?case using added_fork [OF Up.prems(2) _ Up.prems(4)] Up.prems(3) by simp
next
  case (Nd z d l r)
  obtain n where n: "h z = Some n" "pn_bit n = int d" "q = z" "c < int d" "link h (int d) (leg n False) l" "link h (int d) (leg n True) r"
    using Nd.prems(1) by auto
  note dis = crit_disjoint [OF Nd.prems(8)]
  have pn: "p \<notin> nds (Nd z d l r)" using nds_ups [OF Nd.prems(8)] Nd.prems(6) by blast
  have pz: "p \<noteq> z" "z \<notin> nds l" "z \<notin> nds r" and cl: "crit kb l" "crit kb r" using pn Nd.prems(8) by auto
  show ?case
  proof (cases "d < b")
    case True
    show ?thesis
    proof (cases "k d")
      case kd: True
      have sp: "spot k b z r = (s, x)" using Nd.prems(3) True kd by simp
      then have xr: "x \<in> insert z (nds r)" using spot_in [of k b z r] by simp
      then have xy: "x \<noteq> y" using Nd.prems(5) by auto
      have l: "link h' (int d) (leg n False) l"
        by (rule added_frame [OF Nd.prems(2) n(5)]) (use Nd.prems(6) pn pz xr dis in auto)
      have "link h' (int d) (if x = z then p else leg n True) (ins p k b r)"
        by (rule Nd.IH(2) [OF n(6) Nd.prems(2) sp]) (use True Nd.prems pz cl kd in auto)
      moreover have "h' z = Some (if x = z then put_leg n True p else n)"
        using added_same [OF Nd.prems(2), of z] added_prev [OF Nd.prems(2), of n] n kd pz by auto
      ultimately show ?thesis using xy n l True kd by auto
    next
      case kd: False
      have sp: "spot k b z l = (s, x)" using Nd.prems(3) True kd by simp
      then have xr: "x \<in> insert z (nds l)" using spot_in [of k b z l] by simp
      then have xy: "x \<noteq> y" using Nd.prems(5) by auto
      have r: "link h' (int d) (leg n True) r"
        by (rule added_frame [OF Nd.prems(2) n(6)]) (use Nd.prems(6) pn pz xr dis in auto)
      have "link h' (int d) (if x = z then p else leg n False) (ins p k b l)"
        by (rule Nd.IH(1) [OF n(5) Nd.prems(2) sp]) (use True Nd.prems pz cl kd in auto)
      moreover have "h' z = Some (if x = z then put_leg n False p else n)"
        using added_same [OF Nd.prems(2), of z] added_prev [OF Nd.prems(2), of n] n kd pz by auto
      ultimately show ?thesis using xy n r True kd by auto
    qed
  next
    case False
    then have sx: "s = z" "x = y" using Nd.prems(3) by auto
    have "over b (Nd z d l r)" using Nd.prems(9) False by (cases "k b") (auto simp: fork_def)
    then have "link h (int b) z (Nd z d l r)" using link_weaken [OF Nd.prems(1,4)] n(3) by simp
    then have "link h' (int b) s (Nd z d l r)"
      unfolding sx(1) by (rule added_frame [OF Nd.prems(2)]) (use Nd.prems sx pn in auto)
    then show ?thesis using added_fork [OF Nd.prems(2) _ Nd.prems(4)] sx False by simp
  qed
qed

lemma within_ins: "within m t \<Longrightarrow> b < m \<Longrightarrow> within m (ins p k b t)"
  by (induction t) (auto simp: fork_def)

section \<open>The operation\<close>

lemma link_nds_bit:
  "link h b p t \<Longrightarrow> within m t \<Longrightarrow> q \<in> nds t \<Longrightarrow> \<exists>n i. h q = Some n \<and> pn_bit n = int i \<and> i < m"
  by (induction t arbitrary: b p) auto

lemma ok_bit:
  assumes "ptree_ok T t" and "q \<in> ups t" and "pt_mem T q = Some n"
  shows "q = pt_root T \<and> pn_bit n = - 1 \<or> q \<in> nds t \<and> (\<exists>i < 8 * nat (pt_key_size T). pn_bit n = int i)"
proof (cases "q = pt_root T")
  case True
  then show ?thesis using assms by (auto simp: ptree_ok_def)
next
  case False
  then have q: "q \<in> nds t" and w: "within (8 * nat (pt_key_size T)) t" using assms by (auto simp: ptree_ok_def)
  obtain r :: NCS_PATRICIA_NODE where "link (pt_mem T) (- 1) (pn_left r) t" by (rule ok_rootE [OF assms(1)]) blast
  from link_nds_bit [OF this w q] assms(3) q show ?thesis by auto
qed

lemma found_key_iff:
  assumes ok: "ptree_ok T t" and len: "length key = nat (pt_key_size T)"
  shows "key_of (pt_mem T) (walk (kbit key) t) = key \<longleftrightarrow> key = replicate (nat (pt_key_size T)) 0 \<or> ptree_map T t key \<noteq> None"
proof -
  have u: "ups t = insert (pt_root T) (nds t)" and c: "crit (kbits (pt_mem T)) t" using ok by (simp_all add: ptree_ok_def)
  have own: "walk (kbit (key_of (pt_mem T) p)) t = p" if "p \<in> ups t" for p
    using walk_own [OF c that] by (simp add: kbits_def)
  show ?thesis
    using ok_map_None [OF ok, of key] own ok_root [OF ok] walk_ups [of "kbit key" t] u by fastforce
qed

lemma stores_added:
  assumes "h p = Some n" and "h x = Some m" and "p \<noteq> x" and "pn_key_info n = key"
    and "pn_bit m = - 1 \<or> (\<exists>i < 8 * length key. pn_bit m = int i)"
  obtains h' where "set_leg (x, 0 \<le> pn_bit m \<and> kbit key (nat (pn_bit m))) p
      (h(p \<mapsto> n\<lparr>pn_bit := int b, pn_left := (if kbit key b then s else p), pn_right := (if kbit key b then p else s)\<rparr>)) = Some h'"
    and "added h h' p (kbit key) b s x" and "\<And>q. key_of h' q = key_of h q"
    and "m_GET_BIT key (pn_bit m) = Some (0 \<le> pn_bit m \<and> kbit key (nat (pn_bit m)))"
proof -
  let ?h' = "h(p \<mapsto> n\<lparr>pn_bit := int b, pn_left := (if kbit key b then s else p), pn_right := (if kbit key b then p else s)\<rparr>,
     x \<mapsto> put_leg m (0 \<le> pn_bit m \<and> kbit key (nat (pn_bit m))) p)"
  show thesis
  proof (rule that [of ?h'])
    show "m_GET_BIT key (pn_bit m) = Some (0 \<le> pn_bit m \<and> kbit key (nat (pn_bit m)))"
      using assms(5) by (auto simp: get_bit)
  qed (use assms in \<open>auto simp: set_leg_def added_def leg_def key_of_def\<close>)
qed

lemma added_ok:
  assumes ok: "ptree_ok T t" and p: "pt_mem T p = Some n" "length (pn_key_info n) = nat (pt_key_size T)"
      "p \<notin> ups t" "p \<noteq> NULL"
    and b: "b < 8 * nat (pt_key_size T)" "agree b (kbits (pt_mem T) (walk (kbit (pn_key_info n)) t)) (kbit (pn_key_info n))"
      "kbits (pt_mem T) (walk (kbit (pn_key_info n)) t) b \<noteq> kbit (pn_key_info n) b"
    and sp: "spot (kbit (pn_key_info n)) b (pt_root T) t = (s, x)"
    and h': "added (pt_mem T) h' p (kbit (pn_key_info n)) b s x" "\<And>q. key_of h' q = key_of (pt_mem T) q"
  shows "ptree_ok (T\<lparr>pt_mem := h', pt_n_nodes := pt_n_nodes T + 1\<rparr>) (ins p (kbit (pn_key_info n)) b t)"
proof -
  let ?k = "kbit (pn_key_info n)" and ?h = "pt_mem T" and ?r = "pt_root T"
  obtain m where m: "?h ?r = Some m" "pn_bit m = - 1" "link ?h (- 1) (pn_left m) t"
      "pn_key_info m = replicate (nat (pt_key_size T)) 0" by (rule ok_rootE [OF ok])
  have c: "crit (kbits ?h) t" and u: "ups t = insert ?r (nds t)" "?r \<notin> nds t" "within (8 * nat (pt_key_size T)) t"
    using ok by (simp_all add: ptree_ok_def)
  have kp: "kbits ?h p = ?k" using p(1) by (simp add: kbits_def)
  have kh: "kbits h' = kbits ?h" using h'(2) by (auto simp: kbits_def)
  have ci: "crit (kbits ?h) (ins p ?k b t)" using crit_ins [OF c p(3), of b] b(2,3) kp by simp
  have pr: "p \<noteq> ?r" "p \<notin> nds t" using p(3) u by auto
  have l: "link h' (- 1) (if x = ?r then p else pn_left m) (ins p ?k b t)"
    by (rule ins_link [OF m(3) h'(1) sp _ u(2) p(3) pr(1) c ci]) simp
  have r': "\<exists>m'. h' ?r = Some m' \<and> pn_bit m' = - 1 \<and> pn_key_info m' = pn_key_info m
      \<and> pn_left m' = (if x = ?r then p else pn_left m)"
    using added_same [OF h'(1), of ?r] added_prev [OF h'(1), of m] m pr by (auto simp: put_leg_def)
  have "card (insert p (nds t)) = Suc (card (nds t))" using pr by simp
  then show ?thesis
    using ok r' l ci kh h'(2) p pr b(1) u within_ins [OF u(3) b(1)] m(4)
    by (auto simp: ptree_ok_def)
qed

lemma add_run:
  assumes ok: "ptree_ok T t" and p: "pt_mem T p = Some n" "length (pn_key_info n) = nat (pt_key_size T)"
      "p \<notin> ups t" "p \<noteq> NULL"
  shows "if zero_key (pn_key_info n) \<or> ptree_map T t (pn_key_info n) \<noteq> None
         then ncs_patricia_tree_add T p = Some (T, NCSCC_RC_FAILURE)
         else \<exists>T' t'. ncs_patricia_tree_add T p = Some (T', NCSCC_RC_SUCCESS) \<and> ptree_ok T' t'
           \<and> ups t' = insert p (ups t) \<and> nds t' = insert p (nds t) \<and> pt_root T' = pt_root T \<and> pt_key_size T' = pt_key_size T
           \<and> (\<forall>q. key_of (pt_mem T') q = key_of (pt_mem T) q) \<and> dom (pt_mem T') = dom (pt_mem T)"
proof -
  let ?key = "pn_key_info n" and ?h = "pt_mem T"
  let ?w = "walk (kbit ?key) t"
  have z: "zero_key ?key \<longleftrightarrow> ?key = replicate (nat (pt_key_size T)) 0"
    using p(2) by (auto simp: zero_key_def replicate_eqI)
  have w: "?w \<in> ups t" by (rule walk_ups)
  obtain tmp where tmp: "?h ?w = Some tmp" using ok_live [OF ok w] by blast
  have lt: "length (pn_key_info tmp) = nat (pt_key_size T)" using ok_len [OF ok w] tmp by simp
  have cmp: "m_KEY_CMP T ?key (pn_key_info tmp) = Some (if ?key = pn_key_info tmp then 0 else if ?key < pn_key_info tmp then - 1 else 1)"
    unfolding m_KEY_CMP_def by (rule memcmp_total [OF p(2) lt])
  note srch = search_run [OF ok p(2)] and found = found_key_iff [OF ok p(2)]
  show ?thesis
  proof (cases "?key = pn_key_info tmp")
    case True
    then show ?thesis using found tmp cmp srch p(1) z by (auto simp: ncs_patricia_tree_add_def)
  next
    case False
    then obtain b where b: "b < 8 * length ?key" "agree b (kbit (pn_key_info tmp)) (kbit ?key)"
        "kbit (pn_key_info tmp) b \<noteq> kbit ?key b"
      using first_diff [of "pn_key_info tmp" ?key] lt p(2) by metis
    obtain m where m: "?h (pt_root T) = Some m" "pn_bit m = - 1" "link ?h (- 1) (pn_left m) t"
        "pn_key_info m = replicate (nat (pt_key_size T)) 0" by (rule ok_rootE [OF ok])
    obtain s x where sx: "spot (kbit ?key) b (pt_root T) t = (s, x)" by (metis prod.exhaust)
    have db: "diff_bit ?key tmp 0 = Some (int b)"
    proof (rule diff_bit_run [where i = 0 and f = "kbit ?key" and g = "kbit (pn_key_info tmp)", simplified])
      fix i
      assume "i \<le> b"
      then have i: "i < 8 * length ?key" "i < 8 * length (pn_key_info tmp)" using b(1) lt p(2) by auto
      then show "m_GET_BIT ?key (int i) = Some (kbit ?key i)" by (simp add: get_bit)
      show "(if pn_bit tmp < 0 then Some False else m_GET_BIT (pn_key_info tmp) (int i)) = Some (kbit (pn_key_info tmp) i)"
        using ok_bit [OF ok w tmp] i tmp m by (auto simp: get_bit)
    qed (use b agree_sym in auto)
    have pl: "add_place ?h ?key (int b) (pt_root T) = Some (s, x)"
      using add_place_run [of ?h "pt_root T" m ?key False t b] m sx ok p(2) by (simp add: leg_def ptree_ok_def)
    have x: "x \<in> insert (pt_root T) (nds t)" using spot_in [of "kbit ?key" b "pt_root T" t] sx by simp
    then have "x \<in> ups t" using ok by (simp add: ptree_ok_def)
    then obtain mx where mx: "?h x = Some mx" using ok_live [OF ok] by blast
    have xb: "pn_bit mx = - 1 \<or> (\<exists>i < 8 * length ?key. pn_bit mx = int i)"
      using ok_bit [OF ok \<open>x \<in> ups t\<close> mx] p(2) by auto
    have px: "p \<noteq> x" using \<open>x \<in> ups t\<close> p(3) by auto
    obtain h' where h': "set_leg (x, 0 \<le> pn_bit mx \<and> kbit ?key (nat (pn_bit mx))) p
      (?h(p \<mapsto> n\<lparr>pn_bit := int b, pn_left := (if kbit ?key b then s else p), pn_right := (if kbit ?key b then p else s)\<rparr>)) = Some h'"
      "added ?h h' p (kbit ?key) b s x" "\<forall>q. key_of h' q = key_of ?h q"
      "m_GET_BIT ?key (pn_bit mx) = Some (0 \<le> pn_bit mx \<and> kbit ?key (nat (pn_bit mx)))"
      by (rule stores_added [OF p(1) mx px refl xb]) blast
    have db': "m_GET_BIT ?key (int b) = Some (kbit ?key b)" using b(1) by (rule get_bit)
    have "ncs_patricia_tree_add T p = Some (T\<lparr>pt_mem := h', pt_n_nodes := pt_n_nodes T + 1\<rparr>, NCSCC_RC_SUCCESS)"
      using p(1) srch tmp cmp False db pl db' mx px h'(1,4)
      by (simp add: ncs_patricia_tree_add_def del: bind_Some_iff)
    moreover have "ptree_ok (T\<lparr>pt_mem := h', pt_n_nodes := pt_n_nodes T + 1\<rparr>) (ins p (kbit ?key) b t)"
      by (rule added_ok [OF ok p _ _ _ sx h'(2)]) (use b p(2) tmp h'(3) in \<open>simp_all add: kbits_def\<close>)
    moreover have "dom h' = dom ?h" using h'(1) p(1) mx by (auto simp: set_leg_def split: if_splits)
    ultimately show ?thesis using False found tmp z h'(3) by auto
  qed
qed

end
