(* ===== verification/Patricia_Next.thy ===== *)
theory Patricia_Next
  imports Patricia
begin

text \<open>
  The successor search of \<open>base/patricia.c\<close>. \<open>Target\<close> is the least key that may be
  returned; the search moves it forward as it leaves subtrees behind. The code that goes back
  up from an exhausted subtree stands twice in the C function, with the same text; it is the
  function \<open>gn_back\<close> here.
\<close>

definition BitMasks :: "u8 list" where
  "BitMasks = [0x00, 0x80, 0xc0, 0xe0, 0xf0, 0xf8, 0xfc, 0xfe, 0xff]"

fun KeyBitMatch :: "bytes \<Rightarrow> bytes \<Rightarrow> nat \<Rightarrow> int option" where
  "KeyBitMatch (a # p1) (b # p2) bitcount =
     (if bitcount > 8 then
        if a \<noteq> b then Some (uint a - uint b) else KeyBitMatch p1 p2 (bitcount - 8)
      else Some (uint (a AND BitMasks ! bitcount) - uint (b AND BitMasks ! bitcount)))"
| "KeyBitMatch _ _ _ = None"

text \<open>
  The loop that adds 1 to the octet at index \<open>n - 1\<close> and carries to the ones before it; the
  flag is false when the carry leaves the first octet.
\<close>

fun incr :: "bytes \<Rightarrow> nat \<Rightarrow> bytes \<times> bool" where
  "incr T 0 = (T, False)"
| "incr T (Suc n) =
     (let T = T[n := T ! n + 1] in if T ! n \<noteq> 0 then (T, True) else incr T n)"

text \<open>
  The new targets: the key of a node before its bit, then a one and zeros; then zeros only;
  or ones to the end of the octet, to which 1 is added.
\<close>

definition left_target :: "NCS_PATRICIA_NODE \<Rightarrow> bytes \<Rightarrow> bytes option" where
  "left_target n T = (let i = nat (pn_bit n) div 8; j = nat (pn_bit n) mod 8; key = pn_key_info n in
     if i < length key \<and> i < length T
     then Some (take i key @ ((key ! i AND BitMasks ! j) OR drop_bit j 0x80) # replicate (length T - i - 1) 0)
     else None)"

definition down_target :: "NCS_PATRICIA_NODE \<Rightarrow> bytes \<Rightarrow> bytes option" where
  "down_target n T = (let i = nat (pn_bit n) div 8; j = nat (pn_bit n) mod 8; key = pn_key_info n in
     if i < length key \<and> i < length T
     then Some (take i key @ (if j \<noteq> 0 then (key ! i AND BitMasks ! j) # replicate (length T - i - 1) 0
                              else replicate (length T - i) 0))
     else None)"

definition right_target :: "NCS_PATRICIA_NODE \<Rightarrow> bytes \<Rightarrow> (bytes \<times> bool) option" where
  "right_target n T = (let i = nat (pn_bit n) div 8; j = nat (pn_bit n) mod 8; key = pn_key_info n in
     if i < length key \<and> i < length T
     then Some (incr (take i key @ ((if j > 0 then key ! i AND BitMasks ! j else T ! i) OR drop_bit j 0xff)
                        # replicate (length T - i - 1) 0) (Suc i))
     else None)"

text \<open>The node whose link leads down to \<open>p\<close>, found from the root with the key of \<open>p\<close>.\<close>

partial_function (option) gn_parent :: "pmem \<Rightarrow> bytes \<Rightarrow> ptr \<Rightarrow> ptr \<Rightarrow> ptr option" where
  "gn_parent h key p x = do {
     n \<leftarrow> h x;
     d \<leftarrow> m_GET_BIT key (pn_bit n);
     if leg n d = p then Some x else gn_parent h key p (leg n d) }"

text \<open>
  Back up from the link \<open>s\<close> of the node \<open>p\<close>: a new target and the node to go on from, or
  \<open>Some None\<close> when there is no greater key.
\<close>

partial_function (option) gn_back :: "pmem \<Rightarrow> ptr \<Rightarrow> bytes \<Rightarrow> ptr \<Rightarrow> ptr \<Rightarrow> (bytes \<times> ptr) option option" where
  "gn_back h root T s p = do {
     n \<leftarrow> h p;
     if s = pn_left n then
       if pn_bit n < 0 then Some None
       else do { T \<leftarrow> left_target n T; Some (Some (T, p)) }
     else if pn_bit n \<le> 0 then Some None
     else do {
       r \<leftarrow> right_target n T;
       if \<not> snd r then Some None
       else do {
         x \<leftarrow> gn_parent h (pn_key_info n) p root;
         m \<leftarrow> KeyBitMatch (fst r) (pn_key_info n) (nat (1 + pn_bit n));
         if m = 0 then Some (Some (fst r, p)) else gn_back h root (fst r) p x } } }"

text \<open>The main loop at the node \<open>s\<close>; the result \<open>NULL\<close> means no greater key.\<close>

partial_function (option) gn_loop :: "pmem \<Rightarrow> ptr \<Rightarrow> int \<Rightarrow> bytes \<Rightarrow> ptr \<Rightarrow> ptr option" where
  "gn_loop h root ks T s = do {
     n \<leftarrow> h s;
     d \<leftarrow> m_GET_BIT T (pn_bit n);
     let q = leg n d;
     m \<leftarrow> h q;
     if pn_bit m \<le> pn_bit n then do {
       c \<leftarrow> memcmp T (pn_key_info m) ks;
       e \<leftarrow> (if c \<le> 0 then KeyBitMatch T (pn_key_info m) (nat (1 + pn_bit n)) else Some 1);
       if e = 0 then Some q
       else do {
         r \<leftarrow> gn_back h root T q s;
         case r of None \<Rightarrow> Some NULL | Some (T, s) \<Rightarrow> gn_loop h root ks T s } }
     else do {
       e \<leftarrow> KeyBitMatch T (pn_key_info m) (nat (pn_bit m));
       if e < 0 then do { T \<leftarrow> down_target m T; gn_loop h root ks T q }
       else if e > 0 then do {
         r \<leftarrow> gn_back h root T q s;
         case r of None \<Rightarrow> Some NULL | Some (T, s) \<Rightarrow> gn_loop h root ks T s }
       else gn_loop h root ks T q } }"

definition ncs_patricia_tree_getnext :: "NCS_PATRICIA_TREE \<Rightarrow> bytes option \<Rightarrow> ptr option" where
  "ncs_patricia_tree_getnext t pKey = do {
     Target \<leftarrow> (case pKey of
        None \<Rightarrow> Some (replicate (nat (pt_key_size t)) 0)
      | Some k \<Rightarrow> if length k < nat (pt_key_size t) then None else Some (take (nat (pt_key_size t)) k));
     let (Target, ok) = incr Target (nat (pt_key_size t));
     if \<not> ok then Some NULL
     else gn_loop (pt_mem t) (pt_root t) (pt_key_size t) Target (pt_root t) }"

end
