(* ===== verification/Key_Order.thy ===== *)
theory Key_Order
  imports Patricia_Add Patricia_Next
begin

text \<open>
  The order of keys by their bits: \<open>memcmp\<close> order is the lexicographic order of the bits, so
  keys between two keys with a common prefix have that prefix. What \<open>KeyBitMatch\<close> compares
  and what the target loops build, bit by bit.
\<close>

section \<open>Octets\<close>

lemma u8_nat_bit: "bit (a :: u8) n \<longleftrightarrow> bit (unat a) n"
  by (simp add: bit_unsigned_iff)

lemma byte_less:
  fixes a b :: u8
  assumes "\<And>m. n < m \<Longrightarrow> bit a m = bit b m" and "\<not> bit a n" and "bit b n"
  shows "a < b"
proof -
  have "drop_bit (Suc n) (unat a) = drop_bit (Suc n) (unat b)"
    by (rule bit_eqI) (simp add: bit_drop_bit_eq u8_nat_bit [symmetric] assms(1))
  moreover have "x div 2 ^ n div 2 = drop_bit (Suc n) x" for x :: nat
    by (simp add: drop_bit_eq_div div_mult2_eq [symmetric] mult.commute)
  ultimately have eq: "unat a div 2 ^ n div 2 = unat b div 2 ^ n div 2" by simp
  moreover have "even (unat a div 2 ^ n)" "odd (unat b div 2 ^ n)" using assms(2,3) by (simp_all add: u8_nat_bit bit_iff_odd)
  ultimately have "unat a div 2 ^ n < unat b div 2 ^ n" by (metis dvd_mult_div_cancel odd_two_times_div_two_succ less_add_one)
  then have "unat a < unat b" by (meson div_le_mono leD leI)
  then show ?thesis by (simp add: word_less_nat_alt)
qed

lemma byte_lessD:
  fixes a b :: u8
  assumes "a < b"
  obtains n where "n < 8" and "\<forall>m > n. bit a m = bit b m" and "\<not> bit a n" and "bit b n"
proof -
  let ?D = "{n. bit a n \<noteq> bit b n}"
  have D: "?D \<subseteq> {..<8}" using bit_imp_le_length [of a] bit_imp_le_length [of b] by auto
  then have fin: "finite ?D" by (rule finite_subset) simp
  have "?D \<noteq> {}"
  proof
    assume "?D = {}"
    then have "a = b" by (intro bit_word_eqI) blast
    with assms show False by simp
  qed
  then have mx: "Max ?D \<in> ?D" by (rule Max_in [OF fin])
  have top: "\<forall>m > Max ?D. bit a m = bit b m"
  proof (intro allI impI)
    fix m assume m: "Max ?D < m"
    show "bit a m = bit b m" by (rule ccontr) (use m Max_ge [OF fin, of m] in auto)
  qed
  show thesis
  proof (cases "bit b (Max ?D)")
    case True
    moreover have "Max ?D < 8" using D mx by blast
    moreover have "\<not> bit a (Max ?D)" using mx True by blast
    ultimately show ?thesis using that top by blast
  next
    case False
    moreover have "bit a (Max ?D)" using mx False by blast
    ultimately have "b < a" using byte_less [of "Max ?D" b a] top by blast
    with assms show ?thesis by simp
  qed
qed

section \<open>Keys\<close>

lemma list_less_at: "a < b \<Longrightarrow> xs @ a # ys < xs @ b # zs" for a b :: "'a::linorder"
  by (induction xs) simp_all

lemma kbit_Cons: "kbit (a # p) i = (if i < 8 then bit a (7 - i) else kbit p (i - 8))"
proof (cases "i < 8")
  case False
  then obtain m where "i = m + 8" by (metis add.commute le_Suc_ex leI)
  moreover have "(m + 8) div 8 = Suc (m div 8)" "(m + 8) mod 8 = m mod 8" by simp_all
  ultimately show ?thesis by (simp add: kbit_def)
qed (simp add: kbit_def)

lemma kbit_take: "i < 8 * n \<Longrightarrow> kbit (take n k) i = kbit k i"
  by (auto simp: kbit_def less_mult_imp_div_less mult.commute)

lemma key_lessI:
  assumes len: "length k = length k'" and ag: "agree i (kbit k) (kbit k')" and i: "\<not> kbit k i" "kbit k' i"
  shows "k < k'"
  using assms
proof (induction k k' arbitrary: i rule: list_induct2')
  case (4 a p b q)
  show ?case
  proof (cases "i < 8")
    case True
    have "a < b"
    proof (rule byte_less [of "7 - i"])
      show "bit a m = bit b m" if "7 - i < m" for m
      proof (cases "m < 8")
        case True
        then have "7 - m < i" "7 - (7 - m) = m" "7 - m < 8" using that \<open>i < 8\<close> by auto
        then show ?thesis using agree_less [OF 4(3), of "7 - m"] by (simp add: kbit_Cons)
      qed (use bit_imp_le_length [of a m] bit_imp_le_length [of b m] in auto)
    qed (use 4(4,5) True in \<open>simp_all add: kbit_Cons\<close>)
    then show ?thesis by simp
  next
    case False
    have "a = b"
    proof (rule bit_word_eqI)
      fix n assume "n < LENGTH(8)"
      then have "7 - n < i" "7 - (7 - n) = n" "7 - n < 8" using False by auto
      then show "bit a n = bit b n" using agree_less [OF 4(3), of "7 - n"] by (simp add: kbit_Cons)
    qed
    moreover have "agree (i - 8) (kbit p) (kbit q)"
      unfolding agree_def
    proof (intro allI impI)
      fix j assume "j < i - 8"
      then show "kbit p j = kbit q j" using agree_less [OF 4(3), of "j + 8"] by (simp add: kbit_Cons)
    qed
    ultimately show ?thesis using 4(1) [of "i - 8"] 4(2,4,5) False by (simp add: kbit_Cons)
  qed
qed (auto simp: kbit_def)

lemma key_lessD:
  assumes "length k = length k'" and "k < k'"
  obtains i where "i < 8 * length k" and "agree i (kbit k) (kbit k')" and "\<not> kbit k i" and "kbit k' i"
proof -
  obtain i where i: "i < 8 * length k" "agree i (kbit k) (kbit k')" "kbit k i \<noteq> kbit k' i"
    using first_diff [OF assms(1)] assms(2) by blast
  have "kbit k' i"
  proof (rule ccontr)
    assume "\<not> kbit k' i"
    then have "k' < k" using key_lessI [of k' k i] assms(1) i agree_sym by auto
    with assms(2) show False by simp
  qed
  with i that show thesis by blast
qed

lemma sandwich:
  assumes "length k = length m" and "length m = length k'" and "k \<le> m" and "m \<le> k'" and "agree b (kbit k) (kbit k')"
  shows "agree b (kbit m) (kbit k)"
proof (rule ccontr)
  assume na: "\<not> ?thesis"
  then have "k < m" using assms(3) by (cases "k = m") auto
  then obtain i where i: "agree i (kbit k) (kbit m)" "\<not> kbit k i" "kbit m i" using key_lessD [OF assms(1)] by blast
  have "i < b"
  proof (rule ccontr)
    assume "\<not> i < b"
    then have "agree b (kbit m) (kbit k)" using agree_mono [OF agree_sym [OF i(1)], of b] by simp
    with na show False by simp
  qed
  then have "agree i (kbit k') (kbit m)" "\<not> kbit k' i"
    using agree_trans [OF agree_mono [OF agree_sym [OF assms(5)], of i] i(1)] agree_less [OF assms(5), of i] i(2) by auto
  then have "k' < m" using key_lessI [of k' m i] assms(2) i(3) by simp
  with assms(4) show False by simp
qed

section \<open>Comparing prefixes\<close>

lemma mask_bit: "j \<le> 8 \<Longrightarrow> n < 8 \<Longrightarrow> bit (BitMasks ! j) n \<longleftrightarrow> 8 - j \<le> n"
proof -
  assume "j \<le> 8" and "n < 8"
  then have "j \<in> {0, 1, 2, 3, 4, 5, 6, 7, 8}" and "n \<in> {0, 1, 2, 3, 4, 5, 6, 7}" by auto
  then show ?thesis by (auto simp: BitMasks_def bit_simps bit_numeral_rec)
qed

text \<open>The first bit in which two keys differ, if it is below \<open>c\<close>, is 0 in the first.\<close>

definition below :: "nat \<Rightarrow> (nat \<Rightarrow> bool) \<Rightarrow> (nat \<Rightarrow> bool) \<Rightarrow> bool" where
  "below c k k' \<longleftrightarrow> (\<exists>i < c. agree i k k' \<and> \<not> k i \<and> k' i)"

lemma below_mono: "below c k k' \<Longrightarrow> c \<le> d \<Longrightarrow> below d k k'"
  unfolding below_def by (meson less_le_trans)

lemma agree_Cons8: "agree (c + 8) (kbit (a # p)) (kbit (b # q)) \<longleftrightarrow> a = b \<and> agree c (kbit p) (kbit q)"
proof
  assume g: "agree (c + 8) (kbit (a # p)) (kbit (b # q))"
  have "a = b"
  proof (rule bit_word_eqI)
    fix n assume "n < LENGTH(8)"
    then have "7 - n < c + 8" "7 - (7 - n) = n" "7 - n < 8" by auto
    then show "bit a n = bit b n" using agree_less [OF g, of "7 - n"] by (simp add: kbit_Cons)
  qed
  moreover have "kbit p j = kbit q j" if "j < c" for j using agree_less [OF g, of "j + 8"] that by (simp add: kbit_Cons)
  ultimately show "a = b \<and> agree c (kbit p) (kbit q)" by (simp add: agree_def)
qed (auto simp: agree_def kbit_Cons)

lemma masked_eq:
  assumes "c \<le> 8"
  shows "(a :: u8) AND BitMasks ! c = b AND BitMasks ! c \<longleftrightarrow> agree c (kbit (a # p)) (kbit (b # q))"
proof
  assume e: "a AND BitMasks ! c = b AND BitMasks ! c"
  show "agree c (kbit (a # p)) (kbit (b # q))"
    unfolding agree_def
  proof (intro allI impI)
    fix i assume i: "i < c"
    have "bit (a AND BitMasks ! c) (7 - i) = bit (b AND BitMasks ! c) (7 - i)" using e by simp
    then show "kbit (a # p) i = kbit (b # q) i" using i assms mask_bit [of c "7 - i"] by (auto simp: bit_and_iff kbit_Cons)
  qed
next
  assume g: "agree c (kbit (a # p)) (kbit (b # q))"
  show "a AND BitMasks ! c = b AND BitMasks ! c"
  proof (rule bit_word_eqI)
    fix n assume n: "n < LENGTH(8)"
    show "bit (a AND BitMasks ! c) n = bit (b AND BitMasks ! c) n"
    proof (cases "8 - c \<le> n")
      case True
      then have "7 - n < c" "7 - (7 - n) = n" "7 - n < 8" using n assms by auto
      then show ?thesis using agree_less [OF g, of "7 - n"] by (simp add: bit_and_iff kbit_Cons)
    qed (use n assms mask_bit [of c n] in \<open>simp add: bit_and_iff\<close>)
  qed
qed

lemma masked_less:
  assumes "c \<le> 8"
  shows "(a :: u8) AND BitMasks ! c < b AND BitMasks ! c \<longleftrightarrow> below c (kbit (a # p)) (kbit (b # q))"
proof
  assume "a AND BitMasks ! c < b AND BitMasks ! c"
  then obtain n where n: "n < 8" "\<forall>m > n. bit (a AND BitMasks ! c) m = bit (b AND BitMasks ! c) m"
      "\<not> bit (a AND BitMasks ! c) n" "bit (b AND BitMasks ! c) n" by (rule byte_lessD)
  have nc: "8 - c \<le> n" using n(1,4) mask_bit [OF assms n(1)] by (simp add: bit_and_iff)
  have i: "7 - n < c" "7 - (7 - n) = n" "7 - n < 8" using nc n(1) assms by auto
  have "agree (7 - n) (kbit (a # p)) (kbit (b # q))"
    unfolding agree_def
  proof (intro allI impI)
    fix j assume j: "j < 7 - n"
    then have "n < 7 - j" "7 - j < 8" "8 - c \<le> 7 - j" using nc by auto
    then show "kbit (a # p) j = kbit (b # q) j" using n(2) mask_bit [OF assms, of "7 - j"] j by (auto simp: bit_and_iff kbit_Cons)
  qed
  moreover have "\<not> kbit (a # p) (7 - n)" "kbit (b # q) (7 - n)"
    using n(3,4) mask_bit [OF assms n(1)] nc i by (simp_all add: bit_and_iff kbit_Cons)
  ultimately show "below c (kbit (a # p)) (kbit (b # q))" using i(1) unfolding below_def by blast
next
  assume "below c (kbit (a # p)) (kbit (b # q))"
  then obtain i where i: "i < c" "agree i (kbit (a # p)) (kbit (b # q))" "\<not> kbit (a # p) i" "kbit (b # q) i"
    unfolding below_def by blast
  show "a AND BitMasks ! c < b AND BitMasks ! c"
  proof (rule byte_less [of "7 - i"])
    fix m assume m: "7 - i < m"
    show "bit (a AND BitMasks ! c) m = bit (b AND BitMasks ! c) m"
    proof (cases "m < 8")
      case True
      then have "7 - m < i" "7 - (7 - m) = m" "7 - m < 8" using m i(1) assms by auto
      then show ?thesis using agree_less [OF i(2), of "7 - m"] by (simp add: bit_and_iff kbit_Cons)
    qed (use bit_imp_le_length [of a m] bit_imp_le_length [of b m] in \<open>auto simp: bit_and_iff\<close>)
  qed (use i assms mask_bit [of c "7 - i"] in \<open>auto simp: bit_and_iff kbit_Cons\<close>)
qed

lemma below_Cons8: "below (c + 8) (kbit (a # p)) (kbit (a # q)) \<longleftrightarrow> below c (kbit p) (kbit q)"
proof
  assume "below (c + 8) (kbit (a # p)) (kbit (a # q))"
  then obtain i where i: "i < c + 8" "agree i (kbit (a # p)) (kbit (a # q))" "\<not> kbit (a # p) i" "kbit (a # q) i"
    unfolding below_def by blast
  then have "8 \<le> i" by (cases "i < 8") (auto simp: kbit_Cons)
  then obtain j where "i = j + 8" by (metis add.commute le_Suc_ex)
  with i show "below c (kbit p) (kbit q)" by (auto simp: below_def agree_Cons8 kbit_Cons)
next
  assume "below c (kbit p) (kbit q)"
  then obtain i where "i < c" "agree i (kbit p) (kbit q)" "\<not> kbit p i" "kbit q i" unfolding below_def by blast
  then show "below (c + 8) (kbit (a # p)) (kbit (a # q))"
    unfolding below_def by (intro exI [of _ "i + 8"]) (simp add: agree_Cons8, simp add: kbit_Cons)
qed

lemma KeyBitMatch_run:
  assumes "length p = length q" and "p \<noteq> []" and "c \<le> 8 * length p"
  shows "\<exists>v. KeyBitMatch p q c = Some v \<and> (v = 0 \<longleftrightarrow> agree c (kbit p) (kbit q)) \<and> (v < 0 \<longleftrightarrow> below c (kbit p) (kbit q))"
  using assms
proof (induction p q arbitrary: c rule: list_induct2')
  case (4 a p b q)
  show ?case
  proof (cases "8 < c")
    case False
    then have c: "c \<le> 8" by simp
    show ?thesis using False masked_eq [OF c, of a b p q] masked_less [OF c, of a b p q]
      by (auto simp: word_less_def word_uint_eq_iff)
  next
    case True
    then obtain m where m: "c = m + 8" "0 < m" by (metis add.commute less_imp_add_positive)
    show ?thesis
    proof (cases "a = b")
      case eq: True
      have "p \<noteq> []" using 4(4) m by (auto)
      then show ?thesis using 4(1) [of m] 4(2,4) m eq by (simp add: agree_Cons8 below_Cons8)
    next
      case ne: False
      have mask8: "x AND BitMasks ! 8 = x" for x :: u8 by (rule bit_word_eqI) (simp add: bit_and_iff mask_bit)
      have "below c (kbit (a # p)) (kbit (b # q)) \<longleftrightarrow> a < b"
      proof -
        have "below 8 (kbit (a # p)) (kbit (b # q)) \<longleftrightarrow> a < b" using masked_less [of 8 a b p q] mask8 by simp
        moreover have "below c (kbit (a # p)) (kbit (b # q)) \<longleftrightarrow> below 8 (kbit (a # p)) (kbit (b # q))"
        proof
          assume "below c (kbit (a # p)) (kbit (b # q))"
          then obtain i where i: "agree i (kbit (a # p)) (kbit (b # q))" "\<not> kbit (a # p) i" "kbit (b # q) i" unfolding below_def by blast
          have "i < 8"
          proof (rule ccontr)
            assume "\<not> i < 8"
            then show False using agree_Cons8 [of "i - 8" a p b q] i(1) ne by simp
          qed
          with i show "below 8 (kbit (a # p)) (kbit (b # q))" unfolding below_def by blast
        qed (rule below_mono, use True in auto)
        ultimately show ?thesis by simp
      qed
      then show ?thesis using ne m by (auto simp: agree_Cons8 word_less_def word_uint_eq_iff)
    qed
  qed
qed simp_all

section \<open>Adding one\<close>

fun kval :: "bytes \<Rightarrow> nat" where
  "kval [] = 0"
| "kval (a # k) = unat a * 256 ^ length k + kval k"

lemma unat_u8: "unat (a :: u8) < 256"
  using unsigned_less [of a] by simp

lemma u8_plus1: "(a :: u8) + 1 \<noteq> 0 \<Longrightarrow> unat (a + 1) = Suc (unat a)"
proof -
  assume ne: "a + 1 \<noteq> 0"
  have m: "unat (a + 1) = Suc (unat a) mod 256" by (simp add: unat_word_ariths)
  moreover have "unat (a + 1) \<noteq> 0" using ne by (simp add: unat_eq_0)
  ultimately show ?thesis using unat_u8 [of a] by (cases "Suc (unat a) = 256") auto
qed

lemma kval_bound: "kval k < 256 ^ length k"
proof (induction k)
  case (Cons a k)
  have "unat a \<le> 255" using unat_u8 [of a] by simp
  then have "unat a * 256 ^ length k \<le> 255 * 256 ^ length k" by (rule mult_le_mono1)
  from add_le_less_mono [OF this Cons] show ?case by simp
qed simp

lemma kval_less:
  "length k = length k' \<Longrightarrow> kval k < kval k' \<longleftrightarrow> k < k'"
proof (induction k k' rule: list_induct2)
  case (Cons a k b k')
  have ab: "kval (a # k) < kval (b # k')" if "unat a < unat b"
  proof -
    have "unat a * 256 ^ length k + 256 ^ length k \<le> unat b * 256 ^ length k"
      using mult_le_mono1 [of "Suc (unat a)" "unat b" "256 ^ length k"] that by simp
    then show ?thesis using kval_bound [of k] Cons.hyps by simp
  qed
  have ba: "kval (b # k') < kval (a # k)" if "unat b < unat a"
  proof -
    have "unat b * 256 ^ length k + 256 ^ length k \<le> unat a * 256 ^ length k"
      using mult_le_mono1 [of "Suc (unat b)" "unat a" "256 ^ length k"] that by simp
    then show ?thesis using kval_bound [of k'] Cons.hyps by simp
  qed
  consider "unat a < unat b" | "unat b < unat a" | "a = b" using word_unat_eq_iff [of a b] by linarith
  then show ?case
  proof cases
    case 1
    then show ?thesis using ab by (simp add: word_less_nat_alt)
  next
    case 2
    then show ?thesis using ba by (auto simp: word_less_nat_alt)
  next
    case 3
    then show ?thesis using Cons by simp
  qed
qed simp

lemma kval_snoc: "kval (k @ [a]) = 256 * kval k + unat a"
  by (induction k) simp_all

lemma incr_run:
  assumes "n \<le> length T" and "incr T n = (T', ok)"
  shows "length T' = length T \<and> drop n T' = drop n T \<and> (ok \<longrightarrow> kval (take n T') = Suc (kval (take n T)))
    \<and> (\<not> ok \<longleftrightarrow> (\<forall>i < n. T ! i = 255))"
  using assms
proof (induction n arbitrary: T)
  case (Suc n)
  let ?T = "T[n := T ! n + 1]"
  have tk: "take (Suc n) S = take n S @ [S ! n]" if "length S = length T" for S :: bytes
    using that Suc.prems(1) by (simp add: take_Suc_conv_app_nth)
  show ?case
  proof (cases "T ! n + 1 = 0")
    case False
    then have "T' = ?T" "ok" using Suc.prems by (auto simp: Let_def)
    moreover have "unat (T ! n + 1) = Suc (unat (T ! n))" using False by (rule u8_plus1)
    moreover have "T ! n \<noteq> 255" using False by auto
    ultimately show ?thesis using Suc.prems(1) by (auto simp: tk kval_snoc)
  next
    case True
    then have "T ! n = - 1" by (simp add: eq_neg_iff_add_eq_0)
    then have m: "T ! n = 255" by simp
    have r: "incr ?T n = (T', ok)" using Suc.prems True by (auto simp: Let_def)
    note ih = Suc.IH [OF _ r]
    have "T' ! n = 0"
    proof -
      have "drop n T' = drop n ?T" using ih Suc.prems(1) by simp
      then show ?thesis using Suc.prems(1) True ih by (metis (no_types, lifting) Cons_nth_drop_Suc Suc_le_lessD length_list_update list.inject nth_list_update_eq Suc_leD)
    qed
    moreover have "drop (Suc n) T' = drop (Suc n) T"
    proof -
      have "drop n T' = drop n ?T" using ih Suc.prems(1) by simp
      then have "drop 1 (drop n T') = drop 1 (drop n ?T)" by simp
      then show ?thesis by (simp add: drop_update_swap)
    qed
    ultimately show ?thesis using ih Suc.prems(1) m True by (auto simp: tk kval_snoc less_Suc_eq)
  qed
qed simp

text \<open>The initial target is the least key greater than the given one.\<close>

lemma incr_succ:
  assumes "incr T (length T) = (T', True)" and "length k = length T"
  shows "T < k \<longleftrightarrow> T' \<le> k"
proof -
  note r = incr_run [OF order_refl assms(1)]
  have "length T' = length T" using r by blast
  moreover have "kval (take (length T) T') = Suc (kval (take (length T) T))" using r by blast
  ultimately have "length T' = length T" "kval T' = Suc (kval T)" by simp_all
  then have "T < k \<longleftrightarrow> \<not> kval k < kval T'" using kval_less [of T k] assms(2) by auto
  also have "\<dots> \<longleftrightarrow> \<not> k < T'" using kval_less [of k T'] assms(2) \<open>length T' = length T\<close> by simp
  finally show ?thesis by auto
qed

lemma incr_none:
  assumes "incr T (length T) = (T', False)" and "length k = length T"
  shows "\<not> T < k"
proof
  assume "T < k"
  then obtain i where i: "i < 8 * length T" "\<not> kbit T i" using key_lessD [of T k] assms(2) by metis
  have "T ! (i div 8) = 255" using incr_run [OF order_refl assms(1)] i by auto
  moreover have "bit (255 :: u8) n" if "n < 8" for n using that mask_bit [of 8 n] by (simp add: BitMasks_def)
  ultimately show False using i by (auto simp: kbit_def)
qed

end
