(* ===== verification/Key_Target.thy ===== *)
theory Key_Target
  imports Key_Order
begin

text \<open>The targets the successor search builds, bit by bit.\<close>

lemma bit_0x80: "bit (0x80 :: u8) n \<longleftrightarrow> n = 7"
proof (cases "n < 8")
  case True
  then have "n \<in> {0, 1, 2, 3, 4, 5, 6, 7}" by auto
  then show ?thesis by (auto simp: bit_numeral_rec)
qed (use bit_imp_le_length [of "0x80 :: u8" n] in auto)

lemma bit_0xff: "bit (0xff :: u8) n \<longleftrightarrow> n < 8"
proof (cases "n < 8")
  case True
  then have "n \<in> {0, 1, 2, 3, 4, 5, 6, 7}" by auto
  then show ?thesis by (auto simp: bit_numeral_rec)
qed (use bit_imp_le_length [of "0xff :: u8" n] in auto)

lemma bit_drop80: "bit (drop_bit j 0x80 :: u8) n \<longleftrightarrow> j + n = 7"
  by (simp only: bit_drop_bit_eq bit_0x80 o_apply)

lemma bit_dropff: "bit (drop_bit j 0xff :: u8) n \<longleftrightarrow> j + n < 8"
  by (simp only: bit_drop_bit_eq bit_0xff o_apply)

lemma kbit_splice:
  assumes "i < length key"
  shows "kbit (take i key @ x # replicate m 0) q = (if q div 8 < i then kbit key q else q div 8 = i \<and> bit x (7 - q mod 8))"
  using assms by (auto simp: kbit_def nth_append nth_Cons')

lemma kbit_splice0:
  assumes "i < length key"
  shows "kbit (take i key @ replicate m 0) q = (q div 8 < i \<and> kbit key q)"
  using assms by (auto simp: kbit_def nth_append)

lemma less_div_mod: "q < c \<longleftrightarrow> q div 8 < c div 8 \<or> q div 8 = c div 8 \<and> q mod 8 < c mod 8" for q c :: nat
proof
  assume "q < c"
  then show "q div 8 < c div 8 \<or> q div 8 = c div 8 \<and> q mod 8 < c mod 8"
    using div_mult_mod_eq [of q 8] div_mult_mod_eq [of c 8] div_le_mono [of q c 8] by linarith
next
  assume "q div 8 < c div 8 \<or> q div 8 = c div 8 \<and> q mod 8 < c mod 8"
  then show "q < c"
    using div_mult_mod_eq [of q 8] div_mult_mod_eq [of c 8] mod_less_divisor [of 8 q] by linarith
qed

lemma masked_bit: "bit ((a :: u8) AND BitMasks ! (c mod 8)) (7 - q mod 8) \<longleftrightarrow> q mod 8 < c mod 8 \<and> bit a (7 - q mod 8)"
proof -
  have lt: "c mod 8 < 8" "q mod 8 < 8" by simp_all
  then have "8 - c mod 8 \<le> 7 - q mod 8 \<longleftrightarrow> q mod 8 < c mod 8" by linarith
  then show ?thesis using mask_bit [of "c mod 8" "7 - q mod 8"] lt by (auto simp: bit_and_iff)
qed

text \<open>A node that tests bit \<open>c\<close> of keys as long as the target.\<close>

definition target_at :: "NCS_PATRICIA_NODE \<Rightarrow> bytes \<Rightarrow> nat \<Rightarrow> bool" where
  "target_at n T c \<longleftrightarrow> pn_bit n = int c \<and> length (pn_key_info n) = length T \<and> c < 8 * length T"

lemma target_atD:
  assumes "target_at n T c"
  shows "pn_bit n = int c" and "length (pn_key_info n) = length T" and "c div 8 < length T"
  using assms by (simp_all add: target_at_def less_mult_imp_div_less mult.commute)

lemma left_bits:
  assumes at: "target_at n T c"
  obtains T' where "left_target n T = Some T'" and "length T' = length T"
    and "\<And>q. kbit T' q \<longleftrightarrow> q < c \<and> kbit (pn_key_info n) q \<or> q = c"
proof -
  note bit_n = target_atD(1) [OF at] and len_n = target_atD(2) [OF at] and octet = target_atD(3) [OF at]
  let ?i = "c div 8" and ?k = "pn_key_info n"
  let ?x = "(?k ! ?i AND BitMasks ! (c mod 8)) OR drop_bit (c mod 8) 0x80"
  let ?T = "take ?i ?k @ ?x # replicate (length T - ?i - 1) 0"
  have x: "bit ?x (7 - q mod 8) \<longleftrightarrow> q mod 8 < c mod 8 \<and> bit (?k ! ?i) (7 - q mod 8) \<or> q mod 8 = c mod 8" for q
  proof -
    have "c mod 8 < 8" "q mod 8 < 8" by simp_all
    then have "c mod 8 + (7 - q mod 8) = 7 \<longleftrightarrow> q mod 8 = c mod 8" by linarith
    then show ?thesis by (simp only: bit_or_iff masked_bit bit_drop80)
  qed
  have "kbit ?T q \<longleftrightarrow> q < c \<and> kbit ?k q \<or> q = c" for q
  proof -
    have "q = c \<longleftrightarrow> q div 8 = ?i \<and> q mod 8 = c mod 8" by (metis div_mult_mod_eq)
    moreover have "?i < length ?k" using octet len_n by simp
    ultimately show ?thesis
      unfolding kbit_splice [OF \<open>?i < length ?k\<close>] x less_div_mod [of q c] by (auto simp: kbit_def)
  qed
  moreover have "left_target n T = Some ?T" "length ?T = length T" using octet bit_n len_n by (auto simp: left_target_def Let_def)
  ultimately show thesis using that by blast
qed

lemma down_bits:
  assumes at: "target_at n T c"
  obtains T' where "down_target n T = Some T'" and "length T' = length T"
    and "\<And>q. kbit T' q \<longleftrightarrow> q < c \<and> kbit (pn_key_info n) q"
proof -
  note bit_n = target_atD(1) [OF at] and len_n = target_atD(2) [OF at] and octet = target_atD(3) [OF at]
  let ?i = "c div 8" and ?k = "pn_key_info n"
  let ?T = "take ?i ?k @ (if c mod 8 \<noteq> 0 then (?k ! ?i AND BitMasks ! (c mod 8)) # replicate (length T - ?i - 1) 0
                              else replicate (length T - ?i) 0)"
  have i: "?i < length ?k" using octet len_n by simp
  have "kbit ?T q \<longleftrightarrow> q < c \<and> kbit ?k q" for q
  proof -
    have "kbit ?k q \<longleftrightarrow> bit (?k ! ?i) (7 - q mod 8)" if "q div 8 = ?i" using that i by (simp add: kbit_def)
    then show ?thesis unfolding less_div_mod [of q c]
      by (cases "c mod 8 = 0") (auto simp: kbit_splice [OF i] kbit_splice0 [OF i] masked_bit)
  qed
  moreover have "down_target n T = Some ?T" "length ?T = length T" using octet bit_n len_n by (auto simp: down_target_def Let_def)
  ultimately show thesis using that by blast
qed

lemma right_bits:
  assumes at: "target_at n T c"
  obtains W where "right_target n T = Some (incr W (Suc (c div 8)))" and "length W = length T"
    and "\<And>q. kbit W q \<longleftrightarrow> (if q < c then kbit (pn_key_info n) q else q < 8 * Suc (c div 8))"
proof -
  note bit_n = target_atD(1) [OF at] and len_n = target_atD(2) [OF at] and octet = target_atD(3) [OF at]
  let ?i = "c div 8" and ?k = "pn_key_info n"
  let ?y = "if c mod 8 > 0 then ?k ! ?i AND BitMasks ! (c mod 8) else T ! ?i"
  let ?x = "?y OR drop_bit (c mod 8) 0xff"
  let ?W = "take ?i ?k @ ?x # replicate (length T - ?i - 1) 0"
  have x: "bit ?x (7 - q mod 8) \<longleftrightarrow> (if q mod 8 < c mod 8 then bit (?k ! ?i) (7 - q mod 8) else True)" for q
  proof -
    have "c mod 8 < 8" "q mod 8 < 8" by simp_all
    then have "c mod 8 + (7 - q mod 8) < 8 \<longleftrightarrow> \<not> q mod 8 < c mod 8" by linarith
    then show ?thesis by (cases "c mod 8 > 0") (simp_all only: bit_or_iff masked_bit bit_dropff if_True if_False simp_thms, auto)
  qed
  have "kbit ?W q \<longleftrightarrow> (if q < c then kbit ?k q else q < 8 * Suc ?i)" for q
  proof -
    have i: "?i < length ?k" using octet len_n by simp
    have "q < 8 * Suc ?i \<longleftrightarrow> q div 8 \<le> ?i" by (metis less_Suc_eq_le less_mult_imp_div_less mult.commute div_less_iff_less_mult zero_less_numeral)
    then show ?thesis
      using i unfolding kbit_splice [OF i] x less_div_mod [of q c] by (auto simp: kbit_def)
  qed
  moreover have "right_target n T = Some (incr ?W (Suc ?i))" "length ?W = length T"
    using octet bit_n len_n by (auto simp: right_target_def Let_def)
  ultimately show thesis using that by blast
qed

text \<open>
  After a right turn the new target has lost the prefix of the node, unless the prefix was
  all ones and the carry left the key.
\<close>

lemma right_lost:
  assumes at: "target_at n T c"
  obtains T' ok where "right_target n T = Some (T', ok)" and "length T' = length T"
    and "ok \<Longrightarrow> \<not> agree c (kbit T') (kbit (pn_key_info n))"
    and "\<not> ok \<Longrightarrow> \<forall>q < c. kbit (pn_key_info n) q"
proof -
  note bit_n = target_atD(1) [OF at] and len_n = target_atD(2) [OF at] and octet = target_atD(3) [OF at]
  obtain W where W: "right_target n T = Some (incr W (Suc (c div 8)))" "length W = length T"
    "\<And>q. kbit W q \<longleftrightarrow> (if q < c then kbit (pn_key_info n) q else q < 8 * Suc (c div 8))" by (rule right_bits [OF at]) blast
  obtain T' ok where t: "incr W (Suc (c div 8)) = (T', ok)" by (metis prod.exhaust)
  have le: "Suc (c div 8) \<le> length W" using octet W(2) by simp
  note r = incr_run [OF le t]
  show thesis
  proof (rule that [of T' ok])
    show "right_target n T = Some (T', ok)" using W(1) t by simp
    show "length T' = length T" using r W(2) by simp
    show "\<forall>q < c. kbit (pn_key_info n) q" if "\<not> ok"
    proof (intro allI impI)
      fix q assume q: "q < c"
      then have "q div 8 < Suc (c div 8)" using div_le_mono [of q c 8] by simp
      then have "W ! (q div 8) = 255" using r that by blast
      then have "kbit W q" using \<open>q div 8 < Suc (c div 8)\<close> le bit_0xff [of "7 - q mod 8"] unfolding kbit_def by simp
      then show "kbit (pn_key_info n) q" using W(3) q by simp
    qed
    show "\<not> agree c (kbit T') (kbit (pn_key_info n))" if ok
    proof
      assume ag: "agree c (kbit T') (kbit (pn_key_info n))"
      let ?m = "Suc (c div 8)"
      have "kval (take ?m W) < kval (take ?m T')" using r that by simp
      then have "take ?m W < take ?m T'" using kval_less [of "take ?m W" "take ?m T'"] r W(2) by simp
      then obtain i where i: "i < 8 * length (take ?m W)" "\<not> kbit (take ?m W) i" "kbit (take ?m T') i"
        using key_lessD [of "take ?m W" "take ?m T'"] r W(2) by (metis length_take)
      then have "i < 8 * ?m" using le by simp
      then have "\<not> kbit W i" "kbit T' i" using i by (simp_all add: kbit_take)
      then show False using W(3) [of i] agree_less [OF ag, of i] \<open>i < 8 * ?m\<close> by (auto split: if_splits)
    qed
  qed
qed

end
