(* ===== verification/Patricia_Del.thy ===== *)
theory Patricia_Del
  imports Patricia_Add
begin

text \<open>Deleting a node: the two walks along its key, and the shape the stores leave behind.\<close>

section \<open>The walks\<close>

primrec down :: "(nat \<Rightarrow> bool) \<Rightarrow> ptr \<Rightarrow> ptr \<times> bool \<Rightarrow> shape \<Rightarrow> ptr \<times> bool" where
  "down k p prev (Up q) = prev"
| "down k p prev (Nd q b l r) =
     (if q = p then prev else if k b then down k p (q, True) r else down k p (q, False) l)"

primrec climb :: "(nat \<Rightarrow> bool) \<Rightarrow> ptr \<Rightarrow> ptr \<times> bool \<Rightarrow> shape \<Rightarrow> ptr \<times> bool \<times> ptr \<times> bool" where
  "climb k p prev (Up q) = (q, False, prev)"
| "climb k p prev (Nd q b l r) =
     (if k b then if r = Up p then (q, True, prev) else climb k p (q, True) r
      else if l = Up p then (q, False, prev) else climb k p (q, False) l)"

text \<open>The subtree of a node.\<close>

primrec sub :: "ptr \<Rightarrow> shape \<Rightarrow> shape" where
  "sub p (Up q) = Up q"
| "sub p (Nd q b l r) = (if q = p then Nd q b l r else if p \<in> nds l then sub p l else sub p r)"

lemma crit_side:
  assumes "crit kb (Nd q b l r)" and "p \<in> nds (Nd q b l r)" and "p \<noteq> q"
  shows "if kb p b then p \<in> nds r \<and> p \<notin> nds l \<and> p \<notin> ups l else p \<in> nds l \<and> p \<notin> nds r \<and> p \<notin> ups r"
  using assms nds_ups [of kb l] nds_ups [of kb r] by auto

lemma crit_own_side:
  assumes "crit kb (Nd q b l r)" and "p \<in> ups (Nd q b l r)"
  shows "if kb p b then p \<in> ups r \<and> p \<notin> ups l else p \<in> ups l \<and> p \<notin> ups r"
  using assms by auto

lemma down_prev: "down k p prev t = l \<Longrightarrow> l = prev \<or> fst l \<in> nds t"
  by (induction t arbitrary: prev) (auto split: if_splits, metis fst_conv, metis fst_conv)

lemma climb_prev: "climb k p prev t = (x, d, l) \<Longrightarrow> l = prev \<or> fst l \<in> nds t"
  by (induction t arbitrary: prev) (auto split: if_splits, metis fst_conv, metis fst_conv)

lemma sub_nds: "crit kb t \<Longrightarrow> p \<in> nds t \<Longrightarrow> nds (sub p t) \<subseteq> nds t"
  by (induction t) auto

lemma del_find_run:
  assumes "get_leg prev h = Some y" and "h (fst prev) = Some m" and "pn_bit m = b" and "link h b y t"
    and "crit kb t" and "p \<in> nds t" and "h p = Some n" and "kb p = kbit (pn_key_info n)"
    and "within (8 * length (pn_key_info n)) t"
  shows "del_find h p prev = Some (Some (down (kb p) p prev t))"
  using assms(1-6,9)
proof (induction t arbitrary: prev y m b)
  case (Nd q c l r)
  then obtain nq where nq: "h q = Some nq" "pn_bit nq = int c" "y = q" "b < int c"
      "link h (int c) (leg nq False) l" "link h (int c) (leg nq True) r" by auto
  show ?case
  proof (cases "q = p")
    case True
    then show ?thesis using Nd.prems(1) nq(3) by (subst del_find.simps) simp
  next
    case False
    have g: "m_GET_BIT (pn_key_info n) (int c) = Some (kb p c)" using Nd.prems(7) assms(8) by (simp add: get_bit)
    have "del_find h p prev = del_find h p (q, kb p c)"
      using Nd.prems(1-3) nq assms(7) False g by (subst del_find.simps) simp
    also have "\<dots> = Some (Some (down (kb p) p (q, kb p c) (if kb p c then r else l)))"
    proof (cases "kb p c")
      case True
      then have "p \<in> nds r" using crit_side [OF Nd.prems(5,6)] False by simp
      then show ?thesis using True Nd.IH(2) [of "(q, True)" "leg nq True" nq "int c"] nq Nd.prems(5,7) by (simp add: get_leg_def)
    next
      case k: False
      then have "p \<in> nds l" using crit_side [OF Nd.prems(5,6)] False by simp
      then show ?thesis using k Nd.IH(1) [of "(q, False)" "leg nq False" nq "int c"] nq Nd.prems(5,7) by (simp add: get_leg_def)
    qed
    finally show ?thesis using False by simp
  qed
qed simp

lemma del_up_run:
  assumes "link h b y t" and "\<exists>q c l r. t = Nd q c l r \<and> p \<notin> nds l \<and> p \<notin> nds r"
    and "crit kb t" and "p \<in> ups t" and "h p = Some n" and "kb p = kbit (pn_key_info n)"
    and "within (8 * length (pn_key_info n)) t"
  shows "del_up h p y prev = Some (Some (climb (kb p) p prev t))"
  using assms(1-4,7)
proof (induction t arbitrary: prev y b)
  case (Nd q c l r)
  then obtain nq where nq: "h q = Some nq" "pn_bit nq = int c" "y = q" "b < int c"
      "link h (int c) (leg nq False) l" "link h (int c) (leg nq True) r" by auto
  have g: "m_GET_BIT (pn_key_info n) (int c) = Some (kb p c)" using Nd.prems(5) assms(6) by (simp add: get_bit)
  let ?s = "if kb p c then r else l"
  have "link h (int c) (leg nq (kb p c)) ?s" using nq(5,6) by (cases "kb p c") simp_all
  moreover have "p \<in> ups ?s" using crit_own_side [OF Nd.prems(3,4)] by (cases "kb p c") simp_all
  moreover have "p \<notin> nds ?s" using Nd.prems(2) by (cases "kb p c") simp_all
  moreover have "crit kb ?s" using Nd.prems(3) by (cases "kb p c") simp_all
  ultimately have s: "link h (int c) (leg nq (kb p c)) ?s" "p \<in> ups ?s" "p \<notin> nds ?s" "crit kb ?s" by blast+
  show ?case
  proof (cases "?s = Up p")
    case True
    then have "leg nq (kb p c) = p" using s(1) by simp
    then show ?thesis using nq g assms(5) True by (subst del_up.simps) (auto split: if_splits)
  next
    case False
    then obtain q' c' l' r' where s': "?s = Nd q' c' l' r'" using s(2) by (cases ?s) auto
    then obtain m where m: "h q' = Some m" "int c < pn_bit m" "leg nq (kb p c) = q'" "q' \<noteq> p" using s by auto
    have "del_up h p y prev = del_up h p (leg nq (kb p c)) (q, kb p c)"
      using nq g assms(5) m by (subst del_up.simps) simp
    also have "\<dots> = Some (Some (climb (kb p) p (q, kb p c) ?s))"
      using Nd.IH(1) [of "int c" "leg nq False"] Nd.IH(2) [of "int c" "leg nq True"] s s' Nd.prems(5)
      by (cases "kb p c") auto
    also have "climb (kb p) p (q, kb p c) ?s = climb (kb p) p prev (Nd q c l r)" using False by auto
    finally show ?thesis .
  qed
qed simp

section \<open>The shape below the deleted node\<close>

text \<open>
  Upward links that leave a subtree lead to nodes above it, whose bits are at most that of
  the node the subtree hangs on.
\<close>

definition outer :: "pmem \<Rightarrow> int \<Rightarrow> shape \<Rightarrow> bool" where
  "outer h b t \<longleftrightarrow> (\<forall>q n. q \<in> ups t \<longrightarrow> q \<notin> nds t \<longrightarrow> h q = Some n \<longrightarrow> pn_bit n \<le> b)"

lemma outer_kid:
  assumes "outer h b (Nd q c l r)" and "crit kb (Nd q c l r)" and "link h b y (Nd q c l r)"
  shows "outer h (int c) l" "outer h (int c) r"
proof -
  note d = crit_disjoint [OF assms(2)]
  have q: "\<exists>n. h q = Some n \<and> pn_bit n = int c" and b: "b < int c" using assms(3) by auto
  have "pn_bit n \<le> int c" if x: "x \<in> ups l \<and> x \<notin> nds l \<or> x \<in> ups r \<and> x \<notin> nds r" and n: "h x = Some n" for x n
  proof (cases "x = q")
    case False
    then have "x \<in> ups (Nd q c l r)" "x \<notin> nds (Nd q c l r)" using x d by auto
    then show ?thesis using assms(1) n b unfolding outer_def by fastforce
  qed (use q n in auto)
  then show "outer h (int c) l" "outer h (int c) r" unfolding outer_def by blast+
qed

lemma link_lower:
  assumes "link h b y t" and "c \<le> b" and "\<And>q n. t = Up q \<Longrightarrow> h q = Some n \<Longrightarrow> pn_bit n \<le> c"
  shows "link h c y t"
  using assms by (cases t) auto

text \<open>
  \<open>spliced h h' t p x d l c\<close>: in \<open>h'\<close> the leg \<open>l\<close> leads past the node \<open>x\<close>, which has the
  bit \<open>c\<close> now; the other nodes of \<open>t\<close> are as in \<open>h\<close> and no bit has grown.
\<close>

definition spliced :: "pmem \<Rightarrow> pmem \<Rightarrow> ptr \<Rightarrow> bool \<Rightarrow> ptr \<times> bool \<Rightarrow> ptr set \<Rightarrow> bool" where
  "spliced h h' x d l S \<longleftrightarrow>
     (\<forall>q \<in> S. q \<noteq> x \<longrightarrow> q \<noteq> fst l \<longrightarrow> h' q = h q)
     \<and> (\<forall>m n. h x = Some m \<longrightarrow> fst l \<in> S \<longrightarrow> h (fst l) = Some n \<longrightarrow> h' (fst l) = Some (put_leg n (snd l) (leg m (\<not> d))))
     \<and> (\<forall>q n. h q = Some n \<longrightarrow> (\<exists>n'. h' q = Some n' \<and> pn_bit n' \<le> pn_bit n))"

lemma spliced_frame:
  assumes "spliced h h' x d l S" and "link h b y t" and "nds t \<subseteq> S" and "x \<notin> nds t" and "fst l \<notin> nds t"
  shows "link h' b y t"
  by (rule link_frame [OF assms(2)]) (use assms in \<open>auto simp: spliced_def\<close>)

lemma spliced_past:
  assumes "spliced h h' x d l S" and "link h (int e) y s" and "nds s \<subseteq> S" and "x \<notin> nds s" and "fst l \<notin> nds s"
    and "\<forall>n. h' x = Some n \<longrightarrow> pn_bit n \<le> b" and "b < int e"
    and "\<And>q n. s = Up q \<Longrightarrow> q \<noteq> x \<Longrightarrow> h q = Some n \<Longrightarrow> pn_bit n \<le> b"
  shows "link h' b y s"
proof (rule link_lower)
  show s': "link h' (int e) y s" by (rule spliced_frame [OF assms(1-5)])
  show "pn_bit n \<le> b" if q: "s = Up q" "h' q = Some n" for q n
  proof (cases "q = x")
    case False
    obtain m where "h q = Some m" using assms(2) q(1) by auto
    then show ?thesis using assms(1) assms(8) [OF q(1) False] q(2) unfolding spliced_def by fastforce
  qed (use assms(6) q in auto)
qed (use assms(7) in simp)

lemma rem_link:
  assumes "link h b y t" and "outer h b t" and "climb (kb p) p (z, e) t = (x, d, l)" and "crit kb t"
    and "p \<in> ups t" and "p \<notin> nds t" and "t \<noteq> Up p" and "z \<notin> nds t" and "h x = Some m"
    and "spliced h h' x d l S" and "nds t \<subseteq> S" and "\<forall>n. h' x = Some n \<longrightarrow> pn_bit n \<le> b"
  shows "link h' b (if fst l = z then leg m (\<not> d) else y) (snd (rem (kb p) p t)) \<and> x = fst (rem (kb p) p t) \<and> (fst l = z \<longrightarrow> snd l = e)"
  using assms(1-8,11,12)
proof (induction t arbitrary: b y z e)
  case (Nd q c u v)
  obtain nq where nq: "h q = Some nq" "pn_bit nq = int c" "y = q" "b < int c"
      "link h (int c) (leg nq False) u" "link h (int c) (leg nq True) v" using Nd.prems(1) by auto
  note o = outer_kid [OF Nd.prems(2,4,1)] and dis = crit_disjoint [OF Nd.prems(4)]
  have cr: "crit kb u" "crit kb v" "q \<notin> nds u" "q \<notin> nds v" using Nd.prems(4) by auto
  have up: "pn_bit n \<le> b" if "w \<in> ups (Nd q c u v)" "w \<notin> nds (Nd q c u v)" "h w = Some n" for w n
    using Nd.prems(2) that unfolding outer_def by blast
  have lone: "pn_bit n \<le> b" if "u = Up w \<or> v = Up w" "w \<noteq> q" "h w = Some n" for w n
    by (rule up [OF _ _ that(3)]) (use that dis in auto)
  show ?case
  proof (cases "kb p c")
    case True
    then have p: "p \<in> ups v" "p \<notin> nds v" "p \<notin> ups u" using crit_own_side [OF Nd.prems(4,5)] Nd.prems(6) by auto
    show ?thesis
    proof (cases "v = Up p")
      case v: True
      then have e: "x = q" "d" "l = (z, e)" using Nd.prems(3) True by auto
      have "link h' b (leg m False) u"
        by (rule spliced_past [OF assms(10)]) (use nq e assms(9) Nd.prems(8-10) cr lone in auto)
      then show ?thesis using e v True by simp
    next
      case v: False
      have cl: "climb (kb p) p (q, True) v = (x, d, l)" using Nd.prems(3) True v by simp
      have lb: "\<forall>n. h' x = Some n \<longrightarrow> pn_bit n \<le> int c" using Nd.prems(10) nq(4) by auto
      have ih: "link h' (int c) (if fst l = q then leg m (\<not> d) else leg nq True) (snd (rem (kb p) p v))"
          "x = fst (rem (kb p) p v)" "fst l = q \<longrightarrow> snd l = True"
        using Nd.IH(2) [OF nq(6) o(2) cl cr(2) p(1,2) v cr(4) _ lb] Nd.prems(9) by auto
      have x: "x \<in> nds v" using rem_sets [OF cr(2) p(1,2) v] ih(2) by simp
      have l: "fst l \<in> insert q (nds v)" using climb_prev [OF cl] by auto
      have fu: "link h' (int c) (leg nq False) u"
        by (rule spliced_frame [OF assms(10) nq(5)]) (use x l dis cr Nd.prems(9) in auto)
      have lz: "fst l \<noteq> z" using l Nd.prems(8) by auto
      have xq: "x \<noteq> q" using x cr by auto
      have "h' q = Some (if fst l = q then put_leg nq True (leg m (\<not> d)) else nq)"
        using assms(9,10) nq(1) xq ih(3) Nd.prems(9) unfolding spliced_def by auto
      then show ?thesis using fu ih lz nq True v by auto
    qed
  next
    case False
    then have p: "p \<in> ups u" "p \<notin> nds u" "p \<notin> ups v" using crit_own_side [OF Nd.prems(4,5)] Nd.prems(6) by auto
    show ?thesis
    proof (cases "u = Up p")
      case u: True
      then have e: "x = q" "\<not> d" "l = (z, e)" using Nd.prems(3) False by auto
      have "link h' b (leg m True) v"
        by (rule spliced_past [OF assms(10)]) (use nq e assms(9) Nd.prems(8-10) cr lone in auto)
      then show ?thesis using e u False by simp
    next
      case u: False
      have cl: "climb (kb p) p (q, False) u = (x, d, l)" using Nd.prems(3) False u by simp
      have lb: "\<forall>n. h' x = Some n \<longrightarrow> pn_bit n \<le> int c" using Nd.prems(10) nq(4) by auto
      have ih: "link h' (int c) (if fst l = q then leg m (\<not> d) else leg nq False) (snd (rem (kb p) p u))"
          "x = fst (rem (kb p) p u)" "fst l = q \<longrightarrow> snd l = False"
        using Nd.IH(1) [OF nq(5) o(1) cl cr(1) p(1,2) u cr(3) _ lb] Nd.prems(9) by auto
      have x: "x \<in> nds u" using rem_sets [OF cr(1) p(1,2) u] ih(2) by simp
      have l: "fst l \<in> insert q (nds u)" using climb_prev [OF cl] by auto
      have fv: "link h' (int c) (leg nq True) v"
        by (rule spliced_frame [OF assms(10) nq(6)]) (use x l dis cr Nd.prems(9) in auto)
      have lz: "fst l \<noteq> z" using l Nd.prems(8) by auto
      have xq: "x \<noteq> q" using x cr by auto
      have "h' q = Some (if fst l = q then put_leg nq False (leg m (\<not> d)) else nq)"
        using assms(9,10) nq(1) xq ih(3) Nd.prems(9) unfolding spliced_def by auto
      then show ?thesis using fv ih lz nq False u by auto
    qed
  qed
qed simp

end
