(* ===== verification/Patricia_Del_Run.thy ===== *)
theory Patricia_Del_Run
  imports Patricia_Del
begin

text \<open>The stores of a deletion, and the operation as a whole.\<close>

section \<open>From the subtree to the whole tree\<close>

lemma climb_rem:
  assumes "crit kb t" and "p \<in> ups t" and "t \<noteq> Up p"
  shows "fst (climb (kb p) p prev t) = fst (rem (kb p) p t)"
  using assms by (induction t arbitrary: prev) auto

lemma sub_del_link:
  assumes lk: "link h b p (Nd p c l r)" and ou: "outer h b (Nd p c l r)" and cr: "crit kb (Nd p c l r)"
    and cl: "climb (kb p) p (a, e) (Nd p c l r) = (x, d, pl)" and n: "h p = Some n" and x: "h x = Some m"
    and a: "a \<notin> nds (Nd p c l r)"
    and sp: "spliced h h' x d pl (nds l \<union> nds r)"
    and nx: "x \<noteq> p \<Longrightarrow> \<exists>n'. h' x = Some n' \<and> pn_bit n' = int c \<and> leg n' (\<not> kb p c) = leg n (\<not> kb p c)
        \<and> leg n' (kb p c) = (if fst pl = p then leg m (\<not> d) else leg n (kb p c))"
  shows "link h' b (if x = p then leg n (\<not> d) else x) (del (kb p) p (Nd p c l r))"
proof -
  have ln: "b < int c" "pn_bit n = int c" "link h (int c) (leg n False) l" "link h (int c) (leg n True) r" using lk n by auto
  note o = outer_kid [OF ou cr lk] and dis = crit_disjoint [OF cr]
  have lr: "crit kb l" "crit kb r" "p \<notin> nds l" "p \<notin> nds r" using cr by auto
  have lone: "pn_bit k \<le> b" if "l = Up w \<or> r = Up w" "w \<noteq> p" "h w = Some k" for w k
    using ou that dis unfolding outer_def by auto
  have up: "p \<in> ups (Nd p c l r)" using cr by simp
  show ?thesis
  proof (cases "kb p c")
    case True
    then have p: "p \<in> ups r" "p \<notin> ups l" using crit_own_side [OF cr up] by auto
    show ?thesis
    proof (cases "r = Up p")
      case r: True
      then have e: "x = p" "d" "pl = (a, e)" using cl True by auto
      have s: "link h' (int c) (leg n False) l" by (rule spliced_frame [OF sp ln(3)]) (use e lr a in auto)
      have "link h' b (leg n False) l"
      proof (rule link_lower [OF s])
        show "pn_bit k \<le> b" if "l = Up q" "h' q = Some k" for q k
          using link_lower lone [of q] that sp ln(3) p(2) unfolding spliced_def by fastforce
      qed (use ln in simp)
      then show ?thesis using e r True by simp
    next
      case r: False
      have cr': "climb (kb p) p (p, True) r = (x, d, pl)" using cl True r by simp
      have xr: "x \<in> nds r" using climb_rem [OF lr(2) p(1) r, of "(p, True)"] cr' rem_sets [OF lr(2) p(1) lr(4) r] by simp
      then have "x \<noteq> p" using lr by auto
      then obtain n' where n': "h' x = Some n'" "pn_bit n' = int c" "leg n' False = leg n False"
          "leg n' True = (if fst pl = p then leg m (\<not> d) else leg n True)" using nx True by auto
      have "link h' (int c) (if fst pl = p then leg m (\<not> d) else leg n True) (snd (rem (kb p) p r)) \<and> x = fst (rem (kb p) p r) \<and> (fst pl = p \<longrightarrow> snd pl = True)"
        by (rule rem_link [OF ln(4) o(2) cr' lr(2) p(1) lr(4) r lr(4) x sp]) (use n' in auto)
      moreover have "link h' (int c) (leg n False) l"
        by (rule spliced_frame [OF sp ln(3)]) (use xr dis lr climb_prev [OF cr'] in auto)
      ultimately show ?thesis using n' ln(1) True r lr xr by auto
    qed
  next
    case False
    then have p: "p \<in> ups l" "p \<notin> ups r" using crit_own_side [OF cr up] by auto
    show ?thesis
    proof (cases "l = Up p")
      case l: True
      then have e: "x = p" "\<not> d" "pl = (a, e)" using cl False by auto
      have s: "link h' (int c) (leg n True) r" by (rule spliced_frame [OF sp ln(4)]) (use e lr a in auto)
      have "link h' b (leg n True) r"
      proof (rule link_lower [OF s])
        show "pn_bit k \<le> b" if "r = Up q" "h' q = Some k" for q k
          using link_lower lone [of q] that sp ln(4) p(2) unfolding spliced_def by fastforce
      qed (use ln in simp)
      then show ?thesis using e l False by simp
    next
      case l: False
      have cr': "climb (kb p) p (p, False) l = (x, d, pl)" using cl False l by simp
      have xr: "x \<in> nds l" using climb_rem [OF lr(1) p(1) l, of "(p, False)"] cr' rem_sets [OF lr(1) p(1) lr(3) l] by simp
      then have "x \<noteq> p" using lr by auto
      then obtain n' where n': "h' x = Some n'" "pn_bit n' = int c" "leg n' True = leg n True"
          "leg n' False = (if fst pl = p then leg m (\<not> d) else leg n False)" using nx False by auto
      have "link h' (int c) (if fst pl = p then leg m (\<not> d) else leg n False) (snd (rem (kb p) p l)) \<and> x = fst (rem (kb p) p l) \<and> (fst pl = p \<longrightarrow> snd pl = False)"
        by (rule rem_link [OF ln(3) o(1) cr' lr(1) p(1) lr(3) l lr(3) x sp]) (use n' in auto)
      moreover have "link h' (int c) (leg n True) r"
        by (rule spliced_frame [OF sp ln(4)]) (use xr dis lr climb_prev [OF cr'] in auto)
      ultimately show ?thesis using n' ln(1) False l lr xr by auto
    qed
  qed
qed

lemma down_off:
  assumes "crit kb t" and "p \<in> nds t" and "down (kb p) p prev t = (a, e)" and "fst prev \<notin> nds t"
  shows "a \<notin> nds (sub p t)"
  using assms
proof (induction t arbitrary: prev)
  case (Nd q c l r)
  show ?case
  proof (cases "q = p")
    case False
    note side = crit_side [OF Nd.prems(1,2)] and dis = crit_disjoint [OF Nd.prems(1)]
    have "sub p (Nd q c l r) = (if kb p c then sub p r else sub p l)" using side False by auto
    then show ?thesis using Nd side False by (cases "kb p c") auto
  qed (use Nd.prems in auto)
qed simp

lemma del_link:
  assumes "link h b y t" and "outer h b t" and "crit kb t" and "p \<in> nds t" and "down (kb p) p prev t = (a, e)"
    and "fst prev \<notin> nds t"
    and same: "\<And>q. q \<notin> nds (sub p t) \<Longrightarrow> q \<noteq> a \<Longrightarrow> h' q = h q"
    and leg_a: "\<And>n. h a = Some n \<Longrightarrow> h' a = Some (put_leg n e z)"
    and bits: "\<And>q n. h q = Some n \<Longrightarrow> \<exists>n'. h' q = Some n' \<and> pn_bit n' \<le> pn_bit n"
    and sb: "\<And>b'. link h b' p (sub p t) \<Longrightarrow> outer h b' (sub p t) \<Longrightarrow> link h' b' z (del (kb p) p (sub p t))"
  shows "link h' b (if a = fst prev then z else y) (del (kb p) p t)"
  using assms(1-7,10)
proof (induction t arbitrary: b y prev)
  case (Nd q c l r)
  obtain nq where nq: "h q = Some nq" "pn_bit nq = int c" "y = q" "b < int c"
      "link h (int c) (leg nq False) l" "link h (int c) (leg nq True) r" using Nd.prems(1) by auto
  note o = outer_kid [OF Nd.prems(2,3,1)] and dis = crit_disjoint [OF Nd.prems(3)]
  have cr: "crit kb l" "crit kb r" "q \<notin> nds l" "q \<notin> nds r" using Nd.prems(3) by auto
  show ?case
  proof (cases "q = p")
    case True
    then show ?thesis using Nd.prems(8) [of b] Nd.prems(1,2,5) nq(3) by auto
  next
    case False
    note side = crit_side [OF Nd.prems(3,4)]
    show ?thesis
    proof (cases "kb p c")
      case k: True
      have p: "p \<in> nds r" "p \<notin> nds l" using side k False by auto
      have s: "sub p (Nd q c l r) = sub p r" using p False by auto
      note sm = Nd.prems(7) [unfolded s]
      have dn: "down (kb p) p (q, True) r = (a, e)" using Nd.prems(5) k False by simp
      have sr: "nds (sub p r) \<subseteq> nds r" by (rule sub_nds [OF cr(2) p(1)])
      have aq: "a \<in> insert q (nds r)" "a = q \<longrightarrow> e" using down_prev [OF dn] cr by auto
      have ih: "link h' (int c) (if a = q then z else leg nq True) (del (kb p) p r)"
        using Nd.IH(2) [OF nq(6) o(2) cr(2) p(1) dn] cr(4) Nd.prems(7,8) unfolding s by simp
      have "link h' (int c) (leg nq False) l"
        by (rule link_frame [OF nq(5) _ bits]) (use sm sr aq dis cr p in auto)
      moreover have "h' q = Some (if a = q then put_leg nq True z else nq)"
        using leg_a [of nq] sm [of q] sr cr aq nq(1) by auto
      ultimately show ?thesis using ih nq aq Nd.prems(6) False k by auto
    next
      case k: False
      have p: "p \<in> nds l" "p \<notin> nds r" using side k False by auto
      have s: "sub p (Nd q c l r) = sub p l" using p False by auto
      note sm = Nd.prems(7) [unfolded s]
      have dn: "down (kb p) p (q, False) l = (a, e)" using Nd.prems(5) k False by simp
      have sl: "nds (sub p l) \<subseteq> nds l" by (rule sub_nds [OF cr(1) p(1)])
      have aq: "a \<in> insert q (nds l)" "a = q \<longrightarrow> \<not> e" using down_prev [OF dn] cr by auto
      have ih: "link h' (int c) (if a = q then z else leg nq False) (del (kb p) p l)"
        using Nd.IH(1) [OF nq(5) o(1) cr(1) p(1) dn] cr(3) Nd.prems(7,8) unfolding s by simp
      have "link h' (int c) (leg nq True) r"
        by (rule link_frame [OF nq(6) _ bits]) (use sm sl aq dis cr p in auto)
      moreover have "h' q = Some (if a = q then put_leg nq False z else nq)"
        using leg_a [of nq] sm [of q] sl cr aq nq(1) by auto
      ultimately show ?thesis using ih nq aq Nd.prems(6) False k by auto
    qed
  qed
qed simp

section \<open>The stores\<close>

lemma put_leg_twice [simp]: "put_leg (put_leg n d q) d q' = put_leg n d q'"
  by (simp add: put_leg_def)

lemma put_leg_own [simp]: "put_leg n True (pn_right n) = n" "put_leg n False (pn_left n) = n" "put_leg n d (leg n d) = n"
  by (simp_all add: put_leg_def leg_def)

text \<open>The node is the one with the link up to it.\<close>

lemma stores_self:
  assumes "h p = Some n" and "h a = Some na" and "a \<noteq> p"
  shows "del_stores p (a, e) (a, e) p d h = Some (h(a \<mapsto> put_leg na e (leg n (\<not> d))))"
  using assms by (auto simp: del_stores_def set_leg_def leg_def fun_upd_twist)

text \<open>Another node, which moves to the place of the deleted one.\<close>

lemma stores_move:
  fixes d f :: bool
  assumes "h p = Some n" and "h a = Some na" and "h x = Some m" and "h c = Some nc"
    and "a \<noteq> p" and "x \<noteq> p" and "a \<noteq> x" and "a \<noteq> c" and "x \<noteq> c"
  defines "n' \<equiv> if c = p then put_leg n f (leg m (\<not> d)) else n"
  shows "del_stores p (a, e) (c, f) x d h =
    Some (h(a \<mapsto> put_leg na e x, c \<mapsto> put_leg nc f (leg m (\<not> d)),
            x \<mapsto> m\<lparr>pn_bit := pn_bit n, pn_left := pn_left n', pn_right := pn_right n'\<rparr>))"
proof -
  have l: "leg (m\<lparr>pn_bit := i\<rparr>) g = leg m g" for i g by (simp add: leg_def)
  show ?thesis
    using assms(1-9) by (cases "c = p") (auto simp: del_stores_def set_leg_def l n'_def put_leg_def fun_eq_iff)
qed

section \<open>The operation\<close>

lemma sub_props:
  assumes "link h b y t" and "outer h b t" and "crit kb t" and "p \<in> nds t" and "within k t"
  obtains b' c l r where "sub p t = Nd p c l r" and "link h b' p (Nd p c l r)" and "crit kb (Nd p c l r)"
    and "within k (Nd p c l r)"
  using assms
proof (induction t arbitrary: b y thesis)
  case (Nd q c l r)
  show ?case
  proof (cases "q = p")
    case True
    then show ?thesis using Nd.prems(1) [of c l r b] Nd.prems(2-) by auto
  next
    case False
    obtain nq where nq: "link h (int c) (leg nq False) l" "link h (int c) (leg nq True) r" using Nd.prems(2) by auto
    have cr: "crit kb l" "crit kb r" "within k l" "within k r" using Nd.prems(4,6) by auto
    note o = outer_kid [OF Nd.prems(3,4,2)]
    show ?thesis
    proof (cases "p \<in> nds l")
      case True
      then show ?thesis using Nd.IH(1) [OF _ nq(1) o(1) cr(1) True cr(3)] Nd.prems(1) False by auto
    next
      case l: False
      then have "p \<in> nds r" using Nd.prems(5) False by simp
      then show ?thesis using Nd.IH(2) [OF _ nq(2) o(2) cr(2) _ cr(4)] Nd.prems(1) False l by auto
    qed
  qed
qed simp

text \<open>Where the upward link to the node starts, and the node above that.\<close>

lemma climb_in:
  assumes "crit kb t" and "p \<in> ups t" and "p \<notin> nds t" and "t \<noteq> Up p" and "z \<notin> nds t"
    and "climb (kb p) p (z, e) t = (x, d, pl)"
  shows "x \<in> nds t" "fst pl \<noteq> x" "fst pl \<in> insert z (nds t)" "fst pl = z \<longrightarrow> snd pl = e"
proof -
  show x: "x \<in> nds t"
    using climb_rem [OF assms(1,2,4), of "(z, e)"] rem_sets [OF assms(1-4)] assms(6) by simp
  show "fst pl \<in> insert z (nds t)" "fst pl = z \<longrightarrow> snd pl = e"
    using climb_prev [OF assms(6)] assms(5) by (cases pl; auto)+
  show "fst pl \<noteq> x"
    using assms
  proof (induction t arbitrary: z e)
    case (Nd q c u v)
    have "crit kb u" "crit kb v" "q \<notin> nds u" "q \<notin> nds v" "p \<notin> nds u" "p \<notin> nds v" using Nd.prems(1,3) by auto
    with Nd.IH(1) [of q False] Nd.IH(2) [of q True] crit_own_side [OF Nd.prems(1,2)] Nd.prems(5,6)
    show ?case by (cases "kb p c") (auto split: if_splits)
  qed simp
qed

lemma climb_top:
  assumes cr: "crit kb (Nd p c l r)" and cl: "climb (kb p) p prev (Nd p c l r) = (x, d, pl)"
  shows "x = p \<and> pl = prev \<or> x \<noteq> p \<and> x \<in> nds l \<union> nds r \<and> fst pl \<in> insert p (nds l \<union> nds r) \<and> fst pl \<noteq> x
     \<and> (fst pl = p \<longrightarrow> snd pl = kb p c)"
proof -
  let ?s = "if kb p c then r else l"
  have "p \<in> ups (Nd p c l r)" using cr by simp
  note side = crit_own_side [OF cr this]
  have s: "crit kb ?s" using cr by (cases "kb p c") simp_all
  have ps: "p \<in> ups ?s" using side by (cases "kb p c") simp_all
  have pn: "p \<notin> nds ?s" using cr by (cases "kb p c") simp_all
  show ?thesis
  proof (cases "?s = Up p")
    case True
    then show ?thesis using cl by (auto split: if_splits)
  next
    case False
    have "climb (kb p) p (p, kb p c) ?s = (x, d, pl)" using cl False by (cases "kb p c") auto
    from climb_in [OF s ps pn False pn this] pn show ?thesis by (cases "kb p c") auto
  qed
qed

lemma link_nds_above: "link h b y t \<Longrightarrow> q \<in> nds t \<Longrightarrow> \<exists>n. h q = Some n \<and> b < pn_bit n"
  by (induction t arbitrary: b y) (auto, (meson less_trans)+)

lemma stores_run:
  assumes cr: "crit kb (Nd p c l r)" and lk: "link h b p (Nd p c l r)"
    and cl: "climb (kb p) p (a, e) (Nd p c l r) = (x, d, pl)" and a: "h a = Some na" "a \<notin> nds (Nd p c l r)"
    and n: "h p = Some n"
  obtains h' m where "del_stores p (a, e) pl x d h = Some h'" and "h x = Some m"
    and "spliced h h' x d pl (nds l \<union> nds r)"
    and "x \<noteq> p \<longrightarrow> (\<exists>n'. h' x = Some n' \<and> pn_bit n' = int c \<and> leg n' (\<not> kb p c) = leg n (\<not> kb p c)
        \<and> leg n' (kb p c) = (if fst pl = p then leg m (\<not> d) else leg n (kb p c)))"
    and "\<forall>q. q \<notin> nds (Nd p c l r) \<longrightarrow> q \<noteq> a \<longrightarrow> h' q = h q"
    and "h' a = Some (put_leg na e (if x = p then leg n (\<not> d) else x))"
    and "\<forall>q. key_of h' q = key_of h q" and "dom h' = dom h"
proof (cases "x = p")
  case True
  then have pl: "pl = (a, e)" using climb_top [OF cr cl] by auto
  have ap: "a \<noteq> p" using a(2) by auto
  let ?h = "h(a \<mapsto> put_leg na e (leg n (\<not> d)))"
  show thesis
    by (rule that [of ?h n])
      (use True pl a n ap stores_self [where h = h, OF n a(1) ap] in \<open>auto simp: spliced_def key_of_def\<close>)
next
  case False
  obtain g f where pl: "pl = (g, f)" by (cases pl)
  note t = climb_top [OF cr cl, unfolded pl] 
  have pc: "pn_bit n = int c" and lr: "link h (int c) (leg n False) l" "link h (int c) (leg n True) r" using lk n by auto
  obtain m where m: "h x = Some m" "int c < pn_bit m" using t False link_nds_above [OF lr(1)] link_nds_above [OF lr(2)] by auto
  obtain ng where ng: "h g = Some ng" using t False n link_nds_above [OF lr(1)] link_nds_above [OF lr(2)] by auto
  have ne: "a \<noteq> p" "a \<noteq> x" "a \<noteq> g" "x \<noteq> g" using a(2) t False by auto
  define n' where "n' = (if g = p then put_leg n f (leg m (\<not> d)) else n)"
  let ?x = "m\<lparr>pn_bit := pn_bit n, pn_left := pn_left n', pn_right := pn_right n'\<rparr>"
  let ?h = "h(a \<mapsto> put_leg na e x, g \<mapsto> put_leg ng f (leg m (\<not> d)), x \<mapsto> ?x)"
  have run: "del_stores p (a, e) pl x d h = Some ?h"
    unfolding pl n'_def by (rule stores_move [OF n a(1) m(1) ng ne(1) False ne(2-4)])
  have fk: "g = p \<longrightarrow> f = kb p c" using t False by simp
  have keys: "key_of ?h q = key_of h q" for q using a(1) ng m(1) by (simp add: key_of_def)
  have "spliced h ?h x d pl (nds l \<union> nds r)"
    using a ng m ne pc unfolding spliced_def pl by auto
  moreover have "\<exists>k. ?h x = Some k \<and> pn_bit k = int c \<and> leg k (\<not> kb p c) = leg n (\<not> kb p c)
        \<and> leg k (kb p c) = (if fst pl = p then leg m (\<not> d) else leg n (kb p c))"
    using fk pc ne(4) by (cases "g = p"; cases "kb p c") (simp_all add: n'_def pl leg_def put_leg_def)
  moreover have "\<forall>q. q \<notin> nds (Nd p c l r) \<longrightarrow> q \<noteq> a \<longrightarrow> ?h q = h q" using t False by auto
  moreover have "?h a = Some (put_leg na e x)" using ne by simp
  moreover have "dom ?h = dom h" using a(1) ng m(1) by auto
  ultimately show thesis using that [OF run m(1)] keys False by auto
qed

lemma within_sub:
  "within m t \<Longrightarrow> within m (snd (rem k p t))" "within m t \<Longrightarrow> within m (del k p t)"
proof -
  show r: "within m t \<Longrightarrow> within m (snd (rem k p t))" for t by (induction t) auto
  show "within m t \<Longrightarrow> within m (del k p t)" by (induction t) (auto simp: r)
qed

lemma ok_outer: "ptree_ok T t \<Longrightarrow> outer (pt_mem T) (- 1) t"
  by (auto simp: ptree_ok_def outer_def)

lemma deleted_ok:
  assumes ok: "ptree_ok T t" and p: "p \<in> nds t"
    and l: "\<exists>m'. h' (pt_root T) = Some m' \<and> pn_bit m' = - 1 \<and> link h' (- 1) (pn_left m') (del (kbits (pt_mem T) p) p t)"
    and keys: "\<forall>q. key_of h' q = key_of (pt_mem T) q"
  shows "ptree_ok (T\<lparr>pt_mem := h', pt_n_nodes := pt_n_nodes T - 1\<rparr>) (del (kbits (pt_mem T) p) p t)"
proof -
  have c: "crit (kbits (pt_mem T)) t" and u: "ups t = insert (pt_root T) (nds t)" "pt_root T \<notin> nds t"
    using ok by (simp_all add: ptree_ok_def)
  note ds = del_sets [OF c p]
  have kh: "kbits h' = kbits (pt_mem T)" using keys by (auto simp: kbits_def)
  obtain m' where m': "h' (pt_root T) = Some m'" "pn_bit m' = - 1" "link h' (- 1) (pn_left m') (del (kbits (pt_mem T) p) p t)"
    using l by blast
  have rk: "pn_key_info m' = replicate (nat (pt_key_size T)) 0" using keys ok_root [OF ok] m'(1) by (metis key_of_Some)
  obtain k where k: "card (nds t - {p}) = k" "card (nds t) = Suc k" using card.remove [OF finite_nds p] by blast
  have "pt_n_nodes T = of_nat (Suc k)" using ok k(2) by (simp add: ptree_ok_def)
  then have nn: "pt_n_nodes T - 1 = of_nat (card (nds t - {p}))" unfolding k by simp
  have ks: "1 \<le> pt_key_size T" "pt_key_size T \<le> NCS_PATRICIA_MAX_KEY_SIZE" "within (8 * nat (pt_key_size T)) t"
      "NULL \<notin> nds t" "\<forall>q \<in> nds t. length (key_of (pt_mem T) q) = nat (pt_key_size T)"
    using ok by (simp_all add: ptree_ok_def)
  have "insert (pt_root T) (nds t) - {p} = insert (pt_root T) (nds t - {p})" using u p by auto
  then show ?thesis
    unfolding ptree_ok_def using m' rk ks nn u ds crit_del [OF c p] within_sub(2) [OF ks(3)]
    by (simp add: kh keys)
qed

lemma del_run:
  assumes ok: "ptree_ok T t" and p: "p \<in> nds t"
  obtains T' t' where "ncs_patricia_tree_del T p = Some (T', NCSCC_RC_SUCCESS)" and "ptree_ok T' t'"
    and "ups t' = ups t - {p}" and "nds t' = nds t - {p}" and "pt_root T' = pt_root T" and "pt_key_size T' = pt_key_size T"
    and "\<forall>q. key_of (pt_mem T') q = key_of (pt_mem T) q" and "dom (pt_mem T') = dom (pt_mem T)"
proof -
  let ?h = "pt_mem T" and ?r = "pt_root T"
  let ?kb = "kbits ?h"
  obtain m where m: "?h ?r = Some m" "pn_bit m = - 1" "link ?h (- 1) (pn_left m) t" by (rule ok_rootE [OF ok])
  have c: "crit ?kb t" and u: "ups t = insert ?r (nds t)" "?r \<notin> nds t" "within (8 * nat (pt_key_size T)) t"
    using ok by (simp_all add: ptree_ok_def)
  obtain n where n: "?h p = Some n" using ok_live [OF ok] p u by blast
  have len: "length (pn_key_info n) = nat (pt_key_size T)" using ok_len [OF ok, of p] p u n by simp
  have kp: "?kb p = kbit (pn_key_info n)" using n by (simp add: kbits_def)
  note o = ok_outer [OF ok]
  obtain a e where ae: "down (?kb p) p (?r, False) t = (a, e)" by (metis prod.exhaust)
  have g: "get_leg (?r, False) ?h = Some (pn_left m)" using m by (simp add: get_leg_def leg_def)
  have find: "del_find ?h p (?r, False) = Some (Some (a, e))"
    using del_find_run [OF g _ m(2) m(3) c p n kp] m(1) u len ae by simp
  obtain b' i l r where sb: "sub p t = Nd p i l r" "link ?h b' p (Nd p i l r)" "crit ?kb (Nd p i l r)"
      "within (8 * nat (pt_key_size T)) (Nd p i l r)"
    by (rule sub_props [OF m(3) o c p u(3)])
  obtain x d pl where cl: "climb (?kb p) p (a, e) (Nd p i l r) = (x, d, pl)" by (metis prod.exhaust)
  have up: "del_up ?h p p (a, e) = Some (Some (x, d, pl))"
    using del_up_run [OF sb(2) _ sb(3) _ n kp, of "(a, e)"] sb len cl by auto
  have an: "a \<notin> nds (Nd p i l r)" using down_off [OF c p ae] u sb by simp
  have "a \<in> ups t" using down_prev [OF ae] u by auto
  then obtain na where na: "?h a = Some na" using ok_live [OF ok] by blast
  obtain h' k where h': "del_stores p (a, e) pl x d ?h = Some h'" "?h x = Some k" "spliced ?h h' x d pl (nds l \<union> nds r)"
      "x \<noteq> p \<longrightarrow> (\<exists>n'. h' x = Some n' \<and> pn_bit n' = int i \<and> leg n' (\<not> ?kb p i) = leg n (\<not> ?kb p i)
        \<and> leg n' (?kb p i) = (if fst pl = p then leg k (\<not> d) else leg n (?kb p i)))"
      "\<forall>q. q \<notin> nds (Nd p i l r) \<longrightarrow> q \<noteq> a \<longrightarrow> h' q = ?h q"
      "h' a = Some (put_leg na e (if x = p then leg n (\<not> d) else x))"
      "\<forall>q. key_of h' q = key_of ?h q" "dom h' = dom ?h"
    by (rule stores_run [OF sb(3,2) cl na an n])
  let ?z = "if x = p then leg n (\<not> d) else x"
  have l: "link h' (- 1) (if a = fst (?r, False) then ?z else pn_left m) (del (?kb p) p t)"
  proof (rule del_link [OF m(3) o c p ae])
    show "link h' b'' ?z (del (?kb p) p (sub p t))" if "link ?h b'' p (sub p t)" "outer ?h b'' (sub p t)" for b''
      unfolding sb(1) by (rule sub_del_link [OF that [unfolded sb(1)] sb(3) cl n h'(2) an h'(3)]) (use h'(4) in blast)
    show "\<exists>n'. h' q = Some n' \<and> pn_bit n' \<le> pn_bit j" if "?h q = Some j" for q j
      using h'(3) that unfolding spliced_def by blast
  qed (use u sb h'(5,6) na in auto)
  have e: "a = ?r \<longrightarrow> \<not> e" using down_prev [OF ae] u(2) by auto
  have "h' ?r = Some (if a = ?r then put_leg m e ?z else m)" using h'(5,6) m(1) na sb(1) u(2) sub_nds [OF c p] by auto
  then have r': "\<exists>m'. h' ?r = Some m' \<and> pn_bit m' = - 1 \<and> link h' (- 1) (pn_left m') (del (?kb p) p t)"
    using l m(2) e by (cases "a = ?r") (auto simp: put_leg_def)
  show thesis
  proof (rule that)
    show "ncs_patricia_tree_del T p = Some (T\<lparr>pt_mem := h', pt_n_nodes := pt_n_nodes T - 1\<rparr>, NCSCC_RC_SUCCESS)"
      using find up h'(1) by (simp add: ncs_patricia_tree_del_def split_def del: bind_Some_iff)
    show "ptree_ok (T\<lparr>pt_mem := h', pt_n_nodes := pt_n_nodes T - 1\<rparr>) (del (?kb p) p t)"
      by (rule deleted_ok [OF ok p r' h'(7)])
  qed (use del_sets [OF c p] h'(7,8) in simp_all)
qed

text \<open>A node that is not in the tree is not found.\<close>

lemma del_find_none:
  assumes "get_leg prev h = Some y" and "h (fst prev) = Some m" and "pn_bit m = b" and "link h b y t"
    and "p \<notin> ups t" and "p \<notin> nds t" and "h p = Some n" and "within (8 * length (pn_key_info n)) t"
  shows "del_find h p prev = Some None"
  using assms(1-6,8)
proof (induction t arbitrary: prev y m b)
  case (Up q)
  then show ?case by (subst del_find.simps) auto
next
  case (Nd q c l r)
  then obtain nq where nq: "h q = Some nq" "pn_bit nq = int c" "y = q" "b < int c" "q \<noteq> p"
      "link h (int c) (leg nq False) l" "link h (int c) (leg nq True) r" by auto
  let ?d = "kbit (pn_key_info n) c"
  have g: "m_GET_BIT (pn_key_info n) (int c) = Some ?d" using Nd.prems(7) by (simp add: get_bit)
  have "del_find h p prev = del_find h p (q, ?d)"
    using Nd.prems(1-3) nq assms(7) g by (subst del_find.simps) simp
  also have "\<dots> = Some None"
    using Nd.IH(1) [of "(q, False)" "leg nq False" nq "int c"] Nd.IH(2) [of "(q, True)" "leg nq True" nq "int c"] nq Nd.prems(5-7)
    by (cases ?d) (simp_all add: get_leg_def)
  finally show ?case .
qed

lemma del_absent:
  assumes ok: "ptree_ok T t" and p: "p \<notin> ups t" "pt_mem T p = Some n" "length (pn_key_info n) = nat (pt_key_size T)"
  shows "ncs_patricia_tree_del T p = Some (T, NCSCC_RC_FAILURE)"
proof -
  obtain m where m: "pt_mem T (pt_root T) = Some m" "pn_bit m = - 1" "link (pt_mem T) (- 1) (pn_left m) t" by (rule ok_rootE [OF ok])
  have g: "get_leg (pt_root T, False) (pt_mem T) = Some (pn_left m)" using m by (simp add: get_leg_def leg_def)
  have u: "p \<notin> nds t" "within (8 * nat (pt_key_size T)) t" using ok p(1) by (auto simp: ptree_ok_def)
  show ?thesis
    using del_find_none [OF g _ m(2) m(3) p(1) u(1) p(2)] m(1) u(2) p(3) by (simp add: ncs_patricia_tree_del_def)
qed

end
