(* ===== verification/Patricia_Table.thy ===== *)
theory Patricia_Table
  imports Patricia_Del_Run
begin

text \<open>
  The Patricia tree keeps the contract of a keyed tree: the interpretation of \<open>keyed_tree\<close>
  on the operations of \<open>base/patricia.c\<close>.
\<close>

definition pat_inv :: "NCS_PATRICIA_TREE \<Rightarrow> bool" where
  "pat_inv T \<longleftrightarrow> (\<exists>t. ptree_ok T t)"

text \<open>
  The operations as the clients use them: a key of the size of the tree, a node that is not
  in the tree yet. A run that does not return would be a failure here; \<open>get_run\<close>, \<open>add_run\<close>
  and \<open>del_run\<close> show that there is none.
\<close>

definition pat_get :: "NCS_PATRICIA_TREE \<Rightarrow> bytes \<Rightarrow> ptr option" where
  "pat_get T k =
     (if length k = nat (pt_key_size T)
      then case ncs_patricia_tree_get T k of None \<Rightarrow> None | Some p \<Rightarrow> if p = NULL then None else Some p
      else None)"

definition pat_add :: "bytes \<Rightarrow> ptr \<Rightarrow> NCS_PATRICIA_TREE \<Rightarrow> NCS_PATRICIA_TREE \<times> rc" where
  "pat_add k v T = (case ncs_patricia_tree_add T v of None \<Rightarrow> (T, NCSCC_RC_FAILURE) | Some r \<Rightarrow> r)"

definition pat_del :: "bytes \<Rightarrow> NCS_PATRICIA_TREE \<Rightarrow> NCS_PATRICIA_TREE \<times> rc" where
  "pat_del k T =
     (case pat_get T k of
        None \<Rightarrow> (T, NCSCC_RC_FAILURE)
      | Some p \<Rightarrow> case ncs_patricia_tree_del T p of None \<Rightarrow> (T, NCSCC_RC_FAILURE) | Some r \<Rightarrow> r)"

definition fresh_node :: "NCS_PATRICIA_TREE \<Rightarrow> bytes \<Rightarrow> ptr \<Rightarrow> bool" where
  "fresh_node T k v \<longleftrightarrow> length k = nat (pt_key_size T) \<and> v \<noteq> NULL \<and> v \<noteq> pt_root T
     \<and> pt_mem T v \<noteq> None \<and> key_of (pt_mem T) v = k \<and> pat_get T k \<noteq> Some v"

lemma pat_get_map:
  assumes "ptree_ok T t"
  shows "pat_get T = ptree_map T t"
proof
  fix k
  have z: "ptree_map T t k \<noteq> Some NULL" using ok_map [OF assms] assms by (simp add: ptree_ok_def)
  show "pat_get T k = ptree_map T t k"
  proof (cases "length k = nat (pt_key_size T)")
    case True
    then show ?thesis using get_run [OF assms True] z by (auto simp: pat_get_def split: option.splits)
  next
    case False
    then have "ptree_map T t k = None" using ok_map [OF assms, of k] ok_len [OF assms] assms by (auto simp: ptree_ok_def ok_map_None [OF assms])
    with False show ?thesis by (simp add: pat_get_def)
  qed
qed

lemma ptree_map_cong:
  assumes "ptree_ok T t" and "ptree_ok T' t'" and "\<forall>q. key_of (pt_mem T') q = key_of (pt_mem T) q"
  shows "ptree_map T' t' k = Some p \<longleftrightarrow> p \<in> nds t' \<and> key_of (pt_mem T) p = k"
  using ok_map [OF assms(2)] assms(3) by simp

lemma fresh_nodeE:
  assumes "ptree_ok T t" and "fresh_node T k v"
  obtains n where "pt_mem T v = Some n" and "pn_key_info n = k" and "length (pn_key_info n) = nat (pt_key_size T)"
    and "v \<notin> ups t" and "v \<noteq> NULL"
proof -
  obtain n where n: "pt_mem T v = Some n" "pn_key_info n = k" using assms(2) by (auto simp: fresh_node_def)
  have "v \<notin> nds t" using assms ok_map [OF assms(1), of k v] n by (auto simp: fresh_node_def pat_get_map [OF assms(1)])
  with assms n that show thesis by (auto simp: fresh_node_def ptree_ok_def)
qed

lemma pat_add_run:
  assumes "pat_inv T" and "fresh_node T k v"
  shows "if zero_key k \<or> pat_get T k \<noteq> None then ncs_patricia_tree_add T v = Some (T, NCSCC_RC_FAILURE)
     else \<exists>T'. ncs_patricia_tree_add T v = Some (T', NCSCC_RC_SUCCESS) \<and> pat_inv T' \<and> pat_get T' = (pat_get T)(k \<mapsto> v)
       \<and> pt_n_nodes T' = pt_n_nodes T + 1 \<and> pt_key_size T' = pt_key_size T \<and> pt_root T' = pt_root T"
proof -
  obtain t where ok: "ptree_ok T t" using assms(1) by (auto simp: pat_inv_def)
  obtain n where n: "pt_mem T v = Some n" "pn_key_info n = k" "length (pn_key_info n) = nat (pt_key_size T)"
      "v \<notin> ups t" "v \<noteq> NULL" by (rule fresh_nodeE [OF ok assms(2)])
  note run = add_run [OF ok n(1,3,4,5), unfolded n(2)] and g = pat_get_map [OF ok]
  show ?thesis
  proof (cases "zero_key k \<or> ptree_map T t k \<noteq> None")
    case False
    then obtain T' t' where T': "ncs_patricia_tree_add T v = Some (T', NCSCC_RC_SUCCESS)" "ptree_ok T' t'"
        "nds t' = insert v (nds t)" "pt_key_size T' = pt_key_size T" "pt_root T' = pt_root T" "\<forall>q. key_of (pt_mem T') q = key_of (pt_mem T) q"
      using run by (simp, blast)
    have vn: "v \<notin> nds t" using n(4) nds_ups ok by (auto simp: ptree_ok_def)
    have "pat_get T' = (pat_get T)(k \<mapsto> v)"
    proof
      fix k'
      have "ptree_map T' t' k' = Some p \<longleftrightarrow> ((ptree_map T t)(k \<mapsto> v)) k' = Some p" for p
        using ptree_map_cong [OF ok T'(2,6), of k' p] ok_map [OF ok, of k' p] ok_map [OF ok, of k p] T'(3) n False by auto
      then show "pat_get T' k' = ((pat_get T)(k \<mapsto> v)) k'"
        unfolding g pat_get_map [OF T'(2)] by (metis not_None_eq)
    qed
    moreover have "pt_n_nodes T' = pt_n_nodes T + 1"
      using ok T'(2,3) vn by (simp add: ptree_ok_def)
    ultimately show ?thesis using T' False g by (auto simp: pat_inv_def)
  qed (use run g in simp)
qed

lemma pat_del_run:
  assumes "pat_inv T" and "pat_get T k = Some p"
  shows "\<exists>T'. ncs_patricia_tree_del T p = Some (T', NCSCC_RC_SUCCESS) \<and> pat_inv T' \<and> pat_get T' = (pat_get T)(k := None)
       \<and> pt_n_nodes T' = pt_n_nodes T - 1 \<and> pt_key_size T' = pt_key_size T \<and> pt_root T' = pt_root T"
proof -
  obtain t where ok: "ptree_ok T t" using assms(1) by (auto simp: pat_inv_def)
  note g = pat_get_map [OF ok]
  have p: "p \<in> nds t" "key_of (pt_mem T) p = k" using assms(2) ok_map [OF ok] by (simp_all add: g)
  obtain T' t' where T': "ncs_patricia_tree_del T p = Some (T', NCSCC_RC_SUCCESS)" "ptree_ok T' t'"
      "nds t' = nds t - {p}" "pt_root T' = pt_root T" "pt_key_size T' = pt_key_size T" "\<forall>q. key_of (pt_mem T') q = key_of (pt_mem T) q"
    by (rule del_run [OF ok p(1)])
  have "pat_get T' = (pat_get T)(k := None)"
  proof
    fix k'
    have "ptree_map T' t' k' = Some q \<longleftrightarrow> ((ptree_map T t)(k := None)) k' = Some q" for q
    proof -
      have "q \<in> nds t \<Longrightarrow> key_of (pt_mem T) q = k \<Longrightarrow> q = p"
        using ok_key_inj [OF ok, of q p] p ok by (auto simp: ptree_ok_def)
      then show ?thesis using ptree_map_cong [OF ok T'(2,6), of k' q] ok_map [OF ok, of k' q] T'(3) p by auto
    qed
    then show "pat_get T' k' = ((pat_get T)(k := None)) k'"
      unfolding g pat_get_map [OF T'(2)] by (metis not_None_eq)
  qed
  moreover have "pt_n_nodes T' = pt_n_nodes T - 1"
  proof -
    obtain c where c: "card (nds t - {p}) = c" "card (nds t) = Suc c" using card.remove [OF finite_nds p(1)] by blast
    have "pt_n_nodes T = of_nat (Suc c)" "pt_n_nodes T' = of_nat c" using ok T'(2,3) c by (simp_all add: ptree_ok_def)
    then show ?thesis by simp
  qed
  ultimately show ?thesis using T' by (auto simp: pat_inv_def)
qed

lemma pat_init:
  assumes "1 \<le> ks" and "ks \<le> NCS_PATRICIA_MAX_KEY_SIZE"
  obtains T' where "ncs_patricia_tree_init True (Some ks) T = (T', NCSCC_RC_SUCCESS)" and "pat_inv T'"
    and "pat_get T' = Map.empty" and "pt_n_nodes T' = 0" and "pt_key_size T' = ks" and "pt_root T' = pt_root T"
proof -
  let ?T = "fst (ncs_patricia_tree_init True (Some ks) T)"
  have ok: "ptree_ok ?T (Up (pt_root T))" using assms by (simp add: ncs_patricia_tree_init_def ptree_ok_def Let_def)
  have "pat_get ?T = Map.empty" by (auto simp: pat_get_map [OF ok] ptree_map_def fun_eq_iff)
  then show thesis using that [of ?T] ok assms by (auto simp: ncs_patricia_tree_init_def Let_def pat_inv_def)
qed

interpretation pat: keyed_tree pat_inv pat_get pat_add pat_del fresh_node
proof
  fix T k v
  assume i: "pat_inv T" and n: "fresh_node T k v"
  note r = pat_add_run [OF i n]
  show "pat_get (fst (pat_add k v T)) = (if zero_key k \<or> pat_get T k \<noteq> None then pat_get T else (pat_get T)(k \<mapsto> v))"
    and "snd (pat_add k v T) = (if zero_key k \<or> pat_get T k \<noteq> None then NCSCC_RC_FAILURE else NCSCC_RC_SUCCESS)"
    and "pat_inv (fst (pat_add k v T))"
    using r i by (auto simp: pat_add_def split: if_splits)
next
  fix T k
  assume i: "pat_inv T"
  show "pat_get (fst (pat_del k T)) = (pat_get T)(k := None)"
    and "snd (pat_del k T) = (if pat_get T k = None then NCSCC_RC_FAILURE else NCSCC_RC_SUCCESS)"
    and "pat_inv (fst (pat_del k T))"
    using i pat_del_run [OF i, of k] by (cases "pat_get T k"; auto simp: pat_del_def)+
qed

end
