(* ===== verification/Patricia_Next_Run.thy ===== *)
theory Patricia_Next_Run
  imports Key_Target Patricia_Table
begin

text \<open>
  The successor search returns the node with the least key above the given one. A place in
  the tree is a leg of a node; the search visits places from the root down, goes back up over
  exhausted ones, and descends once more to the least key of the next subtree.
\<close>

section \<open>Places\<close>

text \<open>
  \<open>hangs root t x d b C\<close>: the subtree \<open>C\<close> hangs at the leg \<open>d\<close> of the node \<open>x\<close>; the first
  \<open>b\<close> bits of its keys are fixed.
\<close>

inductive hangs :: "ptr \<Rightarrow> shape \<Rightarrow> ptr \<Rightarrow> bool \<Rightarrow> nat \<Rightarrow> shape \<Rightarrow> bool" for root t where
  hangs_top: "hangs root t root False 0 t"
| hangs_left: "hangs root t x d b (Nd q c l r) \<Longrightarrow> hangs root t q False (Suc c) l"
| hangs_right: "hangs root t x d b (Nd q c l r) \<Longrightarrow> hangs root t q True (Suc c) r"

lemma ups_nonempty: "\<exists>q. q \<in> ups t"
  using walk_ups by blast

lemma hangs_link:
  assumes "hangs root t x d b C" and "ptree_ok T t" and "root = pt_root T"
  shows "(\<exists>n. pt_mem T x = Some n \<and> pn_bit n = int b - 1 \<and> link (pt_mem T) (int b - 1) (leg n d) C)
    \<and> crit (kbits (pt_mem T)) C \<and> within (8 * nat (pt_key_size T)) C \<and> ups C \<subseteq> ups t"
  using assms(1)
proof induction
  case hangs_top
  obtain n where "pt_mem T (pt_root T) = Some n" "pn_bit n = - 1" "link (pt_mem T) (- 1) (pn_left n) t"
    by (rule ok_rootE [OF assms(2)])
  then show ?case using assms(2,3) by (auto simp: ptree_ok_def leg_def)
qed auto

lemma hangs_walk:
  assumes "hangs root t x d b C" and "crit kb t"
  shows "crit kb C \<and> (\<forall>p c l r. C = Nd p c l r \<longrightarrow> b \<le> c) \<and> (0 < b \<longrightarrow> (\<forall>q \<in> ups C. kb q (b - 1) = d))
    \<and> (\<forall>p \<in> ups C. \<forall>q \<in> ups C. agree b (kb p) (kb q))
    \<and> (\<forall>q \<in> ups C. \<forall>k. agree b k (kb q) \<longrightarrow> walk k t = walk k C)"
  using assms(1)
proof induction
  case hangs_top
  then show ?case using assms(2) by (simp add: agree_def)
next
  case (hangs_left x d b q c l r)
  then have cr: "crit kb (Nd q c l r)" and b: "b \<le> c"
    and w: "\<forall>p \<in> ups (Nd q c l r). \<forall>k. agree b k (kb p) \<longrightarrow> walk k t = walk k (Nd q c l r)" by blast+
  have ag: "agree c (kb p) (kb p')" if "p \<in> ups l" "p' \<in> ups l" for p p'
    by (rule crit_agree [OF cr]) (use that in auto)
  have z: "\<not> kb p c" if "p \<in> ups l" for p using cr that by simp
  have "agree (Suc c) (kb p) (kb p')" if "p \<in> ups l" "p' \<in> ups l" for p p'
    using ag [OF that] z that by (auto simp: agree_def less_Suc_eq)
  moreover have "walk k t = walk k l" if "p \<in> ups l" "agree (Suc c) k (kb p)" for p k
  proof -
    have "agree b k (kb p)" using agree_mono [OF that(2)] b by simp
    moreover have "p \<in> ups (Nd q c l r)" using that(1) by simp
    ultimately have "walk k t = walk k (Nd q c l r)" using w by blast
    moreover have "\<not> k c" using agree_less [OF that(2), of c] z [OF that(1)] by simp
    ultimately show ?thesis by simp
  qed
  moreover have "Suc c \<le> c'" if "l = Nd p c' u v" for p c' u v using cr that by simp
  ultimately show ?case using cr z by auto
next
  case (hangs_right x d b q c l r)
  then have cr: "crit kb (Nd q c l r)" and b: "b \<le> c"
    and w: "\<forall>p \<in> ups (Nd q c l r). \<forall>k. agree b k (kb p) \<longrightarrow> walk k t = walk k (Nd q c l r)" by blast+
  have ag: "agree c (kb p) (kb p')" if "p \<in> ups r" "p' \<in> ups r" for p p'
    by (rule crit_agree [OF cr]) (use that in auto)
  have z: "kb p c" if "p \<in> ups r" for p using cr that by simp
  have "agree (Suc c) (kb p) (kb p')" if "p \<in> ups r" "p' \<in> ups r" for p p'
    using ag [OF that] z that by (auto simp: agree_def less_Suc_eq)
  moreover have "walk k t = walk k r" if "p \<in> ups r" "agree (Suc c) k (kb p)" for p k
  proof -
    have "agree b k (kb p)" using agree_mono [OF that(2)] b by simp
    moreover have "p \<in> ups (Nd q c l r)" using that(1) by simp
    ultimately have "walk k t = walk k (Nd q c l r)" using w by blast
    moreover have "k c" using agree_less [OF that(2), of c] z [OF that(1)] by simp
    ultimately show ?thesis by simp
  qed
  moreover have "Suc c \<le> c'" if "r = Nd p c' u v" for p c' u v using cr that by simp
  ultimately show ?case using cr z by auto
qed

text \<open>A node whose key has the fixed bits of a place is below the place.\<close>

lemma hangs_inside:
  assumes "hangs root t x d b C" and "crit kb t" and "q \<in> ups t" and "p \<in> ups C" and "agree b (kb q) (kb p)"
  shows "q \<in> ups C"
proof -
  have "walk (kb q) t = walk (kb q) C" using hangs_walk [OF assms(1,2)] assms(4,5) by blast
  then show ?thesis using walk_own [OF assms(2,3)] walk_ups [of "kb q" C] by simp
qed

section \<open>Least keys\<close>

lemma walk_least:
  assumes "crit (kbits h) C" and "\<forall>q \<in> ups C. length (key_of h q) = k" and "q \<in> ups C"
  shows "key_of h (walk (\<lambda>_. False) C) \<le> key_of h q"
  using assms
proof (induction C)
  case (Nd x c l r)
  let ?w = "walk (\<lambda>_. False) l"
  have w: "?w \<in> ups l" by (rule walk_ups)
  show ?case
  proof (cases "q \<in> ups l")
    case True
    then show ?thesis using Nd by simp
  next
    case False
    then have q: "q \<in> ups r" using Nd.prems(3) by simp
    have "agree c (kbits h ?w) (kbits h q)" by (rule crit_agree [OF Nd.prems(1)]) (use w q in auto)
    moreover have "\<not> kbits h ?w c" "kbits h q c" using Nd.prems(1) w q by simp_all
    moreover have "length (key_of h ?w) = length (key_of h q)" using Nd.prems(2) w q by simp
    ultimately have "key_of h ?w < key_of h q" by (simp add: key_lessI kbits_def)
    then show ?thesis by simp
  qed
qed simp

text \<open>What the search is to return for the target \<open>T0\<close>.\<close>

definition is_next :: "pmem \<Rightarrow> shape \<Rightarrow> bytes \<Rightarrow> ptr \<Rightarrow> bool" where
  "is_next h t T0 p \<longleftrightarrow>
     (p = NULL \<and> (\<forall>q \<in> ups t. \<not> T0 \<le> key_of h q))
     \<or> (p \<in> ups t \<and> T0 \<le> key_of h p \<and> (\<forall>q \<in> ups t. T0 \<le> key_of h q \<longrightarrow> key_of h p \<le> key_of h q))"

text \<open>The subtree is exhausted: the keys from \<open>T0\<close> on are those above all its keys.\<close>

definition exhausted :: "pmem \<Rightarrow> shape \<Rightarrow> bytes \<Rightarrow> shape \<Rightarrow> bool" where
  "exhausted h t T0 C \<longleftrightarrow> (\<forall>q \<in> ups t. T0 \<le> key_of h q \<longleftrightarrow> (\<forall>q' \<in> ups C. key_of h q' < key_of h q))"

lemma exhausted_here:
  assumes ok: "ptree_ok T t" and hg: "hangs root t x d b C" and len: "length T0 = nat (pt_key_size T)"
    and pre: "\<forall>q \<in> ups C. agree b (kbit T0) (kbits (pt_mem T) q)" and gone: "\<forall>q \<in> ups C. key_of (pt_mem T) q < T0"
    and sub: "ups C \<subseteq> ups t"
  shows "exhausted (pt_mem T) t T0 C"
  unfolding exhausted_def
proof (intro ballI iffI)
  let ?K = "key_of (pt_mem T)"
  have cr: "crit (kbits (pt_mem T)) t" using ok by (simp add: ptree_ok_def)
  fix q assume q: "q \<in> ups t"
  show "?K q' < ?K q" if "T0 \<le> ?K q" "q' \<in> ups C" for q' using gone that by fastforce
  show "T0 \<le> ?K q" if up: "\<forall>q' \<in> ups C. ?K q' < ?K q"
  proof (rule ccontr)
    assume n: "\<not> T0 \<le> ?K q"
    obtain p where p: "p \<in> ups C" using ups_nonempty by blast
    then have lp: "length (?K p) = nat (pt_key_size T)" "length (?K q) = nat (pt_key_size T)"
      using ok_len [OF ok] sub q by auto
    have "agree b (kbit (?K q)) (kbit (?K p))"
      by (rule sandwich [of "?K p" "?K q" T0])
        (use lp len up p n agree_sym [OF pre [rule_format, OF p]] in \<open>auto simp: kbits_def\<close>)
    then have "q \<in> ups C" using hangs_inside [OF hg cr q p] by (simp add: kbits_def)
    with up show False by auto
  qed
qed

section \<open>Down to the least key of a subtree\<close>

text \<open>The target has the fixed bits of the subtree and is not above any of its keys.\<close>

definition starts :: "pmem \<Rightarrow> nat \<Rightarrow> bytes \<Rightarrow> shape \<Rightarrow> bool" where
  "starts h b T C \<longleftrightarrow> (\<forall>q \<in> ups C. agree b (kbit T) (kbits h q) \<and> T \<le> key_of h q)"

lemma starts_prefix:
  assumes "\<And>q. q \<in> ups C \<Longrightarrow> length (key_of h q) = length T" and "\<And>q. q \<in> ups C \<Longrightarrow> agree b (kbit T) (kbits h q)"
    and "\<And>i. b \<le> i \<Longrightarrow> \<not> kbit T i"
  shows "starts h b T C"
  unfolding starts_def
proof (intro ballI conjI)
  fix q assume q: "q \<in> ups C"
  show "agree b (kbit T) (kbits h q)" by (rule assms(2) [OF q])
  show "T \<le> key_of h q"
  proof (rule ccontr)
    assume "\<not> T \<le> key_of h q"
    then have "key_of h q < T" by simp
    then obtain i where i: "\<not> kbit (key_of h q) i" "kbit T i" using key_lessD [OF assms(1) [OF q]] by blast
    then have "i < b" using assms(3) by (meson not_le)
    then show False using agree_less [OF assms(2) [OF q], of i] i by (simp add: kbits_def)
  qed
qed

lemma starts_down:
  assumes "crit (kbits h) (Nd q c l r)" and "\<And>p. p \<in> ups l \<Longrightarrow> length (key_of h p) = length T"
    and "\<And>i. kbit T i \<longleftrightarrow> i < c \<and> kbits h q i"
  shows "starts h (Suc c) T l"
proof (rule starts_prefix [OF assms(2)])
  show "agree (Suc c) (kbit T) (kbits h p)" if "p \<in> ups l" for p
  proof -
    have "agree c (kbits h p) (kbits h q)" "\<not> kbits h p c" using assms(1) that by simp_all
    then show ?thesis using assms(3) by (auto simp: agree_def less_Suc_eq)
  qed
qed (use assms(3) in auto)

lemma starts_right:
  assumes "crit (kbits h) (Nd q c l r)" and "\<And>p. p \<in> ups r \<Longrightarrow> length (key_of h p) = length T"
    and "\<And>i. kbit T i \<longleftrightarrow> i < c \<and> kbits h q i \<or> i = c"
  shows "starts h (Suc c) T r"
proof (rule starts_prefix [OF assms(2)])
  show "agree (Suc c) (kbit T) (kbits h p)" if "p \<in> ups r" for p
  proof -
    have "agree c (kbits h p) (kbits h q)" "kbits h p c" using assms(1) that by simp_all
    then show ?thesis using assms(3) by (auto simp: agree_def less_Suc_eq)
  qed
qed (use assms(3) in auto)

text \<open>Places and memory, for one step of the main loop.\<close>

lemma place_node:
  assumes ok: "ptree_ok T t" and hg: "hangs (pt_root T) t x d b C"
  obtains n m where "pt_mem T x = Some n" and "pn_bit n = int b - 1" and "pt_mem T (leg n d) = Some m"
    and "link (pt_mem T) (int b - 1) (leg n d) C"
  using hangs_link [OF hg ok refl] link_live by blast

lemma place_bit:
  assumes ok: "ptree_ok T t" and hg: "hangs (pt_root T) t x d b C" and len: "length Tg = nat (pt_key_size T)"
    and ag: "\<forall>q \<in> ups C. agree b (kbit Tg) (kbits (pt_mem T) q)"
  shows "m_GET_BIT Tg (int b - 1) = Some d"
proof -
  have cr: "crit (kbits (pt_mem T)) t" using ok by (simp add: ptree_ok_def)
  show ?thesis
    using hg
  proof cases
    case (hangs_left y e a c r)
    have w: "within (8 * nat (pt_key_size T)) (Nd x c C r)" using hangs_link [OF hangs_left(3) ok refl] by blast
    obtain p where p: "p \<in> ups C" using ups_nonempty by blast
    have "\<not> kbits (pt_mem T) p c" using hangs_walk [OF hg cr] p hangs_left(1,2) by simp
    then have "\<not> kbit Tg c" using agree_less [OF ag [rule_format, OF p], of c] hangs_left(2) by simp
    then show ?thesis using w len hangs_left(1,2) get_bit [of c Tg] by simp
  next
    case (hangs_right y e a c l)
    have w: "within (8 * nat (pt_key_size T)) (Nd x c l C)" using hangs_link [OF hangs_right(3) ok refl] by blast
    obtain p where p: "p \<in> ups C" using ups_nonempty by blast
    have "kbits (pt_mem T) p c" using hangs_walk [OF hg cr] p hangs_right(1,2) by simp
    then have "kbit Tg c" using agree_less [OF ag [rule_format, OF p], of c] hangs_right(2) by simp
    then show ?thesis using w len hangs_right(1,2) get_bit [of c Tg] by simp
  qed simp
qed

lemma place_bound:
  assumes ok: "ptree_ok T t" and hg: "hangs (pt_root T) t x d b C"
  shows "b \<le> 8 * nat (pt_key_size T)"
  using hg
proof cases
  case (hangs_left y e a c r)
  then show ?thesis using hangs_link [OF hangs_left(3) ok refl] by simp
next
  case (hangs_right y e a c l)
  then show ?thesis using hangs_link [OF hangs_right(3) ok refl] by simp
qed simp

text \<open>The comparison of a target with the key of a node of the tree.\<close>

lemma match_node:
  assumes ok: "ptree_ok T t" and "q \<in> ups t" and "pt_mem T q = Some m" and "length Tg = nat (pt_key_size T)"
    and "c \<le> 8 * nat (pt_key_size T)"
  obtains v where "KeyBitMatch Tg (pn_key_info m) c = Some v" and "v = 0 \<longleftrightarrow> agree c (kbit Tg) (kbits (pt_mem T) q)"
    and "v < 0 \<longleftrightarrow> below c (kbit Tg) (kbits (pt_mem T) q)"
proof -
  have "length (pn_key_info m) = length Tg" using ok_len [OF ok assms(2)] assms(3,4) by simp
  moreover have "Tg \<noteq> []" using ok assms(4) by (auto simp: ptree_ok_def)
  ultimately show thesis using KeyBitMatch_run [of Tg "pn_key_info m" c] that assms(3-5) by (auto simp: kbits_def)
qed

lemma above_less:
  assumes "length k = length k'" and "\<not> agree c (kbit k) (kbit k')" and "\<not> below c (kbit k) (kbit k')"
  shows "k' < k \<and> below c (kbit k') (kbit k)"
proof -
  have "k \<noteq> k'" using assms(2) by auto
  then obtain i where i: "agree i (kbit k) (kbit k')" "kbit k i \<noteq> kbit k' i" using first_diff [OF assms(1)] by metis
  have "i < c"
  proof (rule ccontr)
    assume "\<not> i < c"
    then show False using agree_mono [OF i(1), of c] assms(2) by simp
  qed
  then have "kbit k i" "\<not> kbit k' i" using i assms(3) by (auto simp: below_def)
  then show ?thesis using key_lessI [of k' k i] i(1) assms(1) agree_sym \<open>i < c\<close> by (auto simp: below_def)
qed

lemma low_run:
  assumes ok: "ptree_ok T t" and "hangs (pt_root T) t x d b C" and "length Tg = nat (pt_key_size T)"
    and "starts (pt_mem T) b Tg C"
  shows "gn_loop (pt_mem T) (pt_root T) (pt_key_size T) Tg x = Some (walk (\<lambda>_. False) C)"
  using assms(2-4)
proof (induction C arbitrary: x d b Tg rule: shape.induct)
  case (Up q)
  let ?h = "pt_mem T"
  obtain n m where n: "?h x = Some n" "pn_bit n = int b - 1" "?h (leg n d) = Some m" "link ?h (int b - 1) (leg n d) (Up q)"
    by (rule place_node [OF ok Up.prems(1)])
  have g: "m_GET_BIT Tg (int b - 1) = Some d"
    by (rule place_bit [OF ok Up.prems(1,2)]) (use Up.prems(3) in \<open>simp add: starts_def\<close>)
  have q: "leg n d = q" "pn_bit m \<le> int b - 1" using n(3,4) by auto
  have qt: "q \<in> ups t" using hangs_link [OF Up.prems(1) ok refl] by simp
  then have lm: "length (pn_key_info m) = nat (pt_key_size T)" using ok_len [OF ok, of q] n(3) q(1) by simp
  have st: "agree b (kbit Tg) (kbits ?h q)" "Tg \<le> pn_key_info m"
    using Up.prems(3) n(3) q(1) by (simp_all add: starts_def)
  have mq: "?h q = Some m" using n(3) q(1) by simp
  have "memcmp Tg (pn_key_info m) (pt_key_size T) = Some (if Tg = pn_key_info m then 0 else - 1)"
    using memcmp_total [OF Up.prems(2) lm] st(2) by auto
  moreover have "KeyBitMatch Tg (pn_key_info m) b = Some 0"
    using match_node [OF ok qt mq Up.prems(2) place_bound [OF ok Up.prems(1)]] st(1) by blast
  ultimately show ?case using n g q by (subst gn_loop.simps) (simp add: Let_def)
next
  case (Nd q c l r)
  let ?h = "pt_mem T" and ?C = "Nd q c l r"
  obtain n m where n: "?h x = Some n" "pn_bit n = int b - 1" "?h (leg n d) = Some m" "link ?h (int b - 1) (leg n d) ?C"
    by (rule place_node [OF ok Nd.prems(1)])
  have g: "m_GET_BIT Tg (int b - 1) = Some d"
    by (rule place_bit [OF ok Nd.prems(1,2)]) (use Nd.prems(3) in \<open>simp add: starts_def\<close>)
  note hk = hangs_link [OF Nd.prems(1) ok refl]
  have cr: "crit (kbits ?h) ?C" and cb: "c < 8 * nat (pt_key_size T)" using hk by auto
  have q: "leg n d = q" "pn_bit m = int c" "int b - 1 < int c" and mq: "?h q = Some m" using n(3,4) by auto
  have qt: "q \<in> ups t" and qC: "q \<in> ups ?C" using cr hk by auto
  have len: "length (key_of ?h p) = length Tg" if "p \<in> ups ?C" for p using ok_len [OF ok, of p] hk that Nd.prems(2) by auto
  obtain v where v: "KeyBitMatch Tg (pn_key_info m) c = Some v" "v = 0 \<longleftrightarrow> agree c (kbit Tg) (kbits ?h q)"
      "v < 0 \<longleftrightarrow> below c (kbit Tg) (kbits ?h q)"
    by (rule match_node [OF ok qt mq Nd.prems(2), of c]) (use cb in auto)
  have st: "Tg \<le> key_of ?h p" "agree b (kbit Tg) (kbits ?h p)" if "p \<in> ups ?C" for p using Nd.prems(3) that by (simp_all add: starts_def)
  have ns: "v \<le> 0"
  proof (rule ccontr)
    assume "\<not> v \<le> 0"
    then have "key_of ?h q < Tg" using above_less [of Tg "key_of ?h q" c] v(2,3) len [OF qC] by (simp add: kbits_def)
    then show False using st(1) [OF qC] by simp
  qed
  have step: "gn_loop ?h (pt_root T) (pt_key_size T) Tg x = (if v < 0 then do { U \<leftarrow> down_target m Tg; gn_loop ?h (pt_root T) (pt_key_size T) U q }
      else gn_loop ?h (pt_root T) (pt_key_size T) Tg q)"
    using n g q mq v(1) ns by (subst gn_loop.simps) (simp add: Let_def)
  have hl: "hangs (pt_root T) t q False (Suc c) l" by (rule hangs_left [OF Nd.prems(1)])
  show ?case
  proof (cases "v < 0")
    case True
    have "target_at m Tg c" using q(2) len [OF qC] mq cb Nd.prems(2) by (simp add: target_at_def)
    then obtain U where U: "down_target m Tg = Some U" "length U = length Tg" "\<And>i. kbit U i \<longleftrightarrow> i < c \<and> kbit (pn_key_info m) i"
      by (rule down_bits) blast
    have "starts ?h (Suc c) U l"
      by (rule starts_down [OF cr]) (use len U mq in \<open>auto simp: kbits_def\<close>)
    from Nd.IH(1) [OF hl _ this] U Nd.prems(2) step True show ?thesis by simp
  next
    case False
    then have ag: "agree c (kbit Tg) (kbits ?h q)" using ns v(2) by simp
    have pl: "agree c (kbit Tg) (kbits ?h p)" "\<not> kbits ?h p c" if "p \<in> ups l" for p
      using agree_trans [OF ag] cr that agree_sym by auto
    have z: "\<not> kbit Tg c"
    proof
      assume k: "kbit Tg c"
      obtain p where p: "p \<in> ups l" using ups_nonempty by blast
      then have "key_of ?h p < Tg" using key_lessI [of "key_of ?h p" Tg c] pl [OF p] len [of p] k agree_sym by (auto simp: kbits_def)
      then show False using st(1) [of p] p by simp
    qed
    have "starts ?h (Suc c) Tg l"
      unfolding starts_def using pl z st(1) by (auto simp: agree_def less_Suc_eq)
    from Nd.IH(1) [OF hl _ this] Nd.prems(2) step False show ?thesis by simp
  qed
qed

section \<open>Back up\<close>

lemma own_bit:
  assumes ok: "ptree_ok T t" and hg: "hangs (pt_root T) t x d b C" and p: "p \<in> ups C"
  shows "m_GET_BIT (key_of (pt_mem T) p) (int b - 1) = Some d"
proof (rule place_bit [OF ok hg])
  have "p \<in> ups t" using hangs_link [OF hg ok refl] p by blast
  then show "length (key_of (pt_mem T) p) = nat (pt_key_size T)" by (rule ok_len [OF ok])
  have cr: "crit (kbits (pt_mem T)) t" using ok by (simp add: ptree_ok_def)
  show "\<forall>q \<in> ups C. agree b (kbit (key_of (pt_mem T) p)) (kbits (pt_mem T) q)"
    using hangs_walk [OF hg cr] p by (auto simp: kbits_def)
qed

lemma parent_from:
  assumes hg: "hangs root t x d b C" and ok: "ptree_ok T t" and root: "root = pt_root T" and p: "p \<in> nds C"
  shows "gn_parent (pt_mem T) (key_of (pt_mem T) p) p root = gn_parent (pt_mem T) (key_of (pt_mem T) p) p x"
  using hg p
proof induction
  case (hangs_left x d b q c l r)
  have hg: "hangs (pt_root T) t x d b (Nd q c l r)" using hangs_left.hyps root by simp
  obtain n m where n: "pt_mem T x = Some n" "pn_bit n = int b - 1" "link (pt_mem T) (int b - 1) (leg n d) (Nd q c l r)"
    by (rule place_node [OF ok hg])
  have cr: "crit (kbits (pt_mem T)) (Nd q c l r)" using hangs_link [OF hg ok refl] by blast
  have "p \<in> ups (Nd q c l r)" "p \<noteq> q" using nds_ups [OF cr] hangs_left.prems cr by auto
  then have "gn_parent (pt_mem T) (key_of (pt_mem T) p) p x = gn_parent (pt_mem T) (key_of (pt_mem T) p) p q"
    using n own_bit [OF ok hg, of p] by (subst gn_parent.simps) simp
  with hangs_left show ?case by simp
next
  case (hangs_right x d b q c l r)
  have hg: "hangs (pt_root T) t x d b (Nd q c l r)" using hangs_right.hyps root by simp
  obtain n m where n: "pt_mem T x = Some n" "pn_bit n = int b - 1" "link (pt_mem T) (int b - 1) (leg n d) (Nd q c l r)"
    by (rule place_node [OF ok hg])
  have cr: "crit (kbits (pt_mem T)) (Nd q c l r)" using hangs_link [OF hg ok refl] by blast
  have "p \<in> ups (Nd q c l r)" "p \<noteq> q" using nds_ups [OF cr] hangs_right.prems cr by auto
  then have "gn_parent (pt_mem T) (key_of (pt_mem T) p) p x = gn_parent (pt_mem T) (key_of (pt_mem T) p) p q"
    using n own_bit [OF ok hg, of p] by (subst gn_parent.simps) simp
  with hangs_right show ?case by simp
qed simp

lemma parent_run:
  assumes ok: "ptree_ok T t" and hg: "hangs (pt_root T) t x d b (Nd q c l r)"
  shows "gn_parent (pt_mem T) (key_of (pt_mem T) q) q (pt_root T) = Some x"
proof -
  obtain n m where n: "pt_mem T x = Some n" "pn_bit n = int b - 1" "link (pt_mem T) (int b - 1) (leg n d) (Nd q c l r)"
    by (rule place_node [OF ok hg])
  have "q \<in> ups (Nd q c l r)" using hangs_link [OF hg ok refl] by auto
  then have "gn_parent (pt_mem T) (key_of (pt_mem T) q) q x = Some x"
    using n own_bit [OF ok hg, of q] by (subst gn_parent.simps) simp
  then show ?thesis using parent_from [OF hg ok refl, of q] by simp
qed

text \<open>The search goes on from what the way back gives.\<close>

definition resume :: "NCS_PATRICIA_TREE \<Rightarrow> bytes \<Rightarrow> ptr \<Rightarrow> ptr \<Rightarrow> ptr option" where
  "resume T Tg s x = do {
     r \<leftarrow> gn_back (pt_mem T) (pt_root T) Tg s x;
     case r of None \<Rightarrow> Some NULL
     | Some (Tg, s) \<Rightarrow> gn_loop (pt_mem T) (pt_root T) (pt_key_size T) Tg s }"

lemma link_ptr: "link h b y C \<Longrightarrow> crit kb C \<Longrightarrow> y \<in> ups C"
  by (cases C) auto

lemma left_less_right:
  assumes ok: "ptree_ok T t" and hg: "hangs (pt_root T) t x d b (Nd q c l r)" and p: "p \<in> ups l" "p' \<in> ups r"
  shows "key_of (pt_mem T) p < key_of (pt_mem T) p'"
proof -
  have cC: "crit (kbits (pt_mem T)) (Nd q c l r)" and sub: "ups (Nd q c l r) \<subseteq> ups t" using hangs_link [OF hg ok refl] by blast+
  have "agree c (kbits (pt_mem T) p) (kbits (pt_mem T) p')" by (rule crit_agree [OF cC]) (use p in auto)
  moreover have "\<not> kbits (pt_mem T) p c" "kbits (pt_mem T) p' c" using cC p by simp_all
  moreover have "p \<in> ups t" "p' \<in> ups t" using sub p by auto
  then have "length (key_of (pt_mem T) p) = length (key_of (pt_mem T) p')" using ok_len [OF ok] by simp
  ultimately show ?thesis by (simp add: key_lessI kbits_def)
qed

lemma exhausted_both:
  assumes ok: "ptree_ok T t" and hg: "hangs (pt_root T) t x d b (Nd q c l r)" and ex: "exhausted (pt_mem T) t T0 r"
  shows "exhausted (pt_mem T) t T0 (Nd q c l r)"
proof -
  obtain u where u: "u \<in> ups r" using ups_nonempty by blast
  have "(\<forall>p \<in> ups r. key_of (pt_mem T) p < k) \<longleftrightarrow> (\<forall>p \<in> ups (Nd q c l r). key_of (pt_mem T) p < k)" for k
  proof -
    have "key_of (pt_mem T) p < k" if "\<forall>p \<in> ups r. key_of (pt_mem T) p < k" "p \<in> ups l" for p
      by (rule less_trans [OF left_less_right [OF ok hg that(2) u]]) (use that u in simp)
    then show ?thesis by auto
  qed
  then show ?thesis using ex by (simp add: exhausted_def)
qed

lemma next_right:
  assumes ok: "ptree_ok T t" and hg: "hangs (pt_root T) t x d b (Nd q c l r)" and ex: "exhausted (pt_mem T) t T0 l"
  shows "is_next (pt_mem T) t T0 (walk (\<lambda>_. False) r)"
proof -
  let ?K = "key_of (pt_mem T)" and ?w = "walk (\<lambda>_. False) r"
  have cr: "crit (kbits (pt_mem T)) t" using ok by (simp add: ptree_ok_def)
  note hk = hangs_link [OF hg ok refl]
  have cC: "crit (kbits (pt_mem T)) (Nd q c l r)" and sub: "ups (Nd q c l r) \<subseteq> ups t" using hk by blast+
  have bc: "b \<le> c" using hangs_walk [OF hg cr] by blast
  have w: "?w \<in> ups r" by (rule walk_ups)
  have len: "length (?K p) = nat (pt_key_size T)" if "p \<in> ups t" for p by (rule ok_len [OF ok that])
  have lr: "agree c (kbits (pt_mem T) p) (kbits (pt_mem T) p')" if "p \<in> ups (Nd q c l r)" "p' \<in> ups (Nd q c l r)" for p p'
    by (rule crit_agree [OF cC that])
  note less = left_less_right [OF ok hg]
  have "T0 \<le> ?K ?w" using ex w sub less by (auto simp: exhausted_def)
  moreover have "?K ?w \<le> ?K p" if p: "p \<in> ups t" "T0 \<le> ?K p" for p
  proof (rule ccontr)
    assume n: "\<not> ?K ?w \<le> ?K p"
    obtain u where u: "u \<in> ups l" using ups_nonempty by blast
    then have lt: "?K u < ?K p" using ex p by (simp add: exhausted_def)
    have "agree c (kbit (?K p)) (kbit (?K u))"
      by (rule sandwich [of "?K u" "?K p" "?K ?w"]) (use len u w p sub lt n lr [of u ?w] in \<open>auto simp: kbits_def\<close>)
    then have "agree b (kbits (pt_mem T) p) (kbits (pt_mem T) u)" using agree_mono bc by (simp add: kbits_def)
    then have "p \<in> ups (Nd q c l r)" using hangs_inside [OF hg cr p(1), of u] u by simp
    then have "p \<in> ups r" using ex p by (auto simp: exhausted_def)
    then have "?K ?w \<le> ?K p" using walk_least [of "pt_mem T" r "nat (pt_key_size T)" p] cC len sub by auto
    with n show False by simp
  qed
  moreover have "?w \<in> ups t" using w sub by auto
  ultimately show ?thesis by (simp add: is_next_def)
qed

text \<open>Nothing is above a right subtree whose fixed bits are all ones.\<close>

lemma next_none:
  assumes ok: "ptree_ok T t" and hg: "hangs (pt_root T) t x d b (Nd q c l r)" and ex: "exhausted (pt_mem T) t T0 r"
    and ones: "\<forall>i < c. kbits (pt_mem T) q i"
  shows "is_next (pt_mem T) t T0 NULL"
proof -
  let ?K = "key_of (pt_mem T)"
  have cr: "crit (kbits (pt_mem T)) t" using ok by (simp add: ptree_ok_def)
  have hr: "hangs (pt_root T) t q True (Suc c) r" by (rule hangs_right [OF hg])
  note hk = hangs_link [OF hg ok refl]
  have cC: "crit (kbits (pt_mem T)) (Nd q c l r)" and sub: "ups (Nd q c l r) \<subseteq> ups t" using hk by blast+
  have "\<not> T0 \<le> ?K p" if p: "p \<in> ups t" for p
  proof
    assume "T0 \<le> ?K p"
    then have up: "\<forall>u \<in> ups r. ?K u < ?K p" using ex p by (simp add: exhausted_def)
    obtain u where u: "u \<in> ups r" using ups_nonempty by blast
    have "length (?K u) = length (?K p)" using ok_len [OF ok] u sub p by auto
    then obtain i where i: "agree i (kbit (?K u)) (kbit (?K p))" "\<not> kbit (?K u) i" using key_lessD up u by blast
    have "kbits (pt_mem T) u j" if "j \<le> c" for j
      using cC u ones that agree_less [of c "kbits (pt_mem T) u" "kbits (pt_mem T) q" j] by (cases "j = c") auto
    then have "Suc c \<le> i" using i(2) by (auto simp: kbits_def not_less_eq_eq [symmetric])
    then have "agree (Suc c) (kbits (pt_mem T) p) (kbits (pt_mem T) u)"
      using agree_sym [OF agree_mono [OF i(1)]] by (simp add: kbits_def)
    then have "p \<in> ups r" using hangs_inside [OF hr cr p u] by simp
    with up show False by auto
  qed
  then show ?thesis by (simp add: is_next_def)
qed

lemma back_run:
  assumes hg: "hangs root t x d b C" and ok: "ptree_ok T t" and root: "root = pt_root T"
    and "exhausted (pt_mem T) t T0 C" and "length Tg = nat (pt_key_size T)" and "pt_mem T x = Some n"
  shows "\<exists>p. resume T Tg (leg n d) x = Some p \<and> is_next (pt_mem T) t T0 p"
  using hg assms(4-6)
proof (induction arbitrary: Tg n)
  case hangs_top
  obtain m where m: "pt_mem T root = Some m" "pn_bit m = - 1" using ok_rootE [OF ok] root by blast
  have "is_next (pt_mem T) t T0 NULL" using hangs_top.prems(1) by (auto simp: is_next_def exhausted_def)
  moreover have "gn_back (pt_mem T) (pt_root T) Tg (leg n False) root = Some None"
    using m hangs_top.prems(3) by (subst gn_back.simps) (simp add: leg_def)
  ultimately show ?case by (simp add: resume_def)
next
  case (hangs_left x d b q c l r)
  have hg: "hangs (pt_root T) t x d b (Nd q c l r)" using hangs_left.hyps root by simp
  have hr: "hangs (pt_root T) t q True (Suc c) r" by (rule hangs_right [OF hg])
  note hk = hangs_link [OF hg ok refl]
  have bn: "pn_bit n = int c" using hk hangs_left.prems(3) by auto
  have cC: "crit (kbits (pt_mem T)) (Nd q c l r)" and sub: "ups (Nd q c l r) \<subseteq> ups t" and cb: "c < 8 * nat (pt_key_size T)"
    using hk by auto
  have len: "length (key_of (pt_mem T) p) = nat (pt_key_size T)" if "p \<in> ups (Nd q c l r)" for p
    using ok_len [OF ok, of p] sub that by blast
  have qC: "q \<in> ups (Nd q c l r)" using cC by simp
  have "target_at n Tg c" using bn len [OF qC] hangs_left.prems(2,3) cb by (simp add: target_at_def)
  then obtain U where U: "left_target n Tg = Some U" "length U = length Tg" "\<And>i. kbit U i \<longleftrightarrow> i < c \<and> kbit (pn_key_info n) i \<or> i = c"
    by (rule left_bits) blast
  have "starts (pt_mem T) (Suc c) U r"
    by (rule starts_right [OF cC]) (use len U hangs_left.prems(2,3) in \<open>auto simp: kbits_def\<close>)
  then have "gn_loop (pt_mem T) (pt_root T) (pt_key_size T) U q = Some (walk (\<lambda>_. False) r)"
    by (intro low_run [OF ok hr]) (use U hangs_left.prems(2) in simp_all)
  moreover have "gn_back (pt_mem T) (pt_root T) Tg (leg n False) q = Some (Some (U, q))"
    using hangs_left.prems(3) bn U(1) by (subst gn_back.simps) (simp add: leg_def)
  ultimately show ?case using next_right [OF ok hg hangs_left.prems(1)] by (simp add: resume_def)
next
  case (hangs_right x d b q c l r)
  have hg: "hangs (pt_root T) t x d b (Nd q c l r)" using hangs_right.hyps root by simp
  note hk = hangs_link [OF hg ok refl]
  have bn: "pn_bit n = int c" and ln: "link (pt_mem T) (int c) (leg n False) l" "link (pt_mem T) (int c) (leg n True) r"
    using hk hangs_right.prems(3) by auto
  have cC: "crit (kbits (pt_mem T)) (Nd q c l r)" and cb: "c < 8 * nat (pt_key_size T)" and qt: "q \<in> ups t"
    using hk by auto
  have kq: "length (pn_key_info n) = nat (pt_key_size T)" using ok_len [OF ok qt] hangs_right.prems(3) by simp
  have "leg n False \<in> ups l" "leg n True \<in> ups r" using link_ptr ln cC by auto
  then have ne: "pn_right n \<noteq> pn_left n" using crit_disjoint [OF cC] by (auto simp: leg_def)
  note none = next_none [OF ok hg hangs_right.prems(1)]
  show ?case
  proof (cases "c = 0")
    case True
    then have "gn_back (pt_mem T) (pt_root T) Tg (leg n True) q = Some None"
      using hangs_right.prems(3) bn ne by (subst gn_back.simps) (simp add: leg_def)
    then show ?thesis using none True by (simp add: resume_def)
  next
    case c: False
    have "target_at n Tg c" using bn kq hangs_right.prems(2) cb by (simp add: target_at_def)
    then obtain U ok' where U: "right_target n Tg = Some (U, ok')" "length U = length Tg"
        "ok' \<longrightarrow> \<not> agree c (kbit U) (kbit (pn_key_info n))" "\<not> ok' \<longrightarrow> (\<forall>i < c. kbit (pn_key_info n) i)"
      by (rule right_lost) blast
    show ?thesis
    proof (cases ok')
      case False
      then have "gn_back (pt_mem T) (pt_root T) Tg (leg n True) q = Some None"
        using hangs_right.prems(3) bn ne c U(1) by (subst gn_back.simps) (simp add: leg_def)
      moreover have "\<forall>i < c. kbits (pt_mem T) q i" using U(4) False hangs_right.prems(3) by (simp add: kbits_def)
      ultimately show ?thesis using none by (simp add: resume_def)
    next
      case True
      have lU: "length U = nat (pt_key_size T)" using U(2) hangs_right.prems(2) by simp
      obtain v where v: "KeyBitMatch U (pn_key_info n) (Suc c) = Some v" "v = 0 \<longleftrightarrow> agree (Suc c) (kbit U) (kbits (pt_mem T) q)"
        by (rule match_node [OF ok qt hangs_right.prems(3) lU, of "Suc c"]) (use cb in auto)
      have "v \<noteq> 0" using v(2) U(3) True hangs_right.prems(3) agree_mono [of "Suc c" "kbit U" "kbit (pn_key_info n)" c]
        by (auto simp: kbits_def)
      moreover have "gn_parent (pt_mem T) (pn_key_info n) q (pt_root T) = Some x"
        using parent_run [OF ok hg] hangs_right.prems(3) by simp
      ultimately have "gn_back (pt_mem T) (pt_root T) Tg (leg n True) q = gn_back (pt_mem T) (pt_root T) U q x"
        using hangs_right.prems(3) bn ne c U(1) True v(1) by (subst gn_back.simps) (simp add: leg_def nat_add_distrib)
      moreover obtain nx where nx: "pt_mem T x = Some nx" "leg nx d = q" using hk by auto
      ultimately show ?thesis
        using hangs_right.IH [OF exhausted_both [OF ok hg hangs_right.prems(1)] lU nx(1)] by (simp add: resume_def)
    qed
  qed
qed

section \<open>The search\<close>

text \<open>Below a place whose fixed bits the target has, the search finds the next key.\<close>

lemma loop_up:
  assumes ok: "ptree_ok T t" and hg: "hangs (pt_root T) t x d b (Up q)" and len: "length T0 = nat (pt_key_size T)"
    and pre: "\<forall>q' \<in> ups (Up q). agree b (kbit T0) (kbits (pt_mem T) q')"
  shows "\<exists>p. gn_loop (pt_mem T) (pt_root T) (pt_key_size T) T0 x = Some p \<and> is_next (pt_mem T) t T0 p"
proof -
  let ?h = "pt_mem T"
  obtain n m where n: "?h x = Some n" "pn_bit n = int b - 1" "?h (leg n d) = Some m" "link ?h (int b - 1) (leg n d) (Up q)"
    by (rule place_node [OF ok hg])
  have g: "m_GET_BIT T0 (int b - 1) = Some d" by (rule place_bit [OF ok hg len pre])
  have q: "leg n d = q" "pn_bit m \<le> int b - 1" and mq: "?h q = Some m" using n(3,4) by auto
  have qt: "q \<in> ups t" and sub: "ups (Up q) \<subseteq> ups t" using hangs_link [OF hg ok refl] by simp_all
  have lm: "length (pn_key_info m) = nat (pt_key_size T)" using ok_len [OF ok qt] mq by simp
  have cmp: "memcmp T0 (pn_key_info m) (pt_key_size T) = Some (if T0 = pn_key_info m then 0 else if T0 < pn_key_info m then - 1 else 1)"
    by (rule memcmp_total [OF len lm])
  show ?thesis
  proof (cases "T0 \<le> pn_key_info m")
    case True
    have "agree b (kbit T0) (kbits ?h q)" using pre by simp
    then have "KeyBitMatch T0 (pn_key_info m) b = Some 0"
      using match_node [OF ok qt mq len place_bound [OF ok hg]] by blast
    then have run: "gn_loop ?h (pt_root T) (pt_key_size T) T0 x = Some q"
      using n g q mq cmp True by (subst gn_loop.simps) (auto simp: Let_def)
    have cr: "crit (kbits ?h) t" using ok by (simp add: ptree_ok_def)
    have "pn_key_info m \<le> key_of ?h p" if p: "p \<in> ups t" "T0 \<le> key_of ?h p" for p
    proof (rule ccontr)
      assume n: "\<not> pn_key_info m \<le> key_of ?h p"
      have "agree b (kbit (key_of ?h p)) (kbit T0)"
        by (rule sandwich [of T0 "key_of ?h p" "pn_key_info m"])
          (use len lm ok_len [OF ok p(1)] p(2) n pre mq in \<open>auto simp: kbits_def\<close>)
      then have "agree b (kbits ?h p) (kbits ?h q)" using pre agree_trans by (auto simp: kbits_def)
      then have "p = q" using hangs_inside [OF hg cr p(1), of q] by simp
      with n mq show False by simp
    qed
    then show ?thesis using run qt True mq by (auto simp: is_next_def)
  next
    case False
    then have ex: "exhausted ?h t T0 (Up q)" using exhausted_here [OF ok hg len pre _ sub] mq by auto
    have "gn_loop ?h (pt_root T) (pt_key_size T) T0 x = resume T T0 (leg n d) x"
      using n g q mq cmp False unfolding resume_def by (subst gn_loop.simps) (auto simp: Let_def)
    then show ?thesis using back_run [OF hg ok refl ex len n(1)] by simp
  qed
qed

lemma next_least:
  assumes ok: "ptree_ok T t" and hg: "hangs (pt_root T) t x d b (Nd q c l r)" and len: "length T0 = nat (pt_key_size T)"
    and pre: "\<forall>q' \<in> ups (Nd q c l r). agree b (kbit T0) (kbits (pt_mem T) q')"
    and bl: "below c (kbit T0) (kbits (pt_mem T) q)"
  shows "is_next (pt_mem T) t T0 (walk (\<lambda>_. False) l)"
proof -
  let ?K = "key_of (pt_mem T)" and ?w = "walk (\<lambda>_. False) l" and ?C = "Nd q c l r"
  have cr: "crit (kbits (pt_mem T)) t" using ok by (simp add: ptree_ok_def)
  have cC: "crit (kbits (pt_mem T)) ?C" and sub: "ups ?C \<subseteq> ups t" using hangs_link [OF hg ok refl] by blast+
  have w: "?w \<in> ups ?C" using walk_ups [of _ l] by simp
  have lenK: "length (?K p) = nat (pt_key_size T)" if "p \<in> ups t" for p by (rule ok_len [OF ok that])
  have lw: "length (?K ?w) = nat (pt_key_size T)" using lenK [of ?w] w sub by blast
  obtain i where i: "i < c" "agree i (kbit T0) (kbits (pt_mem T) q)" "\<not> kbit T0 i" "kbits (pt_mem T) q i"
    using bl by (auto simp: below_def)
  have "agree c (kbits (pt_mem T) ?w) (kbits (pt_mem T) q)" using cC w by simp
  then have "agree i (kbits (pt_mem T) q) (kbits (pt_mem T) ?w)" "kbits (pt_mem T) ?w i" using i by (simp_all add: agree_def)
  then have lt: "T0 < ?K ?w" using key_lessI [of T0 "?K ?w" i] agree_trans [OF i(2)] i(3) len lw by (auto simp: kbits_def)
  have "?K ?w \<le> ?K p" if p: "p \<in> ups t" "T0 \<le> ?K p" for p
  proof (rule ccontr)
    assume n: "\<not> ?K ?w \<le> ?K p"
    have "agree b (kbit (?K p)) (kbit T0)"
      by (rule sandwich [of T0 "?K p" "?K ?w"]) (use len lw lenK [OF p(1)] p(2) n pre w in \<open>auto simp: kbits_def\<close>)
    then have "agree b (kbits (pt_mem T) p) (kbits (pt_mem T) ?w)" using pre w agree_trans by (auto simp: kbits_def)
    then have pC: "p \<in> ups ?C" using hangs_inside [OF hg cr p(1) w] by simp
    have "?K (walk (\<lambda>_. False) ?C) \<le> ?K p"
      by (rule walk_least [OF cC _ pC, of "nat (pt_key_size T)"]) (use lenK sub in blast)
    with n show False by simp
  qed
  then show ?thesis using lt w sub by (auto simp: is_next_def)
qed

lemma loop_run:
  assumes ok: "ptree_ok T t" and "hangs (pt_root T) t x d b C" and len: "length T0 = nat (pt_key_size T)"
    and "\<forall>q' \<in> ups C. agree b (kbit T0) (kbits (pt_mem T) q')"
  shows "\<exists>p. gn_loop (pt_mem T) (pt_root T) (pt_key_size T) T0 x = Some p \<and> is_next (pt_mem T) t T0 p"
  using assms(2,4)
proof (induction C arbitrary: x d b rule: shape.induct)
  case (Up q)
  then show ?case by (rule loop_up [OF ok _ len])
next
  case (Nd q c l r)
  let ?h = "pt_mem T" and ?C = "Nd q c l r"
  note hg = Nd.prems(1) and pre = Nd.prems(2)
  obtain n m where n: "?h x = Some n" "pn_bit n = int b - 1" "?h (leg n d) = Some m" "link ?h (int b - 1) (leg n d) ?C"
    by (rule place_node [OF ok hg])
  have g: "m_GET_BIT T0 (int b - 1) = Some d" by (rule place_bit [OF ok hg len pre])
  note hk = hangs_link [OF hg ok refl]
  have cr: "crit (kbits ?h) ?C" and cb: "c < 8 * nat (pt_key_size T)" and sub: "ups ?C \<subseteq> ups t" using hk by auto
  have q: "leg n d = q" "pn_bit m = int c" "int b - 1 < int c" and mq: "?h q = Some m" using n(3,4) by auto
  have qC: "q \<in> ups ?C" and qt: "q \<in> ups t" using cr hk by auto
  have lenC: "length (key_of ?h p) = length T0" if "p \<in> ups ?C" for p using ok_len [OF ok, of p] sub that len by auto
  have agq: "agree c (kbits ?h p) (kbits ?h q)" if "p \<in> ups ?C" for p using cr that by simp
  obtain v where v: "KeyBitMatch T0 (pn_key_info m) c = Some v" "v = 0 \<longleftrightarrow> agree c (kbit T0) (kbits ?h q)"
      "v < 0 \<longleftrightarrow> below c (kbit T0) (kbits ?h q)"
    by (rule match_node [OF ok qt mq len, of c]) (use cb in auto)
  have step: "gn_loop ?h (pt_root T) (pt_key_size T) T0 x =
      (if v < 0 then do { U \<leftarrow> down_target m T0; gn_loop ?h (pt_root T) (pt_key_size T) U q }
       else if v > 0 then resume T T0 (leg n d) x else gn_loop ?h (pt_root T) (pt_key_size T) T0 q)"
    using n g q mq v(1) unfolding resume_def by (subst gn_loop.simps) (simp add: Let_def)
  consider "v < 0" | "v = 0" | "v > 0" by linarith
  then show ?case
  proof cases
    case 1
    have "target_at m T0 c" using q(2) lenC [OF qC] mq cb len by (simp add: target_at_def)
    then obtain U where U: "down_target m T0 = Some U" "length U = length T0" "\<And>i. kbit U i \<longleftrightarrow> i < c \<and> kbit (pn_key_info m) i"
      by (rule down_bits) blast
    have "starts ?h (Suc c) U l"
      by (rule starts_down [OF cr]) (use lenC U mq in \<open>auto simp: kbits_def\<close>)
    then have "gn_loop ?h (pt_root T) (pt_key_size T) U q = Some (walk (\<lambda>_. False) l)"
      by (intro low_run [OF ok hangs_left [OF hg]]) (use U len in simp_all)
    then show ?thesis using step 1 U(1) next_least [OF ok hg len pre] v(3) by simp
  next
    case 2
    then have ag: "agree c (kbit T0) (kbits ?h p)" if "p \<in> ups ?C" for p using v(2) agree_trans agree_sym agq [OF that] by blast
    show ?thesis
    proof (cases "kbit T0 c")
      case True
      have "agree (Suc c) (kbit T0) (kbits ?h p)" if p: "p \<in> ups r" for p
      proof -
        have "kbits ?h p c" using cr p by simp
        then show ?thesis using ag [of p] p True by (simp add: agree_Suc)
      qed
      then show ?thesis using Nd.IH(2) [OF hangs_right [OF hg]] step 2 by simp
    next
      case False
      have "agree (Suc c) (kbit T0) (kbits ?h p)" if p: "p \<in> ups l" for p
      proof -
        have "\<not> kbits ?h p c" using cr p by simp
        then show ?thesis using ag [of p] p False by (simp add: agree_Suc)
      qed
      then show ?thesis using Nd.IH(1) [OF hangs_left [OF hg]] step 2 by simp
    qed
  next
    case 3
    have nv: "\<not> agree c (kbit T0) (kbits ?h q)" "\<not> below c (kbit T0) (kbits ?h q)" using v(2,3) 3 by auto
    then have "below c (kbits ?h q) (kbit T0)"
      using above_less [of T0 "key_of ?h q" c] lenC [OF qC] unfolding kbits_def by simp
    then obtain i where i: "i < c" "agree i (kbits ?h q) (kbit T0)" "\<not> kbits ?h q i" "kbit T0 i"
      unfolding below_def by blast
    have "key_of ?h p < T0" if p: "p \<in> ups ?C" for p
    proof -
      have a: "agree i (kbits ?h p) (kbits ?h q)" using agree_mono [OF agq [OF p]] i(1) by simp
      have "\<not> kbits ?h p i" using agree_less [OF agq [OF p] i(1)] i(3) by simp
      then show ?thesis
        using key_lessI [OF lenC [OF p], of i] agree_trans [OF a i(2)] i(4) unfolding kbits_def by simp
    qed
    then have ex: "exhausted ?h t T0 ?C" using exhausted_here [OF ok hg len pre _ sub] by blast
    show ?thesis using back_run [OF hg ok refl ex len n(1)] step 3 by simp
  qed
qed

lemma zeros_least: "length k = n \<Longrightarrow> replicate n 0 \<le> k" for k :: bytes
proof (rule ccontr)
  assume "length k = n" and "\<not> replicate n 0 \<le> k"
  then have "k < replicate n 0" "length k = length (replicate n (0 :: u8))" by simp_all
  then obtain i where "kbit (replicate n 0) i" using key_lessD by blast
  then show False by simp
qed

text \<open>A key of the given size and \<open>NULL\<close>, which asks for the first node.\<close>

definition from_key :: "NCS_PATRICIA_TREE \<Rightarrow> bytes option \<Rightarrow> bytes" where
  "from_key T ko = (case ko of None \<Rightarrow> replicate (nat (pt_key_size T)) 0 | Some k \<Rightarrow> k)"

lemma getnext_run:
  assumes ok: "ptree_ok T t" and len: "length (from_key T ko) = nat (pt_key_size T)"
  shows "\<exists>p. ncs_patricia_tree_getnext T ko = Some p \<and>
     (p = NULL \<and> (\<forall>q \<in> nds t. \<not> from_key T ko < key_of (pt_mem T) q)
      \<or> p \<in> nds t \<and> from_key T ko < key_of (pt_mem T) p
        \<and> (\<forall>q \<in> nds t. from_key T ko < key_of (pt_mem T) q \<longrightarrow> key_of (pt_mem T) p \<le> key_of (pt_mem T) q))"
proof -
  let ?k = "from_key T ko" and ?n = "nat (pt_key_size T)" and ?K = "key_of (pt_mem T)"
  obtain T0 s where inc: "incr ?k (length ?k) = (T0, s)" by (metis prod.exhaust)
  have run: "ncs_patricia_tree_getnext T ko =
      (if s then gn_loop (pt_mem T) (pt_root T) (pt_key_size T) T0 (pt_root T) else Some NULL)"
    using inc len by (cases ko) (simp_all add: ncs_patricia_tree_getnext_def from_key_def)
  have u: "ups t = insert (pt_root T) (nds t)" using ok by (simp add: ptree_ok_def)
  have lenK: "length (?K q) = length ?k" if "q \<in> ups t" for q using ok_len [OF ok that] len by simp
  show ?thesis
  proof (cases s)
    case False
    then have "\<not> ?k < ?K q" if "q \<in> nds t" for q using incr_none [of ?k T0 "?K q"] inc lenK that u by auto
    then show ?thesis using run False by auto
  next
    case True
    have l0: "length T0 = ?n" using incr_run [OF order_refl inc] len by simp
    have iff: "T0 \<le> ?K q \<longleftrightarrow> ?k < ?K q" if "q \<in> ups t" for q using incr_succ [of ?k T0 "?K q"] inc True lenK that by simp
    have r0: "\<not> ?k < ?K (pt_root T)" using ok_root [OF ok] zeros_least [of ?k ?n] len by (simp add: not_less)
    obtain p where p: "gn_loop (pt_mem T) (pt_root T) (pt_key_size T) T0 (pt_root T) = Some p" "is_next (pt_mem T) t T0 p"
      using loop_run [OF ok hangs_top l0] by (auto simp: agree_def)
    show ?thesis
    proof (cases "p = NULL \<and> (\<forall>q \<in> ups t. \<not> T0 \<le> ?K q)")
      case none: True
      then show ?thesis using run True p(1) iff u by auto
    next
      case False
      then have "p \<in> ups t" "T0 \<le> ?K p" "\<forall>q \<in> ups t. T0 \<le> ?K q \<longrightarrow> ?K p \<le> ?K q" using p(2) by (auto simp: is_next_def)
      moreover from this have "p \<noteq> pt_root T" using iff r0 by auto
      ultimately show ?thesis using run True p(1) iff u by auto
    qed
  qed
qed

end
