(* ===== verification/Patricia_Props.thy ===== *)
theory Patricia_Props
  imports Patricia_Next_Run
begin

text \<open>
  The Patricia tree and the reference table of \<open>Key_Table\<close>, which stands for it in the model
  of the lock service, give the same results on every sequence of operations.
\<close>

section \<open>Operations of a client\<close>

text \<open>
  A client stores the key in a node of its own before it adds the node; it deletes the node
  it has looked up.
\<close>

datatype pat_op = PAdd bytes ptr | PDel bytes | PGet bytes | PNext "bytes option"

datatype pat_res = PRc rc | PPtr ptr

definition pat_alloc :: "bytes \<Rightarrow> ptr \<Rightarrow> NCS_PATRICIA_TREE \<Rightarrow> NCS_PATRICIA_TREE" where
  "pat_alloc k v T = T\<lparr>pt_mem := (pt_mem T)(v \<mapsto> \<lparr>pn_bit = 0, pn_left = NULL, pn_right = NULL, pn_key_info = k\<rparr>)\<rparr>"

fun pat_exec :: "pat_op \<Rightarrow> NCS_PATRICIA_TREE \<Rightarrow> (NCS_PATRICIA_TREE \<times> pat_res) option" where
  "pat_exec (PAdd k v) T = do {
     (T, rc) \<leftarrow> ncs_patricia_tree_add (pat_alloc k v T) v;
     Some (T, PRc rc) }"
| "pat_exec (PDel k) T = do {
     p \<leftarrow> ncs_patricia_tree_get T k;
     if p = NULL then Some (T, PRc NCSCC_RC_FAILURE)
     else do { (T, rc) \<leftarrow> ncs_patricia_tree_del T p; Some (T, PRc rc) } }"
| "pat_exec (PGet k) T = do { p \<leftarrow> ncs_patricia_tree_get T k; Some (T, PPtr p) }"
| "pat_exec (PNext ko) T = do { p \<leftarrow> ncs_patricia_tree_getnext T ko; Some (T, PPtr p) }"

fun tbl_exec :: "pat_op \<Rightarrow> ptr table \<Rightarrow> ptr table \<times> pat_res" where
  "tbl_exec (PAdd k v) tb = (fst (tbl_add k v tb), PRc (snd (tbl_add k v tb)))"
| "tbl_exec (PDel k) tb = (fst (tbl_del k tb), PRc (snd (tbl_del k tb)))"
| "tbl_exec (PGet k) tb = (tb, PPtr (case tbl_get tb k of None \<Rightarrow> NULL | Some p \<Rightarrow> p))"
| "tbl_exec (PNext ko) tb = (tb, PPtr (case tbl_getnext tb ko of None \<Rightarrow> NULL | Some e \<Rightarrow> snd e))"

fun pat_run :: "pat_op list \<Rightarrow> NCS_PATRICIA_TREE \<Rightarrow> (NCS_PATRICIA_TREE \<times> pat_res list) option" where
  "pat_run [] T = Some (T, [])"
| "pat_run (a # as) T = do {
     (T, r) \<leftarrow> pat_exec a T;
     (T, rs) \<leftarrow> pat_run as T;
     Some (T, r # rs) }"

fun tbl_run :: "pat_op list \<Rightarrow> ptr table \<Rightarrow> ptr table \<times> pat_res list" where
  "tbl_run [] tb = (tb, [])"
| "tbl_run (a # as) tb =
     (let (tb, r) = tbl_exec a tb; (tb, rs) = tbl_run as tb in (tb, r # rs))"

text \<open>Keys of the size of the tree; a node to be added is neither the root nor in the tree.\<close>

fun op_ok :: "nat \<Rightarrow> ptr \<Rightarrow> pat_op \<Rightarrow> ptr table \<Rightarrow> bool" where
  "op_ok ks root (PAdd k v) tb \<longleftrightarrow> length k = ks \<and> v \<noteq> NULL \<and> v \<noteq> root \<and> v \<notin> snd ` set tb"
| "op_ok ks root (PDel k) tb \<longleftrightarrow> length k = ks"
| "op_ok ks root (PGet k) tb \<longleftrightarrow> length k = ks"
| "op_ok ks root (PNext ko) tb \<longleftrightarrow> (\<forall>k \<in> set_option ko. length k = ks)"

fun ops_ok :: "nat \<Rightarrow> ptr \<Rightarrow> pat_op list \<Rightarrow> ptr table \<Rightarrow> bool" where
  "ops_ok ks root [] tb \<longleftrightarrow> True"
| "ops_ok ks root (a # as) tb \<longleftrightarrow> op_ok ks root a tb \<and> ops_ok ks root as (fst (tbl_exec a tb))"

section \<open>Simulation\<close>

definition pat_sim :: "nat \<Rightarrow> ptr \<Rightarrow> NCS_PATRICIA_TREE \<Rightarrow> ptr table \<Rightarrow> bool" where
  "pat_sim ks root T tb \<longleftrightarrow> pat_inv T \<and> tbl_wf tb \<and> pat_get T = tbl_get tb \<and> pt_n_nodes T = of_nat (length tb)
     \<and> nat (pt_key_size T) = ks \<and> pt_root T = root"

lemma alloc_ok:
  assumes ok: "ptree_ok T t" and v: "v \<notin> ups t"
  shows "ptree_ok (pat_alloc k v T) t" "ptree_map (pat_alloc k v T) t = ptree_map T t"
proof -
  let ?T = "pat_alloc k v T"
  have keys: "key_of (pt_mem ?T) q = key_of (pt_mem T) q" if "q \<in> ups t" for q
    using that v by (auto simp: pat_alloc_def key_of_def)
  have u: "ups t = insert (pt_root T) (nds t)" using ok by (simp add: ptree_ok_def)
  obtain n where n: "pt_mem T (pt_root T) = Some n" "pn_bit n = - 1" "link (pt_mem T) (- 1) (pn_left n) t"
      "pn_key_info n = replicate (nat (pt_key_size T)) 0" by (rule ok_rootE [OF ok])
  have "link (pt_mem ?T) (- 1) (pn_left n) t"
    by (rule link_frame [OF n(3)]) (use v u in \<open>auto simp: pat_alloc_def\<close>)
  moreover have "crit (kbits (pt_mem ?T)) t"
    by (rule crit_cong [where kb = "kbits (pt_mem T)"]) (use ok keys in \<open>auto simp: kbits_def ptree_ok_def\<close>)
  moreover have "pt_mem ?T (pt_root T) = Some n" using n(1) v u by (auto simp: pat_alloc_def)
  ultimately show "ptree_ok ?T t" using ok n keys u by (auto simp: ptree_ok_def pat_alloc_def)
  show "ptree_map ?T t = ptree_map T t"
    using keys u by (auto simp: ptree_map_def Let_def fun_eq_iff)
qed

lemma sim_getnext:
  assumes sim: "pat_sim ks root T tb" and ko: "\<forall>k \<in> set_option ko. length k = ks"
  shows "ncs_patricia_tree_getnext T ko = Some (case tbl_getnext tb ko of None \<Rightarrow> NULL | Some e \<Rightarrow> snd e)"
proof -
  obtain t where ok: "ptree_ok T t" using sim by (auto simp: pat_sim_def pat_inv_def)
  have wf: "tbl_wf tb" and ks: "nat (pt_key_size T) = ks" using sim by (simp_all add: pat_sim_def)
  have gm: "ptree_map T t = tbl_get tb" using sim pat_get_map [OF ok] by (simp add: pat_sim_def)
  have mem: "(k, p) \<in> set tb \<longleftrightarrow> p \<in> nds t \<and> key_of (pt_mem T) p = k" for k p
    using ok_map [OF ok, of k p] tbl_get_in [OF wf, of k p] tbl_get_SomeD [of tb k p] unfolding gm by blast
  have len: "length (from_key T ko) = nat (pt_key_size T)" using ko ks by (auto simp: from_key_def split: option.split)
  have nz: "zero_key k \<longleftrightarrow> \<not> replicate ks 0 < k" if "length k = ks" for k
  proof -
    have "zero_key k \<longleftrightarrow> k = replicate ks 0"
      using that replicate_eqI [of k ks 0] unfolding zero_key_def by (metis in_set_replicate)
    moreover have "replicate ks 0 \<le> k" by (rule zeros_least [OF that])
    ultimately show ?thesis by (metis less_le)
  qed
  have lt: "tbl_getnext tb ko = List.find (\<lambda>e. from_key T ko < fst e) tb"
  proof (cases ko)
    case None
    have "\<not> zero_key (fst e) \<longleftrightarrow> from_key T ko < fst e" if "e \<in> set tb" for e
    proof -
      have "snd e \<in> nds t" "key_of (pt_mem T) (snd e) = fst e" using mem [of "fst e" "snd e"] that by auto
      then have "length (fst e) = ks" using ok_len [OF ok, of "snd e"] ok ks by (auto simp: ptree_ok_def)
      from nz [OF this] None ks show ?thesis by (simp add: from_key_def)
    qed
    then have "List.find (\<lambda>e. \<not> zero_key (fst e)) tb = List.find (\<lambda>e. from_key T ko < fst e) tb" by (rule find_cong [OF refl])
    then show ?thesis using None by (simp add: tbl_getnext_def)
  qed (simp add: tbl_getnext_def from_key_def)
  obtain p where p: "ncs_patricia_tree_getnext T ko = Some p"
     "p = NULL \<and> (\<forall>q \<in> nds t. \<not> from_key T ko < key_of (pt_mem T) q)
      \<or> p \<in> nds t \<and> from_key T ko < key_of (pt_mem T) p
        \<and> (\<forall>q \<in> nds t. from_key T ko < key_of (pt_mem T) q \<longrightarrow> key_of (pt_mem T) p \<le> key_of (pt_mem T) q)"
    using getnext_run [OF ok len] by blast
  have N: "NULL \<notin> nds t" using ok by (simp add: ptree_ok_def)
  show ?thesis
  proof (cases "List.find (\<lambda>e. from_key T ko < fst e) tb")
    case None
    then have "\<forall>e \<in> set tb. \<not> from_key T ko < fst e" by (auto simp: find_None_iff)
    then have "\<forall>q \<in> nds t. \<not> from_key T ko < key_of (pt_mem T) q" using mem by fastforce
    then show ?thesis using p None lt by auto
  next
    case (Some e)
    then obtain i where i: "i < length tb" "from_key T ko < fst (tb ! i)" "e = tb ! i" "\<forall>j < i. \<not> from_key T ko < fst (tb ! j)"
      by (auto simp: find_Some_iff)
    have e: "snd e \<in> nds t" "key_of (pt_mem T) (snd e) = fst e" using mem [of "fst e" "snd e"] i(1,3) by auto
    then have pn: "p \<in> nds t" "from_key T ko < key_of (pt_mem T) p" "key_of (pt_mem T) p \<le> fst e" using p(2) i(2,3) by auto
    then obtain j where j: "j < length tb" "tb ! j = (key_of (pt_mem T) p, p)" using mem [of "key_of (pt_mem T) p" p] by (auto simp: in_set_conv_nth)
    then have "i \<le> j" using i(4) pn(2) by (metis fst_conv not_le)
    then have "fst e \<le> key_of (pt_mem T) p"
      using wf i(3) j sorted_wrt_nth_less [of "(<)" "map fst tb" i j] by (cases "i = j") (auto simp: tbl_wf_def)
    then have "key_of (pt_mem T) p = key_of (pt_mem T) (snd e)" using pn(3) e(2) by simp
    then have "p = snd e" using ok_key_inj [OF ok, of p "snd e"] pn(1) e(1) ok by (auto simp: ptree_ok_def)
    then show ?thesis using p(1) Some lt by simp
  qed
qed

lemma length_tbl_insert [simp]: "length (tbl_insert k v tb) = Suc (length tb)"
  by (induction k v tb rule: tbl_insert.induct) auto

lemma length_filter_key:
  assumes "distinct (map fst tb)" and "k \<in> fst ` set tb"
  shows "length tb = Suc (length (filter (\<lambda>e. fst e \<noteq> k) tb))"
  using assms
proof (induction tb)
  case (Cons e tb)
  show ?case
  proof (cases "fst e = k")
    case True
    then have "\<forall>e' \<in> set tb. fst e' \<noteq> k" using Cons.prems(1) by (metis distinct.simps(2) imageI list.map(2) list.set_map)
    then have "filter (\<lambda>e. fst e \<noteq> k) tb = tb" by simp
    with True show ?thesis by simp
  qed (use Cons in auto)
qed simp

lemma sim_get:
  assumes "pat_sim ks root T tb" and "length k = ks"
  shows "ncs_patricia_tree_get T k = Some (case tbl_get tb k of None \<Rightarrow> NULL | Some p \<Rightarrow> p)"
proof -
  obtain t where ok: "ptree_ok T t" using assms by (auto simp: pat_sim_def pat_inv_def)
  show ?thesis using get_run [OF ok, of k] assms pat_get_map [OF ok] by (simp add: pat_sim_def)
qed

lemma sim_step:
  assumes sim: "pat_sim ks root T tb" and op: "op_ok ks root a tb"
  shows "\<exists>T'. pat_exec a T = Some (T', snd (tbl_exec a tb)) \<and> pat_sim ks root T' (fst (tbl_exec a tb))"
proof -
  obtain t where ok: "ptree_ok T t" using sim by (auto simp: pat_sim_def pat_inv_def)
  have wf: "tbl_wf tb" and g: "pat_get T = tbl_get tb" and ks: "nat (pt_key_size T) = ks" "pt_root T = root"
    and nn: "pt_n_nodes T = of_nat (length tb)" using sim by (simp_all add: pat_sim_def)
  have inv: "pat_inv T" using ok by (auto simp: pat_inv_def)
  have gm: "ptree_map T t = tbl_get tb" using pat_get_map [OF ok] g by simp
  show ?thesis
  proof (cases a)
    case (PAdd k v)
    let ?T = "pat_alloc k v T"
    have o: "length k = ks" "v \<noteq> NULL" "v \<noteq> root" "v \<notin> snd ` set tb" using op PAdd by auto
    have "v \<notin> nds t" using ok_map [OF ok, of "key_of (pt_mem T) v" v] gm tbl_get_SomeD [of tb _ v] o(4) by force
    then have vu: "v \<notin> ups t" using ok o(3) ks by (auto simp: ptree_ok_def)
    note al = alloc_ok [OF ok vu, of k]
    have gT: "pat_get ?T = tbl_get tb" using pat_get_map [OF al(1)] al(2) gm by simp
    have nv: "tbl_get tb k \<noteq> Some v" using tbl_get_SomeD [of tb k v] o(4) by force
    have sz: "pt_key_size ?T = pt_key_size T" "pt_root ?T = pt_root T" "pt_n_nodes ?T = pt_n_nodes T" by (simp_all add: pat_alloc_def)
    have new: "fresh_node ?T k v" using o nv gT ks sz by (simp add: fresh_node_def) (simp add: pat_alloc_def key_of_def)
    note run = pat_add_run [OF _ new, unfolded gT]
    have invT: "pat_inv ?T" using al(1) by (auto simp: pat_inv_def)
    show ?thesis
    proof (cases "zero_key k \<or> tbl_get tb k \<noteq> None")
      case True
      then show ?thesis using run [OF invT] PAdd wf invT gT sz nn ks by (simp add: tbl_add_def pat_sim_def)
    next
      case False
      then obtain T' where T': "ncs_patricia_tree_add ?T v = Some (T', NCSCC_RC_SUCCESS)" "pat_inv T'"
          "pat_get T' = (tbl_get tb)(k \<mapsto> v)" "pt_n_nodes T' = pt_n_nodes ?T + 1" "pt_key_size T' = pt_key_size ?T" "pt_root T' = pt_root ?T"
        using run [OF invT] by auto
      have "tbl_get (fst (tbl_add k v tb)) = (tbl_get tb)(k \<mapsto> v)" using False by (simp add: tbl_get_add)
      moreover have "tbl_wf (fst (tbl_add k v tb))" by (rule tbl_wf_add [OF wf])
      moreover have "length (fst (tbl_add k v tb)) = Suc (length tb)" "snd (tbl_add k v tb) = NCSCC_RC_SUCCESS"
        using False by (simp_all add: tbl_add_def)
      ultimately show ?thesis using T' PAdd sz nn ks by (simp add: pat_sim_def add.commute)
    qed
  next
    case (PDel k)
    have len: "length k = ks" using op PDel by simp
    note get = sim_get [OF sim len]
    show ?thesis
    proof (cases "tbl_get tb k")
      case None
      then show ?thesis using get PDel sim by (simp add: tbl_del_def)
    next
      case (Some p)
      then have "p \<in> nds t" using ok_map [OF ok, of k p] gm by simp
      then have pN: "p \<noteq> NULL" using ok by (auto simp: ptree_ok_def)
      obtain T' where T': "ncs_patricia_tree_del T p = Some (T', NCSCC_RC_SUCCESS)" "pat_inv T'"
          "pat_get T' = (tbl_get tb)(k := None)" "pt_n_nodes T' = pt_n_nodes T - 1" "pt_key_size T' = pt_key_size T" "pt_root T' = pt_root T"
        using pat_del_run [OF inv, of k p] g Some by auto
      have "k \<in> fst ` set tb" using Some tbl_get_None_iff [of tb k] by auto
      then have "length tb = Suc (length (fst (tbl_del k tb)))" "snd (tbl_del k tb) = NCSCC_RC_SUCCESS"
        using length_filter_key [of tb k] wf Some sorted_wrt_less_distinct by (auto simp: tbl_wf_def tbl_del_def)
      moreover have "tbl_get (fst (tbl_del k tb)) = (tbl_get tb)(k := None)" by (rule tbl_get_del)
      moreover have "tbl_wf (fst (tbl_del k tb))" by (rule tbl_wf_del [OF wf])
      ultimately show ?thesis using T' PDel nn ks get Some pN by (simp add: pat_sim_def)
    qed
  next
    case (PGet k)
    then show ?thesis using sim_get [OF sim] op sim by auto
  next
    case (PNext ko)
    then show ?thesis using sim_getnext [OF sim] op sim by auto
  qed
qed

lemma sim_run:
  assumes "pat_sim ks root T tb" and "ops_ok ks root as tb"
  shows "\<exists>T'. pat_run as T = Some (T', snd (tbl_run as tb)) \<and> pat_sim ks root T' (fst (tbl_run as tb))"
  using assms
proof (induction as arbitrary: T tb)
  case (Cons a as)
  then obtain T1 where T1: "pat_exec a T = Some (T1, snd (tbl_exec a tb))" "pat_sim ks root T1 (fst (tbl_exec a tb))"
    using sim_step [of ks root T tb a] by auto
  from Cons.IH [OF T1(2)] Cons.prems T1(1) show ?case by (auto simp: split_def Let_def)
qed simp

section \<open>Properties\<close>

text \<open>
  C32: the Patricia tree implements the reference table. On every sequence of additions,
  deletions, look-ups and successor searches, from a tree just initialised, no operation
  loops or reads outside an object, each returns what the reference table returns, and the
  size is the number of entries modulo the word size.
\<close>

theorem patricia_run_equiv:
  assumes "1 \<le> ks" and "ks \<le> 600" and "ops_ok (nat ks) (pt_root T0) as []"
  shows "\<exists>T T'. ncs_patricia_tree_init True (Some ks) T0 = (T, NCSCC_RC_SUCCESS)
      \<and> pat_run as T = Some (T', snd (tbl_run as []))
      \<and> ncs_patricia_tree_size T' = of_nat (length (fst (tbl_run as [])))"
proof -
  obtain T where T: "ncs_patricia_tree_init True (Some ks) T0 = (T, NCSCC_RC_SUCCESS)" "pat_inv T" "pat_get T = Map.empty"
      "pt_n_nodes T = 0" "pt_key_size T = ks" "pt_root T = pt_root T0"
    using pat_init [of ks T0] assms(1,2) by (auto simp: NCS_PATRICIA_MAX_KEY_SIZE_def)
  have "pat_sim (nat ks) (pt_root T0) T []"
    using T tbl_wf_empty by (simp add: pat_sim_def tbl_empty_def tbl_get_def fun_eq_iff)
  from sim_run [OF this assms(3)] T(1) show ?thesis
    by (auto simp: pat_sim_def ncs_patricia_tree_size_def)
qed

definition pat_start :: NCS_PATRICIA_TREE where
  "pat_start = \<lparr>pt_root = 99, pt_key_size = 0, pt_n_nodes = 7, pt_mem = Map.empty\<rparr>"

definition pat_demo :: "pat_op list" where
  "pat_demo = [PAdd [5, 1] 16, PAdd [5, 9] 32, PAdd [200, 0] 48, PAdd [5, 9] 64, PAdd [0, 0] 80, PNext None,
     PNext (Some [5, 1]), PNext (Some [5, 9]), PNext (Some [200, 0]), PDel [5, 9], PGet [5, 9], PGet [5, 1], PNext (Some [5, 1])]"

theorem patricia_run_equiv_witness:
  "\<exists>T T'. ncs_patricia_tree_init True (Some 2) pat_start = (T, NCSCC_RC_SUCCESS)
     \<and> pat_run pat_demo T = Some (T', [PRc NCSCC_RC_SUCCESS, PRc NCSCC_RC_SUCCESS, PRc NCSCC_RC_SUCCESS,
         PRc NCSCC_RC_FAILURE, PRc NCSCC_RC_FAILURE, PPtr 16, PPtr 32, PPtr 48, PPtr NULL, PRc NCSCC_RC_SUCCESS,
         PPtr NULL, PPtr 16, PPtr 48])
     \<and> ncs_patricia_tree_size T' = 2"
proof -
  have ok: "ops_ok (nat 2) (pt_root pat_start) pat_demo []" by code_simp
  have rs: "snd (tbl_run pat_demo []) = [PRc NCSCC_RC_SUCCESS, PRc NCSCC_RC_SUCCESS, PRc NCSCC_RC_SUCCESS,
         PRc NCSCC_RC_FAILURE, PRc NCSCC_RC_FAILURE, PPtr 16, PPtr 32, PPtr 48, PPtr NULL, PRc NCSCC_RC_SUCCESS,
         PPtr NULL, PPtr 16, PPtr 48]" by code_simp
  have sz: "length (fst (tbl_run pat_demo [])) = 2" by code_simp
  show ?thesis using patricia_run_equiv [OF _ _ ok] unfolding rs sz by simp
qed

text \<open>The tree the demonstration leaves behind.\<close>

definition pat_tree :: NCS_PATRICIA_TREE where
  "pat_tree = fst (the (pat_run pat_demo (fst (ncs_patricia_tree_init True (Some 2) pat_start))))"

lemma pat_tree_sim: "pat_sim 2 99 pat_tree [([5, 1], 16), ([200, 0], 48)]"
proof -
  have ok: "ops_ok 2 99 pat_demo []" by code_simp
  have tb: "fst (tbl_run pat_demo []) = [([5, 1], 16), ([200, 0], 48)]" by code_simp
  obtain T where T: "ncs_patricia_tree_init True (Some 2) pat_start = (T, NCSCC_RC_SUCCESS)" "pat_inv T" "pat_get T = Map.empty"
      "pt_n_nodes T = 0" "pt_key_size T = 2" "pt_root T = pt_root pat_start"
    using pat_init [of 2 pat_start] by (auto simp: NCS_PATRICIA_MAX_KEY_SIZE_def)
  have "pat_sim 2 99 T []" using T tbl_wf_empty by (simp add: pat_sim_def tbl_empty_def tbl_get_def fun_eq_iff pat_start_def)
  from sim_run [OF this ok] T(1) show ?thesis by (auto simp: tb pat_tree_def)
qed

lemma pat_tree_facts: "pat_inv pat_tree" "nat (pt_key_size pat_tree) = 2" "pat_get pat_tree [5, 1] = Some 16" "pt_root pat_tree = 99"
  using pat_tree_sim by (simp_all add: pat_sim_def tbl_get_def)

text \<open>
  C33: the successor search returns, and its result is the node with the least key above the
  given one, or \<open>NULL\<close> when the tree has no such key.
\<close>

theorem patricia_getnext_least:
  assumes "pat_inv T" and "length k = nat (pt_key_size T)"
  shows "\<exists>p. ncs_patricia_tree_getnext T (Some k) = Some p \<and>
     (p = NULL \<and> (\<forall>k' q. pat_get T k' = Some q \<longrightarrow> \<not> k < k')
      \<or> (\<exists>k'. pat_get T k' = Some p \<and> k < k' \<and> (\<forall>k'' q. pat_get T k'' = Some q \<longrightarrow> k < k'' \<longrightarrow> k' \<le> k'')))"
proof -
  obtain t where ok: "ptree_ok T t" using assms(1) by (auto simp: pat_inv_def)
  have get: "pat_get T k' = Some q \<longleftrightarrow> q \<in> nds t \<and> key_of (pt_mem T) q = k'" for k' q
    unfolding pat_get_map [OF ok] by (rule ok_map [OF ok])
  have k: "from_key T (Some k) = k" by (simp add: from_key_def)
  obtain p where "ncs_patricia_tree_getnext T (Some k) = Some p"
     "p = NULL \<and> (\<forall>q \<in> nds t. \<not> k < key_of (pt_mem T) q)
      \<or> p \<in> nds t \<and> k < key_of (pt_mem T) p
        \<and> (\<forall>q \<in> nds t. k < key_of (pt_mem T) q \<longrightarrow> key_of (pt_mem T) p \<le> key_of (pt_mem T) q)"
    using getnext_run [OF ok, of "Some k", unfolded k, OF assms(2)] by blast
  then show ?thesis unfolding get by blast
qed

theorem patricia_getnext_least_witness:
  "\<exists>p. ncs_patricia_tree_getnext pat_tree (Some [7, 7]) = Some p \<and>
     (p = NULL \<and> (\<forall>k' q. pat_get pat_tree k' = Some q \<longrightarrow> \<not> [7, 7] < k')
      \<or> (\<exists>k'. pat_get pat_tree k' = Some p \<and> [7, 7] < k'
           \<and> (\<forall>k'' q. pat_get pat_tree k'' = Some q \<longrightarrow> [7, 7] < k'' \<longrightarrow> k' \<le> k'')))"
  using patricia_getnext_least [OF pat_tree_facts(1), of "[7, 7]"] pat_tree_facts(2) by simp

text \<open>
  C34: deleting a node that is not in the tree, and not its root, is refused and changes
  nothing.
\<close>

theorem patricia_del_refused:
  assumes "pat_inv T" and "pt_mem T p = Some n" and "length (pn_key_info n) = nat (pt_key_size T)"
    and "p \<noteq> pt_root T" and "pat_get T (pn_key_info n) \<noteq> Some p"
  shows "ncs_patricia_tree_del T p = Some (T, NCSCC_RC_FAILURE)"
proof -
  obtain t where ok: "ptree_ok T t" using assms(1) by (auto simp: pat_inv_def)
  have "p \<notin> nds t" using assms(2,5) ok_map [OF ok, of "pn_key_info n" p] pat_get_map [OF ok] by simp
  then have "p \<notin> ups t" using ok assms(4) by (simp add: ptree_ok_def)
  then show ?thesis by (rule del_absent [OF ok _ assms(2,3)])
qed

theorem patricia_del_refused_witness:
  "ncs_patricia_tree_del (pat_alloc [9, 9] 160 pat_tree) 160 = Some (pat_alloc [9, 9] 160 pat_tree, NCSCC_RC_FAILURE)"
proof -
  obtain t where ok: "ptree_ok pat_tree t" using pat_tree_facts(1) by (auto simp: pat_inv_def)
  have gm: "ptree_map pat_tree t = tbl_get [([5, 1], 16), ([200, 0], 48)]"
    using pat_tree_sim pat_get_map [OF ok] by (simp add: pat_sim_def)
  have "160 \<notin> nds t"
    using ok_map [OF ok, of "key_of (pt_mem pat_tree) 160" 160] gm by (auto simp: tbl_get_def split: if_splits)
  then have v: "160 \<notin> ups t" using ok pat_tree_facts(4) by (auto simp: ptree_ok_def)
  note al = alloc_ok [OF ok v, of "[9, 9]"]
  show ?thesis
    by (rule patricia_del_refused)
      (use al gm pat_get_map [OF al(1)] pat_tree_facts in \<open>auto simp: pat_inv_def pat_alloc_def tbl_get_def\<close>)
qed



end
