(* ===== verification/Usrbuf.thy ===== *)
theory Usrbuf
  imports Prelude
begin

text \<open>
  The message buffers of the base library: chains of \<open>USRBUF\<close>s (\<open>base/sysf_mem.c\<close>) and the
  encode/decode cursor \<open>NCS_UBAID\<close> over them (\<open>base/hj_ubaid.c\<close>).

  \<^item> A chain is the list of its buffers, linked by \<open>link\<close>. A pointer into a chain is a pair:
    the buffers before it and the chain it heads (\<open>[]\<close> is \<open>NULL\<close>).
  \<^item> The payload is the whole array \<open>Data\<close>: octets that were reserved and never written have the
    value the memory had before.
  \<^item> \<open>uc_mem\<close> lists the payload blocks the buffer pool can still hand out; when it is empty an
    allocation fails.
  \<^item> A write outside \<open>Data\<close>, a copy beyond the end of the caller's area, an access through
    \<open>NULL\<close> and a failed assertion are faults (\<open>None\<close>).
\<close>

section \<open>Buffers\<close>

definition PAYLOAD_BUF_SIZE :: nat where "PAYLOAD_BUF_SIZE = 8000"

record NCSUB_POOL =
  hdr_reserve :: nat
  trlr_reserve :: nat

text \<open>The pool of the message distribution service, \<open>gl_ub_pool_mgr.pools[NCSUB_MDS_POOL]\<close>.\<close>

definition NCSUB_MDS_POOL :: NCSUB_POOL where
  "NCSUB_MDS_POOL = \<lparr>hdr_reserve = 50, trlr_reserve = 25\<rparr>"

type_synonym payload_block = "nat \<Rightarrow> u8"

record USRBUF =
  Data :: payload_block
  RefCnt :: nat
  ub_count :: nat
  ub_start :: nat
  pool_ops :: NCSUB_POOL

record ub_cursor =
  uc_pre :: "USRBUF list"
  uc_ub :: "USRBUF list"
  uc_mem :: "payload_block list"

definition m_MMGR_DATA :: "USRBUF \<Rightarrow> bytes" where
  "m_MMGR_DATA b = map (\<lambda>i. Data b (ub_start b + i)) [0..<ub_count b]"

definition chain_bytes :: "USRBUF list \<Rightarrow> bytes" where
  "chain_bytes ch = concat (map m_MMGR_DATA ch)"

definition sysf_get_chain_len :: "USRBUF list \<Rightarrow> nat" where
  "sysf_get_chain_len ch = sum_list (map ub_count ch)"

definition sysf_alloc_pkt :: "NCSUB_POOL \<Rightarrow> payload_block list \<Rightarrow> (USRBUF \<times> payload_block list) option" where
  "sysf_alloc_pkt pool mem = (case mem of
      [] \<Rightarrow> None
    | ud # mem' \<Rightarrow> Some (\<lparr>Data = ud, RefCnt = 1, ub_count = 0, ub_start = hdr_reserve pool, pool_ops = pool\<rparr>, mem'))"

definition space_left :: "USRBUF \<Rightarrow> int" where
  "space_left b = int PAYLOAD_BUF_SIZE - int (trlr_reserve (pool_ops b) + ub_start b + ub_count b)"

text \<open>
  The end of \<open>sysf_reserve_at_end_amap\<close>: the octets are taken from the buffer \<open>b\<close>, which is
  the last one. The result is the offset of the first octet in \<open>Data\<close>, the cursor and the
  number of octets.
\<close>

definition reserve_in ::
    "USRBUF list \<Rightarrow> USRBUF \<Rightarrow> payload_block list \<Rightarrow> nat \<Rightarrow> bool \<Rightarrow> (nat option \<times> ub_cursor \<times> nat) option" where
  "reserve_in pre b mem io_size whole =
     (if space_left b < int io_size \<and> whole then None
      else let n = (if space_left b < int io_size then nat (space_left b mod 2 ^ 32) else io_size)
           in Some (Some (ub_start b + ub_count b),
                \<lparr>uc_pre = pre, uc_ub = [b\<lparr>ub_count := ub_count b + n\<rparr>], uc_mem = mem\<rparr>, n))"

definition sysf_reserve_at_end_amap ::
    "ub_cursor \<Rightarrow> nat \<Rightarrow> bool \<Rightarrow> (nat option \<times> ub_cursor \<times> nat) option" where
  "sysf_reserve_at_end_amap c io_size whole =
     (if uc_ub c = [] then None
      else let b = last (uc_ub c);
               pre = uc_pre c @ butlast (uc_ub c);
               min_rsrv = (if whole then int io_size else 1)
           in if RefCnt b > 1 \<or> space_left b < min_rsrv then
                (case sysf_alloc_pkt (pool_ops b) (uc_mem c) of
                   None \<Rightarrow> Some (None, \<lparr>uc_pre = pre @ [b], uc_ub = [], uc_mem = uc_mem c\<rparr>, io_size)
                 | Some (nb, mem') \<Rightarrow> reserve_in (pre @ [b]) nb mem' io_size whole)
              else reserve_in pre b (uc_mem c) io_size whole)"

definition sysf_reserve_at_end :: "ub_cursor \<Rightarrow> nat \<Rightarrow> (nat option \<times> ub_cursor) option" where
  "sysf_reserve_at_end c i_size = do {
     (ret_buf, c', io_size) \<leftarrow> sysf_reserve_at_end_amap c i_size True;
     if ret_buf \<noteq> None \<and> io_size \<noteq> i_size then None else Some (ret_buf, c') }"

function sysf_remove_from_end :: "USRBUF list \<Rightarrow> nat \<Rightarrow> USRBUF list" where
  "sysf_remove_from_end pb sz =
     (if pb = [] then []
      else if sz > 0 \<and> sysf_get_chain_len pb > 0 then
        let b = last pb; buflen = ub_count b
        in if buflen > sz then butlast pb @ [b\<lparr>ub_count := buflen - sz\<rparr>]
           else sysf_remove_from_end
             (if butlast pb \<noteq> [] then butlast pb else [b\<lparr>ub_count := 0\<rparr>]) (sz - buflen)
      else pb)"
  by pat_completeness auto
termination
proof (relation "measure (\<lambda>(pb, sz). length pb + (if sysf_get_chain_len pb > 0 then 1 else 0))")
  fix pb :: "USRBUF list" and sz :: nat and b buflen
  assume ne: "pb \<noteq> []" and len: "sz > 0 \<and> sysf_get_chain_len pb > 0"
    and b: "b = last pb" and bl: "buflen = ub_count b" and "\<not> sz < buflen"
  show "((if butlast pb \<noteq> [] then butlast pb else [b\<lparr>ub_count := 0\<rparr>], sz - buflen), pb, sz)
    \<in> measure (\<lambda>(pb, sz). length pb + (if sysf_get_chain_len pb > 0 then 1 else 0))"
    using ne len by (cases pb rule: rev_cases) (auto simp: sysf_get_chain_len_def)
qed simp

declare sysf_remove_from_end.simps [simp del]

fun sysf_remove_from_start :: "USRBUF list \<Rightarrow> nat \<Rightarrow> USRBUF list" where
  "sysf_remove_from_start [] sz = []"
| "sysf_remove_from_start (b # ch) sz =
     (if sz = 0 then b # ch
      else if ub_count b > sz then
        b\<lparr>ub_count := ub_count b - sz, ub_start := ub_start b + sz\<rparr> # ch
      else sysf_remove_from_start ch (sz - ub_count b))"

text \<open>
  The copying loop of \<open>sysf_data_at_start\<close>. The area \<open>spare\<close> of the caller has room for
  \<open>cap\<close> octets. The inner option is the returned pointer, with the octets it points to.
\<close>

fun data_gather :: "USRBUF list \<Rightarrow> nat \<Rightarrow> bytes \<Rightarrow> nat \<Rightarrow> bytes option option" where
  "data_gather [] sz spare cap = None"
| "data_gather (b # ch) sz spare cap =
     (if length spare + ub_count b > cap then None
      else let spare' = spare @ m_MMGR_DATA b; sz' = sz - ub_count b
           in case ch of
                [] \<Rightarrow> Some None
              | b' # _ \<Rightarrow>
                  (if ub_count b' \<ge> sz' then
                     (if length spare' + sz' > cap then None
                      else Some (Some (spare' @ take sz' (m_MMGR_DATA b'))))
                   else data_gather ch sz' spare' cap))"

definition sysf_data_at_start :: "USRBUF list \<Rightarrow> nat \<Rightarrow> nat \<Rightarrow> bytes option option" where
  "sysf_data_at_start pb sz cap =
     (case dropWhile (\<lambda>b. ub_count b = 0) pb of
        [] \<Rightarrow> None
      | b # ch \<Rightarrow>
          if ub_count b \<ge> sz then Some (Some (take sz (m_MMGR_DATA b)))
          else data_gather (b # ch) sz [] cap)"

section \<open>The cursor\<close>

record NCS_UBAID =
  uba_start :: bool  \<comment> \<open>whether \<open>start\<close> is not \<open>NULL\<close>\<close>
  uba_ub :: ub_cursor
  uba_res :: u32
  uba_ttl :: u32
  uba_max :: u32

definition ncs_enc_init_space_pp ::
    "NCSUB_POOL \<Rightarrow> NCS_UBAID \<Rightarrow> rc \<times> NCS_UBAID" where
  "ncs_enc_init_space_pp pool uba =
     (case sysf_alloc_pkt pool (uc_mem (uba_ub uba)) of
        None \<Rightarrow> (NCSCC_RC_FAILURE, uba\<lparr>uba_start := False\<rparr>)
      | Some (b, mem') \<Rightarrow> (NCSCC_RC_SUCCESS,
          uba\<lparr>uba_start := True, uba_ub := \<lparr>uc_pre = [], uc_ub = [b], uc_mem = mem'\<rparr>,
              uba_res := 0, uba_ttl := 0\<rparr>))"

definition ncs_enc_reserve_space :: "NCS_UBAID \<Rightarrow> nat \<Rightarrow> (nat option \<times> NCS_UBAID) option" where
  "ncs_enc_reserve_space uba res =
     (let res = (if res > PAYLOAD_BUF_SIZE then PAYLOAD_BUF_SIZE else res) in do {
        (bufp, c) \<leftarrow> sysf_reserve_at_end (uba_ub uba) res;
        Some (bufp, uba\<lparr>uba_res := of_nat res, uba_ub := c\<rparr>) })"

definition ncs_enc_claim_space :: "NCS_UBAID \<Rightarrow> u32 \<Rightarrow> NCS_UBAID" where
  "ncs_enc_claim_space uba used =
     uba\<lparr>uba_ttl := uba_ttl uba + used,
         uba_ub := (uba_ub uba)\<lparr>uc_ub :=
           sysf_remove_from_end (uc_ub (uba_ub uba)) (unat (uba_res uba - used))\<rparr>,
         uba_res := 0\<rparr>"

definition ncs_dec_init_space :: "NCS_UBAID \<Rightarrow> USRBUF list \<Rightarrow> NCS_UBAID" where
  "ncs_dec_init_space uba ch =
     uba\<lparr>uba_start := False, uba_ub := (uba_ub uba)\<lparr>uc_pre := [], uc_ub := ch\<rparr>,
         uba_res := 0, uba_ttl := 0, uba_max := of_nat (sysf_get_chain_len ch)\<rparr>"

definition ncs_dec_flatten_space :: "NCS_UBAID \<Rightarrow> nat \<Rightarrow> nat \<Rightarrow> bytes option option" where
  "ncs_dec_flatten_space uba cap count =
     (if uc_ub (uba_ub uba) = [] then Some None
      else sysf_data_at_start (uc_ub (uba_ub uba)) count cap)"

definition ncs_dec_skip_space :: "NCS_UBAID \<Rightarrow> nat \<Rightarrow> NCS_UBAID" where
  "ncs_dec_skip_space uba count =
     uba\<lparr>uba_ub := (uba_ub uba)\<lparr>uc_ub := sysf_remove_from_start (uc_ub (uba_ub uba)) count\<rparr>,
         uba_ttl := uba_ttl uba + of_nat count\<rparr>"

text \<open>
  Writing through a pointer obtained from a reservation: \<open>p\<close> is an offset in \<open>Data\<close> of the
  buffer the reservation was made in, which is the one \<open>uba->ub\<close> points to.
\<close>

fun write_octets :: "nat \<Rightarrow> bytes \<Rightarrow> NCS_UBAID \<Rightarrow> (nat \<times> NCS_UBAID) option" where
  "write_octets p [] uba = Some (p, uba)"
| "write_octets p (v # vs) uba =
     (case uc_ub (uba_ub uba) of
        [] \<Rightarrow> None
      | b # ch \<Rightarrow>
          if p \<ge> PAYLOAD_BUF_SIZE then None
          else write_octets (p + 1) vs
            (uba\<lparr>uba_ub := (uba_ub uba)\<lparr>uc_ub := b\<lparr>Data := (Data b)(p := v)\<rparr> # ch\<rparr>\<rparr>))"

text \<open>
  \<open>ncs_encode_n_octets_in_uba\<close>: the loop puts as many octets as the current buffer takes, so
  every turn but the first fills a fresh buffer; the fuel is the number of octets, and a turn
  that puts none would repeat itself for ever.
\<close>

fun put_loop :: "nat \<Rightarrow> bytes \<Rightarrow> NCS_UBAID \<Rightarrow> (rc \<times> NCS_UBAID) option" where
  "put_loop 0 os uba = (if os = [] then Some (NCSCC_RC_SUCCESS, uba) else None)"
| "put_loop (Suc k) os uba =
     (if os = [] then Some (NCSCC_RC_SUCCESS, uba)
      else do {
        (p, c, try_put) \<leftarrow> sysf_reserve_at_end_amap (uba_ub uba) (length os) False;
        case p of
          None \<Rightarrow> Some (NCSCC_RC_FAILURE, uba\<lparr>uba_ub := c\<rparr>)
        | Some p \<Rightarrow> do {
            (_, uba') \<leftarrow> write_octets p (take try_put os) (uba\<lparr>uba_ub := c\<rparr>);
            put_loop k (drop try_put os) uba' } })"

definition ncs_encode_n_octets_in_uba :: "NCS_UBAID \<Rightarrow> bytes \<Rightarrow> nat \<Rightarrow> (rc \<times> NCS_UBAID) option" where
  "ncs_encode_n_octets_in_uba uba os count =
     (if uc_ub (uba_ub uba) = [] then Some (NCSCC_RC_FAILURE, uba)
      else let (rc, uba) = (if uba_start uba then (NCSCC_RC_SUCCESS, uba)
                            else ncs_enc_init_space_pp \<lparr>hdr_reserve = 0, trlr_reserve = 0\<rparr> uba)
           in if rc \<noteq> NCSCC_RC_SUCCESS then Some (NCSCC_RC_FAILURE, uba)
              else if count > length os then None
              else do {
                (rc, uba') \<leftarrow> put_loop count (take count os) uba;
                Some (rc, if rc = NCSCC_RC_SUCCESS then uba'\<lparr>uba_ttl := uba_ttl uba' + of_nat count\<rparr>
                          else uba') })"

text \<open>The target area \<open>os\<close> has room for \<open>cap\<close> octets; the result has the octets stored there.\<close>

definition ncs_decode_n_octets_from_uba ::
    "NCS_UBAID \<Rightarrow> nat \<Rightarrow> nat \<Rightarrow> (rc \<times> bytes \<times> NCS_UBAID) option" where
  "ncs_decode_n_octets_from_uba uba cap count =
     (let c = uba_ub uba in
      if \<not> uba_start uba \<and> uc_ub c = [] then Some (NCSCC_RC_FAILURE, [], uba)
      else let uba = (if uba_start uba then ncs_dec_init_space uba (uc_pre c @ uc_ub c) else uba)
           in do {
             p8 \<leftarrow> ncs_dec_flatten_space uba cap count;
             os \<leftarrow> (case p8 of
                       None \<Rightarrow> if count = 0 then Some [] else None
                     | Some bs \<Rightarrow> if count > cap then None else Some bs);
             Some (NCSCC_RC_SUCCESS, os, ncs_dec_skip_space uba count) })"

end
