(* ===== verification/Octets.thy ===== *)
theory Octets
  imports Usrbuf
begin

text \<open>
  Integers in network order (\<open>base/hj_enc.c\<close>, \<open>base/hj_dec.c\<close>): the stream encoders write
  through a pointer into the buffer of the cursor, the stream decoders read from the octets a
  flattened pointer gives, and the \<open>osaf_encode_\<close>/\<open>osaf_decode_\<close> functions do the reservation
  and the flattening themselves. Reading more octets than were flattened is a fault.
\<close>

named_theorems wire_simps \<open>evaluation of encoders and decoders\<close>

section \<open>Octets of an integer, most significant first\<close>

definition octets8 :: "u32 \<Rightarrow> bytes" where
  "octets8 val = [ucast val]"

definition octets16 :: "u32 \<Rightarrow> bytes" where
  "octets16 val = [ucast (drop_bit 8 val), ucast val]"

definition octets24 :: "u32 \<Rightarrow> bytes" where
  "octets24 val = [ucast (drop_bit 16 val), ucast (drop_bit 8 val), ucast val]"

definition octets32 :: "u32 \<Rightarrow> bytes" where
  "octets32 val = [ucast (drop_bit 24 val), ucast (drop_bit 16 val), ucast (drop_bit 8 val), ucast val]"

definition octets64 :: "u64 \<Rightarrow> bytes" where
  "octets64 val = [ucast (drop_bit 56 val), ucast (drop_bit 48 val), ucast (drop_bit 40 val),
     ucast (drop_bit 32 val), ucast (drop_bit 24 val), ucast (drop_bit 16 val),
     ucast (drop_bit 8 val), ucast val]"

section \<open>Stream encoders\<close>

definition ncs_encode_8bit :: "nat \<Rightarrow> u32 \<Rightarrow> NCS_UBAID \<Rightarrow> (nat \<times> NCS_UBAID) option" where
  "ncs_encode_8bit stream val = write_octets stream (octets8 val)"

definition ncs_encode_16bit :: "nat \<Rightarrow> u32 \<Rightarrow> NCS_UBAID \<Rightarrow> (nat \<times> NCS_UBAID) option" where
  "ncs_encode_16bit stream val = write_octets stream (octets16 val)"

definition ncs_encode_24bit :: "nat \<Rightarrow> u32 \<Rightarrow> NCS_UBAID \<Rightarrow> (nat \<times> NCS_UBAID) option" where
  "ncs_encode_24bit stream val = write_octets stream (octets24 val)"

definition ncs_encode_32bit :: "nat \<Rightarrow> u32 \<Rightarrow> NCS_UBAID \<Rightarrow> (nat \<times> NCS_UBAID) option" where
  "ncs_encode_32bit stream val = write_octets stream (octets32 val)"

definition ncs_encode_64bit :: "nat \<Rightarrow> u64 \<Rightarrow> NCS_UBAID \<Rightarrow> (nat \<times> NCS_UBAID) option" where
  "ncs_encode_64bit stream val = write_octets stream (octets64 val)"

section \<open>Stream decoders\<close>

fun next_octet :: "bytes \<Rightarrow> (u8 \<times> bytes) option" where
  "next_octet [] = None"
| "next_octet (b # bs) = Some (b, bs)"

definition ncs_decode_8bit :: "bytes \<Rightarrow> (u8 \<times> bytes) option" where
  "ncs_decode_8bit stream = do {
     (b0, stream) \<leftarrow> next_octet stream;
     let val = (ucast b0 :: u32);
     Some (ucast (val AND 0x000000FF), stream) }"

definition ncs_decode_16bit :: "bytes \<Rightarrow> (u16 \<times> bytes) option" where
  "ncs_decode_16bit stream = do {
     (b0, stream) \<leftarrow> next_octet stream;
     (b1, stream) \<leftarrow> next_octet stream;
     let val = push_bit 8 (ucast b0 :: u32) OR ucast b1;
     Some (ucast (val AND 0x0000FFFF), stream) }"

definition ncs_decode_24bit :: "bytes \<Rightarrow> (u32 \<times> bytes) option" where
  "ncs_decode_24bit stream = do {
     (b0, stream) \<leftarrow> next_octet stream;
     (b1, stream) \<leftarrow> next_octet stream;
     (b2, stream) \<leftarrow> next_octet stream;
     let val = push_bit 16 (ucast b0 :: u32) OR push_bit 8 (ucast b1) OR ucast b2;
     Some (val AND 0x00FFFFFF, stream) }"

definition ncs_decode_32bit :: "bytes \<Rightarrow> (u32 \<times> bytes) option" where
  "ncs_decode_32bit stream = do {
     (b0, stream) \<leftarrow> next_octet stream;
     (b1, stream) \<leftarrow> next_octet stream;
     (b2, stream) \<leftarrow> next_octet stream;
     (b3, stream) \<leftarrow> next_octet stream;
     Some (push_bit 24 (ucast b0) OR push_bit 16 (ucast b1) OR push_bit 8 (ucast b2) OR ucast b3,
       stream) }"

definition ncs_decode_64bit :: "bytes \<Rightarrow> (u64 \<times> bytes) option" where
  "ncs_decode_64bit stream = do {
     (b0, stream) \<leftarrow> next_octet stream;
     (b1, stream) \<leftarrow> next_octet stream;
     (b2, stream) \<leftarrow> next_octet stream;
     (b3, stream) \<leftarrow> next_octet stream;
     (b4, stream) \<leftarrow> next_octet stream;
     (b5, stream) \<leftarrow> next_octet stream;
     (b6, stream) \<leftarrow> next_octet stream;
     (b7, stream) \<leftarrow> next_octet stream;
     Some (push_bit 56 (ucast b0) OR push_bit 48 (ucast b1) OR push_bit 40 (ucast b2) OR
           push_bit 32 (ucast b3) OR push_bit 24 (ucast b4) OR push_bit 16 (ucast b5) OR
           push_bit 8 (ucast b6) OR ucast b7, stream) }"

section \<open>Encoding with reservation\<close>

definition encode_reserve_space :: "NCS_UBAID \<Rightarrow> nat \<Rightarrow> (nat \<times> NCS_UBAID) option" where
  "encode_reserve_space ub count = do {
     (p8, ub) \<leftarrow> ncs_enc_reserve_space ub count;
     p8 \<leftarrow> p8;
     Some (p8, ub) }"

definition decode_flatten_space :: "NCS_UBAID \<Rightarrow> nat \<Rightarrow> nat \<Rightarrow> bytes option" where
  "decode_flatten_space uba cap count = do {
     p8 \<leftarrow> ncs_dec_flatten_space uba cap count;
     p8 }"

definition osaf_encode_uint8 :: "NCS_UBAID \<Rightarrow> u8 \<Rightarrow> NCS_UBAID option" where
  "osaf_encode_uint8 ub v = do {
     (p8, ub) \<leftarrow> encode_reserve_space ub 1;
     (p8, ub) \<leftarrow> ncs_encode_8bit p8 (ucast v) ub;
     Some (ncs_enc_claim_space ub 1) }"

definition osaf_encode_uint16 :: "NCS_UBAID \<Rightarrow> u16 \<Rightarrow> NCS_UBAID option" where
  "osaf_encode_uint16 ub v = do {
     (p8, ub) \<leftarrow> encode_reserve_space ub 2;
     (p8, ub) \<leftarrow> ncs_encode_16bit p8 (ucast v) ub;
     Some (ncs_enc_claim_space ub 2) }"

definition osaf_encode_uint32 :: "NCS_UBAID \<Rightarrow> u32 \<Rightarrow> NCS_UBAID option" where
  "osaf_encode_uint32 ub v = do {
     (p8, ub) \<leftarrow> encode_reserve_space ub 4;
     (p8, ub) \<leftarrow> ncs_encode_32bit p8 v ub;
     Some (ncs_enc_claim_space ub 4) }"

definition osaf_encode_uint64 :: "NCS_UBAID \<Rightarrow> u64 \<Rightarrow> NCS_UBAID option" where
  "osaf_encode_uint64 ub v = do {
     (p8, ub) \<leftarrow> encode_reserve_space ub 8;
     (p8, ub) \<leftarrow> ncs_encode_64bit p8 v ub;
     Some (ncs_enc_claim_space ub 8) }"

definition osaf_decode_uint8 :: "NCS_UBAID \<Rightarrow> (u8 \<times> NCS_UBAID) option" where
  "osaf_decode_uint8 ub = do {
     p8 \<leftarrow> decode_flatten_space ub 1 1;
     (v, p8) \<leftarrow> ncs_decode_8bit p8;
     Some (v, ncs_dec_skip_space ub 1) }"

definition osaf_decode_uint16 :: "NCS_UBAID \<Rightarrow> (u16 \<times> NCS_UBAID) option" where
  "osaf_decode_uint16 ub = do {
     p8 \<leftarrow> decode_flatten_space ub 2 2;
     (v, p8) \<leftarrow> ncs_decode_16bit p8;
     Some (v, ncs_dec_skip_space ub 2) }"

definition osaf_decode_uint32 :: "NCS_UBAID \<Rightarrow> (u32 \<times> NCS_UBAID) option" where
  "osaf_decode_uint32 ub = do {
     p8 \<leftarrow> decode_flatten_space ub 4 4;
     (v, p8) \<leftarrow> ncs_decode_32bit p8;
     Some (v, ncs_dec_skip_space ub 4) }"

definition osaf_decode_uint64 :: "NCS_UBAID \<Rightarrow> (u64 \<times> NCS_UBAID) option" where
  "osaf_decode_uint64 ub = do {
     p8 \<leftarrow> decode_flatten_space ub 8 8;
     (v, p8) \<leftarrow> ncs_decode_64bit p8;
     Some (v, ncs_dec_skip_space ub 8) }"

definition osaf_encode_satimet :: "NCS_UBAID \<Rightarrow> u64 \<Rightarrow> NCS_UBAID option" where
  "osaf_encode_satimet ub time = osaf_encode_uint64 ub time"

definition osaf_decode_satimet :: "NCS_UBAID \<Rightarrow> (u64 \<times> NCS_UBAID) option" where
  "osaf_decode_satimet ub = osaf_decode_uint64 ub"

definition osaf_encode_bool :: "NCS_UBAID \<Rightarrow> bool \<Rightarrow> NCS_UBAID option" where
  "osaf_encode_bool ub v = osaf_encode_uint32 ub (if v then 1 else 0)"

definition osaf_decode_bool :: "NCS_UBAID \<Rightarrow> (bool \<times> NCS_UBAID) option" where
  "osaf_decode_bool ub = do {
     (v, ub) \<leftarrow> osaf_decode_uint32 ub;
     Some (v \<noteq> 0, ub) }"

section \<open>Decoding gives back what was encoded\<close>

lemma length_octets [simp, wire_simps]:
  "length (octets8 a) = 1" "length (octets16 a) = 2" "length (octets24 a) = 3"
  "length (octets32 a) = 4" "length (octets64 b) = 8"
  by (simp_all add: octets8_def octets16_def octets24_def octets32_def octets64_def)

lemma octet_bits:
  "push_bit k (ucast (ucast (drop_bit k a) :: u8) :: 'a::len word) = a AND push_bit k (mask 8)"
  by (rule bit_eqI) (auto simp: bit_simps)

lemma octet_bits_0: "(ucast (ucast a :: u8) :: 'a::len word) = a AND mask 8"
  by (rule bit_eqI) (auto simp: bit_simps)

lemma or_and: "(a AND x) OR (a AND y) = a AND (x OR y)" for a :: "'a::len word"
  by (simp add: bit.conj_disj_distrib)

lemma octets_join_16:
  "push_bit 8 (ucast (ucast (drop_bit 8 a) :: u8)) OR ucast (ucast a :: u8) = (a::u32) AND 0xFFFF"
proof -
  have "push_bit 8 (mask 8) OR mask 8 = (0xFFFF::u32)" by code_simp
  then show ?thesis unfolding octet_bits unfolding octet_bits_0 or_and by (simp only:)
qed

lemma octets_join_24:
  "push_bit 16 (ucast (ucast (drop_bit 16 a) :: u8)) OR push_bit 8 (ucast (ucast (drop_bit 8 a) :: u8))
   OR ucast (ucast a :: u8) = (a::u32) AND 0xFFFFFF"
proof -
  have "push_bit 16 (mask 8) OR push_bit 8 (mask 8) OR mask 8 = (0xFFFFFF::u32)" by code_simp
  then show ?thesis unfolding octet_bits unfolding octet_bits_0 or_and by (simp only:)
qed

lemma octets_join_32:
  "push_bit 24 (ucast (ucast (drop_bit 24 a) :: u8)) OR push_bit 16 (ucast (ucast (drop_bit 16 a) :: u8))
   OR push_bit 8 (ucast (ucast (drop_bit 8 a) :: u8)) OR ucast (ucast a :: u8) = (a::u32)"
proof -
  have "push_bit 24 (mask 8) OR push_bit 16 (mask 8) OR push_bit 8 (mask 8) OR mask 8 = (- 1::u32)"
    by code_simp
  then have "a AND (push_bit 24 (mask 8) OR push_bit 16 (mask 8) OR push_bit 8 (mask 8) OR mask 8) = a"
    by (simp only: and.right_neutral)
  then show ?thesis unfolding octet_bits unfolding octet_bits_0 or_and .
qed

lemma octets_join_64:
  "push_bit 56 (ucast (ucast (drop_bit 56 a) :: u8)) OR push_bit 48 (ucast (ucast (drop_bit 48 a) :: u8))
   OR push_bit 40 (ucast (ucast (drop_bit 40 a) :: u8)) OR push_bit 32 (ucast (ucast (drop_bit 32 a) :: u8))
   OR push_bit 24 (ucast (ucast (drop_bit 24 a) :: u8)) OR push_bit 16 (ucast (ucast (drop_bit 16 a) :: u8))
   OR push_bit 8 (ucast (ucast (drop_bit 8 a) :: u8)) OR ucast (ucast a :: u8) = (a::u64)"
proof -
  have "push_bit 56 (mask 8) OR push_bit 48 (mask 8) OR push_bit 40 (mask 8) OR push_bit 32 (mask 8) OR
     push_bit 24 (mask 8) OR push_bit 16 (mask 8) OR push_bit 8 (mask 8) OR mask 8 = (- 1::u64)"
    by code_simp
  then have "a AND (push_bit 56 (mask 8) OR push_bit 48 (mask 8) OR push_bit 40 (mask 8) OR
     push_bit 32 (mask 8) OR push_bit 24 (mask 8) OR push_bit 16 (mask 8) OR push_bit 8 (mask 8) OR
     mask 8) = a"
    by (simp only: and.right_neutral)
  then show ?thesis unfolding octet_bits unfolding octet_bits_0 or_and .
qed

lemma ucast_and_FFFF: "ucast ((a::u32) AND 0xFFFF AND 0xFFFF) = (ucast a :: u16)"
proof -
  have "(0xFFFF::u32) = mask 16" by code_simp
  then show ?thesis unfolding \<open>(0xFFFF::u32) = mask 16\<close>
    by (intro bit_eqI) (auto simp: bit_and_iff bit_unsigned_iff bit_mask_iff)
qed

lemma ucast_and_FF: "ucast ((ucast b :: u32) AND 0xFF) = (b :: u8)"
proof -
  have "(0xFF::u32) = mask 8" by code_simp
  then show ?thesis unfolding \<open>(0xFF::u32) = mask 8\<close>
    by (intro bit_eqI) (auto simp: bit_and_iff bit_unsigned_iff bit_mask_iff)
qed

lemma decode_octets8 [wire_simps]:
  "ncs_decode_8bit (octets8 a @ r) = Some (ucast a, r)"
  unfolding ncs_decode_8bit_def octets8_def by (simp add: ucast_and_FF)

lemma decode_octets16 [wire_simps]:
  "ncs_decode_16bit (octets16 a @ r) = Some (ucast a, r)"
  unfolding ncs_decode_16bit_def octets16_def
  by (simp only: append_Cons next_octet.simps Option.bind.bind_lunit prod.case Let_def octets_join_16
      append_Nil and.assoc ucast_and_FFFF)

lemma decode_octets24 [wire_simps]:
  "ncs_decode_24bit (octets24 a @ r) = Some (a AND 0xFFFFFF, r)"
  unfolding ncs_decode_24bit_def octets24_def
  by (simp only: append_Cons next_octet.simps Option.bind.bind_lunit prod.case Let_def octets_join_24
      append_Nil and.assoc and.idem)

lemma decode_octets32 [wire_simps]:
  "ncs_decode_32bit (octets32 a @ r) = Some (a, r)"
  unfolding ncs_decode_32bit_def octets32_def
  by (simp only: append_Cons next_octet.simps Option.bind.bind_lunit prod.case octets_join_32 append_Nil)

lemma decode_octets64 [wire_simps]:
  "ncs_decode_64bit (octets64 a @ r) = Some (a, r)"
  unfolding ncs_decode_64bit_def octets64_def
  by (simp only: append_Cons next_octet.simps Option.bind.bind_lunit prod.case octets_join_64 append_Nil)

end
