(* ===== verification/Uba_View.thy ===== *)
theory Uba_View
  imports Octets
begin

text \<open>
  What a cursor contains: an encoder that reserves, writes and claims a block of octets appends
  it to the octets of the chain, and a decoder that flattens and skips a block takes it off the
  front of them.
\<close>

section \<open>Appending\<close>

definition uba_bytes :: "NCS_UBAID \<Rightarrow> bytes" where
  "uba_bytes u = chain_bytes (uc_pre (uba_ub u) @ uc_ub (uba_ub u))"

text \<open>The current buffer is not shared and has room for \<open>n\<close> octets.\<close>

definition room :: "nat \<Rightarrow> NCS_UBAID \<Rightarrow> bool" where
  "room n u \<longleftrightarrow> uba_start u \<and> n \<le> PAYLOAD_BUF_SIZE \<and>
     (case uc_ub (uba_ub u) of [b] \<Rightarrow> RefCnt b \<le> 1 \<and> space_left b \<ge> int n | _ \<Rightarrow> False)"

definition data_set :: "payload_block \<Rightarrow> nat \<Rightarrow> bytes \<Rightarrow> payload_block" where
  "data_set d p bs = (\<lambda>i. if p \<le> i \<and> i < p + length bs then bs ! (i - p) else d i)"

text \<open>The cursor while a block of \<open>n\<close> octets is reserved and \<open>w\<close> has been written.\<close>

definition writing :: "NCS_UBAID \<Rightarrow> nat \<Rightarrow> bytes \<Rightarrow> NCS_UBAID" where
  "writing u n w = (let b = hd (uc_ub (uba_ub u)) in
     u\<lparr>uba_ub := (uba_ub u)\<lparr>uc_ub := [b\<lparr>Data := data_set (Data b) (ub_start b + ub_count b) w,
          ub_count := ub_count b + n\<rparr>]\<rparr>, uba_res := of_nat n\<rparr>)"

definition write_pos :: "NCS_UBAID \<Rightarrow> nat" where
  "write_pos u = (let b = hd (uc_ub (uba_ub u)) in ub_start b + ub_count b)"

definition appended :: "NCS_UBAID \<Rightarrow> bytes \<Rightarrow> NCS_UBAID" where
  "appended u w = (writing u (length w) w)\<lparr>uba_res := 0, uba_ttl := uba_ttl u + of_nat (length w)\<rparr>"

lemma data_set_Nil [simp]: "data_set d p [] = d"
  by (auto simp: data_set_def fun_eq_iff)

lemma data_set_snoc: "data_set d p (w @ [v]) = (data_set d p w)(p + length w := v)"
  by (auto simp: data_set_def fun_eq_iff nth_append)

lemma data_set_append: "data_set (data_set d p v) (p + length v) w = data_set d p (v @ w)"
  by (auto simp: data_set_def fun_eq_iff nth_append)

lemma room_mono: "room n u \<Longrightarrow> m \<le> n \<Longrightarrow> room m u"
  by (auto simp: room_def split: list.splits)

lemma reserve_room [wire_simps]:
  assumes "room n u"
  shows "ncs_enc_reserve_space u n = Some (Some (write_pos u), writing u n [])"
  using assms
  by (auto simp: room_def ncs_enc_reserve_space_def sysf_reserve_at_end_def sysf_reserve_at_end_amap_def
      reserve_in_def writing_def write_pos_def Let_def split: list.splits)

lemma write_one:
  assumes "room n u" "length w < n"
  shows "write_octets (write_pos u + length w) (v # vs) (writing u n w) =
    write_octets (write_pos u + length (w @ [v])) vs (writing u n (w @ [v]))"
proof -
  obtain b where b: "uc_ub (uba_ub u) = [b]" "write_pos u + length w < PAYLOAD_BUF_SIZE"
    using assms by (auto simp: room_def write_pos_def Let_def space_left_def split: list.splits)
  show ?thesis
  proof (cases u)
    case (fields st c r t m)
    show ?thesis using b
      by (cases b) (cases c, simp add: fields writing_def write_pos_def Let_def data_set_snoc)
  qed
qed

lemma write_octets_writing:
  assumes "room n u" "length w + length xs \<le> n"
  shows "write_octets (write_pos u + length w) xs (writing u n w) =
    Some (write_pos u + length w + length xs, writing u n (w @ xs))"
  using assms
proof (induction xs arbitrary: w)
  case (Cons v vs)
  then have "write_octets (write_pos u + length (w @ [v])) vs (writing u n (w @ [v])) =
      Some (write_pos u + length (w @ [v]) + length vs, writing u n ((w @ [v]) @ vs))"
    by (intro Cons.IH) auto
  moreover have "length w < n" using Cons.prems by simp
  ultimately show ?case unfolding write_one[OF Cons.prems(1) \<open>length w < n\<close>] by simp
qed simp

lemma write_step [wire_simps]:
  assumes "room n u" "p = write_pos u + length w" "length w + length xs \<le> n"
  shows "write_octets p xs (writing u n w) = Some (p + length xs, writing u n (w @ xs))"
  using write_octets_writing assms by simp

lemma remove_nothing [simp]: "sysf_remove_from_end pb 0 = pb"
  by (subst sysf_remove_from_end.simps) simp

lemma claim_writing [wire_simps]:
  assumes "length w = n" "used = of_nat n"
  shows "ncs_enc_claim_space (writing u n w) used = appended u w"
  using assms by (simp add: ncs_enc_claim_space_def appended_def writing_def Let_def)

lemma room_appended [wire_simps]:
  assumes "room n u" "m + length w \<le> n"
  shows "room m (appended u w)"
  using assms
  by (auto simp: room_def appended_def writing_def Let_def space_left_def split: list.splits)

lemma appended_appended [wire_simps]:
  assumes "room n u"
  shows "appended (appended u v) w = appended u (v @ w)"
proof -
  obtain b where b: "uc_ub (uba_ub u) = [b]"
    using assms by (auto simp: room_def split: list.splits)
  show ?thesis
    by (simp add: appended_def writing_def Let_def b data_set_append [symmetric] add.assoc)
qed

lemma data_appended:
  "m_MMGR_DATA (b\<lparr>Data := data_set (Data b) (ub_start b + ub_count b) w, ub_count := ub_count b + length w\<rparr>)
   = m_MMGR_DATA b @ w"
  by (rule nth_equalityI) (auto simp: m_MMGR_DATA_def data_set_def nth_append)

lemma uba_bytes_appended:
  assumes "room n u"
  shows "uba_bytes (appended u w) = uba_bytes u @ w"
  using assms
  by (auto simp: room_def uba_bytes_def appended_def writing_def Let_def chain_bytes_def data_appended
      split: list.splits)

lemma appended_Nil:
  assumes "room n u" "uba_res u = 0"
  shows "appended u [] = u"
  using assms by (auto simp: room_def appended_def writing_def Let_def split: list.splits)

lemma write_octets_res:
  "write_octets p xs (u\<lparr>uba_res := r\<rparr>) =
     map_option (\<lambda>(q, v). (q, v\<lparr>uba_res := r\<rparr>)) (write_octets p xs u)"
proof (induction xs arbitrary: p u)
  case (Cons x xs)
  show ?case
  proof (cases "uc_ub (uba_ub u)")
    case (Cons b ch)
    have swap: "u\<lparr>uba_res := r, uba_ub := c\<rparr> = u\<lparr>uba_ub := c, uba_res := r\<rparr>" for c by simp
    show ?thesis using Cons by (simp add: swap Cons.IH)
  qed simp
qed simp

lemma put_loop_Nil: "put_loop k [] u = Some (NCSCC_RC_SUCCESS, u)"
  by (cases k) simp_all

lemma put_octets_room:
  assumes "room n u" "uba_res u = 0" "count \<le> n" "count \<le> length os"
  shows "ncs_encode_n_octets_in_uba u os count = Some (NCSCC_RC_SUCCESS, appended u (take count os))"
proof -
  obtain b where b: "uc_ub (uba_ub u) = [b]" "RefCnt b \<le> 1" "space_left b \<ge> int n" "uba_start u"
    using assms(1) by (auto simp: room_def split: list.splits)
  show ?thesis
  proof (cases count)
    case 0
    then show ?thesis using b assms by (simp add: ncs_encode_n_octets_in_uba_def appended_Nil)
  next
    case (Suc k)
    define w where "w = take count os"
    define u1 where "u1 = writing u count []"
    have len: "length w = count" using assms by (simp add: w_def)
    then have ne: "w \<noteq> []" using Suc by auto
    obtain c where r: "sysf_reserve_at_end_amap (uba_ub u) count False = Some (Some (write_pos u), c, count)"
      and c: "u\<lparr>uba_ub := c\<rparr> = u1\<lparr>uba_res := 0\<rparr>"
      using b assms Suc
      by (cases u) (auto simp: sysf_reserve_at_end_amap_def reserve_in_def Let_def writing_def write_pos_def u1_def)
    have "write_octets (write_pos u) w (writing u count []) =
        Some (write_pos u + count, writing u count w)"
      using write_octets_writing[OF room_mono[OF assms(1,3)], of "[]" w] len by simp
    then have "write_octets (write_pos u) w (u1\<lparr>uba_res := 0\<rparr>) =
        Some (write_pos u + count, (writing u count w)\<lparr>uba_res := 0\<rparr>)"
      by (simp add: write_octets_res u1_def len)
    then have loop: "put_loop count w u = Some (NCSCC_RC_SUCCESS, (writing u count w)\<lparr>uba_res := 0\<rparr>)"
      using ne unfolding Suc put_loop.simps unfolding len r
      by (simp add: c len put_loop_Nil del: bind_Some_iff)
    show ?thesis using b assms len
      by (simp add: ncs_encode_n_octets_in_uba_def loop w_def [symmetric] appended_def writing_def Let_def)
  qed
qed

section \<open>Reading\<close>

text \<open>The chain at the decode cursor is one buffer with the octets \<open>bs\<close>, or \<open>NULL\<close> when they are used up.\<close>

definition reading :: "NCS_UBAID \<Rightarrow> bytes \<Rightarrow> bool" where
  "reading u bs \<longleftrightarrow> \<not> uba_start u \<and>
     (if bs = [] then uc_ub (uba_ub u) = []
      else case uc_ub (uba_ub u) of [b] \<Rightarrow> m_MMGR_DATA b = bs | _ \<Rightarrow> False)"

lemma length_data [simp]: "length (m_MMGR_DATA b) = ub_count b"
  by (simp add: m_MMGR_DATA_def)

lemma flatten_reading [wire_simps]:
  assumes "reading u (xs @ ys)" "length xs = n" "0 < n"
  shows "ncs_dec_flatten_space u cap n = Some (Some xs)"
proof -
  obtain b where b: "uc_ub (uba_ub u) = [b]" "m_MMGR_DATA b = xs @ ys"
    using assms by (auto simp: reading_def split: list.splits if_splits)
  then have "ub_count b = n + length ys" using assms by (metis length_append length_data)
  then show ?thesis using b assms by (simp add: ncs_dec_flatten_space_def sysf_data_at_start_def)
qed

lemma skip_reading:
  assumes "reading u (xs @ ys)" "length xs = n" "0 < n"
  shows "reading (ncs_dec_skip_space u n) ys"
proof -
  obtain b where b: "uc_ub (uba_ub u) = [b]" "m_MMGR_DATA b = xs @ ys" and st: "\<not> uba_start u"
    using assms by (auto simp: reading_def split: list.splits if_splits)
  then have c: "ub_count b = n + length ys" using assms by (metis length_append length_data)
  show ?thesis
  proof (cases "ys = []")
    case True
    then show ?thesis using b c st assms by (simp add: reading_def ncs_dec_skip_space_def)
  next
    case False
    have "m_MMGR_DATA (b\<lparr>ub_count := ub_count b - n, ub_start := ub_start b + n\<rparr>) = drop n (m_MMGR_DATA b)"
      by (rule nth_equalityI) (auto simp: m_MMGR_DATA_def add.assoc)
    then show ?thesis using False b c st assms by (simp add: reading_def ncs_dec_skip_space_def)
  qed
qed

lemma take_octets_reading:
  assumes "reading u (xs @ ys)" "length xs = n" "0 < n" "n \<le> cap"
  shows "ncs_decode_n_octets_from_uba u cap n = Some (NCSCC_RC_SUCCESS, xs, ncs_dec_skip_space u n)"
proof -
  have "\<not> uba_start u" "uc_ub (uba_ub u) \<noteq> []"
    using assms by (auto simp: reading_def split: list.splits if_splits)
  then show ?thesis
    using assms flatten_reading[OF assms(1-3)] by (simp add: ncs_decode_n_octets_from_uba_def Let_def)
qed

lemma reading_init:
  "m_MMGR_DATA b = bs \<Longrightarrow> bs \<noteq> [] \<Longrightarrow> reading (ncs_dec_init_space u [b]) bs"
  by (simp add: reading_def ncs_dec_init_space_def)

end
