(* ===== verification/Gla_Wire.thy ===== *)
theory Gla_Wire
  imports Uba_View Glsv_Data
begin

text \<open>
  The protocol between the lock agent and the lock node director: the requests
  \<open>lck/agent/gla_mds.c\<close> encodes and \<open>lck/lcknd/glnd_mds.c\<close> decodes, and the responses and
  callbacks that travel the other way. The structures are those of \<open>glnd_evt.h\<close>, \<open>gla_evt.h\<close>
  and \<open>gla_callbk.h\<close>; a field that is an enumeration is the 32-bit value that is put on the wire,
  and \<open>SaTimeT\<close> is its 64 bits. A union is a datatype with a constructor per member; reading a
  member other than the one that was stored is a fault.
\<close>

section \<open>Requests\<close>

definition GLSV_GLND_EVT_REG_AGENT :: u32 where "GLSV_GLND_EVT_REG_AGENT = 1"
definition GLSV_GLND_EVT_UNREG_AGENT :: u32 where "GLSV_GLND_EVT_UNREG_AGENT = 2"
definition GLSV_GLND_EVT_INITIALIZE :: u32 where "GLSV_GLND_EVT_INITIALIZE = 3"
definition GLSV_GLND_EVT_FINALIZE :: u32 where "GLSV_GLND_EVT_FINALIZE = 4"
definition GLSV_GLND_EVT_RSC_OPEN :: u32 where "GLSV_GLND_EVT_RSC_OPEN = 5"
definition GLSV_GLND_EVT_RSC_CLOSE :: u32 where "GLSV_GLND_EVT_RSC_CLOSE = 6"
definition GLSV_GLND_EVT_RSC_LOCK :: u32 where "GLSV_GLND_EVT_RSC_LOCK = 7"
definition GLSV_GLND_EVT_RSC_UNLOCK :: u32 where "GLSV_GLND_EVT_RSC_UNLOCK = 8"
definition GLSV_GLND_EVT_RSC_PURGE :: u32 where "GLSV_GLND_EVT_RSC_PURGE = 9"
definition GLSV_GLND_EVT_CLIENT_INFO :: u32 where "GLSV_GLND_EVT_CLIENT_INFO = 10"
definition GLSV_GLND_EVT_LIMIT_GET :: u32 where "GLSV_GLND_EVT_LIMIT_GET = 32"

lemmas evt_type_defs = GLSV_GLND_EVT_REG_AGENT_def GLSV_GLND_EVT_UNREG_AGENT_def
  GLSV_GLND_EVT_INITIALIZE_def GLSV_GLND_EVT_FINALIZE_def GLSV_GLND_EVT_RSC_OPEN_def
  GLSV_GLND_EVT_RSC_CLOSE_def GLSV_GLND_EVT_RSC_LOCK_def GLSV_GLND_EVT_RSC_UNLOCK_def
  GLSV_GLND_EVT_RSC_PURGE_def GLSV_GLND_EVT_CLIENT_INFO_def GLSV_GLND_EVT_LIMIT_GET_def

record SaVersionT =
  releaseCode :: u8
  majorVersion :: u8
  minorVersion :: u8

record GLSV_EVT_AGENT_INFO =
  ai_process_id :: u32
  ai_agent_mds_dest :: MDS_DEST

record GLSV_EVT_CLIENT_INFO =
  ci_client_proc_id :: u32
  ci_agent_mds_dest :: MDS_DEST
  ci_version :: SaVersionT
  ci_cbk_reg_info :: u16

record GLSV_EVT_FINALIZE_INFO =
  fi_agent_mds_dest :: MDS_DEST
  fi_handle_id :: u64

record GLSV_EVT_RSC_INFO =
  rs_client_handle_id :: u64
  rs_agent_mds_dest :: MDS_DEST
  rs_resource_name :: SaNameT
  rs_resource_id :: u32
  rs_lcl_resource_id :: u32
  rs_lcl_lockid :: u64
  rs_lcl_resource_id_count :: u32
  rs_invocation :: u64
  rs_call_type :: u32
  rs_timeout :: u64
  rs_flag :: u32

record GLSV_EVT_RESTART_CLIENT_INFO =
  rc_client_handle_id :: u64
  rc_app_proc_id :: u32
  rc_agent_mds_dest :: MDS_DEST
  rc_version :: SaVersionT
  rc_cbk_reg_info :: u16
  rc_no_of_res :: u32
  rc_resource_id :: u32

record GLSV_EVT_RSC_LOCK_INFO =
  rl_client_handle_id :: u64
  rl_agent_mds_dest :: MDS_DEST
  rl_resource_id :: u32
  rl_lcl_resource_id :: u32
  rl_lcl_lockid :: u64
  rl_invocation :: u64
  rl_lock_type :: u32
  rl_timeout :: u64
  rl_lockFlags :: u32
  rl_call_type :: u32
  rl_status :: u32
  rl_waiter_signal :: u64

record GLSV_EVT_RSC_UNLOCK_INFO =
  ul_client_handle_id :: u64
  ul_agent_mds_dest :: MDS_DEST
  ul_resource_id :: u32
  ul_lcl_resource_id :: u32
  ul_lockid :: u64
  ul_lcl_lockid :: u64
  ul_invocation :: u64
  ul_call_type :: u32
  ul_timeout :: u64

record GLND_EVT_GLND_LIMIT_GET =
  lg_agent_mds_dest :: MDS_DEST
  lg_handle_id :: u64

datatype glnd_evt_info =
    Info_zero
  | Agent_info GLSV_EVT_AGENT_INFO
  | Client_info GLSV_EVT_CLIENT_INFO
  | Restart_client_info GLSV_EVT_RESTART_CLIENT_INFO
  | Finalize_info GLSV_EVT_FINALIZE_INFO
  | Rsc_info GLSV_EVT_RSC_INFO
  | Rsc_lock_info GLSV_EVT_RSC_LOCK_INFO
  | Rsc_unlock_info GLSV_EVT_RSC_UNLOCK_INFO
  | Limit_get GLND_EVT_GLND_LIMIT_GET

record GLSV_GLND_EVT =
  ne_type :: u32
  ne_priority :: u32
  ne_info :: glnd_evt_info

definition NCS_IPC_PRIORITY_NORMAL :: u32 where "NCS_IPC_PRIORITY_NORMAL = 2"

text \<open>\<open>memset(\<dots>, 0, \<dots>)\<close>; \<open>SaNameT\<close> holds \<open>SA_MAX_NAME_LENGTH\<close> octets.\<close>

definition SA_MAX_NAME_LENGTH :: nat where "SA_MAX_NAME_LENGTH = 256"

definition name_zero :: SaNameT where
  "name_zero = \<lparr>name_length = 0, name_value = replicate SA_MAX_NAME_LENGTH 0\<rparr>"

definition rsc_info_zero :: GLSV_EVT_RSC_INFO where
  "rsc_info_zero = \<lparr>rs_client_handle_id = 0, rs_agent_mds_dest = 0, rs_resource_name = name_zero,
     rs_resource_id = 0, rs_lcl_resource_id = 0, rs_lcl_lockid = 0, rs_lcl_resource_id_count = 0,
     rs_invocation = 0, rs_call_type = 0, rs_timeout = 0, rs_flag = 0\<rparr>"

section \<open>Encoding a request: \<open>gla_mds.c\<close>\<close>

definition glsv_enc_reg_unreg_agent_evt :: "NCS_UBAID \<Rightarrow> GLSV_EVT_AGENT_INFO \<Rightarrow> (rc \<times> NCS_UBAID) option" where
  "glsv_enc_reg_unreg_agent_evt uba evt = do {
     let sz = 8 + 4;
     (p8, uba) \<leftarrow> ncs_enc_reserve_space uba sz;
     case p8 of None \<Rightarrow> Some (NCSCC_RC_FAILURE, uba) | Some p8 \<Rightarrow> do {
       (p8, uba) \<leftarrow> ncs_encode_64bit p8 (ai_agent_mds_dest evt) uba;
       (p8, uba) \<leftarrow> ncs_encode_32bit p8 (ai_process_id evt) uba;
       Some (NCSCC_RC_SUCCESS, ncs_enc_claim_space uba (of_nat sz)) } }"

definition glsv_enc_initialize_evt :: "NCS_UBAID \<Rightarrow> GLSV_EVT_CLIENT_INFO \<Rightarrow> (rc \<times> NCS_UBAID) option" where
  "glsv_enc_initialize_evt uba evt = do {
     let sz = 8 + 4 + 4 + (3 * 1);
     (p8, uba) \<leftarrow> ncs_enc_reserve_space uba sz;
     case p8 of None \<Rightarrow> Some (NCSCC_RC_FAILURE, uba) | Some p8 \<Rightarrow> do {
       (p8, uba) \<leftarrow> ncs_encode_64bit p8 (ci_agent_mds_dest evt) uba;
       (p8, uba) \<leftarrow> ncs_encode_32bit p8 (ci_client_proc_id evt) uba;
       (p8, uba) \<leftarrow> ncs_encode_32bit p8 (ucast (ci_cbk_reg_info evt)) uba;
       (p8, uba) \<leftarrow> ncs_encode_8bit p8 (ucast (releaseCode (ci_version evt))) uba;
       (p8, uba) \<leftarrow> ncs_encode_8bit p8 (ucast (majorVersion (ci_version evt))) uba;
       (p8, uba) \<leftarrow> ncs_encode_8bit p8 (ucast (minorVersion (ci_version evt))) uba;
       Some (NCSCC_RC_SUCCESS, ncs_enc_claim_space uba (of_nat sz)) } }"

definition glsv_enc_finalize_evt :: "NCS_UBAID \<Rightarrow> GLSV_EVT_FINALIZE_INFO \<Rightarrow> (rc \<times> NCS_UBAID) option" where
  "glsv_enc_finalize_evt uba evt = do {
     let sz = 8 + 8;
     (p8, uba) \<leftarrow> ncs_enc_reserve_space uba sz;
     case p8 of None \<Rightarrow> Some (NCSCC_RC_FAILURE, uba) | Some p8 \<Rightarrow> do {
       (p8, uba) \<leftarrow> ncs_encode_64bit p8 (fi_agent_mds_dest evt) uba;
       (p8, uba) \<leftarrow> ncs_encode_64bit p8 (fi_handle_id evt) uba;
       Some (NCSCC_RC_SUCCESS, ncs_enc_claim_space uba (of_nat sz)) } }"

definition glsv_enc_rsc_open_evt :: "NCS_UBAID \<Rightarrow> GLSV_EVT_RSC_INFO \<Rightarrow> (rc \<times> NCS_UBAID) option" where
  "glsv_enc_rsc_open_evt uba evt = do {
     let sz = (5 * 8) + (5 * 4) + 2;
     (p8, uba) \<leftarrow> ncs_enc_reserve_space uba sz;
     case p8 of None \<Rightarrow> Some (NCSCC_RC_FAILURE, uba) | Some p8 \<Rightarrow> do {
       (p8, uba) \<leftarrow> ncs_encode_64bit p8 (rs_agent_mds_dest evt) uba;
       (p8, uba) \<leftarrow> ncs_encode_64bit p8 (rs_client_handle_id evt) uba;
       (p8, uba) \<leftarrow> ncs_encode_64bit p8 (rs_lcl_lockid evt) uba;
       (p8, uba) \<leftarrow> ncs_encode_64bit p8 (rs_timeout evt) uba;
       (p8, uba) \<leftarrow> ncs_encode_64bit p8 (rs_invocation evt) uba;
       (p8, uba) \<leftarrow> ncs_encode_32bit p8 (rs_resource_id evt) uba;
       (p8, uba) \<leftarrow> ncs_encode_32bit p8 (rs_lcl_resource_id evt) uba;
       (p8, uba) \<leftarrow> ncs_encode_32bit p8 (rs_flag evt) uba;
       (p8, uba) \<leftarrow> ncs_encode_32bit p8 (rs_call_type evt) uba;
       (p8, uba) \<leftarrow> ncs_encode_32bit p8 (rs_lcl_resource_id_count evt) uba;
       (p8, uba) \<leftarrow> ncs_encode_16bit p8 (ucast (name_length (rs_resource_name evt))) uba;
       let uba = ncs_enc_claim_space uba (of_nat sz);
       (_, uba) \<leftarrow> ncs_encode_n_octets_in_uba uba (name_value (rs_resource_name evt))
                     (unat (name_length (rs_resource_name evt)));
       Some (NCSCC_RC_SUCCESS, uba) } }"

definition glsv_enc_rsc_close_evt :: "NCS_UBAID \<Rightarrow> GLSV_EVT_RSC_INFO \<Rightarrow> (rc \<times> NCS_UBAID) option" where
  "glsv_enc_rsc_close_evt uba evt = do {
     let sz = (5 * 8) + (5 * 4);
     (p8, uba) \<leftarrow> ncs_enc_reserve_space uba sz;
     case p8 of None \<Rightarrow> Some (NCSCC_RC_FAILURE, uba) | Some p8 \<Rightarrow> do {
       (p8, uba) \<leftarrow> ncs_encode_64bit p8 (rs_agent_mds_dest evt) uba;
       (p8, uba) \<leftarrow> ncs_encode_64bit p8 (rs_client_handle_id evt) uba;
       (p8, uba) \<leftarrow> ncs_encode_64bit p8 (rs_lcl_lockid evt) uba;
       (p8, uba) \<leftarrow> ncs_encode_64bit p8 (rs_timeout evt) uba;
       (p8, uba) \<leftarrow> ncs_encode_64bit p8 (rs_invocation evt) uba;
       (p8, uba) \<leftarrow> ncs_encode_32bit p8 (rs_resource_id evt) uba;
       (p8, uba) \<leftarrow> ncs_encode_32bit p8 (rs_lcl_resource_id evt) uba;
       (p8, uba) \<leftarrow> ncs_encode_32bit p8 (rs_flag evt) uba;
       (p8, uba) \<leftarrow> ncs_encode_32bit p8 (rs_call_type evt) uba;
       (p8, uba) \<leftarrow> ncs_encode_32bit p8 (rs_lcl_resource_id_count evt) uba;
       Some (NCSCC_RC_SUCCESS, ncs_enc_claim_space uba (of_nat sz)) } }"

definition glsv_enc_rsc_lock_evt :: "NCS_UBAID \<Rightarrow> GLSV_EVT_RSC_LOCK_INFO \<Rightarrow> (rc \<times> NCS_UBAID) option" where
  "glsv_enc_rsc_lock_evt uba evt = do {
     let sz = (6 * 8) + (6 * 4);
     (p8, uba) \<leftarrow> ncs_enc_reserve_space uba sz;
     case p8 of None \<Rightarrow> Some (NCSCC_RC_FAILURE, uba) | Some p8 \<Rightarrow> do {
       (p8, uba) \<leftarrow> ncs_encode_64bit p8 (rl_agent_mds_dest evt) uba;
       (p8, uba) \<leftarrow> ncs_encode_64bit p8 (rl_lcl_lockid evt) uba;
       (p8, uba) \<leftarrow> ncs_encode_64bit p8 (rl_client_handle_id evt) uba;
       (p8, uba) \<leftarrow> ncs_encode_64bit p8 (rl_waiter_signal evt) uba;
       (p8, uba) \<leftarrow> ncs_encode_64bit p8 (rl_invocation evt) uba;
       (p8, uba) \<leftarrow> ncs_encode_64bit p8 (rl_timeout evt) uba;
       (p8, uba) \<leftarrow> ncs_encode_32bit p8 (rl_resource_id evt) uba;
       (p8, uba) \<leftarrow> ncs_encode_32bit p8 (rl_lcl_resource_id evt) uba;
       (p8, uba) \<leftarrow> ncs_encode_32bit p8 (rl_lock_type evt) uba;
       (p8, uba) \<leftarrow> ncs_encode_32bit p8 (rl_lockFlags evt) uba;
       (p8, uba) \<leftarrow> ncs_encode_32bit p8 (rl_call_type evt) uba;
       (p8, uba) \<leftarrow> ncs_encode_32bit p8 (rl_status evt) uba;
       Some (NCSCC_RC_SUCCESS, ncs_enc_claim_space uba (of_nat sz)) } }"

definition glsv_enc_rsc_unlock_evt :: "NCS_UBAID \<Rightarrow> GLSV_EVT_RSC_UNLOCK_INFO \<Rightarrow> (rc \<times> NCS_UBAID) option" where
  "glsv_enc_rsc_unlock_evt uba evt = do {
     let sz = (6 * 8) + (3 * 4);
     (p8, uba) \<leftarrow> ncs_enc_reserve_space uba sz;
     case p8 of None \<Rightarrow> Some (NCSCC_RC_FAILURE, uba) | Some p8 \<Rightarrow> do {
       (p8, uba) \<leftarrow> ncs_encode_64bit p8 (ul_agent_mds_dest evt) uba;
       (p8, uba) \<leftarrow> ncs_encode_64bit p8 (ul_client_handle_id evt) uba;
       (p8, uba) \<leftarrow> ncs_encode_64bit p8 (ul_lockid evt) uba;
       (p8, uba) \<leftarrow> ncs_encode_64bit p8 (ul_lcl_lockid evt) uba;
       (p8, uba) \<leftarrow> ncs_encode_64bit p8 (ul_invocation evt) uba;
       (p8, uba) \<leftarrow> ncs_encode_64bit p8 (ul_timeout evt) uba;
       (p8, uba) \<leftarrow> ncs_encode_32bit p8 (ul_resource_id evt) uba;
       (p8, uba) \<leftarrow> ncs_encode_32bit p8 (ul_lcl_resource_id evt) uba;
       (p8, uba) \<leftarrow> ncs_encode_32bit p8 (ul_call_type evt) uba;
       Some (NCSCC_RC_SUCCESS, ncs_enc_claim_space uba (of_nat sz)) } }"

definition glsv_enc_rsc_purge_evt :: "NCS_UBAID \<Rightarrow> GLSV_EVT_RSC_INFO \<Rightarrow> (rc \<times> NCS_UBAID) option" where
  "glsv_enc_rsc_purge_evt uba evt = do {
     let sz = (3 * 8) + (2 * 4);
     (p8, uba) \<leftarrow> ncs_enc_reserve_space uba sz;
     case p8 of None \<Rightarrow> Some (NCSCC_RC_FAILURE, uba) | Some p8 \<Rightarrow> do {
       (p8, uba) \<leftarrow> ncs_encode_64bit p8 (rs_agent_mds_dest evt) uba;
       (p8, uba) \<leftarrow> ncs_encode_64bit p8 (rs_client_handle_id evt) uba;
       (p8, uba) \<leftarrow> ncs_encode_64bit p8 (rs_invocation evt) uba;
       (p8, uba) \<leftarrow> ncs_encode_32bit p8 (rs_resource_id evt) uba;
       (p8, uba) \<leftarrow> ncs_encode_32bit p8 (rs_call_type evt) uba;
       Some (NCSCC_RC_SUCCESS, ncs_enc_claim_space uba (of_nat sz)) } }"

definition glsv_enc_client_info_evt :: "NCS_UBAID \<Rightarrow> GLSV_EVT_RESTART_CLIENT_INFO \<Rightarrow> (rc \<times> NCS_UBAID) option" where
  "glsv_enc_client_info_evt uba evt = do {
     let sz = (2 * 8) + 4 + 2;
     (p8, uba) \<leftarrow> ncs_enc_reserve_space uba sz;
     case p8 of None \<Rightarrow> Some (NCSCC_RC_FAILURE, uba) | Some p8 \<Rightarrow> do {
       (p8, uba) \<leftarrow> ncs_encode_64bit p8 (rc_agent_mds_dest evt) uba;
       (p8, uba) \<leftarrow> ncs_encode_64bit p8 (rc_client_handle_id evt) uba;
       (p8, uba) \<leftarrow> ncs_encode_32bit p8 (rc_app_proc_id evt) uba;
       (p8, uba) \<leftarrow> ncs_encode_16bit p8 (ucast (rc_cbk_reg_info evt)) uba;
       Some (NCSCC_RC_SUCCESS, ncs_enc_claim_space uba (of_nat sz)) } }"

section \<open>The message format version\<close>

datatype NCSMDS_SVC_ID =
    NCSMDS_SVC_ID_GLA | NCSMDS_SVC_ID_GLND | NCSMDS_SVC_ID_GLD | NCSMDS_SVC_ID_OTHER nat

definition m_NCS_ENC_MSG_FMT_GET :: "nat \<Rightarrow> nat \<Rightarrow> nat \<Rightarrow> nat list \<Rightarrow> nat" where
  "m_NCS_ENC_MSG_FMT_GET rem_ver rem_ver_min rem_ver_max msg_fmt_array =
     (if rem_ver < rem_ver_min then 0
      else if rem_ver \<ge> rem_ver_max then msg_fmt_array ! (rem_ver_max - rem_ver_min)
      else msg_fmt_array ! (rem_ver - rem_ver_min))"

definition m_NCS_MSG_FORMAT_IS_VALID :: "nat \<Rightarrow> nat \<Rightarrow> nat \<Rightarrow> nat list \<Rightarrow> bool" where
  "m_NCS_MSG_FORMAT_IS_VALID msg_fmt_version rem_ver_min rem_ver_max msg_fmt_array =
     (if msg_fmt_version > msg_fmt_array ! (rem_ver_max - rem_ver_min) then False
      else if msg_fmt_version < msg_fmt_array ! 0 then False else True)"

text \<open>All tables of the lock service have the one entry 1, for the one version 1.\<close>

definition msg_fmt_table :: "nat list" where "msg_fmt_table = [1]"
definition SUBPART_VER_AT_MIN_MSG_FMT :: nat where "SUBPART_VER_AT_MIN_MSG_FMT = 1"
definition SUBPART_VER_AT_MAX_MSG_FMT :: nat where "SUBPART_VER_AT_MAX_MSG_FMT = 1"

lemmas msg_fmt_defs = msg_fmt_table_def SUBPART_VER_AT_MIN_MSG_FMT_def SUBPART_VER_AT_MAX_MSG_FMT_def
  m_NCS_ENC_MSG_FMT_GET_def m_NCS_MSG_FORMAT_IS_VALID_def

record 'm MDS_CALLBACK_ENC_INFO =
  i_to_svc_id :: NCSMDS_SVC_ID
  i_rem_svc_pvt_ver :: nat
  o_msg_fmt_ver :: nat
  io_uba :: "NCS_UBAID option"
  i_msg :: 'm

end
