(* ===== verification/Gla_Msg.thy ===== *)
theory Gla_Msg
  imports Gla_Wire
begin

text \<open>
  The message level of the protocol: \<open>gla_mds_enc\<close> and \<open>gla_mds_dec\<close> of the agent,
  \<open>glnd_mds_enc\<close> and \<open>glnd_mds_dec\<close> of the node director, and the decoders and encoders they call.
  Every decoder has an area \<open>local_data\<close> of 20 octets on its stack for octets that are not
  contiguous in the received chain. What the node director exchanges with its peers and with the
  director goes through the EDU library, which is a parameter (\<open>edu\<close>).
\<close>

section \<open>The agent encodes a request\<close>

definition gla_enc_body :: "NCS_UBAID \<Rightarrow> GLSV_GLND_EVT \<Rightarrow> (rc \<times> NCS_UBAID) option option" where
  "gla_enc_body uba evt =
     (if ne_type evt = GLSV_GLND_EVT_REG_AGENT \<or> ne_type evt = GLSV_GLND_EVT_UNREG_AGENT then
        Some (case ne_info evt of Agent_info i \<Rightarrow> glsv_enc_reg_unreg_agent_evt uba i | _ \<Rightarrow> None)
      else if ne_type evt = GLSV_GLND_EVT_INITIALIZE then
        Some (case ne_info evt of Client_info i \<Rightarrow> glsv_enc_initialize_evt uba i | _ \<Rightarrow> None)
      else if ne_type evt = GLSV_GLND_EVT_FINALIZE then
        Some (case ne_info evt of Finalize_info i \<Rightarrow> glsv_enc_finalize_evt uba i | _ \<Rightarrow> None)
      else if ne_type evt = GLSV_GLND_EVT_RSC_OPEN then
        Some (case ne_info evt of Rsc_info i \<Rightarrow> glsv_enc_rsc_open_evt uba i | _ \<Rightarrow> None)
      else if ne_type evt = GLSV_GLND_EVT_RSC_CLOSE then
        Some (case ne_info evt of Rsc_info i \<Rightarrow> glsv_enc_rsc_close_evt uba i | _ \<Rightarrow> None)
      else if ne_type evt = GLSV_GLND_EVT_RSC_LOCK then
        Some (case ne_info evt of Rsc_lock_info i \<Rightarrow> glsv_enc_rsc_lock_evt uba i | _ \<Rightarrow> None)
      else if ne_type evt = GLSV_GLND_EVT_RSC_UNLOCK then
        Some (case ne_info evt of Rsc_unlock_info i \<Rightarrow> glsv_enc_rsc_unlock_evt uba i | _ \<Rightarrow> None)
      else if ne_type evt = GLSV_GLND_EVT_RSC_PURGE then
        Some (case ne_info evt of Rsc_info i \<Rightarrow> glsv_enc_rsc_purge_evt uba i | _ \<Rightarrow> None)
      else if ne_type evt = GLSV_GLND_EVT_CLIENT_INFO then
        Some (case ne_info evt of Restart_client_info i \<Rightarrow> glsv_enc_client_info_evt uba i | _ \<Rightarrow> None)
      else None)"

text \<open>The return code of the encoder of the body is not looked at.\<close>

definition gla_mds_enc ::
    "GLSV_GLND_EVT MDS_CALLBACK_ENC_INFO \<Rightarrow> (rc \<times> GLSV_GLND_EVT MDS_CALLBACK_ENC_INFO) option" where
  "gla_mds_enc info =
     (case io_uba info of
        None \<Rightarrow> Some (NCSCC_RC_FAILURE, info)
      | Some uba \<Rightarrow>
          let info = (if i_to_svc_id info = NCSMDS_SVC_ID_GLND then
                info\<lparr>o_msg_fmt_ver := m_NCS_ENC_MSG_FMT_GET (i_rem_svc_pvt_ver info)
                  SUBPART_VER_AT_MIN_MSG_FMT SUBPART_VER_AT_MAX_MSG_FMT msg_fmt_table\<rparr> else info)
          in if i_to_svc_id info = NCSMDS_SVC_ID_GLND \<and> o_msg_fmt_ver info \<noteq> 0 then do {
               let evt = i_msg info;
               (p8, uba) \<leftarrow> ncs_enc_reserve_space uba 4;
               case p8 of None \<Rightarrow> Some (NCSCC_RC_FAILURE, info\<lparr>io_uba := Some uba\<rparr>) | Some p8 \<Rightarrow> do {
                 (p8, uba) \<leftarrow> ncs_encode_32bit p8 (ne_type evt) uba;
                 let uba = ncs_enc_claim_space uba 4;
                 case gla_enc_body uba evt of
                   None \<Rightarrow> Some (NCSCC_RC_FAILURE, info\<lparr>io_uba := Some uba\<rparr>)
                 | Some body \<Rightarrow> do {
                     (_, uba) \<leftarrow> body;
                     Some (NCSCC_RC_SUCCESS, info\<lparr>io_uba := Some uba\<rparr>) } } }
             else Some (NCSCC_RC_FAILURE, info))"

section \<open>The node director decodes a request\<close>

definition LOCAL_DATA :: nat where "LOCAL_DATA = 20"

text \<open>The decoders fill a structure cleared with \<open>memset\<close>; on failure it is left as it was.\<close>

definition glsv_dec_reg_unreg_agent_evt :: "NCS_UBAID \<Rightarrow> (rc \<times> glnd_evt_info \<times> NCS_UBAID) option" where
  "glsv_dec_reg_unreg_agent_evt uba = do {
     let sz = 8 + 4;
     p8 \<leftarrow> ncs_dec_flatten_space uba LOCAL_DATA sz;
     case p8 of None \<Rightarrow> Some (NCSCC_RC_FAILURE, Info_zero, uba) | Some p8 \<Rightarrow> do {
       (agent_mds_dest, p8) \<leftarrow> ncs_decode_64bit p8;
       (process_id, p8) \<leftarrow> ncs_decode_32bit p8;
       Some (NCSCC_RC_SUCCESS,
         Agent_info \<lparr>ai_process_id = process_id, ai_agent_mds_dest = agent_mds_dest\<rparr>,
         ncs_dec_skip_space uba sz) } }"

definition glsv_dec_initialize_evt :: "NCS_UBAID \<Rightarrow> (rc \<times> glnd_evt_info \<times> NCS_UBAID) option" where
  "glsv_dec_initialize_evt uba = do {
     let sz = 8 + 4 + 4 + (3 * 1);
     p8 \<leftarrow> ncs_dec_flatten_space uba LOCAL_DATA sz;
     case p8 of None \<Rightarrow> Some (NCSCC_RC_FAILURE, Info_zero, uba) | Some p8 \<Rightarrow> do {
       (agent_mds_dest, p8) \<leftarrow> ncs_decode_64bit p8;
       (client_proc_id, p8) \<leftarrow> ncs_decode_32bit p8;
       (cbk_reg_info, p8) \<leftarrow> ncs_decode_32bit p8;
       (releaseCode, p8) \<leftarrow> ncs_decode_8bit p8;
       (majorVersion, p8) \<leftarrow> ncs_decode_8bit p8;
       (minorVersion, p8) \<leftarrow> ncs_decode_8bit p8;
       Some (NCSCC_RC_SUCCESS,
         Client_info \<lparr>ci_client_proc_id = client_proc_id, ci_agent_mds_dest = agent_mds_dest,
           ci_version = \<lparr>releaseCode = releaseCode, majorVersion = majorVersion, minorVersion = minorVersion\<rparr>,
           ci_cbk_reg_info = ucast cbk_reg_info\<rparr>,
         ncs_dec_skip_space uba sz) } }"

definition glsv_dec_finalize_evt :: "NCS_UBAID \<Rightarrow> (rc \<times> glnd_evt_info \<times> NCS_UBAID) option" where
  "glsv_dec_finalize_evt uba = do {
     let sz = 8 + 8;
     p8 \<leftarrow> ncs_dec_flatten_space uba LOCAL_DATA sz;
     case p8 of None \<Rightarrow> Some (NCSCC_RC_FAILURE, Info_zero, uba) | Some p8 \<Rightarrow> do {
       (agent_mds_dest, p8) \<leftarrow> ncs_decode_64bit p8;
       (handle_id, p8) \<leftarrow> ncs_decode_64bit p8;
       Some (NCSCC_RC_SUCCESS,
         Finalize_info \<lparr>fi_agent_mds_dest = agent_mds_dest, fi_handle_id = handle_id\<rparr>,
         ncs_dec_skip_space uba sz) } }"

text \<open>The octets of the name are copied over the start of the cleared array.\<close>

definition name_store :: "u16 \<Rightarrow> bytes \<Rightarrow> SaNameT" where
  "name_store len os = \<lparr>name_length = len, name_value = os @ drop (length os) (name_value name_zero)\<rparr>"

definition glsv_dec_rsc_open_evt :: "NCS_UBAID \<Rightarrow> (rc \<times> glnd_evt_info \<times> NCS_UBAID) option" where
  "glsv_dec_rsc_open_evt uba = do {
     let sz = (5 * 8) + (5 * 4) + 2;
     p8 \<leftarrow> ncs_dec_flatten_space uba LOCAL_DATA sz;
     case p8 of None \<Rightarrow> Some (NCSCC_RC_FAILURE, Info_zero, uba) | Some p8 \<Rightarrow> do {
       (agent_mds_dest, p8) \<leftarrow> ncs_decode_64bit p8;
       (client_handle_id, p8) \<leftarrow> ncs_decode_64bit p8;
       (lcl_lockid, p8) \<leftarrow> ncs_decode_64bit p8;
       (timeout, p8) \<leftarrow> ncs_decode_64bit p8;
       (invocation, p8) \<leftarrow> ncs_decode_64bit p8;
       (resource_id, p8) \<leftarrow> ncs_decode_32bit p8;
       (lcl_resource_id, p8) \<leftarrow> ncs_decode_32bit p8;
       (flag, p8) \<leftarrow> ncs_decode_32bit p8;
       (call_type, p8) \<leftarrow> ncs_decode_32bit p8;
       (lcl_resource_id_count, p8) \<leftarrow> ncs_decode_32bit p8;
       (len, p8) \<leftarrow> ncs_decode_16bit p8;
       let uba = ncs_dec_skip_space uba sz;
       (_, os, uba) \<leftarrow> ncs_decode_n_octets_from_uba uba SA_MAX_NAME_LENGTH (unat len);
       Some (NCSCC_RC_SUCCESS,
         Rsc_info \<lparr>rs_client_handle_id = client_handle_id, rs_agent_mds_dest = agent_mds_dest,
           rs_resource_name = name_store len os, rs_resource_id = resource_id,
           rs_lcl_resource_id = lcl_resource_id, rs_lcl_lockid = lcl_lockid,
           rs_lcl_resource_id_count = lcl_resource_id_count, rs_invocation = invocation,
           rs_call_type = call_type, rs_timeout = timeout, rs_flag = flag\<rparr>,
         uba) } }"

definition glsv_dec_rsc_close_evt :: "NCS_UBAID \<Rightarrow> (rc \<times> glnd_evt_info \<times> NCS_UBAID) option" where
  "glsv_dec_rsc_close_evt uba = do {
     let sz = (5 * 8) + (5 * 4);
     p8 \<leftarrow> ncs_dec_flatten_space uba LOCAL_DATA sz;
     case p8 of None \<Rightarrow> Some (NCSCC_RC_FAILURE, Info_zero, uba) | Some p8 \<Rightarrow> do {
       (agent_mds_dest, p8) \<leftarrow> ncs_decode_64bit p8;
       (client_handle_id, p8) \<leftarrow> ncs_decode_64bit p8;
       (lcl_lockid, p8) \<leftarrow> ncs_decode_64bit p8;
       (timeout, p8) \<leftarrow> ncs_decode_64bit p8;
       (invocation, p8) \<leftarrow> ncs_decode_64bit p8;
       (resource_id, p8) \<leftarrow> ncs_decode_32bit p8;
       (lcl_resource_id, p8) \<leftarrow> ncs_decode_32bit p8;
       (flag, p8) \<leftarrow> ncs_decode_32bit p8;
       (call_type, p8) \<leftarrow> ncs_decode_32bit p8;
       (lcl_resource_id_count, p8) \<leftarrow> ncs_decode_32bit p8;
       Some (NCSCC_RC_SUCCESS,
         Rsc_info \<lparr>rs_client_handle_id = client_handle_id, rs_agent_mds_dest = agent_mds_dest,
           rs_resource_name = name_zero, rs_resource_id = resource_id,
           rs_lcl_resource_id = lcl_resource_id, rs_lcl_lockid = lcl_lockid,
           rs_lcl_resource_id_count = lcl_resource_id_count, rs_invocation = invocation,
           rs_call_type = call_type, rs_timeout = timeout, rs_flag = flag\<rparr>,
         ncs_dec_skip_space uba sz) } }"

definition glsv_dec_rsc_lock_evt :: "NCS_UBAID \<Rightarrow> (rc \<times> glnd_evt_info \<times> NCS_UBAID) option" where
  "glsv_dec_rsc_lock_evt uba = do {
     let sz = (6 * 8) + (6 * 4);
     p8 \<leftarrow> ncs_dec_flatten_space uba LOCAL_DATA sz;
     case p8 of None \<Rightarrow> Some (NCSCC_RC_FAILURE, Info_zero, uba) | Some p8 \<Rightarrow> do {
       (agent_mds_dest, p8) \<leftarrow> ncs_decode_64bit p8;
       (lcl_lockid, p8) \<leftarrow> ncs_decode_64bit p8;
       (client_handle_id, p8) \<leftarrow> ncs_decode_64bit p8;
       (waiter_signal, p8) \<leftarrow> ncs_decode_64bit p8;
       (invocation, p8) \<leftarrow> ncs_decode_64bit p8;
       (timeout, p8) \<leftarrow> ncs_decode_64bit p8;
       (resource_id, p8) \<leftarrow> ncs_decode_32bit p8;
       (lcl_resource_id, p8) \<leftarrow> ncs_decode_32bit p8;
       (lock_type, p8) \<leftarrow> ncs_decode_32bit p8;
       (lockFlags, p8) \<leftarrow> ncs_decode_32bit p8;
       (call_type, p8) \<leftarrow> ncs_decode_32bit p8;
       (status, p8) \<leftarrow> ncs_decode_32bit p8;
       Some (NCSCC_RC_SUCCESS,
         Rsc_lock_info \<lparr>rl_client_handle_id = client_handle_id, rl_agent_mds_dest = agent_mds_dest,
           rl_resource_id = resource_id, rl_lcl_resource_id = lcl_resource_id,
           rl_lcl_lockid = lcl_lockid, rl_invocation = invocation, rl_lock_type = lock_type,
           rl_timeout = timeout, rl_lockFlags = lockFlags, rl_call_type = call_type,
           rl_status = status, rl_waiter_signal = waiter_signal\<rparr>,
         ncs_dec_skip_space uba sz) } }"

definition glsv_dec_rsc_unlock_evt :: "NCS_UBAID \<Rightarrow> (rc \<times> glnd_evt_info \<times> NCS_UBAID) option" where
  "glsv_dec_rsc_unlock_evt uba = do {
     let sz = (6 * 8) + (3 * 4);
     p8 \<leftarrow> ncs_dec_flatten_space uba LOCAL_DATA sz;
     case p8 of None \<Rightarrow> Some (NCSCC_RC_FAILURE, Info_zero, uba) | Some p8 \<Rightarrow> do {
       (agent_mds_dest, p8) \<leftarrow> ncs_decode_64bit p8;
       (client_handle_id, p8) \<leftarrow> ncs_decode_64bit p8;
       (lockid, p8) \<leftarrow> ncs_decode_64bit p8;
       (lcl_lockid, p8) \<leftarrow> ncs_decode_64bit p8;
       (invocation, p8) \<leftarrow> ncs_decode_64bit p8;
       (timeout, p8) \<leftarrow> ncs_decode_64bit p8;
       (resource_id, p8) \<leftarrow> ncs_decode_32bit p8;
       (lcl_resource_id, p8) \<leftarrow> ncs_decode_32bit p8;
       (call_type, p8) \<leftarrow> ncs_decode_32bit p8;
       Some (NCSCC_RC_SUCCESS,
         Rsc_unlock_info \<lparr>ul_client_handle_id = client_handle_id, ul_agent_mds_dest = agent_mds_dest,
           ul_resource_id = resource_id, ul_lcl_resource_id = lcl_resource_id, ul_lockid = lockid,
           ul_lcl_lockid = lcl_lockid, ul_invocation = invocation, ul_call_type = call_type,
           ul_timeout = timeout\<rparr>,
         ncs_dec_skip_space uba sz) } }"

definition glsv_dec_rsc_purge_evt :: "NCS_UBAID \<Rightarrow> (rc \<times> glnd_evt_info \<times> NCS_UBAID) option" where
  "glsv_dec_rsc_purge_evt uba = do {
     let sz = (3 * 8) + (2 * 4);
     p8 \<leftarrow> ncs_dec_flatten_space uba LOCAL_DATA sz;
     case p8 of None \<Rightarrow> Some (NCSCC_RC_FAILURE, Info_zero, uba) | Some p8 \<Rightarrow> do {
       (agent_mds_dest, p8) \<leftarrow> ncs_decode_64bit p8;
       (client_handle_id, p8) \<leftarrow> ncs_decode_64bit p8;
       (invocation, p8) \<leftarrow> ncs_decode_64bit p8;
       (resource_id, p8) \<leftarrow> ncs_decode_32bit p8;
       (call_type, p8) \<leftarrow> ncs_decode_32bit p8;
       Some (NCSCC_RC_SUCCESS,
         Rsc_info (rsc_info_zero\<lparr>rs_client_handle_id := client_handle_id,
           rs_agent_mds_dest := agent_mds_dest, rs_resource_id := resource_id,
           rs_invocation := invocation, rs_call_type := call_type\<rparr>),
         ncs_dec_skip_space uba sz) } }"

definition glsv_dec_client_info_evt :: "NCS_UBAID \<Rightarrow> (rc \<times> glnd_evt_info \<times> NCS_UBAID) option" where
  "glsv_dec_client_info_evt uba = do {
     let sz = 33;
     p8 \<leftarrow> ncs_dec_flatten_space uba LOCAL_DATA sz;
     case p8 of None \<Rightarrow> Some (NCSCC_RC_FAILURE, Info_zero, uba) | Some p8 \<Rightarrow> do {
       (client_handle_id, p8) \<leftarrow> ncs_decode_64bit p8;
       (app_proc_id, p8) \<leftarrow> ncs_decode_32bit p8;
       (agent_mds_dest, p8) \<leftarrow> ncs_decode_64bit p8;
       (releaseCode, p8) \<leftarrow> ncs_decode_8bit p8;
       (majorVersion, p8) \<leftarrow> ncs_decode_8bit p8;
       (minorVersion, p8) \<leftarrow> ncs_decode_8bit p8;
       (cbk_reg_info, p8) \<leftarrow> ncs_decode_16bit p8;
       (no_of_res, p8) \<leftarrow> ncs_decode_32bit p8;
       (resource_id, p8) \<leftarrow> ncs_decode_32bit p8;
       Some (NCSCC_RC_SUCCESS,
         Restart_client_info \<lparr>rc_client_handle_id = client_handle_id, rc_app_proc_id = app_proc_id,
           rc_agent_mds_dest = agent_mds_dest,
           rc_version = \<lparr>releaseCode = releaseCode, majorVersion = majorVersion, minorVersion = minorVersion\<rparr>,
           rc_cbk_reg_info = cbk_reg_info, rc_no_of_res = no_of_res, rc_resource_id = resource_id\<rparr>,
         ncs_dec_skip_space uba sz) } }"

definition glnd_dec_body :: "u32 \<Rightarrow> NCS_UBAID \<Rightarrow> (rc \<times> glnd_evt_info \<times> NCS_UBAID) option option" where
  "glnd_dec_body t uba =
     (if t = GLSV_GLND_EVT_REG_AGENT \<or> t = GLSV_GLND_EVT_UNREG_AGENT then
        Some (glsv_dec_reg_unreg_agent_evt uba)
      else if t = GLSV_GLND_EVT_INITIALIZE then Some (glsv_dec_initialize_evt uba)
      else if t = GLSV_GLND_EVT_FINALIZE then Some (glsv_dec_finalize_evt uba)
      else if t = GLSV_GLND_EVT_RSC_OPEN then Some (glsv_dec_rsc_open_evt uba)
      else if t = GLSV_GLND_EVT_RSC_CLOSE then Some (glsv_dec_rsc_close_evt uba)
      else if t = GLSV_GLND_EVT_RSC_LOCK then Some (glsv_dec_rsc_lock_evt uba)
      else if t = GLSV_GLND_EVT_RSC_UNLOCK then Some (glsv_dec_rsc_unlock_evt uba)
      else if t = GLSV_GLND_EVT_RSC_PURGE then Some (glsv_dec_rsc_purge_evt uba)
      else if t = GLSV_GLND_EVT_CLIENT_INFO then Some (glsv_dec_client_info_evt uba)
      else None)"

record 'm MDS_CALLBACK_DEC_INFO =
  i_fr_svc_id :: NCSMDS_SVC_ID
  i_msg_fmt_ver :: nat
  d_uba :: NCS_UBAID
  o_msg :: "'m option"

definition glnd_evt_zero :: GLSV_GLND_EVT where
  "glnd_evt_zero = \<lparr>ne_type = 0, ne_priority = 0, ne_info = Info_zero\<rparr>"

text \<open>
  \<open>edu\<close> is the EDU program \<open>glsv_edp_glnd_evt\<close>, which decodes what peers and the director send;
  when it fails the event is freed while \<open>o_msg\<close> still has its address, which the model shows as
  no message.
\<close>

definition glnd_mds_dec ::
    "(NCS_UBAID \<Rightarrow> (rc \<times> GLSV_GLND_EVT \<times> NCS_UBAID) option) \<Rightarrow>
     GLSV_GLND_EVT MDS_CALLBACK_DEC_INFO \<Rightarrow> (rc \<times> GLSV_GLND_EVT MDS_CALLBACK_DEC_INFO) option" where
  "glnd_mds_dec edu info =
     (let valid = m_NCS_MSG_FORMAT_IS_VALID (i_msg_fmt_ver info)
            SUBPART_VER_AT_MIN_MSG_FMT SUBPART_VER_AT_MAX_MSG_FMT msg_fmt_table
      in case i_fr_svc_id info of
           NCSMDS_SVC_ID_OTHER _ \<Rightarrow> Some (NCSCC_RC_FAILURE, info)
         | _ \<Rightarrow>
           if \<not> valid then Some (NCSCC_RC_FAILURE, info)
           else if i_fr_svc_id info = NCSMDS_SVC_ID_GLA then do {
             p8 \<leftarrow> ncs_dec_flatten_space (d_uba info) LOCAL_DATA 4;
             p8 \<leftarrow> p8;
             (t, p8) \<leftarrow> ncs_decode_32bit p8;
             let uba = ncs_dec_skip_space (d_uba info) 4;
             case glnd_dec_body t uba of
               None \<Rightarrow> Some (NCSCC_RC_FAILURE,
                 info\<lparr>d_uba := uba, o_msg := Some (glnd_evt_zero\<lparr>ne_type := t\<rparr>)\<rparr>)
             | Some body \<Rightarrow> do {
                 (rc, i, uba) \<leftarrow> body;
                 Some (rc, info\<lparr>d_uba := uba, o_msg := Some
                   (glnd_evt_zero\<lparr>ne_type := t, ne_info := i, ne_priority := NCS_IPC_PRIORITY_NORMAL\<rparr>)\<rparr>) } }
           else do {
             (rc, evt, uba) \<leftarrow> edu (d_uba info);
             if rc \<noteq> NCSCC_RC_SUCCESS then Some (rc, info\<lparr>d_uba := uba, o_msg := None\<rparr>)
             else Some (rc, info\<lparr>d_uba := uba,
                    o_msg := Some (evt\<lparr>ne_priority := NCS_IPC_PRIORITY_NORMAL\<rparr>)\<rparr>) })"

end
