(* ===== verification/Gla_Resp.thy ===== *)
theory Gla_Resp
  imports Gla_Msg
begin

text \<open>
  The messages of the node director to the agent: callbacks, API responses and the report of the
  cluster membership (\<open>gla_evt.h\<close>, \<open>gla_callbk.h\<close>), encoded by \<open>glnd_mds_enc\<close> and decoded by
  \<open>gla_mds_dec\<close>.
\<close>

section \<open>Messages\<close>

definition GLSV_GLA_CALLBK_EVT :: u32 where "GLSV_GLA_CALLBK_EVT = 0"
definition GLSV_GLA_API_RESP_EVT :: u32 where "GLSV_GLA_API_RESP_EVT = 1"
definition GLSV_GLA_CLM_EVT :: u32 where "GLSV_GLA_CLM_EVT = 2"

definition GLSV_GLA_LOCK_RES_OPEN :: u32 where "GLSV_GLA_LOCK_RES_OPEN = 3"
definition GLSV_GLA_LOCK_SYNC_LOCK :: u32 where "GLSV_GLA_LOCK_SYNC_LOCK = 5"
definition GLSV_GLA_LIMIT_GET :: u32 where "GLSV_GLA_LIMIT_GET = 11"

definition GLSV_LOCK_RES_OPEN_CBK :: u32 where "GLSV_LOCK_RES_OPEN_CBK = 1"
definition GLSV_LOCK_GRANT_CBK :: u32 where "GLSV_LOCK_GRANT_CBK = 2"
definition GLSV_LOCK_WAITER_CBK :: u32 where "GLSV_LOCK_WAITER_CBK = 3"
definition GLSV_LOCK_UNLOCK_CBK :: u32 where "GLSV_LOCK_UNLOCK_CBK = 4"

lemmas gla_type_defs = GLSV_GLA_CALLBK_EVT_def GLSV_GLA_API_RESP_EVT_def GLSV_GLA_CLM_EVT_def
  GLSV_GLA_LOCK_RES_OPEN_def GLSV_GLA_LOCK_SYNC_LOCK_def GLSV_GLA_LIMIT_GET_def
  GLSV_LOCK_RES_OPEN_CBK_def GLSV_LOCK_GRANT_CBK_def GLSV_LOCK_WAITER_CBK_def
  GLSV_LOCK_UNLOCK_CBK_def

record GLSV_LOCK_RES_OPEN_PARAM =
  op_invocation :: u64
  op_resourceId :: u32
  op_error :: u32

record GLSV_LOCK_GRANT_PARAM =
  gp_invocation :: u64
  gp_resourceId :: u32
  gp_lockId :: u64
  gp_lcl_lockId :: u64
  gp_lockMode :: u32
  gp_lockStatus :: u32
  gp_error :: u32

record GLSV_LOCK_WAITER_PARAM =
  wp_invocation :: u64
  wp_resourceId :: u32
  wp_lockId :: u64
  wp_lcl_lockId :: u64
  wp_modeHeld :: u32
  wp_modeRequested :: u32
  wp_wait_signal :: u64

record GLSV_LOCK_UNLOCK_PARAM =
  up_invocation :: u64
  up_resourceId :: u32
  up_lockId :: u64
  up_lockStatus :: u32
  up_error :: u32

datatype gla_cbk_params =
    Params_zero
  | Res_open GLSV_LOCK_RES_OPEN_PARAM
  | Lck_grant GLSV_LOCK_GRANT_PARAM
  | Lck_wait GLSV_LOCK_WAITER_PARAM
  | Unlock_cbk GLSV_LOCK_UNLOCK_PARAM

record GLSV_GLA_CALLBACK_INFO =
  cb_callback_type :: u32
  cb_resourceId :: u32
  cb_params :: gla_cbk_params

text \<open>\<open>Resp_zero\<close> is the parameter area left by \<open>memset\<close>, of which every member reads as 0.\<close>

datatype gla_resp_param =
    Resp_zero
  | Resp_res_open u32
  | Resp_sync_lock u64 u32
  | Resp_limit_get u64

record GLSV_GLA_API_RESP_INFO =
  ar_prc_id :: u32
  ar_type :: u32
  ar_param :: gla_resp_param

datatype gla_evt_info =
    Gla_zero
  | Gla_clbk_info GLSV_GLA_CALLBACK_INFO
  | Gla_resp_info GLSV_GLA_API_RESP_INFO
  | Gla_clm_info bool

record GLSV_GLA_EVT =
  ge_handle :: u64
  ge_error :: u32
  ge_type :: u32
  ge_info :: gla_evt_info

fun resp_resourceId :: "gla_resp_param \<Rightarrow> u32 option" where
  "resp_resourceId Resp_zero = Some 0"
| "resp_resourceId (Resp_res_open r) = Some r"
| "resp_resourceId _ = None"

fun resp_sync_lock :: "gla_resp_param \<Rightarrow> (u64 \<times> u32) option" where
  "resp_sync_lock Resp_zero = Some (0, 0)"
| "resp_sync_lock (Resp_sync_lock l s) = Some (l, s)"
| "resp_sync_lock _ = None"

section \<open>The node director encodes: \<open>glnd_mds.c\<close>\<close>

definition enc_res_open_cbk :: "NCS_UBAID \<Rightarrow> GLSV_LOCK_RES_OPEN_PARAM \<Rightarrow> (rc \<times> NCS_UBAID) option" where
  "enc_res_open_cbk uba evt = do {
     let sz = 8 + (2 * 4);
     (p8, uba) \<leftarrow> ncs_enc_reserve_space uba sz;
     case p8 of None \<Rightarrow> Some (NCSCC_RC_FAILURE, uba) | Some p8 \<Rightarrow> do {
       (p8, uba) \<leftarrow> ncs_encode_64bit p8 (op_invocation evt) uba;
       (p8, uba) \<leftarrow> ncs_encode_32bit p8 (op_resourceId evt) uba;
       (p8, uba) \<leftarrow> ncs_encode_32bit p8 (op_error evt) uba;
       Some (NCSCC_RC_SUCCESS, ncs_enc_claim_space uba (of_nat sz)) } }"

definition enc_grant_cbk :: "NCS_UBAID \<Rightarrow> GLSV_LOCK_GRANT_PARAM \<Rightarrow> (rc \<times> NCS_UBAID) option" where
  "enc_grant_cbk uba evt = do {
     let sz = (3 * 8) + (4 * 4);
     (p8, uba) \<leftarrow> ncs_enc_reserve_space uba sz;
     case p8 of None \<Rightarrow> Some (NCSCC_RC_FAILURE, uba) | Some p8 \<Rightarrow> do {
       (p8, uba) \<leftarrow> ncs_encode_64bit p8 (gp_invocation evt) uba;
       (p8, uba) \<leftarrow> ncs_encode_64bit p8 (gp_lockId evt) uba;
       (p8, uba) \<leftarrow> ncs_encode_64bit p8 (gp_lcl_lockId evt) uba;
       (p8, uba) \<leftarrow> ncs_encode_32bit p8 (gp_lockMode evt) uba;
       (p8, uba) \<leftarrow> ncs_encode_32bit p8 (gp_resourceId evt) uba;
       (p8, uba) \<leftarrow> ncs_encode_32bit p8 (gp_lockStatus evt) uba;
       (p8, uba) \<leftarrow> ncs_encode_32bit p8 (gp_error evt) uba;
       Some (NCSCC_RC_SUCCESS, ncs_enc_claim_space uba (of_nat sz)) } }"

text \<open>The 64-bit waiter signal is passed to \<open>ncs_encode_32bit\<close>.\<close>

definition enc_waiter_cbk :: "NCS_UBAID \<Rightarrow> GLSV_LOCK_WAITER_PARAM \<Rightarrow> (rc \<times> NCS_UBAID) option" where
  "enc_waiter_cbk uba evt = do {
     let sz = (3 * 8) + (4 * 4);
     (p8, uba) \<leftarrow> ncs_enc_reserve_space uba sz;
     case p8 of None \<Rightarrow> Some (NCSCC_RC_FAILURE, uba) | Some p8 \<Rightarrow> do {
       (p8, uba) \<leftarrow> ncs_encode_64bit p8 (wp_invocation evt) uba;
       (p8, uba) \<leftarrow> ncs_encode_64bit p8 (wp_lockId evt) uba;
       (p8, uba) \<leftarrow> ncs_encode_64bit p8 (wp_lcl_lockId evt) uba;
       (p8, uba) \<leftarrow> ncs_encode_32bit p8 (ucast (wp_wait_signal evt)) uba;
       (p8, uba) \<leftarrow> ncs_encode_32bit p8 (wp_resourceId evt) uba;
       (p8, uba) \<leftarrow> ncs_encode_32bit p8 (wp_modeHeld evt) uba;
       (p8, uba) \<leftarrow> ncs_encode_32bit p8 (wp_modeRequested evt) uba;
       Some (NCSCC_RC_SUCCESS, ncs_enc_claim_space uba (of_nat sz)) } }"

definition enc_unlock_cbk :: "NCS_UBAID \<Rightarrow> GLSV_LOCK_UNLOCK_PARAM \<Rightarrow> (rc \<times> NCS_UBAID) option" where
  "enc_unlock_cbk uba evt = do {
     let sz = (2 * 8) + (3 * 4);
     (p8, uba) \<leftarrow> ncs_enc_reserve_space uba sz;
     case p8 of None \<Rightarrow> Some (NCSCC_RC_FAILURE, uba) | Some p8 \<Rightarrow> do {
       (p8, uba) \<leftarrow> ncs_encode_64bit p8 (up_invocation evt) uba;
       (p8, uba) \<leftarrow> ncs_encode_64bit p8 (up_lockId evt) uba;
       (p8, uba) \<leftarrow> ncs_encode_32bit p8 (up_resourceId evt) uba;
       (p8, uba) \<leftarrow> ncs_encode_32bit p8 (up_lockStatus evt) uba;
       (p8, uba) \<leftarrow> ncs_encode_32bit p8 (up_error evt) uba;
       Some (NCSCC_RC_SUCCESS, ncs_enc_claim_space uba (of_nat sz)) } }"

definition glsv_gla_enc_callbk_evt :: "NCS_UBAID \<Rightarrow> GLSV_GLA_CALLBACK_INFO \<Rightarrow> (rc \<times> NCS_UBAID) option" where
  "glsv_gla_enc_callbk_evt uba evt = do {
     let sz = 2 * 4;
     (p8, uba) \<leftarrow> ncs_enc_reserve_space uba sz;
     case p8 of None \<Rightarrow> Some (NCSCC_RC_FAILURE, uba) | Some p8 \<Rightarrow> do {
       (p8, uba) \<leftarrow> ncs_encode_32bit p8 (cb_callback_type evt) uba;
       (p8, uba) \<leftarrow> ncs_encode_32bit p8 (cb_resourceId evt) uba;
       let uba = ncs_enc_claim_space uba (of_nat sz);
       if cb_callback_type evt = GLSV_LOCK_RES_OPEN_CBK then
         (case cb_params evt of Res_open a \<Rightarrow> enc_res_open_cbk uba a | _ \<Rightarrow> None)
       else if cb_callback_type evt = GLSV_LOCK_GRANT_CBK then
         (case cb_params evt of Lck_grant a \<Rightarrow> enc_grant_cbk uba a | _ \<Rightarrow> None)
       else if cb_callback_type evt = GLSV_LOCK_WAITER_CBK then
         (case cb_params evt of Lck_wait a \<Rightarrow> enc_waiter_cbk uba a | _ \<Rightarrow> None)
       else if cb_callback_type evt = GLSV_LOCK_UNLOCK_CBK then
         (case cb_params evt of Unlock_cbk a \<Rightarrow> enc_unlock_cbk uba a | _ \<Rightarrow> None)
       else Some (NCSCC_RC_FAILURE, uba) } }"

definition glsv_gla_enc_api_resp_evt :: "NCS_UBAID \<Rightarrow> GLSV_GLA_API_RESP_INFO \<Rightarrow> (rc \<times> NCS_UBAID) option" where
  "glsv_gla_enc_api_resp_evt uba evt = do {
     let sz = 2 * 4;
     (p8, uba) \<leftarrow> ncs_enc_reserve_space uba sz;
     case p8 of None \<Rightarrow> Some (NCSCC_RC_FAILURE, uba) | Some p8 \<Rightarrow> do {
       (p8, uba) \<leftarrow> ncs_encode_32bit p8 (ar_prc_id evt) uba;
       (p8, uba) \<leftarrow> ncs_encode_32bit p8 (ar_type evt) uba;
       let uba = ncs_enc_claim_space uba (of_nat sz);
       if ar_type evt = GLSV_GLA_LOCK_RES_OPEN then do {
         resourceId \<leftarrow> resp_resourceId (ar_param evt);
         (p8, uba) \<leftarrow> ncs_enc_reserve_space uba 4;
         case p8 of None \<Rightarrow> Some (NCSCC_RC_FAILURE, uba) | Some p8 \<Rightarrow> do {
           (p8, uba) \<leftarrow> ncs_encode_32bit p8 resourceId uba;
           Some (NCSCC_RC_SUCCESS, ncs_enc_claim_space uba 4) } }
       else if ar_type evt = GLSV_GLA_LOCK_SYNC_LOCK then do {
         let sz = 8 + 4;
         (lockId, lockStatus) \<leftarrow> resp_sync_lock (ar_param evt);
         (p8, uba) \<leftarrow> ncs_enc_reserve_space uba sz;
         case p8 of None \<Rightarrow> Some (NCSCC_RC_FAILURE, uba) | Some p8 \<Rightarrow> do {
           (p8, uba) \<leftarrow> ncs_encode_64bit p8 lockId uba;
           (p8, uba) \<leftarrow> ncs_encode_32bit p8 lockStatus uba;
           Some (NCSCC_RC_SUCCESS, ncs_enc_claim_space uba (of_nat sz)) } }
       else Some (NCSCC_RC_SUCCESS, uba) } }"

text \<open>The space is reserved and claimed here and once more inside \<open>osaf_encode_bool\<close>.\<close>

definition glsv_gla_enc_clm_evt :: "NCS_UBAID \<Rightarrow> bool \<Rightarrow> (rc \<times> NCS_UBAID) option" where
  "glsv_gla_enc_clm_evt uba isClusterMember = do {
     (p8, uba) \<leftarrow> ncs_enc_reserve_space uba 4;
     case p8 of None \<Rightarrow> Some (NCSCC_RC_FAILURE, uba) | Some p8 \<Rightarrow> do {
       uba \<leftarrow> osaf_encode_bool uba isClusterMember;
       Some (NCSCC_RC_SUCCESS, ncs_enc_claim_space uba 4) } }"

definition glnd_enc_gla :: "NCS_UBAID \<Rightarrow> GLSV_GLA_EVT \<Rightarrow> (rc \<times> NCS_UBAID) option" where
  "glnd_enc_gla uba evt = do {
     (p8, uba) \<leftarrow> ncs_enc_reserve_space uba 16;
     case p8 of None \<Rightarrow> Some (NCSCC_RC_FAILURE, uba) | Some p8 \<Rightarrow> do {
       (p8, uba) \<leftarrow> ncs_encode_64bit p8 (ge_handle evt) uba;
       (p8, uba) \<leftarrow> ncs_encode_32bit p8 (ge_error evt) uba;
       (p8, uba) \<leftarrow> ncs_encode_32bit p8 (ge_type evt) uba;
       let uba = ncs_enc_claim_space uba 16;
       if ge_type evt = GLSV_GLA_CALLBK_EVT then
         (case ge_info evt of Gla_clbk_info i \<Rightarrow> glsv_gla_enc_callbk_evt uba i | _ \<Rightarrow> None)
       else if ge_type evt = GLSV_GLA_API_RESP_EVT then
         (case ge_info evt of Gla_resp_info i \<Rightarrow> glsv_gla_enc_api_resp_evt uba i | _ \<Rightarrow> None)
       else if ge_type evt = GLSV_GLA_CLM_EVT then
         (case ge_info evt of Gla_clm_info i \<Rightarrow> glsv_gla_enc_clm_evt uba i | _ \<Rightarrow> None)
       else Some (NCSCC_RC_FAILURE, uba) } }"

text \<open>What the node director sends: an event to the agent, or one that the EDU library encodes.\<close>

datatype 'x glnd_out = To_agent GLSV_GLA_EVT | By_edu 'x

definition glnd_mds_enc ::
    "(NCSMDS_SVC_ID \<Rightarrow> 'x \<Rightarrow> NCS_UBAID \<Rightarrow> (rc \<times> NCS_UBAID) option) \<Rightarrow>
     'x glnd_out MDS_CALLBACK_ENC_INFO \<Rightarrow> (rc \<times> 'x glnd_out MDS_CALLBACK_ENC_INFO) option" where
  "glnd_mds_enc edu info =
     (case i_to_svc_id info of
        NCSMDS_SVC_ID_OTHER _ \<Rightarrow> Some (NCSCC_RC_FAILURE, info)
      | svc \<Rightarrow>
          let info = info\<lparr>o_msg_fmt_ver := m_NCS_ENC_MSG_FMT_GET (i_rem_svc_pvt_ver info)
                SUBPART_VER_AT_MIN_MSG_FMT SUBPART_VER_AT_MAX_MSG_FMT msg_fmt_table\<rparr>
          in if o_msg_fmt_ver info = 0 then Some (NCSCC_RC_FAILURE, info)
             else do {
               uba \<leftarrow> io_uba info;
               (rc, uba) \<leftarrow> (case (svc, i_msg info) of
                   (NCSMDS_SVC_ID_GLA, To_agent evt) \<Rightarrow> glnd_enc_gla uba evt
                 | (NCSMDS_SVC_ID_GLA, _) \<Rightarrow> None
                 | (_, By_edu x) \<Rightarrow> edu svc x uba
                 | (_, _) \<Rightarrow> None);
               Some (rc, info\<lparr>io_uba := Some uba\<rparr>) })"

section \<open>The agent decodes: \<open>gla_mds.c\<close>\<close>

definition dec_cbk_params :: "u32 \<Rightarrow> NCS_UBAID \<Rightarrow> (rc \<times> gla_cbk_params \<times> NCS_UBAID) option" where
  "dec_cbk_params t uba =
     (if t = GLSV_LOCK_RES_OPEN_CBK then do {
        let sz = 8 + (2 * 4);
        p8 \<leftarrow> ncs_dec_flatten_space uba LOCAL_DATA sz;
        case p8 of None \<Rightarrow> Some (NCSCC_RC_FAILURE, Params_zero, uba) | Some p8 \<Rightarrow> do {
          (invocation, p8) \<leftarrow> ncs_decode_64bit p8;
          (resourceId, p8) \<leftarrow> ncs_decode_32bit p8;
          (err, p8) \<leftarrow> ncs_decode_32bit p8;
          Some (NCSCC_RC_SUCCESS,
            Res_open \<lparr>op_invocation = invocation, op_resourceId = resourceId, op_error = err\<rparr>,
            ncs_dec_skip_space uba sz) } }
      else if t = GLSV_LOCK_GRANT_CBK then do {
        let sz = (3 * 8) + (4 * 4);
        p8 \<leftarrow> ncs_dec_flatten_space uba LOCAL_DATA sz;
        case p8 of None \<Rightarrow> Some (NCSCC_RC_FAILURE, Params_zero, uba) | Some p8 \<Rightarrow> do {
          (invocation, p8) \<leftarrow> ncs_decode_64bit p8;
          (lockId, p8) \<leftarrow> ncs_decode_64bit p8;
          (lcl_lockId, p8) \<leftarrow> ncs_decode_64bit p8;
          (lockMode, p8) \<leftarrow> ncs_decode_32bit p8;
          (resourceId, p8) \<leftarrow> ncs_decode_32bit p8;
          (lockStatus, p8) \<leftarrow> ncs_decode_32bit p8;
          (err, p8) \<leftarrow> ncs_decode_32bit p8;
          Some (NCSCC_RC_SUCCESS,
            Lck_grant \<lparr>gp_invocation = invocation, gp_resourceId = resourceId, gp_lockId = lockId,
              gp_lcl_lockId = lcl_lockId, gp_lockMode = lockMode, gp_lockStatus = lockStatus,
              gp_error = err\<rparr>,
            ncs_dec_skip_space uba sz) } }
      else if t = GLSV_LOCK_WAITER_CBK then do {
        let sz = (3 * 8) + (4 * 4);
        p8 \<leftarrow> ncs_dec_flatten_space uba LOCAL_DATA sz;
        case p8 of None \<Rightarrow> Some (NCSCC_RC_FAILURE, Params_zero, uba) | Some p8 \<Rightarrow> do {
          (invocation, p8) \<leftarrow> ncs_decode_64bit p8;
          (lockId, p8) \<leftarrow> ncs_decode_64bit p8;
          (lcl_lockId, p8) \<leftarrow> ncs_decode_64bit p8;
          (wait_signal, p8) \<leftarrow> ncs_decode_32bit p8;
          (resourceId, p8) \<leftarrow> ncs_decode_32bit p8;
          (modeHeld, p8) \<leftarrow> ncs_decode_32bit p8;
          (modeRequested, p8) \<leftarrow> ncs_decode_32bit p8;
          Some (NCSCC_RC_SUCCESS,
            Lck_wait \<lparr>wp_invocation = invocation, wp_resourceId = resourceId, wp_lockId = lockId,
              wp_lcl_lockId = lcl_lockId, wp_modeHeld = modeHeld, wp_modeRequested = modeRequested,
              wp_wait_signal = ucast wait_signal\<rparr>,
            ncs_dec_skip_space uba sz) } }
      else if t = GLSV_LOCK_UNLOCK_CBK then do {
        let sz = (2 * 8) + (3 * 4);
        p8 \<leftarrow> ncs_dec_flatten_space uba LOCAL_DATA sz;
        case p8 of None \<Rightarrow> Some (NCSCC_RC_FAILURE, Params_zero, uba) | Some p8 \<Rightarrow> do {
          (invocation, p8) \<leftarrow> ncs_decode_64bit p8;
          (lockId, p8) \<leftarrow> ncs_decode_64bit p8;
          (resourceId, p8) \<leftarrow> ncs_decode_32bit p8;
          (lockStatus, p8) \<leftarrow> ncs_decode_32bit p8;
          (err, p8) \<leftarrow> ncs_decode_32bit p8;
          Some (NCSCC_RC_SUCCESS,
            Unlock_cbk \<lparr>up_invocation = invocation, up_resourceId = resourceId, up_lockId = lockId,
              up_lockStatus = lockStatus, up_error = err\<rparr>,
            ncs_dec_skip_space uba sz) } }
      else Some (NCSCC_RC_FAILURE, Params_zero, uba))"

definition glsv_gla_dec_callbk_evt :: "NCS_UBAID \<Rightarrow> (rc \<times> gla_evt_info \<times> NCS_UBAID) option" where
  "glsv_gla_dec_callbk_evt uba = do {
     let sz = 2 * 4;
     p8 \<leftarrow> ncs_dec_flatten_space uba LOCAL_DATA sz;
     case p8 of None \<Rightarrow> Some (NCSCC_RC_FAILURE, Gla_zero, uba) | Some p8 \<Rightarrow> do {
       (callback_type, p8) \<leftarrow> ncs_decode_32bit p8;
       (resourceId, p8) \<leftarrow> ncs_decode_32bit p8;
       let uba = ncs_dec_skip_space uba sz;
       (rc, params, uba) \<leftarrow> dec_cbk_params callback_type uba;
       Some (rc, Gla_clbk_info \<lparr>cb_callback_type = callback_type, cb_resourceId = resourceId,
         cb_params = params\<rparr>, uba) } }"

definition dec_resp_param :: "u32 \<Rightarrow> NCS_UBAID \<Rightarrow> (rc \<times> gla_resp_param \<times> NCS_UBAID) option" where
  "dec_resp_param t uba =
     (if t = GLSV_GLA_LOCK_RES_OPEN then do {
        p8 \<leftarrow> ncs_dec_flatten_space uba LOCAL_DATA 4;
        case p8 of None \<Rightarrow> Some (NCSCC_RC_FAILURE, Resp_zero, uba) | Some p8 \<Rightarrow> do {
          (resourceId, p8) \<leftarrow> ncs_decode_32bit p8;
          Some (NCSCC_RC_SUCCESS, Resp_res_open resourceId, ncs_dec_skip_space uba 4) } }
      else if t = GLSV_GLA_LOCK_SYNC_LOCK then do {
        let sz = 8 + 4;
        p8 \<leftarrow> ncs_dec_flatten_space uba LOCAL_DATA sz;
        case p8 of None \<Rightarrow> Some (NCSCC_RC_FAILURE, Resp_zero, uba) | Some p8 \<Rightarrow> do {
          (lockId, p8) \<leftarrow> ncs_decode_64bit p8;
          (lockStatus, p8) \<leftarrow> ncs_decode_32bit p8;
          Some (NCSCC_RC_SUCCESS, Resp_sync_lock lockId lockStatus, ncs_dec_skip_space uba sz) } }
      else if t = GLSV_GLA_LIMIT_GET then do {
        p8 \<leftarrow> ncs_dec_flatten_space uba LOCAL_DATA 8;
        case p8 of None \<Rightarrow> Some (NCSCC_RC_FAILURE, Resp_zero, uba) | Some p8 \<Rightarrow> do {
          (maxNumLocks, p8) \<leftarrow> ncs_decode_64bit p8;
          Some (NCSCC_RC_SUCCESS, Resp_limit_get maxNumLocks, ncs_dec_skip_space uba 8) } }
      else Some (NCSCC_RC_SUCCESS, Resp_zero, uba))"

definition glsv_gla_dec_api_resp_evt :: "NCS_UBAID \<Rightarrow> (rc \<times> gla_evt_info \<times> NCS_UBAID) option" where
  "glsv_gla_dec_api_resp_evt uba = do {
     let sz = 2 * 4;
     p8 \<leftarrow> ncs_dec_flatten_space uba LOCAL_DATA sz;
     case p8 of None \<Rightarrow> Some (NCSCC_RC_FAILURE, Gla_zero, uba) | Some p8 \<Rightarrow> do {
       (prc_id, p8) \<leftarrow> ncs_decode_32bit p8;
       (t, p8) \<leftarrow> ncs_decode_32bit p8;
       let uba = ncs_dec_skip_space uba sz;
       (rc, param, uba) \<leftarrow> dec_resp_param t uba;
       Some (rc, Gla_resp_info \<lparr>ar_prc_id = prc_id, ar_type = t, ar_param = param\<rparr>, uba) } }"

definition glsv_gla_dec_clm_evt :: "NCS_UBAID \<Rightarrow> (rc \<times> gla_evt_info \<times> NCS_UBAID) option" where
  "glsv_gla_dec_clm_evt uba = do {
     p8 \<leftarrow> ncs_dec_flatten_space uba LOCAL_DATA 4;
     case p8 of None \<Rightarrow> Some (NCSCC_RC_FAILURE, Gla_zero, uba) | Some p8 \<Rightarrow> do {
       (isClusterMember, uba) \<leftarrow> osaf_decode_bool uba;
       Some (NCSCC_RC_SUCCESS, Gla_clm_info isClusterMember, ncs_dec_skip_space uba 4) } }"

text \<open>The return code of the decoder of the body is not looked at.\<close>

definition gla_mds_dec ::
    "GLSV_GLA_EVT MDS_CALLBACK_DEC_INFO \<Rightarrow> (rc \<times> GLSV_GLA_EVT MDS_CALLBACK_DEC_INFO) option" where
  "gla_mds_dec info =
     (if i_fr_svc_id info = NCSMDS_SVC_ID_GLND \<and>
         m_NCS_MSG_FORMAT_IS_VALID (i_msg_fmt_ver info)
           SUBPART_VER_AT_MIN_MSG_FMT SUBPART_VER_AT_MAX_MSG_FMT msg_fmt_table then do {
        p8 \<leftarrow> ncs_dec_flatten_space (d_uba info) LOCAL_DATA 16;
        p8 \<leftarrow> p8;
        (handle, p8) \<leftarrow> ncs_decode_64bit p8;
        (err, p8) \<leftarrow> ncs_decode_32bit p8;
        (t, p8) \<leftarrow> ncs_decode_32bit p8;
        let uba = ncs_dec_skip_space (d_uba info) 16;
        let evt = \<lparr>ge_handle = handle, ge_error = err, ge_type = t, ge_info = Gla_zero\<rparr>;
        if t = GLSV_GLA_CALLBK_EVT \<or> t = GLSV_GLA_API_RESP_EVT \<or> t = GLSV_GLA_CLM_EVT then do {
          (_, i, uba) \<leftarrow> (if t = GLSV_GLA_CALLBK_EVT then glsv_gla_dec_callbk_evt uba
                          else if t = GLSV_GLA_API_RESP_EVT then glsv_gla_dec_api_resp_evt uba
                          else glsv_gla_dec_clm_evt uba);
          Some (NCSCC_RC_SUCCESS, info\<lparr>d_uba := uba, o_msg := Some (evt\<lparr>ge_info := i\<rparr>)\<rparr>) }
        else Some (NCSCC_RC_FAILURE, info\<lparr>d_uba := uba, o_msg := Some evt\<rparr>) }
      else Some (NCSCC_RC_FAILURE, info))"

end
