(* ===== verification/Gla_Enc.thy ===== *)
theory Gla_Enc
  imports Gla_Resp
begin

text \<open>
  The wire format of every message as a list of octets, and that the encoders append exactly
  these octets to a buffer with room for them.
\<close>

section \<open>Wire formats\<close>

definition wire_agent_info :: "GLSV_EVT_AGENT_INFO \<Rightarrow> bytes" where
  "wire_agent_info i = octets64 (ai_agent_mds_dest i) @ octets32 (ai_process_id i)"

definition wire_client_info :: "GLSV_EVT_CLIENT_INFO \<Rightarrow> bytes" where
  "wire_client_info i = octets64 (ci_agent_mds_dest i) @ octets32 (ci_client_proc_id i) @
     octets32 (ucast (ci_cbk_reg_info i)) @ octets8 (ucast (releaseCode (ci_version i))) @
     octets8 (ucast (majorVersion (ci_version i))) @ octets8 (ucast (minorVersion (ci_version i)))"

definition wire_finalize_info :: "GLSV_EVT_FINALIZE_INFO \<Rightarrow> bytes" where
  "wire_finalize_info i = octets64 (fi_agent_mds_dest i) @ octets64 (fi_handle_id i)"

definition wire_rsc_close :: "GLSV_EVT_RSC_INFO \<Rightarrow> bytes" where
  "wire_rsc_close i = octets64 (rs_agent_mds_dest i) @ octets64 (rs_client_handle_id i) @
     octets64 (rs_lcl_lockid i) @ octets64 (rs_timeout i) @ octets64 (rs_invocation i) @
     octets32 (rs_resource_id i) @ octets32 (rs_lcl_resource_id i) @ octets32 (rs_flag i) @
     octets32 (rs_call_type i) @ octets32 (rs_lcl_resource_id_count i)"

definition wire_rsc_open :: "GLSV_EVT_RSC_INFO \<Rightarrow> bytes" where
  "wire_rsc_open i = wire_rsc_close i @ octets16 (ucast (name_length (rs_resource_name i))) @
     take (unat (name_length (rs_resource_name i))) (name_value (rs_resource_name i))"

definition wire_rsc_lock :: "GLSV_EVT_RSC_LOCK_INFO \<Rightarrow> bytes" where
  "wire_rsc_lock i = octets64 (rl_agent_mds_dest i) @ octets64 (rl_lcl_lockid i) @
     octets64 (rl_client_handle_id i) @ octets64 (rl_waiter_signal i) @ octets64 (rl_invocation i) @
     octets64 (rl_timeout i) @ octets32 (rl_resource_id i) @ octets32 (rl_lcl_resource_id i) @
     octets32 (rl_lock_type i) @ octets32 (rl_lockFlags i) @ octets32 (rl_call_type i) @
     octets32 (rl_status i)"

definition wire_rsc_unlock :: "GLSV_EVT_RSC_UNLOCK_INFO \<Rightarrow> bytes" where
  "wire_rsc_unlock i = octets64 (ul_agent_mds_dest i) @ octets64 (ul_client_handle_id i) @
     octets64 (ul_lockid i) @ octets64 (ul_lcl_lockid i) @ octets64 (ul_invocation i) @
     octets64 (ul_timeout i) @ octets32 (ul_resource_id i) @ octets32 (ul_lcl_resource_id i) @
     octets32 (ul_call_type i)"

definition wire_rsc_purge :: "GLSV_EVT_RSC_INFO \<Rightarrow> bytes" where
  "wire_rsc_purge i = octets64 (rs_agent_mds_dest i) @ octets64 (rs_client_handle_id i) @
     octets64 (rs_invocation i) @ octets32 (rs_resource_id i) @ octets32 (rs_call_type i)"

definition wire_restart_client :: "GLSV_EVT_RESTART_CLIENT_INFO \<Rightarrow> bytes" where
  "wire_restart_client i = octets64 (rc_agent_mds_dest i) @ octets64 (rc_client_handle_id i) @
     octets32 (rc_app_proc_id i) @ octets16 (ucast (rc_cbk_reg_info i))"

lemmas enc_forward = Let_def ncs_encode_8bit_def ncs_encode_16bit_def ncs_encode_32bit_def
  ncs_encode_64bit_def wire_simps

section \<open>Request bodies\<close>

lemma enc_agent:
  "room 12 u \<Longrightarrow> glsv_enc_reg_unreg_agent_evt u i = Some (NCSCC_RC_SUCCESS, appended u (wire_agent_info i))"
  by (simp add: glsv_enc_reg_unreg_agent_evt_def wire_agent_info_def enc_forward del: bind_Some_iff)

lemma enc_client:
  "room 19 u \<Longrightarrow> glsv_enc_initialize_evt u i = Some (NCSCC_RC_SUCCESS, appended u (wire_client_info i))"
  by (simp add: glsv_enc_initialize_evt_def wire_client_info_def enc_forward del: bind_Some_iff)

lemma enc_finalize:
  "room 16 u \<Longrightarrow> glsv_enc_finalize_evt u i = Some (NCSCC_RC_SUCCESS, appended u (wire_finalize_info i))"
  by (simp add: glsv_enc_finalize_evt_def wire_finalize_info_def enc_forward del: bind_Some_iff)

lemma enc_close:
  "room 60 u \<Longrightarrow> glsv_enc_rsc_close_evt u i = Some (NCSCC_RC_SUCCESS, appended u (wire_rsc_close i))"
  by (simp add: glsv_enc_rsc_close_evt_def wire_rsc_close_def enc_forward del: bind_Some_iff)

lemma enc_lock:
  "room 72 u \<Longrightarrow> glsv_enc_rsc_lock_evt u i = Some (NCSCC_RC_SUCCESS, appended u (wire_rsc_lock i))"
  by (simp add: glsv_enc_rsc_lock_evt_def wire_rsc_lock_def enc_forward del: bind_Some_iff)

lemma enc_unlock:
  "room 60 u \<Longrightarrow> glsv_enc_rsc_unlock_evt u i = Some (NCSCC_RC_SUCCESS, appended u (wire_rsc_unlock i))"
  by (simp add: glsv_enc_rsc_unlock_evt_def wire_rsc_unlock_def enc_forward del: bind_Some_iff)

lemma enc_purge:
  "room 32 u \<Longrightarrow> glsv_enc_rsc_purge_evt u i = Some (NCSCC_RC_SUCCESS, appended u (wire_rsc_purge i))"
  by (simp add: glsv_enc_rsc_purge_evt_def wire_rsc_purge_def enc_forward del: bind_Some_iff)

lemma enc_restart_client:
  "room 22 u \<Longrightarrow> glsv_enc_client_info_evt u i = Some (NCSCC_RC_SUCCESS, appended u (wire_restart_client i))"
  by (simp add: glsv_enc_client_info_evt_def wire_restart_client_def enc_forward del: bind_Some_iff)

lemma uba_res_appended [simp]: "uba_res (appended u w) = 0"
  by (simp add: appended_def)

lemma enc_open:
  assumes "room n u" "62 + unat (name_length (rs_resource_name i)) \<le> n"
    and "unat (name_length (rs_resource_name i)) \<le> length (name_value (rs_resource_name i))"
  shows "glsv_enc_rsc_open_evt u i = Some (NCSCC_RC_SUCCESS, appended u (wire_rsc_open i))"
proof -
  define w where "w = wire_rsc_close i @ octets16 (ucast (name_length (rs_resource_name i)))"
  let ?len = "unat (name_length (rs_resource_name i))"
  have r: "room 62 u" using assms by (auto intro: room_mono)
  have lw: "length w = 62" by (simp add: w_def wire_rsc_close_def)
  have ra: "room ?len (appended u w)" using assms lw by (auto intro: room_appended)
  have "ncs_encode_n_octets_in_uba (appended u w) (name_value (rs_resource_name i)) ?len =
      Some (NCSCC_RC_SUCCESS, appended (appended u w) (take ?len (name_value (rs_resource_name i))))"
    using assms(3) by (intro put_octets_room[OF ra]) auto
  also have "appended (appended u w) (take ?len (name_value (rs_resource_name i))) = appended u (wire_rsc_open i)"
    using r by (simp add: appended_appended w_def wire_rsc_open_def)
  finally have oct: "ncs_encode_n_octets_in_uba (appended u w) (name_value (rs_resource_name i)) ?len =
      Some (NCSCC_RC_SUCCESS, appended u (wire_rsc_open i))" .
  show ?thesis using r oct unfolding w_def wire_rsc_close_def
    by (simp add: glsv_enc_rsc_open_evt_def enc_forward del: bind_Some_iff)
qed

section \<open>Callbacks and responses\<close>

definition wire_res_open_cbk :: "GLSV_LOCK_RES_OPEN_PARAM \<Rightarrow> bytes" where
  "wire_res_open_cbk i = octets64 (op_invocation i) @ octets32 (op_resourceId i) @ octets32 (op_error i)"

definition wire_grant_cbk :: "GLSV_LOCK_GRANT_PARAM \<Rightarrow> bytes" where
  "wire_grant_cbk i = octets64 (gp_invocation i) @ octets64 (gp_lockId i) @ octets64 (gp_lcl_lockId i) @
     octets32 (gp_lockMode i) @ octets32 (gp_resourceId i) @ octets32 (gp_lockStatus i) @ octets32 (gp_error i)"

definition wire_waiter_cbk :: "GLSV_LOCK_WAITER_PARAM \<Rightarrow> bytes" where
  "wire_waiter_cbk i = octets64 (wp_invocation i) @ octets64 (wp_lockId i) @ octets64 (wp_lcl_lockId i) @
     octets32 (ucast (wp_wait_signal i)) @ octets32 (wp_resourceId i) @ octets32 (wp_modeHeld i) @
     octets32 (wp_modeRequested i)"

definition wire_unlock_cbk :: "GLSV_LOCK_UNLOCK_PARAM \<Rightarrow> bytes" where
  "wire_unlock_cbk i = octets64 (up_invocation i) @ octets64 (up_lockId i) @ octets32 (up_resourceId i) @
     octets32 (up_lockStatus i) @ octets32 (up_error i)"

fun wire_cbk_params :: "gla_cbk_params \<Rightarrow> bytes" where
  "wire_cbk_params Params_zero = []"
| "wire_cbk_params (Res_open i) = wire_res_open_cbk i"
| "wire_cbk_params (Lck_grant i) = wire_grant_cbk i"
| "wire_cbk_params (Lck_wait i) = wire_waiter_cbk i"
| "wire_cbk_params (Unlock_cbk i) = wire_unlock_cbk i"

fun cbk_type_of :: "gla_cbk_params \<Rightarrow> u32" where
  "cbk_type_of Params_zero = 0"
| "cbk_type_of (Res_open i) = GLSV_LOCK_RES_OPEN_CBK"
| "cbk_type_of (Lck_grant i) = GLSV_LOCK_GRANT_CBK"
| "cbk_type_of (Lck_wait i) = GLSV_LOCK_WAITER_CBK"
| "cbk_type_of (Unlock_cbk i) = GLSV_LOCK_UNLOCK_CBK"

definition wire_callback :: "GLSV_GLA_CALLBACK_INFO \<Rightarrow> bytes" where
  "wire_callback i = octets32 (cb_callback_type i) @ octets32 (cb_resourceId i) @ wire_cbk_params (cb_params i)"

lemma enc_res_open_cbk:
  "room 16 u \<Longrightarrow> enc_res_open_cbk u i = Some (NCSCC_RC_SUCCESS, appended u (wire_res_open_cbk i))"
  by (simp add: enc_res_open_cbk_def wire_res_open_cbk_def enc_forward del: bind_Some_iff)

lemma enc_grant_cbk:
  "room 40 u \<Longrightarrow> enc_grant_cbk u i = Some (NCSCC_RC_SUCCESS, appended u (wire_grant_cbk i))"
  by (simp add: enc_grant_cbk_def wire_grant_cbk_def enc_forward del: bind_Some_iff)

lemma enc_waiter_cbk:
  "room 40 u \<Longrightarrow> enc_waiter_cbk u i = Some (NCSCC_RC_SUCCESS, appended u (wire_waiter_cbk i))"
  by (simp add: enc_waiter_cbk_def wire_waiter_cbk_def enc_forward del: bind_Some_iff)

lemma enc_unlock_cbk:
  "room 28 u \<Longrightarrow> enc_unlock_cbk u i = Some (NCSCC_RC_SUCCESS, appended u (wire_unlock_cbk i))"
  by (simp add: enc_unlock_cbk_def wire_unlock_cbk_def enc_forward del: bind_Some_iff)

lemma enc_callback:
  assumes "room n u" "48 \<le> n" "cb_callback_type i = cbk_type_of (cb_params i)" "cb_params i \<noteq> Params_zero"
  shows "glsv_gla_enc_callbk_evt u i = Some (NCSCC_RC_SUCCESS, appended u (wire_callback i))"
proof -
  define w where "w = octets32 (cb_callback_type i) @ octets32 (cb_resourceId i)"
  have r: "room 8 u" using assms by (auto intro: room_mono)
  have lw: "length w = 8" by (simp add: w_def)
  have ra: "room 40 (appended u w)" using assms lw by (auto intro: room_appended)
  note rm = room_mono[OF ra]
  have body: "appended (appended u w) (wire_cbk_params (cb_params i)) = appended u (wire_callback i)"
    using r by (simp add: appended_appended w_def wire_callback_def)
  note params = enc_res_open_cbk[OF rm] enc_grant_cbk[OF rm] enc_waiter_cbk[OF rm] enc_unlock_cbk[OF rm]
  show ?thesis using r assms(3,4) body params unfolding w_def
    by (cases "cb_params i")
      (simp_all add: glsv_gla_enc_callbk_evt_def enc_forward gla_type_defs del: bind_Some_iff)
qed

definition wire_resp :: "GLSV_GLA_API_RESP_INFO \<Rightarrow> bytes" where
  "wire_resp i = octets32 (ar_prc_id i) @ octets32 (ar_type i) @
     (case ar_param i of Resp_res_open r \<Rightarrow> octets32 r | Resp_sync_lock l s \<Rightarrow> octets64 l @ octets32 s
      | _ \<Rightarrow> [])"

text \<open>The parameter of a response belongs to its type; a response without one has none.\<close>

definition resp_ok :: "GLSV_GLA_API_RESP_INFO \<Rightarrow> bool" where
  "resp_ok i \<longleftrightarrow> (case ar_param i of
      Resp_zero \<Rightarrow> ar_type i \<notin> {GLSV_GLA_LOCK_RES_OPEN, GLSV_GLA_LOCK_SYNC_LOCK, GLSV_GLA_LIMIT_GET}
    | Resp_res_open _ \<Rightarrow> ar_type i = GLSV_GLA_LOCK_RES_OPEN
    | Resp_sync_lock _ _ \<Rightarrow> ar_type i = GLSV_GLA_LOCK_SYNC_LOCK
    | Resp_limit_get _ \<Rightarrow> False)"

lemma enc_resp:
  assumes "room n u" "20 \<le> n" "resp_ok i"
  shows "glsv_gla_enc_api_resp_evt u i = Some (NCSCC_RC_SUCCESS, appended u (wire_resp i))"
proof -
  define w where "w = octets32 (ar_prc_id i) @ octets32 (ar_type i)"
  have r: "room 8 u" using assms by (auto intro: room_mono)
  have lw: "length w = 8" by (simp add: w_def)
  have ra: "room 12 (appended u w)" using assms lw by (auto intro: room_appended)
  note rm = room_mono[OF ra, of 4] ra
  show ?thesis using r assms(3) rm unfolding w_def
    by (cases "ar_param i")
      (simp_all add: glsv_gla_enc_api_resp_evt_def wire_resp_def resp_ok_def enc_forward gla_type_defs
        del: bind_Some_iff)
qed

end
