(* ===== verification/Gla_Dec.thy ===== *)
theory Gla_Dec
  imports Gla_Enc
begin

text \<open>
  The decoders give back what the wire formats hold, when the octets of a message are in one
  buffer, and the messages of both directions are put together.
\<close>

section \<open>Request bodies\<close>

lemmas decode_last = decode_octets8[of _ "[]", simplified append_Nil2]
  decode_octets16[of _ "[]", simplified append_Nil2] decode_octets32[of _ "[]", simplified append_Nil2]
  decode_octets64[of _ "[]", simplified append_Nil2]

lemma ucast_back [simp]:
  "ucast (ucast a :: u32) = (a :: u8)" "ucast (ucast b :: u32) = (b :: u16)"
  by (rule bit_eqI, auto simp: bit_simps)+

lemmas dec_forward = Let_def wire_simps decode_last

lemma length_wire [simp]:
  "length (wire_agent_info a) = 12" "length (wire_client_info c) = 19"
  "length (wire_finalize_info f) = 16" "length (wire_rsc_close r) = 60" "length (wire_rsc_purge r) = 32"
  "length (wire_rsc_lock l) = 72" "length (wire_rsc_unlock v) = 60" "length (wire_restart_client x) = 22"
  by (simp_all add: wire_agent_info_def wire_client_info_def wire_finalize_info_def wire_rsc_close_def
      wire_rsc_purge_def wire_rsc_lock_def wire_rsc_unlock_def wire_restart_client_def)

lemma dec_agent:
  assumes "reading u (wire_agent_info i @ r)"
  shows "glsv_dec_reg_unreg_agent_evt u = Some (NCSCC_RC_SUCCESS, Agent_info i, ncs_dec_skip_space u 12)"
  using flatten_reading[OF assms]
  by (simp add: glsv_dec_reg_unreg_agent_evt_def dec_forward wire_agent_info_def del: bind_Some_iff)

lemma dec_client:
  assumes "reading u (wire_client_info i @ r)"
  shows "glsv_dec_initialize_evt u = Some (NCSCC_RC_SUCCESS, Client_info i, ncs_dec_skip_space u 19)"
  using flatten_reading[OF assms]
  by (simp add: glsv_dec_initialize_evt_def dec_forward wire_client_info_def del: bind_Some_iff)

lemma dec_finalize:
  assumes "reading u (wire_finalize_info i @ r)"
  shows "glsv_dec_finalize_evt u = Some (NCSCC_RC_SUCCESS, Finalize_info i, ncs_dec_skip_space u 16)"
  using flatten_reading[OF assms]
  by (simp add: glsv_dec_finalize_evt_def dec_forward wire_finalize_info_def del: bind_Some_iff)

lemma dec_close:
  assumes "reading u (wire_rsc_close i @ r)" "rs_resource_name i = name_zero"
  shows "glsv_dec_rsc_close_evt u = Some (NCSCC_RC_SUCCESS, Rsc_info i, ncs_dec_skip_space u 60)"
  using flatten_reading[OF assms(1)] assms(2)
  by (simp add: glsv_dec_rsc_close_evt_def dec_forward wire_rsc_close_def del: bind_Some_iff)

lemma dec_lock:
  assumes "reading u (wire_rsc_lock i @ r)"
  shows "glsv_dec_rsc_lock_evt u = Some (NCSCC_RC_SUCCESS, Rsc_lock_info i, ncs_dec_skip_space u 72)"
  using flatten_reading[OF assms]
  by (simp add: glsv_dec_rsc_lock_evt_def dec_forward wire_rsc_lock_def del: bind_Some_iff)

lemma dec_unlock:
  assumes "reading u (wire_rsc_unlock i @ r)"
  shows "glsv_dec_rsc_unlock_evt u = Some (NCSCC_RC_SUCCESS, Rsc_unlock_info i, ncs_dec_skip_space u 60)"
  using flatten_reading[OF assms]
  by (simp add: glsv_dec_rsc_unlock_evt_def dec_forward wire_rsc_unlock_def del: bind_Some_iff)

text \<open>A purge carries five fields of its structure; the others are 0.\<close>

definition purge_ok :: "GLSV_EVT_RSC_INFO \<Rightarrow> bool" where
  "purge_ok i \<longleftrightarrow> i = rsc_info_zero\<lparr>rs_client_handle_id := rs_client_handle_id i,
     rs_agent_mds_dest := rs_agent_mds_dest i, rs_resource_id := rs_resource_id i,
     rs_invocation := rs_invocation i, rs_call_type := rs_call_type i\<rparr>"

lemma dec_purge:
  assumes "reading u (wire_rsc_purge i @ r)" "purge_ok i"
  shows "glsv_dec_rsc_purge_evt u = Some (NCSCC_RC_SUCCESS, Rsc_info i, ncs_dec_skip_space u 32)"
  using flatten_reading[OF assms(1)] assms(2)[unfolded purge_ok_def, symmetric]
  by (simp add: glsv_dec_rsc_purge_evt_def dec_forward wire_rsc_purge_def del: bind_Some_iff)

text \<open>A name is at most as long as its array, and the array is 0 behind it.\<close>

definition name_ok :: "SaNameT \<Rightarrow> bool" where
  "name_ok n \<longleftrightarrow> length (name_value n) = SA_MAX_NAME_LENGTH \<and>
     unat (name_length n) \<le> SA_MAX_NAME_LENGTH \<and>
     drop (unat (name_length n)) (name_value n) = replicate (SA_MAX_NAME_LENGTH - unat (name_length n)) 0"

lemma name_store_ok:
  assumes "name_ok n"
  shows "name_store (name_length n) (take (unat (name_length n)) (name_value n)) = n"
proof -
  have "take (unat (name_length n)) (name_value n) @ replicate (SA_MAX_NAME_LENGTH - unat (name_length n)) 0
      = name_value n"
    using assms unfolding name_ok_def by (metis append_take_drop_id)
  then show ?thesis using assms by (simp add: name_store_def name_zero_def name_ok_def min_def)
qed

lemma dec_open:
  assumes "reading u (wire_rsc_open i)" "name_ok (rs_resource_name i)"
  shows "\<exists>v. glsv_dec_rsc_open_evt u = Some (NCSCC_RC_SUCCESS, Rsc_info i, v) \<and> uc_ub (uba_ub v) = []"
proof -
  let ?len = "unat (name_length (rs_resource_name i))"
  define name where "name = take ?len (name_value (rs_resource_name i))"
  define hdr where "hdr = wire_rsc_close i @ octets16 (ucast (name_length (rs_resource_name i)))"
  have len: "length name = ?len" using assms(2) by (simp add: name_def name_ok_def)
  have rd: "reading u (hdr @ name)" using assms(1) by (simp add: hdr_def name_def wire_rsc_open_def)
  have lh: "length hdr = 62" by (simp add: hdr_def)
  have rest: "reading (ncs_dec_skip_space u 62) (name @ [])" using skip_reading[OF rd lh] by simp
  obtain rc v where v: "ncs_decode_n_octets_from_uba (ncs_dec_skip_space u 62) SA_MAX_NAME_LENGTH ?len
        = Some (rc, name, v)" "uc_ub (uba_ub v) = []"
  proof (cases "?len = 0")
    case True
    then have "\<not> uba_start (ncs_dec_skip_space u 62)" "uc_ub (uba_ub (ncs_dec_skip_space u 62)) = []" "name = []"
      using rest len by (auto simp: reading_def)
    then have "ncs_decode_n_octets_from_uba (ncs_dec_skip_space u 62) SA_MAX_NAME_LENGTH ?len
        = Some (NCSCC_RC_FAILURE, name, ncs_dec_skip_space u 62)"
      by (simp add: ncs_decode_n_octets_from_uba_def Let_def)
    then show ?thesis using that \<open>uc_ub (uba_ub (ncs_dec_skip_space u 62)) = []\<close> by blast
  next
    case False
    have "?len \<le> SA_MAX_NAME_LENGTH" using assms(2) by (simp add: name_ok_def)
    then show ?thesis
      using take_octets_reading[OF rest len] skip_reading[OF rest len] False that
      by (auto simp: reading_def)
  qed
  show ?thesis
    using flatten_reading[OF rd lh] v name_store_ok[OF assms(2)] unfolding name_def [symmetric]
    by (simp add: glsv_dec_rsc_open_evt_def dec_forward hdr_def wire_rsc_close_def del: bind_Some_iff)
qed

section \<open>Requests\<close>

text \<open>The requests of the agent, with the fields that are not transmitted left 0.\<close>

definition request_ok :: "GLSV_GLND_EVT \<Rightarrow> bool" where
  "request_ok evt \<longleftrightarrow> (case ne_info evt of
      Agent_info _ \<Rightarrow> ne_type evt \<in> {GLSV_GLND_EVT_REG_AGENT, GLSV_GLND_EVT_UNREG_AGENT}
    | Client_info _ \<Rightarrow> ne_type evt = GLSV_GLND_EVT_INITIALIZE
    | Finalize_info _ \<Rightarrow> ne_type evt = GLSV_GLND_EVT_FINALIZE
    | Rsc_info i \<Rightarrow>
        ne_type evt = GLSV_GLND_EVT_RSC_OPEN \<and> name_ok (rs_resource_name i) \<or>
        ne_type evt = GLSV_GLND_EVT_RSC_CLOSE \<and> rs_resource_name i = name_zero \<or>
        ne_type evt = GLSV_GLND_EVT_RSC_PURGE \<and> purge_ok i
    | Rsc_lock_info _ \<Rightarrow> ne_type evt = GLSV_GLND_EVT_RSC_LOCK
    | Rsc_unlock_info _ \<Rightarrow> ne_type evt = GLSV_GLND_EVT_RSC_UNLOCK
    | _ \<Rightarrow> False)"

definition wire_request_body :: "GLSV_GLND_EVT \<Rightarrow> bytes" where
  "wire_request_body evt = (case ne_info evt of
      Agent_info i \<Rightarrow> wire_agent_info i
    | Client_info i \<Rightarrow> wire_client_info i
    | Finalize_info i \<Rightarrow> wire_finalize_info i
    | Rsc_info i \<Rightarrow>
        if ne_type evt = GLSV_GLND_EVT_RSC_OPEN then wire_rsc_open i
        else if ne_type evt = GLSV_GLND_EVT_RSC_CLOSE then wire_rsc_close i else wire_rsc_purge i
    | Rsc_lock_info i \<Rightarrow> wire_rsc_lock i
    | Rsc_unlock_info i \<Rightarrow> wire_rsc_unlock i
    | Restart_client_info i \<Rightarrow> wire_restart_client i
    | _ \<Rightarrow> [])"

definition wire_request :: "GLSV_GLND_EVT \<Rightarrow> bytes" where
  "wire_request evt = octets32 (ne_type evt) @ wire_request_body evt"

lemma enc_body:
  assumes "room 330 u" "request_ok evt"
  shows "gla_enc_body u evt = Some (Some (NCSCC_RC_SUCCESS, appended u (wire_request_body evt)))"
proof -
  note rm = room_mono[OF assms(1)]
  note encs = enc_agent[OF rm] enc_client[OF rm] enc_finalize[OF rm] enc_close[OF rm] enc_lock[OF rm]
    enc_unlock[OF rm] enc_purge[OF rm]
  have op: "name_ok (rs_resource_name i) \<Longrightarrow>
      glsv_enc_rsc_open_evt u i = Some (NCSCC_RC_SUCCESS, appended u (wire_rsc_open i))" for i
    by (rule enc_open[OF assms(1)]) (auto simp: name_ok_def SA_MAX_NAME_LENGTH_def)
  show ?thesis
    using assms(2) op encs
    by (cases "ne_info evt")
      (auto simp: request_ok_def gla_enc_body_def wire_request_body_def evt_type_defs)
qed

lemma dec_body:
  assumes "reading u (wire_request_body evt)" "request_ok evt"
  shows "\<exists>v. glnd_dec_body (ne_type evt) u = Some (Some (NCSCC_RC_SUCCESS, ne_info evt, v)) \<and>
    uc_ub (uba_ub v) = []"
proof -
  have used: "uc_ub (uba_ub (ncs_dec_skip_space u n)) = []" if "reading u bs" "length bs = n" "0 < n" for bs n
    using skip_reading[of u bs "[]" n] that by (simp add: reading_def)
  note rd = assms(1)[unfolded wire_request_body_def]
  note decs = dec_agent[of _ _ "[]", simplified append_Nil2] dec_client[of _ _ "[]", simplified append_Nil2]
    dec_finalize[of _ _ "[]", simplified append_Nil2] dec_close[of _ _ "[]", simplified append_Nil2]
    dec_lock[of _ _ "[]", simplified append_Nil2] dec_unlock[of _ _ "[]", simplified append_Nil2]
    dec_purge[of _ _ "[]", simplified append_Nil2]
  show ?thesis
  proof (cases "ne_info evt")
    case (Rsc_info i)
    then consider "ne_type evt = GLSV_GLND_EVT_RSC_OPEN" "name_ok (rs_resource_name i)"
      | "ne_type evt = GLSV_GLND_EVT_RSC_CLOSE" "rs_resource_name i = name_zero"
      | "ne_type evt = GLSV_GLND_EVT_RSC_PURGE" "purge_ok i"
      using assms(2) by (auto simp: request_ok_def)
    then show ?thesis
    proof cases
      case 1
      then show ?thesis using rd Rsc_info dec_open[of u i]
        by (auto simp: glnd_dec_body_def evt_type_defs)
    qed (use rd Rsc_info in \<open>auto simp: glnd_dec_body_def evt_type_defs decs used\<close>)
  qed (use assms(2) rd in \<open>auto simp: request_ok_def glnd_dec_body_def evt_type_defs decs used\<close>)
qed

end
