(* ===== verification/Gla_Props.thy ===== *)
theory Gla_Props
  imports Gla_Dec
begin

text \<open>
  The properties of the protocol between agent and node director: both directions deliver what
  was sent, and the messages for which the code of the two sides does not fit.
\<close>

section \<open>Decoding callbacks and responses\<close>

lemma length_wire_cbk [simp]:
  "length (wire_res_open_cbk r) = 16" "length (wire_grant_cbk g) = 40" "length (wire_waiter_cbk w) = 40"
  "length (wire_unlock_cbk u) = 28"
  by (simp_all add: wire_res_open_cbk_def wire_grant_cbk_def wire_waiter_cbk_def wire_unlock_cbk_def)

lemma skip_all:
  assumes "reading u bs" "length bs = n" "0 < n"
  shows "uc_ub (uba_ub (ncs_dec_skip_space u n)) = []"
  using skip_reading[of u bs "[]" n] assms by (simp add: reading_def)

lemma flatten_all:
  assumes "reading u bs" "length bs = n" "0 < n"
  shows "ncs_dec_flatten_space u cap n = Some (Some bs)"
  using flatten_reading[of u bs "[]" n] assms by simp

text \<open>The waiter signal travels in 32 bits.\<close>

definition signal_ok :: "gla_cbk_params \<Rightarrow> bool" where
  "signal_ok p \<longleftrightarrow> (case p of Lck_wait w \<Rightarrow> unat (wp_wait_signal w) < 2 ^ 32 | _ \<Rightarrow> True)"

lemma signal_back:
  assumes "unat s < 2 ^ 32"
  shows "ucast (ucast (s::u64) :: u32) = s"
  using assms by (intro unsigned_word_eqI[where 'a = nat])
    (simp add: unsigned_ucast_eq unsigned_take_bit_eq take_bit_nat_eq_self)

lemma dec_cbk:
  assumes "reading u (wire_cbk_params p)" "p \<noteq> Params_zero" "signal_ok p"
  shows "\<exists>v. dec_cbk_params (cbk_type_of p) u = Some (NCSCC_RC_SUCCESS, p, v) \<and> uc_ub (uba_ub v) = []"
  using assms flatten_all[OF assms(1)] skip_all[OF assms(1)]
  by (cases p)
    (simp_all add: dec_cbk_params_def gla_type_defs dec_forward wire_res_open_cbk_def wire_grant_cbk_def
      wire_waiter_cbk_def wire_unlock_cbk_def signal_ok_def signal_back del: bind_Some_iff)

lemma dec_callback:
  assumes "reading u (wire_callback i)" "cb_callback_type i = cbk_type_of (cb_params i)"
    "cb_params i \<noteq> Params_zero" "signal_ok (cb_params i)"
  shows "\<exists>v. glsv_gla_dec_callbk_evt u = Some (NCSCC_RC_SUCCESS, Gla_clbk_info i, v) \<and> uc_ub (uba_ub v) = []"
proof -
  have rd: "reading u ((octets32 (cb_callback_type i) @ octets32 (cb_resourceId i)) @ wire_cbk_params (cb_params i))"
    using assms(1) by (simp add: wire_callback_def)
  obtain v where v: "dec_cbk_params (cbk_type_of (cb_params i)) (ncs_dec_skip_space u 8) =
      Some (NCSCC_RC_SUCCESS, cb_params i, v)" "uc_ub (uba_ub v) = []"
    using dec_cbk[OF skip_reading[OF rd, of 8] assms(3,4)] by auto
  show ?thesis using flatten_reading[OF rd, of 8] v assms(2)
    by (simp add: glsv_gla_dec_callbk_evt_def dec_forward del: bind_Some_iff)
qed

lemma dec_resp:
  assumes "reading u (wire_resp i)" "resp_ok i"
  shows "\<exists>v. glsv_gla_dec_api_resp_evt u = Some (NCSCC_RC_SUCCESS, Gla_resp_info i, v) \<and> uc_ub (uba_ub v) = []"
proof -
  define rest where "rest = (case ar_param i of Resp_res_open r \<Rightarrow> octets32 r
      | Resp_sync_lock l s \<Rightarrow> octets64 l @ octets32 s | _ \<Rightarrow> [])"
  have rd: "reading u ((octets32 (ar_prc_id i) @ octets32 (ar_type i)) @ rest)"
    using assms(1) by (simp add: wire_resp_def rest_def)
  have rs: "reading (ncs_dec_skip_space u 8) rest" using skip_reading[OF rd, of 8] by simp
  have "\<exists>v. dec_resp_param (ar_type i) (ncs_dec_skip_space u 8) = Some (NCSCC_RC_SUCCESS, ar_param i, v) \<and>
      uc_ub (uba_ub v) = []"
    using assms(2) rs flatten_all[OF rs] skip_all[OF rs]
    by (cases "ar_param i")
      (simp_all add: resp_ok_def rest_def dec_resp_param_def gla_type_defs dec_forward reading_def
        del: bind_Some_iff)
  then show ?thesis using flatten_reading[OF rd, of 8]
    by (auto simp add: glsv_gla_dec_api_resp_evt_def dec_forward simp del: bind_Some_iff)
qed

section \<open>Requests\<close>

lemma dec_request:
  assumes b: "m_MMGR_DATA b = wire_request evt" and ok: "request_ok evt"
  shows "\<exists>v'. glnd_mds_dec edu \<lparr>i_fr_svc_id = NCSMDS_SVC_ID_GLA, i_msg_fmt_ver = 1,
                 d_uba = ncs_dec_init_space v [b], o_msg = None\<rparr> =
               Some (NCSCC_RC_SUCCESS, \<lparr>i_fr_svc_id = NCSMDS_SVC_ID_GLA, i_msg_fmt_ver = 1,
                 d_uba = v', o_msg = Some (evt\<lparr>ne_priority := NCS_IPC_PRIORITY_NORMAL\<rparr>)\<rparr>) \<and>
               uc_ub (uba_ub v') = []"
proof -
  define w where "w = ncs_dec_init_space v [b]"
  have rd: "reading w (octets32 (ne_type evt) @ wire_request_body evt)"
    unfolding w_def by (rule reading_init) (simp_all add: b wire_request_def octets32_def)
  have rs: "reading (ncs_dec_skip_space w 4) (wire_request_body evt)" using skip_reading[OF rd] by simp
  obtain v' where v': "glnd_dec_body (ne_type evt) (ncs_dec_skip_space w 4) =
      Some (Some (NCSCC_RC_SUCCESS, ne_info evt, v'))" "uc_ub (uba_ub v') = []"
    using dec_body[OF rs ok] by blast
  have "glnd_mds_dec edu \<lparr>i_fr_svc_id = NCSMDS_SVC_ID_GLA, i_msg_fmt_ver = 1, d_uba = w, o_msg = None\<rparr> =
      Some (NCSCC_RC_SUCCESS, \<lparr>i_fr_svc_id = NCSMDS_SVC_ID_GLA, i_msg_fmt_ver = 1,
        d_uba = v', o_msg = Some (evt\<lparr>ne_priority := NCS_IPC_PRIORITY_NORMAL\<rparr>)\<rparr>)"
    using flatten_reading[OF rd, of 4] v'
    by (simp add: glnd_mds_dec_def msg_fmt_defs dec_forward glnd_evt_zero_def del: bind_Some_iff)
  then show ?thesis using v'(2) unfolding w_def by blast
qed

text \<open>
  C36. Every request of the agent (register, unregister, initialise, finalise, open, close, lock,
  unlock, purge) that is encoded into a buffer with room for it arrives unchanged: the encoder
  appends octets to the buffer, and a node director that receives these octets in one buffer
  decodes the request, with normal priority, and uses all of them.
\<close>

theorem request_roundtrip:
  assumes "request_ok evt" "room 400 u" "ver \<ge> 1"
  shows "\<exists>u' bs. gla_mds_enc \<lparr>i_to_svc_id = NCSMDS_SVC_ID_GLND, i_rem_svc_pvt_ver = ver,
             o_msg_fmt_ver = fmt, io_uba = Some u, i_msg = evt\<rparr> =
           Some (NCSCC_RC_SUCCESS, \<lparr>i_to_svc_id = NCSMDS_SVC_ID_GLND, i_rem_svc_pvt_ver = ver,
             o_msg_fmt_ver = 1, io_uba = Some u', i_msg = evt\<rparr>) \<and>
         uba_bytes u' = uba_bytes u @ bs \<and>
         (\<forall>b v edu. m_MMGR_DATA b = bs \<longrightarrow>
           (\<exists>v'. glnd_mds_dec edu \<lparr>i_fr_svc_id = NCSMDS_SVC_ID_GLA, i_msg_fmt_ver = 1,
                 d_uba = ncs_dec_init_space v [b], o_msg = None\<rparr> =
               Some (NCSCC_RC_SUCCESS, \<lparr>i_fr_svc_id = NCSMDS_SVC_ID_GLA, i_msg_fmt_ver = 1,
                 d_uba = v', o_msg = Some (evt\<lparr>ne_priority := NCS_IPC_PRIORITY_NORMAL\<rparr>)\<rparr>) \<and>
               uc_ub (uba_ub v') = []))"
proof -
  have r4: "room 4 u" using assms(2) by (auto intro: room_mono)
  have ra: "room 330 (appended u (octets32 (ne_type evt)))" using assms(2) by (auto intro: room_appended)
  have ap: "appended (appended u (octets32 (ne_type evt))) (wire_request_body evt) = appended u (wire_request evt)"
    using r4 by (simp add: appended_appended wire_request_def)
  have enc: "gla_mds_enc \<lparr>i_to_svc_id = NCSMDS_SVC_ID_GLND, i_rem_svc_pvt_ver = ver,
             o_msg_fmt_ver = fmt, io_uba = Some u, i_msg = evt\<rparr> =
           Some (NCSCC_RC_SUCCESS, \<lparr>i_to_svc_id = NCSMDS_SVC_ID_GLND, i_rem_svc_pvt_ver = ver,
             o_msg_fmt_ver = 1, io_uba = Some (appended u (wire_request evt)), i_msg = evt\<rparr>)"
    using r4 assms(3) enc_body[OF ra assms(1)] ap
    by (simp add: gla_mds_enc_def msg_fmt_defs enc_forward del: bind_Some_iff)
  have bytes: "uba_bytes (appended u (wire_request evt)) = uba_bytes u @ wire_request evt"
    by (rule uba_bytes_appended[OF assms(2)])
  have dec: "\<exists>v'. glnd_mds_dec edu \<lparr>i_fr_svc_id = NCSMDS_SVC_ID_GLA, i_msg_fmt_ver = 1,
                 d_uba = ncs_dec_init_space v [b], o_msg = None\<rparr> =
               Some (NCSCC_RC_SUCCESS, \<lparr>i_fr_svc_id = NCSMDS_SVC_ID_GLA, i_msg_fmt_ver = 1,
                 d_uba = v', o_msg = Some (evt\<lparr>ne_priority := NCS_IPC_PRIORITY_NORMAL\<rparr>)\<rparr>) \<and>
               uc_ub (uba_ub v') = []" if b: "m_MMGR_DATA b = wire_request evt" for b v edu
    by (rule dec_request[OF b assms(1)])
  show ?thesis using enc bytes dec by blast
qed

text \<open>A lock request and a fresh buffer of the pool of the transport.\<close>

definition sample_lock :: GLSV_GLND_EVT where
  "sample_lock = \<lparr>ne_type = GLSV_GLND_EVT_RSC_LOCK, ne_priority = 0, ne_info = Rsc_lock_info
     \<lparr>rl_client_handle_id = 7, rl_agent_mds_dest = 0x2010F00000001, rl_resource_id = 3,
      rl_lcl_resource_id = 5, rl_lcl_lockid = 9, rl_invocation = 0, rl_lock_type = 2,
      rl_timeout = 1000000000, rl_lockFlags = 1, rl_call_type = 1, rl_status = 0,
      rl_waiter_signal = 77\<rparr>\<rparr>"

definition fresh_uba :: NCS_UBAID where
  "fresh_uba = snd (ncs_enc_init_space_pp NCSUB_MDS_POOL
     \<lparr>uba_start = False, uba_ub = \<lparr>uc_pre = [], uc_ub = [], uc_mem = [\<lambda>_. 0]\<rparr>,
      uba_res = 0, uba_ttl = 0, uba_max = 0\<rparr>)"

lemma sample_lock_ok: "request_ok sample_lock"
  by (simp add: sample_lock_def request_ok_def)

lemma fresh_uba_room: "room 400 fresh_uba" "uba_bytes fresh_uba = []"
  by (simp_all add: fresh_uba_def ncs_enc_init_space_pp_def sysf_alloc_pkt_def room_def space_left_def
      NCSUB_MDS_POOL_def PAYLOAD_BUF_SIZE_def uba_bytes_def chain_bytes_def m_MMGR_DATA_def)

theorem request_roundtrip_witness:
  "request_ok sample_lock \<and> room 400 fresh_uba \<and>
   (\<exists>u' bs. gla_mds_enc \<lparr>i_to_svc_id = NCSMDS_SVC_ID_GLND, i_rem_svc_pvt_ver = 1,
       o_msg_fmt_ver = 0, io_uba = Some fresh_uba, i_msg = sample_lock\<rparr> =
     Some (NCSCC_RC_SUCCESS, \<lparr>i_to_svc_id = NCSMDS_SVC_ID_GLND, i_rem_svc_pvt_ver = 1,
       o_msg_fmt_ver = 1, io_uba = Some u', i_msg = sample_lock\<rparr>) \<and> uba_bytes u' = bs)"
  using request_roundtrip[OF sample_lock_ok fresh_uba_room(1) order.refl, of 0] sample_lock_ok
    fresh_uba_room by auto

section \<open>Callbacks and responses\<close>

definition response_ok :: "GLSV_GLA_EVT \<Rightarrow> bool" where
  "response_ok evt \<longleftrightarrow> (case ge_info evt of
      Gla_clbk_info i \<Rightarrow> ge_type evt = GLSV_GLA_CALLBK_EVT \<and>
        cb_callback_type i = cbk_type_of (cb_params i) \<and> cb_params i \<noteq> Params_zero \<and>
        signal_ok (cb_params i)
    | Gla_resp_info i \<Rightarrow> ge_type evt = GLSV_GLA_API_RESP_EVT \<and> resp_ok i
    | _ \<Rightarrow> False)"

definition wire_response :: "GLSV_GLA_EVT \<Rightarrow> bytes" where
  "wire_response evt = octets64 (ge_handle evt) @ octets32 (ge_error evt) @ octets32 (ge_type evt) @
     (case ge_info evt of Gla_clbk_info i \<Rightarrow> wire_callback i | Gla_resp_info i \<Rightarrow> wire_resp i | _ \<Rightarrow> [])"

lemma enc_response:
  assumes "room 100 u" "response_ok evt"
  shows "glnd_enc_gla u evt = Some (NCSCC_RC_SUCCESS, appended u (wire_response evt))"
proof -
  define w where "w = octets64 (ge_handle evt) @ octets32 (ge_error evt) @ octets32 (ge_type evt)"
  have r: "room 16 u" using assms(1) by (auto intro: room_mono)
  have ra: "room 60 (appended u w)" using assms(1) by (auto simp: w_def intro: room_appended)
  note cbk = enc_callback[OF ra] and rsp = enc_resp[OF ra]
  have ap: "appended (appended u w) x = appended u (w @ x)" for x using r by (simp add: appended_appended)
  show ?thesis using r assms(2) cbk rsp ap unfolding w_def
    by (cases "ge_info evt")
      (simp_all add: glnd_enc_gla_def response_ok_def wire_response_def enc_forward gla_type_defs
        del: bind_Some_iff)
qed

lemma dec_response:
  assumes b: "m_MMGR_DATA b = wire_response evt" and ok: "response_ok evt"
  shows "\<exists>v'. gla_mds_dec \<lparr>i_fr_svc_id = NCSMDS_SVC_ID_GLND, i_msg_fmt_ver = 1,
       d_uba = ncs_dec_init_space v [b], o_msg = None\<rparr> =
     Some (NCSCC_RC_SUCCESS, \<lparr>i_fr_svc_id = NCSMDS_SVC_ID_GLND, i_msg_fmt_ver = 1,
       d_uba = v', o_msg = Some evt\<rparr>) \<and> uc_ub (uba_ub v') = []"
proof -
  define rest where "rest = (case ge_info evt of Gla_clbk_info i \<Rightarrow> wire_callback i
      | Gla_resp_info i \<Rightarrow> wire_resp i | _ \<Rightarrow> [])"
  define w where "w = ncs_dec_init_space v [b]"
  have rd: "reading w ((octets64 (ge_handle evt) @ octets32 (ge_error evt) @ octets32 (ge_type evt)) @ rest)"
    unfolding w_def by (rule reading_init) (simp_all add: b wire_response_def rest_def octets32_def)
  have rs: "reading (ncs_dec_skip_space w 16) rest" using skip_reading[OF rd] by simp
  have "\<exists>v'. gla_mds_dec \<lparr>i_fr_svc_id = NCSMDS_SVC_ID_GLND, i_msg_fmt_ver = 1, d_uba = w, o_msg = None\<rparr> =
      Some (NCSCC_RC_SUCCESS, \<lparr>i_fr_svc_id = NCSMDS_SVC_ID_GLND, i_msg_fmt_ver = 1,
        d_uba = v', o_msg = Some evt\<rparr>) \<and> uc_ub (uba_ub v') = []"
  proof (cases "ge_info evt")
    case (Gla_clbk_info i)
    then have "\<exists>v'. glsv_gla_dec_callbk_evt (ncs_dec_skip_space w 16) =
        Some (NCSCC_RC_SUCCESS, Gla_clbk_info i, v') \<and> uc_ub (uba_ub v') = []"
      using dec_callback[of "ncs_dec_skip_space w 16" i] rs ok by (simp add: rest_def response_ok_def)
    then show ?thesis using flatten_reading[OF rd, of 16] ok Gla_clbk_info
      by (auto simp add: gla_mds_dec_def response_ok_def msg_fmt_defs dec_forward gla_type_defs
          simp del: bind_Some_iff)
  next
    case (Gla_resp_info i)
    then have "\<exists>v'. glsv_gla_dec_api_resp_evt (ncs_dec_skip_space w 16) =
        Some (NCSCC_RC_SUCCESS, Gla_resp_info i, v') \<and> uc_ub (uba_ub v') = []"
      using dec_resp[of "ncs_dec_skip_space w 16" i] rs ok by (simp add: rest_def response_ok_def)
    then show ?thesis using flatten_reading[OF rd, of 16] ok Gla_resp_info
      by (auto simp add: gla_mds_dec_def response_ok_def msg_fmt_defs dec_forward gla_type_defs
          simp del: bind_Some_iff)
  qed (use ok in \<open>simp_all add: response_ok_def\<close>)
  then show ?thesis unfolding w_def .
qed

text \<open>
  C37. Every callback and every API response of the node director arrives at the agent unchanged
  and uses all octets of its message, provided that the waiter signal of a waiter callback fits
  into the 32 bits it is given on the wire.
\<close>

theorem response_roundtrip:
  fixes evt :: GLSV_GLA_EVT and u :: NCS_UBAID
  assumes "response_ok evt" "room 100 u" "ver \<ge> 1"
  shows "\<exists>u' bs. glnd_mds_enc edu \<lparr>i_to_svc_id = NCSMDS_SVC_ID_GLA, i_rem_svc_pvt_ver = ver,
             o_msg_fmt_ver = fmt, io_uba = Some u, i_msg = To_agent evt\<rparr> =
           Some (NCSCC_RC_SUCCESS, \<lparr>i_to_svc_id = NCSMDS_SVC_ID_GLA, i_rem_svc_pvt_ver = ver,
             o_msg_fmt_ver = 1, io_uba = Some u', i_msg = To_agent evt\<rparr>) \<and>
         uba_bytes u' = uba_bytes u @ bs \<and>
         (\<forall>b v. m_MMGR_DATA b = bs \<longrightarrow>
           (\<exists>v'. gla_mds_dec \<lparr>i_fr_svc_id = NCSMDS_SVC_ID_GLND, i_msg_fmt_ver = 1,
                 d_uba = ncs_dec_init_space v [b], o_msg = None\<rparr> =
               Some (NCSCC_RC_SUCCESS, \<lparr>i_fr_svc_id = NCSMDS_SVC_ID_GLND, i_msg_fmt_ver = 1,
                 d_uba = v', o_msg = Some evt\<rparr>) \<and> uc_ub (uba_ub v') = []))"
proof -
  have "glnd_mds_enc edu \<lparr>i_to_svc_id = NCSMDS_SVC_ID_GLA, i_rem_svc_pvt_ver = ver,
             o_msg_fmt_ver = fmt, io_uba = Some u, i_msg = To_agent evt\<rparr> =
           Some (NCSCC_RC_SUCCESS, \<lparr>i_to_svc_id = NCSMDS_SVC_ID_GLA, i_rem_svc_pvt_ver = ver,
             o_msg_fmt_ver = 1, io_uba = Some (appended u (wire_response evt)), i_msg = To_agent evt\<rparr>)"
    using enc_response[OF assms(2,1)] assms(3)
    by (simp add: glnd_mds_enc_def msg_fmt_defs Let_def del: bind_Some_iff)
  then show ?thesis using uba_bytes_appended[OF assms(2)] dec_response[OF _ assms(1)] by blast
qed

definition sample_grant :: GLSV_GLA_EVT where
  "sample_grant = \<lparr>ge_handle = 7, ge_error = 1, ge_type = GLSV_GLA_CALLBK_EVT, ge_info = Gla_clbk_info
     \<lparr>cb_callback_type = GLSV_LOCK_GRANT_CBK, cb_resourceId = 5, cb_params = Lck_grant
       \<lparr>gp_invocation = 42, gp_resourceId = 5, gp_lockId = 11, gp_lcl_lockId = 9, gp_lockMode = 2,
        gp_lockStatus = 1, gp_error = 1\<rparr>\<rparr>\<rparr>"

lemma sample_grant_ok: "response_ok sample_grant"
  by (simp add: sample_grant_def response_ok_def signal_ok_def)

theorem response_roundtrip_witness:
  "response_ok sample_grant \<and>
   (\<exists>u' bs. glnd_mds_enc (\<lambda>_ (_::unit) v. Some (NCSCC_RC_SUCCESS, v))
       \<lparr>i_to_svc_id = NCSMDS_SVC_ID_GLA, i_rem_svc_pvt_ver = 1,
        o_msg_fmt_ver = 0, io_uba = Some fresh_uba, i_msg = To_agent sample_grant\<rparr> =
     Some (NCSCC_RC_SUCCESS, \<lparr>i_to_svc_id = NCSMDS_SVC_ID_GLA, i_rem_svc_pvt_ver = 1,
       o_msg_fmt_ver = 1, io_uba = Some u', i_msg = To_agent sample_grant\<rparr>) \<and> uba_bytes u' = bs)"
  using response_roundtrip[OF sample_grant_ok room_mono[OF fresh_uba_room(1)] order.refl,
      of "\<lambda>_ (_::unit) v. Some (NCSCC_RC_SUCCESS, v)" 0] sample_grant_ok
    fresh_uba_room by auto

section \<open>Messages whose two sides do not fit\<close>

text \<open>
  The answer to a restarted node director: the agent writes 22 octets, the node director asks for
  33. The 22 octets are copied into the 20 octets of \<open>local_data\<close>.
\<close>

theorem client_info_overflow:
  assumes "m_MMGR_DATA b = octets32 GLSV_GLND_EVT_CLIENT_INFO @ wire_restart_client i"
  shows "glnd_mds_dec edu \<lparr>i_fr_svc_id = NCSMDS_SVC_ID_GLA, i_msg_fmt_ver = 1,
    d_uba = ncs_dec_init_space v [b], o_msg = None\<rparr> = None"
proof -
  define w where "w = ncs_dec_init_space v [b]"
  have rd: "reading w (octets32 GLSV_GLND_EVT_CLIENT_INFO @ wire_restart_client i)"
    unfolding w_def by (rule reading_init) (simp_all add: assms octets32_def)
  have rs: "reading (ncs_dec_skip_space w 4) (wire_restart_client i)" using skip_reading[OF rd] by simp
  then obtain c where c: "uc_ub (uba_ub (ncs_dec_skip_space w 4)) = [c]" "m_MMGR_DATA c = wire_restart_client i"
    by (auto simp: reading_def wire_restart_client_def octets64_def split: list.splits)
  then have "ub_count c = 22" by (metis length_data length_wire(8))
  then have "ncs_dec_flatten_space (ncs_dec_skip_space w 4) LOCAL_DATA 33 = None"
    by (simp add: ncs_dec_flatten_space_def sysf_data_at_start_def c LOCAL_DATA_def)
  then show ?thesis using flatten_reading[OF rd, of 4] unfolding w_def [symmetric]
    by (simp add: glnd_mds_dec_def msg_fmt_defs dec_forward glnd_dec_body_def evt_type_defs
        glsv_dec_client_info_evt_def del: bind_Some_iff)
qed

text \<open>
  The report of the cluster membership: the second claim asks to give back \<open>2 ^ 32 - 4\<close> octets,
  which empties the current buffer, and the encoder reports success.
\<close>

lemma remove_all: "ub_count b \<le> n \<Longrightarrow> sysf_remove_from_end [b] n = [b\<lparr>ub_count := 0\<rparr>]"
  by (cases b; cases "ub_count b = 0")
    (simp_all add: sysf_remove_from_end.simps[of "[_]"] sysf_get_chain_len_def Let_def)

theorem clm_message_lost:
  assumes "room 30 u"
  shows "\<exists>u'. glnd_enc_gla u \<lparr>ge_handle = h, ge_error = e, ge_type = GLSV_GLA_CLM_EVT,
      ge_info = Gla_clm_info m\<rparr> = Some (NCSCC_RC_SUCCESS, u') \<and>
    uba_bytes u' = chain_bytes (uc_pre (uba_ub u))"
proof -
  define hdr where "hdr = octets64 h @ octets32 e @ octets32 GLSV_GLA_CLM_EVT"
  define u1 where "u1 = writing (appended u hdr) 4 []"
  define val where "val = (if m then 1 else 0 :: u32)"
  have r: "room 16 u" using assms by (auto intro: room_mono)
  have r4: "room 4 (appended u hdr)" "room 8 (appended u hdr)"
    using assms by (auto simp: hdr_def intro: room_appended)
  then have r1: "room 4 u1"
    by (auto simp: u1_def room_def writing_def Let_def space_left_def split: list.splits)
  define u2 where "u2 = appended u1 (octets32 val)"
  have b: "osaf_encode_bool u1 m = Some u2"
    using r1 by (simp add: osaf_encode_bool_def osaf_encode_uint32_def encode_reserve_space_def enc_forward
        val_def [symmetric] u2_def del: bind_Some_iff)
  have enc: "glnd_enc_gla u \<lparr>ge_handle = h, ge_error = e, ge_type = GLSV_GLA_CLM_EVT,
      ge_info = Gla_clm_info m\<rparr> = Some (NCSCC_RC_SUCCESS, ncs_enc_claim_space u2 4)"
    using r r4 b unfolding u1_def hdr_def
    by (simp add: glnd_enc_gla_def glsv_gla_enc_clm_evt_def enc_forward gla_type_defs del: bind_Some_iff)
  obtain c where c: "uc_ub (uba_ub u2) = [c]" "ub_count c \<le> PAYLOAD_BUF_SIZE"
    and pre: "uc_pre (uba_ub u2) = uc_pre (uba_ub u)" "uba_res u2 = 0"
    using r1 assms
    by (auto simp: u2_def u1_def appended_def writing_def Let_def room_def space_left_def split: list.splits)
  have "unat (0 - 4 :: u32) = 2 ^ 32 - 4" by simp
  then have "uc_ub (uba_ub (ncs_enc_claim_space u2 4)) = [c\<lparr>ub_count := 0\<rparr>]"
    using c pre by (simp add: ncs_enc_claim_space_def remove_all PAYLOAD_BUF_SIZE_def)
  then have "uba_bytes (ncs_enc_claim_space u2 4) = chain_bytes (uc_pre (uba_ub u))"
    using pre by (simp add: uba_bytes_def chain_bytes_def m_MMGR_DATA_def ncs_enc_claim_space_def)
  with enc show ?thesis by blast
qed

text \<open>The request for the limits has no encoder.\<close>

theorem limit_get_not_encoded:
  assumes "room 4 u" "ne_type evt = GLSV_GLND_EVT_LIMIT_GET"
  shows "\<exists>info'. gla_mds_enc \<lparr>i_to_svc_id = NCSMDS_SVC_ID_GLND, i_rem_svc_pvt_ver = ver,
             o_msg_fmt_ver = fmt, io_uba = Some u, i_msg = evt\<rparr> = Some (NCSCC_RC_FAILURE, info')"
  using assms
  by (cases "ver = 0")
    (auto simp add: gla_mds_enc_def msg_fmt_defs enc_forward gla_enc_body_def evt_type_defs
      simp del: bind_Some_iff)

text \<open>A waiter signal of 33 bits or more arrives cut to 32.\<close>

theorem waiter_signal_cut:
  assumes "reading u (wire_waiter_cbk p)"
  shows "dec_cbk_params GLSV_LOCK_WAITER_CBK u = Some (NCSCC_RC_SUCCESS,
    Lck_wait (p\<lparr>wp_wait_signal := take_bit 32 (wp_wait_signal p)\<rparr>), ncs_dec_skip_space u 40)"
proof -
  have "ucast (ucast (wp_wait_signal p) :: u32) = take_bit 32 (wp_wait_signal p)"
    by (rule bit_eqI) (auto simp: bit_simps)
  then show ?thesis using flatten_all[OF assms]
    by (cases p) (simp add: dec_cbk_params_def gla_type_defs dec_forward wire_waiter_cbk_def del: bind_Some_iff)
qed

end
