(* ===== verification/Hdl.thy ===== *)
theory Hdl
  imports Prelude
begin

text \<open>
  The handle manager (\<open>base/hj_hdl.c\<close>, \<open>base/ncs_hdl.h\<close>). A handle is a 32-bit word that names a
  cell by three indices and carries a sequence number of four bits; a cell holds the client's
  pointer and one 32-bit word with sequence number, service, busy flag and use count. While a cell
  is free the same word holds the handle the cell will be given out with, and the pointer is the
  link of the free list; the model keeps this overlay. Cells are named by their position, the
  handle without its sequence number, and a free list is the list of positions on it.

  The pool locks make each function atomic. A destroyer that has to wait gives up the lock in
  between, so its two halves are two operations.
\<close>

section \<open>Bit fields\<close>

definition get_bits :: "nat \<Rightarrow> nat \<Rightarrow> u32 \<Rightarrow> u32" where
  "get_bits k n w = take_bit n (drop_bit k w)"

definition set_bits :: "nat \<Rightarrow> nat \<Rightarrow> u32 \<Rightarrow> u32 \<Rightarrow> u32" where
  "set_bits k n v w = (w AND NOT (push_bit k (mask n))) OR push_bit k (take_bit n v)"

text \<open>\<open>HM_HDL\<close>: \<open>seq_id:4, idx1:8, idx2:8, idx3:12\<close>.\<close>

definition hdl_seq_id :: "u32 \<Rightarrow> u32" where "hdl_seq_id h = get_bits 0 4 h"

text \<open>The position of a cell: the 28 bits of the three indices.\<close>

definition hdl_pos :: "u32 \<Rightarrow> u32" where "hdl_pos h = drop_bit 4 h"
definition pos_idx1 :: "u32 \<Rightarrow> u8" where "pos_idx1 p = ucast p"
definition pos_idx2 :: "u32 \<Rightarrow> u8" where "pos_idx2 p = ucast (drop_bit 8 p)"
definition pos_idx3 :: "u32 \<Rightarrow> 12 word" where "pos_idx3 p = ucast (drop_bit 16 p)"

definition mk_pos :: "u8 \<Rightarrow> u8 \<Rightarrow> 12 word \<Rightarrow> u32" where
  "mk_pos i1 i2 i3 = ucast i1 OR push_bit 8 (ucast i2) OR push_bit 16 (ucast i3)"

definition mk_hdl :: "u32 \<Rightarrow> u32 \<Rightarrow> u32" where
  "mk_hdl p s = push_bit 4 p OR take_bit 4 s"

text \<open>\<open>HM_CELL\<close>: \<open>seq_id:4, svc_id:12, busy:1, use_ct:11\<close>.\<close>

record HM_CELL =
  cell_data :: ptr
  cell_bits :: u32

definition c_seq_id :: "HM_CELL \<Rightarrow> u32" where "c_seq_id c = get_bits 0 4 (cell_bits c)"
definition c_svc_id :: "HM_CELL \<Rightarrow> u32" where "c_svc_id c = get_bits 4 12 (cell_bits c)"
definition c_busy :: "HM_CELL \<Rightarrow> u32" where "c_busy c = get_bits 16 1 (cell_bits c)"
definition c_use_ct :: "HM_CELL \<Rightarrow> u32" where "c_use_ct c = get_bits 17 11 (cell_bits c)"

definition set_svc_id :: "u32 \<Rightarrow> HM_CELL \<Rightarrow> HM_CELL" where
  "set_svc_id v c = c\<lparr>cell_bits := set_bits 4 12 v (cell_bits c)\<rparr>"
definition set_busy :: "u32 \<Rightarrow> HM_CELL \<Rightarrow> HM_CELL" where
  "set_busy v c = c\<lparr>cell_bits := set_bits 16 1 v (cell_bits c)\<rparr>"
definition set_use_ct :: "u32 \<Rightarrow> HM_CELL \<Rightarrow> HM_CELL" where
  "set_use_ct v c = c\<lparr>cell_bits := set_bits 17 11 v (cell_bits c)\<rparr>"

section \<open>The state\<close>

type_synonym HM_CELLS = "12 word \<Rightarrow> HM_CELL"

record HM_UNIT =
  unit_curr :: u8
  unit_cells :: "u8 \<Rightarrow> HM_CELLS option"

record HM_PMGR =
  free_pool :: "u32 list"
  in_q :: u32
  in_use :: u32
  pm_curr :: u32
  pm_max :: u32

text \<open>
  \<open>hm_mem\<close> is the number of blocks \<open>malloc\<close> can still supply, \<open>hm_addr\<close> the address of the
  cell at a position, and \<open>hm_sem\<close> the semaphores of waiting destroyers.
\<close>

record HM_CORE =
  hm_unit :: "u8 \<Rightarrow> HM_UNIT option"
  hm_pool :: "HM_PMGR list"
  woulda_crashed :: u32
  hm_sem :: "ptr \<Rightarrow> nat option"
  hm_mem :: nat
  hm_addr :: "u32 \<Rightarrow> ptr"
  gl_im_created :: u32

definition HM_POOL_CNT :: nat where "HM_POOL_CNT = 9"

definition gl_hpool :: "(int \<times> int) list" where
  "gl_hpool = [(0, 1), (2, 32), (33, 64), (65, 96), (97, 128), (129, 160), (161, 192), (193, 224), (225, 255)]"

definition m_HM_POOL_ID :: "u8 \<Rightarrow> nat" where
  "m_HM_POOL_ID unt = (if unt < 2 then 0 else unat (drop_bit 5 (ucast unt - 1 :: u32) + 1))"

definition m_HM_DETM_POOL_FRM_HDL :: "u32 \<Rightarrow> nat" where
  "m_HM_DETM_POOL_FRM_HDL lhdl = m_HM_POOL_ID (pos_idx1 (hdl_pos lhdl))"

section \<open>Start\<close>

fun hm_init_loop :: "int \<Rightarrow> (int \<times> int) list \<Rightarrow> HM_PMGR list \<Rightarrow> rc \<times> HM_PMGR list" where
  "hm_init_loop last_max ((mn, mx) # pools) (pmgr # pmgrs) =
     (if last_max + 1 \<noteq> mn \<or> mx \<ge> 256 \<or> mn > mx then (NCSCC_RC_FAILURE, pmgr # pmgrs)
      else let (rc, rest) = hm_init_loop mx pools pmgrs
           in (rc, pmgr\<lparr>pm_curr := of_int mn, pm_max := of_int mx\<rparr> # rest))"
| "hm_init_loop last_max _ pmgrs = (NCSCC_RC_SUCCESS, pmgrs)"

definition hm_init_pools :: "HM_PMGR list \<Rightarrow> (int \<times> int) list \<Rightarrow> rc \<times> HM_PMGR list" where
  "hm_init_pools pmgr pool = hm_init_loop (-1) pool pmgr"

definition pmgr_zero :: HM_PMGR where
  "pmgr_zero = \<lparr>free_pool = [], in_q = 0, in_use = 0, pm_curr = 0, pm_max = 0\<rparr>"

text \<open>
  The self-test of \<open>ncshm_init\<close> on its own bit fields holds in the model. \<open>gl_im_created\<close> counts
  the users; only the first one initialises and only the last one cleans up.
\<close>

definition core_zero :: "HM_CORE \<Rightarrow> HM_CORE" where
  "core_zero hm = hm\<lparr>hm_unit := (\<lambda>_. None), hm_pool := replicate HM_POOL_CNT pmgr_zero, woulda_crashed := 0\<rparr>"

definition ncshm_init :: "HM_CORE \<Rightarrow> rc \<times> HM_CORE" where
  "ncshm_init hm =
     (let hm = hm\<lparr>gl_im_created := gl_im_created hm + 1\<rparr>
      in if gl_im_created hm > 1 then (NCSCC_RC_SUCCESS, hm)
         else let hm = core_zero hm; (rc, pmgrs) = hm_init_pools (hm_pool hm) gl_hpool
              in (rc, hm\<lparr>hm_pool := pmgrs\<rparr>))"

definition ncshm_delete :: "HM_CORE \<Rightarrow> HM_CORE" where
  "ncshm_delete hm =
     (let hm = hm\<lparr>gl_im_created := gl_im_created hm - 1\<rparr>
      in if gl_im_created hm > 0 then hm else core_zero hm)"

section \<open>Cells\<close>

definition cell_at :: "HM_CORE \<Rightarrow> u32 \<Rightarrow> HM_CELL option" where
  "cell_at hm p = do {
     unt \<leftarrow> hm_unit hm (pos_idx1 p);
     spot \<leftarrow> unit_cells unt (pos_idx2 p);
     Some (spot (pos_idx3 p)) }"

definition hm_find_cell :: "HM_CORE \<Rightarrow> u32 \<Rightarrow> HM_CELL option" where
  "hm_find_cell hm h = cell_at hm (hdl_pos h)"

text \<open>Writing a cell through its pointer.\<close>

definition cell_store :: "HM_CORE \<Rightarrow> u32 \<Rightarrow> HM_CELL \<Rightarrow> HM_CORE" where
  "cell_store hm p c = (case hm_unit hm (pos_idx1 p) of
      None \<Rightarrow> hm
    | Some unt \<Rightarrow> (case unit_cells unt (pos_idx2 p) of
        None \<Rightarrow> hm
      | Some spot \<Rightarrow> hm\<lparr>hm_unit := (hm_unit hm)(pos_idx1 p := Some (unt\<lparr>unit_cells :=
          (unit_cells unt)(pos_idx2 p := Some (spot(pos_idx3 p := c)))\<rparr>))\<rparr>))"

definition pool_upd :: "nat \<Rightarrow> (HM_PMGR \<Rightarrow> HM_PMGR) \<Rightarrow> HM_CORE \<Rightarrow> HM_CORE" where
  "pool_upd i f hm = hm\<lparr>hm_pool := (hm_pool hm)[i := f (hm_pool hm ! i)]\<rparr>"

text \<open>
  \<open>hm_free_cell\<close> gets the handle by value. \<open>recycle\<close> tells whether the cell was in use.
\<close>

definition next_seq :: "u32 \<Rightarrow> u32" where
  "next_seq h = (let s = take_bit 4 (hdl_seq_id h + 1) in if s = 0 then 1 else s)"

definition hm_free_cell :: "u32 \<Rightarrow> bool \<Rightarrow> HM_CORE \<Rightarrow> HM_CORE" where
  "hm_free_cell h recycle hm =
     (let p = hdl_pos h;
          i = m_HM_POOL_ID (pos_idx1 p);
          next = (case free_pool (hm_pool hm ! i) of [] \<Rightarrow> NULL | q # _ \<Rightarrow> hm_addr hm q);
          c = \<lparr>cell_data = next, cell_bits = mk_hdl p (next_seq h)\<rparr>
      in pool_upd i (\<lambda>pm. pm\<lparr>free_pool := p # free_pool pm, in_q := in_q pm + 1,
           in_use := (if recycle then in_use pm - 1 else in_use pm)\<rparr>) (cell_store hm p c))"

definition HM_CELL_CNT :: nat where "HM_CELL_CNT = 4096"

text \<open>Carving a fresh bank up: the cells with the handles \<open>{0, i1, i2, k}\<close> for all \<open>k\<close>.\<close>

definition carve :: "u8 \<Rightarrow> u8 \<Rightarrow> HM_CORE \<Rightarrow> HM_CORE" where
  "carve i1 i2 hm =
     fold (\<lambda>k. hm_free_cell (mk_hdl (mk_pos i1 i2 (of_nat k)) 0) False) [0..<HM_CELL_CNT] hm"

definition cells_zero :: HM_CELLS where
  "cells_zero = (\<lambda>_. \<lparr>cell_data = 0, cell_bits = 0\<rparr>)"

definition unit_zero :: HM_UNIT where
  "unit_zero = \<lparr>unit_curr = 0, unit_cells = (\<lambda>_. None)\<rparr>"

text \<open>
  The search for an unused bank. The index has eight bits, so a loop that has passed 256 used banks
  has passed all of them and never ends (\<open>None\<close>).
\<close>

fun next_bank :: "nat \<Rightarrow> (u8 \<Rightarrow> HM_CELLS option) \<Rightarrow> u8 \<Rightarrow> u8 option" where
  "next_bank 0 cells cur = None"
| "next_bank (Suc k) cells cur =
     (if cells cur = None then Some cur else next_bank k cells (cur + 1))"

definition hm_make_free_cells :: "nat \<Rightarrow> HM_CORE \<Rightarrow> (rc \<times> HM_CORE) option" where
  "hm_make_free_cells sid hm =
     (let i1 = (ucast (pm_curr (hm_pool hm ! sid)) :: u8);
          mem = hm_mem hm;
          (unt, mem) = (case hm_unit hm i1 of Some u \<Rightarrow> (Some u, mem)
             | None \<Rightarrow> if mem = 0 then (None, 0) else (Some unit_zero, mem - 1))
      in case unt of
           None \<Rightarrow> Some (NCSCC_RC_FAILURE, hm)
         | Some unt \<Rightarrow> do {
             cur \<leftarrow> next_bank 256 (unit_cells unt) (unit_curr unt);
             let hm = hm\<lparr>hm_unit := (hm_unit hm)(i1 := Some (unt\<lparr>unit_curr := cur\<rparr>)), hm_mem := mem\<rparr>;
             if mem = 0 then Some (NCSCC_RC_FAILURE, hm)
             else Some (NCSCC_RC_SUCCESS, carve i1 cur
               (hm\<lparr>hm_unit := (hm_unit hm)(i1 := Some (unt\<lparr>unit_curr := cur + 1,
                      unit_cells := (unit_cells unt)(cur := Some cells_zero)\<rparr>)),
                   hm_mem := mem - 1\<rparr>)) })"

definition hm_alloc_cell :: "nat \<Rightarrow> HM_CORE \<Rightarrow> (u32 option \<times> HM_CORE) option" where
  "hm_alloc_cell sid hm = do {
     (rc, hm) \<leftarrow> (if free_pool (hm_pool hm ! sid) = [] then hm_make_free_cells sid hm
                   else Some (NCSCC_RC_SUCCESS, hm));
     if rc \<noteq> NCSCC_RC_SUCCESS then Some (None, hm)
     else case free_pool (hm_pool hm ! sid) of
            [] \<Rightarrow> None
          | p # ps \<Rightarrow> Some (Some p, pool_upd sid (\<lambda>pm. pm\<lparr>free_pool := ps,
              in_use := in_use pm + 1, in_q := in_q pm - 1\<rparr>) hm) }"

text \<open>
  \<open>hm_target_cell\<close>: the cell with exactly the given handle is taken out of the free list; the
  bank is made when it does not exist.
\<close>

definition target_unit :: "u8 \<Rightarrow> HM_CORE \<Rightarrow> (HM_UNIT \<times> nat) option" where
  "target_unit i1 hm = (case hm_unit hm i1 of
      Some unt \<Rightarrow> Some (unt, hm_mem hm)
    | None \<Rightarrow> if hm_mem hm = 0 then None else Some (unit_zero, hm_mem hm - 1))"

definition target_bank :: "u8 \<Rightarrow> u8 \<Rightarrow> HM_CORE \<Rightarrow> bool \<times> HM_CORE" where
  "target_bank i1 i2 hm = (case target_unit i1 hm of
      None \<Rightarrow> (False, hm)
    | Some (unt, mem) \<Rightarrow>
        let hm = hm\<lparr>hm_unit := (hm_unit hm)(i1 := Some unt), hm_mem := mem\<rparr>
        in if unit_cells unt i2 \<noteq> None then (True, hm)
           else if mem = 0 then (False, hm)
           else (True, carve i1 i2 (hm\<lparr>hm_unit := (hm_unit hm)(i1 := Some (unt\<lparr>unit_cells :=
                  (unit_cells unt)(i2 := Some cells_zero)\<rparr>)), hm_mem := mem - 1\<rparr>)))"

definition hm_target_cell :: "u32 \<Rightarrow> HM_CORE \<Rightarrow> u32 option \<times> HM_CORE" where
  "hm_target_cell h hm =
     (let p = hdl_pos h; i = m_HM_POOL_ID (pos_idx1 p)
      in case target_bank (pos_idx1 p) (pos_idx2 p) hm of
           (False, hm) \<Rightarrow> (None, hm)
         | (True, hm) \<Rightarrow>
             (case List.find (\<lambda>q. map_option cell_bits (cell_at hm q) = Some h)
                     (free_pool (hm_pool hm ! i)) of
                None \<Rightarrow> (None, hm)
              | Some q \<Rightarrow> (Some q, pool_upd i (\<lambda>pm. pm\<lparr>free_pool := remove1 q (free_pool pm),
                  in_use := in_use pm + 1, in_q := in_q pm - 1\<rparr>) hm)))"

section \<open>Interface\<close>

definition bind_cell :: "u32 \<Rightarrow> ptr \<Rightarrow> HM_CELL \<Rightarrow> HM_CELL" where
  "bind_cell sid save c =
     set_busy 1 (set_svc_id sid (set_use_ct 1 (c\<lparr>cell_data := save\<rparr>)))"

text \<open>The assertion that the free cell is the one its handle leads to is part of the model.\<close>

definition ncshm_create_hdl :: "nat \<Rightarrow> u32 \<Rightarrow> ptr \<Rightarrow> HM_CORE \<Rightarrow> (u32 \<times> HM_CORE) option" where
  "ncshm_create_hdl pool sid save hm =
     (if pool \<ge> HM_POOL_CNT then Some (0, hm)
      else do {
        (free, hm) \<leftarrow> hm_alloc_cell pool hm;
        case free of
          None \<Rightarrow> Some (0, hm)
        | Some p \<Rightarrow> do {
            c \<leftarrow> cell_at hm p;
            let h = cell_bits c;
            if hdl_pos h \<noteq> p then None
            else Some (h, cell_store hm p (bind_cell sid save c)) } })"

definition ncshm_declare_hdl :: "u32 \<Rightarrow> u32 \<Rightarrow> ptr \<Rightarrow> HM_CORE \<Rightarrow> (rc \<times> HM_CORE) option" where
  "ncshm_declare_hdl uhdl sid save hm =
     (if m_HM_DETM_POOL_FRM_HDL uhdl \<ge> HM_POOL_CNT then Some (NCSCC_RC_FAILURE, hm)
      else case hm_target_cell uhdl hm of
             (None, hm) \<Rightarrow> Some (NCSCC_RC_FAILURE, hm)
           | (Some p, hm) \<Rightarrow> do {
               c \<leftarrow> cell_at hm p;
               if hdl_pos uhdl \<noteq> p then None
               else Some (NCSCC_RC_SUCCESS, cell_store hm p (bind_cell sid save c)) })"

definition valid_cell :: "u32 \<Rightarrow> u32 \<Rightarrow> HM_CELL \<Rightarrow> bool" where
  "valid_cell sid h c \<longleftrightarrow> c_seq_id c = hdl_seq_id h \<and> c_svc_id c = sid \<and> c_busy c = 1"

definition ncshm_take_hdl :: "u32 \<Rightarrow> u32 \<Rightarrow> HM_CORE \<Rightarrow> ptr \<times> HM_CORE" where
  "ncshm_take_hdl sid uhdl hm =
     (if m_HM_DETM_POOL_FRM_HDL uhdl \<ge> HM_POOL_CNT then (NULL, hm)
      else case hm_find_cell hm uhdl of
             None \<Rightarrow> (NULL, hm)
           | Some c \<Rightarrow>
               if valid_cell sid uhdl c
               then (cell_data c, cell_store hm (hdl_pos uhdl) (set_use_ct (c_use_ct c + 1) c))
               else (NULL, hm))"

text \<open>\<open>hm_unblock_him\<close> posts the semaphore whose address is in the cell; \<open>None\<close> when there is none.\<close>

definition hm_unblock_him :: "HM_CELL \<Rightarrow> HM_CORE \<Rightarrow> HM_CORE option" where
  "hm_unblock_him c hm = (case hm_sem hm (cell_data c) of
      None \<Rightarrow> None
    | Some n \<Rightarrow> Some (hm\<lparr>hm_sem := (hm_sem hm)(cell_data c := Some (n + 1))\<rparr>))"

definition ncshm_give_hdl :: "u32 \<Rightarrow> HM_CORE \<Rightarrow> HM_CORE option" where
  "ncshm_give_hdl uhdl hm =
     (if m_HM_DETM_POOL_FRM_HDL uhdl \<ge> HM_POOL_CNT then Some hm
      else case hm_find_cell hm uhdl of
             None \<Rightarrow> Some hm
           | Some c \<Rightarrow>
               if c_seq_id c = hdl_seq_id uhdl then
                 let c' = set_use_ct (c_use_ct c - 1) c
                 in if c_use_ct c' < 1 then Some (cell_store hm (hdl_pos uhdl) (set_use_ct (c_use_ct c' + 1) c'))
                    else let hm' = cell_store hm (hdl_pos uhdl) c'
                         in if c_busy c' = 0 \<and> c_use_ct c' = 1 then hm_unblock_him c' hm' else Some hm'
               else Some hm)"

text \<open>
  \<open>ncshm_destroy_hdl\<close> up to the point where it waits, or to its end. \<open>sem\<close> is the address of the
  semaphore on the stack of the calling thread.
\<close>

datatype destroy_result = Refused | Destroyed ptr | Waiting ptr

definition ncshm_destroy_hdl :: "ptr \<Rightarrow> u32 \<Rightarrow> u32 \<Rightarrow> HM_CORE \<Rightarrow> destroy_result \<times> HM_CORE" where
  "ncshm_destroy_hdl sem sid uhdl hm =
     (if m_HM_DETM_POOL_FRM_HDL uhdl \<ge> HM_POOL_CNT then (Refused, hm)
      else case hm_find_cell hm uhdl of
             None \<Rightarrow> (Refused, hm)
           | Some c \<Rightarrow>
               if valid_cell sid uhdl c then
                 let c' = set_busy 0 c
                 in if c_use_ct c' > 1 then
                      (Waiting (cell_data c),
                       cell_store (hm\<lparr>woulda_crashed := woulda_crashed hm + 1,
                           hm_sem := (hm_sem hm)(sem := Some 0)\<rparr>) (hdl_pos uhdl) (c'\<lparr>cell_data := sem\<rparr>))
                    else (Destroyed (cell_data c), hm_free_cell uhdl True (cell_store hm (hdl_pos uhdl) c'))
               else (Refused, hm))"

text \<open>The rest of \<open>hm_block_me\<close> and of the destroyer, once \<open>sem_wait\<close> returns.\<close>

definition hm_wake :: "ptr \<Rightarrow> u32 \<Rightarrow> HM_CORE \<Rightarrow> HM_CORE option" where
  "hm_wake sem uhdl hm = (case hm_sem hm sem of
      Some (Suc _) \<Rightarrow> Some (hm_free_cell uhdl True (hm\<lparr>hm_sem := (hm_sem hm)(sem := None)\<rparr>))
    | _ \<Rightarrow> None)"

end
