(* ===== verification/Sel_Obj.thy ===== *)
theory Sel_Obj
  imports Prelude
begin

text \<open>
  Selection objects (\<open>base/os_defs.c\<close>): a pair of connected sockets with which a thread that polls
  is told that something is there. The kernel's side is the number of octets in the socket and the
  number it holds at most; the descriptors are \<open>-1\<close> once an end is shut and \<open>-2\<close> once its use
  after that was logged.
\<close>

record NCS_SEL_OBJ =
  raise_obj :: int
  rmv_obj :: int
  so_inds :: nat
  so_cap :: nat

text \<open>
  The outcome of \<open>socketpair\<close> (the two descriptors and the capacity) and whether \<open>fcntl\<close> succeeds
  are the kernel's.
\<close>

definition ncs_sel_obj_raise_operation_shut :: "NCS_SEL_OBJ \<Rightarrow> rc \<times> NCS_SEL_OBJ" where
  "ncs_sel_obj_raise_operation_shut so =
     (if raise_obj so = -1 then (NCSCC_RC_FAILURE, so) else (NCSCC_RC_SUCCESS, so\<lparr>raise_obj := -1\<rparr>))"

definition ncs_sel_obj_rmv_operation_shut :: "NCS_SEL_OBJ \<Rightarrow> rc \<times> NCS_SEL_OBJ" where
  "ncs_sel_obj_rmv_operation_shut so =
     (if rmv_obj so = -1 then (NCSCC_RC_FAILURE, so) else (NCSCC_RC_SUCCESS, so\<lparr>rmv_obj := -1\<rparr>))"

definition ncs_sel_obj_destroy :: "NCS_SEL_OBJ \<Rightarrow> rc \<times> NCS_SEL_OBJ" where
  "ncs_sel_obj_destroy so =
     (NCSCC_RC_SUCCESS, snd (ncs_sel_obj_rmv_operation_shut (snd (ncs_sel_obj_raise_operation_shut so))))"

definition ncs_sel_obj_create :: "(int \<times> int \<times> nat) option \<Rightarrow> bool \<Rightarrow> NCS_SEL_OBJ \<Rightarrow> rc \<times> NCS_SEL_OBJ" where
  "ncs_sel_obj_create pair fcntl_ok so = (case pair of
      None \<Rightarrow> (NCSCC_RC_FAILURE, so)
    | Some (a, b, cap) \<Rightarrow>
        let (a, b) = (if a > b then (b, a) else (a, b));
            so = \<lparr>raise_obj = a, rmv_obj = b, so_inds = 0, so_cap = cap\<rparr>
        in if fcntl_ok then (NCSCC_RC_SUCCESS, so) else (NCSCC_RC_FAILURE, snd (ncs_sel_obj_destroy so)))"

text \<open>A write fails when the socket is full or its other end closed.\<close>

definition ncs_sel_obj_ind :: "NCS_SEL_OBJ \<Rightarrow> rc \<times> NCS_SEL_OBJ" where
  "ncs_sel_obj_ind so =
     (if raise_obj so < 0 then (NCSCC_RC_FAILURE, so\<lparr>raise_obj := -2\<rparr>)
      else if so_inds so < so_cap so \<and> rmv_obj so \<ge> 0
           then (NCSCC_RC_SUCCESS, so\<lparr>so_inds := so_inds so + 1\<rparr>)
           else (NCSCC_RC_FAILURE, so))"

definition MAX_INDS_AT_A_TIME :: nat where "MAX_INDS_AT_A_TIME = 10"

text \<open>The loop that receives until nothing is left: what is left and what was removed.\<close>

function rmv_loop :: "nat \<Rightarrow> nat \<Rightarrow> nat" where
  "rmv_loop pend tot =
     (if pend = 0 then tot
      else let ind_count = min pend MAX_INDS_AT_A_TIME in rmv_loop (pend - ind_count) (tot + ind_count))"
  by auto
termination by (relation "measure fst") (auto simp: MAX_INDS_AT_A_TIME_def)

declare rmv_loop.simps [simp del]

lemma rmv_loop_all: "rmv_loop pend tot = tot + pend"
proof (induction pend tot rule: rmv_loop.induct)
  case (1 pend tot)
  then show ?case by (subst rmv_loop.simps) (auto simp: Let_def)
qed

text \<open>
  \<open>ncs_sel_obj_rmv_ind\<close>. \<open>None\<close> when it blocks, and when the raising end is closed and nothing is
  left: \<open>recv\<close> then returns \<open>0\<close> and the code looks at an \<open>errno\<close> that was not set.
\<close>

definition ncs_sel_obj_rmv_ind :: "bool \<Rightarrow> bool \<Rightarrow> NCS_SEL_OBJ \<Rightarrow> (int \<times> NCS_SEL_OBJ) option" where
  "ncs_sel_obj_rmv_ind nonblock one_at_a_time so =
     (if rmv_obj so < 0 then Some (uint (rc_val NCSCC_RC_FAILURE), so\<lparr>rmv_obj := -2\<rparr>)
      else if one_at_a_time \<and> so_inds so > 0 then Some (1, so\<lparr>so_inds := so_inds so - 1\<rparr>)
      else if raise_obj so < 0 then None
      else let tot = rmv_loop (so_inds so) 0; so = so\<lparr>so_inds := 0\<rparr>
           in if tot \<noteq> 0 \<or> nonblock then Some (int tot, so) else None)"

end
