(* ===== verification/Ipc.thy ===== *)
theory Ipc
  imports Hdl Sel_Obj
begin

text \<open>
  Mailboxes (\<open>base/sysf_ipc.c\<close>). A mailbox is reached through a handle; it has one queue for each of
  four priorities, and the messages of a queue are linked through their first field. The model
  keeps these links as a store. An operation is atomic: it runs between taking the handle and giving
  it back, under the lock of the mailbox. \<open>None\<close> is a fault: an assertion, an access to a mailbox
  that was freed, or an access outside an array.
\<close>

section \<open>State\<close>

record NCS_IPC_QUEUE =
  q_head :: ptr
  q_tail :: ptr

record NCS_IPC =
  ipc_queue :: "NCS_IPC_QUEUE list"
  no_of_msgs :: "u32 list"
  max_no_of_msgs :: "u32 list"
  usr_counters :: "ptr list"
  active_queue :: u32
  ipc_sel_obj :: NCS_SEL_OBJ
  msg_count :: u32
  ipc_ref_count :: u32
  ipc_name :: "string option"

text \<open>The handle manager, the mailboxes that are allocated, the links of the messages, the users' counters.\<close>

record ipc_world =
  iw_hm :: HM_CORE
  iw_ipc :: "ptr \<Rightarrow> NCS_IPC option"
  iw_next :: "ptr \<Rightarrow> ptr"
  iw_ctr :: "ptr \<Rightarrow> u32"

definition NCS_IPC_PRIO_LEVELS :: nat where "NCS_IPC_PRIO_LEVELS = 4"
definition NCS_IPC_PRIORITY_LOW :: u32 where "NCS_IPC_PRIORITY_LOW = 1"
definition NCS_IPC_PRIORITY_MAX :: u32 where "NCS_IPC_PRIORITY_MAX = 5"
definition NCS_SERVICE_ID_OS_SVCS :: u32 where "NCS_SERVICE_ID_OS_SVCS = 4"
definition NCS_HM_POOL_ID_COMMON :: nat where "NCS_HM_POOL_ID_COMMON = 0"

definition ipc_zero :: NCS_IPC where
  "ipc_zero = \<lparr>ipc_queue = replicate NCS_IPC_PRIO_LEVELS \<lparr>q_head = 0, q_tail = 0\<rparr>,
     no_of_msgs = replicate NCS_IPC_PRIO_LEVELS 0, max_no_of_msgs = replicate NCS_IPC_PRIO_LEVELS 0,
     usr_counters = replicate NCS_IPC_PRIO_LEVELS 0, active_queue = 0,
     ipc_sel_obj = \<lparr>raise_obj = 0, rmv_obj = 0, so_inds = 0, so_cap = 0\<rparr>,
     msg_count = 0, ipc_ref_count = 0, ipc_name = None\<rparr>"

text \<open>The queue of a priority, computed on 32 bits.\<close>

definition queue_number :: "u32 \<Rightarrow> nat" where
  "queue_number prio = unat (of_nat NCS_IPC_PRIO_LEVELS - prio)"

definition ipc_store :: "ptr \<Rightarrow> NCS_IPC \<Rightarrow> ipc_world \<Rightarrow> ipc_world" where
  "ipc_store p ipc w = w\<lparr>iw_ipc := (iw_ipc w)(p \<mapsto> ipc)\<rparr>"

section \<open>Creation\<close>

text \<open>
  \<open>new\<close> is what the allocation returns. When the selection object cannot be made, the mailbox is
  freed and its handle stays bound.
\<close>

definition ncs_ipc_create ::
  "ptr \<Rightarrow> (int \<times> int \<times> nat) option \<Rightarrow> bool \<Rightarrow> ipc_world \<Rightarrow> (rc \<times> u32 \<times> ipc_world) option" where
  "ncs_ipc_create new pair fcntl_ok w =
     (if new = NULL then Some (NCSCC_RC_FAILURE, 0, w)
      else do {
        (mbx, hm) \<leftarrow> ncshm_create_hdl NCS_HM_POOL_ID_COMMON NCS_SERVICE_ID_OS_SVCS new (iw_hm w);
        let w = w\<lparr>iw_hm := hm\<rparr>;
        if mbx = 0 then Some (NCSCC_RC_FAILURE, 0, w)
        else case ncs_sel_obj_create pair fcntl_ok (ipc_sel_obj ipc_zero) of
               (NCSCC_RC_SUCCESS, so) \<Rightarrow> Some (NCSCC_RC_SUCCESS, mbx, ipc_store new (ipc_zero\<lparr>ipc_sel_obj := so\<rparr>) w)
             | (rc, so) \<Rightarrow> Some (rc, mbx, w\<lparr>iw_ipc := (iw_ipc w)(new := None)\<rparr>) })"

section \<open>Counting messages\<close>

definition ipc_enqueue_ind_processing ::
  "nat \<Rightarrow> NCS_IPC \<Rightarrow> (ptr \<Rightarrow> u32) \<Rightarrow> (rc \<times> NCS_IPC \<times> (ptr \<Rightarrow> u32)) option" where
  "ipc_enqueue_ind_processing q ipc ctr =
     (if q \<ge> NCS_IPC_PRIO_LEVELS then None
      else if max_no_of_msgs ipc ! q \<noteq> 0 \<and> no_of_msgs ipc ! q \<ge> max_no_of_msgs ipc ! q
      then Some (NCSCC_RC_FAILURE, ipc, ctr)
      else do {
        ipc \<leftarrow> (if msg_count ipc = 0 then (case ncs_sel_obj_ind (ipc_sel_obj ipc) of
                    (NCSCC_RC_SUCCESS, so) \<Rightarrow> Some (ipc\<lparr>ipc_sel_obj := so\<rparr>)
                  | (NCSCC_RC_FAILURE, so) \<Rightarrow> None)
                else Some ipc);
        let n = no_of_msgs ipc ! q + 1;
        let ipc = ipc\<lparr>msg_count := msg_count ipc + 1, no_of_msgs := (no_of_msgs ipc)[q := n]\<rparr>;
        Some (NCSCC_RC_SUCCESS, ipc,
          if usr_counters ipc ! q \<noteq> NULL then ctr(usr_counters ipc ! q := n) else ctr) })"

definition ipc_dequeue_ind_processing ::
  "nat \<Rightarrow> NCS_IPC \<Rightarrow> (ptr \<Rightarrow> u32) \<Rightarrow> (rc \<times> NCS_IPC \<times> (ptr \<Rightarrow> u32)) option" where
  "ipc_dequeue_ind_processing q ipc ctr =
     (let n = no_of_msgs ipc ! q - 1;
          ctr = (if usr_counters ipc ! q \<noteq> NULL then ctr(usr_counters ipc ! q := n) else ctr);
          ipc = ipc\<lparr>no_of_msgs := (no_of_msgs ipc)[q := n], msg_count := msg_count ipc - 1\<rparr>
      in if msg_count ipc = 0 then do {
           (inds_rmvd, so) \<leftarrow> ncs_sel_obj_rmv_ind True True (ipc_sel_obj ipc);
           Some (if inds_rmvd \<le> 0 then NCSCC_RC_FAILURE else NCSCC_RC_SUCCESS, ipc\<lparr>ipc_sel_obj := so\<rparr>, ctr) }
         else Some (NCSCC_RC_SUCCESS, ipc, ctr))"

section \<open>Flushing\<close>

text \<open>
  The walk over one queue. \<open>cb\<close> is the client's callback, which says whether a message goes and
  frees those that go; a walk that does not end is \<open>None\<close>.
\<close>

definition unlink_msg :: "ptr \<Rightarrow> ptr \<Rightarrow> ptr \<Rightarrow> NCS_IPC_QUEUE \<Rightarrow> (ptr \<Rightarrow> ptr) \<Rightarrow> NCS_IPC_QUEUE \<times> (ptr \<Rightarrow> ptr)" where
  "unlink_msg msg p_next p_prev qu nx =
     (if msg = q_head qu
      then (qu\<lparr>q_head := p_next, q_tail := (if msg = q_tail qu then p_next else q_tail qu)\<rparr>, nx)
      else (qu\<lparr>q_tail := (if msg = q_tail qu then p_prev else q_tail qu)\<rparr>, nx(p_prev := p_next)))"

partial_function (option) flush_loop ::
  "(ptr \<Rightarrow> bool) \<Rightarrow> nat \<Rightarrow> ptr \<Rightarrow> ptr \<Rightarrow> NCS_IPC \<Rightarrow> (ptr \<Rightarrow> ptr) \<Rightarrow> (ptr \<Rightarrow> u32) \<Rightarrow>
     (ptr \<times> NCS_IPC \<times> (ptr \<Rightarrow> ptr) \<times> (ptr \<Rightarrow> u32)) option" where
  "flush_loop cb q msg p_prev ipc nx ctr =
     (if msg = NULL then Some (p_prev, ipc, nx, ctr)
      else if \<not> cb msg then flush_loop cb q (nx msg) msg ipc nx ctr
      else if msg \<noteq> q_head (ipc_queue ipc ! q) \<and> p_prev = NULL then None
      else Option.bind
        (ipc_dequeue_ind_processing q
          (ipc\<lparr>ipc_queue := (ipc_queue ipc)[q := fst (unlink_msg msg (nx msg) p_prev (ipc_queue ipc ! q) (nx(msg := NULL)))]\<rparr>) ctr)
        (\<lambda>r. flush_loop cb q (nx msg) p_prev (fst (snd r))
           (snd (unlink_msg msg (nx msg) p_prev (ipc_queue ipc ! q) (nx(msg := NULL)))) (snd (snd r))))"

fun flush_queues ::
  "(ptr \<Rightarrow> bool) \<Rightarrow> nat list \<Rightarrow> ptr \<Rightarrow> NCS_IPC \<Rightarrow> (ptr \<Rightarrow> ptr) \<Rightarrow> (ptr \<Rightarrow> u32) \<Rightarrow>
     (NCS_IPC \<times> (ptr \<Rightarrow> ptr) \<times> (ptr \<Rightarrow> u32)) option" where
  "flush_queues cb [] p_prev ipc nx ctr = Some (ipc, nx, ctr)"
| "flush_queues cb (q # qs) p_prev ipc nx ctr = do {
     (p_prev, ipc, nx, ctr) \<leftarrow> flush_loop cb q (q_head (ipc_queue ipc ! q)) p_prev ipc nx ctr;
     flush_queues cb qs p_prev ipc nx ctr }"

definition ipc_flush :: "(ptr \<Rightarrow> bool) \<Rightarrow> ptr \<Rightarrow> NCS_IPC \<Rightarrow> ipc_world \<Rightarrow> (rc \<times> ipc_world) option" where
  "ipc_flush cb p ipc w = do {
     (ipc, nx, ctr) \<leftarrow> flush_queues cb [0..<NCS_IPC_PRIO_LEVELS] NULL ipc (iw_next w) (iw_ctr w);
     Some (NCSCC_RC_SUCCESS, (ipc_store p ipc w)\<lparr>iw_next := nx, iw_ctr := ctr\<rparr>) }"

section \<open>Operations on a mailbox\<close>

text \<open>
  What the operations share: the checks of the argument, taking the handle, the access to the mailbox
  and giving the handle back. \<open>mbx\<close> is the client's pointer to its mailbox.
\<close>

definition with_mbx :: "'r \<Rightarrow> u32 option \<Rightarrow>
  (ptr \<Rightarrow> NCS_IPC \<Rightarrow> ipc_world \<Rightarrow> ('r \<times> ipc_world) option) \<Rightarrow> ipc_world \<Rightarrow> ('r \<times> ipc_world) option" where
  "with_mbx fail mbx body w = (case mbx of
      None \<Rightarrow> Some (fail, w)
    | Some h \<Rightarrow>
        if h = 0 then Some (fail, w)
        else let (p, hm) = ncshm_take_hdl NCS_SERVICE_ID_OS_SVCS h (iw_hm w);
                 w = w\<lparr>iw_hm := hm\<rparr>
             in if p = NULL then Some (fail, w)
                else do {
                  ipc \<leftarrow> iw_ipc w p;
                  (r, w) \<leftarrow> body p ipc w;
                  hm \<leftarrow> ncshm_give_hdl h (iw_hm w);
                  Some (r, w\<lparr>iw_hm := hm\<rparr>) })"

definition sel_obj_zero :: NCS_SEL_OBJ where
  "sel_obj_zero = \<lparr>raise_obj = 0, rmv_obj = 0, so_inds = 0, so_cap = 0\<rparr>"

definition ncs_ipc_get_sel_obj :: "u32 option \<Rightarrow> ipc_world \<Rightarrow> (NCS_SEL_OBJ \<times> ipc_world) option" where
  "ncs_ipc_get_sel_obj mbx = with_mbx sel_obj_zero mbx (\<lambda>p ipc w. Some (ipc_sel_obj ipc, w))"

definition ncs_ipc_attach :: "u32 option \<Rightarrow> ipc_world \<Rightarrow> (rc \<times> ipc_world) option" where
  "ncs_ipc_attach mbx = with_mbx NCSCC_RC_FAILURE mbx (\<lambda>p ipc w.
     Some (NCSCC_RC_SUCCESS, ipc_store p (ipc\<lparr>ipc_ref_count := ipc_ref_count ipc + 1\<rparr>) w))"

text \<open>\<open>alloc\<close> tells whether the memory for the name can be had; when not, the mailbox is freed.\<close>

definition ncs_ipc_attach_ext ::
  "bool \<Rightarrow> u32 option \<Rightarrow> string option \<Rightarrow> ipc_world \<Rightarrow> (rc \<times> ipc_world) option" where
  "ncs_ipc_attach_ext alloc mbx task_name w = (case task_name of
      None \<Rightarrow> Some (NCSCC_RC_FAILURE, w)
    | Some nm \<Rightarrow> with_mbx NCSCC_RC_FAILURE mbx (\<lambda>p ipc w.
        if \<not> alloc then Some (NCSCC_RC_FAILURE, w\<lparr>iw_ipc := (iw_ipc w)(p := None)\<rparr>)
        else Some (NCSCC_RC_SUCCESS,
          ipc_store p (ipc\<lparr>ipc_ref_count := ipc_ref_count ipc + 1, ipc_name := Some nm\<rparr>) w)) w)"

definition ncs_ipc_detach :: "u32 option \<Rightarrow> (ptr \<Rightarrow> bool) option \<Rightarrow> ipc_world \<Rightarrow> (rc \<times> ipc_world) option" where
  "ncs_ipc_detach mbx cb = with_mbx NCSCC_RC_FAILURE mbx (\<lambda>p ipc w.
     let ipc = ipc\<lparr>ipc_ref_count := ipc_ref_count ipc - 1\<rparr>
     in case cb of
          None \<Rightarrow> Some (NCSCC_RC_SUCCESS, ipc_store p ipc w)
        | Some f \<Rightarrow> ipc_flush f p ipc w)"

definition ncs_ipc_send :: "u32 option \<Rightarrow> ptr \<Rightarrow> u32 \<Rightarrow> ipc_world \<Rightarrow> (rc \<times> ipc_world) option" where
  "ncs_ipc_send mbx msg prio = with_mbx NCSCC_RC_FAILURE mbx (\<lambda>p ipc w.
     if ipc_ref_count ipc = 0 then Some (NCSCC_RC_FAILURE, w)
     else do {
       let q = queue_number prio;
       (rc, ipc, ctr) \<leftarrow> ipc_enqueue_ind_processing q ipc (iw_ctr w);
       if rc \<noteq> NCSCC_RC_SUCCESS then Some (NCSCC_RC_FAILURE, w)
       else if msg = NULL then None
       else let qu = ipc_queue ipc ! q;
                (qu, nx) = (if q_tail qu \<noteq> NULL then (qu, (iw_next w)(q_tail qu := msg))
                            else (qu\<lparr>q_head := msg\<rparr>, iw_next w));
                qu = qu\<lparr>q_tail := msg\<rparr>;
                nx = nx(msg := NULL)
            in Some (NCSCC_RC_SUCCESS, (ipc_store p (ipc\<lparr>ipc_queue := (ipc_queue ipc)[q := qu]\<rparr>) w)
                 \<lparr>iw_next := nx, iw_ctr := ctr\<rparr>) })"

definition prio_bad :: "u32 \<Rightarrow> bool" where
  "prio_bad prio \<longleftrightarrow> prio \<ge> NCS_IPC_PRIORITY_MAX \<or> prio < NCS_IPC_PRIORITY_LOW"

definition ncs_ipc_config_max_msgs :: "u32 option \<Rightarrow> u32 \<Rightarrow> u32 \<Rightarrow> ipc_world \<Rightarrow> (rc \<times> ipc_world) option" where
  "ncs_ipc_config_max_msgs mbx prio max_msgs w =
     (if prio_bad prio then Some (NCSCC_RC_FAILURE, w)
      else with_mbx NCSCC_RC_FAILURE mbx (\<lambda>p ipc w. Some (NCSCC_RC_SUCCESS,
        ipc_store p (ipc\<lparr>max_no_of_msgs := (max_no_of_msgs ipc)[queue_number prio := max_msgs]\<rparr>) w)) w)"

definition ncs_ipc_config_usr_counters :: "u32 option \<Rightarrow> u32 \<Rightarrow> ptr \<Rightarrow> ipc_world \<Rightarrow> (rc \<times> ipc_world) option" where
  "ncs_ipc_config_usr_counters mbx prio usr_counter w =
     (if prio_bad prio \<or> usr_counter = NULL then Some (NCSCC_RC_FAILURE, w)
      else with_mbx NCSCC_RC_FAILURE mbx (\<lambda>p ipc w. Some (NCSCC_RC_SUCCESS,
        ipc_store p (ipc\<lparr>usr_counters := (usr_counters ipc)[queue_number prio := usr_counter]\<rparr>) w)) w)"

section \<open>Receiving\<close>

datatype ipc_recv = Received ptr | Nothing | Blocked

text \<open>The loop that looks for the first queue with a message.\<close>

fun first_queue :: "NCS_IPC_QUEUE list \<Rightarrow> nat \<Rightarrow> nat option" where
  "first_queue [] k = None"
| "first_queue (qu # qus) k = (if q_head qu \<noteq> NULL then Some k else first_queue qus (Suc k))"

text \<open>From the lock on to the return, without giving the handle back.\<close>

definition recv_locked :: "ptr \<Rightarrow> NCS_IPC \<Rightarrow> ipc_world \<Rightarrow> (ipc_recv \<times> ipc_world) option" where
  "recv_locked p ipc w =
     (if ipc_ref_count ipc = 0 then Some (Nothing, w)
      else if msg_count ipc = 0 then do {
        (inds_rmvd, so) \<leftarrow> ncs_sel_obj_rmv_ind True True (ipc_sel_obj ipc);
        Some (Nothing, ipc_store p (ipc\<lparr>ipc_sel_obj := so\<rparr>) w) }
      else do {
        q \<leftarrow> first_queue (ipc_queue ipc) 0;
        let qu = ipc_queue ipc ! q;
        let msg = q_head qu;
        let p_next = iw_next w msg;
        let qu = qu\<lparr>q_head := p_next, q_tail := (if p_next = NULL then NULL else q_tail qu)\<rparr>;
        let ipc = ipc\<lparr>ipc_queue := (ipc_queue ipc)[q := qu]\<rparr>;
        (rc, ipc, ctr) \<leftarrow> ipc_dequeue_ind_processing q ipc (iw_ctr w);
        Some (if rc \<noteq> NCSCC_RC_SUCCESS then Nothing else Received msg,
          (ipc_store p ipc w)\<lparr>iw_next := (iw_next w)(msg := NULL), iw_ctr := ctr\<rparr>) })"

definition ncs_ipc_non_blk_recv :: "u32 option \<Rightarrow> ipc_world \<Rightarrow> (ipc_recv \<times> ipc_world) option" where
  "ncs_ipc_non_blk_recv mbx w = (case mbx of
      None \<Rightarrow> Some (Nothing, w)
    | Some h \<Rightarrow> if h = 0 then Some (Nothing, w)
        else do {
          (mbx_obj, w) \<leftarrow> ncs_ipc_get_sel_obj mbx w;
          with_mbx Nothing mbx recv_locked w })"

text \<open>
  The blocking receive polls with the handle taken. The poll returns once an indication is there or
  the raising end is shut; \<open>ncs_ipc_recv\<close> is the code up to the poll and, when it need not wait,
  to the end. A receiver that has to wait goes on with \<open>recv_polled\<close>, where \<open>ok\<close> tells whether the
  poll returned an event or an error.
\<close>

definition poll_ready :: "NCS_SEL_OBJ \<Rightarrow> bool" where
  "poll_ready so \<longleftrightarrow> so_inds so > 0 \<or> raise_obj so < 0"

definition recv_polled :: "bool \<Rightarrow> u32 \<Rightarrow> ptr \<Rightarrow> ipc_world \<Rightarrow> (ipc_recv \<times> ipc_world) option" where
  "recv_polled ok h p w = do {
     (r, w) \<leftarrow> (if ok then do { ipc \<leftarrow> iw_ipc w p; recv_locked p ipc w } else Some (Nothing, w));
     hm \<leftarrow> ncshm_give_hdl h (iw_hm w);
     Some (r, w\<lparr>iw_hm := hm\<rparr>) }"

definition ncs_ipc_recv :: "u32 option \<Rightarrow> ipc_world \<Rightarrow> (ipc_recv \<times> ipc_world) option" where
  "ncs_ipc_recv mbx w = (case mbx of
      None \<Rightarrow> Some (Nothing, w)
    | Some h \<Rightarrow> if h = 0 then Some (Nothing, w)
        else do {
          (mbx_obj, w) \<leftarrow> ncs_ipc_get_sel_obj mbx w;
          let (p, hm) = ncshm_take_hdl NCS_SERVICE_ID_OS_SVCS h (iw_hm w);
          let w = w\<lparr>iw_hm := hm\<rparr>;
          if p = NULL then Some (Nothing, w)
          else do {
            ipc \<leftarrow> iw_ipc w p;
            if poll_ready (ipc_sel_obj ipc) then recv_polled True h p w else Some (Blocked, w) } })"

section \<open>Release\<close>

text \<open>
  The release up to the destruction of the handle, and the rest of it; in between the caller may wait
  for threads that hold the handle (\<open>Hdl.hm_wake\<close>). \<open>sem\<close> is the semaphore of the handle manager.
\<close>

definition release_end :: "ptr \<Rightarrow> ipc_world \<Rightarrow> ipc_world" where
  "release_end p w = w\<lparr>iw_ipc := (iw_ipc w)(p := None)\<rparr>"

definition ncs_ipc_release ::
  "ptr \<Rightarrow> u32 option \<Rightarrow> (ptr \<Rightarrow> bool) option \<Rightarrow> ipc_world \<Rightarrow> (rc \<times> destroy_result \<times> ipc_world) option" where
  "ncs_ipc_release sem mbx cb w = (case mbx of
      None \<Rightarrow> Some (NCSCC_RC_FAILURE, Refused, w)
    | Some h \<Rightarrow>
        if h = 0 then Some (NCSCC_RC_FAILURE, Refused, w)
        else let (p, hm) = ncshm_take_hdl NCS_SERVICE_ID_OS_SVCS h (iw_hm w);
                 w = w\<lparr>iw_hm := hm\<rparr>
             in if p = NULL then Some (NCSCC_RC_FAILURE, Refused, w)
                else do {
                  ipc \<leftarrow> iw_ipc w p;
                  if ipc_ref_count ipc \<noteq> 0 then do {
                    hm \<leftarrow> ncshm_give_hdl h (iw_hm w);
                    Some (NCSCC_RC_FAILURE, Refused, w\<lparr>iw_hm := hm\<rparr>) }
                  else do {
                    (rc, w) \<leftarrow> (case cb of None \<Rightarrow> Some (NCSCC_RC_SUCCESS, w) | Some f \<Rightarrow> ipc_flush f p ipc w);
                    hm \<leftarrow> ncshm_give_hdl h (iw_hm w);
                    ipc \<leftarrow> iw_ipc w p;
                    let w = ipc_store p (ipc\<lparr>ipc_sel_obj := snd (ncs_sel_obj_raise_operation_shut (ipc_sel_obj ipc))\<rparr>) w;
                    let (res, hm) = ncshm_destroy_hdl sem NCS_SERVICE_ID_OS_SVCS h hm;
                    let w = w\<lparr>iw_hm := hm\<rparr>;
                    Some (rc, res, case res of Waiting _ \<Rightarrow> w | _ \<Rightarrow> release_end p w) } })"

end
