(* ===== verification/Hdl_View.thy ===== *)
theory Hdl_View
  imports Hdl
begin

text \<open>
  The bit fields behave like record fields, positions and cells correspond, and storing a cell
  changes that cell only.
\<close>

section \<open>Bit fields\<close>

lemma bit_get_bits: "bit (get_bits k n w) i \<longleftrightarrow> i < n \<and> bit w (k + i)"
  by (auto simp: get_bits_def bit_simps)

lemma bit_set_bits:
  "bit (set_bits k n v w) i \<longleftrightarrow>
     (if k \<le> i \<and> i < k + n \<and> i < 32 then bit v (i - k) else bit w i)"
  using bit_imp_le_length[of w i] by (auto simp: set_bits_def bit_simps)

lemma get_set_same [simp]:
  assumes "k + n \<le> 32"
  shows "get_bits k n (set_bits k n v w) = take_bit n v"
  by (rule bit_eqI) (use assms in \<open>auto simp: bit_get_bits bit_set_bits bit_simps\<close>)

lemma get_set_other [simp]:
  assumes "j + m \<le> k \<or> k + n \<le> j"
  shows "get_bits j m (set_bits k n v w) = get_bits j m w"
  by (rule bit_eqI) (use assms in \<open>auto simp: bit_get_bits bit_set_bits\<close>)

lemma set_set_same [simp]: "set_bits k n v (set_bits k n u w) = set_bits k n v w"
  by (rule bit_eqI) (auto simp: bit_set_bits)

lemma set_get_same [simp]: "set_bits k n (get_bits k n w) w = w"
  by (rule bit_eqI) (auto simp: bit_get_bits bit_set_bits)

lemma set_bits_take: "set_bits k n (take_bit n v) w = set_bits k n v w"
  by (simp add: set_bits_def)

lemma get_bits_take [simp]: "take_bit n (get_bits k n w) = get_bits k n w"
  by (simp add: get_bits_def)

lemma cell_fields [simp]:
  "c_seq_id (set_svc_id v c) = c_seq_id c" "c_seq_id (set_busy v c) = c_seq_id c"
  "c_seq_id (set_use_ct v c) = c_seq_id c"
  "c_svc_id (set_svc_id v c) = take_bit 12 v" "c_svc_id (set_busy v c) = c_svc_id c"
  "c_svc_id (set_use_ct v c) = c_svc_id c"
  "c_busy (set_svc_id v c) = c_busy c" "c_busy (set_busy v c) = take_bit 1 v"
  "c_busy (set_use_ct v c) = c_busy c"
  "c_use_ct (set_svc_id v c) = c_use_ct c" "c_use_ct (set_busy v c) = c_use_ct c"
  "c_use_ct (set_use_ct v c) = take_bit 11 v"
  "cell_data (set_svc_id v c) = cell_data c" "cell_data (set_busy v c) = cell_data c"
  "cell_data (set_use_ct v c) = cell_data c"
  by (simp_all add: c_seq_id_def c_svc_id_def c_busy_def c_use_ct_def set_svc_id_def set_busy_def
      set_use_ct_def)

lemma cell_fields_data [simp]:
  "c_seq_id (c\<lparr>cell_data := d\<rparr>) = c_seq_id c" "c_svc_id (c\<lparr>cell_data := d\<rparr>) = c_svc_id c"
  "c_busy (c\<lparr>cell_data := d\<rparr>) = c_busy c" "c_use_ct (c\<lparr>cell_data := d\<rparr>) = c_use_ct c"
  by (simp_all add: c_seq_id_def c_svc_id_def c_busy_def c_use_ct_def)

section \<open>Positions\<close>

definition is_pos :: "u32 \<Rightarrow> bool" where
  "is_pos p \<longleftrightarrow> take_bit 28 p = p"

lemma is_pos_bit: "is_pos p \<Longrightarrow> bit p i \<Longrightarrow> i < 28"
  by (metis bit_take_bit_iff is_pos_def)

lemma is_posI: "(\<And>i. bit p i \<Longrightarrow> i < 28) \<Longrightarrow> is_pos p"
  unfolding is_pos_def by (rule bit_eqI) (auto simp: bit_take_bit_iff)

lemma is_pos_hdl [simp]: "is_pos (hdl_pos h)"
  by (rule is_posI) (auto simp: hdl_pos_def bit_simps dest: bit_imp_le_length)

lemma is_pos_mk [simp]: "is_pos (mk_pos i1 i2 i3)"
  by (rule is_posI) (auto simp: mk_pos_def bit_simps dest!: bit_imp_le_length)

lemma pos_idx_mk [simp]:
  "pos_idx1 (mk_pos i1 i2 i3) = i1" "pos_idx2 (mk_pos i1 i2 i3) = i2" "pos_idx3 (mk_pos i1 i2 i3) = i3"
  by (rule bit_eqI; auto simp: mk_pos_def pos_idx1_def pos_idx2_def pos_idx3_def bit_simps
      dest: bit_imp_le_length)+

lemma mk_pos_idx:
  assumes "is_pos p"
  shows "mk_pos (pos_idx1 p) (pos_idx2 p) (pos_idx3 p) = p"
proof (rule bit_eqI)
  fix i assume "possible_bit TYPE(u32) i"
  then consider "i < 8" | "8 \<le> i" "i < 16" | "16 \<le> i" "i < 28" | "28 \<le> i" by linarith
  then show "bit (mk_pos (pos_idx1 p) (pos_idx2 p) (pos_idx3 p)) i = bit p i"
    using is_pos_bit[OF assms, of i]
    by cases (auto simp: mk_pos_def pos_idx1_def pos_idx2_def pos_idx3_def bit_simps)
qed

lemma pos_eq_iff:
  "is_pos p \<Longrightarrow> is_pos q \<Longrightarrow>
     p = q \<longleftrightarrow> pos_idx1 p = pos_idx1 q \<and> pos_idx2 p = pos_idx2 q \<and> pos_idx3 p = pos_idx3 q"
  by (metis mk_pos_idx)

lemma hdl_pos_mk [simp]: "is_pos p \<Longrightarrow> hdl_pos (mk_hdl p s) = p"
  by (rule bit_eqI) (auto simp: hdl_pos_def mk_hdl_def bit_simps dest: is_pos_bit)

lemma hdl_seq_mk [simp]: "hdl_seq_id (mk_hdl p s) = take_bit 4 s"
  by (rule bit_eqI) (auto simp: hdl_seq_id_def get_bits_def mk_hdl_def bit_simps)

lemma mk_hdl_same [simp]: "mk_hdl (hdl_pos h) (hdl_seq_id h) = h"
  by (rule bit_eqI) (auto simp: hdl_pos_def hdl_seq_id_def get_bits_def mk_hdl_def bit_simps)

lemma hdl_seq_take [simp]: "take_bit 4 (hdl_seq_id h) = hdl_seq_id h"
  by (simp add: hdl_seq_id_def)

lemma c_seq_take [simp]: "take_bit 4 (c_seq_id c) = c_seq_id c"
  by (simp add: c_seq_id_def)

lemma hdl_eq_iff: "h = g \<longleftrightarrow> hdl_pos h = hdl_pos g \<and> hdl_seq_id h = hdl_seq_id g"
  by (metis mk_hdl_same)

section \<open>Cells\<close>

lemma cell_at_store:
  assumes "is_pos p" "is_pos q"
  shows "cell_at (cell_store hm p c) q = (if q = p \<and> cell_at hm p \<noteq> None then Some c else cell_at hm q)"
proof (cases "q = p")
  case True
  then show ?thesis by (auto simp: cell_at_def cell_store_def split: option.splits)
next
  case False
  then have "\<not> (pos_idx1 q = pos_idx1 p \<and> pos_idx2 q = pos_idx2 p \<and> pos_idx3 q = pos_idx3 p)"
    using pos_eq_iff[OF assms(2,1)] by simp
  then show ?thesis using False by (auto simp: cell_at_def cell_store_def split: option.splits)
qed

lemma cell_store_frame [simp]:
  "hm_pool (cell_store hm p c) = hm_pool hm" "hm_sem (cell_store hm p c) = hm_sem hm"
  "hm_mem (cell_store hm p c) = hm_mem hm" "hm_addr (cell_store hm p c) = hm_addr hm"
  by (auto simp: cell_store_def split: option.splits)

lemma cell_store_same:
  assumes "cell_at hm p = Some c"
  shows "cell_store hm p c = hm"
proof -
  obtain unt spot where u: "hm_unit hm (pos_idx1 p) = Some unt" "unit_cells unt (pos_idx2 p) = Some spot"
    "spot (pos_idx3 p) = c"
    using assms by (auto simp: cell_at_def)
  then show ?thesis by (simp add: cell_store_def fun_upd_idem)
qed

lemma cell_store_twice:
  "cell_store (cell_store hm p c) p d = cell_store hm p d"
  by (auto simp: cell_store_def split: option.splits)

lemma cell_at_cong:
  "hm_unit hm' = hm_unit hm \<Longrightarrow> cell_at hm' p = cell_at hm p"
  by (simp add: cell_at_def)

lemma cell_at_pool_upd [simp]: "cell_at (pool_upd i f hm) p = cell_at hm p"
  by (rule cell_at_cong) (simp add: pool_upd_def)

lemma pool_upd_frame [simp]:
  "hm_sem (pool_upd i f hm) = hm_sem hm" "length (hm_pool (pool_upd i f hm)) = length (hm_pool hm)"
  "hm_unit (pool_upd i f hm) = hm_unit hm"
  by (simp_all add: pool_upd_def)

lemma pool_upd_nth:
  "j < length (hm_pool hm) \<Longrightarrow>
     hm_pool (pool_upd i f hm) ! j = (if j = i then f (hm_pool hm ! i) else hm_pool hm ! j)"
  by (simp add: pool_upd_def nth_list_update)

lemma pool_id_bound [simp]: "m_HM_POOL_ID i < HM_POOL_CNT"
proof -
  have "unat (drop_bit 5 (ucast i - 1 :: u32) + 1) < 9" if "\<not> i < 2"
  proof -
    have le: "unat i \<ge> 2" "unat i < 256" using that unsigned_less[where ?'a = nat, of i] by (auto simp: word_less_nat_alt)
    then have "(1::u32) \<le> ucast i" by (simp add: word_le_nat_alt unsigned_ucast_eq take_bit_nat_eq_self)
    then have "unat (ucast i - 1 :: u32) = unat i - 1"
      using le by (simp add: unat_sub unsigned_ucast_eq take_bit_nat_eq_self)
    then have d: "unat (drop_bit 5 (ucast i - 1 :: u32)) = (unat i - 1) div 32"
      by (simp add: drop_bit_eq_div unat_div_distrib)
    then have "(unat i - 1) div 32 < 8" using le by auto
    then show ?thesis using d by (simp add: unat_word_ariths)
  qed
  then show ?thesis by (auto simp: m_HM_POOL_ID_def HM_POOL_CNT_def)
qed

lemma detm_pool_bound [simp]: "\<not> HM_POOL_CNT \<le> m_HM_DETM_POOL_FRM_HDL h"
  by (simp add: m_HM_DETM_POOL_FRM_HDL_def not_le)

end
