(* ===== verification/Ipc_Rep.thy ===== *)
theory Ipc_Rep
  imports Ipc Hdl_View
begin

text \<open>
  What a mailbox holds: the lists that the linked queues represent, and the well-formedness of the
  mailbox that every operation keeps.
\<close>

section \<open>Linked queues\<close>

fun chain :: "(ptr \<Rightarrow> ptr) \<Rightarrow> ptr \<Rightarrow> ptr list \<Rightarrow> bool" where
  "chain nx a [] \<longleftrightarrow> a = NULL"
| "chain nx a (x # xs) \<longleftrightarrow> a = x \<and> x \<noteq> NULL \<and> chain nx (nx x) xs"

definition queue_ok :: "(ptr \<Rightarrow> ptr) \<Rightarrow> NCS_IPC_QUEUE \<Rightarrow> ptr list \<Rightarrow> bool" where
  "queue_ok nx qu xs \<longleftrightarrow> chain nx (q_head qu) xs \<and> q_tail qu = (if xs = [] then NULL else last xs)"

lemma chain_other [simp]: "x \<notin> set xs \<Longrightarrow> chain (nx(x := v)) a xs = chain nx a xs"
  by (induction xs arbitrary: a) auto

lemma chain_nonnull: "chain nx a xs \<Longrightarrow> x \<in> set xs \<Longrightarrow> x \<noteq> NULL"
  by (induction xs arbitrary: a) auto

lemma chain_head: "chain nx a xs \<Longrightarrow> a = (case xs of [] \<Rightarrow> NULL | x # _ \<Rightarrow> x)"
  by (cases xs) auto

lemma queue_ok_other: "x \<notin> set xs \<Longrightarrow> queue_ok (nx(x := v)) qu xs = queue_ok nx qu xs"
  by (simp add: queue_ok_def)

lemma chain_snoc:
  "chain nx a xs \<Longrightarrow> xs \<noteq> [] \<Longrightarrow> distinct xs \<Longrightarrow> m \<notin> set xs \<Longrightarrow> m \<noteq> NULL \<Longrightarrow>
     chain (nx(last xs := m, m := NULL)) a (xs @ [m])"
proof (induction xs arbitrary: a)
  case (Cons x xs)
  show ?case
  proof (cases "xs = []")
    case False
    then have "last xs \<noteq> x" "m \<noteq> x" using Cons.prems last_in_set[OF False] by auto
    then show ?thesis using Cons False by simp
  qed (use Cons.prems in auto)
qed simp

lemma chain_unlink:
  "chain nx a (pre @ m # rest) \<Longrightarrow> pre \<noteq> [] \<Longrightarrow> distinct (pre @ m # rest) \<Longrightarrow>
     chain (nx(m := NULL, last pre := nx m)) a (pre @ rest)"
proof (induction pre arbitrary: a)
  case (Cons x pre)
  show ?case
  proof (cases "pre = []")
    case True
    then have "a = x" "x \<noteq> NULL" "chain nx (nx m) rest" "x \<notin> set rest" "m \<notin> set rest" using Cons.prems by auto
    then have "chain (nx(m := NULL, x := nx m)) (nx m) rest" by simp
    then show ?thesis using True \<open>a = x\<close> \<open>x \<noteq> NULL\<close> by (simp add: fun_upd_def)
  next
    case False
    then have "last pre \<noteq> x" "m \<noteq> x" using Cons.prems last_in_set[OF False] by auto
    then show ?thesis using Cons False by simp
  qed
qed simp

lemma chain_after: "chain nx a (pre @ m # rest) \<Longrightarrow> chain nx (nx m) rest"
  by (induction pre arbitrary: a) auto

section \<open>Well-formed mailboxes\<close>

definition links_ok :: "(ptr \<Rightarrow> ptr) \<Rightarrow> NCS_IPC_QUEUE list \<Rightarrow> ptr list list \<Rightarrow> bool" where
  "links_ok nx qus qs \<longleftrightarrow> length qus = NCS_IPC_PRIO_LEVELS \<and> length qs = NCS_IPC_PRIO_LEVELS \<and>
     distinct (concat qs) \<and> (\<forall>i < NCS_IPC_PRIO_LEVELS. queue_ok nx (qus ! i) (qs ! i))"

text \<open>
  The states the source allows: no message and no indication, or some messages and exactly one
  indication.
\<close>

definition counts_ok :: "NCS_IPC \<Rightarrow> ptr list list \<Rightarrow> bool" where
  "counts_ok ipc qs \<longleftrightarrow> length (no_of_msgs ipc) = NCS_IPC_PRIO_LEVELS \<and>
     length (max_no_of_msgs ipc) = NCS_IPC_PRIO_LEVELS \<and> length (usr_counters ipc) = NCS_IPC_PRIO_LEVELS \<and>
     (\<forall>i < NCS_IPC_PRIO_LEVELS. unat (no_of_msgs ipc ! i) = length (qs ! i)) \<and>
     unat (msg_count ipc) = length (concat qs) \<and>
     raise_obj (ipc_sel_obj ipc) \<ge> 0 \<and> rmv_obj (ipc_sel_obj ipc) \<ge> 0 \<and> so_cap (ipc_sel_obj ipc) > 0 \<and>
     so_inds (ipc_sel_obj ipc) = (if concat qs = [] then 0 else 1)"

definition ipc_rep :: "(ptr \<Rightarrow> ptr) \<Rightarrow> NCS_IPC \<Rightarrow> ptr list list \<Rightarrow> bool" where
  "ipc_rep nx ipc qs \<longleftrightarrow> links_ok nx (ipc_queue ipc) qs \<and> counts_ok ipc qs"

lemma concat_upd_length:
  "q < length qs \<Longrightarrow> length (concat (qs[q := ys])) + length (qs ! q) = length (concat qs) + length ys"
proof (induction qs arbitrary: q)
  case (Cons xs qs)
  then show ?case by (cases q) auto
qed simp

lemma concat_upd_set:
  "set (concat (qs[q := ys])) \<subseteq> set (concat qs) \<union> set ys"
  using set_update_subset_insert[of qs q ys] by (auto dest: subsetD)

lemma nth_in_concat: "q < length qs \<Longrightarrow> set (qs ! q) \<subseteq> set (concat qs)"
  using nth_mem by fastforce

lemma concat_split: "q < length qs \<Longrightarrow> concat qs = concat (take q qs) @ qs ! q @ concat (drop (Suc q) qs)"
  by (metis append.assoc append_Nil2 concat.simps(2) concat_append id_take_nth_drop)

lemma concat_upd_split:
  "q < length qs \<Longrightarrow> concat (qs[q := ys]) = concat (take q qs) @ ys @ concat (drop (Suc q) qs)"
  by (simp add: upd_conv_take_nth_drop)

lemma distinct_concat_upd:
  assumes "distinct (concat qs)" "q < length qs" "distinct ys"
    "set ys \<inter> set (concat qs) \<subseteq> set (qs ! q)"
  shows "distinct (concat (qs[q := ys]))"
  using assms concat_split[OF assms(2)] by (simp add: concat_upd_split del: distinct_concat_iff) fastforce

lemma other_queue:
  assumes "distinct (concat qs)" "i < length qs" "j < length qs" "i \<noteq> j" "x \<in> set (qs ! i)"
  shows "x \<notin> set (qs ! j)"
proof -
  have "set (qs ! i) \<inter> set (qs ! j) = {}" if ij: "i < j" "j < length qs" for i j
  proof -
    have "set (qs ! j) \<subseteq> set (concat (drop (Suc i) qs))"
      using nth_in_concat[of "j - Suc i" "drop (Suc i) qs"] ij by simp
    moreover have "set (qs ! i) \<inter> set (concat (drop (Suc i) qs)) = {}"
      using assms(1) concat_split[of i qs] ij by (metis distinct_append less_trans)
    ultimately show ?thesis by blast
  qed
  then show ?thesis using assms by (metis disjoint_iff nat_neq_iff)
qed

text \<open>Replacing one queue.\<close>

lemma links_ok_upd:
  assumes lk: "links_ok nx qus qs" and q: "q < NCS_IPC_PRIO_LEVELS"
    and d: "distinct (concat (qs[q := ys]))" and qok: "queue_ok nx' qu ys"
    and same: "\<And>i. i < NCS_IPC_PRIO_LEVELS \<Longrightarrow> i \<noteq> q \<Longrightarrow>
      queue_ok nx' (qus ! i) (qs ! i) = queue_ok nx (qus ! i) (qs ! i)"
  shows "links_ok nx' (qus[q := qu]) (qs[q := ys])"
  using lk q d qok same by (simp add: links_ok_def nth_list_update)

text \<open>One message more or less in a queue.\<close>

lemma counts_len:
  assumes "length qs = NCS_IPC_PRIO_LEVELS" "q < NCS_IPC_PRIO_LEVELS"
  shows "length (concat (qs[q := ys])) + length (qs ! q) = length (concat qs) + length ys"
    and "length (qs ! q) \<le> length (concat qs)"
  using concat_upd_length[of q qs] concat_split[of q qs] assms by simp_all

lemma concat_empty_iff: "concat qs = [] \<longleftrightarrow> length (concat qs) = 0"
  by simp

lemma enqueue_counts:
  assumes ok: "counts_ok ipc qs" and len: "length qs = NCS_IPC_PRIO_LEVELS" and q: "q < NCS_IPC_PRIO_LEVELS"
    and room: "length (concat qs) + 1 < 2 ^ 32" and ys: "length ys = length (qs ! q) + 1"
    and lim: "\<not> (max_no_of_msgs ipc ! q \<noteq> 0 \<and> no_of_msgs ipc ! q \<ge> max_no_of_msgs ipc ! q)"
  shows "\<exists>ipc' ctr'. ipc_enqueue_ind_processing q ipc ctr = Some (NCSCC_RC_SUCCESS, ipc', ctr') \<and>
    counts_ok ipc' (qs[q := ys]) \<and> ipc_queue ipc' = ipc_queue ipc \<and> ipc_ref_count ipc' = ipc_ref_count ipc \<and>
    max_no_of_msgs ipc' = max_no_of_msgs ipc"
proof -
  have tot: "length (concat (qs[q := ys])) = length (concat qs) + 1"
    using counts_len(1)[OF len q, of ys] ys by linarith
  then have ne: "concat (qs[q := ys]) \<noteq> []" by (metis add_is_0 length_0_conv one_neq_zero)
  have mc: "unat (msg_count ipc) = length (concat qs)" and nq: "unat (no_of_msgs ipc ! q) = length (qs ! q)"
    using ok q by (simp_all add: counts_ok_def)
  have mc1: "unat (msg_count ipc + 1) = length (concat (qs[q := ys]))"
    using mc tot room by (simp add: unat_word_ariths)
  have nq1: "unat (no_of_msgs ipc ! q + 1) = length ys"
    using nq ys room counts_len(2)[OF len q] by (simp add: unat_word_ariths)
  have zero: "msg_count ipc = 0 \<longleftrightarrow> concat qs = []" using mc by (metis length_0_conv unat_eq_zero)
  define so where "so = (if msg_count ipc = 0 then (ipc_sel_obj ipc)\<lparr>so_inds := 1\<rparr> else ipc_sel_obj ipc)"
  define ipc' where "ipc' = ipc\<lparr>ipc_sel_obj := so, msg_count := msg_count ipc + 1,
    no_of_msgs := (no_of_msgs ipc)[q := no_of_msgs ipc ! q + 1]\<rparr>"
  have so: "raise_obj so \<ge> 0" "rmv_obj so \<ge> 0" "so_cap so > 0" "so_inds so = 1"
    using ok zero by (auto simp: so_def counts_ok_def)
  have e: "\<exists>ctr'. ipc_enqueue_ind_processing q ipc ctr = Some (NCSCC_RC_SUCCESS, ipc', ctr')"
    using ok q lim zero
    by (auto simp: ipc_enqueue_ind_processing_def ncs_sel_obj_ind_def ipc'_def so_def counts_ok_def Let_def
        simp del: concat_eq_Nil_conv)
  have "counts_ok ipc' (qs[q := ys])"
    unfolding counts_ok_def
  proof (intro conjI allI impI)
    fix i assume "i < NCS_IPC_PRIO_LEVELS"
    then show "unat (no_of_msgs ipc' ! i) = length (qs[q := ys] ! i)"
      using ok len q nq1 by (cases "i = q") (simp_all add: ipc'_def counts_ok_def)
  qed (use ok so mc1 ne in \<open>simp_all add: ipc'_def counts_ok_def del: concat_eq_Nil_conv length_concat\<close>)
  then show ?thesis using e by (auto simp: ipc'_def)
qed

lemma dequeue_counts:
  assumes ok: "counts_ok ipc qs" and len: "length qs = NCS_IPC_PRIO_LEVELS" and q: "q < NCS_IPC_PRIO_LEVELS"
    and ys: "length (qs ! q) = length ys + 1"
  shows "\<exists>ipc' ctr'. ipc_dequeue_ind_processing q ipc ctr = Some (NCSCC_RC_SUCCESS, ipc', ctr') \<and>
    counts_ok ipc' (qs[q := ys]) \<and> ipc_queue ipc' = ipc_queue ipc \<and> ipc_ref_count ipc' = ipc_ref_count ipc \<and>
    max_no_of_msgs ipc' = max_no_of_msgs ipc"
proof -
  have tot: "length (concat (qs[q := ys])) + 1 = length (concat qs)"
    using counts_len(1)[OF len q, of ys] ys by linarith
  then have ne: "concat qs \<noteq> []" by (metis add_is_0 length_0_conv one_neq_zero)
  have mc: "unat (msg_count ipc) = length (concat qs)" and nq: "unat (no_of_msgs ipc ! q) = length (qs ! q)"
    using ok q by (simp_all add: counts_ok_def)
  have "1 \<le> msg_count ipc" "1 \<le> no_of_msgs ipc ! q"
    unfolding word_le_nat_alt mc nq using tot ys by simp_all
  then have mc1: "unat (msg_count ipc - 1) = length (concat (qs[q := ys]))"
    and nq1: "unat (no_of_msgs ipc ! q - 1) = length ys"
    using mc nq tot ys by (simp_all add: unat_sub)
  have zero: "msg_count ipc - 1 = 0 \<longleftrightarrow> concat (qs[q := ys]) = []"
    using mc1 by (metis length_0_conv unat_eq_zero)
  define so where "so = (if msg_count ipc - 1 = 0 then (ipc_sel_obj ipc)\<lparr>so_inds := 0\<rparr> else ipc_sel_obj ipc)"
  define ipc' where "ipc' = ipc\<lparr>ipc_sel_obj := so, msg_count := msg_count ipc - 1,
    no_of_msgs := (no_of_msgs ipc)[q := no_of_msgs ipc ! q - 1]\<rparr>"
  have so: "raise_obj so \<ge> 0" "rmv_obj so \<ge> 0" "so_cap so > 0"
    "so_inds so = (if concat (qs[q := ys]) = [] then 0 else 1)"
    using ok zero ne by (auto simp: so_def counts_ok_def)
  have e: "\<exists>ctr'. ipc_dequeue_ind_processing q ipc ctr = Some (NCSCC_RC_SUCCESS, ipc', ctr')"
    using ok ne
    by (auto simp: ipc_dequeue_ind_processing_def ncs_sel_obj_rmv_ind_def ipc'_def so_def counts_ok_def Let_def
        simp del: concat_eq_Nil_conv)
  have "counts_ok ipc' (qs[q := ys])"
    unfolding counts_ok_def
  proof (intro conjI allI impI)
    fix i assume "i < NCS_IPC_PRIO_LEVELS"
    then show "unat (no_of_msgs ipc' ! i) = length (qs[q := ys] ! i)"
      using ok len q nq1 by (cases "i = q") (simp_all add: ipc'_def counts_ok_def)
  qed (use ok so mc1 in \<open>simp_all add: ipc'_def counts_ok_def del: concat_eq_Nil_conv length_concat\<close>)
  then show ?thesis using e by (auto simp: ipc'_def)
qed

end
