(* ===== verification/Ipc_Ops.thy ===== *)
theory Ipc_Ops
  imports Ipc_Rep
begin

text \<open>Each operation of a mailbox on the lists it represents.\<close>

section \<open>Queues\<close>

lemma links_send:
  assumes lk: "links_ok nx qus qs" and q: "q < NCS_IPC_PRIO_LEVELS" and m: "m \<noteq> NULL" "m \<notin> set (concat qs)"
  defines "qu \<equiv> qus ! q"
  shows "links_ok ((if q_tail qu \<noteq> NULL then nx(q_tail qu := m) else nx)(m := NULL))
    (qus[q := (if q_tail qu \<noteq> NULL then qu else qu\<lparr>q_head := m\<rparr>)\<lparr>q_tail := m\<rparr>]) (qs[q := qs ! q @ [m]])"
proof -
  have len: "length qs = NCS_IPC_PRIO_LEVELS" and d: "distinct (concat qs)" and ok: "queue_ok nx qu (qs ! q)"
    using lk q by (auto simp: links_ok_def qu_def)
  have dq: "distinct (qs ! q)" using d concat_split[of q qs] len q by (metis distinct_append)
  have mq: "m \<notin> set (qs ! q)" using m(2) nth_in_concat[of q qs] len q by auto
  have tl: "q_tail qu \<noteq> NULL \<longleftrightarrow> qs ! q \<noteq> []" "qs ! q \<noteq> [] \<Longrightarrow> q_tail qu = last (qs ! q)"
    using ok chain_nonnull[of nx "q_head qu" "qs ! q" "last (qs ! q)"] by (auto simp: queue_ok_def)
  show ?thesis
  proof (rule links_ok_upd[OF lk q])
    have "set (qs ! q @ [m]) \<inter> set (concat qs) \<subseteq> set (qs ! q)" using m(2) by auto
    then show "distinct (concat (qs[q := qs ! q @ [m]]))"
      using distinct_concat_upd[OF d, of q "qs ! q @ [m]"] dq mq len q by simp
    show "queue_ok ((if q_tail qu \<noteq> NULL then nx(q_tail qu := m) else nx)(m := NULL))
        ((if q_tail qu \<noteq> NULL then qu else qu\<lparr>q_head := m\<rparr>)\<lparr>q_tail := m\<rparr>) (qs ! q @ [m])"
    proof (cases "qs ! q = []")
      case True
      then show ?thesis using tl m by (simp add: queue_ok_def)
    next
      case False
      then show ?thesis using tl chain_snoc[OF _ False dq mq m(1), of nx "q_head qu"] ok
        by (simp add: queue_ok_def)
    qed
    fix i assume i: "i < NCS_IPC_PRIO_LEVELS" "i \<noteq> q"
    have "m \<notin> set (qs ! i)" using m(2) nth_in_concat[of i qs] len i by auto
    moreover have "qs ! q \<noteq> [] \<Longrightarrow> last (qs ! q) \<notin> set (qs ! i)"
      using other_queue[OF d, of q i "last (qs ! q)"] len q i by simp
    ultimately show "queue_ok ((if q_tail qu \<noteq> NULL then nx(q_tail qu := m) else nx)(m := NULL)) (qus ! i) (qs ! i) =
        queue_ok nx (qus ! i) (qs ! i)"
      using tl by (simp add: queue_ok_other)
  qed
qed

lemma links_unlink:
  assumes lk: "links_ok nx qus qs" and q: "q < NCS_IPC_PRIO_LEVELS" and s: "qs ! q = pre @ m # rest"
    and prev: "pre \<noteq> [] \<Longrightarrow> p_prev = last pre"
    and u: "unlink_msg m (nx m) p_prev (qus ! q) (nx(m := NULL)) = (qu, nx')"
  shows "links_ok nx' (qus[q := qu]) (qs[q := pre @ rest])" and "chain nx' (nx m) rest"
proof -
  have len: "length qs = NCS_IPC_PRIO_LEVELS" and d: "distinct (concat qs)" and ok: "queue_ok nx (qus ! q) (pre @ m # rest)"
    using lk q s by (auto simp: links_ok_def)
  have dq: "distinct (pre @ m # rest)" using d concat_split[of q qs] len q s by (metis distinct_append)
  have ch: "chain nx (q_head (qus ! q)) (pre @ m # rest)" and tl: "q_tail (qus ! q) = last (pre @ m # rest)"
    using ok by (auto simp: queue_ok_def)
  have mr: "chain nx (nx m) rest" by (rule chain_after[OF ch])
  have hd: "m = q_head (qus ! q) \<longleftrightarrow> pre = []" using chain_head[OF ch] dq by (cases pre) auto
  have last: "m = last (pre @ m # rest) \<longleftrightarrow> rest = []" using dq last_in_set[of rest] by auto
  have nx': "nx' = (if pre = [] then nx(m := NULL) else nx(m := NULL, last pre := nx m))"
    using u hd prev by (auto simp: unlink_msg_def)
  have pr: "pre \<noteq> [] \<Longrightarrow> last pre \<notin> set rest" using dq last_in_set[of pre] by (auto simp: disjoint_iff)
  show c': "chain nx' (nx m) rest" using mr dq pr by (simp add: nx')
  show "links_ok nx' (qus[q := qu]) (qs[q := pre @ rest])"
  proof (rule links_ok_upd[OF lk q])
    show "distinct (concat (qs[q := pre @ rest]))"
      using distinct_concat_upd[OF d, of q "pre @ rest"] dq s len q by auto
    show "queue_ok nx' qu (pre @ rest)"
    proof (cases "pre = []")
      case True
      then have "qu = (qus ! q)\<lparr>q_head := nx m, q_tail := (if rest = [] then nx m else last rest)\<rparr>"
        using u hd tl last by (auto simp: unlink_msg_def)
      then show ?thesis using True c' by (cases rest) (auto simp: queue_ok_def)
    next
      case False
      then have "qu = (qus ! q)\<lparr>q_tail := (if rest = [] then last pre else last rest)\<rparr>"
        using u hd tl last prev by (auto simp: unlink_msg_def)
      moreover have "chain nx' (q_head (qus ! q)) (pre @ rest)" using chain_unlink[OF ch False dq] False nx' by simp
      ultimately show ?thesis using False by (simp add: queue_ok_def)
    qed
    fix i assume i: "i < NCS_IPC_PRIO_LEVELS" "i \<noteq> q"
    have "m \<notin> set (qs ! i)" "pre \<noteq> [] \<Longrightarrow> last pre \<notin> set (qs ! i)"
      using other_queue[OF d, of q i] len q i s by auto
    then show "queue_ok nx' (qus ! i) (qs ! i) = queue_ok nx (qus ! i) (qs ! i)"
      by (simp add: nx' queue_ok_other)
  qed
qed

section \<open>Flushing\<close>

lemma flush_loop_rep:
  assumes "ipc_rep nx ipc (qs[q := pre @ rest])" "length qs = NCS_IPC_PRIO_LEVELS" "q < NCS_IPC_PRIO_LEVELS"
    "chain nx msg rest" "pre \<noteq> [] \<Longrightarrow> p_prev = last pre"
  shows "\<exists>p' ipc' nx' ctr'. flush_loop cb q msg p_prev ipc nx ctr = Some (p', ipc', nx', ctr') \<and>
    ipc_rep nx' ipc' (qs[q := pre @ filter (\<lambda>x. \<not> cb x) rest]) \<and>
    ipc_ref_count ipc' = ipc_ref_count ipc \<and> max_no_of_msgs ipc' = max_no_of_msgs ipc"
  using assms
proof (induction rest arbitrary: pre msg p_prev ipc nx ctr)
  case Nil
  then show ?case by (simp add: flush_loop.simps)
next
  case (Cons m rest)
  have msg: "msg = m" "m \<noteq> NULL" "chain nx (nx m) rest" using Cons.prems(4) by auto
  show ?case
  proof (cases "cb m")
    case False
    have "flush_loop cb q msg p_prev ipc nx ctr = flush_loop cb q (nx m) m ipc nx ctr"
      using msg False by (subst flush_loop.simps) simp
    moreover have "\<exists>p' ipc' nx' ctr'. flush_loop cb q (nx m) m ipc nx ctr = Some (p', ipc', nx', ctr') \<and>
      ipc_rep nx' ipc' (qs[q := (pre @ [m]) @ filter (\<lambda>x. \<not> cb x) rest]) \<and>
      ipc_ref_count ipc' = ipc_ref_count ipc \<and> max_no_of_msgs ipc' = max_no_of_msgs ipc"
      by (rule Cons.IH) (use Cons.prems msg in auto)
    ultimately show ?thesis using False by simp
  next
    case True
    let ?qs = "qs[q := pre @ m # rest]"
    obtain qu nx1 where u: "unlink_msg m (nx m) p_prev (ipc_queue ipc ! q) (nx(m := NULL)) = (qu, nx1)" by fastforce
    have lk: "links_ok nx (ipc_queue ipc) ?qs" and ct: "counts_ok ipc ?qs" using Cons.prems(1) by (auto simp: ipc_rep_def)
    have at: "?qs ! q = pre @ m # rest" using Cons.prems(2,3) by simp
    note un = links_unlink[OF lk Cons.prems(3) at Cons.prems(5) u, simplified]
    have ok: "\<not> (m \<noteq> q_head (ipc_queue ipc ! q) \<and> p_prev = NULL)"
    proof (cases "pre = []")
      case True
      then show ?thesis using lk Cons.prems(2,3) by (auto simp: links_ok_def queue_ok_def)
    next
      case False
      have "chain nx (q_head (ipc_queue ipc ! q)) (pre @ m # rest)" using lk at Cons.prems(3) by (auto simp: links_ok_def queue_ok_def)
      from chain_nonnull[OF this, of "last pre"] show ?thesis using False Cons.prems(5) by simp
    qed
    have ct': "counts_ok (ipc\<lparr>ipc_queue := (ipc_queue ipc)[q := qu]\<rparr>) ?qs" using ct by (simp add: counts_ok_def)
    have l: "length (?qs ! q) = length (pre @ rest) + 1" using Cons.prems(2,3) by simp
    obtain ipc1 ctr1 where dq: "ipc_dequeue_ind_processing q (ipc\<lparr>ipc_queue := (ipc_queue ipc)[q := qu]\<rparr>) ctr =
        Some (NCSCC_RC_SUCCESS, ipc1, ctr1)" and c1: "counts_ok ipc1 (qs[q := pre @ rest])"
      and i1: "ipc_queue ipc1 = (ipc_queue ipc)[q := qu]" "ipc_ref_count ipc1 = ipc_ref_count ipc"
        "max_no_of_msgs ipc1 = max_no_of_msgs ipc"
      using dequeue_counts[OF ct' _ Cons.prems(3) l, of ctr] Cons.prems(2) by auto
    have "flush_loop cb q msg p_prev ipc nx ctr = flush_loop cb q (nx m) p_prev ipc1 nx1 ctr1"
      using msg True ok u dq by (subst flush_loop.simps) auto
    moreover have "\<exists>p' ipc' nx' ctr'. flush_loop cb q (nx m) p_prev ipc1 nx1 ctr1 = Some (p', ipc', nx', ctr') \<and>
      ipc_rep nx' ipc' (qs[q := pre @ filter (\<lambda>x. \<not> cb x) rest]) \<and>
      ipc_ref_count ipc' = ipc_ref_count ipc1 \<and> max_no_of_msgs ipc' = max_no_of_msgs ipc1"
      by (rule Cons.IH) (use Cons.prems un c1 i1 in \<open>auto simp: ipc_rep_def\<close>)
    ultimately show ?thesis using True i1 by simp
  qed
qed

lemma flush_queues_rep:
  assumes "ipc_rep nx ipc qs" "length qs = NCS_IPC_PRIO_LEVELS" "\<And>q. q \<in> set is \<Longrightarrow> q < NCS_IPC_PRIO_LEVELS"
    "distinct is"
  shows "\<exists>ipc' nx' ctr'. flush_queues cb is p_prev ipc nx ctr = Some (ipc', nx', ctr') \<and>
    ipc_rep nx' ipc' (map (\<lambda>i. if i \<in> set is then filter (\<lambda>x. \<not> cb x) (qs ! i) else qs ! i) [0..<NCS_IPC_PRIO_LEVELS]) \<and>
    ipc_ref_count ipc' = ipc_ref_count ipc \<and> max_no_of_msgs ipc' = max_no_of_msgs ipc"
  using assms
proof (induction "is" arbitrary: qs p_prev ipc nx ctr)
  case Nil
  then have "map ((!) qs) [0..<NCS_IPC_PRIO_LEVELS] = qs" using map_nth[of qs] by simp
  then show ?case using Nil by simp
next
  case (Cons q qis)
  have q: "q < NCS_IPC_PRIO_LEVELS" using Cons.prems by simp
  have qok: "chain nx (q_head (ipc_queue ipc ! q)) (qs ! q)"
    using Cons.prems(1) q by (auto simp: ipc_rep_def links_ok_def queue_ok_def)
  obtain p1 ipc1 nx1 ctr1 where f: "flush_loop cb q (q_head (ipc_queue ipc ! q)) p_prev ipc nx ctr = Some (p1, ipc1, nx1, ctr1)"
    and r: "ipc_rep nx1 ipc1 (qs[q := filter (\<lambda>x. \<not> cb x) (qs ! q)])"
    and i1: "ipc_ref_count ipc1 = ipc_ref_count ipc" "max_no_of_msgs ipc1 = max_no_of_msgs ipc"
    using flush_loop_rep[of nx ipc qs q "[]" "qs ! q" _ p_prev cb ctr, OF _ Cons.prems(2) q qok] Cons.prems(1) by auto
  let ?qs = "qs[q := filter (\<lambda>x. \<not> cb x) (qs ! q)]"
  have "\<exists>ipc' nx' ctr'. flush_queues cb qis p1 ipc1 nx1 ctr1 = Some (ipc', nx', ctr') \<and>
    ipc_rep nx' ipc' (map (\<lambda>i. if i \<in> set qis then filter (\<lambda>x. \<not> cb x) (?qs ! i) else ?qs ! i) [0..<NCS_IPC_PRIO_LEVELS]) \<and>
    ipc_ref_count ipc' = ipc_ref_count ipc1 \<and> max_no_of_msgs ipc' = max_no_of_msgs ipc1"
    by (rule Cons.IH[OF r]) (use Cons.prems in auto)
  moreover have "map (\<lambda>i. if i \<in> set qis then filter (\<lambda>x. \<not> cb x) (?qs ! i) else ?qs ! i) [0..<NCS_IPC_PRIO_LEVELS] =
      map (\<lambda>i. if i \<in> set (q # qis) then filter (\<lambda>x. \<not> cb x) (qs ! i) else qs ! i) [0..<NCS_IPC_PRIO_LEVELS]"
    using Cons.prems(2,4) q by (auto simp: nth_list_update)
  ultimately show ?case using f i1 by simp
qed

lemma flush_rep:
  assumes "ipc_rep (iw_next w) ipc qs"
  shows "\<exists>ipc' nx' ctr'. (\<forall>x. ipc_flush cb p ipc (w\<lparr>iw_hm := x\<rparr>) =
      Some (NCSCC_RC_SUCCESS, (ipc_store p ipc' (w\<lparr>iw_hm := x\<rparr>))\<lparr>iw_next := nx', iw_ctr := ctr'\<rparr>)) \<and>
    ipc_rep nx' ipc' (map (filter (\<lambda>x. \<not> cb x)) qs) \<and>
    ipc_ref_count ipc' = ipc_ref_count ipc \<and> max_no_of_msgs ipc' = max_no_of_msgs ipc"
proof -
  have len: "length qs = NCS_IPC_PRIO_LEVELS" using assms by (simp add: ipc_rep_def links_ok_def)
  have "map (\<lambda>i. if i \<in> set [0..<NCS_IPC_PRIO_LEVELS] then filter (\<lambda>x. \<not> cb x) (qs ! i) else qs ! i) [0..<NCS_IPC_PRIO_LEVELS] =
      map (filter (\<lambda>x. \<not> cb x)) qs"
    by (rule nth_equalityI) (simp_all add: len)
  then obtain ipc' nx' ctr' where f: "flush_queues cb [0..<NCS_IPC_PRIO_LEVELS] NULL ipc (iw_next w) (iw_ctr w) =
      Some (ipc', nx', ctr')" and r: "ipc_rep nx' ipc' (map (filter (\<lambda>x. \<not> cb x)) qs)"
    "ipc_ref_count ipc' = ipc_ref_count ipc" "max_no_of_msgs ipc' = max_no_of_msgs ipc"
    using flush_queues_rep[OF assms len, of "[0..<NCS_IPC_PRIO_LEVELS]" cb NULL "iw_ctr w"] by auto
  have "\<forall>x. ipc_flush cb p ipc (w\<lparr>iw_hm := x\<rparr>) =
      Some (NCSCC_RC_SUCCESS, (ipc_store p ipc' (w\<lparr>iw_hm := x\<rparr>))\<lparr>iw_next := nx', iw_ctr := ctr'\<rparr>)"
    using f by (simp add: ipc_flush_def)
  then show ?thesis using r by blast
qed

section \<open>Receiving\<close>

text \<open>The first message of the first queue that has one.\<close>

fun pop :: "'m list list \<Rightarrow> ('m \<times> 'm list list) option" where
  "pop [] = None"
| "pop ([] # qs) = map_option (\<lambda>(m, r). (m, [] # r)) (pop qs)"
| "pop ((m # xs) # qs) = Some (m, xs # qs)"

lemma pop_None: "pop qs = None \<longleftrightarrow> concat qs = []"
  by (induction qs rule: pop.induct) auto

lemma pop_length: "pop qs = Some (m, qs') \<Longrightarrow> length qs' = length qs"
  by (induction qs arbitrary: qs' rule: pop.induct) auto

lemma pop_concat: "pop qs = Some (m, qs') \<Longrightarrow> concat qs = m # concat qs'"
  by (induction qs arbitrary: qs' rule: pop.induct) auto

lemma first_queue_pop:
  assumes "length qus = length qs" "\<And>i. i < length qs \<Longrightarrow> (q_head (qus ! i) \<noteq> NULL) = (qs ! i \<noteq> [])"
    "pop qs = Some (m, qs')"
  shows "\<exists>q xs. first_queue qus k = Some (k + q) \<and> q < length qs \<and> qs ! q = m # xs \<and> qs' = qs[q := xs]"
  using assms
proof (induction qs arbitrary: qus qs' k rule: pop.induct)
  case (2 qs)
  then obtain qu qus1 where qus: "qus = qu # qus1" by (cases qus) auto
  obtain r where r: "pop qs = Some (m, r)" "qs' = [] # r" using 2(4) by auto
  have "q_head qu = NULL" using 2(3)[of 0] qus by simp
  moreover have "\<exists>q xs. first_queue qus1 (Suc k) = Some (Suc k + q) \<and> q < length qs \<and> qs ! q = m # xs \<and> r = qs[q := xs]"
    using 2(2) 2(3)[of "Suc i" for i] qus r by (intro 2(1)) auto
  ultimately show ?case using r qus by (force intro: exI[of _ "Suc q" for q])
next
  case (3 m xs qs)
  then obtain qu qus1 where qus: "qus = qu # qus1" by (cases qus) auto
  then show ?case using 3(2)[of 0] 3(3) by auto
qed simp

lemma recv_rep:
  assumes r: "ipc_rep (iw_next w) ipc qs" and ref: "ipc_ref_count ipc \<noteq> 0"
  shows "\<exists>ipc' nx' ctr'. (\<forall>x. recv_locked p ipc (w\<lparr>iw_hm := x\<rparr>) =
      Some (case pop qs of None \<Rightarrow> Nothing | Some (m, _) \<Rightarrow> Received m,
        (ipc_store p ipc' (w\<lparr>iw_hm := x\<rparr>))\<lparr>iw_next := nx', iw_ctr := ctr'\<rparr>)) \<and>
    ipc_rep nx' ipc' (case pop qs of None \<Rightarrow> qs | Some (_, qs') \<Rightarrow> qs') \<and>
    ipc_ref_count ipc' = ipc_ref_count ipc \<and> max_no_of_msgs ipc' = max_no_of_msgs ipc"
proof -
  have lk: "links_ok (iw_next w) (ipc_queue ipc) qs" and ct: "counts_ok ipc qs" using r by (auto simp: ipc_rep_def)
  have len: "length qs = NCS_IPC_PRIO_LEVELS" "length (ipc_queue ipc) = NCS_IPC_PRIO_LEVELS" using lk by (auto simp: links_ok_def)
  have zero: "msg_count ipc = 0 \<longleftrightarrow> pop qs = None"
    using ct unfolding pop_None by (metis counts_ok_def length_0_conv unat_eq_zero)
  show ?thesis
  proof (cases "pop qs")
    case None
    then have e: "concat qs = []" by (simp only: pop_None)
    have "ncs_sel_obj_rmv_ind True True (ipc_sel_obj ipc) = Some (0, ipc_sel_obj ipc)"
      using ct e by (simp add: counts_ok_def ncs_sel_obj_rmv_ind_def rmv_loop_all)
    then have "recv_locked p ipc (w\<lparr>iw_hm := x\<rparr>) =
        Some (Nothing, (ipc_store p ipc (w\<lparr>iw_hm := x\<rparr>))\<lparr>iw_next := iw_next w, iw_ctr := iw_ctr w\<rparr>)" for x
      using ref zero None by (simp add: recv_locked_def ipc_store_def)
    then show ?thesis using None r by auto
  next
    case (Some a)
    then obtain m qs' where pop: "pop qs = Some (m, qs')" by (cases a) auto
    have hd: "(q_head (ipc_queue ipc ! i) \<noteq> NULL) = (qs ! i \<noteq> [])" if "i < length qs" for i
      using lk that len by (cases "qs ! i") (auto simp: links_ok_def queue_ok_def)
    obtain q xs where q: "first_queue (ipc_queue ipc) 0 = Some q" "q < NCS_IPC_PRIO_LEVELS" "qs ! q = m # xs" "qs' = qs[q := xs]"
      using first_queue_pop[of "ipc_queue ipc" qs m qs' 0, OF _ hd pop] len by auto
    have qok: "queue_ok (iw_next w) (ipc_queue ipc ! q) (m # xs)" using lk q by (auto simp: links_ok_def)
    then have m: "q_head (ipc_queue ipc ! q) = m" and ch: "chain (iw_next w) (iw_next w m) xs" and
      tl: "q_tail (ipc_queue ipc ! q) = last (m # xs)" and "distinct (m # xs)"
      using lk q len concat_split[of q qs] by (auto simp: queue_ok_def links_ok_def)
    define qu where "qu = (ipc_queue ipc ! q)\<lparr>q_head := iw_next w m,
      q_tail := (if iw_next w m = NULL then NULL else q_tail (ipc_queue ipc ! q))\<rparr>"
    have "last xs \<noteq> m" if "xs \<noteq> []" using \<open>distinct (m # xs)\<close> last_in_set[OF that] by auto
    then have u: "unlink_msg m (iw_next w m) NULL (ipc_queue ipc ! q) ((iw_next w)(m := NULL)) = (qu, (iw_next w)(m := NULL))"
      using m tl chain_head[OF ch] chain_nonnull[OF ch] by (cases xs) (auto simp: unlink_msg_def qu_def)
    have lk': "links_ok ((iw_next w)(m := NULL)) ((ipc_queue ipc)[q := qu]) (qs[q := xs])"
      using links_unlink(1)[OF lk q(2), of "[]" m xs, OF _ _ u] q(3) by simp
    have ct': "counts_ok (ipc\<lparr>ipc_queue := (ipc_queue ipc)[q := qu]\<rparr>) qs" using ct by (simp add: counts_ok_def)
    have l: "length (qs ! q) = length xs + 1" using q(3) by simp
    obtain ipc1 ctr1 where dq: "ipc_dequeue_ind_processing q (ipc\<lparr>ipc_queue := (ipc_queue ipc)[q := qu]\<rparr>) (iw_ctr w) =
        Some (NCSCC_RC_SUCCESS, ipc1, ctr1)" and c1: "counts_ok ipc1 (qs[q := xs])"
      and i1: "ipc_queue ipc1 = (ipc_queue ipc)[q := qu]" "ipc_ref_count ipc1 = ipc_ref_count ipc"
        "max_no_of_msgs ipc1 = max_no_of_msgs ipc"
      using dequeue_counts[OF ct' len(1) q(2) l, of "iw_ctr w"] by auto
    have "recv_locked p ipc (w\<lparr>iw_hm := x\<rparr>) = Some (Received m,
        (ipc_store p ipc1 (w\<lparr>iw_hm := x\<rparr>))\<lparr>iw_next := (iw_next w)(m := NULL), iw_ctr := ctr1\<rparr>)" for x
      using ref zero pop q m dq by (simp add: recv_locked_def qu_def Let_def)
    moreover have "ipc_rep ((iw_next w)(m := NULL)) ipc1 qs'" using lk' c1 i1 q by (simp add: ipc_rep_def)
    ultimately show ?thesis using pop i1 by auto
  qed
qed

end
