(* ===== verification/Ipc_Run.thy ===== *)
theory Ipc_Run
  imports Ipc_Ops
begin

text \<open>
  The contract of a mailbox: four first-in-first-out queues, of which the first that is not empty is
  served. The operations of the code, with the handle taken and given back around each, implement it.
\<close>

section \<open>The contract\<close>

record 'm pmail =
  pm_qs :: "'m list list"
  pm_lim :: "nat list"
  pm_refs :: nat

definition a_send :: "'m \<Rightarrow> nat \<Rightarrow> 'm pmail \<Rightarrow> rc \<times> 'm pmail" where
  "a_send m q a =
     (if pm_refs a = 0 \<or> pm_lim a ! q \<noteq> 0 \<and> length (pm_qs a ! q) \<ge> pm_lim a ! q then (NCSCC_RC_FAILURE, a)
      else (NCSCC_RC_SUCCESS, a\<lparr>pm_qs := (pm_qs a)[q := pm_qs a ! q @ [m]]\<rparr>))"

definition a_recv :: "'m pmail \<Rightarrow> 'm option \<times> 'm pmail" where
  "a_recv a =
     (if pm_refs a = 0 then (None, a)
      else case pop (pm_qs a) of None \<Rightarrow> (None, a) | Some (m, qs) \<Rightarrow> (Some m, a\<lparr>pm_qs := qs\<rparr>))"

definition a_flush :: "('m \<Rightarrow> bool) option \<Rightarrow> 'm pmail \<Rightarrow> 'm pmail" where
  "a_flush cb a = (case cb of None \<Rightarrow> a | Some f \<Rightarrow> a\<lparr>pm_qs := map (filter (\<lambda>m. \<not> f m)) (pm_qs a)\<rparr>)"

section \<open>The handle around an operation\<close>

definition bound :: "u32 \<Rightarrow> ptr \<Rightarrow> HM_CORE \<Rightarrow> bool" where
  "bound h p hm \<longleftrightarrow> h \<noteq> 0 \<and> p \<noteq> NULL \<and> (case hm_find_cell hm h of None \<Rightarrow> False
     | Some c \<Rightarrow> valid_cell NCS_SERVICE_ID_OS_SVCS h c \<and> cell_data c = p \<and> 1 \<le> c_use_ct c \<and> c_use_ct c < 2047)"

lemma take_give:
  assumes "bound h p hm"
  shows "\<exists>hm'. ncshm_take_hdl NCS_SERVICE_ID_OS_SVCS h hm = (p, hm') \<and> ncshm_give_hdl h hm' = Some hm"
proof -
  obtain c where c: "hm_find_cell hm h = Some c" "valid_cell NCS_SERVICE_ID_OS_SVCS h c" "cell_data c = p"
    "1 \<le> c_use_ct c" "c_use_ct c < 2047"
    using assms by (auto simp: bound_def split: option.splits)
  define c' where "c' = set_use_ct (c_use_ct c + 1) c"
  define hm' where "hm' = cell_store hm (hdl_pos h) c'"
  have t: "ncshm_take_hdl NCS_SERVICE_ID_OS_SVCS h hm = (p, hm')"
    using c by (simp add: ncshm_take_hdl_def hm'_def c'_def)
  have "unat (c_use_ct c) < 2047" using c(5) by (simp add: word_less_nat_alt)
  then have "unat (take_bit 11 (c_use_ct c + 1)) = unat (c_use_ct c + 1)"
    by (simp add: unsigned_take_bit_eq unat_word_ariths take_bit_nat_eq_self)
  then have u: "c_use_ct c' = c_use_ct c + 1" by (simp add: c'_def word_unat_eq_iff)
  have undo: "set_use_ct (c_use_ct c' - 1) c' = c"
  proof -
    have "set_use_ct (c_use_ct c) c' = c"
      by (simp add: c'_def set_use_ct_def c_use_ct_def)
    then show ?thesis by (simp add: u)
  qed
  have f: "hm_find_cell hm' h = Some c'" using c(1) by (simp add: hm_find_cell_def hm'_def cell_at_store)
  have "cell_store hm' (hdl_pos h) c = hm"
    using c(1) by (simp add: hm'_def cell_store_twice cell_store_same hm_find_cell_def)
  moreover have "c_seq_id c' = hdl_seq_id h" "c_busy c \<noteq> 0" "\<not> c_use_ct c < 1"
    using c by (auto simp: valid_cell_def c'_def)
  ultimately have "ncshm_give_hdl h hm' = Some hm" using f undo by (simp add: ncshm_give_hdl_def Let_def)
  then show ?thesis using t by blast
qed

lemma with_mbx_open:
  assumes b: "bound h p (iw_hm w)" and i: "iw_ipc w p = Some ipc"
    and body: "\<And>x. body p ipc (w\<lparr>iw_hm := x\<rparr>) = Some (r, w'\<lparr>iw_hm := x\<rparr>)"
  shows "with_mbx fail (Some h) body w = Some (r, w'\<lparr>iw_hm := iw_hm w\<rparr>)"
proof -
  obtain hm where hm: "ncshm_take_hdl NCS_SERVICE_ID_OS_SVCS h (iw_hm w) = (p, hm)" "ncshm_give_hdl h hm = Some (iw_hm w)"
    using take_give[OF b] by blast
  have "h \<noteq> 0" "p \<noteq> NULL" using b by (simp_all add: bound_def)
  then show ?thesis using hm i body[of hm] by (simp add: with_mbx_def)
qed

section \<open>The state of a mailbox\<close>

definition mbx_abs :: "u32 \<Rightarrow> ptr \<Rightarrow> ipc_world \<Rightarrow> ptr pmail \<Rightarrow> bool" where
  "mbx_abs h p w a \<longleftrightarrow> bound h p (iw_hm w) \<and> (case iw_ipc w p of None \<Rightarrow> False | Some ipc \<Rightarrow>
     ipc_rep (iw_next w) ipc (pm_qs a) \<and> map unat (max_no_of_msgs ipc) = pm_lim a \<and>
     unat (ipc_ref_count ipc) = pm_refs a)"

lemma mbx_absE:
  assumes "mbx_abs h p w a"
  obtains ipc where "bound h p (iw_hm w)" "iw_ipc w p = Some ipc" "ipc_rep (iw_next w) ipc (pm_qs a)"
    "map unat (max_no_of_msgs ipc) = pm_lim a" "unat (ipc_ref_count ipc) = pm_refs a"
  using assms by (auto simp: mbx_abs_def split: option.splits)

lemma mbx_absI:
  assumes "bound h p hm" "ipc_rep nx ipc (pm_qs a)" "map unat (max_no_of_msgs ipc) = pm_lim a"
    "unat (ipc_ref_count ipc) = pm_refs a"
  shows "mbx_abs h p ((ipc_store p ipc w)\<lparr>iw_next := nx, iw_ctr := ctr, iw_hm := hm\<rparr>) a"
  using assms by (simp add: mbx_abs_def ipc_store_def)

text \<open>An operation whose body stores a new mailbox, links and counters.\<close>

lemma mbx_op:
  assumes b: "bound h p (iw_hm w)" and i: "iw_ipc w p = Some ipc"
    and body: "\<And>x. body p ipc (w\<lparr>iw_hm := x\<rparr>) =
      Some (r, (ipc_store p ipc' (w\<lparr>iw_hm := x\<rparr>))\<lparr>iw_next := nx, iw_ctr := ctr\<rparr>)"
    and rep: "ipc_rep nx ipc' (pm_qs a)" "map unat (max_no_of_msgs ipc') = pm_lim a" "unat (ipc_ref_count ipc') = pm_refs a"
  shows "\<exists>w'. with_mbx fail (Some h) body w = Some (r, w') \<and> mbx_abs h p w' a"
proof -
  define w' where "w' = (ipc_store p ipc' w)\<lparr>iw_next := nx, iw_ctr := ctr\<rparr>"
  have "body p ipc (w\<lparr>iw_hm := x\<rparr>) = Some (r, w'\<lparr>iw_hm := x\<rparr>)" for x
    using body[of x] by (simp add: w'_def ipc_store_def)
  then have "with_mbx fail (Some h) body w = Some (r, w'\<lparr>iw_hm := iw_hm w\<rparr>)"
    by (rule with_mbx_open[where body = body and w' = w', OF b i])
  moreover have "mbx_abs h p (w'\<lparr>iw_hm := iw_hm w\<rparr>) a" using b rep by (simp add: w'_def mbx_absI)
  ultimately show ?thesis by blast
qed

lemma queue_number_ok:
  assumes "\<not> prio_bad prio"
  shows "queue_number prio < NCS_IPC_PRIO_LEVELS" "queue_number prio = 4 - unat prio"
proof -
  have p: "1 \<le> unat prio" "unat prio \<le> 4"
    using assms by (auto simp: prio_bad_def NCS_IPC_PRIORITY_MAX_def NCS_IPC_PRIORITY_LOW_def word_le_nat_alt word_less_nat_alt)
  then have "prio \<le> 4" by (simp add: word_le_nat_alt)
  then show q: "queue_number prio = 4 - unat prio" by (simp add: queue_number_def NCS_IPC_PRIO_LEVELS_def unat_sub)
  show "queue_number prio < NCS_IPC_PRIO_LEVELS" unfolding q using p by (simp add: NCS_IPC_PRIO_LEVELS_def)
qed

lemma ipc_rep_same:
  "ipc_rep nx ipc qs \<Longrightarrow> ipc_queue ipc' = ipc_queue ipc \<Longrightarrow> no_of_msgs ipc' = no_of_msgs ipc \<Longrightarrow>
     length (max_no_of_msgs ipc') = length (max_no_of_msgs ipc) \<Longrightarrow> length (usr_counters ipc') = length (usr_counters ipc) \<Longrightarrow>
     msg_count ipc' = msg_count ipc \<Longrightarrow> ipc_sel_obj ipc' = ipc_sel_obj ipc \<Longrightarrow> ipc_rep nx ipc' qs"
  by (simp add: ipc_rep_def counts_ok_def)

section \<open>Operations\<close>

lemma attach_ok:
  assumes "mbx_abs h p w a" "pm_refs a + 1 < 2 ^ 32"
  shows "\<exists>w'. ncs_ipc_attach (Some h) w = Some (NCSCC_RC_SUCCESS, w') \<and> mbx_abs h p w' (a\<lparr>pm_refs := pm_refs a + 1\<rparr>)"
proof -
  from assms(1) obtain ipc where i: "bound h p (iw_hm w)" "iw_ipc w p = Some ipc" "ipc_rep (iw_next w) ipc (pm_qs a)"
    "map unat (max_no_of_msgs ipc) = pm_lim a" "unat (ipc_ref_count ipc) = pm_refs a" by (rule mbx_absE)
  show ?thesis unfolding ncs_ipc_attach_def
    by (rule mbx_op[OF i(1,2), where nx = "iw_next w" and ctr = "iw_ctr w"
        and ipc' = "ipc\<lparr>ipc_ref_count := ipc_ref_count ipc + 1\<rparr>"])
      (use i assms(2) in \<open>auto simp: ipc_store_def unat_word_ariths intro: ipc_rep_same\<close>)
qed

lemma detach_ok:
  assumes "mbx_abs h p w a" "pm_refs a > 0"
  shows "\<exists>w'. ncs_ipc_detach (Some h) cb w = Some (NCSCC_RC_SUCCESS, w') \<and>
    mbx_abs h p w' (a_flush cb (a\<lparr>pm_refs := pm_refs a - 1\<rparr>))"
proof -
  from assms(1) obtain ipc where i: "bound h p (iw_hm w)" "iw_ipc w p = Some ipc" "ipc_rep (iw_next w) ipc (pm_qs a)"
    "map unat (max_no_of_msgs ipc) = pm_lim a" "unat (ipc_ref_count ipc) = pm_refs a" by (rule mbx_absE)
  let ?ipc = "ipc\<lparr>ipc_ref_count := ipc_ref_count ipc - 1\<rparr>"
  have "1 \<le> ipc_ref_count ipc" using i(5) assms(2) by (simp add: word_le_nat_alt)
  then have ref: "unat (ipc_ref_count ipc - 1) = pm_refs a - 1" using i(5) by (simp add: unat_sub)
  have rep: "ipc_rep (iw_next w) ?ipc (pm_qs a)" by (rule ipc_rep_same[OF i(3)]) simp_all
  show ?thesis
  proof (cases cb)
    case None
    show ?thesis unfolding ncs_ipc_detach_def
      by (rule mbx_op[OF i(1,2), where nx = "iw_next w" and ctr = "iw_ctr w" and ipc' = ?ipc])
        (use i rep ref None in \<open>auto simp: ipc_store_def a_flush_def\<close>)
  next
    case (Some f)
    obtain ipc' nx ctr where fl: "\<And>x. ipc_flush f p ?ipc (w\<lparr>iw_hm := x\<rparr>) =
        Some (NCSCC_RC_SUCCESS, (ipc_store p ipc' (w\<lparr>iw_hm := x\<rparr>))\<lparr>iw_next := nx, iw_ctr := ctr\<rparr>)"
      and r: "ipc_rep nx ipc' (map (filter (\<lambda>x. \<not> f x)) (pm_qs a))"
        "ipc_ref_count ipc' = ipc_ref_count ?ipc" "max_no_of_msgs ipc' = max_no_of_msgs ?ipc"
      using flush_rep[OF rep, of f p] by blast
    show ?thesis unfolding ncs_ipc_detach_def
      by (rule mbx_op[OF i(1,2), where nx = nx and ctr = ctr and ipc' = ipc'])
        (use i r ref Some fl in \<open>auto simp: a_flush_def\<close>)
  qed
qed

lemma limit_ok:
  assumes "mbx_abs h p w a" "\<not> prio_bad prio"
  shows "\<exists>w'. ncs_ipc_config_max_msgs (Some h) prio n w = Some (NCSCC_RC_SUCCESS, w') \<and>
    mbx_abs h p w' (a\<lparr>pm_lim := (pm_lim a)[queue_number prio := unat n]\<rparr>)"
proof -
  from assms(1) obtain ipc where i: "bound h p (iw_hm w)" "iw_ipc w p = Some ipc" "ipc_rep (iw_next w) ipc (pm_qs a)"
    "map unat (max_no_of_msgs ipc) = pm_lim a" "unat (ipc_ref_count ipc) = pm_refs a" by (rule mbx_absE)
  let ?ipc = "ipc\<lparr>max_no_of_msgs := (max_no_of_msgs ipc)[queue_number prio := n]\<rparr>"
  have rep: "ipc_rep (iw_next w) ?ipc (pm_qs a)" by (rule ipc_rep_same[OF i(3)]) simp_all
  have "\<exists>w'. with_mbx NCSCC_RC_FAILURE (Some h) (\<lambda>p ipc w. Some (NCSCC_RC_SUCCESS,
      ipc_store p (ipc\<lparr>max_no_of_msgs := (max_no_of_msgs ipc)[queue_number prio := n]\<rparr>) w)) w = Some (NCSCC_RC_SUCCESS, w') \<and>
    mbx_abs h p w' (a\<lparr>pm_lim := (pm_lim a)[queue_number prio := unat n]\<rparr>)"
    by (rule mbx_op[OF i(1,2), where nx = "iw_next w" and ctr = "iw_ctr w" and ipc' = ?ipc])
      (use i rep in \<open>auto simp: ipc_store_def map_update\<close>)
  then show ?thesis using assms(2) by (simp add: ncs_ipc_config_max_msgs_def)
qed

lemma counter_ok:
  assumes "mbx_abs h p w a" "\<not> prio_bad prio" "ctr \<noteq> NULL"
  shows "\<exists>w'. ncs_ipc_config_usr_counters (Some h) prio ctr w = Some (NCSCC_RC_SUCCESS, w') \<and> mbx_abs h p w' a"
proof -
  from assms(1) obtain ipc where i: "bound h p (iw_hm w)" "iw_ipc w p = Some ipc" "ipc_rep (iw_next w) ipc (pm_qs a)"
    "map unat (max_no_of_msgs ipc) = pm_lim a" "unat (ipc_ref_count ipc) = pm_refs a" by (rule mbx_absE)
  let ?ipc = "ipc\<lparr>usr_counters := (usr_counters ipc)[queue_number prio := ctr]\<rparr>"
  have rep: "ipc_rep (iw_next w) ?ipc (pm_qs a)" by (rule ipc_rep_same[OF i(3)]) simp_all
  have "\<exists>w'. with_mbx NCSCC_RC_FAILURE (Some h) (\<lambda>p ipc w. Some (NCSCC_RC_SUCCESS,
      ipc_store p (ipc\<lparr>usr_counters := (usr_counters ipc)[queue_number prio := ctr]\<rparr>) w)) w = Some (NCSCC_RC_SUCCESS, w') \<and>
    mbx_abs h p w' a"
    by (rule mbx_op[OF i(1,2), where nx = "iw_next w" and ctr = "iw_ctr w" and ipc' = ?ipc])
      (use i rep in \<open>auto simp: ipc_store_def\<close>)
  then show ?thesis using assms(2,3) by (simp add: ncs_ipc_config_usr_counters_def)
qed

lemma recv_ok:
  assumes "mbx_abs h p w a"
  shows "\<exists>w'. ncs_ipc_non_blk_recv (Some h) w =
      Some (case fst (a_recv a) of None \<Rightarrow> Nothing | Some m \<Rightarrow> Received m, w') \<and> mbx_abs h p w' (snd (a_recv a))"
proof -
  from assms(1) obtain ipc where i: "bound h p (iw_hm w)" "iw_ipc w p = Some ipc" "ipc_rep (iw_next w) ipc (pm_qs a)"
    "map unat (max_no_of_msgs ipc) = pm_lim a" "unat (ipc_ref_count ipc) = pm_refs a" by (rule mbx_absE)
  have "h \<noteq> 0" using i(1) by (simp add: bound_def)
  have "with_mbx sel_obj_zero (Some h) (\<lambda>p ipc w. Some (ipc_sel_obj ipc, w)) w = Some (ipc_sel_obj ipc, w\<lparr>iw_hm := iw_hm w\<rparr>)"
    by (rule with_mbx_open[where w' = w, OF i(1,2)]) simp
  then have nb: "ncs_ipc_non_blk_recv (Some h) w = with_mbx Nothing (Some h) recv_locked w"
    using \<open>h \<noteq> 0\<close> by (simp add: ncs_ipc_non_blk_recv_def ncs_ipc_get_sel_obj_def)
  show ?thesis
  proof (cases "ipc_ref_count ipc = 0")
    case True
    then have z: "pm_refs a = 0" using i(5) by simp
    show ?thesis unfolding nb
      by (rule mbx_op[OF i(1,2), where nx = "iw_next w" and ctr = "iw_ctr w" and ipc' = ipc])
        (use i True z in \<open>auto simp: recv_locked_def ipc_store_def a_recv_def fun_upd_idem\<close>)
  next
    case False
    then have z: "pm_refs a \<noteq> 0" using i(5) by (simp add: unat_eq_zero [symmetric])
    obtain ipc' nx ctr where r: "\<And>x. recv_locked p ipc (w\<lparr>iw_hm := x\<rparr>) =
        Some (case pop (pm_qs a) of None \<Rightarrow> Nothing | Some (m, _) \<Rightarrow> Received m,
          (ipc_store p ipc' (w\<lparr>iw_hm := x\<rparr>))\<lparr>iw_next := nx, iw_ctr := ctr\<rparr>)"
      and rep: "ipc_rep nx ipc' (case pop (pm_qs a) of None \<Rightarrow> pm_qs a | Some (_, qs') \<Rightarrow> qs')"
        "ipc_ref_count ipc' = ipc_ref_count ipc" "max_no_of_msgs ipc' = max_no_of_msgs ipc"
      using recv_rep[OF i(3) False, of p] by blast
    show ?thesis unfolding nb
      by (rule mbx_op[OF i(1,2), where nx = nx and ctr = ctr and ipc' = ipc'])
        (use i r rep z in \<open>auto simp: a_recv_def split: option.splits\<close>)
  qed
qed

lemma send_ok:
  assumes "mbx_abs h p w a" "\<not> prio_bad prio" "m \<noteq> NULL" "m \<notin> set (concat (pm_qs a))"
    "length (concat (pm_qs a)) + 1 < 2 ^ 32"
  shows "\<exists>w'. ncs_ipc_send (Some h) m prio w = Some (fst (a_send m (queue_number prio) a), w') \<and>
    mbx_abs h p w' (snd (a_send m (queue_number prio) a))"
proof -
  from assms(1) obtain ipc where i: "bound h p (iw_hm w)" "iw_ipc w p = Some ipc" "ipc_rep (iw_next w) ipc (pm_qs a)"
    "map unat (max_no_of_msgs ipc) = pm_lim a" "unat (ipc_ref_count ipc) = pm_refs a" by (rule mbx_absE)
  define q where "q = queue_number prio"
  have q: "q < NCS_IPC_PRIO_LEVELS" using queue_number_ok[OF assms(2)] by (simp add: q_def)
  have lk: "links_ok (iw_next w) (ipc_queue ipc) (pm_qs a)" and ct: "counts_ok ipc (pm_qs a)"
    using i(3) by (auto simp: ipc_rep_def)
  have len: "length (pm_qs a) = NCS_IPC_PRIO_LEVELS" using lk by (simp add: links_ok_def)
  have lim: "pm_lim a ! q = unat (max_no_of_msgs ipc ! q)" unfolding i(4)[symmetric] using ct q by (simp add: counts_ok_def)
  have no: "unat (no_of_msgs ipc ! q) = length (pm_qs a ! q)" using ct q by (simp add: counts_ok_def)
  have full: "(max_no_of_msgs ipc ! q \<noteq> 0 \<and> no_of_msgs ipc ! q \<ge> max_no_of_msgs ipc ! q) \<longleftrightarrow>
      (pm_lim a ! q \<noteq> 0 \<and> length (pm_qs a ! q) \<ge> pm_lim a ! q)"
    by (simp add: lim word_le_nat_alt no unat_eq_zero)
  have ref: "ipc_ref_count ipc = 0 \<longleftrightarrow> pm_refs a = 0" using i(5) by (metis unat_eq_zero)
  show ?thesis
  proof (cases "pm_refs a = 0 \<or> pm_lim a ! q \<noteq> 0 \<and> length (pm_qs a ! q) \<ge> pm_lim a ! q")
    case True
    show ?thesis unfolding ncs_ipc_send_def
      by (rule mbx_op[OF i(1,2), where nx = "iw_next w" and ctr = "iw_ctr w" and ipc' = ipc])
        (use i True full ref q in \<open>auto simp: ipc_store_def a_send_def fun_upd_idem q_def [symmetric]
            ipc_enqueue_ind_processing_def\<close>)
  next
    case False
    let ?qu = "ipc_queue ipc ! q"
    let ?qu' = "(if q_tail ?qu \<noteq> NULL then ?qu else ?qu\<lparr>q_head := m\<rparr>)\<lparr>q_tail := m\<rparr>"
    let ?nx = "(if q_tail ?qu \<noteq> NULL then (iw_next w)(q_tail ?qu := m) else iw_next w)(m := NULL)"
    have nl: "\<not> (max_no_of_msgs ipc ! q \<noteq> 0 \<and> no_of_msgs ipc ! q \<ge> max_no_of_msgs ipc ! q)" using False full by blast
    have l: "length (pm_qs a ! q @ [m]) = length (pm_qs a ! q) + 1" by simp
    obtain ipc1 ctr where e: "ipc_enqueue_ind_processing q ipc (iw_ctr w) = Some (NCSCC_RC_SUCCESS, ipc1, ctr)"
      and c1: "counts_ok ipc1 ((pm_qs a)[q := pm_qs a ! q @ [m]])"
      and i1: "ipc_queue ipc1 = ipc_queue ipc" "ipc_ref_count ipc1 = ipc_ref_count ipc" "max_no_of_msgs ipc1 = max_no_of_msgs ipc"
      using enqueue_counts[OF ct len q assms(5) l nl, of "iw_ctr w"] by blast
    have lk1: "links_ok ?nx ((ipc_queue ipc)[q := ?qu']) ((pm_qs a)[q := pm_qs a ! q @ [m]])"
      by (rule links_send[OF lk q assms(3,4)])
    let ?ipc = "ipc1\<lparr>ipc_queue := (ipc_queue ipc)[q := ?qu']\<rparr>"
    have "counts_ok ?ipc ((pm_qs a)[q := pm_qs a ! q @ [m]])" using c1 by (simp add: counts_ok_def)
    then have rep: "ipc_rep ?nx ?ipc ((pm_qs a)[q := pm_qs a ! q @ [m]])" using lk1 by (simp add: ipc_rep_def)
    show ?thesis unfolding ncs_ipc_send_def
      by (rule mbx_op[OF i(1,2), where nx = ?nx and ctr = ctr and ipc' = ?ipc])
        (use i i1 rep False ref e assms(3) in \<open>auto simp: a_send_def q_def [symmetric] Let_def\<close>)
  qed
qed

end
