(* ===== verification/Hdl_Inv.thy ===== *)
theory Hdl_Inv
  imports Hdl_View
begin

text \<open>
  Threads that use the handle manager: which takes are outstanding and which destroyers wait are
  kept beside the state of the manager, and every operation preserves the invariant that ties
  them to the use counts.
\<close>

section \<open>The invariant\<close>

record hsys =
  hs_hm :: HM_CORE
  hs_held :: "u32 \<Rightarrow> nat"  \<comment> \<open>takes that have not been given back\<close>
  hs_waits :: "u32 \<Rightarrow> ptr option"  \<comment> \<open>the semaphore on which a destroyer of the handle waits\<close>

definition is_free :: "HM_CORE \<Rightarrow> u32 \<Rightarrow> bool" where
  "is_free hm p \<longleftrightarrow> p \<in> set (free_pool (hm_pool hm ! m_HM_POOL_ID (pos_idx1 p)))"

definition live :: "HM_CORE \<Rightarrow> u32 \<Rightarrow> HM_CELL \<Rightarrow> bool" where
  "live hm h c \<longleftrightarrow> cell_at hm (hdl_pos h) = Some c \<and> c_seq_id c = hdl_seq_id h \<and> \<not> is_free hm (hdl_pos h)"

definition pools_ok :: "HM_CORE \<Rightarrow> bool" where
  "pools_ok hm \<longleftrightarrow> length (hm_pool hm) = HM_POOL_CNT \<and>
     (\<forall>i < HM_POOL_CNT. m_HM_POOL_ID (ucast (pm_curr (hm_pool hm ! i))) = i \<and>
        distinct (free_pool (hm_pool hm ! i)) \<and>
        (\<forall>p \<in> set (free_pool (hm_pool hm ! i)). is_pos p \<and> m_HM_POOL_ID (pos_idx1 p) = i \<and>
           (\<exists>c. cell_at hm p = Some c \<and> hdl_pos (cell_bits c) = p)))"

definition MAX_TAKES :: nat where "MAX_TAKES = 2046"

definition cell_ok :: "hsys \<Rightarrow> u32 \<Rightarrow> HM_CELL \<Rightarrow> bool" where
  "cell_ok s h c \<longleftrightarrow> unat (c_use_ct c) = 1 + hs_held s h \<and> hs_held s h \<le> MAX_TAKES \<and>
     (case hs_waits s h of
        None \<Rightarrow> c_busy c = 1
      | Some sem \<Rightarrow> c_busy c = 0 \<and> cell_data c = sem \<and>
          hm_sem (hs_hm s) sem = Some (if hs_held s h = 0 then 1 else 0))"

text \<open>\<open>R\<close> is a set of cells that are neither free nor given out.\<close>

definition hinv :: "u32 set \<Rightarrow> hsys \<Rightarrow> bool" where
  "hinv R s \<longleftrightarrow> pools_ok (hs_hm s) \<and>
     (\<forall>h c. live (hs_hm s) h c \<and> hdl_pos h \<notin> R \<longrightarrow> cell_ok s h c) \<and>
     (\<forall>h. hs_held s h > 0 \<or> hs_waits s h \<noteq> None \<longrightarrow> hdl_pos h \<notin> R \<and> (\<exists>c. live (hs_hm s) h c)) \<and>
     (\<forall>h g sem. hs_waits s h = Some sem \<and> hs_waits s g = Some sem \<longrightarrow> h = g)"

lemma hinvD:
  assumes "hinv R s"
  shows "pools_ok (hs_hm s)"
    and "\<And>h c. live (hs_hm s) h c \<Longrightarrow> hdl_pos h \<notin> R \<Longrightarrow> cell_ok s h c"
    and "\<And>h. hs_held s h > 0 \<Longrightarrow> hdl_pos h \<notin> R \<and> (\<exists>c. live (hs_hm s) h c)"
    and "\<And>h. hs_waits s h \<noteq> None \<Longrightarrow> hdl_pos h \<notin> R \<and> (\<exists>c. live (hs_hm s) h c)"
    and "\<And>h g sem. hs_waits s h = Some sem \<Longrightarrow> hs_waits s g = Some sem \<Longrightarrow> h = g"
  using assms unfolding hinv_def by blast+

lemma hinvI:
  assumes "pools_ok (hs_hm s)"
    and "\<And>h c. live (hs_hm s) h c \<Longrightarrow> hdl_pos h \<notin> R \<Longrightarrow> cell_ok s h c"
    and "\<And>h. hs_held s h > 0 \<Longrightarrow> hdl_pos h \<notin> R \<and> (\<exists>c. live (hs_hm s) h c)"
    and "\<And>h. hs_waits s h \<noteq> None \<Longrightarrow> hdl_pos h \<notin> R \<and> (\<exists>c. live (hs_hm s) h c)"
    and "\<And>h g sem. hs_waits s h = Some sem \<Longrightarrow> hs_waits s g = Some sem \<Longrightarrow> h = g"
  shows "hinv R s"
  using assms unfolding hinv_def by blast

lemma pools_okD:
  assumes "pools_ok hm"
  shows "length (hm_pool hm) = HM_POOL_CNT"
    and "i < HM_POOL_CNT \<Longrightarrow> m_HM_POOL_ID (ucast (pm_curr (hm_pool hm ! i))) = i"
    and "i < HM_POOL_CNT \<Longrightarrow> distinct (free_pool (hm_pool hm ! i))"
    and "i < HM_POOL_CNT \<Longrightarrow> p \<in> set (free_pool (hm_pool hm ! i)) \<Longrightarrow>
      is_pos p \<and> m_HM_POOL_ID (pos_idx1 p) = i \<and> (\<exists>c. cell_at hm p = Some c \<and> hdl_pos (cell_bits c) = p)"
  using assms unfolding pools_ok_def by blast+

lemma pools_okI:
  assumes "length (hm_pool hm) = HM_POOL_CNT"
    and "\<And>i. i < HM_POOL_CNT \<Longrightarrow> m_HM_POOL_ID (ucast (pm_curr (hm_pool hm ! i))) = i"
    and "\<And>i. i < HM_POOL_CNT \<Longrightarrow> distinct (free_pool (hm_pool hm ! i))"
    and "\<And>i p. i < HM_POOL_CNT \<Longrightarrow> p \<in> set (free_pool (hm_pool hm ! i)) \<Longrightarrow>
      is_pos p \<and> m_HM_POOL_ID (pos_idx1 p) = i \<and> (\<exists>c. cell_at hm p = Some c \<and> hdl_pos (cell_bits c) = p)"
  shows "pools_ok hm"
  using assms unfolding pools_ok_def by blast

lemma free_cell_exists:
  "pools_ok hm \<Longrightarrow> is_free hm p \<Longrightarrow> is_pos p \<and> (\<exists>c. cell_at hm p = Some c \<and> hdl_pos (cell_bits c) = p)"
  using pools_okD(4)[of hm "m_HM_POOL_ID (pos_idx1 p)" p] unfolding is_free_def by simp

lemma is_free_pools: "hm_pool hm' = hm_pool hm \<Longrightarrow> is_free hm' p = is_free hm p"
  by (simp add: is_free_def)

section \<open>Storing a cell that is not free\<close>

lemma pools_ok_store:
  assumes "pools_ok hm" "is_pos p" "\<not> is_free hm p"
  shows "pools_ok (cell_store hm p c)"
proof (rule pools_okI)
  fix i q assume iq: "i < HM_POOL_CNT" "q \<in> set (free_pool (hm_pool (cell_store hm p c) ! i))"
  then have q: "is_pos q" "m_HM_POOL_ID (pos_idx1 q) = i" "\<exists>c. cell_at hm q = Some c \<and> hdl_pos (cell_bits c) = q"
    using pools_okD(4)[OF assms(1)] by auto
  then have "q \<noteq> p" using iq assms(3) by (auto simp: is_free_def)
  then show "is_pos q \<and> m_HM_POOL_ID (pos_idx1 q) = i \<and>
      (\<exists>ca. cell_at (cell_store hm p c) q = Some ca \<and> hdl_pos (cell_bits ca) = q)"
    using q assms(2) by (simp add: cell_at_store)
qed (use pools_okD[OF assms(1)] in simp_all)

lemma live_store:
  assumes "cell_at hm p \<noteq> None" "is_pos p"
  shows "live (cell_store hm p c) h d \<longleftrightarrow>
    (if hdl_pos h = p then d = c \<and> c_seq_id c = hdl_seq_id h \<and> \<not> is_free hm p else live hm h d)"
  using assms is_free_pools[of "cell_store hm p c" hm] by (auto simp: live_def cell_at_store)

lemma live_cong:
  "hm_unit hm' = hm_unit hm \<Longrightarrow> hm_pool hm' = hm_pool hm \<Longrightarrow> live hm' h c = live hm h c"
  using cell_at_cong[of hm' hm] is_free_pools[of hm' hm] by (simp add: live_def)

lemma pools_ok_cong:
  "hm_unit hm' = hm_unit hm \<Longrightarrow> hm_pool hm' = hm_pool hm \<Longrightarrow> pools_ok hm' = pools_ok hm"
  using cell_at_cong[of hm' hm] by (simp add: pools_ok_def)

section \<open>Freeing a cell\<close>

lemma free_cell_at:
  assumes "cell_at hm (hdl_pos h) \<noteq> None" "is_pos q"
  shows "cell_at (hm_free_cell h b hm) q =
    (if q = hdl_pos h then Some \<lparr>cell_data = (case free_pool (hm_pool hm ! m_HM_POOL_ID (pos_idx1 (hdl_pos h))) of
        [] \<Rightarrow> NULL | q # _ \<Rightarrow> hm_addr hm q), cell_bits = mk_hdl (hdl_pos h) (next_seq h)\<rparr>
     else cell_at hm q)"
  using assms by (simp add: hm_free_cell_def Let_def cell_at_store)

lemma free_cell_pool:
  assumes "pools_ok hm" "i < HM_POOL_CNT"
  shows "free_pool (hm_pool (hm_free_cell h b hm) ! i) =
    (if i = m_HM_POOL_ID (pos_idx1 (hdl_pos h)) then hdl_pos h # free_pool (hm_pool hm ! i)
     else free_pool (hm_pool hm ! i))"
  using assms pools_okD(1)[OF assms(1)] by (simp add: hm_free_cell_def Let_def pool_upd_nth)

lemma free_cell_frame [simp]:
  "hm_sem (hm_free_cell h b hm) = hm_sem hm" "length (hm_pool (hm_free_cell h b hm)) = length (hm_pool hm)"
  by (simp_all add: hm_free_cell_def Let_def)

lemma free_cell_curr:
  assumes "pools_ok hm" "i < HM_POOL_CNT"
  shows "pm_curr (hm_pool (hm_free_cell h b hm) ! i) = pm_curr (hm_pool hm ! i)"
  using assms pools_okD(1)[OF assms(1)] by (simp add: hm_free_cell_def Let_def pool_upd_nth)

lemma is_free_free:
  assumes "pools_ok hm"
  shows "is_free (hm_free_cell h b hm) q \<longleftrightarrow> q = hdl_pos h \<or> is_free hm q"
  using free_cell_pool[OF assms, of "m_HM_POOL_ID (pos_idx1 q)"] by (auto simp: is_free_def)

lemma pools_ok_free:
  assumes "pools_ok hm" "cell_at hm (hdl_pos h) \<noteq> None" "\<not> is_free hm (hdl_pos h)"
  shows "pools_ok (hm_free_cell h b hm)"
proof (rule pools_okI)
  fix i assume i: "i < HM_POOL_CNT"
  show "distinct (free_pool (hm_pool (hm_free_cell h b hm) ! i))"
    using free_cell_pool[OF assms(1) i] pools_okD(3)[OF assms(1) i] assms(3) by (auto simp: is_free_def)
  fix p assume "p \<in> set (free_pool (hm_pool (hm_free_cell h b hm) ! i))"
  then have "p = hdl_pos h \<and> i = m_HM_POOL_ID (pos_idx1 p) \<or> p \<in> set (free_pool (hm_pool hm ! i))"
    using free_cell_pool[OF assms(1) i] by (auto split: if_splits)
  then show "is_pos p \<and> m_HM_POOL_ID (pos_idx1 p) = i \<and>
      (\<exists>c. cell_at (hm_free_cell h b hm) p = Some c \<and> hdl_pos (cell_bits c) = p)"
    using pools_okD(4)[OF assms(1) i] assms(2) by (auto simp: free_cell_at)
qed (use pools_okD[OF assms(1)] free_cell_curr[OF assms(1)] in simp_all)

lemma live_free:
  assumes "pools_ok hm" "cell_at hm (hdl_pos h) \<noteq> None"
  shows "live (hm_free_cell h b hm) g c \<longleftrightarrow> hdl_pos g \<noteq> hdl_pos h \<and> live hm g c"
  using assms by (auto simp: live_def free_cell_at is_free_free)

lemma hinv_free:
  assumes "hinv R s" "hdl_pos h \<in> R" "cell_at (hs_hm s) (hdl_pos h) \<noteq> None" "\<not> is_free (hs_hm s) (hdl_pos h)"
  shows "hinv (R - {hdl_pos h}) (s\<lparr>hs_hm := hm_free_cell h b (hs_hm s)\<rparr>)"
proof (rule hinvI; simp)
  note p = hinvD(1)[OF assms(1)]
  note lf = live_free[OF p assms(3)]
  show "pools_ok (hm_free_cell h b (hs_hm s))" by (rule pools_ok_free[OF p assms(3,4)])
  show "cell_ok (s\<lparr>hs_hm := hm_free_cell h b (hs_hm s)\<rparr>) g c"
    if "live (hm_free_cell h b (hs_hm s)) g c" "hdl_pos g \<in> R \<longrightarrow> hdl_pos g = hdl_pos h" for g c
    using that hinvD(2)[OF assms(1), of g c] by (auto simp: lf cell_ok_def split: option.splits)
  show "(hdl_pos g \<in> R \<longrightarrow> hdl_pos g = hdl_pos h) \<and> (\<exists>c. live (hm_free_cell h b (hs_hm s)) g c)"
    if "0 < hs_held s g" for g
    using hinvD(3)[OF assms(1) that] assms(2) by (auto simp: lf)
  show "(hdl_pos g \<in> R \<longrightarrow> hdl_pos g = hdl_pos h) \<and> (\<exists>c. live (hm_free_cell h b (hs_hm s)) g c)"
    if "\<exists>y. hs_waits s g = Some y" for g
    using hinvD(4)[OF assms(1), of g] that assms(2) by (auto simp: lf)
  show "\<And>h g sem. hs_waits s h = Some sem \<Longrightarrow> hs_waits s g = Some sem \<Longrightarrow> h = g"
    by (rule hinvD(5)[OF assms(1)])
qed

end
