(* ===== verification/Hdl_Step.thy ===== *)
theory Hdl_Step
  imports Hdl_Inv
begin

text \<open>
  Every operation of the handle manager keeps the invariant, and the relation that interleaves
  the operations of any number of threads.
\<close>

section \<open>Fresh banks\<close>

lemma hinv_carve_list:
  assumes "hinv R s" "distinct ps" "\<And>p. p \<in> set ps \<Longrightarrow> is_pos p \<and> p \<in> R \<and>
    cell_at (hs_hm s) p \<noteq> None \<and> \<not> is_free (hs_hm s) p"
  shows "hinv (R - set ps) (s\<lparr>hs_hm := fold (\<lambda>p. hm_free_cell (mk_hdl p 0) False) ps (hs_hm s)\<rparr>)"
  using assms
proof (induction ps arbitrary: R s)
  case (Cons p ps)
  let ?s = "s\<lparr>hs_hm := hm_free_cell (mk_hdl p 0) False (hs_hm s)\<rparr>"
  have p: "is_pos p" "p \<in> R" "cell_at (hs_hm s) p \<noteq> None" "\<not> is_free (hs_hm s) p" using Cons.prems(3) by auto
  have s: "hinv (R - {p}) ?s" using hinv_free[OF Cons.prems(1), of "mk_hdl p 0"] p by simp
  have "hinv (R - {p} - set ps) (?s\<lparr>hs_hm := fold (\<lambda>p. hm_free_cell (mk_hdl p 0) False) ps (hs_hm ?s)\<rparr>)"
  proof (rule Cons.IH[OF s])
    show "distinct ps" using Cons.prems(2) by simp
    fix q assume q: "q \<in> set ps"
    then have "q \<noteq> p" "is_pos q" "q \<in> R" "cell_at (hs_hm s) q \<noteq> None" "\<not> is_free (hs_hm s) q"
      using Cons.prems(2,3) by auto
    then show "is_pos q \<and> q \<in> R - {p} \<and> cell_at (hs_hm ?s) q \<noteq> None \<and> \<not> is_free (hs_hm ?s) q"
      using p hinvD(1)[OF Cons.prems(1)] by (simp add: free_cell_at is_free_free)
  qed
  moreover have "R - {p} - set ps = R - set (p # ps)" by auto
  ultimately show ?case by simp
qed simp

definition bank :: "u8 \<Rightarrow> u8 \<Rightarrow> u32 set" where
  "bank i1 i2 = {p. is_pos p \<and> pos_idx1 p = i1 \<and> pos_idx2 p = i2}"

definition bank_list :: "u8 \<Rightarrow> u8 \<Rightarrow> u32 list" where
  "bank_list i1 i2 = map (\<lambda>k. mk_pos i1 i2 (of_nat k)) [0..<HM_CELL_CNT]"

lemma carve_list: "carve i1 i2 hm = fold (\<lambda>p. hm_free_cell (mk_hdl p 0) False) (bank_list i1 i2) hm"
  by (simp add: carve_def bank_list_def fold_map comp_def)

lemma bank_list_set: "set (bank_list i1 i2) = bank i1 i2"
proof
  show "bank i1 i2 \<subseteq> set (bank_list i1 i2)"
  proof
    fix p assume p: "p \<in> bank i1 i2"
    have "unat (pos_idx3 p) < 2 ^ 12" using unsigned_less[where ?'a = nat, of "pos_idx3 p"] by simp
    then have "unat (pos_idx3 p) \<in> set [0..<HM_CELL_CNT]" by (simp add: HM_CELL_CNT_def)
    moreover have "p = mk_pos i1 i2 (of_nat (unat (pos_idx3 p)))"
      using p mk_pos_idx[of p] by (simp add: bank_def)
    ultimately show "p \<in> set (bank_list i1 i2)" unfolding bank_list_def by (metis image_eqI list.set_map)
  qed
qed (auto simp: bank_list_def bank_def)

lemma bank_list_distinct: "distinct (bank_list i1 i2)"
proof -
  have "inj_on (\<lambda>k. mk_pos i1 i2 (of_nat k)) (set [0..<HM_CELL_CNT])"
  proof (rule inj_onI)
    fix j k assume jk: "j \<in> set [0..<HM_CELL_CNT]" "k \<in> set [0..<HM_CELL_CNT]"
      "mk_pos i1 i2 (of_nat j) = mk_pos i1 i2 (of_nat k)"
    then have "(of_nat j :: 12 word) = of_nat k" by (metis pos_idx_mk(3))
    then have "unat (of_nat j :: 12 word) = unat (of_nat k :: 12 word)" by simp
    then show "j = k" using jk by (simp add: HM_CELL_CNT_def unsigned_of_nat take_bit_nat_eq_self)
  qed
  then show ?thesis by (simp add: bank_list_def distinct_map)
qed

text \<open>A bank is added where there was none.\<close>

definition add_bank :: "u8 \<Rightarrow> u8 \<Rightarrow> HM_CORE \<Rightarrow> HM_CORE \<Rightarrow> bool" where
  "add_bank i1 i2 hm hm' \<longleftrightarrow> hm_pool hm' = hm_pool hm \<and> hm_sem hm' = hm_sem hm \<and>
     (\<forall>p. is_pos p \<longrightarrow> cell_at hm' p = (if p \<in> bank i1 i2 then Some (cells_zero (pos_idx3 p)) else cell_at hm p)) \<and>
     (\<forall>p \<in> bank i1 i2. cell_at hm p = None)"

lemma hinv_add_bank:
  assumes "hinv {} s" "add_bank i1 i2 (hs_hm s) hm'"
  shows "hinv (bank i1 i2) (s\<lparr>hs_hm := hm'\<rparr>)"
proof -
  note p = hinvD(1)[OF assms(1)]
  have pool: "hm_pool hm' = hm_pool (hs_hm s)" and sem: "hm_sem hm' = hm_sem (hs_hm s)"
    and at: "is_pos p \<Longrightarrow> cell_at hm' p = (if p \<in> bank i1 i2 then Some (cells_zero (pos_idx3 p)) else cell_at (hs_hm s) p)"
    and none: "p \<in> bank i1 i2 \<Longrightarrow> cell_at (hs_hm s) p = None" for p
    using assms(2) unfolding add_bank_def by blast+
  have lv: "hdl_pos g \<notin> bank i1 i2 \<Longrightarrow> live hm' g c = live (hs_hm s) g c" for g c
    using at[of "hdl_pos g"] is_free_pools[OF pool] by (simp add: live_def)
  have lb: "live (hs_hm s) g c \<Longrightarrow> hdl_pos g \<notin> bank i1 i2" for g c using none by (auto simp: live_def)
  show ?thesis
  proof (rule hinvI; simp)
    show "pools_ok hm'"
    proof (rule pools_okI)
      fix i q assume iq: "i < HM_POOL_CNT" "q \<in> set (free_pool (hm_pool hm' ! i))"
      then have q: "is_pos q" "m_HM_POOL_ID (pos_idx1 q) = i"
        "\<exists>c. cell_at (hs_hm s) q = Some c \<and> hdl_pos (cell_bits c) = q"
        using pools_okD(4)[OF p] pool by auto
      then have "q \<notin> bank i1 i2" using none by fastforce
      then show "is_pos q \<and> m_HM_POOL_ID (pos_idx1 q) = i \<and> (\<exists>c. cell_at hm' q = Some c \<and> hdl_pos (cell_bits c) = q)"
        using q at[of q] by simp
    qed (use pools_okD[OF p] pool in simp_all)
    show "cell_ok (s\<lparr>hs_hm := hm'\<rparr>) g c" if "live hm' g c" "hdl_pos g \<notin> bank i1 i2" for g c
      using hinvD(2)[OF assms(1), of g c] that lv sem by (auto simp: cell_ok_def split: option.splits)
    show "hdl_pos g \<notin> bank i1 i2 \<and> (\<exists>c. live hm' g c)" if "0 < hs_held s g" for g
      using hinvD(3)[OF assms(1) that] lb lv by blast
    show "hdl_pos g \<notin> bank i1 i2 \<and> (\<exists>c. live hm' g c)" if "\<exists>y. hs_waits s g = Some y" for g
      using hinvD(4)[OF assms(1), of g] that lb lv by auto
  qed (rule hinvD(5)[OF assms(1)])
qed

lemma hinv_carve:
  assumes "hinv {} s" "add_bank i1 i2 (hs_hm s) hm'"
  shows "hinv {} (s\<lparr>hs_hm := carve i1 i2 hm'\<rparr>)"
proof -
  have b: "hinv (bank i1 i2) (s\<lparr>hs_hm := hm'\<rparr>)" by (rule hinv_add_bank[OF assms])
  have "\<not> is_free hm' p \<and> cell_at hm' p \<noteq> None" if "p \<in> bank i1 i2" for p
    using assms(2) free_cell_exists[OF hinvD(1)[OF assms(1)], of p] that is_free_pools[of hm' "hs_hm s"]
    unfolding add_bank_def bank_def by fastforce
  then have "hinv (bank i1 i2 - set (bank_list i1 i2)) (s\<lparr>hs_hm := hm'\<rparr>
      \<lparr>hs_hm := fold (\<lambda>p. hm_free_cell (mk_hdl p 0) False) (bank_list i1 i2) (hs_hm (s\<lparr>hs_hm := hm'\<rparr>))\<rparr>)"
    by (intro hinv_carve_list[OF b bank_list_distinct]) (auto simp: bank_list_set bank_def)
  then show ?thesis by (simp add: carve_list bank_list_set)
qed

text \<open>Changes that touch neither cells, pools nor semaphores.\<close>

lemma hinv_cong:
  assumes "hinv R s" "pools_ok hm' = pools_ok (hs_hm s)" "\<And>h c. live hm' h c = live (hs_hm s) h c"
    "hm_sem hm' = hm_sem (hs_hm s)"
  shows "hinv R (s\<lparr>hs_hm := hm'\<rparr>)"
proof -
  have "cell_ok (s\<lparr>hs_hm := hm'\<rparr>) h c = cell_ok s h c" for h c
    by (cases "hs_waits s h") (simp_all add: cell_ok_def assms(4))
  then show ?thesis using assms(1) by (simp add: hinv_def assms(2,3))
qed

lemma unit_upd_same_cells:
  assumes "hm_unit hm' = (hm_unit hm)(i1 := Some unt)" "hm_pool hm' = hm_pool hm"
    "case hm_unit hm i1 of None \<Rightarrow> unit_cells unt = (\<lambda>_. None) | Some u \<Rightarrow> unit_cells unt = unit_cells u"
  shows "cell_at hm' p = cell_at hm p" "pools_ok hm' = pools_ok hm" "live hm' h c = live hm h c"
proof -
  show at: "cell_at hm' p = cell_at hm p" for p
    using assms by (auto simp: cell_at_def split: option.splits)
  show "pools_ok hm' = pools_ok hm" by (simp add: pools_ok_def at assms(2))
  show "live hm' h c = live hm h c" using is_free_pools[OF assms(2)] by (simp add: live_def at)
qed

lemma next_bank_None: "next_bank k cells cur = Some b \<Longrightarrow> cells b = None"
  by (induction k arbitrary: cur) (auto split: if_splits)

lemma add_bankI:
  assumes "hm_unit hm' = (hm_unit hm)(i1 := Some unt)" "unit_cells unt = cs(i2 := Some cells_zero)"
    "cs i2 = None" "case hm_unit hm i1 of None \<Rightarrow> cs = (\<lambda>_. None) | Some u \<Rightarrow> cs = unit_cells u"
    "hm_pool hm' = hm_pool hm" "hm_sem hm' = hm_sem hm"
  shows "add_bank i1 i2 hm hm'"
  unfolding add_bank_def using assms
  by (auto simp: cell_at_def bank_def split: option.splits)

lemma hinv_make:
  assumes "hinv {} s" "hm_make_free_cells i (hs_hm s) = Some (rc, hm')"
  shows "hinv {} (s\<lparr>hs_hm := hm'\<rparr>)"
proof -
  define hm where "hm = hs_hm s"
  define i1 where "i1 = (ucast (pm_curr (hm_pool hm ! i)) :: u8)"
  show ?thesis
  proof (cases "hm_unit hm i1 = None \<and> hm_mem hm = 0")
    case True
    then have "hm' = hs_hm s"
      using assms(2) by (simp add: hm_make_free_cells_def Let_def hm_def [symmetric] i1_def [symmetric])
    then show ?thesis using assms(1) by simp
  next
    case False
    define unt where "unt = (case hm_unit hm i1 of Some u \<Rightarrow> u | None \<Rightarrow> unit_zero)"
    define mem where "mem = (case hm_unit hm i1 of Some u \<Rightarrow> hm_mem hm | None \<Rightarrow> hm_mem hm - 1)"
    have "\<exists>cur. next_bank 256 (unit_cells unt) (unit_curr unt) = Some cur \<and>
        (if mem = 0 then hm' = hm\<lparr>hm_unit := (hm_unit hm)(i1 := Some (unt\<lparr>unit_curr := cur\<rparr>)), hm_mem := mem\<rparr>
         else hm' = carve i1 cur (hm\<lparr>hm_unit := (hm_unit hm)(i1 := Some (unt\<lparr>unit_curr := cur + 1,
                unit_cells := (unit_cells unt)(cur := Some cells_zero)\<rparr>)), hm_mem := mem - 1\<rparr>))"
      using assms(2) False
      by (cases "hm_unit hm i1")
        (auto simp: hm_make_free_cells_def Let_def hm_def [symmetric] i1_def [symmetric] unt_def mem_def
          split: if_splits)
    then obtain cur where cur: "next_bank 256 (unit_cells unt) (unit_curr unt) = Some cur"
      and res: "if mem = 0 then hm' = hm\<lparr>hm_unit := (hm_unit hm)(i1 := Some (unt\<lparr>unit_curr := cur\<rparr>)), hm_mem := mem\<rparr>
         else hm' = carve i1 cur (hm\<lparr>hm_unit := (hm_unit hm)(i1 := Some (unt\<lparr>unit_curr := cur + 1,
                unit_cells := (unit_cells unt)(cur := Some cells_zero)\<rparr>)), hm_mem := mem - 1\<rparr>)"
      by blast
    have cs: "case hm_unit hm i1 of None \<Rightarrow> unit_cells unt = (\<lambda>_. None) | Some u \<Rightarrow> unit_cells unt = unit_cells u"
      by (auto simp: unt_def unit_zero_def split: option.splits)
    show ?thesis
    proof (cases "mem = 0")
      case True
      have cs': "case hm_unit hm i1 of None \<Rightarrow> unit_cells (unt\<lparr>unit_curr := cur\<rparr>) = (\<lambda>_. None)
          | Some u \<Rightarrow> unit_cells (unt\<lparr>unit_curr := cur\<rparr>) = unit_cells u" using cs by (simp split: option.splits)
      show ?thesis
        using unit_upd_same_cells[of hm' hm i1, OF _ _ cs'] True res
        by (intro hinv_cong[OF assms(1)]) (simp_all add: hm_def)
    next
      case False
      define unt2 where "unt2 = unt\<lparr>unit_curr := cur + 1, unit_cells := (unit_cells unt)(cur := Some cells_zero)\<rparr>"
      define hm2 where "hm2 = hm\<lparr>hm_unit := (hm_unit hm)(i1 := Some unt2), hm_mem := mem - 1\<rparr>"
      have u2: "unit_cells unt2 = (unit_cells unt)(cur := Some cells_zero)" by (simp add: unt2_def)
      have "add_bank i1 cur hm hm2"
        by (rule add_bankI[OF _ u2 next_bank_None[OF cur] cs]) (simp_all add: hm2_def)
      then show ?thesis using hinv_carve[OF assms(1)] False res by (simp add: hm_def hm2_def unt2_def)
    qed
  qed
qed

section \<open>Giving out a cell\<close>

text \<open>A cell is taken off its free list.\<close>

lemma hinv_pop:
  assumes "hinv {} s" "i < HM_POOL_CNT" "p \<in> set (free_pool (hm_pool (hs_hm s) ! i))"
    "set xs = set (free_pool (hm_pool (hs_hm s) ! i)) - {p}" "distinct xs"
    "\<And>pm. free_pool (f pm) = xs" "\<And>pm. pm_curr (f pm) = pm_curr pm"
  shows "hinv {p} (s\<lparr>hs_hm := pool_upd i f (hs_hm s)\<rparr>)"
    and "\<not> is_free (pool_upd i f (hs_hm s)) p"
proof -
  note ok = hinvD(1)[OF assms(1)]
  have len: "length (hm_pool (hs_hm s)) = HM_POOL_CNT" by (rule pools_okD(1)[OF ok])
  have p: "is_pos p" "m_HM_POOL_ID (pos_idx1 p) = i" using pools_okD(4)[OF ok assms(2,3)] by auto
  have fr: "is_free (pool_upd i f (hs_hm s)) q \<longleftrightarrow> is_free (hs_hm s) q \<and> q \<noteq> p" for q
    using assms(4,6) p(2) len by (auto simp: is_free_def pool_upd_nth)
  then show "\<not> is_free (pool_upd i f (hs_hm s)) p" by simp
  have pf: "is_free (hs_hm s) p" using assms(3) p(2) by (simp add: is_free_def)
  have lv: "hdl_pos g \<noteq> p \<Longrightarrow> live (pool_upd i f (hs_hm s)) g c = live (hs_hm s) g c" for g c
    by (simp add: live_def fr)
  have np: "live (hs_hm s) g c \<Longrightarrow> hdl_pos g \<noteq> p" for g c using pf by (auto simp: live_def)
  show "hinv {p} (s\<lparr>hs_hm := pool_upd i f (hs_hm s)\<rparr>)"
  proof (rule hinvI; simp)
    show "pools_ok (pool_upd i f (hs_hm s))"
    proof (rule pools_okI)
      fix j assume j: "j < HM_POOL_CNT"
      show "m_HM_POOL_ID (ucast (pm_curr (hm_pool (pool_upd i f (hs_hm s)) ! j))) = j"
        using pools_okD(2)[OF ok j] assms(7) j len by (auto simp: pool_upd_nth)
      show "distinct (free_pool (hm_pool (pool_upd i f (hs_hm s)) ! j))"
        using pools_okD(3)[OF ok j] assms(5,6) j len by (simp add: pool_upd_nth)
      fix q assume "q \<in> set (free_pool (hm_pool (pool_upd i f (hs_hm s)) ! j))"
      then have "q \<in> set (free_pool (hm_pool (hs_hm s) ! j))"
        using assms(4,6) j len by (auto simp: pool_upd_nth split: if_splits)
      then show "is_pos q \<and> m_HM_POOL_ID (pos_idx1 q) = j \<and>
          (\<exists>c. cell_at (pool_upd i f (hs_hm s)) q = Some c \<and> hdl_pos (cell_bits c) = q)"
        using pools_okD(4)[OF ok j] by simp
    qed (simp add: len)
    show "cell_ok (s\<lparr>hs_hm := pool_upd i f (hs_hm s)\<rparr>) g c"
      if "live (pool_upd i f (hs_hm s)) g c" "hdl_pos g \<noteq> p" for g c
      using hinvD(2)[OF assms(1), of g c] that lv by (auto simp: cell_ok_def split: option.splits)
    show "hdl_pos g \<noteq> p \<and> (\<exists>c. live (pool_upd i f (hs_hm s)) g c)" if "0 < hs_held s g" for g
      using hinvD(3)[OF assms(1) that] np lv by blast
    show "hdl_pos g \<noteq> p \<and> (\<exists>c. live (pool_upd i f (hs_hm s)) g c)" if "\<exists>y. hs_waits s g = Some y" for g
      using hinvD(4)[OF assms(1), of g] that np lv by auto
  qed (rule hinvD(5)[OF assms(1)])
qed

text \<open>The cell is bound to a service and an object.\<close>

lemma bind_fields [simp]:
  "c_seq_id (bind_cell sid save c) = c_seq_id c" "c_svc_id (bind_cell sid save c) = take_bit 12 sid"
  "c_busy (bind_cell sid save c) = 1" "c_use_ct (bind_cell sid save c) = 1"
  "cell_data (bind_cell sid save c) = save"
  by (simp_all add: bind_cell_def)

lemma hinv_bind:
  assumes "hinv {p} s" "is_pos p" "cell_at (hs_hm s) p = Some c" "\<not> is_free (hs_hm s) p"
  shows "hinv {} (s\<lparr>hs_hm := cell_store (hs_hm s) p (bind_cell sid save c)\<rparr>)"
proof -
  note ok = hinvD(1)[OF assms(1)]
  have lv: "live (cell_store (hs_hm s) p (bind_cell sid save c)) g d \<longleftrightarrow>
      (if hdl_pos g = p then d = bind_cell sid save c \<and> c_seq_id c = hdl_seq_id g else live (hs_hm s) g d)" for g d
    using live_store[of "hs_hm s" p "bind_cell sid save c"] assms(2-4) by auto
  have none: "hs_held s g = 0 \<and> hs_waits s g = None" if "hdl_pos g = p" for g
    using hinvD(3,4)[OF assms(1), of g] that by (cases "hs_waits s g") auto
  show ?thesis
  proof (rule hinvI; simp)
    show "pools_ok (cell_store (hs_hm s) p (bind_cell sid save c))" by (rule pools_ok_store[OF ok assms(2,4)])
    show "cell_ok (s\<lparr>hs_hm := cell_store (hs_hm s) p (bind_cell sid save c)\<rparr>) g d"
      if "live (cell_store (hs_hm s) p (bind_cell sid save c)) g d" for g d
      using that hinvD(2)[OF assms(1), of g d] none[of g]
      by (auto simp: lv cell_ok_def split: if_splits option.splits)
    show "\<exists>d. live (cell_store (hs_hm s) p (bind_cell sid save c)) g d" if "0 < hs_held s g" for g
      using hinvD(3)[OF assms(1) that] by (auto simp: lv)
    show "\<exists>d. live (cell_store (hs_hm s) p (bind_cell sid save c)) g d" if "\<exists>y. hs_waits s g = Some y" for g
      using hinvD(4)[OF assms(1), of g] that by (auto simp: lv)
  qed (rule hinvD(5)[OF assms(1)])
qed

lemma hinv_create:
  assumes "hinv {} s" "ncshm_create_hdl pool sid save (hs_hm s) = Some (h, hm')"
  shows "hinv {} (s\<lparr>hs_hm := hm'\<rparr>)"
proof (cases "pool \<ge> HM_POOL_CNT")
  case True
  then show ?thesis using assms by (auto simp: ncshm_create_hdl_def)
next
  case False
  then obtain free hm1 where al: "hm_alloc_cell pool (hs_hm s) = Some (free, hm1)"
    and rest: "(case free of None \<Rightarrow> Some (0, hm1) | Some p \<Rightarrow> cell_at hm1 p \<bind>
      (\<lambda>c. if hdl_pos (cell_bits c) \<noteq> p then None
           else Some (cell_bits c, cell_store hm1 p (bind_cell sid save c)))) = Some (h, hm')"
    using assms(2) unfolding ncshm_create_hdl_def Let_def by auto
  obtain rc hm0 where mk: "(if free_pool (hm_pool (hs_hm s) ! pool) = [] then hm_make_free_cells pool (hs_hm s)
      else Some (NCSCC_RC_SUCCESS, hs_hm s)) = Some (rc, hm0)"
    and al2: "(if rc \<noteq> NCSCC_RC_SUCCESS then Some (None, hm0)
       else case free_pool (hm_pool hm0 ! pool) of [] \<Rightarrow> None
         | p # ps \<Rightarrow> Some (Some p, pool_upd pool (\<lambda>pm. pm\<lparr>free_pool := ps, in_use := in_use pm + 1,
             in_q := in_q pm - 1\<rparr>) hm0)) = Some (free, hm1)"
    using al by (auto simp: hm_alloc_cell_def)
  have s0: "hinv {} (s\<lparr>hs_hm := hm0\<rparr>)"
    using mk hinv_make[OF assms(1)] assms(1) by (auto split: if_splits)
  show ?thesis
  proof (cases free)
    case None
    then show ?thesis using al2 rest s0 by (auto split: if_splits list.splits)
  next
    case (Some p)
    then obtain ps where ps: "free_pool (hm_pool hm0 ! pool) = p # ps"
      and hm1: "hm1 = pool_upd pool (\<lambda>pm. pm\<lparr>free_pool := ps, in_use := in_use pm + 1, in_q := in_q pm - 1\<rparr>) hm0"
      using al2 by (auto split: if_splits list.splits)
    have i: "pool < HM_POOL_CNT" using False by simp
    have d: "distinct (p # ps)" using pools_okD(3)[OF hinvD(1)[OF s0] i] ps by simp
    have mem: "p \<in> set (free_pool (hm_pool (hs_hm (s\<lparr>hs_hm := hm0\<rparr>)) ! pool))"
      and set: "set ps = set (free_pool (hm_pool (hs_hm (s\<lparr>hs_hm := hm0\<rparr>)) ! pool)) - {p}"
      using ps d by auto
    have s1: "hinv {p} (s\<lparr>hs_hm := hm1\<rparr>)" "\<not> is_free hm1 p"
      using hinv_pop[OF s0 i mem set, of "\<lambda>pm. pm\<lparr>free_pool := ps, in_use := in_use pm + 1, in_q := in_q pm - 1\<rparr>"] d
      unfolding hm1 by simp_all
    obtain c where c: "cell_at hm1 p = Some c" "hm' = cell_store hm1 p (bind_cell sid save c)"
      using rest Some by (auto split: if_splits)
    have "is_pos p" using pools_okD(4)[OF hinvD(1)[OF s0] i, of p] ps by simp
    then show ?thesis using hinv_bind[OF s1(1)] s1(2) c by simp
  qed
qed

lemma target_unit_cells:
  "target_unit i1 hm = Some (unt, mem) \<Longrightarrow>
     case hm_unit hm i1 of None \<Rightarrow> unit_cells unt = (\<lambda>_. None) | Some u \<Rightarrow> unit_cells unt = unit_cells u"
  by (auto simp: target_unit_def unit_zero_def split: option.splits if_splits)

lemma hinv_target_bank:
  assumes "hinv {} s" "target_bank i1 i2 (hs_hm s) = (found, hm')"
  shows "hinv {} (s\<lparr>hs_hm := hm'\<rparr>)"
proof (cases "target_unit i1 (hs_hm s)")
  case None
  then show ?thesis using assms by (auto simp: target_bank_def)
next
  case (Some um)
  then obtain unt mem where um: "target_unit i1 (hs_hm s) = Some (unt, mem)" by (cases um) auto
  note cs = target_unit_cells[OF um]
  define hm1 where "hm1 = (hs_hm s)\<lparr>hm_unit := (hm_unit (hs_hm s))(i1 := Some unt), hm_mem := mem\<rparr>"
  define unt2 where "unt2 = unt\<lparr>unit_cells := (unit_cells unt)(i2 := Some cells_zero)\<rparr>"
  define hm2 where "hm2 = hm1\<lparr>hm_unit := (hm_unit hm1)(i1 := Some unt2), hm_mem := mem - 1\<rparr>"
  have s1: "hinv {} (s\<lparr>hs_hm := hm1\<rparr>)"
    using unit_upd_same_cells[of hm1 "hs_hm s" i1 unt, OF _ _ cs]
    by (intro hinv_cong[OF assms(1)]) (simp_all add: hm1_def)
  have u2: "unit_cells unt2 = (unit_cells unt)(i2 := Some cells_zero)" by (simp add: unt2_def)
  have s2: "hinv {} (s\<lparr>hs_hm := carve i1 i2 hm2\<rparr>)" if n: "unit_cells unt i2 = None"
    by (rule hinv_carve[OF assms(1) add_bankI[OF _ u2 n cs]]) (simp_all add: hm2_def hm1_def)
  have "hm' = hm1 \<or> hm' = carve i1 i2 hm2 \<and> unit_cells unt i2 = None"
    using assms(2) um by (auto simp: target_bank_def Let_def hm1_def hm2_def unt2_def split: if_splits)
  then show ?thesis using s1 s2 by blast
qed

lemma hinv_target:
  assumes "hinv {} s" "hm_target_cell h (hs_hm s) = (res, hm')"
  shows "case res of None \<Rightarrow> hinv {} (s\<lparr>hs_hm := hm'\<rparr>)
    | Some p \<Rightarrow> hinv {p} (s\<lparr>hs_hm := hm'\<rparr>) \<and> is_pos p \<and> \<not> is_free hm' p"
proof -
  define i where "i = m_HM_POOL_ID (pos_idx1 (hdl_pos h))"
  have il: "i < HM_POOL_CNT" by (simp add: i_def)
  obtain found hm3 where tb: "target_bank (pos_idx1 (hdl_pos h)) (pos_idx2 (hdl_pos h)) (hs_hm s) = (found, hm3)"
    by fastforce
  have s3: "hinv {} (s\<lparr>hs_hm := hm3\<rparr>)" by (rule hinv_target_bank[OF assms(1) tb])
  consider "res = None" "hm' = hm3"
    | q where "res = Some q" "q \<in> set (free_pool (hm_pool hm3 ! i))"
      "hm' = pool_upd i (\<lambda>pm. pm\<lparr>free_pool := remove1 q (free_pool pm), in_use := in_use pm + 1, in_q := in_q pm - 1\<rparr>) hm3"
  proof (cases found)
    case True
    note tc = assms(2)[unfolded hm_target_cell_def Let_def i_def [symmetric] tb]
    show ?thesis
    proof (cases "List.find (\<lambda>q. map_option cell_bits (cell_at hm3 q) = Some h) (free_pool (hm_pool hm3 ! i))")
      case None
      then show ?thesis using tc True that(1) by simp
    next
      case (Some q)
      have "q \<in> set (free_pool (hm_pool hm3 ! i))" using find_SomeD[OF Some] ..
      moreover from tc True Some have "res = Some q"
        "hm' = pool_upd i (\<lambda>pm. pm\<lparr>free_pool := remove1 q (free_pool pm), in_use := in_use pm + 1, in_q := in_q pm - 1\<rparr>) hm3"
        by simp_all
      ultimately show ?thesis by (intro that(2))
    qed
  next
    case False
    then show ?thesis using assms(2) tb that(1) by (simp add: hm_target_cell_def Let_def)
  qed
  then show ?thesis
  proof cases
    case (2 q)
    note ok = hinvD(1)[OF s3, simplified]
    define xs where "xs = remove1 q (free_pool (hm_pool hm3 ! i))"
    have d: "distinct (free_pool (hm_pool hm3 ! i))" by (rule pools_okD(3)[OF ok il])
    have mem: "q \<in> set (free_pool (hm_pool (hs_hm (s\<lparr>hs_hm := hm3\<rparr>)) ! i))" using 2 by simp
    have set: "set xs = set (free_pool (hm_pool (hs_hm (s\<lparr>hs_hm := hm3\<rparr>)) ! i)) - {q}" "distinct xs"
      using d by (simp_all add: xs_def)
    have hm': "hm' = pool_upd i (\<lambda>pm. pm\<lparr>free_pool := xs, in_use := in_use pm + 1, in_q := in_q pm - 1\<rparr>) hm3"
      by (simp add: 2 pool_upd_def xs_def)
    have "hinv {q} (s\<lparr>hs_hm := hm'\<rparr>)" "\<not> is_free hm' q"
      using hinv_pop[OF s3 il mem set, of "\<lambda>pm. pm\<lparr>free_pool := xs, in_use := in_use pm + 1, in_q := in_q pm - 1\<rparr>"]
      unfolding hm' by simp_all
    then show ?thesis using 2 pools_okD(4)[OF ok il, of q] by simp
  qed (use s3 in simp)
qed

lemma hinv_declare:
  assumes "hinv {} s" "ncshm_declare_hdl h sid save (hs_hm s) = Some (rc, hm')"
  shows "hinv {} (s\<lparr>hs_hm := hm'\<rparr>)"
proof -
  obtain res hm1 where t: "hm_target_cell h (hs_hm s) = (res, hm1)" by fastforce
  note ht = hinv_target[OF assms(1) t]
  show ?thesis
  proof (cases res)
    case None
    then show ?thesis using assms(2) t ht by (auto simp: ncshm_declare_hdl_def)
  next
    case (Some p)
    then obtain c where "cell_at hm1 p = Some c" "hm' = cell_store hm1 p (bind_cell sid save c)"
      using assms(2) t by (auto simp: ncshm_declare_hdl_def split: if_splits)
    then show ?thesis using hinv_bind[of p "s\<lparr>hs_hm := hm1\<rparr>"] ht Some by simp
  qed
qed

section \<open>Using and destroying a handle\<close>

text \<open>Replacing the cell of a live handle by one with the same sequence number.\<close>

lemma hinv_store_live:
  assumes inv: "hinv {} s" and lv: "live (hs_hm s) h c" and seq: "c_seq_id c' = c_seq_id c"
    and held: "\<And>g. g \<noteq> h \<Longrightarrow> hs_held s' g = hs_held s g"
    and waits: "\<And>g. g \<noteq> h \<Longrightarrow> hs_waits s' g = hs_waits s g"
    and hm': "hs_hm s' = (cell_store (hs_hm s) (hdl_pos h) c')\<lparr>hm_sem := sems, woulda_crashed := wc\<rparr>"
    and sems: "\<And>g sem. g \<noteq> h \<Longrightarrow> hs_waits s g = Some sem \<Longrightarrow> sems sem = hm_sem (hs_hm s) sem"
    and inj: "\<And>g sem. g \<noteq> h \<Longrightarrow> hs_waits s g = Some sem \<Longrightarrow> hs_waits s' h \<noteq> Some sem"
    and ok: "cell_ok s' h c'"
  shows "hinv {} s'"
proof -
  let ?hm1 = "cell_store (hs_hm s) (hdl_pos h) c'"
  have at: "cell_at (hs_hm s) (hdl_pos h) \<noteq> None" and nf: "\<not> is_free (hs_hm s) (hdl_pos h)"
    and sq: "c_seq_id c = hdl_seq_id h"
    using lv by (auto simp: live_def)
  have l1: "live (hs_hm s') g d \<longleftrightarrow> live ?hm1 g d" for g d
    using live_cong[of "hs_hm s'" ?hm1] by (simp add: hm')
  have l2: "live ?hm1 g d \<longleftrightarrow> (if g = h then d = c' else live (hs_hm s) g d)" for g d
    using live_store[OF at, of c' g d] nf seq sq lv
    by (auto simp: hdl_eq_iff[of g h] live_def split: if_splits)
  show ?thesis
  proof (rule hinvI)
    have "pools_ok ?hm1" by (rule pools_ok_store[OF hinvD(1)[OF inv] is_pos_hdl nf])
    then show "pools_ok (hs_hm s')" using pools_ok_cong[of "hs_hm s'" ?hm1] by (simp add: hm')
    show "cell_ok s' g d" if "live (hs_hm s') g d" for g d
    proof (cases "g = h")
      case True
      then show ?thesis using that ok by (simp add: l1 l2)
    next
      case False
      then have "cell_ok s g d" using that hinvD(2)[OF inv, of g d] by (simp add: l1 l2)
      then show ?thesis using held[OF False] waits[OF False] sems[OF False]
        by (cases "hs_waits s g") (auto simp: cell_ok_def hm')
    qed
    show "hdl_pos g \<notin> {} \<and> (\<exists>d. live (hs_hm s') g d)" if "hs_held s' g > 0" for g
      using that held[of g] hinvD(3)[OF inv, of g] by (cases "g = h") (auto simp: l1 l2)
    show "hdl_pos g \<notin> {} \<and> (\<exists>d. live (hs_hm s') g d)" if "hs_waits s' g \<noteq> None" for g
      using that waits[of g] hinvD(4)[OF inv, of g] by (cases "g = h") (auto simp: l1 l2)
    fix f g sem assume fg: "hs_waits s' f = Some sem" "hs_waits s' g = Some sem"
    have both: "\<And>k. k \<noteq> h \<Longrightarrow> hs_waits s' k = Some sem \<Longrightarrow> hs_waits s k = Some sem"
      using waits by metis
    show "f = g"
    proof (cases "f = h \<or> g = h")
      case True
      then show ?thesis using fg both inj by metis
    next
      case False
      then show ?thesis using both[of f] both[of g] fg hinvD(5)[OF inv] by metis
    qed
  qed
qed

text \<open>
  The handle is not the one a free cell waits to be given out with. Handles that were given out
  satisfy this, and a stale one does until its sequence number comes round again, after its cell
  was freed fourteen more times.
\<close>

definition known :: "HM_CORE \<Rightarrow> u32 \<Rightarrow> bool" where
  "known hm h \<longleftrightarrow> (case hm_find_cell hm h of
      None \<Rightarrow> True | Some c \<Rightarrow> is_free hm (hdl_pos h) \<longrightarrow> c_seq_id c \<noteq> hdl_seq_id h)"

lemma known_live:
  "known hm h \<Longrightarrow> hm_find_cell hm h = Some c \<Longrightarrow> c_seq_id c = hdl_seq_id h \<Longrightarrow> live hm h c"
  by (auto simp: known_def live_def hm_find_cell_def)

lemma live_find: "live hm h c \<Longrightarrow> hm_find_cell hm h = Some c \<and> c_seq_id c = hdl_seq_id h"
  by (simp add: live_def hm_find_cell_def)

definition take_ok :: "u32 \<Rightarrow> u32 \<Rightarrow> HM_CORE \<Rightarrow> bool" where
  "take_ok sid h hm \<longleftrightarrow> (case hm_find_cell hm h of None \<Rightarrow> False | Some c \<Rightarrow> valid_cell sid h c)"

lemma use_ct_plus:
  assumes "unat (c_use_ct c) = Suc n" "n < MAX_TAKES"
  shows "unat (take_bit 11 (c_use_ct c + 1)) = Suc (Suc n)"
  using assms
  by (simp add: unsigned_take_bit_eq unat_word_ariths MAX_TAKES_def take_bit_nat_def)

lemma use_ct_minus:
  assumes "unat (c_use_ct c) = Suc n" "n \<le> MAX_TAKES"
  shows "unat (take_bit 11 (c_use_ct c - 1)) = n"
proof -
  have "1 \<le> c_use_ct c" using assms(1) by (simp add: word_le_nat_alt)
  then show ?thesis using assms
    by (simp add: unsigned_take_bit_eq unat_sub MAX_TAKES_def take_bit_nat_eq_self)
qed

lemma hinv_take:
  assumes inv: "hinv {} s" and kn: "known (hs_hm s) h" and t: "ncshm_take_hdl sid h (hs_hm s) = (d, hm')"
    and few: "hs_held s h < MAX_TAKES"
  shows "hinv {} (s\<lparr>hs_hm := hm', hs_held := (if take_ok sid h (hs_hm s)
    then (hs_held s)(h := hs_held s h + 1) else hs_held s)\<rparr>)"
proof (cases "take_ok sid h (hs_hm s)")
  case False
  then have "hm' = hs_hm s" using t by (auto simp: ncshm_take_hdl_def take_ok_def split: option.splits if_splits)
  then show ?thesis using inv False by simp
next
  case True
  then obtain c where c: "hm_find_cell (hs_hm s) h = Some c" "valid_cell sid h c"
    by (auto simp: take_ok_def split: option.splits)
  have lv: "live (hs_hm s) h c" using known_live[OF kn c(1)] c(2) by (simp add: valid_cell_def)
  have ok: "cell_ok s h c" using hinvD(2)[OF inv lv] by simp
  then have nw: "hs_waits s h = None" using c(2) by (auto simp: cell_ok_def valid_cell_def split: option.splits)
  let ?c = "set_use_ct (c_use_ct c + 1) c"
  have hm': "hm' = cell_store (hs_hm s) (hdl_pos h) ?c" using t c by (simp add: ncshm_take_hdl_def)
  have cok: "cell_ok (s\<lparr>hs_hm := hm', hs_held := (hs_held s)(h := hs_held s h + 1)\<rparr>) h ?c"
    using ok few use_ct_plus[of c "hs_held s h"] nw by (simp add: cell_ok_def)
  show ?thesis
    using True hm' nw cok
    by (simp, intro hinv_store_live[OF inv lv, where c' = ?c and sems = "hm_sem hm'" and wc = "woulda_crashed hm'"])
      (auto simp: hm')
qed

end
