(* ===== verification/Hdl_Run.thy ===== *)
theory Hdl_Run
  imports Hdl_Step
begin

text \<open>
  Giving back and destroying handles, and the relation that interleaves the operations of any
  number of threads.
\<close>

section \<open>Giving back\<close>

lemma give_cases:
  assumes inv: "hinv {} s" and held: "hs_held s h > 0"
  obtains c c' where "live (hs_hm s) h c" "cell_ok s h c" "c' = set_use_ct (c_use_ct c - 1) c"
    "unat (c_use_ct c') = hs_held s h"
    "ncshm_give_hdl h (hs_hm s) = (let hm' = cell_store (hs_hm s) (hdl_pos h) c'
       in if c_busy c = 0 \<and> hs_held s h = 1 then hm_unblock_him c' hm' else Some hm')"
proof -
  obtain c where lv: "live (hs_hm s) h c" using hinvD(3)[OF inv held] by auto
  have ok: "cell_ok s h c" using hinvD(2)[OF inv lv] by simp
  define c' where "c' = set_use_ct (c_use_ct c - 1) c"
  have u: "unat (c_use_ct c') = hs_held s h"
    using ok use_ct_minus[of c "hs_held s h"] by (simp add: c'_def cell_ok_def)
  then have "\<not> c_use_ct c' < 1" "c_use_ct c' = 1 \<longleftrightarrow> hs_held s h = 1"
    using held by (auto simp: word_less_nat_alt word_unat_eq_iff)
  then have "ncshm_give_hdl h (hs_hm s) = (let hm' = cell_store (hs_hm s) (hdl_pos h) c'
       in if c_busy c = 0 \<and> hs_held s h = 1 then hm_unblock_him c' hm' else Some hm')"
    using live_find[OF lv] by (simp add: ncshm_give_hdl_def Let_def c'_def [symmetric]) (simp add: c'_def)
  then show ?thesis using that lv ok u c'_def by blast
qed

definition give_back :: "u32 \<Rightarrow> HM_CORE \<Rightarrow> hsys \<Rightarrow> hsys" where
  "give_back h hm' s = s\<lparr>hs_hm := hm', hs_held := (hs_held s)(h := hs_held s h - 1)\<rparr>"

lemma hinv_give:
  assumes inv: "hinv {} s" and held: "hs_held s h > 0"
  shows "\<exists>hm'. ncshm_give_hdl h (hs_hm s) = Some hm' \<and> hinv {} (give_back h hm' s)"
proof -
  from give_cases[OF assms] obtain c c' where lv: "live (hs_hm s) h c" and ok: "cell_ok s h c"
    and c': "c' = set_use_ct (c_use_ct c - 1) c" and u: "unat (c_use_ct c') = hs_held s h"
    and g: "ncshm_give_hdl h (hs_hm s) = (let hm' = cell_store (hs_hm s) (hdl_pos h) c'
       in if c_busy c = 0 \<and> hs_held s h = 1 then hm_unblock_him c' hm' else Some hm')" .
  let ?st = "cell_store (hs_hm s) (hdl_pos h) c'"
  have seq: "c_seq_id c' = c_seq_id c" and busy: "c_busy c' = c_busy c" and data: "cell_data c' = cell_data c"
    by (simp_all add: c')
  have le: "hs_held s h \<le> MAX_TAKES" using ok by (simp add: cell_ok_def)
  show ?thesis
  proof (cases "c_busy c = 0 \<and> hs_held s h = 1")
    case True
    then obtain sem where sem: "hs_waits s h = Some sem" "cell_data c = sem" "hm_sem (hs_hm s) sem = Some 0"
      using ok by (auto simp: cell_ok_def split: option.splits)
    define sems where "sems = (hm_sem (hs_hm s))(sem := Some 1)"
    define hm' where "hm' = ?st\<lparr>hm_sem := sems, woulda_crashed := woulda_crashed ?st\<rparr>"
    have r: "ncshm_give_hdl h (hs_hm s) = Some hm'"
      using g True sem data by (simp add: hm_unblock_him_def hm'_def sems_def)
    have "hinv {} (give_back h hm' s)"
    proof (rule hinv_store_live[OF inv lv seq, where sems = sems and wc = "woulda_crashed ?st"])
      show "cell_ok (give_back h hm' s) h c'"
        using True sem u busy data by (simp add: cell_ok_def give_back_def hm'_def sems_def)
      show "sems x = hm_sem (hs_hm s) x" if "k \<noteq> h" "hs_waits s k = Some x" for k x
        using that hinvD(5)[OF inv, of k x h] sem(1) by (auto simp: sems_def)
      show "hs_waits (give_back h hm' s) h \<noteq> Some x" if "k \<noteq> h" "hs_waits s k = Some x" for k x
        using that hinvD(5)[OF inv, of k x h] by (auto simp: give_back_def)
    qed (simp_all add: give_back_def hm'_def)
    then show ?thesis using r by blast
  next
    case False
    then have r: "ncshm_give_hdl h (hs_hm s) = Some ?st" using g by (auto simp: Let_def)
    have "hinv {} (give_back h ?st s)"
    proof (rule hinv_store_live[OF inv lv seq, where sems = "hm_sem (hs_hm s)" and wc = "woulda_crashed ?st"])
      show "cell_ok (give_back h ?st s) h c'"
        using False ok u busy data held by (auto simp: cell_ok_def give_back_def split: option.splits)
      show "hs_waits (give_back h ?st s) h \<noteq> Some x" if "k \<noteq> h" "hs_waits s k = Some x" for k x
        using that hinvD(5)[OF inv, of k x h] by (auto simp: give_back_def)
    qed (simp_all add: give_back_def)
    then show ?thesis using r by blast
  qed
qed

section \<open>Destroying\<close>

text \<open>A handle that nobody holds is taken out of the set of live ones.\<close>

lemma live_same_pos:
  assumes "live hm h c" "live hm g d" "hdl_pos g = hdl_pos h"
  shows "g = h"
proof -
  have "d = c" "c_seq_id c = hdl_seq_id h" "c_seq_id d = hdl_seq_id g"
    using assms unfolding live_def by simp_all
  then show ?thesis using assms(3) by (subst hdl_eq_iff) simp
qed

lemma hinv_retire:
  assumes inv: "hinv {} s" and lv: "live (hs_hm s) h c" and held: "hs_held s h = 0"
  shows "hinv {hdl_pos h} (s\<lparr>hs_waits := (hs_waits s)(h := None)\<rparr>)"
proof -
  let ?s = "s\<lparr>hs_waits := (hs_waits s)(h := None)\<rparr>"
  have other: "hdl_pos g \<noteq> hdl_pos h" if "g \<noteq> h" "live (hs_hm s) g d" for g d
    using live_same_pos[OF lv that(2)] that(1) by blast
  show ?thesis
  proof (rule hinvI)
    show "pools_ok (hs_hm ?s)" using hinvD(1)[OF inv] by simp
    fix g
    show "cell_ok ?s g d" if "live (hs_hm ?s) g d" "hdl_pos g \<notin> {hdl_pos h}" for d
      using hinvD(2)[OF inv, of g d] that by (auto simp: cell_ok_def split: option.splits)
    show "hdl_pos g \<notin> {hdl_pos h} \<and> (\<exists>d. live (hs_hm ?s) g d)" if "hs_held ?s g > 0"
    proof -
      have "g \<noteq> h" using that held by auto
      moreover obtain d where "live (hs_hm s) g d" using hinvD(3)[OF inv, of g] \<open>hs_held ?s g > 0\<close> by auto
      ultimately show ?thesis using other by auto
    qed
    show "hdl_pos g \<notin> {hdl_pos h} \<and> (\<exists>d. live (hs_hm ?s) g d)" if "hs_waits ?s g \<noteq> None"
    proof -
      have "g \<noteq> h" using that by auto
      moreover obtain d where "live (hs_hm s) g d" using hinvD(4)[OF inv, of g] \<open>hs_waits ?s g \<noteq> None\<close> \<open>g \<noteq> h\<close> by auto
      ultimately show ?thesis using other by auto
    qed
    show "f = g" if "hs_waits ?s f = Some sem" "hs_waits ?s g = Some sem" for f sem
      using that hinvD(5)[OF inv, of f sem g] by (auto split: if_splits)
  qed
qed

lemma hinv_sem_unused:
  assumes inv: "hinv R s" and un: "\<And>g. hs_waits s g \<noteq> Some sem"
  shows "hinv R (s\<lparr>hs_hm := (hs_hm s)\<lparr>hm_sem := (hm_sem (hs_hm s))(sem := x)\<rparr>\<rparr>)"
proof -
  let ?hm = "(hs_hm s)\<lparr>hm_sem := (hm_sem (hs_hm s))(sem := x)\<rparr>"
  have lv: "live ?hm g d = live (hs_hm s) g d" for g d by (rule live_cong) simp_all
  have ok: "cell_ok (s\<lparr>hs_hm := ?hm\<rparr>) g d = cell_ok s g d" for g d
    using un[of g] by (cases "hs_waits s g") (auto simp: cell_ok_def)
  have "pools_ok ?hm = pools_ok (hs_hm s)" by (rule pools_ok_cong) simp_all
  then show ?thesis using inv by (simp add: hinv_def lv ok)
qed

lemma free_cell_store: "hm_free_cell h b (cell_store hm (hdl_pos h) c) = hm_free_cell h b hm"
  by (simp add: hm_free_cell_def Let_def cell_store_twice cong: list.case_cong)

lemma waits_hm_swap: "s\<lparr>hs_waits := w, hs_hm := hm\<rparr> = s\<lparr>hs_hm := hm, hs_waits := w\<rparr>"
  by simp

lemma hinv_release:
  assumes inv: "hinv {} s" and lv: "live (hs_hm s) h c" and held: "hs_held s h = 0"
  shows "hinv {} (s\<lparr>hs_hm := hm_free_cell h b (hs_hm s), hs_waits := (hs_waits s)(h := None)\<rparr>)"
proof -
  have "hinv ({hdl_pos h} - {hdl_pos h}) (s\<lparr>hs_waits := (hs_waits s)(h := None)\<rparr>
      \<lparr>hs_hm := hm_free_cell h b (hs_hm (s\<lparr>hs_waits := (hs_waits s)(h := None)\<rparr>))\<rparr>)"
    using lv by (intro hinv_free[OF hinv_retire[OF assms]]) (auto simp: live_def)
  then show ?thesis by (simp add: waits_hm_swap)
qed

definition fresh_sem :: "ptr \<Rightarrow> hsys \<Rightarrow> bool" where
  "fresh_sem sem s \<longleftrightarrow> hm_sem (hs_hm s) sem = None"

lemma fresh_sem_unused:
  assumes inv: "hinv {} s" and "fresh_sem sem s"
  shows "hs_waits s g \<noteq> Some sem"
proof
  assume w: "hs_waits s g = Some sem"
  then obtain c where "live (hs_hm s) g c" using hinvD(4)[OF inv, of g] by auto
  from hinvD(2)[OF inv this] w have "hm_sem (hs_hm s) sem \<noteq> None" by (simp add: cell_ok_def)
  then show False using assms(2) by (simp add: fresh_sem_def)
qed

lemma destroy_cases:
  assumes inv: "hinv {} s" and kn: "known (hs_hm s) h"
    and d: "ncshm_destroy_hdl sem sid h (hs_hm s) = (res, hm')"
  obtains (refused) "res = Refused" "hm' = hs_hm s"
  | (gone) c where "live (hs_hm s) h c" "hs_held s h = 0" "hs_waits s h = None" "res = Destroyed (cell_data c)"
      "hm' = hm_free_cell h True (hs_hm s)"
  | (wait) c where "live (hs_hm s) h c" "cell_ok s h c" "hs_held s h > 0" "res = Waiting (cell_data c)"
      "hm' = (cell_store (hs_hm s) (hdl_pos h) ((set_busy 0 c)\<lparr>cell_data := sem\<rparr>))
         \<lparr>hm_sem := (hm_sem (hs_hm s))(sem := Some 0), woulda_crashed := woulda_crashed (hs_hm s) + 1\<rparr>"
proof (cases "hm_find_cell (hs_hm s) h")
  case None
  then show ?thesis using d refused by (simp add: ncshm_destroy_hdl_def)
next
  case (Some c)
  show ?thesis
  proof (cases "valid_cell sid h c")
    case False
    then show ?thesis using d Some refused by (simp add: ncshm_destroy_hdl_def)
  next
    case True
    then have lv: "live (hs_hm s) h c" using known_live[OF kn Some] by (simp add: valid_cell_def)
    have ok: "cell_ok s h c" using hinvD(2)[OF inv lv] by simp
    have nw: "hs_waits s h = None" using ok True by (auto simp: cell_ok_def valid_cell_def split: option.splits)
    have ct: "1 < c_use_ct c \<longleftrightarrow> hs_held s h > 0" using ok by (simp add: cell_ok_def word_less_nat_alt)
    have swap: "cell_store ((hs_hm s)\<lparr>woulda_crashed := w, hm_sem := x\<rparr>) p e =
        (cell_store (hs_hm s) p e)\<lparr>hm_sem := x, woulda_crashed := w\<rparr>" for w x p e
      by (auto simp: cell_store_def split: option.splits)
    show ?thesis
    proof (cases "hs_held s h > 0")
      case True
      then show ?thesis using d Some \<open>valid_cell sid h c\<close> ct wait[OF lv ok]
        by (simp add: ncshm_destroy_hdl_def Let_def swap)
    next
      case False
      then show ?thesis using d Some \<open>valid_cell sid h c\<close> ct gone[OF lv] nw
        by (simp add: ncshm_destroy_hdl_def Let_def free_cell_store)
    qed
  qed
qed

definition after_destroy :: "ptr \<Rightarrow> u32 \<Rightarrow> destroy_result \<Rightarrow> HM_CORE \<Rightarrow> hsys \<Rightarrow> hsys" where
  "after_destroy sem h res hm' s = s\<lparr>hs_hm := hm',
     hs_waits := (case res of Waiting _ \<Rightarrow> (hs_waits s)(h := Some sem) | _ \<Rightarrow> hs_waits s)\<rparr>"

lemma hinv_destroy:
  assumes inv: "hinv {} s" and kn: "known (hs_hm s) h" and fr: "fresh_sem sem s"
    and d: "ncshm_destroy_hdl sem sid h (hs_hm s) = (res, hm')"
  shows "hinv {} (after_destroy sem h res hm' s)"
  using inv kn d
proof (cases rule: destroy_cases)
  case refused
  then show ?thesis using inv by (simp add: after_destroy_def)
next
  case (gone c)
  then have "(hs_waits s)(h := None) = hs_waits s" by (simp add: fun_upd_idem)
  then show ?thesis using hinv_release[OF inv gone(1,2), of True] gone by (simp add: after_destroy_def)
next
  case (wait c)
  let ?c = "(set_busy 0 c)\<lparr>cell_data := sem\<rparr>"
  show ?thesis
  proof (rule hinv_store_live[OF inv wait(1), where c' = ?c and sems = "(hm_sem (hs_hm s))(sem := Some 0)"
        and wc = "woulda_crashed (hs_hm s) + 1"])
    show "cell_ok (after_destroy sem h res hm' s) h ?c"
      using wait by (simp add: after_destroy_def cell_ok_def)
    show "((hm_sem (hs_hm s))(sem := Some 0)) x = hm_sem (hs_hm s) x"
      if "g \<noteq> h" "hs_waits s g = Some x" for g x
      using that fresh_sem_unused[OF inv fr, of g] by auto
    show "hs_waits (after_destroy sem h res hm' s) h \<noteq> Some x"
      if "g \<noteq> h" "hs_waits s g = Some x" for g x
      using that fresh_sem_unused[OF inv fr, of g] wait by (auto simp: after_destroy_def)
  qed (use wait in \<open>simp_all add: after_destroy_def\<close>)
qed

lemma wake_iff:
  assumes inv: "hinv {} s" and w: "hs_waits s h = Some sem"
  shows "hm_wake sem h (hs_hm s) = (if hs_held s h = 0
    then Some (hm_free_cell h True ((hs_hm s)\<lparr>hm_sem := (hm_sem (hs_hm s))(sem := None)\<rparr>)) else None)"
proof -
  obtain c where "live (hs_hm s) h c" using hinvD(4)[OF inv, of h] w by auto
  from hinvD(2)[OF inv this] w have "hm_sem (hs_hm s) sem = Some (if hs_held s h = 0 then 1 else 0)"
    by (simp add: cell_ok_def)
  then show ?thesis by (simp add: hm_wake_def)
qed

lemma hinv_wake:
  assumes inv: "hinv {} s" and w: "hs_waits s h = Some sem" and k: "hm_wake sem h (hs_hm s) = Some hm'"
  shows "hinv {} (s\<lparr>hs_hm := hm', hs_waits := (hs_waits s)(h := None)\<rparr>)"
proof -
  have held: "hs_held s h = 0" and hm': "hm' = hm_free_cell h True ((hs_hm s)\<lparr>hm_sem := (hm_sem (hs_hm s))(sem := None)\<rparr>)"
    using k wake_iff[OF inv w] by (auto split: if_splits)
  obtain c where lv: "live (hs_hm s) h c" using hinvD(4)[OF inv, of h] w by auto
  let ?s = "s\<lparr>hs_waits := (hs_waits s)(h := None)\<rparr>"
  let ?hm = "(hs_hm s)\<lparr>hm_sem := (hm_sem (hs_hm s))(sem := None)\<rparr>"
  have "hs_waits ?s g \<noteq> Some sem" for g using hinvD(5)[OF inv w, of g] by auto
  from hinv_sem_unused[OF hinv_retire[OF inv lv held] this, of None]
  have r: "hinv {hdl_pos h} (?s\<lparr>hs_hm := ?hm\<rparr>)" by simp
  have at: "cell_at ?hm (hdl_pos h) = cell_at (hs_hm s) (hdl_pos h)" by (rule cell_at_cong) simp
  have fr: "is_free ?hm (hdl_pos h) = is_free (hs_hm s) (hdl_pos h)" by (rule is_free_pools) simp
  have "hinv ({hdl_pos h} - {hdl_pos h}) (?s\<lparr>hs_hm := ?hm\<rparr>
      \<lparr>hs_hm := hm_free_cell h True (hs_hm (?s\<lparr>hs_hm := ?hm\<rparr>))\<rparr>)"
    using lv at fr by (intro hinv_free[OF r]) (auto simp: live_def)
  then show ?thesis by (simp add: hm' waits_hm_swap)
qed

section \<open>Threads\<close>

text \<open>
  One step is one operation of one thread. A client uses handles it was given (\<open>known\<close>), gives back
  only what it took and takes a handle at most \<open>MAX_TAKES\<close> times at once, which is as far as the use
  count goes. \<open>Gone h\<close> marks the steps with which a destruction of \<open>h\<close> is complete.
\<close>

datatype hlabel = Gone u32 | Other

inductive hstep :: "hsys \<Rightarrow> hlabel \<Rightarrow> hsys \<Rightarrow> bool" where
  create: "ncshm_create_hdl pool sid save (hs_hm s) = Some (h, hm') \<Longrightarrow> hstep s Other (s\<lparr>hs_hm := hm'\<rparr>)"
| declare_hdl: "ncshm_declare_hdl h sid save (hs_hm s) = Some (rc, hm') \<Longrightarrow> hstep s Other (s\<lparr>hs_hm := hm'\<rparr>)"
| take_hdl: "known (hs_hm s) h \<Longrightarrow> hs_held s h < MAX_TAKES \<Longrightarrow> ncshm_take_hdl sid h (hs_hm s) = (d, hm') \<Longrightarrow>
    hstep s Other (s\<lparr>hs_hm := hm', hs_held := (if take_ok sid h (hs_hm s)
      then (hs_held s)(h := hs_held s h + 1) else hs_held s)\<rparr>)"
| give: "hs_held s h > 0 \<Longrightarrow> ncshm_give_hdl h (hs_hm s) = Some hm' \<Longrightarrow> hstep s Other (give_back h hm' s)"
| destroy: "known (hs_hm s) h \<Longrightarrow> fresh_sem sem s \<Longrightarrow> ncshm_destroy_hdl sem sid h (hs_hm s) = (res, hm') \<Longrightarrow>
    hstep s (case res of Destroyed _ \<Rightarrow> Gone h | _ \<Rightarrow> Other) (after_destroy sem h res hm' s)"
| wake: "hs_waits s h = Some sem \<Longrightarrow> hm_wake sem h (hs_hm s) = Some hm' \<Longrightarrow>
    hstep s (Gone h) (s\<lparr>hs_hm := hm', hs_waits := (hs_waits s)(h := None)\<rparr>)"

inductive hreach :: "hsys \<Rightarrow> bool" where
  start: "gl_im_created hm = 0 \<Longrightarrow> ncshm_init hm = (NCSCC_RC_SUCCESS, hm') \<Longrightarrow>
    hreach \<lparr>hs_hm = hm', hs_held = (\<lambda>_. 0), hs_waits = (\<lambda>_. None)\<rparr>"
| step: "hreach s \<Longrightarrow> hstep s l s' \<Longrightarrow> hreach s'"

lemma hinv_step: "hstep s l s' \<Longrightarrow> hinv {} s \<Longrightarrow> hinv {} s'"
proof (induction rule: hstep.induct)
  case (give s h hm')
  then show ?case using hinv_give[of s h] by auto
next
  case (take_hdl s h sid d hm')
  then show ?case by (intro hinv_take)
qed (auto intro: hinv_create hinv_declare hinv_destroy hinv_wake)

definition pmgr_start :: "int \<times> int \<Rightarrow> HM_PMGR" where
  "pmgr_start r = pmgr_zero\<lparr>pm_curr := of_int (fst r), pm_max := of_int (snd r)\<rparr>"

lemma init_state:
  assumes "gl_im_created hm = 0"
  shows "ncshm_init hm = (NCSCC_RC_SUCCESS, (core_zero (hm\<lparr>gl_im_created := 1\<rparr>))\<lparr>hm_pool := map pmgr_start gl_hpool\<rparr>)"
  using assms
  by (simp add: ncshm_init_def core_zero_def hm_init_pools_def gl_hpool_def HM_POOL_CNT_def
      pmgr_start_def numeral_eq_Suc)

lemma pool_start_id: "i < HM_POOL_CNT \<Longrightarrow> m_HM_POOL_ID (ucast (pm_curr (map pmgr_start gl_hpool ! i))) = i"
proof -
  have "list_all (\<lambda>i. m_HM_POOL_ID (ucast (of_int (fst (gl_hpool ! i)) :: u32)) = i) [0..<9]" by code_simp
  moreover assume "i < HM_POOL_CNT"
  moreover have "length gl_hpool = HM_POOL_CNT" by (simp add: gl_hpool_def HM_POOL_CNT_def)
  ultimately show ?thesis by (auto simp: list_all_iff HM_POOL_CNT_def pmgr_start_def)
qed

lemma hinv_start:
  assumes "gl_im_created hm = 0" "ncshm_init hm = (NCSCC_RC_SUCCESS, hm')"
  shows "hinv {} \<lparr>hs_hm = hm', hs_held = (\<lambda>_. 0), hs_waits = (\<lambda>_. None)\<rparr>"
proof -
  have hm': "hm' = (core_zero (hm\<lparr>gl_im_created := 1\<rparr>))\<lparr>hm_pool := map pmgr_start gl_hpool\<rparr>"
    using assms init_state by simp
  have len: "length gl_hpool = HM_POOL_CNT" by (simp add: gl_hpool_def HM_POOL_CNT_def)
  have "pools_ok hm'"
    using pool_start_id by (intro pools_okI) (simp_all add: hm' len, simp_all add: pmgr_start_def pmgr_zero_def len)
  moreover have "\<not> live hm' h c" for h c by (simp add: live_def cell_at_def hm' core_zero_def)
  ultimately show ?thesis by (simp add: hinv_def)
qed

lemma hreach_hinv: "hreach s \<Longrightarrow> hinv {} s"
  by (induction rule: hreach.induct) (blast intro: hinv_start hinv_step)+

end
