(* ===== verification/Hdl_Props.thy ===== *)
theory Hdl_Props
  imports Hdl_Run
begin

text \<open>What the handle manager promises to threads that share an object, and where it does not.\<close>

section \<open>Destroyed handles\<close>

lemma next_seq_new: "next_seq h \<noteq> hdl_seq_id h"
proof -
  define q where "q = hdl_seq_id h"
  have "unat q = take_bit 4 (unat q)" by (metis hdl_seq_take q_def unsigned_take_bit_eq)
  then have q: "unat q < 16" using take_bit_nat_less_exp[of 4 "unat q"] by simp
  then have n: "unat (take_bit 4 (q + 1)) = (unat q + 1) mod 16"
    by (simp add: unsigned_take_bit_eq unat_word_ariths take_bit_nat_def)
  show ?thesis
  proof (cases "take_bit 4 (q + 1) = 0")
    case True
    then have "unat q = 15" using n q by (simp add: mod_Suc split: if_splits)
    then show ?thesis using True by (auto simp: next_seq_def q_def Let_def)
  next
    case False
    have "(unat q + 1) mod 16 \<noteq> unat q" using q by (simp add: mod_Suc)
    then have "take_bit 4 (q + 1) \<noteq> q" using n by metis
    then show ?thesis using False by (simp add: next_seq_def q_def Let_def)
  qed
qed

lemma next_seq_take [simp]: "take_bit 4 (next_seq h) = next_seq h"
  by (simp add: next_seq_def Let_def)

lemma freed_cell_refused:
  assumes "cell_at hm (hdl_pos h) \<noteq> None"
  shows "ncshm_take_hdl sid h (hm_free_cell h b hm) = (NULL, hm_free_cell h b hm)"
proof -
  obtain d where "cell_at (hm_free_cell h b hm) (hdl_pos h) =
      Some \<lparr>cell_data = d, cell_bits = mk_hdl (hdl_pos h) (next_seq h)\<rparr>"
    using free_cell_at[OF assms is_pos_hdl] by auto
  moreover have "c_seq_id \<lparr>cell_data = d, cell_bits = mk_hdl (hdl_pos h) (next_seq h)\<rparr> = next_seq h"
    using hdl_seq_mk[of "hdl_pos h" "next_seq h"] by (simp add: c_seq_id_def hdl_seq_id_def)
  ultimately show ?thesis
    using next_seq_new[of h] by (simp add: ncshm_take_hdl_def hm_find_cell_def valid_cell_def)
qed

inductive_cases gone_stepE: "hstep s (Gone h) s'"

lemma gone_step:
  assumes inv: "hinv {} s" and st: "hstep s (Gone h) s'"
  obtains hm where "hs_hm s' = hm_free_cell h True hm" "cell_at hm (hdl_pos h) \<noteq> None"
    "hs_held s' h = 0"
proof -
  from st consider (1) g sem sid res hm' where "Gone h = (case res of Destroyed x \<Rightarrow> Gone g | _ \<Rightarrow> Other)"
      "s' = after_destroy sem g res hm' s" "known (hs_hm s) g" "fresh_sem sem s"
      "ncshm_destroy_hdl sem sid g (hs_hm s) = (res, hm')"
    | (2) sem hm' where "s' = s\<lparr>hs_hm := hm', hs_waits := (hs_waits s)(h := None)\<rparr>"
      "hs_waits s h = Some sem" "hm_wake sem h (hs_hm s) = Some hm'"
    by (rule gone_stepE) blast+
  then show ?thesis
  proof cases
    case (1 g sem sid res hm')
    then obtain d where g: "g = h" "res = Destroyed d" by (auto split: destroy_result.splits)
    from inv 1(3,5) show ?thesis
    proof (cases rule: destroy_cases)
      case (gone c)
      then show ?thesis using that 1 g by (auto simp: live_def after_destroy_def)
    qed (use g in auto)
  next
    case (2 sem hm')
    let ?hm = "(hs_hm s)\<lparr>hm_sem := (hm_sem (hs_hm s))(sem := None)\<rparr>"
    obtain c where "live (hs_hm s) h c" using hinvD(4)[OF inv, of h] 2 by auto
    then have "cell_at ?hm (hdl_pos h) \<noteq> None" using cell_at_cong[of ?hm "hs_hm s"] by (simp add: live_def)
    then show ?thesis using that[of ?hm] 2 wake_iff[OF inv 2(2)] by (simp split: if_splits)
  qed
qed


section \<open>A run in which the destroyer has to wait\<close>

lemma carve_pools:
  assumes "length (hm_pool hm) = HM_POOL_CNT" "\<And>p. p \<in> set ps \<Longrightarrow> is_pos p \<and> m_HM_POOL_ID (pos_idx1 p) = i"
    "i < HM_POOL_CNT"
  shows "free_pool (hm_pool (fold (\<lambda>p. hm_free_cell (mk_hdl p 0) False) ps hm) ! i) =
    rev ps @ free_pool (hm_pool hm ! i)"
  using assms
proof (induction ps arbitrary: hm)
  case (Cons p ps)
  have "free_pool (hm_pool (hm_free_cell (mk_hdl p 0) False hm) ! i) = p # free_pool (hm_pool hm ! i)"
    using Cons.prems by (simp add: hm_free_cell_def Let_def pool_upd_nth)
  then show ?case using Cons.IH[of "hm_free_cell (mk_hdl p 0) False hm"] Cons.prems by simp
qed simp

lemma carve_cells:
  assumes "\<And>p. p \<in> set ps \<Longrightarrow> is_pos p" "is_pos q" "cell_at hm q \<noteq> None"
  shows "cell_at (fold (\<lambda>p. hm_free_cell (mk_hdl p 0) False) ps hm) q \<noteq> None"
  using assms
proof (induction ps arbitrary: hm)
  case (Cons p ps)
  have "cell_at (hm_free_cell (mk_hdl p 0) False hm) q \<noteq> None"
    using Cons.prems by (simp add: hm_free_cell_def Let_def cell_at_store)
  then show ?case using Cons.IH[of "hm_free_cell (mk_hdl p 0) False hm"] Cons.prems by simp
qed simp

text \<open>A valid handle that nobody holds: it is taken, a destroyer waits, the holder gives it back.\<close>

lemma waiting_run:
  assumes r: "hreach s" and lv: "live (hs_hm s) h c" and val: "valid_cell sid h c"
    and fr: "fresh_sem sem s" and zero: "hs_held s h = 0"
  shows "\<exists>s'. hreach s' \<and> hs_waits s' h = Some sem \<and> hs_held s' h = 0"
proof -
  note inv = hreach_hinv[OF r]
  have known: "known (hs_hm t) h" if "live (hs_hm t) h e" for t e
    using that by (simp add: known_def live_def hm_find_cell_def)
  have ok: "take_ok sid h (hs_hm s)" using val live_find[OF lv] by (simp add: take_ok_def)
  define c1 where "c1 = set_use_ct (c_use_ct c + 1) c"
  define hm1 where "hm1 = cell_store (hs_hm s) (hdl_pos h) c1"
  define s1 where "s1 = s\<lparr>hs_hm := hm1, hs_held := (hs_held s)(h := hs_held s h + 1)\<rparr>"
  have t: "ncshm_take_hdl sid h (hs_hm s) = (cell_data c, hm1)"
    using val live_find[OF lv] by (simp add: ncshm_take_hdl_def hm1_def c1_def)
  have r1: "hreach s1"
    using hreach.step[OF r hstep.take_hdl[OF known[OF lv] _ t]] zero ok by (simp add: s1_def MAX_TAKES_def)
  have lv1: "live (hs_hm s1) h c1"
    using lv live_store[of "hs_hm s" "hdl_pos h" c1 h c1] by (auto simp: s1_def hm1_def c1_def live_def)
  have val1: "valid_cell sid h c1" using val by (simp add: valid_cell_def c1_def)
  have fr1: "fresh_sem sem s1" using fr by (simp add: fresh_sem_def s1_def hm1_def)
  have held1: "hs_held s1 h = 1" using zero by (simp add: s1_def)
  obtain res hm2 where d: "ncshm_destroy_hdl sem sid h (hs_hm s1) = (res, hm2)" by fastforce
  define s2 where "s2 = after_destroy sem h res hm2 s1"
  have r2: "hreach s2" unfolding s2_def by (rule hreach.step[OF r1 hstep.destroy[OF known[OF lv1] fr1 d]])
  have nr: "res \<noteq> Refused" using d val1 live_find[OF lv1] by (auto simp: ncshm_destroy_hdl_def Let_def split: if_splits)
  from hreach_hinv[OF r1] known[OF lv1] d
  have w: "hs_waits s2 h = Some sem \<and> hs_held s2 h = 1"
    by (cases rule: destroy_cases) (use nr held1 in \<open>auto simp: s2_def after_destroy_def\<close>)
  then obtain hm3 where g: "ncshm_give_hdl h (hs_hm s2) = Some hm3"
    using hinv_give[OF hreach_hinv[OF r2], of h] by auto
  have "hreach (give_back h hm3 s2)" using w by (intro hreach.step[OF r2 hstep.give[OF _ g]]) simp
  then show ?thesis using w by (intro exI[of _ "give_back h hm3 s2"]) (simp add: give_back_def)
qed

definition first_hm :: HM_CORE where
  "first_hm = \<lparr>hm_unit = (\<lambda>_. None), hm_pool = [], woulda_crashed = 0, hm_sem = (\<lambda>_. None), hm_mem = 2,
     hm_addr = (\<lambda>p. 8 * ucast p), gl_im_created = 0\<rparr>"

definition first_hdl :: u32 where "first_hdl = 0xFFF00001"

lemma first_bank_list: "bank_list 0 0 = map (\<lambda>k. mk_pos 0 0 (of_nat k)) [0..<4095] @ [0xFFF0000]"
proof -
  have "mk_pos 0 0 (of_nat 4095) = 0xFFF0000" by code_simp
  moreover have "[0..<HM_CELL_CNT] = [0..<4095] @ [4095]"
    using upt_Suc_append[of 0 4095] by (simp add: HM_CELL_CNT_def)
  ultimately show ?thesis by (simp add: bank_list_def)
qed

lemma first_pos:
  "is_pos 0xFFF0000" "hdl_pos first_hdl = 0xFFF0000" "pos_idx1 0xFFF0000 = 0" "pos_idx2 0xFFF0000 = 0"
  "mk_hdl 0xFFF0000 (next_seq (mk_hdl 0xFFF0000 0)) = first_hdl" by code_simp+

lemma pool_zero: "m_HM_POOL_ID 0 = 0" "(0::nat) < HM_POOL_CNT"
  by (simp_all add: m_HM_POOL_ID_def HM_POOL_CNT_def)

lemma fold_free_sem: "hm_sem (fold (\<lambda>p. hm_free_cell (mk_hdl p 0) False) xs hm) = hm_sem hm"
  by (induction xs arbitrary: hm) simp_all

lemma first_bank:
  obtains hm qs d where "hm_make_free_cells 0 (snd (ncshm_init first_hm)) = Some (NCSCC_RC_SUCCESS, hm)"
    "pools_ok hm" "free_pool (hm_pool hm ! 0) = 0xFFF0000 # qs"
    "cell_at hm 0xFFF0000 = Some \<lparr>cell_data = d, cell_bits = first_hdl\<rparr>" "hm_sem hm = (\<lambda>_. None)"
proof -
  define hm0 where "hm0 = snd (ncshm_init first_hm)"
  have hm0: "hm0 = (core_zero (first_hm\<lparr>gl_im_created := 1\<rparr>))\<lparr>hm_pool := map pmgr_start gl_hpool\<rparr>"
    using init_state[of first_hm] by (simp add: hm0_def first_hm_def)
  define unt where "unt = unit_zero\<lparr>unit_curr := 1, unit_cells := (\<lambda>_. None)(0 := Some cells_zero)\<rparr>"
  define hm1 where "hm1 = hm0\<lparr>hm_unit := (\<lambda>_. None)(0 := Some unt), hm_mem := 0\<rparr>"
  define ps where "ps = map (\<lambda>k. mk_pos 0 0 (of_nat k)) [0..<4095]"
  define hm2 where "hm2 = fold (\<lambda>p. hm_free_cell (mk_hdl p 0) False) ps hm1"
  define hm3 where "hm3 = hm_free_cell (mk_hdl 0xFFF0000 0) False hm2"
  have "carve 0 0 hm1 = hm3" by (simp add: carve_list first_bank_list hm3_def hm2_def ps_def)
  then have mk: "hm_make_free_cells 0 hm0 = Some (NCSCC_RC_SUCCESS, hm3)"
    by (simp add: hm_make_free_cells_def hm0 core_zero_def first_hm_def pmgr_start_def gl_hpool_def
        unit_zero_def numeral_eq_Suc hm1_def unt_def Let_def)
  have start: "hinv {} \<lparr>hs_hm = hm0, hs_held = (\<lambda>_. 0), hs_waits = (\<lambda>_. None)\<rparr>"
    by (rule hinv_start[of first_hm]) (simp_all add: hm0_def first_hm_def init_state)
  have "hinv {} (\<lparr>hs_hm = hm0, hs_held = (\<lambda>_. 0), hs_waits = (\<lambda>_. None)\<rparr>\<lparr>hs_hm := hm3\<rparr>)"
    by (rule hinv_make[OF start, of 0 NCSCC_RC_SUCCESS]) (simp add: mk)
  then have ok: "pools_ok hm3" using hinvD(1) by fastforce
  have len: "length (hm_pool hm1) = HM_POOL_CNT" by (simp add: hm1_def hm0 gl_hpool_def HM_POOL_CNT_def)
  have "free_pool (hm_pool (carve 0 0 hm1) ! 0) = rev (bank_list 0 0) @ free_pool (hm_pool hm1 ! 0)"
    unfolding carve_list by (rule carve_pools[OF len _ pool_zero(2)]) (auto simp: bank_list_def pool_zero)
  then obtain qs where qs: "free_pool (hm_pool hm3 ! 0) = 0xFFF0000 # qs"
    unfolding \<open>carve 0 0 hm1 = hm3\<close> first_bank_list by simp
  have "cell_at hm1 0xFFF0000 \<noteq> None" by (simp add: cell_at_def hm1_def unt_def first_pos)
  then have "cell_at hm2 0xFFF0000 \<noteq> None"
    unfolding hm2_def by (intro carve_cells) (auto simp: ps_def first_pos)
  then obtain d where at: "cell_at hm3 0xFFF0000 = Some \<lparr>cell_data = d, cell_bits = first_hdl\<rparr>"
    unfolding hm3_def using free_cell_at[of hm2 "mk_hdl 0xFFF0000 0" "0xFFF0000" False] first_pos by simp
  moreover have "hm_sem hm3 = (\<lambda>_. None)"
    by (simp add: hm3_def hm2_def hm1_def hm0 core_zero_def first_hm_def fold_free_sem)
  ultimately show ?thesis using that[of hm3] mk ok qs by (simp add: hm0_def)
qed

lemma first_create:
  assumes "take_bit 12 sid = sid"
  shows "\<exists>hm c. ncshm_create_hdl 0 sid save (snd (ncshm_init first_hm)) = Some (first_hdl, hm) \<and>
     live hm first_hdl c \<and> valid_cell sid first_hdl c \<and> hm_sem hm = (\<lambda>_. None)"
proof -
  from first_bank obtain hm3 qs d where mk: "hm_make_free_cells 0 (snd (ncshm_init first_hm)) = Some (NCSCC_RC_SUCCESS, hm3)"
    and ok: "pools_ok hm3" and qs: "free_pool (hm_pool hm3 ! 0) = 0xFFF0000 # qs"
    and at: "cell_at hm3 0xFFF0000 = Some \<lparr>cell_data = d, cell_bits = first_hdl\<rparr>"
    and sem: "hm_sem hm3 = (\<lambda>_. None)" .
  define f where "f = (\<lambda>pm :: HM_PMGR. pm\<lparr>free_pool := qs, in_use := in_use pm + 1, in_q := in_q pm - 1\<rparr>)"
  define c where "c = bind_cell sid save \<lparr>cell_data = d, cell_bits = first_hdl\<rparr>"
  define hm4 where "hm4 = cell_store (pool_upd 0 f hm3) 0xFFF0000 c"
  have "free_pool (hm_pool (snd (ncshm_init first_hm)) ! 0) = []"
    using init_state[of first_hm] by (simp add: first_hm_def pmgr_start_def pmgr_zero_def gl_hpool_def)
  then have cr: "ncshm_create_hdl 0 sid save (snd (ncshm_init first_hm)) = Some (first_hdl, hm4)"
    using mk qs at first_pos pool_zero by (simp add: ncshm_create_hdl_def hm_alloc_cell_def f_def [symmetric] hm4_def c_def)
  have sq: "c_seq_id c = hdl_seq_id first_hdl" by (simp add: c_def) (simp add: c_seq_id_def hdl_seq_id_def)
  have "\<not> is_free (pool_upd 0 f hm3) 0xFFF0000"
    using pools_okD(3)[OF ok pool_zero(2)] qs pools_okD(1)[OF ok] pool_zero by (simp add: is_free_def first_pos pool_upd_nth f_def)
  then have "live hm4 first_hdl c" unfolding hm4_def
    using live_store[of "pool_upd 0 f hm3" "0xFFF0000" c first_hdl c] at first_pos sq by simp
  moreover have "valid_cell sid first_hdl c"
    using sq assms by (simp add: valid_cell_def) (simp add: c_def)
  moreover have "hm_sem hm4 = (\<lambda>_. None)" by (simp add: hm4_def sem)
  ultimately show ?thesis using cr by blast
qed


section \<open>Limits of the manager\<close>

text \<open>
  The use count has eleven bits. The 2047th take that is outstanding at once wraps it to zero,
  which the code only notes, and a destroyer no longer waits for any of the holders.
\<close>

theorem take_wraps:
  assumes "hm_find_cell hm h = Some c" "valid_cell sid h c" "c_use_ct c = 2047"
  shows "\<exists>d hm' hm''. ncshm_take_hdl sid h hm = (cell_data c, hm') \<and>
    ncshm_destroy_hdl sem sid h hm' = (Destroyed d, hm'')"
proof -
  define c' where "c' = set_use_ct 2048 c"
  have ct: "c_use_ct c' = 0" by (simp add: c'_def take_bit_eq_mod)
  have "hm_find_cell (cell_store hm (hdl_pos h) c') h = Some c'"
    using assms(1) by (simp add: hm_find_cell_def cell_at_store)
  moreover have "valid_cell sid h c'" using assms(2) by (simp add: valid_cell_def c'_def)
  ultimately have "\<exists>d hm''. ncshm_destroy_hdl sem sid h (cell_store hm (hdl_pos h) c') = (Destroyed d, hm'')"
    using ct by (simp add: ncshm_destroy_hdl_def Let_def)
  moreover have "ncshm_take_hdl sid h hm = (cell_data c, cell_store hm (hdl_pos h) c')"
    using assms by (simp add: ncshm_take_hdl_def c'_def)
  ultimately show ?thesis by blast
qed

text \<open>
  A pool is described as a range of units, but the current unit of a pool never advances: once the
  256 banks of its first unit are made and no cell is free, a create searches for ever.
\<close>

lemma next_bank_full: "(\<And>b. cells b \<noteq> None) \<Longrightarrow> next_bank k cells cur = None"
  by (induction k arbitrary: cur) auto

theorem pool_exhausted:
  assumes "pool < HM_POOL_CNT" "free_pool (hm_pool hm ! pool) = []"
    "hm_unit hm (ucast (pm_curr (hm_pool hm ! pool))) = Some u" "\<And>b. unit_cells u b \<noteq> None"
  shows "ncshm_create_hdl pool sid save hm = None"
  using assms next_bank_full[of "unit_cells u"]
  by (simp add: ncshm_create_hdl_def hm_alloc_cell_def hm_make_free_cells_def Let_def)

end
