(* ===== verification/Ipc_Props.thy ===== *)
theory Ipc_Props
  imports Ipc_Run Hdl_Props
begin

text \<open>
  Sequences of operations on a mailbox: the code answers as four priority queues would, and the
  mailbox stays well formed.
\<close>

section \<open>Refinement of operations\<close>

text \<open>
  The interface between a detailed machine and its specification: while the guard of each operation
  holds, the machine does not fault, gives the same answer and stays related.
\<close>

fun c_run :: "('o \<Rightarrow> 's \<Rightarrow> ('r \<times> 's) option) \<Rightarrow> 'o list \<Rightarrow> 's \<Rightarrow> ('r list \<times> 's) option" where
  "c_run st [] s = Some ([], s)"
| "c_run st (x # xs) s = do { (r, s) \<leftarrow> st x s; (rs, s) \<leftarrow> c_run st xs s; Some (r # rs, s) }"

fun a_run :: "('o \<Rightarrow> 'a \<Rightarrow> 'r \<times> 'a) \<Rightarrow> 'o list \<Rightarrow> 'a \<Rightarrow> 'r list \<times> 'a" where
  "a_run st [] a = ([], a)"
| "a_run st (x # xs) a = (let (r, a) = st x a; (rs, a) = a_run st xs a in (r # rs, a))"

fun guards_ok :: "('o \<Rightarrow> 'a \<Rightarrow> bool) \<Rightarrow> ('o \<Rightarrow> 'a \<Rightarrow> 'r \<times> 'a) \<Rightarrow> 'o list \<Rightarrow> 'a \<Rightarrow> bool" where
  "guards_ok ok st [] a \<longleftrightarrow> True"
| "guards_ok ok st (x # xs) a \<longleftrightarrow> ok x a \<and> guards_ok ok st xs (snd (st x a))"

locale op_refinement =
  fixes rep :: "'s \<Rightarrow> 'a \<Rightarrow> bool"
    and cstep :: "'o \<Rightarrow> 's \<Rightarrow> ('r \<times> 's) option"
    and astep :: "'o \<Rightarrow> 'a \<Rightarrow> 'r \<times> 'a"
    and ok :: "'o \<Rightarrow> 'a \<Rightarrow> bool"
  assumes sim: "rep s a \<Longrightarrow> ok x a \<Longrightarrow> \<exists>s'. cstep x s = Some (fst (astep x a), s') \<and> rep s' (snd (astep x a))"
begin

lemma run_sim:
  "rep s a \<Longrightarrow> guards_ok ok astep xs a \<Longrightarrow>
     \<exists>s'. c_run cstep xs s = Some (fst (a_run astep xs a), s') \<and> rep s' (snd (a_run astep xs a))"
proof (induction xs arbitrary: s a)
  case (Cons x xs)
  then obtain s1 where 1: "cstep x s = Some (fst (astep x a), s1)" "rep s1 (snd (astep x a))"
    using sim[of s a x] by auto
  with Cons.IH[OF 1(2)] Cons.prems(2) obtain s2 where
    "c_run cstep xs s1 = Some (fst (a_run astep xs (snd (astep x a))), s2)"
    "rep s2 (snd (a_run astep xs (snd (astep x a))))" by auto
  with 1 show ?case by (simp add: split_beta Let_def del: bind_Some_iff)
qed simp

end

section \<open>Operations of a mailbox\<close>

datatype mbx_op = Attach | Detach "(ptr \<Rightarrow> bool) option" | Send ptr u32 | Recv | Limit u32 u32 | Counter u32 ptr
datatype mbx_out = Rc rc | Got ipc_recv

fun mbx_step :: "u32 \<Rightarrow> mbx_op \<Rightarrow> ipc_world \<Rightarrow> (mbx_out \<times> ipc_world) option" where
  "mbx_step h Attach w = map_option (map_prod Rc id) (ncs_ipc_attach (Some h) w)"
| "mbx_step h (Detach cb) w = map_option (map_prod Rc id) (ncs_ipc_detach (Some h) cb w)"
| "mbx_step h (Send m prio) w = map_option (map_prod Rc id) (ncs_ipc_send (Some h) m prio w)"
| "mbx_step h Recv w = map_option (map_prod Got id) (ncs_ipc_non_blk_recv (Some h) w)"
| "mbx_step h (Limit prio n) w = map_option (map_prod Rc id) (ncs_ipc_config_max_msgs (Some h) prio n w)"
| "mbx_step h (Counter prio c) w = map_option (map_prod Rc id) (ncs_ipc_config_usr_counters (Some h) prio c w)"

fun spec_step :: "mbx_op \<Rightarrow> ptr pmail \<Rightarrow> mbx_out \<times> ptr pmail" where
  "spec_step Attach a = (Rc NCSCC_RC_SUCCESS, a\<lparr>pm_refs := pm_refs a + 1\<rparr>)"
| "spec_step (Detach cb) a = (Rc NCSCC_RC_SUCCESS, a_flush cb (a\<lparr>pm_refs := pm_refs a - 1\<rparr>))"
| "spec_step (Send m prio) a = map_prod Rc id (a_send m (4 - unat prio) a)"
| "spec_step Recv a = map_prod (\<lambda>r. Got (case r of None \<Rightarrow> Nothing | Some m \<Rightarrow> Received m)) id (a_recv a)"
| "spec_step (Limit prio n) a = (if prio_bad prio then (Rc NCSCC_RC_FAILURE, a)
     else (Rc NCSCC_RC_SUCCESS, a\<lparr>pm_lim := (pm_lim a)[4 - unat prio := unat n]\<rparr>))"
| "spec_step (Counter prio c) a = (if prio_bad prio \<or> c = NULL then (Rc NCSCC_RC_FAILURE, a) else (Rc NCSCC_RC_SUCCESS, a))"

text \<open>
  What clients must keep to: a message is not sent again while it is queued, priorities are those
  of the enumeration, detaches match attaches, and the counters do not reach \<open>2\<^sup>3\<^sup>2\<close>.
\<close>

fun mbx_op_ok :: "mbx_op \<Rightarrow> ptr pmail \<Rightarrow> bool" where
  "mbx_op_ok Attach a \<longleftrightarrow> int (pm_refs a) + 1 < 2 ^ 32"
| "mbx_op_ok (Detach cb) a \<longleftrightarrow> pm_refs a > 0"
| "mbx_op_ok (Send m prio) a \<longleftrightarrow> \<not> prio_bad prio \<and> m \<noteq> NULL \<and> m \<notin> set (concat (pm_qs a)) \<and>
     int (length (concat (pm_qs a))) + 1 < 2 ^ 32"
| "mbx_op_ok _ a \<longleftrightarrow> True"

lemma mbx_sim:
  assumes "mbx_abs h p w a" "mbx_op_ok x a"
  shows "\<exists>w'. mbx_step h x w = Some (fst (spec_step x a), w') \<and> mbx_abs h p w' (snd (spec_step x a))"
proof (cases x)
  case Attach
  then have "pm_refs a + 1 < 2 ^ 32" using assms(2) by simp
  then show ?thesis using attach_ok[OF assms(1)] Attach by auto
next
  case (Detach cb)
  then show ?thesis using detach_ok[OF assms(1), of cb] assms(2) by auto
next
  case (Send m prio)
  then have "\<not> prio_bad prio" "m \<noteq> NULL" "m \<notin> set (concat (pm_qs a))" "length (concat (pm_qs a)) + 1 < 2 ^ 32"
    using assms(2) by simp_all
  from send_ok[OF assms(1) this] show ?thesis using Send queue_number_ok(2)[of prio] assms(2) by auto
next
  case Recv
  then show ?thesis using recv_ok[OF assms(1)] by auto
next
  case (Limit prio n)
  then show ?thesis using limit_ok[OF assms(1), of prio n] assms(1) queue_number_ok(2)[of prio]
    by (cases "prio_bad prio") (auto simp: ncs_ipc_config_max_msgs_def)
next
  case (Counter prio c)
  then show ?thesis using counter_ok[OF assms(1), of prio c] assms(1)
    by (cases "prio_bad prio \<or> c = NULL") (auto simp: ncs_ipc_config_usr_counters_def)
qed

interpretation mbx: op_refinement "mbx_abs h p" "mbx_step h" spec_step mbx_op_ok for h p
  by unfold_locales (rule mbx_sim)

section \<open>Creation\<close>

definition pm_empty :: "ptr pmail" where
  "pm_empty = \<lparr>pm_qs = replicate 4 [], pm_lim = replicate 4 0, pm_refs = 0\<rparr>"

lemma create_cell:
  assumes "ncshm_create_hdl pool sid save hm = Some (h, hm')" "h \<noteq> 0" "take_bit 12 sid = sid"
  shows "\<exists>c. hm_find_cell hm' h = Some c \<and> valid_cell sid h c \<and> cell_data c = save \<and> c_use_ct c = 1"
proof -
  obtain hm1 c where c: "cell_at hm1 (hdl_pos h) = Some c" "cell_bits c = h"
    and hm': "hm' = cell_store hm1 (hdl_pos h) (bind_cell sid save c)"
    using assms(1,2) by (auto simp: ncshm_create_hdl_def Let_def split: if_splits option.splits)
  have "c_seq_id c = hdl_seq_id h" using c(2) by (simp add: c_seq_id_def hdl_seq_id_def)
  then show ?thesis using c assms(3) by (simp add: hm' hm_find_cell_def cell_at_store valid_cell_def)
qed

lemma ipc_zero_rep:
  assumes "raise_obj so \<ge> 0" "rmv_obj so \<ge> 0" "so_cap so > 0" "so_inds so = 0"
  shows "ipc_rep nx (ipc_zero\<lparr>ipc_sel_obj := so\<rparr>) (replicate 4 [])"
  using assms
  by (simp add: ipc_rep_def links_ok_def counts_ok_def ipc_zero_def queue_ok_def NCS_IPC_PRIO_LEVELS_def)

lemma create_ok:
  assumes "ncs_ipc_create new (Some (a, b, cap)) True w = Some (NCSCC_RC_SUCCESS, h, w')" "0 \<le> a" "0 \<le> b" "0 < cap"
  shows "mbx_abs h new w' pm_empty"
proof -
  obtain hm where new: "new \<noteq> NULL" and cr: "ncshm_create_hdl NCS_HM_POOL_ID_COMMON NCS_SERVICE_ID_OS_SVCS new (iw_hm w) = Some (h, hm)"
    and h: "h \<noteq> 0"
    and w': "w' = ipc_store new (ipc_zero\<lparr>ipc_sel_obj := snd (ncs_sel_obj_create (Some (a, b, cap)) True (ipc_sel_obj ipc_zero))\<rparr>)
      (w\<lparr>iw_hm := hm\<rparr>)"
    using assms(1) by (auto simp: ncs_ipc_create_def Let_def split: if_splits prod.splits rc.splits)
  have "take_bit 12 NCS_SERVICE_ID_OS_SVCS = NCS_SERVICE_ID_OS_SVCS" by (simp add: NCS_SERVICE_ID_OS_SVCS_def take_bit_eq_mod)
  from create_cell[OF cr h this] new h have b: "bound h new hm" by (auto simp: bound_def)
  have r: "ipc_rep (iw_next w) (ipc_zero\<lparr>ipc_sel_obj := snd (ncs_sel_obj_create (Some (a, b, cap)) True (ipc_sel_obj ipc_zero))\<rparr>) (replicate 4 [])"
    by (rule ipc_zero_rep) (use assms(2-4) in \<open>auto simp: ncs_sel_obj_create_def\<close>)
  show ?thesis using b r
    by (simp add: mbx_abs_def w' ipc_store_def pm_empty_def)
      (simp add: ipc_zero_def NCS_IPC_PRIO_LEVELS_def)
qed

section \<open>Properties\<close>

text \<open>
  C39. A mailbox is a priority mailbox. After a successful creation, every sequence of attaches,
  detaches with or without a flush, sends, receives and configurations that keeps to the rules for
  clients runs without a fault, and each call returns what four first-in-first-out queues return:
  a message is queued at its priority unless nobody is attached or the configured limit is reached,
  a receive takes the oldest message of the highest priority that has one, and a flush removes
  exactly the messages the callback selects and keeps the order of the others.
\<close>

theorem mailbox_refines_priority_queues:
  assumes "ncs_ipc_create new (Some (a, b, cap)) True w = Some (NCSCC_RC_SUCCESS, h, w0)" "0 \<le> a" "0 \<le> b" "0 < cap"
    and "guards_ok mbx_op_ok spec_step ops pm_empty"
  shows "\<exists>w'. c_run (mbx_step h) ops w0 = Some (fst (a_run spec_step ops pm_empty), w') \<and>
    mbx_abs h new w' (snd (a_run spec_step ops pm_empty))"
  by (rule mbx.run_sim[OF create_ok[OF assms(1-4)] assms(5)])

text \<open>
  C40. The mailbox stays well formed in every state such a sequence reaches: the four queues are
  chains that end in \<open>NULL\<close>, share no message and have their last message as tail, the count of
  each queue and the total are exact, and the selection object is in one of the two states that the
  comments allow: no message and no indication, or some messages and exactly one indication.
\<close>

theorem mailbox_well_formed:
  assumes "ncs_ipc_create new (Some (a, b, cap)) True w = Some (NCSCC_RC_SUCCESS, h, w0)" "0 \<le> a" "0 \<le> b" "0 < cap"
    and "guards_ok mbx_op_ok spec_step ops pm_empty" and "c_run (mbx_step h) ops w0 = Some (outs, w')"
  shows "\<exists>ipc qs. iw_ipc w' new = Some ipc \<and> length qs = NCS_IPC_PRIO_LEVELS \<and> distinct (concat qs) \<and>
    (\<forall>q < NCS_IPC_PRIO_LEVELS. chain (iw_next w') (q_head (ipc_queue ipc ! q)) (qs ! q) \<and>
       q_tail (ipc_queue ipc ! q) = (if qs ! q = [] then NULL else last (qs ! q)) \<and>
       unat (no_of_msgs ipc ! q) = length (qs ! q)) \<and>
    unat (msg_count ipc) = length (concat qs) \<and>
    so_inds (ipc_sel_obj ipc) = (if msg_count ipc = 0 then 0 else 1)"
proof -
  define a' where "a' = snd (a_run spec_step ops pm_empty)"
  have "mbx_abs h new w' a'"
    using mbx.run_sim[OF create_ok[OF assms(1-4)] assms(5)] assms(6) by (auto simp: a'_def)
  then obtain ipc where ipc: "iw_ipc w' new = Some ipc" and r: "ipc_rep (iw_next w') ipc (pm_qs a')" by (rule mbx_absE)
  then have ct: "counts_ok ipc (pm_qs a')" by (simp add: ipc_rep_def)
  then have "msg_count ipc = 0 \<longleftrightarrow> concat (pm_qs a') = []" by (metis counts_ok_def length_0_conv unat_eq_zero)
  then have "so_inds (ipc_sel_obj ipc) = (if msg_count ipc = 0 then 0 else 1)" using ct by (simp add: counts_ok_def)
  then show ?thesis using ipc r
    by (intro exI[of _ ipc] exI[of _ "pm_qs a'"]) (auto simp: ipc_rep_def links_ok_def counts_ok_def queue_ok_def)
qed

section \<open>A run\<close>

definition first_world :: ipc_world where
  "first_world = \<lparr>iw_hm = snd (ncshm_init first_hm), iw_ipc = (\<lambda>_. None), iw_next = (\<lambda>_. 0), iw_ctr = (\<lambda>_. 0)\<rparr>"

definition first_ops :: "mbx_op list" where
  "first_ops = [Send 800 3, Attach, Send 100 2, Send 200 4, Limit 4 2, Send 300 4, Send 400 4, Recv,
     Detach (Some (\<lambda>m. m = 300)), Recv, Attach, Recv, Recv]"

definition first_outs :: "mbx_out list" where
  "first_outs = [Rc NCSCC_RC_FAILURE, Rc NCSCC_RC_SUCCESS, Rc NCSCC_RC_SUCCESS, Rc NCSCC_RC_SUCCESS, Rc NCSCC_RC_SUCCESS,
     Rc NCSCC_RC_SUCCESS, Rc NCSCC_RC_FAILURE, Got (Received 200), Rc NCSCC_RC_SUCCESS, Got Nothing,
     Rc NCSCC_RC_SUCCESS, Got (Received 100), Got Nothing]"

lemma first_run: "guards_ok mbx_op_ok spec_step first_ops pm_empty" "fst (a_run spec_step first_ops pm_empty) = first_outs"
  by code_simp+

lemma first_mailbox:
  "\<exists>w0. ncs_ipc_create 64 (Some (5, 4, 9)) True first_world = Some (NCSCC_RC_SUCCESS, first_hdl, w0)"
proof -
  obtain hm where "ncshm_create_hdl 0 4 64 (snd (ncshm_init first_hm)) = Some (first_hdl, hm)"
    using first_create[of 4 64] by (auto simp: take_bit_eq_mod)
  then show ?thesis
    by (simp add: ncs_ipc_create_def NCS_HM_POOL_ID_COMMON_def NCS_SERVICE_ID_OS_SVCS_def first_world_def
        ncs_sel_obj_create_def first_hdl_def)
qed

theorem mailbox_refines_priority_queues_witness:
  "\<exists>w0 w'. ncs_ipc_create 64 (Some (5, 4, 9)) True first_world = Some (NCSCC_RC_SUCCESS, first_hdl, w0) \<and>
     c_run (mbx_step first_hdl) first_ops w0 = Some (first_outs, w')"
proof -
  obtain w0 where c: "ncs_ipc_create 64 (Some (5, 4, 9)) True first_world = Some (NCSCC_RC_SUCCESS, first_hdl, w0)"
    using first_mailbox by blast
  from mailbox_refines_priority_queues[OF c _ _ _ first_run(1)] show ?thesis using c first_run(2) by auto
qed

theorem mailbox_well_formed_witness:
  "\<exists>w0 w' ipc. ncs_ipc_create 64 (Some (5, 4, 9)) True first_world = Some (NCSCC_RC_SUCCESS, first_hdl, w0) \<and>
     c_run (mbx_step first_hdl) first_ops w0 = Some (first_outs, w') \<and> iw_ipc w' 64 = Some ipc \<and>
     so_inds (ipc_sel_obj ipc) = (if msg_count ipc = 0 then 0 else 1)"
proof -
  obtain w0 where c: "ncs_ipc_create 64 (Some (5, 4, 9)) True first_world = Some (NCSCC_RC_SUCCESS, first_hdl, w0)"
    using first_mailbox by blast
  have "mbx_abs first_hdl 64 w0 pm_empty" by (rule create_ok[OF c]) simp_all
  from mbx.run_sim[OF this first_run(1)] obtain w' where r: "c_run (mbx_step first_hdl) first_ops w0 = Some (first_outs, w')"
    by (auto simp: first_run(2))
  from mailbox_well_formed[OF c _ _ _ first_run(1) r] show ?thesis using c r by auto
qed

end
