(* ===== verification/Ipc_Release.thy ===== *)
theory Ipc_Release
  imports Ipc_Props
begin

text \<open>
  The blocking receive, the release of a mailbox, and the places where a mailbox does not do what its
  callers and comments expect.
\<close>

section \<open>Blocking receive\<close>

lemma non_blk_recv_with:
  assumes "mbx_abs h p w a"
  shows "ncs_ipc_non_blk_recv (Some h) w = with_mbx Nothing (Some h) recv_locked w"
    and "\<exists>so. ncs_ipc_get_sel_obj (Some h) w = Some (so, w)"
proof -
  from assms obtain ipc where i: "bound h p (iw_hm w)" "iw_ipc w p = Some ipc" by (rule mbx_absE)
  have "with_mbx sel_obj_zero (Some h) (\<lambda>p ipc w. Some (ipc_sel_obj ipc, w)) w = Some (ipc_sel_obj ipc, w\<lparr>iw_hm := iw_hm w\<rparr>)"
    by (rule with_mbx_open[where w' = w, OF i]) simp
  then have g: "ncs_ipc_get_sel_obj (Some h) w = Some (ipc_sel_obj ipc, w)" by (simp add: ncs_ipc_get_sel_obj_def)
  moreover have "h \<noteq> 0" using i(1) by (simp add: bound_def)
  ultimately show "ncs_ipc_non_blk_recv (Some h) w = with_mbx Nothing (Some h) recv_locked w"
    by (simp add: ncs_ipc_non_blk_recv_def)
  show "\<exists>so. ncs_ipc_get_sel_obj (Some h) w = Some (so, w)" using g by blast
qed

text \<open>A receiver waits exactly when the mailbox is empty; otherwise it does what the other receive does.\<close>

lemma recv_waits_iff_empty:
  assumes "mbx_abs h p w a"
  shows "if concat (pm_qs a) = [] then \<exists>w'. ncs_ipc_recv (Some h) w = Some (Blocked, w')
    else ncs_ipc_recv (Some h) w = ncs_ipc_non_blk_recv (Some h) w"
proof -
  from assms obtain ipc where i: "bound h p (iw_hm w)" "iw_ipc w p = Some ipc" "ipc_rep (iw_next w) ipc (pm_qs a)" by (rule mbx_absE)
  obtain hm where t: "ncshm_take_hdl NCS_SERVICE_ID_OS_SVCS h (iw_hm w) = (p, hm)" using take_give[OF i(1)] by blast
  have z: "h \<noteq> 0" "p \<noteq> NULL" using i(1) by (simp_all add: bound_def)
  have ready: "poll_ready (ipc_sel_obj ipc) \<longleftrightarrow> concat (pm_qs a) \<noteq> []"
    using i(3) by (simp add: ipc_rep_def counts_ok_def poll_ready_def)
  have r: "ncs_ipc_recv (Some h) w = (if poll_ready (ipc_sel_obj ipc) then recv_polled True h p (w\<lparr>iw_hm := hm\<rparr>)
      else Some (Blocked, w\<lparr>iw_hm := hm\<rparr>))"
    using non_blk_recv_with(2)[OF assms] t z i(2) by (auto simp: ncs_ipc_recv_def)
  have "ncs_ipc_non_blk_recv (Some h) w = recv_polled True h p (w\<lparr>iw_hm := hm\<rparr>)"
    unfolding non_blk_recv_with(1)[OF assms] using t z i(2) by (simp add: with_mbx_def recv_polled_def)
  then show ?thesis using r ready by simp
qed

section \<open>Release\<close>

lemma release_refused:
  assumes "mbx_abs h p w a" "pm_refs a > 0"
  shows "ncs_ipc_release sem (Some h) cb w = Some (NCSCC_RC_FAILURE, Refused, w)"
proof -
  from assms obtain ipc where i: "bound h p (iw_hm w)" "iw_ipc w p = Some ipc" "unat (ipc_ref_count ipc) = pm_refs a" by (elim mbx_absE)
  obtain hm where hm: "ncshm_take_hdl NCS_SERVICE_ID_OS_SVCS h (iw_hm w) = (p, hm)" "ncshm_give_hdl h hm = Some (iw_hm w)"
    using take_give[OF i(1)] by blast
  have "h \<noteq> 0" "p \<noteq> NULL" "ipc_ref_count ipc \<noteq> 0" using i assms(2) by (auto simp: bound_def)
  then show ?thesis using hm i(2) by (simp add: ncs_ipc_release_def)
qed

text \<open>
  With nobody attached and no other holder of the handle the release frees the mailbox, and its handle
  leads nowhere from then on.
\<close>

lemma release_frees:
  assumes "mbx_abs h p w a" "pm_refs a = 0" "hm_find_cell (iw_hm w) h = Some c" "c_use_ct c = 1"
  shows "\<exists>w'. ncs_ipc_release sem (Some h) None w = Some (NCSCC_RC_SUCCESS, Destroyed p, w') \<and>
    iw_ipc w' p = None \<and> ncs_ipc_send (Some h) m prio w' = Some (NCSCC_RC_FAILURE, w')"
proof -
  from assms(1) obtain ipc where i: "bound h p (iw_hm w)" "iw_ipc w p = Some ipc" "unat (ipc_ref_count ipc) = pm_refs a" by (rule mbx_absE)
  obtain hm where hm: "ncshm_take_hdl NCS_SERVICE_ID_OS_SVCS h (iw_hm w) = (p, hm)" "ncshm_give_hdl h hm = Some (iw_hm w)"
    using take_give[OF i(1)] by blast
  have z: "h \<noteq> 0" "p \<noteq> NULL" "ipc_ref_count ipc = 0" using i assms(2) by (auto simp: bound_def unat_eq_zero)
  have c: "valid_cell NCS_SERVICE_ID_OS_SVCS h c" "cell_data c = p" using i(1) assms(3) by (auto simp: bound_def)
  have "ncshm_destroy_hdl sem NCS_SERVICE_ID_OS_SVCS h (iw_hm w) = (Destroyed p, hm_free_cell h True (iw_hm w))"
    using assms(3,4) c by (simp add: ncshm_destroy_hdl_def Let_def free_cell_store)
  then have "\<exists>w'. ncs_ipc_release sem (Some h) None w = Some (NCSCC_RC_SUCCESS, Destroyed p, w') \<and>
      iw_ipc w' p = None \<and> iw_hm w' = hm_free_cell h True (iw_hm w)"
    using hm i(2) z by (auto simp: ncs_ipc_release_def ipc_store_def release_end_def)
  then obtain w' where w': "ncs_ipc_release sem (Some h) None w = Some (NCSCC_RC_SUCCESS, Destroyed p, w')"
    "iw_ipc w' p = None" "iw_hm w' = hm_free_cell h True (iw_hm w)" by blast
  have "ncshm_take_hdl NCS_SERVICE_ID_OS_SVCS h (iw_hm w') = (NULL, iw_hm w')"
    unfolding w'(3) by (rule freed_cell_refused) (use assms(3) in \<open>simp add: hm_find_cell_def\<close>)
  then have "ncs_ipc_send (Some h) m prio w' = Some (NCSCC_RC_FAILURE, w')"
    using z by (simp add: ncs_ipc_send_def with_mbx_def)
  then show ?thesis using w' by blast
qed

section \<open>Where the mailbox fails\<close>

text \<open>An operation on a handle that is bound to memory that is no longer a mailbox.\<close>

lemma dangling_faults:
  assumes "bound h p (iw_hm w)" "iw_ipc w p = None"
  shows "with_mbx fail (Some h) body w = None"
proof -
  obtain hm where "ncshm_take_hdl NCS_SERVICE_ID_OS_SVCS h (iw_hm w) = (p, hm)" using take_give[OF assms(1)] by blast
  then show ?thesis using assms by (simp add: with_mbx_def bound_def)
qed

text \<open>
  When the memory for the name of a task cannot be had, \<open>ncs_ipc_attach_ext\<close> frees the mailbox, with
  its lock held and its handle still bound. The next operation through the handle uses freed memory.
\<close>

theorem attach_ext_frees_mailbox:
  assumes "mbx_abs h p w a"
  shows "\<exists>w'. ncs_ipc_attach_ext False (Some h) (Some nm) w = Some (NCSCC_RC_FAILURE, w') \<and>
    ncs_ipc_send (Some h) m prio w' = None"
proof -
  from assms obtain ipc where i: "bound h p (iw_hm w)" "iw_ipc w p = Some ipc" by (rule mbx_absE)
  let ?w = "w\<lparr>iw_ipc := (iw_ipc w)(p := None)\<rparr>"
  have "with_mbx NCSCC_RC_FAILURE (Some h) (\<lambda>p ipc w. if \<not> False then Some (NCSCC_RC_FAILURE, w\<lparr>iw_ipc := (iw_ipc w)(p := None)\<rparr>)
        else Some (NCSCC_RC_SUCCESS,
          ipc_store p (ipc\<lparr>ipc_ref_count := ipc_ref_count ipc + 1, ipc_name := Some nm\<rparr>) w)) w =
      Some (NCSCC_RC_FAILURE, ?w\<lparr>iw_hm := iw_hm w\<rparr>)"
    by (rule with_mbx_open[where w' = ?w, OF i]) simp
  then have "ncs_ipc_attach_ext False (Some h) (Some nm) w = Some (NCSCC_RC_FAILURE, ?w)"
    by (simp add: ncs_ipc_attach_ext_def)
  moreover have "ncs_ipc_send (Some h) m prio ?w = None"
    unfolding ncs_ipc_send_def by (rule dangling_faults[where p = p]) (use i in simp_all)
  ultimately show ?thesis by blast
qed

text \<open>
  When the selection object cannot be made, \<open>ncs_ipc_create\<close> frees the mailbox and leaves its handle
  bound, in the variable of the caller.
\<close>

theorem create_leaves_handle:
  assumes "new \<noteq> NULL" "h \<noteq> 0"
    "ncshm_create_hdl NCS_HM_POOL_ID_COMMON NCS_SERVICE_ID_OS_SVCS new (iw_hm w) = Some (h, hm)"
  shows "\<exists>w'. ncs_ipc_create new None True w = Some (NCSCC_RC_FAILURE, h, w') \<and>
    ncs_ipc_release sem (Some h) cb w' = None"
proof -
  let ?w = "w\<lparr>iw_hm := hm, iw_ipc := (iw_ipc w)(new := None)\<rparr>"
  have "take_bit 12 NCS_SERVICE_ID_OS_SVCS = NCS_SERVICE_ID_OS_SVCS" by (simp add: NCS_SERVICE_ID_OS_SVCS_def take_bit_eq_mod)
  from create_cell[OF assms(3,2) this] assms(1,2) have b: "bound h new hm" by (auto simp: bound_def)
  obtain hm' where "ncshm_take_hdl NCS_SERVICE_ID_OS_SVCS h hm = (new, hm')" using take_give[OF b] by blast
  then have "ncs_ipc_release sem (Some h) cb ?w = None" using assms(1,2) by (simp add: ncs_ipc_release_def)
  moreover have "ncs_ipc_create new None True w = Some (NCSCC_RC_FAILURE, h, ?w)"
    using assms by (simp add: ncs_ipc_create_def ncs_sel_obj_create_def)
  ultimately show ?thesis by blast
qed

text \<open>
  \<open>ncs_ipc_send\<close> does not check the priority, as the two configuration functions do: priority \<open>0\<close>
  is queue 4 of an array of four.
\<close>

theorem send_priority_unchecked:
  assumes "mbx_abs h p w a" "pm_refs a > 0"
  shows "ncs_ipc_send (Some h) m 0 w = None"
proof -
  from assms obtain ipc where i: "bound h p (iw_hm w)" "iw_ipc w p = Some ipc" "unat (ipc_ref_count ipc) = pm_refs a" by (elim mbx_absE)
  obtain hm where "ncshm_take_hdl NCS_SERVICE_ID_OS_SVCS h (iw_hm w) = (p, hm)" using take_give[OF i(1)] by blast
  moreover have "ipc_ref_count ipc \<noteq> 0" using i assms(2) by auto
  moreover have "queue_number 0 = NCS_IPC_PRIO_LEVELS" by (simp add: queue_number_def NCS_IPC_PRIO_LEVELS_def)
  ultimately show ?thesis using i by (simp add: ncs_ipc_send_def with_mbx_def bound_def ipc_enqueue_ind_processing_def)
qed

text \<open>A detach that no attach matches leaves a mailbox that counts \<open>2\<^sup>3\<^sup>2 - 1\<close> users.\<close>

theorem detach_underflow:
  assumes "mbx_abs h p w a" "pm_refs a = 0"
  shows "\<exists>w' ipc. ncs_ipc_detach (Some h) None w = Some (NCSCC_RC_SUCCESS, w') \<and> iw_ipc w' p = Some ipc \<and>
    ipc_ref_count ipc = - 1"
proof -
  from assms obtain ipc where i: "bound h p (iw_hm w)" "iw_ipc w p = Some ipc" "unat (ipc_ref_count ipc) = pm_refs a" by (elim mbx_absE)
  let ?w = "ipc_store p (ipc\<lparr>ipc_ref_count := ipc_ref_count ipc - 1\<rparr>) w"
  have "with_mbx NCSCC_RC_FAILURE (Some h) (\<lambda>p ipc w. let ipc = ipc\<lparr>ipc_ref_count := ipc_ref_count ipc - 1\<rparr>
     in case None of None \<Rightarrow> Some (NCSCC_RC_SUCCESS, ipc_store p ipc w) | Some f \<Rightarrow> ipc_flush f p ipc w) w =
      Some (NCSCC_RC_SUCCESS, ?w\<lparr>iw_hm := iw_hm w\<rparr>)"
    by (rule with_mbx_open[where w' = ?w, OF i(1,2)]) (simp add: ipc_store_def)
  moreover have "ipc_ref_count ipc = 0" using i(3) assms(2) by (simp add: unat_eq_zero)
  ultimately show ?thesis by (simp add: ncs_ipc_detach_def ipc_store_def)
qed

text \<open>
  On a selection object that was shut, \<open>ncs_sel_obj_rmv_ind\<close> returns \<open>NCSCC_RC_FAILURE\<close>, which is 2,
  and not the \<open>-1\<close> that its description and the callers mean by that.
\<close>

theorem rmv_ind_shut_positive:
  "rmv_obj so = -1 \<Longrightarrow> \<exists>so'. ncs_sel_obj_rmv_ind nb one so = Some (2, so')"
  by (simp add: ncs_sel_obj_rmv_ind_def rc_val_def)

end
