(* ===== verification/Spec2Isabelle.thy ===== *)
theory Spec2Isabelle
  imports Glnd_Props Gld_Sync_Props Patricia_Props Gla_Props Ipc_Release
begin

text \<open>
  A verification of the lock service of OpenSAF and of the parts of the base library it stands on.
  Paths below are relative to \<open>src/src/\<close>.

  \<^bold>\<open>The program.\<close> The lock service (\<open>lck/\<close>) gives the processes of a cluster named locks in shared
  (protected read) and exclusive mode. It has three parts.
  \<^item> The \<^emph>\<open>agent library\<close> (\<open>lck/agent\<close>, GLA) is linked to applications and turns API calls into
    requests to the node director of its node.
  \<^item> A \<^emph>\<open>node director\<close> (\<open>lck/lcknd\<close>, GLND) runs on each node. For each lock resource one node
    director is the \<^emph>\<open>master\<close>: it keeps the granted and waiting requests of all nodes.
  \<^item> The \<^emph>\<open>director\<close> (\<open>lck/lckd\<close>, GLD) runs active and standby on two nodes. It keeps, for each
    resource, its id and the nodes that have it open in the order of opening, of which the first is
    the master, and elects a new master when a node leaves. The active director sends every change
    to the standby one, which rebuilds the whole database in a cold sync.
  They exchange messages (\<open>mds\<close>) that are encoded into chains of buffers, wait for events in
  mailboxes, reach shared objects through handles and keep their tables in Patricia trees; these
  four are components of the base library (\<open>base/\<close>).

  \<^bold>\<open>Conventions\<close> (\<open>Prelude\<close>, \<open>Glsv_Data\<close>). C structures are records and unions datatypes, with
  the fields of the source under a prefix where names would clash; integers keep their width
  (\<open>u8\<close>, \<open>u32\<close>, \<open>u64\<close>) where arithmetic on them matters; addresses are 64-bit words with \<open>NULL\<close> as
  0, and objects that are reached by pointer live in a map from addresses. An operation takes the
  state and returns the new one; the result \<open>None\<close> of an operation is a \<^emph>\<open>fault\<close>: a dereference
  of \<open>NULL\<close> or of freed memory, an access outside an array, a failed assertion, or a loop that does
  not end. Return codes are values. What comes from outside (addresses \<open>malloc\<close> returns,
  outcomes of sends, times, descriptors) is an argument or an environment record. Messages sent,
  checkpoints written and timers started are kept in output fields in their order.
\<close>

text \<open>
  \<^bold>\<open>Theories and sources.\<close>

  \<^item> \<^bold>\<open>Tables.\<close> \<open>Key_Table\<close> is the reference of a tree of keys (a sorted association list, with the
    locale \<open>keyed_tree\<close> as its contract), which the models of the directors use.
    \<open>Patricia\<close> is \<open>base/patricia.c\<close> with its nodes in an explicit memory. \<open>Crit_Bit\<close> (shape and
    invariant), \<open>Key_Order\<close> and \<open>Key_Target\<close> (order of keys), \<open>Patricia_Inv\<close>, \<open>Patricia_Add\<close>,
    \<open>Patricia_Del\<close>, \<open>Patricia_Del_Run\<close>, \<open>Patricia_Next\<close>, \<open>Patricia_Next_Run\<close> and
    \<open>Patricia_Table\<close> prove that it implements the reference, by an interpretation of \<open>keyed_tree\<close>;
    \<open>Patricia_Props\<close> states the results (C32 to C35).
  \<^item> \<^bold>\<open>Node director.\<close> \<open>Rw_Lock\<close> is the abstract reader/writer lock with waiting lists, and the
    locale \<open>rw_impl\<close> of its implementations. \<open>Glnd_State\<close> has the control block
    (\<open>lck/lcknd/glnd_cb.h\<close>, \<open>glnd_res.h\<close>), clients and timers (\<open>glnd_client.c\<close>, \<open>glnd_tmr.c\<close>);
    \<open>Glnd_Res\<close> and \<open>Glnd_Lock\<close> are \<open>glnd_res.c\<close>, \<open>Glnd_Queue\<close> is \<open>glnd_queue.c\<close>, \<open>Glnd_Evt\<close>
    the handlers of \<open>glnd_evt.c\<close> for the master of a resource. \<open>Glnd_Core\<close>, \<open>Glnd_Refine\<close>,
    \<open>Glnd_Master\<close>, \<open>Glnd_Request\<close>, \<open>Glnd_Evt_Refine\<close> and \<open>Glnd_Election\<close> prove the invariant and
    the refinement; \<open>Glnd_Props\<close> states the results (C1 to C13).
  \<^item> \<^bold>\<open>Director.\<close> \<open>Gld_State\<close> (\<open>gld_cb.h\<close>), \<open>Gld_Rsc\<close> (\<open>gld_rsc.c\<close>, \<open>gld_tmr.c\<close>), \<open>Gld_Evt\<close>
    (\<open>gld_evt.c\<close>). \<open>Gld_Inv\<close>, \<open>Gld_Ops\<close>, \<open>Gld_Run\<close>, \<open>Gld_Handlers\<close>, \<open>Gld_Down\<close>,
    \<open>Gld_Dispatch\<close> prove the invariant; \<open>Gld_Dir\<close> is the abstract directory with the locale
    \<open>lock_directory\<close>. \<open>Gld_Props\<close> states the results (C14 to C24).
  \<^item> \<^bold>\<open>Replication.\<close> \<open>Gld_Standby\<close> is \<open>gld_standby.c\<close> with the role change of \<open>gld_amf.c\<close> and the
    decoding of updates in \<open>gld_mbcsv.c\<close>; \<open>Gld_Replica\<close>, \<open>Gld_Sb_Run\<close>, \<open>Gld_Mirror\<close>, \<open>Gld_Pair\<close> (with
    the locale \<open>guarded_system\<close>) relate the two directors; \<open>Gld_Sb_Props\<close> has C25 to C27.
    \<open>Gld_Sync\<close>, \<open>Gld_Sync_Dec\<close> and \<open>Gld_Destroy\<close> are cold and warm sync (\<open>gld_mbcsv.c\<close>,
    \<open>gld_cb_destroy\<close> of \<open>gld_api.c\<close>); \<open>Gld_Sync_Props\<close> has C28 to C31.
  \<^item> \<^bold>\<open>Messages.\<close> \<open>Usrbuf\<close> has the buffer chains of \<open>base/sysf_mem.c\<close> and the encode/decode cursor of
    \<open>base/hj_ubaid.c\<close>, \<open>Octets\<close> the integers of \<open>base/hj_enc.c\<close> and \<open>base/hj_dec.c\<close>, \<open>Uba_View\<close> what
    they do on lists of octets. \<open>Gla_Wire\<close>, \<open>Gla_Msg\<close>, \<open>Gla_Resp\<close> are the encoders and decoders
    of \<open>lck/agent/gla_mds.c\<close> and \<open>lck/lcknd/glnd_mds.c\<close>, \<open>Gla_Enc\<close> and \<open>Gla_Dec\<close> their wire
    formats; \<open>Gla_Props\<close> has C36 and C37.
  \<^item> \<^bold>\<open>Handles.\<close> \<open>Hdl\<close> is \<open>base/hj_hdl.c\<close> with the bit fields of \<open>base/ncs_hdl.h\<close>; \<open>Hdl_View\<close>,
    \<open>Hdl_Inv\<close>, \<open>Hdl_Step\<close>, \<open>Hdl_Run\<close> (the step relation of threads that share the manager) and
    \<open>Hdl_Props\<close> (C38).
  \<^item> \<^bold>\<open>Mailboxes.\<close> \<open>Sel_Obj\<close> has the selection objects of \<open>base/os_defs.c\<close>, \<open>Ipc\<close> is
    \<open>base/sysf_ipc.c\<close> on top of \<open>Hdl\<close>; \<open>Ipc_Rep\<close> and \<open>Ipc_Ops\<close> relate the linked queues to lists,
    \<open>Ipc_Run\<close> has the contract of a priority mailbox and the operations that implement it,
    \<open>Ipc_Props\<close> the sequences of operations (locale \<open>op_refinement\<close>) with C39 and C40,
    \<open>Ipc_Release\<close> the blocking receive, the release and the faults.

  State and operations keep the names of the source. \<open>GLND_CB\<close> holds the maps \<open>ress\<close>, \<open>lcks\<close> and
  \<open>clients\<close> from addresses to \<open>GLND_RESOURCE_INFO\<close>, lock nodes and clients; a linked list of the
  source is the list of its addresses. \<open>GLSV_GLD_CB\<close> holds \<open>rscs\<close> and \<open>nodes\<close> in the same way, and
  its three trees as tables. In \<open>Patricia\<close> and \<open>Ipc\<close> the links themselves are part of the state.
\<close>

text \<open>
  \<^bold>\<open>What is shown.\<close>

  \<^item> \<^bold>\<open>The lock.\<close> Whatever events a master handles, an exclusive lock excludes all others (C1),
    nobody waits without a reason (C2), the control block stays well formed (C3); requests and
    releases refine the reader/writer lock (C4, C5, C7), handlers do not fault (C6), orphaned locks
    block and a purge unblocks (C9, C10), a new master takes over every request once (C11). C8, C12
    and C13 are error paths, the last two defects.
  \<^item> \<^bold>\<open>The directory.\<close> All events keep the structures of the director consistent (C14), so that an
    id has one name and one master (C15), every event is handled (C16), opening, closing and the loss
    of a node refine the directory (C17 to C19, C23, C24), ids are fresh (C22). C20 and C21 say
    exactly when a director crashes.
  \<^item> \<^bold>\<open>Redundancy.\<close> The standby director follows the active one (C25) except in one case, which is
    characterised (C26) and leads to a crash after a failover (C27). A cold sync transfers the database
    (C29) and ends, unless the number of resources is a multiple of ten (C28) or a resource has no nodes
    (C30); a warm sync repairs a standby director that missed updates (C31).
  \<^item> \<^bold>\<open>The base.\<close> The Patricia tree is a sorted table, its successor search ends, and it reads no
    bit outside a key (C32 to C35). What agents and node directors encode the other side decodes
    (C36, C37). A handle is destroyed only when nobody uses its object (C38). A mailbox delivers
    by priority and in order, and keeps its links, counts and indication right (C39, C40).
  \<^item> Theorems next to these show defects of the code on concrete or general states, for example
    \<open>Gla_Props.client_info_overflow\<close>, \<open>Hdl_Props.take_wraps\<close>, \<open>Ipc_Release.create_leaves_handle\<close>.

  \<^bold>\<open>Loops and bounds.\<close> Loops over lists are structural recursion. A loop that need not end is a
  \<open>partial_function\<close>, or has fuel; that it ends, or that the fuel is enough, is proved.
  \<^item> \<open>Gld_Rsc.gen_loop\<close>, the search of the id generator, is a \<open>partial_function\<close>; it returns (C22).
  \<^item> The walks of \<open>Patricia\<close> and \<open>Patricia_Next\<close> are \<open>partial_function\<close>s; they return on every tree that
    additions and deletions build (C32, C33).
  \<^item> \<open>Ipc.flush_loop\<close> is a \<open>partial_function\<close>; on a well-formed mailbox it returns
    (\<open>Ipc_Ops.flush_loop_rep\<close>).
  \<^item> The loops of the directors that ask a tree for its first or next entry until there is none have one
    unit of fuel more than entries; every round removes or passes one.
  \<^item> \<open>Usrbuf.put_loop\<close> takes at least one octet a round, so the number of octets is enough.
  \<^item> \<open>Hdl.next_bank\<close>: an index of eight bits has seen every bank after 256 rounds; a search that has
    not found one by then never ends, which \<open>Hdl_Props.pool_exhausted\<close> uses.
  Numbers the code does not guard are guards of the theorems: at most 2046 takes of one handle at
  once, fewer than \<open>2\<^sup>3\<^sup>2\<close> messages in a mailbox, a message body that lies in one buffer (C36, C37).

  \<^bold>\<open>Concurrency.\<close> A node director and a director have one thread that handles one event at a time, so
  sequences of events are their behaviours. The handle manager is used by many threads; its pool locks
  make each operation atomic, and a destroyer that waits gives up its lock, so its two halves are two
  steps of \<open>Hdl_Run.hstep\<close>. An operation on a mailbox holds the lock of the mailbox.

  \<^bold>\<open>Not modelled.\<close>
  \<^item> The handlers of \<open>glnd_evt.c\<close> for requests of agents, with \<open>glnd_agent.c\<close>, \<open>glnd_res_req.c\<close> and the
    API functions of \<open>lck/agent\<close>: they translate between the structures of the API and the requests
    that are modelled, and keep lists of agents and of opens in progress.
  \<^item> \<open>glnd_ckpt.c\<close>, \<open>glnd_shm.c\<close> and \<open>glnd_restart.c\<close>: copies in POSIX shared memory of lists that the
    model has, and reading them back.
  \<^item> The EDU interpreter (\<open>base/hj_edu.c\<close>) and the rules of \<open>lck/common/glsv_edu.c\<close> that it runs over raw
    memory: the order and the widths of the fields are the model of the messages between directors.
  \<^item> Registration, start-up and callbacks of the transport, AMF, CLM and IMM: they are outside the
    service, and what the code relies on of them is in the environment records.
  \<^item> Trace calls, except where an argument dereferences a pointer that was not checked.
  \<^item> The other services of OpenSAF (AMF, IMM, checkpoint, event, log, message, notification, platform and
    software management), most of them in C++, which the lock service does not depend on for its logic.
\<close>

end
